(* ===== verification/Prelude.thy ===== *)
theory Prelude
  imports Main "HOL-Library.Word" "HOL-Library.Signed_Division"
begin

text \<open>
  The vocabulary shared by every theory of this development: Rust's machine integers with the
  three overflow disciplines the contract uses (checked, saturating, trapping: the release
  profile of \<^verbatim>\<open>Cargo.toml\<close> sets \<^verbatim>\<open>overflow-checks = true\<close>), the computation type of a contract
  function (a typed error, a host trap, or a value, each with the storage it leaves), the rules
  that turn a successful run into the facts about its steps, and the ordered map of the Soroban
  host with the interface its clients rely on.
\<close>

named_theorems run_simps \<open>what a successful run of a primitive says about its steps\<close>
named_theorems run_eval \<open>how the primitives compute on a given state\<close>
named_theorems view_rules \<open>compositional rules for parts of the state a computation does not write\<close>

section \<open>Machine integers\<close>

type_synonym u8 = "8 word"
type_synonym u32 = "32 word"
type_synonym u64 = "64 word"

text \<open>
  Signed integers are mathematical integers with their range written out, since the contract
  reads them through checked, saturating or trapping operations only.
\<close>

type_synonym i32 = int
type_synonym i64 = int
type_synonym i128 = int

definition in_i128 :: "int \<Rightarrow> bool" where
  "in_i128 x \<longleftrightarrow> - (2 ^ 127) \<le> x \<and> x < 2 ^ 127"

definition in_i64 :: "int \<Rightarrow> bool" where
  "in_i64 x \<longleftrightarrow> - (2 ^ 63) \<le> x \<and> x < 2 ^ 63"

definition checked_add_i128 :: "i128 \<Rightarrow> i128 \<Rightarrow> i128 option" where
  "checked_add_i128 a b = (if in_i128 (a + b) then Some (a + b) else None)"

definition checked_mul_i128 :: "i128 \<Rightarrow> i128 \<Rightarrow> i128 option" where
  "checked_mul_i128 a b = (if in_i128 (a * b) then Some (a * b) else None)"

text \<open>Rust divides towards zero, and \<open>checked_div\<close> also refuses \<open>i128::MIN / -1\<close>.\<close>

definition checked_div_i128 :: "i128 \<Rightarrow> i128 \<Rightarrow> i128 option" where
  "checked_div_i128 a b = (if b = 0 \<or> \<not> in_i128 (a sdiv b) then None else Some (a sdiv b))"

definition saturate_i128 :: "int \<Rightarrow> i128" where
  "saturate_i128 x = (if x < - (2 ^ 127) then - (2 ^ 127) else if 2 ^ 127 \<le> x then 2 ^ 127 - 1 else x)"

definition saturating_sub_i128 :: "i128 \<Rightarrow> i128 \<Rightarrow> i128" where
  "saturating_sub_i128 a b = saturate_i128 (a - b)"

definition saturating_mul_i128 :: "i128 \<Rightarrow> i128 \<Rightarrow> i128" where
  "saturating_mul_i128 a b = saturate_i128 (a * b)"

definition saturating_sub_u64 :: "u64 \<Rightarrow> u64 \<Rightarrow> u64" where
  "saturating_sub_u64 a b = (if a \<le> b then 0 else a - b)"

definition saturating_mul_u64 :: "u64 \<Rightarrow> u64 \<Rightarrow> u64" where
  "saturating_mul_u64 a b = (if unat a * unat b < 2 ^ 64 then a * b else - 1)"

lemma checked_add_i128_Some [simp]:
  "checked_add_i128 a b = Some c \<longleftrightarrow> c = a + b \<and> in_i128 (a + b)"
  by (auto simp: checked_add_i128_def)

lemma checked_mul_i128_Some [simp]:
  "checked_mul_i128 a b = Some c \<longleftrightarrow> c = a * b \<and> in_i128 (a * b)"
  by (auto simp: checked_mul_i128_def)

lemma sdiv_nonneg: "0 \<le> a \<Longrightarrow> 0 < b \<Longrightarrow> (a :: int) sdiv b = a div b"
  by (cases "a = 0") (simp_all add: signed_divide_int_def)

lemma in_i128_div: "in_i128 a \<Longrightarrow> 0 < b \<Longrightarrow> in_i128 (a sdiv b)"
proof -
  assume a: "in_i128 a" and b: "0 < b"
  have "\<bar>a sdiv b\<bar> \<le> \<bar>a\<bar>"
  proof -
    have "\<bar>a\<bar> div b \<le> \<bar>a\<bar> div 1" using b by (intro zdiv_mono2) simp_all
    then have "\<bar>a\<bar> div b \<le> \<bar>a\<bar>" by simp
    moreover have "0 \<le> \<bar>a\<bar> div b" using b by (simp add: pos_imp_zdiv_nonneg_iff)
    ultimately show ?thesis using b by (simp add: signed_divide_int_def abs_mult abs_sgn_eq)
  qed
  moreover have "a sdiv b \<noteq> 2 ^ 127"
  proof (cases "0 \<le> a")
    case True
    with b a calculation show ?thesis by (auto simp: in_i128_def)
  next
    case False
    then have "a sdiv b \<le> 0" using b
      by (simp add: signed_divide_int_def pos_imp_zdiv_nonneg_iff)
    then show ?thesis by auto
  qed
  ultimately show "in_i128 (a sdiv b)" using a by (auto simp: in_i128_def abs_le_iff)
qed

lemma checked_div_i128_pos [simp]:
  "0 < b \<Longrightarrow> checked_div_i128 a b = Some c \<longleftrightarrow> in_i128 (a sdiv b) \<and> c = a sdiv b"
  by (auto simp: checked_div_i128_def)

lemma unat_saturating_sub_u64 [simp]:
  "unat (saturating_sub_u64 a b) = unat a - unat b"
  by (auto simp: saturating_sub_u64_def word_le_nat_alt unat_sub)

lemma unat_u64_bound: "unat (x :: u64) < 2 ^ 64"
proof -
  have "unat x < 2 ^ LENGTH(64)" by (rule unsigned_less)
  then show ?thesis by simp
qed

lemma unat_u32_bound: "unat (x :: u32) < 2 ^ 32"
proof -
  have "unat x < 2 ^ LENGTH(32)" by (rule unsigned_less)
  then show ?thesis by simp
qed

section \<open>Contract computations\<close>

text \<open>
  A contract function takes the storage and returns a value, returns a typed error, or traps the
  host (a failed \<^verbatim>\<open>require_auth\<close>, an arithmetic overflow, a failed token call). A typed error keeps
  the storage it was raised in: the caller may go on, and whether the writes survive is decided by
  the host at the boundary of the contract call, see \<open>invoke\<close> below.
\<close>

datatype ('s, 'e, 'a) res = Ok 'a 's | Err 'e 's | Trap

type_synonym ('s, 'e, 'a) comp = "'s \<Rightarrow> ('s, 'e, 'a) res"

definition ret :: "'a \<Rightarrow> ('s, 'e, 'a) comp" where
  "ret x s = Ok x s"

definition fail :: "'e \<Rightarrow> ('s, 'e, 'a) comp" where
  "fail c s = Err c s"

definition trap :: "('s, 'e, 'a) comp" where
  "trap s = Trap"

definition bnd :: "('s, 'e, 'a) comp \<Rightarrow> ('a \<Rightarrow> ('s, 'e, 'b) comp) \<Rightarrow> ('s, 'e, 'b) comp" where
  "bnd m f s = (case m s of Ok x t \<Rightarrow> f x t | Err c t \<Rightarrow> Err c t | Trap \<Rightarrow> Trap)"

definition thn :: "('s, 'e, unit) comp \<Rightarrow> ('s, 'e, 'b) comp \<Rightarrow> ('s, 'e, 'b) comp" where
  "thn m n = bnd m (\<lambda>_. n)"

definition reads :: "('s \<Rightarrow> 'a) \<Rightarrow> ('s, 'e, 'a) comp" where
  "reads f s = Ok (f s) s"

definition modify :: "('s \<Rightarrow> 's) \<Rightarrow> ('s, 'e, unit) comp" where
  "modify f s = Ok () (f s)"

definition err_if :: "bool \<Rightarrow> 'e \<Rightarrow> ('s, 'e, unit) comp" where
  "err_if b c s = (if b then Err c s else Ok () s)"

definition doif :: "bool \<Rightarrow> ('s, 'e, unit) comp \<Rightarrow> ('s, 'e, unit) comp" where
  "doif b m = (if b then m else ret ())"

definition ok_or :: "'a option \<Rightarrow> 'e \<Rightarrow> ('s, 'e, 'a) comp" where
  "ok_or x c s = (case x of Some v \<Rightarrow> Ok v s | None \<Rightarrow> Err c s)"

definition some_or_trap :: "'a option \<Rightarrow> ('s, 'e, 'a) comp" where
  "some_or_trap x s = (case x of Some v \<Rightarrow> Ok v s | None \<Rightarrow> Trap)"

text \<open>\<^verbatim>\<open>let _ = f(..);\<close> drops a typed error and goes on in the storage it left.\<close>

definition discard :: "('s, 'e, 'a) comp \<Rightarrow> ('s, 'e, unit) comp" where
  "discard m s = (case m s of Ok _ t \<Rightarrow> Ok () t | Err _ t \<Rightarrow> Ok () t | Trap \<Rightarrow> Trap)"

primrec for_each :: "'a list \<Rightarrow> ('a \<Rightarrow> ('s, 'e, unit) comp) \<Rightarrow> ('s, 'e, unit) comp" where
  "for_each [] f = ret ()"
| "for_each (x # xs) f = thn (f x) (for_each xs f)"

text \<open>
  The contract-call boundary of the Soroban host: the storage writes of a call survive only when
  the call returns successfully. A call that returns a typed error or traps leaves no trace.
\<close>

definition invoke :: "('s, 'e, 'a) comp \<Rightarrow> 's \<Rightarrow> ('s, 'e, 'a) res" where
  "invoke m s = (case m s of Ok x t \<Rightarrow> Ok x t | Err c _ \<Rightarrow> Err c s | Trap \<Rightarrow> Trap)"

definition final :: "'s \<Rightarrow> ('s, 'e, 'a) res \<Rightarrow> 's" where
  "final s r = (case r of Ok _ t \<Rightarrow> t | Err _ t \<Rightarrow> t | Trap \<Rightarrow> s)"

subsection \<open>Trapping arithmetic\<close>

definition add_i128 :: "i128 \<Rightarrow> i128 \<Rightarrow> ('s, 'e, i128) comp" where
  "add_i128 a b s = (if in_i128 (a + b) then Ok (a + b) s else Trap)"

definition sub_i128 :: "i128 \<Rightarrow> i128 \<Rightarrow> ('s, 'e, i128) comp" where
  "sub_i128 a b s = (if in_i128 (a - b) then Ok (a - b) s else Trap)"

definition add_word :: "'n::len word \<Rightarrow> 'n word \<Rightarrow> ('s, 'e, 'n word) comp" where
  "add_word a b s = (if unat a + unat b < 2 ^ LENGTH('n) then Ok (a + b) s else Trap)"

definition sub_word :: "'n::len word \<Rightarrow> 'n word \<Rightarrow> ('s, 'e, 'n word) comp" where
  "sub_word a b s = (if b \<le> a then Ok (a - b) s else Trap)"

definition mul_word :: "'n::len word \<Rightarrow> 'n word \<Rightarrow> ('s, 'e, 'n word) comp" where
  "mul_word a b s = (if unat a * unat b < 2 ^ LENGTH('n) then Ok (a * b) s else Trap)"

subsection \<open>Computing with the primitives\<close>

lemmas [run_eval] = ret_def fail_def trap_def bnd_def thn_def reads_def modify_def err_if_def
  doif_def ok_or_def some_or_trap_def discard_def add_i128_def sub_i128_def add_word_def
  sub_word_def mul_word_def

subsection \<open>Successful runs\<close>

lemma bnd_Ok [run_simps]:
  "bnd m f s = Ok r t \<longleftrightarrow> (\<exists>x u. m s = Ok x u \<and> f x u = Ok r t)"
  by (auto simp: bnd_def split: res.splits)

lemma thn_Ok [run_simps]:
  "thn m n s = Ok r t \<longleftrightarrow> (\<exists>u. m s = Ok () u \<and> n u = Ok r t)"
  by (auto simp: thn_def bnd_Ok)

lemma ret_Ok [run_simps]: "ret x s = Ok r t \<longleftrightarrow> r = x \<and> t = s"
  by (auto simp: ret_def)

lemma fail_Ok [run_simps]: "fail c s = Ok r t \<longleftrightarrow> False"
  by (simp add: fail_def)

lemma trap_Ok [run_simps]: "trap s = Ok r t \<longleftrightarrow> False"
  by (simp add: trap_def)

lemma reads_Ok [run_simps]: "reads f s = Ok r t \<longleftrightarrow> r = f s \<and> t = s"
  by (auto simp: reads_def)

lemma modify_Ok [run_simps]: "modify f s = Ok r t \<longleftrightarrow> t = f s"
  by (auto simp: modify_def)

lemma err_if_Ok [run_simps]: "err_if b c s = Ok r t \<longleftrightarrow> \<not> b \<and> t = s"
  by (auto simp: err_if_def)

lemma doif_Ok [run_simps]:
  "doif b m s = Ok r t \<longleftrightarrow> (b \<and> m s = Ok () t) \<or> (\<not> b \<and> t = s)"
  by (auto simp: doif_def ret_def)

lemma ok_or_Ok [run_simps]: "ok_or x c s = Ok r t \<longleftrightarrow> x = Some r \<and> t = s"
  by (auto simp: ok_or_def split: option.splits)

lemma some_or_trap_Ok [run_simps]: "some_or_trap x s = Ok r t \<longleftrightarrow> x = Some r \<and> t = s"
  by (auto simp: some_or_trap_def split: option.splits)

lemma add_i128_Ok [run_simps]: "add_i128 a b s = Ok r t \<longleftrightarrow> in_i128 (a + b) \<and> r = a + b \<and> t = s"
  by (auto simp: add_i128_def)

lemma sub_i128_Ok [run_simps]: "sub_i128 a b s = Ok r t \<longleftrightarrow> in_i128 (a - b) \<and> r = a - b \<and> t = s"
  by (auto simp: sub_i128_def)

lemma add_word_Ok [run_simps]:
  "add_word (a :: 'n::len word) b s = Ok r t \<longleftrightarrow>
     unat a + unat b < 2 ^ LENGTH('n) \<and> r = a + b \<and> t = s"
  by (auto simp: add_word_def)

lemma sub_word_Ok [run_simps]: "sub_word a b s = Ok r t \<longleftrightarrow> b \<le> a \<and> r = a - b \<and> t = s"
  by (auto simp: sub_word_def)

lemma mul_word_Ok [run_simps]:
  "mul_word (a :: 'n::len word) b s = Ok r t \<longleftrightarrow>
     unat a * unat b < 2 ^ LENGTH('n) \<and> r = a * b \<and> t = s"
  by (auto simp: mul_word_def)

lemma unat_add_no_overflow:
  "unat (a :: 'n::len word) + unat b < 2 ^ LENGTH('n) \<Longrightarrow> unat (a + b) = unat a + unat b"
  by (simp add: unat_add_lem)

lemma invoke_Ok [run_simps]: "invoke m s = Ok r t \<longleftrightarrow> m s = Ok r t"
  by (auto simp: invoke_def split: res.splits)

lemma invoke_Err: "invoke m s = Err c t \<longleftrightarrow> t = s \<and> (\<exists>u. m s = Err c u)"
  by (auto simp: invoke_def split: res.splits)

lemma final_invoke:
  "final s (invoke m s) = (case m s of Ok _ t \<Rightarrow> t | Err _ _ \<Rightarrow> s | Trap \<Rightarrow> s)"
  by (auto simp: final_def invoke_def split: res.splits)

subsection \<open>Monad laws\<close>

lemma bnd_ret [simp]: "bnd m ret = m"
  by (rule ext) (simp add: bnd_def ret_def split: res.split)

lemma ret_bnd [simp]: "bnd (ret x) f = f x"
  by (rule ext) (simp add: bnd_def ret_def)

lemma bnd_bnd: "bnd (bnd m f) g = bnd m (\<lambda>x. bnd (f x) g)"
  by (rule ext) (simp add: bnd_def split: res.split)

section \<open>Views: what a computation leaves alone\<close>

text \<open>
  \<open>keeps v m\<close>: a successful run of \<open>m\<close> leaves the view \<open>v\<close> of the state as it was.
  \<open>maintains I m\<close>: a successful run started in \<open>I\<close> ends in \<open>I\<close>. Both are closed under
  sequencing, so a statement about an operation follows from its primitives.
\<close>

definition keeps :: "('s \<Rightarrow> 'v) \<Rightarrow> ('s, 'e, 'a) comp \<Rightarrow> bool" where
  "keeps v m \<longleftrightarrow> (\<forall>s r t. m s = Ok r t \<longrightarrow> v t = v s)"

definition maintains :: "('s \<Rightarrow> bool) \<Rightarrow> ('s, 'e, 'a) comp \<Rightarrow> bool" where
  "maintains I m \<longleftrightarrow> (\<forall>s r t. I s \<longrightarrow> m s = Ok r t \<longrightarrow> I t)"

lemma keepsD: "keeps v m \<Longrightarrow> m s = Ok r t \<Longrightarrow> v t = v s"
  by (simp add: keeps_def)

lemma keepsI: "(\<And>s r t. m s = Ok r t \<Longrightarrow> v t = v s) \<Longrightarrow> keeps v m"
  by (simp add: keeps_def)

lemma maintainsD: "maintains I m \<Longrightarrow> I s \<Longrightarrow> m s = Ok r t \<Longrightarrow> I t"
  unfolding maintains_def by blast

lemma maintainsI: "(\<And>s r t. I s \<Longrightarrow> m s = Ok r t \<Longrightarrow> I t) \<Longrightarrow> maintains I m"
  by (simp add: maintains_def)

lemma keeps_bnd [view_rules]: "keeps v m \<Longrightarrow> (\<And>x. keeps v (f x)) \<Longrightarrow> keeps v (bnd m f)"
  unfolding keeps_def by (metis bnd_Ok)

lemma keeps_thn [view_rules]: "keeps v m \<Longrightarrow> keeps v n \<Longrightarrow> keeps v (thn m n)"
  unfolding thn_def by (rule keeps_bnd)

lemma keeps_pure [view_rules]:
  "keeps v (ret x)" "keeps v (fail c)" "keeps v trap" "keeps v (reads f)"
  "keeps v (err_if b c)" "keeps v (ok_or y c)" "keeps v (some_or_trap y)"
  "keeps v (add_i128 i j)" "keeps v (sub_i128 i j)"
  "keeps v (add_word k l)" "keeps v (sub_word k l)" "keeps v (mul_word k l)"
  by (auto simp: keeps_def run_simps)

lemma keeps_doif [view_rules]: "keeps v m \<Longrightarrow> keeps v (doif b m)"
  by (simp add: doif_def keeps_pure)

lemma keeps_if [view_rules]: "keeps v m \<Longrightarrow> keeps v n \<Longrightarrow> keeps v (if b then m else n)"
  by simp

lemma keeps_case_option [view_rules]:
  "keeps v m \<Longrightarrow> (\<And>x. keeps v (f x)) \<Longrightarrow> keeps v (case y of None \<Rightarrow> m | Some x \<Rightarrow> f x)"
  by (simp split: option.split)

lemma keeps_modify [view_rules]: "(\<And>s. v (f s) = v s) \<Longrightarrow> keeps v (modify f)"
  by (simp add: keeps_def modify_Ok)

lemma keeps_for_each [view_rules]: "(\<And>x. keeps v (f x)) \<Longrightarrow> keeps v (for_each xs f)"
  by (induction xs) (auto intro: keeps_pure keeps_thn)

lemma keeps_let [view_rules]: "(\<And>x. keeps v (f x)) \<Longrightarrow> keeps v (let x = y in f x)"
  by simp

lemma keeps_invoke [view_rules]: "keeps v m \<Longrightarrow> keeps v (invoke m)"
  by (simp add: keeps_def invoke_Ok)

text \<open>A kept view also survives a dropped error when the error path keeps it.\<close>

lemma maintains_of_keeps: "keeps v m \<Longrightarrow> (\<And>s t. v t = v s \<Longrightarrow> I s \<Longrightarrow> I t) \<Longrightarrow> maintains I m"
  unfolding keeps_def maintains_def by blast

section \<open>Ordered maps\<close>

text \<open>
  The host's \<^verbatim>\<open>Map\<close> is a vector of pairs sorted by key, so its iteration order is the key order.
  Clients use it through the interface of \<open>ordered_map\<close>; \<open>omap_set\<close> and \<open>omap_get\<close> provide it.
\<close>

type_synonym ('k, 'v) omap = "('k \<times> 'v) list"

definition omap_get :: "('k, 'v) omap \<Rightarrow> 'k \<Rightarrow> 'v option" where
  "omap_get m k = map_of m k"

fun omap_set :: "('k::linorder, 'v) omap \<Rightarrow> 'k \<Rightarrow> 'v \<Rightarrow> ('k, 'v) omap" where
  "omap_set [] k v = [(k, v)]"
| "omap_set ((k', v') # m) k v =
     (if k < k' then (k, v) # (k', v') # m
      else if k = k' then (k, v) # m
      else (k', v') # omap_set m k v)"

definition omap_wf :: "('k::linorder, 'v) omap \<Rightarrow> bool" where
  "omap_wf m \<longleftrightarrow> sorted (map fst m) \<and> distinct (map fst m)"

locale ordered_map =
  fixes empty :: "'m"
    and get :: "'m \<Rightarrow> 'k::linorder \<Rightarrow> 'v option"
    and set_at :: "'m \<Rightarrow> 'k \<Rightarrow> 'v \<Rightarrow> 'm"
    and entries :: "'m \<Rightarrow> ('k \<times> 'v) list"
    and wf :: "'m \<Rightarrow> bool"
  assumes get_empty: "get empty k = None"
    and wf_empty: "wf empty"
    and get_set_at: "get (set_at m k v) k' = (if k' = k then Some v else get m k')"
    and wf_set_at: "wf m \<Longrightarrow> wf (set_at m k v)"
    and entries_get: "wf m \<Longrightarrow> (k, v) \<in> set (entries m) \<longleftrightarrow> get m k = Some v"
    and entries_sorted: "wf m \<Longrightarrow> sorted (map fst (entries m)) \<and> distinct (map fst (entries m))"
begin

lemma get_default_sum:
  fixes idx :: "nat \<Rightarrow> 'k" and w :: "'v option \<Rightarrow> int"
  assumes inj: "inj_on idx {..<n}" and i: "i < n"
  shows "(\<Sum>j<n. w (get (set_at m (idx i) v) (idx j)))
       = (\<Sum>j<n. w (get m (idx j))) - w (get m (idx i)) + w (Some v)"
proof -
  have split: "{..<n} = insert i ({..<n} - {i})" using i by auto
  have rest: "(\<Sum>j\<in>{..<n} - {i}. w (get (set_at m (idx i) v) (idx j)))
            = (\<Sum>j\<in>{..<n} - {i}. w (get m (idx j)))"
    using inj i by (intro sum.cong) (auto simp: get_set_at inj_on_def)
  have "(\<Sum>j<n. w (get (set_at m (idx i) v) (idx j)))
      = w (Some v) + (\<Sum>j\<in>{..<n} - {i}. w (get m (idx j)))"
    by (subst split, subst sum.insert) (simp_all add: rest, simp add: get_set_at)
  moreover have "(\<Sum>j<n. w (get m (idx j)))
      = w (get m (idx i)) + (\<Sum>j\<in>{..<n} - {i}. w (get m (idx j)))"
    by (subst split, subst sum.insert) simp_all
  ultimately show ?thesis by simp
qed

lemma entries_keys: "wf m \<Longrightarrow> fst ` set (entries m) = {k. get m k \<noteq> None}"
  using entries_get by force

end

lemma omap_get_set: "omap_get (omap_set m k v) k' = (if k' = k then Some v else omap_get m k')"
  by (induction m k v rule: omap_set.induct) (auto simp: omap_get_def)

lemma set_omap_set_keys: "fst ` set (omap_set m k v) = insert k (fst ` set m)"
  by (induction m k v rule: omap_set.induct) auto

lemma omap_wf_set: "omap_wf m \<Longrightarrow> omap_wf (omap_set m k v)"
proof (induction m k v rule: omap_set.induct)
  case (2 k' v' m k v)
  then have "omap_wf m" by (simp add: omap_wf_def)
  then show ?case using 2 set_omap_set_keys [of m k v]
    by (auto simp: omap_wf_def image_iff less_le; force simp: image_iff)
qed (simp add: omap_wf_def)

interpretation om: ordered_map "[]" omap_get omap_set "\<lambda>m. m" omap_wf
proof unfold_locales
  fix m :: "('k::linorder, 'v) omap" and k v
  assume "omap_wf m"
  then show "(k, v) \<in> set m \<longleftrightarrow> omap_get m k = Some v"
    by (auto simp: omap_wf_def omap_get_def)
next
  fix m :: "('k::linorder, 'v) omap" and k v
  assume "omap_wf m"
  then show "omap_wf (omap_set m k v)" by (rule omap_wf_set)
qed (auto simp: omap_get_set, auto simp: omap_get_def omap_wf_def)

section \<open>The maximum loop\<close>

text \<open>
  The loop both vote counts use: keep the first entry whose value exceeds the best one so far.
\<close>

fun argmax_loop :: "('a \<Rightarrow> 'b) \<Rightarrow> ('a \<times> 'n::linorder) list \<Rightarrow> 'b \<Rightarrow> 'n \<Rightarrow> 'b \<times> 'n" where
  "argmax_loop f [] best mx = (best, mx)"
| "argmax_loop f ((k, v) # xs) best mx =
     (if mx < v then argmax_loop f xs (f k) v else argmax_loop f xs best mx)"

lemma argmax_loop_top:
  "argmax_loop f xs best mx = (b, m) \<Longrightarrow> mx \<le> m \<and> (\<forall>(k, v) \<in> set xs. v \<le> m)"
  by (induction f xs best mx rule: argmax_loop.induct) (force split: if_splits)+

lemma argmax_loop_cases:
  "argmax_loop f xs best mx = (b, m) \<Longrightarrow>
     (b = best \<and> m = mx) \<or> (mx < m \<and> (\<exists>k. (k, m) \<in> set xs \<and> b = f k))"
  by (induction f xs best mx rule: argmax_loop.induct) (fastforce split: if_splits)+

lemma argmax_loop_first:
  "argmax_loop f xs best mx = (b, m) \<Longrightarrow> mx < m \<Longrightarrow>
     \<exists>ys k zs. xs = ys @ (k, m) # zs \<and> b = f k \<and> (\<forall>(k', v) \<in> set ys. v < m)"
proof (induction f xs best mx rule: argmax_loop.induct)
  case (2 f k v xs best mx)
  show ?case
  proof (cases "mx < v")
    case True
    then have run: "argmax_loop f xs (f k) v = (b, m)" using "2.prems" by simp
    show ?thesis
    proof (cases "v < m")
      case True
      then obtain ys k' zs where "xs = ys @ (k', m) # zs" "b = f k'" "\<forall>(k', v) \<in> set ys. v < m"
        using "2.IH"(1) \<open>mx < v\<close> run by blast
      with \<open>v < m\<close> show ?thesis by (intro exI [of _ "(k, v) # ys"]) auto
    next
      case False
      with argmax_loop_cases [OF run] have "m = v" "b = f k" by auto
      then show ?thesis by (intro exI [of _ "[]"]) auto
    qed
  next
    case False
    then obtain ys k' zs where "xs = ys @ (k', m) # zs" "b = f k'" "\<forall>(k', v) \<in> set ys. v < m"
      using 2 by auto
    with False \<open>mx < m\<close> show ?thesis by (intro exI [of _ "(k, v) # ys"]) auto
  qed
qed simp

section \<open>List facts used across components\<close>

lemma list_ex_eq_set: "list_ex (\<lambda>x. f x = y) xs \<longleftrightarrow> y \<in> f ` set xs"
  by (auto simp: list_ex_iff)

lemma sum_list_map_le:
  "(\<And>x. x \<in> set xs \<Longrightarrow> f x \<le> g x) \<Longrightarrow> sum_list (map f xs) \<le> (sum_list (map g xs) :: nat)"
  by (induction xs) (auto intro: add_mono)

definition nth_opt :: "'a list \<Rightarrow> nat \<Rightarrow> 'a option" where
  "nth_opt xs i = (if i < length xs then Some (xs ! i) else None)"

definition is_ok :: "('s, 'e, 'a) comp \<Rightarrow> 's \<Rightarrow> bool" where
  "is_ok m s = (case m s of Ok _ _ \<Rightarrow> True | Err _ _ \<Rightarrow> False | Trap \<Rightarrow> False)"


text \<open>Rust's inclusive range \<open>a..=b\<close> over machine integers, in order.\<close>

definition range_incl :: "'n::len word \<Rightarrow> 'n word \<Rightarrow> 'n word list" where
  "range_incl a b = map of_nat [unat a ..< Suc (unat b)]"

lemma unat_of_nat_le: "n \<le> unat (b :: 'n::len word) \<Longrightarrow> unat (of_nat n :: 'n word) = n"
proof -
  assume "n \<le> unat b"
  also have "unat b < 2 ^ LENGTH('n)" by (rule unsigned_less)
  finally show ?thesis by (simp add: unat_of_nat)
qed

lemma set_range_incl: "x \<in> set (range_incl a b) \<longleftrightarrow> a \<le> x \<and> x \<le> b"
proof
  assume "x \<in> set (range_incl a b)"
  then obtain n where "x = of_nat n" "unat a \<le> n" "n \<le> unat b" by (auto simp: range_incl_def)
  then show "a \<le> x \<and> x \<le> b" by (simp add: word_le_nat_alt unat_of_nat_le)
next
  assume "a \<le> x \<and> x \<le> b"
  then have "unat x \<in> set [unat a ..< Suc (unat b)]" by (simp add: word_le_nat_alt less_Suc_eq_le del: upt_Suc)
  then have "of_nat (unat x) \<in> set (range_incl a b)" unfolding range_incl_def set_map by (rule imageI)
  then show "x \<in> set (range_incl a b)" by simp
qed

lemma distinct_range_incl: "distinct (range_incl a b)"
  unfolding range_incl_def distinct_map
proof
  show "inj_on (of_nat :: nat \<Rightarrow> 'a word) (set [unat a ..< Suc (unat b)])"
    by (rule inj_on_inverseI [of _ unat]) (auto simp: less_Suc_eq_le intro: unat_of_nat_le simp del: upt_Suc)
qed (rule distinct_upt)

text \<open>The inclusive range behind a clamped window is a slice of the whole range.\<close>

lemma upt_window:
  "[Suc (min a n) ..< Suc (min (min a n + l) n)] = take l (drop a [Suc 0 ..< Suc n])"
  by (simp add: min_def del: upt_Suc)

lemma map_filter_append:
  "List.map_filter f (xs @ ys) = List.map_filter f xs @ List.map_filter f ys"
  by (simp add: List.map_filter_def)

lemma length_map_filter: "length (List.map_filter f xs) \<le> length xs"
  by (simp add: List.map_filter_def)

lemma map_filter_Cons:
  "List.map_filter f (x # xs) = (case f x of None \<Rightarrow> List.map_filter f xs | Some y \<Rightarrow> y # List.map_filter f xs)"
  by (simp add: List.map_filter_simps)

section \<open>Paged listings\<close>

text \<open>
  The contract between a paginated query and its callers: a page is what the listing holds in a
  window of at most \<open>cap\<close> entries. Entries may have no content any more (a pruned market).
\<close>

primrec walk :: "(u32 \<Rightarrow> u32 \<Rightarrow> 'a list) \<Rightarrow> u32 \<Rightarrow> u32 \<Rightarrow> nat \<Rightarrow> 'a list" where
  "walk page offset limit 0 = []"
| "walk page offset limit (Suc n) = page offset limit @ walk page (offset + limit) limit n"

locale paged_listing =
  fixes page :: "u32 \<Rightarrow> u32 \<Rightarrow> 'a list"
    and listing :: "'b list"
    and content :: "'b \<Rightarrow> 'a option"
    and cap :: nat
  assumes page_eq: "page offset limit =
    List.map_filter content (take (min (unat limit) cap) (drop (unat offset) listing))"
begin

lemma page_length: "length (page offset limit) \<le> min (unat limit) cap"
  unfolding page_eq by (rule le_trans [OF length_map_filter]) (simp add: min.coboundedI2)

lemma page_beyond: "length listing \<le> unat offset \<Longrightarrow> page offset limit = []"
  by (simp add: page_eq List.map_filter_def)

text \<open>Walking page after page visits every entry once, in order.\<close>

lemma walk_eq:
  "unat limit \<le> cap \<Longrightarrow> unat offset + n * unat limit < 2 ^ 32 \<Longrightarrow>
     walk page offset limit n = List.map_filter content (take (n * unat limit) (drop (unat offset) listing))"
proof (induction n arbitrary: offset)
  case (Suc n)
  have le: "unat offset + unat limit < 2 ^ 32" using Suc.prems(2) by simp
  have "unat (offset + limit) = unat offset + unat limit"
    using le by (intro unat_add_no_overflow) simp
  with Suc have "walk page (offset + limit) limit n
      = List.map_filter content (take (n * unat limit) (drop (unat limit) (drop (unat offset) listing)))"
    by (simp add: add.commute)
  then show ?case using Suc.prems(1)
    by (simp add: page_eq [of offset limit] take_add map_filter_append add.commute)
qed (simp add: List.map_filter_def)

lemma walk_complete:
  assumes "unat limit \<le> cap" and "n * unat limit < 2 ^ 32" and "length listing \<le> n * unat limit"
  shows "walk page 0 limit n = List.map_filter content listing"
  using walk_eq [of limit 0 n] assms by simp

end

end
