(* ===== verification/Rust_Text.thy ===== *)
theory Rust_Text
  imports Prelude "HOL-Library.Sublist"
begin

text \<open>
  The operations of Rust's \<^verbatim>\<open>str\<close> that the API service uses. A string is its UTF-8 encoding, a list of
  bytes, so that \<^verbatim>\<open>len\<close> is the length of the list and splitting at an ASCII character is splitting
  at its byte.
\<close>

section \<open>Splitting\<close>

text \<open>\<^verbatim>\<open>s.split(c)\<close>: at least one part, the separators removed.\<close>

fun split_at :: "char \<Rightarrow> string \<Rightarrow> string list" where
  "split_at c [] = [[]]"
| "split_at c (x # xs) = (if x = c then [] # split_at c xs
     else case split_at c xs of p # ps \<Rightarrow> (x # p) # ps | [] \<Rightarrow> [[x]])"

text \<open>\<^verbatim>\<open>s.split_once(c)\<close>: the text before and after the first occurrence.\<close>

fun split_once :: "char \<Rightarrow> string \<Rightarrow> (string \<times> string) option" where
  "split_once c [] = None"
| "split_once c (x # xs) = (if x = c then Some ([], xs)
     else map_option (\<lambda>(a, b). (x # a, b)) (split_once c xs))"

fun join_with :: "char \<Rightarrow> string list \<Rightarrow> string" where
  "join_with c [] = []"
| "join_with c [p] = p"
| "join_with c (p # ps) = p @ c # join_with c ps"

lemma split_at_not_Nil [simp]: "split_at c s \<noteq> []"
  by (induction s) (auto split: list.splits)

lemma split_at_append: "c \<notin> set p \<Longrightarrow> split_at c (p @ c # s) = p # split_at c s"
  by (induction p) auto

lemma split_at_single [simp]: "c \<notin> set p \<Longrightarrow> split_at c p = [p]"
  by (induction p) auto

lemma join_with_Cons: "ps \<noteq> [] \<Longrightarrow> join_with c (p # ps) = p @ c # join_with c ps"
  by (cases ps) simp_all

lemma join_with_head: "join_with c ((x # p) # ps) = x # join_with c (p # ps)"
  by (cases ps) simp_all

lemma join_split: "join_with c (split_at c s) = s"
proof (induction s)
  case (Cons x xs)
  obtain p ps where "split_at c xs = p # ps" by (cases "split_at c xs") simp_all
  with Cons show ?case by (auto simp: join_with_head join_with_Cons)
qed simp

lemma split_once_Some:
  "split_once c s = Some (a, b) \<longleftrightarrow> s = a @ c # b \<and> c \<notin> set a"
proof (induction s arbitrary: a)
  case (Cons x s)
  show ?case
  proof (cases a)
    case (Cons y a')
    with Cons.IH [of a'] show ?thesis by auto
  qed auto
qed simp

lemma split_once_None: "split_once c s = None \<longleftrightarrow> c \<notin> set s"
  by (induction s) auto

section \<open>Trimming\<close>

text \<open>
  The encodings of the characters with the property \<^verbatim>\<open>White_Space\<close>, which \<^verbatim>\<open>trim\<close> removes from both ends.
\<close>

definition ws_codes :: "string list" where
  "ws_codes = map (map char_of) ([[9], [10], [11], [12], [13], [32], [0xC2, 0x85], [0xC2, 0xA0],
     [0xE1, 0x9A, 0x80], [0xE2, 0x80, 0x80], [0xE2, 0x80, 0x81], [0xE2, 0x80, 0x82], [0xE2, 0x80, 0x83],
     [0xE2, 0x80, 0x84], [0xE2, 0x80, 0x85], [0xE2, 0x80, 0x86], [0xE2, 0x80, 0x87],
     [0xE2, 0x80, 0x88], [0xE2, 0x80, 0x89], [0xE2, 0x80, 0x8A], [0xE2, 0x80, 0xA8],
     [0xE2, 0x80, 0xA9], [0xE2, 0x80, 0xAF], [0xE2, 0x81, 0x9F], [0xE3, 0x80, 0x80]] :: int list list)"

function strip_codes :: "string list \<Rightarrow> string \<Rightarrow> string" where
  "strip_codes ws s = (case find (\<lambda>w. w \<noteq> [] \<and> prefix w s) ws of
     None \<Rightarrow> s | Some w \<Rightarrow> strip_codes ws (drop (length w) s))"
  by pat_completeness auto
termination
  by (relation "measure (length \<circ> snd)") (auto simp: find_Some_iff prefix_def)

declare strip_codes.simps [simp del]

definition trim_start :: "string \<Rightarrow> string" where
  "trim_start s = strip_codes ws_codes s"

definition trim_end :: "string \<Rightarrow> string" where
  "trim_end s = rev (strip_codes (map rev ws_codes) (rev s))"

definition trim :: "string \<Rightarrow> string" where
  "trim s = trim_end (trim_start s)"

lemma strip_codes_none: "(\<And>w. w \<in> set ws \<Longrightarrow> w \<noteq> [] \<Longrightarrow> \<not> prefix w s) \<Longrightarrow> strip_codes ws s = s"
  by (subst strip_codes.simps) (auto split: option.splits simp: find_Some_iff in_set_conv_nth)

lemma strip_codes_Nil [simp]: "strip_codes ws [] = []"
  by (rule strip_codes_none) simp

text \<open>Text of visible ASCII characters is not changed by trimming.\<close>

definition visible :: "char \<Rightarrow> bool" where
  "visible c \<longleftrightarrow> 33 \<le> (of_char c :: int) \<and> (of_char c :: int) \<le> 126"

lemma ws_codes_invisible:
  "w \<in> set ws_codes \<Longrightarrow> w \<noteq> [] \<and> list_all (\<lambda>c. \<not> visible c) w"
  by (auto simp: ws_codes_def visible_def)

lemma trim_visible: "list_all visible s \<Longrightarrow> trim s = s"
proof -
  assume s: "list_all visible s"
  have none: "\<not> prefix w t" if "w \<noteq> []" "list_all (\<lambda>c. \<not> visible c) w" "list_all visible t" for w t
    using that by (cases w; cases t) auto
  have "trim_start s = s" unfolding trim_start_def
    using s ws_codes_invisible by (intro strip_codes_none none) auto
  moreover have "strip_codes (map rev ws_codes) (rev s) = rev s"
    using s ws_codes_invisible by (intro strip_codes_none none) (auto simp: list_all_rev)
  ultimately show ?thesis by (simp add: trim_def trim_end_def)
qed

section \<open>Decimal and hexadecimal numerals\<close>

definition digit_char :: "int \<Rightarrow> char" where
  "digit_char d = char_of (if d < 10 then 48 + d else 87 + d)"

text \<open>\<^verbatim>\<open>char::to_digit(radix)\<close>, for the radices 10 and 16.\<close>

definition to_digit :: "int \<Rightarrow> char \<Rightarrow> int option" where
  "to_digit radix c = (let n = (of_char c :: int);
       d = (if 48 \<le> n \<and> n \<le> 57 then n - 48 else if 97 \<le> n \<and> n \<le> 102 then n - 87
            else if 65 \<le> n \<and> n \<le> 70 then n - 55 else 99)
     in if d < radix then Some d else None)"

function digits_of :: "int \<Rightarrow> int \<Rightarrow> int list" where
  "digits_of radix n = (if n < radix \<or> radix < 2 then [n]
     else digits_of radix (n div radix) @ [n mod radix])"
  by pat_completeness auto
termination
  by (relation "measure (\<lambda>(_, n). nat n)") (auto simp: int_div_less_self)

declare digits_of.simps [simp del]

definition show_int :: "int \<Rightarrow> int \<Rightarrow> string" where
  "show_int radix n = map digit_char (digits_of radix n)"

definition digits_value :: "int \<Rightarrow> int list \<Rightarrow> int" where
  "digits_value radix ds = foldl (\<lambda>a d. radix * a + d) 0 ds"

lemma of_digit_char:
  "0 \<le> d \<Longrightarrow> d < 16 \<Longrightarrow> (of_char (digit_char d) :: int) = (if d < 10 then 48 + d else 87 + d)"
  by (simp add: digit_char_def)

lemma to_digit_char:
  "0 \<le> d \<Longrightarrow> d < radix \<Longrightarrow> radix \<le> 16 \<Longrightarrow> to_digit radix (digit_char d) = Some d"
  by (simp add: to_digit_def of_digit_char Let_def)

lemma digits_of_not_Nil [simp]: "digits_of radix n \<noteq> []"
  by (subst digits_of.simps) simp

lemma digits_of_value: "2 \<le> radix \<Longrightarrow> digits_value radix (digits_of radix n) = n"
proof (induction radix n rule: digits_of.induct)
  case (1 radix n)
  then show ?case by (subst digits_of.simps) (simp add: digits_value_def)
qed

lemma digits_of_less:
  "2 \<le> radix \<Longrightarrow> 0 \<le> n \<Longrightarrow> d \<in> set (digits_of radix n) \<Longrightarrow> 0 \<le> d \<and> d < radix"
proof (induction radix n rule: digits_of.induct)
  case (1 radix n)
  show ?case
  proof (cases "n < radix")
    case True
    with 1 show ?thesis by (simp add: digits_of.simps)
  next
    case False
    with 1(2,4) have "d \<in> set (digits_of radix (n div radix)) \<or> d = n mod radix"
      by (subst (asm) digits_of.simps) auto
    moreover have "0 \<le> n div radix" using 1(2,3) by (simp add: pos_imp_zdiv_nonneg_iff)
    ultimately show ?thesis using 1 False by auto
  qed
qed

lemma hd_digits_of: "2 \<le> radix \<Longrightarrow> 0 \<le> n \<Longrightarrow> hd (digits_of radix n) = 0 \<longleftrightarrow> n = 0"
proof (induction radix n rule: digits_of.induct)
  case (1 radix n)
  show ?case
  proof (cases "n < radix")
    case False
    then have "1 \<le> n div radix" using 1(2) zdiv_mono1 [of radix n radix] by simp
    moreover from this 1 False have "hd (digits_of radix (n div radix)) = 0 \<longleftrightarrow> n div radix = 0"
      by simp
    ultimately show ?thesis using False 1(2) by (subst digits_of.simps) auto
  qed (simp add: digits_of.simps)
qed

lemma digits_of_0: "2 \<le> radix \<Longrightarrow> digits_of radix 0 = [0]"
  by (simp add: digits_of.simps)

lemma length_digits_of: "2 \<le> radix \<Longrightarrow> n < radix ^ Suc k \<Longrightarrow> length (digits_of radix n) \<le> Suc k"
proof (induction radix n arbitrary: k rule: digits_of.induct)
  case (1 radix n)
  show ?case
  proof (cases "n < radix")
    case False
    with 1(3) obtain j where k: "k = Suc j" by (cases k) simp_all
    have "n div radix < radix ^ Suc j"
    proof (rule ccontr)
      assume "\<not> ?thesis"
      then have "radix ^ Suc j * radix \<le> n div radix * radix" using 1(2) by (intro mult_right_mono) auto
      also have "\<dots> \<le> n" using 1(2) div_mult_mod_eq [of n radix] pos_mod_sign [of radix n] by linarith
      finally show False using 1(3) k by (simp add: mult.commute)
    qed
    with 1 False have "length (digits_of radix (n div radix)) \<le> Suc j" by simp
    with False 1(2) k show ?thesis by (subst digits_of.simps) simp
  qed (simp add: digits_of.simps)
qed

end
