(* ===== verification/Client_Ip.thy ===== *)
theory Client_Ip
  imports Rust_Text
begin

text \<open>
  \<^verbatim>\<open>client_ip.rs\<close> and the address extraction of \<^verbatim>\<open>security.rs\<close> in the API service: which address a request is
  attributed to for rate limiting, auditing and access control. A request header is given by what
  \<^verbatim>\<open>headers.get(name).and_then(|v| v.to_str().ok())\<close> returns. \<^verbatim>\<open>IpNet\<close> is a type of the crate \<^verbatim>\<open>ipnet\<close>:
  membership in a network is a parameter.
\<close>

unbundle bit_operations_syntax

section \<open>Addresses and their text\<close>

type_synonym u16 = "16 word"
type_synonym u128 = "128 word"

datatype IpAddr = V4 u32 | V6 u128

text \<open>The number parser of \<^verbatim>\<open>core::net\<close>: at most \<open>width\<close> digits, a value below \<open>bound\<close>.\<close>

definition read_number :: "int \<Rightarrow> nat \<Rightarrow> bool \<Rightarrow> int \<Rightarrow> string \<Rightarrow> (int \<times> string) option" where
  "read_number radix width allow_zero_prefix bound s =
     (let ds = takeWhile (\<lambda>c. to_digit radix c \<noteq> None) s; n = length ds;
          v = digits_value radix (map (\<lambda>c. the (to_digit radix c)) ds)
      in if n = 0 \<or> width < n \<or> bound \<le> v \<or> (\<not> allow_zero_prefix \<and> 1 < n \<and> hd ds = digit_char 0)
         then None else Some (v, drop n s))"

definition read_sep :: "char \<Rightarrow> bool \<Rightarrow> (string \<Rightarrow> ('a \<times> string) option) \<Rightarrow> string \<Rightarrow> ('a \<times> string) option" where
  "read_sep c first p s =
     (if first then p s else case s of x # t \<Rightarrow> if x = c then p t else None | [] \<Rightarrow> None)"

definition read_octet :: "string \<Rightarrow> (int \<times> string) option" where
  "read_octet = read_number 10 3 False 256"

definition ipv4_of_octets :: "int \<Rightarrow> int \<Rightarrow> int \<Rightarrow> int \<Rightarrow> u32" where
  "ipv4_of_octets a b c d = of_int (((a * 256 + b) * 256 + c) * 256 + d)"

definition read_ipv4 :: "string \<Rightarrow> (u32 \<times> string) option" where
  "read_ipv4 s = Option.bind (read_octet s) (\<lambda>(a, s1).
     Option.bind (read_sep CHR ''.'' False read_octet s1) (\<lambda>(b, s2).
     Option.bind (read_sep CHR ''.'' False read_octet s2) (\<lambda>(c, s3).
     Option.bind (read_sep CHR ''.'' False read_octet s3) (\<lambda>(d, s4).
     Some (ipv4_of_octets a b c d, s4)))))"

definition read_group :: "string \<Rightarrow> (int \<times> string) option" where
  "read_group = read_number 16 4 True 65536"

text \<open>
  The groups of an IPv6 address up to the end or to \<^verbatim>\<open>::\<close>; the last two may be written as an IPv4
  address, which the flag reports.
\<close>

fun read_groups :: "nat \<Rightarrow> bool \<Rightarrow> string \<Rightarrow> u16 list \<times> bool \<times> string" where
  "read_groups 0 first s = ([], False, s)"
| "read_groups (Suc n) first s =
     (case (if n = 0 then None else read_sep CHR '':'' first read_ipv4 s) of
        Some (v4, t) \<Rightarrow> ([ucast (drop_bit 16 v4), ucast v4], True, t)
      | None \<Rightarrow> (case read_sep CHR '':'' first read_group s of
          Some (g, t) \<Rightarrow> (let (gs, b, u) = read_groups n False t in (of_int g # gs, b, u))
        | None \<Rightarrow> ([], False, s)))"

definition ipv6_of_groups :: "u16 list \<Rightarrow> u128" where
  "ipv6_of_groups gs = foldl (\<lambda>a g. push_bit 16 a OR ucast g) 0 gs"

definition read_ipv6 :: "string \<Rightarrow> (u128 \<times> string) option" where
  "read_ipv6 s = (let (h, v4, s1) = read_groups 8 True s in
     if length h = 8 then Some (ipv6_of_groups h, s1)
     else if v4 then None
     else case s1 of
       c # d # s2 \<Rightarrow> if c = CHR '':'' \<and> d = CHR '':'' then
           (let (t, _, s3) = read_groups (7 - length h) True s2 in
            Some (ipv6_of_groups (h @ replicate (8 - length h - length t) 0 @ t), s3))
         else None
     | _ \<Rightarrow> None)"

text \<open>\<^verbatim>\<open>IpAddr::from_str\<close>: the whole text has to be consumed.\<close>

definition parse_ip :: "string \<Rightarrow> IpAddr option" where
  "parse_ip s = (case (case read_ipv4 s of Some (a, t) \<Rightarrow> Some (V4 a, t)
        | None \<Rightarrow> (case read_ipv6 s of Some (a, t) \<Rightarrow> Some (V6 a, t) | None \<Rightarrow> None)) of
     Some (ip, []) \<Rightarrow> Some ip | _ \<Rightarrow> None)"

text \<open>
  \<^verbatim>\<open>IpAddr::to_string\<close>: dotted decimal; for IPv6 the groups in hexadecimal with the first longest run
  of at least two zero groups replaced by \<^verbatim>\<open>::\<close>, and IPv4-mapped addresses with the IPv4 part.
\<close>

definition show_ipv4 :: "u32 \<Rightarrow> string" where
  "show_ipv4 a = join_with CHR ''.''
     (map (\<lambda>k. show_int 10 (uint (drop_bit k a) mod 256)) [24, 16, 8, 0])"

definition groups_of :: "u128 \<Rightarrow> u16 list" where
  "groups_of a = map (\<lambda>k. ucast (drop_bit k a)) [112, 96, 80, 64, 48, 32, 16, 0]"

definition show_groups :: "u16 list \<Rightarrow> string" where
  "show_groups gs = join_with CHR '':'' (map (\<lambda>g. show_int 16 (uint g)) gs)"

fun zero_run :: "nat \<Rightarrow> nat \<times> nat \<Rightarrow> nat \<times> nat \<Rightarrow> u16 list \<Rightarrow> nat \<times> nat" where
  "zero_run i cur best [] = best"
| "zero_run i cur best (g # gs) =
     (if g = 0 then let cur' = (if snd cur = 0 then (i, 1) else (fst cur, snd cur + 1))
        in zero_run (i + 1) cur' (if snd best < snd cur' then cur' else best) gs
      else zero_run (i + 1) (0, 0) best gs)"

definition show_ipv6 :: "u128 \<Rightarrow> string" where
  "show_ipv6 a = (let gs = groups_of a; (start, len) = zero_run 0 (0, 0) (0, 0) gs in
     if take 6 gs = [0, 0, 0, 0, 0, 0xFFFF] then ''::ffff:'' @ show_ipv4 (ucast a)
     else if 1 < len then show_groups (take start gs) @ ''::'' @ show_groups (drop (start + len) gs)
     else show_groups gs)"

fun show_ip :: "IpAddr \<Rightarrow> string" where
  "show_ip (V4 a) = show_ipv4 a"
| "show_ip (V6 a) = show_ipv6 a"

text \<open>\<^verbatim>\<open>str::parse::<u8>\<close>: an optional plus sign and decimal digits, below 256.\<close>

definition parse_u8 :: "string \<Rightarrow> nat option" where
  "parse_u8 s = (let t = (case s of c # r \<Rightarrow> if c = CHR ''+'' then r else s | [] \<Rightarrow> s) in
     if t = [] \<or> \<not> list_all (\<lambda>c. to_digit 10 c \<noteq> None) t then None
     else let v = digits_value 10 (map (\<lambda>c. the (to_digit 10 c)) t) in if v < 256 then Some (nat v) else None)"

section \<open>Trusted proxies\<close>

fun ip_in_cidr :: "IpAddr \<Rightarrow> IpAddr \<Rightarrow> nat \<Rightarrow> bool" where
  "ip_in_cidr (V4 ip4) (V4 net4) prefix_len =
     (if 32 < prefix_len then False
      else let mask = (if prefix_len = 0 then 0 else push_bit (32 - prefix_len) (NOT 0))
           in ip4 AND mask = net4 AND mask)"
| "ip_in_cidr (V6 ip6) (V6 net6) prefix_len =
     (if 128 < prefix_len then False
      else let mask = (if prefix_len = 0 then 0 else push_bit (128 - prefix_len) (NOT 0))
           in ip6 AND mask = net6 AND mask)"
| "ip_in_cidr _ _ prefix_len = False"

fun is_trusted_proxy :: "IpAddr \<Rightarrow> string list \<Rightarrow> bool" where
  "is_trusted_proxy ip [] = False"
| "is_trusted_proxy ip (cidr # trusted_cidrs) =
     ((case split_once CHR ''/'' cidr of
         Some (network, pfx) \<Rightarrow> (case (parse_ip network, parse_u8 pfx) of
           (Some network_ip, Some prefix_len) \<Rightarrow> ip_in_cidr ip network_ip prefix_len
         | _ \<Rightarrow> False)
       | None \<Rightarrow> (case parse_ip cidr of Some plain \<Rightarrow> ip = plain | None \<Rightarrow> False))
      \<or> is_trusted_proxy ip trusted_cidrs)"

definition client_ip :: "IpAddr \<Rightarrow> string option \<Rightarrow> string option \<Rightarrow> string list \<Rightarrow> IpAddr" where
  "client_ip peer_addr x_forwarded_for x_real_ip trusted_cidrs =
     (if \<not> is_trusted_proxy peer_addr trusted_cidrs then peer_addr
      else case Option.bind x_forwarded_for (\<lambda>xff. parse_ip (trim (hd (split_at CHR '','' xff)))) of
        Some ip \<Rightarrow> ip
      | None \<Rightarrow> (case Option.bind x_real_ip (\<lambda>xri. parse_ip (trim xri)) of
          Some ip \<Rightarrow> ip | None \<Rightarrow> peer_addr))"

definition trusted_cidrs_from_env :: "string option \<Rightarrow> string list" where
  "trusted_cidrs_from_env v = (case v of
     Some s \<Rightarrow> map trim (split_at CHR '','' s)
   | None \<Rightarrow> [''127.0.0.0/8'', ''10.0.0.0/8'', ''172.16.0.0/12'', ''192.168.0.0/16'', ''::1/128''])"

section \<open>The rate-limit key of a request\<close>

fun first_address :: "string list \<Rightarrow> IpAddr option" where
  "first_address [] = None"
| "first_address (raw # rest) = (let candidate = trim raw in
     if candidate = [] then first_address rest
     else case parse_ip candidate of Some addr \<Rightarrow> Some addr | None \<Rightarrow> first_address rest)"

definition extract_client_ip_cidrs ::
  "('net \<Rightarrow> IpAddr \<Rightarrow> bool) \<Rightarrow> (string \<Rightarrow> string option) \<Rightarrow> IpAddr option \<Rightarrow> bool \<Rightarrow> 'net list \<Rightarrow> string" where
  "extract_client_ip_cidrs contains headers connect_info trust_proxy trusted_cidrs =
     (let proxy_trusted = (if trusted_cidrs \<noteq> [] then
            (case Option.bind connect_info (\<lambda>ip. parse_ip (show_ip ip)) of
               Some connecting_ip \<Rightarrow> list_ex (\<lambda>cidr. contains cidr connecting_ip) trusted_cidrs
             | None \<Rightarrow> False)
          else trust_proxy);
          from_socket = (case connect_info of Some ip \<Rightarrow> show_ip ip | None \<Rightarrow> ''unknown'');
          from_real_ip = (case headers ''x-real-ip'' of
             Some real_ip \<Rightarrow> (let candidate = trim real_ip in
               if candidate = [] then from_socket
               else case parse_ip candidate of Some addr \<Rightarrow> show_ip addr | None \<Rightarrow> from_socket)
           | None \<Rightarrow> from_socket)
      in if proxy_trusted then
           (case Option.bind (headers ''x-forwarded-for'') (\<lambda>v. first_address (split_at CHR '','' v)) of
              Some addr \<Rightarrow> show_ip addr | None \<Rightarrow> from_real_ip)
         else from_socket)"

definition extract_client_ip ::
  "('net \<Rightarrow> IpAddr \<Rightarrow> bool) \<Rightarrow> (string \<Rightarrow> string option) \<Rightarrow> IpAddr option \<Rightarrow> bool \<Rightarrow> string" where
  "extract_client_ip contains headers connect_info trust_proxy =
     extract_client_ip_cidrs contains headers connect_info trust_proxy []"

section \<open>Reading back what was written\<close>

lemma to_digit_10_char: "0 \<le> d \<Longrightarrow> d < 10 \<Longrightarrow> to_digit 16 (digit_char d) = Some d"
  by (rule to_digit_char) auto

text \<open>What may follow a numeral.\<close>

definition stops :: "int \<Rightarrow> string \<Rightarrow> bool" where
  "stops radix s \<longleftrightarrow> s = [] \<or> to_digit radix (hd s) = None"

lemma stops_simps [simp]:
  "stops radix []" "radix \<le> 16 \<Longrightarrow> stops radix (CHR ''.'' # s)" "radix \<le> 16 \<Longrightarrow> stops radix (CHR '':'' # s)"
  by (simp_all add: stops_def to_digit_def)

lemma takeWhile_digits:
  assumes "2 \<le> radix" "radix \<le> 16" "0 \<le> n" "stops radix rest"
  shows "takeWhile (\<lambda>c. to_digit radix c \<noteq> None) (show_int radix n @ rest) = show_int radix n"
proof -
  have "to_digit radix c \<noteq> None" if "c \<in> set (show_int radix n)" for c
    using that digits_of_less [OF assms(1,3)] assms(2) by (auto simp: show_int_def to_digit_char)
  moreover have "takeWhile (\<lambda>c. to_digit radix c \<noteq> None) rest = []"
    using assms(4) by (cases rest) (auto simp: stops_def)
  ultimately show ?thesis by (simp add: takeWhile_append)
qed

lemma value_show_int:
  assumes "2 \<le> radix" "radix \<le> 16" "0 \<le> n"
  shows "digits_value radix (map (\<lambda>c. the (to_digit radix c)) (show_int radix n)) = n"
proof -
  have "map (\<lambda>c. the (to_digit radix c)) (show_int radix n) = digits_of radix n"
    using digits_of_less [OF assms(1,3)] assms(2)
    by (auto simp: show_int_def o_def to_digit_char intro!: map_idI)
  then show ?thesis by (simp add: digits_of_value assms)
qed

lemma digit_char_0: "0 \<le> d \<Longrightarrow> d < 16 \<Longrightarrow> digit_char d = digit_char 0 \<longleftrightarrow> d = 0"
  using to_digit_char [of d 16] to_digit_char [of 0 16] by auto

lemma read_show_int:
  assumes "2 \<le> radix" "radix \<le> 16" "0 \<le> n" "n < bound" "bound \<le> radix ^ width" "0 < width" "stops radix rest"
  shows "read_number radix width z bound (show_int radix n @ rest) = Some (n, rest)"
proof -
  obtain k where w: "width = Suc k" using assms by (cases width) auto
  have len: "length (show_int radix n) \<le> width"
    using length_digits_of [of radix n k] assms w by (simp add: show_int_def)
  have "\<not> (1 < length (show_int radix n) \<and> hd (show_int radix n) = digit_char 0)"
  proof
    assume a: "1 < length (show_int radix n) \<and> hd (show_int radix n) = digit_char 0"
    have "hd (show_int radix n) = digit_char (hd (digits_of radix n))" by (simp add: show_int_def hd_map)
    moreover have "0 \<le> hd (digits_of radix n)" "hd (digits_of radix n) < 16"
      using digits_of_less [OF assms(1,3), of "hd (digits_of radix n)"] assms(2) by auto
    ultimately have "n = 0" using a digit_char_0 hd_digits_of [OF assms(1,3)] by auto
    with a show False by (simp add: show_int_def digits_of_0 assms(1))
  qed
  moreover have "show_int radix n \<noteq> []" by (simp add: show_int_def)
  ultimately show ?thesis using assms(4) len
    unfolding read_number_def Let_def takeWhile_digits [OF assms(1,2,3,7)] value_show_int [OF assms(1,2,3)]
    by auto
qed

lemma read_show_octet: "0 \<le> n \<Longrightarrow> n < 256 \<Longrightarrow> stops 10 rest \<Longrightarrow> read_octet (show_int 10 n @ rest) = Some (n, rest)"
  unfolding read_octet_def by (rule read_show_int) auto

lemma read_show_group: "stops 16 rest \<Longrightarrow> read_group (show_int 16 (uint (g :: u16)) @ rest) = Some (uint g, rest)"
  unfolding read_group_def using uint_lt2p [of g] by (intro read_show_int) auto

lemma uint_drop_bit_div: "uint (drop_bit k (w :: 'a::len word)) = uint w div 2 ^ k"
proof -
  have "uint (drop_bit k w) = drop_bit k (uint w)"
    by (simp add: unsigned_drop_bit_eq take_bit_eq_mod mod_pos_pos_trivial uint_lt2p)
  then show ?thesis by (simp only: drop_bit_eq_div)
qed

lemma base_256:
  assumes "0 < k"
  shows "(x :: int) div k = x div (k * 256) * 256 + x div k mod 256"
proof -
  have "x div (k * 256) = x div k div 256" using assms by (simp add: zdiv_zmult2_eq)
  then show ?thesis using div_mult_mod_eq [of "x div k" 256] by (simp only:)
qed

lemma horner_256:
  "x = a * 256 + p \<Longrightarrow> a = b * 256 + q \<Longrightarrow> b = c * 256 + r \<Longrightarrow> ((c * 256 + r) * 256 + q) * 256 + p = (x :: int)"
  by simp

lemma ipv4_octets:
  "ipv4_of_octets (uint (drop_bit 24 a) mod 256) (uint (drop_bit 16 a) mod 256)
     (uint (drop_bit 8 a) mod 256) (uint a mod 256) = a"
proof -
  define x where "x = uint a"
  have "0 \<le> x" "x < 2 ^ 32" using uint_lt2p [of a] by (simp_all add: x_def)
  then have top: "x div 16777216 mod 256 = x div 16777216" by (intro mod_pos_pos_trivial) auto
  have "((x div 16777216 mod 256 * 256 + x div 65536 mod 256) * 256 + x div 256 mod 256) * 256 + x mod 256 = x"
    unfolding top using base_256 [of 1 x] base_256 [of 256 x] base_256 [of 65536 x]
    by (intro horner_256) simp_all
  moreover have "uint (drop_bit 24 a) = x div 16777216" "uint (drop_bit 16 a) = x div 65536"
    "uint (drop_bit 8 a) = x div 256" by (simp_all add: uint_drop_bit_div x_def)
  ultimately have "ipv4_of_octets (uint (drop_bit 24 a) mod 256) (uint (drop_bit 16 a) mod 256)
     (uint (drop_bit 8 a) mod 256) (uint a mod 256) = of_int x"
    unfolding ipv4_of_octets_def x_def by simp
  then show ?thesis by (simp add: x_def)
qed

lemma read_show_ipv4: "stops 10 rest \<Longrightarrow> read_ipv4 (show_ipv4 a @ rest) = Some (a, rest)"
  by (simp add: show_ipv4_def read_ipv4_def read_sep_def read_show_octet ipv4_octets)

text \<open>IPv6: the groups, and what the readers do with text that is not theirs.\<close>

lemma group_step: "push_bit 16 (drop_bit (k + 16) a) OR ucast (ucast (drop_bit k a) :: u16) = drop_bit k (a :: u128)"
  by (rule bit_word_eqI) (auto simp: bit_simps not_le not_less le_Suc_ex)

lemma ipv6_groups: "ipv6_of_groups (groups_of a) = a"
proof -
  have "drop_bit 128 a = 0" by (rule bit_word_eqI) (auto simp: bit_simps)
  then show ?thesis
    using group_step [of 112 a] group_step [of 96 a] group_step [of 80 a] group_step [of 64 a]
      group_step [of 48 a] group_step [of 32 a] group_step [of 16 a] group_step [of 0 a]
    by (simp add: ipv6_of_groups_def groups_of_def)
qed

lemma read_octet_rest: "read_octet s = Some (n, t) \<Longrightarrow> t = dropWhile (\<lambda>c. to_digit 10 c \<noteq> None) s"
  by (auto simp: read_octet_def read_number_def Let_def dropWhile_eq_drop split: if_splits)

lemma read_ipv4_None:
  assumes "hd (dropWhile (\<lambda>c. to_digit 10 c \<noteq> None) s) \<noteq> CHR ''.'' \<or> dropWhile (\<lambda>c. to_digit 10 c \<noteq> None) s = []"
  shows "read_ipv4 s = None"
proof (cases "read_octet s")
  case (Some p)
  obtain n t where p: "p = (n, t)" by (cases p)
  with Some assms have "t = [] \<or> hd t \<noteq> CHR ''.''" by (auto dest: read_octet_rest)
  then have "read_sep CHR ''.'' False read_octet t = None" by (cases t) (auto simp: read_sep_def)
  with Some p show ?thesis by (simp add: read_ipv4_def)
qed (simp add: read_ipv4_def)

lemma show_int_no_dot: "2 \<le> radix \<Longrightarrow> radix \<le> 16 \<Longrightarrow> 0 \<le> n \<Longrightarrow> CHR ''.'' \<notin> set (show_int radix n)"
proof
  assume a: "2 \<le> radix" "radix \<le> 16" "0 \<le> n" "CHR ''.'' \<in> set (show_int radix n)"
  then obtain d where d: "d \<in> set (digits_of radix n)" "CHR ''.'' = digit_char d" by (auto simp: show_int_def)
  then have "0 \<le> d \<and> d < radix" using digits_of_less [OF a(1,3)] by blast
  then have "to_digit 16 (digit_char d) = Some d" using a(2) by (intro to_digit_char) auto
  moreover have "to_digit 16 CHR ''.'' = None" by (simp add: to_digit_def)
  ultimately show False using d(2) by simp
qed

lemma dropWhile_append_hd:
  assumes "x \<notin> set p" and "r = [] \<or> hd r \<noteq> x \<and> \<not> P (hd r)"
  shows "dropWhile P (p @ r) = [] \<or> hd (dropWhile P (p @ r)) \<noteq> x"
  using assms by (induction p) (cases r, auto)+

lemma read_ipv4_group:
  "r = [] \<or> hd r = CHR '':'' \<Longrightarrow> read_ipv4 (show_int 16 (uint (g :: u16)) @ r) = None"
  by (rule read_ipv4_None, use dropWhile_append_hd [of "CHR ''.''" "show_int 16 (uint g)" r "\<lambda>c. to_digit 10 c \<noteq> None"]
      show_int_no_dot [of 16 "uint g"] in \<open>auto simp: to_digit_def\<close>)

lemma read_colon [simp]: "read_ipv4 (CHR '':'' # s) = None" "read_group (CHR '':'' # s) = None"
  by (auto intro!: read_ipv4_None simp: read_group_def read_number_def to_digit_def)

lemma read_Nil [simp]: "read_ipv4 [] = None" "read_group [] = None"
  by (auto intro!: read_ipv4_None simp: read_group_def read_number_def)

definition ends :: "string \<Rightarrow> bool" where
  "ends r \<longleftrightarrow> r = [] \<or> (\<exists>t. r = CHR '':'' # CHR '':'' # t)"

lemma read_groups_stop: "ends r \<Longrightarrow> read_groups n first r = ([], False, r)"
  by (cases n) (auto simp: ends_def read_sep_def)

lemma show_groups_Cons:
  "gs \<noteq> [] \<Longrightarrow> show_groups (g # gs) = show_int 16 (uint g) @ CHR '':'' # show_groups gs"
  by (cases gs) (simp_all add: show_groups_def)

lemma read_show_groups:
  "gs \<noteq> [] \<Longrightarrow> length gs \<le> n \<Longrightarrow> ends r \<Longrightarrow>
   read_groups n first ((if first then [] else '':'') @ show_groups gs @ r) = (gs, False, r)"
proof (induction gs arbitrary: n first)
  case (Cons g gs)
  obtain m where n: "n = Suc m" using Cons.prems by (cases n) auto
  define q where "q = (if gs = [] then r else CHR '':'' # show_groups gs @ r)"
  have q: "q = [] \<or> hd q = CHR '':''" and sq: "stops 16 q" using Cons.prems(3) by (auto simp: q_def ends_def)
  have shown: "show_groups (g # gs) @ r = show_int 16 (uint g) @ q"
    by (cases "gs = []") (simp_all add: q_def show_groups_Cons, simp add: show_groups_def)
  have tail: "read_groups m False q = (gs, False, r)"
  proof (cases "gs = []")
    case True
    then show ?thesis using read_groups_stop [OF Cons.prems(3)] by (simp add: q_def)
  next
    case False
    with Cons.IH [of m False] Cons.prems n show ?thesis by (simp add: q_def)
  qed
  have "read_sep CHR '':'' first read_ipv4 ((if first then [] else '':'') @ show_int 16 (uint g) @ q) = None"
    using read_ipv4_group [OF q] by (simp add: read_sep_def)
  moreover have "read_sep CHR '':'' first read_group ((if first then [] else '':'') @ show_int 16 (uint g) @ q)
      = Some (uint g, q)"
    using read_show_group [OF sq] by (simp add: read_sep_def)
  ultimately show ?case unfolding shown n by (simp only: read_groups.simps) (simp add: tail)
qed simp

text \<open>The run of zeros that \<^verbatim>\<open>::\<close> replaces.\<close>

definition zero_span :: "u16 list \<Rightarrow> nat \<times> nat \<Rightarrow> bool" where
  "zero_span gs p \<longleftrightarrow> fst p + snd p \<le> length gs \<and> (\<forall>j < snd p. gs ! (fst p + j) = 0)"

lemma zero_run_span:
  "i \<le> length gs \<Longrightarrow> zero_span gs best \<Longrightarrow> snd cur = 0 \<or> zero_span gs cur \<and> fst cur + snd cur = i \<Longrightarrow>
   zero_span gs (zero_run i cur best (drop i gs))"
proof (induction "drop i gs" arbitrary: i cur best)
  case (Cons g rest)
  then have i: "i < length gs" and g: "gs ! i = g" and rest: "rest = drop (i + 1) gs"
    by (metis drop_all list.distinct(1) not_le, metis nth_via_drop, metis drop_Suc tl_drop list.sel(3) Suc_eq_plus1)
  define cur' where "cur' = (if snd cur = 0 then (i, 1) else (fst cur, snd cur + 1))"
  have span: "zero_span gs cur' \<and> fst cur' + snd cur' = i + 1" if "g = 0"
    using that Cons.prems(3) i g by (auto simp: cur'_def zero_span_def less_Suc_eq)
  have "zero_run i cur best (g # rest) = (if g = 0
      then zero_run (i + 1) cur' (if snd best < snd cur' then cur' else best) rest
      else zero_run (i + 1) (0, 0) best rest)" by (simp add: cur'_def Let_def)
  moreover have "zero_span gs (zero_run (i + 1) cur' (if snd best < snd cur' then cur' else best) rest)" if "g = 0"
    unfolding rest using i span [OF that] Cons.prems(2) by (intro Cons.hyps(1) [OF rest]) auto
  moreover have "zero_span gs (zero_run (i + 1) (0, 0) best rest)"
    unfolding rest using i Cons.prems(2) by (intro Cons.hyps(1) [OF rest]) auto
  ultimately show ?case using Cons.hyps(2) by simp
qed simp

lemma zero_span_split:
  assumes "zero_span gs (k, l)"
  shows "gs = take k gs @ replicate l 0 @ drop (k + l) gs"
proof -
  have "take l (drop k gs) = replicate l 0"
    using assms by (intro nth_equalityI) (auto simp: zero_span_def)
  then show ?thesis by (metis append_take_drop_id drop_drop add.commute)
qed

lemma length_groups_of [simp]: "length (groups_of a) = 8"
  by (simp add: groups_of_def)

lemma read_show_full: "length gs = 8 \<Longrightarrow> read_ipv6 (show_groups gs) = Some (ipv6_of_groups gs, [])"
  using read_show_groups [of gs 8 "[]" True] by (cases "gs = []") (auto simp: read_ipv6_def ends_def)

lemma read_show_compressed:
  assumes "length h + length t < 7" and "8 = length h + l + length t"
  shows "read_ipv6 (show_groups h @ ''::'' @ show_groups t) =
    Some (ipv6_of_groups (h @ replicate l 0 @ t), [])"
proof -
  have "read_groups 8 True (show_groups h @ ''::'' @ show_groups t) = (h, False, ''::'' @ show_groups t)"
  proof (cases "h = []")
    case True
    then show ?thesis using read_groups_stop [of "''::'' @ show_groups t" 8 True]
      by (simp add: ends_def show_groups_def)
  next
    case False
    with read_show_groups [of h 8 "''::'' @ show_groups t" True] assms show ?thesis by (auto simp: ends_def)
  qed
  moreover have "read_groups (7 - length h) True (show_groups t) = (t, False, [])"
  proof (cases "t = []")
    case True
    then show ?thesis using read_groups_stop [of "[]"] by (simp add: ends_def show_groups_def)
  next
    case False
    with read_show_groups [of t "7 - length h" "[]" True] assms show ?thesis by (auto simp: ends_def)
  qed
  moreover have l: "l = 8 - (length h + length t)" using assms by simp
  ultimately show ?thesis using assms(1) unfolding l by (auto simp: read_ipv6_def)
qed

lemma read_mapped_tail:
  "read_groups (Suc (Suc (Suc m))) True (show_int 16 (uint (g :: u16)) @ CHR '':'' # show_ipv4 a) =
     ([g, ucast (drop_bit 16 a), ucast a], True, [])"
  using read_show_group [of "CHR '':'' # show_ipv4 a" g] read_ipv4_group [of "CHR '':'' # show_ipv4 a" g]
    read_show_ipv4 [of "[]" a]
  by (simp add: read_sep_def)

lemma read_show_mapped:
  "read_ipv6 (''::ffff:'' @ show_ipv4 a) =
     Some (ipv6_of_groups [0, 0, 0, 0, 0, 0xFFFF, ucast (drop_bit 16 a), ucast a], [])"
proof -
  have f: "''ffff:'' @ show_ipv4 a = show_int 16 (uint (0xFFFF :: u16)) @ CHR '':'' # show_ipv4 a"
    by (simp add: show_int_def digits_of.simps digit_char_def char_of_def)
  have "read_groups 7 True (''ffff:'' @ show_ipv4 a) =
      ([0xFFFF, ucast (drop_bit 16 a), ucast a], True, [])"
    unfolding f using read_mapped_tail [of 4 "0xFFFF" a] by simp
  moreover have "read_groups 8 True (''::ffff:'' @ show_ipv4 a) = ([], False, ''::ffff:'' @ show_ipv4 a)"
    by (rule read_groups_stop) (simp add: ends_def)
  moreover have "replicate 5 (0 :: u16) = [0, 0, 0, 0, 0]" by (simp add: numeral_eq_Suc)
  ultimately show ?thesis by (simp add: read_ipv6_def)
qed

lemma read_ipv4_hd: "hd s = CHR '':'' \<or> s = [] \<Longrightarrow> read_ipv4 s = None"
  by (cases s) auto

lemma read_ipv4_groups: "r = [] \<or> hd r = CHR '':'' \<Longrightarrow> read_ipv4 (show_groups gs @ r) = None"
proof (cases gs)
  case (Cons g hs)
  assume r: "r = [] \<or> hd r = CHR '':''"
  show ?thesis
  proof (cases "hs = []")
    case True
    with Cons read_ipv4_group [OF r] show ?thesis by (simp add: show_groups_def)
  next
    case False
    with Cons read_ipv4_group [of "CHR '':'' # show_groups hs @ r" g] show ?thesis by (simp add: show_groups_Cons)
  qed
qed (auto simp: show_groups_def read_ipv4_hd)

lemma low_groups:
  "drop 6 (groups_of a) = [ucast (drop_bit 16 (ucast a :: u32)), ucast (ucast a :: u32)]"
proof -
  have "ucast (drop_bit 16 a) = (ucast (drop_bit 16 (ucast a :: u32)) :: u16)"
    "ucast a = (ucast (ucast a :: u32) :: u16)" by (rule bit_word_eqI; auto simp: bit_simps)+
  then show ?thesis by (simp add: groups_of_def)
qed

lemma show_mapped:
  assumes "take 6 (groups_of a) = [0, 0, 0, 0, 0, 0xFFFF]"
  shows "read_ipv6 (''::ffff:'' @ show_ipv4 (ucast a)) = Some (a, [])"
proof -
  have "take 6 (groups_of a) @ drop 6 (groups_of a) =
      [0, 0, 0, 0, 0, 0xFFFF, ucast (drop_bit 16 (ucast a :: u32)), ucast (ucast a :: u32)]"
    unfolding assms low_groups by simp
  then have "groups_of a = [0, 0, 0, 0, 0, 0xFFFF, ucast (drop_bit 16 (ucast a :: u32)), ucast (ucast a :: u32)]"
    by (simp only: append_take_drop_id)
  then show ?thesis using ipv6_groups [of a] read_show_mapped [of "ucast a"] by (simp only:)
qed

lemma show_compressed:
  assumes "zero_span (groups_of a) (k, l)" and "1 < l"
  shows "read_ipv6 (show_groups (take k (groups_of a)) @ ''::'' @ show_groups (drop (k + l) (groups_of a))) =
    Some (a, [])"
proof -
  have "k + l \<le> 8" using assms(1) by (simp add: zero_span_def)
  then have "read_ipv6 (show_groups (take k (groups_of a)) @ ''::'' @ show_groups (drop (k + l) (groups_of a))) =
    Some (ipv6_of_groups (take k (groups_of a) @ replicate l 0 @ drop (k + l) (groups_of a)), [])"
    using assms(2) by (intro read_show_compressed) auto
  then show ?thesis using zero_span_split [OF assms(1)] ipv6_groups [of a] by metis
qed

lemma read_show_ipv6: "read_ipv4 (show_ipv6 a) = None" "read_ipv6 (show_ipv6 a) = Some (a, [])"
proof -
  obtain k l where run: "zero_run 0 (0, 0) (0, 0) (groups_of a) = (k, l)"
    by (cases "zero_run 0 (0, 0) (0, 0) (groups_of a)")
  have "zero_span (groups_of a) (zero_run 0 (0, 0) (0, 0) (drop 0 (groups_of a)))"
    by (rule zero_run_span) (simp_all add: zero_span_def)
  then have span: "zero_span (groups_of a) (k, l)" by (simp add: run)
  have "read_ipv6 (show_groups (groups_of a)) = Some (a, [])"
    using read_show_full [of "groups_of a"] by (simp add: ipv6_groups)
  moreover have "read_ipv4 (''::ffff:'' @ show_ipv4 (ucast a)) = None"
    "read_ipv4 (show_groups (take k (groups_of a)) @ ''::'' @ show_groups (drop (k + l) (groups_of a))) = None"
    "read_ipv4 (show_groups (groups_of a)) = None"
    using read_ipv4_groups [of "[]" "groups_of a"] by (auto intro: read_ipv4_hd read_ipv4_groups)
  ultimately show "read_ipv4 (show_ipv6 a) = None" "read_ipv6 (show_ipv6 a) = Some (a, [])"
    using show_mapped [of a] show_compressed [OF span]
    unfolding show_ipv6_def Let_def run prod.case by (simp_all only: simp_thms split: if_split) blast+
qed

text \<open>The text of an address is read back as that address.\<close>

lemma parse_show_ip: "parse_ip (show_ip ip) = Some ip"
  using read_show_ipv4 [of "[]"] by (cases ip) (simp_all add: parse_ip_def read_show_ipv6)

lemma show_ip_inject: "show_ip a = show_ip b \<longleftrightarrow> a = b"
  by (metis option.inject parse_show_ip)

section \<open>Networks\<close>

lemma mask_and: "a AND push_bit k (NOT 0) = push_bit k (drop_bit k (a :: 'a::len word))"
  by (rule bit_word_eqI) (auto simp: bit_simps)

lemma mask_eq_iff:
  fixes a b :: "'a::len word"
  assumes "k < LENGTH('a)"
  shows "a AND push_bit k (NOT 0) = b AND push_bit k (NOT 0) \<longleftrightarrow> uint a div 2 ^ k = uint b div 2 ^ k"
proof -
  have "push_bit k (drop_bit k a) = push_bit k (drop_bit k b) \<longleftrightarrow> drop_bit k a = drop_bit k b"
  proof
    assume "push_bit k (drop_bit k a) = push_bit k (drop_bit k b)"
    then have "drop_bit k (push_bit k (drop_bit k a)) = drop_bit k (push_bit k (drop_bit k b))" by simp
    moreover have "drop_bit k (push_bit k (drop_bit k c)) = drop_bit k c" for c :: "'a word"
      by (rule bit_word_eqI) (auto simp: bit_simps dest: bit_imp_le_length)
    ultimately show "drop_bit k a = drop_bit k b" by simp
  qed simp
  then show ?thesis unfolding mask_and by (simp only: word_uint_eq_iff [of "drop_bit k a"] uint_drop_bit_div)
qed

text \<open>
  The reference notion of a network: two addresses of the same family are in the same network of
  prefix length \<open>p\<close> when their first \<open>p\<close> bits agree.
\<close>

fun same_network :: "nat \<Rightarrow> IpAddr \<Rightarrow> IpAddr \<Rightarrow> bool" where
  "same_network p (V4 a) (V4 b) \<longleftrightarrow> p \<le> 32 \<and> uint a div 2 ^ (32 - p) = uint b div 2 ^ (32 - p)"
| "same_network p (V6 a) (V6 b) \<longleftrightarrow> p \<le> 128 \<and> uint a div 2 ^ (128 - p) = uint b div 2 ^ (128 - p)"
| "same_network p _ _ \<longleftrightarrow> False"

text \<open>
  The networks a configured entry stands for: \<^verbatim>\<open>address/length\<close>, or a single address; an entry that does
  not parse stands for none.
\<close>

definition entry_network :: "string \<Rightarrow> (IpAddr \<times> nat) option" where
  "entry_network cidr = (case split_once CHR ''/'' cidr of
     Some (network, pfx) \<Rightarrow> (case (parse_ip network, parse_u8 pfx) of
       (Some ip, Some p) \<Rightarrow> Some (ip, p) | _ \<Rightarrow> None)
   | None \<Rightarrow> map_option (\<lambda>ip. (ip, case ip of V4 _ \<Rightarrow> 32 | V6 _ \<Rightarrow> 128)) (parse_ip cidr))"

lemma ip_in_cidr_network: "ip_in_cidr ip net p \<longleftrightarrow> same_network p ip net"
proof (cases "(ip, net)" rule: prod.exhaust)
  show ?thesis
  proof (cases ip; cases net)
    fix a b assume [simp]: "ip = V4 a" "net = V4 b"
    show ?thesis
      using mask_eq_iff [of "32 - p" a b] uint_lt2p [of a] uint_lt2p [of b]
      by (cases "p = 0") (auto simp: Let_def not_less)
  next
    fix a b assume [simp]: "ip = V6 a" "net = V6 b"
    show ?thesis
      using mask_eq_iff [of "128 - p" a b] uint_lt2p [of a] uint_lt2p [of b]
      by (cases "p = 0") (auto simp: Let_def not_less)
  qed simp_all
qed

lemma same_network_full:
  "same_network (case b of V4 _ \<Rightarrow> 32 | V6 _ \<Rightarrow> 128) a b \<longleftrightarrow> a = b"
  by (cases a; cases b) (auto simp: word_uint_eq_iff)

text \<open>
  C28. A peer is trusted exactly when it lies in the network of one of the configured entries: the bit
  masks of the code select the first bits of the address, for every prefix length and both
  address families, a plain address is a network of one, and entries that do not parse trust nobody.
\<close>

theorem trusted_proxy_networks:
  "is_trusted_proxy ip cidrs \<longleftrightarrow>
     (\<exists>cidr \<in> set cidrs. \<exists>net p. entry_network cidr = Some (net, p) \<and> same_network p ip net)"
proof (induction cidrs)
  case (Cons cidr cidrs)
  have "is_trusted_proxy ip [cidr] \<longleftrightarrow> (\<exists>net p. entry_network cidr = Some (net, p) \<and> same_network p ip net)"
    by (auto simp: entry_network_def ip_in_cidr_network same_network_full split: option.splits)
  with Cons show ?case by auto
qed simp

section \<open>Attribution of requests\<close>

lemma first_address_prefix:
  "first_address (raw # rest) = (case parse_ip (trim raw) of Some ip \<Rightarrow> Some ip | None \<Rightarrow> first_address rest)"
proof (cases "trim raw = []")
  case True
  have "parse_ip [] = None" by (simp add: parse_ip_def read_ipv6_def read_groups_stop ends_def)
  with True show ?thesis by simp
qed (simp add: Let_def)

text \<open>The addresses among a list of candidates, in order.\<close>

definition addresses :: "string list \<Rightarrow> IpAddr list" where
  "addresses raws = List.map_filter (\<lambda>raw. parse_ip (trim raw)) raws"

lemma addresses_simps [simp]:
  "addresses [] = []"
  "addresses (raw # raws) = (case parse_ip (trim raw) of Some ip \<Rightarrow> ip # addresses raws | None \<Rightarrow> addresses raws)"
  by (simp_all add: addresses_def map_filter_simps split: option.split)

lemma first_address_eq: "first_address raws = (case addresses raws of ip # _ \<Rightarrow> Some ip | [] \<Rightarrow> None)"
  by (induction raws) (simp_all only: first_address_prefix addresses_simps first_address.simps split: option.split list.split,
    auto split: list.split)

definition header_parts :: "string option \<Rightarrow> string list" where
  "header_parts v = (case v of Some s \<Rightarrow> split_at CHR '','' s | None \<Rightarrow> [])"

text \<open>
  The address a request is attributed to, against a specification in one line: the first
  well-formed address among the entries of \<^verbatim>\<open>X-Forwarded-For\<close>, then \<^verbatim>\<open>X-Real-IP\<close>, then the socket, where
  the headers take part only if the peer lies in a trusted network (or, without configured networks, if
  the proxy flag is set). The key is the canonical text of that address, so every spelling of one address shares
  one key, and no two addresses share it.
\<close>

theorem request_key_decision:
  "extract_client_ip_cidrs contains headers connect_info trust_proxy nets =
    (let trusted = (if nets = [] then trust_proxy
           else \<exists>ip. connect_info = Some ip \<and> (\<exists>net \<in> set nets. contains net ip));
         candidates = (if trusted then addresses (header_parts (headers ''x-forwarded-for'') @
             (case headers ''x-real-ip'' of Some s \<Rightarrow> [s] | None \<Rightarrow> [])) else []) @
           (case connect_info of Some ip \<Rightarrow> [ip] | None \<Rightarrow> [])
     in case candidates of ip # _ \<Rightarrow> show_ip ip | [] \<Rightarrow> ''unknown'')"
proof -
  have nil: "parse_ip [] = None" by (simp add: parse_ip_def read_ipv6_def read_groups_stop ends_def)
  have app: "addresses (xs @ ys) = addresses xs @ addresses ys" for xs ys
    by (simp add: addresses_def map_filter_def)
  show ?thesis
    unfolding extract_client_ip_cidrs_def Let_def
    by (cases connect_info; cases "headers ''x-forwarded-for''"; cases "headers ''x-real-ip''")
      (auto simp: header_parts_def app first_address_eq parse_show_ip list_ex_iff nil split: option.splits list.splits)
qed

text \<open>The characters of the text of an address.\<close>

definition address_char :: "char \<Rightarrow> bool" where
  "address_char c \<longleftrightarrow> c = CHR ''.'' \<or> c = CHR '':'' \<or> to_digit 16 c \<noteq> None"

lemma address_char_plain: "address_char c \<Longrightarrow> visible c \<and> c \<noteq> CHR '',''"
  by (auto simp: address_char_def visible_def to_digit_def Let_def split: if_splits)

lemma address_char_show_int: "2 \<le> radix \<Longrightarrow> radix \<le> 16 \<Longrightarrow> 0 \<le> n \<Longrightarrow> list_all address_char (show_int radix n)"
  using digits_of_less [of radix n] by (force simp: list_all_iff show_int_def address_char_def to_digit_char)

lemma address_char_join:
  "address_char c \<Longrightarrow> list_all (list_all address_char) ps \<Longrightarrow> list_all address_char (join_with c ps)"
  by (induction c ps rule: join_with.induct) auto

lemma address_char_show: "list_all address_char (show_ip ip)"
proof -
  have v4: "list_all address_char (show_ipv4 a)" for a unfolding show_ipv4_def
    by (rule address_char_join) (auto simp: address_char_def intro: address_char_show_int)
  have "list_all (list_all address_char) (map (\<lambda>g. show_int 16 (uint g)) hs)" for hs :: "u16 list"
    by (induction hs) (simp_all add: address_char_show_int)
  then have gs: "list_all address_char (show_groups hs)" for hs unfolding show_groups_def
    by (rule address_char_join [rotated]) (simp add: address_char_def)
  have "list_all address_char (show_ipv6 a)" for a
    by (auto simp: show_ipv6_def Let_def v4 gs address_char_def to_digit_def split: prod.split)
  with v4 show ?thesis by (cases ip) auto
qed

lemma header_one_address:
  "split_at CHR '','' (show_ip ip) = [show_ip ip]" "trim (show_ip ip) = show_ip ip"
proof -
  have plain: "visible c \<and> c \<noteq> CHR '',''" if "c \<in> set (show_ip ip)" for c
    using that address_char_show [of ip] by (intro address_char_plain) (simp add: list_all_iff)
  then show "split_at CHR '','' (show_ip ip) = [show_ip ip]" by (intro split_at_single) blast
  show "trim (show_ip ip) = show_ip ip" using plain by (intro trim_visible) (simp add: list_all_iff)
qed

text \<open>
  The admin routes trust the headers of every peer: with the proxy flag set and no configured
  networks, as \<^verbatim>\<open>admin_rate_limit_middleware\<close> calls it, a client that sends an address of its choice in
  \<^verbatim>\<open>X-Forwarded-For\<close> is given exactly the rate-limit key of that address.
\<close>

theorem admin_key_spoofable:
  "extract_client_ip contains ((\<lambda>_. None)(''x-forwarded-for'' \<mapsto> show_ip ip)) connect_info True = show_ip ip"
  by (simp add: extract_client_ip_def extract_client_ip_cidrs_def header_one_address parse_show_ip Let_def
      first_address_prefix del: first_address.simps)

end
