(* ===== verification/Rust_Parse.thy ===== *)
theory Rust_Parse
  imports Complex_Main Client_Ip
begin

text \<open>
  The parts of Rust's standard library by which the service reads its settings and rewrites texts:
  parsing of integers, booleans, floating-point numbers and socket addresses, search and replacement in
  strings, and ASCII case conversion.  Integers are \<open>int\<close> values within the bounds of their type, which
  the parsers enforce as the Rust parsers do.
\<close>

section \<open>Integers and booleans\<close>

definition all_digits :: "string \<Rightarrow> bool" where
  "all_digits s \<longleftrightarrow> s \<noteq> [] \<and> list_all (\<lambda>c. to_digit 10 c \<noteq> None) s"

definition decimal_value :: "string \<Rightarrow> int" where
  "decimal_value s = digits_value 10 (map (\<lambda>c. the (to_digit 10 c)) s)"

text \<open>The optional sign of a number.\<close>

definition strip_plus :: "string \<Rightarrow> string" where
  "strip_plus s = (case s of c # r \<Rightarrow> if c = CHR ''+'' then r else s | [] \<Rightarrow> s)"

definition parse_unsigned :: "nat \<Rightarrow> string \<Rightarrow> int option" where
  "parse_unsigned bits s = (let t = strip_plus s in
     if all_digits t \<and> decimal_value t < 2 ^ bits then Some (decimal_value t) else None)"

definition parse_signed :: "nat \<Rightarrow> string \<Rightarrow> int option" where
  "parse_signed bits s = (case s of
     c # t \<Rightarrow> if c = CHR ''-'' then
          (if all_digits t \<and> decimal_value t \<le> 2 ^ (bits - 1) then Some (- decimal_value t) else None)
        else (let t = strip_plus s in
          if all_digits t \<and> decimal_value t < 2 ^ (bits - 1) then Some (decimal_value t) else None)
   | [] \<Rightarrow> None)"

definition parse_bool :: "string \<Rightarrow> bool option" where
  "parse_bool s = (if s = ''true'' then Some True else if s = ''false'' then Some False else None)"

lemma digits_value_nonneg:
  assumes "\<And>d. d \<in> set ds \<Longrightarrow> 0 \<le> d"
  shows "0 \<le> digits_value 10 ds"
proof -
  have "0 \<le> a \<Longrightarrow> (\<And>d. d \<in> set ds \<Longrightarrow> 0 \<le> d) \<Longrightarrow> 0 \<le> foldl (\<lambda>a d. 10 * a + d) a ds" for a :: int
    by (induction ds arbitrary: a) auto
  with assms show ?thesis by (simp add: digits_value_def)
qed

lemma to_digit_nonneg: "to_digit radix c = Some d \<Longrightarrow> 0 \<le> d"
  by (auto simp: to_digit_def Let_def split: if_splits)

lemma decimal_value_nonneg: "all_digits s \<Longrightarrow> 0 \<le> decimal_value s"
  unfolding decimal_value_def all_digits_def
  by (rule digits_value_nonneg) (auto simp: list_all_iff to_digit_nonneg)

lemma parse_unsigned_range: "parse_unsigned bits s = Some v \<Longrightarrow> 0 \<le> v \<and> v < 2 ^ bits"
  by (auto simp: parse_unsigned_def Let_def decimal_value_nonneg split: if_splits)

lemma parse_signed_range:
  assumes "parse_signed bits s = Some v"
  shows "- (2 ^ (bits - 1)) \<le> v \<and> v < 2 ^ (bits - 1)"
proof -
  obtain d where d: "0 \<le> d" "v = d \<and> d < 2 ^ (bits - 1) \<or> v = - d \<and> d \<le> 2 ^ (bits - 1)"
    using assms decimal_value_nonneg by (fastforce simp: parse_signed_def Let_def split: if_splits list.splits)
  have "(0::int) < 2 ^ (bits - 1)" by simp
  with d show ?thesis by linarith
qed

lemma show_int_all_digits: "0 \<le> n \<Longrightarrow> all_digits (show_int 10 n)"
  using digits_of_less [of 10 n] by (auto simp: all_digits_def list_all_iff show_int_def to_digit_char)

lemma decimal_value_show_int: "0 \<le> n \<Longrightarrow> decimal_value (show_int 10 n) = n"
proof -
  assume n: "0 \<le> n"
  have "map (the \<circ> to_digit 10 \<circ> digit_char) (digits_of 10 n) = digits_of 10 n"
    using digits_of_less [of 10 n] n by (intro map_idI) (auto simp: to_digit_char)
  then show ?thesis by (simp add: decimal_value_def show_int_def digits_of_value comp_def)
qed

lemma strip_plus_digits: "all_digits s \<Longrightarrow> strip_plus s = s"
  by (auto simp: strip_plus_def all_digits_def to_digit_def split: list.splits)

lemma parse_unsigned_show: "0 \<le> n \<Longrightarrow> n < 2 ^ bits \<Longrightarrow> parse_unsigned bits (show_int 10 n) = Some n"
  by (simp add: parse_unsigned_def Let_def strip_plus_digits show_int_all_digits decimal_value_show_int)

section \<open>Texts\<close>

definition starts_with :: "string \<Rightarrow> string \<Rightarrow> bool" where
  "starts_with p s \<longleftrightarrow> take (length p) s = p"

fun str_contains :: "string \<Rightarrow> string \<Rightarrow> bool" where
  "str_contains p [] = (p = [])"
| "str_contains p (c # s) = (starts_with p (c # s) \<or> str_contains p s)"

text \<open>\<^verbatim>\<open>str::replace\<close> for a non-empty pattern: from left to right, without overlaps.\<close>

function str_replace :: "string \<Rightarrow> string \<Rightarrow> string \<Rightarrow> string" where
  "str_replace p r s = (case s of [] \<Rightarrow> []
     | c # t \<Rightarrow> if p \<noteq> [] \<and> starts_with p s then r @ str_replace p r (drop (length p) s)
               else c # str_replace p r t)"
  by pat_completeness auto
termination by (relation "measure (\<lambda>(p, r, s). length s)") auto

declare str_replace.simps [simp del]

definition ascii_lower :: "char \<Rightarrow> char" where
  "ascii_lower c = (let n = (of_char c :: int) in if 65 \<le> n \<and> n \<le> 90 then char_of (n + 32) else c)"

definition ascii_upper :: "char \<Rightarrow> char" where
  "ascii_upper c = (let n = (of_char c :: int) in if 97 \<le> n \<and> n \<le> 122 then char_of (n - 32) else c)"

definition eq_ignore_ascii_case :: "string \<Rightarrow> string \<Rightarrow> bool" where
  "eq_ignore_ascii_case a b \<longleftrightarrow> map ascii_lower a = map ascii_lower b"

definition is_ascii :: "string \<Rightarrow> bool" where
  "is_ascii s \<longleftrightarrow> list_all (\<lambda>c. (of_char c :: int) < 128) s"

lemma starts_with_append [simp]: "starts_with p (p @ s)"
  by (simp add: starts_with_def)

lemma starts_with_iff: "starts_with p s \<longleftrightarrow> (\<exists>t. s = p @ t)"
  by (metis append_take_drop_id starts_with_append starts_with_def)

lemma str_contains_iff: "str_contains p s \<longleftrightarrow> (\<exists>a b. s = a @ p @ b)"
proof (induction s)
  case (Cons c s)
  show ?case
  proof
    assume "str_contains p (c # s)"
    then show "\<exists>a b. c # s = a @ p @ b"
      using Cons.IH by (metis append_Cons append_Nil starts_with_iff str_contains.simps(2))
  next
    assume "\<exists>a b. c # s = a @ p @ b"
    then obtain a b where "c # s = a @ p @ b" by blast
    then have "starts_with p (c # s) \<or> (\<exists>a b. s = a @ p @ b)"
      by (cases a) (auto simp: starts_with_iff)
    with Cons.IH show "str_contains p (c # s)" by auto
  qed
qed simp

lemma str_replace_absent: "\<not> str_contains p s \<Longrightarrow> p \<noteq> [] \<Longrightarrow> str_replace p r s = s"
  by (induction s) (simp_all add: str_replace.simps [of _ _ "_ # _"] str_replace.simps [of _ _ "[]"])

section \<open>Floating-point numbers\<close>

text \<open>
  \<^verbatim>\<open>f64::from_str\<close>.  A finite value is kept as the exact rational the text denotes, before it is rounded
  to the nearest double; the only operation the service applies to it, \<^verbatim>\<open>clamp\<close>, commutes with the rounding.
\<close>

datatype float64 = NaN | Infinite bool | Finite rat

definition float_word :: "bool \<Rightarrow> string \<Rightarrow> float64 option" where
  "float_word neg s = (let w = map ascii_lower s in
     if w = ''inf'' \<or> w = ''infinity'' then Some (Infinite neg)
     else if w = ''nan'' then Some NaN else None)"

definition split_exponent :: "string \<Rightarrow> string \<times> string option" where
  "split_exponent s = (let m = takeWhile (\<lambda>c. ascii_lower c \<noteq> CHR ''e'') s in
     (m, if length m = length s then None else Some (drop (Suc (length m)) s)))"

definition parse_exponent :: "string option \<Rightarrow> int option" where
  "parse_exponent e = (case e of None \<Rightarrow> Some 0
   | Some [] \<Rightarrow> None
   | Some (c # t) \<Rightarrow> if c = CHR ''-'' then (if all_digits t then Some (- decimal_value t) else None)
       else (let u = strip_plus (c # t) in if all_digits u then Some (decimal_value u) else None))"

definition scale10 :: "int \<Rightarrow> int \<Rightarrow> rat" where
  "scale10 m e = (if 0 \<le> e then of_int (m * 10 ^ nat e) else of_int m / of_int (10 ^ nat (- e)))"

definition float_magnitude :: "string \<Rightarrow> rat option" where
  "float_magnitude s = (let (m, e) = split_exponent s;
       (i, f) = (case split_once CHR ''.'' m of Some (i, f) \<Rightarrow> (i, f) | None \<Rightarrow> (m, []))
     in if all_digits (i @ f) then map_option (\<lambda>x. scale10 (decimal_value (i @ f)) (x - int (length f))) (parse_exponent e)
        else None)"

definition parse_f64 :: "string \<Rightarrow> float64 option" where
  "parse_f64 s = (case s of [] \<Rightarrow> None
   | c # t \<Rightarrow> (let neg = (c = CHR ''-''); body = (if neg then t else strip_plus s) in
       case float_word neg body of Some v \<Rightarrow> Some v
       | None \<Rightarrow> map_option (\<lambda>q. Finite (if neg then - q else q)) (float_magnitude body)))"

fun clamp_unit :: "float64 \<Rightarrow> float64" where
  "clamp_unit NaN = NaN"
| "clamp_unit (Infinite neg) = Finite (if neg then 0 else 1)"
| "clamp_unit (Finite q) = Finite (if q < 0 then 0 else if 1 < q then 1 else q)"

section \<open>Socket addresses\<close>

text \<open>\<^verbatim>\<open>SocketAddr::from_str\<close>: an IPv4 address with a port, or a bracketed IPv6 address, possibly scoped.\<close>

definition read_port :: "string \<Rightarrow> int option" where
  "read_port s = (case read_sep CHR '':'' False (read_number 10 (length s) True 65536) s of
     Some (p, []) \<Rightarrow> Some p | _ \<Rightarrow> None)"

definition read_scope :: "string \<Rightarrow> string option" where
  "read_scope s = (if s \<noteq> [] \<and> hd s = CHR ''%'' then
     map_option snd (read_number 10 (length s) True 4294967296 (tl s)) else Some s)"

definition parse_socket_addr :: "string \<Rightarrow> (IpAddr \<times> int) option" where
  "parse_socket_addr s = (case read_ipv4 s of
     Some (a, t) \<Rightarrow> map_option (\<lambda>p. (V4 a, p)) (read_port t)
   | None \<Rightarrow> (if s \<noteq> [] \<and> hd s = CHR ''['' then
       (case read_ipv6 (tl s) of Some (a, t) \<Rightarrow>
          (case read_scope t of Some u \<Rightarrow>
             (if u \<noteq> [] \<and> hd u = CHR '']'' then map_option (\<lambda>p. (V6 a, p)) (read_port (tl u)) else None)
           | None \<Rightarrow> None)
        | None \<Rightarrow> None)
      else None))"

section \<open>Environment variables\<close>

text \<open>
  \<^verbatim>\<open>std::env::var\<close> gives a text or an error (the variable is not set, or not Unicode), which every reader
  here treats alike.
\<close>

type_synonym environment = "string \<Rightarrow> string option"

definition env_parse :: "environment \<Rightarrow> string \<Rightarrow> (string \<Rightarrow> 'a option) \<Rightarrow> 'a option" where
  "env_parse env name parse = Option.bind (env name) parse"

definition unwrap_or :: "'a option \<Rightarrow> 'a \<Rightarrow> 'a" where
  "unwrap_or x d = (case x of Some v \<Rightarrow> v | None \<Rightarrow> d)"

lemma unwrap_or_simps [simp]: "unwrap_or (Some v) d = v" "unwrap_or None d = d"
  by (simp_all add: unwrap_or_def)

definition env_uint :: "nat \<Rightarrow> environment \<Rightarrow> string \<Rightarrow> int \<Rightarrow> int" where
  "env_uint bits env name dflt = unwrap_or (env_parse env name (parse_unsigned bits)) dflt"

definition env_int :: "nat \<Rightarrow> environment \<Rightarrow> string \<Rightarrow> int \<Rightarrow> int" where
  "env_int bits env name dflt = unwrap_or (env_parse env name (parse_signed bits)) dflt"

definition env_text :: "environment \<Rightarrow> string \<Rightarrow> string \<Rightarrow> string" where
  "env_text env name dflt = unwrap_or (env name) dflt"

definition flag_on :: "string \<Rightarrow> bool" where
  "flag_on v \<longleftrightarrow> eq_ignore_ascii_case v ''true'' \<or> v = ''1''"

definition env_flag :: "environment \<Rightarrow> string \<Rightarrow> bool" where
  "env_flag env name = (case env name of Some v \<Rightarrow> flag_on v | None \<Rightarrow> False)"

lemma env_uint_range: "0 \<le> d \<Longrightarrow> d < 2 ^ bits \<Longrightarrow> 0 \<le> env_uint bits env name d \<and> env_uint bits env name d < 2 ^ bits"
  by (cases "env_parse env name (parse_unsigned bits)")
    (auto simp: env_uint_def env_parse_def bind_eq_Some_conv dest: parse_unsigned_range)

end
