(* ===== verification/Key_Schema.thy ===== *)
theory Key_Schema
  imports Rust_Parse
begin

text \<open>
  The contract key schema of \<^verbatim>\<open>config.rs\<close>: templates for the storage keys read from the chain, their
  validation at start-up with the search for circular references, and the key builders.  The search is the
  recursive depth-first search of the source, with fuel for the depth of the recursion; six units are shown
  to be enough.  It returns no cycle exactly for an acyclic reference relation, and a reported cycle is one.
\<close>

section \<open>Schema\<close>

record ContractKeySchema =
  k_version :: string
  k_market :: string
  k_platform_stats :: string
  k_user_bets :: string
  k_oracle_result :: string
  k_health_check :: string

definition ContractKeySchema_from_env :: "environment \<Rightarrow> ContractKeySchema" where
  "ContractKeySchema_from_env env =
     (let platform_stats = env_text env ''CONTRACT_KEY_PLATFORM_STATS'' ''platform:stats'';
          health_check = env_text env ''CONTRACT_KEY_HEALTH_CHECK'' platform_stats
      in \<lparr> k_version = env_text env ''CONTRACT_KEY_VERSION'' ''1.0.0'',
           k_market = env_text env ''CONTRACT_KEY_MARKET'' ''market:{id}'',
           k_platform_stats = platform_stats,
           k_user_bets = env_text env ''CONTRACT_KEY_USER_BETS'' ''user_bets:{id}'',
           k_oracle_result = env_text env ''CONTRACT_KEY_ORACLE_RESULT'' ''oracle_result:{id}'',
           k_health_check = health_check \<rparr>)"

section \<open>Search for circular references\<close>

definition FIELDS :: "string list" where
  "FIELDS = [''market'', ''platform_stats'', ''user_bets'', ''oracle_result'', ''health_check'']"

definition schema_templates :: "ContractKeySchema \<Rightarrow> (string \<times> string) list" where
  "schema_templates sch = [(''market'', k_market sch), (''platform_stats'', k_platform_stats sch),
     (''user_bets'', k_user_bets sch), (''oracle_result'', k_oracle_result sch),
     (''health_check'', k_health_check sch)]"

definition template_refs :: "string \<Rightarrow> string list" where
  "template_refs template = filter (\<lambda>field. str_contains (''{'' @ field @ ''}'') template) FIELDS"

definition schema_deps :: "ContractKeySchema \<Rightarrow> string \<rightharpoonup> string list" where
  "schema_deps sch = map_of (map (\<lambda>(name, template). (name, template_refs template)) (schema_templates sch))"

fun position :: "string \<Rightarrow> string list \<Rightarrow> nat option" where
  "position x [] = None"
| "position x (y # ys) = (if y = x then Some 0 else map_option Suc (position x ys))"

text \<open>What a call of \<^verbatim>\<open>dfs\<close> leaves: a cycle, or the colours and the path it has updated in place.\<close>

datatype search = Cycle "string list" | Clean "string \<rightharpoonup> nat" "string list"

function (sequential) dfs :: "nat \<Rightarrow> string \<Rightarrow> (string \<rightharpoonup> string list) \<Rightarrow> (string \<rightharpoonup> nat) \<Rightarrow> string list \<Rightarrow> search option"
  and visit :: "nat \<Rightarrow> string list \<Rightarrow> (string \<rightharpoonup> string list) \<Rightarrow> (string \<rightharpoonup> nat) \<Rightarrow> string list \<Rightarrow> search option" where
  "dfs 0 node deps colors path = None"
| "dfs (Suc n) node deps colors path =
     (case (case deps node of
              Some neighbors \<Rightarrow> visit n neighbors deps (colors(node \<mapsto> 1)) (path @ [node])
            | None \<Rightarrow> Some (Clean (colors(node \<mapsto> 1)) (path @ [node]))) of
        Some (Clean colors' path') \<Rightarrow> Some (Clean (colors'(node \<mapsto> 2)) (butlast path'))
      | result \<Rightarrow> result)"
| "visit n [] deps colors path = Some (Clean colors path)"
| "visit n (neighbor # rest) deps colors path =
     (case (if unwrap_or (colors neighbor) 0 = 1 then position neighbor path else None) of
        Some cycle_start \<Rightarrow> Some (Cycle (drop cycle_start path @ [neighbor]))
      | None \<Rightarrow> (case dfs n neighbor deps colors path of
          Some (Clean colors' path') \<Rightarrow> visit n rest deps colors' path'
        | result \<Rightarrow> result))"
  by pat_completeness auto
termination
  by (relation "measures [case_sum (\<lambda>(n, _). 2 * n) (\<lambda>(n, _). 2 * n + 1), case_sum (\<lambda>_. 0) (\<lambda>(_, ns, _). length ns)]")
    auto

text \<open>The outer loop over the fields; \<open>None\<close> stands for exhausted fuel.\<close>

fun search_from :: "nat \<Rightarrow> string list \<Rightarrow> (string \<rightharpoonup> string list) \<Rightarrow> (string \<rightharpoonup> nat) \<Rightarrow> string list \<Rightarrow> string list option option" where
  "search_from n [] deps colors path = Some None"
| "search_from n (field # later_fields) deps colors path =
     (if unwrap_or (colors field) 0 = 0 then
        (case dfs n field deps colors path of
           None \<Rightarrow> None
         | Some (Cycle cycle) \<Rightarrow> Some (Some cycle)
         | Some (Clean colors' path') \<Rightarrow> search_from n later_fields deps colors' path')
      else search_from n later_fields deps colors path)"

definition dfs_fuel :: nat where
  "dfs_fuel = Suc (length FIELDS)"

text \<open>The names of a cycle are joined with the UTF-8 text of an arrow between blanks.\<close>

definition ARROW :: string where
  "ARROW = [CHR '' '', CHR 0xE2, CHR 0x86, CHR 0x92, CHR '' '']"

fun join_arrow :: "string list \<Rightarrow> string" where
  "join_arrow [] = []"
| "join_arrow [x] = x"
| "join_arrow (x # y # xs) = x @ ARROW @ join_arrow (y # xs)"

definition detect_cycle :: "ContractKeySchema \<Rightarrow> string option option" where
  "detect_cycle sch = map_option (map_option join_arrow)
     (search_from dfs_fuel FIELDS (schema_deps sch) (map_of (map (\<lambda>f. (f, 0)) FIELDS)) [])"

section \<open>Validation\<close>

definition id_required :: "ContractKeySchema \<Rightarrow> (string \<times> string) list" where
  "id_required sch = [(''market'', k_market sch), (''user_bets'', k_user_bets sch), (''oracle_result'', k_oracle_result sch)]"

definition non_empty :: "ContractKeySchema \<Rightarrow> (string \<times> string) list" where
  "non_empty sch = [(''platform_stats'', k_platform_stats sch), (''health_check'', k_health_check sch)]"

definition id_errors :: "string \<times> string \<Rightarrow> string list" where
  "id_errors nt = (case nt of (name, template) \<Rightarrow>
     if template = [] then [name @ '': template must not be empty'']
     else if \<not> str_contains ''{id}'' template
       then [name @ '': template '' @ [CHR 0x22] @ template @ [CHR 0x22] @ '' is missing the {id} placeholder'']
     else [])"

definition empty_errors :: "string \<times> string \<Rightarrow> string list" where
  "empty_errors nt = (case nt of (name, template) \<Rightarrow>
     if template = [] then [name @ '': template must not be empty''] else [])"

definition cycle_errors :: "string option \<Rightarrow> string list" where
  "cycle_errors r = (case r of
     Some cycle_path \<Rightarrow> [''contract key schema contains circular dependency: '' @ cycle_path] | None \<Rightarrow> [])"

definition schema_validate :: "ContractKeySchema \<Rightarrow> (string list + unit) option" where
  "schema_validate sch = map_option (\<lambda>r.
     (let errors = concat (map id_errors (id_required sch)) @ concat (map empty_errors (non_empty sch)) @ cycle_errors r
      in if errors = [] then Inr () else Inl errors)) (detect_cycle sch)"

section \<open>Key builders\<close>

text \<open>\<^verbatim>\<open>i64::to_string\<close>.\<close>

definition show_signed :: "int \<Rightarrow> string" where
  "show_signed n = (if n < 0 then CHR ''-'' # show_int 10 (- n) else show_int 10 n)"

definition market_key :: "ContractKeySchema \<Rightarrow> int \<Rightarrow> string" where
  "market_key sch market_id = str_replace ''{id}'' (show_signed market_id) (k_market sch)"

definition user_bets_key :: "ContractKeySchema \<Rightarrow> string \<Rightarrow> string" where
  "user_bets_key sch user = str_replace ''{id}'' user (k_user_bets sch)"

definition oracle_result_key :: "ContractKeySchema \<Rightarrow> int \<Rightarrow> string" where
  "oracle_result_key sch market_id = str_replace ''{id}'' (show_signed market_id) (k_oracle_result sch)"

section \<open>The search finds exactly the cycles\<close>

text \<open>The references between fields: one template mentions the placeholder of the other field.\<close>

definition refs_rel :: "(string \<rightharpoonup> string list) \<Rightarrow> (string \<times> string) set" where
  "refs_rel deps = {(a, b). \<exists>ns. deps a = Some ns \<and> b \<in> set ns}"

abbreviation walk :: "(string \<rightharpoonup> string list) \<Rightarrow> string list \<Rightarrow> bool" where
  "walk deps \<equiv> successively (\<lambda>a b. (a, b) \<in> refs_rel deps)"

text \<open>No walk that starts at the node meets a node twice, nor one of the path.\<close>

definition clear_from :: "(string \<rightharpoonup> string list) \<Rightarrow> string list \<Rightarrow> string \<Rightarrow> bool" where
  "clear_from deps path a \<longleftrightarrow> (\<forall>w. walk deps (a # w) \<longrightarrow> distinct (path @ a # w))"

text \<open>The grey nodes are those of the path, and from the black ones no cycle can be reached.\<close>

definition colored :: "(string \<rightharpoonup> string list) \<Rightarrow> (string \<rightharpoonup> nat) \<Rightarrow> string list \<Rightarrow> bool" where
  "colored deps colors path \<longleftrightarrow> distinct path \<and> walk deps path \<and>
     (\<forall>x. unwrap_or (colors x) 0 = 1 \<longleftrightarrow> x \<in> set path) \<and>
     (\<forall>x. colors x \<noteq> None \<longrightarrow> the (colors x) \<le> 2 \<and> (colors x = Some 2 \<longrightarrow> clear_from deps [] x))"

lemma position_Some: "position x ys = Some i \<Longrightarrow> i < length ys \<and> ys ! i = x"
  by (induction ys arbitrary: i) (auto split: if_splits)

lemma position_None: "position x ys = None \<longleftrightarrow> x \<notin> set ys"
  by (induction ys) auto

lemma clear_from_weaken: "clear_from deps path a \<Longrightarrow> clear_from deps [] a"
  by (auto simp: clear_from_def)

lemma clear_from_step:
  assumes "\<And>b. (a, b) \<in> refs_rel deps \<Longrightarrow> clear_from deps (path @ [a]) b" "distinct (path @ [a])"
  shows "clear_from deps path a"
  unfolding clear_from_def
proof (intro allI impI)
  fix w assume w: "walk deps (a # w)"
  show "distinct (path @ a # w)"
  proof (cases w)
    case Nil with assms(2) show ?thesis by simp
  next
    case (Cons b v)
    with w have "(a, b) \<in> refs_rel deps" "walk deps (b # v)" by auto
    with assms(1) have "distinct ((path @ [a]) @ b # v)" unfolding clear_from_def by blast
    with Cons show ?thesis by simp
  qed
qed

lemma colored_grey:
  assumes "colored deps colors path" "a \<notin> set path" "path = [] \<or> (last path, a) \<in> refs_rel deps"
  shows "colored deps (colors(a \<mapsto> 1)) (path @ [a])"
  using assms by (auto simp: colored_def successively_append_iff)

lemma colored_black:
  assumes c: "colored deps colors (path @ [a])" and f: "clear_from deps [] a"
  shows "colored deps (colors(a \<mapsto> 2)) path"
  using c f unfolding colored_def by (auto simp: successively_append_iff)

text \<open>A reported cycle is a closed walk.\<close>

definition closed_walk :: "(string \<rightharpoonup> string list) \<Rightarrow> string list \<Rightarrow> bool" where
  "closed_walk deps c \<longleftrightarrow> (\<exists>x w. c = x # w @ [x]) \<and> walk deps c"

lemma closed_walk_found:
  assumes "colored deps colors path" "position b path = Some i" "(last path, b) \<in> refs_rel deps"
  shows "closed_walk deps (drop i path @ [b])"
proof -
  have i: "i < length path" "path ! i = b" using position_Some [OF assms(2)] by auto
  then have d: "drop i path = b # drop (Suc i) path" by (simp add: Cons_nth_drop_Suc [symmetric])
  have "path = take i path @ drop i path" by simp
  then have "walk deps (drop i path)"
    using assms(1) unfolding colored_def by (metis successively_append_iff)
  moreover have "last (drop i path) = last path" using i by simp
  ultimately have "walk deps (drop i path @ [b])"
    using assms(3) by (simp add: successively_append_iff)
  with d show ?thesis unfolding closed_walk_def by (metis append_Cons)
qed


text \<open>What the search promises when it starts in a state that is \<open>colored\<close> and has enough fuel.\<close>

definition search_ok :: "(string \<rightharpoonup> string list) \<Rightarrow> string list \<Rightarrow> string list \<Rightarrow> search option \<Rightarrow> bool" where
  "search_ok deps path ns r = (case r of None \<Rightarrow> False
     | Some (Cycle c) \<Rightarrow> closed_walk deps c
     | Some (Clean colors' path') \<Rightarrow> path' = path \<and> colored deps colors' path \<and> (\<forall>b\<in>set ns. clear_from deps path b))"

definition enough :: "string set \<Rightarrow> (string \<rightharpoonup> string list) \<Rightarrow> nat \<Rightarrow> string list \<Rightarrow> bool" where
  "enough N deps n path \<longleftrightarrow> finite N \<and> Range (refs_rel deps) \<subseteq> N \<and> set path \<subseteq> N \<and> card N < n + length path"

lemma path_length: "colored deps colors path \<Longrightarrow> enough N deps n path \<Longrightarrow> length path \<le> card N"
  by (metis card_mono colored_def distinct_card enough_def)

lemma search_correct:
  "colored deps colors path \<Longrightarrow> enough N deps n path \<Longrightarrow> node \<in> N \<Longrightarrow> node \<notin> set path \<Longrightarrow>
     path = [] \<or> (last path, node) \<in> refs_rel deps \<Longrightarrow> search_ok deps path [node] (dfs n node deps colors path)"
  "colored deps colors path \<Longrightarrow> enough N deps n path \<Longrightarrow> path \<noteq> [] \<Longrightarrow>
     (\<forall>b\<in>set ns. (last path, b) \<in> refs_rel deps) \<Longrightarrow> search_ok deps path ns (visit n ns deps colors path)"
proof (induction n node deps colors path and n ns deps colors path rule: dfs_visit.induct)
  case (1 node deps colors path)
  then show ?case using path_length [OF 1(1,2)] by (simp add: enough_def)
next
  case (2 n node deps colors path)
  have grey: "colored deps (colors(node \<mapsto> 1)) (path @ [node])" by (rule colored_grey) (use 2 in auto)
  have en: "enough N deps n (path @ [node])" using 2 by (simp add: enough_def)
  define r where "r = (case deps node of Some ns \<Rightarrow> visit n ns deps (colors(node \<mapsto> 1)) (path @ [node])
     | None \<Rightarrow> Some (Clean (colors(node \<mapsto> 1)) (path @ [node])))"
  have r: "search_ok deps (path @ [node]) (unwrap_or (deps node) []) r"
  proof (cases "deps node")
    case None then show ?thesis using grey by (simp add: r_def search_ok_def)
  next
    case (Some ns)
    have "\<forall>b\<in>set ns. (last (path @ [node]), b) \<in> refs_rel deps" using Some by (auto simp: refs_rel_def)
    with 2(1) [OF Some grey en] Some show ?thesis by (simp add: r_def fun_upd_def)
  qed
  have "dfs (Suc n) node deps colors path = (case r of
        Some (Clean colors' path') \<Rightarrow> Some (Clean (colors'(node \<mapsto> 2)) (butlast path')) | result \<Rightarrow> result)"
    by (simp add: r_def)
  moreover have "clear_from deps path node" if ok: "search_ok deps (path @ [node]) (unwrap_or (deps node) []) (Some (Clean c p))" for c p
  proof (rule clear_from_step)
    show "distinct (path @ [node])" using grey by (simp add: colored_def)
    show "clear_from deps (path @ [node]) b" if "(node, b) \<in> refs_rel deps" for b
      using that ok by (auto simp: search_ok_def refs_rel_def)
  qed
  ultimately show ?case using r colored_black [of deps _ path node]
    by (auto simp: search_ok_def intro: clear_from_weaken split: option.splits search.splits)
next
  case (3 n deps colors path)
  then show ?case by (simp add: search_ok_def)
next
  case (4 n b rest deps colors path)
  have e: "(last path, b) \<in> refs_rel deps" using 4(6) by simp
  then have bN: "b \<in> N" using 4(4) by (auto simp: enough_def)
  have grey: "unwrap_or (colors b) 0 = 1 \<longleftrightarrow> b \<in> set path" using 4(3) by (simp add: colored_def)
  show ?case
  proof (cases "b \<in> set path")
    case True
    then obtain i where i: "position b path = Some i" by (cases "position b path") (auto simp: position_None)
    with True grey show ?thesis using closed_walk_found [OF 4(3) i e] by (simp add: search_ok_def)
  next
    case False
    then have none: "(if unwrap_or (colors b) 0 = 1 then position b path else None) = None" using grey by simp
    have d: "search_ok deps path [b] (dfs n b deps colors path)"
      by (rule 4(1)) (use none 4 bN False e in auto)
    show ?thesis
    proof (cases "dfs n b deps colors path")
      case None with d show ?thesis by (simp add: search_ok_def)
    next
      case (Some s)
      show ?thesis
      proof (cases s)
        case (Cycle c) with Some none d show ?thesis by (simp add: search_ok_def)
      next
        case (Clean c p)
        with Some d have p: "p = path" "colored deps c path" "clear_from deps path b" by (auto simp: search_ok_def)
        then have "search_ok deps path rest (visit n rest deps c path)"
          using 4(2) [OF none Some Clean] 4(4-6) by auto
        with p Some Clean none show ?thesis by (auto simp: search_ok_def split: option.splits search.splits)
      qed
    qed
  qed
qed


lemma search_from_correct:
  "colored deps colors [] \<Longrightarrow> enough N deps n [] \<Longrightarrow> set fs \<subseteq> N \<Longrightarrow>
     (case search_from n fs deps colors [] of None \<Rightarrow> False
      | Some None \<Rightarrow> \<forall>f\<in>set fs. clear_from deps [] f
      | Some (Some c) \<Rightarrow> closed_walk deps c)"
proof (induction fs arbitrary: colors)
  case (Cons f fs)
  show ?case
  proof (cases "unwrap_or (colors f) 0 = 0")
    case True
    have "search_ok deps [] [f] (dfs n f deps colors [])"
      by (rule search_correct(1)) (use Cons.prems in auto)
    with True Cons.prems(2,3) Cons.IH show ?thesis
      by (fastforce simp: search_ok_def split: option.splits search.splits)
  next
    case False
    then obtain c where "colors f = Some c" "c \<noteq> 0" by (cases "colors f") auto
    moreover have "unwrap_or (colors f) 0 \<noteq> 1" using Cons.prems(1) by (simp add: colored_def)
    ultimately have "colors f = Some 2" using Cons.prems(1) unfolding colored_def by (auto simp: le_Suc_eq numeral_2_eq_2)
    with Cons.prems(1) have "clear_from deps [] f" by (auto simp: colored_def)
    with False Cons.IH [OF Cons.prems(1,2)] Cons.prems(3) show ?thesis by (auto split: option.splits)
  qed
qed simp

lemma walk_trancl: "walk deps (x # w @ [y]) \<Longrightarrow> (x, y) \<in> (refs_rel deps)\<^sup>+"
  by (induction w arbitrary: x) (auto intro: trancl_into_trancl2)

lemma walk_snoc: "walk deps (u @ [y]) \<Longrightarrow> (y, z) \<in> refs_rel deps \<Longrightarrow> walk deps (u @ [y, z])"
  by (simp add: successively_append_iff)

lemma trancl_walk: "(x, y) \<in> (refs_rel deps)\<^sup>+ \<Longrightarrow> \<exists>w. walk deps (x # w @ [y])"
proof (induction rule: trancl_induct)
  case (base y)
  then have "walk deps (x # [] @ [y])" by simp
  then show ?case by blast
next
  case (step y z)
  then obtain w where "walk deps (x # w @ [y])" by blast
  with walk_snoc [of deps "x # w"] step(2) have "walk deps (x # (w @ [y]) @ [z])" by simp
  then show ?case by blast
qed

lemma acyclic_iff_clear:
  assumes "Domain (refs_rel deps) \<subseteq> N"
  shows "acyclic (refs_rel deps) \<longleftrightarrow> (\<forall>f\<in>N. clear_from deps [] f)"
proof
  assume a: "acyclic (refs_rel deps)"
  have "distinct w" if "walk deps w" for w
    using that
  proof (induction w)
    case (Cons x w)
    have "x \<notin> set w"
    proof
      assume "x \<in> set w"
      then obtain u v where "w = u @ x # v" by (auto simp: in_set_conv_decomp)
      with Cons.prems have "walk deps (x # u @ [x])"
        by (metis append.assoc append_Cons append_Nil successively_append_iff)
      from walk_trancl [OF this] a show False by (simp add: acyclic_def)
    qed
    with Cons show ?case by (cases w) auto
  qed simp
  then show "\<forall>f\<in>N. clear_from deps [] f" unfolding clear_from_def by (metis append_Nil)
next
  assume c: "\<forall>f\<in>N. clear_from deps [] f"
  show "acyclic (refs_rel deps)"
    unfolding acyclic_def
  proof (intro allI notI)
    fix x assume x: "(x, x) \<in> (refs_rel deps)\<^sup>+"
    then obtain w where "walk deps (x # w @ [x])" using trancl_walk by blast
    moreover have "x \<in> N" using x assms by (auto dest: tranclD)
    ultimately show False using c unfolding clear_from_def by fastforce
  qed
qed

lemma closed_walk_cyclic: "closed_walk deps c \<Longrightarrow> \<not> acyclic (refs_rel deps)"
  by (auto simp: closed_walk_def acyclic_def dest: walk_trancl)

lemma template_refs_within: "set (template_refs t) \<subseteq> set FIELDS"
  by (auto simp: template_refs_def)

lemma schema_deps_within:
  "Domain (refs_rel (schema_deps sch)) \<subseteq> set FIELDS" "Range (refs_rel (schema_deps sch)) \<subseteq> set FIELDS"
proof -
  have "a \<in> set FIELDS \<and> set ns \<subseteq> set FIELDS" if "schema_deps sch a = Some ns" for a ns
  proof -
    have "(a, ns) \<in> set (map (\<lambda>(name, template). (name, template_refs template)) (schema_templates sch))"
      using that unfolding schema_deps_def by (rule map_of_SomeD)
    then have "a \<in> set FIELDS" "\<exists>t. ns = template_refs t"
      unfolding schema_templates_def by (auto simp: FIELDS_def)
    then show ?thesis using template_refs_within by auto
  qed
  then show "Domain (refs_rel (schema_deps sch)) \<subseteq> set FIELDS" "Range (refs_rel (schema_deps sch)) \<subseteq> set FIELDS"
    by (auto simp: refs_rel_def)
qed

lemma initial_colors: "colored deps (map_of (map (\<lambda>f. (f, 0)) FIELDS)) []"
proof -
  have "c = 0" if "map_of (map (\<lambda>f. (f, 0 :: nat)) FIELDS) x = Some c" for x c
    using map_of_SomeD [OF that] by auto
  then show ?thesis by (fastforce simp: colored_def unwrap_or_def split: option.splits)
qed

lemma detect_cycle_correct:
  "\<exists>r. detect_cycle sch = Some r \<and> (case r of
     None \<Rightarrow> acyclic (refs_rel (schema_deps sch))
   | Some text \<Rightarrow> \<exists>c. text = join_arrow c \<and> closed_walk (schema_deps sch) c)"
proof -
  have "card (set FIELDS) = length FIELDS" by (simp add: FIELDS_def)
  then have en: "enough (set FIELDS) (schema_deps sch) dfs_fuel []"
    using schema_deps_within by (simp add: enough_def dfs_fuel_def)
  show ?thesis
    using search_from_correct [OF initial_colors en order_refl] acyclic_iff_clear [OF schema_deps_within(1)]
    by (auto simp: detect_cycle_def split: option.splits)
qed

text \<open>
  C24. The search for circular references always returns, within a recursion depth of six.  It reports no
  cycle exactly when the relation ``the template of a field mentions the placeholder of a field'' is
  acyclic, and what it reports otherwise is the text of a closed walk along this relation.
\<close>

theorem detect_cycle_exact:
  "\<exists>r. detect_cycle sch = Some r \<and> (case r of
     None \<Rightarrow> acyclic (refs_rel (schema_deps sch))
   | Some text \<Rightarrow> \<exists>c. text = join_arrow c \<and> closed_walk (schema_deps sch) c)"
  by (rule detect_cycle_correct)

text \<open>
  Start-up validation accepts a schema exactly when the three templates that need it contain the
  placeholder of the identifier, the other two are not empty, and no templates refer to each other in a
  circle; otherwise it returns a non-empty list of complaints.
\<close>

theorem schema_validation_decision:
  "\<exists>r. schema_validate sch = Some r \<and> r \<noteq> Inl [] \<and>
     (r = Inr () \<longleftrightarrow> str_contains ''{id}'' (k_market sch) \<and> str_contains ''{id}'' (k_user_bets sch) \<and>
        str_contains ''{id}'' (k_oracle_result sch) \<and>
        k_platform_stats sch \<noteq> [] \<and> k_health_check sch \<noteq> [] \<and> acyclic (refs_rel (schema_deps sch)))"
proof -
  obtain r where r: "detect_cycle sch = Some r"
    and c: "case r of None \<Rightarrow> acyclic (refs_rel (schema_deps sch))
      | Some text \<Rightarrow> \<exists>c. text = join_arrow c \<and> closed_walk (schema_deps sch) c"
    using detect_cycle_correct [of sch] by blast
  have "cycle_errors r = [] \<longleftrightarrow> acyclic (refs_rel (schema_deps sch))"
    using c closed_walk_cyclic by (auto simp: cycle_errors_def split: option.splits)
  moreover have "id_errors (name, t) = [] \<longleftrightarrow> str_contains ''{id}'' t" for name t
    by (cases t) (auto simp: id_errors_def)
  moreover have "empty_errors (name, t) = [] \<longleftrightarrow> t \<noteq> []" for name t
    by (simp add: empty_errors_def)
  ultimately show ?thesis
    by (simp add: schema_validate_def r id_required_def non_empty_def Let_def)
qed

end
