(* ===== verification/Service_Config.thy ===== *)
theory Service_Config
  imports Key_Schema
begin

text \<open>
  The configuration of the API service (\<^verbatim>\<open>config.rs\<close>): every setting as it is read from the environment,
  the derived pool sizes, the connection string, and the validation at start-up.  The environment is an
  argument.  The crates \<^verbatim>\<open>ipnet\<close>, \<^verbatim>\<open>hex\<close>, \<^verbatim>\<open>base64\<close> and \<^verbatim>\<open>chrono\<close>, and the Unicode case tables of the
  standard library, are parameters (the record \<open>text_lib\<close>); durations are kept in their unit, seconds or
  milliseconds, as integers.
\<close>

section \<open>Parameters\<close>

record 'net text_lib =
  to_lowercase :: "string \<Rightarrow> string"
  to_uppercase :: "string \<Rightarrow> string"
  parse_ipnet :: "string \<Rightarrow> 'net option"
  hex_decode :: "string \<Rightarrow> string option"
  base64_decode :: "string \<Rightarrow> string option"
  parse_date :: "string \<Rightarrow> int option"

text \<open>What is known of the case tables: on ASCII texts they are the ASCII tables.\<close>

definition case_laws :: "'net text_lib \<Rightarrow> bool" where
  "case_laws lib \<longleftrightarrow> (\<forall>s. is_ascii s \<longrightarrow>
     to_lowercase lib s = map ascii_lower s \<and> to_uppercase lib s = map ascii_upper s)"

section \<open>Database credentials\<close>

record DbCredentials =
  db_host :: string
  db_port :: int
  db_name :: string
  db_user :: string
  db_password :: string

definition to_connection_string :: "DbCredentials \<Rightarrow> string" where
  "to_connection_string c = ''postgres://'' @ db_user c @ '':'' @ db_password c @ ''@'' @ db_host c @ '':'' @
     show_int 10 (db_port c) @ ''/'' @ db_name c"

definition DbCredentials_from_env :: "environment \<Rightarrow> DbCredentials" where
  "DbCredentials_from_env env =
     \<lparr> db_host = env_text env ''DB_HOST'' ''127.0.0.1'',
       db_port = env_uint 16 env ''DB_PORT'' 5432,
       db_name = env_text env ''DB_NAME'' ''predictiq'',
       db_user = env_text env ''DB_USER'' ''postgres'',
       db_password = env_text env ''DB_PASSWORD'' ''postgres'' \<rparr>"

section \<open>Cross-origin policy\<close>

record CorsConfig =
  dev_mode :: bool
  allowed_origins :: "string list"
  allowed_methods :: "string list"
  allowed_headers :: "string list"
  allow_credentials :: bool
  max_age_secs :: int

text \<open>A comma-separated list: the parts are trimmed and converted, empty ones are dropped.\<close>

definition comma_list :: "(string \<Rightarrow> string) \<Rightarrow> string \<Rightarrow> string list" where
  "comma_list conv v = filter (\<lambda>s. s \<noteq> []) (map (\<lambda>s. conv (trim s)) (split_at CHR '','' v))"

definition CorsConfig_from_env :: "'net text_lib \<Rightarrow> environment \<Rightarrow> CorsConfig" where
  "CorsConfig_from_env lib env =
     \<lparr> dev_mode = env_flag env ''CORS_DEV_MODE'',
       allowed_origins = (case env ''CORS_ALLOWED_ORIGINS'' of Some v \<Rightarrow> comma_list (\<lambda>s. s) v | None \<Rightarrow> []),
       allowed_methods = (case env ''CORS_ALLOWED_METHODS'' of Some v \<Rightarrow> comma_list (to_uppercase lib) v
          | None \<Rightarrow> [''GET'', ''POST'', ''PUT'', ''PATCH'', ''DELETE'', ''OPTIONS'']),
       allowed_headers = (case env ''CORS_ALLOWED_HEADERS'' of Some v \<Rightarrow> comma_list (to_lowercase lib) v
          | None \<Rightarrow> [''content-type'', ''authorization'']),
       allow_credentials = env_flag env ''CORS_ALLOW_CREDENTIALS'',
       max_age_secs = env_uint 64 env ''CORS_MAX_AGE_SECS'' 3600 \<rparr>"

section \<open>Network\<close>

datatype BlockchainNetwork = Testnet | Mainnet | Custom

definition BlockchainNetwork_from_str :: "'net text_lib \<Rightarrow> string \<Rightarrow> string + BlockchainNetwork" where
  "BlockchainNetwork_from_str lib value = (let v = to_lowercase lib value in
     if v = ''testnet'' then Inr Testnet
     else if v = ''mainnet'' then Inr Mainnet
     else if v = ''custom'' then Inr Custom
     else Inl (''unsupported BLOCKCHAIN_NETWORK: '' @ value))"

fun network_name :: "BlockchainNetwork \<Rightarrow> string" where
  "network_name Testnet = ''testnet''"
| "network_name Mainnet = ''mainnet''"
| "network_name Custom = ''custom''"

definition network_from_env :: "'net text_lib \<Rightarrow> environment \<Rightarrow> BlockchainNetwork" where
  "network_from_env lib env = unwrap_or (env_parse env ''BLOCKCHAIN_NETWORK''
     (\<lambda>s. case BlockchainNetwork_from_str lib s of Inr n \<Rightarrow> Some n | Inl _ \<Rightarrow> None)) Testnet"

fun default_rpc_url :: "BlockchainNetwork \<Rightarrow> string" where
  "default_rpc_url Testnet = ''https://soroban-testnet.stellar.org''"
| "default_rpc_url Mainnet = ''https://mainnet.sorobanrpc.com''"
| "default_rpc_url Custom = ''http://127.0.0.1:8000''"

fun default_passphrase :: "BlockchainNetwork \<Rightarrow> string" where
  "default_passphrase Testnet = ''Test SDF Network ; September 2015''"
| "default_passphrase Mainnet = ''Public Global Stellar Network ; September 2015''"
| "default_passphrase Custom = []"

section \<open>Connection pool\<close>

record DbPoolConfig =
  min_connections :: int
  max_connections :: int
  acquire_timeout :: int
  idle_timeout :: "int option"
  max_lifetime :: "int option"
  query_timeout :: int
  statement_timeout_ms :: int
  lock_timeout_ms :: int

text \<open>The two limits, exchanged when they are in the wrong order; at least one connection.\<close>

definition pool_limits :: "environment \<Rightarrow> int \<times> int" where
  "pool_limits env = (let db_pool_min = env_uint 32 env ''DB_POOL_MIN_CONNECTIONS'' 5;
       db_pool_max = env_uint 32 env ''DB_POOL_MAX_CONNECTIONS'' 25;
       (db_pool_min, db_pool_max) = (if db_pool_min > db_pool_max then (db_pool_max, db_pool_min) else (db_pool_min, db_pool_max))
     in (db_pool_min, max db_pool_max 1))"

definition positive_secs :: "environment \<Rightarrow> string \<Rightarrow> int option" where
  "positive_secs env name = Option.bind (env_parse env name (parse_unsigned 64)) (\<lambda>s. if s > 0 then Some s else None)"

definition DbPoolConfig_from_env :: "environment \<Rightarrow> DbPoolConfig" where
  "DbPoolConfig_from_env env = (let (db_pool_min, db_pool_max) = pool_limits env in
     \<lparr> min_connections = db_pool_min,
       max_connections = db_pool_max,
       acquire_timeout = max (env_uint 64 env ''DB_POOL_ACQUIRE_TIMEOUT_SECS'' 5) 1,
       idle_timeout = positive_secs env ''DB_POOL_IDLE_TIMEOUT_SECS'',
       max_lifetime = positive_secs env ''DB_POOL_MAX_LIFETIME_SECS'',
       query_timeout = max (env_uint 64 env ''DB_QUERY_TIMEOUT_SECS'' 30) 1,
       statement_timeout_ms = env_uint 64 env ''DB_STATEMENT_TIMEOUT_MS'' 30000,
       lock_timeout_ms = env_uint 64 env ''DB_LOCK_TIMEOUT_MS'' 10000 \<rparr>)"

section \<open>All settings\<close>

text \<open>The fields of the source's \<^verbatim>\<open>Config\<close>, grouped in five records by the part of the service that reads them.\<close>

record ChainConfig =
  blockchain_rpc_url :: string
  blockchain_network :: BlockchainNetwork
  contract_id :: string
  retry_attempts :: int
  retry_base_delay_ms :: int
  rpc_backoff_jitter_factor :: float64
  event_poll_interval :: int
  tx_poll_interval :: int
  confirmation_ledger_lag :: int
  sync_market_ids :: "int list"
  contract_key_schema :: ContractKeySchema
  network_passphrase :: string
  watched_tx_ttl_secs :: int
  watched_tx_max_size :: int

record 'net SecurityConfig =
  hmac_key :: string
  hmac_key_previous :: "string option"
  hmac_key_rotation_grace_seconds :: int
  api_keys :: "string list"
  admin_whitelist_ips :: "IpAddr list"
  trust_proxy :: bool
  request_signing_secret :: "string option"
  sendgrid_webhook_secret :: "string option"
  webhook_replay_window_secs :: int
  trusted_proxy_cidrs :: "'net list"
  metrics_public :: bool
  metrics_allowlist_ips :: "IpAddr list"
  cors :: CorsConfig
  require_https :: bool

record MailConfig =
  sendgrid_api_key :: "string option"
  from_email :: "string option"
  sendgrid_key_rotated_at :: "string option"
  base_url :: string
  email_idempotency_secret :: string
  email_stale_job_threshold_secs :: int
  email_per_recipient_hourly_limit :: int
  newsletter_token_ttl_secs :: int
  newsletter_rate_limit_max :: int
  newsletter_rate_limit_window_secs :: int
  newsletter_cleanup_batch_size :: int
  gdpr_export_rate_limit :: int
  gdpr_export_rate_window_secs :: int
  unsubscribe_signing_secret :: "string option"

record ServerConfig =
  bind_addr :: "IpAddr \<times> int"
  redis_url :: string
  db_credentials :: DbCredentials
  database_url :: string
  db_pool :: DbPoolConfig
  featured_limit :: int
  content_default_page_size :: int
  otlp_endpoint :: "string option"
  trace_sample_rate :: float64
  idempotency_window_secs :: int
  is_production :: bool
  app_env :: string

record 'net Config =
  server :: ServerConfig
  chain :: ChainConfig
  security :: "'net SecurityConfig"
  mailing :: MailConfig

definition ip_list :: "environment \<Rightarrow> string \<Rightarrow> IpAddr list" where
  "ip_list env name = (case env name of
     Some ips \<Rightarrow> List.map_filter (\<lambda>ip. parse_ip (trim ip)) (split_at CHR '','' ips) | None \<Rightarrow> [])"

definition ChainConfig_from_env :: "'net text_lib \<Rightarrow> environment \<Rightarrow> ChainConfig" where
  "ChainConfig_from_env lib env = (let network = network_from_env lib env in
     \<lparr> blockchain_rpc_url = env_text env ''BLOCKCHAIN_RPC_URL'' (default_rpc_url network),
       blockchain_network = network,
       contract_id = env_text env ''PREDICTIQ_CONTRACT_ID'' ''predictiq_contract'',
       retry_attempts = env_uint 32 env ''RPC_RETRY_ATTEMPTS'' 3,
       retry_base_delay_ms = env_uint 64 env ''RPC_RETRY_BASE_DELAY_MS'' 200,
       rpc_backoff_jitter_factor = clamp_unit (unwrap_or (env_parse env ''RPC_BACKOFF_JITTER_FACTOR'' parse_f64) (Finite 1)),
       event_poll_interval = env_uint 64 env ''EVENT_POLL_INTERVAL_SECS'' 5,
       tx_poll_interval = env_uint 64 env ''TX_POLL_INTERVAL_SECS'' 4,
       confirmation_ledger_lag = env_uint 32 env ''CONFIRMATION_LEDGER_LAG'' 3,
       sync_market_ids = (case env ''SYNC_MARKET_IDS'' of
          Some raw \<Rightarrow> List.map_filter (\<lambda>p. parse_signed 64 (trim p)) (split_at CHR '','' raw) | None \<Rightarrow> []),
       contract_key_schema = ContractKeySchema_from_env env,
       network_passphrase = env_text env ''STELLAR_NETWORK_PASSPHRASE'' (default_passphrase network),
       watched_tx_ttl_secs = env_uint 64 env ''WATCHED_TX_TTL_SECS'' 1800,
       watched_tx_max_size = env_uint 64 env ''WATCHED_TX_MAX_SIZE'' 10000 \<rparr>)"

definition SecurityConfig_from_env :: "'net text_lib \<Rightarrow> environment \<Rightarrow> 'net SecurityConfig" where
  "SecurityConfig_from_env lib env =
     \<lparr> hmac_key = env_text env ''HMAC_KEY'' [],
       hmac_key_previous = env ''HMAC_KEY_PREVIOUS'',
       hmac_key_rotation_grace_seconds = env_uint 64 env ''HMAC_KEY_ROTATION_GRACE_SECONDS'' 3600,
       api_keys = (case env ''API_KEYS'' of Some keys \<Rightarrow> map trim (split_at CHR '','' keys) | None \<Rightarrow> []),
       admin_whitelist_ips = ip_list env ''ADMIN_WHITELIST_IPS'',
       trust_proxy = unwrap_or (env_parse env ''TRUST_PROXY'' parse_bool) False,
       request_signing_secret = env ''REQUEST_SIGNING_SECRET'',
       sendgrid_webhook_secret = env ''SENDGRID_WEBHOOK_SECRET'',
       webhook_replay_window_secs = env_uint 64 env ''WEBHOOK_REPLAY_WINDOW_SECS'' 300,
       trusted_proxy_cidrs = (case env ''TRUSTED_PROXY_CIDRS'' of
          Some v \<Rightarrow> List.map_filter (\<lambda>s. parse_ipnet lib (trim s)) (split_at CHR '','' v) | None \<Rightarrow> []),
       metrics_public = env_flag env ''METRICS_PUBLIC'',
       metrics_allowlist_ips = ip_list env ''METRICS_ALLOWLIST_IPS'',
       cors = CorsConfig_from_env lib env,
       require_https = env_flag env ''REQUIRE_HTTPS'' \<rparr>"

definition MailConfig_from_env :: "environment \<Rightarrow> MailConfig" where
  "MailConfig_from_env env =
     \<lparr> sendgrid_api_key = env ''SENDGRID_API_KEY'',
       from_email = env ''FROM_EMAIL'',
       sendgrid_key_rotated_at = env ''SENDGRID_KEY_ROTATED_AT'',
       base_url = env_text env ''BASE_URL'' ''http://localhost:8080'',
       email_idempotency_secret = (case env ''EMAIL_IDEMPOTENCY_SECRET'' of Some s \<Rightarrow> s | None \<Rightarrow> env_text env ''HMAC_KEY'' []),
       email_stale_job_threshold_secs = env_uint 64 env ''EMAIL_STALE_JOB_THRESHOLD_SECS'' 3600,
       email_per_recipient_hourly_limit = env_uint 64 env ''EMAIL_PER_RECIPIENT_HOURLY_LIMIT'' 10,
       newsletter_token_ttl_secs = env_uint 64 env ''NEWSLETTER_TOKEN_TTL_SECS'' 86400,
       newsletter_rate_limit_max = env_uint 64 env ''NEWSLETTER_RATE_LIMIT_MAX'' 5,
       newsletter_rate_limit_window_secs = env_uint 64 env ''NEWSLETTER_RATE_LIMIT_WINDOW_SECS'' 3600,
       newsletter_cleanup_batch_size = env_uint 64 env ''NEWSLETTER_CLEANUP_BATCH_SIZE'' 500,
       gdpr_export_rate_limit = env_uint 32 env ''GDPR_EXPORT_RATE_LIMIT'' 3,
       gdpr_export_rate_window_secs = env_uint 64 env ''GDPR_EXPORT_RATE_WINDOW_SECS'' 3600,
       unsubscribe_signing_secret = env ''UNSUBSCRIBE_SIGNING_SECRET'' \<rparr>"

definition ServerConfig_from_env :: "environment \<Rightarrow> ServerConfig" where
  "ServerConfig_from_env env = (let credentials = DbCredentials_from_env env in
     \<lparr> bind_addr = unwrap_or (env_parse env ''API_BIND_ADDR'' parse_socket_addr) (V4 0, 8080),
       redis_url = env_text env ''REDIS_URL'' ''redis://127.0.0.1:6379'',
       db_credentials = credentials,
       database_url = to_connection_string credentials,
       db_pool = DbPoolConfig_from_env env,
       featured_limit = env_int 64 env ''FEATURED_LIMIT'' 10,
       content_default_page_size = env_int 64 env ''CONTENT_DEFAULT_PAGE_SIZE'' 20,
       otlp_endpoint = env ''OTLP_ENDPOINT'',
       trace_sample_rate = unwrap_or (env_parse env ''TRACE_SAMPLE_RATE'' parse_f64) (Finite (1 / 10)),
       idempotency_window_secs = env_uint 64 env ''IDEMPOTENCY_WINDOW_SECS'' 86400,
       is_production = (case env ''APP_ENV'' of Some v \<Rightarrow> eq_ignore_ascii_case v ''production'' | None \<Rightarrow> False),
       app_env = env_text env ''APP_ENV'' ''development'' \<rparr>)"

definition Config_from_env :: "'net text_lib \<Rightarrow> environment \<Rightarrow> 'net Config" where
  "Config_from_env lib env =
     \<lparr> server = ServerConfig_from_env env, chain = ChainConfig_from_env lib env,
       security = SecurityConfig_from_env lib env, mailing = MailConfig_from_env env \<rparr>"

section \<open>Checks at start-up\<close>

text \<open>The method \<^verbatim>\<open>Config::is_production\<close>, beside the field of the same name.\<close>

definition production_env :: "'net Config \<Rightarrow> bool" where
  "production_env cfg = eq_ignore_ascii_case (app_env (server cfg)) ''production''"

definition credential_errors :: "'net Config \<Rightarrow> string list" where
  "credential_errors cfg = (let c = db_credentials (server cfg) in
     (if db_host c = [] then [''DB_HOST: environment variable is not set or is empty''] else []) @
     (if db_name c = [] then [''DB_NAME: environment variable is not set or is empty''] else []) @
     (if db_user c = [] then [''DB_USER: environment variable is not set or is empty''] else []) @
     (if db_password c = [] then [''DB_PASSWORD: environment variable is not set or is empty''] else []) @
     (if db_password c = ''postgres'' \<and> is_production (server cfg)
      then [''DB_PASSWORD: insecure default 'postgres' is not allowed in production''] else []))"

definition redis_errors :: "'net Config \<Rightarrow> string list" where
  "redis_errors cfg = (let url = redis_url (server cfg) in
     if url = [] then [''REDIS_URL: environment variable is not set or is empty'']
     else if \<not> starts_with ''redis://'' url \<and> \<not> starts_with ''rediss://'' url
       then [''REDIS_URL: invalid format, expected 'redis://' or 'rediss://', got '' @ [CHR 0x27] @ url @ [CHR 0x27]]
     else [])"

definition hmac_key_bytes :: "'net text_lib \<Rightarrow> string \<Rightarrow> string" where
  "hmac_key_bytes lib key = (case hex_decode lib key of Some decoded \<Rightarrow> decoded
   | None \<Rightarrow> (case base64_decode lib key of Some decoded \<Rightarrow> decoded | None \<Rightarrow> key))"

definition hmac_errors :: "'net text_lib \<Rightarrow> 'net Config \<Rightarrow> string list" where
  "hmac_errors lib cfg = (let key = hmac_key (security cfg); key_bytes = hmac_key_bytes lib key in
     if key = [] then [''HMAC_KEY: environment variable is not set or is empty'']
     else if length key_bytes < 32
       then [''HMAC_KEY: must be at least 32 bytes (256 bits) after decoding; got '' @
             show_int 10 (int (length key_bytes)) @ '' bytes. Generate a secure key with: openssl rand -hex 32'']
     else [])"

definition cors_errors :: "environment \<Rightarrow> 'net Config \<Rightarrow> string list" where
  "cors_errors env cfg = (let rust_env = env_text env ''RUST_ENV'' [] in
     if dev_mode (cors (security cfg)) \<and> (eq_ignore_ascii_case rust_env ''production'' \<or> eq_ignore_ascii_case rust_env ''prod'')
     then [''CORS_DEV_MODE=true is not allowed when RUST_ENV=production. Remove or set CORS_DEV_MODE=false before deploying.'']
     else [])"

definition config_errors :: "'net text_lib \<Rightarrow> environment \<Rightarrow> 'net Config \<Rightarrow> string list" where
  "config_errors lib env cfg = credential_errors cfg @ redis_errors cfg @ hmac_errors lib cfg @ cors_errors env cfg"

definition config_validate :: "'net text_lib \<Rightarrow> environment \<Rightarrow> 'net Config \<Rightarrow> string + unit" where
  "config_validate lib env cfg = (if config_errors lib env cfg \<noteq> []
     then Inl ''Required configuration variables are missing or invalid'' else Inr ())"

text \<open>The age check of the SendGrid key; days are counted by the calendar of the \<^verbatim>\<open>chrono\<close> crate.\<close>

datatype key_age = NotSet | Unparsable | Stale int | Fresh int

definition warn_if_sendgrid_key_stale :: "'net text_lib \<Rightarrow> int \<Rightarrow> 'net Config \<Rightarrow> key_age" where
  "warn_if_sendgrid_key_stale lib today cfg = (case sendgrid_key_rotated_at (mailing cfg) of
     None \<Rightarrow> NotSet
   | Some s \<Rightarrow> if s = [] then NotSet else (case parse_date lib s of
       None \<Rightarrow> Unparsable
     | Some rotated_date \<Rightarrow> (let age_days = today - rotated_date in
         if age_days \<ge> 90 then Stale age_days else Fresh age_days)))"

definition check_https_config :: "'net Config \<Rightarrow> bool" where
  "check_https_config cfg \<longleftrightarrow> app_env (server cfg) = ''production'' \<and> \<not> require_https (security cfg)"

section \<open>What the settings guarantee\<close>

lemma pool_limits_bounds:
  "case pool_limits env of (lo, hi) \<Rightarrow> 0 \<le> lo \<and> lo \<le> hi \<and> 1 \<le> hi \<and> hi < 2 ^ 32"
  using env_uint_range [of 5 32 env "''DB_POOL_MIN_CONNECTIONS''"]
    env_uint_range [of 25 32 env "''DB_POOL_MAX_CONNECTIONS''"]
  by (auto simp: pool_limits_def Let_def)

text \<open>
  Whatever the environment contains, the pool settings are usable: the limits are in order, at least
  one connection is allowed, no timeout of an acquisition or a query is zero, and an idle or life time that
  is set is positive.
\<close>

theorem pool_settings_usable:
  "let p = db_pool (server (Config_from_env lib env)) in
     0 \<le> min_connections p \<and> min_connections p \<le> max_connections p \<and> 1 \<le> max_connections p \<and>
     max_connections p < 2 ^ 32 \<and> 1 \<le> acquire_timeout p \<and> 1 \<le> query_timeout p \<and>
     idle_timeout p \<noteq> Some 0 \<and> max_lifetime p \<noteq> Some 0"
  using pool_limits_bounds [of env]
  by (auto simp: Config_from_env_def ServerConfig_from_env_def DbPoolConfig_from_env_def positive_secs_def
      bind_eq_Some_conv Let_def split: prod.splits if_splits)

lemma credential_errors_Nil:
  "credential_errors cfg = [] \<longleftrightarrow> (let c = db_credentials (server cfg) in
     db_host c \<noteq> [] \<and> db_name c \<noteq> [] \<and> db_user c \<noteq> [] \<and> db_password c \<noteq> [] \<and>
     \<not> (is_production (server cfg) \<and> db_password c = ''postgres''))"
  unfolding credential_errors_def Let_def append_is_Nil_conv by (simp split: if_split) blast

lemma redis_errors_Nil:
  "redis_errors cfg = [] \<longleftrightarrow> starts_with ''redis://'' (redis_url (server cfg)) \<or> starts_with ''rediss://'' (redis_url (server cfg))"
  by (simp add: redis_errors_def Let_def) (auto simp: starts_with_def)

lemma hmac_errors_Nil:
  "hmac_errors lib cfg = [] \<longleftrightarrow> hmac_key (security cfg) \<noteq> [] \<and> 32 \<le> length (hmac_key_bytes lib (hmac_key (security cfg)))"
  by (simp add: hmac_errors_def Let_def not_less)

lemma cors_errors_Nil:
  "cors_errors env cfg = [] \<longleftrightarrow> \<not> (dev_mode (cors (security cfg)) \<and>
     map ascii_lower (env_text env ''RUST_ENV'' []) \<in> {''production'', ''prod''})"
proof -
  have "map ascii_lower ''production'' = ''production''" "map ascii_lower ''prod'' = ''prod''"
    by (simp_all add: ascii_lower_def)
  then show ?thesis by (simp add: cors_errors_def eq_ignore_ascii_case_def Let_def del: list.map)
qed

text \<open>
  The validation at start-up accepts a configuration exactly when the four database credentials are not
  empty, the password is not the default one in production, the Redis address has one of the two schemes,
  the signing key decodes to at least 32 bytes, and the permissive cross-origin mode is not combined with a
  production value of \<^verbatim>\<open>RUST_ENV\<close>.
\<close>

theorem config_validation_decision:
  "config_validate lib env cfg = Inr () \<longleftrightarrow>
     (let c = db_credentials (server cfg); url = redis_url (server cfg); key = hmac_key (security cfg) in
      db_host c \<noteq> [] \<and> db_name c \<noteq> [] \<and> db_user c \<noteq> [] \<and> db_password c \<noteq> [] \<and> key \<noteq> [] \<and>
      \<not> (is_production (server cfg) \<and> db_password c = ''postgres'') \<and>
      (starts_with ''redis://'' url \<or> starts_with ''rediss://'' url) \<and>
      32 \<le> length (hmac_key_bytes lib key) \<and>
      \<not> (dev_mode (cors (security cfg)) \<and>
         map ascii_lower (env_text env ''RUST_ENV'' []) \<in> {''production'', ''prod''}))"
proof -
  have "config_validate lib env cfg = Inr () \<longleftrightarrow> config_errors lib env cfg = []"
    by (simp add: config_validate_def)
  also have "\<dots> \<longleftrightarrow> credential_errors cfg = [] \<and> redis_errors cfg = [] \<and> hmac_errors lib cfg = [] \<and> cors_errors env cfg = []"
    by (simp add: config_errors_def)
  finally show ?thesis
    unfolding credential_errors_Nil redis_errors_Nil hmac_errors_Nil cors_errors_Nil Let_def by (simp only: conj_ac)
qed

text \<open>A library whose decoders reject everything, and an environment given by a list.\<close>

definition plain_lib :: "'net text_lib" where
  "plain_lib = \<lparr> to_lowercase = map ascii_lower, to_uppercase = map ascii_upper, parse_ipnet = (\<lambda>_. None),
     hex_decode = (\<lambda>_. None), base64_decode = (\<lambda>_. None), parse_date = (\<lambda>_. None) \<rparr>"

lemma config_fields:
  "db_credentials (server (Config_from_env lib env)) = DbCredentials_from_env env"
  "redis_url (server (Config_from_env lib env)) = env_text env ''REDIS_URL'' ''redis://127.0.0.1:6379''"
  "is_production (server (Config_from_env lib env)) =
     (case env ''APP_ENV'' of Some v \<Rightarrow> eq_ignore_ascii_case v ''production'' | None \<Rightarrow> False)"
  "app_env (server (Config_from_env lib env)) = env_text env ''APP_ENV'' ''development''"
  "hmac_key (security (Config_from_env lib env)) = env_text env ''HMAC_KEY'' []"
  "api_keys (security (Config_from_env lib env)) =
     (case env ''API_KEYS'' of Some keys \<Rightarrow> map trim (split_at CHR '','' keys) | None \<Rightarrow> [])"
  "dev_mode (cors (security (Config_from_env lib env))) = env_flag env ''CORS_DEV_MODE''"
  by (simp_all only: Config_from_env_def ServerConfig_from_env_def SecurityConfig_from_env_def CorsConfig_from_env_def
      Let_def ServerConfig.simps SecurityConfig.simps CorsConfig.simps Config.simps)

text \<open>
  Two gaps of the validation.  With nothing set but a signing key, the service starts with the default
  database user and password, although the validation is documented to require that they are set.  And a
  deployment that calls itself production by \<^verbatim>\<open>APP_ENV\<close>, the variable every other check uses, may run with
  the permissive cross-origin mode.
\<close>

theorem validation_gaps:
  assumes k: "32 \<le> length (hmac_key_bytes lib key)" "key \<noteq> []"
  shows "config_validate lib [''HMAC_KEY'' \<mapsto> key] (Config_from_env lib [''HMAC_KEY'' \<mapsto> key]) = Inr ()"
    "let env = [''HMAC_KEY'' \<mapsto> key, ''APP_ENV'' \<mapsto> ''production'', ''DB_PASSWORD'' \<mapsto> ''secret'', ''CORS_DEV_MODE'' \<mapsto> ''true''];
         cfg = Config_from_env lib env
     in production_env cfg \<and> dev_mode (cors (security cfg)) \<and> config_validate lib env cfg = Inr ()"
  using k by (simp_all add: config_validate_def config_errors_def credential_errors_def redis_errors_def hmac_errors_def
      cors_errors_def config_fields
      DbCredentials_from_env_def env_text_def env_flag_def flag_on_def eq_ignore_ascii_case_def ascii_lower_def
      starts_with_def production_env_def Let_def)

theorem validation_gaps_witness:
  "config_validate plain_lib [''HMAC_KEY'' \<mapsto> replicate 32 CHR ''k'']
     (Config_from_env plain_lib [''HMAC_KEY'' \<mapsto> replicate 32 CHR ''k''] :: unit Config) = Inr ()"
  by (rule validation_gaps(1)) (simp_all add: hmac_key_bytes_def plain_lib_def)

text \<open>
  The connection string is assembled without escaping: two different sets of credentials, one with a
  password that contains an at sign, give the same address, so that the service may connect to another host
  than the configured one.
\<close>

theorem connection_string_ambiguous:
  "to_connection_string \<lparr> db_host = h, db_port = p, db_name = n, db_user = u, db_password = a @ ''@'' @ b \<rparr> =
   to_connection_string \<lparr> db_host = b @ ''@'' @ h, db_port = p, db_name = n, db_user = u, db_password = a \<rparr>"
  by (simp add: to_connection_string_def)

end
