(* ===== verification/Cache_Keys.thy ===== *)
theory Cache_Keys
  imports Service_Config
begin

text \<open>
  The names under which the service caches (\<^verbatim>\<open>cache/mod.rs\<close>, the module \<^verbatim>\<open>keys\<close>), the categories of
  these names with their times to live, and the tags that group the names a write makes stale.  The lower-case
  conversion of the standard library is a parameter.  The theorem at the end shows that two different things
  are never cached under the same name, up to the case of an account or a transaction hash.
\<close>

section \<open>Categories and times to live\<close>

datatype KeyCategory = Statistics | FeaturedMarkets | Content | ChainMarket | ChainPlatformStats | ChainUserBets
  | ChainOracleResult | ChainTxStatus | ChainHealth | ChainLedger | ChainSyncCursor | Custom_Category

fun category_label :: "KeyCategory \<Rightarrow> string" where
  "category_label Statistics = ''statistics''"
| "category_label FeaturedMarkets = ''featured_markets''"
| "category_label Content = ''content''"
| "category_label ChainMarket = ''chain_market''"
| "category_label ChainPlatformStats = ''chain_platform_stats''"
| "category_label ChainUserBets = ''chain_user_bets''"
| "category_label ChainOracleResult = ''chain_oracle_result''"
| "category_label ChainTxStatus = ''chain_tx_status''"
| "category_label ChainHealth = ''chain_health''"
| "category_label ChainLedger = ''chain_ledger''"
| "category_label ChainSyncCursor = ''chain_sync_cursor''"
| "category_label Custom_Category = ''custom''"

record TtlConfig =
  ttl_statistics :: nat
  ttl_featured_markets :: nat
  ttl_content :: nat
  ttl_chain_market :: nat
  ttl_chain_platform_stats :: nat
  ttl_chain_user_bets :: nat
  ttl_chain_oracle_result :: nat
  ttl_chain_tx_status :: nat
  ttl_chain_health :: nat
  ttl_chain_ledger :: nat
  ttl_chain_sync_cursor :: nat

definition TtlConfig_default :: TtlConfig where
  "TtlConfig_default =
     \<lparr> ttl_statistics = 60, ttl_featured_markets = 300, ttl_content = 600, ttl_chain_market = 30,
       ttl_chain_platform_stats = 120, ttl_chain_user_bets = 60, ttl_chain_oracle_result = 300,
       ttl_chain_tx_status = 15, ttl_chain_health = 10, ttl_chain_ledger = 5, ttl_chain_sync_cursor = 5 \<rparr>"

fun ttl_of :: "TtlConfig \<Rightarrow> KeyCategory \<Rightarrow> nat option" where
  "ttl_of cfg Statistics = Some (ttl_statistics cfg)"
| "ttl_of cfg FeaturedMarkets = Some (ttl_featured_markets cfg)"
| "ttl_of cfg Content = Some (ttl_content cfg)"
| "ttl_of cfg ChainMarket = Some (ttl_chain_market cfg)"
| "ttl_of cfg ChainPlatformStats = Some (ttl_chain_platform_stats cfg)"
| "ttl_of cfg ChainUserBets = Some (ttl_chain_user_bets cfg)"
| "ttl_of cfg ChainOracleResult = Some (ttl_chain_oracle_result cfg)"
| "ttl_of cfg ChainTxStatus = Some (ttl_chain_tx_status cfg)"
| "ttl_of cfg ChainHealth = Some (ttl_chain_health cfg)"
| "ttl_of cfg ChainLedger = Some (ttl_chain_ledger cfg)"
| "ttl_of cfg ChainSyncCursor = Some (ttl_chain_sync_cursor cfg)"
| "ttl_of cfg Custom_Category = None"

section \<open>Names\<close>

definition API_PREFIX :: string where
  "API_PREFIX = ''api:v1''"

definition DBQ_PREFIX :: string where
  "DBQ_PREFIX = ''dbq:v1''"

definition CHAIN_PREFIX :: string where
  "CHAIN_PREFIX = ''chain:v1''"

definition api_statistics :: string where
  "api_statistics = API_PREFIX @ '':statistics''"

definition api_featured_markets :: string where
  "api_featured_markets = API_PREFIX @ '':featured_markets''"

definition api_content :: "int \<Rightarrow> string" where
  "api_content limit = API_PREFIX @ '':content:limit:'' @ show_signed limit"

definition dbq_statistics :: string where
  "dbq_statistics = DBQ_PREFIX @ '':statistics''"

definition dbq_featured_markets :: "int \<Rightarrow> string" where
  "dbq_featured_markets limit = DBQ_PREFIX @ '':featured_markets:limit:'' @ show_signed limit"

definition dbq_content :: "int \<Rightarrow> string" where
  "dbq_content limit = DBQ_PREFIX @ '':content:limit:'' @ show_signed limit"

definition chain_market :: "int \<Rightarrow> string" where
  "chain_market market_id = CHAIN_PREFIX @ '':market:'' @ show_signed market_id"

definition chain_platform_stats :: "string \<Rightarrow> string" where
  "chain_platform_stats network = CHAIN_PREFIX @ '':platform_stats:'' @ network"

definition chain_user_bets :: "'net text_lib \<Rightarrow> string \<Rightarrow> string \<Rightarrow> int \<Rightarrow> string" where
  "chain_user_bets lib network user limit =
     CHAIN_PREFIX @ '':user_bets:'' @ network @ '':'' @ to_lowercase lib user @ '':limit:'' @ show_signed limit"

definition chain_user_bets_page :: "'net text_lib \<Rightarrow> string \<Rightarrow> string \<Rightarrow> int \<Rightarrow> int \<Rightarrow> string" where
  "chain_user_bets_page lib network user page page_size =
     CHAIN_PREFIX @ '':user_bets:'' @ network @ '':'' @ to_lowercase lib user @ '':page:'' @ show_signed page @
     '':size:'' @ show_signed page_size"

definition chain_oracle_result :: "string \<Rightarrow> int \<Rightarrow> string" where
  "chain_oracle_result network market_id = CHAIN_PREFIX @ '':oracle:'' @ network @ '':market:'' @ show_signed market_id"

definition chain_tx_status :: "'net text_lib \<Rightarrow> string \<Rightarrow> string \<Rightarrow> string" where
  "chain_tx_status lib network tx_hash = CHAIN_PREFIX @ '':tx_status:'' @ network @ '':'' @ to_lowercase lib tx_hash"

definition chain_health :: "string \<Rightarrow> string" where
  "chain_health network = CHAIN_PREFIX @ '':health:'' @ network"

definition chain_last_seen_ledger :: "string \<Rightarrow> string" where
  "chain_last_seen_ledger network = CHAIN_PREFIX @ '':last_seen_ledger:'' @ network"

definition chain_sync_cursor :: "string \<Rightarrow> string" where
  "chain_sync_cursor network = CHAIN_PREFIX @ '':sync_cursor:'' @ network"

definition chain_replay_progress :: "string \<Rightarrow> int \<Rightarrow> string" where
  "chain_replay_progress network from_ledger = CHAIN_PREFIX @ '':replay:'' @ network @ '':'' @ show_signed from_ledger"

section \<open>Tags\<close>

datatype InvalidationTag = MarketResolved int string int

fun cache_keys :: "InvalidationTag \<Rightarrow> string list" where
  "cache_keys (MarketResolved market_id network featured) =
     [chain_market market_id, chain_oracle_result network market_id, api_statistics, api_featured_markets,
      dbq_statistics, dbq_featured_markets featured]"

lemmas key_defs = API_PREFIX_def DBQ_PREFIX_def CHAIN_PREFIX_def api_statistics_def api_featured_markets_def
  api_content_def dbq_statistics_def dbq_featured_markets_def dbq_content_def chain_market_def
  chain_platform_stats_def chain_user_bets_def chain_user_bets_page_def chain_oracle_result_def chain_tx_status_def
  chain_health_def chain_last_seen_ledger_def chain_sync_cursor_def chain_replay_progress_def

section \<open>Names do not collide\<close>

text \<open>What is cached, and the name it has.\<close>

datatype cached_thing = Api_Statistics | Api_Featured | Api_Content int | Dbq_Statistics | Dbq_Featured int | Dbq_Content int
  | Chain_Market int | Platform_Stats BlockchainNetwork | User_Bets BlockchainNetwork string int
  | User_Bets_Page BlockchainNetwork string int int | Oracle_Result BlockchainNetwork int
  | Tx_Status BlockchainNetwork string | Health BlockchainNetwork | Last_Seen_Ledger BlockchainNetwork
  | Sync_Cursor BlockchainNetwork | Replay_Progress BlockchainNetwork int

fun cache_name :: "'net text_lib \<Rightarrow> cached_thing \<Rightarrow> string" where
  "cache_name lib Api_Statistics = api_statistics"
| "cache_name lib Api_Featured = api_featured_markets"
| "cache_name lib (Api_Content n) = api_content n"
| "cache_name lib Dbq_Statistics = dbq_statistics"
| "cache_name lib (Dbq_Featured n) = dbq_featured_markets n"
| "cache_name lib (Dbq_Content n) = dbq_content n"
| "cache_name lib (Chain_Market m) = chain_market m"
| "cache_name lib (Platform_Stats net) = chain_platform_stats (network_name net)"
| "cache_name lib (User_Bets net u n) = chain_user_bets lib (network_name net) u n"
| "cache_name lib (User_Bets_Page net u p n) = chain_user_bets_page lib (network_name net) u p n"
| "cache_name lib (Oracle_Result net m) = chain_oracle_result (network_name net) m"
| "cache_name lib (Tx_Status net h) = chain_tx_status lib (network_name net) h"
| "cache_name lib (Health net) = chain_health (network_name net)"
| "cache_name lib (Last_Seen_Ledger net) = chain_last_seen_ledger (network_name net)"
| "cache_name lib (Sync_Cursor net) = chain_sync_cursor (network_name net)"
| "cache_name lib (Replay_Progress net l) = chain_replay_progress (network_name net) l"

text \<open>The same thing with its free text in lower case, and the things whose text has no colon.\<close>

fun folded :: "'net text_lib \<Rightarrow> cached_thing \<Rightarrow> cached_thing" where
  "folded lib (User_Bets net u n) = User_Bets net (to_lowercase lib u) n"
| "folded lib (User_Bets_Page net u p n) = User_Bets_Page net (to_lowercase lib u) p n"
| "folded lib (Tx_Status net h) = Tx_Status net (to_lowercase lib h)"
| "folded lib x = x"

fun plain_thing :: "'net text_lib \<Rightarrow> cached_thing \<Rightarrow> bool" where
  "plain_thing lib (User_Bets net u n) \<longleftrightarrow> CHR '':'' \<notin> set (to_lowercase lib u)"
| "plain_thing lib (User_Bets_Page net u p n) \<longleftrightarrow> CHR '':'' \<notin> set (to_lowercase lib u)"
| "plain_thing lib x \<longleftrightarrow> True"

text \<open>The parts of a name between its colons.\<close>

fun name_parts :: "'net text_lib \<Rightarrow> cached_thing \<Rightarrow> string list" where
  "name_parts lib Api_Statistics = [''api'', ''v1'', ''statistics'']"
| "name_parts lib Api_Featured = [''api'', ''v1'', ''featured_markets'']"
| "name_parts lib (Api_Content n) = [''api'', ''v1'', ''content'', ''limit'', show_signed n]"
| "name_parts lib Dbq_Statistics = [''dbq'', ''v1'', ''statistics'']"
| "name_parts lib (Dbq_Featured n) = [''dbq'', ''v1'', ''featured_markets'', ''limit'', show_signed n]"
| "name_parts lib (Dbq_Content n) = [''dbq'', ''v1'', ''content'', ''limit'', show_signed n]"
| "name_parts lib (Chain_Market m) = [''chain'', ''v1'', ''market'', show_signed m]"
| "name_parts lib (Platform_Stats net) = [''chain'', ''v1'', ''platform_stats'', network_name net]"
| "name_parts lib (User_Bets net u n) = [''chain'', ''v1'', ''user_bets'', network_name net, to_lowercase lib u, ''limit'', show_signed n]"
| "name_parts lib (User_Bets_Page net u p n) = [''chain'', ''v1'', ''user_bets'', network_name net, to_lowercase lib u,
     ''page'', show_signed p, ''size'', show_signed n]"
| "name_parts lib (Oracle_Result net m) = [''chain'', ''v1'', ''oracle'', network_name net, ''market'', show_signed m]"
| "name_parts lib (Tx_Status net h) = ''chain'' # ''v1'' # ''tx_status'' # network_name net # split_at CHR '':'' (to_lowercase lib h)"
| "name_parts lib (Health net) = [''chain'', ''v1'', ''health'', network_name net]"
| "name_parts lib (Last_Seen_Ledger net) = [''chain'', ''v1'', ''last_seen_ledger'', network_name net]"
| "name_parts lib (Sync_Cursor net) = [''chain'', ''v1'', ''sync_cursor'', network_name net]"
| "name_parts lib (Replay_Progress net l) = [''chain'', ''v1'', ''replay'', network_name net, show_signed l]"

lemma show_int_digits:
  assumes "0 \<le> n" "c \<in> set (show_int 10 n)"
  shows "48 \<le> (of_char c :: int) \<and> (of_char c :: int) \<le> 57"
proof -
  obtain d where "d \<in> set (digits_of 10 n)" "c = digit_char d" using assms(2) by (auto simp: show_int_def)
  with digits_of_less [of 10 n d] assms(1) show ?thesis by (auto simp: of_digit_char)
qed

lemma show_signed_no_colon: "CHR '':'' \<notin> set (show_signed n)"
proof
  assume "CHR '':'' \<in> set (show_signed n)"
  then have "CHR '':'' \<in> set (show_int 10 \<bar>n\<bar>)" by (auto simp: show_signed_def split: if_splits)
  from show_int_digits [OF _ this] show False by simp
qed

lemma digits_back: "0 \<le> n \<Longrightarrow> map (to_digit 10) (show_int 10 n) = map Some (digits_of 10 n)"
  unfolding show_int_def using digits_of_less [of 10 n] by (auto intro!: to_digit_char)

lemma show_int_inj:
  assumes "0 \<le> m" "0 \<le> n"
  shows "show_int 10 m = show_int 10 n \<longleftrightarrow> m = n"
proof
  assume "show_int 10 m = show_int 10 n"
  then have "map (to_digit 10) (show_int 10 m) = map (to_digit 10) (show_int 10 n)" by (rule arg_cong)
  then have "map Some (digits_of 10 m) = map Some (digits_of 10 n)" unfolding digits_back [OF assms(1)] digits_back [OF assms(2)] .
  then have "digits_of 10 m = digits_of 10 n" by (rule injD [OF inj_mapI [OF inj_Some]])
  then have "digits_value 10 (digits_of 10 m) = digits_value 10 (digits_of 10 n)" by (rule arg_cong)
  then show "m = n" by (simp add: digits_of_value del: digits_of.simps)
qed (rule arg_cong)

lemma show_int_no_minus: "0 \<le> n \<Longrightarrow> show_int 10 n \<noteq> CHR ''-'' # t"
  using show_int_digits [of n "CHR ''-''"] by force

lemma show_signed_inj: "show_signed m = show_signed n \<longleftrightarrow> m = n"
proof (cases "m < 0"; cases "n < 0")
  assume "m < 0" "n < 0"
  then show ?thesis using show_int_inj [of "- m" "- n"] by (simp add: show_signed_def)
next
  assume "m < 0" "\<not> n < 0"
  then show ?thesis using show_int_no_minus [of n "show_int 10 (- m)"] by (auto simp: show_signed_def)
next
  assume "\<not> m < 0" "n < 0"
  then show ?thesis using show_int_no_minus [of m "show_int 10 (- n)"] by (auto simp: show_signed_def)
next
  assume "\<not> m < 0" "\<not> n < 0"
  then show ?thesis using show_int_inj [of m n] by (simp add: show_signed_def)
qed

lemma network_name_no_colon: "CHR '':'' \<notin> set (network_name net)"
  by (cases net) simp_all

lemma network_name_inj: "network_name a = network_name b \<longleftrightarrow> a = b"
  by (cases a; cases b) simp_all

lemma split_at_inj: "split_at c s = split_at c t \<longleftrightarrow> s = t"
  by (metis join_split)

lemma split_cache_name: "plain_thing lib x \<Longrightarrow> split_at CHR '':'' (cache_name lib x) = name_parts lib x"
  by (cases x) (simp_all add: key_defs split_at_append show_signed_no_colon network_name_no_colon)

lemma name_parts_inj: "name_parts lib x = name_parts lib y \<longleftrightarrow> folded lib x = folded lib y"
  by (cases x; cases y) (auto simp: show_signed_inj network_name_inj split_at_inj)

text \<open>
  Two things are cached under the same name only if they are the same thing up to the case of the account or
  the transaction hash, for accounts without a colon.
\<close>

theorem cache_names_distinct:
  assumes "plain_thing lib x" "plain_thing lib y"
  shows "cache_name lib x = cache_name lib y \<longleftrightarrow> folded lib x = folded lib y"
  using split_at_inj [of "CHR '':''" "cache_name lib x" "cache_name lib y"] split_cache_name [OF assms(1)]
    split_cache_name [OF assms(2)] name_parts_inj [of lib x y] by simp

theorem cache_names_distinct_witness:
  "cache_name (plain_lib :: unit text_lib) (User_Bets Testnet ''GAB'' 20) \<noteq> cache_name (plain_lib :: unit text_lib) (User_Bets_Page Testnet ''GAB'' 1 20)"
  using cache_names_distinct [of "plain_lib :: unit text_lib" "User_Bets Testnet ''GAB'' 20" "User_Bets_Page Testnet ''GAB'' 1 20"]
  by (simp add: plain_lib_def ascii_lower_def char_of_def)

end
