(* ===== verification/Redis_Store.thy ===== *)
theory Redis_Store
  imports Prelude "HOL-Library.Char_ord" "HOL-Library.List_Lexorder"
begin

text \<open>
  The API service keeps its rate limits, queues and caches in Redis, which is not part of the
  sources: the commands it sends are the fields of the parameter \<open>'r redis\<close>, and what it relies on is
  the predicate \<open>redis_laws\<close>, the documented effect of every command on what can be read from the
  server. \<open>table_redis\<close> is a server that obeys the laws; the examples run on it.
\<close>

section \<open>What can be read from a server\<close>

text \<open>
  A sorted set is the list of its members with their scores, ascending by score and then by
  member; the scores the service uses are whole seconds or milliseconds, which a double holds exactly.
  A string value that is a decimal numeral is given as the number.
\<close>

type_synonym zset = "(string \<times> int) list"

datatype rstring = Num int | Text string

record redis_view =
  zsets :: "string \<Rightarrow> zset"
  strings :: "string \<Rightarrow> rstring option"
  ttls :: "string \<Rightarrow> nat option"

definition zdel :: "string \<Rightarrow> zset \<Rightarrow> zset" where
  "zdel m xs = filter (\<lambda>p. fst p \<noteq> m) xs"

definition zbefore :: "string \<times> int \<Rightarrow> string \<times> int \<Rightarrow> bool" where
  "zbefore p q \<longleftrightarrow> snd p < snd q \<or> snd p = snd q \<and> fst p \<le> fst q"

fun zins :: "string \<times> int \<Rightarrow> zset \<Rightarrow> zset" where
  "zins p [] = [p]"
| "zins p (q # xs) = (if zbefore p q then p # q # xs else q # zins p xs)"

definition zput :: "int \<Rightarrow> string \<Rightarrow> zset \<Rightarrow> zset" where
  "zput s m xs = zins (m, s) (zdel m xs)"

definition zset_wf :: "zset \<Rightarrow> bool" where
  "zset_wf xs \<longleftrightarrow> distinct (map fst xs) \<and> sorted_wrt zbefore xs"

section \<open>The commands\<close>

record 'r redis =
  r_view :: "'r \<Rightarrow> redis_view"
  r_zadd :: "string \<Rightarrow> int \<Rightarrow> string \<Rightarrow> 'r \<Rightarrow> 'r"
  r_zrem :: "string \<Rightarrow> string \<Rightarrow> 'r \<Rightarrow> 'r"
  r_zremrangebyscore :: "string \<Rightarrow> int \<Rightarrow> 'r \<Rightarrow> 'r"
  r_zpopmin :: "string \<Rightarrow> 'r \<Rightarrow> 'r"
  r_set :: "string \<Rightarrow> rstring \<Rightarrow> nat \<Rightarrow> 'r \<Rightarrow> 'r"
  r_incr :: "string \<Rightarrow> 'r \<Rightarrow> 'r"
  r_del :: "string \<Rightarrow> 'r \<Rightarrow> 'r"
  r_expire :: "string \<Rightarrow> nat \<Rightarrow> 'r \<Rightarrow> 'r"
  r_elapse :: "nat \<Rightarrow> 'r \<Rightarrow> 'r"

text \<open>
  The reading commands: \<^verbatim>\<open>ZRANGE key 0 -1\<close>, \<^verbatim>\<open>ZRANGEBYSCORE key -inf max\<close>, \<^verbatim>\<open>ZCARD\<close>, the reply of
  \<^verbatim>\<open>ZPOPMIN key 1\<close>, \<^verbatim>\<open>GET\<close>.
\<close>

definition zrange :: "'r redis \<Rightarrow> string \<Rightarrow> 'r \<Rightarrow> string list" where
  "zrange R k r = map fst (zsets (r_view R r) k)"

definition zrangebyscore :: "'r redis \<Rightarrow> string \<Rightarrow> int \<Rightarrow> 'r \<Rightarrow> string list" where
  "zrangebyscore R k hi r = map fst (filter (\<lambda>p. snd p \<le> hi) (zsets (r_view R r) k))"

definition zcard :: "'r redis \<Rightarrow> string \<Rightarrow> 'r \<Rightarrow> nat" where
  "zcard R k r = length (zsets (r_view R r) k)"

definition zmin :: "'r redis \<Rightarrow> string \<Rightarrow> 'r \<Rightarrow> (string \<times> int) option" where
  "zmin R k r = (case zsets (r_view R r) k of [] \<Rightarrow> None | p # _ \<Rightarrow> Some p)"

definition get_string :: "'r redis \<Rightarrow> string \<Rightarrow> 'r \<Rightarrow> rstring option" where
  "get_string R k r = strings (r_view R r) k"

section \<open>The effect of the commands\<close>

text \<open>
  Writing a sorted set keeps the time to live of its key, unless the set becomes empty, which
  removes the key; \<^verbatim>\<open>SET\<close> with an expiry sets it; \<^verbatim>\<open>EXPIRE\<close> does nothing for a missing key; \<^verbatim>\<open>INCR\<close> starts a missing counter at 0. Times are in
  milliseconds.
\<close>

definition with_zset :: "string \<Rightarrow> zset \<Rightarrow> redis_view \<Rightarrow> redis_view" where
  "with_zset k xs v = v\<lparr>zsets := (zsets v)(k := xs),
     ttls := (if xs = [] then (ttls v)(k := None) else ttls v)\<rparr>"

definition count_of :: "rstring option \<Rightarrow> int" where
  "count_of x = (case x of Some (Num i) \<Rightarrow> i | _ \<Rightarrow> 0)"

definition with_string :: "string \<Rightarrow> rstring option \<Rightarrow> redis_view \<Rightarrow> redis_view" where
  "with_string k x v = v\<lparr>strings := (strings v)(k := x)\<rparr>"

definition with_ttl :: "string \<Rightarrow> nat option \<Rightarrow> redis_view \<Rightarrow> redis_view" where
  "with_ttl k t v = v\<lparr>ttls := (ttls v)(k := t)\<rparr>"

definition present :: "redis_view \<Rightarrow> string \<Rightarrow> bool" where
  "present v k \<longleftrightarrow> zsets v k \<noteq> [] \<or> strings v k \<noteq> None"

definition expired :: "nat \<Rightarrow> redis_view \<Rightarrow> string \<Rightarrow> bool" where
  "expired d v k \<longleftrightarrow> (case ttls v k of Some t \<Rightarrow> t \<le> d | None \<Rightarrow> False)"

definition aged :: "nat \<Rightarrow> redis_view \<Rightarrow> redis_view" where
  "aged d v = \<lparr>zsets = (\<lambda>k. if expired d v k then [] else zsets v k),
     strings = (\<lambda>k. if expired d v k then None else strings v k),
     ttls = (\<lambda>k. if expired d v k then None else map_option (\<lambda>t. t - d) (ttls v k))\<rparr>"

definition redis_laws :: "'r redis \<Rightarrow> bool" where
  "redis_laws R \<longleftrightarrow>
     (\<forall>r k. zset_wf (zsets (r_view R r) k)) \<and>
     (\<forall>k s m r. r_view R (r_zadd R k s m r) =
        with_zset k (zput s m (zsets (r_view R r) k)) (r_view R r)) \<and>
     (\<forall>k m r. r_view R (r_zrem R k m r) =
        with_zset k (zdel m (zsets (r_view R r) k)) (r_view R r)) \<and>
     (\<forall>k hi r. r_view R (r_zremrangebyscore R k hi r) =
        with_zset k (filter (\<lambda>p. hi < snd p) (zsets (r_view R r) k)) (r_view R r)) \<and>
     (\<forall>k r. r_view R (r_zpopmin R k r) = with_zset k (tl (zsets (r_view R r) k)) (r_view R r)) \<and>
     (\<forall>k x t r. r_view R (r_set R k x t r) =
        with_ttl k (Some (1000 * t)) (with_string k (Some x) (with_zset k [] (r_view R r)))) \<and>
     (\<forall>k r. r_view R (r_incr R k r) =
        with_string k (Some (Num (count_of (strings (r_view R r) k) + 1))) (r_view R r)) \<and>
     (\<forall>k r. r_view R (r_del R k r) =
        with_ttl k None (with_string k None (with_zset k [] (r_view R r)))) \<and>
     (\<forall>k t r. r_view R (r_expire R k t r) =
        (if present (r_view R r) k then with_ttl k (Some (1000 * t)) (r_view R r) else r_view R r)) \<and>
     (\<forall>d r. r_view R (r_elapse R d r) = aged d (r_view R r))"

lemma redis_lawsD:
  assumes "redis_laws R"
  shows "zset_wf (zsets (r_view R r) k)"
    and "r_view R (r_zadd R k s m r) = with_zset k (zput s m (zsets (r_view R r) k)) (r_view R r)"
    and "r_view R (r_zrem R k m r) = with_zset k (zdel m (zsets (r_view R r) k)) (r_view R r)"
    and "r_view R (r_zremrangebyscore R k hi r) =
      with_zset k (filter (\<lambda>p. hi < snd p) (zsets (r_view R r) k)) (r_view R r)"
    and "r_view R (r_zpopmin R k r) = with_zset k (tl (zsets (r_view R r) k)) (r_view R r)"
    and "r_view R (r_set R k x t r) =
      with_ttl k (Some (1000 * t)) (with_string k (Some x) (with_zset k [] (r_view R r)))"
    and "r_view R (r_incr R k r) =
      with_string k (Some (Num (count_of (strings (r_view R r) k) + 1))) (r_view R r)"
    and "r_view R (r_del R k r) = with_ttl k None (with_string k None (with_zset k [] (r_view R r)))"
    and "r_view R (r_expire R k t r) =
      (if present (r_view R r) k then with_ttl k (Some (1000 * t)) (r_view R r) else r_view R r)"
    and "r_view R (r_elapse R d r) = aged d (r_view R r)"
  using assms unfolding redis_laws_def by simp_all

lemma with_sel [simp]:
  "zsets (with_zset k xs v) = (zsets v)(k := xs)"
  "strings (with_zset k xs v) = strings v"
  "zsets (with_string k x v) = zsets v"
  "strings (with_string k x v) = (strings v)(k := x)"
  "ttls (with_string k x v) = ttls v"
  "zsets (with_ttl k t v) = zsets v"
  "strings (with_ttl k t v) = strings v"
  "ttls (with_ttl k t v) = (ttls v)(k := t)"
  by (simp_all add: with_zset_def with_string_def with_ttl_def)

subsection \<open>Sorted sets\<close>

lemma set_zdel [simp]: "set (zdel m xs) = {p \<in> set xs. fst p \<noteq> m}"
  by (auto simp: zdel_def)

lemma set_zins [simp]: "set (zins p xs) = insert p (set xs)"
  by (induction p xs rule: zins.induct) auto

lemma set_zput: "set (zput s m xs) = insert (m, s) {p \<in> set xs. fst p \<noteq> m}"
  by (simp add: zput_def)

lemma zput_not_Nil [simp]: "zput s m xs \<noteq> []"
  using set_zput [of s m xs] by auto

lemma zbefore_trans: "zbefore p q \<Longrightarrow> zbefore q r \<Longrightarrow> zbefore p r"
  by (auto simp: zbefore_def)

lemma zbefore_total: "\<not> zbefore p q \<Longrightarrow> zbefore q p"
  by (auto simp: zbefore_def)

lemma zset_wf_zdel: "zset_wf xs \<Longrightarrow> zset_wf (zdel m xs)"
  by (auto simp: zset_wf_def zdel_def distinct_map_filter sorted_wrt_filter)

lemma zset_wf_filter: "zset_wf xs \<Longrightarrow> zset_wf (filter P xs)"
  by (auto simp: zset_wf_def distinct_map_filter sorted_wrt_filter)

lemma zset_wf_tl: "zset_wf xs \<Longrightarrow> zset_wf (tl xs)"
  by (cases xs) (auto simp: zset_wf_def)

lemma sorted_zins: "sorted_wrt zbefore xs \<Longrightarrow> sorted_wrt zbefore (zins p xs)"
  by (induction p xs rule: zins.induct) (auto intro: zbefore_trans zbefore_total)

lemma distinct_zins:
  "distinct (map fst xs) \<Longrightarrow> fst p \<notin> fst ` set xs \<Longrightarrow> distinct (map fst (zins p xs))"
  by (induction p xs rule: zins.induct) auto

lemma zset_wf_zput: "zset_wf xs \<Longrightarrow> zset_wf (zput s m xs)"
  unfolding zput_def
  by (drule zset_wf_zdel [of _ m]) (auto simp: zset_wf_def intro!: sorted_zins distinct_zins)

lemma zset_wf_Nil [simp]: "zset_wf []"
  by (simp add: zset_wf_def)

lemma zset_wf_unique: "zset_wf xs \<Longrightarrow> (m, s) \<in> set xs \<Longrightarrow> (m, t) \<in> set xs \<Longrightarrow> s = t"
  by (auto simp: zset_wf_def dest: eq_key_imp_eq_value)

lemma length_zset: "zset_wf xs \<Longrightarrow> length xs = card (set xs)"
  by (auto simp: zset_wf_def distinct_map distinct_card)

section \<open>A server that obeys the laws\<close>

typedef table = "{v :: redis_view. \<forall>k. zset_wf (zsets v k)}"
  by (rule exI [of _ "\<lparr>zsets = (\<lambda>_. []), strings = (\<lambda>_. None), ttls = (\<lambda>_. None)\<rparr>"]) simp

setup_lifting type_definition_table

lift_definition empty_table :: table is
  "\<lparr>zsets = (\<lambda>_. []), strings = (\<lambda>_. None), ttls = (\<lambda>_. None)\<rparr>" by simp

lift_definition t_view :: "table \<Rightarrow> redis_view" is "\<lambda>v. v" .

lift_definition t_zadd :: "string \<Rightarrow> int \<Rightarrow> string \<Rightarrow> table \<Rightarrow> table" is
  "\<lambda>k s m v. with_zset k (zput s m (zsets v k)) v" by (simp add: zset_wf_zput)

lift_definition t_zrem :: "string \<Rightarrow> string \<Rightarrow> table \<Rightarrow> table" is
  "\<lambda>k m v. with_zset k (zdel m (zsets v k)) v" by (simp add: zset_wf_zdel)

lift_definition t_zremrangebyscore :: "string \<Rightarrow> int \<Rightarrow> table \<Rightarrow> table" is
  "\<lambda>k hi v. with_zset k (filter (\<lambda>p. hi < snd p) (zsets v k)) v" by (simp add: zset_wf_filter)

lift_definition t_zpopmin :: "string \<Rightarrow> table \<Rightarrow> table" is
  "\<lambda>k v. with_zset k (tl (zsets v k)) v" by (simp add: zset_wf_tl)

lift_definition t_set :: "string \<Rightarrow> rstring \<Rightarrow> nat \<Rightarrow> table \<Rightarrow> table" is
  "\<lambda>k x t v. with_ttl k (Some (1000 * t)) (with_string k (Some x) (with_zset k [] v))" by simp

lift_definition t_incr :: "string \<Rightarrow> table \<Rightarrow> table" is
  "\<lambda>k v. with_string k (Some (Num (count_of (strings v k) + 1))) v" by simp

lift_definition t_del :: "string \<Rightarrow> table \<Rightarrow> table" is
  "\<lambda>k v. with_ttl k None (with_string k None (with_zset k [] v))" by simp

lift_definition t_expire :: "string \<Rightarrow> nat \<Rightarrow> table \<Rightarrow> table" is
  "\<lambda>k t v. if present v k then with_ttl k (Some (1000 * t)) v else v" by simp

lift_definition t_elapse :: "nat \<Rightarrow> table \<Rightarrow> table" is "aged" by (simp add: aged_def)

definition table_redis :: "table redis" where
  "table_redis = \<lparr>r_view = t_view, r_zadd = t_zadd, r_zrem = t_zrem,
     r_zremrangebyscore = t_zremrangebyscore, r_zpopmin = t_zpopmin, r_set = t_set, r_incr = t_incr,
     r_del = t_del, r_expire = t_expire, r_elapse = t_elapse\<rparr>"

lemma table_redis_laws: "redis_laws table_redis"
  unfolding redis_laws_def table_redis_def by simp (transfer, simp)+

lemma view_empty_table [simp]:
  "r_view table_redis empty_table = \<lparr>zsets = (\<lambda>_. []), strings = (\<lambda>_. None), ttls = (\<lambda>_. None)\<rparr>"
  by (simp add: table_redis_def) (transfer, simp)

end
