(* ===== verification/Rate_Limit.thy ===== *)
theory Rate_Limit
  imports Redis_Store Client_Ip
begin

text \<open>
  \<^verbatim>\<open>rate_limit.rs\<close> of the API service and the limiter of \<^verbatim>\<open>newsletter.rs\<close> with the counter script of
  \<^verbatim>\<open>cache/mod.rs\<close>. Every call reads the clock and draws a UUID, which are arguments here, and talks to
  Redis, which may be unreachable, may lose a request, or may execute it without the answer arriving.
\<close>

section \<open>Calls to Redis\<close>

datatype fate = Done | Lost | Unacked

text \<open>A call that changes the server and returns a value: what the caller sees and what remains.\<close>

definition remote :: "fate \<Rightarrow> ('r \<Rightarrow> 'a \<times> 'r) \<Rightarrow> 'r \<Rightarrow> 'a option \<times> 'r" where
  "remote f call r = (case f of
     Done \<Rightarrow> (let (x, t) = call r in (Some x, t)) | Lost \<Rightarrow> (None, r) | Unacked \<Rightarrow> (None, snd (call r)))"

section \<open>The sliding window\<close>

record RateLimitConfig =
  max_requests :: u64
  window_seconds :: u64
  key_prefix :: string

definition default_config :: RateLimitConfig where
  "default_config = \<lparr>max_requests = 100, window_seconds = 60, key_prefix = ''ratelimit''\<rparr>"

definition SLIDING_WINDOW_SCRIPT ::
  "'r redis \<Rightarrow> string \<Rightarrow> u64 \<Rightarrow> u64 \<Rightarrow> u64 \<Rightarrow> string \<Rightarrow> 'r \<Rightarrow> nat \<times> 'r" where
  "SLIDING_WINDOW_SCRIPT R key now window_start ttl member r =
     (let r1 = r_zadd R key (uint now) member r;
          r2 = r_zremrangebyscore R key (uint window_start) r1;
          count = zcard R key r2;
          r3 = r_expire R key (unat ttl) r2
      in (count, r3))"

definition member_text :: "u64 \<Rightarrow> u128 \<Rightarrow> string" where
  "member_text now_ms uuid = show_int 10 (uint now_ms) @ ''-'' @ show_int 10 (uint uuid)"

definition redis_key_text :: "RateLimitConfig \<Rightarrow> string \<Rightarrow> string" where
  "redis_key_text config client_key =
     key_prefix config @ '':'' @ client_key @ '':'' @ show_int 10 (uint (window_seconds config))"

definition check_rate_limit ::
  "'r redis \<Rightarrow> bool \<Rightarrow> fate \<Rightarrow> RateLimitConfig \<Rightarrow> string \<Rightarrow> u64 \<Rightarrow> u128 \<Rightarrow> 'r \<Rightarrow> (u64 + u64) \<times> 'r" where
  "check_rate_limit R connected f config client_key now_ms uuid r =
     (if \<not> connected then (Inl (window_seconds config), r)
      else
        let window_start_ms = saturating_sub_u64 now_ms (window_seconds config * 1000);
            member = member_text now_ms uuid;
            redis_key = redis_key_text config client_key;
            (reply, r') = remote f (SLIDING_WINDOW_SCRIPT R redis_key now_ms window_start_ms
              (window_seconds config + 1) member) r
        in case reply of
             None \<Rightarrow> (Inl (window_seconds config), r')
           | Some count \<Rightarrow> (if unat (max_requests config) < count then Inl (window_seconds config)
               else Inr (of_nat count), r'))"

definition client_key_from_headers :: "(string \<Rightarrow> string option) \<Rightarrow> string" where
  "client_key_from_headers headers = (case headers ''x-forwarded-for'' of
     Some s \<Rightarrow> trim (hd (split_at CHR '','' s)) | None \<Rightarrow> ''unknown'')"

section \<open>The middlewares\<close>

text \<open>A middleware hands the request on, or answers 429 with the body and the \<^verbatim>\<open>Retry-After\<close> value.\<close>

record RateLimitError =
  e_error :: string
  e_message :: string
  e_retry_after :: u64

datatype verdict = Next | Too_Many_Requests RateLimitError string

definition show_u64 :: "u64 \<Rightarrow> string" where
  "show_u64 x = show_int 10 (uint x)"

definition rate_limit_response :: "u64 \<Rightarrow> RateLimitConfig \<Rightarrow> verdict" where
  "rate_limit_response retry_after config = Too_Many_Requests
     \<lparr>e_error = ''rate_limit_exceeded'',
      e_message = ''Rate limit of '' @ show_u64 (max_requests config) @ '' requests per '' @
        show_u64 (window_seconds config) @ ''s exceeded. Retry after '' @ show_u64 retry_after @ '' seconds.'',
      e_retry_after = retry_after\<rparr>
     (show_u64 retry_after)"

definition rate_limit_middleware ::
  "'r redis \<Rightarrow> bool \<Rightarrow> fate \<Rightarrow> RateLimitConfig \<Rightarrow> (string \<Rightarrow> string option) \<Rightarrow> u64 \<Rightarrow> u128 \<Rightarrow> 'r \<Rightarrow> verdict \<times> 'r" where
  "rate_limit_middleware R connected f config headers now_ms uuid r =
     (case check_rate_limit R connected f config (client_key_from_headers headers) now_ms uuid r of
        (Inr _, r') \<Rightarrow> (Next, r')
      | (Inl retry_after, r') \<Rightarrow> (rate_limit_response retry_after config, r'))"

definition global_config :: RateLimitConfig where
  "global_config = \<lparr>max_requests = 100, window_seconds = 60, key_prefix = ''global''\<rparr>"

definition global_rate_limit_middleware ::
  "'r redis \<Rightarrow> ('net \<Rightarrow> IpAddr \<Rightarrow> bool) \<Rightarrow> bool \<Rightarrow> fate \<Rightarrow> bool \<Rightarrow> 'net list \<Rightarrow> (string \<Rightarrow> string option) \<Rightarrow>
   IpAddr option \<Rightarrow> u64 \<Rightarrow> u128 \<Rightarrow> 'r \<Rightarrow> verdict \<times> 'r" where
  "global_rate_limit_middleware R contains connected f trust_proxy nets headers connect_info now_ms uuid r =
     (let ip = extract_client_ip_cidrs contains headers connect_info trust_proxy nets in
      case check_rate_limit R connected f global_config ip now_ms uuid r of
        (Inr _, r') \<Rightarrow> (Next, r')
      | (Inl retry_after, r') \<Rightarrow> (rate_limit_response retry_after global_config, r'))"

text \<open>\<^verbatim>\<open>cache/mod.rs\<close>: the counter with a time to live, and the limiter of \<^verbatim>\<open>newsletter.rs\<close> built on it.\<close>

definition incr_with_ttl_script :: "'r redis \<Rightarrow> string \<Rightarrow> nat \<Rightarrow> 'r \<Rightarrow> int \<times> 'r" where
  "incr_with_ttl_script R key ttl r =
     (let r1 = r_incr R key r;
          current = count_of (get_string R key r1);
          r2 = (if current = 1 then r_expire R key ttl r1 else r1)
      in (current, r2))"

definition newsletter_key :: "string \<Rightarrow> string" where
  "newsletter_key key = ''newsletter:ratelimit:v1:'' @ key"

definition allow :: "'r redis \<Rightarrow> fate \<Rightarrow> string \<Rightarrow> nat \<Rightarrow> nat \<Rightarrow> 'r \<Rightarrow> bool \<times> 'r" where
  "allow R f key max_reqs window r =
     (case remote f (incr_with_ttl_script R (newsletter_key key) window) r of
        (Some count, r') \<Rightarrow> (nat count \<le> max_reqs, r')
      | (None, r') \<Rightarrow> (False, r'))"

definition newsletter_rate_limit_middleware ::
  "'r redis \<Rightarrow> ('net \<Rightarrow> IpAddr \<Rightarrow> bool) \<Rightarrow> fate \<Rightarrow> bool \<Rightarrow> 'net list \<Rightarrow> nat \<Rightarrow> u64 \<Rightarrow> (string \<Rightarrow> string option) \<Rightarrow>
   IpAddr option \<Rightarrow> 'r \<Rightarrow> verdict \<times> 'r" where
  "newsletter_rate_limit_middleware R contains f trust_proxy nets max_reqs window headers connect_info r =
     (let ip = extract_client_ip_cidrs contains headers connect_info trust_proxy nets;
          (allowed, r') = allow R f (''subscribe:ip:'' @ ip) max_reqs (unat window) r
      in if allowed then (Next, r')
         else (Too_Many_Requests \<lparr>e_error = ''rate_limit_exceeded'',
             e_message = ''Too many newsletter requests. Please try again later.'', e_retry_after = window\<rparr>
             (show_u64 window), r'))"

section \<open>Sequences of requests of one client\<close>

text \<open>
  A request: the time, the UUID drawn, whether a connection was obtained, and the fate of the script
  call. Time passes on the server between requests.
\<close>

record request =
  q_time :: u64
  q_uuid :: u128
  q_connected :: bool
  q_fate :: fate

fun serve :: "'r redis \<Rightarrow> RateLimitConfig \<Rightarrow> string \<Rightarrow> u64 \<Rightarrow> 'r \<Rightarrow> request list \<Rightarrow> bool list" where
  "serve R config client now r [] = []"
| "serve R config client now r (q # qs) =
     (let (res, r') = check_rate_limit R (q_connected q) (q_fate q) config client (q_time q) (q_uuid q)
            (r_elapse R (unat (q_time q) - unat now) r)
      in (\<not> isl res) # serve R config client (q_time q) r' qs)"

text \<open>
  The specification: a request is counted if its script ran, and accepted if the answer arrived and
  at most \<^verbatim>\<open>max_requests\<close> requests, itself included, were counted in the window that ends with it.
\<close>

definition ran :: "request \<Rightarrow> bool" where
  "ran q \<longleftrightarrow> q_connected q \<and> q_fate q \<noteq> Lost"

definition in_window :: "nat \<Rightarrow> request \<Rightarrow> request \<Rightarrow> bool" where
  "in_window W q p \<longleftrightarrow> unat (q_time q) - W < unat (q_time p)"

definition admitted :: "nat \<Rightarrow> nat \<Rightarrow> request list \<Rightarrow> request \<Rightarrow> bool" where
  "admitted W mx counted q \<longleftrightarrow> q_connected q \<and> q_fate q = Done \<and>
     length (filter (in_window W q) (q # counted)) \<le> mx"

fun admissions :: "nat \<Rightarrow> nat \<Rightarrow> request list \<Rightarrow> request list \<Rightarrow> bool list" where
  "admissions W mx counted [] = []"
| "admissions W mx counted (q # qs) =
     admitted W mx counted q # admissions W mx (if ran q then q # counted else counted) qs"

section \<open>The limiter implements the specification\<close>

lemma show_int_inject: "show_int 10 a = show_int 10 b \<Longrightarrow> 0 \<le> a \<Longrightarrow> 0 \<le> b \<Longrightarrow> a = b"
proof -
  assume e: "show_int 10 a = show_int 10 b" and a: "0 \<le> a" and b: "0 \<le> b"
  have "digits_value 10 (map (\<lambda>c. the (to_digit 10 c)) (show_int 10 n)) = n" if "0 \<le> n" for n
    using that by (intro value_show_int) simp_all
  from this [OF a] this [OF b] e show "a = b" by metis
qed

lemma int_less_uint: "int k < uint (x :: u64) \<longleftrightarrow> k < unat x"
  by (metis of_nat_less_iff uint_nat)

lemma no_dash: "0 \<le> n \<Longrightarrow> CHR ''-'' \<notin> set (show_int 10 n)"
proof
  assume "0 \<le> n" "CHR ''-'' \<in> set (show_int 10 n)"
  then have "address_char CHR ''-''" using address_char_show_int [of 10 n] by (simp add: list_all_iff)
  then show False by (simp add: address_char_def to_digit_def)
qed

lemma member_text_inject: "member_text t u = member_text t' u' \<longleftrightarrow> t = t' \<and> u = u'"
proof
  assume "member_text t u = member_text t' u'"
  then have "split_once CHR ''-'' (member_text t u) = split_once CHR ''-'' (member_text t' u')" by simp
  moreover have "split_once CHR ''-'' (member_text t u) = Some (show_int 10 (uint t), show_int 10 (uint u))" for t u
    by (simp add: split_once_Some member_text_def no_dash)
  ultimately have "show_int 10 (uint t) = show_int 10 (uint t')" "show_int 10 (uint u) = show_int 10 (uint u')" by simp_all
  then have "uint t = uint t'" "uint u = uint u'" by (auto intro: show_int_inject)
  then show "t = t' \<and> u = u'" by (simp add: word_uint_eq_iff)
qed simp

text \<open>The entry a counted request leaves in the sorted set.\<close>

definition mark :: "request \<Rightarrow> string \<times> int" where
  "mark q = (member_text (q_time q) (q_uuid q), uint (q_time q))"

text \<open>
  While the clock shows \<open>now\<close>, the part of the sorted set that any later window can see consists of
  the marks of the counted requests, and the key lives until no counted request is visible.
\<close>

definition tracks :: "nat \<Rightarrow> nat \<Rightarrow> request list \<Rightarrow> zset \<Rightarrow> bool" where
  "tracks W now counted z \<longleftrightarrow> (\<forall>ws \<ge> now - W.
     {p \<in> set z. int ws < snd p} = mark ` {q \<in> set counted. ws < unat (q_time q)})"

definition window_state :: "'r redis \<Rightarrow> string \<Rightarrow> nat \<Rightarrow> nat \<Rightarrow> request list \<Rightarrow> 'r \<Rightarrow> bool" where
  "window_state R key W now counted r \<longleftrightarrow> tracks W now counted (zsets (r_view R r) key) \<and>
     (\<forall>d. ttls (r_view R r) key = Some d \<longrightarrow> (\<forall>q \<in> set counted. unat (q_time q) + W + 1000 \<le> now + d)) \<and>
     (\<forall>q \<in> set counted. unat (q_time q) \<le> now) \<and> distinct (map q_uuid counted)"

lemma window_state_elapse:
  assumes R: "redis_laws R" and st: "window_state R key W now counted r" and le: "now \<le> t"
  shows "window_state R key W t counted (r_elapse R (t - now) r)"
proof -
  let ?v = "r_view R r"
  have view: "r_view R (r_elapse R (t - now) r) = aged (t - now) ?v" by (rule redis_lawsD(10) [OF R])
  have tr: "tracks W now counted (zsets ?v key)"
    and ttl: "\<And>d q. ttls ?v key = Some d \<Longrightarrow> q \<in> set counted \<Longrightarrow> unat (q_time q) + W + 1000 \<le> now + d"
    using st by (auto simp: window_state_def)
  have "tracks W t counted (zsets (aged (t - now) ?v) key)"
  proof (cases "expired (t - now) ?v key")
    case True
    then obtain d where d: "ttls ?v key = Some d" "d \<le> t - now" by (auto simp: expired_def split: option.splits)
    have "\<not> ws < unat (q_time q)" if "q \<in> set counted" "t - W \<le> ws" for q ws
      using ttl [OF d(1) that(1)] d(2) le that(2) by linarith
    with True show ?thesis by (auto simp: tracks_def aged_def)
  next
    case False
    with tr le show ?thesis by (auto simp: tracks_def aged_def)
  qed
  moreover have "unat (q_time q) + W + 1000 \<le> t + d"
    if "ttls (aged (t - now) ?v) key = Some d" "q \<in> set counted" for d q
    using that ttl le by (fastforce simp: aged_def expired_def split: if_splits option.splits)
  ultimately show ?thesis using st le view by (auto simp: window_state_def)
qed

lemma tracks_add:
  assumes "tracks W (unat (q_time q)) counted z" and "q_uuid q \<notin> q_uuid ` set counted"
  shows "tracks W (unat (q_time q)) (q # counted)
    (filter (\<lambda>p. int (unat (q_time q) - W) < snd p) (zput (uint (q_time q)) (fst (mark q)) z))"
  unfolding tracks_def
proof (intro allI impI)
  fix ws assume ws: "unat (q_time q) - W \<le> ws"
  have old: "{p \<in> set z. int ws < snd p} = mark ` {p \<in> set counted. ws < unat (q_time p)}"
    using assms(1) ws by (simp add: tracks_def)
  have new: "fst p \<noteq> fst (mark q)" if "p \<in> mark ` set counted" for p
    using that assms(2) by (auto simp: mark_def member_text_inject) (metis imageI)
  have "{p \<in> set z. fst p \<noteq> fst (mark q) \<and> int ws < snd p} = mark ` {p \<in> set counted. ws < unat (q_time p)}"
    using old new by blast
  moreover have "{p \<in> set (filter (\<lambda>p. int (unat (q_time q) - W) < snd p) (zput (uint (q_time q)) (fst (mark q)) z)).
      int ws < snd p} = {p \<in> set (zput (uint (q_time q)) (fst (mark q)) z). int ws < snd p}"
    using ws by force
  moreover have "\<dots> = (if ws < unat (q_time q) then {mark q} else {}) \<union>
      {p \<in> set z. fst p \<noteq> fst (mark q) \<and> int ws < snd p}"
    by (auto simp: set_zput mark_def int_less_uint)
  moreover have "mark ` {p \<in> set (q # counted). ws < unat (q_time p)} =
      (if ws < unat (q_time q) then {mark q} else {}) \<union> mark ` {p \<in> set counted. ws < unat (q_time p)}"
    by auto
  ultimately show "{p \<in> set (filter (\<lambda>p. int (unat (q_time q) - W) < snd p) (zput (uint (q_time q)) (fst (mark q)) z)).
      int ws < snd p} = mark ` {p \<in> set (q # counted). ws < unat (q_time p)}"
    by (simp only:)
qed

lemma mark_inj: "inj_on mark (set qs)" if "distinct (map q_uuid qs)"
proof (rule inj_onI)
  fix p q assume "p \<in> set qs" "q \<in> set qs" "mark p = mark q"
  then show "p = q" using that unfolding distinct_map by (auto simp: mark_def member_text_inject dest: inj_onD)
qed

lemma length_tracks:
  assumes "tracks W now counted z" and "zset_wf z" and "\<forall>p \<in> set z. int (now - W) < snd p"
    and "distinct (map q_uuid counted)"
  shows "length z = length (filter (\<lambda>q. now - W < unat (q_time q)) counted)"
proof -
  have "set z = mark ` {q \<in> set counted. now - W < unat (q_time q)}"
    using assms(3) assms(1) [unfolded tracks_def, rule_format, of "now - W"] by auto
  then have "card (set z) = card {q \<in> set counted. now - W < unat (q_time q)}"
    using mark_inj [OF assms(4)] by (simp add: card_image inj_on_subset)
  also have "\<dots> = length (filter (\<lambda>q. now - W < unat (q_time q)) counted)"
    using assms(4) by (subst set_filter [symmetric], intro distinct_card distinct_filter) (simp add: distinct_map)
  finally show ?thesis using length_zset [OF assms(2)] by simp
qed

lemma window_state_script:
  assumes R: "redis_laws R" and st: "window_state R key W (unat (q_time q)) counted r"
    and W: "W = 1000 * w" and ttl: "unat ttl = w + 1" and ws: "unat window_start = unat (q_time q) - W"
    and fresh: "q_uuid q \<notin> q_uuid ` set counted"
    and run: "SLIDING_WINDOW_SCRIPT R key (q_time q) window_start ttl (fst (mark q)) r = (count, r')"
  shows "window_state R key W (unat (q_time q)) (q # counted) r'"
    and "count = length (filter (in_window W q) (q # counted))"
proof -
  let ?t = "unat (q_time q)"
  define r2 where "r2 = r_zremrangebyscore R key (uint window_start) (r_zadd R key (uint (q_time q)) (fst (mark q)) r)"
  have "uint window_start = int (?t - W)" by (metis uint_nat ws)
  then have z: "zsets (r_view R r2) key =
      filter (\<lambda>p. int (?t - W) < snd p) (zput (uint (q_time q)) (fst (mark q)) (zsets (r_view R r) key))"
    by (simp add: r2_def redis_lawsD [OF R])
  have tr: "tracks W ?t (q # counted) (zsets (r_view R r2) key)"
    unfolding z using st fresh by (intro tracks_add) (auto simp: window_state_def)
  have un: "distinct (map q_uuid (q # counted))" using st fresh by (auto simp: window_state_def)
  have "count = length (zsets (r_view R r2) key)"
    using run by (simp add: SLIDING_WINDOW_SCRIPT_def r2_def zcard_def Let_def)
  moreover have "\<dots> = length (filter (\<lambda>p. ?t - W < unat (q_time p)) (q # counted))"
    by (rule length_tracks [OF tr redis_lawsD(1) [OF R] _ un]) (simp add: z)
  ultimately show "count = length (filter (in_window W q) (q # counted))"
    by (simp add: in_window_def [abs_def])
  have r': "r' = r_expire R key (w + 1) r2"
    using run by (simp add: SLIDING_WINDOW_SCRIPT_def r2_def Let_def ttl)
  have none: "ttls (r_view R r2) key = None" if "\<not> present (r_view R r2) key"
    using that by (simp add: present_def r2_def redis_lawsD [OF R] with_zset_def)
  have times: "\<forall>p \<in> set (q # counted). unat (q_time p) \<le> ?t" using st by (auto simp: window_state_def)
  show "window_state R key W ?t (q # counted) r'"
    using tr un none times W unfolding window_state_def r' redis_lawsD(9) [OF R] by auto
qed

lemma remote_eq:
  "remote f call r = (if f = Done then Some (fst (call r)) else None, if f = Lost then r else snd (call r))"
  by (cases f) (simp_all add: remote_def Let_def split: prod.split)

lemma check_rate_limit_step:
  assumes R: "redis_laws R" and w: "unat (window_seconds config) * 1000 < 2 ^ 64"
    and st: "window_state R (redis_key_text config client) (1000 * unat (window_seconds config)) (unat (q_time q)) counted r"
    and fresh: "q_uuid q \<notin> q_uuid ` set counted"
    and run: "check_rate_limit R (q_connected q) (q_fate q) config client (q_time q) (q_uuid q) r = (res, r')"
  shows "\<not> isl res \<longleftrightarrow> admitted (1000 * unat (window_seconds config)) (unat (max_requests config)) counted q"
    and "window_state R (redis_key_text config client) (1000 * unat (window_seconds config)) (unat (q_time q))
      (if ran q then q # counted else counted) r'"
proof -
  let ?w = "unat (window_seconds config)" and ?key = "redis_key_text config client"
  have mul: "unat (window_seconds config * 1000) = 1000 * ?w" using w unat_mult_lem [of "window_seconds config" 1000] by (simp add: mult.commute)
  have ttl: "unat (window_seconds config + 1) = ?w + 1" using w unat_add_lem [of "window_seconds config" 1] by simp
  obtain count s where script: "SLIDING_WINDOW_SCRIPT R ?key (q_time q)
      (saturating_sub_u64 (q_time q) (window_seconds config * 1000)) (window_seconds config + 1)
      (fst (mark q)) r = (count, s)" by (metis surj_pair)
  note step = window_state_script [OF R st refl ttl _ fresh script]
  have step1: "window_state R ?key (1000 * ?w) (unat (q_time q)) (q # counted) s"
    and step2: "count = length (filter (in_window (1000 * ?w) q) (q # counted))"
    by (rule step; simp add: mul)+
  show "\<not> isl res \<longleftrightarrow> admitted (1000 * ?w) (unat (max_requests config)) counted q"
    using run script step2
    by (auto simp: check_rate_limit_def remote_eq admitted_def mark_def Let_def split: if_splits)
  show "window_state R ?key (1000 * ?w) (unat (q_time q)) (if ran q then q # counted else counted) r'"
    using run script step1 st
    by (auto simp: check_rate_limit_def remote_eq ran_def mark_def Let_def split: if_splits)
qed

text \<open>
  What a run needs: times do not run backwards, and every request draws a UUID of its own.
\<close>

definition well_timed :: "u64 \<Rightarrow> request list \<Rightarrow> bool" where
  "well_timed now qs \<longleftrightarrow> sorted (unat now # map (\<lambda>q. unat (q_time q)) qs) \<and> distinct (map q_uuid qs)"

lemma serve_admissions:
  assumes R: "redis_laws R" and w: "unat (window_seconds config) * 1000 < 2 ^ 64"
  shows "window_state R (redis_key_text config client) (1000 * unat (window_seconds config)) (unat now) counted r \<Longrightarrow>
    well_timed now qs \<Longrightarrow> q_uuid ` set counted \<inter> q_uuid ` set qs = {} \<Longrightarrow>
    serve R config client now r qs =
      admissions (1000 * unat (window_seconds config)) (unat (max_requests config)) counted qs"
proof (induction qs arbitrary: now r counted)
  case (Cons q qs)
  let ?r = "r_elapse R (unat (q_time q) - unat now) r"
  obtain res r' where run: "check_rate_limit R (q_connected q) (q_fate q) config client (q_time q) (q_uuid q) ?r = (res, r')"
    by (metis surj_pair)
  have le: "unat now \<le> unat (q_time q)" and wt: "well_timed (q_time q) qs"
    using Cons.prems(2) by (auto simp: well_timed_def)
  have fresh: "q_uuid q \<notin> q_uuid ` set counted" using Cons.prems(3) by auto
  note step = check_rate_limit_step [OF R w window_state_elapse [OF R Cons.prems(1) le] fresh run]
  have "q_uuid ` set (if ran q then q # counted else counted) \<inter> q_uuid ` set qs = {}"
    using Cons.prems(2,3) by (auto simp: well_timed_def)
  from Cons.IH [OF step(2) wt this] show ?case using run step(1) by (simp add: Let_def)
qed simp

lemma window_state_empty: "zsets (r_view R r) key = [] \<Longrightarrow> window_state R key W now [] r"
  by (simp add: window_state_def tracks_def)

text \<open>
  C7. The limiter implements its specification exactly: from an empty key, whatever requests
  come in, from any number of service instances, with connections refused and scripts lost or unacknowledged at any
  point and keys expiring in between, a request is accepted if and only if its script was executed and acknowledged and no
  more than the configured number of requests was counted in the window that ends with it. Rejected
  requests count as well.
\<close>

theorem sliding_window_exact:
  assumes "redis_laws R" and "unat (window_seconds config) * 1000 < 2 ^ 64"
    and "zsets (r_view R r) (redis_key_text config client) = []" and "well_timed now qs"
  shows "serve R config client now r qs =
    admissions (1000 * unat (window_seconds config)) (unat (max_requests config)) [] qs"
  using serve_admissions [OF assms(1,2) window_state_empty [OF assms(3)] assms(4)] by simp

definition three_requests :: "request list" where
  "three_requests = [\<lparr>q_time = 1000, q_uuid = 1, q_connected = True, q_fate = Done\<rparr>,
     \<lparr>q_time = 1500, q_uuid = 2, q_connected = True, q_fate = Unacked\<rparr>,
     \<lparr>q_time = 3100, q_uuid = 3, q_connected = True, q_fate = Done\<rparr>]"

theorem sliding_window_exact_witness:
  "serve table_redis \<lparr>max_requests = 1, window_seconds = 2, key_prefix = ''t''\<rparr> ''c'' 0 empty_table three_requests =
     [True, False, False]"
proof -
  have "well_timed 0 three_requests" by (simp add: well_timed_def three_requests_def)
  from sliding_window_exact [OF table_redis_laws _ _ this,
      of "\<lparr>max_requests = 1, window_seconds = 2, key_prefix = ''t''\<rparr>" empty_table "''c''"]
  show ?thesis by (simp add: three_requests_def admitted_def in_window_def ran_def)
qed

text \<open>The specification never lets more than \<open>mx\<close> requests through in a window.\<close>

definition within :: "nat \<Rightarrow> nat \<Rightarrow> request \<Rightarrow> bool" where
  "within W T q \<longleftrightarrow> T - W < unat (q_time q) \<and> unat (q_time q) \<le> T"

lemma admissions_bound:
  "sorted (map (\<lambda>q. unat (q_time q)) qs) \<Longrightarrow> (\<And>p q. p \<in> set counted \<Longrightarrow> q \<in> set qs \<Longrightarrow> unat (q_time p) \<le> unat (q_time q)) \<Longrightarrow>
   length (filter (\<lambda>(q, ok). ok \<and> within W T q) (zip qs (admissions W mx counted qs))) \<le>
     mx - length (filter (within W T) counted)"
proof (induction qs arbitrary: counted)
  case (Cons q qs)
  let ?counted = "if ran q then q # counted else counted"
  have IH: "length (filter (\<lambda>(q, ok). ok \<and> within W T q) (zip qs (admissions W mx ?counted qs))) \<le>
      mx - length (filter (within W T) ?counted)"
    using Cons.prems by (intro Cons.IH) (auto split: if_splits)
  show ?case
  proof (cases "admitted W mx counted q \<and> within W T q")
    case True
    then have w: "within W T q" and ran: "ran q" and mx: "length (filter (in_window W q) (q # counted)) \<le> mx"
      by (auto simp: admitted_def ran_def)
    have "in_window W q q" using w by (auto simp: within_def in_window_def)
    moreover have "in_window W q p" if "within W T p" for p
      using that w by (auto simp: within_def in_window_def)
    then have "length (filter (within W T) counted) \<le> length (filter (in_window W q) counted)"
      by (induction counted) auto
    ultimately have "length (filter (within W T) counted) + 1 \<le> mx" using mx by simp
    with IH ran w True show ?thesis by simp
  next
    case False
    have "length (filter (within W T) counted) \<le> length (filter (within W T) ?counted)" by simp
    with IH False show ?thesis by (auto simp: split: if_splits)
  qed
qed simp

text \<open>
  At most the configured number of requests passes in any window: however requests, failures and
  expiries interleave, the number of accepted requests of a client with times in
  the window of \<^verbatim>\<open>window_seconds\<close> that ends at any moment \<open>T\<close> does not exceed \<^verbatim>\<open>max_requests\<close>.
\<close>

theorem accepted_per_window:
  assumes "redis_laws R" and "unat (window_seconds config) * 1000 < 2 ^ 64"
    and "zsets (r_view R r) (redis_key_text config client) = []" and "well_timed now qs"
  shows "length (filter (\<lambda>(q, ok). ok \<and> within (1000 * unat (window_seconds config)) T q)
    (zip qs (serve R config client now r qs))) \<le> unat (max_requests config)"
proof -
  have "serve R config client now r qs =
      admissions (1000 * unat (window_seconds config)) (unat (max_requests config)) [] qs"
    using serve_admissions [OF assms(1,2) window_state_empty [OF assms(3)] assms(4)] by simp
  then show ?thesis
    using admissions_bound [of qs "[]" "1000 * unat (window_seconds config)" T "unat (max_requests config)"] assms(4)
    by (simp add: well_timed_def)
qed

theorem accepted_per_window_witness:
  "length (filter (\<lambda>(q, ok). ok \<and> within 2000 3100 q) (zip three_requests
     (serve table_redis \<lparr>max_requests = 1, window_seconds = 2, key_prefix = ''t''\<rparr> ''c'' 0 empty_table three_requests))) \<le> 1"
proof -
  have "well_timed 0 three_requests" by (simp add: well_timed_def three_requests_def)
  from accepted_per_window [OF table_redis_laws _ _ this,
      of "\<lparr>max_requests = 1, window_seconds = 2, key_prefix = ''t''\<rparr>" empty_table "''c''" 3100]
  show ?thesis by simp
qed

text \<open>Clients with different keys do not share a counter.\<close>

lemma redis_key_inject: "redis_key_text config a = redis_key_text config b \<longleftrightarrow> a = b"
  by (simp add: redis_key_text_def)

section \<open>The fixed window of the newsletter\<close>

lemma incr_with_ttl_run:
  assumes R: "redis_laws R" and n: "count_of (strings (r_view R r) k) = int n"
    and run: "incr_with_ttl_script R k window r = (c, s)"
  shows "c = int n + 1" "count_of (strings (r_view R s) k) = int n + 1"
    "ttls (r_view R s) k = (if n = 0 then Some (1000 * window) else ttls (r_view R r) k)"
proof -
  have v: "r_view R (r_incr R k r) = with_string k (Some (Num (int n + 1))) (r_view R r)"
    using n by (simp add: redis_lawsD [OF R])
  have p: "present (with_string k (Some x) u) k" for x u by (simp add: present_def)
  have c: "count_of (get_string R k (r_incr R k r)) = int n + 1" by (simp add: get_string_def v count_of_def)
  show "c = int n + 1" using run c by (simp add: incr_with_ttl_script_def Let_def)
  have s: "s = (if n = 0 then r_expire R k window (r_incr R k r) else r_incr R k r)"
    using run c by (simp add: incr_with_ttl_script_def Let_def)
  show "count_of (strings (r_view R s) k) = int n + 1"
    "ttls (r_view R s) k = (if n = 0 then Some (1000 * window) else ttls (r_view R r) k)"
    using p unfolding s by (simp_all add: redis_lawsD(9) [OF R] count_of_def v)
qed

text \<open>
  The newsletter limiter: a request is allowed exactly when Redis answers and the counter,
  this request included, is within the limit. The first request of a window starts
  the time to live and later ones do not extend it; without an answer from Redis the request is refused.
\<close>

theorem newsletter_allow_decision:
  assumes R: "redis_laws R" and n: "count_of (strings (r_view R r) (newsletter_key key)) = int n"
    and run: "allow R f key mx window r = (ok, r')"
  shows "(ok \<longleftrightarrow> f = Done \<and> n < mx) \<and>
    (f \<noteq> Lost \<longrightarrow> count_of (strings (r_view R r') (newsletter_key key)) = int n + 1 \<and>
      ttls (r_view R r') (newsletter_key key) =
        (if n = 0 then Some (1000 * window) else ttls (r_view R r) (newsletter_key key)))"
proof -
  obtain c s where script: "incr_with_ttl_script R (newsletter_key key) window r = (c, s)" by (metis surj_pair)
  note step = incr_with_ttl_run [OF R n script]
  with run script show ?thesis by (auto simp: allow_def remote_eq split: if_splits)
qed

theorem newsletter_allow_decision_witness:
  "fst (allow table_redis Done ''a'' 5 60 empty_table) \<and>
   ttls (r_view table_redis (snd (allow table_redis Done ''a'' 5 60 empty_table))) (newsletter_key ''a'') = Some 60000"
proof -
  obtain ok r' where run: "allow table_redis Done ''a'' 5 60 empty_table = (ok, r')" by (metis surj_pair)
  from newsletter_allow_decision [OF table_redis_laws _ this, of 0] show ?thesis by (simp add: run count_of_def)
qed

end
