(* ===== verification/Http.thy ===== *)
theory Http
  imports Service_Config
begin

text \<open>
  Requests, responses and middlewares of the API service as the \<^verbatim>\<open>axum\<close> framework presents them to the code:
  a middleware gets the rest of the stack as a function and a state that stands for everything the handlers
  change.  A body is a text or a JSON value, which the framework prints; header names are in lower case, as
  the framework keeps them.
\<close>

section \<open>Messages\<close>

datatype json = JNull | JBool bool | JNum int | JStr string | JArr "json list" | JObj "(string \<times> json) list"

datatype body = Bytes string | Json json

record http_request =
  rq_method :: string
  rq_path :: string
  rq_query :: "string option"
  rq_headers :: "string \<rightharpoonup> string"
  rq_body :: string
  rq_peer :: "IpAddr option"

record http_response =
  rs_status :: int
  rs_headers :: "string \<rightharpoonup> string"
  rs_body :: body

type_synonym 's handler = "http_request \<Rightarrow> 's \<Rightarrow> http_response \<times> 's"
type_synonym 's middleware = "'s handler \<Rightarrow> 's handler"

text \<open>\<^verbatim>\<open>HeaderValue::to_str\<close>: only visible ASCII, blanks and tabs.\<close>

definition to_str :: "string \<Rightarrow> string option" where
  "to_str v = (if list_all (\<lambda>c. let n = (of_char c :: int) in n = 9 \<or> 32 \<le> n \<and> n < 127) v then Some v else None)"

definition header_text :: "http_request \<Rightarrow> string \<Rightarrow> string option" where
  "header_text req name = Option.bind (rq_headers req name) to_str"

definition header_or_empty :: "http_request \<Rightarrow> string \<Rightarrow> string" where
  "header_or_empty req name = unwrap_or (header_text req name) []"

definition has_header :: "http_request \<Rightarrow> string \<Rightarrow> bool" where
  "has_header req name \<longleftrightarrow> rq_headers req name \<noteq> None"

definition json_response :: "int \<Rightarrow> json \<Rightarrow> http_response" where
  "json_response status v = \<lparr> rs_status = status, rs_headers = [''content-type'' \<mapsto> ''application/json''], rs_body = Json v \<rparr>"

definition status_response :: "int \<Rightarrow> http_response" where
  "status_response status = \<lparr> rs_status = status, rs_headers = Map.empty, rs_body = Bytes [] \<rparr>"

definition insert_header :: "string \<Rightarrow> string \<Rightarrow> http_response \<Rightarrow> http_response" where
  "insert_header name value resp = resp\<lparr>rs_headers := (rs_headers resp)(name \<mapsto> value)\<rparr>"

definition is_success_status :: "int \<Rightarrow> bool" where
  "is_success_status status \<longleftrightarrow> 200 \<le> status \<and> status < 300"

text \<open>A filter decides on the request alone; it answers itself, or hands the request on.\<close>

definition filter_with :: "(http_request \<Rightarrow> http_response option) \<Rightarrow> 's middleware" where
  "filter_with reject next req s = (case reject req of Some resp \<Rightarrow> (resp, s) | None \<Rightarrow> next req s)"

section \<open>Characters\<close>

text \<open>The characters of a text in UTF-8: a byte that is no continuation byte, and the continuation bytes after it.\<close>

definition continuation :: "char \<Rightarrow> bool" where
  "continuation c \<longleftrightarrow> (let n = (of_char c :: int) in 128 \<le> n \<and> n < 192)"

function utf8_chars :: "string \<Rightarrow> string list" where
  "utf8_chars s = (case s of [] \<Rightarrow> []
     | c # t \<Rightarrow> (c # takeWhile continuation t) # utf8_chars (dropWhile continuation t))"
  by pat_completeness auto
termination
  by (relation "measure length") (auto simp: le_imp_less_Suc length_dropWhile_le)

declare utf8_chars.simps [simp del]

lemma utf8_chars_Nil [simp]: "utf8_chars [] = []"
  by (simp add: utf8_chars.simps)

lemma utf8_chars_Cons:
  "utf8_chars (c # t) = (c # takeWhile continuation t) # utf8_chars (dropWhile continuation t)"
  by (simp add: utf8_chars.simps)

lemma concat_utf8_chars: "concat (utf8_chars s) = s"
proof (induction s rule: utf8_chars.induct)
  case (1 s)
  then show ?case by (cases s) (simp_all add: utf8_chars_Cons)
qed

lemma utf8_chars_ascii: "is_ascii s \<Longrightarrow> utf8_chars s = map (\<lambda>c. [c]) s"
proof (induction s)
  case (Cons c s)
  then have "takeWhile continuation s = []" "dropWhile continuation s = s"
    by (cases s; simp add: is_ascii_def continuation_def)+
  with Cons show ?case by (simp add: utf8_chars_Cons is_ascii_def)
qed simp

definition take_chars :: "nat \<Rightarrow> string \<Rightarrow> string" where
  "take_chars n s = concat (take n (utf8_chars s))"

lemma concat_singletons: "concat (map (\<lambda>c. [c]) s) = s"
  by (induction s) auto

lemma take_chars_ascii: "is_ascii s \<Longrightarrow> take_chars n s = take n s"
  by (simp add: take_chars_def utf8_chars_ascii take_map concat_singletons)

text \<open>The control characters of Unicode: the two ASCII ranges and the range that begins with the byte C2.\<close>

definition is_control :: "string \<Rightarrow> bool" where
  "is_control ch = (case map (\<lambda>c. (of_char c :: int)) ch of
     [n] \<Rightarrow> n < 32 \<or> n = 127
   | [m, n] \<Rightarrow> m = 194 \<and> n < 160
   | _ \<Rightarrow> False)"

end
