(* ===== verification/Api_Error.thy ===== *)
theory Api_Error
  imports Http
begin

text \<open>
  The errors of the service: the classification of database errors (\<^verbatim>\<open>DbError\<close> and \<^verbatim>\<open>with_timeout\<close> in \<^verbatim>\<open>db.rs\<close>), the
  error type of the handlers (\<^verbatim>\<open>ApiError\<close> in \<^verbatim>\<open>handlers.rs\<close>) and the conversion of one into the other.  Text an
  error carries for the log is kept where the source keeps it.
\<close>

section \<open>Database errors: db.rs\<close>

text \<open>The errors of the database driver that the code distinguishes; a database error has a code and a message.\<close>

datatype sqlx_error = PoolTimedOut | Database "string option" string | Other_Sqlx string

datatype DbError = Timeout | PoolExhausted | ConstraintViolation string | Other_Db sqlx_error

definition sqlx_text :: "sqlx_error \<Rightarrow> string" where
  "sqlx_text e = (case e of PoolTimedOut \<Rightarrow> ''pool timed out'' | Database _ m \<Rightarrow> m | Other_Sqlx m \<Rightarrow> m)"

fun DbError_display :: "DbError \<Rightarrow> string" where
  "DbError_display Timeout = ''database query timed out''"
| "DbError_display PoolExhausted = ''database connection pool exhausted''"
| "DbError_display (ConstraintViolation msg) = ''database constraint violation: '' @ msg"
| "DbError_display (Other_Db e) = sqlx_text e"

fun DbError_from :: "sqlx_error \<Rightarrow> DbError" where
  "DbError_from PoolTimedOut = PoolExhausted"
| "DbError_from (Database code message) = (if (case code of Some c \<Rightarrow> starts_with ''23'' c | None \<Rightarrow> False)
     then ConstraintViolation message else Other_Db (Database code message))"
| "DbError_from (Other_Sqlx m) = Other_Db (Other_Sqlx m)"

text \<open>The outcome of a query under the time limit: no outcome in time, an error, or a value.\<close>

fun with_timeout :: "(sqlx_error + 'a) option \<Rightarrow> DbError + 'a" where
  "with_timeout (Some (Inr v)) = Inr v"
| "with_timeout (Some (Inl e)) = Inl (if e = PoolTimedOut then PoolExhausted else Other_Db e)"
| "with_timeout None = Inl Timeout"

section \<open>Errors of the handlers: handlers.rs\<close>

record ApiError =
  ae_code :: string
  ae_message :: string
  ae_status :: int

definition api_internal :: ApiError where
  "api_internal = \<lparr> ae_code = ''INTERNAL_ERROR'', ae_message = ''An internal error occurred.'', ae_status = 500 \<rparr>"

definition bad_request :: "string \<Rightarrow> ApiError" where
  "bad_request message = \<lparr> ae_code = ''BAD_REQUEST'', ae_message = message, ae_status = 400 \<rparr>"

definition not_found :: "string \<Rightarrow> ApiError" where
  "not_found message = \<lparr> ae_code = ''NOT_FOUND'', ae_message = message, ae_status = 404 \<rparr>"

definition conflict :: "string \<Rightarrow> ApiError" where
  "conflict message = \<lparr> ae_code = ''CONFLICT'', ae_message = message, ae_status = 409 \<rparr>"

definition rate_limited :: ApiError where
  "rate_limited = \<lparr> ae_code = ''RATE_LIMITED'', ae_message = ''Too many requests, please try again later.'', ae_status = 429 \<rparr>"

definition service_unavailable :: "string \<Rightarrow> ApiError" where
  "service_unavailable message = \<lparr> ae_code = ''SERVICE_UNAVAILABLE'', ae_message = message, ae_status = 503 \<rparr>"

text \<open>The status is not part of the body.\<close>

definition ApiError_into_response :: "ApiError \<Rightarrow> http_response" where
  "ApiError_into_response e = json_response (ae_status e) (JObj [(''code'', JStr (ae_code e)), (''message'', JStr (ae_message e))])"

text \<open>A general error that holds a database error, or another one.\<close>

datatype any_error = From_Db DbError | Plain_Error string

fun into_api_error :: "any_error \<Rightarrow> ApiError" where
  "into_api_error (From_Db Timeout) = service_unavailable ''database query timed out''"
| "into_api_error (From_Db PoolExhausted) = service_unavailable ''database connection pool exhausted''"
| "into_api_error (From_Db (ConstraintViolation msg)) = conflict ''A record with this value already exists.''"
| "into_api_error (From_Db (Other_Db e)) = api_internal"
| "into_api_error (Plain_Error msg) = api_internal"

lemmas api_error_defs = api_internal_def bad_request_def not_found_def conflict_def rate_limited_def service_unavailable_def

section \<open>What a failing query answers\<close>

text \<open>
  The answer to a request whose query fails is a service-unavailable response when the query timed out or no
  connection was free, and otherwise an internal error with one fixed text.  In particular the violation of a
  constraint, for which the conversion of driver errors and the handlers provide a conflict response, never yields
  one, since \<^verbatim>\<open>with_timeout\<close> does not use that conversion.
\<close>

theorem failed_query_response:
  "with_timeout outcome = Inl err \<longleftrightarrow>
     (outcome = None \<and> err = Timeout) \<or> (outcome = Some (Inl PoolTimedOut) \<and> err = PoolExhausted) \<or>
     (\<exists>e. outcome = Some (Inl e) \<and> e \<noteq> PoolTimedOut \<and> err = Other_Db e \<and> ae_status (into_api_error (From_Db err)) = 500 \<and>
        ae_message (into_api_error (From_Db err)) = ''An internal error occurred.'')"
  "DbError_from (Database (Some ''23505'') msg) = ConstraintViolation msg \<and>
   ae_status (into_api_error (From_Db (ConstraintViolation msg))) = 409"
proof -
  show "with_timeout outcome = Inl err \<longleftrightarrow>
     (outcome = None \<and> err = Timeout) \<or> (outcome = Some (Inl PoolTimedOut) \<and> err = PoolExhausted) \<or>
     (\<exists>e. outcome = Some (Inl e) \<and> e \<noteq> PoolTimedOut \<and> err = Other_Db e \<and> ae_status (into_api_error (From_Db err)) = 500 \<and>
        ae_message (into_api_error (From_Db err)) = ''An internal error occurred.'')"
    by (cases outcome rule: with_timeout.cases) (auto simp: api_internal_def)
qed (simp add: starts_with_def conflict_def)

lemma with_timeout_status:
  "with_timeout outcome = Inl err \<Longrightarrow> ae_status (into_api_error (From_Db err)) \<in> {500, 503}"
  by (cases outcome rule: with_timeout.cases) (auto simp: api_error_defs)

end
