(* ===== verification/Cache.thy ===== *)
theory Cache
  imports Cache_Keys Rate_Limit Api_Error
begin

text \<open>
  The Redis cache of the service (\<^verbatim>\<open>cache/mod.rs\<close>): the circuit breaker in front of the server, the retry loop
  every operation runs in, reading and writing values, the fetch-or-set operation with its lock against
  stampedes, and tag-based invalidation.  The state is the server, the breaker, the clock and the count of
  external calls; before each call the other clients of the server may act and time may pass, as the
  environment says, and each call may be lost or remain unacknowledged.  The JSON codecs, the hash of
  a tag and the random choice of an early refresh are parameters.
\<close>

section \<open>Settings\<close>

record RedisCacheConfig =
  pool_min_idle :: int
  pool_max_size :: int
  pool_acquire_timeout :: int
  cache_retry_attempts :: nat
  cache_retry_base_delay :: int
  cb_threshold :: int
  cb_reset_timeout :: int

definition RedisCacheConfig_from_env :: "environment \<Rightarrow> RedisCacheConfig" where
  "RedisCacheConfig_from_env env = (let min_idle = env_uint 64 env ''REDIS_POOL_MIN_IDLE'' 2 in
     \<lparr> pool_min_idle = min_idle,
       pool_max_size = max (env_uint 64 env ''REDIS_POOL_MAX_SIZE'' 20) min_idle,
       pool_acquire_timeout = env_uint 64 env ''REDIS_POOL_ACQUIRE_TIMEOUT_MS'' 500,
       cache_retry_attempts = nat (env_uint 32 env ''REDIS_RETRY_ATTEMPTS'' 3),
       cache_retry_base_delay = env_uint 64 env ''REDIS_RETRY_BASE_DELAY_MS'' 50,
       cb_threshold = env_uint 32 env ''REDIS_CB_THRESHOLD'' 5,
       cb_reset_timeout = 1000 * env_uint 64 env ''REDIS_CB_RESET_TIMEOUT_SECS'' 30 \<rparr>)"

record TagStoreConfig =
  tag_ttl :: nat
  keys_per_tag_cap :: int
  tag_prefix :: string

definition TagStoreConfig_from_env :: "environment \<Rightarrow> TagStoreConfig" where
  "TagStoreConfig_from_env env =
     \<lparr> tag_ttl = nat (env_uint 64 env ''REDIS_CACHE_TAG_TTL_SECS'' 3600),
       keys_per_tag_cap = env_uint 64 env ''REDIS_CACHE_TAG_KEYS_PER_TAG_CAP'' 256,
       tag_prefix = env_text env ''REDIS_CACHE_TAG_PREFIX'' ''cache_tags:v1'' \<rparr>"

definition tag_key :: "TagStoreConfig \<Rightarrow> string \<Rightarrow> string" where
  "tag_key cfg tag_hash = tag_prefix cfg @ '':tag:'' @ tag_hash"

definition counter_key :: "TagStoreConfig \<Rightarrow> string \<Rightarrow> string" where
  "counter_key cfg tag_hash = tag_prefix cfg @ '':tag:'' @ tag_hash @ '':seq''"

section \<open>Circuit breaker\<close>

datatype CircuitState = Closed | Open | HalfOpen

record CircuitBreaker =
  failure_count :: int
  opened_at_ms :: int
  threshold :: int
  reset_timeout :: int

definition CircuitBreaker_new :: "int \<Rightarrow> int \<Rightarrow> CircuitBreaker" where
  "CircuitBreaker_new thr reset = \<lparr> failure_count = 0, opened_at_ms = 0, threshold = thr, reset_timeout = reset \<rparr>"

text \<open>The difference saturates at zero; the reset time is truncated to 64 bits of milliseconds.\<close>

definition circuit_state :: "int \<Rightarrow> CircuitBreaker \<Rightarrow> CircuitState" where
  "circuit_state now_ms cb = (if opened_at_ms cb = 0 then Closed
     else if max 0 (now_ms - opened_at_ms cb) \<ge> reset_timeout cb mod 2 ^ 64 then HalfOpen else Open)"

definition record_success :: "CircuitBreaker \<Rightarrow> CircuitBreaker" where
  "record_success cb = cb\<lparr>failure_count := 0, opened_at_ms := 0\<rparr>"

definition record_failure :: "int \<Rightarrow> CircuitBreaker \<Rightarrow> CircuitBreaker" where
  "record_failure now_ms cb = (let count = (failure_count cb + 1) mod 2 ^ 32; cb' = cb\<lparr>failure_count := count\<rparr> in
     if count \<ge> threshold cb \<and> opened_at_ms cb = 0 then cb'\<lparr>opened_at_ms := now_ms\<rparr> else cb')"

definition allow_call :: "int \<Rightarrow> CircuitBreaker \<Rightarrow> bool" where
  "allow_call now_ms cb = (case circuit_state now_ms cb of Closed \<Rightarrow> True | HalfOpen \<Rightarrow> True | Open \<Rightarrow> False)"

section \<open>The server behind the breaker\<close>

record ('v, 'f) CachedEntry =
  entry_value :: 'v
  entry_expires_at :: int
  entry_delta :: 'f

record 'r cache_state =
  cs_store :: 'r
  cs_breaker :: CircuitBreaker
  cs_now :: int
  cs_calls :: nat

record ('r, 'v, 'f) cache_env =
  ce_redis :: "'r redis"
  ce_fate :: "nat \<Rightarrow> fate"
  ce_others :: "nat \<Rightarrow> 'r \<Rightarrow> 'r"
  ce_tick :: "nat \<Rightarrow> int"
  ce_cfg :: RedisCacheConfig
  ce_tags :: TagStoreConfig
  ce_tag_hash :: "string list \<Rightarrow> string"
  ce_early :: "nat \<Rightarrow> ('v, 'f) CachedEntry \<Rightarrow> int \<Rightarrow> bool"
  ce_measure :: "nat \<Rightarrow> 'f"
  enc_value :: "'v \<Rightarrow> string"
  dec_value :: "string \<Rightarrow> 'v option"
  enc_entry :: "('v, 'f) CachedEntry \<Rightarrow> string"
  dec_entry :: "string \<Rightarrow> ('v, 'f) CachedEntry option"
  ce_scan :: "int \<Rightarrow> string \<Rightarrow> 'r \<Rightarrow> int \<times> string list"

datatype cache_error = Circuit_Open | No_Attempts | Pool_Error | Server_Error | Decode_Error | Fetch_Error | Db_Failed DbError

type_synonym ('r, 'a) cache_op = "('r cache_state, cache_error, 'a) comp"

definition cache_call :: "('r, 'v, 'f) cache_env \<Rightarrow> cache_error \<Rightarrow> ('r \<Rightarrow> 'a \<times> 'r) \<Rightarrow> ('r, 'a) cache_op" where
  "cache_call e err f s = (let n = cs_calls s; r = ce_others e n (cs_store s);
       s1 = s\<lparr>cs_store := r, cs_calls := n + 1, cs_now := cs_now s + ce_tick e n\<rparr>; (x, r') = f r in
     case ce_fate e n of Done \<Rightarrow> Ok x (s1\<lparr>cs_store := r'\<rparr>) | Lost \<Rightarrow> Err err s1 | Unacked \<Rightarrow> Err err (s1\<lparr>cs_store := r'\<rparr>))"

definition pool_get :: "('r, 'v, 'f) cache_env \<Rightarrow> ('r, unit) cache_op" where
  "pool_get e = cache_call e Pool_Error (\<lambda>r. ((), r))"

definition redis_cmd :: "('r, 'v, 'f) cache_env \<Rightarrow> ('r \<Rightarrow> 'a \<times> 'r) \<Rightarrow> ('r, 'a) cache_op" where
  "redis_cmd e f = cache_call e Server_Error f"

definition breaker_do :: "(int \<Rightarrow> CircuitBreaker \<Rightarrow> CircuitBreaker) \<Rightarrow> 'r cache_state \<Rightarrow> 'r cache_state" where
  "breaker_do f s = s\<lparr>cs_breaker := f (cs_now s) (cs_breaker s)\<rparr>"

definition sleep_ms :: "int \<Rightarrow> 'r cache_state \<Rightarrow> 'r cache_state" where
  "sleep_ms d s = s\<lparr>cs_now := cs_now s + d\<rparr>"

section \<open>The retry loop\<close>

definition exec_delay :: "RedisCacheConfig \<Rightarrow> nat \<Rightarrow> int" where
  "exec_delay cfg attempt = cache_retry_base_delay cfg * 2 ^ min (attempt - 1) 4"

fun exec_loop :: "('r, 'v, 'f) cache_env \<Rightarrow> ('r, 'a) cache_op \<Rightarrow> nat \<Rightarrow> nat \<Rightarrow> cache_error \<Rightarrow> ('r, 'a) cache_op" where
  "exec_loop e op attempt 0 last_err s = Err last_err s"
| "exec_loop e op attempt (Suc k) last_err s =
     (let s0 = (if attempt > 0 then sleep_ms (exec_delay (ce_cfg e) attempt) s else s) in
      case pool_get e s0 of
        Err _ s1 \<Rightarrow> exec_loop e op (attempt + 1) k Pool_Error (breaker_do record_failure s1)
      | Ok _ s1 \<Rightarrow> (case op s1 of
          Ok v s2 \<Rightarrow> Ok v (breaker_do (\<lambda>_. record_success) s2)
        | Err err s2 \<Rightarrow> exec_loop e op (attempt + 1) k err (breaker_do record_failure s2)
        | Trap \<Rightarrow> Trap)
      | Trap \<Rightarrow> Trap)"

definition exec :: "('r, 'v, 'f) cache_env \<Rightarrow> ('r, 'a) cache_op \<Rightarrow> ('r, 'a) cache_op" where
  "exec e op s = (if \<not> allow_call (cs_now s) (cs_breaker s) then Err Circuit_Open s
     else exec_loop e op 0 (Suc (cache_retry_attempts (ce_cfg e))) No_Attempts s)"

section \<open>Values\<close>

definition raw_text :: "rstring option \<Rightarrow> string option" where
  "raw_text x = (case x of Some (Text t) \<Rightarrow> Some t | Some (Num n) \<Rightarrow> Some (show_signed n) | None \<Rightarrow> None)"

definition get_json :: "('r, 'v, 'f) cache_env \<Rightarrow> (string \<Rightarrow> 'a option) \<Rightarrow> string \<Rightarrow> ('r, 'a option) cache_op" where
  "get_json e dec key = exec e
     (bnd (redis_cmd e (\<lambda>r. (raw_text (get_string (ce_redis e) key r), r))) (\<lambda>val. case val of
        Some raw \<Rightarrow> (case dec raw of Some v \<Rightarrow> ret (Some v) | None \<Rightarrow> fail Decode_Error)
      | None \<Rightarrow> ret None))"

definition set_ex :: "('r, 'v, 'f) cache_env \<Rightarrow> string \<Rightarrow> string \<Rightarrow> nat \<Rightarrow> ('r, unit) cache_op" where
  "set_ex e key raw secs = exec e (redis_cmd e (\<lambda>r. ((), r_set (ce_redis e) key (Text raw) secs r)))"

definition set_json :: "('r, 'v, 'f) cache_env \<Rightarrow> string \<Rightarrow> 'v \<Rightarrow> nat \<Rightarrow> ('r, unit) cache_op" where
  "set_json e key value ttl = set_ex e key (enc_value e value) ttl"

definition set_entry :: "('r, 'v, 'f) cache_env \<Rightarrow> string \<Rightarrow> ('v, 'f) CachedEntry \<Rightarrow> nat \<Rightarrow> ('r, unit) cache_op" where
  "set_entry e key entry ttl = set_ex e key (enc_entry e entry) (ttl + 30)"

definition del :: "('r, 'v, 'f) cache_env \<Rightarrow> string \<Rightarrow> ('r, unit) cache_op" where
  "del e key = exec e (redis_cmd e (\<lambda>r. ((), r_del (ce_redis e) key r)))"

definition cache_ping :: "('r, 'v, 'f) cache_env \<Rightarrow> ('r, unit) cache_op" where
  "cache_ping e = exec e (redis_cmd e (\<lambda>r. ((), r)))"

text \<open>Deleting by pattern: one batch, and the loop over the cursor, with fuel since the server decides when it ends.\<close>

definition scan_batch :: "('r, 'v, 'f) cache_env \<Rightarrow> string \<Rightarrow> int \<Rightarrow> ('r, int \<times> nat) cache_op" where
  "scan_batch e pattern cursor = exec e
     (bnd (redis_cmd e (\<lambda>r. (ce_scan e cursor pattern r, r))) (\<lambda>(next_cursor, keys).
      if keys = [] then ret (next_cursor, 0)
      else bnd (redis_cmd e (\<lambda>r. (length (filter (\<lambda>k. present (r_view (ce_redis e) r) k) (remdups keys)),
                 fold (r_del (ce_redis e)) keys r))) (\<lambda>deleted. ret (next_cursor, deleted))))"

fun scan_loop :: "nat \<Rightarrow> ('r, 'v, 'f) cache_env \<Rightarrow> string \<Rightarrow> int \<Rightarrow> nat \<Rightarrow> 'r cache_state \<Rightarrow> ('r cache_state, cache_error, nat) res option" where
  "scan_loop 0 e pattern cursor deleted_before s = None"
| "scan_loop (Suc fuel) e pattern cursor deleted_before s = (case scan_batch e pattern cursor s of
     Ok (next_cursor, deleted) s1 \<Rightarrow>
       if next_cursor = 0 then Some (Ok (deleted_before + deleted) s1) else scan_loop fuel e pattern next_cursor (deleted_before + deleted) s1
   | Err err s1 \<Rightarrow> Some (Err err s1)
   | Trap \<Rightarrow> Some Trap)"

definition del_by_pattern :: "nat \<Rightarrow> ('r, 'v, 'f) cache_env \<Rightarrow> string \<Rightarrow> 'r cache_state \<Rightarrow> ('r cache_state, cache_error, nat) res option" where
  "del_by_pattern fuel e pattern s = (if \<not> allow_call (cs_now s) (cs_breaker s) then Some (Err Circuit_Open s)
     else scan_loop fuel e pattern 0 0 s)"

section \<open>Fetch or set\<close>

text \<open>Seconds since the epoch, and the two parts of the early-refresh decision.\<close>

definition timestamp_s :: "'r cache_state \<Rightarrow> int" where
  "timestamp_s s = cs_now s div 1000"

definition xfetch_should_refresh :: "('r, 'v, 'f) cache_env \<Rightarrow> ('v, 'f) CachedEntry \<Rightarrow> 'r cache_state \<Rightarrow> bool" where
  "xfetch_should_refresh e entry s = (let ttl_remaining = entry_expires_at entry - timestamp_s s in
     if ttl_remaining \<le> 0 then True else ce_early e (cs_calls s) entry ttl_remaining)"

text \<open>The outcome of a call whose error is not passed on, and the state it leaves.\<close>

definition attempt_op :: "('r, 'a) cache_op \<Rightarrow> ('r, 'a option) cache_op" where
  "attempt_op op s = (case op s of Ok v s' \<Rightarrow> Ok (Some v) s' | Err _ s' \<Rightarrow> Ok None s' | Trap \<Rightarrow> Trap)"

text \<open>The value found in the cache, with the metadata or, in the older format, without.\<close>

definition lookup :: "('r, 'v, 'f) cache_env \<Rightarrow> string \<Rightarrow> ('r, 'v option) cache_op" where
  "lookup e key = bnd (attempt_op (get_json e (dec_entry e) key)) (\<lambda>r. case r of
     Some (Some entry) \<Rightarrow> (\<lambda>s. if \<not> xfetch_should_refresh e entry s then Ok (Some (entry_value entry)) s else Ok None s)
   | _ \<Rightarrow> bnd (attempt_op (get_json e (dec_value e) key)) (\<lambda>q. case q of
       Some (Some value) \<Rightarrow> ret (Some value) | _ \<Rightarrow> ret None))"

definition lock_key :: "string \<Rightarrow> string" where
  "lock_key key = ''stampede_lock:'' @ key"

definition set_nx_ex :: "'r redis \<Rightarrow> string \<Rightarrow> nat \<Rightarrow> 'r \<Rightarrow> bool \<times> 'r" where
  "set_nx_ex R key ttl r = (if present (r_view R r) key then (False, r) else (True, r_set R key (Text ''1'') ttl r))"

definition acquire_lock :: "('r, 'v, 'f) cache_env \<Rightarrow> string \<Rightarrow> ('r, bool) cache_op" where
  "acquire_lock e key = bnd (attempt_op (exec e (redis_cmd e (set_nx_ex (ce_redis e) (lock_key key) 10))))
     (\<lambda>r. ret (unwrap_or r False))"

definition recompute :: "('r, 'v, 'f) cache_env \<Rightarrow> string \<Rightarrow> nat \<Rightarrow> ('r, 'v) cache_op \<Rightarrow> ('r, 'v \<times> bool) cache_op" where
  "recompute e key ttl fetcher = bnd fetcher (\<lambda>value.
     bnd (reads (\<lambda>s. \<lparr> entry_value = value, entry_expires_at = timestamp_s s + int ttl, entry_delta = ce_measure e (cs_calls s) \<rparr>)) (\<lambda>entry.
     bnd (attempt_op (set_entry e key entry ttl)) (\<lambda>_.
     bnd (attempt_op (del e (lock_key key))) (\<lambda>_. ret (value, False)))))"

fun poll :: "nat \<Rightarrow> ('r, 'v, 'f) cache_env \<Rightarrow> string \<Rightarrow> ('r, 'v option) cache_op" where
  "poll 0 e key s = Ok None s"
| "poll (Suc n) e key s = (case attempt_op (get_json e (dec_entry e) key) (sleep_ms 50 s) of
     Ok (Some (Some entry)) s1 \<Rightarrow> Ok (Some (entry_value entry)) s1
   | Ok _ s1 \<Rightarrow> (case attempt_op (get_json e (dec_value e) key) s1 of
       Ok (Some (Some value)) s2 \<Rightarrow> Ok (Some value) s2
     | Ok _ s2 \<Rightarrow> if \<not> allow_call (cs_now s2) (cs_breaker s2) then Ok None s2 else poll n e key s2
     | Err err s2 \<Rightarrow> Err err s2
     | Trap \<Rightarrow> Trap)
   | Err err s1 \<Rightarrow> Err err s1
   | Trap \<Rightarrow> Trap)"

definition wait_for_other :: "('r, 'v, 'f) cache_env \<Rightarrow> string \<Rightarrow> nat \<Rightarrow> ('r, 'v) cache_op \<Rightarrow> ('r, 'v \<times> bool) cache_op" where
  "wait_for_other e key ttl fetcher = bnd (poll 20 e key) (\<lambda>found. case found of
     Some value \<Rightarrow> ret (value, False)
   | None \<Rightarrow> bnd fetcher (\<lambda>value. bnd (attempt_op (set_json e key value ttl)) (\<lambda>_. ret (value, False))))"

definition get_or_set_json :: "('r, 'v, 'f) cache_env \<Rightarrow> string \<Rightarrow> nat \<Rightarrow> ('r, 'v) cache_op \<Rightarrow> ('r, 'v \<times> bool) cache_op" where
  "get_or_set_json e key ttl fetcher s =
     (if \<not> allow_call (cs_now s) (cs_breaker s) then bnd fetcher (\<lambda>value. ret (value, False)) s
      else bnd (lookup e key) (\<lambda>found. case found of
          Some value \<Rightarrow> ret (value, True)
        | None \<Rightarrow> bnd (acquire_lock e key) (\<lambda>lock_acquired.
            if lock_acquired then recompute e key ttl fetcher else wait_for_other e key ttl fetcher)) s)"

definition recompute_and_store :: "('r, 'v, 'f) cache_env \<Rightarrow> string \<Rightarrow> nat \<Rightarrow> ('r, 'v) cache_op \<Rightarrow> ('r, 'v \<times> bool) cache_op" where
  "recompute_and_store e key ttl fetcher = bnd fetcher (\<lambda>value.
     bnd (attempt_op (set_json e key value ttl)) (\<lambda>_. ret (value, False)))"

section \<open>Invalidation\<close>

text \<open>The script as it is called: the two keys, the time to live and the cap, and no cache key.\<close>

definition tag_script :: "'r redis \<Rightarrow> string \<Rightarrow> string \<Rightarrow> nat \<Rightarrow> int \<Rightarrow> string list \<Rightarrow> 'r \<Rightarrow> int \<times> 'r" where
  "tag_script R zset_key seq_key ttl cap extra r =
     (let r1 = r_incr R seq_key r;
          start_seq = count_of (get_string R seq_key r1);
          r2 = fold (\<lambda>(n, key). r_zadd R zset_key (start_seq + int n) key) (enumerate 0 extra) r1;
          r3 = (if ttl > 0 then r_expire R zset_key ttl r2 else r2);
          over = int (zcard R zset_key r3) - cap
      in if over > 0 then (over, (r_zpopmin R zset_key ^^ nat over) r3) else (0, r3))"

definition tag_store_invalidate :: "('r, 'v, 'f) cache_env \<Rightarrow> InvalidationTag \<Rightarrow> ('r, unit) cache_op" where
  "tag_store_invalidate e tag = (let tag_keys = cache_keys tag; tag_hash = ce_tag_hash e tag_keys;
       zset_key = tag_key (ce_tags e) tag_hash; seq_key = counter_key (ce_tags e) tag_hash in
     if tag_keys = [] then ret ()
     else bnd (exec e (redis_cmd e (tag_script (ce_redis e) zset_key seq_key (tag_ttl (ce_tags e)) ((keys_per_tag_cap (ce_tags e) + 2 ^ 63) mod 2 ^ 64 - 2 ^ 63) [])))
       (\<lambda>_. ret ()))"

definition invalidate_tag :: "('r, 'v, 'f) cache_env \<Rightarrow> InvalidationTag \<Rightarrow> ('r, nat) cache_op" where
  "invalidate_tag e tag = thn (tag_store_invalidate e tag)
     (thn (for_each (cache_keys tag) (del e)) (ret (length (cache_keys tag))))"

section \<open>The breaker\<close>

lemma fold_failures_opened:
  "opened_at_ms cb \<noteq> 0 \<Longrightarrow> opened_at_ms (fold record_failure ts cb) = opened_at_ms cb \<and>
     reset_timeout (fold record_failure ts cb) = reset_timeout cb"
  by (induction ts arbitrary: cb) (simp_all add: record_failure_def Let_def)

text \<open>
  Once the breaker is half open it never opens again by failures: every later call is let through to a
  server that keeps failing, however many failures are recorded, until one call succeeds.
\<close>

theorem half_open_never_reopens:
  assumes "circuit_state now cb = HalfOpen" "now \<le> later"
  shows "circuit_state later (fold record_failure ts cb) = HalfOpen \<and> allow_call later (fold record_failure ts cb)"
proof -
  have "opened_at_ms cb \<noteq> 0" "max 0 (now - opened_at_ms cb) \<ge> reset_timeout cb mod 2 ^ 64"
    using assms(1) by (auto simp: circuit_state_def split: if_splits)
  with fold_failures_opened [of cb ts] assms(2)
  have "circuit_state later (fold record_failure ts cb) = HalfOpen" by (auto simp: circuit_state_def)
  then show ?thesis by (simp add: allow_call_def)
qed

theorem half_open_never_reopens_witness:
  "circuit_state 90000 (fold record_failure [31002, 31003, 31004, 31005, 31006, 31007]
     \<lparr> failure_count = 5, opened_at_ms = 1000, threshold = 5, reset_timeout = 30000 \<rparr>) = HalfOpen \<and>
   allow_call 90000 (fold record_failure [31002, 31003, 31004, 31005, 31006, 31007]
     \<lparr> failure_count = 5, opened_at_ms = 1000, threshold = 5, reset_timeout = 30000 \<rparr>)"
  by (rule half_open_never_reopens [of 31001]) (simp_all add: circuit_state_def)

lemma fold_failures_count:
  assumes "opened_at_ms cb = 0" "0 \<le> failure_count cb" "failure_count cb + int (length ts) < threshold cb" "threshold cb < 2 ^ 32"
  shows "fold record_failure ts cb = cb\<lparr>failure_count := failure_count cb + int (length ts)\<rparr>"
  using assms
proof (induction ts arbitrary: cb)
  case (Cons t ts)
  then have c: "(failure_count cb + 1) mod 2 ^ 32 = failure_count cb + 1" by (intro mod_pos_pos_trivial) auto
  have "record_failure t cb = cb\<lparr>failure_count := failure_count cb + 1\<rparr>"
    using Cons.prems c by (simp add: record_failure_def Let_def)
  with Cons.IH [of "record_failure t cb"] Cons.prems show ?case by simp
qed simp

text \<open>
  A fresh breaker stays closed for fewer failures than its threshold, and opens with the failure that
  reaches it, at the time of that failure; the ones after it change nothing but the count.
\<close>

theorem breaker_opens_at_threshold:
  assumes "1 \<le> thr" "thr < 2 ^ 32" "\<forall>t\<in>set ts. 0 < t"
  shows "opened_at_ms (fold record_failure ts (CircuitBreaker_new thr reset)) =
    (if int (length ts) < thr then 0 else ts ! nat (thr - 1))"
proof (cases "int (length ts) < thr")
  case True
  then show ?thesis using fold_failures_count [of "CircuitBreaker_new thr reset" ts] assms(2)
    by (simp add: CircuitBreaker_new_def)
next
  case False
  let ?n = "nat (thr - 1)" and ?cb = "CircuitBreaker_new thr reset"
  have n: "?n < length ts" using False assms(1) by linarith
  then have split: "fold record_failure ts ?cb = fold record_failure (drop (Suc ?n) ts) (record_failure (ts ! ?n) (fold record_failure (take ?n ts) ?cb))"
    by (metis append_take_drop_id Cons_nth_drop_Suc fold_append fold_simps(2) comp_apply)
  have "fold record_failure (take ?n ts) ?cb = ?cb\<lparr>failure_count := thr - 1\<rparr>"
    using fold_failures_count [of ?cb "take ?n ts"] n assms(1,2) by (simp add: CircuitBreaker_new_def)
  then have "opened_at_ms (record_failure (ts ! ?n) (fold record_failure (take ?n ts) ?cb)) = ts ! ?n"
    using assms(1,2) by (simp add: record_failure_def CircuitBreaker_new_def Let_def mod_pos_pos_trivial)
  moreover have "0 < ts ! ?n" using assms(3) n by simp
  ultimately show ?thesis using False split fold_failures_opened by simp
qed

theorem breaker_opens_at_threshold_witness:
  "opened_at_ms (fold record_failure [10, 20, 30] (CircuitBreaker_new 2 60000)) = 20"
  by (subst breaker_opens_at_threshold) simp_all

section \<open>A failing cache does not fail the request\<close>

lemma cache_call_no_trap: "cache_call e err f s \<noteq> Trap"
  by (simp add: cache_call_def Let_def split: fate.splits prod.splits)

lemma exec_loop_no_trap: "(\<And>s. op s \<noteq> Trap) \<Longrightarrow> exec_loop e op a k err s \<noteq> Trap"
proof (induction k arbitrary: a err s)
  case (Suc k)
  define s0 where "s0 = (if a > 0 then sleep_ms (exec_delay (ce_cfg e) a) s else s)"
  have "pool_get e s0 \<noteq> Trap" by (simp add: pool_get_def cache_call_no_trap)
  with Suc show ?case unfolding exec_loop.simps Let_def s0_def [symmetric] by (auto split: res.splits)
qed simp

declare exec_loop.simps(2) [simp del]

lemma exec_no_trap: "(\<And>s. op s \<noteq> Trap) \<Longrightarrow> exec e op s \<noteq> Trap"
  by (simp add: exec_def exec_loop_no_trap)

lemma get_json_no_trap: "get_json e dec key s \<noteq> Trap"
  unfolding get_json_def
  by (rule exec_no_trap) (auto simp: bnd_def ret_def fail_def redis_cmd_def cache_call_no_trap split: res.splits option.splits)

lemma attempt_total: "(\<And>s. op s \<noteq> Trap) \<Longrightarrow> \<exists>v s'. attempt_op op s = Ok v s'"
  by (cases "op s") (auto simp: attempt_op_def)

lemma cache_total: "\<exists>v s'. attempt_op (get_json e dec key) s = Ok v s'"
  by (rule attempt_total) (rule get_json_no_trap)

lemma set_ex_no_trap: "set_ex e key raw ttl s \<noteq> Trap"
  unfolding set_ex_def by (rule exec_no_trap) (simp add: redis_cmd_def cache_call_no_trap)

lemma del_no_trap: "del e key s \<noteq> Trap"
  unfolding del_def by (rule exec_no_trap) (simp add: redis_cmd_def cache_call_no_trap)

lemma lookup_total: "\<exists>v s'. lookup e key s = Ok v s'"
proof -
  from cache_total [of e "dec_entry e" key s] obtain v s1
    where 1: "attempt_op (get_json e (dec_entry e) key) s = Ok v s1" by blast
  from cache_total [of e "dec_value e" key s1] obtain w s2
    where "attempt_op (get_json e (dec_value e) key) s1 = Ok w s2" by blast
  with 1 show ?thesis by (auto simp: lookup_def bnd_def ret_def split: option.splits)
qed

lemma acquire_total: "\<exists>b s'. acquire_lock e key s = Ok b s'"
proof -
  have "\<exists>v s'. attempt_op (exec e (redis_cmd e (set_nx_ex (ce_redis e) (lock_key key) 10))) s = Ok v s'"
    by (rule attempt_total, rule exec_no_trap) (simp add: redis_cmd_def cache_call_no_trap)
  then show ?thesis by (auto simp: acquire_lock_def bnd_def ret_def)
qed

lemma poll_total: "\<exists>v s'. poll n e key s = Ok v s'"
proof (induction n e key s rule: poll.induct)
  case (2 n e key s)
  from cache_total [of e "dec_entry e" key "sleep_ms 50 s"] obtain v s1
    where 1: "attempt_op (get_json e (dec_entry e) key) (sleep_ms 50 s) = Ok v s1" by blast
  from cache_total [of e "dec_value e" key s1] obtain w s2
    where 2: "attempt_op (get_json e (dec_value e) key) s1 = Ok w s2" by blast
  show ?case using "2.IH" 1 2 by (auto split: option.splits)
qed simp

lemma get_or_set_total:
  assumes f: "\<And>s. \<exists>v s'. fetcher s = Ok v s'"
  shows "\<exists>v hit s'. get_or_set_json e key ttl fetcher s = Ok (v, hit) s'"
proof -
  have r: "\<exists>v hit s'. recompute e key ttl fetcher s = Ok (v, hit) s'" for s
  proof -
    obtain v s1 where 1: "fetcher s = Ok v s1" using f by blast
    define entry where "entry = \<lparr> entry_value = v, entry_expires_at = timestamp_s s1 + int ttl,
      entry_delta = ce_measure e (cs_calls s1) \<rparr>"
    have "\<exists>x s2. attempt_op (set_entry e key entry ttl) s1 = Ok x s2"
      unfolding set_entry_def by (rule attempt_total) (rule set_ex_no_trap)
    then obtain x s2 where 2: "attempt_op (set_entry e key entry ttl) s1 = Ok x s2" by blast
    have "\<exists>x s'. attempt_op (del e (lock_key key)) s2 = Ok x s'" by (rule attempt_total) (rule del_no_trap)
    with 1 2 show ?thesis by (auto simp: recompute_def bnd_def reads_def ret_def entry_def)
  qed
  have w: "\<exists>v hit s'. wait_for_other e key ttl fetcher s = Ok (v, hit) s'" for s
  proof -
    obtain p s1 where "poll 20 e key s = Ok p s1" using poll_total by blast
    moreover obtain v s2 where "fetcher s1 = Ok v s2" using f by blast
    moreover have "\<exists>x s'. attempt_op (set_json e key v ttl) s2 = Ok x s'"
      unfolding set_json_def by (rule attempt_total) (rule set_ex_no_trap)
    ultimately show ?thesis by (cases p) (auto simp: wait_for_other_def bnd_def ret_def)
  qed
  obtain l s1 where l: "lookup e key s = Ok l s1" using lookup_total by blast
  obtain b s2 where "acquire_lock e key s1 = Ok b s2" using acquire_total by blast
  with l r [of s2] w [of s2] f [of s] show ?thesis
    by (cases l; cases b) (auto simp: get_or_set_json_def bnd_def ret_def)
qed

text \<open>
  C39. Whatever happens to the calls of the server, whatever other clients do, and whatever state the breaker is
  in: if the fetcher gives a value, the fetch-or-set operation gives one.
\<close>

theorem cache_failures_hidden:
  assumes f: "\<And>s. \<exists>v s'. fetcher s = Ok v s'"
  shows "\<exists>v hit s'. get_or_set_json e key ttl fetcher s = Ok (v, hit) s'"
  using f by (rule get_or_set_total)

text \<open>Environments over the concrete server: one in which every call is lost, and below one in which none is.\<close>

definition unary :: "int \<Rightarrow> string" where
  "unary x = (if x < 0 then CHR ''-'' # replicate (nat (- x)) CHR ''1'' else replicate (nat x) CHR ''1'')"

definition of_unary :: "string \<Rightarrow> int" where
  "of_unary t = (if t \<noteq> [] \<and> hd t = CHR ''-'' then - int (length (tl t)) else int (length t))"

lemma of_unary: "of_unary (unary x) = x"
  by (cases "nat x") (auto simp: unary_def of_unary_def)

definition dead_cache_env :: "(table, unit, unit) cache_env" where
  "dead_cache_env = \<lparr> ce_redis = table_redis, ce_fate = (\<lambda>_. Lost), ce_others = (\<lambda>_ r. r), ce_tick = (\<lambda>_. 0),
     ce_cfg = \<lparr> pool_min_idle = 2, pool_max_size = 20, pool_acquire_timeout = 500, cache_retry_attempts = 3,
       cache_retry_base_delay = 50, cb_threshold = 5, cb_reset_timeout = 30000 \<rparr>,
     ce_tags = TagStoreConfig_from_env Map.empty, ce_tag_hash = concat, ce_early = (\<lambda>_ _ _. False), ce_measure = (\<lambda>_. ()),
     enc_value = (\<lambda>_. ''v''), dec_value = (\<lambda>t. if t = ''v'' then Some () else None),
     enc_entry = (\<lambda>en. unary (entry_expires_at en)),
     dec_entry = (\<lambda>t. Some \<lparr> entry_value = (), entry_expires_at = of_unary t, entry_delta = () \<rparr>),
     ce_scan = (\<lambda>_ _ _. (0, [])) \<rparr>"

definition fresh_cache :: "table cache_state" where
  "fresh_cache = \<lparr> cs_store = empty_table, cs_breaker = CircuitBreaker_new 5 30000, cs_now = 1000, cs_calls = 0 \<rparr>"

theorem cache_failures_hidden_witness:
  "\<exists>v hit s'. get_or_set_json dead_cache_env ''k'' 60 (Ok ()) fresh_cache = Ok (v, hit) s'"
  by (rule cache_failures_hidden) simp

section \<open>Invalidation removes exactly the keys of the tag\<close>

text \<open>No other client acts during an operation.\<close>

definition quiet :: "('r, 'v, 'f) cache_env \<Rightarrow> bool" where
  "quiet e \<longleftrightarrow> (\<forall>n r. ce_others e n r = r)"

lemma pool_get_store: "quiet e \<Longrightarrow> case pool_get e s of Ok _ t \<Rightarrow> cs_store t = cs_store s | Err _ t \<Rightarrow> cs_store t = cs_store s | Trap \<Rightarrow> False"
  by (simp add: pool_get_def cache_call_def quiet_def Let_def split: fate.splits)

lemma redis_cmd_store:
  "quiet e \<Longrightarrow> case redis_cmd e (\<lambda>r. (h r, g r)) s of Ok x t \<Rightarrow> cs_store t = g (cs_store s) \<and> x = h (cs_store s)
     | Err _ t \<Rightarrow> cs_store t = cs_store s \<or> cs_store t = g (cs_store s) | Trap \<Rightarrow> False"
  by (simp add: redis_cmd_def cache_call_def quiet_def Let_def split: fate.splits)

lemma breaker_do_store [simp]: "cs_store (breaker_do f s) = cs_store s"
  by (simp add: breaker_do_def)

lemma sleep_store [simp]: "cs_store (sleep_ms d s) = cs_store s"
  by (simp add: sleep_ms_def)

text \<open>A command that is retried until it is acknowledged has run at least once, and possibly more often.\<close>

lemma exec_loop_repeats:
  "quiet e \<Longrightarrow> exec_loop e (redis_cmd e (\<lambda>r. (h r, g r))) a k err s = Ok x s' \<Longrightarrow> \<exists>n. cs_store s' = (g ^^ Suc n) (cs_store s)"
proof (induction k arbitrary: a err s)
  case (Suc k)
  let ?op = "redis_cmd e (\<lambda>r. (h r, g r))"
  define s0 where "s0 = (if a > 0 then sleep_ms (exec_delay (ce_cfg e) a) s else s)"
  have s0: "cs_store s0 = cs_store s" by (simp add: s0_def)
  note ex = Suc.prems(2) [unfolded exec_loop.simps Let_def s0_def [symmetric]]
  show ?case
  proof (cases "pool_get e s0")
    case (Ok u s1)
    then have s1: "cs_store s1 = cs_store s" using pool_get_store [OF Suc.prems(1), of s0] s0 by simp
    show ?thesis
    proof (cases "?op s1")
      case o: (Ok y s2)
      then have "cs_store s2 = g (cs_store s)" using redis_cmd_store [OF Suc.prems(1), where h = h and g = g and s = s1] s1 by simp
      moreover have "cs_store s' = cs_store s2" using ex Ok o by auto
      ultimately have "cs_store s' = (g ^^ Suc 0) (cs_store s)" by simp
      then show ?thesis by blast
    next
      case er: (Err y s2)
      then have c: "cs_store s2 = cs_store s \<or> cs_store s2 = g (cs_store s)"
        using redis_cmd_store [OF Suc.prems(1), where h = h and g = g and s = s1] s1 by simp
      from ex Ok er have "exec_loop e ?op (a + 1) k y (breaker_do record_failure s2) = Ok x s'" by simp
      from Suc.IH [OF Suc.prems(1) this] obtain n where "cs_store s' = (g ^^ Suc n) (cs_store s2)" by auto
      with c have "cs_store s' = (g ^^ Suc n) (cs_store s) \<or> cs_store s' = (g ^^ Suc (Suc n)) (cs_store s)"
        by (auto simp: funpow_swap1)
      then show ?thesis by blast
    next
      case Trap then show ?thesis using redis_cmd_store [OF Suc.prems(1), where h = h and g = g and s = s1] by simp
    qed
  next
    case (Err u s1)
    then have "cs_store s1 = cs_store s" using pool_get_store [OF Suc.prems(1), of s0] s0 by simp
    moreover from ex Err have "exec_loop e ?op (a + 1) k Pool_Error (breaker_do record_failure s1) = Ok x s'" by simp
    ultimately show ?thesis using Suc.IH [OF Suc.prems(1)] by fastforce
  next
    case Trap then show ?thesis using pool_get_store [OF Suc.prems(1), of s0] by simp
  qed
qed simp

lemma exec_repeats:
  "quiet e \<Longrightarrow> exec e (redis_cmd e (\<lambda>r. (h r, g r))) s = Ok x s' \<Longrightarrow> \<exists>n. cs_store s' = (g ^^ Suc n) (cs_store s)"
  unfolding exec_def by (drule exec_loop_repeats [of e h g 0 "Suc (cache_retry_attempts (ce_cfg e))" No_Attempts s x s']) (auto split: if_splits)

definition without_key :: "string \<Rightarrow> redis_view \<Rightarrow> redis_view" where
  "without_key k v = with_ttl k None (with_string k None (with_zset k [] v))"

lemma without_key_sel [simp]:
  "strings (without_key k v) = (strings v)(k := None)" "zsets (without_key k v) = (zsets v)(k := [])"
  "ttls (without_key k v) = (ttls v)(k := None)"
  by (simp_all add: without_key_def with_ttl_def with_string_def with_zset_def)

lemma without_key_twice: "without_key k (without_key k v) = without_key k v"
  by (rule redis_view.equality) simp_all

lemma del_Ok:
  assumes "quiet e" "redis_laws (ce_redis e)" "del e key s = Ok u s'"
  shows "r_view (ce_redis e) (cs_store s') = without_key key (r_view (ce_redis e) (cs_store s))"
proof -
  let ?R = "ce_redis e"
  obtain n where n: "cs_store s' = (r_del ?R key ^^ Suc n) (cs_store s)"
    using exec_repeats [OF assms(1) assms(3) [unfolded del_def]] by blast
  have "r_view ?R ((r_del ?R key ^^ Suc n) r) = without_key key (r_view ?R r)" for r
    by (induction n) (simp_all add: redis_lawsD(8) [OF assms(2)] without_key_def [symmetric] without_key_twice)
  with n show ?thesis by simp
qed

lemma del_all_Ok:
  assumes "quiet e" "redis_laws (ce_redis e)"
  shows "for_each ks (del e) s = Ok u s' \<Longrightarrow>
    r_view (ce_redis e) (cs_store s') = fold without_key ks (r_view (ce_redis e) (cs_store s))"
proof (induction ks arbitrary: s)
  case (Cons k ks)
  then obtain s1 where "del e k s = Ok () s1" "for_each ks (del e) s1 = Ok u s'" by (auto simp: run_simps)
  with Cons.IH del_Ok [OF assms] show ?case by simp
qed (simp add: run_simps)

lemma fold_without:
  "strings (fold without_key ks v) k = (if k \<in> set ks then None else strings v k)"
  "zsets (fold without_key ks v) k = (if k \<in> set ks then [] else zsets v k)"
  "ttls (fold without_key ks v) k = (if k \<in> set ks then None else ttls v k)"
  by (induction ks arbitrary: v) auto

text \<open>What the bookkeeping script may change: its counter and its sorted set, which it can only shrink.\<close>

definition tag_kept :: "string \<Rightarrow> string \<Rightarrow> redis_view \<Rightarrow> redis_view \<Rightarrow> bool" where
  "tag_kept zk sk v w \<longleftrightarrow> (\<forall>k. k \<noteq> sk \<longrightarrow> strings w k = strings v k) \<and> (\<forall>k. k \<noteq> zk \<longrightarrow> zsets w k = zsets v k) \<and>
     set (zsets w zk) \<subseteq> set (zsets v zk) \<and> ttls w sk = ttls v sk \<and> strings w sk \<noteq> None"

lemma zpopmin_view:
  assumes "redis_laws R"
  shows "strings (r_view R ((r_zpopmin R zk ^^ m) r)) = strings (r_view R r) \<and>
    (\<forall>k. k \<noteq> zk \<longrightarrow> zsets (r_view R ((r_zpopmin R zk ^^ m) r)) k = zsets (r_view R r) k \<and>
       ttls (r_view R ((r_zpopmin R zk ^^ m) r)) k = ttls (r_view R r) k) \<and>
    set (zsets (r_view R ((r_zpopmin R zk ^^ m) r)) zk) \<subseteq> set (zsets (r_view R r) zk)"
proof (induction m)
  case (Suc m)
  have "set (tl xs) \<subseteq> set xs" for xs :: zset by (cases xs) auto
  with Suc show ?case by (auto simp: redis_lawsD(5) [OF assms] with_zset_def)
qed simp

lemma tag_script_kept:
  assumes "redis_laws R" "zk \<noteq> sk"
  shows "tag_kept zk sk (r_view R r) (r_view R (snd (tag_script R zk sk ttl cap [] r)))"
proof -
  define r1 where "r1 = r_incr R sk r"
  define r3 where "r3 = (if ttl > 0 then r_expire R zk ttl r1 else r1)"
  have 3: "tag_kept zk sk (r_view R r) (r_view R r3)"
    using assms(2) by (auto simp: tag_kept_def r3_def r1_def redis_lawsD(7,9) [OF assms(1)])
  have "snd (tag_script R zk sk ttl cap [] r) = r3 \<or>
     (\<exists>m. snd (tag_script R zk sk ttl cap [] r) = (r_zpopmin R zk ^^ m) r3)"
    by (auto simp: tag_script_def Let_def r1_def r3_def)
  then show ?thesis
  proof
    assume "\<exists>m. snd (tag_script R zk sk ttl cap [] r) = (r_zpopmin R zk ^^ m) r3"
    then obtain m where "snd (tag_script R zk sk ttl cap [] r) = (r_zpopmin R zk ^^ m) r3" by blast
    with 3 zpopmin_view [OF assms(1), where zk = zk and m = m and r = r3] assms(2) show ?thesis by (auto simp: tag_kept_def)
  qed (use 3 in simp)
qed

lemma tag_kept_trans: "tag_kept zk sk u v \<Longrightarrow> tag_kept zk sk v w \<Longrightarrow> tag_kept zk sk u w"
  by (auto simp: tag_kept_def)

lemma tag_keys_differ: "tag_key cfg h \<noteq> counter_key cfg h"
  by (simp add: tag_key_def counter_key_def)

lemma tag_store_Ok:
  assumes "quiet e" "redis_laws (ce_redis e)" "tag_store_invalidate e tag s = Ok u s'"
  shows "tag_kept (tag_key (ce_tags e) (ce_tag_hash e (cache_keys tag))) (counter_key (ce_tags e) (ce_tag_hash e (cache_keys tag)))
    (r_view (ce_redis e) (cs_store s)) (r_view (ce_redis e) (cs_store s'))"
proof -
  let ?R = "ce_redis e" and ?zk = "tag_key (ce_tags e) (ce_tag_hash e (cache_keys tag))"
  let ?sk = "counter_key (ce_tags e) (ce_tag_hash e (cache_keys tag))"
  let ?f = "tag_script ?R ?zk ?sk (tag_ttl (ce_tags e)) ((keys_per_tag_cap (ce_tags e) + 2 ^ 63) mod 2 ^ 64 - 2 ^ 63) []"
  have "cache_keys tag \<noteq> []" by (cases tag) simp
  then obtain x where "exec e (redis_cmd e (\<lambda>r. (fst (?f r), snd (?f r)))) s = Ok x s'"
    using assms(3) by (auto simp: tag_store_invalidate_def Let_def run_simps)
  from exec_repeats [OF assms(1) this] obtain n where n: "cs_store s' = ((\<lambda>r. snd (?f r)) ^^ Suc n) (cs_store s)" by blast
  have "tag_kept ?zk ?sk (r_view ?R r) (r_view ?R (((\<lambda>r. snd (?f r)) ^^ Suc n) r))" for r
    using tag_script_kept [OF assms(2) tag_keys_differ]
    by (induction n) (auto intro: tag_kept_trans)
  with n show ?thesis by simp
qed

lemma invalidate_Ok:
  assumes "quiet e" "redis_laws (ce_redis e)" "invalidate_tag e tag s = Ok n s'"
  obtains w where "tag_kept (tag_key (ce_tags e) (ce_tag_hash e (cache_keys tag))) (counter_key (ce_tags e) (ce_tag_hash e (cache_keys tag)))
    (r_view (ce_redis e) (cs_store s)) w" "r_view (ce_redis e) (cs_store s') = fold without_key (cache_keys tag) w"
    "n = length (cache_keys tag)"
proof -
  obtain s1 where 1: "tag_store_invalidate e tag s = Ok () s1" and 2: "for_each (cache_keys tag) (del e) s1 = Ok () s'"
    and n: "n = length (cache_keys tag)"
    using assms(3) by (auto simp: invalidate_tag_def run_simps)
  show thesis
    by (rule that [OF tag_store_Ok [OF assms(1,2) 1] del_all_Ok [OF assms(1,2) 2] n])
qed

text \<open>
  C14. A successful invalidation removes all six keys of the tag, whatever was lost or repeated on the way, and
  touches no other entry of the cache; only the two keys of the tag's own bookkeeping may change besides.
\<close>

theorem invalidation_exact:
  assumes "quiet e" "redis_laws (ce_redis e)" "invalidate_tag e tag s = Ok n s'"
  shows "n = 6 \<and> (\<forall>k\<in>set (cache_keys tag). \<not> present (r_view (ce_redis e) (cs_store s')) k) \<and>
    (\<forall>k. k \<notin> set (cache_keys tag) \<union> {tag_key (ce_tags e) (ce_tag_hash e (cache_keys tag)), counter_key (ce_tags e) (ce_tag_hash e (cache_keys tag))} \<longrightarrow>
       strings (r_view (ce_redis e) (cs_store s')) k = strings (r_view (ce_redis e) (cs_store s)) k \<and>
       zsets (r_view (ce_redis e) (cs_store s')) k = zsets (r_view (ce_redis e) (cs_store s)) k)"
proof (rule invalidate_Ok [OF assms])
  fix w
  assume w: "tag_kept (tag_key (ce_tags e) (ce_tag_hash e (cache_keys tag))) (counter_key (ce_tags e) (ce_tag_hash e (cache_keys tag)))
      (r_view (ce_redis e) (cs_store s)) w" "r_view (ce_redis e) (cs_store s') = fold without_key (cache_keys tag) w"
    and n: "n = length (cache_keys tag)"
  have "n = 6" using n by (cases tag) simp
  with w show ?thesis by (auto simp: fold_without present_def tag_kept_def)
qed

text \<open>
  The bookkeeping itself records nothing: the keys are not passed to the script, so that the sorted set of
  a tag never gains a member, while each invalidation leaves a counter without an expiry behind.
\<close>

theorem tag_store_tracks_nothing:
  assumes "quiet e" "redis_laws (ce_redis e)" "invalidate_tag e tag s = Ok n s'"
    "zk = tag_key (ce_tags e) (ce_tag_hash e (cache_keys tag))" "sk = counter_key (ce_tags e) (ce_tag_hash e (cache_keys tag))"
    "sk \<notin> set (cache_keys tag)" "ttls (r_view (ce_redis e) (cs_store s)) sk = None"
  shows "set (zsets (r_view (ce_redis e) (cs_store s')) zk) \<subseteq> set (zsets (r_view (ce_redis e) (cs_store s)) zk)"
    "strings (r_view (ce_redis e) (cs_store s')) sk \<noteq> None" "ttls (r_view (ce_redis e) (cs_store s')) sk = None"
proof -
  obtain w where w: "tag_kept zk sk (r_view (ce_redis e) (cs_store s)) w"
    "r_view (ce_redis e) (cs_store s') = fold without_key (cache_keys tag) w"
    using assms(4,5) by (metis invalidate_Ok [OF assms(1-3)])
  then show "set (zsets (r_view (ce_redis e) (cs_store s')) zk) \<subseteq> set (zsets (r_view (ce_redis e) (cs_store s)) zk)"
    "strings (r_view (ce_redis e) (cs_store s')) sk \<noteq> None" "ttls (r_view (ce_redis e) (cs_store s')) sk = None"
    using assms(6,7) by (auto simp: fold_without tag_kept_def)
qed

section \<open>Runs in which nothing fails\<close>

definition steady :: "('r, 'v, 'f) cache_env \<Rightarrow> bool" where
  "steady e \<longleftrightarrow> (\<forall>n. ce_fate e n = Done \<and> ce_tick e n = 0 \<and> (\<forall>r. ce_others e n r = r))"

definition used :: "'r cache_state \<Rightarrow> 'r \<Rightarrow> 'r cache_state" where
  "used s r = s\<lparr>cs_store := r, cs_calls := cs_calls s + 2, cs_breaker := record_success (cs_breaker s)\<rparr>"

lemma used_sel [simp]:
  "cs_store (used s r) = r" "cs_now (used s r) = cs_now s" "opened_at_ms (cs_breaker (used s r)) = 0"
  by (simp_all add: used_def record_success_def)

lemma allow_closed: "opened_at_ms cb = 0 \<Longrightarrow> allow_call now cb"
  by (simp add: allow_call_def circuit_state_def)

lemma cache_call_steady:
  "steady e \<Longrightarrow> cache_call e err f s = Ok (fst (f (cs_store s))) (s\<lparr>cs_store := snd (f (cs_store s)), cs_calls := cs_calls s + 1\<rparr>)"
  by (simp add: cache_call_def steady_def Let_def split: prod.splits)

lemma exec_steady:
  assumes "steady e" "opened_at_ms (cs_breaker s) = 0"
  shows "exec e (redis_cmd e f) s = Ok (fst (f (cs_store s))) (used s (snd (f (cs_store s))))"
  using assms by (simp add: exec_def allow_closed exec_loop.simps(2) pool_get_def redis_cmd_def cache_call_steady
      breaker_do_def used_def numeral_2_eq_2)

lemma get_json_steady:
  assumes "steady e" "opened_at_ms (cs_breaker s) = 0"
    "case raw_text (get_string (ce_redis e) key (cs_store s)) of Some raw \<Rightarrow> dec raw \<noteq> None | None \<Rightarrow> True"
  shows "get_json e dec key s = Ok (Option.bind (raw_text (get_string (ce_redis e) key (cs_store s))) dec) (used s (cs_store s))"
  using assms by (auto simp: get_json_def exec_def allow_closed exec_loop.simps(2) pool_get_def redis_cmd_def cache_call_steady
      bnd_def ret_def breaker_do_def used_def numeral_2_eq_2 split: option.splits)

lemma steady_quiet: "steady e \<Longrightarrow> quiet e"
  by (simp add: steady_def quiet_def)

definition absent :: "redis_view \<Rightarrow> string \<Rightarrow> bool" where
  "absent v k \<longleftrightarrow> \<not> present v k"

lemma miss_steady:
  assumes "steady e" "opened_at_ms (cs_breaker s) = 0" "absent (r_view (ce_redis e) (cs_store s)) key"
  shows "lookup e key s = Ok None (used (used s (cs_store s)) (cs_store s))"
proof -
  have "raw_text (get_string (ce_redis e) key (cs_store s)) = None"
    using assms(3) by (simp add: absent_def present_def get_string_def raw_text_def)
  with assms show ?thesis
    by (simp add: lookup_def bnd_def attempt_op_def get_json_steady ret_def)
qed

lemma acquire_steady:
  assumes "steady e" "opened_at_ms (cs_breaker s) = 0" "absent (r_view (ce_redis e) (cs_store s)) (lock_key key)"
  shows "acquire_lock e key s = Ok True (used s (r_set (ce_redis e) (lock_key key) (Text ''1'') 10 (cs_store s)))"
  using assms by (simp add: acquire_lock_def bnd_def attempt_op_def exec_steady set_nx_ex_def absent_def ret_def)

lemma lock_key_differs [simp]: "lock_key key \<noteq> key" "key \<noteq> lock_key key"
proof -
  have "length (lock_key key) \<noteq> length key" by (simp add: lock_key_def)
  then show "lock_key key \<noteq> key" "key \<noteq> lock_key key" by metis+
qed

text \<open>
  On a healthy server a miss stores what the fetcher gave, and the next request is answered from the cache
  with the same value, without asking the fetcher.
\<close>

theorem fetch_then_hit:
  assumes e: "steady e" "redis_laws (ce_redis e)" "\<And>en. dec_entry e (enc_entry e en) = Some en" "\<And>n en t. \<not> ce_early e n en t"
    and s: "opened_at_ms (cs_breaker s) = 0" "absent (r_view (ce_redis e) (cs_store s)) key"
      "absent (r_view (ce_redis e) (cs_store s)) (lock_key key)" "0 < ttl"
  shows "\<exists>s1. get_or_set_json e key ttl (Ok v) s = Ok (v, False) s1 \<and>
    (\<exists>s2. get_or_set_json e key ttl fetcher s1 = Ok (v, True) s2)"
proof -
  let ?R = "ce_redis e"
  define t1 where "t1 = used (used (used s (cs_store s)) (cs_store s)) (r_set ?R (lock_key key) (Text ''1'') 10 (cs_store s))"
  define entry where "entry = \<lparr> entry_value = v, entry_expires_at = timestamp_s t1 + int ttl, entry_delta = ce_measure e (cs_calls t1) \<rparr>"
  define r2 where "r2 = r_set ?R key (Text (enc_entry e entry)) (ttl + 30) (cs_store t1)"
  define t2 where "t2 = used (used t1 r2) (r_del ?R (lock_key key) r2)"
  have first: "get_or_set_json e key ttl (Ok v) s = Ok (v, False) t2"
    using e(1) s by (simp add: get_or_set_json_def allow_closed bnd_def miss_steady acquire_steady recompute_def reads_def
        attempt_op_def set_entry_def set_ex_def exec_steady del_def ret_def t1_def [symmetric] entry_def [symmetric] r2_def [symmetric] t2_def)
      (simp add: t1_def r2_def exec_steady [OF e(1)] bnd_def attempt_op_def ret_def)
  have raw: "raw_text (get_string ?R key (cs_store t2)) = Some (enc_entry e entry)"
    by (simp add: t2_def r2_def get_string_def raw_text_def redis_lawsD(6,8) [OF e(2)])
  have open0: "opened_at_ms (cs_breaker t2) = 0" by (simp add: t2_def)
  have now: "timestamp_s (used t2 (cs_store t2)) = timestamp_s t1" by (simp add: timestamp_s_def t2_def)
  have "get_or_set_json e key ttl fetcher t2 = Ok (v, True) (used t2 (cs_store t2))"
    using e raw s(4) now
    by (simp add: get_or_set_json_def allow_closed [OF open0] bnd_def lookup_def attempt_op_def get_json_steady [OF e(1) open0]
        xfetch_should_refresh_def entry_def ret_def)
  with first show ?thesis by blast
qed

text \<open>
  A fetcher that fails leaves the lock behind: nobody else may recompute the value until the lock expires
  ten seconds later.
\<close>

theorem failed_fetch_keeps_lock:
  assumes e: "steady e" "redis_laws (ce_redis e)"
    and s: "opened_at_ms (cs_breaker s) = 0" "absent (r_view (ce_redis e) (cs_store s)) key"
      "absent (r_view (ce_redis e) (cs_store s)) (lock_key key)"
  shows "\<exists>s1. get_or_set_json e key ttl (Err Fetch_Error) s = Err Fetch_Error s1 \<and>
    strings (r_view (ce_redis e) (cs_store s1)) (lock_key key) = Some (Text ''1'') \<and>
    ttls (r_view (ce_redis e) (cs_store s1)) (lock_key key) = Some 10000"
  using e s by (simp add: get_or_set_json_def allow_closed bnd_def miss_steady acquire_steady recompute_def redis_lawsD(6) [OF e(2)])

definition live_cache_env :: "(table, unit, unit) cache_env" where
  "live_cache_env = dead_cache_env\<lparr>ce_fate := (\<lambda>_. Done)\<rparr>"

lemma live_steady: "steady live_cache_env" "redis_laws (ce_redis live_cache_env)"
  by (simp_all add: steady_def live_cache_env_def dead_cache_env_def table_redis_laws)

lemma fresh_closed: "opened_at_ms (cs_breaker fresh_cache) = 0"
  by (simp add: fresh_cache_def CircuitBreaker_new_def)

lemma fresh_absent: "absent (r_view (ce_redis live_cache_env) (cs_store fresh_cache)) k"
  by (simp add: live_cache_env_def dead_cache_env_def fresh_cache_def absent_def present_def)

theorem fetch_then_hit_witness:
  "\<exists>s1. get_or_set_json live_cache_env ''stats'' 60 (Ok ()) fresh_cache = Ok ((), False) s1 \<and>
    (\<exists>s2. get_or_set_json live_cache_env ''stats'' 60 (Err Fetch_Error) s1 = Ok ((), True) s2)"
  by (rule fetch_then_hit [OF live_steady _ _ fresh_closed fresh_absent fresh_absent])
    (simp_all add: live_cache_env_def dead_cache_env_def of_unary)

theorem failed_fetch_keeps_lock_witness:
  "\<exists>s1. get_or_set_json live_cache_env ''stats'' 60 (Err Fetch_Error) fresh_cache = Err Fetch_Error s1 \<and>
    strings (r_view (ce_redis live_cache_env) (cs_store s1)) (lock_key ''stats'') = Some (Text ''1'') \<and>
    ttls (r_view (ce_redis live_cache_env) (cs_store s1)) (lock_key ''stats'') = Some 10000"
  by (rule failed_fetch_keeps_lock [OF live_steady fresh_closed fresh_absent fresh_absent])

lemma steady_deletes:
  assumes "steady e" "opened_at_ms (cs_breaker s) = 0"
  shows "\<exists>s'. for_each ks (del e) s = Ok () s'"
  using assms(2)
proof (induction ks arbitrary: s)
  case (Cons k ks)
  with assms(1) show ?case by (simp add: thn_def bnd_def del_def exec_steady)
qed (simp add: ret_def)

lemma steady_invalidation:
  assumes "steady e" "opened_at_ms (cs_breaker s) = 0"
  shows "\<exists>s'. invalidate_tag e (MarketResolved m net cap) s = Ok 6 s'"
proof -
  have "\<exists>s1. tag_store_invalidate e (MarketResolved m net cap) s = Ok () s1 \<and> opened_at_ms (cs_breaker s1) = 0"
    using assms by (simp add: tag_store_invalidate_def Let_def bnd_def exec_steady ret_def)
  then obtain s1 where 1: "tag_store_invalidate e (MarketResolved m net cap) s = Ok () s1" and "opened_at_ms (cs_breaker s1) = 0" by blast
  from steady_deletes [OF assms(1) this(2)] obtain s' where "for_each (cache_keys (MarketResolved m net cap)) (del e) s1 = Ok () s'" by blast
  with 1 show ?thesis by (simp add: invalidate_tag_def thn_def bnd_def ret_def)
qed

theorem invalidation_exact_witness:
  "\<exists>s'. invalidate_tag live_cache_env (MarketResolved 7 ''testnet'' 10) fresh_cache = Ok 6 s' \<and>
     \<not> present (r_view (ce_redis live_cache_env) (cs_store s')) (chain_market 7)"
proof -
  obtain s' where 1: "invalidate_tag live_cache_env (MarketResolved 7 ''testnet'' 10) fresh_cache = Ok 6 s'"
    using steady_invalidation [OF live_steady(1) fresh_closed] by blast
  from invalidation_exact [OF steady_quiet [OF live_steady(1)] live_steady(2) 1] 1 show ?thesis by auto
qed

theorem tag_store_tracks_nothing_witness:
  "\<exists>s'. invalidate_tag live_cache_env (MarketResolved 7 ''testnet'' 10) fresh_cache = Ok 6 s' \<and>
     ttls (r_view (ce_redis live_cache_env) (cs_store s'))
       (counter_key (ce_tags live_cache_env) (ce_tag_hash live_cache_env (cache_keys (MarketResolved 7 ''testnet'' 10)))) = None"
proof -
  let ?sk = "counter_key (ce_tags live_cache_env) (ce_tag_hash live_cache_env (cache_keys (MarketResolved 7 ''testnet'' 10)))"
  obtain s' where 1: "invalidate_tag live_cache_env (MarketResolved 7 ''testnet'' 10) fresh_cache = Ok 6 s'"
    using steady_invalidation [OF live_steady(1) fresh_closed] by blast
  have "length ?sk > length k" if "k \<in> set (cache_keys (MarketResolved 7 ''testnet'' 10))" for k
    using that by (auto simp: live_cache_env_def dead_cache_env_def counter_key_def)
  then have n: "?sk \<notin> set (cache_keys (MarketResolved 7 ''testnet'' 10))" by blast
  have t: "ttls (r_view (ce_redis live_cache_env) (cs_store fresh_cache)) ?sk = None"
    by (simp add: live_cache_env_def dead_cache_env_def fresh_cache_def)
  from tag_store_tracks_nothing(3) [OF steady_quiet [OF live_steady(1)] live_steady(2) 1 refl refl n t] 1 show ?thesis by blast
qed

end
