(* ===== verification/Rpc_Client.thy ===== *)
theory Rpc_Client
  imports Cache Http
begin

text \<open>
  The client of the chain (\<^verbatim>\<open>blockchain.rs\<close>): the remote calls with their retries, and the reads of markets, statistics, bets,
  oracle results, transactions and of the health of the node, each through the cache.  The node is a parameter, a function of the
  number of the call and of its payload; so are the random part of a delay, the text of a JSON value, the constant \<^verbatim>\<open>WATCHED_TX_TTL\<close>, which is not in the
  sources, the time until the next tick of the heartbeat's interval, and the fuel for the loops that only the servers can end.
  Metrics and log messages are left out.
\<close>

section \<open>Values\<close>

datatype DataSource = Live | StaleFallback

record ChainMarketData =
  cm_market_id :: int
  cm_title :: "string option"
  cm_status :: "string option"
  cm_onchain_volume :: string
  cm_resolved_outcome :: "int option"
  cm_ledger :: int
  cm_source :: DataSource

record PlatformStatistics =
  ps_total_markets :: int
  ps_active_markets :: int
  ps_resolved_markets :: int
  ps_total_volume :: string
  ps_ledger :: int
  ps_source :: DataSource

record UserBet =
  ub_market_id :: int
  ub_outcome :: int
  ub_amount :: string
  ub_token :: "string option"
  ub_ledger :: int

record UserBetsPage =
  up_user :: string
  up_page :: int
  up_page_size :: int
  up_total :: int
  up_items :: "UserBet list"
  up_source :: DataSource

record OracleResult =
  or_market_id :: int
  or_source_name :: "string option"
  or_outcome :: "int option"
  or_confidence_bps :: "int option"
  or_ledger :: int
  or_source :: DataSource

record TransactionStatus =
  tx_hash :: string
  tx_status :: string
  tx_ledger :: "int option"
  tx_error :: "string option"
  tx_source :: DataSource

datatype HealthStatus = Healthy | Degraded | Unhealthy

record BlockchainHealth =
  bh_network :: string
  bh_rpc_url :: string
  bh_latest_ledger :: int
  bh_is_healthy :: bool
  bh_contract_reachable :: bool
  bh_checked_at_unix :: int
  bh_status :: HealthStatus

record ContractEvent =
  ce_id :: string
  ce_ledger :: int
  ce_topic :: string
  ce_tx_hash :: "string option"
  ce_value :: json

record ReplayProgress =
  rp_from_ledger :: int
  rp_events_replayed :: nat
  rp_completed :: bool

text \<open>What the cache holds under the keys of the chain.\<close>

datatype chain_value =
  C_Market ChainMarketData | C_Stats PlatformStatistics | C_Bets UserBetsPage | C_Oracle OracleResult | C_Tx TransactionStatus
| C_Health BlockchainHealth | C_Event ContractEvent | C_Ledger int | C_Replay ReplayProgress

section \<open>The client\<close>

record BlockchainClient =
  bc_rpc_url :: string
  bc_network :: string
  bc_contract_id :: string
  bc_key_schema :: ContractKeySchema
  bc_retry_attempts :: int
  bc_retry_base_delay_ms :: int
  bc_rpc_backoff_jitter_factor :: float64
  bc_event_poll_interval :: int
  bc_tx_poll_interval :: int
  bc_confirmation_ledger_lag :: int
  bc_sync_market_ids :: "int list"
  bc_expected_passphrase :: string
  bc_watched_tx_ttl :: int
  bc_watched_tx_max_size :: int
  bc_is_production :: bool

definition WATCHED_TX_MAX_SIZE :: int where "WATCHED_TX_MAX_SIZE = 10000"

definition BlockchainClient_new :: "'net Config \<Rightarrow> BlockchainClient" where
  "BlockchainClient_new config = (let c = chain config in
     \<lparr> bc_rpc_url = blockchain_rpc_url c, bc_network = network_name (blockchain_network c), bc_contract_id = contract_id c,
       bc_key_schema = contract_key_schema c, bc_retry_attempts = max (retry_attempts c) 1,
       bc_retry_base_delay_ms = max (retry_base_delay_ms c) 50, bc_rpc_backoff_jitter_factor = rpc_backoff_jitter_factor c,
       bc_event_poll_interval = event_poll_interval c, bc_tx_poll_interval = tx_poll_interval c,
       bc_confirmation_ledger_lag = max (confirmation_ledger_lag c) 1, bc_sync_market_ids = sync_market_ids c,
       bc_expected_passphrase = network_passphrase c, bc_watched_tx_ttl = watched_tx_ttl_secs c,
       bc_watched_tx_max_size = watched_tx_max_size c, bc_is_production = is_production (server config) \<rparr>)"

text \<open>What the node answers: nothing, or a status with a body that may be a JSON-RPC envelope.\<close>

record RpcError =
  re_code :: int
  re_message :: string

record RpcEnvelope =
  rpc_result :: "json option"
  rpc_error :: "RpcError option"

datatype rpc_reply = No_Reply | Reply int "RpcEnvelope option"

record ('r, 'f, 'net) chain_env =
  be_cache :: "('r, chain_value, 'f) cache_env"
  be_client :: BlockchainClient
  be_lib :: "'net text_lib"
  be_post :: "nat \<Rightarrow> json \<Rightarrow> rpc_reply"
  be_jitter_range :: "float64 \<Rightarrow> int \<Rightarrow> int"
  be_random :: "nat \<Rightarrow> int \<Rightarrow> int"
  be_json_text :: "json \<Rightarrow> string"
  be_watched_tx_ttl :: int
  be_tick_wait :: "int \<Rightarrow> int"
  be_fuel :: nat

section \<open>Remote calls\<close>

definition is_non_retryable_rpc_error :: "int \<Rightarrow> bool" where
  "is_non_retryable_rpc_error code \<longleftrightarrow> code \<in> {-32700, -32600, -32601, -32602}"

datatype rpc_failure = Transport_Failed | Client_Status int | Http_Status int | Parse_Error | Fatal_Rpc int | Rpc_Failed int | Empty_Result

text \<open>A reply settles the call, with a failure or a result, or leaves it to the next attempt.\<close>

datatype 'a judgement = Stop rpc_failure | Return 'a | Again rpc_failure

definition judge :: "(json \<Rightarrow> 'a option) \<Rightarrow> rpc_reply \<Rightarrow> 'a judgement" where
  "judge decode reply = (case reply of
     No_Reply \<Rightarrow> Again Transport_Failed
   | Reply status body \<Rightarrow>
       if 400 \<le> status \<and> status < 500 \<and> status \<noteq> 429 then Stop (Client_Status status)
       else if \<not> is_success_status status then Again (Http_Status status)
       else case body of
         None \<Rightarrow> Stop Parse_Error
       | Some envelope \<Rightarrow> (case map_option decode (rpc_result envelope) of
           Some None \<Rightarrow> Stop Parse_Error
         | parsed \<Rightarrow> (case rpc_error envelope of
             Some err \<Rightarrow> if is_non_retryable_rpc_error (re_code err) then Stop (Fatal_Rpc (re_code err)) else Again (Rpc_Failed (re_code err))
           | None \<Rightarrow> (case parsed of Some (Some result) \<Rightarrow> Return result | _ \<Rightarrow> Again Empty_Result))))"

definition rpc_payload :: "string \<Rightarrow> nat \<Rightarrow> json \<Rightarrow> json" where
  "rpc_payload rpc_method attempt args = JObj [(''jsonrpc'', JStr ''2.0''), (''id'', JStr (rpc_method @ ''-'' @ show_int 10 (int attempt))),
     (''method'', JStr rpc_method), (''params'', args)]"

definition jitter_on :: "float64 \<Rightarrow> bool" where
  "jitter_on factor = (case factor of Finite q \<Rightarrow> 0 < q | Infinite neg \<Rightarrow> \<not> neg | NaN \<Rightarrow> False)"

text \<open>The delay before the next attempt; the product and the sum are those of 64-bit integers.\<close>

definition backoff_ms :: "('r, 'f, 'net) chain_env \<Rightarrow> nat \<Rightarrow> nat \<Rightarrow> int" where
  "backoff_ms e n attempt = (let c = be_client e; factor = bc_rpc_backoff_jitter_factor c;
       cap_ms = min ((bc_retry_base_delay_ms c * 2 ^ min (attempt - 1) 10) mod 2 ^ 64) 60000
     in if jitter_on factor then
          (let jitter_range = be_jitter_range e factor cap_ms; deterministic = max 0 (cap_ms - jitter_range)
           in (deterministic + be_random e n jitter_range) mod 2 ^ 64)
        else cap_ms)"

definition posted :: "('r, 'f, 'net) chain_env \<Rightarrow> 'r cache_state \<Rightarrow> 'r cache_state" where
  "posted e s = s\<lparr>cs_calls := cs_calls s + 1, cs_now := cs_now s + ce_tick (be_cache e) (cs_calls s)\<rparr>"

text \<open>The attempts: \<open>left\<close> is how many remain after this one.\<close>

fun rpc_loop ::
  "('r, 'f, 'net) chain_env \<Rightarrow> (json \<Rightarrow> 'a option) \<Rightarrow> string \<Rightarrow> json \<Rightarrow> nat \<Rightarrow> nat \<Rightarrow> 'r cache_state \<Rightarrow> (rpc_failure + 'a) \<times> 'r cache_state" where
  "rpc_loop e decode rpc_method args attempt left s = (let s1 = posted e s in
     case judge decode (be_post e (cs_calls s) (rpc_payload rpc_method attempt args)) of
       Return result \<Rightarrow> (Inr result, s1)
     | Stop failure \<Rightarrow> (Inl failure, s1)
     | Again failure \<Rightarrow> (case left of
         0 \<Rightarrow> (Inl failure, s1)
       | Suc k \<Rightarrow> rpc_loop e decode rpc_method args (attempt + 1) k (sleep_ms (backoff_ms e (cs_calls s1) attempt) s1)))"

declare rpc_loop.simps [simp del]

definition rpc_call :: "('r, 'f, 'net) chain_env \<Rightarrow> (json \<Rightarrow> 'a option) \<Rightarrow> string \<Rightarrow> json \<Rightarrow> 'r cache_state \<Rightarrow> (rpc_failure + 'a) \<times> 'r cache_state" where
  "rpc_call e decode rpc_method args = rpc_loop e decode rpc_method args 1 (nat (bc_retry_attempts (be_client e)) - 1)"

text \<open>A call whose error is passed on, and one whose error is replaced.\<close>

definition rpc :: "('r, 'f, 'net) chain_env \<Rightarrow> (json \<Rightarrow> 'a option) \<Rightarrow> string \<Rightarrow> json \<Rightarrow> ('r, 'a) cache_op" where
  "rpc e decode rpc_method args s = (case rpc_call e decode rpc_method args s of (Inr x, t) \<Rightarrow> Ok x t | (Inl _, t) \<Rightarrow> Err Fetch_Error t)"

definition or_else :: "('r, 'a) cache_op \<Rightarrow> 'a \<Rightarrow> ('r, 'a) cache_op" where
  "or_else op x = bnd (attempt_op op) (\<lambda>r. ret (unwrap_or r x))"

section \<open>Reading JSON\<close>

definition jget :: "string \<Rightarrow> json \<Rightarrow> json option" where
  "jget name v = (case v of JObj fs \<Rightarrow> map_of fs name | _ \<Rightarrow> None)"

definition as_str :: "json \<Rightarrow> string option" where
  "as_str v = (case v of JStr s \<Rightarrow> Some s | _ \<Rightarrow> None)"

definition as_u64 :: "json \<Rightarrow> int option" where
  "as_u64 v = (case v of JNum n \<Rightarrow> if 0 \<le> n \<and> n < 2 ^ 64 then Some n else None | _ \<Rightarrow> None)"

definition as_i64 :: "json \<Rightarrow> int option" where
  "as_i64 v = (case v of JNum n \<Rightarrow> if in_i64 n then Some n else None | _ \<Rightarrow> None)"

definition as_u32 :: "json \<Rightarrow> int option" where
  "as_u32 v = (case v of JNum n \<Rightarrow> if 0 \<le> n \<and> n < 2 ^ 32 then Some n else None | _ \<Rightarrow> None)"

definition as_array :: "json \<Rightarrow> json list option" where
  "as_array v = (case v of JArr xs \<Rightarrow> Some xs | _ \<Rightarrow> None)"

definition get_str :: "string \<Rightarrow> json \<Rightarrow> string option" where
  "get_str name v = Option.bind (jget name v) as_str"

definition get_u64 :: "string \<Rightarrow> json \<Rightarrow> int option" where
  "get_u64 name v = Option.bind (jget name v) as_u64"

definition get_i64 :: "string \<Rightarrow> json \<Rightarrow> int option" where
  "get_i64 name v = Option.bind (jget name v) as_i64"

text \<open>\<^verbatim>\<open>v as u32\<close>\<close>

definition to_u32 :: "int \<Rightarrow> int" where
  "to_u32 n = n mod 2 ^ 32"

text \<open>An optional field of a structure: absent and null are none, another type is an error.\<close>

definition opt_field :: "(json \<Rightarrow> 'a option) \<Rightarrow> string \<Rightarrow> json \<Rightarrow> 'a option option" where
  "opt_field conv name v = (case jget name v of None \<Rightarrow> Some None | Some JNull \<Rightarrow> Some None | Some x \<Rightarrow> map_option Some (conv x))"

section \<open>The ledger, and values of one type in the cache\<close>

definition latest_sequence :: "json \<Rightarrow> int option" where
  "latest_sequence v = Option.bind (jget ''latestLedger'' v) (\<lambda>l. Option.bind (jget ''sequence'' l) as_u32)"

definition latest_ledger :: "('r, 'f, 'net) chain_env \<Rightarrow> ('r, int) cache_op" where
  "latest_ledger e = rpc e latest_sequence ''getLatestLedger'' (JObj [])"

definition map_entry :: "('a \<Rightarrow> 'b) \<Rightarrow> ('a, 'f) CachedEntry \<Rightarrow> ('b, 'f) CachedEntry" where
  "map_entry f en = \<lparr> entry_value = f (entry_value en), entry_expires_at = entry_expires_at en, entry_delta = entry_delta en \<rparr>"

text \<open>The cache, read and written at one of the types; a value of another type does not decode.\<close>

definition typed :: "('a \<Rightarrow> 'v) \<Rightarrow> ('v \<Rightarrow> 'a option) \<Rightarrow> ('r, 'v, 'f) cache_env \<Rightarrow> ('r, 'a, 'f) cache_env" where
  "typed wrap unwrap e =
     \<lparr> ce_redis = ce_redis e, ce_fate = ce_fate e, ce_others = ce_others e, ce_tick = ce_tick e, ce_cfg = ce_cfg e, ce_tags = ce_tags e,
       ce_tag_hash = ce_tag_hash e, ce_early = (\<lambda>n en. ce_early e n (map_entry wrap en)), ce_measure = ce_measure e,
       enc_value = (\<lambda>v. enc_value e (wrap v)), dec_value = (\<lambda>t. Option.bind (dec_value e t) unwrap),
       enc_entry = (\<lambda>en. enc_entry e (map_entry wrap en)),
       dec_entry = (\<lambda>t. Option.bind (dec_entry e t) (\<lambda>en. map_option (\<lambda>v. map_entry (\<lambda>_. v) en) (unwrap (entry_value en)))),
       ce_scan = ce_scan e \<rparr>"

definition market_cache :: "('r, 'f, 'net) chain_env \<Rightarrow> ('r, ChainMarketData, 'f) cache_env" where
  "market_cache e = typed C_Market (\<lambda>v. case v of C_Market x \<Rightarrow> Some x | _ \<Rightarrow> None) (be_cache e)"

definition stats_cache :: "('r, 'f, 'net) chain_env \<Rightarrow> ('r, PlatformStatistics, 'f) cache_env" where
  "stats_cache e = typed C_Stats (\<lambda>v. case v of C_Stats x \<Rightarrow> Some x | _ \<Rightarrow> None) (be_cache e)"

definition bets_cache :: "('r, 'f, 'net) chain_env \<Rightarrow> ('r, UserBetsPage, 'f) cache_env" where
  "bets_cache e = typed C_Bets (\<lambda>v. case v of C_Bets x \<Rightarrow> Some x | _ \<Rightarrow> None) (be_cache e)"

definition oracle_cache :: "('r, 'f, 'net) chain_env \<Rightarrow> ('r, OracleResult, 'f) cache_env" where
  "oracle_cache e = typed C_Oracle (\<lambda>v. case v of C_Oracle x \<Rightarrow> Some x | _ \<Rightarrow> None) (be_cache e)"

definition tx_cache :: "('r, 'f, 'net) chain_env \<Rightarrow> ('r, TransactionStatus, 'f) cache_env" where
  "tx_cache e = typed C_Tx (\<lambda>v. case v of C_Tx x \<Rightarrow> Some x | _ \<Rightarrow> None) (be_cache e)"

definition health_cache :: "('r, 'f, 'net) chain_env \<Rightarrow> ('r, BlockchainHealth, 'f) cache_env" where
  "health_cache e = typed C_Health (\<lambda>v. case v of C_Health x \<Rightarrow> Some x | _ \<Rightarrow> None) (be_cache e)"

section \<open>Reads through the cache\<close>

definition contract_data :: "('r, 'f, 'net) chain_env \<Rightarrow> string \<Rightarrow> (string \<times> json) list \<Rightarrow> ('r, json) cache_op" where
  "contract_data e key paging = rpc e Some ''getContractData''
     (JObj ([(''contractId'', JStr (bc_contract_id (be_client e))), (''key'', JStr key)] @ paging))"

definition fetch_market :: "('r, 'f, 'net) chain_env \<Rightarrow> int \<Rightarrow> ('r, ChainMarketData) cache_op" where
  "fetch_market e market_id = bnd (or_else (latest_ledger e) 0) (\<lambda>ledger.
     bnd (contract_data e (market_key (bc_key_schema (be_client e)) market_id) []) (\<lambda>data. ret
       \<lparr> cm_market_id = market_id, cm_title = get_str ''title'' data, cm_status = get_str ''status'' data,
         cm_onchain_volume = unwrap_or (get_str ''onchain_volume'' data) ''0'',
         cm_resolved_outcome = map_option to_u32 (get_u64 ''resolved_outcome'' data), cm_ledger = ledger, cm_source = Live \<rparr>))"

definition market_data_cached :: "('r, 'f, 'net) chain_env \<Rightarrow> int \<Rightarrow> ('r, ChainMarketData) cache_op" where
  "market_data_cached e market_id =
     bnd (get_or_set_json (market_cache e) (chain_market market_id) 60 (fetch_market e market_id)) (\<lambda>(value, hit). ret value)"

definition fetch_statistics :: "('r, 'f, 'net) chain_env \<Rightarrow> ('r, PlatformStatistics) cache_op" where
  "fetch_statistics e = bnd (or_else (latest_ledger e) 0) (\<lambda>ledger.
     bnd (contract_data e (k_platform_stats (bc_key_schema (be_client e))) []) (\<lambda>data. ret
       \<lparr> ps_total_markets = unwrap_or (get_u64 ''total_markets'' data) 0, ps_active_markets = unwrap_or (get_u64 ''active_markets'' data) 0,
         ps_resolved_markets = unwrap_or (get_u64 ''resolved_markets'' data) 0,
         ps_total_volume = unwrap_or (get_str ''total_volume'' data) ''0'', ps_ledger = ledger, ps_source = Live \<rparr>))"

definition platform_statistics_cached :: "('r, 'f, 'net) chain_env \<Rightarrow> ('r, PlatformStatistics) cache_op" where
  "platform_statistics_cached e =
     bnd (get_or_set_json (stats_cache e) (chain_platform_stats (bc_network (be_client e))) 120 (fetch_statistics e)) (\<lambda>(value, hit). ret value)"

definition user_bet :: "int \<Rightarrow> json \<Rightarrow> UserBet" where
  "user_bet ledger entry =
     \<lparr> ub_market_id = unwrap_or (get_i64 ''market_id'' entry) 0, ub_outcome = to_u32 (unwrap_or (get_u64 ''outcome'' entry) 0),
       ub_amount = unwrap_or (get_str ''amount'' entry) ''0'', ub_token = get_str ''token'' entry, ub_ledger = ledger \<rparr>"

definition fetch_bets :: "('r, 'f, 'net) chain_env \<Rightarrow> string \<Rightarrow> int \<Rightarrow> int \<Rightarrow> int \<Rightarrow> ('r, UserBetsPage) cache_op" where
  "fetch_bets e user page page_size offset = bnd (or_else (latest_ledger e) 0) (\<lambda>ledger.
     bnd (contract_data e (user_bets_key (bc_key_schema (be_client e)) user) [(''limit'', JNum page_size), (''offset'', JNum offset)]) (\<lambda>data.
     let bets = unwrap_or (Option.bind (jget ''bets'' data) as_array) [];
         total = unwrap_or (get_i64 ''total'' data) (int (length bets))
     in ret \<lparr> up_user = user, up_page = page, up_page_size = page_size, up_total = total, up_items = map (user_bet ledger) bets,
               up_source = Live \<rparr>))"

text \<open>The offset is the wrapping product.\<close>

definition wrapped_i64 :: "int \<Rightarrow> int" where
  "wrapped_i64 n = (n + 2 ^ 63) mod 2 ^ 64 - 2 ^ 63"

definition user_bets_page :: "('r, 'f, 'net) chain_env \<Rightarrow> string \<Rightarrow> int \<Rightarrow> int \<Rightarrow> ('r, UserBetsPage) cache_op" where
  "user_bets_page e user page page_size = (let page = max page 0; page_size = min (max page_size 1) 100; offset = wrapped_i64 (page * page_size) in
     bnd (get_or_set_json (bets_cache e) (chain_user_bets_page (be_lib e) (bc_network (be_client e)) user page page_size) 30
       (fetch_bets e user page page_size offset)) (\<lambda>(value, hit). ret value))"

definition fetch_oracle :: "('r, 'f, 'net) chain_env \<Rightarrow> int \<Rightarrow> ('r, OracleResult) cache_op" where
  "fetch_oracle e market_id = bnd (or_else (latest_ledger e) 0) (\<lambda>ledger.
     bnd (contract_data e (oracle_result_key (bc_key_schema (be_client e)) market_id) []) (\<lambda>data. ret
       \<lparr> or_market_id = market_id, or_source_name = get_str ''source'' data, or_outcome = map_option to_u32 (get_u64 ''outcome'' data),
         or_confidence_bps = get_u64 ''confidence_bps'' data, or_ledger = ledger, or_source = Live \<rparr>))"

definition oracle_result_cached :: "('r, 'f, 'net) chain_env \<Rightarrow> int \<Rightarrow> ('r, OracleResult) cache_op" where
  "oracle_result_cached e market_id =
     bnd (get_or_set_json (oracle_cache e) (chain_oracle_result (bc_network (be_client e)) market_id) 30 (fetch_oracle e market_id)) (\<lambda>(value, hit). ret value)"

definition tx_response :: "string \<Rightarrow> json \<Rightarrow> TransactionStatus option" where
  "tx_response hash v = (case (get_str ''status'' v, opt_field as_u32 ''ledger'' v, opt_field as_str ''errorResultXdr'' v) of
     (Some status, Some ledger, Some err) \<Rightarrow>
       Some \<lparr> tx_hash = hash, tx_status = status, tx_ledger = ledger, tx_error = err, tx_source = Live \<rparr>
   | _ \<Rightarrow> None)"

definition transaction_status_cached :: "('r, 'f, 'net) chain_env \<Rightarrow> string \<Rightarrow> ('r, TransactionStatus) cache_op" where
  "transaction_status_cached e hash =
     bnd (get_or_set_json (tx_cache e) (chain_tx_status (be_lib e) (bc_network (be_client e)) hash) 20
       (rpc e (tx_response hash) ''getTransaction'' (JObj [(''hash'', JStr hash)]))) (\<lambda>(value, hit). ret value)"

definition health_of :: "BlockchainClient \<Rightarrow> int \<Rightarrow> bool \<Rightarrow> int \<Rightarrow> BlockchainHealth" where
  "health_of c latest contract_reachable now =
     (let status = (if latest > 0 \<and> contract_reachable then Healthy else if latest > 0 then Degraded else Unhealthy)
      in \<lparr> bh_network = bc_network c, bh_rpc_url = bc_rpc_url c, bh_latest_ledger = latest, bh_is_healthy = (status = Healthy),
           bh_contract_reachable = contract_reachable, bh_checked_at_unix = now, bh_status = status \<rparr>)"

definition fetch_health :: "('r, 'f, 'net) chain_env \<Rightarrow> ('r, BlockchainHealth) cache_op" where
  "fetch_health e = bnd (or_else (latest_ledger e) 0) (\<lambda>latest.
     bnd (attempt_op (contract_data e (k_health_check (bc_key_schema (be_client e))) [])) (\<lambda>data.
     bnd (reads timestamp_s) (\<lambda>now. ret (health_of (be_client e) latest (data \<noteq> None) now))))"

definition health_check_cached :: "('r, 'f, 'net) chain_env \<Rightarrow> ('r, BlockchainHealth) cache_op" where
  "health_check_cached e =
     bnd (get_or_set_json (health_cache e) (chain_health (bc_network (be_client e))) 15 (fetch_health e)) (\<lambda>(value, hit). ret value)"

section \<open>Start-up checks\<close>

datatype startup = Continue | Exit

definition network_passphrase_of :: "json \<Rightarrow> string option" where
  "network_passphrase_of v = get_str ''passphrase'' v"

definition validate_network_passphrase :: "('r, 'f, 'net) chain_env \<Rightarrow> 'r cache_state \<Rightarrow> startup \<times> 'r cache_state" where
  "validate_network_passphrase e s = (let c = be_client e; refuse = (if bc_is_production c then Exit else Continue) in
     if bc_expected_passphrase c = [] then (Continue, s)
     else case rpc_call e network_passphrase_of ''getNetwork'' (JObj []) s of
       (Inl _, t) \<Rightarrow> (refuse, t)
     | (Inr passphrase, t) \<Rightarrow> (if passphrase \<noteq> bc_expected_passphrase c then refuse else Continue, t))"

definition probe_stellar_ready :: "('r, 'f, 'net) chain_env \<Rightarrow> 'r cache_state \<Rightarrow> bool \<times> 'r cache_state" where
  "probe_stellar_ready e s = (if bc_expected_passphrase (be_client e) = [] then (True, s)
     else case rpc_call e network_passphrase_of ''getNetwork'' (JObj []) s of
       (Inl _, t) \<Rightarrow> (False, t) | (Inr passphrase, t) \<Rightarrow> (passphrase = bc_expected_passphrase (be_client e), t))"

text \<open>Any answer at all counts; the limit of five seconds is part of the node's not answering.\<close>

definition probe_rpc_reachability :: "('r, 'f, 'net) chain_env \<Rightarrow> 'r cache_state \<Rightarrow> bool \<times> 'r cache_state" where
  "probe_rpc_reachability e s = (be_post e (cs_calls s) (JObj [(''jsonrpc'', JStr ''2.0''), (''id'', JStr ''startup-probe''),
     (''method'', JStr ''getHealth''), (''params'', JObj [])]) \<noteq> No_Reply, posted e s)"

section \<open>A call is settled by its first decisive reply\<close>

definition undecided :: "'a judgement \<Rightarrow> bool" where
  "undecided j \<longleftrightarrow> (case j of Again _ \<Rightarrow> True | _ \<Rightarrow> False)"

definition reply_at :: "('r, 'f, 'net) chain_env \<Rightarrow> string \<Rightarrow> json \<Rightarrow> nat \<Rightarrow> nat \<Rightarrow> nat \<Rightarrow> rpc_reply" where
  "reply_at e rpc_method args n attempt i = be_post e (n + i) (rpc_payload rpc_method (attempt + i) args)"

text \<open>The call made \<open>m\<close> attempts: it gave the verdict of the last one, and the ones before left it open.\<close>

definition settled :: "(nat \<Rightarrow> 'a judgement) \<Rightarrow> nat \<Rightarrow> nat \<Rightarrow> rpc_failure + 'a \<Rightarrow> bool" where
  "settled verdict most m res \<longleftrightarrow> 1 \<le> m \<and> m \<le> most \<and> (\<forall>j<m - 1. undecided (verdict j)) \<and>
     (case verdict (m - 1) of Return x \<Rightarrow> res = Inr x | Stop f \<Rightarrow> res = Inl f | Again f \<Rightarrow> res = Inl f \<and> m = most)"

lemma posted_sel [simp]:
  "cs_calls (posted e s) = cs_calls s + 1" "cs_store (posted e s) = cs_store s" "cs_breaker (posted e s) = cs_breaker s"
  by (simp_all add: posted_def)

lemma sleep_sel [simp]: "cs_calls (sleep_ms d s) = cs_calls s" "cs_breaker (sleep_ms d s) = cs_breaker s"
  by (simp_all add: sleep_ms_def)

lemma settled_first: "\<not> undecided (verdict 0) \<Longrightarrow> (case verdict 0 of Return x \<Rightarrow> res = Inr x | Stop f \<Rightarrow> res = Inl f | Again f \<Rightarrow> False) \<Longrightarrow>
    settled verdict (Suc k) 1 res"
  by (auto simp: settled_def undecided_def split: judgement.splits)

lemma settled_next:
  assumes "undecided (verdict 0)" "settled (\<lambda>j. verdict (Suc j)) most m res"
  shows "settled verdict (Suc most) (Suc m) res"
proof -
  have m: "1 \<le> m" "m \<le> most" "\<forall>j<m - 1. undecided (verdict (Suc j))" using assms(2) by (auto simp: settled_def)
  have "undecided (verdict j)" if "j < m" for j
    using that m(1,3) assms(1) by (cases j) auto
  with assms(2) m show ?thesis by (auto simp: settled_def split: judgement.splits)
qed

lemma rpc_loop_settled:
  "\<exists>m res t. rpc_loop e decode rpc_method args attempt left s = (res, t) \<and> cs_calls t = cs_calls s + m \<and> cs_store t = cs_store s \<and>
    cs_breaker t = cs_breaker s \<and> settled (\<lambda>i. judge decode (reply_at e rpc_method args (cs_calls s) attempt i)) (Suc left) m res"
proof (induction left arbitrary: attempt s)
  case 0
  show ?case
    by (simp add: rpc_loop.simps [of e decode rpc_method args attempt 0] Let_def settled_def reply_at_def split: judgement.split)
next
  case (Suc k)
  let ?verdict = "\<lambda>i. judge decode (reply_at e rpc_method args (cs_calls s) attempt i)"
  have here: "judge decode (be_post e (cs_calls s) (rpc_payload rpc_method attempt args)) = ?verdict 0" by (simp add: reply_at_def)
  show ?case
  proof (cases "?verdict 0")
    case (Again f)
    let ?s1 = "sleep_ms (backoff_ms e (cs_calls (posted e s)) attempt) (posted e s)"
    have run: "rpc_loop e decode rpc_method args attempt (Suc k) s = rpc_loop e decode rpc_method args (attempt + 1) k ?s1"
      by (simp add: rpc_loop.simps [of e decode rpc_method args attempt "Suc k"] here Again)
    obtain m res t where t: "rpc_loop e decode rpc_method args (attempt + 1) k ?s1 = (res, t)" "cs_calls t = cs_calls ?s1 + m"
        "cs_store t = cs_store ?s1" "cs_breaker t = cs_breaker ?s1"
        "settled (\<lambda>i. judge decode (reply_at e rpc_method args (cs_calls ?s1) (attempt + 1) i)) (Suc k) m res"
      using Suc.IH by blast
    have "(\<lambda>i. judge decode (reply_at e rpc_method args (cs_calls ?s1) (attempt + 1) i)) = (\<lambda>j. ?verdict (Suc j))"
      by (simp add: reply_at_def)
    with t(5) have "settled (\<lambda>j. ?verdict (Suc j)) (Suc k) m res" by simp
    then have "settled ?verdict (Suc (Suc k)) (Suc m) res" using Again by (intro settled_next) (simp_all add: undecided_def)
    with run t show ?thesis by (intro exI [of _ "Suc m"] exI [of _ res] exI [of _ t]) simp
  next
    case (Return x)
    then show ?thesis
      by (intro exI [of _ 1] exI [of _ "Inr x"] exI [of _ "posted e s"])
        (simp add: rpc_loop.simps [of e decode rpc_method args attempt "Suc k"] here settled_def)
  next
    case (Stop f)
    then show ?thesis
      by (intro exI [of _ 1] exI [of _ "Inl f"] exI [of _ "posted e s"])
        (simp add: rpc_loop.simps [of e decode rpc_method args attempt "Suc k"] here settled_def)
  qed
qed

text \<open>
  C20. A remote call always returns, after at most the configured number of attempts.  The replies before the last one it used left the
  call open; the last one decides it: its result is returned, an error that is not to be retried ends it, and any other
  error ends it only with the last attempt.  The cache is not touched.
\<close>

theorem rpc_call_exact:
  "\<exists>m res t. rpc_call e decode rpc_method args s = (res, t) \<and> cs_calls t = cs_calls s + m \<and> cs_store t = cs_store s \<and>
    cs_breaker t = cs_breaker s \<and>
    settled (\<lambda>i. judge decode (be_post e (cs_calls s + i) (rpc_payload rpc_method (1 + i) args))) (max 1 (nat (bc_retry_attempts (be_client e)))) m res"
proof -
  have "Suc (nat (bc_retry_attempts (be_client e)) - 1) = max 1 (nat (bc_retry_attempts (be_client e)))" by simp
  with rpc_loop_settled [of e decode rpc_method args 1 "nat (bc_retry_attempts (be_client e)) - 1" s]
  show ?thesis by (simp add: rpc_call_def reply_at_def)
qed

lemma rpc_total: "\<exists>v s'. attempt_op (rpc e decode rpc_method args) s = Ok v s'"
  by (rule attempt_total) (simp add: rpc_def split: prod.split sum.split)

lemma rpc_no_trap: "rpc e decode rpc_method args s \<noteq> Trap"
  by (simp add: rpc_def split: prod.split sum.split)

lemma or_else_total: "(\<And>s. op s \<noteq> Trap) \<Longrightarrow> \<exists>v s'. or_else op x s = Ok v s'"
  using attempt_total [of op s] by (auto simp: or_else_def bnd_def ret_def)

lemma delay_bounds:
  "0 \<le> j \<Longrightarrow> j \<le> c \<Longrightarrow> 0 \<le> r \<Longrightarrow> r \<le> j \<Longrightarrow> c \<le> 60000 \<Longrightarrow> 0 \<le> max 0 (c - j) + r"
  "0 \<le> j \<Longrightarrow> j \<le> c \<Longrightarrow> 0 \<le> r \<Longrightarrow> r \<le> j \<Longrightarrow> c \<le> 60000 \<Longrightarrow> max 0 (c - j) + r \<le> (60000 :: int)"
  by linarith+

text \<open>A delay is at most a minute, whatever the number of attempts and the base, if the random part is within its range.\<close>

theorem backoff_bounded:
  assumes "\<And>f c. 0 \<le> c \<Longrightarrow> 0 \<le> be_jitter_range e f c \<and> be_jitter_range e f c \<le> c" "\<And>n r. 0 \<le> be_random e n r \<and> be_random e n r \<le> r"
  shows "0 \<le> backoff_ms e n attempt" "backoff_ms e n attempt \<le> 60000"
proof -
  let ?c = "min ((bc_retry_base_delay_ms (be_client e) * 2 ^ min (attempt - 1) 10) mod 2 ^ 64) 60000"
  let ?j = "be_jitter_range e (bc_rpc_backoff_jitter_factor (be_client e)) ?c"
  have c: "0 \<le> ?c" "?c \<le> 60000" by simp_all
  have j: "0 \<le> ?j" "?j \<le> ?c" using assms(1) [OF c(1)] by blast+
  have r: "0 \<le> be_random e n ?j" "be_random e n ?j \<le> ?j" using assms(2) by blast+
  note sum = delay_bounds [OF j r c(2)]
  have "max 0 (?c - ?j) + be_random e n ?j < 2 ^ 64" by (rule le_less_trans [OF sum(2)]) simp
  with sum(1) have "(max 0 (?c - ?j) + be_random e n ?j) mod 2 ^ 64 = max 0 (?c - ?j) + be_random e n ?j" by (rule mod_pos_pos_trivial)
  then have "backoff_ms e n attempt = (if jitter_on (bc_rpc_backoff_jitter_factor (be_client e)) then max 0 (?c - ?j) + be_random e n ?j else ?c)"
    by (simp only: backoff_ms_def Let_def)
  then show "0 \<le> backoff_ms e n attempt" "backoff_ms e n attempt \<le> 60000" using sum c
    by (cases "jitter_on (bc_rpc_backoff_jitter_factor (be_client e))"; simp only: if_True if_False)+
qed

section \<open>Health\<close>

lemma fetch_health_run:
  "\<exists>latest reachable now s'. fetch_health e s = Ok (health_of (be_client e) latest reachable now) s'"
proof -
  obtain latest s1 where 1: "or_else (latest_ledger e) 0 s = Ok latest s1"
    using or_else_total [of "latest_ledger e"] rpc_no_trap by (metis latest_ledger_def)
  obtain d s2 where "attempt_op (contract_data e (k_health_check (bc_key_schema (be_client e))) []) s1 = Ok d s2"
    using rpc_total unfolding contract_data_def by blast
  with 1 show ?thesis by (auto simp: fetch_health_def bnd_def reads_def ret_def)
qed

text \<open>
  The health of the chain is always answered, whatever the node and the cache do.  It is healthy exactly when
  a ledger was seen and the contract could be read, and unhealthy exactly when no ledger was seen.
\<close>

theorem health_always_answered:
  "\<exists>h s'. health_check_cached e s = Ok h s'"
  "bh_is_healthy (health_of c latest reachable now) \<longleftrightarrow> 0 < latest \<and> reachable"
  "bh_status (health_of c latest reachable now) = Unhealthy \<longleftrightarrow> latest \<le> 0"
proof -
  have "\<And>s. \<exists>v s'. fetch_health e s = Ok v s'" using fetch_health_run by blast
  from get_or_set_total [where fetcher = "fetch_health e", OF this] obtain v hit s'
    where "get_or_set_json (health_cache e) (chain_health (bc_network (be_client e))) 15 (fetch_health e) s = Ok (v, hit) s'" by blast
  then show "\<exists>h s'. health_check_cached e s = Ok h s'" by (simp add: health_check_cached_def bnd_def ret_def)
  show "bh_is_healthy (health_of c latest reachable now) \<longleftrightarrow> 0 < latest \<and> reachable"
    "bh_status (health_of c latest reachable now) = Unhealthy \<longleftrightarrow> latest \<le> 0" by (simp_all add: health_of_def Let_def)
qed

text \<open>
  In production the service starts only if no passphrase is configured or the node, within the attempts, names the configured one; the
  readiness probe gives the same answer.
\<close>

theorem production_needs_passphrase:
  assumes "bc_is_production (be_client e)"
  shows "fst (validate_network_passphrase e s) = Continue \<longleftrightarrow>
    bc_expected_passphrase (be_client e) = [] \<or>
    fst (rpc_call e network_passphrase_of ''getNetwork'' (JObj []) s) = Inr (bc_expected_passphrase (be_client e))"
    "fst (probe_stellar_ready e s) \<longleftrightarrow> fst (validate_network_passphrase e s) = Continue"
  using assms by (auto simp: validate_network_passphrase_def probe_stellar_ready_def Let_def split: prod.split sum.split)

end
