(* ===== verification/Outcomes.thy ===== *)
theory Outcomes
  imports Prelude
begin

text \<open>
  Invariants of the state that hold whatever the outcome of an operation is.  The service rolls nothing back: an operation that
  fails leaves the effects it had before, so that an invariant has to hold after a failure too.
\<close>

section \<open>Every outcome of an operation\<close>

text \<open>
  A handler that fails leaves the effects it had before.  \<open>leaves I m\<close>: whatever the outcome of \<open>m\<close>, the state it
  leaves is in \<open>I\<close> if the state before was.
\<close>

definition leaves :: "('s \<Rightarrow> bool) \<Rightarrow> ('s, 'e, 'a) comp \<Rightarrow> bool" where
  "leaves I m \<longleftrightarrow> (\<forall>s. I s \<longrightarrow> (case m s of Ok _ t \<Rightarrow> I t | Err _ t \<Rightarrow> I t | Trap \<Rightarrow> True))"

named_theorems leaves_rules \<open>operations that leave an invariant in place\<close>

lemma leaves_pure [leaves_rules]: "leaves I (ret x)" "leaves I (reads f)" "leaves I (some_or_trap y)"
  by (auto simp: leaves_def ret_def reads_def some_or_trap_def split: option.splits)

lemma leaves_bnd [leaves_rules]:
  assumes "leaves I m" "\<And>x. leaves I (f x)"
  shows "leaves I (bnd m f)"
  unfolding leaves_def
proof (intro allI impI)
  fix s assume s: "I s"
  then have m: "case m s of Ok _ t \<Rightarrow> I t | Err _ t \<Rightarrow> I t | Trap \<Rightarrow> True" using assms(1) by (simp add: leaves_def)
  show "case bnd m f s of Ok _ t \<Rightarrow> I t | Err _ t \<Rightarrow> I t | Trap \<Rightarrow> True"
  proof (cases "m s")
    case (Ok x t)
    then show ?thesis using m assms(2) [of x] by (simp add: bnd_def leaves_def)
  qed (use m in \<open>simp_all add: bnd_def\<close>)
qed

lemma leaves_thn [leaves_rules]: "leaves I m \<Longrightarrow> leaves I n \<Longrightarrow> leaves I (thn m n)"
  unfolding thn_def by (rule leaves_bnd)

lemma leaves_if [leaves_rules]: "leaves I m \<Longrightarrow> leaves I n \<Longrightarrow> leaves I (if b then m else n)"
  by simp

lemma leaves_doif [leaves_rules]: "leaves I m \<Longrightarrow> leaves I (doif b m)"
  by (simp add: doif_def leaves_pure)

lemma leaves_option [leaves_rules]:
  "leaves I m \<Longrightarrow> (\<And>x. leaves I (f x)) \<Longrightarrow> leaves I (case y of None \<Rightarrow> m | Some x \<Rightarrow> f x)"
  by (simp split: option.split)

lemma leaves_let [leaves_rules]: "(\<And>x. leaves I (f x)) \<Longrightarrow> leaves I (let x = y in f x)"
  by (simp add: Let_def)

lemma leaves_for_each [leaves_rules]: "(\<And>x. leaves I (f x)) \<Longrightarrow> leaves I (for_each xs f)"
  by (induction xs) (simp_all add: leaves_pure leaves_thn)

lemma leaves_modify: "(\<And>s. I s \<Longrightarrow> I (f s)) \<Longrightarrow> leaves I (modify f)"
  by (simp add: leaves_def modify_def)

lemma leavesD:
  assumes "leaves I m" "I s"
  shows "m s = Ok x t \<Longrightarrow> I t" "m s = Err err t \<Longrightarrow> I t"
  using assms by (force simp: leaves_def)+

text \<open>What a handler does with the outcome of a call that it does not pass on.\<close>

lemma leaves_outcome:
  assumes "leaves I m" "\<And>x. leaves I (f x)" "leaves I g"
  shows "leaves I (\<lambda>s. case m s of Ok x t \<Rightarrow> f x t | Err _ t \<Rightarrow> g t | Trap \<Rightarrow> Trap)"
  unfolding leaves_def
proof (intro allI impI)
  fix s assume s: "I s"
  note m = leavesD [OF assms(1) s]
  show "case (case m s of Ok x t \<Rightarrow> f x t | Err _ t \<Rightarrow> g t | Trap \<Rightarrow> Trap) of Ok _ t \<Rightarrow> I t | Err _ t \<Rightarrow> I t | Trap \<Rightarrow> True"
    using m assms(2,3) by (cases "m s") (simp_all add: leaves_def)
qed

end
