(* ===== verification/Chain_Sync.thy ===== *)
theory Chain_Sync
  imports Rpc_Client Outcomes
begin

text \<open>
  Following the chain (\<^verbatim>\<open>blockchain.rs\<close>, with the table of watched transactions in \<^verbatim>\<open>db.rs\<close>): fetching events page by page,
  the detection of reorganisations, one round of the synchronisation and its loop, replays, and the watched transactions.  The
  statements that run in tasks of their own are collected in the state.  A loop that does not end within the fuel is \<open>Trap\<close>.
\<close>

section \<open>State\<close>

datatype WatchTxError = AlreadyWatched | CapReached

datatype db_task = Upsert_Watched string int | Mark_Resolved string string

record 'r chain_state =
  ch_cache :: "'r cache_state"
  ch_watched :: "(string \<times> int) list"
  ch_tasks :: "db_task list"

type_synonym ('r, 'a) chain_op = "('r chain_state, cache_error, 'a) comp"

definition on_cache :: "('r, 'a) cache_op \<Rightarrow> ('r, 'a) chain_op" where
  "on_cache op s = (case op (ch_cache s) of
     Ok x c \<Rightarrow> Ok x (s\<lparr>ch_cache := c\<rparr>) | Err err c \<Rightarrow> Err err (s\<lparr>ch_cache := c\<rparr>) | Trap \<Rightarrow> Trap)"

definition within_fuel :: "('s \<Rightarrow> ('s, 'e, 'a) res option) \<Rightarrow> ('s, 'e, 'a) comp" where
  "within_fuel f s = (case f s of Some r \<Rightarrow> r | None \<Rightarrow> Trap)"

definition ledger_cache :: "('r, 'f, 'net) chain_env \<Rightarrow> ('r, int, 'f) cache_env" where
  "ledger_cache e = typed C_Ledger (\<lambda>v. case v of C_Ledger x \<Rightarrow> Some x | _ \<Rightarrow> None) (be_cache e)"

definition event_cache :: "('r, 'f, 'net) chain_env \<Rightarrow> ('r, ContractEvent, 'f) cache_env" where
  "event_cache e = typed C_Event (\<lambda>v. case v of C_Event x \<Rightarrow> Some x | _ \<Rightarrow> None) (be_cache e)"

definition replay_cache :: "('r, 'f, 'net) chain_env \<Rightarrow> ('r, ReplayProgress, 'f) cache_env" where
  "replay_cache e = typed C_Replay (\<lambda>v. case v of C_Replay x \<Rightarrow> Some x | _ \<Rightarrow> None) (be_cache e)"

definition get_ledger :: "('r, 'f, 'net) chain_env \<Rightarrow> string \<Rightarrow> ('r, int option) cache_op" where
  "get_ledger e key = get_json (ledger_cache e) (dec_value (ledger_cache e)) key"

definition set_ledger :: "('r, 'f, 'net) chain_env \<Rightarrow> string \<Rightarrow> int \<Rightarrow> nat \<Rightarrow> ('r, unit) cache_op" where
  "set_ledger e key n ttl = set_json (ledger_cache e) key n ttl"

section \<open>Events\<close>

definition events_params :: "('r, 'f, 'net) chain_env \<Rightarrow> int \<Rightarrow> string option \<Rightarrow> json" where
  "events_params e from_ledger cursor = JObj ([(''startLedger'', JNum from_ledger),
     (''filters'', JArr [JObj [(''type'', JStr ''contract''), (''contractIds'', JArr [JStr (bc_contract_id (be_client e))])]]),
     (''limit'', JNum 100)] @ (case cursor of Some c \<Rightarrow> [(''cursor'', JStr c)] | None \<Rightarrow> []))"

definition events_response :: "json \<Rightarrow> json list option" where
  "events_response v = (case (Option.bind (jget ''events'' v) as_array, opt_field as_u32 ''latestLedger'' v) of
     (Some events, Some _) \<Rightarrow> Some events | _ \<Rightarrow> None)"

definition to_event :: "('r, 'f, 'net) chain_env \<Rightarrow> json \<Rightarrow> ContractEvent" where
  "to_event e v =
     \<lparr> ce_id = unwrap_or (get_str ''id'' v) ''unknown'', ce_ledger = to_u32 (unwrap_or (get_u64 ''ledger'' v) 0),
       ce_topic = (case jget ''topic'' v of Some t \<Rightarrow> be_json_text e t | None \<Rightarrow> ''unknown''), ce_tx_hash = get_str ''txHash'' v, ce_value = v \<rparr>"

definition last_id :: "json list \<Rightarrow> string option" where
  "last_id events = (if events = [] then None else get_str ''id'' (last events))"

fun fetch_pages ::
  "nat \<Rightarrow> ('r, 'f, 'net) chain_env \<Rightarrow> int \<Rightarrow> string option \<Rightarrow> ContractEvent list \<Rightarrow> 'r cache_state \<Rightarrow>
   ('r cache_state, cache_error, ContractEvent list) res option" where
  "fetch_pages 0 e from_ledger cursor all_events s = None"
| "fetch_pages (Suc fuel) e from_ledger cursor all_events s =
     (case rpc e events_response ''getEvents'' (events_params e from_ledger cursor) s of
        Ok events t \<Rightarrow> (let all_events = all_events @ map (to_event e) events in
          if length events < 100 then Some (Ok all_events t)
          else (case last_id events of
            None \<Rightarrow> Some (Ok all_events t)
          | Some c \<Rightarrow> fetch_pages fuel e from_ledger (Some c) all_events t))
      | Err err t \<Rightarrow> Some (Err err t)
      | Trap \<Rightarrow> Some Trap)"

definition fetch_events_since :: "('r, 'f, 'net) chain_env \<Rightarrow> int \<Rightarrow> ('r, ContractEvent list) cache_op" where
  "fetch_events_since e from_ledger = within_fuel (fetch_pages (be_fuel e) e from_ledger None [])"

definition event_key :: "string \<Rightarrow> string" where
  "event_key i = CHAIN_PREFIX @ '':event:'' @ i"

definition store_chain_event :: "('r, 'f, 'net) chain_env \<Rightarrow> ContractEvent \<Rightarrow> ('r, unit) cache_op" where
  "store_chain_event e ev = set_json (event_cache e) (event_key (ce_id ev)) ev 1800"

section \<open>Reorganisations\<close>

definition purge_chain :: "('r, 'f, 'net) chain_env \<Rightarrow> ('r, nat) cache_op" where
  "purge_chain e = within_fuel (del_by_pattern (be_fuel e) (be_cache e) (CHAIN_PREFIX @ '':*''))"

definition handle_reorg_if_detected :: "('r, 'f, 'net) chain_env \<Rightarrow> int \<Rightarrow> ('r, unit) cache_op" where
  "handle_reorg_if_detected e latest = (let key = chain_last_seen_ledger (bc_network (be_client e)) in
     bnd (get_ledger e key) (\<lambda>seen. let previous = unwrap_or seen 0 in
     thn (if previous > 0 \<and> to_u32 (latest + bc_confirmation_ledger_lag (be_client e)) < previous
          then bnd (purge_chain e) (\<lambda>_. ret ()) else ret ())
     (set_ledger e key latest 86400)))"

section \<open>Watched transactions\<close>

definition evict :: "('r, 'f, 'net) chain_env \<Rightarrow> int \<Rightarrow> (string \<times> int) list \<Rightarrow> (string \<times> int) list" where
  "evict e now watched = filter (\<lambda>(h, t). max 0 (now - t) < 1000 * bc_watched_tx_ttl (be_client e)) watched"

definition watch_transaction :: "('r, 'f, 'net) chain_env \<Rightarrow> string \<Rightarrow> 'r chain_state \<Rightarrow> (WatchTxError + unit) \<times> 'r chain_state" where
  "watch_transaction e hash s = (let now = cs_now (ch_cache s); watched = evict e now (ch_watched s) in
     if hash \<in> set (map fst watched) then (Inl AlreadyWatched, s\<lparr>ch_watched := watched\<rparr>)
     else if int (length watched) \<ge> bc_watched_tx_max_size (be_client e) then (Inl CapReached, s\<lparr>ch_watched := watched\<rparr>)
     else (Inr (), s\<lparr>ch_watched := watched @ [(hash, now)],
            ch_tasks := ch_tasks s @ [Upsert_Watched hash (now + 1000 * be_watched_tx_ttl e)]\<rparr>))"

record WatchedRow =
  wt_hash :: string
  wt_expires_at :: int
  wt_status :: string

definition watched_tx_upsert :: "string \<Rightarrow> int \<Rightarrow> WatchedRow list \<Rightarrow> WatchedRow list" where
  "watched_tx_upsert hash expires_at rows =
     (if list_ex (\<lambda>r. wt_hash r = hash) rows
      then map (\<lambda>r. if wt_hash r = hash then r\<lparr>wt_expires_at := expires_at,
             wt_status := (if wt_status r = ''pending'' then ''pending'' else wt_status r)\<rparr> else r) rows
      else rows @ [\<lparr> wt_hash = hash, wt_expires_at = expires_at, wt_status = ''pending'' \<rparr>])"

definition watched_tx_load_pending :: "int \<Rightarrow> WatchedRow list \<Rightarrow> string list" where
  "watched_tx_load_pending now rows = map wt_hash (filter (\<lambda>r. wt_status r = ''pending'' \<and> wt_expires_at r > now) rows)"

definition watched_tx_mark_resolved :: "string \<Rightarrow> string \<Rightarrow> WatchedRow list \<Rightarrow> WatchedRow list" where
  "watched_tx_mark_resolved hash status rows = map (\<lambda>r. if wt_hash r = hash then r\<lparr>wt_status := status\<rparr> else r) rows"

text \<open>A task on the table; one that fails leaves it alone.\<close>

fun run_task :: "db_task \<Rightarrow> WatchedRow list \<Rightarrow> WatchedRow list" where
  "run_task (Upsert_Watched hash expires_at) rows = watched_tx_upsert hash expires_at rows"
| "run_task (Mark_Resolved hash status) rows = watched_tx_mark_resolved hash status rows"

definition load_watched_transactions :: "int \<Rightarrow> string list \<Rightarrow> 'r chain_state \<Rightarrow> 'r chain_state" where
  "load_watched_transactions now pending s = s\<lparr>ch_watched :=
     fold (\<lambda>hash watched. if hash \<in> set (map fst watched) then watched else watched @ [(hash, now)]) pending (ch_watched s)\<rparr>"

definition settle_watched :: "string \<Rightarrow> TransactionStatus \<Rightarrow> 'r chain_state \<Rightarrow> 'r chain_state" where
  "settle_watched hash status s =
     (if tx_status status \<noteq> ''NOT_FOUND'' \<and> tx_status status \<noteq> ''PENDING''
      then s\<lparr>ch_watched := filter (\<lambda>w. fst w \<noteq> hash) (ch_watched s),
             ch_tasks := ch_tasks s @ [Mark_Resolved hash (if tx_status status = ''SUCCESS'' then ''confirmed'' else ''expired'')]\<rparr>
      else s)"

definition monitor_hash :: "('r, 'f, 'net) chain_env \<Rightarrow> string \<Rightarrow> ('r, unit) chain_op" where
  "monitor_hash e hash = bnd (on_cache (attempt_op (transaction_status_cached e hash))) (\<lambda>status.
     modify (case status of Some st \<Rightarrow> settle_watched hash st | None \<Rightarrow> id))"

text \<open>
  Each round of a worker begins with the tick of its heartbeat: \<^verbatim>\<open>select!\<close> takes its \<^verbatim>\<open>else\<close> branch only when every
  other branch is disabled, so it waits for the tick.
\<close>

definition await_tick :: "('r, 'f, 'net) chain_env \<Rightarrow> ('r, unit) chain_op" where
  "await_tick e = modify (\<lambda>s. s\<lparr>ch_cache := sleep_ms (be_tick_wait e (cs_now (ch_cache s))) (ch_cache s)\<rparr>)"

text \<open>One round of the monitor, over the hashes watched when it starts, and the pause after it.\<close>

definition monitor_turn :: "('r, 'f, 'net) chain_env \<Rightarrow> ('r, unit) chain_op" where
  "monitor_turn e = bnd (reads (\<lambda>s. map fst (ch_watched s))) (\<lambda>hashes.
     thn (for_each hashes (monitor_hash e)) (modify (\<lambda>s. s\<lparr>ch_cache := sleep_ms (1000 * bc_tx_poll_interval (be_client e)) (ch_cache s)\<rparr>)))"

text \<open>The monitor, for the given number of rounds.\<close>

primrec run_transaction_monitor :: "nat \<Rightarrow> ('r, 'f, 'net) chain_env \<Rightarrow> ('r, unit) chain_op" where
  "run_transaction_monitor 0 e = ret ()"
| "run_transaction_monitor (Suc n) e = thn (await_tick e) (thn (monitor_turn e) (run_transaction_monitor n e))"

section \<open>Synchronisation\<close>

definition keep_event :: "('r, 'f, 'net) chain_env \<Rightarrow> ContractEvent \<Rightarrow> ('r, unit) chain_op" where
  "keep_event e ev = thn (on_cache (store_chain_event e ev))
     (modify (\<lambda>s. case ce_tx_hash ev of Some hash \<Rightarrow> snd (watch_transaction e hash s) | None \<Rightarrow> s))"

definition ignore :: "('r, 'a) cache_op \<Rightarrow> ('r, unit) chain_op" where
  "ignore op = bnd (on_cache (attempt_op op)) (\<lambda>_. ret ())"

definition refresh :: "('r, 'f, 'net) chain_env \<Rightarrow> ('r, unit) chain_op" where
  "refresh e = thn (for_each (bc_sync_market_ids (be_client e)) (\<lambda>market_id.
       thn (ignore (market_data_cached e market_id)) (ignore (oracle_result_cached e market_id))))
     (ignore (platform_statistics_cached e))"

definition sync_once :: "('r, 'f, 'net) chain_env \<Rightarrow> int \<Rightarrow> ('r, int) chain_op" where
  "sync_once e cursor_ledger = bnd (on_cache (or_else (latest_ledger e) cursor_ledger)) (\<lambda>latest.
     thn (on_cache (handle_reorg_if_detected e latest))
     (let confirmed_tip = max 0 (latest - bc_confirmation_ledger_lag (be_client e)) in
      if confirmed_tip \<le> cursor_ledger then ret cursor_ledger
      else bnd (on_cache (fetch_events_since e (to_u32 (cursor_ledger + 1)))) (\<lambda>events.
        thn (for_each events (keep_event e)) (thn (refresh e) (ret confirmed_tip)))))"

definition checkpoint_key :: "string \<Rightarrow> string" where
  "checkpoint_key network = CHAIN_PREFIX @ '':ledger_checkpoint:'' @ network"

text \<open>The cursor with which the loop starts: the checkpoint is looked at only if there is a cursor.\<close>

definition start_cursor :: "('r, 'f, 'net) chain_env \<Rightarrow> ('r, int) cache_op" where
  "start_cursor e = (let network = bc_network (be_client e) in
     bnd (attempt_op (get_ledger e (chain_sync_cursor network))) (\<lambda>stored.
     let cursor = unwrap_or (unwrap_or stored None) 0 in
     if cursor > 0 then
       bnd (attempt_op (get_ledger e (checkpoint_key network))) (\<lambda>found. case found of
         Some (Some checkpoint) \<Rightarrow> bnd (attempt_op (latest_ledger e)) (\<lambda>current. case current of
           Some now \<Rightarrow> ret (if now > to_u32 (checkpoint + 1) then checkpoint else cursor)
         | None \<Rightarrow> ret cursor)
       | _ \<Rightarrow> ret cursor)
     else ret cursor))"

text \<open>One round of the loop and the pause after it; an error is only logged.\<close>

definition sync_turn :: "('r, 'f, 'net) chain_env \<Rightarrow> int \<Rightarrow> ('r, int) chain_op" where
  "sync_turn e cursor s = (let network = bc_network (be_client e);
       pause = (\<lambda>next_cursor. thn (modify (\<lambda>s. s\<lparr>ch_cache := sleep_ms (1000 * bc_event_poll_interval (be_client e)) (ch_cache s)\<rparr>)) (ret next_cursor))
     in case sync_once e cursor s of
       Ok next_cursor t \<Rightarrow>
         if next_cursor > cursor then thn (ignore (set_ledger e (chain_sync_cursor network) next_cursor 86400))
           (thn (ignore (set_ledger e (checkpoint_key network) next_cursor 604800)) (pause next_cursor)) t
         else pause cursor t
     | Err _ t \<Rightarrow> pause cursor t
     | Trap \<Rightarrow> Trap)"

fun sync_turns :: "nat \<Rightarrow> ('r, 'f, 'net) chain_env \<Rightarrow> int \<Rightarrow> ('r, int) chain_op" where
  "sync_turns 0 e cursor = ret cursor"
| "sync_turns (Suc n) e cursor = thn (await_tick e) (bnd (sync_turn e cursor) (sync_turns n e))"

text \<open>The loop that runs until the service stops, for the given number of rounds.\<close>

definition run_sync_loop :: "nat \<Rightarrow> ('r, 'f, 'net) chain_env \<Rightarrow> ('r, int) chain_op" where
  "run_sync_loop rounds e = bnd (on_cache (start_cursor e)) (sync_turns rounds e)"

section \<open>Replays\<close>

definition replay_events :: "('r, 'f, 'net) chain_env \<Rightarrow> int \<Rightarrow> ('r, ReplayProgress) cache_op" where
  "replay_events e from_ledger = (let key = chain_replay_progress (bc_network (be_client e)) from_ledger;
       run = bnd (latest_ledger e) (\<lambda>latest. let confirmed_tip = max 0 (latest - bc_confirmation_ledger_lag (be_client e)) in
         bnd (fetch_events_since e from_ledger) (\<lambda>events.
         thn (for_each events (\<lambda>ev. if ce_ledger ev > confirmed_tip then ret () else store_chain_event e ev))
         (let progress = \<lparr> rp_from_ledger = from_ledger, rp_events_replayed = length events, rp_completed = True \<rparr> in
          thn (set_json (replay_cache e) key progress 3600) (ret progress))))
     in bnd (get_json (replay_cache e) (dec_value (replay_cache e)) key) (\<lambda>cached. case cached of
       Some progress \<Rightarrow> if rp_completed progress then ret progress else run
     | None \<Rightarrow> run))"

section \<open>The watch list is bounded\<close>

definition watch_ok :: "('r, 'f, 'net) chain_env \<Rightarrow> 'r chain_state \<Rightarrow> bool" where
  "watch_ok e s \<longleftrightarrow> distinct (map fst (ch_watched s)) \<and> int (length (ch_watched s)) \<le> max 0 (bc_watched_tx_max_size (be_client e))"

lemma watch_ok_filter:
  assumes "watch_ok e s" "ch_watched t = filter P (ch_watched s)"
  shows "watch_ok e t"
proof -
  have "length (filter P (ch_watched s)) \<le> length (ch_watched s)" by (rule length_filter_le)
  with assms show ?thesis by (auto simp: watch_ok_def distinct_map_filter intro: order_trans [rotated])
qed

lemma watch_ok_watch:
  assumes "watch_ok e s"
  shows "watch_ok e (snd (watch_transaction e hash s))"
proof -
  let ?kept = "evict e (cs_now (ch_cache s)) (ch_watched s)"
  have "watch_ok e (s\<lparr>ch_watched := ?kept\<rparr>)" by (rule watch_ok_filter [OF assms]) (simp add: evict_def)
  then show ?thesis by (simp add: watch_transaction_def Let_def watch_ok_def)
qed

lemma leaves_on_cache [leaves_rules]: "leaves (watch_ok e) (on_cache op)"
  by (simp add: leaves_def on_cache_def watch_ok_def split: res.split)

lemma leaves_ignore [leaves_rules]: "leaves (watch_ok e) (ignore op)"
  unfolding ignore_def by (intro leaves_rules)

lemma leaves_time [leaves_rules]: "leaves (watch_ok e) (modify (\<lambda>s. s\<lparr>ch_cache := f s\<rparr>))"
  by (rule leaves_modify) (simp add: watch_ok_def)

lemma leaves_await_tick [leaves_rules]: "leaves (watch_ok e) (await_tick e')"
  unfolding await_tick_def by (rule leaves_time)

lemma leaves_keep_event [leaves_rules]: "leaves (watch_ok e) (keep_event e ev)"
  unfolding keep_event_def by (intro leaves_rules leaves_modify) (simp add: watch_ok_watch split: option.split)

lemma leaves_sync_once [leaves_rules]: "leaves (watch_ok e) (sync_once e cursor)"
  unfolding sync_once_def refresh_def by (intro leaves_rules)

lemma sync_turn_eq:
  "sync_turn e cursor = (let network = bc_network (be_client e);
      pause = (\<lambda>next_cursor. thn (modify (\<lambda>s. s\<lparr>ch_cache := sleep_ms (1000 * bc_event_poll_interval (be_client e)) (ch_cache s)\<rparr>)) (ret next_cursor))
    in (\<lambda>s. case sync_once e cursor s of
        Ok next_cursor t \<Rightarrow> (if next_cursor > cursor then thn (ignore (set_ledger e (chain_sync_cursor network) next_cursor 86400))
           (thn (ignore (set_ledger e (checkpoint_key network) next_cursor 604800)) (pause next_cursor)) else pause cursor) t
      | Err _ t \<Rightarrow> pause cursor t
      | Trap \<Rightarrow> Trap))"
  by (rule ext) (simp add: sync_turn_def Let_def split: res.split)

lemma leaves_sync_turn [leaves_rules]: "leaves (watch_ok e) (sync_turn e cursor)"
  unfolding sync_turn_eq Let_def by (rule leaves_outcome; intro leaves_rules)

lemma leaves_sync_turns [leaves_rules]: "leaves (watch_ok e) (sync_turns n e cursor)"
proof (induction n arbitrary: cursor)
  case (Suc n)
  then show ?case unfolding sync_turns.simps by (intro leaves_thn leaves_await_tick leaves_bnd leaves_sync_turn)
qed (simp add: leaves_pure)

lemma leaves_monitor_hash [leaves_rules]: "leaves (watch_ok e) (monitor_hash e' hash)"
proof -
  have "watch_ok e (settle_watched hash st s)" if "watch_ok e s" for st and s :: "'a chain_state"
    using that by (auto simp: settle_watched_def intro: watch_ok_filter)
  then have "leaves (watch_ok e) (modify (case status of Some st \<Rightarrow> settle_watched hash st | None \<Rightarrow> id))" for status
    by (intro leaves_modify) (auto split: option.split)
  then show ?thesis unfolding monitor_hash_def by (intro leaves_rules)
qed

lemma leaves_monitor_turn [leaves_rules]: "leaves (watch_ok e) (monitor_turn e)"
  unfolding monitor_turn_def by (intro leaves_rules)

lemma leaves_monitor: "leaves (watch_ok e) (run_transaction_monitor n e)"
  by (induction n) (simp_all add: leaves_pure leaves_thn leaves_rules)


text \<open>What is restored at a start is not counted against the limit.\<close>

theorem restored_list_unbounded:
  "length (ch_watched (load_watched_transactions now (map (\<lambda>i. replicate i CHR ''x'') [0..<n]) \<lparr> ch_cache = c, ch_watched = [], ch_tasks = [] \<rparr>)) = n"
proof -
  have "fold (\<lambda>hash watched. if hash \<in> set (map fst watched) then watched else watched @ [(hash, now)]) hs ws = ws @ map (\<lambda>h. (h, now)) hs"
    if "distinct hs" "set hs \<inter> fst ` set ws = {}" for hs and ws :: "(string \<times> int) list"
    using that
  proof (induction hs arbitrary: ws)
    case (Cons h hs)
    then have "h \<notin> fst ` set ws" "set hs \<inter> fst ` set (ws @ [(h, now)]) = {}" by auto
    with Cons show ?case by simp
  qed simp
  moreover have "distinct (map (\<lambda>i. replicate i CHR ''x'') [0..<n])"
    by (simp add: distinct_map inj_on_def)
  ultimately show ?thesis by (simp add: load_watched_transactions_def)
qed

section \<open>Every event is fetched\<close>

text \<open>A node that serves a list of events in pages of a hundred, each page after the event that the cursor names.\<close>

fun page_after :: "json list \<Rightarrow> string option \<Rightarrow> json list" where
  "page_after evs None = take 100 evs"
| "page_after evs (Some i) = take 100 (tl (dropWhile (\<lambda>v. get_str ''id'' v \<noteq> Some i) evs))"

definition serves :: "('r, 'f, 'net) chain_env \<Rightarrow> int \<Rightarrow> json list \<Rightarrow> bool" where
  "serves e from_ledger evs \<longleftrightarrow> (\<forall>n attempt c. be_post e n (rpc_payload ''getEvents'' attempt (events_params e from_ledger c)) =
     Reply 200 (Some \<lparr> rpc_result = Some (JObj [(''events'', JArr (page_after evs c))]), rpc_error = None \<rparr>))"

lemma rpc_served:
  "serves e from_ledger evs \<Longrightarrow> rpc e events_response ''getEvents'' (events_params e from_ledger c) s = Ok (page_after evs c) (posted e s)"
  by (simp add: rpc_def rpc_call_def rpc_loop.simps serves_def judge_def is_success_status_def events_response_def jget_def as_array_def
      opt_field_def Let_def)

lemma page_after_last:
  assumes "distinct (map (get_str ''id'') (front @ rest))" "front \<noteq> []" "get_str ''id'' (last front) = Some i"
  shows "page_after (front @ rest) (Some i) = take 100 rest"
proof -
  obtain xs x where front: "front = xs @ [x]" using assms(2) by (cases front rule: rev_cases) auto
  then have "get_str ''id'' y \<noteq> Some i" if "y \<in> set xs" for y using that assms(1,3) by (auto simp: image_iff)
  then show ?thesis using assms(3) by (simp add: front dropWhile_append2)
qed

lemma fetch_pages_all:
  assumes s: "serves e from_ledger (front @ rest)" and d: "distinct (map (get_str ''id'') (front @ rest))" "None \<notin> set (map (get_str ''id'') (front @ rest))"
    and c: "cursor = (if front = [] then None else get_str ''id'' (last front))" and fuel: "length rest div 100 < fuel"
  shows "\<exists>t. fetch_pages fuel e from_ledger cursor acc s0 = Some (Ok (acc @ map (to_event e) rest) t)"
  using assms
proof (induction fuel arbitrary: front rest cursor acc s0)
  case (Suc fuel)
  let ?batch = "take 100 rest"
  have some: "\<exists>i. get_str ''id'' v = Some i" if "v \<in> set (front @ rest)" for v
  proof -
    have "get_str ''id'' v \<in> set (map (get_str ''id'') (front @ rest))" using that by (simp only: set_map imageI)
    with Suc.prems(3) show ?thesis by (cases "get_str ''id'' v") auto
  qed
  have "page_after (front @ rest) cursor = ?batch"
  proof (cases "front = []")
    case False
    then obtain i where "get_str ''id'' (last front) = Some i" using some [of "last front"] by auto
    with page_after_last [OF Suc.prems(2) False this] Suc.prems(4) False show ?thesis by simp
  qed (simp add: Suc.prems(4))
  then have got: "rpc e events_response ''getEvents'' (events_params e from_ledger cursor) s0 = Ok ?batch (posted e s0)"
    by (simp add: rpc_served [OF Suc.prems(1)])
  show ?case
  proof (cases "length rest < 100")
    case True
    then show ?thesis by (simp add: got)
  next
    case False
    let ?front = "front @ ?batch" and ?rest = "drop 100 rest"
    have split: "?front @ ?rest = front @ rest" by simp
    have b: "length ?batch = 100" "?batch \<noteq> []" using False by auto
    have "last ?batch \<in> set rest" by (rule in_set_takeD [OF last_in_set [OF b(2)]])
    then have "last ?batch \<in> set (front @ rest)" by simp
    then obtain i where i: "get_str ''id'' (last ?batch) = Some i" using some by blast
    have less: "length ?rest div 100 < fuel" using Suc.prems(5) False by (simp add: div_if)
    have last: "(if ?front = [] then None else get_str ''id'' (last ?front)) = Some i" using b(2) i by (simp add: last_append)
    obtain t where t: "fetch_pages fuel e from_ledger (Some i) (acc @ map (to_event e) ?batch) (posted e s0) =
        Some (Ok ((acc @ map (to_event e) ?batch) @ map (to_event e) ?rest) t)"
      using Suc.IH [of ?front ?rest "Some i"] Suc.prems(1-3) last less unfolding split by metis
    have whole: "map (to_event e) ?batch @ map (to_event e) ?rest = map (to_event e) rest" by (simp flip: map_append)
    have "fetch_pages (Suc fuel) e from_ledger cursor acc s0 =
        fetch_pages fuel e from_ledger (Some i) (acc @ map (to_event e) ?batch) (posted e s0)"
      using b i by (simp add: got last_id_def)
    with t whole show ?thesis by simp
  qed
qed simp


section \<open>The cursor only moves forward\<close>

lemma sync_once_cursor: "sync_once e cursor s = Ok next_cursor t \<Longrightarrow> cursor \<le> next_cursor"
  by (auto simp: sync_once_def run_simps Let_def split: if_splits)

lemma sync_turn_cursor: "sync_turn e cursor s = Ok next_cursor t \<Longrightarrow> cursor \<le> next_cursor"
  by (auto simp: sync_turn_def run_simps Let_def dest: sync_once_cursor split: res.splits if_splits)

text \<open>
  The loop never goes back: after any number of rounds, with reorganisations among them, the cursor is where it was or further,
  and a round fetches from the ledger after its cursor.  So what a reorganisation replaces below the cursor is not fetched again.
\<close>

theorem sync_never_goes_back: "sync_turns n e cursor s = Ok next_cursor t \<Longrightarrow> cursor \<le> next_cursor"
proof (induction n arbitrary: cursor s)
  case (Suc n)
  then obtain s1 c u where "sync_turn e cursor s1 = Ok c u" "sync_turns n e c u = Ok next_cursor t"
    by (auto simp: run_simps thn_def await_tick_def)
  with Suc.IH sync_turn_cursor show ?case by force
qed (simp add: run_simps)

section \<open>Reorganisations on a working server\<close>

lemma typed_sel [simp]:
  "ce_redis (typed w u e) = ce_redis e" "ce_fate (typed w u e) = ce_fate e" "ce_others (typed w u e) = ce_others e"
  "ce_tick (typed w u e) = ce_tick e" "enc_value (typed w u e) v = enc_value e (w v)" "dec_value (typed w u e) t = Option.bind (dec_value e t) u"
  by (simp_all add: typed_def)

lemma steady_typed [simp]: "steady (typed w u e) \<longleftrightarrow> steady e"
  by (simp add: steady_def)

lemma rpc_frame:
  "rpc e decode rpc_method args s = Ok x t \<Longrightarrow> cs_store t = cs_store s \<and> cs_breaker t = cs_breaker s"
  "rpc e decode rpc_method args s = Err err t \<Longrightarrow> cs_store t = cs_store s \<and> cs_breaker t = cs_breaker s"
  using rpc_loop_settled [of e decode rpc_method args 1 "nat (bc_retry_attempts (be_client e)) - 1" s]
  by (auto simp: rpc_def rpc_call_def split: prod.splits sum.splits)

text \<open>One batch of the server's cursor lists every key of the chain.\<close>

definition complete_scan :: "('r, 'f, 'net) chain_env \<Rightarrow> 'r \<Rightarrow> bool" where
  "complete_scan e r \<longleftrightarrow> (\<exists>ks. ce_scan (be_cache e) 0 (CHAIN_PREFIX @ '':*'') r = (0, ks) \<and>
     set ks = {k. starts_with (CHAIN_PREFIX @ '':'') k \<and> present (r_view (ce_redis (be_cache e)) r) k})"

lemma fold_del_view: "redis_laws R \<Longrightarrow> r_view R (fold (r_del R) ks r) = fold without_key ks (r_view R r)"
  by (induction ks arbitrary: r) (simp_all add: redis_lawsD(8) without_key_def)

lemma purge_steady:
  assumes e: "steady (be_cache e)" "redis_laws (ce_redis (be_cache e))" "complete_scan e (cs_store s)" "0 < be_fuel e"
    and s: "opened_at_ms (cs_breaker s) = 0"
  shows "\<exists>n t. purge_chain e s = Ok n t \<and> opened_at_ms (cs_breaker t) = 0 \<and>
    (\<forall>k. starts_with (CHAIN_PREFIX @ '':'') k \<longrightarrow> \<not> present (r_view (ce_redis (be_cache e)) (cs_store t)) k)"
proof -
  let ?R = "ce_redis (be_cache e)"
  obtain ks where ks: "ce_scan (be_cache e) 0 (CHAIN_PREFIX @ '':*'') (cs_store s) = (0, ks)"
      "set ks = {k. starts_with (CHAIN_PREFIX @ '':'') k \<and> present (r_view ?R (cs_store s)) k}"
    using e(3) unfolding complete_scan_def by blast
  obtain n t where batch: "scan_batch (be_cache e) (CHAIN_PREFIX @ '':*'') 0 s = Ok (0, n) t" "cs_store t = fold (r_del ?R) ks (cs_store s)"
      "opened_at_ms (cs_breaker t) = 0"
    using s by (cases "ks = []") (simp_all add: scan_batch_def exec_def allow_closed exec_loop.simps(2) pool_get_def redis_cmd_def
        cache_call_steady [OF e(1)] bnd_def ret_def breaker_do_def ks(1) record_success_def)
  have "purge_chain e s = Ok n t"
    using e(4) s batch(1) by (cases "be_fuel e") (simp_all add: purge_chain_def within_fuel_def del_by_pattern_def allow_closed)
  moreover have "\<not> present (r_view ?R (cs_store t)) k" if "starts_with (CHAIN_PREFIX @ '':'') k" for k
    using that ks(2) unfolding batch(2) fold_del_view [OF e(2)] by (auto simp: present_def fold_without)
  ultimately show ?thesis using batch(3) by blast
qed

lemma set_ledger_steady:
  assumes "steady (be_cache e)" "opened_at_ms (cs_breaker s) = 0"
  shows "set_ledger e key n ttl s = Ok () (used s (r_set (ce_redis (be_cache e)) key (Text (enc_value (be_cache e) (C_Ledger n))) ttl (cs_store s)))"
  using assms by (simp add: set_ledger_def ledger_cache_def set_json_def set_ex_def exec_steady)

lemma get_ledger_steady:
  assumes "steady (be_cache e)" "opened_at_ms (cs_breaker s) = 0"
    "case raw_text (get_string (ce_redis (be_cache e)) key (cs_store s)) of Some raw \<Rightarrow> dec_value (be_cache e) raw = Some (C_Ledger n) | None \<Rightarrow> True"
  shows "get_ledger e key s = Ok (map_option (\<lambda>_. n) (raw_text (get_string (ce_redis (be_cache e)) key (cs_store s)))) (used s (cs_store s))"
proof -
  have "get_json (ledger_cache e) (dec_value (ledger_cache e)) key s =
      Ok (Option.bind (raw_text (get_string (ce_redis (be_cache e)) key (cs_store s))) (dec_value (ledger_cache e))) (used s (cs_store s))"
    using assms get_json_steady [where e = "ledger_cache e" and key = key and dec = "dec_value (ledger_cache e)"]
    by (simp add: ledger_cache_def split: option.splits)
  then show ?thesis using assms(3) by (cases "raw_text (get_string (ce_redis (be_cache e)) key (cs_store s))") (simp_all add: get_ledger_def ledger_cache_def)
qed

lemma last_seen_prefix: "starts_with (CHAIN_PREFIX @ '':'') (chain_last_seen_ledger network)"
  by (simp add: starts_with_iff chain_last_seen_ledger_def CHAIN_PREFIX_def)


section \<open>After a restart\<close>

text \<open>
  The cursor is kept for a day and the checkpoint for a week, but the checkpoint is looked at only if there is a cursor: a service that was down for
  more than a day starts again from ledger zero, with the checkpoint still there.
\<close>

theorem checkpoint_unused_after_a_day:
  assumes e: "steady (be_cache e)" "redis_laws (ce_redis (be_cache e))" "\<And>n. dec_value (be_cache e) (enc_value (be_cache e) (C_Ledger n)) = Some (C_Ledger n)"
    and s: "opened_at_ms (cs_breaker s) = 0"
    and saved: "set_ledger e (chain_sync_cursor (bc_network (be_client e))) n 86400 s = Ok () s1"
      "set_ledger e (checkpoint_key (bc_network (be_client e))) n 604800 s1 = Ok () s2"
    and down: "86400000 \<le> d" "d < 604800000"
    and s3: "s3 = s2\<lparr>cs_store := r_elapse (ce_redis (be_cache e)) d (cs_store s2)\<rparr>"
  shows "(\<exists>t. get_ledger e (checkpoint_key (bc_network (be_client e))) s3 = Ok (Some n) t) \<and> (\<exists>t. start_cursor e s3 = Ok 0 t)"
proof -
  let ?R = "ce_redis (be_cache e)" and ?cur = "chain_sync_cursor (bc_network (be_client e))" and ?chk = "checkpoint_key (bc_network (be_client e))"
  have differ: "?cur \<noteq> ?chk" by (simp add: chain_sync_cursor_def checkpoint_key_def CHAIN_PREFIX_def)
  have s1: "s1 = used s (r_set ?R ?cur (Text (enc_value (be_cache e) (C_Ledger n))) 86400 (cs_store s))"
    using saved(1) set_ledger_steady [OF e(1) s] by simp
  then have s2: "s2 = used s1 (r_set ?R ?chk (Text (enc_value (be_cache e) (C_Ledger n))) 604800 (cs_store s1))"
    using saved(2) set_ledger_steady [OF e(1), of s1] by simp
  have view: "strings (r_view ?R (cs_store s3)) ?cur = None" "strings (r_view ?R (cs_store s3)) ?chk = Some (Text (enc_value (be_cache e) (C_Ledger n)))"
    using differ down by (simp_all add: s3 s2 s1 redis_lawsD [OF e(2)] aged_def expired_def with_zset_def)
  have open0: "opened_at_ms (cs_breaker s3) = 0" by (simp add: s3 s2)
  have raw: "raw_text (get_string ?R ?cur (cs_store s3)) = None" "raw_text (get_string ?R ?chk (cs_store s3)) = Some (enc_value (be_cache e) (C_Ledger n))"
    by (simp_all add: get_string_def raw_text_def view)
  have "get_ledger e ?chk s3 = Ok (Some n) (used s3 (cs_store s3))"
    using get_ledger_steady [OF e(1) open0, where key = ?chk and n = n] raw(2) e(3) by simp
  moreover have "get_ledger e ?cur s3 = Ok None (used s3 (cs_store s3))"
    using get_ledger_steady [OF e(1) open0, where key = ?cur and n = n] raw(1) by simp
  then have "start_cursor e s3 = Ok 0 (used s3 (cs_store s3))"
    by (simp add: start_cursor_def bnd_def attempt_op_def ret_def unwrap_or_def Let_def)
  ultimately show ?thesis by blast
qed

section \<open>The table of watched transactions\<close>

definition settled_row :: "string \<Rightarrow> WatchedRow list \<Rightarrow> bool" where
  "settled_row hash rows \<longleftrightarrow> hash \<in> set (map wt_hash rows) \<and> list_all (\<lambda>r. wt_hash r = hash \<longrightarrow> wt_status r \<noteq> ''pending'') rows"

fun resolves :: "db_task \<Rightarrow> bool" where
  "resolves (Mark_Resolved hash status) \<longleftrightarrow> status \<noteq> ''pending''"
| "resolves (Upsert_Watched hash expires_at) \<longleftrightarrow> True"

lemma hashes_of_mark [simp]: "map wt_hash (watched_tx_mark_resolved h status rows) = map wt_hash rows"
  by (simp add: watched_tx_mark_resolved_def)

lemma hashes_of_upsert [simp]:
  "map wt_hash (watched_tx_upsert h x rows) = (if h \<in> set (map wt_hash rows) then map wt_hash rows else map wt_hash rows @ [h])"
  by (auto simp: watched_tx_upsert_def list_ex_iff)

lemma known_row_task: "hash \<in> set (map wt_hash rows) \<Longrightarrow> hash \<in> set (map wt_hash (run_task task rows))"
  by (cases task) (simp_all del: set_map)

lemma known_row_tasks: "hash \<in> set (map wt_hash rows) \<Longrightarrow> hash \<in> set (map wt_hash (fold run_task tasks rows))"
  by (induction tasks arbitrary: rows) (simp_all del: set_map add: known_row_task)

lemma settled_row_task:
  assumes "resolves task" "settled_row hash rows"
  shows "settled_row hash (run_task task rows)"
proof -
  have known: "hash \<in> set (map wt_hash rows)" "\<forall>r\<in>set rows. wt_hash r = hash \<longrightarrow> wt_status r \<noteq> ''pending''"
    using assms(2) by (auto simp: settled_row_def list_all_iff)
  have "\<forall>r\<in>set (run_task task rows). wt_hash r = hash \<longrightarrow> wt_status r \<noteq> ''pending''"
    using assms(1) known by (cases task) (auto simp: watched_tx_upsert_def watched_tx_mark_resolved_def list_ex_iff)
  with known_row_task [OF known(1)] show ?thesis by (simp add: settled_row_def list_all_iff)
qed

lemma settled_row_tasks: "list_all resolves tasks \<Longrightarrow> settled_row hash rows \<Longrightarrow> settled_row hash (fold run_task tasks rows)"
  by (induction tasks arbitrary: rows) (auto intro: settled_row_task)

lemma mark_settles: "status \<noteq> ''pending'' \<Longrightarrow> hash \<in> set (map wt_hash rows) \<Longrightarrow> settled_row hash (watched_tx_mark_resolved hash status rows)"
  by (simp add: settled_row_def list_all_iff del: set_map) (auto simp: watched_tx_mark_resolved_def)

text \<open>
  A transaction that was watched and then resolved is never restored at a start, whatever happens to the table before, between and after,
  also when it is watched again.
\<close>

theorem resolved_never_restored:
  assumes "list_all resolves after" "status \<noteq> ''pending''"
  shows "hash \<notin> set (watched_tx_load_pending now
    (fold run_task (before @ [Upsert_Watched hash x] @ between @ [Mark_Resolved hash status] @ after) rows))"
proof -
  let ?known = "fold run_task between (run_task (Upsert_Watched hash x) (fold run_task before rows))"
  have "hash \<in> set (map wt_hash (run_task (Upsert_Watched hash x) (fold run_task before rows)))"
    by (simp del: set_map)
  from known_row_tasks [OF this] have known: "hash \<in> set (map wt_hash (run_task (Mark_Resolved hash status) ?known))"
    by (simp only: run_task.simps hashes_of_mark)
  have "settled_row hash (run_task (Mark_Resolved hash status) ?known)"
    unfolding run_task.simps by (rule mark_settles [OF assms(2) known [unfolded run_task.simps hashes_of_mark]])
  with assms(1) have "settled_row hash (fold run_task after (run_task (Mark_Resolved hash status) ?known))" by (rule settled_row_tasks)
  then show ?thesis by (auto simp: watched_tx_load_pending_def settled_row_def list_all_iff)
qed

theorem resolved_never_restored_witness:
  "''h'' \<notin> set (watched_tx_load_pending 0 (fold run_task ([] @ [Upsert_Watched ''h'' 10] @ [] @ [Mark_Resolved ''h'' ''confirmed''] @ [Upsert_Watched ''h'' 20]) []))"
  by (rule resolved_never_restored) simp_all

section \<open>Replays\<close>

text \<open>
  A replay that is done is not run again while its progress is kept: the second request gets the same answer, without a call of the node
  and without a change of the cache.
\<close>

theorem replay_not_repeated:
  assumes e: "steady (be_cache e)" "redis_laws (ce_redis (be_cache e))" "\<And>p. dec_value (be_cache e) (enc_value (be_cache e) (C_Replay p)) = Some (C_Replay p)"
    and s: "opened_at_ms (cs_breaker s) = 0"
    and stored: "set_json (replay_cache e) (chain_replay_progress (bc_network (be_client e)) from_ledger) p 3600 s = Ok () s1" "rp_completed p"
  shows "replay_events e from_ledger s1 = Ok p (used s1 (cs_store s1))"
proof -
  let ?R = "ce_redis (be_cache e)" and ?key = "chain_replay_progress (bc_network (be_client e)) from_ledger"
  have s1: "s1 = used s (r_set ?R ?key (Text (enc_value (be_cache e) (C_Replay p))) 3600 (cs_store s))"
    using stored(1) e(1) s by (simp add: replay_cache_def set_json_def set_ex_def exec_steady)
  have raw: "raw_text (get_string ?R ?key (cs_store s1)) = Some (enc_value (be_cache e) (C_Replay p))"
    by (simp add: s1 get_string_def raw_text_def redis_lawsD(6) [OF e(2)])
  have "get_json (replay_cache e) (dec_value (replay_cache e)) ?key s1 = Ok (Some p) (used s1 (cs_store s1))"
    using get_json_steady [where e = "replay_cache e" and s = s1 and key = ?key and dec = "dec_value (replay_cache e)"] e(1,3) raw
    by (simp add: replay_cache_def s1)
  with stored(2) show ?thesis by (simp add: replay_events_def bnd_def ret_def Let_def)
qed

section \<open>Examples\<close>

definition ledger_text :: "chain_value \<Rightarrow> string" where
  "ledger_text v = (case v of C_Ledger n \<Rightarrow> unary n | _ \<Rightarrow> ''r'')"

definition ledger_value :: "string \<Rightarrow> chain_value option" where
  "ledger_value t = Some (if t = ''r'' then C_Replay \<lparr> rp_from_ledger = 5, rp_events_replayed = 2, rp_completed = True \<rparr> else C_Ledger (of_unary t))"

lemma ledger_value_text [simp]: "ledger_value (ledger_text (C_Ledger n)) = Some (C_Ledger n)"
proof -
  have "unary n \<noteq> ''r''" by (cases "nat n") (auto simp: unary_def)
  then show ?thesis by (simp add: ledger_value_def ledger_text_def of_unary)
qed

definition sample_chain_cache :: "(table, chain_value, unit) cache_env" where
  "sample_chain_cache = \<lparr> ce_redis = table_redis, ce_fate = (\<lambda>_. Done), ce_others = (\<lambda>_ r. r), ce_tick = (\<lambda>_. 0),
     ce_cfg = ce_cfg dead_cache_env, ce_tags = ce_tags dead_cache_env, ce_tag_hash = concat, ce_early = (\<lambda>_ _ _. False), ce_measure = (\<lambda>_. ()),
     enc_value = ledger_text, dec_value = ledger_value, enc_entry = (\<lambda>_. []), dec_entry = (\<lambda>_. None),
     ce_scan = (\<lambda>_ _ _. (0, [chain_last_seen_ledger ''testnet''])) \<rparr>"

definition sample_client :: BlockchainClient where
  "sample_client = \<lparr> bc_rpc_url = ''http://node'', bc_network = ''testnet'', bc_contract_id = ''C'',
     bc_key_schema = ContractKeySchema_from_env Map.empty, bc_retry_attempts = 1, bc_retry_base_delay_ms = 50,
     bc_rpc_backoff_jitter_factor = Finite 0, bc_event_poll_interval = 5, bc_tx_poll_interval = 4, bc_confirmation_ledger_lag = 5,
     bc_sync_market_ids = [], bc_expected_passphrase = ''Test'', bc_watched_tx_ttl = 1800, bc_watched_tx_max_size = 10000, bc_is_production = True \<rparr>"

definition sample_chain :: "(nat \<Rightarrow> json \<Rightarrow> rpc_reply) \<Rightarrow> (table, unit, unit) chain_env" where
  "sample_chain post = \<lparr> be_cache = sample_chain_cache, be_client = sample_client, be_lib = plain_lib, be_post = post,
     be_jitter_range = (\<lambda>_ _. 0), be_random = (\<lambda>_ _. 0), be_json_text = (\<lambda>_. []), be_watched_tx_ttl = 1800, be_tick_wait = (\<lambda>_. 0), be_fuel = 3 \<rparr>"

lemma sample_chain_sel [simp]:
  "be_cache (sample_chain post) = sample_chain_cache" "be_client (sample_chain post) = sample_client" "be_post (sample_chain post) = post"
  "be_fuel (sample_chain post) = 3" "bc_network sample_client = ''testnet''" "bc_confirmation_ledger_lag sample_client = 5"
  "bc_retry_attempts sample_client = 1" "bc_expected_passphrase sample_client = ''Test''" "bc_is_production sample_client"
  "ce_redis sample_chain_cache = table_redis" "enc_value sample_chain_cache = ledger_text" "dec_value sample_chain_cache = ledger_value"
  "ce_scan sample_chain_cache n p r = (0, [chain_last_seen_ledger ''testnet''])"
  by (simp_all add: sample_chain_def sample_client_def sample_chain_cache_def)

lemma sample_chain_steady: "steady sample_chain_cache"
  by (simp add: steady_def sample_chain_cache_def)

text \<open>Two hundred and fifty events, in three pages.\<close>

definition many_events :: "json list" where
  "many_events = map (\<lambda>i. JObj [(''id'', JStr (replicate i CHR ''x''))]) [0..<250]"

definition paging_node :: "nat \<Rightarrow> json \<Rightarrow> rpc_reply" where
  "paging_node n payload = Reply 200 (Some \<lparr> rpc_result = Some (JObj [(''events'', JArr (page_after many_events
     (Option.bind (jget ''params'' payload) (get_str ''cursor''))))]), rpc_error = None \<rparr>)"


theorem sync_never_goes_back_witness:
  "\<exists>next_cursor t. sync_turns 0 (sample_chain paging_node) 7 \<lparr> ch_cache = fresh_cache, ch_watched = [], ch_tasks = [] \<rparr> = Ok next_cursor t \<and> 7 \<le> next_cursor"
  using sync_never_goes_back [of 0 "sample_chain paging_node" 7 "\<lparr> ch_cache = fresh_cache, ch_watched = [], ch_tasks = [] \<rparr>" 7
    "\<lparr> ch_cache = fresh_cache, ch_watched = [], ch_tasks = [] \<rparr>"] by (simp add: ret_def)

text \<open>A node that does not answer, after ledger twenty has been seen with a cursor of ten.\<close>

definition silent_chain :: "(table, unit, unit) chain_env" where
  "silent_chain = sample_chain (\<lambda>_ _. No_Reply)"

definition seen_twenty :: "table cache_state" where
  "seen_twenty = used fresh_cache (r_set table_redis (chain_last_seen_ledger ''testnet'') (Text (unary 20)) 86400 (cs_store fresh_cache))"


theorem checkpoint_unused_after_a_day_witness:
  "\<exists>s1 s2 s3. set_ledger (sample_chain paging_node) (chain_sync_cursor ''testnet'') 9 86400 fresh_cache = Ok () s1 \<and>
    set_ledger (sample_chain paging_node) (checkpoint_key ''testnet'') 9 604800 s1 = Ok () s2 \<and>
    s3 = s2\<lparr>cs_store := r_elapse table_redis 90000000 (cs_store s2)\<rparr> \<and> (\<exists>t. start_cursor (sample_chain paging_node) s3 = Ok 0 t)"
proof -
  let ?e = "sample_chain paging_node"
  have steady: "steady (be_cache ?e)" by (simp add: sample_chain_steady)
  obtain s1 where 1: "set_ledger ?e (chain_sync_cursor ''testnet'') 9 86400 fresh_cache = Ok () s1" "opened_at_ms (cs_breaker s1) = 0"
    using set_ledger_steady [OF steady fresh_closed] by simp
  obtain s2 where 2: "set_ledger ?e (checkpoint_key ''testnet'') 9 604800 s1 = Ok () s2" using set_ledger_steady [OF steady 1(2)] by simp
  show ?thesis
    using checkpoint_unused_after_a_day [OF steady _ _ fresh_closed, of 9 s1 s2 90000000 "s2\<lparr>cs_store := r_elapse table_redis 90000000 (cs_store s2)\<rparr>"] 1(1) 2
    by (auto simp: table_redis_laws)
qed

theorem production_needs_passphrase_witness:
  "fst (validate_network_passphrase (sample_chain (\<lambda>_ _. No_Reply)) fresh_cache) = Exit \<and>
   \<not> fst (probe_stellar_ready (sample_chain (\<lambda>_ _. No_Reply)) fresh_cache)"
proof -
  let ?e = "sample_chain (\<lambda>_ _. No_Reply)"
  have "fst (rpc_call ?e network_passphrase_of ''getNetwork'' (JObj []) fresh_cache) = Inl Transport_Failed"
    by (simp add: rpc_call_def rpc_loop.simps judge_def Let_def)
  with production_needs_passphrase [of ?e fresh_cache] show ?thesis
    by (cases "fst (validate_network_passphrase ?e fresh_cache)") auto
qed

end
