(* ===== verification/Metrics.thy ===== *)
theory Metrics
  imports Http
begin

text \<open>
  The metrics of the API service (\<^verbatim>\<open>services/api/src/metrics.rs\<close>): the collectors, their registration, the normalisation of label values,
  and what each recording operation asks of the library.  The library (the crate \<^verbatim>\<open>prometheus\<close>) is a parameter; an operation is the
  list of calls it makes, each with the collector, the label values and the change.  \<^verbatim>\<open>Metrics::new\<close> registers a collector \<^verbatim>\<open>ledger_gaps\<close> that
  it never creates; that collector is an argument of the model.
\<close>

section \<open>Label values\<close>

definition MAX_LABEL_VALUE_LEN :: nat where "MAX_LABEL_VALUE_LEN = 48"

definition is_ascii_alphanumeric :: "char \<Rightarrow> bool" where
  "is_ascii_alphanumeric c \<longleftrightarrow> (let n = (of_char c :: int) in 48 \<le> n \<and> n \<le> 57 \<or> 65 \<le> n \<and> n \<le> 90 \<or> 97 \<le> n \<and> n \<le> 122)"

definition trim_underscores :: "string \<Rightarrow> string" where
  "trim_underscores s = rev (dropWhile (\<lambda>c. c = CHR ''_'') (rev (dropWhile (\<lambda>c. c = CHR ''_'') s)))"

text \<open>A character that is not ASCII becomes one underscore, however many bytes it has.\<close>

definition sanitized_label :: "string \<Rightarrow> string" where
  "sanitized_label s = map (\<lambda>c. if is_ascii_alphanumeric c then ascii_lower c else CHR ''_'') (filter (\<lambda>c. \<not> continuation c) s)"

definition normalize_label :: "string \<Rightarrow> string" where
  "normalize_label s = (let sanitized = trim_underscores (sanitized_label s) in
     if length sanitized > MAX_LABEL_VALUE_LEN then take (MAX_LABEL_VALUE_LEN - 8) sanitized @ ''_hotlbl'' else sanitized)"

definition normalize_label_values :: "string list \<Rightarrow> string list" where
  "normalize_label_values vals = map normalize_label vals"

section \<open>Collectors\<close>

text \<open>The fields of the struct.\<close>

datatype metric = Cache_hits | Cache_misses | Invalidations | Request_latency | Rpc_errors | Rpc_fallbacks | Db_query_duration | Db_timeouts
     | Db_pool_exhaustion | Ledger_gaps | Email_dlq_size | Email_queue_depth | Db_pool_connections_active | Db_pool_connections_idle
     | Db_pool_acquire_duration | Rate_limit_rejections | Deprecated_api_calls | Rate_limiter_redis_errors | Watched_tx_count
     | Auth_failures | Sync_worker_restarts | Sync_worker_heartbeat_ts | Sendgrid_retries | Worker_crash_total | Otel_export_errors
     | Worker_status | Cache_circuit_breaker_state

datatype collector_kind = Counter | Gauge | Histogram "rat list"

record Collector =
  co_name :: string
  co_help :: string
  co_kind :: collector_kind
  co_labels :: "string list"

definition cache_hits_collector :: Collector where
  "cache_hits_collector = \<lparr> co_name = ''cache_hits_total'',
     co_help = ''Cache hits by layer and endpoint'',
     co_kind = Counter, co_labels = [''layer'', ''endpoint''] \<rparr>"

definition cache_misses_collector :: Collector where
  "cache_misses_collector = \<lparr> co_name = ''cache_misses_total'',
     co_help = ''Cache misses by layer and endpoint'',
     co_kind = Counter, co_labels = [''layer'', ''endpoint''] \<rparr>"

definition invalidations_collector :: Collector where
  "invalidations_collector = \<lparr> co_name = ''cache_invalidations_total'',
     co_help = ''Cache invalidations by scope'',
     co_kind = Counter, co_labels = [''scope''] \<rparr>"

definition request_latency_collector :: Collector where
  "request_latency_collector = \<lparr> co_name = ''http_request_duration_seconds'',
     co_help = ''HTTP request latency in seconds'',
     co_kind = Histogram [1 / 1000, 1 / 200, 1 / 100, 1 / 40, 1 / 20, 1 / 10, 1 / 4, 1 / 2, 1, 5 / 2, 5, 10], co_labels = [''route'', ''status_code''] \<rparr>"

definition rpc_errors_collector :: Collector where
  "rpc_errors_collector = \<lparr> co_name = ''rpc_errors_total'',
     co_help = ''RPC errors by method'',
     co_kind = Counter, co_labels = [''method''] \<rparr>"

definition rpc_fallbacks_collector :: Collector where
  "rpc_fallbacks_collector = \<lparr> co_name = ''rpc_fallbacks_total'',
     co_help = ''RPC calls that fell back to zero/default payload, by endpoint'',
     co_kind = Counter, co_labels = [''endpoint''] \<rparr>"

definition db_query_duration_collector :: Collector where
  "db_query_duration_collector = \<lparr> co_name = ''db_query_duration_seconds'',
     co_help = ''Database query duration in seconds by query name'',
     co_kind = Histogram [1 / 100, 1 / 20, 1 / 10, 1 / 4, 1 / 2, 1, 5 / 2, 5], co_labels = [''query_name''] \<rparr>"

definition db_timeouts_collector :: Collector where
  "db_timeouts_collector = \<lparr> co_name = ''db_timeouts_total'',
     co_help = ''DB queries that exceeded the timeout, by operation'',
     co_kind = Counter, co_labels = [''operation''] \<rparr>"

definition db_pool_exhaustion_collector :: Collector where
  "db_pool_exhaustion_collector = \<lparr> co_name = ''db_pool_exhaustion_total'',
     co_help = ''Number of times the connection pool was exhausted, by pool name'',
     co_kind = Counter, co_labels = [''pool''] \<rparr>"

definition email_dlq_size_collector :: Collector where
  "email_dlq_size_collector = \<lparr> co_name = ''email_dlq_size'',
     co_help = ''Number of email jobs currently in the dead-letter queue'',
     co_kind = Gauge, co_labels = [] \<rparr>"

definition email_queue_depth_collector :: Collector where
  "email_queue_depth_collector = \<lparr> co_name = ''email_queue_depth'',
     co_help = ''Number of email jobs currently in the main queue'',
     co_kind = Gauge, co_labels = [] \<rparr>"

definition db_pool_connections_active_collector :: Collector where
  "db_pool_connections_active_collector = \<lparr> co_name = ''db_pool_connections_active'',
     co_help = ''Number of connections currently checked out from the pool'',
     co_kind = Gauge, co_labels = [''pool''] \<rparr>"

definition db_pool_connections_idle_collector :: Collector where
  "db_pool_connections_idle_collector = \<lparr> co_name = ''db_pool_connections_idle'',
     co_help = ''Number of idle connections sitting in the pool'',
     co_kind = Gauge, co_labels = [''pool''] \<rparr>"

definition db_pool_acquire_duration_collector :: Collector where
  "db_pool_acquire_duration_collector = \<lparr> co_name = ''db_pool_acquire_duration_seconds'',
     co_help = ''Time spent waiting to acquire a connection from the pool'',
     co_kind = Histogram [1 / 10000, 1 / 2000, 1 / 1000, 1 / 200, 1 / 100, 1 / 40, 1 / 20, 1 / 10, 1 / 4, 1 / 2, 1], co_labels = [''pool''] \<rparr>"

definition rate_limit_rejections_collector :: Collector where
  "rate_limit_rejections_collector = \<lparr> co_name = ''rate_limit_rejections_total'',
     co_help = ''Requests rejected by the rate limiter, by route'',
     co_kind = Counter, co_labels = [''route''] \<rparr>"

definition deprecated_api_calls_collector :: Collector where
  "deprecated_api_calls_collector = \<lparr> co_name = ''deprecated_api_calls_total'',
     co_help = ''API calls using deprecated versions, by version'',
     co_kind = Counter, co_labels = [''version''] \<rparr>"

definition rate_limiter_redis_errors_collector :: Collector where
  "rate_limiter_redis_errors_collector = \<lparr> co_name = ''rate_limiter_redis_errors_total'',
     co_help = ''Redis errors encountered by security-critical rate limiters. A non-zero value means the limiter is fail-closed (returning 429) due to Redis unavailability.'',
     co_kind = Counter, co_labels = [''limiter''] \<rparr>"

definition auth_failures_collector :: Collector where
  "auth_failures_collector = \<lparr> co_name = ''auth_failures_total'',
     co_help = ''Authentication failures by reason (invalid_api_key, expired_token, missing_credentials)'',
     co_kind = Counter, co_labels = [''reason''] \<rparr>"

definition sync_worker_restarts_collector :: Collector where
  "sync_worker_restarts_collector = \<lparr> co_name = ''blockchain_sync_worker_restarts_total'',
     co_help = ''Number of times the blockchain sync worker has been restarted after a panic'',
     co_kind = Counter, co_labels = [] \<rparr>"

definition sync_worker_heartbeat_ts_collector :: Collector where
  "sync_worker_heartbeat_ts_collector = \<lparr> co_name = ''blockchain_sync_worker_last_heartbeat_ts'',
     co_help = ''Unix timestamp of the last heartbeat emitted by the sync worker'',
     co_kind = Gauge, co_labels = [] \<rparr>"

definition sendgrid_retries_collector :: Collector where
  "sendgrid_retries_collector = \<lparr> co_name = ''sendgrid_retries_total'',
     co_help = ''SendGrid send retries by reason'',
     co_kind = Counter, co_labels = [''reason''] \<rparr>"

definition worker_crash_total_collector :: Collector where
  "worker_crash_total_collector = \<lparr> co_name = ''worker_crash_total'',
     co_help = ''Number of times a background worker has crashed and been restarted, by worker'',
     co_kind = Counter, co_labels = [''worker''] \<rparr>"

definition otel_export_errors_collector :: Collector where
  "otel_export_errors_collector = \<lparr> co_name = ''otel_export_errors_total'',
     co_help = ''OpenTelemetry trace export failures, by reason'',
     co_kind = Counter, co_labels = [''reason''] \<rparr>"

definition worker_status_collector :: Collector where
  "worker_status_collector = \<lparr> co_name = ''worker_status'',
     co_help = ''Background worker health status (1=running, 0=stopped)'',
     co_kind = Gauge, co_labels = [''name''] \<rparr>"

definition cache_circuit_breaker_state_collector :: Collector where
  "cache_circuit_breaker_state_collector = \<lparr> co_name = ''cache_circuit_breaker_state'',
     co_help = ''Redis cache circuit breaker state (0=closed, 1=open, 2=half-open)'',
     co_kind = Gauge, co_labels = [''state''] \<rparr>"

definition watched_tx_count_collector :: Collector where
  "watched_tx_count_collector = \<lparr> co_name = ''watched_tx_count'',
     co_help = ''Current number of transaction hashes being monitored in the watch map'',
     co_kind = Gauge, co_labels = [] \<rparr>"

text \<open>The collectors in the order they are created, and the order in which they are registered.\<close>

definition created_collectors :: "(metric \<times> Collector) list" where
  "created_collectors = [(Cache_hits, cache_hits_collector), (Cache_misses, cache_misses_collector), (Invalidations, invalidations_collector),
     (Request_latency, request_latency_collector), (Rpc_errors, rpc_errors_collector), (Rpc_fallbacks, rpc_fallbacks_collector),
     (Db_query_duration, db_query_duration_collector), (Db_timeouts, db_timeouts_collector),
     (Db_pool_exhaustion, db_pool_exhaustion_collector), (Email_dlq_size, email_dlq_size_collector),
     (Email_queue_depth, email_queue_depth_collector), (Db_pool_connections_active, db_pool_connections_active_collector),
     (Db_pool_connections_idle, db_pool_connections_idle_collector), (Db_pool_acquire_duration, db_pool_acquire_duration_collector),
     (Rate_limit_rejections, rate_limit_rejections_collector), (Deprecated_api_calls, deprecated_api_calls_collector),
     (Rate_limiter_redis_errors, rate_limiter_redis_errors_collector), (Auth_failures, auth_failures_collector),
     (Sync_worker_restarts, sync_worker_restarts_collector), (Sync_worker_heartbeat_ts, sync_worker_heartbeat_ts_collector),
     (Sendgrid_retries, sendgrid_retries_collector), (Worker_crash_total, worker_crash_total_collector),
     (Otel_export_errors, otel_export_errors_collector), (Worker_status, worker_status_collector),
     (Cache_circuit_breaker_state, cache_circuit_breaker_state_collector), (Watched_tx_count, watched_tx_count_collector)]"

definition registration_order :: "metric list" where
  "registration_order = [Cache_hits, Cache_misses, Invalidations, Request_latency, Rpc_errors, Rpc_fallbacks, Db_query_duration,
     Db_timeouts, Db_pool_exhaustion, Ledger_gaps, Email_dlq_size, Email_queue_depth, Db_pool_connections_active, Db_pool_connections_idle,
     Db_pool_acquire_duration, Rate_limit_rejections, Deprecated_api_calls, Rate_limiter_redis_errors, Auth_failures, Sync_worker_restarts,
     Sync_worker_heartbeat_ts, Sendgrid_retries, Worker_crash_total, Otel_export_errors, Worker_status, Cache_circuit_breaker_state,
     Watched_tx_count]"

definition collector_of :: "Collector \<Rightarrow> metric \<Rightarrow> Collector" where
  "collector_of gap m = (case map_of created_collectors m of Some c \<Rightarrow> c | None \<Rightarrow> gap)"

lemmas collector_defs =
  cache_hits_collector_def cache_misses_collector_def invalidations_collector_def request_latency_collector_def rpc_errors_collector_def
  rpc_fallbacks_collector_def db_query_duration_collector_def db_timeouts_collector_def db_pool_exhaustion_collector_def email_dlq_size_collector_def
  email_queue_depth_collector_def db_pool_connections_active_collector_def db_pool_connections_idle_collector_def db_pool_acquire_duration_collector_def rate_limit_rejections_collector_def
  deprecated_api_calls_collector_def rate_limiter_redis_errors_collector_def auth_failures_collector_def sync_worker_restarts_collector_def sync_worker_heartbeat_ts_collector_def
  sendgrid_retries_collector_def worker_crash_total_collector_def otel_export_errors_collector_def worker_status_collector_def cache_circuit_breaker_state_collector_def
  watched_tx_count_collector_def

section \<open>Registration\<close>

text \<open>What the library decides: whether a collector can be created, and whether it can join the ones in the registry.\<close>

record prometheus =
  pr_create :: "Collector \<Rightarrow> bool"
  pr_register :: "Collector list \<Rightarrow> Collector \<Rightarrow> bool"

datatype metrics_error = Not_Created metric | Not_Registered metric

fun register_all :: "prometheus \<Rightarrow> Collector \<Rightarrow> Collector list \<Rightarrow> metric list \<Rightarrow> metrics_error + Collector list" where
  "register_all lib gap registry [] = Inr registry"
| "register_all lib gap registry (m # ms) =
     (if pr_register lib registry (collector_of gap m) then register_all lib gap (registry @ [collector_of gap m]) ms else Inl (Not_Registered m))"

definition Metrics_new :: "prometheus \<Rightarrow> Collector \<Rightarrow> metrics_error + Collector list" where
  "Metrics_new lib gap = (case find (\<lambda>(m, c). \<not> pr_create lib c) created_collectors of
     Some (m, c) \<Rightarrow> Inl (Not_Created m) | None \<Rightarrow> register_all lib gap [] registration_order)"

section \<open>Recording\<close>

text \<open>What is asked of a collector: to add to a counter, to set a gauge, or to note a duration in seconds.\<close>

datatype 'd change = Inc_By int | Set_To int | Observe 'd

datatype 'd metric_call = Call (called: metric) (label_values: "string list") (change_of: "'d change")

definition observe_hit :: "string \<Rightarrow> string \<Rightarrow> 'd metric_call list" where
  "observe_hit layer endpoint = [Call Cache_hits (normalize_label_values [layer, endpoint]) (Inc_By 1)]"

definition observe_miss :: "string \<Rightarrow> string \<Rightarrow> 'd metric_call list" where
  "observe_miss layer endpoint = [Call Cache_misses (normalize_label_values [layer, endpoint]) (Inc_By 1)]"

definition observe_invalidation :: "string \<Rightarrow> int \<Rightarrow> 'd metric_call list" where
  "observe_invalidation scope count = (if count > 0 then [Call Invalidations (normalize_label_values [scope]) (Inc_By count)] else [])"

definition observe_request :: "string \<Rightarrow> int \<Rightarrow> 'd \<Rightarrow> 'd metric_call list" where
  "observe_request route status_code duration =
     [Call Request_latency (normalize_label_values [route, show_int 10 status_code]) (Observe duration)]"

definition observe_rpc_error :: "string \<Rightarrow> 'd metric_call list" where
  "observe_rpc_error rpc_method = [Call Rpc_errors (normalize_label_values [rpc_method]) (Inc_By 1)]"

definition observe_rpc_fallback :: "string \<Rightarrow> 'd metric_call list" where
  "observe_rpc_fallback endpoint = [Call Rpc_fallbacks (normalize_label_values [endpoint]) (Inc_By 1)]"

definition observe_db_query_duration :: "string \<Rightarrow> 'd \<Rightarrow> 'd metric_call list" where
  "observe_db_query_duration query_name duration = [Call Db_query_duration [query_name] (Observe duration)]"

definition observe_db_timeout :: "string \<Rightarrow> 'd metric_call list" where
  "observe_db_timeout operation = [Call Db_timeouts (normalize_label_values [operation]) (Inc_By 1)]"

definition observe_db_pool_exhaustion :: "string \<Rightarrow> 'd metric_call list" where
  "observe_db_pool_exhaustion pool = [Call Db_pool_exhaustion [pool] (Inc_By 1)]"

definition observe_ledger_gap :: "string \<Rightarrow> int \<Rightarrow> 'd metric_call list" where
  "observe_ledger_gap network gap_size = (if gap_size > 0 then [Call Ledger_gaps [network] (Inc_By gap_size)] else [])"

definition set_dlq_size :: "int \<Rightarrow> 'd metric_call list" where
  "set_dlq_size n = [Call Email_dlq_size [] (Set_To n)]"

definition set_email_queue_depth :: "int \<Rightarrow> 'd metric_call list" where
  "set_email_queue_depth n = [Call Email_queue_depth [] (Set_To n)]"

definition observe_tx_eviction :: "int \<Rightarrow> 'd metric_call list" where
  "observe_tx_eviction count = (if count > 0 then [Call Invalidations [''tx_watch_eviction''] (Inc_By count)] else [])"

definition observe_pool_connections :: "string \<Rightarrow> int \<Rightarrow> int \<Rightarrow> 'd metric_call list" where
  "observe_pool_connections pool_label active idle = (let labels = normalize_label_values [pool_label] in
     [Call Db_pool_connections_active labels (Set_To active), Call Db_pool_connections_idle labels (Set_To idle)])"

definition saturating_sub_i64 :: "int \<Rightarrow> int \<Rightarrow> int" where
  "saturating_sub_i64 a b = max (- (2 ^ 63)) (min (2 ^ 63 - 1) (a - b))"

definition record_pool_metrics :: "int \<Rightarrow> int \<Rightarrow> 'd metric_call list" where
  "record_pool_metrics most idle = (let pool_label = ''pool_'' @ show_int 10 most in
     [Call Db_pool_connections_active [pool_label] (Set_To (saturating_sub_i64 most idle)),
      Call Db_pool_connections_idle [pool_label] (Set_To idle)])"

definition observe_pool_acquire :: "string \<Rightarrow> 'd \<Rightarrow> 'd metric_call list" where
  "observe_pool_acquire pool duration = [Call Db_pool_acquire_duration (normalize_label_values [pool]) (Observe duration)]"

definition observe_rate_limit_rejection :: "string \<Rightarrow> 'd metric_call list" where
  "observe_rate_limit_rejection route = [Call Rate_limit_rejections (normalize_label_values [route]) (Inc_By 1)]"

definition observe_deprecated_api_call :: "string \<Rightarrow> 'd metric_call list" where
  "observe_deprecated_api_call version = [Call Deprecated_api_calls [version] (Inc_By 1)]"

definition observe_rate_limiter_redis_error :: "string \<Rightarrow> 'd metric_call list" where
  "observe_rate_limiter_redis_error limiter = [Call Rate_limiter_redis_errors [limiter] (Inc_By 1)]"

definition observe_auth_failure :: "string \<Rightarrow> 'd metric_call list" where
  "observe_auth_failure reason = [Call Auth_failures [reason] (Inc_By 1)]"

definition observe_sync_worker_restart :: "'d metric_call list" where
  "observe_sync_worker_restart = [Call Sync_worker_restarts [] (Inc_By 1)]"

text \<open>A clock before the epoch counts as zero; the cast to \<^verbatim>\<open>i64\<close> wraps.\<close>

definition observe_sync_worker_heartbeat :: "int \<Rightarrow> 'd metric_call list" where
  "observe_sync_worker_heartbeat now = [Call Sync_worker_heartbeat_ts [] (Set_To (sint (word_of_int (max 0 now) :: 64 word)))]"

definition observe_sendgrid_retry :: "string \<Rightarrow> 'd metric_call list" where
  "observe_sendgrid_retry reason = [Call Sendgrid_retries [reason] (Inc_By 1)]"

definition observe_otel_export_error :: "string \<Rightarrow> 'd metric_call list" where
  "observe_otel_export_error reason = [Call Otel_export_errors [reason] (Inc_By 1)]"

definition set_worker_status :: "string \<Rightarrow> bool \<Rightarrow> 'd metric_call list" where
  "set_worker_status name running = [Call Worker_status [name] (Set_To (if running then 1 else 0))]"

definition set_cache_circuit_breaker_state :: "int \<Rightarrow> 'd metric_call list" where
  "set_cache_circuit_breaker_state state =
     [Call Cache_circuit_breaker_state [''closed''] (Set_To 0), Call Cache_circuit_breaker_state [''open''] (Set_To 0),
      Call Cache_circuit_breaker_state [''half_open''] (Set_To 0)] @
     (if state = 0 then [Call Cache_circuit_breaker_state [''closed''] (Set_To 1)]
      else if state = 1 then [Call Cache_circuit_breaker_state [''open''] (Set_To 1)]
      else if state = 2 then [Call Cache_circuit_breaker_state [''half_open''] (Set_To 1)]
      else [])"

definition set_circuit_breaker_state :: "int \<Rightarrow> 'd metric_call list" where
  "set_circuit_breaker_state state = set_cache_circuit_breaker_state state"

definition set_watched_tx_count :: "int \<Rightarrow> 'd metric_call list" where
  "set_watched_tx_count n = [Call Watched_tx_count [] (Set_To n)]"

text \<open>The database client reports its pool under one name.\<close>

definition Database_record_pool_metrics :: "int \<Rightarrow> int \<Rightarrow> 'd metric_call list" where
  "Database_record_pool_metrics pool_size num_idle = observe_pool_connections ''primary'' pool_size num_idle"

section \<open>What the collectors show\<close>

text \<open>A gauge shows the last value it was set to, zero at the start, and a counter the sum of what was added, at 64 bits.\<close>

definition set_by :: "metric \<Rightarrow> string list \<Rightarrow> 'd metric_call \<Rightarrow> int \<Rightarrow> int" where
  "set_by m labels c v = (if called c = m \<and> label_values c = labels then (case change_of c of Set_To n \<Rightarrow> n | _ \<Rightarrow> v) else v)"

definition added_by :: "metric \<Rightarrow> string list \<Rightarrow> 'd metric_call \<Rightarrow> int \<Rightarrow> int" where
  "added_by m labels c v = (if called c = m \<and> label_values c = labels then (case change_of c of Inc_By n \<Rightarrow> (v + n) mod 2 ^ 64 | _ \<Rightarrow> v) else v)"

definition gauge_value :: "'d metric_call list \<Rightarrow> metric \<Rightarrow> string list \<Rightarrow> int" where
  "gauge_value calls m labels = fold (set_by m labels) calls 0"

definition counter_value :: "'d metric_call list \<Rightarrow> metric \<Rightarrow> string list \<Rightarrow> int" where
  "counter_value calls m labels = fold (added_by m labels) calls 0"

definition sync_worker_last_heartbeat_ts :: "'d metric_call list \<Rightarrow> int" where
  "sync_worker_last_heartbeat_ts calls = gauge_value calls Sync_worker_heartbeat_ts []"

section \<open>Normalised labels\<close>

definition label_char :: "char \<Rightarrow> bool" where
  "label_char c \<longleftrightarrow> (let n = (of_char c :: int) in 48 \<le> n \<and> n \<le> 57 \<or> 97 \<le> n \<and> n \<le> 122 \<or> c = CHR ''_'')"

definition bare_ends :: "string \<Rightarrow> bool" where
  "bare_ends s \<longleftrightarrow> (s \<noteq> [] \<longrightarrow> hd s \<noteq> CHR ''_'' \<and> last s \<noteq> CHR ''_'')"

lemma sanitized_chars: "list_all label_char (sanitized_label s)"
proof -
  have "label_char (if is_ascii_alphanumeric c then ascii_lower c else CHR ''_'')" for c
    by (auto simp: label_char_def is_ascii_alphanumeric_def ascii_lower_def Let_def)
  then show ?thesis unfolding sanitized_label_def list.pred_map by (simp add: list.pred_True comp_def)
qed

lemma sanitized_id: "list_all label_char s \<Longrightarrow> sanitized_label s = s"
proof (induction s)
  case (Cons c s)
  then have c: "label_char c" and s: "sanitized_label s = s" by simp_all
  from c have "\<not> continuation c" "(if is_ascii_alphanumeric c then ascii_lower c else CHR ''_'') = c"
    by (auto simp: label_char_def continuation_def is_ascii_alphanumeric_def ascii_lower_def Let_def)
  with s show ?case by (simp add: sanitized_label_def)
qed (simp add: sanitized_label_def)

lemma trimmed_ends: "bare_ends (trim_underscores s)"
proof -
  let ?P = "\<lambda>c. c = CHR ''_''"
  let ?t = "dropWhile ?P s"
  have t: "?t \<noteq> [] \<Longrightarrow> hd ?t \<noteq> CHR ''_''" using hd_dropWhile [of ?P s] by blast
  show ?thesis unfolding bare_ends_def
  proof (intro impI conjI)
    assume ne: "trim_underscores s \<noteq> []"
    then have "dropWhile ?P (rev ?t) \<noteq> []" by (simp add: trim_underscores_def)
    then show "last (trim_underscores s) \<noteq> CHR ''_''"
      using hd_dropWhile [of ?P "rev ?t"] by (simp only: trim_underscores_def last_rev not_False_eq_True)
    have "rev ?t = takeWhile ?P (rev ?t) @ rev (trim_underscores s)" by (simp add: trim_underscores_def)
    then have "?t = trim_underscores s @ rev (takeWhile ?P (rev ?t))" by (metis rev_append rev_rev_ident)
    with ne have "hd ?t = hd (trim_underscores s)" "?t \<noteq> []" by (metis hd_append2, metis Nil_is_append_conv)
    with t show "hd (trim_underscores s) \<noteq> CHR ''_''" by simp
  qed
qed

lemma trim_id: "bare_ends s \<Longrightarrow> trim_underscores s = s"
proof -
  assume s: "bare_ends s"
  have front: "dropWhile (\<lambda>c. c = CHR ''_'') u = u" if "u \<noteq> [] \<longrightarrow> hd u \<noteq> CHR ''_''" for u
    using that by (cases u) simp_all
  show ?thesis using s front [of s] front [of "rev s"] by (simp add: trim_underscores_def bare_ends_def hd_rev)
qed

lemma trimmed_chars: "list_all P s \<Longrightarrow> list_all P (trim_underscores s)"
  by (auto simp: trim_underscores_def list_all_iff dest!: set_dropWhileD)

definition normal_label :: "string \<Rightarrow> bool" where
  "normal_label s \<longleftrightarrow> length s \<le> MAX_LABEL_VALUE_LEN \<and> list_all label_char s \<and> bare_ends s"

lemma normalize_normal: "normal_label (normalize_label s)"
proof -
  let ?t = "trim_underscores (sanitized_label s)"
  have chars: "list_all label_char ?t" by (rule trimmed_chars [OF sanitized_chars])
  have ends: "bare_ends ?t" by (rule trimmed_ends)
  show ?thesis
  proof (cases "length ?t > MAX_LABEL_VALUE_LEN")
    case True
    then have "hd (take 40 ?t @ ''_hotlbl'') = hd ?t" "?t \<noteq> []" by (auto simp: MAX_LABEL_VALUE_LEN_def hd_append)
    moreover have "list_all label_char (take 40 ?t)" using chars by (auto simp: list_all_iff dest: in_set_takeD)
    moreover have "list_all label_char ''_hotlbl''" by (simp add: label_char_def)
    ultimately show ?thesis using True ends
      by (simp add: normalize_label_def normal_label_def bare_ends_def MAX_LABEL_VALUE_LEN_def Let_def)
  qed (use chars ends in \<open>simp add: normalize_label_def normal_label_def Let_def\<close>)
qed

lemma normalize_id: "normal_label s \<Longrightarrow> normalize_label s = s"
  by (simp add: normal_label_def normalize_label_def sanitized_id trim_id Let_def)

text \<open>
  A normalised label has at most 48 characters, all of them small letters, digits or underscores, and no underscore at either end; these are
  exactly the texts that the normalisation leaves alone.
\<close>

theorem normalized_labels: "normal_label (normalize_label s) \<and> (normalize_label s = s \<longleftrightarrow> normal_label s)"
  using normalize_normal normalize_id by metis

text \<open>Long labels that agree in their first forty characters are one label.\<close>

lemma long_labels_merge:
  assumes "normal_label s" "length s = 48" "normal_label t" "length t = 48" "label_char a" "a \<noteq> CHR ''_''" "label_char b" "b \<noteq> CHR ''_''"
  shows "normalize_label (s @ [a]) = normalize_label (t @ [b]) \<longleftrightarrow> take 40 s = take 40 t"
proof -
  have ends: "bare_ends (u @ [c])" if "normal_label u" "length u = 48" "c \<noteq> CHR ''_''" for u c
    using that by (cases u) (auto simp: normal_label_def bare_ends_def)
  have "normalize_label (u @ [c]) = take 40 u @ ''_hotlbl''" if "normal_label u" "length u = 48" "label_char c" "c \<noteq> CHR ''_''" for u c
    using that ends [OF that(1,2,4)] by (simp add: normalize_label_def sanitized_id trim_id normal_label_def MAX_LABEL_VALUE_LEN_def Let_def)
  with assms show ?thesis by simp
qed

section \<open>Every collector registers\<close>

text \<open>
  What the library asks of a collector: a name and labels of the permitted characters, no label twice, a help text, and increasing buckets.
  It accepts every such collector, and registers it unless its name is taken.
\<close>

definition name_start :: "char \<Rightarrow> bool" where
  "name_start c \<longleftrightarrow> (let n = (of_char c :: int) in 65 \<le> n \<and> n \<le> 90 \<or> 97 \<le> n \<and> n \<le> 122 \<or> n = 95)"

definition name_char :: "char \<Rightarrow> bool" where
  "name_char c \<longleftrightarrow> name_start c \<or> (let n = (of_char c :: int) in 48 \<le> n \<and> n \<le> 57)"

definition well_named :: "string \<Rightarrow> bool" where
  "well_named s \<longleftrightarrow> s \<noteq> [] \<and> name_start (hd s) \<and> list_all name_char s"

fun buckets_ok :: "collector_kind \<Rightarrow> bool" where
  "buckets_ok (Histogram bs) = (bs \<noteq> [] \<and> sorted_wrt (<) bs)"
| "buckets_ok _ = True"

definition well_formed :: "Collector \<Rightarrow> bool" where
  "well_formed c \<longleftrightarrow> well_named (co_name c) \<and> co_help c \<noteq> [] \<and> list_all well_named (co_labels c) \<and> ''le'' \<notin> set (co_labels c) \<and>
     distinct (co_labels c) \<and> buckets_ok (co_kind c)"

definition prom_laws :: "prometheus \<Rightarrow> bool" where
  "prom_laws lib \<longleftrightarrow> (\<forall>c. well_formed c \<longrightarrow> pr_create lib c) \<and>
     (\<forall>registry c. well_formed c \<and> co_name c \<notin> set (map co_name registry) \<longrightarrow> pr_register lib registry c)"

lemma created_well_formed: "list_all (\<lambda>(m, c). well_formed c) created_collectors"
  unfolding created_collectors_def list.pred_inject prod.case
  by (intro conjI) (simp_all add: collector_defs well_formed_def well_named_def name_start_def name_char_def)

lemma created_names: "distinct (map (co_name \<circ> snd) created_collectors)"
  by (simp add: created_collectors_def collector_defs)

lemma created_metrics: "set (map fst created_collectors) = set registration_order - {Ledger_gaps}" "distinct (map fst created_collectors)" "distinct registration_order"
  by (auto simp: created_collectors_def registration_order_def)

text \<open>The struct has no other field.\<close>

lemma every_metric_registered: "m \<in> set registration_order"
  by (cases m) (simp_all add: registration_order_def)

lemma collector_of_created: "(m, c) \<in> set created_collectors \<Longrightarrow> collector_of gap m = c"
  by (simp add: collector_of_def created_metrics(2))

lemma created_of: "m \<noteq> Ledger_gaps \<Longrightarrow> (m, collector_of gap m) \<in> set created_collectors"
proof -
  assume "m \<noteq> Ledger_gaps"
  then have "m \<in> set (map fst created_collectors)" using created_metrics(1) every_metric_registered by auto
  then obtain c where "(m, c) \<in> set created_collectors" by auto
  then show ?thesis using collector_of_created by metis
qed

lemma collector_of_gap [simp]: "collector_of gap Ledger_gaps = gap"
proof -
  have "map_of created_collectors Ledger_gaps = None" using created_metrics(1) by (auto simp: map_of_eq_None_iff)
  then show ?thesis by (simp add: collector_of_def)
qed

lemma names_differ:
  assumes "co_name gap \<notin> set (map (co_name \<circ> snd) created_collectors)" "m \<noteq> n"
  shows "co_name (collector_of gap m) \<noteq> co_name (collector_of gap n)"
proof -
  have fresh: "co_name (collector_of gap k) \<noteq> co_name gap" if "k \<noteq> Ledger_gaps" for k
  proof -
    have "co_name (collector_of gap k) \<in> set (map (co_name \<circ> snd) created_collectors)"
      using created_of [OF that] by (auto intro!: image_eqI [where x = "(k, collector_of gap k)"])
    with assms(1) show ?thesis by metis
  qed
  show ?thesis
  proof (cases "m = Ledger_gaps \<or> n = Ledger_gaps")
    case True
    with assms(2) fresh show ?thesis by (metis collector_of_gap)
  next
    case False
    then have "(m, collector_of gap m) \<in> set created_collectors" "(n, collector_of gap n) \<in> set created_collectors" by (simp_all add: created_of)
    with assms(2) show ?thesis using created_names by (metis (no_types, lifting) comp_apply distinct_map fst_conv inj_on_contraD snd_conv)
  qed
qed

lemma register_all_ok:
  assumes "prom_laws lib" "distinct ms" "\<And>m. m \<in> set ms \<Longrightarrow> well_formed (collector_of gap m)"
    "\<And>m n. m \<noteq> n \<Longrightarrow> co_name (collector_of gap m) \<noteq> co_name (collector_of gap n)"
    "\<And>m. m \<in> set ms \<Longrightarrow> co_name (collector_of gap m) \<notin> set (map co_name registry)"
  shows "register_all lib gap registry ms = Inr (registry @ map (collector_of gap) ms)"
  using assms(2,3,5)
proof (induction ms arbitrary: registry)
  case (Cons m ms)
  have "pr_register lib registry (collector_of gap m)" using assms(1) Cons.prems by (simp add: prom_laws_def)
  moreover have "register_all lib gap (registry @ [collector_of gap m]) ms = Inr ((registry @ [collector_of gap m]) @ map (collector_of gap) ms)"
    using Cons.prems assms(4) by (intro Cons.IH) (auto, metis)
  ultimately show ?case by simp
qed simp

text \<open>
  Creating the metrics never fails when the missing collector is well formed and has a name of its own: every field of the struct
  is then registered, once.
\<close>

theorem metrics_start:
  assumes "prom_laws lib" "well_formed gap" "co_name gap \<notin> set (map (co_name \<circ> snd) created_collectors)"
  shows "Metrics_new lib gap = Inr (map (collector_of gap) registration_order)"
proof -
  have wf: "well_formed (collector_of gap m)" for m
    using created_well_formed created_of [of m gap] assms(2) by (cases "m = Ledger_gaps") (auto simp: list_all_iff)
  have "find (\<lambda>(m, c). \<not> pr_create lib c) created_collectors = None"
    using created_well_formed assms(1) by (auto simp: find_None_iff list_all_iff prom_laws_def)
  moreover have "register_all lib gap [] registration_order = Inr ([] @ map (collector_of gap) registration_order)"
    by (rule register_all_ok [OF assms(1) created_metrics(3) wf names_differ [OF assms(3)]]) auto
  ultimately show ?thesis by (simp add: Metrics_new_def)
qed

section \<open>Every call fits its collector\<close>

text \<open>
  \<^verbatim>\<open>with_label_values\<close> panics when the number of label values is not the number of labels.  No operation makes such a call, and each
  collector is changed only as its kind allows.
\<close>

fun suits :: "collector_kind \<Rightarrow> 'd change \<Rightarrow> bool" where
  "suits Counter (Inc_By n) = (n \<ge> 0)"
| "suits Gauge (Set_To n) = True"
| "suits (Histogram bs) (Observe d) = True"
| "suits _ _ = False"

definition fits :: "Collector \<Rightarrow> 'd metric_call \<Rightarrow> bool" where
  "fits gap c \<longleftrightarrow> length (label_values c) = length (co_labels (collector_of gap (called c))) \<and>
     suits (co_kind (collector_of gap (called c))) (change_of c)"

lemma fits_created: "(m, c) \<in> set created_collectors \<Longrightarrow> length ls = length (co_labels c) \<Longrightarrow> suits (co_kind c) x \<Longrightarrow> fits gap (Call m ls x)"
  by (simp add: fits_def collector_of_created)

lemmas observe_defs = observe_hit_def observe_miss_def observe_invalidation_def observe_request_def observe_rpc_error_def
  observe_rpc_fallback_def observe_db_query_duration_def observe_db_timeout_def observe_db_pool_exhaustion_def observe_tx_eviction_def
  observe_pool_connections_def record_pool_metrics_def observe_pool_acquire_def observe_rate_limit_rejection_def observe_deprecated_api_call_def
  observe_rate_limiter_redis_error_def observe_auth_failure_def observe_sync_worker_restart_def observe_sync_worker_heartbeat_def
  observe_sendgrid_retry_def observe_otel_export_error_def

lemmas set_defs = set_dlq_size_def set_email_queue_depth_def set_worker_status_def set_cache_circuit_breaker_state_def set_circuit_breaker_state_def
  set_watched_tx_count_def

text \<open>The arguments of the operations, and the calls an operation makes with them.\<close>

datatype 'd metric_operation = Hit string string | Miss string string | Invalidation string int | Request string int 'd | Rpc_Error string
  | Rpc_Fallback string | Query_Duration string 'd | Db_Timeout string | Pool_Exhausted string | Ledger_Gap string int | Dlq_Size int
  | Queue_Depth int | Tx_Eviction int | Pool_Connections string int int | Pool_Snapshot int int | Pool_Acquire string 'd | Rejection string
  | Deprecated_Call string | Limiter_Error string | Auth_Failure string | Worker_Restart | Heartbeat int | Sendgrid_Retry string
  | Export_Error string | Status string bool | Breaker_State int | Watched_Count int

fun calls_of :: "'d metric_operation \<Rightarrow> 'd metric_call list" where
  "calls_of (Hit layer endpoint) = observe_hit layer endpoint"
| "calls_of (Miss layer endpoint) = observe_miss layer endpoint"
| "calls_of (Invalidation scope count) = observe_invalidation scope count"
| "calls_of (Request route status_code duration) = observe_request route status_code duration"
| "calls_of (Rpc_Error m) = observe_rpc_error m"
| "calls_of (Rpc_Fallback endpoint) = observe_rpc_fallback endpoint"
| "calls_of (Query_Duration q duration) = observe_db_query_duration q duration"
| "calls_of (Db_Timeout operation) = observe_db_timeout operation"
| "calls_of (Pool_Exhausted pool) = observe_db_pool_exhaustion pool"
| "calls_of (Ledger_Gap network gap_size) = observe_ledger_gap network gap_size"
| "calls_of (Dlq_Size n) = set_dlq_size n"
| "calls_of (Queue_Depth n) = set_email_queue_depth n"
| "calls_of (Tx_Eviction count) = observe_tx_eviction count"
| "calls_of (Pool_Connections pool active idle) = observe_pool_connections pool active idle"
| "calls_of (Pool_Snapshot most idle) = record_pool_metrics most idle"
| "calls_of (Pool_Acquire pool duration) = observe_pool_acquire pool duration"
| "calls_of (Rejection route) = observe_rate_limit_rejection route"
| "calls_of (Deprecated_Call version) = observe_deprecated_api_call version"
| "calls_of (Limiter_Error limiter) = observe_rate_limiter_redis_error limiter"
| "calls_of (Auth_Failure reason) = observe_auth_failure reason"
| "calls_of Worker_Restart = observe_sync_worker_restart"
| "calls_of (Heartbeat now) = observe_sync_worker_heartbeat now"
| "calls_of (Sendgrid_Retry reason) = observe_sendgrid_retry reason"
| "calls_of (Export_Error reason) = observe_otel_export_error reason"
| "calls_of (Status name running) = set_worker_status name running"
| "calls_of (Breaker_State state) = set_cache_circuit_breaker_state state"
| "calls_of (Watched_Count n) = set_watched_tx_count n"

lemma collector_of_simps:
  "collector_of gap Cache_hits = cache_hits_collector"
  "collector_of gap Cache_misses = cache_misses_collector"
  "collector_of gap Invalidations = invalidations_collector"
  "collector_of gap Request_latency = request_latency_collector"
  "collector_of gap Rpc_errors = rpc_errors_collector"
  "collector_of gap Rpc_fallbacks = rpc_fallbacks_collector"
  "collector_of gap Db_query_duration = db_query_duration_collector"
  "collector_of gap Db_timeouts = db_timeouts_collector"
  "collector_of gap Db_pool_exhaustion = db_pool_exhaustion_collector"
  "collector_of gap Email_dlq_size = email_dlq_size_collector"
  "collector_of gap Email_queue_depth = email_queue_depth_collector"
  "collector_of gap Db_pool_connections_active = db_pool_connections_active_collector"
  "collector_of gap Db_pool_connections_idle = db_pool_connections_idle_collector"
  "collector_of gap Db_pool_acquire_duration = db_pool_acquire_duration_collector"
  "collector_of gap Rate_limit_rejections = rate_limit_rejections_collector"
  "collector_of gap Deprecated_api_calls = deprecated_api_calls_collector"
  "collector_of gap Rate_limiter_redis_errors = rate_limiter_redis_errors_collector"
  "collector_of gap Auth_failures = auth_failures_collector"
  "collector_of gap Sync_worker_restarts = sync_worker_restarts_collector"
  "collector_of gap Sync_worker_heartbeat_ts = sync_worker_heartbeat_ts_collector"
  "collector_of gap Sendgrid_retries = sendgrid_retries_collector"
  "collector_of gap Worker_crash_total = worker_crash_total_collector"
  "collector_of gap Otel_export_errors = otel_export_errors_collector"
  "collector_of gap Worker_status = worker_status_collector"
  "collector_of gap Cache_circuit_breaker_state = cache_circuit_breaker_state_collector"
  "collector_of gap Watched_tx_count = watched_tx_count_collector"
  by (simp_all add: collector_of_def created_collectors_def)

theorem calls_fit:
  assumes "length (co_labels gap) = 1" "co_kind gap = Counter" "c \<in> set (calls_of operation)"
  shows "fits gap c"
  using assms
  by (cases operation)
    (auto simp: fits_def observe_ledger_gap_def observe_defs set_defs normalize_label_values_def Let_def collector_of_simps collector_defs split: if_splits)

section \<open>Gauges and counters\<close>

lemma gauge_append: "gauge_value (xs @ ys) m ls = fold (set_by m ls) ys (gauge_value xs m ls)"
  by (simp add: gauge_value_def)

text \<open>After a change of state, exactly the gauge of the new state is one, whatever was recorded before.\<close>

definition breaker_label :: "int \<Rightarrow> string" where
  "breaker_label k = (if k = 0 then ''closed'' else if k = 1 then ''open'' else ''half_open'')"

theorem breaker_gauge_exact:
  assumes "k \<in> {0, 1, 2}"
  shows "gauge_value (calls @ set_cache_circuit_breaker_state state) Cache_circuit_breaker_state [breaker_label k] = (if state = k then 1 else 0)"
  using assms by (auto simp: gauge_append set_cache_circuit_breaker_state_def set_by_def breaker_label_def)

text \<open>The snapshot of a pool adds up: as long as no more connections are idle than there are, the two gauges sum to the size of the pool.\<close>

theorem pool_snapshot_adds_up:
  assumes "0 \<le> idle" "idle \<le> most" "most < 2 ^ 32"
  shows "gauge_value (calls @ record_pool_metrics most idle) Db_pool_connections_active [''pool_'' @ show_int 10 most] +
    gauge_value (calls @ record_pool_metrics most idle) Db_pool_connections_idle [''pool_'' @ show_int 10 most] = most"
  using assms by (simp add: gauge_append record_pool_metrics_def set_by_def saturating_sub_i64_def Let_def)

text \<open>The database client reports the size of the pool as the number of connections in use, so that its gauges do not add up while any is idle.\<close>

lemma database_pool_counts_idle_twice:
  "gauge_value (calls @ Database_record_pool_metrics n idle) Db_pool_connections_active [''primary''] +
    gauge_value (calls @ Database_record_pool_metrics n idle) Db_pool_connections_idle [''primary''] = n + idle"
proof -
  have "normalize_label ''primary'' = ''primary''"
    by (rule normalize_id) (simp add: normal_label_def label_char_def bare_ends_def MAX_LABEL_VALUE_LEN_def)
  then show ?thesis
    by (simp add: gauge_append Database_record_pool_metrics_def observe_pool_connections_def normalize_label_values_def set_by_def Let_def)
qed

lemma heartbeat_read: "now < 2 ^ 63 \<Longrightarrow> 0 \<le> now \<Longrightarrow> sync_worker_last_heartbeat_ts (calls @ observe_sync_worker_heartbeat now) = now"
  by (simp add: sync_worker_last_heartbeat_ts_def gauge_append observe_sync_worker_heartbeat_def set_by_def sint_uint uint_word_of_int_eq take_bit_int_eq_self signed_take_bit_int_eq_self)
end
