(* ===== verification/Startup.thy ===== *)
theory Startup
  imports Chain_Sync Metrics
begin

text \<open>
  The start of the API service (\<^verbatim>\<open>services/api/src/main.rs\<close>, up to the router): the sampling rate and the endpoint of the traces
  (\<^verbatim>\<open>tracing_config.rs\<close>), the validation of the configuration, the clients, the checks of the node, the watched transactions, and the
  cross-origin policy.  What the operating system and the libraries answer is a parameter, and so is \<^verbatim>\<open>sample_rate_from_env\<close>, which
  \<^verbatim>\<open>init_tracing\<close> calls and no file defines.
\<close>

section \<open>Traces\<close>

definition in_unit :: "float64 \<Rightarrow> bool" where
  "in_unit v = (case v of Finite q \<Rightarrow> 0 \<le> q \<and> q \<le> 1 | _ \<Rightarrow> False)"

datatype sampler_error = Out_Of_Range float64 | Not_A_Float string

definition validate_sampler_arg :: "string \<Rightarrow> sampler_error + float64" where
  "validate_sampler_arg raw = (case parse_f64 (trim raw) of
     Some rate \<Rightarrow> if in_unit rate then Inr rate else Inl (Out_Of_Range rate)
   | None \<Rightarrow> Inl (Not_A_Float raw))"

definition resolve_sampler_rate :: "environment \<Rightarrow> float64 \<Rightarrow> float64" where
  "resolve_sampler_rate env fallback = (case env ''OTEL_TRACES_SAMPLER_ARG'' of
     None \<Rightarrow> fallback
   | Some raw \<Rightarrow> (case validate_sampler_arg raw of Inr rate \<Rightarrow> rate | Inl reason \<Rightarrow> fallback))"

datatype Sampler = AlwaysOn | AlwaysOff | TraceIdRatioBased float64

fun at_least_one :: "float64 \<Rightarrow> bool" where
  "at_least_one NaN = False" | "at_least_one (Infinite neg) = (\<not> neg)" | "at_least_one (Finite q) = (1 \<le> q)"

fun at_most_zero :: "float64 \<Rightarrow> bool" where
  "at_most_zero NaN = False" | "at_most_zero (Infinite neg) = neg" | "at_most_zero (Finite q) = (q \<le> 0)"

definition sampler_for :: "float64 \<Rightarrow> Sampler" where
  "sampler_for sample_rate = (if at_least_one sample_rate then AlwaysOn else if at_most_zero sample_rate then AlwaysOff
     else TraceIdRatioBased sample_rate)"

text \<open>A parsed address: the host and the port, where it has them.\<close>

record start_lib =
  sl_url :: "string \<Rightarrow> (string option \<times> int option) option"
  sl_dial :: "string \<Rightarrow> bool"
  sl_rate_from_env :: "float64 \<Rightarrow> float64"
  sl_prometheus :: prometheus
  sl_ledger_gaps :: Collector
  sl_redis_pool :: "string \<Rightarrow> bool"
  sl_database :: "string \<Rightarrow> DbPoolConfig \<Rightarrow> bool"
  sl_http_client :: bool
  sl_mailer :: bool
  sl_header_value :: "string \<Rightarrow> bool"
  sl_http_method :: "string \<Rightarrow> bool"
  sl_header_name :: "string \<Rightarrow> bool"
  sl_bind :: "IpAddr \<times> int \<Rightarrow> bool"

definition check_otlp_connectivity :: "start_lib \<Rightarrow> string \<Rightarrow> bool" where
  "check_otlp_connectivity lib endpoint = (case sl_url lib endpoint of
     None \<Rightarrow> False
   | Some (None, port) \<Rightarrow> False
   | Some (Some host, port) \<Rightarrow> sl_dial lib (host @ '':'' @ show_int 10 (unwrap_or port 4317)))"

definition init_tracing :: "start_lib \<Rightarrow> environment \<Rightarrow> string option \<Rightarrow> float64 \<Rightarrow> Sampler option" where
  "init_tracing lib env collector sample_rate =
     (if collector \<noteq> None \<and> sl_url lib (the collector) = None then None
      else Some (sampler_for (resolve_sampler_rate env (sl_rate_from_env lib sample_rate))))"

section \<open>Cross-origin policy\<close>

record cors_rules =
  cr_origins :: "string list"
  cr_methods :: "string list"
  cr_headers :: "string list"
  cr_max_age :: int
  cr_credentials :: bool

datatype CorsLayer = Permissive | Rules cors_rules

definition build_cors_layer :: "start_lib \<Rightarrow> CorsConfig \<Rightarrow> CorsLayer" where
  "build_cors_layer lib cfg = (if dev_mode cfg then Permissive else Rules
     \<lparr> cr_origins = filter (sl_header_value lib) (allowed_origins cfg), cr_methods = filter (sl_http_method lib) (allowed_methods cfg),
       cr_headers = filter (sl_header_name lib) (allowed_headers cfg), cr_max_age = max_age_secs cfg, cr_credentials = allow_credentials cfg \<rparr>)"

text \<open>Which responses are compressed (\<^verbatim>\<open>compression.rs\<close>): JSON and text, by their content type.\<close>

definition should_compress :: "http_response \<Rightarrow> bool" where
  "should_compress resp = (let ct = unwrap_or (Option.bind (rs_headers resp ''content-type'') to_str) [];
       kind = trim (hd (split_at CHR '';'' ct))
     in kind = ''application/json'' \<or> starts_with ''text/'' kind)"

section \<open>The start\<close>

datatype start_error = Tracing_Failed | Config_Invalid string | Metrics_Error metrics_error | Redis_Failed | Postgres_Failed | Client_Failed
  | Node_Unreachable | Process_Exit | Mailer_Failed | Bind_Failed

record ('r, 'net) running_service =
  sv_config :: "'net Config"
  sv_sampler :: Sampler
  sv_https_warning :: bool
  sv_key_age :: key_age
  sv_registry :: "Collector list"
  sv_calls :: "unit metric_call list"
  sv_node_reached :: bool
  sv_chain :: "'r chain_state"
  sv_cors :: CorsLayer

text \<open>
  The environment, the day, what the node answers, and the hashes that the table of watched transactions gives, unless the query fails.
\<close>

record ('r, 'f, 'net) start_env =
  su_env :: environment
  su_text :: "'net text_lib"
  su_lib :: start_lib
  su_today :: int
  su_chain :: "('r, 'f, 'net) chain_env"
  su_pending :: "string list option"

text \<open>The client of the chain is the one of the configuration.\<close>

definition node_env :: "('r, 'f, 'net) start_env \<Rightarrow> ('r, 'f, 'net) chain_env" where
  "node_env e = (su_chain e)\<lparr>be_client := BlockchainClient_new (Config_from_env (su_text e) (su_env e))\<rparr>"

text \<open>What is recorded about the collector of the traces.\<close>

definition otlp_calls :: "start_lib \<Rightarrow> string option \<Rightarrow> unit metric_call list" where
  "otlp_calls lib collector = (case collector of
     Some endpoint \<Rightarrow> if check_otlp_connectivity lib endpoint then [] else observe_otel_export_error ''unreachable''
   | None \<Rightarrow> [])"

text \<open>The checks of the node: unreachable, it stops a start in production only.\<close>

definition check_node :: "('r, 'f, 'net) start_env \<Rightarrow> 'r cache_state \<Rightarrow> start_error + (bool \<times> 'r cache_state)" where
  "check_node e s = (case probe_rpc_reachability (node_env e) s of (reached, t) \<Rightarrow>
     if \<not> reached \<and> production_env (Config_from_env (su_text e) (su_env e)) then Inl Node_Unreachable
     else (case validate_network_passphrase (node_env e) t of
       (Exit, u) \<Rightarrow> Inl Process_Exit
     | (Continue, u) \<Rightarrow> Inr (reached, u)))"

definition restore_watched :: "('r, 'f, 'net) start_env \<Rightarrow> 'r cache_state \<Rightarrow> 'r chain_state" where
  "restore_watched e s = (let empty = \<lparr> ch_cache = s, ch_watched = [], ch_tasks = [] \<rparr> in
     case su_pending e of Some hashes \<Rightarrow> load_watched_transactions (cs_now s) hashes empty | None \<Rightarrow> empty)"

definition start_service :: "('r, 'f, 'net) start_env \<Rightarrow> 'r cache_state \<Rightarrow> start_error + ('r, 'net) running_service" where
  "start_service e s = (let lib = su_lib e; config = Config_from_env (su_text e) (su_env e) in
     case init_tracing lib (su_env e) (otlp_endpoint (server config)) (trace_sample_rate (server config)) of
       None \<Rightarrow> Inl Tracing_Failed
     | Some sampler \<Rightarrow> (case config_validate (su_text e) (su_env e) config of
       Inl text \<Rightarrow> Inl (Config_Invalid text)
     | Inr _ \<Rightarrow> (case Metrics_new (sl_prometheus lib) (sl_ledger_gaps lib) of
       Inl err \<Rightarrow> Inl (Metrics_Error err)
     | Inr registry \<Rightarrow>
         if \<not> sl_redis_pool lib (redis_url (server config)) then Inl Redis_Failed
         else if \<not> sl_database lib (database_url (server config)) (db_pool (server config)) then Inl Postgres_Failed
         else if \<not> sl_http_client lib then Inl Client_Failed
         else (case check_node e s of
           Inl err \<Rightarrow> Inl err
         | Inr (reached, t) \<Rightarrow>
             if \<not> sl_mailer lib then Inl Mailer_Failed
             else if \<not> sl_bind lib (bind_addr (server config)) then Inl Bind_Failed
             else Inr \<lparr> sv_config = config, sv_sampler = sampler, sv_https_warning = check_https_config config,
               sv_key_age = warn_if_sendgrid_key_stale (su_text e) (su_today e) config, sv_registry = registry,
               sv_calls = otlp_calls lib (otlp_endpoint (server config)), sv_node_reached = reached, sv_chain = restore_watched e t,
               sv_cors = build_cors_layer lib (cors (security config)) \<rparr>))))"

section \<open>What a start guarantees\<close>

lemma json_compressed: "should_compress (json_response status v)"
proof -
  have "trim ''application/json'' = ''application/json''" by (rule trim_visible) (simp add: visible_def)
  then show ?thesis by (simp add: should_compress_def json_response_def to_str_def unwrap_or_def Let_def)
qed

lemma bodyless_not_compressed: "\<not> should_compress (status_response status)"
  by (simp add: should_compress_def status_response_def unwrap_or_def trim_def trim_start_def trim_end_def starts_with_def)

lemma resolved_rate_in_unit: "in_unit fallback \<Longrightarrow> in_unit (resolve_sampler_rate env fallback)"
  by (auto simp: resolve_sampler_rate_def validate_sampler_arg_def split: option.splits sum.splits if_splits)

text \<open>A valid argument decides; anything else leaves the configured rate.\<close>

lemma sampler_rate_exact:
  "resolve_sampler_rate env fallback = (case env ''OTEL_TRACES_SAMPLER_ARG'' of
     Some raw \<Rightarrow> (case parse_f64 (trim raw) of Some (Finite q) \<Rightarrow> if 0 \<le> q \<and> q \<le> 1 then Finite q else fallback | _ \<Rightarrow> fallback)
   | None \<Rightarrow> fallback)"
  by (auto simp: resolve_sampler_rate_def validate_sampler_arg_def in_unit_def split: option.splits float64.splits)

text \<open>The two readings of \<^verbatim>\<open>APP_ENV\<close>, by \<^verbatim>\<open>main\<close> and by the client of the chain, agree.\<close>

lemma production_readings:
  "bc_is_production (BlockchainClient_new (Config_from_env lib env)) \<longleftrightarrow> production_env (Config_from_env lib env)"
  by (auto simp: BlockchainClient_new_def production_env_def Config_from_env_def ServerConfig_from_env_def env_text_def unwrap_or_def
      eq_ignore_ascii_case_def ascii_lower_def Let_def split: option.splits)

lemma start_service_ok:
  assumes "start_service e s = Inr v"
  obtains t where "config_errors (su_text e) (su_env e) (sv_config v) = []" "sv_config v = Config_from_env (su_text e) (su_env e)"
    "check_node e s = Inr (sv_node_reached v, t)" "sv_chain v = restore_watched e t"
    "sv_cors v = build_cors_layer (su_lib e) (cors (security (sv_config v)))"
  using assms
  by (auto simp: start_service_def config_validate_def Let_def split: option.splits sum.splits if_splits prod.splits)

text \<open>
  C31. In production, a service that has started has a valid configuration, its node answered, and no passphrase is configured or the node named
  the configured one.
\<close>

theorem production_start:
  assumes "start_service e s = Inr v" "production_env (Config_from_env (su_text e) (su_env e))"
  shows "config_errors (su_text e) (su_env e) (sv_config v) = [] \<and> sv_node_reached v \<and>
    (bc_expected_passphrase (be_client (node_env e)) = [] \<or>
     fst (rpc_call (node_env e) network_passphrase_of ''getNetwork'' (JObj []) (posted (node_env e) s)) =
       Inr (bc_expected_passphrase (be_client (node_env e))))"
proof -
  from assms(1) obtain t where v: "config_errors (su_text e) (su_env e) (sv_config v) = []" "check_node e s = Inr (sv_node_reached v, t)"
    by (rule start_service_ok)
  have production: "bc_is_production (be_client (node_env e))" using assms(2) by (simp add: node_env_def production_readings)
  from v(2) assms(2) have "sv_node_reached v" "fst (validate_network_passphrase (node_env e) (posted (node_env e) s)) = Continue"
    by (auto simp: check_node_def probe_rpc_reachability_def split: if_splits prod.splits startup.splits)
  with v(1) production_needs_passphrase(1) [OF production] show ?thesis by blast
qed

text \<open>Where \<^verbatim>\<open>RUST_ENV\<close> names production, the policy is never the permissive one; \<^verbatim>\<open>APP_ENV\<close> is not asked.\<close>

theorem cors_not_permissive:
  assumes "start_service e s = Inr v" "eq_ignore_ascii_case (env_text (su_env e) ''RUST_ENV'' []) ''production''"
  shows "sv_cors v \<noteq> Permissive"
proof -
  from assms(1) obtain t where v: "config_errors (su_text e) (su_env e) (sv_config v) = []"
      "sv_cors v = build_cors_layer (su_lib e) (cors (security (sv_config v)))"
    by (rule start_service_ok)
  from v(1) assms(2) have "\<not> dev_mode (cors (security (sv_config v)))" by (auto simp: config_errors_def cors_errors_def Let_def split: if_splits)
  with v(2) show ?thesis by (simp add: build_cors_layer_def)
qed

text \<open>A production deployment with nothing but a key, a password and the permissive mode set; the node names the passphrase of the test network.\<close>

definition bare_env :: environment where
  "bare_env = [''HMAC_KEY'' \<mapsto> replicate 32 CHR ''k'', ''APP_ENV'' \<mapsto> ''production'', ''DB_PASSWORD'' \<mapsto> ''secret'', ''CORS_DEV_MODE'' \<mapsto> ''true'']"

definition sample_gap :: Collector where
  "sample_gap = \<lparr> co_name = ''ledger_gaps_total'', co_help = ''gaps'', co_kind = Counter, co_labels = [''network''] \<rparr>"

definition willing_prometheus :: prometheus where
  "willing_prometheus = \<lparr> pr_create = well_formed, pr_register = (\<lambda>registry c. co_name c \<notin> set (map co_name registry)) \<rparr>"

definition sample_lib :: start_lib where
  "sample_lib = \<lparr> sl_url = (\<lambda>_. None), sl_dial = (\<lambda>_. False), sl_rate_from_env = id, sl_prometheus = willing_prometheus, sl_ledger_gaps = sample_gap,
     sl_redis_pool = (\<lambda>_. True), sl_database = (\<lambda>_ _. True), sl_http_client = True, sl_mailer = True, sl_header_value = (\<lambda>_. True),
     sl_http_method = (\<lambda>_. True), sl_header_name = (\<lambda>_. True), sl_bind = (\<lambda>_. True) \<rparr>"

definition naming_node :: "nat \<Rightarrow> json \<Rightarrow> rpc_reply" where
  "naming_node n payload = Reply 200 (Some \<lparr> rpc_result = Some (JObj [(''passphrase'', JStr (default_passphrase Testnet))]), rpc_error = None \<rparr>)"

definition sample_start :: "(table, unit, unit) start_env" where
  "sample_start = \<lparr> su_env = bare_env, su_text = plain_lib, su_lib = sample_lib, su_today = 0, su_chain = sample_chain naming_node, su_pending = None \<rparr>"

lemma sample_start_sel:
  "su_env sample_start = bare_env" "su_text sample_start = plain_lib" "su_lib sample_start = sample_lib"
  "su_chain sample_start = sample_chain naming_node" "su_pending sample_start = None"
  by (simp_all add: sample_start_def)

lemma bare_production: "production_env (Config_from_env plain_lib bare_env)"
  by (simp add: production_env_def config_fields bare_env_def env_text_def unwrap_or_def eq_ignore_ascii_case_def)

lemma bare_valid: "config_errors plain_lib bare_env (Config_from_env plain_lib bare_env :: unit Config) = []"
proof -
  have "32 \<le> length (hmac_key_bytes plain_lib (replicate 32 CHR ''k''))" by (simp add: hmac_key_bytes_def plain_lib_def)
  from validation_gaps(2) [OF this] show ?thesis
    by (auto simp: config_validate_def bare_env_def Let_def split: if_splits)
qed

lemma willing_laws: "prom_laws willing_prometheus"
  by (simp add: prom_laws_def willing_prometheus_def)

lemma sample_metrics: "\<exists>registry. Metrics_new willing_prometheus sample_gap = Inr registry"
proof -
  have "well_formed sample_gap"
    by (simp add: sample_gap_def well_formed_def well_named_def name_start_def name_char_def)
  moreover have "co_name sample_gap \<notin> set (map (co_name \<circ> snd) created_collectors)"
    by (simp add: sample_gap_def created_collectors_def collector_defs)
  ultimately show ?thesis using metrics_start [OF willing_laws] by blast
qed

lemma sample_node: "be_post (node_env sample_start) = naming_node"
  by (simp add: node_env_def sample_start_sel)

lemma sample_passphrase: "bc_expected_passphrase (be_client (node_env sample_start)) = default_passphrase Testnet"
  by (simp add: node_env_def sample_start_sel BlockchainClient_new_def Config_from_env_def ChainConfig_from_env_def network_from_env_def bare_env_def
      env_parse_def env_text_def unwrap_or_def Let_def)

lemma sample_named: "\<exists>t. rpc_call (node_env sample_start) network_passphrase_of ''getNetwork'' (JObj []) s = (Inr (default_passphrase Testnet), t)"
proof -
  have "judge network_passphrase_of (be_post (node_env sample_start) n payload) = Return (default_passphrase Testnet)" for n payload
    by (simp add: sample_node naming_node_def judge_def is_success_status_def network_passphrase_of_def get_str_def jget_def as_str_def)
  then show ?thesis by (simp add: rpc_call_def rpc_loop.simps Let_def)
qed

lemma sample_starts: "\<exists>v. start_service sample_start fresh_cache = Inr v \<and> sv_cors v = Permissive"
proof -
  let ?config = "Config_from_env plain_lib bare_env :: unit Config"
  obtain registry where registry: "Metrics_new willing_prometheus sample_gap = Inr registry" using sample_metrics by blast
  obtain t where t: "rpc_call (node_env sample_start) network_passphrase_of ''getNetwork'' (JObj []) (posted (node_env sample_start) fresh_cache) =
      (Inr (default_passphrase Testnet), t)" using sample_named by blast
  have node: "check_node sample_start fresh_cache = Inr (True, t)"
    using t sample_passphrase by (simp add: check_node_def probe_rpc_reachability_def sample_node naming_node_def validate_network_passphrase_def Let_def)
  have "otlp_endpoint (server ?config) = None" by (simp add: Config_from_env_def ServerConfig_from_env_def bare_env_def Let_def)
  moreover have "dev_mode (cors (security ?config))"
    by (simp add: config_fields bare_env_def env_flag_def flag_on_def eq_ignore_ascii_case_def env_text_def)
  ultimately show ?thesis
    by (simp add: start_service_def sample_start_sel init_tracing_def config_validate_def bare_valid sample_lib_def registry node build_cors_layer_def Let_def)
qed

theorem production_start_witness:
  "\<exists>v. start_service sample_start fresh_cache = Inr v \<and> sv_cors v = Permissive \<and>
    config_errors plain_lib bare_env (sv_config v) = [] \<and> sv_node_reached v"
proof -
  obtain v where v: "start_service sample_start fresh_cache = Inr v" "sv_cors v = Permissive" using sample_starts by blast
  with production_start [OF v(1)] bare_production show ?thesis by (auto simp: sample_start_sel)
qed

end
