(* ===== verification/Mail_World.thy ===== *)
theory Mail_World
  imports Rate_Limit
begin

text \<open>
  The world of the email subsystem (\<^verbatim>\<open>email/\<close> and the email part of \<^verbatim>\<open>db.rs\<close>): the Redis server, the tables
  of the database, the mails SendGrid has accepted, and the count of the external calls made so far. Every
  call over the network may be lost or may take effect without being acknowledged, according to a
  schedule given by the environment; an error leaves the effects of the calls before it, since nothing is
  rolled back. What is not in the sources is in the environment: the UUID crate, HMAC, the address
  validator, the template renderer, SendGrid.
\<close>

section \<open>Data\<close>

type_synonym Uuid = u128

datatype EmailJobType =
  NewsletterConfirmation | WaitlistConfirmation | ContactFormAutoResponse | WelcomeEmail | Custom string

fun EmailJobType_as_str :: "EmailJobType \<Rightarrow> string" where
  "EmailJobType_as_str NewsletterConfirmation = ''newsletter_confirmation''"
| "EmailJobType_as_str WaitlistConfirmation = ''waitlist_confirmation''"
| "EmailJobType_as_str ContactFormAutoResponse = ''contact_form_auto_response''"
| "EmailJobType_as_str WelcomeEmail = ''welcome_email''"
| "EmailJobType_as_str (Custom s) = s"

datatype EmailJobStatus = Pending | Processing | Completed | Failed | Cancelled

fun EmailJobStatus_as_str :: "EmailJobStatus \<Rightarrow> string" where
  "EmailJobStatus_as_str Pending = ''pending''"
| "EmailJobStatus_as_str Processing = ''processing''"
| "EmailJobStatus_as_str Completed = ''completed''"
| "EmailJobStatus_as_str Failed = ''failed''"
| "EmailJobStatus_as_str Cancelled = ''cancelled''"

text \<open>A row of \<^verbatim>\<open>email_jobs\<close>; \<open>'d\<close> is the type of the JSON template data, times are in seconds.\<close>

record 'd EmailJob =
  j_job_type :: string
  j_recipient_email :: string
  j_template_name :: string
  j_template_data :: 'd
  j_status :: string
  j_priority :: i32
  j_attempts :: i32
  j_max_attempts :: i32
  j_completed_at :: "int option"
  j_failed_at :: "int option"
  j_error_message :: "string option"
  j_created_at :: int
  j_updated_at :: int

record 'd DeadLetter =
  d_job_type :: string
  d_recipient_email :: string
  d_template_name :: string
  d_template_data :: 'd
  d_failure_reason :: string
  d_retry_count :: i32

record EmailEvent =
  v_email_job_id :: "Uuid option"
  v_message_id :: "string option"
  v_event_type :: string
  v_recipient_email :: string

section \<open>The world and its environment\<close>

record ('r, 'd) mail =
  m_store :: 'r
  m_jobs :: "Uuid \<Rightarrow> 'd EmailJob option"
  m_dead :: "Uuid \<Rightarrow> 'd DeadLetter option"
  m_suppressed :: "string \<Rightarrow> bool"
  m_events :: "EmailEvent list"
  m_accepted :: "(string \<times> string) list"
  m_calls :: nat

text \<open>
  SendGrid's answer to one request: no answer (the mail may have been accepted all the same), or a
  status with the value of the header \<^verbatim>\<open>x-message-id\<close>.
\<close>

datatype answer = No_Answer bool | Answer nat "string option"

record ('r, 'd) env =
  e_redis :: "'r redis"
  e_fate :: "nat \<Rightarrow> fate"
  e_clock :: int
  e_uuid_text :: "Uuid \<Rightarrow> string"
  e_uuid_parse :: "string \<Rightarrow> Uuid option"
  e_new_uuid :: "nat \<Rightarrow> Uuid"
  e_hmac_hex :: "string \<Rightarrow> string \<Rightarrow> string"
  e_validate_email :: "string \<Rightarrow> bool"
  e_render :: "string \<Rightarrow> 'd \<Rightarrow> string option"
  e_sendgrid :: "nat \<Rightarrow> answer"

datatype mail_error =
  Redis_Error | Db_Error | Invalid_Uuid | Job_Not_Found | Rate_Limit_Exceeded string nat |
  Bad_Address | Not_Configured | Render_Error | Network_Error | SendGrid_Error nat

type_synonym ('r, 'd, 'a) mailer = "(('r, 'd) mail, mail_error, 'a) comp"

text \<open>One external call: the schedule decides whether it runs and whether its result arrives.\<close>

definition external :: "('r, 'd) env \<Rightarrow> mail_error \<Rightarrow> (('r, 'd) mail \<Rightarrow> 'a \<times> ('r, 'd) mail) \<Rightarrow> ('r, 'd, 'a) mailer" where
  "external e err f s = (let s1 = s\<lparr>m_calls := m_calls s + 1\<rparr>; (x, t) = f s1 in
     case e_fate e (m_calls s) of Done \<Rightarrow> Ok x t | Lost \<Rightarrow> Err err s1 | Unacked \<Rightarrow> Err err t)"

text \<open>\<^verbatim>\<open>get_connection\<close> (pool and circuit breaker), a command that writes, a command that reads.\<close>

definition get_connection :: "('r, 'd) env \<Rightarrow> ('r, 'd, unit) mailer" where
  "get_connection e = external e Redis_Error (\<lambda>s. ((), s))"

definition redis_do :: "('r, 'd) env \<Rightarrow> ('r \<Rightarrow> 'r) \<Rightarrow> ('r, 'd, unit) mailer" where
  "redis_do e f = external e Redis_Error (\<lambda>s. ((), s\<lparr>m_store := f (m_store s)\<rparr>))"

definition redis_ask :: "('r, 'd) env \<Rightarrow> ('r \<Rightarrow> 'a) \<Rightarrow> ('r, 'd, 'a) mailer" where
  "redis_ask e f = external e Redis_Error (\<lambda>s. (f (m_store s), s))"

definition redis_run :: "('r, 'd) env \<Rightarrow> ('r \<Rightarrow> 'a \<times> 'r) \<Rightarrow> ('r, 'd, 'a) mailer" where
  "redis_run e f = external e Redis_Error (\<lambda>s. (fst (f (m_store s)), s\<lparr>m_store := snd (f (m_store s))\<rparr>))"

section \<open>The email tables: db.rs\<close>

definition email_create_job ::
  "('r, 'd) env \<Rightarrow> string \<Rightarrow> string \<Rightarrow> string \<Rightarrow> 'd \<Rightarrow> i32 \<Rightarrow> ('r, 'd, Uuid) mailer" where
  "email_create_job e job_type recipient template_name template_data priority =
     external e Db_Error (\<lambda>s. let job_id = e_new_uuid e (m_calls s) in
       (job_id, s\<lparr>m_jobs := (m_jobs s)(job_id \<mapsto>
          \<lparr>j_job_type = job_type, j_recipient_email = recipient, j_template_name = template_name,
           j_template_data = template_data, j_status = ''pending'', j_priority = priority, j_attempts = 0,
           j_max_attempts = 3, j_completed_at = None, j_failed_at = None, j_error_message = None,
           j_created_at = e_clock e, j_updated_at = e_clock e\<rparr>)\<rparr>))"

definition email_get_job :: "('r, 'd) env \<Rightarrow> Uuid \<Rightarrow> ('r, 'd, 'd EmailJob option) mailer" where
  "email_get_job e job_id = external e Db_Error (\<lambda>s. (m_jobs s job_id, s))"

definition update_job :: "Uuid \<Rightarrow> ('d EmailJob \<Rightarrow> 'd EmailJob) \<Rightarrow> ('r, 'd) mail \<Rightarrow> ('r, 'd) mail" where
  "update_job job_id f s = s\<lparr>m_jobs := (m_jobs s)(job_id := map_option f (m_jobs s job_id))\<rparr>"

definition email_update_job_status ::
  "('r, 'd) env \<Rightarrow> Uuid \<Rightarrow> string \<Rightarrow> string option \<Rightarrow> ('r, 'd, unit) mailer" where
  "email_update_job_status e job_id status error_message =
     external e Db_Error (\<lambda>s. ((), update_job job_id (\<lambda>j. j\<lparr>j_status := status,
       j_error_message := error_message, j_updated_at := e_clock e,
       j_completed_at := (if status = ''completed'' then Some (e_clock e) else j_completed_at j),
       j_failed_at := (if status = ''failed'' then Some (e_clock e) else j_failed_at j)\<rparr>) s))"

definition email_update_job_attempts ::
  "('r, 'd) env \<Rightarrow> Uuid \<Rightarrow> i32 \<Rightarrow> string option \<Rightarrow> ('r, 'd, unit) mailer" where
  "email_update_job_attempts e job_id attempts error_message =
     external e Db_Error (\<lambda>s. ((), update_job job_id (\<lambda>j. j\<lparr>j_attempts := attempts,
       j_error_message := error_message, j_updated_at := e_clock e\<rparr>) s))"

definition email_create_event ::
  "('r, 'd) env \<Rightarrow> Uuid option \<Rightarrow> string option \<Rightarrow> string \<Rightarrow> string \<Rightarrow> ('r, 'd, unit) mailer" where
  "email_create_event e job_id message_id event_type recipient =
     external e Db_Error (\<lambda>s. ((), s\<lparr>m_events := m_events s @
       [\<lparr>v_email_job_id = job_id, v_message_id = message_id, v_event_type = event_type,
         v_recipient_email = recipient\<rparr>]\<rparr>))"

definition email_is_suppressed :: "('r, 'd) env \<Rightarrow> string \<Rightarrow> ('r, 'd, bool) mailer" where
  "email_is_suppressed e email = external e Db_Error (\<lambda>s. (m_suppressed s email, s))"

definition email_create_dead_letter_job ::
  "('r, 'd) env \<Rightarrow> Uuid \<Rightarrow> 'd EmailJob \<Rightarrow> string \<Rightarrow> i32 \<Rightarrow> ('r, 'd, unit) mailer" where
  "email_create_dead_letter_job e job_id job failure_reason retry_count =
     external e Db_Error (\<lambda>s. ((), s\<lparr>m_dead := (m_dead s)(job_id \<mapsto>
       (case m_dead s job_id of
          Some row \<Rightarrow> row\<lparr>d_failure_reason := failure_reason, d_retry_count := retry_count\<rparr>
        | None \<Rightarrow> \<lparr>d_job_type = j_job_type job, d_recipient_email = j_recipient_email job,
            d_template_name = j_template_name job, d_template_data = j_template_data job,
            d_failure_reason = failure_reason, d_retry_count = retry_count\<rparr>))\<rparr>))"

definition email_delete_dead_letter_job :: "('r, 'd) env \<Rightarrow> Uuid \<Rightarrow> ('r, 'd, unit) mailer" where
  "email_delete_dead_letter_job e job_id =
     external e Db_Error (\<lambda>s. ((), s\<lparr>m_dead := (m_dead s)(job_id := None)\<rparr>))"

section \<open>Runs in which nothing fails\<close>

definition healthy :: "('r, 'd) env \<Rightarrow> bool" where
  "healthy e \<longleftrightarrow> (\<forall>n. e_fate e n = Done)"

named_theorems mail_eval \<open>how the operations of the email subsystem compute when no call fails\<close>

lemma external_healthy:
  "healthy e \<Longrightarrow> external e err f s =
     Ok (fst (f (s\<lparr>m_calls := m_calls s + 1\<rparr>))) (snd (f (s\<lparr>m_calls := m_calls s + 1\<rparr>)))"
  by (simp add: external_def healthy_def Let_def split: prod.split)

lemma calls_healthy [mail_eval]:
  assumes "healthy e"
  shows "get_connection e s = Ok () (s\<lparr>m_calls := m_calls s + 1\<rparr>)"
    and "redis_do e f s = Ok () (s\<lparr>m_calls := m_calls s + 1, m_store := f (m_store s)\<rparr>)"
    and "redis_ask e g s = Ok (g (m_store s)) (s\<lparr>m_calls := m_calls s + 1\<rparr>)"
    and "redis_run e h s = Ok (fst (h (m_store s))) (s\<lparr>m_calls := m_calls s + 1, m_store := snd (h (m_store s))\<rparr>)"
  by (simp_all add: get_connection_def redis_do_def redis_ask_def redis_run_def external_healthy [OF assms])

end
