(* ===== verification/Email_Service.thy ===== *)
theory Email_Service
  imports Mail_World
begin

text \<open>
  \<^verbatim>\<open>email/service.rs\<close>: address checks, the idempotency key, and sending through SendGrid with a limit
  per recipient, duplicate suppression and retries.
\<close>

section \<open>Operations\<close>

record mail_config =
  c_cache :: bool
  c_hourly_limit :: nat
  c_idem_ttl :: nat
  c_idempotency_secret :: string
  c_sendgrid_api_key :: "string option"
  c_from_email :: "string option"

definition show_i64 :: "int \<Rightarrow> string" where
  "show_i64 x = (if x < 0 then ''-'' @ show_int 10 (- x) else show_int 10 x)"

definition idempotency_key :: "('r, 'd) env \<Rightarrow> string \<Rightarrow> string \<Rightarrow> string \<Rightarrow> int \<Rightarrow> string" where
  "idempotency_key e recipient template_name secret bucket_time =
     (let hour_bucket = bucket_time sdiv 3600 in
      ''email:idem:'' @ e_hmac_hex e secret (recipient @ ''|'' @ template_name @ ''|'' @ show_i64 hour_bucket))"

definition sanitize_email :: "('r, 'd) env \<Rightarrow> string \<Rightarrow> ('r, 'd, string) mailer" where
  "sanitize_email e raw = (let trimmed = trim raw in
     thn (err_if (trimmed = []) Bad_Address)
     (thn (err_if (254 < length trimmed) Bad_Address)
     (thn (err_if (\<not> e_validate_email e trimmed) Bad_Address)
     (ret trimmed))))"

definition is_success :: "nat \<Rightarrow> bool" where
  "is_success status \<longleftrightarrow> 200 \<le> status \<and> status < 300"

definition is_server_error :: "nat \<Rightarrow> bool" where
  "is_server_error status \<longleftrightarrow> 500 \<le> status \<and> status < 600"

text \<open>One request to SendGrid; an accepted mail is recorded with its recipient and template.\<close>

definition post_mail :: "('r, 'd) env \<Rightarrow> string \<Rightarrow> string \<Rightarrow> ('r, 'd, answer) mailer" where
  "post_mail e recipient template_name s =
     (let a = e_sendgrid e (m_calls s);
          ok = (case a of No_Answer b \<Rightarrow> b | Answer status _ \<Rightarrow> is_success status)
      in Ok a (s\<lparr>m_calls := m_calls s + 1,
        m_accepted := (if ok then m_accepted s @ [(recipient, template_name)] else m_accepted s)\<rparr>))"

text \<open>The retry loop, by the number of attempts left.\<close>

primrec send_attempts :: "('r, 'd) env \<Rightarrow> string \<Rightarrow> string \<Rightarrow> nat \<Rightarrow> ('r, 'd, string) mailer" where
  "send_attempts e recipient template_name 0 = fail (SendGrid_Error 0)"
| "send_attempts e recipient template_name (Suc k) =
     bnd (post_mail e recipient template_name) (\<lambda>a. case a of
       No_Answer _ \<Rightarrow> fail Network_Error
     | Answer status message_id \<Rightarrow>
         if is_success status then ret (case message_id of Some m \<Rightarrow> m | None \<Rightarrow> ''unknown'')
         else if \<not> (status = 429 \<or> is_server_error status) \<or> k = 0 then fail (SendGrid_Error status)
         else send_attempts e recipient template_name k)"

text \<open>
  The pause before the next attempt, in milliseconds: the value of \<^verbatim>\<open>Retry-After\<close>, else an
  exponential backoff with jitter.
\<close>

definition retry_delay_ms :: "nat \<Rightarrow> u64 option \<Rightarrow> u64 \<Rightarrow> u64" where
  "retry_delay_ms attempt retry_after subsec_millis = (case retry_after of
     Some secs \<Rightarrow> secs * 1000
   | None \<Rightarrow> push_bit attempt 1 * 100 + subsec_millis mod 100)"

definition MAX_ATTEMPTS :: nat where "MAX_ATTEMPTS = 3"

definition rate_check :: "('r, 'd) env \<Rightarrow> mail_config \<Rightarrow> string \<Rightarrow> ('r, 'd, unit) mailer" where
  "rate_check e c recipient = doif (c_cache c)
     (let rate_key = ''email:rate:'' @ recipient @ '':'' @ show_int 10 (e_clock e div 3600) in
      bnd (redis_run e (incr_with_ttl_script (e_redis e) rate_key 3600)) (\<lambda>count.
      err_if (int (c_hourly_limit c) < count) (Rate_Limit_Exceeded recipient (c_hourly_limit c))))"

definition idem_redis_key :: "string \<Rightarrow> string" where
  "idem_redis_key key = ''email:idem:'' @ key"

text \<open>\<^verbatim>\<open>SET key 1 NX EX ttl\<close>: true when the key was not there.\<close>

definition set_nx :: "'r redis \<Rightarrow> string \<Rightarrow> nat \<Rightarrow> 'r \<Rightarrow> bool \<times> 'r" where
  "set_nx R key ttl r = (if present (r_view R r) key then (False, r) else (True, r_set R key (Num 1) ttl r))"

definition acquire :: "('r, 'd) env \<Rightarrow> mail_config \<Rightarrow> string option \<Rightarrow> ('r, 'd, bool) mailer" where
  "acquire e c idem_key = (case idem_key of
     Some key \<Rightarrow> if c_cache c then
         thn (get_connection e) (redis_run e (set_nx (e_redis e) (idem_redis_key key) (c_idem_ttl c)))
       else ret True
   | None \<Rightarrow> ret True)"

definition deliver :: "('r, 'd) env \<Rightarrow> mail_config \<Rightarrow> string \<Rightarrow> string \<Rightarrow> 'd \<Rightarrow> ('r, 'd, string) mailer" where
  "deliver e c raw_recipient template_name template_data =
     bnd (sanitize_email e raw_recipient) (\<lambda>recipient.
     thn (err_if (c_sendgrid_api_key c = None) Not_Configured)
     (thn (err_if (c_from_email c = None) Not_Configured)
     (bnd (ok_or (e_render e template_name template_data) Render_Error) (\<lambda>_.
     send_attempts e recipient template_name MAX_ATTEMPTS))))"

definition deduplicated :: "string \<Rightarrow> string" where
  "deduplicated key = ''deduplicated:'' @ key"

definition send_email_idempotent ::
  "('r, 'd) env \<Rightarrow> mail_config \<Rightarrow> string \<Rightarrow> string \<Rightarrow> 'd \<Rightarrow> string option \<Rightarrow> ('r, 'd, string) mailer" where
  "send_email_idempotent e c recipient template_name template_data idem_key =
     thn (rate_check e c recipient)
     (bnd (acquire e c idem_key) (\<lambda>acquired.
      if acquired then deliver e c recipient template_name template_data
      else ret (deduplicated (case idem_key of Some key \<Rightarrow> key | None \<Rightarrow> []))))"

definition send_email ::
  "('r, 'd) env \<Rightarrow> mail_config \<Rightarrow> string \<Rightarrow> string \<Rightarrow> 'd \<Rightarrow> ('r, 'd, string) mailer" where
  "send_email e c recipient template_name template_data =
     send_email_idempotent e c recipient template_name template_data
       (Some (idempotency_key e recipient template_name (c_idempotency_secret c) (e_clock e)))"

definition is_valid_template_name :: "string \<Rightarrow> bool" where
  "is_valid_template_name template_name \<longleftrightarrow> template_name \<in> {''newsletter_confirmation'',
     ''waitlist_confirmation'', ''contact_form_auto_response'', ''welcome_email''}"

section \<open>Attempts\<close>

text \<open>
  The state an operation leaves, whether it succeeds or fails.
\<close>

definition after :: "('s, 'e, 'a) comp \<Rightarrow> 's \<Rightarrow> 's" where
  "after m s = final s (m s)"

lemma send_attempts_store:
  "send_attempts e rcp tpl k s = Err err t \<Longrightarrow> m_store t = m_store s"
  "send_attempts e rcp tpl k s = Ok x t \<Longrightarrow> m_store t = m_store s"
  by (induction k arbitrary: s)
    (auto simp: post_mail_def run_eval Let_def split: answer.splits if_splits)

lemma deliver_store: "deliver e c rcp tpl d s = Err err t \<Longrightarrow> m_store t = m_store s"
  by (auto simp: deliver_def sanitize_email_def run_eval Let_def send_attempts_store split: if_splits option.splits)

text \<open>How many requests a delivery makes, and that it always ends with an answer of SendGrid or an error.\<close>

lemma send_attempts_calls:
  "send_attempts e rcp tpl k s = r \<Longrightarrow> r \<noteq> Trap \<and> m_calls (final s r) \<le> m_calls s + k"
  by (induction k arbitrary: s r)
    (fastforce simp: post_mail_def run_eval final_def Let_def split: answer.splits res.splits if_splits)+

section \<open>Duplicate suppression\<close>

text \<open>Errors that are raised before the idempotency key is taken.\<close>

fun early_error :: "mail_error \<Rightarrow> bool" where
  "early_error Redis_Error = True"
| "early_error (Rate_Limit_Exceeded _ _) = True"
| "early_error _ = False"

lemma deliver_error: "deliver e c rcp tpl d s = Err err t \<Longrightarrow> \<not> early_error err"
proof -
  have "send_attempts e rcp tpl k s = Err err t \<Longrightarrow> \<not> early_error err" for rcp k s
    by (induction k arbitrary: s) (auto simp: post_mail_def run_eval Let_def split: answer.splits if_splits)
  then show "deliver e c rcp tpl d s = Err err t \<Longrightarrow> \<not> early_error err"
    by (auto simp: deliver_def sanitize_email_def run_eval Let_def split: if_splits option.splits)
qed

lemma external_Err: "external e err f s = Err err' t \<Longrightarrow> err' = err"
  by (auto simp: external_def Let_def split: fate.splits prod.splits)

lemma acquire_Err: "acquire e c k s = Err err t \<Longrightarrow> early_error err"
  by (auto simp: acquire_def run_eval get_connection_def redis_run_def split: option.splits if_splits res.splits
      dest!: external_Err)

lemma rate_check_Err: "rate_check e c rcp s = Err err t \<Longrightarrow> early_error err"
  by (auto simp: rate_check_def run_eval redis_run_def Let_def split: if_splits res.splits dest!: external_Err)

text \<open>The key is taken by a successful \<open>acquire\<close>, and stays taken until its time to live is over.\<close>

lemma acquire_taken:
  assumes "redis_laws (e_redis e)" and "c_cache c" and "acquire e c (Some k) s = Ok True t"
  shows "present (r_view (e_redis e) (m_store t)) (idem_redis_key k) \<and>
    ttls (r_view (e_redis e) (m_store t)) (idem_redis_key k) = Some (1000 * c_idem_ttl c)"
  using assms(2,3)
  by (auto simp: acquire_def run_eval get_connection_def redis_run_def external_def Let_def set_nx_def
      redis_lawsD [OF assms(1)] present_def split: fate.splits if_splits res.splits)

lemma failed_send_taken:
  assumes "redis_laws (e_redis e)" and "c_cache c"
    and "send_email_idempotent e c rcp tpl d (Some k) s = Err err t" and "\<not> early_error err"
  shows "present (r_view (e_redis e) (m_store t)) (idem_redis_key k) \<and>
    ttls (r_view (e_redis e) (m_store t)) (idem_redis_key k) = Some (1000 * c_idem_ttl c)"
proof -
  obtain s1 where s1: "rate_check e c rcp s = Ok () s1"
    using assms(3,4) rate_check_Err [of e c rcp s]
    by (cases "rate_check e c rcp s") (auto simp: send_email_idempotent_def thn_def bnd_def)
  obtain b s2 where s2: "acquire e c (Some k) s1 = Ok b s2"
    using assms(3,4) s1 acquire_Err [of e c "Some k" s1]
    by (cases "acquire e c (Some k) s1") (auto simp: send_email_idempotent_def thn_def bnd_def)
  have "b" "deliver e c rcp tpl d s2 = Err err t"
    using assms(3) s1 s2 by (auto simp: send_email_idempotent_def run_eval split: if_splits)
  with acquire_taken [OF assms(1,2), of k s1 s2] s2 deliver_store [of e c rcp tpl d s2 err t] show ?thesis by simp
qed

lemma present_aged:
  "present v k \<Longrightarrow> ttls v k = Some t \<Longrightarrow> d < t \<Longrightarrow> present (aged d v) k"
  by (auto simp: present_def aged_def expired_def)

text \<open>The same world, some milliseconds later on the server.\<close>

definition later :: "('r, 'd) env \<Rightarrow> nat \<Rightarrow> ('r, 'd) mail \<Rightarrow> ('r, 'd) mail" where
  "later e d s = s\<lparr>m_store := r_elapse (e_redis e) d (m_store s)\<rparr>"

lemma with_string_present: "present v k \<Longrightarrow> present (with_string k' (Some x) v) k"
  by (simp add: present_def)

lemma present_incr_script:
  "redis_laws R \<Longrightarrow> present (r_view R r) k \<Longrightarrow> present (r_view R (snd (incr_with_ttl_script R k' ttl r))) k"
  by (auto simp: incr_with_ttl_script_def Let_def redis_lawsD present_def)

lemma send_present:
  assumes "redis_laws (e_redis e)" and "healthy e" and "c_cache c"
    and "present (r_view (e_redis e) (m_store u)) (idem_redis_key k)"
    and "count_of (strings (r_view (e_redis e) (m_store u)) (''email:rate:'' @ rcp @ '':'' @ show_int 10 (e_clock e div 3600)))
      < int (c_hourly_limit c)"
  shows "\<exists>v. send_email_idempotent e c rcp tpl d (Some k) u = Ok (deduplicated k) v \<and>
    m_accepted v = m_accepted u \<and> m_jobs v = m_jobs u"
proof -
  let ?rk = "''email:rate:'' @ rcp @ '':'' @ show_int 10 (e_clock e div 3600)"
  let ?R = "e_redis e"
  have c: "fst (incr_with_ttl_script ?R ?rk 3600 (m_store u)) = count_of (strings (r_view ?R (m_store u)) ?rk) + 1"
    by (simp add: incr_with_ttl_script_def Let_def get_string_def redis_lawsD [OF assms(1)] count_of_def)
  have r: "rate_check e c rcp u = Ok () (u\<lparr>m_calls := m_calls u + 1,
      m_store := snd (incr_with_ttl_script ?R ?rk 3600 (m_store u))\<rparr>)"
    using assms(3,5) c by (simp add: rate_check_def run_eval calls_healthy [OF assms(2)] Let_def)
  have "present (r_view ?R (snd (incr_with_ttl_script ?R ?rk 3600 (m_store u)))) (idem_redis_key k)"
    by (rule present_incr_script [OF assms(1,4)])
  with assms(3) have "acquire e c (Some k) (u\<lparr>m_calls := m_calls u + 1,
      m_store := snd (incr_with_ttl_script ?R ?rk 3600 (m_store u))\<rparr>) = Ok False (u\<lparr>m_calls := m_calls u + 3,
      m_store := snd (incr_with_ttl_script ?R ?rk 3600 (m_store u))\<rparr>)"
    by (simp add: acquire_def run_eval calls_healthy [OF assms(2)] set_nx_def)
  with r show ?thesis by (simp add: send_email_idempotent_def run_eval)
qed

text \<open>
  A mail whose delivery failed is never sent again: the idempotency key is taken before the
  delivery is tried and is not given back when it fails, so that a retry within the time to live reports success
  as a duplicate, although SendGrid has accepted nothing.
\<close>

theorem failed_send_suppresses_retry:
  assumes "redis_laws (e_redis e)" and "c_cache c"
    and "send_email_idempotent e c rcp tpl d (Some k) s = Err err t" and "\<not> early_error err"
    and "e_redis e' = e_redis e" and "healthy e'" and "elapsed < 1000 * c_idem_ttl c"
    and "count_of (strings (r_view (e_redis e) (m_store (later e elapsed t)))
      (''email:rate:'' @ rcp @ '':'' @ show_int 10 (e_clock e' div 3600))) < int (c_hourly_limit c)"
  shows "\<exists>v. send_email_idempotent e' c rcp tpl d (Some k) (later e elapsed t) = Ok (deduplicated k) v \<and>
    m_accepted v = m_accepted t"
proof -
  note taken = failed_send_taken [OF assms(1-4)]
  have "present (r_view (e_redis e') (m_store (later e elapsed t))) (idem_redis_key k)"
    using taken assms(7) by (auto simp: later_def assms(5) redis_lawsD(10) [OF assms(1)] intro: present_aged)
  from send_present [OF _ assms(6,2) this, of rcp tpl d] assms show ?thesis by (auto simp: later_def)
qed

text \<open>
  A concrete environment: Redis as a table, nothing lost, a keyed hash that returns its message, and
  SendGrid answering as given; UUIDs are written in the hyphenated form of the crate.
\<close>

definition hex_digits :: "Uuid \<Rightarrow> string" where
  "hex_digits u = map (\<lambda>k. digit_char (uint (drop_bit (4 * k) u) mod 16)) (rev [0..<32])"

definition hyphenated :: "Uuid \<Rightarrow> string" where
  "hyphenated u = (let h = hex_digits u in take 8 h @ ''-'' @ take 4 (drop 8 h) @ ''-'' @ take 4 (drop 12 h) @ ''-'' @
     take 4 (drop 16 h) @ ''-'' @ drop 20 h)"

definition sample_env :: "(nat \<Rightarrow> answer) \<Rightarrow> int \<Rightarrow> (table, unit) env" where
  "sample_env answers now = \<lparr>e_redis = table_redis, e_fate = (\<lambda>_. Done), e_clock = now, e_uuid_text = hyphenated,
     e_uuid_parse = (\<lambda>_. None), e_new_uuid = of_nat, e_hmac_hex = (\<lambda>_ m. m), e_validate_email = (\<lambda>_. True),
     e_render = (\<lambda>_ _. Some []), e_sendgrid = answers\<rparr>"

definition empty_mail :: "(table, unit) mail" where
  "empty_mail = \<lparr>m_store = empty_table, m_jobs = (\<lambda>_. None), m_dead = (\<lambda>_. None), m_suppressed = (\<lambda>_. False),
     m_events = [], m_accepted = [], m_calls = 0\<rparr>"

definition sample_config :: mail_config where
  "sample_config = \<lparr>c_cache = True, c_hourly_limit = 10, c_idem_ttl = 86400, c_idempotency_secret = ''s'',
     c_sendgrid_api_key = Some ''k'', c_from_email = Some ''f''\<rparr>"

lemmas sample_mail_defs = sample_env_def empty_mail_def sample_config_def

lemma healthy_sample [simp]: "healthy (sample_env answers now)"
  by (simp add: healthy_def sample_env_def)

lemma sample_env_sel [simp]:
  "e_redis (sample_env answers now) = table_redis" "e_clock (sample_env answers now) = now"
  "e_uuid_text (sample_env answers now) = hyphenated" "e_validate_email (sample_env answers now) a"
  "e_render (sample_env answers now) tpl d = Some []" "e_sendgrid (sample_env answers now) = answers"
  by (simp_all add: sample_env_def)

lemma show_int_7200: "show_int 10 2 = ''2''" "show_int 10 0 = ''0''"
  by (simp_all add: show_int_def digits_of.simps digit_char_def char_of_def)

theorem failed_send_suppresses_retry_witness:
  "\<exists>t v. send_email_idempotent (sample_env (\<lambda>_. Answer 503 None) 7200) sample_config ''a@b.c'' ''w'' () (Some ''k'') empty_mail =
      Err (SendGrid_Error 503) t \<and>
    send_email_idempotent (sample_env (\<lambda>_. Answer 202 None) 7320) sample_config ''a@b.c'' ''w'' () (Some ''k'')
      (later (sample_env (\<lambda>_. Answer 503 None) 7200) 120000 t) = Ok (deduplicated ''k'') v \<and> m_accepted v = []"
proof -
  have tr: "trim ''a@b.c'' = ''a@b.c''" by (rule trim_visible) (simp add: visible_def)
  let ?e = "sample_env (\<lambda>_. Answer 503 None) 7200"
  have rk: "''email:rate:'' @ ''a@b.c'' @ '':'' @ show_int 10 (e_clock (sample_env (\<lambda>_. Answer 202 None) 7320) div 3600) =
      ''email:rate:a@b.c:2''" by (simp add: show_int_7200)
  obtain t where t: "send_email_idempotent ?e sample_config ''a@b.c'' ''w'' () (Some ''k'') empty_mail =
      Err (SendGrid_Error 503) t \<and> m_accepted t = [] \<and>
      count_of (strings (r_view table_redis (m_store t)) ''email:rate:a@b.c:2'') = 1"
    by (simp add: send_email_idempotent_def rate_check_def acquire_def deliver_def sanitize_email_def run_eval
        calls_healthy tr Let_def sample_config_def MAX_ATTEMPTS_def numeral_3_eq_3 post_mail_def is_success_def
        is_server_error_def show_int_7200 incr_with_ttl_script_def get_string_def set_nx_def
        redis_lawsD [OF table_redis_laws] empty_mail_def count_of_def present_def idem_redis_key_def)
  have "count_of (strings (r_view (e_redis ?e) (m_store (later ?e 120000 t)))
      (''email:rate:'' @ ''a@b.c'' @ '':'' @ show_int 10 (e_clock (sample_env (\<lambda>_. Answer 202 None) 7320) div 3600)))
      < int (c_hourly_limit sample_config)"
    using t unfolding rk
    by (auto simp: later_def redis_lawsD [OF table_redis_laws] aged_def sample_config_def count_of_def split: if_splits)
  from failed_send_suppresses_retry [OF _ _ conjunct1 [OF t] _ _ _ _ this] t show ?thesis
    by (auto simp: table_redis_laws sample_config_def)
qed

end
