(* ===== verification/Email_Queue.thy ===== *)
theory Email_Queue
  imports Email_Service
begin

text \<open>
  \<^verbatim>\<open>email/queue.rs\<close>: the queue of email jobs in four sorted sets (waiting, in processing, waiting for a
  retry, dead), the two Lua scripts that move jobs in bulk, and one turn of the worker.
\<close>

section \<open>Lua patterns\<close>

text \<open>
  \<^verbatim>\<open>string.find\<close> as the recovery script uses it: a pattern character stands for itself, a dot for
  any character; a following \<^verbatim>\<open>*\<close>, \<^verbatim>\<open>+\<close>, \<^verbatim>\<open>-\<close> or \<^verbatim>\<open>?\<close> repeats it (a minus sign is the shortest repetition, not a
  character); a final dollar sign anchors the match at the end. The identifiers put into patterns contain none of the other
  special characters.
\<close>

definition single_match :: "char \<Rightarrow> char \<Rightarrow> bool" where
  "single_match c x \<longleftrightarrow> c = CHR ''.'' \<or> c = x"

function lua_match :: "string \<Rightarrow> string \<Rightarrow> bool" and lua_repeat :: "char \<Rightarrow> string \<Rightarrow> string \<Rightarrow> bool" where
  "lua_match [] s = True"
| "lua_match (c # p) s =
     (if c = CHR ''$'' \<and> p = [] then s = []
      else if p \<noteq> [] \<and> (hd p = CHR ''-'' \<or> hd p = CHR ''*'') then lua_repeat c (tl p) s
      else if p \<noteq> [] \<and> hd p = CHR ''+'' then
        (case s of x # t \<Rightarrow> single_match c x \<and> lua_repeat c (tl p) t | [] \<Rightarrow> False)
      else if p \<noteq> [] \<and> hd p = CHR ''?'' then
        (case s of x # t \<Rightarrow> single_match c x \<and> lua_match (tl p) t | [] \<Rightarrow> False) \<or> lua_match (tl p) s
      else (case s of x # t \<Rightarrow> single_match c x \<and> lua_match p t | [] \<Rightarrow> False))"
| "lua_repeat c p s = (lua_match p s \<or>
     (case s of x # t \<Rightarrow> single_match c x \<and> lua_repeat c p t | [] \<Rightarrow> False))"
  by pat_completeness auto
termination
  by (relation "measures [\<lambda>x. case x of Inl (p, s) \<Rightarrow> 2 * length p | Inr (c, p, s) \<Rightarrow> 2 * length p + 1,
      \<lambda>x. case x of Inl (p, s) \<Rightarrow> length s | Inr (c, p, s) \<Rightarrow> length s]") auto

definition lua_find :: "string \<Rightarrow> string \<Rightarrow> bool" where
  "lua_find p s = list_ex (lua_match p) (suffixes s)"

section \<open>Operations\<close>

definition EMAIL_QUEUE_KEY :: string where "EMAIL_QUEUE_KEY = ''email:queue''"
definition EMAIL_PROCESSING_KEY :: string where "EMAIL_PROCESSING_KEY = ''email:processing''"
definition EMAIL_RETRY_KEY :: string where "EMAIL_RETRY_KEY = ''email:retry''"
definition EMAIL_DEAD_LETTER_KEY :: string where "EMAIL_DEAD_LETTER_KEY = ''email:dead_letter''"
definition MAX_BACKOFF_EXPONENT :: int where "MAX_BACKOFF_EXPONENT = 20"
definition DEAD_LETTER_REQUEUE_DELAY_SECS :: int where "DEAD_LETTER_REQUEUE_DELAY_SECS = 60"

definition enqueue ::
  "('r, 'd) env \<Rightarrow> EmailJobType \<Rightarrow> string \<Rightarrow> string \<Rightarrow> 'd \<Rightarrow> i32 \<Rightarrow> ('r, 'd, Uuid) mailer" where
  "enqueue e job_type recipient template_name template_data priority =
     bnd (email_create_job e (EmailJobType_as_str job_type) recipient template_name template_data priority) (\<lambda>job_id.
     let score = (if 0 < priority then - priority else e_clock e) in
     thn (get_connection e)
     (thn (redis_do e (r_zadd (e_redis e) EMAIL_QUEUE_KEY score (e_uuid_text e job_id)))
     (ret job_id)))"

text \<open>\<^verbatim>\<open>ZPOPMIN\<close>: the reply, and the set without it.\<close>

definition pop_min :: "'r redis \<Rightarrow> string \<Rightarrow> 'r \<Rightarrow> (string \<times> int) option \<times> 'r" where
  "pop_min R k r = (zmin R k r, r_zpopmin R k r)"

definition dequeue :: "('r, 'd) env \<Rightarrow> string \<Rightarrow> ('r, 'd, Uuid option) mailer" where
  "dequeue e worker_id =
     thn (get_connection e)
     (bnd (redis_run e (pop_min (e_redis e) EMAIL_QUEUE_KEY)) (\<lambda>result. case result of
        Some (job_id_str, _) \<Rightarrow>
          bnd (ok_or (e_uuid_parse e job_id_str) Invalid_Uuid) (\<lambda>job_id.
          let member = worker_id @ '':'' @ job_id_str in
          thn (redis_do e (r_zadd (e_redis e) EMAIL_PROCESSING_KEY (e_clock e) member))
          (ret (Some job_id)))
      | None \<Rightarrow> ret None))"

definition ends_with :: "string \<Rightarrow> string \<Rightarrow> bool" where
  "ends_with s t \<longleftrightarrow> suffix t s"

text \<open>The loop that drops the first entry of a job from the processing set.\<close>

primrec remove_first :: "('r, 'd) env \<Rightarrow> string \<Rightarrow> string list \<Rightarrow> ('r, 'd, unit) mailer" where
  "remove_first e tail [] = ret ()"
| "remove_first e tail (member # members) =
     (if ends_with member tail then redis_do e (r_zrem (e_redis e) EMAIL_PROCESSING_KEY member)
      else remove_first e tail members)"

definition remove_from_processing :: "('r, 'd) env \<Rightarrow> Uuid \<Rightarrow> ('r, 'd, unit) mailer" where
  "remove_from_processing e job_id =
     thn (get_connection e)
     (bnd (redis_ask e (zrange (e_redis e) EMAIL_PROCESSING_KEY)) (\<lambda>members.
     remove_first e ('':'' @ e_uuid_text e job_id) members))"

text \<open>\<^verbatim>\<open>match self.db.email_get_job(..)\<close> with a default for a missing row and for an error.\<close>

definition recipient_of :: "('r, 'd) env \<Rightarrow> Uuid \<Rightarrow> ('r, 'd, string) mailer" where
  "recipient_of e job_id s = (case email_get_job e job_id s of
     Ok (Some job) t \<Rightarrow> Ok (j_recipient_email job) t
   | Ok None t \<Rightarrow> Ok [] t
   | Err _ t \<Rightarrow> Ok [] t
   | Trap \<Rightarrow> Trap)"

definition mark_completed :: "('r, 'd) env \<Rightarrow> Uuid \<Rightarrow> string option \<Rightarrow> ('r, 'd, unit) mailer" where
  "mark_completed e job_id message_id =
     thn (email_update_job_status e job_id (EmailJobStatus_as_str Completed) None)
     (thn (remove_from_processing e job_id)
     (case message_id of
        Some msg_id \<Rightarrow> bnd (recipient_of e job_id) (\<lambda>recipient.
          email_create_event e (Some job_id) (Some msg_id) ''sent'' recipient)
      | None \<Rightarrow> ret ()))"

definition compute_backoff_seconds :: "i32 \<Rightarrow> u64" where
  "compute_backoff_seconds new_attempts =
     (let backoff_exponent = max 0 (min new_attempts MAX_BACKOFF_EXPONENT)
      in 2 ^ nat backoff_exponent * 60)"

text \<open>\<^verbatim>\<open>i32\<close> addition in a release build wraps around.\<close>

definition wrap_i32 :: "int \<Rightarrow> i32" where
  "wrap_i32 x = (x + 2 ^ 31) mod 2 ^ 32 - 2 ^ 31"

definition mark_failed :: "('r, 'd) env \<Rightarrow> Uuid \<Rightarrow> string \<Rightarrow> ('r, 'd, unit) mailer" where
  "mark_failed e job_id error =
     bnd (email_get_job e job_id) (\<lambda>found. case found of
       None \<Rightarrow> ret ()
     | Some job \<Rightarrow>
         let new_attempts = wrap_i32 (j_attempts job + 1) in
         thn (if new_attempts < j_max_attempts job then
              let retry_at = e_clock e + uint (compute_backoff_seconds new_attempts) in
              thn (email_update_job_attempts e job_id new_attempts (Some error))
              (thn (get_connection e)
              (redis_do e (r_zadd (e_redis e) EMAIL_RETRY_KEY retry_at (e_uuid_text e job_id))))
            else
              thn (email_update_job_status e job_id (EmailJobStatus_as_str Failed) (Some error))
              (thn (get_connection e)
              (thn (redis_do e (r_zadd (e_redis e) EMAIL_DEAD_LETTER_KEY (e_clock e) (e_uuid_text e job_id)))
              (discard (email_create_dead_letter_job e job_id job error new_attempts)))))
         (remove_from_processing e job_id))"

text \<open>The script of \<^verbatim>\<open>process_retries\<close>: the jobs are named in the arguments.\<close>

fun retry_script :: "'r redis \<Rightarrow> int \<Rightarrow> string list \<Rightarrow> 'r \<Rightarrow> 'r" where
  "retry_script R now [] r = r"
| "retry_script R now (job_id # job_ids) r =
     retry_script R now job_ids (r_zrem R EMAIL_RETRY_KEY job_id (r_zadd R EMAIL_QUEUE_KEY now job_id r))"

definition process_retries :: "('r, 'd) env \<Rightarrow> ('r, 'd, nat) mailer" where
  "process_retries e =
     thn (get_connection e)
     (bnd (redis_ask e (zrangebyscore (e_redis e) EMAIL_RETRY_KEY (e_clock e))) (\<lambda>jobs.
     if length jobs = 0 then ret 0
     else redis_run e (\<lambda>r. (length jobs, retry_script (e_redis e) (e_clock e) jobs r))))"

definition list_dead_letter :: "('r, 'd) env \<Rightarrow> ('r, 'd, Uuid list) mailer" where
  "list_dead_letter e =
     thn (get_connection e)
     (bnd (redis_ask e (zrange (e_redis e) EMAIL_DEAD_LETTER_KEY)) (\<lambda>items.
     ok_or (those (map (e_uuid_parse e) items)) Invalid_Uuid))"

definition zrem_count :: "'r redis \<Rightarrow> string \<Rightarrow> string \<Rightarrow> 'r \<Rightarrow> nat \<times> 'r" where
  "zrem_count R k m r = (if m \<in> set (zrange R k r) then 1 else 0, r_zrem R k m r)"

definition requeue_dead_letter :: "('r, 'd) env \<Rightarrow> Uuid \<Rightarrow> ('r, 'd, bool) mailer" where
  "requeue_dead_letter e job_id =
     thn (get_connection e)
     (bnd (redis_run e (zrem_count (e_redis e) EMAIL_DEAD_LETTER_KEY (e_uuid_text e job_id))) (\<lambda>removed.
     if removed = 0 then ret False
     else
       thn (email_update_job_attempts e job_id 0 None)
       (thn (email_update_job_status e job_id (EmailJobStatus_as_str Pending) None)
       (let eligible_at = e_clock e + DEAD_LETTER_REQUEUE_DELAY_SECS in
        thn (redis_do e (r_zadd (e_redis e) EMAIL_QUEUE_KEY eligible_at (e_uuid_text e job_id)))
        (thn (discard (email_delete_dead_letter_job e job_id))
        (ret True))))))"

record QueueStats =
  s_pending :: nat
  s_processing :: nat
  s_retry :: nat
  s_dead_letter :: nat

definition get_stats :: "('r, 'd) env \<Rightarrow> ('r, 'd, QueueStats) mailer" where
  "get_stats e =
     thn (get_connection e)
     (bnd (redis_ask e (zcard (e_redis e) EMAIL_QUEUE_KEY)) (\<lambda>pending.
     bnd (redis_ask e (zcard (e_redis e) EMAIL_PROCESSING_KEY)) (\<lambda>processing.
     bnd (redis_ask e (zcard (e_redis e) EMAIL_RETRY_KEY)) (\<lambda>retry.
     bnd (redis_ask e (zcard (e_redis e) EMAIL_DEAD_LETTER_KEY)) (\<lambda>dead_letter.
     ret \<lparr>s_pending = pending, s_processing = processing, s_retry = retry, s_dead_letter = dead_letter\<rparr>)))))"

definition get_queue_depth :: "('r, 'd) env \<Rightarrow> ('r, 'd, nat) mailer" where
  "get_queue_depth e = thn (get_connection e) (redis_ask e (zcard (e_redis e) EMAIL_QUEUE_KEY))"

definition get_processing_count :: "('r, 'd) env \<Rightarrow> ('r, 'd, nat) mailer" where
  "get_processing_count e = thn (get_connection e) (redis_ask e (zcard (e_redis e) EMAIL_PROCESSING_KEY))"

definition heartbeat_key :: "string \<Rightarrow> string" where
  "heartbeat_key worker_id = ''email:worker:heartbeat:'' @ worker_id"

definition update_worker_heartbeat :: "('r, 'd) env \<Rightarrow> string \<Rightarrow> ('r, 'd, unit) mailer" where
  "update_worker_heartbeat e worker_id =
     thn (get_connection e)
     (redis_do e (r_set (e_redis e) (heartbeat_key worker_id) (Num (e_clock e)) 60))"

subsection \<open>Recovery of orphaned jobs\<close>

text \<open>The stale entries by worker; an entry without a colon is an identifier of the old format.\<close>

definition worker_and_job :: "string \<Rightarrow> string \<times> string" where
  "worker_and_job entry = (case split_once CHR '':'' entry of
     Some (worker_id, job_id) \<Rightarrow> (worker_id, job_id) | None \<Rightarrow> (''unknown'', entry))"

fun add_to_worker :: "string \<Rightarrow> string \<Rightarrow> (string \<times> string list) list \<Rightarrow> (string \<times> string list) list" where
  "add_to_worker w j [] = [(w, [j])]"
| "add_to_worker w j ((v, js) # ws) = (if v = w then (v, js @ [j]) # ws else (v, js) # add_to_worker w j ws)"

definition group_by_worker :: "string list \<Rightarrow> (string \<times> string list) list" where
  "group_by_worker entries = fold (\<lambda>entry. add_to_worker (fst (worker_and_job entry)) (snd (worker_and_job entry))) entries []"

definition worker_is_dead :: "int \<Rightarrow> rstring option \<Rightarrow> bool" where
  "worker_is_dead stale_cutoff last_heartbeat = (case last_heartbeat of
     Some (Num hb) \<Rightarrow> hb < stale_cutoff | Some (Text _) \<Rightarrow> False | None \<Rightarrow> True)"

primrec jobs_of_dead :: "('r, 'd) env \<Rightarrow> int \<Rightarrow> (string \<times> string list) list \<Rightarrow> ('r, 'd, string list) mailer" where
  "jobs_of_dead e stale_cutoff [] = ret []"
| "jobs_of_dead e stale_cutoff (wj # ws) =
     bnd (redis_ask e (get_string (e_redis e) (heartbeat_key (fst wj)))) (\<lambda>last_heartbeat.
     bnd (jobs_of_dead e stale_cutoff ws) (\<lambda>rest.
     ret ((if worker_is_dead stale_cutoff last_heartbeat then snd wj else []) @ rest)))"

definition recovers :: "string \<Rightarrow> string \<Rightarrow> bool" where
  "recovers job_id member \<longleftrightarrow> lua_find ('':'' @ job_id @ ''$'') member \<or> member = job_id"

fun recover_script :: "'r redis \<Rightarrow> int \<Rightarrow> string list \<Rightarrow> 'r \<Rightarrow> 'r" where
  "recover_script R now [] r = r"
| "recover_script R now (job_id # job_ids) r =
     recover_script R now job_ids (r_zadd R EMAIL_QUEUE_KEY now job_id
       (case find (recovers job_id) (zrange R EMAIL_PROCESSING_KEY r) of
          Some member \<Rightarrow> r_zrem R EMAIL_PROCESSING_KEY member r
        | None \<Rightarrow> r))"

definition recover_orphaned_jobs :: "('r, 'd) env \<Rightarrow> nat \<Rightarrow> ('r, 'd, nat) mailer" where
  "recover_orphaned_jobs e stale_threshold_secs =
     thn (get_connection e)
     (let stale_cutoff = e_clock e - int stale_threshold_secs in
      bnd (redis_ask e (zrangebyscore (e_redis e) EMAIL_PROCESSING_KEY stale_cutoff)) (\<lambda>stale_entries.
      if length stale_entries = 0 then ret 0
      else
        bnd (jobs_of_dead e stale_cutoff (group_by_worker stale_entries)) (\<lambda>jobs_to_recover.
        if jobs_to_recover = [] then ret 0
        else redis_run e (\<lambda>r. (length jobs_to_recover, recover_script (e_redis e) (e_clock e) jobs_to_recover r)))))"

subsection \<open>The worker\<close>

definition process_job :: "('r, 'd) env \<Rightarrow> mail_config \<Rightarrow> Uuid \<Rightarrow> ('r, 'd, unit) mailer" where
  "process_job e c job_id =
     bnd (email_get_job e job_id) (\<lambda>found.
     bnd (ok_or found Job_Not_Found) (\<lambda>job.
     bnd (email_is_suppressed e (j_recipient_email job)) (\<lambda>suppressed.
     if suppressed then mark_completed e job_id None
     else
       thn (email_update_job_status e job_id (EmailJobStatus_as_str Processing) None)
       (let idem = idempotency_key e (j_recipient_email job) (j_template_name job) (c_idempotency_secret c) (j_created_at job) in
        bnd (send_email_idempotent e c (j_recipient_email job) (j_template_name job) (j_template_data job) (Some idem))
        (\<lambda>message_id. mark_completed e job_id (Some message_id))))))"

text \<open>
  One turn of the worker's loop after the heartbeat: due retries, then the next job; an error of the
  job is recorded with its text.
\<close>

definition worker_turn :: "('r, 'd) env \<Rightarrow> mail_config \<Rightarrow> string \<Rightarrow> (mail_error \<Rightarrow> string) \<Rightarrow> ('r, 'd, unit) mailer" where
  "worker_turn e c worker_id show_error =
     thn (discard (process_retries e))
     (\<lambda>s. case dequeue e worker_id s of
        Ok (Some job_id) t \<Rightarrow> (case process_job e c job_id t of
            Ok _ u \<Rightarrow> Ok () u
          | Err err u \<Rightarrow> discard (mark_failed e job_id (show_error err)) u
          | Trap \<Rightarrow> Trap)
      | Ok None t \<Rightarrow> Ok () t
      | Err _ t \<Rightarrow> Ok () t
      | Trap \<Rightarrow> Trap)"

section \<open>The recovery pattern never matches\<close>

definition hexdigit :: "char \<Rightarrow> bool" where
  "hexdigit c \<longleftrightarrow> to_digit 16 c \<noteq> None"

text \<open>The text of a UUID: five groups of hexadecimal digits with hyphens between them.\<close>

definition uuid_form :: "string \<Rightarrow> bool" where
  "uuid_form u \<longleftrightarrow> map length (split_at CHR ''-'' u) = [8, 4, 4, 4, 12] \<and>
     list_all (list_all hexdigit) (split_at CHR ''-'' u)"

text \<open>An entry of the processing set: the worker, a colon, the job.\<close>

definition entry_form :: "string \<Rightarrow> bool" where
  "entry_form m \<longleftrightarrow> (case split_once CHR '':'' m of Some (w, u) \<Rightarrow> uuid_form u | None \<Rightarrow> False)"

lemma hexdigit_plain:
  "hexdigit c \<Longrightarrow> c \<noteq> CHR ''-'' \<and> c \<noteq> CHR ''.'' \<and> c \<noteq> CHR '':'' \<and> c \<noteq> CHR ''$'' \<and> c \<noteq> CHR ''*'' \<and> c \<noteq> CHR ''+'' \<and> c \<noteq> CHR ''?''"
  by (auto simp: hexdigit_def to_digit_def)

text \<open>A pattern in which every hyphen follows a character and therefore repeats it.\<close>

fun tame :: "string \<Rightarrow> bool" where
  "tame [] = False"
| "tame (c # p) = (if c = CHR ''$'' \<and> p = [] then True
     else c \<noteq> CHR ''-'' \<and> c \<noteq> CHR ''.'' \<and>
       (if p \<noteq> [] \<and> hd p = CHR ''-'' then tame (tl p)
        else (p = [] \<or> hd p \<notin> {CHR ''*'', CHR ''+'', CHR ''?''}) \<and> tame p))"

lemma tame_match:
  "lua_match p s \<Longrightarrow> tame p \<Longrightarrow> CHR ''-'' \<notin> set s"
  "lua_repeat c p s \<Longrightarrow> tame p \<Longrightarrow> c \<noteq> CHR ''-'' \<Longrightarrow> c \<noteq> CHR ''.'' \<Longrightarrow> CHR ''-'' \<notin> set s"
proof (induction p s and c p s rule: lua_match_lua_repeat.induct)
  case (2 c p s)
  show ?case
  proof (cases "c = CHR ''$'' \<and> p = []")
    case False
    then have c: "c \<noteq> CHR ''-''" "c \<noteq> CHR ''.''" using "2.prems"(2) by (simp_all split: if_splits)
    show ?thesis
    proof (cases "p \<noteq> [] \<and> hd p = CHR ''-''")
      case True
      with False "2.prems" have "lua_repeat c (tl p) s" "tame (tl p)" by (simp_all split: if_splits)
      with "2.IH"(1) False True c show ?thesis by blast
    next
      case dash: False
      with False "2.prems"(2) have q: "p = [] \<or> hd p \<notin> {CHR ''*'', CHR ''+'', CHR ''?''}" and p: "tame p"
        by (simp_all split: if_splits)
      with False dash "2.prems"(1) obtain x t where s: "s = x # t" "single_match c x" "lua_match p t"
        by (cases s) (auto split: if_splits)
      with "2.IH"(5) [of x t] False dash q p c show ?thesis by (auto simp: single_match_def)
    qed
  qed (use "2.prems" in simp)
next
  case (3 c p s)
  show ?case
  proof (cases "lua_match p s")
    case False
    with "3.prems" obtain x t where s: "s = x # t" "single_match c x" "lua_repeat c p t" by (cases s) auto
    with "3.IH"(2) [of x t] False "3.prems" show ?thesis by (auto simp: single_match_def)
  qed (use 3 in blast)
qed simp

lemma hexdigits_plain: "list_all hexdigit a \<Longrightarrow> CHR '':'' \<notin> set a \<and> CHR ''-'' \<notin> set a"
proof (induction a)
  case (Cons x a)
  then show ?case using hexdigit_plain [of x] by auto
qed simp

lemma tame_Cons: "hexdigit x \<Longrightarrow> hexdigit y \<Longrightarrow> tame (x # y # p) = tame (y # p)"
  using hexdigit_plain [of x] hexdigit_plain [of y] by (simp del: tame.simps(2) add: tame.simps(2) [of x])

lemma tame_hex: "list_all hexdigit a \<Longrightarrow> a \<noteq> [] \<Longrightarrow> tame (a @ CHR ''-'' # p) = tame p"
proof (induction a rule: induct_list012)
  case (2 x)
  then show ?case using hexdigit_plain [of x] by simp
next
  case (3 x y zs)
  then show ?case by (simp del: tame.simps(2) add: tame_Cons)
qed simp

lemma tame_end: "list_all hexdigit a \<Longrightarrow> tame (a @ ''$'')"
proof (induction a rule: induct_list012)
  case (2 x)
  then show ?case using hexdigit_plain [of x] by simp
next
  case (3 x y zs)
  then show ?case by (simp del: tame.simps(2) add: tame_Cons)
qed simp

lemma uuid_form_parts:
  assumes "uuid_form u"
  obtains a b c d f where "u = a @ CHR ''-'' # b @ CHR ''-'' # c @ CHR ''-'' # d @ CHR ''-'' # f"
    "list_all hexdigit a" "list_all hexdigit b" "list_all hexdigit c" "list_all hexdigit d" "list_all hexdigit f"
    "a \<noteq> []" "b \<noteq> []" "c \<noteq> []" "d \<noteq> []"
proof -
  obtain a b c d f where parts: "split_at CHR ''-'' u = [a, b, c, d, f]" "length a = 8" "length b = 4" "length c = 4"
    "length d = 4" using assms by (auto simp: uuid_form_def map_eq_Cons_conv)
  have "u = join_with CHR ''-'' [a, b, c, d, f]" using join_split [of "CHR ''-''" u] parts(1) by simp
  with parts assms show ?thesis by (intro that [of a b c d f]) (auto simp: uuid_form_def)
qed

lemma tame_colon: "hexdigit x \<Longrightarrow> tame (CHR '':'' # x # p) = tame (x # p)"
  using hexdigit_plain [of x] by (simp del: tame.simps(2) add: tame.simps(2) [of "CHR '':''"])

lemma uuid_form_hd: "uuid_form u \<Longrightarrow> \<exists>x p. u = x # p \<and> hexdigit x"
proof -
  assume "uuid_form u"
  then obtain a p where "u = a @ p" "a \<noteq> []" "list_all hexdigit a" by (rule uuid_form_parts)
  then show ?thesis by (cases a) auto
qed

lemma tame_uuid: "uuid_form u \<Longrightarrow> tame (CHR '':'' # u @ ''$'')"
proof -
  assume u: "uuid_form u"
  then have "tame (u @ ''$'')" by (rule uuid_form_parts) (simp add: tame_hex tame_end del: tame.simps(2))
  with uuid_form_hd [OF u] show ?thesis by (auto simp: tame_colon simp del: tame.simps(2))
qed

lemma uuid_chars: "uuid_form u \<Longrightarrow> CHR ''-'' \<in> set u \<and> CHR '':'' \<notin> set u"
  by (erule uuid_form_parts) (simp add: hexdigits_plain)

lemma lua_match_colon:
  assumes "uuid_form j" and "lua_match (CHR '':'' # j @ ''$'') s"
  shows "\<exists>t. s = CHR '':'' # t"
proof -
  obtain x p where "j = x # p" "hexdigit x" using uuid_form_hd [OF assms(1)] by blast
  with assms(2) hexdigit_plain [of x] show ?thesis by (auto simp: single_match_def split: list.splits)
qed

lemma recovers_never:
  assumes "uuid_form j" and "entry_form m"
  shows "\<not> recovers j m"
proof -
  obtain w u where m: "m = w @ CHR '':'' # u" and u: "uuid_form u"
    using assms(2) by (auto simp: entry_form_def split_once_Some split: option.splits)
  have "\<not> lua_match (CHR '':'' # j @ ''$'') s" if "suffix s m" for s
  proof
    assume match: "lua_match (CHR '':'' # j @ ''$'') s"
    then have dash: "CHR ''-'' \<notin> set s" using tame_match(1) tame_uuid [OF assms(1)] by blast
    have colon: "CHR '':'' \<in> set s" using lua_match_colon [OF assms(1) match] by auto
    have "suffix s u \<or> set u \<subseteq> set s"
      using that unfolding m suffix_append suffix_Cons by auto
    then show False using colon dash uuid_chars [OF u] set_mono_suffix [of s u] by blast
  qed
  moreover have "m \<noteq> j" using m uuid_chars [OF assms(1)] by auto
  ultimately show ?thesis by (auto simp: recovers_def lua_find_def list_ex_iff)
qed

text \<open>The jobs that a recovery finds, as a function of the store.\<close>

definition dead_jobs :: "'r redis \<Rightarrow> int \<Rightarrow> (string \<times> string list) list \<Rightarrow> 'r \<Rightarrow> string list" where
  "dead_jobs R stale_cutoff ws r = concat (map (\<lambda>wj.
     if worker_is_dead stale_cutoff (get_string R (heartbeat_key (fst wj)) r) then snd wj else []) ws)"

definition orphans :: "('r, 'd) env \<Rightarrow> nat \<Rightarrow> 'r \<Rightarrow> string list" where
  "orphans e threshold r = (let cutoff = e_clock e - int threshold in
     dead_jobs (e_redis e) cutoff (group_by_worker (zrangebyscore (e_redis e) EMAIL_PROCESSING_KEY cutoff r)) r)"

lemma jobs_of_dead_healthy:
  "healthy e \<Longrightarrow> jobs_of_dead e cutoff ws s =
     Ok (dead_jobs (e_redis e) cutoff ws (m_store s)) (s\<lparr>m_calls := m_calls s + length ws\<rparr>)"
  by (induction ws arbitrary: s) (simp_all add: dead_jobs_def run_eval calls_healthy)

lemma recover_healthy:
  assumes "healthy e"
  shows "\<exists>k. recover_orphaned_jobs e threshold s = Ok (length (orphans e threshold (m_store s)))
    (s\<lparr>m_calls := k, m_store := recover_script (e_redis e) (e_clock e) (orphans e threshold (m_store s)) (m_store s)\<rparr>)"
proof -
  have "orphans e threshold (m_store s) = []"
    if "zrangebyscore (e_redis e) EMAIL_PROCESSING_KEY (e_clock e - int threshold) (m_store s) = []"
    using that by (simp add: orphans_def group_by_worker_def dead_jobs_def)
  then show ?thesis
    by (auto simp: recover_orphaned_jobs_def run_eval calls_healthy [OF assms] jobs_of_dead_healthy [OF assms]
        Let_def orphans_def)
qed

definition all_jobs :: "(string \<times> string list) list \<Rightarrow> string set" where
  "all_jobs ws = (\<Union>wj \<in> set ws. set (snd wj))"

lemma all_jobs_add: "all_jobs (add_to_worker w j ws) = insert j (all_jobs ws)"
  by (induction w j ws rule: add_to_worker.induct) (auto simp: all_jobs_def)

lemma all_jobs_group: "all_jobs (group_by_worker entries) = (\<lambda>m. snd (worker_and_job m)) ` set entries"
proof -
  have "all_jobs (fold (\<lambda>entry. add_to_worker (fst (worker_and_job entry)) (snd (worker_and_job entry))) entries ws) =
      (\<lambda>m. snd (worker_and_job m)) ` set entries \<union> all_jobs ws" for ws
    by (induction entries arbitrary: ws) (simp_all add: all_jobs_add)
  then show ?thesis by (simp add: group_by_worker_def all_jobs_def)
qed

lemma orphans_form:
  assumes "\<And>m. m \<in> set (zrange (e_redis e) EMAIL_PROCESSING_KEY r) \<Longrightarrow> entry_form m"
    and "j \<in> set (orphans e threshold r)"
  shows "uuid_form j"
proof -
  have "j \<in> all_jobs (group_by_worker
      (zrangebyscore (e_redis e) EMAIL_PROCESSING_KEY (e_clock e - int threshold) r))"
    using assms(2) by (auto simp: orphans_def dead_jobs_def all_jobs_def Let_def split: if_splits)
  then obtain m where "m \<in> set (zrangebyscore (e_redis e) EMAIL_PROCESSING_KEY (e_clock e - int threshold) r)"
    "j = snd (worker_and_job m)" unfolding all_jobs_group by blast
  moreover from this(1) have "m \<in> set (zrange (e_redis e) EMAIL_PROCESSING_KEY r)"
    by (auto simp: zrangebyscore_def zrange_def)
  then have "entry_form m" by (rule assms(1))
  ultimately show ?thesis by (auto simp: worker_and_job_def entry_form_def split: option.splits)
qed

lemma queue_keys [simp]:
  "EMAIL_QUEUE_KEY \<noteq> EMAIL_PROCESSING_KEY" "EMAIL_QUEUE_KEY \<noteq> EMAIL_RETRY_KEY" "EMAIL_QUEUE_KEY \<noteq> EMAIL_DEAD_LETTER_KEY"
  "EMAIL_PROCESSING_KEY \<noteq> EMAIL_QUEUE_KEY" "EMAIL_PROCESSING_KEY \<noteq> EMAIL_RETRY_KEY"
  "EMAIL_PROCESSING_KEY \<noteq> EMAIL_DEAD_LETTER_KEY" "EMAIL_RETRY_KEY \<noteq> EMAIL_QUEUE_KEY"
  "EMAIL_RETRY_KEY \<noteq> EMAIL_PROCESSING_KEY" "EMAIL_RETRY_KEY \<noteq> EMAIL_DEAD_LETTER_KEY"
  "EMAIL_DEAD_LETTER_KEY \<noteq> EMAIL_QUEUE_KEY" "EMAIL_DEAD_LETTER_KEY \<noteq> EMAIL_PROCESSING_KEY"
  "EMAIL_DEAD_LETTER_KEY \<noteq> EMAIL_RETRY_KEY"
  by (simp_all add: EMAIL_QUEUE_KEY_def EMAIL_PROCESSING_KEY_def EMAIL_RETRY_KEY_def EMAIL_DEAD_LETTER_KEY_def)

lemma recover_script_processing:
  fixes now :: int
  assumes R: "redis_laws R"
  shows "(\<And>m. m \<in> set (zrange R EMAIL_PROCESSING_KEY r) \<Longrightarrow> entry_form m) \<Longrightarrow> list_all uuid_form js \<Longrightarrow>
    zsets (r_view R (recover_script R now js r)) EMAIL_PROCESSING_KEY = zsets (r_view R r) EMAIL_PROCESSING_KEY \<and>
    strings (r_view R (recover_script R now js r)) = strings (r_view R r) \<and>
    (\<forall>j \<in> set js. j \<in> set (zrange R EMAIL_QUEUE_KEY (recover_script R now js r))) \<and>
    set (zrange R EMAIL_QUEUE_KEY r) \<subseteq> set (zrange R EMAIL_QUEUE_KEY (recover_script R now js r))"
proof (induction js arbitrary: r)
  case (Cons j js)
  have "find (recovers j) (zrange R EMAIL_PROCESSING_KEY r) = None"
    using Cons.prems recovers_never by (auto simp: find_None_iff)
  then have step: "recover_script R now (j # js) r = recover_script R now js (r_zadd R EMAIL_QUEUE_KEY now j r)" by simp
  have view: "r_view R (r_zadd R EMAIL_QUEUE_KEY now j r) =
      with_zset EMAIL_QUEUE_KEY (zput now j (zsets (r_view R r) EMAIL_QUEUE_KEY)) (r_view R r)"
    by (rule redis_lawsD(2) [OF R])
  have "set (zrange R EMAIL_QUEUE_KEY (r_zadd R EMAIL_QUEUE_KEY now j r)) = insert j (set (zrange R EMAIL_QUEUE_KEY r))"
    by (auto simp: zrange_def view set_zput image_iff)
  moreover have "zrange R EMAIL_PROCESSING_KEY (r_zadd R EMAIL_QUEUE_KEY now j r) = zrange R EMAIL_PROCESSING_KEY r"
    by (simp add: zrange_def view)
  ultimately show ?case
    using Cons.IH [of "r_zadd R EMAIL_QUEUE_KEY now j r"] Cons.prems unfolding step by (auto simp: view)
qed simp

text \<open>
  Recovery is not idempotent: as long as the entries of the processing set have the form the service gives
  them, a worker, a colon and a UUID, the recovery script puts every orphaned job back into the queue but removes no
  entry of the processing set, because the hyphens of the UUID are repetition signs in its Lua pattern.
  So the next recovery finds the same jobs and queues them again.
\<close>

theorem recovery_repeats:
  assumes "redis_laws (e_redis e)" and "healthy e"
    and "list_all entry_form (zrange (e_redis e) EMAIL_PROCESSING_KEY (m_store s))"
    and "recover_orphaned_jobs e threshold s = Ok n t"
  shows "zsets (r_view (e_redis e) (m_store t)) EMAIL_PROCESSING_KEY =
      zsets (r_view (e_redis e) (m_store s)) EMAIL_PROCESSING_KEY \<and>
    n = length (orphans e threshold (m_store s)) \<and>
    (\<forall>j \<in> set (orphans e threshold (m_store s)). j \<in> set (zrange (e_redis e) EMAIL_QUEUE_KEY (m_store t))) \<and>
    (\<exists>u. recover_orphaned_jobs e threshold t = Ok n u)"
proof -
  let ?js = "orphans e threshold (m_store s)" and ?R = "e_redis e"
  have entries: "\<And>m. m \<in> set (zrange ?R EMAIL_PROCESSING_KEY (m_store s)) \<Longrightarrow> entry_form m"
    using assms(3) by (simp add: list_all_iff)
  have "list_all uuid_form ?js" using orphans_form [OF entries] by (auto simp: list_all_iff)
  note script = recover_script_processing [OF assms(1) entries this, where now = "e_clock e"]
  have n: "n = length ?js" and t: "m_store t = recover_script ?R (e_clock e) ?js (m_store s)"
    using recover_healthy [OF assms(2), of threshold s] assms(4) by auto
  have "orphans e threshold (m_store t) = ?js"
    using script by (simp add: t orphans_def dead_jobs_def zrangebyscore_def get_string_def)
  then show ?thesis using script n t recover_healthy [OF assms(2), of threshold t] by auto
qed

definition orphan_id :: string where
  "orphan_id = ''00000000-0000-0000-0000-000000000001''"

definition orphan_mail :: "(table, unit) mail" where
  "orphan_mail = empty_mail\<lparr>m_store := r_zadd table_redis EMAIL_PROCESSING_KEY 0 (''w:'' @ orphan_id) empty_table\<rparr>"

theorem recovery_repeats_witness:
  "\<exists>t u. recover_orphaned_jobs (sample_env (\<lambda>_. No_Answer False) 10000) 3600 orphan_mail = Ok 1 t \<and>
     recover_orphaned_jobs (sample_env (\<lambda>_. No_Answer False) 10000) 3600 t = Ok 1 u"
proof -
  let ?e = "sample_env (\<lambda>_. No_Answer False) 10000"
  have z: "zsets (r_view table_redis (m_store orphan_mail)) EMAIL_PROCESSING_KEY = [(''w:'' @ orphan_id, 0)]"
    "strings (r_view table_redis (m_store orphan_mail)) = (\<lambda>_. None)"
    by (simp_all add: orphan_mail_def redis_lawsD [OF table_redis_laws] zput_def zdel_def)
  have form: "list_all entry_form (zrange (e_redis ?e) EMAIL_PROCESSING_KEY (m_store orphan_mail))"
    by (simp add: zrange_def z entry_form_def uuid_form_def orphan_id_def hexdigit_def to_digit_def)
  have "orphans ?e 3600 (m_store orphan_mail) = [orphan_id]"
    by (simp add: orphans_def zrangebyscore_def z group_by_worker_def worker_and_job_def dead_jobs_def
        worker_is_dead_def get_string_def Let_def orphan_id_def)
  moreover obtain n t where run: "recover_orphaned_jobs ?e 3600 orphan_mail = Ok n t"
    using recover_healthy [of ?e 3600 orphan_mail] by auto
  ultimately show ?thesis
    using recovery_repeats [OF _ _ form run] by (auto simp: table_redis_laws)
qed

section \<open>Failed jobs\<close>

lemma clamp_backoff: "nat (max 0 (min n MAX_BACKOFF_EXPONENT)) \<le> 20"
  by (simp add: MAX_BACKOFF_EXPONENT_def)

lemma unat_backoff:
  "unat (compute_backoff_seconds n) = 60 * 2 ^ nat (max 0 (min n 20))"
proof -
  define k where "k = nat (max 0 (min n 20))"
  have k: "k \<le> 20" by (simp add: k_def)
  have "(2 :: nat) ^ k \<le> 2 ^ 20" using k by (rule power_increasing) simp
  then have "60 * 2 ^ k < (2 :: nat) ^ 64" by simp
  moreover have "compute_backoff_seconds n = of_nat (60 * 2 ^ k)"
    by (simp add: compute_backoff_seconds_def MAX_BACKOFF_EXPONENT_def k_def Let_def)
  ultimately show ?thesis unfolding k_def [symmetric] by (simp only: unat_of_nat) simp
qed

lemma remove_first_healthy:
  assumes "healthy e"
  shows "remove_first e tail members s = Ok () (case find (\<lambda>m. ends_with m tail) members of
       Some m \<Rightarrow> s\<lparr>m_calls := m_calls s + 1, m_store := r_zrem (e_redis e) EMAIL_PROCESSING_KEY m (m_store s)\<rparr>
     | None \<Rightarrow> s)"
  by (induction members) (auto simp: run_eval calls_healthy [OF assms])

text \<open>The processing set after the first entry of a job is dropped.\<close>

definition without_job :: "('r, 'd) env \<Rightarrow> Uuid \<Rightarrow> 'r \<Rightarrow> 'r" where
  "without_job e job_id r =
     (case find (\<lambda>m. ends_with m ('':'' @ e_uuid_text e job_id)) (zrange (e_redis e) EMAIL_PROCESSING_KEY r) of
        Some m \<Rightarrow> r_zrem (e_redis e) EMAIL_PROCESSING_KEY m r | None \<Rightarrow> r)"

definition removal_calls :: "('r, 'd) env \<Rightarrow> Uuid \<Rightarrow> 'r \<Rightarrow> nat" where
  "removal_calls e job_id r =
     (case find (\<lambda>m. ends_with m ('':'' @ e_uuid_text e job_id)) (zrange (e_redis e) EMAIL_PROCESSING_KEY r) of
        Some _ \<Rightarrow> 3 | None \<Rightarrow> 2)"

lemma remove_from_processing_healthy:
  assumes "healthy e"
  shows "remove_from_processing e job_id s = Ok () (s\<lparr>m_calls := m_calls s + removal_calls e job_id (m_store s),
    m_store := without_job e job_id (m_store s)\<rparr>)"
  by (simp add: remove_from_processing_def run_eval calls_healthy [OF assms] remove_first_healthy [OF assms]
      without_job_def removal_calls_def split: option.split)

lemma without_job_other:
  "redis_laws (e_redis e) \<Longrightarrow> k \<noteq> EMAIL_PROCESSING_KEY \<Longrightarrow>
   zsets (r_view (e_redis e) (without_job e job_id r)) k = zsets (r_view (e_redis e) r) k"
  by (simp add: without_job_def redis_lawsD split: option.split)

lemma mark_failed_run:
  assumes "redis_laws (e_redis e)" and "healthy e" and "m_jobs s job_id = Some job"
    and "- (2 ^ 31) \<le> j_attempts job" and "j_attempts job < 2 ^ 31 - 1"
  shows "\<exists>t. mark_failed e job_id error s = Ok () t \<and>
    (let v = r_view (e_redis e) (m_store s); w = r_view (e_redis e) (m_store t); n = j_attempts job + 1 in
      zsets w EMAIL_QUEUE_KEY = zsets v EMAIL_QUEUE_KEY \<and>
      zsets w EMAIL_PROCESSING_KEY = zsets (r_view (e_redis e) (without_job e job_id (m_store s))) EMAIL_PROCESSING_KEY \<and>
      (if n < j_max_attempts job
       then zsets w EMAIL_RETRY_KEY = zput (e_clock e + 60 * 2 ^ nat (max 0 (min n 20))) (e_uuid_text e job_id)
              (zsets v EMAIL_RETRY_KEY) \<and>
            zsets w EMAIL_DEAD_LETTER_KEY = zsets v EMAIL_DEAD_LETTER_KEY \<and> m_dead t = m_dead s \<and>
            m_jobs t = (m_jobs s)(job_id \<mapsto> job\<lparr>j_attempts := n, j_error_message := Some error,
              j_updated_at := e_clock e\<rparr>)
       else zsets w EMAIL_RETRY_KEY = zsets v EMAIL_RETRY_KEY \<and>
            zsets w EMAIL_DEAD_LETTER_KEY = zput (e_clock e) (e_uuid_text e job_id) (zsets v EMAIL_DEAD_LETTER_KEY) \<and>
            m_dead t job_id \<noteq> None \<and>
            m_jobs t = (m_jobs s)(job_id \<mapsto> job\<lparr>j_status := ''failed'', j_error_message := Some error,
              j_updated_at := e_clock e, j_failed_at := Some (e_clock e)\<rparr>)))"
proof -
  have wrap: "wrap_i32 (j_attempts job + 1) = j_attempts job + 1"
    using assms(4,5) by (simp add: wrap_i32_def)
  have bo: "uint (compute_backoff_seconds n) = 60 * 2 ^ nat (max 0 (min n 20))" for n
    using unat_backoff [of n] by (metis of_nat_mult of_nat_numeral of_nat_power uint_nat)
  have proc: "zsets (r_view (e_redis e) (without_job e job_id r)) EMAIL_PROCESSING_KEY =
      zsets (r_view (e_redis e) (without_job e job_id r')) EMAIL_PROCESSING_KEY"
    if "zsets (r_view (e_redis e) r) EMAIL_PROCESSING_KEY = zsets (r_view (e_redis e) r') EMAIL_PROCESSING_KEY" for r r'
    using that by (simp add: without_job_def zrange_def redis_lawsD [OF assms(1)] split: option.split)
  note other = without_job_other [OF assms(1)]
  note eval = mark_failed_def email_get_job_def email_update_job_attempts_def email_update_job_status_def
    email_create_dead_letter_job_def update_job_def external_healthy [OF assms(2)] calls_healthy [OF assms(2)] run_eval
    remove_from_processing_healthy [OF assms(2)]
  show ?thesis
    using assms(3) proc [of "r_zadd (e_redis e) EMAIL_RETRY_KEY x y (m_store s)" "m_store s" for x y]
      proc [of "r_zadd (e_redis e) EMAIL_DEAD_LETTER_KEY x y (m_store s)" "m_store s" for x y]
    by (cases "j_attempts job + 1 < j_max_attempts job")
      (simp_all add: eval wrap bo Let_def other redis_lawsD [OF assms(1)])
qed

text \<open>
  What a failure does to a job: with attempts left, the count goes up by one and the job is scheduled exactly
  60 times 2 to the power of the new count seconds later, the exponent capped at 20, nothing wrapping around;
  otherwise it is marked as failed and moved to the dead letters, in Redis and in the database.
  Either way its entry in the processing set is dropped, and the queue is not touched.
\<close>

theorem mark_failed_effect:
  assumes "redis_laws (e_redis e)" and "healthy e" and "m_jobs s job_id = Some job"
    and "- (2 ^ 31) \<le> j_attempts job" and "j_attempts job < 2 ^ 31 - 1"
  shows "\<exists>t. mark_failed e job_id error s = Ok () t \<and>
    (let v = r_view (e_redis e) (m_store s); w = r_view (e_redis e) (m_store t); n = j_attempts job + 1 in
      zsets w EMAIL_QUEUE_KEY = zsets v EMAIL_QUEUE_KEY \<and>
      zsets w EMAIL_PROCESSING_KEY = zsets (r_view (e_redis e) (without_job e job_id (m_store s))) EMAIL_PROCESSING_KEY \<and>
      (if n < j_max_attempts job
       then zsets w EMAIL_RETRY_KEY = zput (e_clock e + 60 * 2 ^ nat (max 0 (min n 20))) (e_uuid_text e job_id)
              (zsets v EMAIL_RETRY_KEY) \<and>
            zsets w EMAIL_DEAD_LETTER_KEY = zsets v EMAIL_DEAD_LETTER_KEY \<and> m_dead t = m_dead s \<and>
            m_jobs t = (m_jobs s)(job_id \<mapsto> job\<lparr>j_attempts := n, j_error_message := Some error,
              j_updated_at := e_clock e\<rparr>)
       else zsets w EMAIL_RETRY_KEY = zsets v EMAIL_RETRY_KEY \<and>
            zsets w EMAIL_DEAD_LETTER_KEY = zput (e_clock e) (e_uuid_text e job_id) (zsets v EMAIL_DEAD_LETTER_KEY) \<and>
            m_dead t job_id \<noteq> None \<and>
            m_jobs t = (m_jobs s)(job_id \<mapsto> job\<lparr>j_status := ''failed'', j_error_message := Some error,
              j_updated_at := e_clock e, j_failed_at := Some (e_clock e)\<rparr>)))"
  by (rule mark_failed_run [OF assms])

definition failing_job :: "unit EmailJob" where
  "failing_job = \<lparr>j_job_type = ''welcome_email'', j_recipient_email = ''a@b.c'', j_template_name = ''welcome_email'',
     j_template_data = (), j_status = ''processing'', j_priority = 0, j_attempts = 0, j_max_attempts = 3,
     j_completed_at = None, j_failed_at = None, j_error_message = None, j_created_at = 0, j_updated_at = 0\<rparr>"

definition failing_mail :: "(table, unit) mail" where
  "failing_mail = empty_mail\<lparr>m_jobs := [1 \<mapsto> failing_job]\<rparr>"

theorem mark_failed_effect_witness:
  "\<exists>t. mark_failed (sample_env (\<lambda>_. No_Answer False) 1000) 1 ''x'' failing_mail = Ok () t \<and>
     zsets (r_view table_redis (m_store t)) EMAIL_RETRY_KEY = [(hyphenated 1, 1120)]"
  using mark_failed_effect [of "sample_env (\<lambda>_. No_Answer False) 1000" failing_mail 1 failing_job "''x''"]
  by (auto simp: table_redis_laws failing_mail_def failing_job_def empty_mail_def zput_def zdel_def Let_def)

lemma fail_step:
  assumes "redis_laws (e_redis e)" and "healthy e" and "m_jobs s job_id = Some job"
    and "j_attempts job = int k" and "j_max_attempts job = int m" and "k < m" and "m < 2 ^ 31"
  shows "\<exists>t job'. mark_failed e job_id error s = Ok () t \<and> m_jobs t job_id = Some job' \<and>
    j_max_attempts job' = int m \<and>
    (if Suc k < m then j_attempts job' = int (Suc k) \<and> j_status job' = j_status job \<and>
       zsets (r_view (e_redis e) (m_store t)) EMAIL_DEAD_LETTER_KEY = zsets (r_view (e_redis e) (m_store s)) EMAIL_DEAD_LETTER_KEY
     else j_status job' = ''failed'' \<and> e_uuid_text e job_id \<in> set (zrange (e_redis e) EMAIL_DEAD_LETTER_KEY (m_store t)))"
proof -
  obtain t where t: "mark_failed e job_id error s = Ok () t" and
    l: "Suc k < m \<Longrightarrow> zsets (r_view (e_redis e) (m_store t)) EMAIL_DEAD_LETTER_KEY =
        zsets (r_view (e_redis e) (m_store s)) EMAIL_DEAD_LETTER_KEY \<and>
      m_jobs t job_id = Some (job\<lparr>j_attempts := j_attempts job + 1, j_error_message := Some error, j_updated_at := e_clock e\<rparr>)" and
    d: "\<not> Suc k < m \<Longrightarrow> zsets (r_view (e_redis e) (m_store t)) EMAIL_DEAD_LETTER_KEY =
        zput (e_clock e) (e_uuid_text e job_id) (zsets (r_view (e_redis e) (m_store s)) EMAIL_DEAD_LETTER_KEY) \<and>
      m_jobs t job_id = Some (job\<lparr>j_status := ''failed'', j_error_message := Some error, j_updated_at := e_clock e,
        j_failed_at := Some (e_clock e)\<rparr>)"
    using mark_failed_run [OF assms(1-3), of error] assms(4-7)
    by (cases "Suc k < m") (auto simp: Let_def)
  show ?thesis
  proof (cases "Suc k < m")
    case True
    with t l assms(4,5) show ?thesis by auto
  next
    case False
    with t d assms(5) show ?thesis by (auto simp: zrange_def set_zput)
  qed
qed

lemma fail_run:
  assumes R: "redis_laws R" and m: "m < 2 ^ 31"
  shows "\<forall>e \<in> set es. e_redis e = R \<and> healthy e \<and> e_uuid_text e = txt \<Longrightarrow> m_jobs s job_id = Some job \<Longrightarrow>
    j_attempts job = int k \<Longrightarrow> j_max_attempts job = int m \<Longrightarrow> k + length es \<le> m \<Longrightarrow>
    \<exists>t job'. for_each es (\<lambda>e. mark_failed e job_id error) s = Ok () t \<and> m_jobs t job_id = Some job' \<and>
      (k + length es < m \<longrightarrow> j_attempts job' = int (k + length es) \<and> j_status job' = j_status job \<and>
        zsets (r_view R (m_store t)) EMAIL_DEAD_LETTER_KEY = zsets (r_view R (m_store s)) EMAIL_DEAD_LETTER_KEY) \<and>
      (k < m \<longrightarrow> k + length es = m \<longrightarrow> j_status job' = ''failed'' \<and> txt job_id \<in> set (zrange R EMAIL_DEAD_LETTER_KEY (m_store t)))"
proof (induction es arbitrary: s job k)
  case (Cons e es)
  have e: "redis_laws (e_redis e)" "healthy e" and km: "k < m" using Cons.prems R by auto
  obtain u job1 where u: "mark_failed e job_id error s = Ok () u" "m_jobs u job_id = Some job1"
      "j_max_attempts job1 = int m" and
    step: "if Suc k < m then j_attempts job1 = int (Suc k) \<and> j_status job1 = j_status job \<and>
       zsets (r_view R (m_store u)) EMAIL_DEAD_LETTER_KEY = zsets (r_view R (m_store s)) EMAIL_DEAD_LETTER_KEY
     else j_status job1 = ''failed'' \<and> txt job_id \<in> set (zrange R EMAIL_DEAD_LETTER_KEY (m_store u))"
    using fail_step [OF e Cons.prems(2,3,4) km m, of error] Cons.prems(1) by auto
  show ?case
  proof (cases "Suc k < m")
    case True
    with Cons.IH [of u job1 "Suc k"] Cons.prems u step show ?thesis by (auto simp: run_eval)
  next
    case False
    with Cons.prems have "es = []" by (cases es) auto
    with False u step km show ?thesis by (auto simp: run_eval)
  qed
qed (simp add: run_eval)

text \<open>
  A job that keeps failing is given up after exactly its number of attempts: while fewer than \<open>m\<close> failures
  have been recorded, at whatever times, the job counts them and the dead-letter set is unchanged; with the
  failure number \<open>m\<close> it is marked as failed and put into the dead-letter set.
\<close>

theorem dead_letter_after_max_attempts:
  assumes "redis_laws R" and "\<forall>e \<in> set es. e_redis e = R \<and> healthy e \<and> e_uuid_text e = txt"
    and "m_jobs s job_id = Some job" and "j_attempts job = 0" and "j_max_attempts job = int m"
    and "0 < m" and "m < 2 ^ 31" and "length es \<le> m"
  shows "\<exists>t job'. for_each es (\<lambda>e. mark_failed e job_id error) s = Ok () t \<and> m_jobs t job_id = Some job' \<and>
    (if length es < m then j_attempts job' = int (length es) \<and> j_status job' = j_status job \<and>
       zsets (r_view R (m_store t)) EMAIL_DEAD_LETTER_KEY = zsets (r_view R (m_store s)) EMAIL_DEAD_LETTER_KEY
     else j_status job' = ''failed'' \<and> txt job_id \<in> set (zrange R EMAIL_DEAD_LETTER_KEY (m_store t)))"
  using fail_run [OF assms(1,7,2,3), of 0 error] assms(4-8) by auto

theorem dead_letter_after_max_attempts_witness:
  "\<exists>t. for_each [sample_env (\<lambda>_. No_Answer False) 1000, sample_env (\<lambda>_. No_Answer False) 2000,
      sample_env (\<lambda>_. No_Answer False) 3000] (\<lambda>e. mark_failed e 1 ''x'') failing_mail = Ok () t \<and>
     hyphenated 1 \<in> set (zrange table_redis EMAIL_DEAD_LETTER_KEY (m_store t))"
  using dead_letter_after_max_attempts [OF table_redis_laws, of "[sample_env (\<lambda>_. No_Answer False) 1000,
      sample_env (\<lambda>_. No_Answer False) 2000, sample_env (\<lambda>_. No_Answer False) 3000]" hyphenated failing_mail 1
      failing_job 3 "''x''"]
  by (auto simp: failing_mail_def failing_job_def)

section \<open>Retries\<close>

lemma retry_script_view:
  assumes R: "redis_laws R"
  shows "zsets (r_view R (retry_script R now js r)) EMAIL_RETRY_KEY =
      filter (\<lambda>p. fst p \<notin> set js) (zsets (r_view R r) EMAIL_RETRY_KEY) \<and>
    set (zsets (r_view R (retry_script R now js r)) EMAIL_QUEUE_KEY) =
      (\<lambda>j. (j, now)) ` set js \<union> {p \<in> set (zsets (r_view R r) EMAIL_QUEUE_KEY). fst p \<notin> set js} \<and>
    (\<forall>k. k \<noteq> EMAIL_RETRY_KEY \<longrightarrow> k \<noteq> EMAIL_QUEUE_KEY \<longrightarrow>
      zsets (r_view R (retry_script R now js r)) k = zsets (r_view R r) k)"
proof (induction js arbitrary: r)
  case (Cons j js)
  let ?r = "r_zrem R EMAIL_RETRY_KEY j (r_zadd R EMAIL_QUEUE_KEY now j r)"
  have v: "zsets (r_view R ?r) EMAIL_RETRY_KEY = filter (\<lambda>p. fst p \<noteq> j) (zsets (r_view R r) EMAIL_RETRY_KEY)"
    "set (zsets (r_view R ?r) EMAIL_QUEUE_KEY) = insert (j, now) {p \<in> set (zsets (r_view R r) EMAIL_QUEUE_KEY). fst p \<noteq> j}"
    "\<And>k. k \<noteq> EMAIL_RETRY_KEY \<Longrightarrow> k \<noteq> EMAIL_QUEUE_KEY \<Longrightarrow> zsets (r_view R ?r) k = zsets (r_view R r) k"
    by (simp_all add: redis_lawsD [OF R] set_zput zdel_def)
  have "filter (\<lambda>p. fst p \<notin> set js) (filter (\<lambda>p. fst p \<noteq> j) zs) = filter (\<lambda>p. fst p \<notin> set (j # js)) zs" for zs :: zset
    by (simp add: conj_commute)
  then show ?case using Cons.IH [of ?r] v by auto
qed simp


definition waiting_mail :: "(table, unit) mail" where
  "waiting_mail = empty_mail\<lparr>m_store := r_zadd table_redis EMAIL_RETRY_KEY 500 orphan_id empty_table\<rparr>"


section \<open>Dead letters and lost jobs\<close>

text \<open>
  The cooling-off delay of a requeued dead letter has no effect: the job is put into the queue with
  a time a minute ahead, but the worker takes the first job whatever its time, so that with an otherwise empty queue it is
  handed out at the same second.
\<close>

theorem requeue_delay_ineffective:
  assumes "redis_laws (e_redis e)" and "healthy e" and "e_uuid_parse e (e_uuid_text e job_id) = Some job_id"
    and "zsets (r_view (e_redis e) (m_store s)) EMAIL_QUEUE_KEY = []"
    and "e_uuid_text e job_id \<in> set (zrange (e_redis e) EMAIL_DEAD_LETTER_KEY (m_store s))"
  shows "\<exists>t u. requeue_dead_letter e job_id s = Ok True t \<and> dequeue e worker_id t = Ok (Some job_id) u"
  using assms(3-5)
  by (simp add: requeue_dead_letter_def dequeue_def email_update_job_attempts_def email_update_job_status_def
      email_delete_dead_letter_job_def update_job_def external_healthy [OF assms(2)] calls_healthy [OF assms(2)]
      run_eval zrem_count_def pop_min_def zmin_def redis_lawsD [OF assms(1)] zput_def zdel_def Let_def)

theorem requeue_delay_ineffective_witness:
  "\<exists>t u. requeue_dead_letter (sample_env (\<lambda>_. No_Answer False) 1000\<lparr>e_uuid_parse := (\<lambda>_. Some 1)\<rparr>) 1
       (empty_mail\<lparr>m_store := r_zadd table_redis EMAIL_DEAD_LETTER_KEY 900 (hyphenated 1) empty_table\<rparr>) = Ok True t \<and>
     dequeue (sample_env (\<lambda>_. No_Answer False) 1000\<lparr>e_uuid_parse := (\<lambda>_. Some 1)\<rparr>) ''w'' t = Ok (Some 1) u"
proof -
  let ?e = "sample_env (\<lambda>_. No_Answer False) 1000\<lparr>e_uuid_parse := (\<lambda>_. Some 1)\<rparr>"
  have "healthy ?e" by (simp add: healthy_def sample_env_def)
  then show ?thesis
    by (intro requeue_delay_ineffective)
      (simp_all add: table_redis_laws redis_lawsD [OF table_redis_laws] zrange_def zput_def zdel_def)
qed

text \<open>
  A job can be lost between two commands: taking it from the queue and entering it in the processing set are separate
  calls, so that if the second one does not get through, the error leaves the job in none of the sets, where no retry, no
  recovery and no dead-letter listing finds it.
\<close>

theorem dequeue_can_lose_job:
  assumes "redis_laws (e_redis e)" and "e_fate e (m_calls s) = Done" and "e_fate e (m_calls s + 1) = Done"
    and "e_fate e (m_calls s + 2) = Lost" and "e_uuid_parse e job = Some job_id"
    and "zsets (r_view (e_redis e) (m_store s)) EMAIL_QUEUE_KEY = (job, score) # rest"
  shows "\<exists>t. dequeue e worker_id s = Err Redis_Error t \<and>
    job \<notin> set (zrange (e_redis e) EMAIL_QUEUE_KEY (m_store t)) \<and>
    (\<forall>k. k \<noteq> EMAIL_QUEUE_KEY \<longrightarrow> zrange (e_redis e) k (m_store t) = zrange (e_redis e) k (m_store s))"
proof -
  have wf: "zset_wf ((job, score) # rest)" using redis_lawsD(1) [OF assms(1)] assms(6) by metis
  then have "job \<notin> fst ` set rest" by (simp add: zset_wf_def)
  then show ?thesis using assms(2-6)
    by (simp add: dequeue_def get_connection_def redis_run_def redis_do_def external_def run_eval pop_min_def zmin_def
        zrange_def redis_lawsD [OF assms(1)] Let_def)
qed

theorem dequeue_can_lose_job_witness:
  "\<exists>t. dequeue (sample_env (\<lambda>_. No_Answer False) 1000\<lparr>e_fate := (\<lambda>n. if n < 2 then Done else Lost), e_uuid_parse := (\<lambda>_. Some 1)\<rparr>) ''w''
       (empty_mail\<lparr>m_store := r_zadd table_redis EMAIL_QUEUE_KEY 900 orphan_id empty_table\<rparr>) = Err Redis_Error t \<and>
     zrange table_redis EMAIL_PROCESSING_KEY (m_store t) = []"
proof -
  let ?e = "sample_env (\<lambda>_. No_Answer False) 1000\<lparr>e_fate := (\<lambda>n. if n < 2 then Done else Lost), e_uuid_parse := (\<lambda>_. Some 1)\<rparr>"
  let ?s = "empty_mail\<lparr>m_store := r_zadd table_redis EMAIL_QUEUE_KEY 900 orphan_id empty_table\<rparr>"
  have z: "zsets (r_view table_redis (m_store ?s)) = (\<lambda>_. [])(EMAIL_QUEUE_KEY := [(orphan_id, 900)])"
    by (simp add: redis_lawsD [OF table_redis_laws] zput_def zdel_def)
  have "\<exists>t. dequeue ?e ''w'' ?s = Err Redis_Error t \<and> orphan_id \<notin> set (zrange (e_redis ?e) EMAIL_QUEUE_KEY (m_store t)) \<and>
      (\<forall>k. k \<noteq> EMAIL_QUEUE_KEY \<longrightarrow> zrange (e_redis ?e) k (m_store t) = zrange (e_redis ?e) k (m_store ?s))"
    by (rule dequeue_can_lose_job [of ?e ?s orphan_id 1 900 "[]"])
      (use z in \<open>simp_all add: table_redis_laws empty_mail_def\<close>)
  then show ?thesis using z by (auto simp: zrange_def)
qed

end
