(* ===== verification/Mail_Handlers.thy ===== *)
theory Mail_Handlers
  imports Email_Queue Rpc_Client "HOL-Library.Multiset"
begin

text \<open>
  The mail templates (\<^verbatim>\<open>email/templates.rs\<close>), the preview and the test mail (\<^verbatim>\<open>email/service.rs\<close>), the table of mail analytics
  (\<^verbatim>\<open>db.rs\<close>) and the administrative mail handlers of \<^verbatim>\<open>handlers.rs\<close>.  The engine \<^verbatim>\<open>handlebars\<close> is a parameter; what is known of it is that in
  strict mode, which is set, it renders a registered template exactly when the data has a value for every variable the template names.
\<close>

section \<open>Templates\<close>

record template_engine =
  te_render :: "string \<Rightarrow> json \<Rightarrow> string option"
  te_size :: "json \<Rightarrow> nat"

text \<open>The registered templates, with the variables that the files under \<^verbatim>\<open>templates/\<close> name.\<close>

definition registered_templates :: "(string \<times> string list) list" where
  "registered_templates =
     [(''newsletter_confirmation'', [''confirm_url'']),
      (''waitlist_confirmation'', [''email'']),
      (''contact_form_auto_response'', [''name'', ''subject'', ''message'']),
      (''welcome_email'', [''name'', ''dashboard_url'', ''help_url'', ''unsubscribe_url''])]"

definition fixtures :: "(string \<times> json) list" where
  "fixtures =
     [(''newsletter_confirmation'', JObj [
        (''confirm_url'', JStr ''https://example.com/confirm?token=startup-check''),
        (''email'', JStr ''startup@example.com'')]),
      (''waitlist_confirmation'', JObj [
        (''email'', JStr ''startup@example.com'')]),
      (''contact_form_auto_response'', JObj [
        (''name'', JStr ''Startup Check''),
        (''subject'', JStr ''Startup Check''),
        (''message'', JStr ''Startup validation render.'')]),
      (''welcome_email'', JObj [
        (''name'', JStr ''Startup Check''),
        (''dashboard_url'', JStr ''https://example.com/dashboard''),
        (''help_url'', JStr ''https://example.com/help''),
        (''unsubscribe_url'', JStr ''https://example.com/unsubscribe'')])]"

text \<open>The first template that cannot be rendered is named.\<close>

definition validate_all_templates :: "template_engine \<Rightarrow> string + unit" where
  "validate_all_templates te = (case find (\<lambda>(name, data). te_render te name data = None) fixtures of
     Some (name, data) \<Rightarrow> Inl (''Template validation failed for '' @ name) | None \<Rightarrow> Inr ())"

definition EmailTemplateEngine_new :: "template_engine \<Rightarrow> string + template_engine" where
  "EmailTemplateEngine_new te = (case validate_all_templates te of Inl text \<Rightarrow> Inl text | Inr _ \<Rightarrow> Inr te)"

definition MAX_CONTEXT_BYTES :: nat where "MAX_CONTEXT_BYTES = 64 * 1024"

definition render_template :: "template_engine \<Rightarrow> string \<Rightarrow> json \<Rightarrow> string option" where
  "render_template te template_name data = (if te_size te data > MAX_CONTEXT_BYTES then None else te_render te template_name data)"

definition get_subject :: "string \<Rightarrow> json \<Rightarrow> string" where
  "get_subject template_name data =
     (if template_name = ''newsletter_confirmation'' then ''Confirm your newsletter subscription''
      else if template_name = ''waitlist_confirmation'' then ''You're on the waitlist!''
      else if template_name = ''contact_form_auto_response''
        then ''We received your message: '' @ unwrap_or (get_str ''subject'' data) ''Your inquiry''
      else if template_name = ''welcome_email'' then ''Welcome to PredictIQ!''
      else ''Message from PredictIQ'')"

definition blank_line :: string where "blank_line = [CHR 0x0A, CHR 0x0A]"

definition render_text :: "string \<Rightarrow> json \<Rightarrow> string" where
  "render_text template_name data =
     (if template_name = ''newsletter_confirmation'' then
        ''Please confirm your newsletter subscription by visiting: '' @ unwrap_or (get_str ''confirm_url'' data) [] @ blank_line @
        ''If you didn't request this, please ignore this email.''
      else if template_name = ''waitlist_confirmation'' then
        ''Thank you for joining the PredictIQ waitlist!'' @ blank_line @
        ''We'll notify you at '' @ unwrap_or (get_str ''email'' data) [] @ '' when we're ready to launch.'' @ blank_line @ ''Stay tuned!''
      else if template_name = ''contact_form_auto_response'' then
        ''Thank you for contacting PredictIQ!'' @ blank_line @ ''We've received your message and will get back to you soon.'' @ blank_line @
        ''Your message:'' @ [CHR 0x0A] @ unwrap_or (get_str ''message'' data) [] @ blank_line @
        ''Best regards,'' @ [CHR 0x0A] @ ''The PredictIQ Team''
      else if template_name = ''welcome_email'' then
        ''Welcome to PredictIQ!'' @ blank_line @
        ''We're excited to have you on board. Get started by exploring our prediction markets.'' @ blank_line @
        ''Best regards,'' @ [CHR 0x0A] @ ''The PredictIQ Team''
      else ''Message from PredictIQ'')"

section \<open>Preview and test mail\<close>

record EmailPreview =
  ep_subject :: string
  ep_html_content :: string
  ep_text_content :: string

definition preview_email :: "template_engine \<Rightarrow> string \<Rightarrow> json \<Rightarrow> EmailPreview option" where
  "preview_email te template_name data = map_option (\<lambda>html.
     \<lparr> ep_subject = get_subject template_name data, ep_html_content = html, ep_text_content = render_text template_name data \<rparr>)
     (render_template te template_name data)"

text \<open>The sample data of the test mail; the one of the preview differs in one text.\<close>

definition sample_data :: "string \<Rightarrow> string \<Rightarrow> string \<Rightarrow> json" where
  "sample_data message site template_name =
     (if template_name = ''newsletter_confirmation'' then JObj [
        (''confirm_url'', JStr (site @ ''/api/v1/newsletter/confirm?token=test-token-123'')),
        (''email'', JStr ''test@example.com'')]
      else if template_name = ''waitlist_confirmation'' then JObj [
        (''email'', JStr ''test@example.com'')]
      else if template_name = ''contact_form_auto_response'' then JObj [
        (''name'', JStr ''Test User''),
        (''subject'', JStr ''Test Subject''),
        (''message'', JStr message)]
      else if template_name = ''welcome_email'' then JObj [
        (''name'', JStr ''Test User''),
        (''dashboard_url'', JStr (site @ ''/dashboard'')),
        (''help_url'', JStr (site @ ''/help'')),
        (''unsubscribe_url'', JStr (site @ ''/api/v1/newsletter/unsubscribe''))]
      else JObj [])"

definition get_test_data :: "string \<Rightarrow> string \<Rightarrow> json" where
  "get_test_data = sample_data ''This is a test message from the contact form.''"

definition preview_data :: "string \<Rightarrow> string \<Rightarrow> json" where
  "preview_data = sample_data ''This is a test message.''"

text \<open>
  The service that \<^verbatim>\<open>main.rs\<close> builds has no cache and no metrics, and the default time to live of idempotency keys, a day.
\<close>

definition EmailService_new :: "'net Config \<Rightarrow> mail_config" where
  "EmailService_new config = (let m = mailing config in
     \<lparr> c_cache = False, c_hourly_limit = nat (email_per_recipient_hourly_limit m), c_idem_ttl = 86400,
       c_idempotency_secret = email_idempotency_secret m, c_sendgrid_api_key = sendgrid_api_key m, c_from_email = from_email m \<rparr>)"

text \<open>A name that is no template is refused before anything else happens.\<close>

definition send_test_email :: "('r, json) env \<Rightarrow> mail_config \<Rightarrow> string \<Rightarrow> string \<Rightarrow> string \<Rightarrow> ('r, json, string option) mailer" where
  "send_test_email e c site recipient template_name =
     (if \<not> is_valid_template_name template_name then ret None
      else bnd (send_email e c recipient template_name (get_test_data site template_name)) (\<lambda>message_id. ret (Some message_id)))"

section \<open>Handlers\<close>

text \<open>What a failure answers; \<open>d\<close> is the error of the database where the database failed.\<close>

definition mail_api_error :: "DbError \<Rightarrow> mail_error \<Rightarrow> ApiError" where
  "mail_api_error d err = into_api_error (if err = Db_Error then From_Db d else Plain_Error [])"

type_synonym ('r, 'a) mail_handler = "('r, json) mail \<Rightarrow> (ApiError + (int \<times> 'a)) option \<times> ('r, json) mail"

text \<open>A handler around an operation: it answers, with an error if the operation fails.\<close>

definition mail_answer :: "DbError \<Rightarrow> ('a \<Rightarrow> ApiError + (int \<times> 'b)) \<Rightarrow> ('r, json, 'a) mailer \<Rightarrow> ('r, 'b) mail_handler" where
  "mail_answer d f op s = (case op s of Ok x t \<Rightarrow> (Some (f x), t) | Err err t \<Rightarrow> (Some (Inl (mail_api_error d err)), t) | Trap \<Rightarrow> (None, s))"

definition email_preview :: "template_engine \<Rightarrow> string \<Rightarrow> string \<Rightarrow> ApiError + (int \<times> EmailPreview)" where
  "email_preview te site template_name = (case preview_email te template_name (preview_data site template_name) of
     Some preview \<Rightarrow> Inr (200, preview) | None \<Rightarrow> Inl (into_api_error (Plain_Error [])))"

definition email_send_test :: "DbError \<Rightarrow> ('r, json) env \<Rightarrow> mail_config \<Rightarrow> string \<Rightarrow> string \<Rightarrow> string \<Rightarrow> ('r, json) mail_handler" where
  "email_send_test d e c site recipient template_name = mail_answer d
     (\<lambda>sent. case sent of Some message_id \<Rightarrow> Inr (200, JObj [(''success'', JBool True), (''message'', JStr ''Test email sent successfully''),
          (''message_id'', JStr message_id)])
      | None \<Rightarrow> Inl (into_api_error (Plain_Error [])))
     (send_test_email e c site recipient template_name)"

record EmailAnalytics =
  ea_template_name :: string
  ea_variant_name :: "string option"
  ea_date :: int
  ea_counts :: "int list"

text \<open>The rows from a day on, the latest first; rows of one day are in no order that the query fixes.\<close>

definition email_get_analytics :: "string option \<Rightarrow> int \<Rightarrow> int \<Rightarrow> EmailAnalytics list \<Rightarrow> EmailAnalytics list" where
  "email_get_analytics template_name days today rows = (let start_date = today - days in
     sort_key (\<lambda>r. - ea_date r) (case template_name of
       Some template \<Rightarrow> filter (\<lambda>r. ea_template_name r = template \<and> ea_date r \<ge> start_date) rows
     | None \<Rightarrow> filter (\<lambda>r. ea_date r \<ge> start_date) rows))"

definition analytics_days :: "int option \<Rightarrow> int" where
  "analytics_days days = max 1 (min 365 (unwrap_or days 30))"

definition email_analytics :: "(DbError option) \<Rightarrow> string option \<Rightarrow> int option \<Rightarrow> int \<Rightarrow> EmailAnalytics list \<Rightarrow> ApiError + (int \<times> EmailAnalytics list)" where
  "email_analytics failure template_name days today rows = (case failure of
     Some d \<Rightarrow> Inl (into_api_error (From_Db d))
   | None \<Rightarrow> Inr (200, email_get_analytics template_name (analytics_days days) today rows))"

text \<open>The two gauges that the handler of the statistics sets come with its answer.\<close>

definition email_queue_stats :: "DbError \<Rightarrow> ('r, json) env \<Rightarrow> ('r, QueueStats \<times> int \<times> int) mail_handler" where
  "email_queue_stats d e = mail_answer d (\<lambda>stats. Inr (200, (stats, int (s_dead_letter stats), int (s_pending stats)))) (get_stats e)"

definition email_dead_letter_list :: "DbError \<Rightarrow> ('r, json) env \<Rightarrow> ('r, Uuid list \<times> nat) mail_handler" where
  "email_dead_letter_list d e = mail_answer d (\<lambda>ids. Inr (200, (ids, length ids))) (list_dead_letter e)"

definition email_dead_letter_requeue :: "DbError \<Rightarrow> ('r, json) env \<Rightarrow> Uuid \<Rightarrow> ('r, Uuid) mail_handler" where
  "email_dead_letter_requeue d e job_id = mail_answer d
     (\<lambda>requeued. if requeued then Inr (200, job_id)
       else Inl (not_found (''Job '' @ e_uuid_text e job_id @ '' not found in dead-letter set'')))
     (requeue_dead_letter e job_id)"

section \<open>What the engine guarantees\<close>

text \<open>Strict mode, as it is documented.\<close>

definition strict_engine :: "template_engine \<Rightarrow> bool" where
  "strict_engine te \<longleftrightarrow> (\<forall>name data. te_render te name data \<noteq> None \<longleftrightarrow>
     (\<exists>vars fs. map_of registered_templates name = Some vars \<and> data = JObj fs \<and> set vars \<subseteq> set (map fst fs)))"

lemma registered_names: "map_of registered_templates name \<noteq> None \<longleftrightarrow> is_valid_template_name name"
  by (auto simp: registered_templates_def is_valid_template_name_def)

text \<open>The check at the start passes: the fixtures have a value for every variable.\<close>

theorem engine_starts: "strict_engine te \<Longrightarrow> EmailTemplateEngine_new te = Inr te"
proof -
  assume strict: "strict_engine te"
  have fields: "te_render te name (JObj fs) \<noteq> None" if "map_of registered_templates name = Some vars" "set vars \<subseteq> set (map fst fs)" for name fs vars
    using strict that unfolding strict_engine_def by blast
  have "list_all (\<lambda>(name, data). te_render te name data \<noteq> None) fixtures"
    unfolding fixtures_def list.pred_inject prod.case by (intro conjI fields, simp_all add: registered_templates_def, simp_all)
  then have "find (\<lambda>(name, data). te_render te name data = None) fixtures = None"
    by (auto simp: find_None_iff list_all_iff)
  then show ?thesis by (simp add: EmailTemplateEngine_new_def validate_all_templates_def)
qed

lemma sample_data_covers:
  "strict_engine te \<Longrightarrow> te_render te name (sample_data message site name) \<noteq> None \<longleftrightarrow> is_valid_template_name name"
proof -
  assume strict: "strict_engine te"
  have "is_valid_template_name name \<Longrightarrow>
      \<exists>vars fs. map_of registered_templates name = Some vars \<and> sample_data message site name = JObj fs \<and> set vars \<subseteq> set (map fst fs)"
    by (auto simp: registered_templates_def is_valid_template_name_def sample_data_def)
  moreover have "map_of registered_templates name = None" if "\<not> is_valid_template_name name"
    using that registered_names by blast
  ultimately show ?thesis using strict unfolding strict_engine_def by (metis option.distinct(1))
qed

text \<open>
  The preview answers for exactly the four templates, as long as the data is not too large; for any other name it is an internal error.
\<close>

theorem preview_exact:
  assumes "strict_engine te" "te_size te (preview_data site name) \<le> MAX_CONTEXT_BYTES"
  shows "case email_preview te site name of
     Inr (status, preview) \<Rightarrow> is_valid_template_name name \<and> status = 200 \<and> ep_subject preview = get_subject name (preview_data site name) \<and>
       te_render te name (preview_data site name) = Some (ep_html_content preview)
   | Inl err \<Rightarrow> \<not> is_valid_template_name name \<and> err = api_internal"
  using assms sample_data_covers [OF assms(1), of name "''This is a test message.''" site]
  by (auto simp: email_preview_def preview_email_def render_template_def preview_data_def split: option.splits)

text \<open>A test mail to a name that is no template answers an error and asks nobody.\<close>

theorem test_mail_refused:
  "\<not> is_valid_template_name template_name \<Longrightarrow> email_send_test d e c site recipient template_name s = (Some (Inl api_internal), s)"
  by (simp add: email_send_test_def mail_answer_def send_test_email_def ret_def)

lemma send_attempts_error: "send_attempts e r t k s = Err err u \<Longrightarrow> err = Network_Error \<or> (\<exists>n. err = SendGrid_Error n)"
  by (induction k arbitrary: s)
    (auto simp: bnd_def post_mail_def fail_def ret_def Let_def split: answer.splits res.splits if_splits)

text \<open>The data of a test mail always renders: no step of the sending ends with the error of the renderer.\<close>

definition renders :: "('r, 'd, 'a) mailer \<Rightarrow> bool" where
  "renders op \<longleftrightarrow> (\<forall>s t. op s \<noteq> Err Render_Error t)"

lemma renders_bnd: "renders m \<Longrightarrow> (\<And>x. renders (f x)) \<Longrightarrow> renders (bnd m f)"
  by (auto simp: renders_def bnd_def split: res.splits)

lemma renders_basic:
  "renders (ret x)" "err \<noteq> Render_Error \<Longrightarrow> renders (err_if b err)" "err \<noteq> Render_Error \<Longrightarrow> renders (ok_or v err)"
  "renders (ok_or (Some y) err')" "err \<noteq> Render_Error \<Longrightarrow> renders (external e err g)" "renders (send_attempts e r t k)"
  by (auto simp: renders_def ret_def err_if_def ok_or_def fail_def external_def Let_def dest: send_attempts_error split: option.splits prod.splits fate.splits)

lemma renders_thn: "renders m \<Longrightarrow> renders k \<Longrightarrow> renders (thn m k)"
  unfolding thn_def by (rule renders_bnd)

lemma renders_doif: "renders m \<Longrightarrow> renders (doif b m)"
  by (simp add: doif_def renders_basic)

lemmas renders_rules = renders_bnd renders_thn renders_doif renders_basic

lemma renders_steps:
  "renders (get_connection e)" "renders (redis_run e h)" "renders (rate_check e c r)" "renders (acquire e c k)" "renders (sanitize_email e r)"
  by (auto simp: get_connection_def redis_run_def rate_check_def acquire_def sanitize_email_def Let_def intro!: renders_rules split: option.split)

theorem test_mail_renders:
  assumes "strict_engine te" "e_render e = render_template te" "te_size te (get_test_data site template_name) \<le> MAX_CONTEXT_BYTES"
  shows "send_test_email e c site recipient template_name s \<noteq> Err Render_Error t"
proof -
  have "renders (send_email e c recipient template_name (get_test_data site template_name))" if "is_valid_template_name template_name"
  proof -
    have "te_render te template_name (get_test_data site template_name) \<noteq> None"
      unfolding get_test_data_def using sample_data_covers [OF assms(1)] that by blast
    then obtain html where "e_render e template_name (get_test_data site template_name) = Some html"
      using assms(2,3) by (auto simp: render_template_def)
    then show ?thesis unfolding send_email_def send_email_idempotent_def deliver_def
      by (auto intro!: renders_rules renders_steps)
  qed
  then have "renders (send_test_email e c site recipient template_name)"
    unfolding send_test_email_def by (auto intro!: renders_rules)
  then show ?thesis by (simp add: renders_def)
qed

text \<open>The confirmation link is in the text of the mail as it was given.\<close>

lemma confirmation_text:
  "\<exists>before behind. render_text ''newsletter_confirmation'' (JObj ((''confirm_url'', JStr url) # fs)) = before @ url @ behind"
proof -
  have "render_text ''newsletter_confirmation'' (JObj ((''confirm_url'', JStr url) # fs)) =
      ''Please confirm your newsletter subscription by visiting: '' @ url @ (blank_line @ ''If you didn't request this, please ignore this email.'')"
    by (simp add: render_text_def get_str_def jget_def as_str_def unwrap_or_def)
  then show ?thesis by blast
qed

text \<open>
  As it is deployed, the service checks neither the limit of a recipient nor whether a mail has been sent before: sending is delivering.
\<close>

theorem deployed_service_unlimited:
  "send_email_idempotent e (EmailService_new config) recipient template_name data key =
   deliver e (EmailService_new config) recipient template_name data"
  by (simp add: send_email_idempotent_def rate_check_def acquire_def EmailService_new_def doif_def bnd_def thn_def ret_def Let_def fun_eq_iff split: option.splits)

section \<open>Analytics and dead letters\<close>

lemma analytics_days_bounds: "1 \<le> analytics_days days \<and> analytics_days days \<le> 365"
  by (simp add: analytics_days_def)

text \<open>Exactly the rows of the template, or of all of them, from the last days, the latest first; never more than a year back.\<close>

theorem analytics_exact:
  "\<exists>result. email_analytics None template_name days today rows = Inr (200, result) \<and> sorted (map (\<lambda>r. - ea_date r) result) \<and>
     mset result = filter_mset (\<lambda>r. today - analytics_days days \<le> ea_date r \<and> template_name \<in> {None, Some (ea_template_name r)}) (mset rows)"
  by (cases template_name) (auto simp: email_analytics_def email_get_analytics_def Let_def mset_filter intro: filter_mset_cong)

text \<open>
  When no call fails, putting a dead letter back answers 200 exactly for a job that is in the dead-letter set; the job is then in the queue,
  pending, with its attempts cleared, and no dead letter.  For any other job the answer is 404 and nothing changes.
\<close>

theorem requeue_exact:
  assumes "redis_laws (e_redis e)" "healthy e"
  shows "\<exists>t. if e_uuid_text e job_id \<in> set (zrange (e_redis e) EMAIL_DEAD_LETTER_KEY (m_store s))
     then email_dead_letter_requeue d e job_id s = (Some (Inr (200, job_id)), t) \<and>
       (e_uuid_text e job_id, e_clock e + 60) \<in> set (zsets (r_view (e_redis e) (m_store t)) EMAIL_QUEUE_KEY) \<and>
       e_uuid_text e job_id \<notin> set (zrange (e_redis e) EMAIL_DEAD_LETTER_KEY (m_store t)) \<and> m_dead t job_id = None \<and>
       m_jobs t job_id = map_option (\<lambda>j. j\<lparr>j_attempts := 0, j_status := ''pending'', j_error_message := None, j_updated_at := e_clock e\<rparr>) (m_jobs s job_id)
     else (\<exists>err. email_dead_letter_requeue d e job_id s = (Some (Inl err), t) \<and> ae_status err = 404) \<and> m_jobs t = m_jobs s \<and> m_dead t = m_dead s \<and>
       zsets (r_view (e_redis e) (m_store t)) = zsets (r_view (e_redis e) (m_store s))"
proof (cases "e_uuid_text e job_id \<in> set (zrange (e_redis e) EMAIL_DEAD_LETTER_KEY (m_store s))")
  case True
  have "\<exists>t. requeue_dead_letter e job_id s = Ok True t \<and>
      (e_uuid_text e job_id, e_clock e + 60) \<in> set (zsets (r_view (e_redis e) (m_store t)) EMAIL_QUEUE_KEY) \<and>
      e_uuid_text e job_id \<notin> set (zrange (e_redis e) EMAIL_DEAD_LETTER_KEY (m_store t)) \<and> m_dead t job_id = None \<and>
      m_jobs t job_id = map_option (\<lambda>j. j\<lparr>j_attempts := 0, j_status := ''pending'', j_error_message := None, j_updated_at := e_clock e\<rparr>) (m_jobs s job_id)"
    using True
    by (simp add: requeue_dead_letter_def email_update_job_attempts_def email_update_job_status_def DEAD_LETTER_REQUEUE_DELAY_SECS_def
      email_delete_dead_letter_job_def update_job_def external_healthy [OF assms(2)] calls_healthy [OF assms(2)]
      run_eval zrem_count_def redis_lawsD [OF assms(1)] zput_def zdel_def zrange_def Let_def)
      (auto simp: option.map_comp comp_def)
  with True show ?thesis by (auto simp: email_dead_letter_requeue_def mail_answer_def)
next
  case False
  then have "\<exists>t. requeue_dead_letter e job_id s = Ok False t \<and> m_jobs t = m_jobs s \<and> m_dead t = m_dead s \<and>
      zsets (r_view (e_redis e) (m_store t)) = zsets (r_view (e_redis e) (m_store s))"
    by (simp add: requeue_dead_letter_def calls_healthy [OF assms(2)] run_eval zrem_count_def redis_lawsD [OF assms(1)] zdel_def zrange_def)
      (force intro!: fun_upd_idem sym [OF filter_True])
  with False show ?thesis by (auto simp: email_dead_letter_requeue_def mail_answer_def not_found_def)
qed

end
