(* ===== verification/Email_Worker.thy ===== *)
theory Email_Worker
  imports Email_Queue
begin

text \<open>
  The loop of the mail worker (\<^verbatim>\<open>EmailQueue::start_worker\<close> in \<^verbatim>\<open>email/queue.rs\<close>) in time.  Each round begins by waiting for the timer
  of the heartbeat: the \<^verbatim>\<open>else\<close> branch beside it is only for a \<^verbatim>\<open>select!\<close> all of whose branches are disabled, and the branch of the timer never is.
  How long a turn takes, with its pause when there is nothing to do, and when the shutdown is asked for are parameters; times are in seconds.
\<close>

section \<open>The timer\<close>

definition HEARTBEAT_PERIOD :: int where "HEARTBEAT_PERIOD = 30"

text \<open>
  The next deadline of a timer that skips the ticks it missed: it stays on the multiples of its period.
\<close>

definition next_deadline :: "int \<Rightarrow> int \<Rightarrow> int" where
  "next_deadline deadline fired = fired + HEARTBEAT_PERIOD - (fired - deadline) mod HEARTBEAT_PERIOD"

section \<open>Rounds\<close>

definition at_time :: "int \<Rightarrow> ('r, 'd) env \<Rightarrow> ('r, 'd) env" where
  "at_time now e = e\<lparr>e_clock := now\<rparr>"

text \<open>The shutdown, and how long the turns take.\<close>

record worker_plan =
  wp_cancelled :: "int \<Rightarrow> bool"
  wp_took :: "nat \<Rightarrow> int"

text \<open>Whether a turn finds a job, after the due retries have been put back into the queue.\<close>

definition takes_job :: "('r, 'd) env \<Rightarrow> string \<Rightarrow> ('r, 'd) mail \<Rightarrow> bool" where
  "takes_job e worker_id s = (case dequeue e worker_id (after (discard (process_retries e)) s) of Ok (Some job_id) t \<Rightarrow> True | _ \<Rightarrow> False)"

text \<open>
  The rounds of the loop: the times at which turns began, and the state at the end.  A shutdown is noticed before a turn, and during the
  pause of one that found no job; after the others the depth of the queue is read for its gauge.
\<close>

primrec worker_rounds ::
  "nat \<Rightarrow> worker_plan \<Rightarrow> ('r, 'd) env \<Rightarrow> mail_config \<Rightarrow> string \<Rightarrow> (mail_error \<Rightarrow> string) \<Rightarrow> nat \<Rightarrow> int \<Rightarrow> int \<Rightarrow> ('r, 'd) mail \<Rightarrow>
   int list \<times> ('r, 'd) mail" where
  "worker_rounds 0 p e c worker_id show_error k now deadline s = ([], s)"
| "worker_rounds (Suc n) p e c worker_id show_error k now deadline s = (let
     fired = max now deadline;
     e1 = at_time fired e;
     s1 = after (discard (update_worker_heartbeat e1 worker_id)) s
   in if wp_cancelled p fired then ([], s1)
      else let s2 = after (worker_turn e1 c worker_id show_error) s1; later = fired + wp_took p k
        in if \<not> takes_job e1 worker_id s1 \<and> wp_cancelled p later then ([fired], s2)
           else let s3 = after (discard (get_queue_depth (at_time later e))) s2;
               (times, t) = worker_rounds n p e c worker_id show_error (k + 1) later (next_deadline deadline fired) s3
           in (fired # times, t))"

text \<open>The first tick is immediate; jobs that another worker left are recovered before the loop.\<close>

definition start_worker ::
  "nat \<Rightarrow> worker_plan \<Rightarrow> ('r, 'd) env \<Rightarrow> mail_config \<Rightarrow> string \<Rightarrow> (mail_error \<Rightarrow> string) \<Rightarrow> nat \<Rightarrow> int \<Rightarrow> ('r, 'd) mail \<Rightarrow>
   int list \<times> ('r, 'd) mail" where
  "start_worker rounds p e c worker_id show_error stale_threshold_secs now s = (let
     s1 = after (discard (recover_orphaned_jobs (at_time now e) stale_threshold_secs)) s
   in worker_rounds rounds p e c worker_id show_error 0 now now s1)"

section \<open>One turn in half a minute\<close>

lemma next_deadline_later: "deadline \<le> fired \<Longrightarrow> deadline + 30 \<le> next_deadline deadline fired"
proof -
  assume "deadline \<le> fired"
  then have "(fired - deadline) mod 30 \<le> fired - deadline" by (simp add: zmod_le_nonneg_dividend)
  then show ?thesis by (simp add: next_deadline_def HEARTBEAT_PERIOD_def)
qed

lemma rounds_pace:
  "i < length (fst (worker_rounds n p e c worker_id show_error k now deadline s)) \<Longrightarrow>
    deadline + 30 * int i \<le> fst (worker_rounds n p e c worker_id show_error k now deadline s) ! i"
proof (induction n arbitrary: i k now deadline s)
  case (Suc n)
  let ?fired = "max now deadline"
  show ?case
  proof (cases i)
    case 0
    with Suc.prems show ?thesis by (auto simp: Let_def split: prod.splits if_splits)
  next
    case (Suc j)
    obtain s3 where r: "fst (worker_rounds (Suc n) p e c worker_id show_error k now deadline s) =
        ?fired # fst (worker_rounds n p e c worker_id show_error (k + 1) (?fired + wp_took p k) (next_deadline deadline ?fired) s3)"
      using Suc.prems Suc by (auto simp: Let_def split: prod.splits if_splits) (metis fst_conv)+
    have "deadline + 30 \<le> next_deadline deadline ?fired" by (rule next_deadline_later) simp
    with Suc.IH [of j] Suc.prems show ?thesis unfolding r Suc by fastforce
  qed
qed simp

text \<open>
  However many jobs wait and however fast they are handled, turn \<open>i\<close> of a worker does not begin before half a minute for each turn before it
  has passed; as a turn takes one job from the queue, a worker handles no more than two jobs a minute.
\<close>

theorem worker_pace:
  assumes "i < length (fst (start_worker rounds p e c worker_id show_error stale_threshold_secs now s))"
  shows "now + 30 * int i \<le> fst (start_worker rounds p e c worker_id show_error stale_threshold_secs now s) ! i"
  using assms rounds_pace unfolding start_worker_def Let_def by blast

text \<open>Without a shutdown the worker never stops.\<close>

lemma worker_goes_on: "(\<And>t. \<not> wp_cancelled p t) \<Longrightarrow>
    length (fst (worker_rounds n p e c worker_id show_error k now deadline s)) = n"
  by (induction n arbitrary: k now deadline s) (simp_all add: Let_def split: prod.split, metis fst_conv)

text \<open>A worker that is stopped from the start takes no job.\<close>

lemma stopped_worker: "wp_cancelled p now \<Longrightarrow>
    fst (start_worker rounds p e c worker_id show_error stale_threshold_secs now s) = []"
  by (cases rounds) (simp_all add: start_worker_def Let_def)

end
