(* ===== verification/Request_Filters.thy ===== *)
theory Request_Filters
  imports Http
begin

text \<open>
  The filters every request passes: \<^verbatim>\<open>validation.rs\<close> (body size, content type, suspicious patterns, cleaning of
  texts), \<^verbatim>\<open>content_type.rs\<close>, \<^verbatim>\<open>csrf.rs\<close>, \<^verbatim>\<open>correlation.rs\<close>, \<^verbatim>\<open>versioning.rs\<close>, \<^verbatim>\<open>pagination.rs\<close>, and the header and
  redirect middlewares of \<^verbatim>\<open>security.rs\<close>.  The case tables of Unicode, the classification of alphanumeric
  characters and the UUID crate are parameters.
\<close>

section \<open>Limits: validation.rs\<close>

definition DEFAULT_REQUEST_BODY_MAX_BYTES :: int where
  "DEFAULT_REQUEST_BODY_MAX_BYTES = 1048576"

definition positive_or :: "int \<Rightarrow> string option \<Rightarrow> int" where
  "positive_or dflt val = unwrap_or (Option.bind (Option.bind val (\<lambda>s. parse_unsigned 64 (trim s)))
     (\<lambda>n. if n > 0 then Some n else None)) dflt"

definition parse_request_body_max_bytes :: "string option \<Rightarrow> int" where
  "parse_request_body_max_bytes val = positive_or DEFAULT_REQUEST_BODY_MAX_BYTES val"

definition body_limit :: "environment \<Rightarrow> int" where
  "body_limit env = parse_request_body_max_bytes (env ''REQUEST_BODY_MAX_BYTES'')"

definition payload_too_large :: "int \<Rightarrow> http_response" where
  "payload_too_large limit = json_response 413 (JObj
     [(''error'', JStr ''payload_too_large''),
      (''message'', JStr (''Request body exceeds the maximum allowed size of '' @ show_int 10 limit @ '' bytes.'')),
      (''limit_bytes'', JNum limit)])"

text \<open>\<^verbatim>\<open>axum::body::to_bytes\<close> fails when the body is longer than the cap; \<^verbatim>\<open>limit + 1\<close> is computed in 64 bits.\<close>

definition to_bytes :: "string \<Rightarrow> int \<Rightarrow> string option" where
  "to_bytes body cap = (if int (length body) > cap then None else Some body)"

definition oversized :: "environment \<Rightarrow> http_request \<Rightarrow> http_response option" where
  "oversized env req = (let limit = body_limit env in
     if (case Option.bind (header_text req ''content-length'') (parse_unsigned 64) of Some n \<Rightarrow> n > limit | None \<Rightarrow> False)
     then Some (payload_too_large limit)
     else case to_bytes (rq_body req) ((limit + 1) mod 2 ^ 64) of
       None \<Rightarrow> Some (payload_too_large limit)
     | Some bytes \<Rightarrow> if int (length bytes) > limit then Some (payload_too_large limit) else None)"

definition request_size_validation_middleware :: "environment \<Rightarrow> 's middleware" where
  "request_size_validation_middleware env = filter_with (oversized env)"

definition DEFAULT_WEBHOOK_MAX_EVENTS :: int where
  "DEFAULT_WEBHOOK_MAX_EVENTS = 1000"

definition parse_webhook_max_events :: "string option \<Rightarrow> int" where
  "parse_webhook_max_events val = positive_or DEFAULT_WEBHOOK_MAX_EVENTS val"

definition webhook_max_events :: "environment \<Rightarrow> int" where
  "webhook_max_events env = parse_webhook_max_events (env ''WEBHOOK_MAX_EVENTS'')"

definition webhook_batch_within_limit :: "environment \<Rightarrow> int \<Rightarrow> bool" where
  "webhook_batch_within_limit env event_count \<longleftrightarrow> event_count \<le> webhook_max_events env"

section \<open>Content type: validation.rs and content\_type.rs\<close>

definition JSON_REQUIRED_METHODS :: "string list" where
  "JSON_REQUIRED_METHODS = [''POST'', ''PUT'', ''PATCH'']"

definition unsupported_media_type :: "string \<Rightarrow> string \<Rightarrow> http_response" where
  "unsupported_media_type message ct = json_response 415 (JObj
     [(''error'', JStr ''unsupported_media_type''), (''message'', JStr message),
      (''required'', JStr ''application/json''), (''received'', JStr (if ct = [] then ''not set'' else ct))])"

definition wrong_content_type :: "http_request \<Rightarrow> http_response option" where
  "wrong_content_type req = (if rq_method req \<in> set JSON_REQUIRED_METHODS then
     (let ct = header_or_empty req ''content-type'' in
      if \<not> starts_with ''application/json'' ct
      then Some (unsupported_media_type ''Content-Type must be application/json for POST, PUT, and PATCH requests.'' ct)
      else None) else None)"

definition content_type_validation_middleware :: "'s middleware" where
  "content_type_validation_middleware = filter_with wrong_content_type"

fun params_ok :: "string list \<Rightarrow> bool" where
  "params_ok [] = True"
| "params_ok (p # ps) = (let param = trim p in
     if param = [] then False
     else case split_once CHR ''='' param of
       Some (name, value) \<Rightarrow> if trim name = [] \<or> trim value = [] then False else params_ok ps
     | None \<Rightarrow> False)"

definition is_json_content_type :: "string \<Rightarrow> bool" where
  "is_json_content_type content_type = (let parts = split_at CHR '';'' content_type in
     if \<not> eq_ignore_ascii_case (trim (hd parts)) ''application/json'' then False else params_ok (tl parts))"

definition not_json :: "http_request \<Rightarrow> http_response option" where
  "not_json req = (if rq_method req \<notin> set JSON_REQUIRED_METHODS then None else
     let content_type = header_or_empty req ''content-type'' in
     if \<not> is_json_content_type content_type then Some (unsupported_media_type
       (''Content-Type must be application/json for POST, PUT, and PATCH requests. Ensure the header is set to '' @
        [CHR 0x27] @ ''application/json'' @ [CHR 0x27] @ '' and the body is valid JSON.'') content_type)
     else None)"

definition require_json_content_type :: "'s middleware" where
  "require_json_content_type = filter_with not_json"

section \<open>Suspicious patterns: validation.rs\<close>

definition SUSPICIOUS_QUERY_PATTERNS :: "string list" where
  "SUSPICIOUS_QUERY_PATTERNS =
     [CHR 0x27 # '' or'', CHR 0x22 # '' or'', ''1=1'', ''or 1=1'', ''drop table'', ''select '', ''insert '',
      ''delete '', ''update '', ''union '', ''--'', ''/*'', ''*/'', ''xp_'', ''exec('']"

definition SUSPICIOUS_PATH_PATTERNS :: "string list" where
  "SUSPICIOUS_PATH_PATTERNS = [''//'', ''../'', ''..'' @ [CHR 0x5C], ''%2e%2e'']"

definition invalid_request :: "string \<Rightarrow> http_response" where
  "invalid_request message = json_response 400 (JObj [(''error'', JStr ''invalid_request''), (''message'', JStr message)])"

definition suspicious :: "'net text_lib \<Rightarrow> http_request \<Rightarrow> http_response option" where
  "suspicious lib req =
     (if (case rq_query req of Some query \<Rightarrow> list_ex (\<lambda>p. str_contains p (to_lowercase lib query)) SUSPICIOUS_QUERY_PATTERNS
            | None \<Rightarrow> False)
      then Some (invalid_request ''Request contains disallowed query patterns.'')
      else if list_ex (\<lambda>p. str_contains p (to_lowercase lib (rq_path req))) SUSPICIOUS_PATH_PATTERNS
      then Some (invalid_request ''Request path contains disallowed patterns.'')
      else None)"

definition request_validation_middleware :: "'net text_lib \<Rightarrow> 's middleware" where
  "request_validation_middleware lib = filter_with (suspicious lib)"

section \<open>Cleaning of texts: validation.rs and security.rs\<close>

record ValidationError =
  ve_error :: string
  ve_field :: string
  ve_message :: string

definition REJECT_PATTERNS :: "string list" where
  "REJECT_PATTERNS = [''<script'', ''</script'', ''javascript:'', ''vbscript:'', ''data:text/html'', ''on error='',
     ''onerror='', ''onload='', ''onclick='', ''onmouseover='', ''onfocus='', ''expression('', ''&#'', ''&lt;script'']"

definition contains_injection :: "'net text_lib \<Rightarrow> string \<Rightarrow> bool" where
  "contains_injection lib value \<longleftrightarrow> list_ex (\<lambda>pat. str_contains pat (to_lowercase lib value)) REJECT_PATTERNS"

fun strip_tags_from :: "bool \<Rightarrow> string \<Rightarrow> string" where
  "strip_tags_from in_tag [] = []"
| "strip_tags_from in_tag (ch # rest) =
     (if ch = CHR ''<'' then strip_tags_from True rest
      else if ch = CHR ''>'' then strip_tags_from False rest
      else if \<not> in_tag then ch # strip_tags_from in_tag rest
      else strip_tags_from in_tag rest)"

definition strip_html_tags :: "string \<Rightarrow> string" where
  "strip_html_tags input = strip_tags_from False input"

definition strip_control_chars :: "string \<Rightarrow> string" where
  "strip_control_chars input = concat (filter (\<lambda>c. c = [CHR 0x09] \<or> c = [CHR 0x0A] \<or> c = [CHR 0x0D] \<or>
     \<not> is_control c \<and> c \<noteq> [CHR 0x00]) (utf8_chars input))"

definition sanitize_string :: "'net text_lib \<Rightarrow> string \<Rightarrow> string \<Rightarrow> ValidationError + string" where
  "sanitize_string lib field_name value =
     (if contains_injection lib value then Inl \<lparr> ve_error = ''invalid_content'', ve_field = field_name,
        ve_message = ''Field '' @ [CHR 0x27] @ field_name @ [CHR 0x27] @
          '' contains disallowed content (script tags or event handlers).'' \<rparr>
      else let stripped = strip_html_tags value; clean = strip_control_chars stripped in Inr (trim clean))"

definition validate_string :: "'net text_lib \<Rightarrow> string \<Rightarrow> string \<Rightarrow> nat \<Rightarrow> nat \<Rightarrow> ValidationError + string" where
  "validate_string lib field_name value min_len max_len = (case sanitize_string lib field_name value of
     Inl e \<Rightarrow> Inl e
   | Inr sanitized \<Rightarrow>
       if length sanitized < min_len then Inl \<lparr> ve_error = ''too_short'', ve_field = field_name,
         ve_message = ''Field '' @ [CHR 0x27] @ field_name @ [CHR 0x27] @ '' must be at least '' @
           show_int 10 (int min_len) @ '' characters.'' \<rparr>
       else if length sanitized > max_len then Inl \<lparr> ve_error = ''too_long'', ve_field = field_name,
         ve_message = ''Field '' @ [CHR 0x27] @ field_name @ [CHR 0x27] @ '' must be at most '' @
           show_int 10 (int max_len) @ '' characters.'' \<rparr>
       else Inr sanitized)"

definition sanitize_email :: "'net text_lib \<Rightarrow> (string \<Rightarrow> bool) \<Rightarrow> string \<Rightarrow> string option" where
  "sanitize_email lib validate_email input = (let cleaned = to_lowercase lib (trim input) in
     if length cleaned > 254 \<or> \<not> validate_email cleaned then None else Some cleaned)"

definition sanitize_text :: "string \<Rightarrow> nat \<Rightarrow> string" where
  "sanitize_text input max_len = concat (take max_len (filter (\<lambda>c. \<not> is_control c \<or>
     c \<in> set [[CHR 0x09], [CHR 0x0A], [CHR 0x0D], [CHR '' '']]) (utf8_chars input)))"

definition numeric_id :: "string \<Rightarrow> int option" where
  "numeric_id input = parse_signed 64 (trim input)"

definition sql_patterns :: "string list" where
  "sql_patterns = [[CHR 0x27] @ '' or '' @ [CHR 0x27] @ ''1'' @ [CHR 0x27] @ ''='' @ [CHR 0x27] @ ''1'',
     [CHR 0x27] @ '' or 1=1'', [CHR 0x27] @ ''; drop table'', [CHR 0x27] @ ''; delete from'', ''union select'',
     ''exec('', ''execute('', ''script>'', ''<script'', ''javascript:'', ''onerror='', ''onload='']"

definition contains_sql_injection :: "'net text_lib \<Rightarrow> string \<Rightarrow> bool" where
  "contains_sql_injection lib input \<longleftrightarrow> list_ex (\<lambda>pattern. str_contains pattern (to_lowercase lib input)) sql_patterns"

section \<open>Cross-site requests: csrf.rs\<close>

definition origin_allowed :: "'net text_lib \<Rightarrow> string list \<Rightarrow> string \<Rightarrow> bool" where
  "origin_allowed lib origins value = (let value_lc = to_lowercase lib value in
     list_ex (\<lambda>allowed. let allowed_lc = to_lowercase lib allowed in
       value_lc = allowed_lc \<or> starts_with (allowed_lc @ ''/'') value_lc) origins)"

definition forged :: "'net text_lib \<Rightarrow> string list \<Rightarrow> http_request \<Rightarrow> http_response option" where
  "forged lib origins req =
     (if has_header req ''x-api-key'' then None
      else if rq_method req \<notin> set [''POST'', ''PUT'', ''PATCH'', ''DELETE''] then None
      else case header_text req ''origin'' of
        Some origin_val \<Rightarrow> if \<not> origin_allowed lib origins origin_val then Some (status_response 403) else None
      | None \<Rightarrow> if has_header req ''cookie'' then (case header_text req ''referer'' of
            Some referer_val \<Rightarrow> if \<not> origin_allowed lib origins referer_val then Some (status_response 403) else None
          | None \<Rightarrow> None)
          else None)"

definition csrf_protection_middleware :: "'net text_lib \<Rightarrow> string list \<Rightarrow> 's middleware" where
  "csrf_protection_middleware lib origins = filter_with (forged lib origins)"

section \<open>Headers and redirects: security.rs\<close>

definition quoted :: "string \<Rightarrow> string" where
  "quoted s = [CHR 0x27] @ s @ [CHR 0x27]"

definition security_headers :: "(string \<times> string) list" where
  "security_headers =
     [(''content-security-policy'', concat (map (\<lambda>d. d @ '' '' @ quoted ''none'' @ '';'')
         [''default-src'', '' script-src'', '' style-src'', '' img-src'', '' font-src'', '' connect-src'',
          '' frame-ancestors'', '' base-uri'', '' form-action'', '' object-src''])),
      (''x-frame-options'', ''DENY''),
      (''x-content-type-options'', ''nosniff''),
      (''x-xss-protection'', ''1; mode=block''),
      (''strict-transport-security'', ''max-age=31536000; includeSubDomains; preload''),
      (''referrer-policy'', ''strict-origin-when-cross-origin''),
      (''permissions-policy'', ''geolocation=(), microphone=(), camera=()'')]"

definition security_headers_middleware :: "'s middleware" where
  "security_headers_middleware next req s = (case next req s of
     (response, s') \<Rightarrow> (fold (\<lambda>(name, value). insert_header name value) security_headers response, s'))"

text \<open>A redirect target that is no header value is left out; \<open>path_and_query\<close> of a request target is never empty.\<close>

definition path_and_query :: "http_request \<Rightarrow> string" where
  "path_and_query req = rq_path req @ (case rq_query req of Some q \<Rightarrow> ''?'' @ q | None \<Rightarrow> [])"

definition redirected :: "bool \<Rightarrow> http_request \<Rightarrow> http_response option" where
  "redirected require req =
     (if require \<and> header_or_empty req ''x-forwarded-proto'' = ''http'' then
        (let redirect_url = ''https://'' @ header_or_empty req ''host'' @ path_and_query req in
         Some (insert_header ''location'' redirect_url (status_response 301)))
      else None)"

definition https_redirect_middleware :: "bool \<Rightarrow> 's middleware" where
  "https_redirect_middleware require = filter_with (redirected require)"

section \<open>Correlation identifiers: correlation.rs\<close>

definition REQUEST_ID_MAX_LEN :: nat where
  "REQUEST_ID_MAX_LEN = 64"

text \<open>The UUID crate: the parser, the version number and the canonical text.\<close>

record uuid_lib =
  uuid_parse :: "string \<Rightarrow> u128 option"
  uuid_version :: "u128 \<Rightarrow> nat"
  uuid_text :: "u128 \<Rightarrow> string"

definition parse_valid_request_id :: "uuid_lib \<Rightarrow> string \<Rightarrow> string option" where
  "parse_valid_request_id ul header_value =
     (if length header_value > REQUEST_ID_MAX_LEN then None
      else case uuid_parse ul header_value of None \<Rightarrow> None
      | Some uuid \<Rightarrow> if uuid_version ul uuid \<noteq> 4 then None else Some (uuid_text ul uuid))"

definition correlation_id_middleware :: "uuid_lib \<Rightarrow> u128 \<Rightarrow> 's middleware" where
  "correlation_id_middleware ul fresh next req s =
     (let id = unwrap_or (Option.bind (header_text req ''x-request-id'') (parse_valid_request_id ul)) (uuid_text ul fresh);
          req' = req\<lparr>rq_headers := (rq_headers req)(''x-request-id'' \<mapsto> id)\<rparr>
      in case next req' s of (response, s') \<Rightarrow> (insert_header ''x-request-id'' id response, s'))"

section \<open>Versions: versioning.rs\<close>

definition CURRENT_VERSION :: string where
  "CURRENT_VERSION = ''v1''"

definition SUPPORTED_VERSIONS :: "string list" where
  "SUPPORTED_VERSIONS = [''v1'']"

definition resolve_version :: "'net text_lib \<Rightarrow> http_request \<Rightarrow> string" where
  "resolve_version lib req = unwrap_or (Option.bind (header_text req ''api-version'')
     (\<lambda>v. let w = to_lowercase lib (trim v) in if w \<in> set SUPPORTED_VERSIONS then Some w else None)) CURRENT_VERSION"

text \<open>The sampler remembers when it last logged for a client and a version, in seconds.\<close>

definition should_log :: "int \<Rightarrow> string \<Rightarrow> string \<Rightarrow> (string \<rightharpoonup> int) \<Rightarrow> bool \<times> (string \<rightharpoonup> int)" where
  "should_log now client version seen = (let key = client @ '':'' @ version in
     case seen key of
       None \<Rightarrow> (True, seen(key \<mapsto> now))
     | Some last_time \<Rightarrow> if now - last_time \<ge> 3600 then (True, seen(key \<mapsto> now)) else (False, seen))"

definition peer_ip_from_headers :: "http_request \<Rightarrow> string" where
  "peer_ip_from_headers req = (case header_text req ''x-forwarded-for'' of
     Some v \<Rightarrow> trim (hd (split_at CHR '','' v))
   | None \<Rightarrow> (case header_text req ''x-real-ip'' of Some v \<Rightarrow> trim v | None \<Rightarrow> ''unknown''))"

definition DEPRECATED_VERSIONS :: "string list" where
  "DEPRECATED_VERSIONS = [''v1'']"

record versioning_state =
  last_logged :: "string \<rightharpoonup> int"
  deprecated_calls :: "string \<Rightarrow> nat"

text \<open>The version reaches the handlers as an extension of the request, here an argument of the next handler.\<close>

definition versioning_middleware ::
  "'net text_lib \<Rightarrow> int \<Rightarrow> (string \<Rightarrow> (versioning_state \<times> 's) handler) \<Rightarrow> (versioning_state \<times> 's) handler" where
  "versioning_middleware lib now next req st = (case st of (vs, s) \<Rightarrow>
     (let version = resolve_version lib req;
          vs' = (if version \<in> set DEPRECATED_VERSIONS then
              vs\<lparr>deprecated_calls := (deprecated_calls vs)(version := deprecated_calls vs version + 1),
                 last_logged := snd (should_log now (peer_ip_from_headers req) version (last_logged vs))\<rparr>
            else vs)
      in next version req (vs', s)))"

definition v1_deprecation_middleware :: "'s middleware" where
  "v1_deprecation_middleware next req s = (case next req s of (response, s') \<Rightarrow>
     (insert_header ''link'' (''</api/v1>; rel='' @ [CHR 0x22] @ ''deprecation'' @ [CHR 0x22] @ ''; type='' @ [CHR 0x22] @ ''text/html'' @ [CHR 0x22])
       (insert_header ''sunset'' ''Sat, 31 Dec 2026 00:00:00 GMT''
         (insert_header ''deprecation'' ''true'' response)), s'))"

section \<open>Pages: pagination.rs\<close>

definition MAX_PAGE_LIMIT :: int where
  "MAX_PAGE_LIMIT = 100"

definition DEFAULT_LIMIT :: int where
  "DEFAULT_LIMIT = 20"

record PaginationParams =
  pp_limit :: "int option"
  pp_cursor :: "string option"
  pp_offset :: "int option"

record ValidatedPagination =
  vp_limit :: int
  vp_cursor :: "string option"
  vp_offset :: int

record PaginationError =
  pe_error :: string
  pe_message :: string
  pe_max_limit :: int

text \<open>The characters of a cursor; \<open>alnum\<close> is \<^verbatim>\<open>char::is_alphanumeric\<close>.\<close>

definition cursor_char :: "(string \<Rightarrow> bool) \<Rightarrow> string \<Rightarrow> bool" where
  "cursor_char alnum c \<longleftrightarrow> alnum c \<or> c \<in> set [''-'', ''_'', ''='', ''+'', ''/'']"

definition validate_pagination :: "(string \<Rightarrow> bool) \<Rightarrow> PaginationParams \<Rightarrow> PaginationError + ValidatedPagination" where
  "validate_pagination alnum params = (let limit = unwrap_or (pp_limit params) DEFAULT_LIMIT in
     if limit = 0 then Inl \<lparr> pe_error = ''invalid_limit'', pe_message = ''limit must be at least 1.'', pe_max_limit = MAX_PAGE_LIMIT \<rparr>
     else if limit > MAX_PAGE_LIMIT then Inl \<lparr> pe_error = ''limit_exceeded'',
       pe_message = ''limit '' @ show_int 10 limit @ '' exceeds the maximum allowed value of '' @ show_int 10 MAX_PAGE_LIMIT @
         ''. Use cursor-based pagination for large datasets.'', pe_max_limit = MAX_PAGE_LIMIT \<rparr>
     else let accepted = \<lparr> vp_limit = limit, vp_cursor = pp_cursor params, vp_offset = unwrap_or (pp_offset params) 0 \<rparr> in
       case pp_cursor params of
         Some cursor \<Rightarrow>
           if \<not> list_all (cursor_char alnum) (utf8_chars cursor) then Inl \<lparr> pe_error = ''invalid_cursor'',
             pe_message = ''cursor contains invalid characters.'', pe_max_limit = MAX_PAGE_LIMIT \<rparr>
           else if cursor = [] then Inl \<lparr> pe_error = ''invalid_cursor'',
             pe_message = ''cursor must not be empty.'', pe_max_limit = MAX_PAGE_LIMIT \<rparr>
           else Inr accepted
       | None \<Rightarrow> Inr accepted)"

record 'a PageResponse =
  pr_items :: "'a list"
  pr_next_cursor :: "string option"

definition from_fetched :: "'a list \<Rightarrow> nat \<Rightarrow> ('a \<Rightarrow> string) \<Rightarrow> 'a PageResponse" where
  "from_fetched fetched limit make_cursor = (let has_next = length fetched > limit;
       items = (if has_next then take limit fetched else fetched);
       next_cursor = (if has_next then (if items = [] then None else Some (make_cursor (last items))) else None)
     in \<lparr> pr_items = items, pr_next_cursor = next_cursor \<rparr>)"

definition pagination_limit :: "int option \<Rightarrow> int" where
  "pagination_limit limit = min (max (unwrap_or limit DEFAULT_LIMIT) 1) MAX_PAGE_LIMIT"

section \<open>What the filters let through\<close>

lemma filter_with_passes: "reject req = None \<Longrightarrow> filter_with reject next req s = next req s"
  by (simp add: filter_with_def)

lemma positive_or_range:
  assumes "0 < d" "d < 2 ^ 64"
  shows "0 < positive_or d v \<and> positive_or d v < 2 ^ 64"
  using assms by (auto simp: positive_or_def unwrap_or_def bind_eq_Some_conv dest: parse_unsigned_range split: option.splits if_splits)

text \<open>
  A request passes the size filter exactly when neither its body nor the length it declares exceeds the
  limit.  The one exception is a limit of all ones, for which the increment in the code wraps to zero and
  every request with a body is refused.
\<close>

theorem size_filter_decision:
  "oversized env req = None \<longleftrightarrow>
     int (length (rq_body req)) \<le> (if body_limit env = 2 ^ 64 - 1 then 0 else body_limit env) \<and>
     (case Option.bind (header_text req ''content-length'') (parse_unsigned 64) of
        Some n \<Rightarrow> n \<le> body_limit env | None \<Rightarrow> True)"
proof -
  have r: "0 < body_limit env" "body_limit env < 2 ^ 64"
    using positive_or_range [of DEFAULT_REQUEST_BODY_MAX_BYTES]
    by (simp_all add: body_limit_def parse_request_body_max_bytes_def DEFAULT_REQUEST_BODY_MAX_BYTES_def)
  show ?thesis
  proof (cases "body_limit env = 2 ^ 64 - 1")
    case True
    then have "(body_limit env + 1) mod 2 ^ 64 = 0" by simp
    with True show ?thesis by (auto simp: oversized_def Let_def to_bytes_def split: option.splits if_splits)
  next
    case False
    with r have "(body_limit env + 1) mod 2 ^ 64 = body_limit env + 1" by (intro mod_pos_pos_trivial) auto
    with False show ?thesis by (auto simp: oversized_def Let_def to_bytes_def split: option.splits if_splits)
  qed
qed

lemma strip_tags_plain: "set (strip_tags_from b s) \<subseteq> set s - {CHR ''<'', CHR ''>''}"
  by (induction b s rule: strip_tags_from.induct) auto

lemma set_strip_codes: "set (strip_codes ws s) \<subseteq> set s"
proof (induction ws s rule: strip_codes.induct)
  case (1 ws s)
  show ?case
  proof (cases "find (\<lambda>w. w \<noteq> [] \<and> prefix w s) ws")
    case None
    then show ?thesis by (simp add: strip_codes.simps [of ws s])
  next
    case (Some w)
    then have "strip_codes ws s = strip_codes ws (drop (length w) s)" by (simp add: strip_codes.simps [of ws s])
    with 1 [OF Some] show ?thesis by (metis set_drop_subset subset_trans)
  qed
qed

lemma set_trim: "set (trim s) \<subseteq> set s"
  using set_strip_codes [of "map rev ws_codes" "rev (trim_start s)"] set_strip_codes [of ws_codes s]
  by (auto simp: trim_def trim_end_def trim_start_def)

lemma set_strip_control: "set (strip_control_chars s) \<subseteq> set s"
proof -
  have "set (concat (filter P cs)) \<subseteq> set (concat cs)" for P and cs :: "string list" by auto
  from this [of _ "utf8_chars s"] show ?thesis unfolding strip_control_chars_def concat_utf8_chars .
qed

text \<open>Tabs, line ends and the visible characters of ASCII.\<close>

definition plain_char :: "char \<Rightarrow> bool" where
  "plain_char c \<longleftrightarrow> (let n = (of_char c :: int) in n = 9 \<or> n = 10 \<or> n = 13 \<or> 32 \<le> n \<and> n < 127)"

lemma strip_control_ascii:
  assumes "is_ascii s"
  shows "list_all plain_char (strip_control_chars s)"
proof -
  have "plain_char c" if "(of_char c :: int) < 128" "c = CHR 0x09 \<or> c = CHR 0x0A \<or> c = CHR 0x0D \<or> \<not> is_control [c]" for c
    using that by (auto simp: plain_char_def is_control_def Let_def)
  then show ?thesis
    using assms by (auto simp: strip_control_chars_def utf8_chars_ascii is_ascii_def list_all_iff)
qed

text \<open>
  A text that passes the cleaning has no angle bracket left, and a text in ASCII consists of visible
  characters, blanks, tabs and line ends afterwards.
\<close>

theorem sanitized_text_clean:
  assumes ok: "sanitize_string lib field v = Inr out"
  shows "CHR ''<'' \<notin> set out" "CHR ''>'' \<notin> set out" "is_ascii v \<Longrightarrow> list_all plain_char out"
proof -
  have out: "out = trim (strip_control_chars (strip_html_tags v))"
    using ok by (auto simp: sanitize_string_def Let_def split: if_splits)
  have sub: "set out \<subseteq> set (strip_control_chars (strip_html_tags v))" using set_trim out by simp
  have tags: "set (strip_html_tags v) \<subseteq> set v - {CHR ''<'', CHR ''>''}"
    unfolding strip_html_tags_def by (rule strip_tags_plain)
  then show "CHR ''<'' \<notin> set out" "CHR ''>'' \<notin> set out"
    using sub set_strip_control [of "strip_html_tags v"] by auto
  assume "is_ascii v"
  then have "is_ascii (strip_html_tags v)" using tags by (auto simp: is_ascii_def list_all_iff)
  from strip_control_ascii [OF this] sub show "list_all plain_char out" by (auto simp: list_all_iff)
qed

theorem sanitized_text_clean_witness:
  "CHR ''<'' \<notin> set ''hello''"
  by (rule sanitized_text_clean(1) [of "plain_lib :: unit text_lib" "''name''" "''<b>hel''@[CHR 0x07]@''lo</b> ''"]) code_simp

text \<open>
  The order of the two steps defeats the first: the patterns are looked for before the tags are removed, so
  that a tag inside a pattern hides it, and the accepted text contains what the filter is there to reject.
\<close>

theorem sanitizer_bypassed:
  assumes "case_laws lib"
  shows "\<exists>v out. sanitize_string lib field v = Inr out \<and> str_contains ''javascript:'' out"
proof -
  let ?v = "''java<b>script:alert(1)''"
  have "to_lowercase lib ?v = map ascii_lower ?v"
    using assms by (simp add: case_laws_def is_ascii_def)
  then have "\<not> contains_injection lib ?v"
    by (simp add: contains_injection_def REJECT_PATTERNS_def starts_with_def ascii_lower_def)
  moreover have "trim (strip_control_chars (strip_html_tags ?v)) = ''javascript:alert(1)''" by code_simp
  ultimately have "sanitize_string lib field ?v = Inr ''javascript:alert(1)''"
    by (simp add: sanitize_string_def Let_def)
  moreover have "str_contains ''javascript:'' ''javascript:alert(1)''" by code_simp
  ultimately show ?thesis by blast
qed

lemma plain_lib_laws: "case_laws plain_lib"
  by (simp add: case_laws_def plain_lib_def)

theorem sanitizer_bypassed_witness:
  "\<exists>v out. sanitize_string (plain_lib :: unit text_lib) ''bio'' v = Inr out \<and> str_contains ''javascript:'' out"
  by (rule sanitizer_bypassed) (rule plain_lib_laws)

text \<open>The form of an origin: a scheme and a host, with the two slashes between them and no other.\<close>

definition origin_form :: "string \<Rightarrow> bool" where
  "origin_form s \<longleftrightarrow> is_ascii s \<and> count_list s CHR ''/'' = 2"

lemma ascii_lower_slash: "ascii_lower c = CHR ''/'' \<longleftrightarrow> c = CHR ''/''"
proof
  assume l: "ascii_lower c = CHR ''/''"
  show "c = CHR ''/''"
  proof (rule ccontr)
    assume "c \<noteq> CHR ''/''"
    with l have n: "65 \<le> (of_char c :: int)" "(of_char c :: int) \<le> 90" and e: "char_of (of_char c + 32 :: int) = CHR ''/''"
      by (auto simp: ascii_lower_def Let_def split: if_splits)
    have "(of_char (char_of (of_char c + 32 :: int)) :: int) = of_char c + 32"
      using n of_char_of [of "of_char c + 32 :: int"] by (simp add: of_char_def)
    with e n show False by simp
  qed
qed (simp add: ascii_lower_def)

lemma count_lower_slash: "count_list (map ascii_lower s) CHR ''/'' = count_list s CHR ''/''"
  by (induction s) (auto simp: ascii_lower_slash)

text \<open>
  Given origins of the usual form, the comparison of the cross-site filter is exact up to case: a
  lookalike that merely begins with an allowed origin is refused.  A state-changing request without an API
  key that names its origin is therefore handed on exactly when the origin is on the list.
\<close>

theorem csrf_origin_exact:
  assumes laws: "case_laws lib" and origins: "list_all origin_form origins" and v: "origin_form v"
    and req: "rq_headers req ''x-api-key'' = None" "rq_method req \<in> set [''POST'', ''PUT'', ''PATCH'', ''DELETE'']"
      "header_text req ''origin'' = Some v"
  shows "csrf_protection_middleware lib origins next req s =
     (if list_ex (eq_ignore_ascii_case v) origins then next req s else (status_response 403, s))"
proof -
  have low: "to_lowercase lib a = map ascii_lower a" if "origin_form a" for a
    using laws that by (simp add: case_laws_def origin_form_def)
  have "\<not> starts_with (map ascii_lower a @ ''/'') (map ascii_lower v)" if "origin_form a" for a
  proof
    assume "starts_with (map ascii_lower a @ ''/'') (map ascii_lower v)"
    then obtain t where "map ascii_lower v = map ascii_lower a @ ''/'' @ t" by (auto simp: starts_with_iff)
    then have "count_list v CHR ''/'' = count_list a CHR ''/'' + 1 + count_list t CHR ''/''"
      by (metis (no_types) count_lower_slash count_list_append count_list.simps(2) add.commute add.assoc append_Cons append_Nil)
    with that v show False by (simp add: origin_form_def)
  qed
  then have "origin_allowed lib origins v = list_ex (eq_ignore_ascii_case v) origins"
    using origins low v by (auto simp: origin_allowed_def eq_ignore_ascii_case_def list_ex_iff list_all_iff Let_def)
  with req show ?thesis
    by (auto simp: csrf_protection_middleware_def filter_with_def forged_def has_header_def)
qed

definition browser_post :: "string \<Rightarrow> http_request" where
  "browser_post origin = \<lparr> rq_method = ''POST'', rq_path = ''/api/v1/newsletter/subscribe'', rq_query = None,
     rq_headers = [''origin'' \<mapsto> origin, ''cookie'' \<mapsto> ''s=1''], rq_body = [], rq_peer = None \<rparr>"

theorem csrf_origin_exact_witness:
  "csrf_protection_middleware (plain_lib :: unit text_lib) [''https://app.io''] (\<lambda>_ s. (status_response 200, s))
     (browser_post ''https://app.io.evil.com'') () = (status_response 403, ())"
  by (subst csrf_origin_exact [where v = "''https://app.io.evil.com''"])
    (simp_all add: plain_lib_laws origin_form_def is_ascii_def browser_post_def header_text_def to_str_def
      eq_ignore_ascii_case_def ascii_lower_def)

lemma str_contains_set: "str_contains p s \<Longrightarrow> set p \<subseteq> set s"
  by (auto simp: str_contains_iff)

lemma ascii_lower_blank: "ascii_lower c = CHR '' '' \<Longrightarrow> c = CHR '' ''"
proof (rule ccontr)
  assume l: "ascii_lower c = CHR '' ''" and "c \<noteq> CHR '' ''"
  then have n: "65 \<le> (of_char c :: int)" "(of_char c :: int) \<le> 90" and e: "char_of (of_char c + 32 :: int) = CHR '' ''"
    by (auto simp: ascii_lower_def Let_def split: if_splits)
  have "(of_char (char_of (of_char c + 32 :: int)) :: int) = of_char c + 32"
    using n of_char_of [of "of_char c + 32 :: int"] by (simp add: of_char_def)
  with e n show False by simp
qed

text \<open>
  A query never contains a blank, since the URI grammar has none and the filter looks at the encoded
  text.  So nine of the fifteen patterns cannot match, and what the query filter refuses is exactly a query
  with one of the other six: an encoded ``union select'' passes.
\<close>

theorem query_filter_exact:
  assumes "case_laws lib" "is_ascii q" "CHR '' '' \<notin> set q" "rq_query req = Some q"
    "\<not> list_ex (\<lambda>p. str_contains p (to_lowercase lib (rq_path req))) SUSPICIOUS_PATH_PATTERNS"
  shows "suspicious lib req \<noteq> None \<longleftrightarrow>
     list_ex (\<lambda>p. str_contains p (map ascii_lower q)) [''1=1'', ''--'', ''/*'', ''*/'', ''xp_'', ''exec('']"
proof -
  have low: "to_lowercase lib q = map ascii_lower q" using assms(1,2) by (simp add: case_laws_def)
  have "CHR '' '' \<notin> set (map ascii_lower q)" using assms(3) ascii_lower_blank by fastforce
  then have dead: "\<not> str_contains p (map ascii_lower q)" if "CHR '' '' \<in> set p" for p
    using that str_contains_set by blast
  have "suspicious lib req \<noteq> None \<longleftrightarrow> list_ex (\<lambda>p. str_contains p (map ascii_lower q)) SUSPICIOUS_QUERY_PATTERNS"
    using assms(4,5) low by (simp add: suspicious_def)
  then show ?thesis unfolding SUSPICIOUS_QUERY_PATTERNS_def by (simp add: dead)
qed

definition get_request :: "string \<Rightarrow> string option \<Rightarrow> http_request" where
  "get_request path query = \<lparr> rq_method = ''GET'', rq_path = path, rq_query = query,
     rq_headers = Map.empty, rq_body = [], rq_peer = None \<rparr>"

theorem query_filter_exact_witness:
  "suspicious (plain_lib :: unit text_lib) (get_request ''/x'' (Some ''q=%27+UNION+SELECT+*'')) = None"
proof -
  let ?q = "''q=%27+UNION+SELECT+*''"
  have "(suspicious (plain_lib :: unit text_lib) (get_request ''/x'' (Some ?q)) \<noteq> None) =
     list_ex (\<lambda>p. str_contains p (map ascii_lower ?q)) [''1=1'', ''--'', ''/*'', ''*/'', ''xp_'', ''exec('']"
    by (rule query_filter_exact [OF plain_lib_laws])
      (simp_all add: is_ascii_def get_request_def plain_lib_def SUSPICIOUS_PATH_PATTERNS_def starts_with_def ascii_lower_def)
  also have "\<dots> = False" by code_simp
  finally show ?thesis by simp
qed

text \<open>
  The two checks of the content type differ: the one in use compares the beginning of the header only,
  and with its case, while \<^verbatim>\<open>content_type.rs\<close> reads the media type as the standard has it.
\<close>

theorem content_type_checks_differ:
  "\<exists>ct. starts_with ''application/json'' ct \<and> \<not> is_json_content_type ct"
  "\<exists>ct. \<not> starts_with ''application/json'' ct \<and> is_json_content_type ct"
proof -
  have "starts_with ''application/json'' ''application/jsonp'' \<and> \<not> is_json_content_type ''application/jsonp''" by code_simp
  then show "\<exists>ct. starts_with ''application/json'' ct \<and> \<not> is_json_content_type ct" by blast
  have "\<not> starts_with ''application/json'' ''Application/JSON'' \<and> is_json_content_type ''Application/JSON''" by code_simp
  then show "\<exists>ct. \<not> starts_with ''application/json'' ct \<and> is_json_content_type ct" by blast
qed

text \<open>
  The pagination parameters are accepted exactly when the limit, or its default, lies between 1 and 100
  and a cursor, if there is one, is a non-empty text of admissible characters; the accepted values are the
  given ones.
\<close>

theorem pagination_decision:
  "(\<exists>v. validate_pagination alnum params = Inr v) \<longleftrightarrow>
     unwrap_or (pp_limit params) 20 \<noteq> 0 \<and> unwrap_or (pp_limit params) 20 \<le> 100 \<and>
     (case pp_cursor params of None \<Rightarrow> True | Some c \<Rightarrow> c \<noteq> [] \<and> list_all (cursor_char alnum) (utf8_chars c))"
  by (auto simp: validate_pagination_def Let_def DEFAULT_LIMIT_def MAX_PAGE_LIMIT_def split: option.splits)

end
