(* ===== verification/Site.thy ===== *)
theory Site
  imports Chain_Sync Request_Filters
begin

text \<open>
  The markets and contents the service answers with (\<^verbatim>\<open>handlers.rs\<close>, with the queries of \<^verbatim>\<open>db.rs\<close> and the pages of \<^verbatim>\<open>pagination.rs\<close>): the cached
  queries of the database, the handlers of statistics, featured markets, contents, of the chain and of the resolution of a market, the warming of
  the caches and the health checks.  A handler gives an error or a status with the value that the framework prints.  The text of a
  number and of a time, the outcome of a query, and the codec of the values in the cache are parameters; the tables do not change during a read.
\<close>

section \<open>Tables\<close>

record MarketRow =
  mr_id :: int
  mr_title :: string
  mr_status :: string
  mr_outcome_index :: "int option"
  mr_total_volume :: rat
  mr_ends_at :: int
  mr_resolved_at :: "int option"
  mr_deleted_at :: "int option"

record ContentRow =
  cr_id :: int
  cr_title :: string
  cr_category :: string
  cr_published_at :: int
  cr_is_published :: bool

record Statistics =
  ms_total_markets :: int
  ms_active_markets :: int
  ms_resolved_markets :: int
  ms_total_volume :: string

record FeaturedMarket =
  fm_id :: int
  fm_title :: string
  fm_volume :: string
  fm_ends_at :: int

record ContentItem =
  ci_id :: int
  ci_title :: string
  ci_category :: string
  ci_published_at :: int

record FeaturedMarketView =
  fv_id :: int
  fv_title :: string
  fv_volume :: string
  fv_ends_at :: int
  fv_onchain_volume :: string
  fv_resolved_outcome :: "int option"

section \<open>State and environment\<close>

text \<open>What the cache holds under the keys of the site.\<close>

datatype site_value = S_Statistics Statistics | S_Featured "FeaturedMarket list" | S_Contents "ContentItem list" | S_Views "FeaturedMarketView list"

record 'r site =
  si_chain :: "'r chain_state"
  si_markets :: "MarketRow list"
  si_contents :: "ContentRow list"

text \<open>
  A query is answered, fails, or runs out of time; a statement that changes the tables and was not answered may have been carried out.
\<close>

record ('r, 'f, 'net) site_env =
  se_chain :: "('r, 'f, 'net) chain_env"
  se_query :: "nat \<Rightarrow> (sqlx_error + unit) option"
  se_carried_out :: "nat \<Rightarrow> bool"
  se_numeric :: "rat \<Rightarrow> string"
  se_rfc3339 :: "int \<Rightarrow> string"
  se_early :: "nat \<Rightarrow> (site_value, 'f) CachedEntry \<Rightarrow> int \<Rightarrow> bool"
  se_enc :: "site_value \<Rightarrow> string"
  se_dec :: "string \<Rightarrow> site_value option"
  se_enc_entry :: "(site_value, 'f) CachedEntry \<Rightarrow> string"
  se_dec_entry :: "string \<Rightarrow> (site_value, 'f) CachedEntry option"
  se_network :: string
  se_featured_limit :: int

text \<open>The cache of the chain, holding values of the site.\<close>

definition value_cache :: "('r, 'f, 'net) site_env \<Rightarrow> ('r, site_value, 'f) cache_env" where
  "value_cache e = (let c = be_cache (se_chain e) in
     \<lparr> ce_redis = ce_redis c, ce_fate = ce_fate c, ce_others = ce_others c, ce_tick = ce_tick c, ce_cfg = ce_cfg c, ce_tags = ce_tags c,
       ce_tag_hash = ce_tag_hash c, ce_early = se_early e, ce_measure = ce_measure c, enc_value = se_enc e, dec_value = se_dec e,
       enc_entry = se_enc_entry e, dec_entry = se_dec_entry e, ce_scan = ce_scan c \<rparr>)"

definition statistics_cache :: "('r, 'f, 'net) site_env \<Rightarrow> ('r, Statistics, 'f) cache_env" where
  "statistics_cache e = typed S_Statistics (\<lambda>v. case v of S_Statistics x \<Rightarrow> Some x | _ \<Rightarrow> None) (value_cache e)"

definition featured_cache :: "('r, 'f, 'net) site_env \<Rightarrow> ('r, FeaturedMarket list, 'f) cache_env" where
  "featured_cache e = typed S_Featured (\<lambda>v. case v of S_Featured x \<Rightarrow> Some x | _ \<Rightarrow> None) (value_cache e)"

definition content_cache :: "('r, 'f, 'net) site_env \<Rightarrow> ('r, ContentItem list, 'f) cache_env" where
  "content_cache e = typed S_Contents (\<lambda>v. case v of S_Contents x \<Rightarrow> Some x | _ \<Rightarrow> None) (value_cache e)"

definition view_cache :: "('r, 'f, 'net) site_env \<Rightarrow> ('r, FeaturedMarketView list, 'f) cache_env" where
  "view_cache e = typed S_Views (\<lambda>v. case v of S_Views x \<Rightarrow> Some x | _ \<Rightarrow> None) (value_cache e)"

type_synonym ('r, 'a) site_op = "('r site, ApiError, 'a) comp"

section \<open>Queries\<close>

text \<open>The outcome of the query with the given number, if the server would answer \<open>answer\<close>.\<close>

definition query_outcome :: "('r, 'f, 'net) site_env \<Rightarrow> nat \<Rightarrow> sqlx_error + 'a \<Rightarrow> DbError + 'a" where
  "query_outcome e n answer = with_timeout (case se_query e n of
     None \<Rightarrow> None | Some (Inl err) \<Rightarrow> Some (Inl err) | Some (Inr _) \<Rightarrow> Some answer)"

definition db_query :: "('r, 'f, 'net) site_env \<Rightarrow> sqlx_error + 'a \<Rightarrow> ('r, 'a) cache_op" where
  "db_query e answer s = (case query_outcome e (cs_calls s) answer of
     Inr x \<Rightarrow> Ok x (posted (se_chain e) s) | Inl d \<Rightarrow> Err (Db_Failed d) (posted (se_chain e) s))"

text \<open>\<^verbatim>\<open>LIMIT $1\<close>\<close>

definition limited :: "int \<Rightarrow> 'a list \<Rightarrow> sqlx_error + 'a list" where
  "limited n rows = (if n < 0 then Inl (Database (Some ''2201W'') ''LIMIT must not be negative'') else Inr (take (nat n) rows))"

definition statistics_of :: "('r, 'f, 'net) site_env \<Rightarrow> MarketRow list \<Rightarrow> Statistics" where
  "statistics_of e rows = (let kept = filter (\<lambda>r. mr_deleted_at r = None) rows in
     \<lparr> ms_total_markets = int (length kept), ms_active_markets = int (length (filter (\<lambda>r. mr_status r = ''active'') kept)),
       ms_resolved_markets = int (length (filter (\<lambda>r. mr_status r = ''resolved'') kept)),
       ms_total_volume = se_numeric e (sum_list (map mr_total_volume kept)) \<rparr>)"

definition statistics_cached :: "('r, 'f, 'net) site_env \<Rightarrow> MarketRow list \<Rightarrow> ('r, Statistics) cache_op" where
  "statistics_cached e rows =
     bnd (get_or_set_json (statistics_cache e) dbq_statistics 300 (db_query e (Inr (statistics_of e rows)))) (\<lambda>(value, hit). ret value)"

text \<open>The order of the rows: by volume, the largest first, and rows of the same volume by their end.\<close>

definition featured_rows :: "('r, 'f, 'net) site_env \<Rightarrow> MarketRow list \<Rightarrow> FeaturedMarket list" where
  "featured_rows e rows = map (\<lambda>r. \<lparr> fm_id = mr_id r, fm_title = mr_title r, fm_volume = se_numeric e (mr_total_volume r), fm_ends_at = mr_ends_at r \<rparr>)
     (sort_key (\<lambda>r. - mr_total_volume r) (sort_key mr_ends_at (filter (\<lambda>r. mr_status r = ''active'' \<and> mr_deleted_at r = None) rows)))"

definition featured_markets_cached :: "('r, 'f, 'net) site_env \<Rightarrow> MarketRow list \<Rightarrow> int \<Rightarrow> ('r, FeaturedMarket list) cache_op" where
  "featured_markets_cached e rows limit =
     bnd (get_or_set_json (featured_cache e) (dbq_featured_markets limit) 120 (db_query e (limited limit (featured_rows e rows)))) (\<lambda>(value, hit). ret value)"

definition content_rows :: "ContentRow list \<Rightarrow> ContentItem list" where
  "content_rows rows = map (\<lambda>r. \<lparr> ci_id = cr_id r, ci_title = cr_title r, ci_category = cr_category r, ci_published_at = cr_published_at r \<rparr>)
     (sort_key (\<lambda>r. - cr_published_at r) (filter cr_is_published rows))"

definition content_cached :: "('r, 'f, 'net) site_env \<Rightarrow> ContentRow list \<Rightarrow> int \<Rightarrow> ('r, ContentItem list) cache_op" where
  "content_cached e rows limit =
     bnd (get_or_set_json (content_cache e) (dbq_content limit) 3600 (db_query e (limited limit (content_rows rows)))) (\<lambda>(value, hit). ret value)"

section \<open>Handlers over the state\<close>

text \<open>\<^verbatim>\<open>into_api_error\<close> of an error that came through the cache.\<close>

fun site_error :: "cache_error \<Rightarrow> ApiError" where
  "site_error (Db_Failed d) = into_api_error (From_Db d)"
| "site_error err = into_api_error (Plain_Error [])"

definition serves_from :: "('r site \<Rightarrow> ('r, 'a) cache_op) \<Rightarrow> ('r, 'a) site_op" where
  "serves_from op s = (let with_cache = (\<lambda>c. s\<lparr>si_chain := (si_chain s)\<lparr>ch_cache := c\<rparr>\<rparr>) in case op s (ch_cache (si_chain s)) of
     Ok x c \<Rightarrow> Ok x (with_cache c) | Err err c \<Rightarrow> Err (site_error err) (with_cache c) | Trap \<Rightarrow> Trap)"

text \<open>A statement that changes the markets.\<close>

definition db_write :: "('r, 'f, 'net) site_env \<Rightarrow> (int \<Rightarrow> MarketRow list \<Rightarrow> 'a \<times> MarketRow list) \<Rightarrow> ('r, 'a) site_op" where
  "db_write e f s = (let c = ch_cache (si_chain s); s1 = s\<lparr>si_chain := (si_chain s)\<lparr>ch_cache := posted (se_chain e) c\<rparr>\<rparr> in
     case f (cs_now c) (si_markets s) of (x, rows) \<Rightarrow> (case query_outcome e (cs_calls c) (Inr x) of
       Inr x \<Rightarrow> Ok x (s1\<lparr>si_markets := rows\<rparr>)
     | Inl d \<Rightarrow> Err (into_api_error (From_Db d)) (if se_carried_out e (cs_calls c) then s1\<lparr>si_markets := rows\<rparr> else s1)))"

definition resolvable :: "int \<Rightarrow> MarketRow \<Rightarrow> bool" where
  "resolvable market_id r \<longleftrightarrow> mr_id r = market_id \<and> mr_status r = ''active'' \<and> mr_deleted_at r = None"

text \<open>\<^verbatim>\<open>outcome_index as i32\<close>\<close>

definition as_i32 :: "int \<Rightarrow> int" where
  "as_i32 n = (n + 2 ^ 31) mod 2 ^ 32 - 2 ^ 31"

definition resolve_rows :: "int \<Rightarrow> int \<Rightarrow> int \<Rightarrow> MarketRow list \<Rightarrow> nat \<times> MarketRow list" where
  "resolve_rows market_id outcome_index now rows = (length (filter (resolvable market_id) rows),
     map (\<lambda>r. if resolvable market_id r then r\<lparr>mr_status := ''resolved'', mr_outcome_index := Some (as_i32 outcome_index), mr_resolved_at := Some now\<rparr> else r) rows)"

definition db_resolve_market :: "('r, 'f, 'net) site_env \<Rightarrow> int \<Rightarrow> int \<Rightarrow> ('r, unit) site_op" where
  "db_resolve_market e market_id outcome_index =
     bnd (db_write e (resolve_rows market_id outcome_index)) (\<lambda>rows_affected. err_if (rows_affected = 0) (into_api_error (Plain_Error ''not active'')))"

definition soft_delete_market :: "('r, 'f, 'net) site_env \<Rightarrow> int \<Rightarrow> ('r, bool) site_op" where
  "soft_delete_market e market_id = bnd (db_write e (\<lambda>now rows. let hit = (\<lambda>r. mr_id r = market_id \<and> mr_deleted_at r = None) in
     (length (filter hit rows), map (\<lambda>r. if hit r then r\<lparr>mr_deleted_at := Some now\<rparr> else r) rows))) (\<lambda>rows. ret (rows > 0))"

text \<open>Rows deleted more than thirty days ago are removed.\<close>

definition cleanup_soft_deleted_markets :: "('r, 'f, 'net) site_env \<Rightarrow> ('r, nat) site_op" where
  "cleanup_soft_deleted_markets e = db_write e (\<lambda>now rows. let old = (\<lambda>r. case mr_deleted_at r of Some t \<Rightarrow> t < now - 30 * 86400000 | None \<Rightarrow> False) in
     (length (filter old rows), filter (\<lambda>r. \<not> old r) rows))"

section \<open>Pages\<close>

record 'a PaginatedResponse =
  pg_items :: "'a list"
  pg_next_cursor :: "string option"
  pg_limit :: int
  pg_has_more :: bool

text \<open>The page of a list in memory; the cursor is the index of its first item.\<close>

definition paginate :: "'a list \<Rightarrow> int \<Rightarrow> string option \<Rightarrow> 'a PaginatedResponse" where
  "paginate payload limit cursor = (let
       start_idx = min (unwrap_or (Option.bind cursor (parse_unsigned 64)) 0) (int (length payload));
       end_idx = min (start_idx + limit) (int (length payload));
       has_more = end_idx < int (length payload)
     in \<lparr> pg_items = take (nat end_idx - nat start_idx) (drop (nat start_idx) payload),
          pg_next_cursor = (if has_more then Some (show_int 10 end_idx) else None), pg_limit = limit, pg_has_more = has_more \<rparr>)"

section \<open>Statistics, featured markets, contents\<close>

definition statistics :: "('r, 'f, 'net) site_env \<Rightarrow> ('r, int \<times> Statistics) site_op" where
  "statistics e = bnd (serves_from (\<lambda>s. get_or_set_json (statistics_cache e) api_statistics 300 (statistics_cached e (si_markets s))))
     (\<lambda>(payload, hit). ret (200, payload))"

text \<open>All futures of a list run to their end; the first error among them, in their order, is the error of the whole.\<close>

definition outcome_of :: "('r, 'a) cache_op \<Rightarrow> ('r, cache_error + 'a) cache_op" where
  "outcome_of op s = (case op s of Ok x t \<Rightarrow> Ok (Inr x) t | Err err t \<Rightarrow> Ok (Inl err) t | Trap \<Rightarrow> Trap)"

fun join_all :: "('r, 'a) cache_op list \<Rightarrow> ('r, (cache_error + 'a) list) cache_op" where
  "join_all [] = ret []"
| "join_all (op # ops) = bnd (outcome_of op) (\<lambda>x. bnd (join_all ops) (\<lambda>xs. ret (x # xs)))"

fun views :: "(FeaturedMarket \<times> (cache_error + ChainMarketData)) list \<Rightarrow> cache_error + FeaturedMarketView list" where
  "views [] = Inr []"
| "views ((m, chain_result) # rest) = (case chain_result of
     Inl err \<Rightarrow> Inl err
   | Inr chain_data \<Rightarrow> (case views rest of
       Inl err \<Rightarrow> Inl err
     | Inr vs \<Rightarrow> Inr (\<lparr> fv_id = fm_id m, fv_title = fm_title m, fv_volume = fm_volume m, fv_ends_at = fm_ends_at m,
         fv_onchain_volume = cm_onchain_volume chain_data, fv_resolved_outcome = cm_resolved_outcome chain_data \<rparr> # vs)))"

definition fetch_views :: "('r, 'f, 'net) site_env \<Rightarrow> MarketRow list \<Rightarrow> ('r, FeaturedMarketView list) cache_op" where
  "fetch_views e rows = bnd (featured_markets_cached e rows (se_featured_limit e)) (\<lambda>markets.
     bnd (join_all (map (\<lambda>m. market_data_cached (se_chain e) (fm_id m)) markets)) (\<lambda>chain_data.
     case views (zip markets chain_data) of Inl err \<Rightarrow> fail err | Inr view \<Rightarrow> ret view))"

definition featured_markets :: "('r, 'f, 'net) site_env \<Rightarrow> int option \<Rightarrow> string option \<Rightarrow> ('r, int \<times> FeaturedMarketView PaginatedResponse) site_op" where
  "featured_markets e limit cursor = bnd (serves_from (\<lambda>s. get_or_set_json (view_cache e) api_featured_markets 120 (fetch_views e (si_markets s))))
     (\<lambda>(payload, hit). ret (200, paginate payload (pagination_limit limit) cursor))"

definition content :: "('r, 'f, 'net) site_env \<Rightarrow> int option \<Rightarrow> string option \<Rightarrow> ('r, int \<times> ContentItem PaginatedResponse) site_op" where
  "content e limit cursor = (let limit = pagination_limit limit in
     bnd (serves_from (\<lambda>s. get_or_set_json (content_cache e) (api_content limit) 3600 (content_cached e (si_contents s) limit)))
       (\<lambda>(payload, hit). ret (200, paginate payload limit cursor)))"

section \<open>Resolving a market\<close>

record InvalidationResult =
  ir_invalidated_keys :: nat
  ir_cache_invalidated :: bool

definition market_tag :: "('r, 'f, 'net) site_env \<Rightarrow> int \<Rightarrow> InvalidationTag" where
  "market_tag e market_id = MarketResolved market_id (se_network e) (se_featured_limit e)"

text \<open>The row is written first; that the cache could not be cleared is no error.\<close>

definition resolve_market :: "('r, 'f, 'net) site_env \<Rightarrow> int \<Rightarrow> int \<Rightarrow> ('r, int \<times> InvalidationResult) site_op" where
  "resolve_market e market_id outcome_index = thn (db_resolve_market e market_id outcome_index)
     (bnd (serves_from (\<lambda>_. attempt_op (invalidate_tag (be_cache (se_chain e)) (market_tag e market_id)))) (\<lambda>cleared. ret (200, case cleared of
        Some count \<Rightarrow> \<lparr> ir_invalidated_keys = count, ir_cache_invalidated = True \<rparr>
      | None \<Rightarrow> \<lparr> ir_invalidated_keys = 0, ir_cache_invalidated = False \<rparr>)))"

section \<open>The chain\<close>

definition blockchain_health :: "('r, 'f, 'net) site_env \<Rightarrow> ('r, int \<times> BlockchainHealth) site_op" where
  "blockchain_health e = bnd (serves_from (\<lambda>_. health_check_cached (se_chain e))) (\<lambda>h. ret (if bh_status h = Healthy then 200 else 503, h))"

definition blockchain_market_data :: "('r, 'f, 'net) site_env \<Rightarrow> int \<Rightarrow> ('r, int \<times> ChainMarketData) site_op" where
  "blockchain_market_data e market_id = bnd (serves_from (\<lambda>_. market_data_cached (se_chain e) market_id)) (\<lambda>d. ret (200, d))"

definition blockchain_platform_stats :: "('r, 'f, 'net) site_env \<Rightarrow> ('r, int \<times> PlatformStatistics) site_op" where
  "blockchain_platform_stats e = bnd (serves_from (\<lambda>_. platform_statistics_cached (se_chain e))) (\<lambda>d. ret (200, d))"

definition blockchain_oracle_result :: "('r, 'f, 'net) site_env \<Rightarrow> int \<Rightarrow> ('r, int \<times> OracleResult) site_op" where
  "blockchain_oracle_result e market_id = bnd (serves_from (\<lambda>_. oracle_result_cached (se_chain e) market_id)) (\<lambda>d. ret (200, d))"

definition blockchain_replay :: "('r, 'f, 'net) site_env \<Rightarrow> int \<Rightarrow> ('r, int \<times> ReplayProgress) site_op" where
  "blockchain_replay e from_ledger = bnd (serves_from (\<lambda>_. replay_events (se_chain e) from_ledger)) (\<lambda>d. ret (200, d))"

definition blockchain_tx_status :: "('r, 'f, 'net) site_env \<Rightarrow> string \<Rightarrow> ('r, int \<times> TransactionStatus) site_op" where
  "blockchain_tx_status e hash s = (case watch_transaction (se_chain e) hash (si_chain s) of
     (Inl CapReached, c) \<Rightarrow> Err (service_unavailable (''Transaction watch map is at capacity. '' @
       ''Too many concurrent transactions are being monitored. Please retry later.'')) (s\<lparr>si_chain := c\<rparr>)
   | (_, c) \<Rightarrow> bnd (serves_from (\<lambda>_. transaction_status_cached (se_chain e) hash)) (\<lambda>d. ret (200, d)) (s\<lparr>si_chain := c\<rparr>))"

definition saturating_mul_i64 :: "int \<Rightarrow> int \<Rightarrow> int" where
  "saturating_mul_i64 a b = max (- (2 ^ 63)) (min (2 ^ 63 - 1) (a * b))"

text \<open>The page a cursor names, within the ceiling.\<close>

definition bets_page_of :: "int \<Rightarrow> string option \<Rightarrow> int" where
  "bets_page_of page_size cursor = min (max (unwrap_or (Option.bind cursor (parse_signed 64)) 0) 0) ((2 ^ 63 - 1) div max page_size 1)"

text \<open>The page from what the chain gave; \<^verbatim>\<open>page + 1\<close> wraps.\<close>

definition bets_response :: "int \<Rightarrow> int \<Rightarrow> UserBetsPage \<Rightarrow> UserBet PaginatedResponse" where
  "bets_response page_size page data = (let following = wrapped_i64 (page + 1); has_more = saturating_mul_i64 following page_size < up_total data in
     \<lparr> pg_items = up_items data, pg_next_cursor = (if has_more then Some (show_signed following) else None), pg_limit = page_size, pg_has_more = has_more \<rparr>)"

definition blockchain_user_bets ::
  "('r, 'f, 'net) site_env \<Rightarrow> string \<Rightarrow> int option \<Rightarrow> string option \<Rightarrow> ('r, int \<times> UserBet PaginatedResponse) site_op" where
  "blockchain_user_bets e user limit cursor = (let page_size = pagination_limit limit; page = bets_page_of page_size cursor in
     bnd (serves_from (\<lambda>_. user_bets_page (se_chain e) user page page_size)) (\<lambda>data. ret (200, bets_response page_size page data)))"

section \<open>Warming the caches\<close>

text \<open>How many of the requests succeeded and failed; the counters are only logged.\<close>

definition warm :: "('r, 'a) site_op \<Rightarrow> nat \<times> nat \<Rightarrow> ('r, nat \<times> nat) site_op" where
  "warm op = (\<lambda>(succeeded, failed) s. case op s of Ok _ t \<Rightarrow> Ok (succeeded + 1, failed) t | Err _ t \<Rightarrow> Ok (succeeded, failed + 1) t | Trap \<Rightarrow> Trap)"

definition warm_critical_caches :: "('r, 'f, 'net) site_env \<Rightarrow> ('r, nat \<times> nat) site_op" where
  "warm_critical_caches e =
     bnd (warm (serves_from (\<lambda>s. statistics_cached e (si_markets s))) (0, 0))
     (\<lambda>n. bnd (warm (serves_from (\<lambda>s. featured_markets_cached e (si_markets s) (se_featured_limit e))) n)
     (\<lambda>n. bnd (warm (serves_from (\<lambda>_. health_check_cached (se_chain e))) n)
     (\<lambda>n. bnd (warm (serves_from (\<lambda>_. platform_statistics_cached (se_chain e))) n)
     (\<lambda>n. bnd (warm (statistics e) n)
     (\<lambda>n. bnd (warm (featured_markets e None None) n)
     (\<lambda>n. warm (content e None None) n))))))"

section \<open>Health\<close>

definition ping :: "('r, 'f, 'net) site_env \<Rightarrow> ('r, unit) cache_op" where
  "ping e = db_query e (Inr ())"

text \<open>\<^verbatim>\<open>PING\<close> past the breaker, with the milliseconds it took.\<close>

definition ping_direct_ms :: "('r, 'f, 'net) site_env \<Rightarrow> ('r, int) cache_op" where
  "ping_direct_ms e = (let c = value_cache e in bnd (reads cs_now) (\<lambda>start.
     thn (pool_get c) (thn (redis_cmd c (\<lambda>r. ((), r))) (bnd (reads cs_now) (\<lambda>now. ret (now - start))))))"

text \<open>What the probes of readiness and of the dependencies look at: the database, the latency of Redis, and the health of the chain.\<close>

definition probe :: "('r, 'f, 'net) site_env \<Rightarrow> ('r, bool \<times> int option \<times> BlockchainHealth option) site_op" where
  "probe e = serves_from (\<lambda>_. bnd (attempt_op (ping e)) (\<lambda>db. bnd (attempt_op (ping_direct_ms e)) (\<lambda>redis.
     bnd (attempt_op (health_check_cached (se_chain e))) (\<lambda>node. ret (db \<noteq> None, redis, node)))))"

definition rpc_status :: "BlockchainHealth option \<Rightarrow> string" where
  "rpc_status node = (case node of Some h \<Rightarrow> if bh_is_healthy h then ''ok'' else ''degraded'' | None \<Rightarrow> ''unknown'')"

definition redis_status :: "int option \<Rightarrow> string" where
  "redis_status latency = (case latency of None \<Rightarrow> ''unavailable'' | Some ms \<Rightarrow> if ms > 100 then ''degraded'' else ''ok'')"

definition db_status :: "bool \<Rightarrow> string" where
  "db_status ok = (if ok then ''ok'' else ''unavailable'')"

definition health_ready :: "('r, 'f, 'net) site_env \<Rightarrow> http_request \<Rightarrow> ('r, int \<times> json) site_op" where
  "health_ready e req = bnd (probe e) (\<lambda>(db_ok, redis, node).
     let all_critical_ok = db_ok \<and> redis \<noteq> None;
         overall_status = (if \<not> all_critical_ok then ''unavailable'' else if redis_status redis = ''degraded'' then ''degraded'' else ''ok'')
     in bnd (reads (\<lambda>s. cs_now (ch_cache (si_chain s)))) (\<lambda>now. ret (if all_critical_ok then 200 else 503, JObj
       [(''status'', JStr overall_status), (''request_id'', JStr (unwrap_or (header_text req ''x-request-id'') ''-'')), (''timestamp'', JStr (se_rfc3339 e now)),
        (''dependencies'', JObj
          [(''database'', JObj [(''status'', JStr (db_status db_ok))]),
           (''redis'', JObj [(''status'', JStr (redis_status redis)), (''latency_ms'', JNum (unwrap_or redis 0))]),
           (''blockchain_rpc'', JObj [(''status'', JStr (rpc_status node))])])])))"

text \<open>The latency of the database is the time its query took.\<close>

definition health_dependencies :: "('r, 'f, 'net) site_env \<Rightarrow> ('r, int \<times> json) site_op" where
  "health_dependencies e = bnd (reads (\<lambda>s. ce_tick (be_cache (se_chain e)) (cs_calls (ch_cache (si_chain s))))) (\<lambda>db_latency_ms.
     bnd (probe e) (\<lambda>(db_ok, redis, node). bnd (reads (\<lambda>s. cs_now (ch_cache (si_chain s)))) (\<lambda>now. ret (200, JObj
       [(''timestamp'', JStr (se_rfc3339 e now)),
        (''dependencies'', JArr
          [JObj [(''name'', JStr ''database''), (''status'', JStr (db_status db_ok)), (''latency_ms'', JNum db_latency_ms)],
           JObj [(''name'', JStr ''redis''), (''status'', JStr (redis_status redis)), (''latency_ms'', JNum (unwrap_or redis 0))],
           JObj [(''name'', JStr ''blockchain_rpc''), (''status'', JStr (rpc_status node)),
             (''latest_ledger'', JNum (case node of Some h \<Rightarrow> bh_latest_ledger h | None \<Rightarrow> 0))]])]))))"

definition health_live :: "('r, 'f, 'net) site_env \<Rightarrow> ('r, int \<times> json) site_op" where
  "health_live e = bnd (reads (\<lambda>s. cs_now (ch_cache (si_chain s)))) (\<lambda>now.
     ret (200, JObj [(''status'', JStr ''ok''), (''timestamp'', JStr (se_rfc3339 e now))]))"

text \<open>
  The older health check: the state of the breaker, the size of the pool and what it has available, the identifier of the request and the outcomes of its
  four probes, or none of these if they did not end within ten seconds.
\<close>

record health_probes =
  hp_cache :: bool
  hp_db :: bool
  hp_processing :: "nat option"
  hp_sendgrid :: bool

definition breaker_text :: "CircuitState \<Rightarrow> string" where
  "breaker_text cb = (case cb of Closed \<Rightarrow> ''closed'' | Open \<Rightarrow> ''open'' | HalfOpen \<Rightarrow> ''half_open'')"

definition health :: "string \<Rightarrow> http_request \<Rightarrow> CircuitState \<Rightarrow> int \<Rightarrow> int \<Rightarrow> health_probes option \<Rightarrow> int \<times> json" where
  "health timestamp req cb pool_size pool_available outcome = (case outcome of
     None \<Rightarrow> (503, JObj [(''status'', JStr ''degraded''), (''reason'', JStr ''health check timed out'')])
   | Some p \<Rightarrow> (let degraded = \<not> hp_cache p \<or> \<not> hp_sendgrid p in (if degraded then 503 else 200, JObj
       ([(''status'', JStr (if degraded then ''degraded'' else ''ok'')), (''timestamp'', JStr timestamp),
         (''request_id'', JStr (unwrap_or (header_text req ''x-request-id'') ''-'')),
         (''redis'', JObj [(''circuit_breaker'', JStr (breaker_text cb)), (''pool_size'', JNum pool_size), (''pool_available'', JNum pool_available),
            (''status'', JStr (if hp_cache p then ''ok'' else ''unhealthy''))]),
         (''db'', JObj [(''status'', JStr ''ok'')]),
         (''workers'', JObj ([(''blockchain_sync'', JStr ''running''), (''blockchain_monitor'', JStr ''running''), (''email_queue'', JStr ''running'')] @
            (case hp_processing p of Some n \<Rightarrow> [(''email_queue_processing'', JNum (int n))] | None \<Rightarrow> []))),
         (''sendgrid'', JObj [(''status'', JStr (if hp_sendgrid p then ''ok'' else ''degraded''))])]))))"

section \<open>What an operation can give\<close>

text \<open>\<open>yields P m\<close>: the operation does not get stuck, and the values it gives have the property.\<close>

fun gives :: "('a \<Rightarrow> bool) \<Rightarrow> ('s, 'e, 'a) res \<Rightarrow> bool" where
  "gives P (Ok x t) = P x"
| "gives P (Err err t) = True"
| "gives P Trap = False"

definition yields :: "('a \<Rightarrow> bool) \<Rightarrow> ('s, 'e, 'a) comp \<Rightarrow> bool" where
  "yields P m \<longleftrightarrow> (\<forall>s. gives P (m s))"

named_theorems yields_rules \<open>what operations give\<close>

lemma yieldsD: "yields P m \<Longrightarrow> m s \<noteq> Trap" "yields P m \<Longrightarrow> m s = Ok x t \<Longrightarrow> P x"
  by (metis gives.simps(3) yields_def, metis gives.simps(1) yields_def)

lemma yields_bnd: "yields P m \<Longrightarrow> (\<And>x. P x \<Longrightarrow> yields Q (f x)) \<Longrightarrow> yields Q (bnd m f)"
  unfolding yields_def [of Q "bnd m f"] bnd_def by (auto simp: yieldsD(1) yields_def [of Q] dest: yieldsD(2) split: res.split)

lemma yields_ret [yields_rules]: "P x \<Longrightarrow> yields P (ret x)"
  by (simp add: yields_def ret_def)

lemma yields_pure [yields_rules]: "yields P (fail err)" "yields (\<lambda>_. True) (reads f)"
  by (simp_all add: yields_def fail_def reads_def)

lemma yields_weaken: "yields P m \<Longrightarrow> (\<And>x. P x \<Longrightarrow> Q x) \<Longrightarrow> yields Q m"
  unfolding yields_def by (metis gives.elims(2) gives.simps(1,2))

lemma yields_attempt: "yields P m \<Longrightarrow> yields (\<lambda>x. \<forall>v. x = Some v \<longrightarrow> P v) (attempt_op m)"
  unfolding yields_def [of _ "attempt_op m"] attempt_op_def by (auto simp: yieldsD(1) dest: yieldsD(2) split: res.split)

lemma yields_safe: "(\<And>s. m s \<noteq> Trap) \<Longrightarrow> yields (\<lambda>_. True) m"
  unfolding yields_def by (metis gives.elims(3))

lemma yields_any: "(\<And>s. m s \<noteq> Trap) \<Longrightarrow> yields (\<lambda>_. True) (attempt_op m)"
  by (rule yields_weaken [OF yields_attempt [OF yields_safe]]) simp_all

lemma yields_exec_loop: "yields P op \<Longrightarrow> gives P (exec_loop e op a k err s)"
proof (induction k arbitrary: a err s)
  case (Suc k)
  define s0 where "s0 = (if a > 0 then sleep_ms (exec_delay (ce_cfg e) a) s else s)"
  have p: "pool_get e s0 \<noteq> Trap" by (simp add: pool_get_def cache_call_no_trap)
  note step = exec_loop.simps(2) [of e op a k err s, unfolded Let_def s0_def [symmetric]]
  show ?case using p Suc.IH [OF Suc.prems] by (auto simp: step yieldsD(1) [OF Suc.prems] dest: yieldsD(2) [OF Suc.prems] split: res.split)
qed simp

lemma yields_exec: "yields P op \<Longrightarrow> yields P (exec e op)"
  by (simp add: yields_def [of _ "exec e op"] exec_def yields_exec_loop)

lemma yields_redis_cmd [yields_rules]: "yields (\<lambda>_. True) (redis_cmd e f)"
  by (rule yields_safe) (simp add: redis_cmd_def cache_call_no_trap)

lemma yields_get_json: "(\<And>t v. dec t = Some v \<Longrightarrow> P v) \<Longrightarrow> yields (\<lambda>x. \<forall>v. x = Some v \<longrightarrow> P v) (get_json e dec key)"
  unfolding get_json_def
  by (rule yields_exec, rule yields_bnd [OF yields_redis_cmd]) (auto intro!: yields_rules split: option.split)

lemma yields_lookup:
  assumes "\<And>t v. dec_value e t = Some v \<Longrightarrow> P v" "\<And>t en. dec_entry e t = Some en \<Longrightarrow> P (entry_value en)"
  shows "yields (\<lambda>x. \<forall>v. x = Some v \<longrightarrow> P v) (lookup e key)"
proof -
  have entry: "yields (\<lambda>x. \<forall>r. x = Some r \<longrightarrow> (\<forall>en. r = Some en \<longrightarrow> P (entry_value en))) (attempt_op (get_json e (dec_entry e) key))"
    by (rule yields_attempt, rule yields_get_json, rule assms(2))
  have plain: "yields (\<lambda>x. \<forall>r. x = Some r \<longrightarrow> (\<forall>v. r = Some v \<longrightarrow> P v)) (attempt_op (get_json e (dec_value e) key))"
    by (rule yields_attempt, rule yields_get_json, rule assms(1))
  have old: "yields (\<lambda>x. \<forall>v. x = Some v \<longrightarrow> P v) (bnd (attempt_op (get_json e (dec_value e) key)) (\<lambda>q. case q of
       Some (Some value) \<Rightarrow> ret (Some value) | _ \<Rightarrow> ret None))"
    by (rule yields_bnd [OF plain]) (auto intro!: yields_rules split: option.split)
  have new: "yields (\<lambda>x. \<forall>v. x = Some v \<longrightarrow> P v)
      (\<lambda>s. if \<not> xfetch_should_refresh e entry s then Ok (Some (entry_value entry)) s else Ok None s)" if "P (entry_value entry)" for entry
    using that by (simp add: yields_def)
  show ?thesis unfolding lookup_def
    by (rule yields_bnd [OF entry]) (auto intro!: old new split: option.split)
qed

lemma yields_poll:
  assumes "\<And>t v. dec_value e t = Some v \<Longrightarrow> P v" "\<And>t en. dec_entry e t = Some en \<Longrightarrow> P (entry_value en)"
  shows "yields (\<lambda>x. \<forall>v. x = Some v \<longrightarrow> P v) (poll n e key)"
proof -
  have entry: "yields (\<lambda>x. \<forall>r. x = Some r \<longrightarrow> (\<forall>en. r = Some en \<longrightarrow> P (entry_value en))) (attempt_op (get_json e (dec_entry e) key))"
    by (rule yields_attempt, rule yields_get_json, rule assms(2))
  have plain: "yields (\<lambda>x. \<forall>r. x = Some r \<longrightarrow> (\<forall>v. r = Some v \<longrightarrow> P v)) (attempt_op (get_json e (dec_value e) key))"
    by (rule yields_attempt, rule yields_get_json, rule assms(1))
  have found: "attempt_op (get_json e (dec_entry e) key) s = Ok (Some (Some en)) t \<Longrightarrow> P (entry_value en)"
    "attempt_op (get_json e (dec_value e) key) s = Ok (Some (Some v)) t \<Longrightarrow> P v" for s t en v
    using yieldsD(2) [OF entry] yieldsD(2) [OF plain] by blast+
  have "gives (\<lambda>x. \<forall>v. x = Some v \<longrightarrow> P v) (poll n e key s)" for s
  proof (induction n arbitrary: s)
    case (Suc n)
    then show ?case
      by (auto simp: yieldsD(1) [OF entry] yieldsD(1) [OF plain] dest: found split: res.split option.split)
  qed simp
  then show ?thesis by (simp add: yields_def)
qed

text \<open>What is fetched or found has a property that everything fetched has and everything that decodes.\<close>

lemma yields_get_or_set:
  assumes "\<And>t v. dec_value e t = Some v \<Longrightarrow> P v" "\<And>t en. dec_entry e t = Some en \<Longrightarrow> P (entry_value en)" "yields P fetcher"
  shows "yields (\<lambda>(v, hit). P v) (get_or_set_json e key ttl fetcher)"
proof -
  have s1: "yields (\<lambda>_. True) (attempt_op (set_json e key v ttl))" for v by (rule yields_any) (simp add: set_json_def set_ex_no_trap)
  have s2: "yields (\<lambda>_. True) (attempt_op (set_entry e key en ttl))" for en by (rule yields_any) (simp add: set_entry_def set_ex_no_trap)
  have s3: "yields (\<lambda>_. True) (attempt_op (del e k))" for k by (rule yields_any) (rule del_no_trap)
  note stored = s1 s2 s3
  have locked: "yields (\<lambda>_. True) (acquire_lock e key)"
    by (rule yields_safe) (metis acquire_total res.distinct(3))
  have r: "yields (\<lambda>(v, hit). P v) (recompute e key ttl fetcher)"
    unfolding recompute_def
    by (rule yields_bnd [OF assms(3)], rule yields_bnd [OF yields_pure(2)], rule yields_bnd [OF stored(2)], rule yields_bnd [OF stored(3)])
      (simp add: yields_ret)
  have w: "yields (\<lambda>(v, hit). P v) (wait_for_other e key ttl fetcher)"
    unfolding wait_for_other_def
    by (rule yields_bnd [OF yields_poll [of e P, OF assms(1,2)]])
      (auto intro!: yields_rules yields_bnd [OF assms(3)] yields_bnd [OF stored(1)] split: option.split)
  have f: "yields (\<lambda>(v, hit). P v) (bnd fetcher (\<lambda>value. ret (value, False)))"
    by (rule yields_bnd [OF assms(3)]) (simp add: yields_ret)
  have "yields (\<lambda>(v, hit). P v) (bnd (lookup e key) (\<lambda>found. case found of
          Some value \<Rightarrow> ret (value, True)
        | None \<Rightarrow> bnd (acquire_lock e key) (\<lambda>lock_acquired.
            if lock_acquired then recompute e key ttl fetcher else wait_for_other e key ttl fetcher)))"
    by (rule yields_bnd [OF yields_lookup [of e P, OF assms(1,2)]])
      (auto intro!: yields_rules yields_bnd [OF locked] r w split: option.split)
  with f show ?thesis by (simp add: yields_def get_or_set_json_def)
qed

section \<open>Pages\<close>

text \<open>A client that follows the cursors, for at most the given number of requests.\<close>

fun follow :: "nat \<Rightarrow> 'a list \<Rightarrow> int \<Rightarrow> string option \<Rightarrow> 'a list" where
  "follow 0 payload limit cursor = []"
| "follow (Suc n) payload limit cursor = (let page = paginate payload limit cursor in
     pg_items page @ (case pg_next_cursor page of None \<Rightarrow> [] | Some c \<Rightarrow> follow n payload limit (Some c)))"

lemma paginate_at:
  assumes "1 \<le> limit" "k \<le> length payload" "length payload < 2 ^ 64"
  shows "paginate payload limit (Some (show_int 10 (int k))) =
    \<lparr> pg_items = take (nat limit) (drop k payload),
      pg_next_cursor = (if k + nat limit < length payload then Some (show_int 10 (int (k + nat limit))) else None), pg_limit = limit,
      pg_has_more = k + nat limit < length payload \<rparr>"
proof -
  obtain l where l: "limit = int l" using assms(1) zero_le_imp_eq_int [of limit] by auto
  have "int k < 2 ^ 64" using assms(2,3) by (metis le_less_trans of_nat_less_numeral_power_cancel_iff)
  then have start: "min (unwrap_or (Option.bind (Some (show_int 10 (int k))) (parse_unsigned 64)) 0) (int (length payload)) = int k"
    using assms(2) by (simp add: parse_unsigned_show unwrap_or_def)
  have e: "min (int k + int l) (int (length payload)) = int (min (k + l) (length payload))" by simp
  have "take (min (k + l) (length payload) - k) (drop k payload) = take l (drop k payload)"
    by (cases "k + l \<le> length payload") simp_all
  then show ?thesis unfolding paginate_def start Let_def l e by auto
qed

lemma paginate_start: "0 < length payload \<Longrightarrow> paginate payload limit None = paginate payload limit (Some (show_int 10 (int 0)))"
  by (simp add: paginate_def parse_unsigned_show unwrap_or_def)

lemma follow_from:
  assumes "1 \<le> limit" "length payload < 2 ^ 64"
  shows "k \<le> length payload \<Longrightarrow> length payload - k < n \<Longrightarrow> follow n payload limit (Some (show_int 10 (int k))) = drop k payload"
proof (induction n arbitrary: k)
  case (Suc n)
  show ?case
  proof (cases "k + nat limit < length payload")
    case True
    then have "follow n payload limit (Some (show_int 10 (int (k + nat limit)))) = drop (k + nat limit) payload"
      using Suc.prems assms(1) by (intro Suc.IH) linarith+
    moreover have "take (nat limit) (drop k payload) @ drop (k + nat limit) payload = drop k payload"
      using append_take_drop_id [of "nat limit" "drop k payload"] by (simp add: add.commute)
    ultimately show ?thesis using True unfolding follow.simps paginate_at [OF assms(1) Suc.prems(1) assms(2)] Let_def by simp
  next
    case False
    then show ?thesis unfolding follow.simps paginate_at [OF assms(1) Suc.prems(1) assms(2)] Let_def by simp
  qed
qed simp

text \<open>
  Who follows the cursors of the featured markets sees every one of them once and in order, whatever the size of the pages, and is done after at
  most one request more than there are markets.
\<close>

theorem pages_cover:
  assumes "1 \<le> limit" "length payload < 2 ^ 64"
  shows "follow (length payload + 1) payload limit None = payload"
proof (cases "payload = []")
  case True
  then show ?thesis by (simp add: paginate_def Let_def unwrap_or_def)
next
  case False
  then have "follow (length payload + 1) payload limit None = follow (length payload + 1) payload limit (Some (show_int 10 (int 0)))"
    by (simp add: paginate_start)
  with follow_from [OF assms, of 0 "length payload + 1"] show ?thesis by simp
qed

theorem pages_cover_witness: "follow 4 [10, 20, 30 :: int] 2 None = [10, 20, 30]"
proof -
  have "length [10, 20, 30 :: int] + 1 = 4" by simp
  moreover have "follow (length [10, 20, 30 :: int] + 1) [10, 20, 30 :: int] 2 None = [10, 20, 30]" by (rule pages_cover) simp_all
  ultimately show ?thesis by (simp only:)
qed

lemma pagination_limit_range: "1 \<le> pagination_limit limit" "pagination_limit limit \<le> 100"
  by (simp_all add: pagination_limit_def MAX_PAGE_LIMIT_def)

lemma limited_length: "limited n rows = Inr xs \<Longrightarrow> int (length xs) \<le> max 0 n"
  by (auto simp: limited_def split: if_splits)

lemma query_outcome_Inr: "query_outcome e n answer = Inr x \<longleftrightarrow> se_query e n = Some (Inr ()) \<and> answer = Inr x"
  by (cases answer) (auto simp: query_outcome_def split: option.splits sum.splits)

lemma yields_db_query: "(\<And>x. answer = Inr x \<Longrightarrow> P x) \<Longrightarrow> yields P (db_query e answer)"
  by (auto simp: yields_def db_query_def query_outcome_Inr split: sum.split)

lemma contents_only:
  "(case v of S_Statistics a \<Rightarrow> None | S_Featured b \<Rightarrow> None | S_Contents x \<Rightarrow> Some x | S_Views c \<Rightarrow> None) = Some xs \<longleftrightarrow> v = S_Contents xs"
  by (cases v) auto

text \<open>
  The contents have no second page.  A request for pages of some size reads no more rows than one page holds, so that as long as
  the cache holds no longer list, every answer says that there is nothing more, whatever the table holds.
\<close>

theorem content_has_no_second_page:
  assumes "\<And>t xs. se_dec e t = Some (S_Contents xs) \<Longrightarrow> int (length xs) \<le> pagination_limit limit"
    and "\<And>t en xs. se_dec_entry e t = Some en \<Longrightarrow> entry_value en = S_Contents xs \<Longrightarrow> int (length xs) \<le> pagination_limit limit"
    and "content e limit cursor s = Ok (status, page) t"
  shows "\<not> pg_has_more page \<and> pg_next_cursor page = None"
proof -
  let ?P = "\<lambda>xs. int (length (xs :: ContentItem list)) \<le> pagination_limit limit"
  have dec: "?P xs" if "dec_value (content_cache e) t = Some xs" for t xs
    using that assms(1) by (auto simp: content_cache_def typed_def value_cache_def Let_def bind_eq_Some_conv contents_only)
  have dec': "?P (entry_value en)" if "dec_entry (content_cache e) t = Some en" for t en
    using that assms(2)
    by (auto simp: content_cache_def typed_def value_cache_def Let_def map_entry_def bind_eq_Some_conv contents_only)
  have "yields ?P (db_query e (limited (pagination_limit limit) (content_rows rows)))" for rows
    using pagination_limit_range(1) [of limit] by (intro yields_db_query) (drule limited_length, simp)
  from yields_get_or_set [of "content_cache e" ?P, OF dec dec' this]
  have "yields ?P (content_cached e rows (pagination_limit limit))" for rows
    unfolding content_cached_def by (rule yields_bnd) (auto intro: yields_ret)
  from yields_get_or_set [of "content_cache e" ?P, OF dec dec' this]
  have "yields (\<lambda>(v, hit). ?P v) (get_or_set_json (content_cache e) (api_content (pagination_limit limit)) 3600
    (content_cached e (si_contents s) (pagination_limit limit)))" .
  note kept = yieldsD(2) [OF this]
  from assms(3) obtain payload hit c where "get_or_set_json (content_cache e) (api_content (pagination_limit limit)) 3600
      (content_cached e (si_contents s) (pagination_limit limit)) (ch_cache (si_chain s)) = Ok (payload, hit) c"
    "page = paginate payload (pagination_limit limit) cursor"
    by (auto simp: content_def Let_def bnd_def ret_def serves_from_def split: res.splits)
  then have "?P payload" "page = paginate payload (pagination_limit limit) cursor" using kept by auto
  moreover have "0 \<le> unwrap_or (Option.bind cursor (parse_unsigned 64)) 0"
    by (auto simp: unwrap_or_def bind_eq_Some_conv dest: parse_unsigned_range split: option.split)
  ultimately show ?thesis by (simp add: paginate_def Let_def)
qed

text \<open>
  The page after this one exists exactly if the bets go beyond this page, with one exception: for pages of one bet and the largest
  64-bit cursor, the number of the next page wraps around, and the answer names a page that does not exist.
\<close>

theorem user_bets_more_exact:
  assumes "1 \<le> page_size" "in_i64 (up_total data)" "page = bets_page_of page_size cursor"
  shows "pg_has_more (bets_response page_size page data) \<longleftrightarrow>
    (if page_size = 1 \<and> page = 2 ^ 63 - 1 then - (2 ^ 63) < up_total data else (page + 1) * page_size < up_total data)"
proof -
  have page: "0 \<le> page" "page \<le> (2 ^ 63 - 1) div page_size" using assms(1,3) by (simp_all add: bets_page_of_def pos_imp_zdiv_nonneg_iff)
  show ?thesis
  proof (cases "page_size = 1 \<and> page = 2 ^ 63 - 1")
    case True
    then show ?thesis by (simp add: bets_response_def Let_def wrapped_i64_def saturating_mul_i64_def)
  next
    case False
    have "page < 2 ^ 63 - 1"
    proof (cases "page_size = 1")
      case False
      with assms(1) have "(2 ^ 63 - 1) div page_size \<le> (2 ^ 63 - 1) div 2" by (intro zdiv_mono2) simp_all
      with page(2) show ?thesis by simp
    qed (use False page(2) in simp)
    with page(1) have following: "wrapped_i64 (page + 1) = page + 1" by (simp add: wrapped_i64_def)
    have "0 \<le> (page + 1) * page_size" using page(1) assms(1) by simp
    then have "saturating_mul_i64 (page + 1) page_size = min (2 ^ 63 - 1) ((page + 1) * page_size)" by (simp add: saturating_mul_i64_def)
    then show ?thesis using False assms(2) unfolding bets_response_def following Let_def by (auto simp: in_i64_def min_def)
  qed
qed

section \<open>Resolving a market\<close>

text \<open>The cache state when a request begins.\<close>

abbreviation cached :: "'r site \<Rightarrow> 'r cache_state" where
  "cached s \<equiv> ch_cache (si_chain s)"

lemma serves_attempt:
  assumes "\<And>c. op c \<noteq> Trap"
  shows "\<exists>x c. attempt_op op (cached s) = Ok x c \<and>
    serves_from (\<lambda>_. attempt_op op) s = Ok x (s\<lparr>si_chain := (si_chain s)\<lparr>ch_cache := c\<rparr>\<rparr>)"
  using attempt_total [of op "cached s", OF assms] by (auto simp: serves_from_def Let_def)

lemma invalidate_no_trap: "invalidate_tag e tag s \<noteq> Trap"
proof -
  have "for_each ks (del e) s' \<noteq> Trap" for ks s'
    by (induction ks arbitrary: s') (auto simp: thn_def bnd_def ret_def del_no_trap split: res.splits)
  moreover have "tag_store_invalidate e tag s' \<noteq> Trap" for s'
  proof -
    have "exec e (redis_cmd e f) s' \<noteq> Trap" for f :: "'a \<Rightarrow> int \<times> 'a"
      by (rule exec_no_trap) (simp add: redis_cmd_def cache_call_no_trap)
    then show ?thesis by (auto simp: tag_store_invalidate_def Let_def bnd_def ret_def split: res.splits)
  qed
  ultimately show ?thesis by (auto simp: invalidate_tag_def thn_def bnd_def ret_def split: res.splits)
qed

text \<open>
  C13. A market is resolved, and only then is 200 answered, exactly if the statement was answered and hit an open market that is not deleted; what the cache
  does then does not matter.  Otherwise the answer is an error, and the entries of the cache stay as they are.
\<close>

theorem resolve_market_exact:
  "case resolve_market e market_id outcome_index s of
     Ok (status, result) t \<Rightarrow> status = 200 \<and> se_query e (cs_calls (cached s)) = Some (Inr ()) \<and> (\<exists>r\<in>set (si_markets s). resolvable market_id r) \<and>
       si_markets t = snd (resolve_rows market_id outcome_index (cs_now (cached s)) (si_markets s))
   | Err err t \<Rightarrow> \<not> (se_query e (cs_calls (cached s)) = Some (Inr ()) \<and> (\<exists>r\<in>set (si_markets s). resolvable market_id r)) \<and>
       ae_status err \<in> {500, 503} \<and> cs_store (cached t) = cs_store (cached s)
   | Trap \<Rightarrow> False"
proof -
  let ?n = "cs_calls (cached s)" and ?f = "resolve_rows market_id outcome_index (cs_now (cached s)) (si_markets s)"
  let ?s1 = "s\<lparr>si_chain := (si_chain s)\<lparr>ch_cache := posted (se_chain e) (cached s)\<rparr>\<rparr>"
  have hit: "fst ?f = 0 \<longleftrightarrow> \<not> (\<exists>r\<in>set (si_markets s). resolvable market_id r)"
    by (auto simp: resolve_rows_def filter_empty_conv)
  show ?thesis
  proof (cases "query_outcome e ?n (Inr (fst ?f))")
    case (Inl d)
    have "ae_status (into_api_error (From_Db d)) \<in> {500, 503}"
      using with_timeout_status Inl unfolding query_outcome_def by blast
    moreover have "se_query e ?n \<noteq> Some (Inr ())"
    proof
      assume "se_query e ?n = Some (Inr ())"
      then have "query_outcome e ?n (Inr (fst ?f)) = Inr (fst ?f)" by (simp add: query_outcome_Inr)
      with Inl show False by simp
    qed
    ultimately show ?thesis using Inl
      by (auto simp: resolve_market_def db_resolve_market_def db_write_def thn_def bnd_def Let_def resolve_rows_def)
  next
    case (Inr k)
    then have q: "se_query e ?n = Some (Inr ())" and k: "k = fst ?f" by (simp_all add: query_outcome_Inr)
    have wrote: "db_write e (resolve_rows market_id outcome_index) s = Ok k (?s1\<lparr>si_markets := snd ?f\<rparr>)"
      using Inr k by (simp add: db_write_def Let_def resolve_rows_def)
    show ?thesis
    proof (cases "k = 0")
      case True
      then show ?thesis using wrote hit k
        by (simp add: resolve_market_def db_resolve_market_def thn_def bnd_def err_if_def doif_def fail_def api_internal_def)
    next
      case False
      obtain x c where "serves_from (\<lambda>_. attempt_op (invalidate_tag (be_cache (se_chain e)) (market_tag e market_id))) (?s1\<lparr>si_markets := snd ?f\<rparr>) =
          Ok x (?s1\<lparr>si_markets := snd ?f, si_chain := (si_chain (?s1\<lparr>si_markets := snd ?f\<rparr>))\<lparr>ch_cache := c\<rparr>\<rparr>)"
        using serves_attempt [of "invalidate_tag (be_cache (se_chain e)) (market_tag e market_id)", OF invalidate_no_trap] by blast
      with wrote False hit k q show ?thesis
        by (simp add: resolve_market_def db_resolve_market_def thn_def bnd_def err_if_def doif_def ret_def)
    qed
  qed
qed

text \<open>The statistics after a market was resolved: one open market less, one resolved market more, nothing else.\<close>

lemma count_replaced:
  assumes "distinct (map mr_id rows)" "r \<in> set rows" "P r"
    and P: "\<And>x. P x \<Longrightarrow> mr_id x = mr_id r"
  shows "int (length (filter Q (map (\<lambda>x. if P x then f x else x) rows))) =
    int (length (filter Q rows)) + (if Q (f r) then 1 else 0) - (if Q r then 1 else 0)"
  using assms(1-3)
proof (induction rows)
  case (Cons x xs)
  have ids: "mr_id x \<notin> mr_id ` set xs" using Cons.prems(1) by simp
  show ?case
  proof (cases "x = r")
    case True
    have "\<not> P y" if "y \<in> set xs" for y
    proof
      assume "P y"
      then have "mr_id y = mr_id x" using P True by blast
      with ids that show False by (metis image_eqI)
    qed
    then have "map (\<lambda>x. if P x then f x else x) xs = xs" by (intro map_idI) simp
    with True Cons.prems(3) show ?thesis by simp
  next
    case False
    then have r: "r \<in> set xs" using Cons.prems(2) by simp
    have "\<not> P x"
    proof
      assume "P x"
      then have "mr_id x = mr_id r" by (rule P)
      with ids r show False by (metis image_eqI)
    qed
    then show ?thesis using Cons.IH [OF _ r Cons.prems(3)] Cons.prems(1) by (cases "Q (f r)"; cases "Q r"; simp)
  qed
qed simp

lemma statistics_fields:
  "ms_total_markets (statistics_of e rows) = int (length (filter (\<lambda>r. mr_deleted_at r = None) rows))"
  "ms_active_markets (statistics_of e rows) = int (length (filter (\<lambda>r. mr_deleted_at r = None \<and> mr_status r = ''active'') rows))"
  "ms_resolved_markets (statistics_of e rows) = int (length (filter (\<lambda>r. mr_deleted_at r = None \<and> mr_status r = ''resolved'') rows))"
  "ms_total_volume (statistics_of e rows) = se_numeric e (sum_list (map mr_total_volume (filter (\<lambda>r. mr_deleted_at r = None) rows)))"
  by (simp_all add: statistics_of_def Let_def)

theorem statistics_after_resolve:
  assumes "distinct (map mr_id rows)" "r \<in> set rows" "resolvable market_id r"
  shows "statistics_of e (snd (resolve_rows market_id outcome_index now rows)) = (statistics_of e rows)
    \<lparr>ms_active_markets := ms_active_markets (statistics_of e rows) - 1, ms_resolved_markets := ms_resolved_markets (statistics_of e rows) + 1\<rparr>"
proof -
  let ?f = "\<lambda>x. x\<lparr>mr_status := ''resolved'', mr_outcome_index := Some (as_i32 outcome_index), mr_resolved_at := Some now\<rparr>"
  define rows' where "rows' = map (\<lambda>x. if resolvable market_id x then ?f x else x) rows"
  have same: "resolvable market_id x \<Longrightarrow> mr_id x = mr_id r" for x using assms(3) by (simp add: resolvable_def)
  have count: "int (length (filter Q rows')) = int (length (filter Q rows)) + (if Q (?f r) then 1 else 0) - (if Q r then 1 else 0)" for Q
    unfolding rows'_def by (rule count_replaced [where r = r and P = "resolvable market_id" and f = ?f, OF assms same])
  have r: "mr_status r = ''active''" "mr_deleted_at r = None" using assms(3) by (simp_all add: resolvable_def)
  have volume: "map mr_total_volume (filter (\<lambda>r. mr_deleted_at r = None) rows') = map mr_total_volume (filter (\<lambda>r. mr_deleted_at r = None) rows)"
    unfolding rows'_def by (induction rows) auto
  have "ms_total_markets (statistics_of e rows') = ms_total_markets (statistics_of e rows)"
    unfolding statistics_fields count [of "\<lambda>r. mr_deleted_at r = None"] using r by simp
  moreover have "ms_active_markets (statistics_of e rows') = ms_active_markets (statistics_of e rows) - 1"
    unfolding statistics_fields count [of "\<lambda>r. mr_deleted_at r = None \<and> mr_status r = ''active''"] using r by simp
  moreover have "ms_resolved_markets (statistics_of e rows') = ms_resolved_markets (statistics_of e rows) + 1"
    unfolding statistics_fields count [of "\<lambda>r. mr_deleted_at r = None \<and> mr_status r = ''resolved''"] using r by simp
  moreover have "ms_total_volume (statistics_of e rows') = ms_total_volume (statistics_of e rows)"
    unfolding statistics_fields volume ..
  moreover have "snd (resolve_rows market_id outcome_index now rows) = rows'" by (simp add: resolve_rows_def rows'_def)
  ultimately show ?thesis by (intro Statistics.equality) simp_all
qed

text \<open>If the cache is cleared, all six entries that depend on the market are gone, and a market that is not answered with an error stays resolved.\<close>

theorem resolved_market_not_cached:
  assumes "quiet (be_cache (se_chain e))" "redis_laws (ce_redis (be_cache (se_chain e)))"
    and "resolve_market e market_id outcome_index s = Ok (status, result) t" "ir_cache_invalidated result"
  shows "ir_invalidated_keys result = 6 \<and>
    (\<forall>k\<in>set (cache_keys (market_tag e market_id)). \<not> present (r_view (ce_redis (be_cache (se_chain e))) (cs_store (cached t))) k)"
proof -
  let ?op = "invalidate_tag (be_cache (se_chain e)) (market_tag e market_id)"
  from assms(3) obtain s1 where "bnd (serves_from (\<lambda>_. attempt_op ?op)) (\<lambda>cleared. ret (200, case cleared of
        Some count \<Rightarrow> \<lparr> ir_invalidated_keys = count, ir_cache_invalidated = True \<rparr>
      | None \<Rightarrow> \<lparr> ir_invalidated_keys = 0, ir_cache_invalidated = False \<rparr>)) s1 = Ok (status, result) t"
    by (auto simp: resolve_market_def thn_def bnd_def split: res.splits)
  moreover obtain x c where "attempt_op ?op (cached s1) = Ok x c"
    "serves_from (\<lambda>_. attempt_op ?op) s1 = Ok x (s1\<lparr>si_chain := (si_chain s1)\<lparr>ch_cache := c\<rparr>\<rparr>)"
    using serves_attempt [of ?op, OF invalidate_no_trap] by blast
  ultimately obtain count where run: "?op (cached s1) = Ok count (cached t)" and n: "ir_invalidated_keys result = count"
    using assms(4) by (auto simp: bnd_def ret_def attempt_op_def split: option.splits res.splits)
  show ?thesis
  proof (rule invalidate_Ok [OF assms(1,2) run])
    fix w
    assume "r_view (ce_redis (be_cache (se_chain e))) (cs_store (cached t)) = fold without_key (cache_keys (market_tag e market_id)) w"
      "count = length (cache_keys (market_tag e market_id))"
    with n show ?thesis by (auto simp: fold_without present_def market_tag_def)
  qed
qed

section \<open>Health\<close>

lemma db_query_ping: "attempt_op (ping e) s = Ok (if se_query e (cs_calls s) = Some (Inr ()) then Some () else None) (posted (se_chain e) s)"
  by (auto simp: ping_def attempt_op_def db_query_def query_outcome_def split: option.split sum.split)

lemma ping_direct_run:
  "\<exists>t. attempt_op (ping_direct_ms e) s = Ok (if ce_fate (be_cache (se_chain e)) (cs_calls s) = Done \<and> ce_fate (be_cache (se_chain e)) (cs_calls s + 1) = Done
     then Some (cs_now t - cs_now s) else None) t"
proof -
  have sel: "ce_fate (value_cache e) = ce_fate (be_cache (se_chain e))" by (simp add: value_cache_def Let_def)
  show ?thesis
    by (auto simp: attempt_op_def ping_direct_ms_def Let_def bnd_def thn_def reads_def ret_def pool_get_def redis_cmd_def cache_call_def sel
        split: fate.split)
qed

text \<open>
  The readiness probe always answers: 200 if the database and, past the breaker, Redis answered, and otherwise 503.  The chain, whatever state it is in,
  makes no difference to the status.
\<close>

theorem health_ready_exact:
  "\<exists>body t. health_ready e req s =
     Ok (if se_query e (cs_calls (cached s)) = Some (Inr ()) \<and> ce_fate (be_cache (se_chain e)) (cs_calls (cached s) + 1) = Done \<and>
           ce_fate (be_cache (se_chain e)) (cs_calls (cached s) + 2) = Done then 200 else 503, body) t"
proof -
  let ?s1 = "posted (se_chain e) (cached s)"
  let ?db = "if se_query e (cs_calls (cached s)) = Some (Inr ()) then Some () else None"
  obtain t where t: "attempt_op (ping_direct_ms e) ?s1 = Ok (if ce_fate (be_cache (se_chain e)) (cs_calls (cached s) + 1) = Done \<and>
      ce_fate (be_cache (se_chain e)) (cs_calls (cached s) + 2) = Done then Some (cs_now t - cs_now ?s1) else None) t"
    using ping_direct_run [of e ?s1] by (auto simp: numeral_2_eq_2)
  obtain h u where "health_check_cached (se_chain e) t = Ok h u" using health_always_answered(1) by blast
  then have u: "attempt_op (health_check_cached (se_chain e)) t = Ok (Some h) u" by (simp add: attempt_op_def)
  show ?thesis
    by (auto simp: health_ready_def probe_def serves_from_def bnd_def db_query_ping t u reads_def ret_def Let_def)
qed

text \<open>The older check does not look at what the database answered.\<close>

theorem legacy_health_ignores_database:
  "health timestamp req cb pool_size pool_available (Some (p\<lparr>hp_db := False\<rparr>)) = health timestamp req cb pool_size pool_available (Some (p\<lparr>hp_db := True\<rparr>)) \<and>
   (fst (health timestamp req cb pool_size pool_available (Some p)) = 200 \<longleftrightarrow> hp_cache p \<and> hp_sendgrid p)"
  by (simp add: health_def Let_def)

section \<open>The chain\<close>

text \<open>A hash that is not watched is refused exactly when the list, without what has expired, is full; nothing is asked of the chain then.\<close>

theorem tx_status_refused:
  assumes "hash \<notin> set (map fst (evict (se_chain e) (cs_now (cached s)) (ch_watched (si_chain s))))"
    and "bc_watched_tx_max_size (be_client (se_chain e)) \<le> int (length (evict (se_chain e) (cs_now (cached s)) (ch_watched (si_chain s))))"
  shows "\<exists>err t. blockchain_tx_status e hash s = Err err t \<and> ae_status err = 503 \<and> cached t = cached s \<and>
    ch_watched (si_chain t) = evict (se_chain e) (cs_now (cached s)) (ch_watched (si_chain s))"
  using assms by (simp add: blockchain_tx_status_def watch_transaction_def Let_def service_unavailable_def)

section \<open>Warming the caches\<close>

lemma yields_serves: "(\<And>s. yields P (op s)) \<Longrightarrow> yields P (serves_from op)"
  unfolding yields_def [of _ "serves_from op"] serves_from_def Let_def
  by (auto split: res.split dest: yieldsD)

lemma yields_cached: "yields (\<lambda>_. True) fetcher \<Longrightarrow> yields (\<lambda>_. True) (get_or_set_json c key ttl fetcher)"
  using yields_get_or_set [of c "\<lambda>_. True" fetcher key ttl] by (simp add: case_prod_unfold)

lemma yields_value: "yields (\<lambda>_. True) m \<Longrightarrow> yields (\<lambda>_. True) (bnd m (\<lambda>x. ret (f x)))"
  by (erule yields_bnd) (simp add: yields_ret)

text \<open>Warming never fails: it counts.\<close>

definition succeeds :: "('a \<Rightarrow> bool) \<Rightarrow> ('s, 'e, 'a) comp \<Rightarrow> bool" where
  "succeeds P m \<longleftrightarrow> (\<forall>s. \<exists>x t. m s = Ok x t \<and> P x)"

lemma succeeds_bnd:
  assumes "succeeds P m" "\<And>x. P x \<Longrightarrow> succeeds Q (f x)"
  shows "succeeds Q (bnd m f)"
  unfolding succeeds_def
proof
  fix s
  from assms(1) have "\<exists>x t. m s = Ok x t \<and> P x" unfolding succeeds_def ..
  then obtain x t where "m s = Ok x t" "P x" by blast
  with assms(2) [of x] show "\<exists>y u. bnd m f s = Ok y u \<and> Q y" by (simp add: succeeds_def bnd_def)
qed

lemma succeeds_warm:
  assumes "yields (\<lambda>_. True) op" "fst n + snd n = k"
  shows "succeeds (\<lambda>m. fst m + snd m = Suc k) (warm op n)"
  unfolding succeeds_def
proof
  fix s
  show "\<exists>m t. warm op n s = Ok m t \<and> fst m + snd m = Suc k"
    using assms(2) yieldsD(1) [OF assms(1), of s] by (cases "op s") (simp_all add: warm_def case_prod_unfold)
qed

lemma yields_pair: "yields (\<lambda>_. True) m \<Longrightarrow> yields (\<lambda>_. True) (bnd m (\<lambda>(x, y). ret (f x y)))"
  using yields_value [of m "\<lambda>(x, y). f x y"] by (simp add: case_prod_unfold)

lemma yields_rpc: "yields (\<lambda>_. True) (rpc e decode rpc_method args)"
  by (rule yields_safe) (rule rpc_no_trap)

lemma yields_or_else: "yields (\<lambda>_. True) op \<Longrightarrow> yields (\<lambda>_. True) (or_else op x)"
  unfolding or_else_def by (rule yields_value, rule yields_weaken, erule yields_attempt) simp

lemma yields_ledger: "yields (\<lambda>_. True) (or_else (latest_ledger e) x)"
  by (rule yields_or_else) (simp add: latest_ledger_def yields_rpc)

lemma yields_seq: "yields (\<lambda>_. True) m \<Longrightarrow> (\<And>x. yields (\<lambda>_. True) (f x)) \<Longrightarrow> yields (\<lambda>_. True) (bnd m f)"
  by (erule yields_bnd) blast

lemma yields_market: "yields (\<lambda>_. True) (market_data_cached e m)"
  unfolding market_data_cached_def fetch_market_def contract_data_def
  by (intro yields_pair yields_cached yields_seq yields_ledger yields_value yields_rpc)

lemma yields_platform: "yields (\<lambda>_. True) (platform_statistics_cached e)"
  unfolding platform_statistics_cached_def fetch_statistics_def contract_data_def
  by (intro yields_pair yields_cached yields_seq yields_ledger yields_value yields_rpc)

lemma yields_query: "yields (\<lambda>_. True) (db_query e answer)"
  by (rule yields_db_query) simp

lemma yields_statistics: "yields (\<lambda>_. True) (statistics_cached e rows)"
  unfolding statistics_cached_def by (intro yields_pair yields_cached yields_query)

lemma yields_featured: "yields (\<lambda>_. True) (featured_markets_cached e rows n)"
  unfolding featured_markets_cached_def by (intro yields_pair yields_cached yields_query)

lemma yields_contents: "yields (\<lambda>_. True) (content_cached e rows n)"
  unfolding content_cached_def by (intro yields_pair yields_cached yields_query)

lemma yields_outcome: "yields (\<lambda>_. True) m \<Longrightarrow> yields (\<lambda>_. True) (outcome_of m)"
  unfolding yields_def [of _ "outcome_of m"] outcome_of_def by (auto dest: yieldsD(1) split: res.split)

lemma yields_join: "(\<And>op. op \<in> set ops \<Longrightarrow> yields (\<lambda>_. True) op) \<Longrightarrow> yields (\<lambda>_. True) (join_all ops)"
  by (induction ops) (auto intro!: yields_ret yields_seq yields_outcome yields_value)

lemma yields_views: "yields (\<lambda>_. True) (fetch_views e rows)"
  unfolding fetch_views_def
  by (intro yields_seq yields_featured yields_join) (auto intro: yields_market yields_pure(1) yields_ret split: sum.split)

text \<open>
  Warming the caches at the start always comes to an end, whatever fails, and it makes seven requests, each of which succeeds or fails.
\<close>

theorem warming_ends:
  "\<exists>succeeded failed t. warm_critical_caches e s = Ok (succeeded, failed) t \<and> succeeded + failed = 7"
proof -
  have h: "yields (\<lambda>_. True) (health_check_cached (se_chain e))"
    using health_always_answered(1) [of "se_chain e"] by (intro yields_safe) (metis res.distinct(3))
  have 5: "yields (\<lambda>_. True) (statistics e)" "yields (\<lambda>_. True) (featured_markets e None None)" "yields (\<lambda>_. True) (content e None None)"
    unfolding statistics_def featured_markets_def content_def Let_def
    by (intro yields_pair yields_serves yields_cached yields_statistics yields_views yields_contents)+
  have "succeeds (\<lambda>m. fst m + snd m = Suc (Suc (Suc (Suc (Suc (Suc (Suc 0))))))) (warm_critical_caches e)"
    unfolding warm_critical_caches_def
    by (rule succeeds_bnd, rule succeeds_warm [where k = 0], rule yields_serves, rule yields_statistics, simp,
      rule succeeds_bnd, rule succeeds_warm, rule yields_serves, rule yields_featured, assumption,
      rule succeeds_bnd, rule succeeds_warm, rule yields_serves, rule h, assumption,
      rule succeeds_bnd, rule succeeds_warm, rule yields_serves, rule yields_platform, assumption,
      rule succeeds_bnd, rule succeeds_warm, rule 5, assumption, rule succeeds_bnd, rule succeeds_warm, rule 5, assumption,
      rule succeeds_warm, rule 5, assumption)
  then show ?thesis by (fastforce simp: succeeds_def)
qed

end
