(* ===== verification/Shutdown.thy ===== *)
theory Shutdown
  imports Rust_Parse
begin

text \<open>
  Shutting the service down (\<^verbatim>\<open>services/api/src/shutdown.rs\<close>, with the end of \<^verbatim>\<open>main.rs\<close>) and the supervisors that restart workers that
  panicked: the loop of \<^verbatim>\<open>main.rs\<close>, the one of \<^verbatim>\<open>blockchain.rs\<close>, and the two of the crate at the root of the repository.  The workers and the
  waiting task run concurrently; their steps are an inductive relation, in which reading the counter and sending its successor are two steps, as
  they are in the code.
\<close>

section \<open>The coordinator\<close>

record ShutdownCoordinator =
  sc_cancelled :: bool
  sc_completion :: nat
  sc_total_workers :: nat

definition ShutdownCoordinator_new :: "nat \<Rightarrow> ShutdownCoordinator" where
  "ShutdownCoordinator_new total_workers = \<lparr> sc_cancelled = False, sc_completion = 0, sc_total_workers = total_workers \<rparr>"

definition is_cancelled :: "ShutdownCoordinator \<Rightarrow> bool" where
  "is_cancelled c = sc_cancelled c"

text \<open>\<^verbatim>\<open>worker_completed\<close>: the value is read from the channel, and then its successor is sent.\<close>

definition completion_read :: "ShutdownCoordinator \<Rightarrow> nat" where
  "completion_read c = sc_completion c"

definition completion_send :: "nat \<Rightarrow> ShutdownCoordinator \<Rightarrow> ShutdownCoordinator" where
  "completion_send current c = c\<lparr>sc_completion := current + 1\<rparr>"

definition worker_completed :: "ShutdownCoordinator \<Rightarrow> ShutdownCoordinator" where
  "worker_completed c = completion_send (completion_read c) c"

definition begin_shutdown :: "ShutdownCoordinator \<Rightarrow> ShutdownCoordinator" where
  "begin_shutdown c = c\<lparr>sc_cancelled := True\<rparr>"

text \<open>What \<^verbatim>\<open>wait_for_completion\<close> waits for.\<close>

definition all_completed :: "ShutdownCoordinator \<Rightarrow> bool" where
  "all_completed c \<longleftrightarrow> sc_completion c \<ge> sc_total_workers c"

text \<open>The error names how many workers had completed.\<close>

datatype shutdown_result = Clean | Timed_Out nat nat

definition shutdown_timed_out :: "ShutdownCoordinator \<Rightarrow> shutdown_result" where
  "shutdown_timed_out c = Timed_Out (sc_completion c) (sc_total_workers c)"

definition email_queue_drain_timeout :: "environment \<Rightarrow> int" where
  "email_queue_drain_timeout env = env_uint 64 env ''EMAIL_QUEUE_DRAIN_TIMEOUT_SECS'' 60"

definition shutdown_timeout :: "environment \<Rightarrow> int" where
  "shutdown_timeout env = env_uint 64 env ''SHUTDOWN_TIMEOUT_SECS'' 30"

section \<open>Workers and the waiting task\<close>

datatype worker = Working | Read nat | Finished

datatype waiter = Serving | Waiting | Returned shutdown_result

record system =
  sy_coord :: ShutdownCoordinator
  sy_workers :: "worker list"
  sy_waiter :: waiter

definition started :: "nat \<Rightarrow> system" where
  "started n = \<lparr> sy_coord = ShutdownCoordinator_new n, sy_workers = replicate n Working, sy_waiter = Serving \<rparr>"

text \<open>
  A worker reports that it is done at any time after its last iteration; one that hangs or crashed takes no step.  The time limit can be over at
  any time, but the counter is looked at once more before the waiting is given up.
\<close>

inductive sys_step :: "system \<Rightarrow> system \<Rightarrow> bool" where
  signal: "sy_waiter s = Serving \<Longrightarrow> sys_step s (s\<lparr>sy_coord := begin_shutdown (sy_coord s), sy_waiter := Waiting\<rparr>)"
| looks: "i < length (sy_workers s) \<Longrightarrow> sy_workers s ! i = Working \<Longrightarrow>
    sys_step s (s\<lparr>sy_workers := (sy_workers s)[i := Read (completion_read (sy_coord s))]\<rparr>)"
| sends: "i < length (sy_workers s) \<Longrightarrow> sy_workers s ! i = Read n \<Longrightarrow>
    sys_step s (s\<lparr>sy_coord := completion_send n (sy_coord s), sy_workers := (sy_workers s)[i := Finished]\<rparr>)"
| observes: "sy_waiter s = Waiting \<Longrightarrow> all_completed (sy_coord s) \<Longrightarrow> sys_step s (s\<lparr>sy_waiter := Returned Clean\<rparr>)"
| expires: "sy_waiter s = Waiting \<Longrightarrow> \<not> all_completed (sy_coord s) \<Longrightarrow>
    sys_step s (s\<lparr>sy_waiter := Returned (shutdown_timed_out (sy_coord s))\<rparr>)"

inductive sys_reach :: "nat \<Rightarrow> system \<Rightarrow> bool" for n where
  start: "sys_reach n (started n)"
| step: "sys_reach n s \<Longrightarrow> sys_step s t \<Longrightarrow> sys_reach n t"

inductive_cases sys_step_cases: "sys_step s t"

text \<open>The workers that have reported.\<close>

definition finished :: "system \<Rightarrow> nat" where
  "finished s = length (filter (\<lambda>w. w = Finished) (sy_workers s))"

definition sys_ok :: "nat \<Rightarrow> system \<Rightarrow> bool" where
  "sys_ok n s \<longleftrightarrow> length (sy_workers s) = n \<and> sc_total_workers (sy_coord s) = n \<and> sc_completion (sy_coord s) \<le> finished s \<and>
     (\<forall>k. Read k \<in> set (sy_workers s) \<longrightarrow> k \<le> finished s) \<and> (sy_waiter s = Returned Clean \<longrightarrow> finished s = n) \<and>
     (sc_cancelled (sy_coord s) \<longleftrightarrow> sy_waiter s \<noteq> Serving)"

lemma finished_le: "finished s \<le> length (sy_workers s)"
  by (simp add: finished_def)

lemma count_update:
  "i < length ws \<Longrightarrow>
    length (filter P (ws[i := w])) + (if P (ws ! i) then 1 else 0) = length (filter P ws) + (if P w then 1 else 0)"
proof (induction ws arbitrary: i)
  case (Cons x ws)
  then show ?case by (cases i) auto
qed simp

lemma finished_update:
  "i < length (sy_workers s) \<Longrightarrow> sy_workers s ! i \<noteq> Finished \<Longrightarrow>
    finished (s\<lparr>sy_workers := (sy_workers s)[i := w]\<rparr>) = finished s + (if w = Finished then 1 else 0)"
  using count_update [of i "sy_workers s" "\<lambda>w. w = Finished" w] by (simp add: finished_def)

lemma finished_frame [simp]:
  "finished (s\<lparr>sy_coord := c\<rparr>) = finished s" "finished (s\<lparr>sy_waiter := v\<rparr>) = finished s"
  "finished (s\<lparr>sy_coord := c, sy_workers := ws\<rparr>) = finished (s\<lparr>sy_workers := ws\<rparr>)"
  "finished (s\<lparr>sy_coord := c, sy_waiter := v\<rparr>) = finished s"
  by (simp_all add: finished_def)

lemmas coordinator_defs = ShutdownCoordinator_new_def begin_shutdown_def completion_send_def completion_read_def all_completed_def

lemma sys_ok_step:
  assumes "sys_step s t" "sys_ok n s"
  shows "sys_ok n t"
  using assms
proof (cases rule: sys_step.cases)
  case (looks i)
  have "finished t = finished s" using looks finished_update [of i s] by simp
  with assms(2) looks show ?thesis by (auto simp: sys_ok_def coordinator_defs dest: set_update_subset_insert [THEN subsetD])
next
  case (sends i k)
  then have f: "finished t = finished s + 1" using finished_update [of i s] by simp
  have "Read k \<in> set (sy_workers s)" using sends by (metis nth_mem)
  with assms(2) have "k \<le> finished s" by (auto simp: sys_ok_def)
  moreover have "finished s \<noteq> n"
  proof
    assume "finished s = n"
    with assms(2) finished_le [of t] sends f show False by (simp add: sys_ok_def)
  qed
  ultimately show ?thesis using assms(2) sends f
    by (auto simp: sys_ok_def coordinator_defs dest!: set_update_subset_insert [THEN subsetD] intro: le_SucI)
next
  case observes
  with assms(2) finished_le [of s] show ?thesis by (auto simp: sys_ok_def coordinator_defs)
qed (auto simp: sys_ok_def coordinator_defs shutdown_timed_out_def)

text \<open>The invariant of the system: the counter never runs ahead of the workers.\<close>

lemma sys_ok_reach: "sys_reach n s \<Longrightarrow> sys_ok n s"
proof (induction rule: sys_reach.induct)
  case start
  then show ?case by (simp add: sys_ok_def started_def coordinator_defs finished_def)
next
  case (step s t)
  then show ?case using sys_ok_step by blast
qed

text \<open>
  A shutdown that is reported as clean is one: every worker has finished its last task and reported.  However the steps of the workers interleave,
  the counter is never more than the number of workers that have reported.
\<close>

theorem clean_shutdown_complete:
  assumes "sys_reach n s" "sy_waiter s = Returned Clean"
  shows "sy_workers s = replicate n Finished"
proof -
  have all: "finished s = length (sy_workers s)" "length (sy_workers s) = n" using sys_ok_reach [OF assms(1)] assms(2) by (auto simp: sys_ok_def)
  have "w = Finished" if "w \<in> set (sy_workers s)" for w
  proof (rule ccontr)
    assume "w \<noteq> Finished"
    with length_filter_less [OF that, of "\<lambda>w. w = Finished"] all(1) show False by (simp add: finished_def)
  qed
  with all(2) show ?thesis by (metis replicate_eqI)
qed

section \<open>A completion can be lost\<close>

text \<open>A system in which every worker has reported and the counter is nevertheless behind: it stays so.\<close>

definition behind :: "system \<Rightarrow> bool" where
  "behind s \<longleftrightarrow> (\<forall>w\<in>set (sy_workers s). w = Finished) \<and> \<not> all_completed (sy_coord s) \<and> sy_waiter s \<noteq> Returned Clean"

lemma behind_step:
  assumes "sys_step s t" "behind s"
  shows "behind t"
  using assms
proof (cases rule: sys_step.cases)
  case (looks i)
  then have "Working \<in> set (sy_workers s)" by (metis nth_mem)
  with assms(2) show ?thesis by (auto simp: behind_def)
next
  case (sends i k)
  then have "Read k \<in> set (sy_workers s)" by (metis nth_mem)
  with assms(2) show ?thesis by (auto simp: behind_def)
qed (auto simp: behind_def coordinator_defs shutdown_timed_out_def)

lemma behind_steps: "sys_step\<^sup>*\<^sup>* s t \<Longrightarrow> behind s \<Longrightarrow> behind t"
  by (induction rule: rtranclp_induct) (auto intro: behind_step)

lemma reach_signal:
  "sys_reach n s \<Longrightarrow> sy_waiter s = Serving \<Longrightarrow> u = s\<lparr>sy_coord := begin_shutdown (sy_coord s), sy_waiter := Waiting\<rparr> \<Longrightarrow> sys_reach n u"
  using sys_reach.step sys_step.signal by blast

lemma reach_looks:
  "sys_reach n s \<Longrightarrow> i < length (sy_workers s) \<Longrightarrow> sy_workers s ! i = Working \<Longrightarrow>
    u = s\<lparr>sy_workers := (sy_workers s)[i := Read (completion_read (sy_coord s))]\<rparr> \<Longrightarrow> sys_reach n u"
  using sys_reach.step sys_step.looks by blast

lemma reach_sends:
  "sys_reach n s \<Longrightarrow> i < length (sy_workers s) \<Longrightarrow> sy_workers s ! i = Read k \<Longrightarrow>
    u = s\<lparr>sy_coord := completion_send k (sy_coord s), sy_workers := (sy_workers s)[i := Finished]\<rparr> \<Longrightarrow> sys_reach n u"
  using sys_reach.step sys_step.sends by blast

lemma two_reports_at_once:
  "sys_reach 2 \<lparr> sy_coord = \<lparr> sc_cancelled = True, sc_completion = 1, sc_total_workers = 2 \<rparr>, sy_workers = [Finished, Finished], sy_waiter = Waiting \<rparr>"
proof -
  let ?c = "\<lambda>k. \<lparr> sc_cancelled = True, sc_completion = k, sc_total_workers = 2 \<rparr>"
  have "sys_reach 2 \<lparr> sy_coord = ?c 0, sy_workers = [Working, Working], sy_waiter = Waiting \<rparr>"
    by (rule reach_signal [OF sys_reach.start]) (simp_all add: started_def coordinator_defs numeral_2_eq_2)
  then have "sys_reach 2 \<lparr> sy_coord = ?c 0, sy_workers = [Read 0, Working], sy_waiter = Waiting \<rparr>"
    by (rule reach_looks [where i = 0]) (simp_all add: coordinator_defs)
  then have "sys_reach 2 \<lparr> sy_coord = ?c 0, sy_workers = [Read 0, Read 0], sy_waiter = Waiting \<rparr>"
    by (rule reach_looks [where i = 1]) (simp_all add: coordinator_defs)
  then have "sys_reach 2 \<lparr> sy_coord = ?c 1, sy_workers = [Finished, Read 0], sy_waiter = Waiting \<rparr>"
    by (rule reach_sends [where i = 0 and k = 0]) (simp_all add: coordinator_defs)
  then show ?thesis
    by (rule reach_sends [where i = 1 and k = 0]) (simp_all add: coordinator_defs)
qed

text \<open>
  C27. The two workers of the chain may report at the same moment: both read zero, both send one, and one report is lost.  Both have then finished cleanly,
  but whatever happens from there the shutdown does not end before its time limit, and it ends with an error.
\<close>

theorem completion_lost:
  "\<exists>s. sys_reach 2 s \<and> sy_workers s = [Finished, Finished] \<and> \<not> (\<exists>t. sys_step\<^sup>*\<^sup>* s t \<and> sy_waiter t = Returned Clean)"
proof -
  let ?s = "\<lparr> sy_coord = \<lparr> sc_cancelled = True, sc_completion = 1, sc_total_workers = 2 \<rparr>, sy_workers = [Finished, Finished], sy_waiter = Waiting \<rparr>"
  have "behind ?s" by (simp add: behind_def coordinator_defs)
  then have "\<not> (\<exists>t. sys_step\<^sup>*\<^sup>* ?s t \<and> sy_waiter t = Returned Clean)" by (meson behind_steps behind_def)
  with two_reports_at_once show ?thesis by (intro exI [of _ ?s] conjI) simp_all
qed

text \<open>If no two workers are between reading and sending at the same time, the counter is exact.\<close>

definition reporting :: "system \<Rightarrow> nat" where
  "reporting s = length (filter (\<lambda>w. \<exists>k. w = Read k) (sy_workers s))"

inductive orderly :: "nat \<Rightarrow> system \<Rightarrow> bool" for n where
  begins: "orderly n (started n)"
| goes_on: "orderly n s \<Longrightarrow> sys_step s t \<Longrightarrow> reporting t \<le> 1 \<Longrightarrow> orderly n t"

definition exact_count :: "system \<Rightarrow> bool" where
  "exact_count s \<longleftrightarrow> sc_completion (sy_coord s) = finished s \<and> (\<forall>k. Read k \<in> set (sy_workers s) \<longrightarrow> k = finished s) \<and> reporting s \<le> 1"

lemma reporting_update:
  "i < length (sy_workers s) \<Longrightarrow> reporting (s\<lparr>sy_workers := (sy_workers s)[i := w]\<rparr>) + (if \<exists>k. sy_workers s ! i = Read k then 1 else 0) =
    reporting s + (if \<exists>k. w = Read k then 1 else 0)"
  using count_update [of i "sy_workers s" "\<lambda>w. \<exists>k. w = Read k" w] by (simp add: reporting_def)

lemma reporting_frame [simp]:
  "reporting (s\<lparr>sy_coord := c\<rparr>) = reporting s" "reporting (s\<lparr>sy_waiter := v\<rparr>) = reporting s"
  "reporting (s\<lparr>sy_coord := c, sy_workers := ws\<rparr>) = reporting (s\<lparr>sy_workers := ws\<rparr>)"
  "reporting (s\<lparr>sy_coord := c, sy_waiter := v\<rparr>) = reporting s"
  by (simp_all add: reporting_def)

lemma exact_step:
  assumes "sys_step s t" "exact_count s" "reporting t \<le> 1"
  shows "exact_count t"
  using assms(1)
proof (cases rule: sys_step.cases)
  case (looks i)
  have "finished t = finished s" using looks finished_update [of i s] by simp
  with assms(2,3) looks show ?thesis by (auto simp: exact_count_def coordinator_defs dest: set_update_subset_insert [THEN subsetD])
next
  case (sends i k)
  then have f: "finished t = finished s + 1" using finished_update [of i s] by simp
  have "Read k \<in> set (sy_workers s)" using sends by (metis nth_mem)
  with assms(2) have k: "k = finished s" by (auto simp: exact_count_def)
  have "reporting t = 0" using reporting_update [of i s Finished] sends assms(2) by (auto simp: exact_count_def)
  then have "Read j \<notin> set (sy_workers t)" for j by (auto simp: reporting_def filter_empty_conv)
  moreover have "sc_completion (sy_coord t) = finished t" using f k sends by (simp add: coordinator_defs)
  ultimately show ?thesis using assms(3) by (simp add: exact_count_def)
next
  case signal
  then show ?thesis using assms(2) by (simp add: exact_count_def coordinator_defs)
next
  case observes
  then show ?thesis using assms(2) by (simp add: exact_count_def)
next
  case expires
  then show ?thesis using assms(2) by (simp add: exact_count_def)
qed

theorem orderly_count: "orderly n s \<Longrightarrow> exact_count s"
proof (induction rule: orderly.induct)
  case begins
  then show ?case by (simp add: exact_count_def started_def coordinator_defs finished_def reporting_def)
next
  case (goes_on s t)
  then show ?case using exact_step by blast
qed

section \<open>Supervisors\<close>

text \<open>How one run of a supervised worker ends.\<close>

datatype WorkerOutcome = Completed | Crashed

text \<open>The loop of \<^verbatim>\<open>main.rs\<close> around the email worker: the runs, the seconds slept between them, and whether it gave up.\<close>

record supervision =
  sv_runs :: nat
  sv_slept :: "int list"
  sv_gave_up :: bool

definition MAX_EMAIL_WORKER_RESTARTS :: nat where "MAX_EMAIL_WORKER_RESTARTS = 5"

function email_restart_loop :: "(nat \<Rightarrow> WorkerOutcome) \<Rightarrow> nat \<Rightarrow> int list \<Rightarrow> supervision" where
  "email_restart_loop run restarts slept = (case run restarts of
     Completed \<Rightarrow> \<lparr> sv_runs = restarts + 1, sv_slept = slept, sv_gave_up = False \<rparr>
   | Crashed \<Rightarrow> (let restarts = restarts + 1 in
       if restarts \<ge> MAX_EMAIL_WORKER_RESTARTS then \<lparr> sv_runs = restarts, sv_slept = slept, sv_gave_up = True \<rparr>
       else email_restart_loop run restarts (slept @ [2 ^ (restarts - 1)])))"
  by pat_completeness auto
termination by (relation "measure (\<lambda>(run, restarts, slept). MAX_EMAIL_WORKER_RESTARTS - restarts)") auto

declare email_restart_loop.simps [simp del]

definition supervise_email :: "(nat \<Rightarrow> WorkerOutcome) \<Rightarrow> supervision" where
  "supervise_email run = email_restart_loop run 0 []"

text \<open>
  The loop of \<^verbatim>\<open>blockchain.rs\<close> around the synchronisation: \<open>cancelled j\<close> is what the token says when it is looked at for the \<open>j\<close>-th time.  The
  value is the number of runs; it restarts without limit, and an execution that goes on for ever is \<open>None\<close>.
\<close>

partial_function (option) sync_restart_loop :: "(nat \<Rightarrow> WorkerOutcome) \<Rightarrow> (nat \<Rightarrow> bool) \<Rightarrow> nat \<Rightarrow> nat option" where
  "sync_restart_loop run cancelled i =
     (if cancelled (2 * i) then Some i
      else if run i = Completed then Some (i + 1)
      else if cancelled (2 * i + 1) then Some (i + 1)
      else sync_restart_loop run cancelled (i + 1))"

definition supervise_sync :: "(nat \<Rightarrow> WorkerOutcome) \<Rightarrow> (nat \<Rightarrow> bool) \<Rightarrow> nat option" where
  "supervise_sync run cancelled = sync_restart_loop run cancelled 0"

text \<open>The two supervisors of the crate at the root; the first keeps its counters in a structure of its own, the second is a loop.\<close>

definition EMAIL_WORKER_BACKOFF_BASE :: int where "EMAIL_WORKER_BACKOFF_BASE = 500"

definition backoff_for_attempt :: "nat \<Rightarrow> int" where
  "backoff_for_attempt attempt = EMAIL_WORKER_BACKOFF_BASE * (if attempt < 32 then 2 ^ attempt else 2 ^ 32 - 1)"

record WorkerSupervisor =
  ws_restarts :: nat
  ws_crashes :: nat

definition WorkerSupervisor_new :: WorkerSupervisor where
  "WorkerSupervisor_new = \<lparr> ws_restarts = 0, ws_crashes = 0 \<rparr>"

definition record_crash :: "WorkerSupervisor \<Rightarrow> int option \<times> WorkerSupervisor" where
  "record_crash w = (let w1 = w\<lparr>ws_crashes := ws_crashes w + 1\<rparr> in
     if ws_restarts w1 \<ge> MAX_EMAIL_WORKER_RESTARTS then (None, w1)
     else (Some (backoff_for_attempt (ws_restarts w1)), w1\<lparr>ws_restarts := ws_restarts w1 + 1\<rparr>))"

definition email_worker_backoff :: "nat \<Rightarrow> int" where
  "email_worker_backoff attempt = EMAIL_WORKER_BACKOFF_BASE * min (2 ^ attempt) (2 ^ 32 - 1)"

datatype SupervisorOutcome = Finished_First | Recovered nat | Exhausted nat

text \<open>The outcome, the crashes that were counted and the milliseconds slept.\<close>

function supervise_loop :: "nat \<Rightarrow> (nat \<Rightarrow> WorkerOutcome) \<Rightarrow> nat \<Rightarrow> int list \<Rightarrow> SupervisorOutcome \<times> nat \<times> int list" where
  "supervise_loop max_restarts run attempts slept = (case run attempts of
     Completed \<Rightarrow> (if attempts = 0 then Finished_First else Recovered attempts, attempts, slept)
   | Crashed \<Rightarrow> (let attempts = attempts + 1 in
       if attempts > max_restarts then (Exhausted attempts, attempts, slept)
       else supervise_loop max_restarts run attempts (slept @ [email_worker_backoff (attempts - 1)])))"
  by pat_completeness auto
termination by (relation "measure (\<lambda>(max_restarts, run, attempts, slept). max_restarts - attempts)") auto

declare supervise_loop.simps [simp del]

definition supervise :: "nat \<Rightarrow> (nat \<Rightarrow> WorkerOutcome) \<Rightarrow> SupervisorOutcome \<times> nat \<times> int list" where
  "supervise max_restarts run = supervise_loop max_restarts run 0 []"

section \<open>What the supervisors do\<close>

lemma email_crash:
  "run i = Crashed \<Longrightarrow> i + 1 < MAX_EMAIL_WORKER_RESTARTS \<Longrightarrow> email_restart_loop run i slept = email_restart_loop run (i + 1) (slept @ [2 ^ i])"
  by (simp add: email_restart_loop.simps [of run i])

lemma email_crashes:
  "i + k < MAX_EMAIL_WORKER_RESTARTS \<Longrightarrow> (\<And>j. i \<le> j \<Longrightarrow> j < i + k \<Longrightarrow> run j = Crashed) \<Longrightarrow>
    email_restart_loop run i slept = email_restart_loop run (i + k) (slept @ map (\<lambda>j. 2 ^ j) [i..<i + k])"
proof (induction k arbitrary: i slept)
  case (Suc k)
  have "email_restart_loop run i slept = email_restart_loop run (i + 1) (slept @ [2 ^ i])"
    using Suc.prems by (intro email_crash) simp_all
  also have "\<dots> = email_restart_loop run (i + 1 + k) ((slept @ [2 ^ i]) @ map (\<lambda>j. 2 ^ j) [i + 1..<i + 1 + k])"
    using Suc.prems by (intro Suc.IH) simp_all
  finally show ?case by (simp add: upt_rec [of i])
qed simp

text \<open>
  The email worker is restarted after every crash until one run ends cleanly, with delays of 1, 2, 4 and 8 seconds.  After the fifth crash the
  supervisor gives up: the worker is never run again, whatever it did in between.
\<close>

theorem supervise_email_exact:
  "supervise_email run =
    (case filter (\<lambda>i. run i = Completed) [0..<5] of
       k # _ \<Rightarrow> \<lparr> sv_runs = k + 1, sv_slept = map (\<lambda>j. 2 ^ j) [0..<k], sv_gave_up = False \<rparr>
     | [] \<Rightarrow> \<lparr> sv_runs = 5, sv_slept = [1, 2, 4, 8], sv_gave_up = True \<rparr>)"
proof (cases "filter (\<lambda>i. run i = Completed) [0..<5]")
  case Nil
  then have all: "run j = Crashed" if "j < 5" for j using that by (cases "run j") (auto simp: filter_empty_conv)
  have "supervise_email run = email_restart_loop run 4 (map (\<lambda>j. 2 ^ j) [0..<4])"
    using email_crashes [of 0 4 run "[]"] all by (simp add: supervise_email_def MAX_EMAIL_WORKER_RESTARTS_def)
  also have "\<dots> = \<lparr> sv_runs = 5, sv_slept = [1, 2, 4, 8], sv_gave_up = True \<rparr>"
    by (simp add: email_restart_loop.simps [of run 4] all MAX_EMAIL_WORKER_RESTARTS_def upt_rec)
  finally show ?thesis using Nil by simp
next
  case (Cons k ks)
  from Cons obtain us vs where split: "[0..<5] = us @ k # vs" "\<forall>u\<in>set us. run u \<noteq> Completed" "run k = Completed"
    by (auto dest: filter_eq_ConsD)
  have k: "k < 5" using arg_cong [OF split(1), of set] by auto
  have "us = [0..<k]"
    using split(1) by (metis append_eq_conv_conj k length_upt less_imp_le_nat minus_nat.diff_0 nth_append_length nth_upt plus_nat.add_0 split(1) take_upt
      add.commute length_append list.size(4) less_add_Suc1 add_Suc_right)
  then have crashed: "run j = Crashed" if "j < k" for j using split(2) that by (cases "run j") auto
  have "supervise_email run = email_restart_loop run k (map (\<lambda>j. 2 ^ j) [0..<k])"
    using email_crashes [of 0 k run "[]"] crashed k by (simp add: supervise_email_def MAX_EMAIL_WORKER_RESTARTS_def)
  then show ?thesis using Cons split(3) by (simp add: email_restart_loop.simps [of run k])
qed

text \<open>
  The supervisor of the synchronisation returns exactly if some run ends cleanly or some look at the token finds it cancelled; a worker that
  always panics is restarted for ever.
\<close>

lemma sync_loop_returns:
  "sync_restart_loop run cancelled i = Some k \<Longrightarrow> (\<exists>j. cancelled j) \<or> (\<exists>j. run j = Completed)"
proof (rule sync_restart_loop.raw_induct [where P = "\<lambda>r c i y. (\<exists>j. c j) \<or> (\<exists>j. r j = Completed)"])
  fix loop r c i y
  assume IH: "\<And>r c i y. loop r c i = Some y \<Longrightarrow> (\<exists>j. c j) \<or> (\<exists>j. r j = Completed)"
    and "(if c (2 * i) then Some i else if r i = Completed then Some (i + 1) else if c (2 * i + 1) then Some (i + 1) else loop r c (i + 1)) = Some y"
  then show "(\<exists>j. c j) \<or> (\<exists>j. r j = Completed)" by (auto split: if_splits dest: IH)
qed

lemma sync_loop_ends:
  "run (i + d) = Completed \<or> cancelled (2 * (i + d)) \<or> cancelled (2 * (i + d) + 1) \<Longrightarrow> \<exists>k. sync_restart_loop run cancelled i = Some k"
proof (induction d arbitrary: i)
  case 0
  then show ?case by (subst sync_restart_loop.simps) auto
next
  case (Suc d)
  have "run (i + 1 + d) = Completed \<or> cancelled (2 * (i + 1 + d)) \<or> cancelled (2 * (i + 1 + d) + 1)"
    using Suc.prems by simp
  then have "\<exists>k. sync_restart_loop run cancelled (i + 1) = Some k" by (rule Suc.IH)
  then show ?case by (subst sync_restart_loop.simps) auto
qed

theorem supervise_sync_returns:
  "(\<exists>k. supervise_sync run cancelled = Some k) \<longleftrightarrow> (\<exists>j. cancelled j) \<or> (\<exists>j. run j = Completed)"
proof
  assume "(\<exists>j. cancelled j) \<or> (\<exists>j. run j = Completed)"
  then obtain d where "run (0 + d) = Completed \<or> cancelled (2 * (0 + d)) \<or> cancelled (2 * (0 + d) + 1)"
  proof (elim disjE exE)
    fix j assume "cancelled j"
    then have "cancelled (2 * (j div 2)) \<or> cancelled (2 * (j div 2) + 1)" by (cases "even j") (simp_all add: even_two_times_div_two odd_two_times_div_two_succ)
    then show thesis using that [of "j div 2"] by auto
  qed (use that in auto)
  then show "\<exists>k. supervise_sync run cancelled = Some k" unfolding supervise_sync_def by (rule sync_loop_ends)
qed (auto simp: supervise_sync_def dest: sync_loop_returns)

text \<open>The answers of \<open>record_crash\<close> to the given number of crashes.\<close>

fun crash_answers :: "nat \<Rightarrow> WorkerSupervisor \<Rightarrow> int option list" where
  "crash_answers 0 w = []"
| "crash_answers (Suc n) w = fst (record_crash w) # crash_answers n (snd (record_crash w))"

lemma record_crash_simps:
  "record_crash \<lparr> ws_restarts = r, ws_crashes = c \<rparr> =
    (if r < MAX_EMAIL_WORKER_RESTARTS then (Some (backoff_for_attempt r), \<lparr> ws_restarts = r + 1, ws_crashes = c + 1 \<rparr>)
     else (None, \<lparr> ws_restarts = r, ws_crashes = c + 1 \<rparr>))"
  by (simp add: record_crash_def)

lemma supervise_crashes:
  "i + k \<le> m \<Longrightarrow> (\<And>j. run j = Crashed) \<Longrightarrow>
    supervise_loop m run i slept = supervise_loop m run (i + k) (slept @ map email_worker_backoff [i..<i + k])"
proof (induction k arbitrary: i slept)
  case (Suc k)
  have "supervise_loop m run i slept = supervise_loop m run (i + 1) (slept @ [email_worker_backoff i])"
    using Suc.prems by (simp add: supervise_loop.simps [of m run i])
  also have "\<dots> = supervise_loop m run (i + 1 + k) ((slept @ [email_worker_backoff i]) @ map email_worker_backoff [i + 1..<i + 1 + k])"
    using Suc.prems by (intro Suc.IH) simp_all
  finally show ?case by (simp add: upt_rec [of i])
qed simp

text \<open>
  The three restart loops do not agree about a worker that always crashes: the one that runs in \<^verbatim>\<open>main.rs\<close> gives up after five runs, with delays of up to eight seconds;
  the two at the root allow six, with delays of half a second and up, and agree with each other.
\<close>

theorem supervisors_differ:
  assumes "\<And>i. run i = Crashed"
  shows "map (\<lambda>secs. 1000 * secs) (sv_slept (supervise_email run)) = [1000, 2000, 4000, 8000] \<and>
    supervise MAX_EMAIL_WORKER_RESTARTS run = (Exhausted 6, 6, [500, 1000, 2000, 4000, 8000]) \<and>
    crash_answers 6 WorkerSupervisor_new = map Some [500, 1000, 2000, 4000, 8000] @ [None]"
proof (intro conjI)
  show "map (\<lambda>secs. 1000 * secs) (sv_slept (supervise_email run)) = [1000, 2000, 4000, 8000]"
    using supervise_email_exact [of run] assms by simp
  have five: "[0..<5::nat] = [0, 1, 2, 3, 4]" by (simp add: upt_rec)
  have "supervise MAX_EMAIL_WORKER_RESTARTS run = supervise_loop 5 run 5 (map email_worker_backoff [0..<5])"
    using supervise_crashes [of 0 5 5 run "[]"] assms by (simp add: supervise_def MAX_EMAIL_WORKER_RESTARTS_def)
  also have "\<dots> = (Exhausted 6, 6, [500, 1000, 2000, 4000, 8000])"
    by (simp add: supervise_loop.simps [of 5 run 5] assms five email_worker_backoff_def EMAIL_WORKER_BACKOFF_BASE_def)
  finally show "supervise MAX_EMAIL_WORKER_RESTARTS run = (Exhausted 6, 6, [500, 1000, 2000, 4000, 8000])" .
  show "crash_answers 6 WorkerSupervisor_new = map Some [500, 1000, 2000, 4000, 8000] @ [None]"
    by (simp add: numeral_eq_Suc record_crash_simps WorkerSupervisor_new_def MAX_EMAIL_WORKER_RESTARTS_def backoff_for_attempt_def EMAIL_WORKER_BACKOFF_BASE_def)
qed

end
