(* ===== verification/Migrations.thy ===== *)
theory Migrations
  imports Rust_Parse Outcomes Rate_Limit
begin

text \<open>
  The runner of the database migrations (\<^verbatim>\<open>migrations.rs\<close>): the list of embedded migrations, the table that tracks them, the advisory lock,
  checksums, transactions and the dry run.  Every statement can be lost, or be carried out without the answer arriving.  What the SQL files other than
  the first do to the rest of the database is a parameter, like their text, the hash and the clock; the first file, which creates the tracking table
  if there is none, is modelled.
\<close>

section \<open>State\<close>

record Migration =
  mig_version :: string
  mig_name :: string
  mig_sql :: string

record AppliedMigration =
  am_version :: string
  am_name :: string
  am_applied_at :: int
  am_checksum :: string

datatype mig_error = Statement_Failed | Lock_Held | Checksum_Mismatch string

text \<open>The rest of the database and the rows of the tracking table, which may not exist.\<close>

type_synonym 'd tables = "'d \<times> AppliedMigration list option"

record 'd mig_state =
  ms_tables :: "'d tables"
  ms_lock :: "nat option"
  ms_tx :: "'d tables option"
  ms_calls :: nat
  ms_printed :: "string list"

type_synonym ('d, 'a) mig_op = "('d mig_state, mig_error, 'a) comp"

record 'd mig_env =
  me_environment :: environment
  me_text :: "string \<Rightarrow> string"
  me_exec :: "string \<Rightarrow> 'd \<Rightarrow> 'd option"
  me_sha256 :: "string \<Rightarrow> string"
  me_now :: "nat \<Rightarrow> int"
  me_fate :: "nat \<Rightarrow> fate"
  me_session :: nat

section \<open>The migrations\<close>

definition MIGRATION_FILES :: "(string \<times> string) list" where
  "MIGRATION_FILES =
    [(''000'', ''000_create_schema_migrations''),
     (''001'', ''001_enable_pgcrypto''),
     (''002'', ''002_create_newsletter_subscriptions''),
     (''003'', ''003_create_contact_form_submissions''),
     (''004'', ''004_create_waitlist_entries''),
     (''005'', ''005_create_content_management''),
     (''006'', ''006_create_analytics_events''),
     (''007'', ''007_create_audit_logs''),
     (''008'', ''008_create_email_tracking''),
     (''011'', ''011_create_markets''),
     (''017'', ''017_create_email_dead_letter_jobs''),
     (''017b'', ''017_add_soft_delete_markets''),
     (''017c'', ''017_add_analytics_events_market_id''),
     (''018'', ''018_add_email_tracking_email_status_index''),
     (''018b'', ''018_add_varchar_constraints''),
     (''019'', ''019_add_newsletter_confirmed_at_index''),
     (''020'', ''020_add_audit_log_actor_time_index'')]"

definition MIGRATIONS :: "'d mig_env \<Rightarrow> Migration list" where
  "MIGRATIONS e = map (\<lambda>(version, name). \<lparr> mig_version = version, mig_name = name, mig_sql = me_text e name \<rparr>) MIGRATION_FILES"

definition find_migration :: "'d mig_env \<Rightarrow> string \<Rightarrow> Migration option" where
  "find_migration e version = find (\<lambda>m. mig_version m = version) (MIGRATIONS e)"

definition is_dry_run :: "environment \<Rightarrow> bool" where
  "is_dry_run env = (case env ''MIGRATE_DRY_RUN'' of Some v \<Rightarrow> eq_ignore_ascii_case v ''true'' | None \<Rightarrow> False)"

text \<open>\<^verbatim>\<open>000_create_schema_migrations.sql\<close>\<close>

definition create_tracking_table :: "AppliedMigration list option \<Rightarrow> AppliedMigration list option" where
  "create_tracking_table rows = (case rows of None \<Rightarrow> Some [] | Some rs \<Rightarrow> Some rs)"

definition raw_sql :: "'d mig_env \<Rightarrow> Migration \<Rightarrow> 'd tables \<Rightarrow> 'd tables option" where
  "raw_sql e m = (\<lambda>(d, rows). if mig_version m = ''000'' then Some (d, create_tracking_table rows)
     else map_option (\<lambda>d. (d, rows)) (me_exec e (mig_sql m) d))"

definition checksum :: "'d mig_env \<Rightarrow> Migration \<Rightarrow> string" where
  "checksum e m = me_sha256 e (mig_sql m)"

section \<open>Statements\<close>

text \<open>A statement outside a transaction, and one on the view of the open transaction: if that fails, the transaction is rolled back.\<close>

definition statement :: "'d mig_env \<Rightarrow> ('d mig_state \<Rightarrow> ('a \<times> 'd mig_state) option) \<Rightarrow> ('d, 'a) mig_op" where
  "statement e f s = (let s1 = s\<lparr>ms_calls := ms_calls s + 1\<rparr> in
     case (me_fate e (ms_calls s), f s1) of
       (Done, Some (x, t)) \<Rightarrow> Ok x t
     | (Unacked, Some (x, t)) \<Rightarrow> Err Statement_Failed t
     | _ \<Rightarrow> Err Statement_Failed s1)"

definition begin_tx :: "'d mig_env \<Rightarrow> ('d, unit) mig_op" where
  "begin_tx e s = (let s1 = s\<lparr>ms_calls := ms_calls s + 1\<rparr> in
     case me_fate e (ms_calls s) of Done \<Rightarrow> Ok () (s1\<lparr>ms_tx := Some (ms_tables s)\<rparr>) | _ \<Rightarrow> Err Statement_Failed s1)"

definition tx_statement :: "'d mig_env \<Rightarrow> ('d tables \<Rightarrow> 'd tables option) \<Rightarrow> ('d, unit) mig_op" where
  "tx_statement e f s = (let s1 = s\<lparr>ms_calls := ms_calls s + 1\<rparr> in
     case (me_fate e (ms_calls s), Option.bind (ms_tx s) f) of
       (Done, Some t) \<Rightarrow> Ok () (s1\<lparr>ms_tx := Some t\<rparr>)
     | _ \<Rightarrow> Err Statement_Failed (s1\<lparr>ms_tx := None\<rparr>))"

definition commit :: "'d mig_env \<Rightarrow> ('d, unit) mig_op" where
  "commit e s = (let s1 = s\<lparr>ms_calls := ms_calls s + 1, ms_tx := None\<rparr>;
       s2 = (case ms_tx s of Some t \<Rightarrow> s1\<lparr>ms_tables := t\<rparr> | None \<Rightarrow> s1) in
     case me_fate e (ms_calls s) of Done \<Rightarrow> Ok () s2 | Unacked \<Rightarrow> Err Statement_Failed s2 | Lost \<Rightarrow> Err Statement_Failed s1)"

section \<open>The runner\<close>

definition bootstrap :: "'d mig_env \<Rightarrow> Migration option" where
  "bootstrap e = find_migration e ''000''"

definition ensure_tracking_table :: "'d mig_env \<Rightarrow> ('d, unit) mig_op" where
  "ensure_tracking_table e = bnd (some_or_trap (bootstrap e)) (\<lambda>m.
     statement e (\<lambda>s. map_option (\<lambda>t. ((), s\<lparr>ms_tables := t\<rparr>)) (raw_sql e m (ms_tables s))))"

definition is_applied :: "'d mig_env \<Rightarrow> string \<Rightarrow> ('d, bool) mig_op" where
  "is_applied e version = statement e (\<lambda>s. map_option (\<lambda>rs. (list_ex (\<lambda>r. am_version r = version) rs, s)) (snd (ms_tables s)))"

definition insert_row :: "AppliedMigration \<Rightarrow> AppliedMigration list \<Rightarrow> AppliedMigration list" where
  "insert_row row rs = (if list_ex (\<lambda>r. am_version r = am_version row) rs then rs else rs @ [row])"

definition apply_migration :: "'d mig_env \<Rightarrow> Migration \<Rightarrow> ('d, unit) mig_op" where
  "apply_migration e m = thn (begin_tx e) (thn (tx_statement e (raw_sql e m))
     (thn (doif (mig_version m \<noteq> ''000'') (bnd (reads ms_calls) (\<lambda>n. tx_statement e (\<lambda>(d, rows). map_option (\<lambda>rs. (d, Some
        (insert_row \<lparr> am_version = mig_version m, am_name = mig_name m, am_applied_at = me_now e n, am_checksum = checksum e m \<rparr> rs))) rows))))
     (commit e)))"

definition status :: "'d mig_env \<Rightarrow> ('d, AppliedMigration list) mig_op" where
  "status e = thn (ensure_tracking_table e)
     (statement e (\<lambda>s. map_option (\<lambda>rs. (sort_key am_version rs, s)) (snd (ms_tables s))))"

definition verify_checksums :: "'d mig_env \<Rightarrow> ('d, unit) mig_op" where
  "verify_checksums e = bnd (statement e (\<lambda>s. map_option (\<lambda>rs. (sort_key am_version rs, s)) (snd (ms_tables s)))) (\<lambda>applied.
     for_each applied (\<lambda>r. case find_migration e (am_version r) of
       None \<Rightarrow> ret ()
     | Some m \<Rightarrow> err_if (checksum e m \<noteq> am_checksum r) (Checksum_Mismatch (am_version r))))"

fun apply_pending :: "'d mig_env \<Rightarrow> Migration list \<Rightarrow> nat \<Rightarrow> ('d, nat) mig_op" where
  "apply_pending e [] applied = ret applied"
| "apply_pending e (m # ms) applied = bnd (is_applied e (mig_version m)) (\<lambda>yes.
     if yes then apply_pending e ms applied else thn (apply_migration e m) (apply_pending e ms (applied + 1)))"

definition run_inner :: "'d mig_env \<Rightarrow> ('d, nat) mig_op" where
  "run_inner e = thn (verify_checksums e) (apply_pending e (MIGRATIONS e) 0)"

definition print_pending :: "Migration \<Rightarrow> string" where
  "print_pending m = ''-- [DRY RUN] migration '' @ mig_version m @ '' ('' @ mig_name m @ '')'' @ [CHR 0x0A] @ mig_sql m @ [CHR 0x0A, CHR 0x0A]"

definition dry_run :: "'d mig_env \<Rightarrow> ('d, nat) mig_op" where
  "dry_run e = thn (ensure_tracking_table e) (thn (for_each (MIGRATIONS e) (\<lambda>m. bnd (is_applied e (mig_version m)) (\<lambda>yes.
     doif (\<not> yes) (modify (\<lambda>s. s\<lparr>ms_printed := ms_printed s @ [print_pending m]\<rparr>))))) (ret 0))"

text \<open>The lock belongs to the session of the acquired connection, not to the pool's other connections.\<close>

definition try_lock :: "'d mig_env \<Rightarrow> ('d, bool) mig_op" where
  "try_lock e = statement e (\<lambda>s. Some (case ms_lock s of
     None \<Rightarrow> (True, s\<lparr>ms_lock := Some (me_session e)\<rparr>)
   | Some owner \<Rightarrow> (owner = me_session e, s)))"

definition unlock :: "'d mig_env \<Rightarrow> ('d, unit) mig_op" where
  "unlock e = statement e (\<lambda>s. Some ((), if ms_lock s = Some (me_session e) then s\<lparr>ms_lock := None\<rparr> else s))"

definition released :: "'d mig_env \<Rightarrow> ('d, 'a) mig_op \<Rightarrow> ('d, 'a) mig_op" where
  "released e m s = (case m s of
     Ok x t \<Rightarrow> (case unlock e t of Ok _ u \<Rightarrow> Ok x u | Err _ u \<Rightarrow> Ok x u | Trap \<Rightarrow> Trap)
   | Err err t \<Rightarrow> (case unlock e t of Ok _ u \<Rightarrow> Err err u | Err _ u \<Rightarrow> Err err u | Trap \<Rightarrow> Trap)
   | Trap \<Rightarrow> Trap)"

definition run :: "'d mig_env \<Rightarrow> ('d, nat) mig_op" where
  "run e = (if is_dry_run (me_environment e) then dry_run e
     else thn (ensure_tracking_table e) (thn (statement e (\<lambda>s. Some ((), s))) (bnd (try_lock e) (\<lambda>locked.
       if \<not> locked then fail Lock_Held else released e (run_inner e)))))"

section \<open>One migration: all of it or nothing\<close>

text \<open>The database after a migration that was committed at call \<open>n\<close>.\<close>

definition migrated :: "'d mig_env \<Rightarrow> Migration \<Rightarrow> nat \<Rightarrow> 'd tables \<Rightarrow> 'd tables option" where
  "migrated e m n = (\<lambda>(d, rows). if mig_version m = ''000'' then Some (d, create_tracking_table rows)
     else Option.bind rows (\<lambda>rs. map_option (\<lambda>d'. (d', Some (insert_row
       \<lparr> am_version = mig_version m, am_name = mig_name m, am_applied_at = me_now e n, am_checksum = checksum e m \<rparr> rs))) (me_exec e (mig_sql m) d)))"

text \<open>
  \<open>ends m s E Q\<close>: from the state \<open>s\<close> the operation \<open>m\<close> does not get stuck; if it succeeds then \<open>Q\<close> holds of its value and of the state it leaves,
  and if it fails \<open>E\<close> holds of the state it leaves.
\<close>

definition ends :: "('s, 'e, 'a) comp \<Rightarrow> 's \<Rightarrow> ('s \<Rightarrow> bool) \<Rightarrow> ('a \<Rightarrow> 's \<Rightarrow> bool) \<Rightarrow> bool" where
  "ends m s E Q \<longleftrightarrow> (case m s of Ok x t \<Rightarrow> Q x t | Err _ t \<Rightarrow> E t | Trap \<Rightarrow> False)"

lemma ends_bnd: "ends m s E P \<Longrightarrow> (\<And>x t. P x t \<Longrightarrow> ends (f x) t E Q) \<Longrightarrow> ends (bnd m f) s E Q"
  by (cases "m s") (simp_all add: ends_def bnd_def)

lemma ends_thn: "ends m s E P \<Longrightarrow> (\<And>t. P () t \<Longrightarrow> ends k t E Q) \<Longrightarrow> ends (thn m k) s E Q"
  unfolding thn_def by (erule ends_bnd) (simp add: old.unit.exhaust)

lemma ends_reads: "ends (f (g s)) s E Q \<Longrightarrow> ends (bnd (reads g) f) s E Q"
  by (simp add: ends_def bnd_def reads_def)

lemma ends_ret: "Q x s \<Longrightarrow> ends (ret x) s E Q"
  by (simp add: ends_def ret_def)

lemma ends_doif: "(b \<Longrightarrow> ends m s E Q) \<Longrightarrow> (\<not> b \<Longrightarrow> Q () s) \<Longrightarrow> ends (doif b m) s E Q"
  by (simp add: doif_def ends_ret)

lemma ends_weaken: "ends m s E Q \<Longrightarrow> (\<And>t. E t \<Longrightarrow> E' t) \<Longrightarrow> (\<And>x t. Q x t \<Longrightarrow> Q' x t) \<Longrightarrow> ends m s E' Q'"
  by (cases "m s") (simp_all add: ends_def)

lemma ends_cases:
  assumes "ends m s E Q"
  obtains x t where "m s = Ok x t" "Q x t" | err t where "m s = Err err t" "E t"
  using assms by (auto simp: ends_def split: res.splits)

lemma ends_statement:
  assumes "\<And>x t. f (s\<lparr>ms_calls := ms_calls s + 1\<rparr>) = Some (x, t) \<Longrightarrow> Q x t \<and> E t" "E (s\<lparr>ms_calls := ms_calls s + 1\<rparr>)"
  shows "ends (statement e f) s E Q"
  using assms by (auto simp: ends_def statement_def Let_def split: fate.splits option.splits)

lemma ends_begin:
  assumes "E (s\<lparr>ms_calls := ms_calls s + 1\<rparr>)" "Q () (s\<lparr>ms_calls := ms_calls s + 1, ms_tx := Some (ms_tables s)\<rparr>)"
  shows "ends (begin_tx e) s E Q"
  using assms by (auto simp: ends_def begin_tx_def Let_def split: fate.splits)

lemma ends_tx_statement:
  assumes "E (s\<lparr>ms_calls := ms_calls s + 1, ms_tx := None\<rparr>)"
    "\<And>t. Option.bind (ms_tx s) f = Some t \<Longrightarrow> Q () (s\<lparr>ms_calls := ms_calls s + 1, ms_tx := Some t\<rparr>)"
  shows "ends (tx_statement e f) s E Q"
  using assms by (auto simp: ends_def tx_statement_def Let_def split: fate.splits option.splits)

lemma ends_commit:
  assumes "ms_tx s = Some t" "E (s\<lparr>ms_calls := ms_calls s + 1, ms_tx := None\<rparr>)" "E (s\<lparr>ms_calls := ms_calls s + 1, ms_tx := None, ms_tables := t\<rparr>)"
    "Q () (s\<lparr>ms_calls := ms_calls s + 1, ms_tx := None, ms_tables := t\<rparr>)"
  shows "ends (commit e) s E Q"
  using assms by (auto simp: ends_def commit_def Let_def split: fate.splits)

text \<open>A migration leaves the database alone or takes it whole, and it does not touch the lock; if it succeeds it was taken.\<close>

lemma apply_migration_atomic:
  "ends (apply_migration e m) s
     (\<lambda>t. ms_lock t = ms_lock s \<and> (ms_tables t = ms_tables s \<or> (\<exists>n. migrated e m n (ms_tables s) = Some (ms_tables t))))
     (\<lambda>_ t. ms_lock t = ms_lock s \<and> (\<exists>n. migrated e m n (ms_tables s) = Some (ms_tables t)))"
  (is "ends _ _ ?E ?Q")
proof -
  let ?ok = "\<lambda>t. ms_lock t = ms_lock s \<and> ms_tables t = ms_tables s"
  have E: "?E t" if "?ok t" for t using that by simp
  have 3: "ends (commit e) t ?E ?Q" if "?ok t" "\<exists>n. migrated e m n (ms_tables s) = ms_tx t" "ms_tx t \<noteq> None" for t
    using that by (auto intro!: ends_commit)
  have 2: "ends (doif (mig_version m \<noteq> ''000'') (bnd (reads ms_calls) (\<lambda>n. tx_statement e (\<lambda>(d, rows). map_option (\<lambda>rs. (d, Some
        (insert_row \<lparr> am_version = mig_version m, am_name = mig_name m, am_applied_at = me_now e n, am_checksum = checksum e m \<rparr> rs))) rows)))) t ?E
      (\<lambda>_ t. ?ok t \<and> (\<exists>n. migrated e m n (ms_tables s) = ms_tx t) \<and> ms_tx t \<noteq> None)"
    if t: "?ok t" "ms_tx t = raw_sql e m (ms_tables s)" "ms_tx t \<noteq> None" for t
  proof (rule ends_doif)
    obtain d rows where T: "ms_tables s = (d, rows)" by fastforce
    assume other: "mig_version m \<noteq> ''000''"
    then obtain d' where d': "me_exec e (mig_sql m) d = Some d'" "ms_tx t = Some (d', rows)" using t(2,3) T by (auto simp: raw_sql_def)
    show "ends (bnd (reads ms_calls) (\<lambda>n. tx_statement e (\<lambda>(d, rows). map_option (\<lambda>rs. (d, Some
        (insert_row \<lparr> am_version = mig_version m, am_name = mig_name m, am_applied_at = me_now e n, am_checksum = checksum e m \<rparr> rs))) rows))) t ?E
      (\<lambda>_ t. ?ok t \<and> (\<exists>n. migrated e m n (ms_tables s) = ms_tx t) \<and> ms_tx t \<noteq> None)"
    proof (intro ends_reads ends_tx_statement)
      fix t' assume "Option.bind (ms_tx t) (\<lambda>(d, rows). map_option (\<lambda>rs. (d, Some (insert_row
        \<lparr> am_version = mig_version m, am_name = mig_name m, am_applied_at = me_now e (ms_calls t), am_checksum = checksum e m \<rparr> rs))) rows) = Some t'"
      with d' other T have "migrated e m (ms_calls t) (ms_tables s) = Some t'" by (auto simp: migrated_def)
      then show "?ok (t\<lparr>ms_calls := ms_calls t + 1, ms_tx := Some t'\<rparr>) \<and>
          (\<exists>n. migrated e m n (ms_tables s) = ms_tx (t\<lparr>ms_calls := ms_calls t + 1, ms_tx := Some t'\<rparr>)) \<and>
          ms_tx (t\<lparr>ms_calls := ms_calls t + 1, ms_tx := Some t'\<rparr>) \<noteq> None"
        using t(1) by auto
    qed (use t(1) in simp)
  next
    assume "\<not> mig_version m \<noteq> ''000''"
    then show "?ok t \<and> (\<exists>n. migrated e m n (ms_tables s) = ms_tx t) \<and> ms_tx t \<noteq> None"
      using t by (auto simp: raw_sql_def migrated_def split: prod.splits)
  qed
  have 1: "ends (tx_statement e (raw_sql e m)) t ?E (\<lambda>_ t. ?ok t \<and> ms_tx t = raw_sql e m (ms_tables s) \<and> ms_tx t \<noteq> None)"
    if "?ok t" "ms_tx t = Some (ms_tables s)" for t
    using that by (intro ends_tx_statement) auto
  have 0: "ends (begin_tx e) s ?E (\<lambda>_ t. ?ok t \<and> ms_tx t = Some (ms_tables s))" by (rule ends_begin) auto
  show ?thesis unfolding apply_migration_def
    by (rule ends_thn [OF 0], rule ends_thn, rule 1, blast, blast, rule ends_thn, rule 2, blast, blast, blast, rule 3; blast)
qed

section \<open>The database is what the tracking table says\<close>

text \<open>The recorded migrations, carried out one after the other.\<close>

fun replay :: "'d mig_env \<Rightarrow> AppliedMigration list \<Rightarrow> 'd \<Rightarrow> 'd option" where
  "replay e [] d = Some d"
| "replay e (r # rs) d = (case find_migration e (am_version r) of None \<Rightarrow> None
     | Some m \<Rightarrow> Option.bind (me_exec e (mig_sql m) d) (replay e rs))"

definition tables_ok :: "'d mig_env \<Rightarrow> 'd \<Rightarrow> 'd tables \<Rightarrow> bool" where
  "tables_ok e orig = (\<lambda>(d, rows). case rows of None \<Rightarrow> d = orig
     | Some rs \<Rightarrow> replay e rs orig = Some d \<and> distinct (map am_version rs) \<and>
         list_all (\<lambda>r. am_version r \<noteq> ''000'' \<and> map_option (\<lambda>m. (mig_name m, checksum e m)) (find_migration e (am_version r)) = Some (am_name r, am_checksum r)) rs)"

lemma replay_append: "replay e (rs @ rs') d = Option.bind (replay e rs d) (replay e rs')"
  by (induction rs arbitrary: d) (auto split: option.splits bind_splits)

lemma versions_distinct: "distinct (map mig_version (MIGRATIONS e))"
  by (simp add: MIGRATIONS_def MIGRATION_FILES_def)

lemma find_distinct: "distinct (map f xs) \<Longrightarrow> x \<in> set xs \<Longrightarrow> find (\<lambda>y. f y = f x) xs = Some x"
proof (induction xs)
  case (Cons y ys)
  then show ?case by (cases "f y = f x") (force simp: rev_image_eqI)+
qed simp

lemma find_own: "m \<in> set (MIGRATIONS e) \<Longrightarrow> find_migration e (mig_version m) = Some m"
  unfolding find_migration_def by (rule find_distinct [OF versions_distinct])

lemma migrated_ok:
  assumes "tables_ok e orig T" "m \<in> set (MIGRATIONS e)" "snd T = Some rs" "\<not> list_ex (\<lambda>r. am_version r = mig_version m) rs"
    "migrated e m n T = Some T'"
  shows "tables_ok e orig T'"
proof (cases "mig_version m = ''000''")
  case True
  with assms show ?thesis by (cases T) (auto simp: migrated_def create_tracking_table_def)
next
  case False
  obtain d where T: "T = (d, Some rs)" using assms(3) by (cases T) simp
  then obtain d' where d': "me_exec e (mig_sql m) d = Some d'" using False assms(5) by (auto simp: migrated_def)
  let ?row = "\<lparr> am_version = mig_version m, am_name = mig_name m, am_applied_at = me_now e n, am_checksum = checksum e m \<rparr>"
  have T': "T' = (d', Some (rs @ [?row]))" using False assms(4,5) T d' by (simp add: migrated_def insert_row_def)
  have "mig_version m \<notin> am_version ` set rs" using assms(4) by (auto simp: list_ex_iff)
  moreover have "replay e rs orig = Some d" using assms(1) T by (simp add: tables_ok_def)
  ultimately show ?thesis using assms(1) T find_own [OF assms(2)] False d'
    by (auto simp: tables_ok_def T' replay_append)
qed

lemma ends_is_applied:
  "ends (is_applied e version) s (\<lambda>t. ms_tables t = ms_tables s \<and> ms_lock t = ms_lock s)
    (\<lambda>yes t. ms_tables t = ms_tables s \<and> ms_lock t = ms_lock s \<and>
       (\<exists>rs. snd (ms_tables s) = Some rs \<and> yes = list_ex (\<lambda>r. am_version r = version) rs))"
  unfolding is_applied_def by (rule ends_statement) auto

lemma ends_apply_pending:
  fixes e :: "'d mig_env"
  assumes "set ms \<subseteq> set (MIGRATIONS e)" "tables_ok e orig (ms_tables s)" "ms_lock s = l"
  shows "ends (apply_pending e ms applied) s (\<lambda>t. tables_ok e orig (ms_tables t) \<and> ms_lock t = l) (\<lambda>_ t. tables_ok e orig (ms_tables t) \<and> ms_lock t = l)"
  using assms
proof (induction ms arbitrary: applied s)
  case Nil
  then show ?case by (simp add: ends_ret)
next
  case (Cons m ms)
  show ?case unfolding apply_pending.simps
  proof (rule ends_bnd)
    show "ends (is_applied e (mig_version m)) s (\<lambda>t. tables_ok e orig (ms_tables t) \<and> ms_lock t = l)
        (\<lambda>yes t. ms_tables t = ms_tables s \<and> ms_lock t = l \<and> (\<exists>rs. snd (ms_tables s) = Some rs \<and> yes = list_ex (\<lambda>r. am_version r = mig_version m) rs))"
      using ends_is_applied [of e "mig_version m" s] Cons.prems by (auto simp: ends_def split: res.splits)
    fix yes and t :: "'d mig_state"
    assume t: "ms_tables t = ms_tables s \<and> ms_lock t = l \<and> (\<exists>rs. snd (ms_tables s) = Some rs \<and> yes = list_ex (\<lambda>r. am_version r = mig_version m) rs)"
    show "ends (if yes then apply_pending e ms applied else thn (apply_migration e m) (apply_pending e ms (applied + 1))) t
        (\<lambda>t. tables_ok e orig (ms_tables t) \<and> ms_lock t = l) (\<lambda>_ t. tables_ok e orig (ms_tables t) \<and> ms_lock t = l)"
    proof (cases yes)
      case True
      with Cons t show ?thesis by simp
    next
      case False
      then obtain rs where rs: "snd (ms_tables t) = Some rs" "\<not> list_ex (\<lambda>r. am_version r = mig_version m) rs" using t by auto
      have ok: "tables_ok e orig T'" if "migrated e m n (ms_tables t) = Some T'" for n T'
        using migrated_ok [OF _ _ rs that] Cons.prems(1,2) t by simp
      have "ends (apply_migration e m) t (\<lambda>u. tables_ok e orig (ms_tables u) \<and> ms_lock u = l) (\<lambda>_ u. tables_ok e orig (ms_tables u) \<and> ms_lock u = l)"
      proof (rule ends_weaken [OF apply_migration_atomic])
        fix u :: "'d mig_state"
        assume "ms_lock u = ms_lock t \<and> (ms_tables u = ms_tables t \<or> (\<exists>n. migrated e m n (ms_tables t) = Some (ms_tables u)))"
        then show "tables_ok e orig (ms_tables u) \<and> ms_lock u = l" using ok Cons.prems(2) t by metis
      next
        fix x and u :: "'d mig_state"
        assume "ms_lock u = ms_lock t \<and> (\<exists>n. migrated e m n (ms_tables t) = Some (ms_tables u))"
        then show "tables_ok e orig (ms_tables u) \<and> ms_lock u = l" using ok t by metis
      qed
      then show ?thesis using False Cons by (auto intro: ends_thn)
    qed
  qed
qed

definition matches :: "'d mig_env \<Rightarrow> AppliedMigration \<Rightarrow> bool" where
  "matches e r \<longleftrightarrow> (case find_migration e (am_version r) of None \<Rightarrow> True | Some m \<Rightarrow> checksum e m = am_checksum r)"

lemma ends_check_rows:
  "ends (for_each rs (\<lambda>r. case find_migration e (am_version r) of None \<Rightarrow> ret ()
     | Some m \<Rightarrow> err_if (checksum e m \<noteq> am_checksum r) (Checksum_Mismatch (am_version r)))) s (\<lambda>t. t = s) (\<lambda>_ t. t = s \<and> list_all (matches e) rs)"
  by (induction rs) (auto simp: ends_def thn_def bnd_def ret_def err_if_def fail_def matches_def split: option.splits res.splits)

lemma ends_verify:
  fixes e :: "'d mig_env"
  shows
  "ends (verify_checksums e) s (\<lambda>t. ms_tables t = ms_tables s \<and> ms_lock t = ms_lock s)
    (\<lambda>_ t. ms_tables t = ms_tables s \<and> ms_lock t = ms_lock s \<and> (\<exists>rs. snd (ms_tables s) = Some rs \<and> list_all (matches e) rs))"
proof -
  have "ends (statement e (\<lambda>s. map_option (\<lambda>rs. (sort_key am_version rs, s)) (snd (ms_tables s)))) s
      (\<lambda>t. ms_tables t = ms_tables s \<and> ms_lock t = ms_lock s)
      (\<lambda>x t. ms_tables t = ms_tables s \<and> ms_lock t = ms_lock s \<and> (\<exists>rs. snd (ms_tables s) = Some rs \<and> x = sort_key am_version rs))"
    by (rule ends_statement) auto
  then show ?thesis unfolding verify_checksums_def
  proof (rule ends_bnd)
    fix x and t :: "'d mig_state"
    assume t: "ms_tables t = ms_tables s \<and> ms_lock t = ms_lock s \<and> (\<exists>rs. snd (ms_tables s) = Some rs \<and> x = sort_key am_version rs)"
    then obtain rs where "snd (ms_tables s) = Some rs" "x = sort_key am_version rs" by blast
    with t ends_check_rows [of x e t]
    show "ends (for_each x (\<lambda>r. case find_migration e (am_version r) of None \<Rightarrow> ret ()
       | Some m \<Rightarrow> err_if (checksum e m \<noteq> am_checksum r) (Checksum_Mismatch (am_version r)))) t
       (\<lambda>t. ms_tables t = ms_tables s \<and> ms_lock t = ms_lock s)
       (\<lambda>_ t. ms_tables t = ms_tables s \<and> ms_lock t = ms_lock s \<and> (\<exists>rs. snd (ms_tables s) = Some rs \<and> list_all (matches e) rs))"
      by (auto simp: ends_def list_all_iff split: res.splits)
  qed
qed

lemma ends_ensure:
  "ends (ensure_tracking_table e) s
    (\<lambda>t. ms_tables t \<in> {ms_tables s, (fst (ms_tables s), create_tracking_table (snd (ms_tables s)))} \<and> ms_lock t = ms_lock s)
    (\<lambda>_ t. ms_tables t = (fst (ms_tables s), create_tracking_table (snd (ms_tables s))) \<and> ms_lock t = ms_lock s)"
proof -
  have boot: "bootstrap e = Some \<lparr> mig_version = ''000'', mig_name = ''000_create_schema_migrations'', mig_sql = me_text e ''000_create_schema_migrations'' \<rparr>"
    by (simp add: bootstrap_def find_migration_def MIGRATIONS_def MIGRATION_FILES_def)
  show ?thesis unfolding ensure_tracking_table_def boot
    by (cases "ms_tables s") (auto simp: ends_def bnd_def some_or_trap_def ret_def statement_def raw_sql_def Let_def split: fate.split)
qed

lemma tables_ok_create: "tables_ok e orig T \<Longrightarrow> tables_ok e orig (fst T, create_tracking_table (snd T))"
  by (cases T) (auto simp: tables_ok_def create_tracking_table_def split: option.splits)

lemma ends_released:
  assumes "ends m s E Q" "\<And>t u. E t \<Longrightarrow> ms_tables u = ms_tables t \<Longrightarrow> E' u" "\<And>x t u. Q x t \<Longrightarrow> ms_tables u = ms_tables t \<Longrightarrow> Q' x u"
  shows "ends (released e m) s E' Q'"
proof -
  have u: "ends (unlock e) t (\<lambda>u. ms_tables u = ms_tables t) (\<lambda>_ u. ms_tables u = ms_tables t)" for t :: "'a mig_state"
    unfolding unlock_def by (rule ends_statement) auto
  show ?thesis using assms(1)
  proof (rule ends_cases)
    fix x t assume t: "m s = Ok x t" "Q x t"
    from u [of t] show ?thesis by (rule ends_cases) (use t assms(3) in \<open>simp_all add: ends_def released_def\<close>)
  next
    fix err t assume t: "m s = Err err t" "E t"
    from u [of t] show ?thesis by (rule ends_cases) (use t assms(2) in \<open>simp_all add: ends_def released_def\<close>)
  qed
qed

lemma ends_dry_run:
  fixes e :: "'d mig_env"
  shows "ends (dry_run e) s
    (\<lambda>t. ms_tables t \<in> {ms_tables s, (fst (ms_tables s), create_tracking_table (snd (ms_tables s)))} \<and> ms_lock t = ms_lock s)
    (\<lambda>n t. n = 0 \<and> ms_tables t = (fst (ms_tables s), create_tracking_table (snd (ms_tables s))) \<and> ms_lock t = ms_lock s)"
  (is "ends _ _ ?E ?Q")
proof -
  have each: "ends (for_each ms (\<lambda>m. bnd (is_applied e (mig_version m)) (\<lambda>yes.
      doif (\<not> yes) (modify (\<lambda>s. s\<lparr>ms_printed := ms_printed s @ [print_pending m]\<rparr>))))) t
      (\<lambda>u. ms_tables u = ms_tables t \<and> ms_lock u = ms_lock t) (\<lambda>_ u. ms_tables u = ms_tables t \<and> ms_lock u = ms_lock t)" for ms t
  proof (induction ms arbitrary: t)
    case (Cons m ms)
    show ?case unfolding for_each.simps
    proof (rule ends_thn)
      show "ends (bnd (is_applied e (mig_version m)) (\<lambda>yes. doif (\<not> yes) (modify (\<lambda>s. s\<lparr>ms_printed := ms_printed s @ [print_pending m]\<rparr>)))) t
          (\<lambda>u. ms_tables u = ms_tables t \<and> ms_lock u = ms_lock t) (\<lambda>_ u. ms_tables u = ms_tables t \<and> ms_lock u = ms_lock t)"
        by (rule ends_bnd [OF ends_is_applied]) (auto simp: ends_def modify_def doif_def ret_def)
    next
      fix u :: "'d mig_state"
      assume "ms_tables u = ms_tables t \<and> ms_lock u = ms_lock t"
      with Cons.IH [of u] show "ends (for_each ms (\<lambda>m. bnd (is_applied e (mig_version m)) (\<lambda>yes.
          doif (\<not> yes) (modify (\<lambda>s. s\<lparr>ms_printed := ms_printed s @ [print_pending m]\<rparr>))))) u
        (\<lambda>u. ms_tables u = ms_tables t \<and> ms_lock u = ms_lock t) (\<lambda>_ u. ms_tables u = ms_tables t \<and> ms_lock u = ms_lock t)" by simp
    qed
  qed (simp add: ends_ret)
  show ?thesis unfolding dry_run_def
  proof (rule ends_thn [OF ends_ensure])
    fix t :: "'d mig_state"
    assume t: "ms_tables t = (fst (ms_tables s), create_tracking_table (snd (ms_tables s))) \<and> ms_lock t = ms_lock s"
    show "ends (thn (for_each (MIGRATIONS e) (\<lambda>m. bnd (is_applied e (mig_version m)) (\<lambda>yes.
      doif (\<not> yes) (modify (\<lambda>s. s\<lparr>ms_printed := ms_printed s @ [print_pending m]\<rparr>))))) (ret 0)) t ?E ?Q"
      by (rule ends_thn [OF ends_weaken [OF each]]) (use t in \<open>auto intro!: ends_ret\<close>)
  qed
qed

section \<open>The runner\<close>

lemma run_ok:
  assumes "tables_ok e orig (ms_tables s)"
  shows "ends (run e) s (\<lambda>t. tables_ok e orig (ms_tables t)) (\<lambda>_ t. tables_ok e orig (ms_tables t))"
proof (cases "is_dry_run (me_environment e)")
  case True
  then show ?thesis using tables_ok_create [OF assms] assms
    by (auto simp: run_def intro!: ends_weaken [OF ends_dry_run])
next
  case False
  have inner: "ends (run_inner e) t (\<lambda>u. tables_ok e orig (ms_tables u)) (\<lambda>_ u. tables_ok e orig (ms_tables u))"
    if "tables_ok e orig (ms_tables t)" for t
    unfolding run_inner_def
    by (rule ends_thn [OF ends_weaken [OF ends_verify]])
      (use that in \<open>auto intro!: ends_weaken [OF ends_apply_pending [where orig = orig, OF subset_refl]]\<close>)
  have plain: "ends (statement e (\<lambda>s. Some ((), s))) t (\<lambda>u. tables_ok e orig (ms_tables u)) (\<lambda>_ u. tables_ok e orig (ms_tables u))"
    if "tables_ok e orig (ms_tables t)" for t
    by (rule ends_statement) (use that in auto)
  have lock: "ends (try_lock e) t (\<lambda>u. tables_ok e orig (ms_tables u)) (\<lambda>_ u. tables_ok e orig (ms_tables u))"
    if "tables_ok e orig (ms_tables t)" for t
    unfolding try_lock_def by (rule ends_statement) (use that in \<open>auto split: option.splits\<close>)
  have locked: "ends (if \<not> locked then fail Lock_Held else released e (run_inner e)) t (\<lambda>u. tables_ok e orig (ms_tables u)) (\<lambda>_ u. tables_ok e orig (ms_tables u))"
    if "tables_ok e orig (ms_tables t)" for locked t
    using that by (auto simp: ends_def fail_def split: if_split) (use ends_released [OF inner [OF that], of _ _ e] in \<open>simp add: ends_def\<close>)
  show ?thesis unfolding run_def if_not_P [OF False]
    by (rule ends_thn [OF ends_weaken [OF ends_ensure]])
      (use assms tables_ok_create [OF assms] in \<open>auto intro!: ends_thn [OF plain] ends_bnd [OF lock] locked\<close>)
qed

text \<open>
  C12. Whatever happens during a run, at whichever statement it fails and whether or not a commit is acknowledged: afterwards the database is what the
  recorded migrations make of the original one, each of them recorded once, with the name and checksum of the embedded file.  So a run that
  failed can be repeated.
\<close>

theorem run_keeps_history:
  assumes "tables_ok e orig (ms_tables s)"
  shows "ends (run e) s (\<lambda>t. tables_ok e orig (ms_tables t)) (\<lambda>_ t. tables_ok e orig (ms_tables t))"
  using assms by (rule run_ok)

text \<open>A run that finds a recorded migration whose embedded file has changed fails before it changes anything.\<close>

lemma ends_never: "ends m s E (\<lambda>_ _. False) \<Longrightarrow> \<exists>err t. m s = Err err t \<and> E t"
  by (auto simp: ends_def split: res.splits)

lemma ends_lock:
  "ends (try_lock e) s (\<lambda>t. ms_tables t = ms_tables s)
    (\<lambda>locked t. ms_tables t = ms_tables s \<and> (\<forall>owner. ms_lock s = Some owner \<longrightarrow> ms_lock t = ms_lock s \<and> locked = (owner = me_session e)))"
  unfolding try_lock_def by (rule ends_statement) (auto split: option.splits)

lemma ends_acquire:
  "ends (statement e (\<lambda>s. Some ((), s))) s (\<lambda>t. ms_tables t = ms_tables s \<and> ms_lock t = ms_lock s)
    (\<lambda>_ t. ms_tables t = ms_tables s \<and> ms_lock t = ms_lock s)"
  by (rule ends_statement) auto

lemma created_some [simp]: "create_tracking_table (Some rs) = Some rs"
  by (simp add: create_tracking_table_def)

theorem tampered_migration_stops_run:
  fixes e :: "'d mig_env"
  assumes "\<not> is_dry_run (me_environment e)" "snd (ms_tables s) = Some rs" "\<not> list_all (matches e) rs"
  shows "\<exists>err t. run e s = Err err t \<and> ms_tables t = ms_tables s"
proof -
  have same: "(fst (ms_tables s), create_tracking_table (snd (ms_tables s))) = ms_tables s"
    using assms(2) by (metis created_some prod.collapse)
  have inner: "ends (run_inner e) t (\<lambda>u. ms_tables u = ms_tables s) (\<lambda>_ _. False)" if "ms_tables t = ms_tables s" for t :: "'d mig_state"
    unfolding run_inner_def by (rule ends_thn [OF ends_weaken [OF ends_verify]]) (use that assms(2,3) in auto)
  have rest: "ends (if \<not> locked then fail Lock_Held else released e (run_inner e)) t (\<lambda>u. ms_tables u = ms_tables s) (\<lambda>_ _. False)"
    if "ms_tables t = ms_tables s" for locked and t :: "'d mig_state"
  proof (cases locked)
    case True
    then show ?thesis by (simp, intro ends_released [OF inner]) (use that in auto)
  qed (use that in \<open>simp add: ends_def fail_def\<close>)
  have "ends (run e) s (\<lambda>t. ms_tables t = ms_tables s) (\<lambda>_ _. False)"
    unfolding run_def if_not_P [OF assms(1)]
  proof (rule ends_thn [OF ends_weaken [OF ends_ensure]])
    fix t :: "'d mig_state"
    assume "ms_tables t = ms_tables s"
    then have "ends (statement e (\<lambda>s. Some ((), s))) t (\<lambda>t. ms_tables t = ms_tables s) (\<lambda>_ t. ms_tables t = ms_tables s)"
      by (intro ends_weaken [OF ends_acquire]) auto
    moreover have "ends (bnd (try_lock e) (\<lambda>locked. if \<not> locked then fail Lock_Held else released e (run_inner e))) u
        (\<lambda>t. ms_tables t = ms_tables s) (\<lambda>_ _. False)" if "ms_tables u = ms_tables s" for u
    proof (rule ends_bnd)
      show "ends (try_lock e) u (\<lambda>t. ms_tables t = ms_tables s) (\<lambda>_ t. ms_tables t = ms_tables s)"
        by (rule ends_weaken [OF ends_lock]) (use that in auto)
    qed (rule rest)
    ultimately show "ends (thn (statement e (\<lambda>s. Some ((), s))) (bnd (try_lock e) (\<lambda>locked. if \<not> locked then fail Lock_Held else released e (run_inner e)))) t
        (\<lambda>t. ms_tables t = ms_tables s) (\<lambda>_ _. False)" by (rule ends_thn)
  qed (use same in auto)
  then show ?thesis by (rule ends_never)
qed

text \<open>While another instance holds the lock no migration is applied, and the lock is left to it.\<close>

theorem lock_excludes_runs:
  fixes e :: "'d mig_env"
  assumes "\<not> is_dry_run (me_environment e)" "ms_lock s = Some owner" "owner \<noteq> me_session e"
  shows "\<exists>err t. run e s = Err err t \<and> fst (ms_tables t) = fst (ms_tables s) \<and>
    snd (ms_tables t) \<in> {snd (ms_tables s), create_tracking_table (snd (ms_tables s))}"
proof -
  let ?E = "\<lambda>t. fst (ms_tables t) = fst (ms_tables s) \<and> snd (ms_tables t) \<in> {snd (ms_tables s), create_tracking_table (snd (ms_tables s))}"
  have "ends (run e) s ?E (\<lambda>_ _. False)"
    unfolding run_def if_not_P [OF assms(1)]
  proof (rule ends_thn [OF ends_weaken [OF ends_ensure]])
    fix t :: "'d mig_state"
    assume t: "?E t \<and> ms_lock t = Some owner"
    show "ends (thn (statement e (\<lambda>s. Some ((), s))) (bnd (try_lock e) (\<lambda>locked. if \<not> locked then fail Lock_Held else released e (run_inner e)))) t ?E (\<lambda>_ _. False)"
    proof (rule ends_thn [OF ends_weaken [OF ends_acquire]])
      fix u :: "'d mig_state"
      assume u: "?E u \<and> ms_lock u = Some owner"
      show "ends (bnd (try_lock e) (\<lambda>locked. if \<not> locked then fail Lock_Held else released e (run_inner e))) u ?E (\<lambda>_ _. False)"
        by (rule ends_bnd [OF ends_weaken [OF ends_lock]]) (use u assms(3) in \<open>auto simp: ends_def fail_def\<close>)
    qed (use t in auto)
  qed (use assms(2) in auto)
  then show ?thesis by (rule ends_never)
qed

section \<open>A run on a working server\<close>

definition healthy :: "'d mig_env \<Rightarrow> bool" where
  "healthy e \<longleftrightarrow> (\<forall>n. me_fate e n = Done)"

definition pending :: "AppliedMigration list \<Rightarrow> Migration list \<Rightarrow> Migration list" where
  "pending rs ms = filter (\<lambda>m. \<not> list_ex (\<lambda>r. am_version r = mig_version m) rs) ms"

text \<open>The SQL of the given migrations, one after the other.\<close>

fun deploy :: "'d mig_env \<Rightarrow> Migration list \<Rightarrow> 'd \<Rightarrow> 'd option" where
  "deploy e [] d = Some d"
| "deploy e (m # ms) d = (if mig_version m = ''000'' then deploy e ms d else Option.bind (me_exec e (mig_sql m) d) (deploy e ms))"

definition recorded_versions :: "Migration list \<Rightarrow> string list" where
  "recorded_versions ms = filter (\<lambda>v. v \<noteq> ''000'') (map mig_version ms)"

lemma statement_healthy:
  "healthy e \<Longrightarrow> statement e f s = (case f (s\<lparr>ms_calls := ms_calls s + 1\<rparr>) of Some (x, t) \<Rightarrow> Ok x t
     | None \<Rightarrow> Err Statement_Failed (s\<lparr>ms_calls := ms_calls s + 1\<rparr>))"
  by (simp add: statement_def healthy_def Let_def split: option.split)

lemma apply_healthy:
  assumes "healthy e" "migrated e m (ms_calls s + 2) (ms_tables s) = Some T"
  shows "\<exists>t. apply_migration e m s = Ok () t \<and> ms_tables t = T \<and> ms_lock t = ms_lock s"
proof -
  obtain d rows where T: "ms_tables s = (d, rows)" by fastforce
  have fate: "me_fate e n = Done" for n using assms(1) by (simp add: healthy_def)
  show ?thesis
  proof (cases "mig_version m = ''000''")
    case True
    then show ?thesis using assms(2) T
      by (simp add: apply_migration_def thn_def bnd_def begin_tx_def tx_statement_def commit_def doif_def ret_def raw_sql_def migrated_def fate Let_def)
  next
    case False
    then obtain rs d' where "rows = Some rs" "me_exec e (mig_sql m) d = Some d'" using assms(2) T by (auto simp: migrated_def bind_eq_Some_conv)
    then show ?thesis using assms(2) T False
      by (simp add: apply_migration_def thn_def bnd_def begin_tx_def tx_statement_def commit_def doif_def reads_def raw_sql_def migrated_def fate Let_def)
  qed
qed

lemma is_applied_healthy:
  "healthy e \<Longrightarrow> snd (ms_tables s) = Some rs \<Longrightarrow>
    is_applied e v s = Ok (list_ex (\<lambda>r. am_version r = v) rs) (s\<lparr>ms_calls := ms_calls s + 1\<rparr>)"
  by (simp add: is_applied_def statement_healthy)

lemma pending_after:
  "mig_version m \<notin> mig_version ` set ms \<Longrightarrow> am_version row = mig_version m \<Longrightarrow> pending (rs @ [row]) ms = pending rs ms"
  by (auto simp: pending_def list_ex_iff intro!: filter_cong)

lemma apply_pending_healthy:
  fixes e :: "'d mig_env"
  assumes "healthy e" "distinct (map mig_version ms)" "ms_tables s = (d, Some rs)" "deploy e (pending rs ms) d = Some d'"
  shows "\<exists>t rs'. apply_pending e ms k s = Ok (k + length (pending rs ms)) t \<and> ms_tables t = (d', Some (rs @ rs')) \<and>
    map am_version rs' = recorded_versions (pending rs ms) \<and> ms_lock t = ms_lock s"
  using assms
proof (induction ms arbitrary: k s d rs)
  case Nil
  then show ?case by (simp add: pending_def recorded_versions_def ret_def)
next
  case (Cons m ms)
  let ?s = "s\<lparr>ms_calls := ms_calls s + 1\<rparr>"
  have look: "is_applied e (mig_version m) s = Ok (list_ex (\<lambda>r. am_version r = mig_version m) rs) ?s"
    using is_applied_healthy [OF Cons.prems(1)] Cons.prems(3) by simp
  show ?case
  proof (cases "list_ex (\<lambda>r. am_version r = mig_version m) rs")
    case True
    then have "pending rs (m # ms) = pending rs ms" by (simp add: pending_def)
    then show ?thesis using Cons.IH [of ?s d rs k] Cons.prems look True by (simp add: bnd_def)
  next
    case False
    then have p: "pending rs (m # ms) = m # pending rs ms" by (simp add: pending_def)
    have new: "mig_version m \<notin> mig_version ` set ms" using Cons.prems(2) by simp
    have "\<exists>d1 rs1. migrated e m (ms_calls ?s + 2) (d, Some rs) = Some (d1, Some (rs @ rs1)) \<and> pending (rs @ rs1) ms = pending rs ms \<and>
        deploy e (pending rs ms) d1 = Some d' \<and> map am_version rs1 = recorded_versions [m]"
    proof (cases "mig_version m = ''000''")
      case True
      then show ?thesis using Cons.prems(4) p by (simp add: migrated_def recorded_versions_def)
    next
      case other: False
      then obtain d1 where d1: "me_exec e (mig_sql m) d = Some d1" "deploy e (pending rs ms) d1 = Some d'"
        using Cons.prems(4) p by (auto simp: bind_eq_Some_conv)
      let ?row = "\<lparr> am_version = mig_version m, am_name = mig_name m, am_applied_at = me_now e (ms_calls ?s + 2), am_checksum = checksum e m \<rparr>"
      have "migrated e m (ms_calls ?s + 2) (d, Some rs) = Some (d1, Some (rs @ [?row]))"
        using other d1(1) False by (simp add: migrated_def insert_row_def)
      moreover have "pending (rs @ [?row]) ms = pending rs ms" by (rule pending_after [OF new]) simp
      ultimately show ?thesis using d1(2) other by (intro exI [of _ d1] exI [of _ "[?row]"]) (simp add: recorded_versions_def)
    qed
    then obtain d1 rs1 where one: "migrated e m (ms_calls ?s + 2) (d, Some rs) = Some (d1, Some (rs @ rs1))" "pending (rs @ rs1) ms = pending rs ms"
        "deploy e (pending rs ms) d1 = Some d'" "map am_version rs1 = recorded_versions [m]" by blast
    obtain t where t: "apply_migration e m ?s = Ok () t" "ms_tables t = (d1, Some (rs @ rs1))" "ms_lock t = ms_lock s"
      using apply_healthy [OF Cons.prems(1), of m ?s] one(1) Cons.prems(3) by auto
    obtain u rs2 where u: "apply_pending e ms (k + 1) t = Ok (k + 1 + length (pending rs ms)) u" "ms_tables u = (d', Some ((rs @ rs1) @ rs2))"
        "map am_version rs2 = recorded_versions (pending rs ms)" "ms_lock u = ms_lock t"
      using Cons.IH [OF Cons.prems(1) _ t(2), of "k + 1"] one(2,3) Cons.prems(2) by auto
    have "map am_version (rs1 @ rs2) = recorded_versions (m # pending rs ms)"
      using one(4) u(3) by (simp add: recorded_versions_def)
    moreover have "apply_pending e (m # ms) k s = Ok (k + length (pending rs (m # ms))) u"
      using look False t(1) u(1) p by (simp add: bnd_def thn_def)
    ultimately show ?thesis using u(2,4) t(3) p by (intro exI [of _ u] exI [of _ "rs1 @ rs2"]) simp
  qed
qed

lemma check_rows_ok:
  "list_all (matches e) rs \<Longrightarrow> for_each rs (\<lambda>r. case find_migration e (am_version r) of None \<Rightarrow> ret ()
     | Some m \<Rightarrow> err_if (checksum e m \<noteq> am_checksum r) (Checksum_Mismatch (am_version r))) s = Ok () s"
  by (induction rs) (auto simp: thn_def bnd_def ret_def err_if_def matches_def split: option.splits)

lemma verify_healthy:
  assumes "healthy e" "snd (ms_tables s) = Some rs" "list_all (matches e) rs"
  shows "verify_checksums e s = Ok () (s\<lparr>ms_calls := ms_calls s + 1\<rparr>)"
proof -
  have "list_all (matches e) (sort_key am_version rs)" using assms(3) by (simp add: list_all_iff)
  then show ?thesis using assms(1,2) by (simp add: verify_checksums_def bnd_def statement_healthy check_rows_ok)
qed

lemma tables_ok_matches: "tables_ok e orig (d, Some rs) \<Longrightarrow> list_all (matches e) rs"
  by (auto simp: tables_ok_def matches_def list_all_iff)

definition old_rows :: "'d tables \<Rightarrow> AppliedMigration list" where
  "old_rows T = (case snd T of None \<Rightarrow> [] | Some rs \<Rightarrow> rs)"

lemma created: "create_tracking_table (snd T) = Some (old_rows T)"
  by (simp add: create_tracking_table_def old_rows_def split: option.split)

lemma run_healthy:
  fixes e :: "'d mig_env"
  assumes e: "healthy e" "\<not> is_dry_run (me_environment e)"
    and s: "tables_ok e orig (ms_tables s)" "ms_lock s = None" "deploy e (pending (old_rows (ms_tables s)) (MIGRATIONS e)) (fst (ms_tables s)) = Some d'"
  shows "\<exists>t rs'. run e s = Ok (length (pending (old_rows (ms_tables s)) (MIGRATIONS e))) t \<and>
    ms_tables t = (d', Some (old_rows (ms_tables s) @ rs')) \<and> map am_version rs' = recorded_versions (pending (old_rows (ms_tables s)) (MIGRATIONS e)) \<and>
    ms_lock t = None"
proof -
  let ?rs = "old_rows (ms_tables s)" and ?d = "fst (ms_tables s)"
  have "\<exists>s1. ensure_tracking_table e s = Ok () s1 \<and> ms_tables s1 = (?d, Some ?rs) \<and> ms_lock s1 = None"
  proof -
    have boot: "bootstrap e = Some \<lparr> mig_version = ''000'', mig_name = ''000_create_schema_migrations'', mig_sql = me_text e ''000_create_schema_migrations'' \<rparr>"
      by (simp add: bootstrap_def find_migration_def MIGRATIONS_def MIGRATION_FILES_def)
    show ?thesis using s(2)
      by (cases "ms_tables s")
        (simp add: ensure_tracking_table_def boot bnd_def some_or_trap_def ret_def statement_healthy [OF e(1)] raw_sql_def
          created [of "(_, _)", simplified])
  qed
  then obtain s1 where 1: "ensure_tracking_table e s = Ok () s1" "ms_tables s1 = (?d, Some ?rs)" "ms_lock s1 = None" by blast
  define s2 where "s2 = s1\<lparr>ms_calls := ms_calls s1 + 1\<rparr>"
  have 2: "statement e (\<lambda>s. Some ((), s)) s1 = Ok () s2" by (simp add: statement_healthy [OF e(1)] s2_def)
  define s3 where "s3 = s2\<lparr>ms_calls := ms_calls s2 + 1, ms_lock := Some (me_session e)\<rparr>"
  have 3: "try_lock e s2 = Ok True s3" using 1(3) by (simp add: try_lock_def statement_healthy [OF e(1)] s2_def s3_def)
  have tables: "ms_tables s3 = (?d, Some ?rs)" using 1(2) by (simp add: s2_def s3_def)
  have "list_all (matches e) ?rs"
    using s(1) tables_ok_create [OF s(1)] unfolding created by (intro tables_ok_matches)
  then have 4: "verify_checksums e s3 = Ok () (s3\<lparr>ms_calls := ms_calls s3 + 1\<rparr>)" using verify_healthy [OF e(1)] tables by simp
  obtain t rs' where 5: "apply_pending e (MIGRATIONS e) 0 (s3\<lparr>ms_calls := ms_calls s3 + 1\<rparr>) = Ok (length (pending ?rs (MIGRATIONS e))) t"
      "ms_tables t = (d', Some (?rs @ rs'))" "map am_version rs' = recorded_versions (pending ?rs (MIGRATIONS e))" "ms_lock t = ms_lock s3"
    using apply_pending_healthy [OF e(1) versions_distinct [of e], of "s3\<lparr>ms_calls := ms_calls s3 + 1\<rparr>" ?d ?rs d' 0] tables s(3) by auto
  have 6: "unlock e t = Ok () (t\<lparr>ms_calls := ms_calls t + 1, ms_lock := None\<rparr>)"
    using 5(4) by (simp add: unlock_def statement_healthy [OF e(1)] s3_def)
  have "run e s = Ok (length (pending ?rs (MIGRATIONS e))) (t\<lparr>ms_calls := ms_calls t + 1, ms_lock := None\<rparr>)"
    using e(2) 1(1) 2 3 4 5(1) 6 by (simp add: run_def thn_def bnd_def released_def run_inner_def)
  with 5(2,3) show ?thesis
    by (intro exI [of _ "t\<lparr>ms_calls := ms_calls t + 1, ms_lock := None\<rparr>"] exI [of _ rs']) simp
qed

lemma bootstrap_pending:
  assumes "map am_version rs' = recorded_versions (pending rs (MIGRATIONS e))" "''000'' \<notin> am_version ` set rs"
  shows "pending (rs @ rs') (MIGRATIONS e) = [m \<leftarrow> MIGRATIONS e. mig_version m = ''000'']"
proof -
  have "am_version ` set rs' = set (recorded_versions (pending rs (MIGRATIONS e)))" using assms(1) by (metis list.set_map)
  moreover have ex: "list_ex (\<lambda>r. am_version r = v) xs \<longleftrightarrow> v \<in> am_version ` set xs" for v xs by (auto simp: list_ex_iff)
  ultimately have known: "am_version ` set rs' = {v \<in> mig_version ` set (MIGRATIONS e). v \<noteq> ''000'' \<and> v \<notin> am_version ` set rs}"
    unfolding recorded_versions_def pending_def ex by auto
  have "(\<not> list_ex (\<lambda>r. am_version r = mig_version m) (rs @ rs')) \<longleftrightarrow> mig_version m = ''000''" if "m \<in> set (MIGRATIONS e)" for m
    unfolding ex set_append image_Un known using that assms(2) by (cases "mig_version m = ''000''") (simp_all del: set_map image_iff)
  then show ?thesis unfolding pending_def by (rule filter_cong [OF refl])
qed


text \<open>A dry run that succeeds has applied nothing, but it has created the tracking table if there was none.\<close>

theorem dry_run_creates_table:
  assumes "is_dry_run (me_environment e)" "run e s = Ok n t"
  shows "n = 0 \<and> ms_tables t = (fst (ms_tables s), create_tracking_table (snd (ms_tables s)))"
  using ends_dry_run [of e s] assms by (simp add: run_def ends_def)

section \<open>Examples\<close>

text \<open>A database that keeps the list of the SQL it was given; an answer can get lost at one of the calls.\<close>

definition sample_migrations :: "(nat \<Rightarrow> fate) \<Rightarrow> string list mig_env" where
  "sample_migrations fate = \<lparr> me_environment = Map.empty, me_text = id, me_exec = (\<lambda>sql d. Some (d @ [sql])), me_sha256 = id, me_now = int,
     me_fate = fate, me_session = 0 \<rparr>"

definition empty_database :: "string list mig_state" where
  "empty_database = \<lparr> ms_tables = ([], None), ms_lock = None, ms_tx = None, ms_calls = 0, ms_printed = [] \<rparr>"

lemma sample_migrations_sel [simp]:
  "me_environment (sample_migrations fate) = Map.empty" "me_text (sample_migrations fate) = id" "me_exec (sample_migrations fate) sql d = Some (d @ [sql])"
  "me_fate (sample_migrations fate) = fate" "me_session (sample_migrations fate) = 0"
  "ms_tables empty_database = ([], None)" "ms_lock empty_database = None" "ms_calls empty_database = 0"
  by (simp_all add: sample_migrations_def empty_database_def)

theorem run_keeps_history_witness:
  "ends (run (sample_migrations (\<lambda>n. if n = 11 then Unacked else Done))) empty_database
    (\<lambda>t. tables_ok (sample_migrations (\<lambda>n. if n = 11 then Unacked else Done)) [] (ms_tables t))
    (\<lambda>_ t. tables_ok (sample_migrations (\<lambda>n. if n = 11 then Unacked else Done)) [] (ms_tables t))"
  by (rule run_keeps_history) (simp add: tables_ok_def)


text \<open>
  If the answer to the request for the lock gets lost, the run fails and the lock stays with the connection, which goes back to the pool: no
  other connection can run the migrations while it lives.
\<close>

theorem lock_can_leak:
  "\<exists>t. run (sample_migrations (\<lambda>n. if n = 2 then Unacked else Done)) empty_database = Err Statement_Failed t \<and> ms_lock t = Some 0"
  by (simp add: run_def is_dry_run_def thn_def bnd_def ensure_tracking_table_def bootstrap_def find_migration_def MIGRATIONS_def MIGRATION_FILES_def
      some_or_trap_def ret_def statement_def raw_sql_def try_lock_def create_tracking_table_def Let_def)

end
