(* ===== verification/Api_Keys.thy ===== *)
theory Api_Keys
  imports Http Rate_Limit
begin

text \<open>
  Who may do what: the API keys (\<^verbatim>\<open>ApiKeyAuth\<close> and its middleware in \<^verbatim>\<open>security.rs\<close>, the table \<^verbatim>\<open>api_keys\<close> in
  \<^verbatim>\<open>db.rs\<close>, rotation and listing in \<^verbatim>\<open>handlers.rs\<close>), the address lists, the protection of the metrics endpoint,
  and the signatures of webhooks.  SHA-256, HMAC, base64 and the random keys are parameters.  Each statement sent
  to the database may be lost or may take effect without being acknowledged; times are in seconds.
\<close>

section \<open>The table of keys: db.rs\<close>

record ApiKeyRecord =
  ak_id :: u128
  ak_key_hash :: string
  ak_label :: string
  ak_created_at :: int
  ak_expires_at :: "int option"
  ak_revoked_at :: "int option"

record key_table =
  kt_rows :: "ApiKeyRecord list"
  kt_calls :: nat

record key_env =
  ke_fate :: "nat \<Rightarrow> fate"
  ke_sha256 :: "string \<Rightarrow> string"
  ke_id :: "nat \<Rightarrow> u128"
  ke_raw_key :: "nat \<Rightarrow> string"
  ke_max_date :: int

datatype key_error = Key_Db_Error

type_synonym 'a keys = "(key_table, key_error, 'a) comp"

definition db_call :: "key_env \<Rightarrow> (key_table \<Rightarrow> ('a \<times> key_table) option) \<Rightarrow> 'a keys" where
  "db_call e f t = (let t1 = t\<lparr>kt_calls := kt_calls t + 1\<rparr> in
     case (ke_fate e (kt_calls t), f t1) of
       (Done, Some (x, t2)) \<Rightarrow> Ok x t2
     | (Unacked, Some (x, t2)) \<Rightarrow> Err Key_Db_Error t2
     | _ \<Rightarrow> Err Key_Db_Error t1)"

text \<open>The column \<^verbatim>\<open>key_hash\<close> is unique, so that inserting a hash again fails.\<close>

definition api_key_insert :: "key_env \<Rightarrow> int \<Rightarrow> string \<Rightarrow> string \<Rightarrow> ApiKeyRecord keys" where
  "api_key_insert e now key_hash label = db_call e (\<lambda>t.
     if key_hash \<in> set (map ak_key_hash (kt_rows t)) then None
     else let row = \<lparr> ak_id = ke_id e (kt_calls t), ak_key_hash = key_hash, ak_label = label, ak_created_at = now,
                     ak_expires_at = None, ak_revoked_at = None \<rparr>
          in Some (row, t\<lparr>kt_rows := kt_rows t @ [row]\<rparr>))"

definition api_key_set_expires :: "key_env \<Rightarrow> string \<Rightarrow> int \<Rightarrow> bool keys" where
  "api_key_set_expires e key_hash expires_at = db_call e (\<lambda>t.
     Some (list_ex (\<lambda>k. ak_key_hash k = key_hash) (kt_rows t),
       t\<lparr>kt_rows := map (\<lambda>k. if ak_key_hash k = key_hash then k\<lparr>ak_expires_at := Some expires_at\<rparr> else k) (kt_rows t)\<rparr>))"

text \<open>The condition of the queries: not revoked, and not expired.\<close>

definition key_active :: "int \<Rightarrow> ApiKeyRecord \<Rightarrow> bool" where
  "key_active now k \<longleftrightarrow> ak_revoked_at k = None \<and> (case ak_expires_at k of None \<Rightarrow> True | Some x \<Rightarrow> x > now)"

definition api_key_validate :: "key_env \<Rightarrow> int \<Rightarrow> string \<Rightarrow> ApiKeyRecord option keys" where
  "api_key_validate e now key_hash = db_call e (\<lambda>t. Some (find (\<lambda>k. ak_key_hash k = key_hash \<and> key_active now k) (kt_rows t), t))"

definition api_key_delete_expired :: "key_env \<Rightarrow> int \<Rightarrow> int keys" where
  "api_key_delete_expired e now = db_call e (\<lambda>t.
     let dead = (\<lambda>k. case ak_expires_at k of Some x \<Rightarrow> x \<le> now | None \<Rightarrow> False) in
     Some (int (length (filter dead (kt_rows t))), t\<lparr>kt_rows := filter (\<lambda>k. \<not> dead k) (kt_rows t)\<rparr>))"

definition api_key_list_active :: "key_env \<Rightarrow> int \<Rightarrow> ApiKeyRecord list keys" where
  "api_key_list_active e now = db_call e (\<lambda>t.
     Some (rev (sort_key ak_created_at (filter (key_active now) (kt_rows t))), t))"

definition hash_api_key :: "key_env \<Rightarrow> string \<Rightarrow> string" where
  "hash_api_key e raw_key = ke_sha256 e raw_key"

section \<open>Rotation: handlers.rs\<close>

record RotateApiKeyRequest =
  ra_key_label :: string
  ra_overlap_days :: "int option"

record RotateApiKeyResponse =
  rk_new_key :: string
  rk_new_key_label :: string
  rk_old_key_expires_at :: "int option"
  rk_old_key_label :: "string option"

definition overlap_secs :: "RotateApiKeyRequest \<Rightarrow> int" where
  "overlap_secs rb = max (unwrap_or (ra_overlap_days rb) 7) 1 * 86400"

text \<open>Adding the overlap to the current time panics beyond the last date of the \<^verbatim>\<open>chrono\<close> crate.\<close>

definition rotate_api_key :: "key_env \<Rightarrow> int \<Rightarrow> RotateApiKeyRequest \<Rightarrow> RotateApiKeyResponse keys" where
  "rotate_api_key e now rb =
     bnd (reads (\<lambda>t. ke_raw_key e (kt_calls t))) (\<lambda>new_raw_key.
     bnd (api_key_list_active e now) (\<lambda>active_keys.
     let new_hash = ke_sha256 e new_raw_key;
         expires_at = now + overlap_secs rb;
         same = filter (\<lambda>k. ak_label k = ra_key_label rb) active_keys
     in if ke_max_date e < expires_at then trap
        else thn (for_each same (\<lambda>k. bnd (api_key_set_expires e (ak_key_hash k) expires_at) (\<lambda>_. ret ())))
          (bnd (api_key_insert e now new_hash (ra_key_label rb)) (\<lambda>_.
           ret \<lparr> rk_new_key = new_raw_key, rk_new_key_label = ra_key_label rb,
                 rk_old_key_expires_at = (if same = [] then None else Some expires_at),
                 rk_old_key_label = (if same = [] then None else Some (ra_key_label rb)) \<rparr>))))"

record ApiKeyListItem =
  li_id :: u128
  li_label :: string
  li_created_at :: int
  li_expires_at :: "int option"
  li_is_expiring :: bool

definition list_api_keys :: "key_env \<Rightarrow> int \<Rightarrow> ApiKeyListItem list keys" where
  "list_api_keys e now = bnd (api_key_list_active e now) (\<lambda>records. ret (map (\<lambda>r.
     \<lparr> li_id = ak_id r, li_label = ak_label r, li_created_at = ak_created_at r, li_expires_at = ak_expires_at r,
       li_is_expiring = (ak_expires_at r \<noteq> None) \<rparr>) records))"

section \<open>Authentication: security.rs\<close>

text \<open>
  The two stores: the keys of the configuration, and a database, given by the function that looks a hash up
  (\<open>None\<close> when the database fails).
\<close>

record 's ApiKeyAuth =
  valid_keys :: "string list"
  auth_db :: "('s \<Rightarrow> string \<Rightarrow> ApiKeyRecord option option) option"

definition verify :: "'s ApiKeyAuth \<Rightarrow> string \<Rightarrow> bool" where
  "verify auth key \<longleftrightarrow> valid_keys auth \<noteq> [] \<and> list_ex (\<lambda>k. k = key) (valid_keys auth)"

definition verify_async :: "(string \<Rightarrow> string) \<Rightarrow> 's ApiKeyAuth \<Rightarrow> string \<Rightarrow> 's \<Rightarrow> bool" where
  "verify_async sha auth key s = (if verify auth key then True else case auth_db auth of
     Some db \<Rightarrow> (case db s (sha key) of Some (Some _) \<Rightarrow> True | Some None \<Rightarrow> False | None \<Rightarrow> False)
   | None \<Rightarrow> False)"

definition unauthorized :: http_response where
  "unauthorized = insert_header ''www-authenticate'' (''ApiKey realm='' @ [CHR 0x22] @ ''predictiq'' @ [CHR 0x22])
     (json_response 401 (JObj [(''error'', JStr ''invalid or missing API key'')]))"

definition api_key_middleware :: "(string \<Rightarrow> string) \<Rightarrow> 's ApiKeyAuth \<Rightarrow> 's middleware" where
  "api_key_middleware sha auth next req s = (let api_key = header_or_empty req ''x-api-key'' in
     if \<not> verify_async sha auth api_key s then (unauthorized, s) else next req s)"

definition is_allowed :: "IpAddr list \<Rightarrow> string \<Rightarrow> bool" where
  "is_allowed allowed_ips ip = (if allowed_ips = [] then True
     else case parse_ip ip of Some addr \<Rightarrow> addr \<in> set allowed_ips | None \<Rightarrow> False)"

definition ip_whitelist_middleware :: "IpAddr list \<Rightarrow> bool \<Rightarrow> 's middleware" where
  "ip_whitelist_middleware allowed_ips trust next req s =
     (let ip = extract_client_ip (\<lambda>(_ :: unit) _. False) (header_text req) (rq_peer req) trust in
      if \<not> is_allowed allowed_ips ip then (status_response 403, s) else next req s)"

record 's MetricsAuthConfig =
  mc_public :: bool
  mc_allowlist :: "IpAddr list"
  mc_auth :: "'s ApiKeyAuth"

definition metrics_auth_middleware :: "'s MetricsAuthConfig \<Rightarrow> 's middleware" where
  "metrics_auth_middleware config next req s =
     (if mc_public config then next req s
      else if mc_allowlist config \<noteq> [] \<and>
         \<not> (let ip = extract_client_ip (\<lambda>(_ :: unit) _. False) (header_text req) (rq_peer req) False
            in case parse_ip ip of Some a \<Rightarrow> a \<in> set (mc_allowlist config) | None \<Rightarrow> False)
      then (status_response 403, s)
      else if \<not> verify (mc_auth config) (header_or_empty req ''x-api-key'') then (status_response 401, s)
      else next req s)"

section \<open>Signatures: security.rs\<close>

record sign_lib =
  hmac_sha256 :: "string \<Rightarrow> string \<Rightarrow> string"
  b64_encode :: "string \<Rightarrow> string"
  b64_decode :: "string \<Rightarrow> string option"

text \<open>An HMAC key may have any length, so that creating the code never fails.\<close>

definition verify_signature :: "sign_lib \<Rightarrow> string \<Rightarrow> string \<Rightarrow> string \<Rightarrow> bool" where
  "verify_signature sl payload signature secret = (case b64_decode sl signature of
     Some expected \<Rightarrow> expected = hmac_sha256 sl secret payload | None \<Rightarrow> False)"

text \<open>The difference of two 64-bit times wraps around.\<close>

definition wrap_i64 :: "int \<Rightarrow> int" where
  "wrap_i64 x = (x + 2 ^ 63) mod 2 ^ 64 - 2 ^ 63"

definition verify_signature_with_rotation ::
  "sign_lib \<Rightarrow> int \<Rightarrow> string \<Rightarrow> string \<Rightarrow> string \<Rightarrow> string option \<Rightarrow> int \<Rightarrow> int \<Rightarrow> bool" where
  "verify_signature_with_rotation sl now payload signature current_key previous_key token_timestamp_secs grace_period_secs =
     (if verify_signature sl payload signature current_key then True
      else case previous_key of None \<Rightarrow> False
      | Some prev_key \<Rightarrow>
          if \<not> verify_signature sl payload signature prev_key then False
          else let age_secs = wrap_i64 (now - token_timestamp_secs) in age_secs \<ge> 0 \<and> age_secs \<le> grace_period_secs)"

definition generate_signature :: "sign_lib \<Rightarrow> string \<Rightarrow> string \<Rightarrow> string" where
  "generate_signature sl payload secret = b64_encode sl (hmac_sha256 sl secret payload)"

record WebhookConfig =
  wh_secret :: "string option"
  wh_replay_window_secs :: int

text \<open>A body that is no UTF-8 is signed in its lossy conversion.\<close>

definition sendgrid_webhook_middleware ::
  "sign_lib \<Rightarrow> (string \<Rightarrow> string) \<Rightarrow> int \<Rightarrow> WebhookConfig \<Rightarrow> bool \<Rightarrow> 's middleware" where
  "sendgrid_webhook_middleware sl lossy now config production next req s =
     (case wh_secret config of
        None \<Rightarrow> if production then (status_response 401, s) else next req s
      | Some secret \<Rightarrow>
          (let sig = header_or_empty req ''x-twilio-email-event-webhook-signature'';
               ts_str = header_or_empty req ''x-twilio-email-event-webhook-timestamp'';
               ts = unwrap_or (parse_signed 64 ts_str) 0;
               age_secs = wrap_i64 (now - ts)
           in if age_secs < 0 \<or> age_secs > wrap_i64 (wh_replay_window_secs config) then (status_response 401, s)
              else if \<not> verify_signature sl (ts_str @ lossy (rq_body req)) sig secret then (status_response 401, s)
              else next req s))"

section \<open>Rotation keeps the service reachable\<close>

lemma db_call_Ok: "db_call e f t = Ok x t2 \<Longrightarrow> f (t\<lparr>kt_calls := kt_calls t + 1\<rparr>) = Some (x, t2)"
  by (auto simp: db_call_def Let_def split: fate.splits option.splits prod.splits)

definition expire_rows :: "string set \<Rightarrow> int \<Rightarrow> ApiKeyRecord list \<Rightarrow> ApiKeyRecord list" where
  "expire_rows hs x rows = map (\<lambda>k. if ak_key_hash k \<in> hs then k\<lparr>ak_expires_at := Some x\<rparr> else k) rows"

lemma expire_rows_insert:
  "expire_rows hs x (map (\<lambda>k. if ak_key_hash k = h then k\<lparr>ak_expires_at := Some x\<rparr> else k) rows) = expire_rows (insert h hs) x rows"
  by (auto simp: expire_rows_def)

lemma map_hash_expire [simp]: "map ak_key_hash (expire_rows hs x rows) = map ak_key_hash rows"
  by (auto simp: expire_rows_def)

lemma expire_all_Ok:
  "for_each ks (\<lambda>k. bnd (api_key_set_expires e (ak_key_hash k) x) (\<lambda>_. ret ())) t = Ok u t' \<Longrightarrow>
     kt_rows t' = expire_rows (ak_key_hash ` set ks) x (kt_rows t)"
proof (induction ks arbitrary: t)
  case Nil
  then show ?case by (simp add: ret_def expire_rows_def)
next
  case (Cons k ks)
  from Cons.prems obtain b t1 where 1: "api_key_set_expires e (ak_key_hash k) x t = Ok b t1"
    and 2: "for_each ks (\<lambda>k. bnd (api_key_set_expires e (ak_key_hash k) x) (\<lambda>_. ret ())) t1 = Ok u t'"
    by (simp add: run_simps) blast
  from db_call_Ok [OF 1 [unfolded api_key_set_expires_def]]
  have "kt_rows t1 = map (\<lambda>r. if ak_key_hash r = ak_key_hash k then r\<lparr>ak_expires_at := Some x\<rparr> else r) (kt_rows t)"
    by auto
  with Cons.IH [OF 2] show ?case by (simp add: expire_rows_insert)
qed

text \<open>What a successful rotation has done to the table.\<close>

lemma rotate_Ok:
  assumes "rotate_api_key e now rb t = Ok resp t'"
  obtains row where "kt_rows t' = expire_rows
       (ak_key_hash ` {k \<in> set (kt_rows t). key_active now k \<and> ak_label k = ra_key_label rb}) (now + overlap_secs rb) (kt_rows t) @ [row]"
    "row = \<lparr> ak_id = ak_id row, ak_key_hash = ke_sha256 e (rk_new_key resp), ak_label = ra_key_label rb,
       ak_created_at = now, ak_expires_at = None, ak_revoked_at = None \<rparr>"
    "ak_key_hash row \<notin> ak_key_hash ` set (kt_rows t)"
proof -
  let ?x = "now + overlap_secs rb"
  obtain act t1 where 1: "api_key_list_active e now t = Ok act t1"
    using assms by (auto simp: rotate_api_key_def bnd_def reads_def split: res.splits)
  let ?same = "filter (\<lambda>k. ak_label k = ra_key_label rb) act"
  let ?h = "ke_sha256 e (ke_raw_key e (kt_calls t))"
  obtain t2 row where 2: "for_each ?same (\<lambda>k. bnd (api_key_set_expires e (ak_key_hash k) ?x) (\<lambda>_. ret ())) t1 = Ok () t2"
    and 3: "api_key_insert e now ?h (ra_key_label rb) t2 = Ok row t'"
    and 4: "rk_new_key resp = ke_raw_key e (kt_calls t)"
    using assms 1 by (auto simp: rotate_api_key_def bnd_def reads_def thn_def ret_def trap_def Let_def split: res.splits if_splits)
  from db_call_Ok [OF 1 [unfolded api_key_list_active_def]]
  have a: "set act = {k \<in> set (kt_rows t). key_active now k}" "kt_rows t1 = kt_rows t" by auto
  then have same: "ak_key_hash ` set ?same = ak_key_hash ` {k \<in> set (kt_rows t). key_active now k \<and> ak_label k = ra_key_label rb}"
    by auto
  from db_call_Ok [OF 3 [unfolded api_key_insert_def]]
  have i: "kt_rows t' = kt_rows t2 @ [row]" "?h \<notin> ak_key_hash ` set (kt_rows t2)"
    "row = \<lparr> ak_id = ak_id row, ak_key_hash = ?h, ak_label = ra_key_label rb,
       ak_created_at = now, ak_expires_at = None, ak_revoked_at = None \<rparr>"
    by (auto simp: Let_def split: if_splits)
  have rows: "kt_rows t2 = expire_rows (ak_key_hash ` set ?same) ?x (kt_rows t)"
    using expire_all_Ok [OF 2] a(2) by simp
  have "ak_key_hash ` set (kt_rows t2) = ak_key_hash ` set (kt_rows t)"
    unfolding rows using map_hash_expire by (metis list.set_map)
  then show thesis using i rows same 4 by (intro that [of row]) (simp_all, metis ApiKeyRecord.select_convs(2))
qed

text \<open>The hashes in the table are unique, as the schema demands, and a key is accepted when a row of it is active.\<close>

definition unique_keys :: "key_table \<Rightarrow> bool" where
  "unique_keys t \<longleftrightarrow> distinct (map ak_key_hash (kt_rows t))"

definition key_accepted :: "key_table \<Rightarrow> int \<Rightarrow> string \<Rightarrow> bool" where
  "key_accepted t now h \<longleftrightarrow> list_ex (\<lambda>k. ak_key_hash k = h \<and> key_active now k) (kt_rows t)"

lemma unique_keysD:
  "unique_keys t \<Longrightarrow> k \<in> set (kt_rows t) \<Longrightarrow> l \<in> set (kt_rows t) \<Longrightarrow> ak_key_hash k = ak_key_hash l \<Longrightarrow> k = l"
  by (auto simp: unique_keys_def distinct_map inj_on_def)

lemma rotate_unique: "rotate_api_key e now rb t = Ok resp t' \<Longrightarrow> unique_keys t \<Longrightarrow> unique_keys t'"
  by (erule rotate_Ok) (auto simp: unique_keys_def simp del: map_map)

text \<open>What becomes of a row.\<close>

definition rotated_row :: "int \<Rightarrow> RotateApiKeyRequest \<Rightarrow> ApiKeyRecord \<Rightarrow> ApiKeyRecord" where
  "rotated_row now rb k = (if key_active now k \<and> ak_label k = ra_key_label rb
     then k\<lparr>ak_expires_at := Some (now + overlap_secs rb)\<rparr> else k)"

lemma rotate_rows:
  assumes "rotate_api_key e now rb t = Ok resp t'" "unique_keys t"
  obtains row where "kt_rows t' = map (rotated_row now rb) (kt_rows t) @ [row]"
    "ak_key_hash row = ke_sha256 e (rk_new_key resp)" "ak_expires_at row = None" "ak_revoked_at row = None"
proof (rule rotate_Ok [OF assms(1)])
  fix row
  let ?hs = "ak_key_hash ` {k \<in> set (kt_rows t). key_active now k \<and> ak_label k = ra_key_label rb}"
  assume r: "kt_rows t' = expire_rows ?hs (now + overlap_secs rb) (kt_rows t) @ [row]"
    and row: "row = \<lparr> ak_id = ak_id row, ak_key_hash = ke_sha256 e (rk_new_key resp), ak_label = ra_key_label rb,
       ak_created_at = now, ak_expires_at = None, ak_revoked_at = None \<rparr>"
  have "ak_key_hash k \<in> ?hs \<longleftrightarrow> key_active now k \<and> ak_label k = ra_key_label rb" if "k \<in> set (kt_rows t)" for k
    using that unique_keysD [OF assms(2)] by auto
  then have "expire_rows ?hs (now + overlap_secs rb) (kt_rows t) = map (rotated_row now rb) (kt_rows t)"
    by (simp add: expire_rows_def rotated_row_def)
  with r row show thesis
    by (intro that [of row]) (simp, (metis ApiKeyRecord.select_convs)+)
qed

text \<open>
  C8. A successful rotation loses nobody: at every later time the new key is accepted, a key of the same label
  that was active is accepted exactly until the overlap is over, and every other key is accepted exactly
  when it was before.
\<close>

theorem rotation_overlap:
  assumes ok: "rotate_api_key e now rb t = Ok resp t'" and u: "unique_keys t" and later: "now \<le> later"
  shows "key_accepted t' later h \<longleftrightarrow> h = ke_sha256 e (rk_new_key resp) \<or>
     (\<exists>k\<in>set (kt_rows t). ak_key_hash k = h \<and>
        (if key_active now k \<and> ak_label k = ra_key_label rb then later < now + overlap_secs rb else key_active later k))"
proof -
  have active: "key_active later (rotated_row now rb k) =
     (if key_active now k \<and> ak_label k = ra_key_label rb then later < now + overlap_secs rb else key_active later k)" for k
    by (auto simp: rotated_row_def key_active_def)
  have hash: "ak_key_hash (rotated_row now rb k) = ak_key_hash k" for k by (simp add: rotated_row_def)
  from rotate_rows [OF ok u] obtain row where "kt_rows t' = map (rotated_row now rb) (kt_rows t) @ [row]"
    "ak_key_hash row = ke_sha256 e (rk_new_key resp)" "ak_expires_at row = None" "ak_revoked_at row = None" by blast
  then show ?thesis
    by (auto simp: key_accepted_def list_ex_iff active hash) (auto simp: key_active_def)
qed

definition sample_key_env :: key_env where
  "sample_key_env = \<lparr> ke_fate = (\<lambda>_. Done), ke_sha256 = (\<lambda>s. s), ke_id = (\<lambda>n. word_of_nat n),
     ke_raw_key = (\<lambda>n. replicate (Suc n) CHR ''k''), ke_max_date = 8210266876799 \<rparr>"

definition key_row :: "string \<Rightarrow> int \<Rightarrow> int option \<Rightarrow> u128 \<Rightarrow> ApiKeyRecord" where
  "key_row h c x i = \<lparr> ak_id = i, ak_key_hash = h, ak_label = ''ci'', ak_created_at = c, ak_expires_at = x, ak_revoked_at = None \<rparr>"

definition sample_key_table :: key_table where
  "sample_key_table = \<lparr> kt_rows = [key_row ''leaked'' 0 None 9], kt_calls = 0 \<rparr>"

definition sample_rotation :: RotateApiKeyRequest where
  "sample_rotation = \<lparr> ra_key_label = ''ci'', ra_overlap_days = None \<rparr>"

lemmas key_eval = rotate_api_key_def api_key_list_active_def api_key_set_expires_def api_key_insert_def db_call_def
  sample_key_env_def key_row_def sample_key_table_def sample_rotation_def overlap_secs_def key_active_def
  run_eval for_each.simps Let_def

lemma first_rotation:
  "rotate_api_key sample_key_env 100 sample_rotation sample_key_table =
     Ok \<lparr> rk_new_key = ''k'', rk_new_key_label = ''ci'', rk_old_key_expires_at = Some 604900, rk_old_key_label = Some ''ci'' \<rparr>
        \<lparr> kt_rows = [key_row ''leaked'' 0 (Some 604900) 9, key_row ''k'' 100 None 3], kt_calls = 3 \<rparr>"
  by (simp add: key_eval)

lemma sample_keys_unique: "unique_keys sample_key_table"
  by (simp add: unique_keys_def sample_key_table_def key_row_def)

theorem rotation_overlap_witness:
  "key_accepted \<lparr> kt_rows = [key_row ''leaked'' 0 (Some 604900) 9, key_row ''k'' 100 None 3], kt_calls = 3 \<rparr> 604899 ''leaked''"
  by (subst rotation_overlap [OF first_rotation sample_keys_unique])
    (simp_all add: sample_key_table_def key_row_def sample_rotation_def overlap_secs_def key_active_def)

section \<open>Repeated rotation keeps the old keys alive\<close>

fun rotate_all :: "key_env \<Rightarrow> (int \<times> RotateApiKeyRequest) list \<Rightarrow> key_table \<Rightarrow> key_table option" where
  "rotate_all e [] t = Some t"
| "rotate_all e ((now, rb) # rs) t = (case rotate_api_key e now rb t of Ok _ t' \<Rightarrow> rotate_all e rs t' | _ \<Rightarrow> None)"

text \<open>
  A rotation also prolongs the keys that an earlier rotation has scheduled for expiry.  So when a label is
  rotated again and again, each time before the overlap of the previous rotation is over, a key that was
  active at the start, a leaked one say, is still accepted at the end, however often it was rotated out.
\<close>

lemma rotated_key_lives:
  "rotate_all e rs t = Some t' \<Longrightarrow> unique_keys t \<Longrightarrow> rs \<noteq> [] \<Longrightarrow> k \<in> set (kt_rows t) \<Longrightarrow>
   key_active (fst (hd rs)) k \<Longrightarrow> list_all (\<lambda>(now, rb). ra_key_label rb = ak_label k) rs \<Longrightarrow>
   successively (\<lambda>(n1, b1) (n2, b2). n2 < n1 + overlap_secs b1) rs \<Longrightarrow>
   later < fst (last rs) + overlap_secs (snd (last rs)) \<Longrightarrow> key_accepted t' later (ak_key_hash k)"
proof (induction rs arbitrary: t k)
  case (Cons r rs)
  obtain now rb where r: "r = (now, rb)" by force
  from Cons.prems(1) obtain resp t1 where ok: "rotate_api_key e now rb t = Ok resp t1" and rest: "rotate_all e rs t1 = Some t'"
    by (auto simp: r split: res.splits)
  let ?k = "rotated_row now rb k"
  have "?k \<in> set (kt_rows t1)"
    by (rule rotate_rows [OF ok Cons.prems(2)]) (use Cons.prems(4) in auto)
  moreover have k: "ak_key_hash ?k = ak_key_hash k" "ak_label ?k = ak_label k" "ak_revoked_at ?k = None"
    "ak_expires_at ?k = Some (now + overlap_secs rb)"
    using Cons.prems(5,6) by (auto simp: rotated_row_def r key_active_def)
  ultimately show ?case
  proof (cases rs)
    case Nil
    then have "key_active later ?k" using k Cons.prems(8) by (simp add: key_active_def r)
    with Nil rest k(1) \<open>?k \<in> set (kt_rows t1)\<close> show ?thesis by (auto simp: key_accepted_def list_ex_iff)
  next
    case (Cons q qs)
    have "key_active (fst (hd rs)) ?k" using k Cons.prems(7) Cons by (auto simp: key_active_def r split: prod.splits)
    with Cons.IH [OF rest rotate_unique [OF ok Cons.prems(2)] _ \<open>?k \<in> set (kt_rows t1)\<close>] k Cons Cons.prems(6-8)
    show ?thesis by (auto simp: r split: prod.splits)
  qed
qed simp

theorem rotated_key_survives:
  assumes "rotate_all e rs t = Some t'" "unique_keys t" "rs \<noteq> []" "k \<in> set (kt_rows t)" "key_active (fst (hd rs)) k"
    "list_all (\<lambda>(now, rb). ra_key_label rb = ak_label k) rs"
    "successively (\<lambda>(n1, b1) (n2, b2). n2 < n1 + overlap_secs b1) rs"
    "later < fst (last rs) + overlap_secs (snd (last rs))"
  shows "key_accepted t' later (ak_key_hash k)"
  using assms by (rule rotated_key_lives)

lemma second_rotation:
  "rotate_all sample_key_env [(100, sample_rotation), (600000, sample_rotation)] sample_key_table =
     Some \<lparr> kt_rows = [key_row ''leaked'' 0 (Some 1204800) 9, key_row ''k'' 100 (Some 1204800) 3, key_row ''kkkk'' 600000 None 7],
            kt_calls = 7 \<rparr>"
  by (simp add: first_rotation) (simp add: key_eval numeral_eq_Suc)

theorem rotated_key_survives_witness:
  "key_accepted \<lparr> kt_rows = [key_row ''leaked'' 0 (Some 1204800) 9, key_row ''k'' 100 (Some 1204800) 3, key_row ''kkkk'' 600000 None 7],
     kt_calls = 7 \<rparr> 1000000 (ak_key_hash (key_row ''leaked'' 0 None 9))"
  by (rule rotated_key_survives [OF second_rotation sample_keys_unique])
    (simp_all add: sample_key_table_def key_row_def sample_rotation_def overlap_secs_def key_active_def)

section \<open>Authentication decisions\<close>

text \<open>
  If the variable \<^verbatim>\<open>API_KEYS\<close> is set but has an empty item, as when it is set to the empty text or ends with a
  comma, the empty key is valid.  A request without any key presents the empty key, so that every admin
  endpoint is open to everybody.
\<close>

theorem empty_api_key_opens_admin:
  assumes "env ''API_KEYS'' = Some keys" "[] \<in> set (map trim (split_at CHR '','' keys))" "rq_headers req ''x-api-key'' = None"
  shows "api_key_middleware sha \<lparr> valid_keys = api_keys (security (Config_from_env lib env)), auth_db = db \<rparr> next req s = next req s"
proof -
  have "header_or_empty req ''x-api-key'' = []" using assms(3) by (simp add: header_or_empty_def header_text_def)
  moreover have "api_keys (security (Config_from_env lib env)) = map trim (split_at CHR '','' keys)"
    using assms(1) by (simp add: config_fields(6))
  ultimately show ?thesis
    using assms(2) by (auto simp: api_key_middleware_def verify_async_def verify_def list_ex_iff)
qed

definition bare_request :: http_request where
  "bare_request = \<lparr> rq_method = ''GET'', rq_path = ''/api/v1/audit/logs'', rq_query = None, rq_headers = Map.empty, rq_body = [], rq_peer = None \<rparr>"

theorem empty_api_key_opens_admin_witness:
  "api_key_middleware (\<lambda>s. s) \<lparr> valid_keys = api_keys (security (Config_from_env (plain_lib :: unit text_lib) [''API_KEYS'' \<mapsto> []])),
     auth_db = None \<rparr> (\<lambda>_ s. (status_response 200, s)) bare_request () = (status_response 200, ())"
  by (subst empty_api_key_opens_admin [where keys = "[]"]) (simp_all add: bare_request_def trim_def trim_start_def trim_end_def)

text \<open>
  The handlers behind the key check run exactly for a key of the configuration, or one the database
  reports as active; a database that fails counts as a refusal, and the check changes nothing.
\<close>

theorem api_key_decision:
  "api_key_middleware sha auth next req s =
     (let key = header_or_empty req ''x-api-key'' in
      if key \<in> set (valid_keys auth) \<or> (\<exists>db row. auth_db auth = Some db \<and> db s (sha key) = Some (Some row))
      then next req s else (unauthorized, s))"
  by (auto simp: api_key_middleware_def verify_async_def verify_def list_ex_iff Let_def split: option.splits)

text \<open>
  The metrics endpoint knows the keys of the configuration only: a key issued by rotation is refused there,
  although it is accepted everywhere else.
\<close>

theorem metrics_refuses_database_keys:
  assumes "\<not> mc_public config" "header_text req ''x-api-key'' = Some key" "key \<notin> set (valid_keys (mc_auth config))"
  shows "rs_status (fst (metrics_auth_middleware config next req s)) \<in> {401, 403}"
  using assms by (auto simp: metrics_auth_middleware_def verify_def list_ex_iff header_or_empty_def status_response_def Let_def)

theorem metrics_refuses_database_keys_witness:
  "rs_status (fst (metrics_auth_middleware \<lparr> mc_public = False, mc_allowlist = [],
     mc_auth = \<lparr> valid_keys = [''static''], auth_db = Some (\<lambda>_ _. Some (Some (key_row ''rotated'' 0 None 1))) \<rparr> \<rparr>
     (\<lambda>_ s. (status_response 200, s)) (bare_request\<lparr>rq_headers := [''x-api-key'' \<mapsto> ''rotated'']\<rparr>) ())) \<in> {401, 403}"
  by (rule metrics_refuses_database_keys [where key = "''rotated''"]) (auto simp: bare_request_def header_text_def to_str_def)

section \<open>Signature decisions\<close>

lemma wrap_i64_id: "- (2 ^ 63) \<le> x \<Longrightarrow> x < 2 ^ 63 \<Longrightarrow> wrap_i64 x = x"
  by (simp add: wrap_i64_def)

lemma wrap_i64_over:
  assumes "2 ^ 63 \<le> x" "x < 2 ^ 64 + 2 ^ 63"
  shows "wrap_i64 x = x - 2 ^ 64"
proof -
  have "(x + 2 ^ 63) mod 2 ^ 64 = (x - 2 ^ 63 + 2 ^ 64) mod 2 ^ 64" by (simp add: add.commute)
  also have "\<dots> = (x - 2 ^ 63) mod 2 ^ 64" by (rule mod_add_self2)
  also have "\<dots> = x - 2 ^ 63" using assms by (intro mod_pos_pos_trivial) auto
  finally show ?thesis by (simp add: wrap_i64_def)
qed

lemma elapsed_i64:
  assumes "0 \<le> now" "now < 2 ^ 63" "- (2 ^ 63) \<le> ts" "ts < 2 ^ 63" "0 \<le> w" "w < 2 ^ 63"
  shows "wrap_i64 (now - ts) < 0 \<or> wrap_i64 (now - ts) > w \<longleftrightarrow> \<not> (ts \<le> now \<and> now \<le> ts + w)"
proof (cases "now - ts < 2 ^ 63")
  case True
  with assms have "wrap_i64 (now - ts) = now - ts" by (intro wrap_i64_id) auto
  then show ?thesis by auto
next
  case False
  with assms have "wrap_i64 (now - ts) = now - ts - 2 ^ 64" by (intro wrap_i64_over) auto
  with False assms show ?thesis by auto
qed

text \<open>
  C9. With a secret configured, a webhook request is handed on exactly when the code in its signature header is
  that of its timestamp and body, and the timestamp is neither in the future nor older than the window; the
  64-bit arithmetic of the check cannot be tricked by extreme timestamps.
\<close>

theorem webhook_signature_decision:
  assumes "wh_secret config = Some secret" "0 \<le> now" "now < 2 ^ 63" "0 \<le> wh_replay_window_secs config"
    "wh_replay_window_secs config < 2 ^ 63"
  shows "sendgrid_webhook_middleware sl lossy now config production next req s =
     (let ts_str = header_or_empty req ''x-twilio-email-event-webhook-timestamp'';
          ts = unwrap_or (parse_signed 64 ts_str) 0
      in if ts \<le> now \<and> now \<le> ts + wh_replay_window_secs config \<and>
           b64_decode sl (header_or_empty req ''x-twilio-email-event-webhook-signature'') =
             Some (hmac_sha256 sl secret (ts_str @ lossy (rq_body req)))
         then next req s else (status_response 401, s))"
proof -
  let ?ts = "unwrap_or (parse_signed 64 (header_or_empty req ''x-twilio-email-event-webhook-timestamp'')) 0"
  have "- (2 ^ 63) \<le> ?ts \<and> ?ts < 2 ^ 63"
    by (cases "parse_signed 64 (header_or_empty req ''x-twilio-email-event-webhook-timestamp'')")
      (auto dest: parse_signed_range)
  then have b: "- (2 ^ 63) \<le> ?ts" "?ts < 2 ^ 63" by blast+
  have w: "wrap_i64 (wh_replay_window_secs config) = wh_replay_window_secs config"
    using assms(4,5) by (intro wrap_i64_id) auto
  show ?thesis
    unfolding sendgrid_webhook_middleware_def assms(1) option.case Let_def w elapsed_i64 [OF assms(2,3) b assms(4,5)]
    by (auto simp: verify_signature_def split: option.splits)
qed

text \<open>A signing library over an arbitrary code, with the identity as encoding.\<close>

definition sample_sign_lib :: sign_lib where
  "sample_sign_lib = \<lparr> hmac_sha256 = (\<lambda>k p. k @ p), b64_encode = (\<lambda>s. s), b64_decode = Some \<rparr>"

definition signed_request :: "string \<Rightarrow> string \<Rightarrow> http_request" where
  "signed_request ts sig = bare_request\<lparr>rq_headers := [''x-twilio-email-event-webhook-timestamp'' \<mapsto> ts,
     ''x-twilio-email-event-webhook-signature'' \<mapsto> sig], rq_body := ''b''\<rparr>"

theorem webhook_signature_decision_witness:
  "sendgrid_webhook_middleware sample_sign_lib (\<lambda>s. s) 1000 \<lparr> wh_secret = Some ''k'', wh_replay_window_secs = 300 \<rparr> True
     (\<lambda>_ s. (status_response 200, s)) (signed_request ''700'' ''k700b'') () = (status_response 200, ())"
  by (subst webhook_signature_decision [where secret = "''k''"])
    (simp_all add: sample_sign_lib_def signed_request_def bare_request_def header_or_empty_def header_text_def to_str_def
      parse_signed_def strip_plus_def all_digits_def decimal_value_def digits_value_def to_digit_def)

text \<open>
  What \<^verbatim>\<open>generate_signature\<close> produces is accepted by the verification, under the current key at any time, and
  under the previous key exactly as long as the grace period lasts.
\<close>

theorem signature_roundtrip:
  assumes "\<And>x. b64_decode sl (b64_encode sl x) = Some x"
  shows "verify_signature sl payload (generate_signature sl payload key) key"
    "0 \<le> now \<Longrightarrow> now < 2 ^ 63 \<Longrightarrow> - (2 ^ 63) \<le> ts \<Longrightarrow> ts < 2 ^ 63 \<Longrightarrow> 0 \<le> grace \<Longrightarrow> grace < 2 ^ 63 \<Longrightarrow>
     hmac_sha256 sl key payload \<noteq> hmac_sha256 sl prev payload \<Longrightarrow>
     verify_signature_with_rotation sl now payload (generate_signature sl payload prev) key (Some prev) ts grace \<longleftrightarrow>
       ts \<le> now \<and> now \<le> ts + grace"
proof -
  show "verify_signature sl payload (generate_signature sl payload key) key"
    by (simp add: verify_signature_def generate_signature_def assms)
  assume b: "0 \<le> now" "now < 2 ^ 63" "- (2 ^ 63) \<le> ts" "ts < 2 ^ 63" "0 \<le> grace" "grace < 2 ^ 63"
    and d: "hmac_sha256 sl key payload \<noteq> hmac_sha256 sl prev payload"
  show "verify_signature_with_rotation sl now payload (generate_signature sl payload prev) key (Some prev) ts grace \<longleftrightarrow>
       ts \<le> now \<and> now \<le> ts + grace"
    using elapsed_i64 [OF b] d
    by (auto simp: verify_signature_with_rotation_def verify_signature_def generate_signature_def assms Let_def not_less)
qed

theorem signature_roundtrip_witness:
  "verify_signature sample_sign_lib ''p'' (generate_signature sample_sign_lib ''p'' ''k'') ''k''"
  by (rule signature_roundtrip(1)) (simp add: sample_sign_lib_def)

end
