(* ===== verification/Idempotency.thy ===== *)
theory Idempotency
  imports Cache Http
begin

text \<open>
  Idempotency keys (\<^verbatim>\<open>idempotency.rs\<close>): the middleware that answers a repeated request from the cache, and the
  in-memory store of the same file.  The middleware runs over the cache of theory \<open>Cache\<close>, so that its
  lookups may fail, and over the state of the handlers behind it.
\<close>

section \<open>Keys and identities\<close>

definition MAX_KEY_LEN :: nat where
  "MAX_KEY_LEN = 128"

record CachedResponse =
  cr_status :: int
  cr_body :: body
  cr_content_type :: "string option"
  cr_owner :: string

definition idempotency_cache_key :: "string \<Rightarrow> string \<Rightarrow> string \<Rightarrow> string" where
  "idempotency_cache_key user_id route_path raw_key = ''idempotency:v2:'' @ user_id @ '':'' @ route_path @ '':'' @ raw_key"

definition extract_user_identity :: "(string \<Rightarrow> string) \<Rightarrow> http_request \<Rightarrow> string \<Rightarrow> string" where
  "extract_user_identity sha req ip = (case header_text req ''x-api-key'' of
     Some k \<Rightarrow> ''api:'' @ sha k
   | None \<Rightarrow> (case header_text req ''authorization'' of
       Some t \<Rightarrow> ''auth:'' @ take_chars 32 t
     | None \<Rightarrow> ''anon:'' @ sha (ip @ ''|'' @ header_or_empty req ''user-agent'')))"

section \<open>The middleware\<close>

record ('r, 'net) idem_env =
  ie_cache :: "('r, CachedResponse, unit) cache_env"
  ie_sha256 :: "string \<Rightarrow> string"
  ie_contains :: "'net \<Rightarrow> IpAddr \<Rightarrow> bool"
  ie_trust_proxy :: bool
  ie_cidrs :: "'net list"
  ie_window :: nat

definition raw_key_of :: "http_request \<Rightarrow> string option" where
  "raw_key_of req = Option.bind (header_text req ''idempotency-key'')
     (\<lambda>v. let t = trim v in if t \<noteq> [] \<and> length t \<le> MAX_KEY_LEN then Some t else None)"

definition user_of :: "('r, 'net) idem_env \<Rightarrow> http_request \<Rightarrow> string" where
  "user_of e req = extract_user_identity (ie_sha256 e) req
     (extract_client_ip_cidrs (ie_contains e) (header_text req) (rq_peer req) (ie_trust_proxy e) (ie_cidrs e))"

definition replay_response :: "CachedResponse \<Rightarrow> http_response" where
  "replay_response c = (let status = (if 100 \<le> cr_status c \<and> cr_status c \<le> 999 then cr_status c else 200);
       base = \<lparr> rs_status = status, rs_headers = Map.empty, rs_body = cr_body c \<rparr>;
       typed = (case cr_content_type c of Some ct \<Rightarrow> insert_header ''content-type'' ct base | None \<Rightarrow> base)
     in insert_header ''idempotency-replayed'' ''true'' typed)"

definition to_cached :: "string \<Rightarrow> http_response \<Rightarrow> CachedResponse" where
  "to_cached owner resp = \<lparr> cr_status = rs_status resp, cr_body = rs_body resp,
     cr_content_type = Option.bind (rs_headers resp ''content-type'') to_str, cr_owner = owner \<rparr>"

text \<open>An operation of the cache whose error is ignored: its value if there is one, and the state it leaves.\<close>

definition try_op :: "('r, 'a) cache_op \<Rightarrow> 'r cache_state \<Rightarrow> 'a option \<times> 'r cache_state" where
  "try_op op c = (case op c of Ok v c' \<Rightarrow> (Some v, c') | Err _ c' \<Rightarrow> (None, c') | Trap \<Rightarrow> (None, c))"

definition run_and_store ::
  "('r, 'net) idem_env \<Rightarrow> string \<Rightarrow> string \<Rightarrow> ('r cache_state \<times> 's) middleware" where
  "run_and_store e user key next req st = (case next req st of (response, (c, s)) \<Rightarrow>
     let c' = (if is_success_status (rs_status response)
               then snd (try_op (set_json (ie_cache e) key (to_cached user response) (ie_window e)) c) else c)
     in (insert_header ''idempotency-replayed'' ''false'' response, (c', s)))"

definition idempotency_middleware :: "('r, 'net) idem_env \<Rightarrow> ('r cache_state \<times> 's) middleware" where
  "idempotency_middleware e next req st = (case raw_key_of req of
     None \<Rightarrow> next req st
   | Some raw_key \<Rightarrow> (case st of (c, s) \<Rightarrow>
       (let user_id = user_of e req; key = idempotency_cache_key user_id (rq_path req) raw_key in
        case try_op (get_json (ie_cache e) (dec_value (ie_cache e)) key) c of
          (Some (Some cached), c') \<Rightarrow>
            if cr_owner cached \<noteq> user_id then (status_response 422, (c', s)) else (replay_response cached, (c', s))
        | (_, c') \<Rightarrow> run_and_store e user_id key next req (c', s))))"

section \<open>The store in memory\<close>

record StoredResponse =
  sr_status :: int
  sr_body :: string
  sr_stored_at :: int

datatype IdempotencyError = CrossUserCollision

record IdempotencyStore =
  is_inner :: "string \<rightharpoonup> string \<times> StoredResponse"
  is_ttl :: int

definition IdempotencyStore_new :: "int \<Rightarrow> IdempotencyStore" where
  "IdempotencyStore_new ttl = \<lparr> is_inner = Map.empty, is_ttl = ttl \<rparr>"

definition scoped_key :: "string \<Rightarrow> string \<Rightarrow> string \<Rightarrow> string" where
  "scoped_key user_id route_path raw_key = user_id @ '':'' @ route_path @ '':'' @ raw_key"

definition store_get :: "int \<Rightarrow> IdempotencyStore \<Rightarrow> string \<Rightarrow> string \<Rightarrow> string \<Rightarrow> IdempotencyError + StoredResponse option" where
  "store_get now st user_id route_path raw_key = (case is_inner st (scoped_key user_id route_path raw_key) of
     Some (owner, cached) \<Rightarrow>
       if owner \<noteq> user_id then Inl CrossUserCollision
       else if now - sr_stored_at cached < is_ttl st then Inr (Some cached) else Inr None
   | None \<Rightarrow> Inr None)"

definition store_set :: "IdempotencyStore \<Rightarrow> string \<Rightarrow> string \<Rightarrow> string \<Rightarrow> StoredResponse \<Rightarrow> IdempotencyStore" where
  "store_set st user_id route_path raw_key response =
     st\<lparr>is_inner := (is_inner st)(scoped_key user_id route_path raw_key \<mapsto> (user_id, response))\<rparr>"

definition check_cross_user :: "IdempotencyStore \<Rightarrow> string \<Rightarrow> string \<Rightarrow> IdempotencyError + StoredResponse option" where
  "check_cross_user st attacker_id victim_key_scoped = (case is_inner st victim_key_scoped of
     Some (owner, _) \<Rightarrow> if owner \<noteq> attacker_id then Inl CrossUserCollision else Inr None
   | None \<Rightarrow> Inr None)"

section \<open>Replays\<close>

lemma get_json_hit:
  assumes "steady e" "opened_at_ms (cs_breaker c) = 0" "strings (r_view (ce_redis e) (cs_store c)) key = Some (Text raw)" "dec raw = Some v"
  shows "try_op (get_json e dec key) c = (Some (Some v), used c (cs_store c))"
  using assms by (simp add: try_op_def get_json_steady get_string_def raw_text_def)

lemma get_json_miss:
  assumes "steady e" "opened_at_ms (cs_breaker c) = 0" "absent (r_view (ce_redis e) (cs_store c)) key"
  shows "try_op (get_json e dec key) c = (Some None, used c (cs_store c))"
  using assms by (simp add: try_op_def get_json_steady get_string_def raw_text_def absent_def present_def)

lemma set_json_steady:
  assumes "steady e" "opened_at_ms (cs_breaker c) = 0"
  shows "try_op (set_json e key v ttl) c = (Some (), used c (r_set (ce_redis e) key (Text (enc_value e v)) ttl (cs_store c)))"
  using assms by (simp add: try_op_def set_json_def set_ex_def exec_steady)

text \<open>The key under which a request is looked up.\<close>

definition request_key :: "('r, 'net) idem_env \<Rightarrow> http_request \<Rightarrow> string option" where
  "request_key e req = map_option (idempotency_cache_key (user_of e req) (rq_path req)) (raw_key_of req)"


definition keyed_post :: "string option \<Rightarrow> http_request" where
  "keyed_post query = \<lparr> rq_method = ''POST'', rq_path = ''/x'', rq_query = query,
     rq_headers = [''idempotency-key'' \<mapsto> ''k1'', ''x-api-key'' \<mapsto> ''a''], rq_body = [], rq_peer = None \<rparr>"

definition sample_idem :: "CachedResponse \<Rightarrow> (table, unit) idem_env" where
  "sample_idem v = \<lparr> ie_cache = \<lparr> ce_redis = table_redis, ce_fate = (\<lambda>_. Done), ce_others = (\<lambda>_ r. r), ce_tick = (\<lambda>_. 0),
       ce_cfg = ce_cfg dead_cache_env, ce_tags = ce_tags dead_cache_env, ce_tag_hash = concat, ce_early = (\<lambda>_ _ _. False),
       ce_measure = (\<lambda>_. ()), enc_value = (\<lambda>_. ''v''), dec_value = (\<lambda>_. Some v), enc_entry = (\<lambda>_. []), dec_entry = (\<lambda>_. None),
       ce_scan = (\<lambda>_ _ _. (0, [])) \<rparr>,
     ie_sha256 = (\<lambda>s. s), ie_contains = (\<lambda>_ _. False), ie_trust_proxy = False, ie_cidrs = [], ie_window = 86400 \<rparr>"

lemma sample_idem_steady: "steady (ie_cache (sample_idem v))" "redis_laws (ce_redis (ie_cache (sample_idem v)))"
  "absent (r_view (ce_redis (ie_cache (sample_idem v))) (cs_store fresh_cache)) k"
  by (simp_all add: sample_idem_def steady_def table_redis_laws absent_def present_def fresh_cache_def)

lemma keyed_post_keys:
  "raw_key_of (keyed_post q) = Some ''k1''" "user_of (sample_idem v) (keyed_post q) = ''api:a''" "rq_path (keyed_post q) = ''/x''"
proof -
  have "trim ''k1'' = ''k1''" by (rule trim_visible) (simp add: visible_def)
  then show "raw_key_of (keyed_post q) = Some ''k1''"
    by (simp add: raw_key_of_def keyed_post_def header_text_def to_str_def MAX_KEY_LEN_def Let_def)
  show "user_of (sample_idem v) (keyed_post q) = ''api:a''" "rq_path (keyed_post q) = ''/x''"
    by (simp_all add: user_of_def extract_user_identity_def keyed_post_def header_text_def to_str_def sample_idem_def)
qed


definition counting :: "http_response \<Rightarrow> ('r cache_state \<times> nat) handler" where
  "counting resp req st = (resp, (fst st, Suc (snd st)))"

definition interrupted :: "('r, 'net) idem_env \<Rightarrow> http_response \<Rightarrow> ('r cache_state \<times> nat) handler" where
  "interrupted e resp req st = counting resp req (snd (idempotency_middleware e (counting resp) req st))"

text \<open>
  A duplicate that arrives while the first request is being handled is executed too: nothing is reserved
  between the lookup and the storing of the answer.  The handler below counts its runs; the duplicate is
  served in the middle of the first request.
\<close>

theorem concurrent_duplicate_runs_twice:
  assumes e: "steady (ie_cache e)" and c: "opened_at_ms (cs_breaker c) = 0" "request_key e req = Some key"
      "absent (r_view (ce_redis (ie_cache e)) (cs_store c)) key"
  shows "snd (snd (idempotency_middleware e (interrupted e resp) req (c, 0))) = 2"
proof -
  obtain raw where raw: "raw_key_of req = Some raw" "key = idempotency_cache_key (user_of e req) (rq_path req) raw"
    using c(2) by (auto simp: request_key_def)
  have a: "absent (r_view (ce_redis (ie_cache e)) (cs_store (used c (cs_store c)))) key" using c(3) by simp
  have inner: "snd (snd (idempotency_middleware e (counting resp) req (used c (cs_store c), 0))) = 1"
    using raw get_json_miss [OF e _ a, of "dec_value (ie_cache e)"] by (simp add: idempotency_middleware_def run_and_store_def counting_def Let_def)
  show ?thesis
    using raw get_json_miss [OF e c(1,3), of "dec_value (ie_cache e)"] inner
    by (simp add: idempotency_middleware_def [of e "interrupted e resp"] run_and_store_def interrupted_def counting_def [of resp req "snd _"] Let_def)
qed

theorem concurrent_duplicate_runs_twice_witness:
  "snd (snd (idempotency_middleware (sample_idem (to_cached ''api:a'' (status_response 200)))
     (interrupted (sample_idem (to_cached ''api:a'' (status_response 200))) (status_response 200)) (keyed_post None) (fresh_cache, 0))) = 2"
  by (rule concurrent_duplicate_runs_twice [where key = "idempotency_cache_key ''api:a'' ''/x'' ''k1''"])
    (simp_all add: sample_idem_steady fresh_closed request_key_def keyed_post_keys)

text \<open>
  Bearer tokens that agree on their first 32 characters are one identity.  That many characters of a signed
  web token are its fixed prefix, so that all holders of such tokens share their idempotency keys.
\<close>

theorem bearer_identity_truncated:
  assumes "header_text r1 ''x-api-key'' = None" "header_text r2 ''x-api-key'' = None"
    "header_text r1 ''authorization'' = Some t1" "header_text r2 ''authorization'' = Some t2" "take 32 t1 = take 32 t2"
  shows "extract_user_identity sha r1 ip1 = extract_user_identity sha r2 ip2"
proof -
  have "is_ascii t" if "header_text r n = Some t" for r n t
    using that by (auto simp: header_text_def to_str_def is_ascii_def list_all_iff bind_eq_Some_conv Let_def split: if_splits)
  with assms show ?thesis by (simp add: extract_user_identity_def take_chars_ascii)
qed

definition bearer :: "string \<Rightarrow> http_request" where
  "bearer t = \<lparr> rq_method = ''POST'', rq_path = ''/x'', rq_query = None, rq_headers = [''authorization'' \<mapsto> t], rq_body = [], rq_peer = None \<rparr>"

theorem bearer_identity_truncated_witness:
  "extract_user_identity (\<lambda>s. s) (bearer ''Bearer eyJhbGciOiJIUzI1NiIsInR5cCI6.alice'') ''1.1.1.1'' =
   extract_user_identity (\<lambda>s. s) (bearer ''Bearer eyJhbGciOiJIUzI1NiIsInR5cCI6.bob'') ''2.2.2.2''"
proof (rule bearer_identity_truncated)
  show "take 32 ''Bearer eyJhbGciOiJIUzI1NiIsInR5cCI6.alice'' = take 32 ''Bearer eyJhbGciOiJIUzI1NiIsInR5cCI6.bob''" by code_simp
qed (simp_all add: bearer_def header_text_def to_str_def)

text \<open>The store in memory gives back what was stored for a user, a route and a key until its time is over.\<close>

theorem store_get_after_set:
  "store_get now (store_set st u p k r) u p k = Inr (if now - sr_stored_at r < is_ttl st then Some r else None)"
  by (simp add: store_get_def store_set_def)

end
