(* ===== verification/Redaction.thy ===== *)
theory Redaction
  imports Http
begin

text \<open>
  What reaches the logs: \<^verbatim>\<open>body_redact.rs\<close> (truncation of bodies, redaction of sensitive fields and of email
  addresses) and the masking of credentials in \<^verbatim>\<open>audit_middleware.rs\<close>.  The JSON parser and printer and the
  lossy UTF-8 conversion are parameters.  Slicing a text inside a character panics in Rust; the result
  \<open>None\<close> stands for that.
\<close>

section \<open>Bodies\<close>

definition MAX_BODY_BYTES :: nat where
  "MAX_BODY_BYTES = 4 * 1024"

definition SENSITIVE_FIELDS :: "string list" where
  "SENSITIVE_FIELDS =
     [''password'', ''password_confirmation'', ''passwd'', ''pwd'', ''token'', ''access_token'', ''refresh_token'',
      ''bearer'', ''authorization'', ''auth_token'', ''session_token'', ''api_key'', ''api_secret'', ''secret'',
      ''client_secret'', ''private_key'', ''private_secret'', ''signing_key'', ''hmac_key'',
      ''credit_card'', ''creditcard'', ''card_number'', ''cvv'', ''cvc'', ''ssn'', ''social_security'', ''tin'', ''ein'',
      ''bank_account'', ''routing_number'', ''account_number'',
      ''email'', ''phone'', ''phone_number'', ''mobile'', ''dob'', ''date_of_birth'', ''birthdate'', ''drivers_license'',
      ''passport'', ''identity_number'',
      ''oauth_token'', ''jwt'', ''jti'', ''nonce'', ''signature'', ''signed_request'', ''webhook_secret'']"

definition body_logging_enabled :: "environment \<Rightarrow> bool" where
  "body_logging_enabled env = (case env ''AUDIT_BODY_LOGGING'' of Some v \<Rightarrow> v \<noteq> ''false'' \<and> v \<noteq> ''0'' | None \<Rightarrow> True)"

record json_lib =
  json_parse :: "string \<Rightarrow> json option"
  json_print :: "json \<Rightarrow> string option"
  utf8_lossy :: "string \<Rightarrow> string"

definition truncate_body :: "json_lib \<Rightarrow> string \<Rightarrow> string" where
  "truncate_body jl raw = utf8_lossy jl (if length raw > MAX_BODY_BYTES then take MAX_BODY_BYTES raw else raw)"

definition sensitive :: "'net text_lib \<Rightarrow> string \<Rightarrow> bool" where
  "sensitive lib key \<longleftrightarrow> list_ex (\<lambda>s. str_contains s (to_lowercase lib key)) SENSITIVE_FIELDS"

fun redact_map :: "'net text_lib \<Rightarrow> (string \<times> json) list \<Rightarrow> (string \<times> json) list" where
  "redact_map lib [] = []"
| "redact_map lib ((key, JObj nested) # rest) =
     (key, if sensitive lib key then JStr ''[REDACTED]'' else JObj (redact_map lib nested)) # redact_map lib rest"
| "redact_map lib ((key, v) # rest) =
     (key, if sensitive lib key then JStr ''[REDACTED]'' else v) # redact_map lib rest"

definition redact_sensitive :: "'net text_lib \<Rightarrow> json_lib \<Rightarrow> string \<Rightarrow> string" where
  "redact_sensitive lib jl body = (case json_parse jl body of
     Some (JObj m) \<Rightarrow> unwrap_or (json_print jl (JObj (redact_map lib m))) body
   | _ \<Rightarrow> body)"

section \<open>Addresses\<close>

text \<open>\<^verbatim>\<open>&s[0..1]\<close> of a text with at least two bytes.\<close>

definition first_byte :: "string \<Rightarrow> string option" where
  "first_byte s = (if continuation (s ! 1) then None else Some [hd s])"

text \<open>\<^verbatim>\<open>rfind\<close>: the part before the last occurrence, and the part from it on.\<close>

definition split_last :: "char \<Rightarrow> string \<Rightarrow> (string \<times> string) option" where
  "split_last c s = (case split_once c (rev s) of Some (a, b) \<Rightarrow> Some (rev b, c # rev a) | None \<Rightarrow> None)"

definition redact_local :: "string \<Rightarrow> string option" where
  "redact_local local_part = (if length local_part > 1 then map_option (\<lambda>f. f @ ''***'') (first_byte local_part)
     else Some local_part)"

definition redact_domain :: "string \<Rightarrow> string option" where
  "redact_domain domain_part = (case split_last CHR ''.'' domain_part of
     Some (name_part, tld) \<Rightarrow> if length name_part > 1 then map_option (\<lambda>f. f @ ''***'' @ tld) (first_byte name_part)
       else Some (name_part @ tld)
   | None \<Rightarrow> Some ''***'')"

definition redact_email :: "string \<Rightarrow> string option" where
  "redact_email email = (if email = [] then Some [] else case split_once CHR ''@'' email of
     Some (local_part, domain_part) \<Rightarrow>
       Option.bind (redact_local local_part) (\<lambda>l. Option.bind (redact_domain domain_part) (\<lambda>d. Some (l @ ''@'' @ d)))
   | None \<Rightarrow> Some ''***@***'')"

section \<open>Credentials: audit\_middleware.rs\<close>

datatype AuthFailureReason = InvalidApiKey | ExpiredToken | MissingCredentials

fun AuthFailureReason_as_str :: "AuthFailureReason \<Rightarrow> string" where
  "AuthFailureReason_as_str InvalidApiKey = ''invalid_api_key''"
| "AuthFailureReason_as_str ExpiredToken = ''expired_token''"
| "AuthFailureReason_as_str MissingCredentials = ''missing_credentials''"

definition AuthFailureReason_from_headers :: "http_request \<Rightarrow> AuthFailureReason" where
  "AuthFailureReason_from_headers req = (if has_header req ''x-api-key'' then InvalidApiKey
     else if has_header req ''authorization'' then ExpiredToken else MissingCredentials)"

definition key_prefix :: "string \<Rightarrow> string" where
  "key_prefix key = take_chars 4 key @ ''****''"

definition safe_char_prefix :: "string \<Rightarrow> nat \<Rightarrow> string" where
  "safe_char_prefix s n = take_chars n s"

definition actor_identity :: "http_request \<Rightarrow> string" where
  "actor_identity req = (case header_text req ''x-api-key'' of
     Some k \<Rightarrow> ''api_key:'' @ safe_char_prefix k 8
   | None \<Rightarrow> (case header_text req ''authorization'' of Some _ \<Rightarrow> ''token_attempt:****'' | None \<Rightarrow> ''unknown''))"

definition auth_failure_actor :: "http_request \<Rightarrow> string" where
  "auth_failure_actor req = (case AuthFailureReason_from_headers req of
     InvalidApiKey \<Rightarrow> ''api_key_attempt:'' @ (case header_text req ''x-api-key'' of Some k \<Rightarrow> key_prefix k | None \<Rightarrow> ''****'')
   | ExpiredToken \<Rightarrow> ''token_attempt:****''
   | MissingCredentials \<Rightarrow> ''anonymous'')"

section \<open>No secret survives outside arrays\<close>

text \<open>Every value under a sensitive name is the marker, in the object and the objects nested in it.\<close>

fun redacted :: "'net text_lib \<Rightarrow> (string \<times> json) list \<Rightarrow> bool" where
  "redacted lib [] = True"
| "redacted lib ((key, JObj nested) # rest) = (\<not> sensitive lib key \<and> redacted lib nested \<and> redacted lib rest)"
| "redacted lib ((key, v) # rest) = ((sensitive lib key \<longrightarrow> v = JStr ''[REDACTED]'') \<and> redacted lib rest)"

lemma redacted_redact_map: "redacted lib (redact_map lib m)"
  by (induction lib m rule: redact_map.induct) auto

lemma redact_map_fixed: "redacted lib m \<Longrightarrow> redact_map lib m = m"
  by (induction lib m rule: redacted.induct) auto

lemma redact_map_keys: "map fst (redact_map lib m) = map fst m"
  by (induction lib m rule: redact_map.induct) auto

text \<open>
  Redaction keeps the names of the fields and their order, leaves no value under a sensitive name in the
  object or in the objects nested in it, and redacting again changes nothing.
\<close>

theorem redaction_complete_on_objects:
  "map fst (redact_map lib m) = map fst m \<and> redacted lib (redact_map lib m) \<and>
   redact_map lib (redact_map lib m) = redact_map lib m"
  by (simp add: redact_map_keys redacted_redact_map redact_map_fixed)

text \<open>
  Arrays are not descended into, and a text that is no JSON object is returned as it is: a secret in
  an array of objects is kept, and so is every secret of a body that was cut at four kilobytes, since what is
  left of it is no JSON any more.
\<close>

theorem secrets_kept:
  assumes "\<not> sensitive lib key"
  shows "redact_map lib [(key, JArr vs)] = [(key, JArr vs)]"
    "(\<nexists>m. json_parse jl (truncate_body jl raw) = Some (JObj m)) \<Longrightarrow>
       redact_sensitive lib jl (truncate_body jl raw) = truncate_body jl raw"
  using assms by (auto simp: redact_sensitive_def split: option.splits json.splits)

theorem secrets_kept_witness:
  "redact_map (plain_lib :: unit text_lib) [(''users'', JArr [JObj [(''password'', JStr ''hunter2'')]])] =
     [(''users'', JArr [JObj [(''password'', JStr ''hunter2'')]])]"
  by (rule secrets_kept(1)) code_simp

text \<open>
  The redaction of an address shows the first letters of its two parts and the last label only: it is the
  same for all addresses that agree on those.
\<close>

lemma split_once_at: "c \<notin> set a \<Longrightarrow> split_once c (a @ c # b) = Some (a, b)"
  by (simp add: split_once_Some)

theorem redact_email_hides:
  assumes "is_ascii (a # l @ b # m)" "l \<noteq> []" "m \<noteq> []" "CHR ''@'' \<notin> set (a # l)" "CHR ''.'' \<notin> set tld"
  shows "redact_email ((a # l) @ ''@'' @ (b # m) @ ''.'' @ tld) = Some ([a] @ ''***@'' @ [b] @ ''***.'' @ tld)"
proof -
  have "(of_char (hd l) :: int) < 128" "(of_char (hd m) :: int) < 128"
    using assms(1-3) by (auto simp: is_ascii_def list_all_iff)
  then have asc: "\<not> continuation (hd l)" "\<not> continuation (hd m)" by (simp_all add: continuation_def)
  have "split_last CHR ''.'' ((b # m) @ ''.'' @ tld) = Some (b # m, ''.'' @ tld)"
    using assms(5) split_once_at [of "CHR ''.''" "rev tld" "rev (b # m)"] by (simp add: split_last_def)
  moreover have "first_byte (a # l) = Some [a]" "first_byte (b # m) = Some [b]"
    using asc assms(2,3) by (simp_all add: first_byte_def hd_conv_nth)
  ultimately show ?thesis
    using assms(2-4) split_once_at [of "CHR ''@''" "a # l" "(b # m) @ ''.'' @ tld"]
    by (simp add: redact_email_def redact_local_def redact_domain_def)
qed

theorem redact_email_hides_witness:
  "redact_email (''user'' @ ''@'' @ ''example'' @ ''.'' @ ''com'') = Some (''u'' @ ''***@'' @ ''e'' @ ''***.'' @ ''com'')"
  using redact_email_hides [of "CHR ''u''" "''ser''" "CHR ''e''" "''xample''" "''com''"] by (simp add: is_ascii_def)

text \<open>
  An address whose domain begins with a character of two or more bytes, as internationalised domains may,
  makes the redaction panic, and with it the request that is being logged.
\<close>

theorem redact_email_panics:
  assumes "continuation d" "CHR ''@'' \<notin> set l" "length l \<le> 1" "CHR ''.'' \<notin> set tld"
  shows "redact_email (l @ ''@'' @ (c # d # m) @ ''.'' @ tld) = None"
proof -
  have "split_last CHR ''.'' ((c # d # m) @ ''.'' @ tld) = Some (c # d # m, ''.'' @ tld)"
    using assms(4) split_once_at [of "CHR ''.''" "rev tld" "rev (c # d # m)"] by (simp add: split_last_def)
  then show ?thesis
    using assms(1-3) split_once_at [of "CHR ''@''" l "(c # d # m) @ ''.'' @ tld"]
    by (simp add: redact_email_def redact_local_def redact_domain_def first_byte_def)
qed

theorem redact_email_panics_witness:
  "redact_email (''a'' @ ''@'' @ (CHR 0xC3 # CHR 0xA9 # ''x'') @ ''.'' @ ''com'') = None"
  by (rule redact_email_panics) (simp_all add: continuation_def)

text \<open>
  Neither of the two audit entries of a request shows more of an API key than its first eight characters,
  or anything of a bearer token: the entries are the same for all credentials that agree on those.
\<close>

theorem audit_actor_masks:
  assumes "map_option (take 8) (header_text r1 ''x-api-key'') = map_option (take 8) (header_text r2 ''x-api-key'')"
    "header_text r1 ''authorization'' = None \<longleftrightarrow> header_text r2 ''authorization'' = None"
    "has_header r1 ''x-api-key'' = has_header r2 ''x-api-key''" "has_header r1 ''authorization'' = has_header r2 ''authorization''"
  shows "actor_identity r1 = actor_identity r2 \<and> auth_failure_actor r1 = auth_failure_actor r2"
proof -
  have asc: "header_text r n = Some k \<Longrightarrow> is_ascii k" for r n k
    by (auto simp: header_text_def to_str_def is_ascii_def list_all_iff bind_eq_Some_conv Let_def split: if_splits)
  have eq: "take_chars 8 k1 = take_chars 8 k2 \<and> take_chars 4 k1 = take_chars 4 k2"
    if "header_text r1 ''x-api-key'' = Some k1" "header_text r2 ''x-api-key'' = Some k2" for k1 k2
  proof -
    have e: "take 8 k1 = take 8 k2" using assms(1) that by simp
    have "take 4 k1 = take 4 (take 8 k1)" by simp
    also have "\<dots> = take 4 k2" unfolding e by simp
    finally show ?thesis using e asc [OF that(1)] asc [OF that(2)] by (simp add: take_chars_ascii)
  qed
  consider "header_text r1 ''x-api-key'' = None" "header_text r2 ''x-api-key'' = None"
    | k1 k2 where "header_text r1 ''x-api-key'' = Some k1" "header_text r2 ''x-api-key'' = Some k2"
    using assms(1) by (cases "header_text r1 ''x-api-key''"; cases "header_text r2 ''x-api-key''") auto
  then show ?thesis
  proof cases
    case 1
    then show ?thesis using assms(2-4)
      by (cases "header_text r1 ''authorization''"; cases "header_text r2 ''authorization''")
        (simp_all add: actor_identity_def auth_failure_actor_def AuthFailureReason_from_headers_def)
  next
    case 2
    then show ?thesis using eq [OF 2] assms(3,4)
      by (simp add: actor_identity_def safe_char_prefix_def auth_failure_actor_def
          AuthFailureReason_from_headers_def key_prefix_def)
  qed
qed

definition keyed_request :: "string \<Rightarrow> http_request" where
  "keyed_request key = \<lparr> rq_method = ''GET'', rq_path = ''/api/v1/audit/logs'', rq_query = None,
     rq_headers = [''x-api-key'' \<mapsto> key], rq_body = [], rq_peer = None \<rparr>"

theorem audit_actor_masks_witness:
  "actor_identity (keyed_request ''abcdefgh-one'') = actor_identity (keyed_request ''abcdefgh-two'')"
  using audit_actor_masks [of "keyed_request ''abcdefgh-one''" "keyed_request ''abcdefgh-two''"]
  by (simp add: keyed_request_def header_text_def to_str_def has_header_def)

end
