(* ===== verification/Audit_Log.thy ===== *)
theory Audit_Log
  imports "HOL-Library.Multiset" Api_Error Redaction Rate_Limit
begin

text \<open>
  The audit log: the table and its queries (\<^verbatim>\<open>audit.rs\<close>), the middleware that records every administrative request
  (\<^verbatim>\<open>audit_middleware.rs\<close>) and the two handlers that read the log (\<^verbatim>\<open>handlers.rs\<close>).  Statements may be lost or remain
  unacknowledged; the order of rows with equal times, the text of dates and of status codes are parameters.  The middleware
  writes its entries in tasks of their own, after the response is on its way: they are collected in the state.
\<close>

section \<open>Entries\<close>

datatype AuditStatus = Success | Failure | Partial

fun AuditStatus_display :: "AuditStatus \<Rightarrow> string" where
  "AuditStatus_display Success = ''success''"
| "AuditStatus_display Failure = ''failure''"
| "AuditStatus_display Partial = ''partial''"

record AuditLogEntry =
  au_id :: "int option"
  au_timestamp :: int
  au_actor :: string
  au_actor_ip :: "IpAddr option"
  au_action :: string
  au_resource_type :: string
  au_resource_id :: "string option"
  au_details :: "json option"
  au_status :: AuditStatus
  au_error_message :: "string option"
  au_request_id :: "u128 option"
  au_user_agent :: "string option"

definition create_audit_entry ::
  "int \<Rightarrow> string \<Rightarrow> IpAddr option \<Rightarrow> string \<Rightarrow> string \<Rightarrow> string option \<Rightarrow> json option \<Rightarrow> u128 option \<Rightarrow> string option \<Rightarrow> AuditLogEntry" where
  "create_audit_entry now actor actor_ip action resource_type resource_id details request_id user_agent =
     \<lparr> au_id = None, au_timestamp = now, au_actor = actor, au_actor_ip = actor_ip, au_action = action,
       au_resource_type = resource_type, au_resource_id = resource_id, au_details = details, au_status = Success,
       au_error_message = None, au_request_id = request_id, au_user_agent = user_agent \<rparr>"

section \<open>The table: audit.rs\<close>

text \<open>A row of the table: addresses and states are stored as text.\<close>

record AuditRow =
  ar_id :: int
  ar_timestamp :: int
  ar_actor :: string
  ar_actor_ip :: "string option"
  ar_action :: string
  ar_resource_type :: string
  ar_resource_id :: "string option"
  ar_details :: "json option"
  ar_status :: string
  ar_error_message :: "string option"
  ar_request_id :: "u128 option"
  ar_user_agent :: "string option"

record audit_db =
  ad_rows :: "AuditRow list"
  ad_next_id :: int
  ad_calls :: nat

record audit_env =
  av_fate :: "nat \<Rightarrow> fate"
  av_order :: "nat \<Rightarrow> AuditRow list \<Rightarrow> AuditRow list"
  av_failure :: "nat \<Rightarrow> sqlx_error"
  av_parse_date :: "string \<Rightarrow> int option"
  av_time_text :: "int \<Rightarrow> string"
  av_status_text :: "int \<Rightarrow> string"
  av_uuid_text :: "u128 \<Rightarrow> string"

type_synonym 'a audit_op = "(audit_db, sqlx_error, 'a) comp"

definition audit_call :: "audit_env \<Rightarrow> (audit_db \<Rightarrow> ('a \<times> audit_db) option) \<Rightarrow> 'a audit_op" where
  "audit_call e f d = (let n = ad_calls d; d1 = d\<lparr>ad_calls := n + 1\<rparr> in
     case (av_fate e n, f d1) of
       (Done, Some (x, d2)) \<Rightarrow> Ok x d2
     | (Unacked, Some (x, d2)) \<Rightarrow> Err (av_failure e n) d2
     | _ \<Rightarrow> Err (av_failure e n) d1)"

definition to_row :: "int \<Rightarrow> AuditLogEntry \<Rightarrow> AuditRow" where
  "to_row row_id entry =
     \<lparr> ar_id = row_id, ar_timestamp = au_timestamp entry, ar_actor = au_actor entry, ar_actor_ip = map_option show_ip (au_actor_ip entry),
       ar_action = au_action entry, ar_resource_type = au_resource_type entry, ar_resource_id = au_resource_id entry,
       ar_details = au_details entry, ar_status = AuditStatus_display (au_status entry), ar_error_message = au_error_message entry,
       ar_request_id = au_request_id entry, ar_user_agent = au_user_agent entry \<rparr>"

definition audit_log :: "audit_env \<Rightarrow> AuditLogEntry \<Rightarrow> int audit_op" where
  "audit_log e entry = audit_call e (\<lambda>d. Some (ad_next_id d,
     d\<lparr>ad_rows := ad_rows d @ [to_row (ad_next_id d) entry], ad_next_id := ad_next_id d + 1\<rparr>))"

definition status_of_text :: "string \<Rightarrow> AuditStatus" where
  "status_of_text s = (if s = ''success'' then Success else if s = ''failure'' then Failure else if s = ''partial'' then Partial
     else Success)"

definition of_row :: "AuditRow \<Rightarrow> AuditLogEntry" where
  "of_row r =
     \<lparr> au_id = Some (ar_id r), au_timestamp = ar_timestamp r, au_actor = ar_actor r, au_actor_ip = Option.bind (ar_actor_ip r) parse_ip,
       au_action = ar_action r, au_resource_type = ar_resource_type r, au_resource_id = ar_resource_id r, au_details = ar_details r,
       au_status = status_of_text (ar_status r), au_error_message = ar_error_message r, au_request_id = ar_request_id r,
       au_user_agent = ar_user_agent r \<rparr>"

text \<open>The filters of a query; an absent one lets every row through.\<close>

record audit_filter =
  af_actor :: "string option"
  af_action :: "string option"
  af_resource_type :: "string option"
  af_from :: "int option"
  af_to :: "int option"

definition row_matches :: "audit_filter \<Rightarrow> AuditRow \<Rightarrow> bool" where
  "row_matches q r \<longleftrightarrow>
     (case af_actor q of None \<Rightarrow> True | Some a \<Rightarrow> ar_actor r = a) \<and>
     (case af_action q of None \<Rightarrow> True | Some a \<Rightarrow> ar_action r = a) \<and>
     (case af_resource_type q of None \<Rightarrow> True | Some t \<Rightarrow> ar_resource_type r = t) \<and>
     (case af_from q of None \<Rightarrow> True | Some f \<Rightarrow> ar_timestamp r \<ge> f) \<and>
     (case af_to q of None \<Rightarrow> True | Some t \<Rightarrow> ar_timestamp r \<le> t)"

text \<open>A negative limit or offset is refused by the server.\<close>

definition audit_query :: "audit_env \<Rightarrow> audit_filter \<Rightarrow> int \<Rightarrow> int \<Rightarrow> AuditLogEntry list audit_op" where
  "audit_query e q limit offset = audit_call e (\<lambda>d.
     if limit < 0 \<or> offset < 0 then None
     else Some (map of_row (take (nat limit) (drop (nat offset) (av_order e (ad_calls d) (filter (row_matches q) (ad_rows d))))), d))"

record AuditStatistics =
  as_total :: int
  as_successful :: int
  as_failed :: int

definition audit_table_statistics :: "audit_env \<Rightarrow> int \<Rightarrow> int \<Rightarrow> AuditStatistics audit_op" where
  "audit_table_statistics e from_time to_time = audit_call e (\<lambda>d.
     let rows = filter (\<lambda>r. from_time \<le> ar_timestamp r \<and> ar_timestamp r \<le> to_time) (ad_rows d) in
     Some (\<lparr> as_total = int (length rows), as_successful = int (length (filter (\<lambda>r. ar_status r = ''success'') rows)),
       as_failed = int (length (filter (\<lambda>r. ar_status r = ''failure'') rows)) \<rparr>, d))"

section \<open>Handlers\<close>

record AuditLogsQuery =
  al_actor :: "string option"
  al_action :: "string option"
  al_resource_type :: "string option"
  al_from :: "string option"
  al_to :: "string option"
  al_limit :: "int option"
  al_offset :: "int option"

definition opt_text :: "string option \<Rightarrow> json" where
  "opt_text x = (case x of None \<Rightarrow> JNull | Some t \<Rightarrow> JStr t)"

definition entry_json :: "audit_env \<Rightarrow> AuditLogEntry \<Rightarrow> json" where
  "entry_json e x = JObj
     [(''id'', (case au_id x of None \<Rightarrow> JNull | Some n \<Rightarrow> JNum n)), (''timestamp'', JStr (av_time_text e (au_timestamp x))),
      (''actor'', JStr (au_actor x)), (''actor_ip'', opt_text (map_option show_ip (au_actor_ip x))), (''action'', JStr (au_action x)),
      (''resource_type'', JStr (au_resource_type x)), (''resource_id'', opt_text (au_resource_id x)),
      (''details'', (case au_details x of None \<Rightarrow> JNull | Some v \<Rightarrow> v)),
      (''status'', JStr (case au_status x of Success \<Rightarrow> ''Success'' | Failure \<Rightarrow> ''Failure'' | Partial \<Rightarrow> ''Partial'')),
      (''error_message'', opt_text (au_error_message x)), (''request_id'', opt_text (map_option (av_uuid_text e) (au_request_id x))),
      (''user_agent'', opt_text (au_user_agent x))]"

text \<open>The pool of the log is used without the time limit of the other queries, so that its errors are not database errors of the service.\<close>

definition audit_error :: "sqlx_error \<Rightarrow> ApiError" where
  "audit_error err = into_api_error (Plain_Error (sqlx_text err))"

definition query_of :: "audit_env \<Rightarrow> AuditLogsQuery \<Rightarrow> audit_filter" where
  "query_of e p = \<lparr> af_actor = al_actor p, af_action = al_action p, af_resource_type = al_resource_type p,
     af_from = Option.bind (al_from p) (av_parse_date e), af_to = Option.bind (al_to p) (av_parse_date e) \<rparr>"

definition audit_logs :: "audit_env \<Rightarrow> AuditLogsQuery \<Rightarrow> audit_db \<Rightarrow> http_response \<times> audit_db" where
  "audit_logs e p d = (case audit_query e (query_of e p) (min (unwrap_or (al_limit p) 100) 1000) (unwrap_or (al_offset p) 0) d of
     Ok logs d' \<Rightarrow> (json_response 200 (JArr (map (entry_json e) logs)), d')
   | Err err d' \<Rightarrow> (ApiError_into_response (audit_error err), d')
   | Trap \<Rightarrow> (status_response 500, d))"

definition audit_statistics :: "audit_env \<Rightarrow> int \<Rightarrow> string option \<Rightarrow> string option \<Rightarrow> audit_db \<Rightarrow> http_response \<times> audit_db" where
  "audit_statistics e now from_text to_text d =
     (let to_time = unwrap_or (Option.bind to_text (av_parse_date e)) now;
          from_time = unwrap_or (Option.bind from_text (av_parse_date e)) (to_time - 30 * 86400)
      in case audit_table_statistics e from_time to_time d of
        Ok st d' \<Rightarrow> (json_response 200 (JObj [(''total'', JNum (as_total st)), (''successful'', JNum (as_successful st)), (''failed'', JNum (as_failed st))]), d')
      | Err err d' \<Rightarrow> (ApiError_into_response (audit_error err), d')
      | Trap \<Rightarrow> (status_response 500, d))"

section \<open>The middleware: audit\_middleware.rs\<close>

text \<open>\<^verbatim>\<open>split('/').find_map(parse)\<close>; the identifier is written again in decimal.\<close>

definition first_number :: "string \<Rightarrow> string option" where
  "first_number path = (case List.map_filter (parse_signed 64) (split_at CHR ''/'' path) of [] \<Rightarrow> None | n # _ \<Rightarrow> Some (show_signed n))"

definition nth_back :: "nat \<Rightarrow> 'a list \<Rightarrow> 'a option" where
  "nth_back n xs = (if n < length xs then Some (rev xs ! n) else None)"

definition parse_admin_action :: "'net text_lib \<Rightarrow> string \<Rightarrow> string \<Rightarrow> string \<times> string \<times> string option" where
  "parse_admin_action lib path method =
     (if str_contains ''/markets/'' path \<and> str_contains ''/resolve'' path then (''resolve_market'', ''market'', first_number path)
      else if str_contains ''/email/preview/'' path then (''preview_email'', ''email_template'', nth_back 0 (split_at CHR ''/'' path))
      else if str_contains ''/email/test'' path then (''send_test_email'', ''email'', None)
      else if str_contains ''/email/analytics'' path then (''view_email_analytics'', ''email_analytics'', None)
      else if str_contains ''/email/queue/stats'' path then (''view_queue_stats'', ''email_queue'', None)
      else if str_contains ''/email/queue/dead-letter'' path \<and> str_contains ''/requeue'' path
        then (''requeue_dead_letter'', ''email_queue'', nth_back 1 (split_at CHR ''/'' path))
      else if str_contains ''/email/queue/dead-letter'' path then (''list_dead_letter'', ''email_queue'', None)
      else if str_contains ''/audit/logs'' path then (''query_audit_logs'', ''audit_log'', None)
      else (''admin_action'', ''unknown'', Some (to_lowercase lib method @ ''_'' @ map (\<lambda>c. if c = CHR ''/'' then CHR ''_'' else c) path)))"

text \<open>The entry for a request that was not authenticated, and the entry for every request.\<close>

definition auth_failure_entry :: "int \<Rightarrow> u128 \<Rightarrow> http_request \<Rightarrow> AuditLogEntry" where
  "auth_failure_entry now request_id req = (let reason = AuthFailureReason_as_str (AuthFailureReason_from_headers req) in
     (create_audit_entry now (auth_failure_actor req) (rq_peer req) ''auth_failure'' ''authentication'' None
        (Some (JObj [(''reason'', JStr reason), (''path'', JStr (rq_path req)), (''method'', JStr (rq_method req))]))
        (Some request_id) (header_text req ''user-agent''))
       \<lparr>au_status := Failure, au_error_message := Some (''Authentication failed: '' @ reason)\<rparr>)"

definition operation_entry :: "audit_env \<Rightarrow> 'net text_lib \<Rightarrow> int \<Rightarrow> u128 \<Rightarrow> http_request \<Rightarrow> int \<Rightarrow> AuditLogEntry" where
  "operation_entry e lib now request_id req status = (let (action, resource_type, resource_id) = parse_admin_action lib (rq_path req) (rq_method req) in
     (create_audit_entry now (actor_identity req) (rq_peer req) action resource_type resource_id None (Some request_id) (header_text req ''user-agent''))
       \<lparr>au_status := (if is_success_status status then Success else Failure),
        au_error_message := (if \<not> is_success_status status then Some (''HTTP '' @ av_status_text e status) else None)\<rparr>)"

text \<open>The state of the inner handler, with the entries whose writing has been started.\<close>

definition audit_logging_middleware ::
  "audit_env \<Rightarrow> 'net text_lib \<Rightarrow> int \<Rightarrow> u128 \<Rightarrow> ('s \<times> AuditLogEntry list) middleware" where
  "audit_logging_middleware e lib now request_id next req s =
     (let (response, inner, spawned) = next req s;
          status = rs_status response;
          spawned1 = (if status = 401 then spawned @ [auth_failure_entry now request_id req] else spawned)
      in (response, inner, spawned1 @ [operation_entry e lib now request_id req status]))"

section \<open>What is logged can be read\<close>

lemma of_to_row: "of_row (to_row n x) = x\<lparr>au_id := Some n\<rparr>"
proof -
  have "Option.bind (map_option show_ip ip) parse_ip = ip" for ip by (cases ip) (simp_all add: parse_show_ip)
  then show ?thesis by (cases "au_status x") (simp_all add: of_row_def to_row_def status_of_text_def)
qed

definition newest_first :: "(nat \<Rightarrow> AuditRow list \<Rightarrow> AuditRow list) \<Rightarrow> bool" where
  "newest_first order \<longleftrightarrow> (\<forall>n xs. mset (order n xs) = mset xs \<and> sorted_wrt (\<lambda>a b. ar_timestamp b \<le> ar_timestamp a) (order n xs))"

lemma audit_call_Ok:
  "audit_call e f d = Ok x t \<longleftrightarrow> av_fate e (ad_calls d) = Done \<and> f (d\<lparr>ad_calls := ad_calls d + 1\<rparr>) = Some (x, t)"
  by (auto simp: audit_call_def Let_def split: fate.splits option.splits)

lemma audit_log_found:
  assumes "newest_first (av_order e')" "audit_log e x d = Ok n d1" "audit_query e' q limit 0 d1 = Ok out d2"
    "int (length (ad_rows d1)) \<le> limit"
  shows "mset out = mset (map of_row (filter (row_matches q) (ad_rows d1)))"
    "row_matches q (to_row n x) \<Longrightarrow> x\<lparr>au_id := Some n\<rparr> \<in> set out"
    "sorted_wrt (\<lambda>a b. au_timestamp b \<le> au_timestamp a) out"
proof -
  let ?found = "filter (row_matches q) (ad_rows d1)"
  let ?sorted = "av_order e' (ad_calls d1 + 1) ?found"
  have rows: "to_row n x \<in> set (ad_rows d1)" using assms(2) by (auto simp: audit_log_def audit_call_Ok)
  have order: "mset ?sorted = mset ?found" "sorted_wrt (\<lambda>a b. ar_timestamp b \<le> ar_timestamp a) ?sorted"
    using assms(1) by (simp_all only: newest_first_def)
  have "length ?sorted \<le> nat limit"
    using mset_eq_length [OF order(1)] length_filter_le [of "row_matches q" "ad_rows d1"] assms(4) by linarith
  then have out: "out = map of_row ?sorted"
    using assms(3) by (auto simp: audit_query_def audit_call_Ok split: if_splits)
  then show exact: "mset out = mset (map of_row ?found)" using order(1) by (simp del: mset_filter)
  show "sorted_wrt (\<lambda>a b. au_timestamp b \<le> au_timestamp a) out"
    using order(2) unfolding out sorted_wrt_map by (rule sorted_wrt_mono_rel [rotated]) (simp add: of_row_def)
  assume "row_matches q (to_row n x)"
  then have "of_row (to_row n x) \<in> set (map of_row ?found)" using rows by auto
  then show "x\<lparr>au_id := Some n\<rparr> \<in> set out" using mset_eq_setD [OF exact] by (simp add: of_to_row)
qed


definition sample_audit_env :: audit_env where
  "sample_audit_env = \<lparr> av_fate = (\<lambda>_. Done), av_order = (\<lambda>_. sort_key (\<lambda>r. - ar_timestamp r)), av_failure = (\<lambda>_. Other_Sqlx []),
     av_parse_date = (\<lambda>_. None), av_time_text = show_signed, av_status_text = show_signed, av_uuid_text = (\<lambda>_. []) \<rparr>"

definition sample_entry :: AuditLogEntry where
  "sample_entry = create_audit_entry 100 ''api_key:12345678'' None ''resolve_market'' ''market'' (Some ''7'') None None None"


section \<open>Every request leaves its entry\<close>

text \<open>
  The middleware passes the response on unchanged and starts exactly one entry for a request, two if it was not authenticated.  The last
  one names the masked actor and the peer and is a success exactly for a response in the two hundreds; neither holds more of a
  key than its first eight characters.
\<close>

theorem audit_trail_exact:
  "audit_logging_middleware e lib now request_id next req s = (let (response, inner, spawned) = next req s in
     (response, inner, spawned @ (if rs_status response = 401 then [auth_failure_entry now request_id req] else []) @
        [operation_entry e lib now request_id req (rs_status response)]))"
  "au_status (operation_entry e lib now request_id req status) = (if is_success_status status then Success else Failure) \<and>
   au_actor (operation_entry e lib now request_id req status) = actor_identity req \<and>
   au_actor_ip (operation_entry e lib now request_id req status) = rq_peer req \<and>
   au_status (auth_failure_entry now request_id req) = Failure \<and> au_actor (auth_failure_entry now request_id req) = auth_failure_actor req"
  by (simp_all add: audit_logging_middleware_def operation_entry_def auth_failure_entry_def create_audit_entry_def Let_def split: prod.split)

text \<open>The path of a resolution is recognised, with the identifier of the market.\<close>

lemma parse_signed_show:
  assumes "0 \<le> n" "n < 2 ^ 63"
  shows "parse_signed 64 (show_int 10 n) = Some n"
proof -
  have "show_int 10 n \<noteq> []" by (simp add: show_int_def)
  then obtain c t where ct: "show_int 10 n = c # t" by (cases "show_int 10 n") auto
  then have "c \<noteq> CHR ''-''" using show_int_all_digits [OF assms(1)] by (auto simp: all_digits_def to_digit_def)
  moreover have "strip_plus (c # t) = c # t" "all_digits (c # t)" "decimal_value (c # t) = n"
    using show_int_all_digits [OF assms(1)] strip_plus_digits decimal_value_show_int [OF assms(1)] by (simp_all flip: ct)
  ultimately show ?thesis using assms(2) by (simp add: ct parse_signed_def Let_def)
qed

theorem resolution_recognised:
  assumes "0 \<le> n" "n < 2 ^ 63"
  shows "parse_admin_action lib (''/api/v1/markets/'' @ show_signed n @ ''/resolve'') method =
    (''resolve_market'', ''market'', Some (show_signed n))"
proof -
  have path: "show_signed n = show_int 10 n" using assms(1) by (simp add: show_signed_def)
  have no_slash: "CHR ''/'' \<notin> set (show_int 10 n)" using show_int_all_digits [OF assms(1)] by (auto simp: all_digits_def list_all_iff to_digit_def)
  have split: "split_at CHR ''/'' (''/api/v1/markets/'' @ show_int 10 n @ ''/resolve'') =
      [[], ''api'', ''v1'', ''markets'', show_int 10 n, ''resolve'']"
    using no_slash by (simp add: split_at_append)
  have "str_contains ''/markets/'' (''/api/v1/markets/'' @ show_int 10 n @ ''/resolve'')"
    unfolding str_contains_iff by (rule exI [of _ "''/api/v1''"], rule exI [of _ "show_int 10 n @ ''/resolve''"]) simp
  moreover have "str_contains ''/resolve'' (''/api/v1/markets/'' @ show_int 10 n @ ''/resolve'')"
    unfolding str_contains_iff by (rule exI [of _ "''/api/v1/markets/'' @ show_int 10 n"], rule exI [of _ "[]"]) simp
  moreover have "first_number (''/api/v1/markets/'' @ show_int 10 n @ ''/resolve'') = Some (show_int 10 n)"
    unfolding first_number_def split using parse_signed_show [OF assms] path
    by (simp add: map_filter_simps parse_signed_def [of _ "_ # _"] parse_signed_def [of _ "[]"] all_digits_def to_digit_def strip_plus_def)
  ultimately show ?thesis by (simp add: parse_admin_action_def path)
qed

end
