(* ===== verification/Routes.thy ===== *)
theory Routes
  imports Api_Keys Request_Filters Idempotency Audit_Log
begin

text \<open>
  How \<^verbatim>\<open>main.rs\<close> puts the service together: the table of routes and, for each group of them, the stack of middlewares around its
  handlers, with the layers that surround the whole application.  A layer added later is further out.  The handlers are a parameter, by their name; so
  are the CORS and compression layers of \<^verbatim>\<open>tower-http\<close>, the framework's answers for unknown routes, and \<^verbatim>\<open>security::RateLimiter\<close>, which is not in the
  sources.
\<close>

section \<open>State and environment\<close>

text \<open>The cache, the audit entries whose writing has been started, what the versioning layer keeps, and the rest.\<close>

record ('r, 's) service =
  sv_cache :: "'r cache_state"
  sv_log :: "AuditLogEntry list"
  sv_versions :: versioning_state
  sv_rest :: 's

type_synonym ('r, 's) layer = "('r, 's) service middleware"

text \<open>What one request meets: the configuration, the clock and the random identifiers.\<close>

record ('r, 's, 'net) app_env =
  ap_env :: environment
  ap_lib :: "'net text_lib"
  ap_uuids :: uuid_lib
  ap_fresh_id :: u128
  ap_now :: int
  ap_audit :: audit_env
  ap_audit_id :: u128
  ap_sha256 :: "string \<Rightarrow> string"
  ap_auth :: "('r, 's) service ApiKeyAuth"
  ap_whitelist :: "IpAddr list"
  ap_trust_proxy :: bool
  ap_origins :: "string list"
  ap_idempotency :: "('r, 'net) idem_env"
  ap_limiter :: "string \<Rightarrow> ('r, 's) service \<Rightarrow> bool \<times> ('r, 's) service"
  ap_redis :: "'r redis"
  ap_contains :: "'net \<Rightarrow> IpAddr \<Rightarrow> bool"
  ap_cidrs :: "'net list"
  ap_connected :: bool
  ap_limit_fate :: fate
  ap_now_ms :: u64
  ap_limit_id :: u128
  ap_newsletter_max :: nat
  ap_newsletter_window :: u64
  ap_metrics_auth :: "('r, 's) service MetricsAuthConfig"
  ap_signatures :: sign_lib
  ap_lossy :: "string \<Rightarrow> string"
  ap_webhook :: WebhookConfig
  ap_production :: bool
  ap_require_https :: bool
  ap_cors :: "('r, 's) layer"
  ap_compression :: "('r, 's) layer"
  ap_not_found :: http_response

section \<open>Layers over the state of the service\<close>

text \<open>A middleware that works on a part of the state.\<close>

definition on_part :: "('s \<Rightarrow> 'c) \<Rightarrow> ('c \<Rightarrow> 's \<Rightarrow> 's) \<Rightarrow> ('c \<times> 's) middleware \<Rightarrow> 's middleware" where
  "on_part get put mw next req s =
     (case mw (\<lambda>req (c, t). case next req (put c t) of (resp, t') \<Rightarrow> (resp, get t', t')) req (get s, s) of (resp, c, t) \<Rightarrow> (resp, put c t))"

definition with_log :: "(('r, 's) service \<times> AuditLogEntry list) middleware \<Rightarrow> ('r, 's) layer" where
  "with_log mw next req s =
     (case mw (\<lambda>req (t, l). case next req (t\<lparr>sv_log := l\<rparr>) of (resp, t') \<Rightarrow> (resp, t', sv_log t')) req (s, sv_log s) of
        (resp, t, l) \<Rightarrow> (resp, t\<lparr>sv_log := l\<rparr>))"

definition too_many :: "RateLimitError \<Rightarrow> string \<Rightarrow> http_response" where
  "too_many err retry_after = insert_header ''retry-after'' retry_after (json_response 429 (JObj
     [(''error'', JStr (e_error err)), (''message'', JStr (e_message err)), (''retry_after'', JNum (uint (e_retry_after err)))]))"

text \<open>A limiter over the Redis server of the cache.\<close>

definition limited_by :: "(http_request \<Rightarrow> 'r \<Rightarrow> verdict \<times> 'r) \<Rightarrow> ('r, 's) layer" where
  "limited_by limit next req s = (case limit req (cs_store (sv_cache s)) of
     (Next, r) \<Rightarrow> next req (s\<lparr>sv_cache := (sv_cache s)\<lparr>cs_store := r\<rparr>\<rparr>)
   | (Too_Many_Requests err retry_after, r) \<Rightarrow> (too_many err retry_after, s\<lparr>sv_cache := (sv_cache s)\<lparr>cs_store := r\<rparr>\<rparr>))"

definition global_limit :: "('r, 's, 'net) app_env \<Rightarrow> ('r, 's) layer" where
  "global_limit e = limited_by (\<lambda>req. global_rate_limit_middleware (ap_redis e) (ap_contains e) (ap_connected e) (ap_limit_fate e) (ap_trust_proxy e)
     (ap_cidrs e) (header_text req) (rq_peer req) (ap_now_ms e) (ap_limit_id e))"

definition newsletter_limit :: "('r, 's, 'net) app_env \<Rightarrow> ('r, 's) layer" where
  "newsletter_limit e = limited_by (\<lambda>req. newsletter_rate_limit_middleware (ap_redis e) (ap_contains e) (ap_limit_fate e) (ap_trust_proxy e)
     (ap_cidrs e) (ap_newsletter_max e) (ap_newsletter_window e) (header_text req) (rq_peer req))"

definition admin_limit_key :: "http_request \<Rightarrow> string" where
  "admin_limit_key req = ''admin:'' @ extract_client_ip (\<lambda>(_ :: unit) _. False) (header_text req) (rq_peer req) True"

definition admin_rate_limit_middleware :: "('r, 's, 'net) app_env \<Rightarrow> ('r, 's) layer" where
  "admin_rate_limit_middleware e next req s = (case ap_limiter e (admin_limit_key req) s of (allowed, t) \<Rightarrow>
     if \<not> allowed then (too_many \<lparr> e_error = ''rate_limit_exceeded'', e_message = ''Too many admin requests. Please try again later.'',
       e_retry_after = 60 \<rparr> ''60'', t)
     else next req t)"

definition idempotent :: "('r, 's, 'net) app_env \<Rightarrow> ('r, 's) layer" where
  "idempotent e = on_part sv_cache (\<lambda>c s. s\<lparr>sv_cache := c\<rparr>) (idempotency_middleware (ap_idempotency e))"

definition audited :: "('r, 's, 'net) app_env \<Rightarrow> ('r, 's) layer" where
  "audited e = with_log (audit_logging_middleware (ap_audit e) (ap_lib e) (ap_now e) (ap_audit_id e))"

definition correlated :: "('r, 's, 'net) app_env \<Rightarrow> ('r, 's) layer" where
  "correlated e = correlation_id_middleware (ap_uuids e) (ap_fresh_id e)"

definition versioned :: "('r, 's, 'net) app_env \<Rightarrow> ('r, 's) layer" where
  "versioned e = on_part sv_versions (\<lambda>v s. s\<lparr>sv_versions := v\<rparr>) (\<lambda>next. versioning_middleware (ap_lib e) (ap_now e) (\<lambda>_. next))"

section \<open>The stacks\<close>

definition public_stack :: "('r, 's, 'net) app_env \<Rightarrow> ('r, 's) layer" where
  "public_stack e h = global_limit e (versioned e (correlated e h))"

definition metrics_stack :: "('r, 's, 'net) app_env \<Rightarrow> ('r, 's) layer" where
  "metrics_stack e h = correlated e (metrics_auth_middleware (ap_metrics_auth e) h)"

definition newsletter_stack :: "('r, 's, 'net) app_env \<Rightarrow> ('r, 's) layer" where
  "newsletter_stack e h =
     newsletter_limit e
     (csrf_protection_middleware (ap_lib e) (ap_origins e)
     (request_size_validation_middleware (ap_env e)
     (content_type_validation_middleware
     (idempotent e
     (correlated e h)))))"

definition webhook_stack :: "('r, 's, 'net) app_env \<Rightarrow> ('r, 's) layer" where
  "webhook_stack e h =
     correlated e
     (sendgrid_webhook_middleware (ap_signatures e) (ap_lossy e) (ap_now e) (ap_webhook e) (ap_production e)
     (security_headers_middleware
     (request_size_validation_middleware (ap_env e) h)))"

definition admin_stack :: "('r, 's, 'net) app_env \<Rightarrow> ('r, 's) layer" where
  "admin_stack e h =
     correlated e
     (audited e
     (admin_rate_limit_middleware e
     (api_key_middleware (ap_sha256 e) (ap_auth e)
     (ip_whitelist_middleware (ap_whitelist e) (ap_trust_proxy e)
     (request_size_validation_middleware (ap_env e)
     (content_type_validation_middleware
     (idempotent e h)))))))"

definition app_layers :: "('r, 's, 'net) app_env \<Rightarrow> ('r, 's) layer" where
  "app_layers e routes =
     https_redirect_middleware (ap_require_https e)
     (ap_cors e
     (ap_compression e
     (security_headers_middleware
     (request_size_validation_middleware (ap_env e)
     (request_validation_middleware (ap_lib e) routes)))))"

section \<open>Routes\<close>

datatype group = Health_Routes | Public_Routes | Metrics_Routes | Newsletter_Routes | Webhook_Routes | Admin_Routes

definition ROUTES :: "(string \<times> string \<times> string \<times> group) list" where
  "ROUTES =
    [(''/health'', ''GET'', ''health'', Health_Routes),
     (''/health/live'', ''GET'', ''health_live'', Health_Routes),
     (''/health/ready'', ''GET'', ''health_ready'', Health_Routes),
     (''/health/dependencies'', ''GET'', ''health_dependencies'', Health_Routes),
     (''/api/v1/blockchain/health'', ''GET'', ''blockchain_health'', Public_Routes),
     (''/api/v1/blockchain/markets/:market_id'', ''GET'', ''blockchain_market_data'', Public_Routes),
     (''/api/v1/blockchain/stats'', ''GET'', ''blockchain_platform_stats'', Public_Routes),
     (''/api/v1/blockchain/users/:user/bets'', ''GET'', ''blockchain_user_bets'', Public_Routes),
     (''/api/v1/blockchain/oracle/:market_id'', ''GET'', ''blockchain_oracle_result'', Public_Routes),
     (''/api/v1/blockchain/tx/:tx_hash'', ''GET'', ''blockchain_tx_status'', Public_Routes),
     (''/api/v1/statistics'', ''GET'', ''statistics'', Public_Routes),
     (''/api/v1/markets/featured'', ''GET'', ''featured_markets'', Public_Routes),
     (''/api/v1/content'', ''GET'', ''content'', Public_Routes),
     (''/metrics'', ''GET'', ''metrics'', Metrics_Routes),
     (''/api/v1/newsletter/subscribe'', ''POST'', ''newsletter_subscribe'', Newsletter_Routes),
     (''/api/v1/newsletter/confirm'', ''GET'', ''newsletter_confirm'', Newsletter_Routes),
     (''/api/v1/newsletter/unsubscribe'', ''GET'', ''newsletter_unsubscribe'', Newsletter_Routes),
     (''/api/v1/newsletter/gdpr/request-token'', ''POST'', ''newsletter_gdpr_request_token'', Newsletter_Routes),
     (''/api/v1/newsletter/gdpr/export'', ''POST'', ''newsletter_gdpr_export'', Newsletter_Routes),
     (''/api/v1/newsletter/gdpr/delete'', ''DELETE'', ''newsletter_gdpr_delete'', Newsletter_Routes),
     (''/webhooks/sendgrid'', ''POST'', ''sendgrid_webhook'', Webhook_Routes),
     (''/api/v1/markets/:market_id/resolve'', ''POST'', ''resolve_market'', Admin_Routes),
     (''/api/blockchain/replay'', ''POST'', ''blockchain_replay'', Admin_Routes),
     (''/api/v1/email/preview/:template_name'', ''GET'', ''email_preview'', Admin_Routes),
     (''/api/v1/email/test'', ''POST'', ''email_send_test'', Admin_Routes),
     (''/api/v1/email/analytics'', ''GET'', ''email_analytics'', Admin_Routes),
     (''/api/v1/email/queue/stats'', ''GET'', ''email_queue_stats'', Admin_Routes),
     (''/api/v1/email/queue/dead-letter'', ''GET'', ''email_dead_letter_list'', Admin_Routes),
     (''/api/v1/email/queue/dead-letter/:job_id/requeue'', ''POST'', ''email_dead_letter_requeue'', Admin_Routes),
     (''/api/v1/audit/logs'', ''GET'', ''audit_logs'', Admin_Routes),
     (''/api/v1/audit/statistics'', ''GET'', ''audit_statistics'', Admin_Routes),
     (''/api/v1/admin/api-keys'', ''GET'', ''list_api_keys'', Admin_Routes),
     (''/api/v1/admin/api-keys/rotate'', ''POST'', ''rotate_api_key'', Admin_Routes)]"

text \<open>A segment that begins with a colon stands for any non-empty segment.\<close>

fun segments_match :: "string list \<Rightarrow> string list \<Rightarrow> bool" where
  "segments_match [] [] = True"
| "segments_match (t # ts) (p # ps) \<longleftrightarrow> (if starts_with '':'' t then p \<noteq> [] else p = t) \<and> segments_match ts ps"
| "segments_match _ _ = False"

definition path_matches :: "string \<Rightarrow> string \<Rightarrow> bool" where
  "path_matches template path \<longleftrightarrow> segments_match (split_at CHR ''/'' template) (split_at CHR ''/'' path)"

definition find_route :: "string \<Rightarrow> (string \<times> string \<times> string \<times> group) option" where
  "find_route path = find (\<lambda>(template, _). path_matches template path) ROUTES"

definition stack_of :: "('r, 's, 'net) app_env \<Rightarrow> group \<Rightarrow> ('r, 's) layer" where
  "stack_of e g = (case g of
     Health_Routes \<Rightarrow> id
   | Public_Routes \<Rightarrow> public_stack e
   | Metrics_Routes \<Rightarrow> metrics_stack e
   | Newsletter_Routes \<Rightarrow> newsletter_stack e
   | Webhook_Routes \<Rightarrow> webhook_stack e
   | Admin_Routes \<Rightarrow> admin_stack e)"

text \<open>A handler for GET also answers HEAD; another method is answered 405, within the stack of the group.\<close>

definition by_method :: "string \<Rightarrow> 's handler \<Rightarrow> 's handler" where
  "by_method verb h req s =
     (if rq_method req = verb \<or> verb = ''GET'' \<and> rq_method req = ''HEAD'' then h req s else (status_response 405, s))"

definition routes :: "('r, 's, 'net) app_env \<Rightarrow> (string \<Rightarrow> ('r, 's) service handler) \<Rightarrow> ('r, 's) service handler" where
  "routes e handler req s = (case find_route (rq_path req) of
     Some (_, verb, name, g) \<Rightarrow> stack_of e g (by_method verb (handler name)) req s
   | None \<Rightarrow> (ap_not_found e, s))"

definition app :: "('r, 's, 'net) app_env \<Rightarrow> (string \<Rightarrow> ('r, 's) service handler) \<Rightarrow> ('r, 's) service handler" where
  "app e handler = app_layers e (routes e handler)"

section \<open>When a handler runs\<close>

text \<open>A layer of a library that looks at the answer of the rest of the stack to the request it was given, and at nothing else of it.\<close>

definition through_only :: "('r, 's) layer \<Rightarrow> bool" where
  "through_only mw \<longleftrightarrow> (\<forall>next next' req s. next req s = next' req s \<longrightarrow> mw next req s = mw next' req s)"

text \<open>The request with the identifier of the correlation layer.\<close>

definition request_id :: "('r, 's, 'net) app_env \<Rightarrow> http_request \<Rightarrow> string" where
  "request_id e req = unwrap_or (Option.bind (header_text req ''x-request-id'') (parse_valid_request_id (ap_uuids e))) (uuid_text (ap_uuids e) (ap_fresh_id e))"

definition tagged :: "('r, 's, 'net) app_env \<Rightarrow> http_request \<Rightarrow> http_request" where
  "tagged e req = req\<lparr>rq_headers := (rq_headers req)(''x-request-id'' \<mapsto> request_id e req)\<rparr>"

lemma correlated_eq:
  "correlated e h req s = (case h (tagged e req) s of (resp, t) \<Rightarrow> (insert_header ''x-request-id'' (request_id e req) resp, t))"
  by (simp add: correlated_def correlation_id_middleware_def tagged_def request_id_def Let_def)

lemma tagged_sel [simp]:
  "rq_method (tagged e req) = rq_method req" "rq_path (tagged e req) = rq_path req" "rq_query (tagged e req) = rq_query req"
  "rq_peer (tagged e req) = rq_peer req" "rq_body (tagged e req) = rq_body req"
  "name \<noteq> ''x-request-id'' \<Longrightarrow> header_text (tagged e req) name = header_text req name"
  by (simp_all add: tagged_def header_text_def)

lemma tagged_header_or_empty [simp]: "name \<noteq> ''x-request-id'' \<Longrightarrow> header_or_empty (tagged e req) name = header_or_empty req name"
  by (simp add: header_or_empty_def)

text \<open>The outer layers do not run the routes when they answer themselves.\<close>

lemma app_layers_guard:
  assumes "through_only (ap_cors e)" "through_only (ap_compression e)" "app_layers e inner req s \<noteq> app_layers e inner' req s"
  shows "redirected (ap_require_https e) req = None \<and> oversized (ap_env e) req = None \<and> suspicious (ap_lib e) req = None \<and> inner req s \<noteq> inner' req s"
proof -
  let ?rest = "\<lambda>r. security_headers_middleware (request_size_validation_middleware (ap_env e) (request_validation_middleware (ap_lib e) r))"
  have red: "redirected (ap_require_https e) req = None"
    using assms(3) by (auto simp: app_layers_def https_redirect_middleware_def filter_with_def split: option.splits)
  then have "ap_cors e (ap_compression e (?rest inner)) req s \<noteq> ap_cors e (ap_compression e (?rest inner')) req s"
    using assms(3) by (simp add: app_layers_def https_redirect_middleware_def filter_with_def)
  then have "ap_compression e (?rest inner) req s \<noteq> ap_compression e (?rest inner') req s" using assms(1) unfolding through_only_def by blast
  then have "?rest inner req s \<noteq> ?rest inner' req s" using assms(2) unfolding through_only_def by blast
  with red show ?thesis
    by (auto simp: security_headers_middleware_def request_size_validation_middleware_def request_validation_middleware_def filter_with_def split: option.splits)
qed

lemma correlated_guard: "correlated e h req s \<noteq> correlated e h' req s \<Longrightarrow> h (tagged e req) s \<noteq> h' (tagged e req) s"
  by (auto simp: correlated_eq)

lemma audited_guard: "audited e h req s \<noteq> audited e h' req s \<Longrightarrow> h req s \<noteq> h' req s"
  by (auto simp: audited_def with_log_def audit_logging_middleware_def split: prod.splits)

lemma admin_limit_guard:
  "admin_rate_limit_middleware e h req s \<noteq> admin_rate_limit_middleware e h' req s \<Longrightarrow>
    \<exists>t. ap_limiter e (admin_limit_key req) s = (True, t) \<and> h req t \<noteq> h' req t"
  by (cases "ap_limiter e (admin_limit_key req) s") (auto simp: admin_rate_limit_middleware_def split: if_splits)

lemma admin_stack_guard:
  assumes "admin_stack e h req s \<noteq> admin_stack e h' req s"
  shows "\<exists>t. ap_limiter e (admin_limit_key (tagged e req)) s = (True, t) \<and> verify_async (ap_sha256 e) (ap_auth e) (header_or_empty req ''x-api-key'') t \<and>
    is_allowed (ap_whitelist e) (extract_client_ip (\<lambda>(_ :: unit) _. False) (header_text (tagged e req)) (rq_peer req) (ap_trust_proxy e)) \<and>
    wrong_content_type req = None \<and> idempotent e h (tagged e req) t \<noteq> idempotent e h' (tagged e req) t"
proof -
  let ?req = "tagged e req"
  obtain t where t: "ap_limiter e (admin_limit_key ?req) s = (True, t)" and differ:
      "api_key_middleware (ap_sha256 e) (ap_auth e) (ip_whitelist_middleware (ap_whitelist e) (ap_trust_proxy e)
         (request_size_validation_middleware (ap_env e) (content_type_validation_middleware (idempotent e h)))) ?req t \<noteq>
       api_key_middleware (ap_sha256 e) (ap_auth e) (ip_whitelist_middleware (ap_whitelist e) (ap_trust_proxy e)
         (request_size_validation_middleware (ap_env e) (content_type_validation_middleware (idempotent e h')))) ?req t"
    using assms unfolding admin_stack_def by (blast dest: correlated_guard audited_guard admin_limit_guard)
  have "wrong_content_type ?req = wrong_content_type req" by (simp add: wrong_content_type_def)
  with differ t show ?thesis
    by (auto simp: api_key_middleware_def ip_whitelist_middleware_def request_size_validation_middleware_def content_type_validation_middleware_def
        filter_with_def Let_def split: if_splits option.splits)
qed

text \<open>
  C11. Nothing an administrative handler does can happen, and nothing of what it answers can be seen, unless the request was not redirected, passed
  the limits and filters, came with an accepted API key and from an allowed address, and has the right content type: otherwise the answer and the state
  the service is left in are the same for any two handlers.
\<close>

theorem admin_request_guarded:
  assumes "through_only (ap_cors e)" "through_only (ap_compression e)"
    and "find_route (rq_path req) = Some (template, verb, name, Admin_Routes)" "app e handler req s \<noteq> app e handler' req s"
  shows "\<exists>t. ap_limiter e (admin_limit_key (tagged e req)) s = (True, t) \<and> verify_async (ap_sha256 e) (ap_auth e) (header_or_empty req ''x-api-key'') t \<and>
    is_allowed (ap_whitelist e) (extract_client_ip (\<lambda>(_ :: unit) _. False) (header_text (tagged e req)) (rq_peer req) (ap_trust_proxy e)) \<and>
    (rq_method req = verb \<or> verb = ''GET'' \<and> rq_method req = ''HEAD'') \<and> wrong_content_type req = None \<and> oversized (ap_env e) req = None \<and>
    suspicious (ap_lib e) req = None \<and> redirected (ap_require_https e) req = None"
proof -
  from app_layers_guard [OF assms(1,2) assms(4) [unfolded app_def]]
  have outer: "redirected (ap_require_https e) req = None \<and> oversized (ap_env e) req = None \<and> suspicious (ap_lib e) req = None"
    and "routes e handler req s \<noteq> routes e handler' req s" by blast+
  then have "admin_stack e (by_method verb (handler name)) req s \<noteq> admin_stack e (by_method verb (handler' name)) req s"
    using assms(3) by (simp add: routes_def stack_of_def)
  from admin_stack_guard [OF this] obtain t where t:
    "ap_limiter e (admin_limit_key (tagged e req)) s = (True, t)" "verify_async (ap_sha256 e) (ap_auth e) (header_or_empty req ''x-api-key'') t"
    "is_allowed (ap_whitelist e) (extract_client_ip (\<lambda>(_ :: unit) _. False) (header_text (tagged e req)) (rq_peer req) (ap_trust_proxy e))"
    "wrong_content_type req = None"
    and idem: "idempotent e (by_method verb (handler name)) (tagged e req) t \<noteq> idempotent e (by_method verb (handler' name)) (tagged e req) t" by blast
  have "rq_method req = verb \<or> verb = ''GET'' \<and> rq_method req = ''HEAD''"
  proof (rule ccontr)
    assume "\<not> ?thesis"
    then have "by_method verb (handler name) (tagged e req) u = by_method verb (handler' name) (tagged e req) u" for u
      by (auto simp: by_method_def)
    with idem show False
      by (auto simp: idempotent_def on_part_def idempotency_middleware_def run_and_store_def Let_def split: option.splits prod.splits)
  qed
  with t outer show ?thesis by blast
qed

text \<open>The same for the newsletter routes, with the origin check, and for the webhook, with its signature.\<close>

lemma limited_guard: "limited_by l h req s \<noteq> limited_by l h' req s \<Longrightarrow> \<exists>r. l req (cs_store (sv_cache s)) = (Next, r)"
  by (auto simp: limited_by_def split: prod.splits verdict.splits)

theorem newsletter_request_guarded:
  assumes "through_only (ap_cors e)" "through_only (ap_compression e)"
    and "find_route (rq_path req) = Some (template, verb, name, Newsletter_Routes)" "app e handler req s \<noteq> app e handler' req s"
  shows "(\<exists>r. newsletter_rate_limit_middleware (ap_redis e) (ap_contains e) (ap_limit_fate e) (ap_trust_proxy e)
       (ap_cidrs e) (ap_newsletter_max e) (ap_newsletter_window e) (header_text req) (rq_peer req) (cs_store (sv_cache s)) = (Next, r)) \<and>
    forged (ap_lib e) (ap_origins e) req = None \<and> wrong_content_type req = None \<and> oversized (ap_env e) req = None"
proof -
  from app_layers_guard [OF assms(1,2) assms(4) [unfolded app_def]]
  have "oversized (ap_env e) req = None" and differ: "newsletter_stack e (by_method verb (handler name)) req s \<noteq> newsletter_stack e (by_method verb (handler' name)) req s"
    using assms(3) by (simp_all add: routes_def stack_of_def)
  moreover from differ obtain r where "newsletter_rate_limit_middleware (ap_redis e) (ap_contains e) (ap_limit_fate e) (ap_trust_proxy e)
       (ap_cidrs e) (ap_newsletter_max e) (ap_newsletter_window e) (header_text req) (rq_peer req) (cs_store (sv_cache s)) = (Next, r)"
    unfolding newsletter_stack_def newsletter_limit_def by (blast dest: limited_guard)
  moreover from differ this have "forged (ap_lib e) (ap_origins e) req = None \<and> wrong_content_type req = None"
    by (auto simp: newsletter_stack_def newsletter_limit_def limited_by_def csrf_protection_middleware_def request_size_validation_middleware_def
        content_type_validation_middleware_def filter_with_def split: option.splits)
  ultimately show ?thesis by blast
qed

theorem webhook_request_guarded:
  assumes "through_only (ap_cors e)" "through_only (ap_compression e)"
    and "find_route (rq_path req) = Some (template, verb, name, Webhook_Routes)" "app e handler req s \<noteq> app e handler' req s" "wh_secret (ap_webhook e) = Some secret"
  shows "sendgrid_webhook_middleware (ap_signatures e) (ap_lossy e) (ap_now e) (ap_webhook e) (ap_production e)
    (\<lambda>_ (_ :: unit). (status_response 200, ())) (tagged e req) () = (status_response 200, ())"
proof -
  from app_layers_guard [OF assms(1,2) assms(4) [unfolded app_def]]
  have "webhook_stack e (by_method verb (handler name)) req s \<noteq> webhook_stack e (by_method verb (handler' name)) req s"
    using assms(3) by (simp add: routes_def stack_of_def)
  from correlated_guard [OF this [unfolded webhook_stack_def]] assms(5) show ?thesis
    by (auto simp: sendgrid_webhook_middleware_def Let_def split: if_splits)
qed

section \<open>What is recorded of an administrative request\<close>

text \<open>The log is left alone by the layers inside the audit layer.\<close>

definition leaves_log :: "('r, 's) service handler \<Rightarrow> bool" where
  "leaves_log h \<longleftrightarrow> (\<forall>req s. sv_log (snd (h req s)) = sv_log s)"

lemma leaves_logD: "leaves_log h \<Longrightarrow> h req s = (resp, t) \<Longrightarrow> sv_log t = sv_log s"
  unfolding leaves_log_def by (metis snd_conv)

lemma leaves_log_filter: "leaves_log h \<Longrightarrow> leaves_log (filter_with reject h)"
  by (auto simp: leaves_log_def filter_with_def split: option.split)

lemma leaves_log_idempotent:
  assumes "leaves_log h"
  shows "leaves_log (idempotent e h)"
  unfolding leaves_log_def
proof (intro allI)
  fix req s
  show "sv_log (snd (idempotent e h req s)) = sv_log s"
    by (auto simp: idempotent_def on_part_def idempotency_middleware_def run_and_store_def Let_def
        split: option.splits prod.splits dest!: leaves_logD [OF assms])
qed

lemma leaves_log_admin:
  assumes "leaves_log h" "\<And>k s. sv_log (snd (ap_limiter e k s)) = sv_log s"
  shows "leaves_log (admin_rate_limit_middleware e (api_key_middleware (ap_sha256 e) (ap_auth e)
    (ip_whitelist_middleware (ap_whitelist e) (ap_trust_proxy e)
    (request_size_validation_middleware (ap_env e) (content_type_validation_middleware (idempotent e h))))))"
proof -
  let ?inner = "request_size_validation_middleware (ap_env e) (content_type_validation_middleware (idempotent e h))"
  have "leaves_log ?inner" unfolding request_size_validation_middleware_def content_type_validation_middleware_def
    by (intro leaves_log_filter leaves_log_idempotent assms(1))
  then have "sv_log (snd (?inner req t)) = sv_log t" for req t by (simp add: leaves_log_def)
  moreover have "ap_limiter e k s = (b, t) \<Longrightarrow> sv_log t = sv_log s" for k s b t using assms(2) [of k s] by simp
  ultimately show ?thesis
    by (auto simp: leaves_log_def admin_rate_limit_middleware_def api_key_middleware_def ip_whitelist_middleware_def Let_def split: prod.splits)
qed


section \<open>Headers\<close>

text \<open>A layer of a library that adds headers but does not change those that are set.\<close>

definition keeps_headers :: "('r, 's) layer \<Rightarrow> bool" where
  "keeps_headers mw \<longleftrightarrow> (\<forall>next req s name value. (\<forall>req s. rs_headers (fst (next req s)) name = Some value) \<longrightarrow> rs_headers (fst (mw next req s)) name = Some value)"

lemma fold_headers:
  "distinct (map fst hs) \<Longrightarrow> (name, value) \<in> set hs \<Longrightarrow> rs_headers (fold (\<lambda>(name, value). insert_header name value) hs resp) name = Some value"
proof (induction hs arbitrary: resp)
  case (Cons x hs)
  have other: "name \<notin> fst ` set hs \<Longrightarrow> rs_headers (fold (\<lambda>(name, value). insert_header name value) hs resp) name = rs_headers resp name" for resp
    by (induction hs arbitrary: resp) (auto simp: insert_header_def)
  show ?case
  proof (cases "(name, value) \<in> set hs")
    case False
    with Cons.prems(2) have x: "x = (name, value)" by simp
    then have "name \<notin> fst ` set hs" using Cons.prems(1) by simp
    with x show ?thesis using other [of "insert_header name value resp"] by (simp only: fold_simps prod.case) (simp add: insert_header_def)
  qed (use Cons in auto)
qed simp

text \<open>Every answer that is not the redirect to HTTPS carries every security header, whatever happened inside.\<close>

theorem answers_carry_security_headers:
  assumes "keeps_headers (ap_cors e)" "keeps_headers (ap_compression e)" "redirected (ap_require_https e) req = None"
    and "(name, value) \<in> set security_headers"
  shows "rs_headers (fst (app e handler req s)) name = Some value"
proof -
  have "distinct (map fst security_headers)" by (simp add: security_headers_def)
  then have "rs_headers (fst (security_headers_middleware h req s)) name = Some value" for h :: "('a, 'b) service handler" and req s
    using assms(4) by (auto simp: security_headers_middleware_def fold_headers split: prod.split)
  then show ?thesis using assms(1-3)
    by (simp add: app_def app_layers_def https_redirect_middleware_def filter_with_def keeps_headers_def)
qed

text \<open>
  The correlation layer is the innermost of the public and newsletter stacks, so that the answers of the layers around it carry no request
  identifier, even if the client sent one; on the administrative routes it is the outermost.
\<close>

theorem limited_answer_without_id:
  assumes "global_rate_limit_middleware (ap_redis e) (ap_contains e) (ap_connected e) (ap_limit_fate e) (ap_trust_proxy e)
     (ap_cidrs e) (header_text req) (rq_peer req) (ap_now_ms e) (ap_limit_id e) (cs_store (sv_cache s)) = (Too_Many_Requests err retry_after, r)"
  shows "rs_status (fst (public_stack e h req s)) = 429 \<and> rs_headers (fst (public_stack e h req s)) ''x-request-id'' = None"
  using assms by (simp add: public_stack_def global_limit_def limited_by_def too_many_def insert_header_def json_response_def)

theorem admin_answer_with_id:
  "rs_headers (fst (admin_stack e h req s)) ''x-request-id'' = Some (request_id e req)"
  by (auto simp: admin_stack_def correlated_eq insert_header_def split: prod.split)

section \<open>Examples\<close>

definition sample_app :: "(table, nat, unit) app_env" where
  "sample_app =
    \<lparr> ap_env = Map.empty, ap_lib = plain_lib, ap_uuids = \<lparr> uuid_parse = (\<lambda>_. None), uuid_version = (\<lambda>_. 4), uuid_text = (\<lambda>_. ''id'') \<rparr>,
      ap_fresh_id = 1, ap_now = 0, ap_audit = sample_audit_env, ap_audit_id = 2, ap_sha256 = (\<lambda>s. s),
      ap_auth = \<lparr> valid_keys = [''key''], auth_db = None \<rparr>, ap_whitelist = [], ap_trust_proxy = False, ap_origins = [],
      ap_idempotency = sample_idem (to_cached [] (status_response 200)), ap_limiter = (\<lambda>_ s. (True, s)), ap_redis = table_redis,
      ap_contains = (\<lambda>_ _. False), ap_cidrs = [], ap_connected = False, ap_limit_fate = Done, ap_now_ms = 0, ap_limit_id = 0,
      ap_newsletter_max = 3, ap_newsletter_window = 60, ap_metrics_auth = \<lparr> mc_public = False, mc_allowlist = [], mc_auth = \<lparr> valid_keys = [''key''], auth_db = None \<rparr> \<rparr>,
      ap_signatures = sample_sign_lib, ap_lossy = (\<lambda>s. s), ap_webhook = \<lparr> wh_secret = None, wh_replay_window_secs = 300 \<rparr>, ap_production = True,
      ap_require_https = False, ap_cors = id, ap_compression = id, ap_not_found = status_response 404 \<rparr>"

definition sample_service :: "(table, nat) service" where
  "sample_service = \<lparr> sv_cache = fresh_cache, sv_log = [], sv_versions = \<lparr> last_logged = Map.empty, deprecated_calls = (\<lambda>_. 0) \<rparr>, sv_rest = 0 \<rparr>"

definition admin_request :: "string \<Rightarrow> http_request" where
  "admin_request key = \<lparr> rq_method = ''GET'', rq_path = ''/api/v1/audit/logs'', rq_query = None, rq_headers = [''x-api-key'' \<mapsto> key],
     rq_body = [], rq_peer = None \<rparr>"

definition answering :: "int \<Rightarrow> string \<Rightarrow> (table, nat) service handler" where
  "answering status name req s = (status_response status, s)"

lemma sample_app_sel [simp]:
  "ap_env sample_app = Map.empty" "ap_lib sample_app = plain_lib" "ap_cors sample_app = id" "ap_compression sample_app = id"
  "ap_require_https sample_app = False" "ap_limiter sample_app k s = (True, s)" "ap_auth sample_app = \<lparr> valid_keys = [''key''], auth_db = None \<rparr>"
  "ap_whitelist sample_app = []" "ap_connected sample_app = False"
  by (simp_all add: sample_app_def)

lemma sample_layers: "through_only (ap_cors sample_app)" "through_only (ap_compression sample_app)"
  "keeps_headers (ap_cors sample_app)" "keeps_headers (ap_compression sample_app)"
  by (simp_all add: through_only_def keeps_headers_def)

lemma audit_logs_route: "find_route ''/api/v1/audit/logs'' = Some (''/api/v1/audit/logs'', ''GET'', ''audit_logs'', Admin_Routes)"
  by (simp add: find_route_def ROUTES_def path_matches_def starts_with_def)

lemma admin_request_sel [simp]:
  "rq_method (admin_request key) = ''GET''" "rq_path (admin_request key) = ''/api/v1/audit/logs''" "rq_query (admin_request key) = None"
  "rq_body (admin_request key) = []" "rq_headers (admin_request key) name = (if name = ''x-api-key'' then Some key else None)"
  by (simp_all add: admin_request_def)

lemma admin_request_reaches:
  "fst (app sample_app (answering status) (admin_request ''key'') sample_service) =
    fold (\<lambda>(name, value). insert_header name value) security_headers (insert_header ''x-request-id'' ''id'' (status_response status))"
proof -
  have no: "oversized Map.empty r = None \<and> wrong_content_type r = None" if "r = admin_request ''key'' \<or> r = tagged sample_app (admin_request ''key'')" for r
    using that by (auto simp: oversized_def wrong_content_type_def body_limit_def parse_request_body_max_bytes_def positive_or_def
        DEFAULT_REQUEST_BODY_MAX_BYTES_def to_bytes_def JSON_REQUIRED_METHODS_def header_text_def tagged_def Let_def)
  have fine: "suspicious plain_lib (admin_request ''key'') = None" "redirected False (admin_request ''key'') = None"
    by (simp_all add: suspicious_def redirected_def plain_lib_def SUSPICIOUS_PATH_PATTERNS_def ascii_lower_def starts_with_def)
  have key: "verify_async (ap_sha256 sample_app) \<lparr> valid_keys = [''key''], auth_db = None \<rparr> ''key'' s" for s
    by (simp add: verify_async_def verify_def)
  have header: "header_or_empty (admin_request ''key'') ''x-api-key'' = ''key''"
    by (simp add: header_or_empty_def header_text_def to_str_def)
  have id: "request_id sample_app (admin_request ''key'') = ''id''" by (simp add: request_id_def header_text_def sample_app_def)
  have raw: "raw_key_of (tagged sample_app (admin_request ''key'')) = None" by (simp add: raw_key_of_def header_text_def tagged_def)
  show ?thesis
    by (simp add: app_def app_layers_def https_redirect_middleware_def request_size_validation_middleware_def request_validation_middleware_def
        filter_with_def no fine security_headers_middleware_def routes_def audit_logs_route stack_of_def admin_stack_def correlated_eq id audited_def
        with_log_def audit_logging_middleware_def admin_rate_limit_middleware_def api_key_middleware_def header key ip_whitelist_middleware_def is_allowed_def
        content_type_validation_middleware_def idempotent_def on_part_def idempotency_middleware_def raw by_method_def answering_def Let_def)
qed

theorem admin_request_guarded_witness:
  "\<exists>t. ap_limiter sample_app (admin_limit_key (tagged sample_app (admin_request ''key''))) sample_service = (True, t) \<and>
    verify_async (ap_sha256 sample_app) (ap_auth sample_app) (header_or_empty (admin_request ''key'') ''x-api-key'') t"
proof -
  have "rs_status (fold (\<lambda>(name, value). insert_header name value) hs resp) = rs_status resp" for hs resp
    by (induction hs arbitrary: resp) (auto simp: insert_header_def)
  then have "rs_status (fst (app sample_app (answering status) (admin_request ''key'') sample_service)) = status" for status
    by (simp add: admin_request_reaches insert_header_def status_response_def)
  from this [of 200] this [of 201]
  have "app sample_app (answering 200) (admin_request ''key'') sample_service \<noteq> app sample_app (answering 201) (admin_request ''key'') sample_service"
    by fastforce
  from admin_request_guarded [OF sample_layers(1,2) _ this, of "''/api/v1/audit/logs''" "''GET''" "''audit_logs''"] show ?thesis
    by (auto simp: audit_logs_route)
qed

theorem answers_carry_security_headers_witness:
  "rs_headers (fst (app sample_app (answering 200) (admin_request ''no'') sample_service)) ''x-frame-options'' = Some ''DENY''"
  by (rule answers_carry_security_headers [OF sample_layers(3,4)]) (simp_all add: redirected_def security_headers_def)


end
