(* ===== verification/Newsletter.thy ===== *)
theory Newsletter
  imports "HOL-Library.AList" Outcomes Email_Queue Redaction Api_Keys Api_Error
begin

text \<open>
  The newsletter: the table of subscribers (\<^verbatim>\<open>db.rs\<close>), the tokens (\<^verbatim>\<open>newsletter.rs\<close>) and the request handlers
  (\<^verbatim>\<open>handlers.rs\<close>).  The state is the world of the email subsystem and the rows of the table.  Every statement may be
  lost or may take effect without being acknowledged, by the schedule of the email subsystem; the error of the driver
  is a parameter, like the address validator, the random tokens and the two functions on unsubscribe tokens
  that the handlers call but the sources do not define.  What is only logged is left out, except where computing it can panic.
\<close>

section \<open>Tokens: newsletter.rs\<close>

definition GDPR_TOKEN_TTL_SECS :: int where
  "GDPR_TOKEN_TTL_SECS = 900"

definition gdpr_token_payload :: "string \<Rightarrow> int \<Rightarrow> string" where
  "gdpr_token_payload email expires_at = ''gdpr:'' @ email @ '':'' @ show_int 10 expires_at"

text \<open>The sum of two 64-bit times wraps around.\<close>

definition generate_gdpr_verification_token :: "sign_lib \<Rightarrow> int \<Rightarrow> string \<Rightarrow> string \<Rightarrow> string" where
  "generate_gdpr_verification_token sl now email secret =
     (let expires_at = (now + GDPR_TOKEN_TTL_SECS) mod 2 ^ 64;
          signature = generate_signature sl (gdpr_token_payload email expires_at) secret
      in show_int 10 expires_at @ ''.'' @ signature)"

definition verify_gdpr_verification_token :: "sign_lib \<Rightarrow> int \<Rightarrow> string \<Rightarrow> string \<Rightarrow> string \<Rightarrow> bool" where
  "verify_gdpr_verification_token sl now token email secret = (case split_once CHR ''.'' token of
     None \<Rightarrow> False
   | Some (expires_at_str, signature) \<Rightarrow> (case parse_unsigned 64 expires_at_str of
       None \<Rightarrow> False
     | Some expires_at \<Rightarrow> if now > expires_at then False
         else verify_signature sl (gdpr_token_payload email expires_at) signature secret))"

text \<open>Opaque unsubscribe tokens: the hash under which a token is stored, and the store with its two operations.\<close>

definition generate_opaque_unsubscribe_token :: "(string \<Rightarrow> string) \<Rightarrow> string \<Rightarrow> string \<times> string" where
  "generate_opaque_unsubscribe_token sha256_hex raw = (raw, sha256_hex raw)"

definition hash_unsubscribe_token :: "(string \<Rightarrow> string) \<Rightarrow> string \<Rightarrow> string" where
  "hash_unsubscribe_token sha256_hex raw_token = sha256_hex raw_token"

datatype UnsubscribeTokenResult = Valid u128 | AlreadyUsed | InvalidOrExpired

record OpaqueEntry =
  oe_subscriber_id :: u128
  oe_expires_at :: int
  oe_used_at :: "int option"

record OpaqueTokenStore =
  os_entries :: "string \<rightharpoonup> OpaqueEntry"
  os_token_ttl :: int

definition OpaqueTokenStore_new :: "int \<Rightarrow> OpaqueTokenStore" where
  "OpaqueTokenStore_new ttl = \<lparr> os_entries = Map.empty, os_token_ttl = ttl \<rparr>"

definition opaque_insert :: "int \<Rightarrow> string \<Rightarrow> u128 \<Rightarrow> OpaqueTokenStore \<Rightarrow> OpaqueTokenStore" where
  "opaque_insert now token_hash subscriber_id st = st\<lparr>os_entries := (os_entries st)(token_hash \<mapsto>
     \<lparr> oe_subscriber_id = subscriber_id, oe_expires_at = now + os_token_ttl st, oe_used_at = None \<rparr>)\<rparr>"

definition redeem :: "(string \<Rightarrow> string) \<Rightarrow> int \<Rightarrow> string \<Rightarrow> OpaqueTokenStore \<Rightarrow> UnsubscribeTokenResult \<times> OpaqueTokenStore" where
  "redeem sha256_hex now raw_token st = (let hash = hash_unsubscribe_token sha256_hex raw_token in
     case os_entries st hash of
       None \<Rightarrow> (InvalidOrExpired, st)
     | Some entry \<Rightarrow>
         if now > oe_expires_at entry then (InvalidOrExpired, st)
         else if oe_used_at entry \<noteq> None then (AlreadyUsed, st)
         else (Valid (oe_subscriber_id entry), st\<lparr>os_entries := (os_entries st)(hash \<mapsto> entry\<lparr>oe_used_at := Some now\<rparr>)\<rparr>))"

text \<open>
  The store that stands for the table in tests; hash maps are association lists in the order in which they yield their entries.
\<close>

datatype ConfirmResult = Confirmed | AlreadyConfirmed | Confirm_Invalid

record PendingEntry =
  pe_token :: string
  pe_expires_at :: int

record TokenStore =
  ts_pending :: "(string \<times> PendingEntry) list"
  ts_confirmed :: "(string \<times> bool) list"
  ts_token_ttl :: int

definition TokenStore_new :: "int \<Rightarrow> TokenStore" where
  "TokenStore_new ttl = \<lparr> ts_pending = [], ts_confirmed = [], ts_token_ttl = ttl \<rparr>"

definition ts_subscribe :: "int \<Rightarrow> string \<Rightarrow> string \<Rightarrow> TokenStore \<Rightarrow> TokenStore" where
  "ts_subscribe now email token st = st\<lparr>ts_pending := AList.update email
     \<lparr> pe_token = token, pe_expires_at = now + ts_token_ttl st \<rparr> (ts_pending st)\<rparr>"

definition ts_confirm :: "int \<Rightarrow> string \<Rightarrow> TokenStore \<Rightarrow> ConfirmResult \<times> TokenStore" where
  "ts_confirm now token st = (case find (\<lambda>(_, p). pe_token p = token) (ts_pending st) of
     None \<Rightarrow> (if list_ex snd (ts_confirmed st) then AlreadyConfirmed else Confirm_Invalid, st)
   | Some (email, entry) \<Rightarrow> let st' = st\<lparr>ts_pending := AList.delete email (ts_pending st)\<rparr> in
       if now > pe_expires_at entry then (Confirm_Invalid, st')
       else (Confirmed, st'\<lparr>ts_confirmed := AList.update email True (ts_confirmed st')\<rparr>))"

definition ts_is_confirmed :: "string \<Rightarrow> TokenStore \<Rightarrow> bool" where
  "ts_is_confirmed email st = unwrap_or (map_of (ts_confirmed st) email) False"

section \<open>The table of subscribers: db.rs\<close>

record NewsletterSubscriber =
  ns_email :: string
  ns_source :: string
  ns_confirmed :: bool
  ns_confirmation_token :: "string option"
  ns_created_at :: int
  ns_confirmed_at :: "int option"
  ns_unsubscribed_at :: "int option"
  ns_deleted_at :: "int option"

record 'r news =
  nl_mail :: "('r, json) mail"
  nl_rows :: "NewsletterSubscriber list"

record ('r, 'net) news_env =
  ne_env :: "('r, json) env"
  ne_lib :: "'net text_lib"
  ne_sign :: sign_lib
  ne_config :: "'net Config"
  ne_contains :: "'net \<Rightarrow> IpAddr \<Rightarrow> bool"
  ne_db_failure :: "nat \<Rightarrow> sqlx_error option"
  ne_pick :: "nat \<Rightarrow> NewsletterSubscriber list \<Rightarrow> NewsletterSubscriber list"
  ne_time_text :: "int \<Rightarrow> string"
  ne_generate_unsubscribe_token :: "string \<Rightarrow> string \<Rightarrow> string option"
  ne_validate_unsubscribe_token :: "string \<Rightarrow> string \<Rightarrow> string option"

type_synonym ('r, 'a) news_op = "('r news, ApiError, 'a) comp"

abbreviation ne_now :: "('r, 'net) news_env \<Rightarrow> int" where
  "ne_now e \<equiv> e_clock (ne_env e)"

definition db_error :: "('r, 'net) news_env \<Rightarrow> nat \<Rightarrow> ApiError" where
  "db_error e n = into_api_error (From_Db (projl (with_timeout (map_option Inl (ne_db_failure e n) :: (sqlx_error + unit) option))))"

text \<open>One statement on the table; the server refuses it when its parameters make no sense.\<close>

definition rows_call :: "('r, 'net) news_env \<Rightarrow> (NewsletterSubscriber list \<Rightarrow> ('a \<times> NewsletterSubscriber list) option) \<Rightarrow> ('r, 'a) news_op" where
  "rows_call e f s = (let n = m_calls (nl_mail s); s1 = s\<lparr>nl_mail := (nl_mail s)\<lparr>m_calls := n + 1\<rparr>\<rparr> in
     case (e_fate (ne_env e) n, f (nl_rows s)) of
       (Done, Some (x, rows)) \<Rightarrow> Ok x (s1\<lparr>nl_rows := rows\<rparr>)
     | (Unacked, Some (x, rows)) \<Rightarrow> Err (db_error e n) (s1\<lparr>nl_rows := rows\<rparr>)
     | _ \<Rightarrow> Err (db_error e n) s1)"

text \<open>An operation of the email subsystem, with its error turned into one of the handlers.\<close>

definition mail_op :: "('r, 'net) news_env \<Rightarrow> ('r, json, 'a) mailer \<Rightarrow> ('r, 'a) news_op" where
  "mail_op e m s = (case m (nl_mail s) of
     Ok x t \<Rightarrow> Ok x (s\<lparr>nl_mail := t\<rparr>)
   | Err err t \<Rightarrow> Err (if err = Db_Error then db_error e (m_calls t - 1) else api_internal) (s\<lparr>nl_mail := t\<rparr>)
   | Trap \<Rightarrow> Trap)"

definition newsletter_get_by_email :: "('r, 'net) news_env \<Rightarrow> string \<Rightarrow> ('r, NewsletterSubscriber option) news_op" where
  "newsletter_get_by_email e email = rows_call e (\<lambda>rows.
     Some (find (\<lambda>s. ns_email s = email \<and> ns_deleted_at s = None) rows, rows))"

definition pending_row :: "string \<Rightarrow> string \<Rightarrow> string \<Rightarrow> int \<Rightarrow> NewsletterSubscriber" where
  "pending_row email source token now =
     \<lparr> ns_email = email, ns_source = source, ns_confirmed = False, ns_confirmation_token = Some token,
       ns_created_at = now, ns_confirmed_at = None, ns_unsubscribed_at = None, ns_deleted_at = None \<rparr>"

text \<open>On a conflict the row is updated, all columns but the date of deletion.\<close>

definition upsert_rows :: "string \<Rightarrow> string \<Rightarrow> string \<Rightarrow> int \<Rightarrow> NewsletterSubscriber list \<Rightarrow> NewsletterSubscriber list" where
  "upsert_rows email source token now rows =
     (if email \<in> ns_email ` set rows
      then map (\<lambda>s. if ns_email s = email then s\<lparr>ns_source := source, ns_confirmed := False, ns_confirmation_token := Some token,
             ns_created_at := now, ns_confirmed_at := None, ns_unsubscribed_at := None\<rparr> else s) rows
      else rows @ [pending_row email source token now])"

definition newsletter_upsert_pending :: "('r, 'net) news_env \<Rightarrow> string \<Rightarrow> string \<Rightarrow> string \<Rightarrow> ('r, unit) news_op" where
  "newsletter_upsert_pending e email source token = rows_call e (\<lambda>rows. Some ((), upsert_rows email source token (ne_now e) rows))"

definition confirmable :: "string \<Rightarrow> int \<Rightarrow> int \<Rightarrow> NewsletterSubscriber \<Rightarrow> bool" where
  "confirmable token ttl now s \<longleftrightarrow> ns_confirmation_token s = Some token \<and> ns_created_at s > now - wrap_i64 ttl"

definition confirm_row :: "int \<Rightarrow> NewsletterSubscriber \<Rightarrow> NewsletterSubscriber" where
  "confirm_row now s = s\<lparr>ns_confirmed := True, ns_confirmation_token := None, ns_confirmed_at := Some now, ns_unsubscribed_at := None\<rparr>"

definition newsletter_confirm_by_token :: "('r, 'net) news_env \<Rightarrow> string \<Rightarrow> int \<Rightarrow> ('r, bool) news_op" where
  "newsletter_confirm_by_token e token ttl = rows_call e (\<lambda>rows.
     Some (list_ex (confirmable token ttl (ne_now e)) rows,
       map (\<lambda>s. if confirmable token ttl (ne_now e) s then confirm_row (ne_now e) s else s) rows))"

text \<open>The server chooses the rows up to the limit.\<close>

definition expired_pending :: "int \<Rightarrow> int \<Rightarrow> NewsletterSubscriber \<Rightarrow> bool" where
  "expired_pending ttl now s \<longleftrightarrow> \<not> ns_confirmed s \<and> ns_created_at s \<le> now - wrap_i64 ttl"

definition newsletter_delete_expired_pending :: "('r, 'net) news_env \<Rightarrow> int \<Rightarrow> int \<Rightarrow> ('r, nat) news_op" where
  "newsletter_delete_expired_pending e ttl batch = rows_call e (\<lambda>rows.
     if wrap_i64 batch < 0 then None
     else let gone = ne_pick e (nat (wrap_i64 batch)) (filter (expired_pending ttl (ne_now e)) rows)
          in Some (length (filter (\<lambda>s. s \<in> set gone) rows), filter (\<lambda>s. s \<notin> set gone) rows))"

definition live_with :: "string \<Rightarrow> NewsletterSubscriber \<Rightarrow> bool" where
  "live_with email s \<longleftrightarrow> ns_email s = email \<and> ns_deleted_at s = None"

definition newsletter_unsubscribe_row :: "('r, 'net) news_env \<Rightarrow> string \<Rightarrow> ('r, bool) news_op" where
  "newsletter_unsubscribe_row e email = rows_call e (\<lambda>rows. Some (list_ex (live_with email) rows,
     map (\<lambda>s. if live_with email s then s\<lparr>ns_unsubscribed_at := Some (ne_now e), ns_confirmed := False\<rparr> else s) rows))"

definition newsletter_soft_delete :: "('r, 'net) news_env \<Rightarrow> string \<Rightarrow> ('r, bool) news_op" where
  "newsletter_soft_delete e email = rows_call e (\<lambda>rows. Some (list_ex (live_with email) rows,
     map (\<lambda>s. if live_with email s then s\<lparr>ns_deleted_at := Some (ne_now e)\<rparr> else s) rows))"

definition newsletter_delete_row :: "('r, 'net) news_env \<Rightarrow> string \<Rightarrow> ('r, bool) news_op" where
  "newsletter_delete_row e email = rows_call e (\<lambda>rows.
     Some (list_ex (\<lambda>s. ns_email s = email) rows, filter (\<lambda>s. ns_email s \<noteq> email) rows))"

section \<open>Handlers: handlers.rs\<close>

definition newsletter_response :: "int \<Rightarrow> bool \<Rightarrow> string \<Rightarrow> http_response" where
  "newsletter_response status success message = json_response status (JObj [(''success'', JBool success), (''message'', JStr message)])"

definition normalized_email :: "('r, 'net) news_env \<Rightarrow> string \<Rightarrow> string option" where
  "normalized_email e raw = (let candidate = to_lowercase (ne_lib e) (trim raw) in
     if e_validate_email (ne_env e) candidate then Some candidate else None)"

definition check_gdpr_token :: "('r, 'net) news_env \<Rightarrow> string \<Rightarrow> string \<Rightarrow> http_response option" where
  "check_gdpr_token e email token = (case unsubscribe_signing_secret (mailing (ne_config e)) of
     None \<Rightarrow> Some (newsletter_response 500 False ''GDPR verification not configured.'')
   | Some secret \<Rightarrow> if \<not> verify_gdpr_verification_token (ne_sign e) (ne_now e) token email secret
       then Some (newsletter_response 401 False ''Invalid or expired verification token.'') else None)"

definition DISPOSABLE_DOMAINS :: "string list" where
  "DISPOSABLE_DOMAINS = [''mailinator.com'', ''tempmail.com'', ''guerrillamail.com'']"

text \<open>\<^verbatim>\<open>rsplit_once\<close>: the part after the last occurrence.\<close>

definition is_disposable_email :: "string \<Rightarrow> bool" where
  "is_disposable_email email = (case split_once CHR ''@'' (rev email) of
     Some (domain_rev, _) \<Rightarrow> rev domain_rev \<in> set DISPOSABLE_DOMAINS | None \<Rightarrow> False)"

definition trim_slashes :: "string \<Rightarrow> string" where
  "trim_slashes s = rev (dropWhile (\<lambda>c. c = CHR ''/'') (rev s))"

definition source_of :: "string option \<Rightarrow> string" where
  "source_of src = (let source = take_chars 64 (trim (unwrap_or src ''direct'')) in if source = [] then ''direct'' else source)"

definition active_subscriber :: "NewsletterSubscriber option \<Rightarrow> bool" where
  "active_subscriber existing = (case existing of Some s \<Rightarrow> ns_confirmed s \<and> ns_unsubscribed_at s = None | None \<Rightarrow> False)"

definition template_data :: "('r, 'net) news_env \<Rightarrow> string \<Rightarrow> string \<Rightarrow> json" where
  "template_data e email token = (let base = trim_slashes (base_url (mailing (ne_config e))) in JObj
     [(''confirm_url'', JStr (base @ ''/api/v1/newsletter/confirm?token='' @ token)),
      (''unsubscribe_url'', JStr (case Option.bind (unsubscribe_signing_secret (mailing (ne_config e))) (ne_generate_unsubscribe_token e email) of
         Some tok \<Rightarrow> base @ ''/api/v1/newsletter/unsubscribe?token='' @ tok | None \<Rightarrow> [])),
      (''email'', JStr email)])"

definition new_token :: "('r, 'net) news_env \<Rightarrow> 'r news \<Rightarrow> string" where
  "new_token e s = e_uuid_text (ne_env e) (e_new_uuid (ne_env e) (m_calls (nl_mail s)))"

definition start_subscription :: "('r, 'net) news_env \<Rightarrow> string \<Rightarrow> string \<Rightarrow> ('r, unit) news_op" where
  "start_subscription e email source = bnd (reads (new_token e)) (\<lambda>token.
     thn (newsletter_upsert_pending e email source token)
     (bnd (mail_op e (enqueue (ne_env e) NewsletterConfirmation email ''newsletter_confirmation'' (template_data e email token) 0))
       (\<lambda>_. ret ())))"

text \<open>The address is written to the log in its redacted form, which can panic.\<close>

definition newsletter_subscribe :: "('r, 'net) news_env \<Rightarrow> string \<Rightarrow> string option \<Rightarrow> ('r, http_response) news_op" where
  "newsletter_subscribe e raw src = (case normalized_email e raw of
     None \<Rightarrow> ret (newsletter_response 400 False ''Invalid email address.'')
   | Some email \<Rightarrow>
       if is_disposable_email email then ret (newsletter_response 400 False ''Disposable emails are not allowed.'')
       else bnd (newsletter_get_by_email e email) (\<lambda>existing.
         thn (doif (\<not> active_subscriber existing) (start_subscription e email (source_of src)))
         (bnd (some_or_trap (redact_email email)) (\<lambda>_.
          ret (newsletter_response 202 True ''Please check your email to confirm your subscription.'')))))"

definition newsletter_confirm :: "('r, 'net) news_env \<Rightarrow> string \<Rightarrow> ('r, http_response) news_op" where
  "newsletter_confirm e token =
     (if trim token = [] then ret (newsletter_response 400 False ''Missing confirmation token.'')
      else bnd (newsletter_confirm_by_token e (trim token) (newsletter_token_ttl_secs (mailing (ne_config e)))) (\<lambda>updated.
        if \<not> updated then ret (newsletter_response 404 False ''Invalid or expired confirmation token.'')
        else ret (newsletter_response 200 True ''Subscription confirmed.'')))"

definition newsletter_unsubscribe :: "('r, 'net) news_env \<Rightarrow> string \<Rightarrow> ('r, http_response) news_op" where
  "newsletter_unsubscribe e token = (case unsubscribe_signing_secret (mailing (ne_config e)) of
     None \<Rightarrow> ret (newsletter_response 500 False ''Unsubscribe not configured.'')
   | Some secret \<Rightarrow> (case ne_validate_unsubscribe_token e token secret of
       None \<Rightarrow> ret (newsletter_response 401 False ''Invalid unsubscribe token.'')
     | Some email \<Rightarrow> bnd (newsletter_unsubscribe_row e email) (\<lambda>_.
         bnd (some_or_trap (redact_email email)) (\<lambda>_.
         ret (newsletter_response 200 True ''Successfully unsubscribed.'')))))"

text \<open>The limiter of the newsletter, on the server of the email subsystem.\<close>

definition rate_allow :: "('r, 'net) news_env \<Rightarrow> string \<Rightarrow> int \<Rightarrow> int \<Rightarrow> ('r, bool) news_op" where
  "rate_allow e key max_reqs window s = (let m = nl_mail s;
       (ok, r) = allow (e_redis (ne_env e)) (e_fate (ne_env e) (m_calls m)) key (nat max_reqs) (nat window) (m_store m)
     in Ok ok (s\<lparr>nl_mail := m\<lparr>m_store := r, m_calls := m_calls m + 1\<rparr>\<rparr>))"

definition gdpr_allow :: "('r, 'net) news_env \<Rightarrow> string \<Rightarrow> ('r, bool) news_op" where
  "gdpr_allow e key = rate_allow e key (gdpr_export_rate_limit (mailing (ne_config e))) (gdpr_export_rate_window_secs (mailing (ne_config e)))"

definition news_client_ip :: "('r, 'net) news_env \<Rightarrow> http_request \<Rightarrow> string" where
  "news_client_ip e req = extract_client_ip_cidrs (ne_contains e) (rq_headers req) (rq_peer req)
     (trust_proxy (security (ne_config e))) (trusted_proxy_cidrs (security (ne_config e)))"

definition too_many_requests :: http_response where
  "too_many_requests = newsletter_response 429 False ''Too many requests, please try again later.''"

text \<open>One request to SendGrid, without retries; the mail is recorded with the code it carries.\<close>

definition send_gdpr_verification_email :: "('r, 'net) news_env \<Rightarrow> string \<Rightarrow> string \<Rightarrow> ('r, bool) news_op" where
  "send_gdpr_verification_email e email token =
     (if sendgrid_api_key (mailing (ne_config e)) = None \<or> from_email (mailing (ne_config e)) = None then ret False
      else bnd (mail_op e (post_mail (ne_env e) email token)) (\<lambda>a. case a of
        No_Answer _ \<Rightarrow> ret False | Answer status _ \<Rightarrow> ret (is_success status)))"

text \<open>A lookup that fails is only logged, and so is a mail that cannot be sent.\<close>

definition send_gdpr_code :: "('r, 'net) news_env \<Rightarrow> string \<Rightarrow> ('r, unit) news_op" where
  "send_gdpr_code e email s = (case newsletter_get_by_email e email s of
     Ok (Some _) s' \<Rightarrow> (case unsubscribe_signing_secret (mailing (ne_config e)) of
         Some secret \<Rightarrow> bnd (send_gdpr_verification_email e email (generate_gdpr_verification_token (ne_sign e) (ne_now e) email secret))
            (\<lambda>_. ret ()) s'
       | None \<Rightarrow> Ok () s')
   | Ok None s' \<Rightarrow> Ok () s'
   | Err _ s' \<Rightarrow> Ok () s'
   | Trap \<Rightarrow> Trap)"

definition newsletter_gdpr_request_token :: "('r, 'net) news_env \<Rightarrow> http_request \<Rightarrow> string \<Rightarrow> ('r, http_response) news_op" where
  "newsletter_gdpr_request_token e req raw = bnd (gdpr_allow e (''gdpr_token:ip:'' @ news_client_ip e req)) (\<lambda>allowed.
     if \<not> allowed then ret too_many_requests
     else case normalized_email e raw of
       None \<Rightarrow> ret (newsletter_response 400 False ''Invalid email address.'')
     | Some email \<Rightarrow> thn (send_gdpr_code e email)
         (ret (newsletter_response 200 True ''If this email is subscribed, a verification code has been sent.'')))"

definition export_time :: "('r, 'net) news_env \<Rightarrow> int option \<Rightarrow> json" where
  "export_time e t = (case t of None \<Rightarrow> JNull | Some x \<Rightarrow> JStr (ne_time_text e x))"

definition subscriber_json :: "('r, 'net) news_env \<Rightarrow> NewsletterSubscriber \<Rightarrow> json" where
  "subscriber_json e s = JObj [(''email'', JStr (ns_email s)), (''source'', JStr (ns_source s)), (''confirmed'', JBool (ns_confirmed s)),
     (''confirmation_token'', (case ns_confirmation_token s of None \<Rightarrow> JNull | Some t \<Rightarrow> JStr t)),
     (''created_at'', export_time e (Some (ns_created_at s))), (''confirmed_at'', export_time e (ns_confirmed_at s)),
     (''unsubscribed_at'', export_time e (ns_unsubscribed_at s)), (''deleted_at'', export_time e (ns_deleted_at s))]"

definition export_reply :: "('r, 'net) news_env \<Rightarrow> bool \<Rightarrow> NewsletterSubscriber option \<Rightarrow> http_response" where
  "export_reply e allowed_email data =
     (if \<not> allowed_email then too_many_requests
      else case data of
        None \<Rightarrow> newsletter_response 404 False ''No newsletter record found.''
      | Some row \<Rightarrow> json_response 200 (JObj [(''success'', JBool True), (''data'', subscriber_json e row)]))"

definition newsletter_gdpr_export :: "('r, 'net) news_env \<Rightarrow> http_request \<Rightarrow> string \<Rightarrow> string \<Rightarrow> ('r, http_response) news_op" where
  "newsletter_gdpr_export e req raw token = bnd (gdpr_allow e (''gdpr_export:ip:'' @ news_client_ip e req)) (\<lambda>allowed_ip.
     if \<not> allowed_ip then ret too_many_requests
     else case normalized_email e raw of
       None \<Rightarrow> ret (newsletter_response 400 False ''Invalid email address.'')
     | Some email \<Rightarrow> (case check_gdpr_token e email token of
         Some resp \<Rightarrow> ret resp
       | None \<Rightarrow> bnd (newsletter_get_by_email e email) (\<lambda>data.
           bnd (gdpr_allow e (''gdpr_export:email:'' @ email)) (\<lambda>allowed_email.
           ret (export_reply e allowed_email data)))))"

definition newsletter_gdpr_delete :: "('r, 'net) news_env \<Rightarrow> string \<Rightarrow> string \<Rightarrow> ('r, http_response) news_op" where
  "newsletter_gdpr_delete e raw token = (case normalized_email e raw of
     None \<Rightarrow> ret (newsletter_response 400 False ''Invalid email address.'')
   | Some email \<Rightarrow> (case check_gdpr_token e email token of
       Some resp \<Rightarrow> ret resp
     | None \<Rightarrow> bnd (newsletter_delete_row e email) (\<lambda>_.
         bnd (some_or_trap (redact_email email)) (\<lambda>_.
         ret (newsletter_response 200 True ''Data deleted.'')))))"

section \<open>Every outcome of an operation\<close>

lemma leaves_answer [leaves_rules]:
  "(\<And>x. leaves I (f x)) \<Longrightarrow> (\<And>x z. leaves I (g x z)) \<Longrightarrow> leaves I (case a of No_Answer x \<Rightarrow> f x | Answer x z \<Rightarrow> g x z)"
  by (simp split: answer.split)

text \<open>Operations on the email subsystem do not touch the table, whatever they do.\<close>

definition on_rows :: "(NewsletterSubscriber list \<Rightarrow> bool) \<Rightarrow> 'r news \<Rightarrow> bool" where
  "on_rows P s \<longleftrightarrow> P (nl_rows s)"

lemma leaves_mail_op [leaves_rules]: "leaves (on_rows P) (mail_op e m)"
  by (simp add: leaves_def on_rows_def mail_op_def split: res.splits)

lemma leaves_rate_allow [leaves_rules]: "leaves (on_rows P) (gdpr_allow e key)"
  by (simp add: leaves_def on_rows_def gdpr_allow_def rate_allow_def Let_def split: prod.splits)

lemma leaves_rows_call:
  assumes "\<And>rows x rows'. P rows \<Longrightarrow> f rows = Some (x, rows') \<Longrightarrow> P rows'"
  shows "leaves (on_rows P) (rows_call e f)"
  using assms by (auto simp: leaves_def on_rows_def rows_call_def Let_def split: fate.splits option.splits)

lemma leaves_get [leaves_rules]: "leaves (on_rows P) (newsletter_get_by_email e email)"
  unfolding newsletter_get_by_email_def by (rule leaves_rows_call) simp

lemma leaves_send [leaves_rules]:
  "leaves (on_rows P) (send_gdpr_verification_email e email token)"
  unfolding send_gdpr_verification_email_def by (intro leaves_rules)

lemma send_gdpr_code_eq:
  "send_gdpr_code e email = (\<lambda>s. case newsletter_get_by_email e email s of
     Ok row t \<Rightarrow> (case row of None \<Rightarrow> ret () | Some _ \<Rightarrow> (case unsubscribe_signing_secret (mailing (ne_config e)) of
         None \<Rightarrow> ret ()
       | Some secret \<Rightarrow> bnd (send_gdpr_verification_email e email (generate_gdpr_verification_token (ne_sign e) (ne_now e) email secret))
            (\<lambda>_. ret ()))) t
   | Err _ t \<Rightarrow> ret () t | Trap \<Rightarrow> Trap)"
  by (rule ext) (simp add: send_gdpr_code_def ret_def split: res.split option.split)

lemma leaves_code [leaves_rules]: "leaves (on_rows P) (send_gdpr_code e email)"
  unfolding send_gdpr_code_eq by (intro leaves_outcome leaves_rules)

section \<open>The table\<close>

definition unique_emails :: "NewsletterSubscriber list \<Rightarrow> bool" where
  "unique_emails rows \<longleftrightarrow> distinct (map ns_email rows)"

lemma unique_emails_map:
  assumes "unique_emails rows" "\<And>s. ns_email (f s) = ns_email s"
  shows "unique_emails (map f rows)"
proof -
  have "ns_email \<circ> f = ns_email" using assms(2) by (simp add: fun_eq_iff)
  then show ?thesis using assms(1) by (simp add: unique_emails_def)
qed

lemma unique_emails_filter: "unique_emails rows \<Longrightarrow> unique_emails (filter P rows)"
  by (simp add: unique_emails_def distinct_map_filter)

lemma unique_emails_upsert: "unique_emails rows \<Longrightarrow> unique_emails (upsert_rows email source token now rows)"
  unfolding upsert_rows_def by (auto simp: pending_row_def unique_emails_def [of "_ @ _"] unique_emails_def [of rows] intro!: unique_emails_map)

lemma leaves_unique [leaves_rules]:
  "leaves (on_rows unique_emails) (newsletter_upsert_pending e email source token)"
  "leaves (on_rows unique_emails) (newsletter_confirm_by_token e token' ttl)"
  "leaves (on_rows unique_emails) (newsletter_delete_expired_pending e ttl batch)"
  "leaves (on_rows unique_emails) (newsletter_unsubscribe_row e email)"
  "leaves (on_rows unique_emails) (newsletter_soft_delete e email)"
  "leaves (on_rows unique_emails) (newsletter_delete_row e email)"
  unfolding newsletter_upsert_pending_def newsletter_confirm_by_token_def newsletter_delete_expired_pending_def
    newsletter_unsubscribe_row_def newsletter_soft_delete_def newsletter_delete_row_def
  by (rule leaves_rows_call; auto simp: confirm_row_def Let_def unique_emails_upsert intro!: unique_emails_map unique_emails_filter
      split: if_splits)+

text \<open>
  C29. Whatever the outcome of a request, and at whichever statement it fails, the table holds at most one row for an address.
\<close>

theorem one_row_per_address:
  "leaves (on_rows unique_emails) (newsletter_subscribe e raw src) \<and>
   leaves (on_rows unique_emails) (newsletter_confirm e token) \<and>
   leaves (on_rows unique_emails) (newsletter_unsubscribe e token) \<and>
   leaves (on_rows unique_emails) (newsletter_gdpr_request_token e req raw) \<and>
   leaves (on_rows unique_emails) (newsletter_gdpr_export e req raw token) \<and>
   leaves (on_rows unique_emails) (newsletter_gdpr_delete e raw token) \<and>
   leaves (on_rows unique_emails) (newsletter_delete_expired_pending e ttl batch)"
  unfolding newsletter_subscribe_def newsletter_confirm_def newsletter_unsubscribe_def newsletter_gdpr_request_token_def
    newsletter_gdpr_export_def newsletter_gdpr_delete_def start_subscription_def
  by (intro conjI leaves_rules)+

section \<open>Codes for data requests\<close>

lemma payload_inj: "gdpr_token_payload a x = gdpr_token_payload b x \<longleftrightarrow> a = b"
  by (simp add: gdpr_token_payload_def)

text \<open>
  A code made for an address is accepted exactly until fifteen minutes after it was made, for the same address and
  under the same secret; for another address, which has another text to sign, or another secret only if the authentication
  codes agree.
\<close>

theorem gdpr_token_exact:
  assumes "\<And>x. b64_decode sl (b64_encode sl x) = Some x" "0 \<le> made" "made + 900 < 2 ^ 64"
  shows "verify_gdpr_verification_token sl now (generate_gdpr_verification_token sl made email secret) email' secret' \<longleftrightarrow>
    now \<le> made + 900 \<and> (email' = email \<and> secret' = secret \<or>
      hmac_sha256 sl secret' (gdpr_token_payload email' (made + 900)) = hmac_sha256 sl secret (gdpr_token_payload email (made + 900)))"
proof -
  have m: "(made + 900) mod 18446744073709551616 = made + 900" using assms(2,3) by simp
  have "split_once CHR ''.'' (generate_gdpr_verification_token sl made email secret) =
      Some (show_int 10 (made + 900), generate_signature sl (gdpr_token_payload email (made + 900)) secret)"
    unfolding split_once_Some using show_int_no_dot [of 10 "made + 900"] assms(2)
    by (simp add: generate_gdpr_verification_token_def GDPR_TOKEN_TTL_SECS_def m Let_def)
  moreover have "parse_unsigned 64 (show_int 10 (made + 900)) = Some (made + 900)"
    using assms(2,3) by (intro parse_unsigned_show) auto
  ultimately show "verify_gdpr_verification_token sl now (generate_gdpr_verification_token sl made email secret) email' secret' \<longleftrightarrow>
      now \<le> made + 900 \<and> (email' = email \<and> secret' = secret \<or>
      hmac_sha256 sl secret' (gdpr_token_payload email' (made + 900)) = hmac_sha256 sl secret (gdpr_token_payload email (made + 900)))"
    by (auto simp: verify_gdpr_verification_token_def verify_signature_def generate_signature_def assms(1))
qed

theorem gdpr_token_exact_witness:
  "verify_gdpr_verification_token sample_sign_lib 1900 (generate_gdpr_verification_token sample_sign_lib 1000 ''a@b.c'' ''k'') ''a@b.c'' ''k'' \<and>
   \<not> verify_gdpr_verification_token sample_sign_lib 1901 (generate_gdpr_verification_token sample_sign_lib 1000 ''a@b.c'' ''k'') ''a@b.c'' ''k''"
  using gdpr_token_exact [of sample_sign_lib 1000 1900 "''a@b.c''" "''k''" "''a@b.c''" "''k''"]
    gdpr_token_exact [of sample_sign_lib 1000 1901 "''a@b.c''" "''k''" "''a@b.c''" "''k''"]
  by (simp add: sample_sign_lib_def)

section \<open>Data requests\<close>

lemma check_gdpr_token_None:
  "check_gdpr_token e email token = None \<longleftrightarrow> (\<exists>secret. unsubscribe_signing_secret (mailing (ne_config e)) = Some secret \<and>
     verify_gdpr_verification_token (ne_sign e) (ne_now e) token email secret)"
  by (auto simp: check_gdpr_token_def split: option.splits)

lemma check_gdpr_token_status: "check_gdpr_token e email token = Some resp \<Longrightarrow> rs_status resp \<in> {401, 500}"
  by (auto simp: check_gdpr_token_def newsletter_response_def json_response_def split: option.splits if_splits)

lemma rows_call_Ok:
  "rows_call e f s = Ok x t \<longleftrightarrow> e_fate (ne_env e) (m_calls (nl_mail s)) = Done \<and>
     (\<exists>rows. f (nl_rows s) = Some (x, rows) \<and> t = s\<lparr>nl_mail := (nl_mail s)\<lparr>m_calls := m_calls (nl_mail s) + 1\<rparr>, nl_rows := rows\<rparr>)"
  by (auto simp: rows_call_def Let_def split: fate.splits option.splits)

lemma gdpr_allow_rows: "gdpr_allow e key s = Ok x t \<Longrightarrow> nl_rows t = nl_rows s"
  by (auto simp: gdpr_allow_def rate_allow_def Let_def split: prod.splits)

text \<open>
  A record is exported only to the bearer of a code that is valid for its address, and it is the live record of
  that address.
\<close>

theorem gdpr_export_needs_code:
  assumes "newsletter_gdpr_export e req raw token s = Ok resp t" "rs_status resp = 200"
  shows "\<exists>email secret row. normalized_email e raw = Some email \<and>
    unsubscribe_signing_secret (mailing (ne_config e)) = Some secret \<and>
    verify_gdpr_verification_token (ne_sign e) (ne_now e) token email secret \<and>
    row \<in> set (nl_rows s) \<and> live_with email row \<and> nl_rows t = nl_rows s \<and>
    resp = json_response 200 (JObj [(''success'', JBool True), (''data'', subscriber_json e row)])"
proof -
  obtain b s1 where allow: "gdpr_allow e (''gdpr_export:ip:'' @ news_client_ip e req) s = Ok b s1"
    using assms(1) unfolding newsletter_gdpr_export_def bnd_Ok by blast
  have first: "bnd (gdpr_allow e (''gdpr_export:ip:'' @ news_client_ip e req)) f s = f b s1" for f using allow by (simp add: bnd_def)
  have b: "b"
  proof (rule ccontr)
    assume "\<not> b"
    then have "resp = too_many_requests" using assms(1) allow by (simp add: newsletter_gdpr_export_def bnd_def ret_def)
    then show False using assms(2) by (simp add: too_many_requests_def newsletter_response_def json_response_def)
  qed
  obtain email where email: "normalized_email e raw = Some email"
    using assms(1,2) allow b by (cases "normalized_email e raw")
      (auto simp: newsletter_gdpr_export_def bnd_def ret_def newsletter_response_def json_response_def)
  have code: "check_gdpr_token e email token = None"
    using assms(1,2) allow b email by (cases "check_gdpr_token e email token")
      (auto simp: newsletter_gdpr_export_def bnd_def ret_def dest: check_gdpr_token_status)
  have "bnd (newsletter_get_by_email e email) (\<lambda>data.
           bnd (gdpr_allow e (''gdpr_export:email:'' @ email)) (\<lambda>allowed_email.
           ret (export_reply e allowed_email data))) s1 = Ok resp t"
    using assms(1) b email code unfolding newsletter_gdpr_export_def first by simp
  then obtain data s2 c s3 where get: "newsletter_get_by_email e email s1 = Ok data s2"
      and allow2: "gdpr_allow e (''gdpr_export:email:'' @ email) s2 = Ok c s3"
      and tail: "export_reply e c data = resp" "t = s3"
    unfolding bnd_Ok ret_Ok by blast
  obtain row where row: "data = Some row" "resp = json_response 200 (JObj [(''success'', JBool True), (''data'', subscriber_json e row)])"
    using tail(1) assms(2) by (cases c; cases data) (auto simp: export_reply_def too_many_requests_def newsletter_response_def json_response_def)
  have "row \<in> set (nl_rows s1)" "live_with email row" "nl_rows s2 = nl_rows s1"
    using get row(1) by (auto simp: newsletter_get_by_email_def rows_call_Ok find_Some_iff live_with_def)
  then show ?thesis using email code row(2) tail(2) gdpr_allow_rows [OF allow] gdpr_allow_rows [OF allow2]
    by (auto simp: check_gdpr_token_None)
qed

lemma gdpr_delete_cases:
  "newsletter_gdpr_delete e raw token s = (case normalized_email e raw of
     None \<Rightarrow> Ok (newsletter_response 400 False ''Invalid email address.'') s
   | Some email \<Rightarrow> (case check_gdpr_token e email token of
       Some resp \<Rightarrow> Ok resp s
     | None \<Rightarrow> bnd (newsletter_delete_row e email) (\<lambda>_. bnd (some_or_trap (redact_email email)) (\<lambda>_.
         ret (newsletter_response 200 True ''Data deleted.''))) s))"
  by (simp add: newsletter_gdpr_delete_def ret_def split: option.split)

text \<open>
  Deleting removes rows only for a code that is valid for the address, and then the rows of that address and no
  others, whether or not the answer arrives.
\<close>

theorem gdpr_delete_exact:
  assumes "final s (newsletter_gdpr_delete e raw token s) = t" "nl_rows t \<noteq> nl_rows s"
  shows "\<exists>email secret. normalized_email e raw = Some email \<and>
    unsubscribe_signing_secret (mailing (ne_config e)) = Some secret \<and>
    verify_gdpr_verification_token (ne_sign e) (ne_now e) token email secret \<and>
    nl_rows t = filter (\<lambda>r. ns_email r \<noteq> email) (nl_rows s)"
proof -
  obtain email where email: "normalized_email e raw = Some email" "check_gdpr_token e email token = None"
    using assms by (cases "normalized_email e raw"; cases "check_gdpr_token e (the (normalized_email e raw)) token")
      (auto simp: gdpr_delete_cases final_def)
  have "nl_rows t = nl_rows s \<or> nl_rows t = filter (\<lambda>r. ns_email r \<noteq> email) (nl_rows s)"
    using assms(1) email by (auto simp: gdpr_delete_cases newsletter_delete_row_def rows_call_def bnd_def some_or_trap_def ret_def
        final_def Let_def split: fate.splits option.splits)
  then show ?thesis using assms(2) email by (auto simp: check_gdpr_token_None)
qed

section \<open>Subscribing\<close>

definition subscribed :: "string \<Rightarrow> 'r news \<Rightarrow> bool" where
  "subscribed email s \<longleftrightarrow> active_subscriber (find (\<lambda>r. ns_email r = email \<and> ns_deleted_at r = None) (nl_rows s))"

text \<open>The token of the next subscription: the lookup takes one call.\<close>

definition subscription_token :: "('r, 'net) news_env \<Rightarrow> 'r news \<Rightarrow> string" where
  "subscription_token e s = e_uuid_text (ne_env e) (e_new_uuid (ne_env e) (Suc (m_calls (nl_mail s))))"

text \<open>One mail with the token of the subscription is queued for the address.\<close>

definition mail_queued :: "('r, 'net) news_env \<Rightarrow> string \<Rightarrow> string \<Rightarrow> 'r news \<Rightarrow> 'r news \<Rightarrow> bool" where
  "mail_queued e email token s t \<longleftrightarrow> (\<exists>job row. m_jobs (nl_mail t) = (m_jobs (nl_mail s))(job \<mapsto> row) \<and>
     j_recipient_email row = email \<and> j_job_type row = ''newsletter_confirmation'' \<and> j_template_data row = template_data e email token \<and>
     m_store (nl_mail t) = r_zadd (e_redis (ne_env e)) EMAIL_QUEUE_KEY (ne_now e) (e_uuid_text (ne_env e) job) (m_store (nl_mail s)))"

lemma map_keeps_emails: "(\<And>s. ns_email (f s) = ns_email s) \<Longrightarrow> ns_email ` set (map f rows) = ns_email ` set rows"
  by (simp add: image_image)

lemma upsert_rows_emails: "ns_email ` set (upsert_rows email source token now rows) = insert email (ns_email ` set rows)"
proof (cases "email \<in> ns_email ` set rows")
  case True
  then show ?thesis unfolding upsert_rows_def by (simp add: map_keeps_emails insert_absorb del: set_map)
qed (auto simp: upsert_rows_def pending_row_def)

lemma rows_call_healthy:
  "healthy (ne_env e) \<Longrightarrow> f (nl_rows s) = Some (x, rows) \<Longrightarrow>
     rows_call e f s = Ok x (s\<lparr>nl_mail := (nl_mail s)\<lparr>m_calls := Suc (m_calls (nl_mail s))\<rparr>, nl_rows := rows\<rparr>)"
  by (simp add: rows_call_def healthy_def Let_def)

lemma enqueue_healthy:
  assumes "healthy E"
  shows "\<exists>job row t. enqueue E ty email tpl d prio m = Ok job t \<and> m_jobs t = (m_jobs m)(job \<mapsto> row) \<and>
    j_recipient_email row = email \<and> j_template_data row = d \<and> j_job_type row = EmailJobType_as_str ty \<and> m_calls t = m_calls m + 3 \<and>
    m_store t = r_zadd (e_redis E) EMAIL_QUEUE_KEY (if 0 < prio then - prio else e_clock E) (e_uuid_text E job) (m_store m)"
  by (simp add: enqueue_def email_create_job_def external_healthy [OF assms] calls_healthy [OF assms] run_eval Let_def)
    (intro exI conjI, rule refl, simp_all)

lemma start_subscription_healthy:
  assumes "healthy (ne_env e)"
  shows "\<exists>t. start_subscription e email source s = Ok () t \<and>
    nl_rows t = upsert_rows email source (new_token e s) (ne_now e) (nl_rows s) \<and> mail_queued e email (new_token e s) s t"
proof -
  let ?m = "(nl_mail s)\<lparr>m_calls := Suc (m_calls (nl_mail s))\<rparr>"
  obtain job row t where q: "enqueue (ne_env e) NewsletterConfirmation email ''newsletter_confirmation''
      (template_data e email (new_token e s)) 0 ?m = Ok job t" "m_jobs t = (m_jobs ?m)(job \<mapsto> row)" "j_recipient_email row = email"
      "j_template_data row = template_data e email (new_token e s)" "j_job_type row = EmailJobType_as_str NewsletterConfirmation"
      "m_store t = r_zadd (e_redis (ne_env e)) EMAIL_QUEUE_KEY (ne_now e) (e_uuid_text (ne_env e) job) (m_store ?m)"
    using enqueue_healthy [OF assms, of NewsletterConfirmation email "''newsletter_confirmation''" "template_data e email (new_token e s)" 0 ?m]
    by auto
  have "start_subscription e email source s = Ok () (s\<lparr>nl_mail := t,
      nl_rows := upsert_rows email source (new_token e s) (ne_now e) (nl_rows s)\<rparr>)"
    unfolding start_subscription_def newsletter_upsert_pending_def
    by (simp add: reads_def bnd_def thn_def rows_call_healthy [OF assms] mail_op_def q(1) ret_def)
  moreover have "mail_queued e email (new_token e s) s (s\<lparr>nl_mail := t, nl_rows := rows\<rparr>)" for rows
    using q(2-) unfolding mail_queued_def by (intro exI [of _ job] exI [of _ row]) auto
  ultimately show ?thesis by auto
qed

text \<open>
  While nothing fails, the answer to a request to subscribe does not tell whether the address is subscribed.  For an active subscriber
  nothing is done; for any other address its row, new or old, is pending under a fresh token, and one mail with
  that token is queued for it.
\<close>

theorem subscribe_effect:
  assumes "healthy (ne_env e)" "normalized_email e raw = Some email" "\<not> is_disposable_email email" "redact_email email \<noteq> None"
  shows "\<exists>t. newsletter_subscribe e raw src s =
      Ok (newsletter_response 202 True ''Please check your email to confirm your subscription.'') t \<and>
    (if subscribed email s then nl_rows t = nl_rows s \<and> nl_mail t = (nl_mail s)\<lparr>m_calls := Suc (m_calls (nl_mail s))\<rparr>
     else nl_rows t = upsert_rows email (source_of src) (subscription_token e s) (ne_now e) (nl_rows s) \<and>
       mail_queued e email (subscription_token e s) s t)"
proof -
  let ?s1 = "s\<lparr>nl_mail := (nl_mail s)\<lparr>m_calls := Suc (m_calls (nl_mail s))\<rparr>\<rparr>"
  let ?found = "find (\<lambda>r. ns_email r = email \<and> ns_deleted_at r = None) (nl_rows s)"
  obtain shown where shown: "redact_email email = Some shown" using assms(4) by auto
  have get: "newsletter_get_by_email e email s = Ok ?found ?s1"
    by (simp add: newsletter_get_by_email_def rows_call_healthy [OF assms(1)])
  have step: "newsletter_subscribe e raw src s = thn (doif (\<not> subscribed email s) (start_subscription e email (source_of src)))
      (ret (newsletter_response 202 True ''Please check your email to confirm your subscription.'')) ?s1"
    using assms(2,3) shown get by (simp add: newsletter_subscribe_def subscribed_def bnd_def thn_def some_or_trap_def split: res.split)
  have token: "new_token e ?s1 = subscription_token e s" "mail_queued e email tok ?s1 t = mail_queued e email tok s t" for tok t
    by (simp_all add: new_token_def subscription_token_def mail_queued_def)
  show ?thesis
  proof (cases "subscribed email s")
    case True
    then show ?thesis using step by (simp add: doif_def thn_def bnd_def ret_def)
  next
    case False
    with start_subscription_healthy [OF assms(1), of email "source_of src" ?s1] step show ?thesis
      by (auto simp: doif_def thn_def bnd_def ret_def token)
  qed
qed

text \<open>
  An address for which the redacted form cannot be computed, such as one whose domain begins with a character outside
  ASCII, makes the handler panic after the row has been stored and the mail has been queued.
\<close>

theorem subscribe_panics:
  assumes "healthy (ne_env e)" "normalized_email e raw = Some email" "\<not> is_disposable_email email" "redact_email email = None"
  shows "newsletter_subscribe e raw src s = Trap"
    "\<not> subscribed email s \<Longrightarrow> \<exists>t. start_subscription e email (source_of src)
       (s\<lparr>nl_mail := (nl_mail s)\<lparr>m_calls := Suc (m_calls (nl_mail s))\<rparr>\<rparr>) = Ok () t \<and> email \<in> ns_email ` set (nl_rows t)"
proof -
  let ?s1 = "s\<lparr>nl_mail := (nl_mail s)\<lparr>m_calls := Suc (m_calls (nl_mail s))\<rparr>\<rparr>"
  have get: "newsletter_get_by_email e email s = Ok (find (\<lambda>r. ns_email r = email \<and> ns_deleted_at r = None) (nl_rows s)) ?s1"
    by (simp add: newsletter_get_by_email_def rows_call_healthy [OF assms(1)])
  obtain t where t: "start_subscription e email (source_of src) ?s1 = Ok () t"
      "nl_rows t = upsert_rows email (source_of src) (new_token e ?s1) (ne_now e) (nl_rows s)"
    using start_subscription_healthy [OF assms(1), of email "source_of src" ?s1] by auto
  show "newsletter_subscribe e raw src s = Trap"
    using assms(2-4) get t(1) by (simp add: newsletter_subscribe_def bnd_def thn_def doif_def ret_def some_or_trap_def)
  show "\<exists>t. start_subscription e email (source_of src) ?s1 = Ok () t \<and> email \<in> ns_email ` set (nl_rows t)"
    using t by (auto simp: upsert_rows_emails)
qed

section \<open>Confirming\<close>

lemma start_subscription_rows:
  "start_subscription e email source s = Ok () t \<Longrightarrow> nl_rows t = upsert_rows email source (new_token e s) (ne_now e) (nl_rows s)"
  by (auto simp: start_subscription_def newsletter_upsert_pending_def mail_op_def rows_call_Ok bnd_Ok thn_Ok reads_Ok ret_Ok split: res.splits)

lemma confirm_run:
  assumes "newsletter_confirm e token t = Ok resp u" "trim token = token" "token \<noteq> []"
    "ttl = newsletter_token_ttl_secs (mailing (ne_config e))"
  shows "rs_status resp = (if list_ex (confirmable token ttl (ne_now e)) (nl_rows t) then 200 else 404)"
    "nl_rows u = map (\<lambda>r. if confirmable token ttl (ne_now e) r then confirm_row (ne_now e) r else r) (nl_rows t)"
  using assms by (auto simp: newsletter_confirm_def newsletter_confirm_by_token_def bnd_Ok ret_Ok rows_call_Ok newsletter_response_def
      json_response_def split: if_splits)

lemma wrap_i64_nonneg: "0 \<le> x \<Longrightarrow> x < 2 ^ 63 \<Longrightarrow> wrap_i64 x = x"
  by (simp add: wrap_i64_def)

lemma upsert_rows_cases:
  "r \<in> set (upsert_rows email source token now rows) \<Longrightarrow>
     (ns_email r = email \<and> ns_confirmation_token r = Some token \<and> ns_created_at r = now) \<or> (r \<in> set rows \<and> ns_email r \<noteq> email)"
  by (auto simp: upsert_rows_def pending_row_def split: if_splits)

lemma confirm_facts:
  assumes "start_subscription e email source s = Ok () t" "newsletter_confirm e' (new_token e s) t = Ok resp u"
    "trim (new_token e s) = new_token e s" "new_token e s \<noteq> []"
    "\<forall>r\<in>set (nl_rows s). ns_confirmation_token r \<noteq> Some (new_token e s)"
    "ttl = newsletter_token_ttl_secs (mailing (ne_config e'))" "0 \<le> ttl" "ttl < 2 ^ 63"
  shows "rs_status resp = (if ne_now e' < ne_now e + ttl then 200 else 404)"
    "ne_now e' < ne_now e + ttl \<Longrightarrow> r \<in> set (nl_rows u) \<Longrightarrow>
       (if ns_email r = email then ns_confirmed r \<and> ns_confirmation_token r = None \<and> ns_unsubscribed_at r = None else r \<in> set (nl_rows s))"
    "ne_now e' < ne_now e + ttl \<Longrightarrow> newsletter_confirm e'' (new_token e s) u = Ok resp' v \<Longrightarrow> rs_status resp' = 404"
proof -
  let ?token = "new_token e s"
  note rows = start_subscription_rows [OF assms(1)]
  note run = confirm_run [OF assms(2-4,6)]
  have mine: "confirmable ?token ttl (ne_now e') r \<longleftrightarrow> ns_email r = email \<and> ne_now e' < ne_now e + ttl" if "r \<in> set (nl_rows t)" for r
    using upsert_rows_cases [OF that [unfolded rows]] assms(5) wrap_i64_nonneg [OF assms(7,8)] by (auto simp: confirmable_def)
  obtain r0 where "r0 \<in> set (nl_rows t)" "ns_email r0 = email"
    using upsert_rows_emails [of email source ?token "ne_now e" "nl_rows s"] rows by (metis imageE insertI1)
  then show "rs_status resp = (if ne_now e' < ne_now e + ttl then 200 else 404)"
    using mine run(1) by (auto simp: list_ex_iff)
  assume in_time: "ne_now e' < ne_now e + ttl"
  have u: "(if ns_email r = email then ns_confirmed r \<and> ns_confirmation_token r = None \<and> ns_unsubscribed_at r = None else r \<in> set (nl_rows s))"
    if "r \<in> set (nl_rows u)" for r
  proof -
    obtain q where "q \<in> set (nl_rows t)" "r = (if confirmable ?token ttl (ne_now e') q then confirm_row (ne_now e') q else q)"
      using \<open>r \<in> set (nl_rows u)\<close> run(2) by auto
    with mine in_time upsert_rows_cases [of q email source ?token "ne_now e" "nl_rows s"] rows show ?thesis
      by (auto simp: confirm_row_def)
  qed
  then show "r \<in> set (nl_rows u) \<Longrightarrow>
       (if ns_email r = email then ns_confirmed r \<and> ns_confirmation_token r = None \<and> ns_unsubscribed_at r = None else r \<in> set (nl_rows s))"
    by blast
  assume again: "newsletter_confirm e'' ?token u = Ok resp' v"
  have "\<not> confirmable ?token ttl' now' r" if "r \<in> set (nl_rows u)" for r ttl' now'
    using u [OF that] assms(5) by (auto simp: confirmable_def split: if_splits)
  then show "rs_status resp' = 404" using confirm_run(1) [OF again assms(3,4) refl] by (auto simp: list_ex_iff split: if_splits)
qed

text \<open>
  C17. The token of a subscription confirms it exactly until its time to live is over.  Then the rows of the address, and no others,
  are confirmed, and the token cannot be used again.
\<close>

theorem confirm_exact:
  assumes "start_subscription e email source s = Ok () t" "newsletter_confirm e' (new_token e s) t = Ok resp u"
    "trim (new_token e s) = new_token e s" "new_token e s \<noteq> []"
    "\<forall>r\<in>set (nl_rows s). ns_confirmation_token r \<noteq> Some (new_token e s)"
    "ttl = newsletter_token_ttl_secs (mailing (ne_config e'))" "0 \<le> ttl" "ttl < 2 ^ 63"
  shows "rs_status resp = (if ne_now e' < ne_now e + ttl then 200 else 404) \<and>
    (ne_now e' < ne_now e + ttl \<longrightarrow>
      (\<forall>r\<in>set (nl_rows u). if ns_email r = email then ns_confirmed r \<and> ns_confirmation_token r = None \<and> ns_unsubscribed_at r = None
         else r \<in> set (nl_rows s)) \<and>
      (\<forall>e'' resp' v. newsletter_confirm e'' (new_token e s) u = Ok resp' v \<longrightarrow> rs_status resp' = 404))"
  using confirm_facts [OF assms] by blast

section \<open>Cleaning up\<close>

definition server_choice :: "(nat \<Rightarrow> 'a list \<Rightarrow> 'a list) \<Rightarrow> bool" where
  "server_choice pick \<longleftrightarrow> (\<forall>n xs. set (pick n xs) \<subseteq> set xs \<and> length (pick n xs) = min n (length xs) \<and> (length xs \<le> n \<longrightarrow> set (pick n xs) = set xs))"

lemma server_choiceD:
  assumes "server_choice pick"
  shows "set (pick n xs) \<subseteq> set xs" "length xs \<le> n \<Longrightarrow> set (pick n xs) = set xs"
  using assms by (simp_all add: server_choice_def)

lemma cleanup_run:
  assumes "newsletter_delete_expired_pending e ttl batch s = Ok n t"
  shows "nl_rows t = filter (\<lambda>r. r \<notin> set (ne_pick e (nat (wrap_i64 batch)) (filter (expired_pending ttl (ne_now e)) (nl_rows s)))) (nl_rows s)"
  using assms by (auto simp: newsletter_delete_expired_pending_def rows_call_Ok Let_def split: if_splits)

text \<open>
  The clean-up keeps every confirmed row and every row whose time is not over.  When its batch is large enough it deletes all others, and
  among them the rows of those who have unsubscribed, so that nothing is left to show that they did.
\<close>

theorem cleanup_forgets_unsubscribed:
  assumes "server_choice (ne_pick e)" "newsletter_unsubscribe_row e0 email s = Ok True t"
    "newsletter_delete_expired_pending e ttl batch t = Ok n u" "0 \<le> ttl" "ttl < 2 ^ 63" "0 \<le> batch" "batch < 2 ^ 63"
  shows "r \<in> set (nl_rows t) \<Longrightarrow> ns_confirmed r \<or> ns_created_at r > ne_now e - ttl \<Longrightarrow> r \<in> set (nl_rows u)"
    "length (nl_rows t) \<le> nat batch \<Longrightarrow> r \<in> set (nl_rows u) \<Longrightarrow> live_with email r \<Longrightarrow> ns_created_at r > ne_now e - ttl"
proof -
  define old where "old = filter (expired_pending ttl (ne_now e)) (nl_rows t)"
  define gone where "gone = set (ne_pick e (nat batch) old)"
  have pick: "gone \<subseteq> set old" "length old \<le> nat batch \<Longrightarrow> gone = set old"
    using server_choiceD [OF assms(1), where n = "nat batch" and xs = old] by (simp_all add: gone_def)
  have u: "set (nl_rows u) = set (nl_rows t) - gone"
    unfolding cleanup_run [OF assms(3)] wrap_i64_nonneg [OF assms(6,7)] old_def [symmetric] gone_def [symmetric] by auto
  have expired: "r \<in> set old \<longleftrightarrow> r \<in> set (nl_rows t) \<and> \<not> ns_confirmed r \<and> ns_created_at r \<le> ne_now e - ttl" for r
    unfolding old_def expired_pending_def wrap_i64_nonneg [OF assms(4,5)] by simp
  show "r \<in> set (nl_rows t) \<Longrightarrow> ns_confirmed r \<or> ns_created_at r > ne_now e - ttl \<Longrightarrow> r \<in> set (nl_rows u)"
    using u pick(1) expired [of r] by auto
  have unsub: "\<not> ns_confirmed r" if inside: "r \<in> set (nl_rows t)" and live: "live_with email r" for r
  proof -
    have rows: "nl_rows t = map (\<lambda>s. if live_with email s then s\<lparr>ns_unsubscribed_at := Some (ne_now e0), ns_confirmed := False\<rparr> else s) (nl_rows s)"
      using assms(2) by (auto simp: newsletter_unsubscribe_row_def rows_call_Ok)
    obtain q where "r = (if live_with email q then q\<lparr>ns_unsubscribed_at := Some (ne_now e0), ns_confirmed := False\<rparr> else q)"
      using inside unfolding rows set_map by (elim imageE)
    then show ?thesis using live by (cases "live_with email q") simp_all
  qed
  assume "length (nl_rows t) \<le> nat batch"
  then have "length old \<le> nat batch" unfolding old_def by (rule le_trans [OF length_filter_le])
  then have "gone = set old" by (rule pick(2))
  then show "r \<in> set (nl_rows u) \<Longrightarrow> live_with email r \<Longrightarrow> ns_created_at r > ne_now e - ttl"
    using u unsub [of r] expired [of r] by auto
qed

section \<open>Single use of opaque tokens\<close>

fun is_valid :: "UnsubscribeTokenResult \<Rightarrow> bool" where
  "is_valid (Valid _) = True"
| "is_valid _ = False"

text \<open>The hashes of the tokens that a sequence of redemptions accepts.\<close>

fun accepted_hashes :: "(string \<Rightarrow> string) \<Rightarrow> (int \<times> string) list \<Rightarrow> OpaqueTokenStore \<Rightarrow> string list" where
  "accepted_hashes sha [] st = []"
| "accepted_hashes sha ((now, raw) # reqs) st = (let (r, st') = redeem sha now raw st in
     (if is_valid r then [sha raw] else []) @ accepted_hashes sha reqs st')"

lemma redeem_step:
  assumes "redeem sha now raw st = (r, st')"
  shows "if is_valid r then (\<exists>entry. os_entries st (sha raw) = Some entry \<and> oe_used_at entry = None \<and>
       os_entries st' = (os_entries st)(sha raw \<mapsto> entry\<lparr>oe_used_at := Some now\<rparr>))
     else st' = st"
  using assms by (auto simp: redeem_def hash_unsubscribe_token_def Let_def split: option.splits if_splits)

text \<open>
  Whatever tokens are presented, in whichever order and at whatever times, no token is accepted twice, and none is
  accepted that was not stored unused.
\<close>

theorem unsubscribe_token_single_use:
  "distinct (accepted_hashes sha reqs st) \<and>
   (\<forall>h. h \<in> set (accepted_hashes sha reqs st) \<longrightarrow> (\<exists>entry. os_entries st h = Some entry \<and> oe_used_at entry = None))"
proof (induction sha reqs st rule: accepted_hashes.induct)
  case (2 sha now raw reqs st)
  obtain r st' where run: "redeem sha now raw st = (r, st')" by (metis surj_pair)
  note IH = 2 [OF run [symmetric] refl]
  have unfold: "accepted_hashes sha ((now, raw) # reqs) st = (if is_valid r then [sha raw] else []) @ accepted_hashes sha reqs st'"
    by (simp add: run)
  show ?case
  proof (cases "is_valid r")
    case True
    with redeem_step [OF run] obtain entry where e: "os_entries st (sha raw) = Some entry" "oe_used_at entry = None"
      "os_entries st' = (os_entries st)(sha raw \<mapsto> entry\<lparr>oe_used_at := Some now\<rparr>)" by auto
    have later: "h \<noteq> sha raw \<and> (\<exists>x. os_entries st h = Some x \<and> oe_used_at x = None)" if "h \<in> set (accepted_hashes sha reqs st')" for h
      using conjunct2 [OF IH, rule_format, OF that] by (auto simp: e(3) split: if_splits)
    show ?thesis unfolding unfold using True IH e(1,2) later by auto
  next
    case False
    then have "st' = st" using redeem_step [OF run] by simp
    then show ?thesis unfolding unfold using False IH by simp
  qed
qed simp

theorem unsubscribe_token_single_use_witness:
  "accepted_hashes (\<lambda>t. t) [(1, ''a''), (2, ''a''), (3, ''b'')] (opaque_insert 0 ''a'' 7 (OpaqueTokenStore_new 60)) = [''a''] \<and>
   distinct (accepted_hashes (\<lambda>t. t) [(1, ''a''), (2, ''a''), (3, ''b'')] (opaque_insert 0 ''a'' 7 (OpaqueTokenStore_new 60)))"
proof
  show "distinct (accepted_hashes (\<lambda>t. t) [(1, ''a''), (2, ''a''), (3, ''b'')] (opaque_insert 0 ''a'' 7 (OpaqueTokenStore_new 60)))"
    using unsubscribe_token_single_use by blast
qed (simp add: opaque_insert_def OpaqueTokenStore_new_def redeem_def hash_unsubscribe_token_def)

section \<open>The store that stands for the table\<close>

text \<open>
  The in-memory store does not behave as the table it stands for: at the moment its time to live is over a token is
  accepted by the store and refused by the table, and once some address is confirmed the store reports any unknown token
  as already confirmed.
\<close>

theorem token_store_differs:
  assumes "0 \<le> ttl" "ttl < 2 ^ 63"
  shows "fst (ts_confirm (t + ttl) token (ts_subscribe t email token (TokenStore_new ttl))) = Confirmed"
    "\<not> list_ex (confirmable token ttl (t + ttl)) (upsert_rows email source token t [])"
    "token' \<noteq> token \<Longrightarrow>
      fst (ts_confirm now token' (snd (ts_confirm (t + ttl) token (ts_subscribe t email token (TokenStore_new ttl))))) = AlreadyConfirmed"
  by (simp_all add: ts_confirm_def ts_subscribe_def TokenStore_new_def upsert_rows_def pending_row_def confirmable_def wrap_i64_nonneg [OF assms])

section \<open>Sample runs\<close>

text \<open>A service that signs with the key \<open>k\<close> and allows three exports an hour, with one confirmed subscriber.\<close>

definition news_config :: "unit Config" where
  "news_config = (let c = Config_from_env plain_lib (\<lambda>_. None) in
     c\<lparr>mailing := (mailing c)\<lparr>unsubscribe_signing_secret := Some ''k'', gdpr_export_rate_limit := 3,
        gdpr_export_rate_window_secs := 3600, newsletter_token_ttl_secs := 86400\<rparr>\<rparr>)"

definition news_mail_env :: "int \<Rightarrow> (table, json) env" where
  "news_mail_env now = \<lparr>e_redis = table_redis, e_fate = (\<lambda>_. Done), e_clock = now, e_uuid_text = (\<lambda>u. ''u'' @ show_int 10 (uint u)),
     e_uuid_parse = (\<lambda>_. None), e_new_uuid = of_nat, e_hmac_hex = (\<lambda>_ m. m), e_validate_email = (\<lambda>a. CHR ''@'' \<in> set a),
     e_render = (\<lambda>_ _. Some []), e_sendgrid = (\<lambda>_. Answer 202 None)\<rparr>"

definition news_sample_env :: "int \<Rightarrow> (table, unit) news_env" where
  "news_sample_env now = \<lparr> ne_env = news_mail_env now, ne_lib = plain_lib, ne_sign = sample_sign_lib, ne_config = news_config,
     ne_contains = (\<lambda>_ _. False), ne_db_failure = (\<lambda>_. None), ne_pick = (\<lambda>n xs. take n xs), ne_time_text = show_signed,
     ne_generate_unsubscribe_token = (\<lambda>_ _. None), ne_validate_unsubscribe_token = (\<lambda>_ _. None) \<rparr>"

definition news_sample :: "NewsletterSubscriber list \<Rightarrow> table news" where
  "news_sample rows = \<lparr> nl_mail = \<lparr>m_store = empty_table, m_jobs = (\<lambda>_. None), m_dead = (\<lambda>_. None), m_suppressed = (\<lambda>_. False),
     m_events = [], m_accepted = [], m_calls = 0\<rparr>, nl_rows = rows \<rparr>"

definition confirmed_row :: NewsletterSubscriber where
  "confirmed_row = \<lparr> ns_email = ''a@b.c'', ns_source = ''direct'', ns_confirmed = True, ns_confirmation_token = None,
     ns_created_at = 5, ns_confirmed_at = Some 6, ns_unsubscribed_at = None, ns_deleted_at = None \<rparr>"

lemma news_config_fields [simp]:
  "unsubscribe_signing_secret (mailing news_config) = Some ''k''" "gdpr_export_rate_limit (mailing news_config) = 3"
  "gdpr_export_rate_window_secs (mailing news_config) = 3600" "newsletter_token_ttl_secs (mailing news_config) = 86400"
  by (simp_all add: news_config_def Let_def)

lemma news_sample_sel [simp]:
  "ne_env (news_sample_env now) = news_mail_env now" "ne_lib (news_sample_env now) = plain_lib"
  "ne_sign (news_sample_env now) = sample_sign_lib" "ne_config (news_sample_env now) = news_config"
  "e_redis (news_mail_env now) = table_redis" "e_clock (news_mail_env now) = now" "e_fate (news_mail_env now) n = Done"
  "e_validate_email (news_mail_env now) a = (CHR ''@'' \<in> set a)" "healthy (news_mail_env now)"
  "e_uuid_text (news_mail_env now) u = ''u'' @ show_int 10 (uint u)" "e_new_uuid (news_mail_env now) = of_nat"
  "nl_rows (news_sample rows) = rows" "m_store (nl_mail (news_sample rows)) = empty_table" "m_calls (nl_mail (news_sample rows)) = 0"
  by (simp_all add: news_sample_env_def news_mail_env_def news_sample_def healthy_def)

lemma allow_fresh:
  assumes "redis_laws R" "strings (r_view R r) (newsletter_key key) = None" "0 < mx"
  shows "\<exists>r'. allow R Done key mx window r = (True, r') \<and>
    (\<forall>k. k \<noteq> newsletter_key key \<longrightarrow> strings (r_view R r') k = strings (r_view R r) k)"
  using assms(2,3) by (simp add: allow_def remote_def incr_with_ttl_script_def get_string_def redis_lawsD [OF assms(1)] count_of_def
      present_def Let_def)

lemma gdpr_allow_fresh:
  assumes "strings (r_view table_redis (m_store (nl_mail s))) (newsletter_key key) = None"
  shows "\<exists>t. gdpr_allow (news_sample_env now) key s = Ok True t \<and> nl_rows t = nl_rows s \<and>
    (\<forall>k. k \<noteq> newsletter_key key \<longrightarrow> strings (r_view table_redis (m_store (nl_mail t))) k = strings (r_view table_redis (m_store (nl_mail s))) k)"
  using allow_fresh [OF table_redis_laws assms, of 3 3600] by (auto simp: gdpr_allow_def rate_allow_def Let_def)

lemma plain_address: "normalized_email (news_sample_env now) ''a@b.c'' = Some ''a@b.c''"
  by (simp add: normalized_email_def trim_visible visible_def plain_lib_def ascii_lower_def char_of_def)

theorem gdpr_export_needs_code_witness:
  "\<exists>t. newsletter_gdpr_export (news_sample_env 1000) bare_request ''a@b.c''
     (generate_gdpr_verification_token sample_sign_lib 900 ''a@b.c'' ''k'') (news_sample [confirmed_row]) =
     Ok (json_response 200 (JObj [(''success'', JBool True), (''data'', subscriber_json (news_sample_env 1000) confirmed_row)])) t \<and>
   verify_gdpr_verification_token sample_sign_lib 1000 (generate_gdpr_verification_token sample_sign_lib 900 ''a@b.c'' ''k'') ''a@b.c'' ''k''"
proof -
  let ?e = "news_sample_env 1000" and ?s = "news_sample [confirmed_row]"
  let ?tok = "generate_gdpr_verification_token sample_sign_lib 900 ''a@b.c'' ''k''"
  have empty: "strings (r_view table_redis empty_table) k = None" for k by (simp add: table_redis_def) (transfer, simp)
  obtain s1 where 1: "gdpr_allow ?e (''gdpr_export:ip:'' @ news_client_ip ?e bare_request) ?s = Ok True s1" "nl_rows s1 = [confirmed_row]"
    "\<And>k. k \<noteq> newsletter_key (''gdpr_export:ip:'' @ news_client_ip ?e bare_request) \<Longrightarrow> strings (r_view table_redis (m_store (nl_mail s1))) k = None"
    using gdpr_allow_fresh [of ?s "''gdpr_export:ip:'' @ news_client_ip ?e bare_request" 1000] empty by auto
  let ?s2 = "s1\<lparr>nl_mail := (nl_mail s1)\<lparr>m_calls := m_calls (nl_mail s1) + 1\<rparr>, nl_rows := nl_rows s1\<rparr>"
  have "newsletter_get_by_email ?e ''a@b.c'' s1 = Ok (Some confirmed_row) ?s2"
    unfolding newsletter_get_by_email_def by (subst rows_call_healthy) (simp_all add: 1(2) confirmed_row_def)
  moreover obtain s3 where "gdpr_allow ?e (''gdpr_export:email:'' @ ''a@b.c'') ?s2 = Ok True s3"
    using gdpr_allow_fresh [of ?s2 "''gdpr_export:email:'' @ ''a@b.c''" 1000] 1(3) by (auto simp: newsletter_key_def)
  moreover have "verify_gdpr_verification_token sample_sign_lib 1000 ?tok ''a@b.c'' ''k''"
    by (simp add: verify_gdpr_verification_token_def generate_gdpr_verification_token_def GDPR_TOKEN_TTL_SECS_def Let_def show_int_def
        digits_of.simps digit_char_def char_of_def parse_unsigned_def strip_plus_def all_digits_def decimal_value_def digits_value_def to_digit_def
        verify_signature_def generate_signature_def sample_sign_lib_def)
  ultimately have run: "newsletter_gdpr_export ?e bare_request ''a@b.c'' ?tok ?s =
      Ok (json_response 200 (JObj [(''success'', JBool True), (''data'', subscriber_json ?e confirmed_row)])) s3"
    using 1(1) by (simp add: newsletter_gdpr_export_def bnd_def plain_address check_gdpr_token_def export_reply_def ret_def)
  from gdpr_export_needs_code [OF this] run show ?thesis by (auto simp: json_response_def plain_address)
qed

theorem subscribe_effect_witness:
  "(\<exists>t. newsletter_subscribe (news_sample_env 1000) ''a@b.c'' None (news_sample [confirmed_row]) =
      Ok (newsletter_response 202 True ''Please check your email to confirm your subscription.'') t \<and> nl_rows t = [confirmed_row]) \<and>
   (\<exists>t. newsletter_subscribe (news_sample_env 1000) ''a@b.c'' None (news_sample []) =
      Ok (newsletter_response 202 True ''Please check your email to confirm your subscription.'') t \<and>
      nl_rows t = [pending_row ''a@b.c'' ''direct'' ''u1'' 1000])"
proof -
  let ?e = "news_sample_env 1000"
  have pre: "healthy (ne_env ?e)" "normalized_email ?e ''a@b.c'' = Some ''a@b.c''" "\<not> is_disposable_email ''a@b.c''"
    "redact_email ''a@b.c'' \<noteq> None"
    by (simp_all add: plain_address is_disposable_email_def DISPOSABLE_DOMAINS_def redact_email_def redact_local_def redact_domain_def
        split_last_def)
  note effect = subscribe_effect [OF pre, of None]
  have source: "source_of None = ''direct''" by (simp add: source_of_def trim_visible visible_def take_chars_ascii is_ascii_def)
  have "subscribed ''a@b.c'' (news_sample [confirmed_row])" "\<not> subscribed ''a@b.c'' (news_sample [])"
    by (simp_all add: subscribed_def active_subscriber_def confirmed_row_def)
  moreover have "subscription_token ?e (news_sample []) = ''u1''"
    by (simp add: subscription_token_def show_int_def digits_of.simps digit_char_def char_of_def)
  ultimately show ?thesis using effect [of "news_sample [confirmed_row]"] effect [of "news_sample []"]
    by (auto simp: upsert_rows_def source)
qed

theorem confirm_exact_witness:
  "\<exists>t u. start_subscription (news_sample_env 1000) ''a@b.c'' ''direct'' (news_sample []) = Ok () t \<and>
     newsletter_confirm (news_sample_env 87399) ''u0'' t = Ok (newsletter_response 200 True ''Subscription confirmed.'') u \<and>
     (\<forall>r\<in>set (nl_rows u). ns_confirmed r)"
proof -
  let ?e = "news_sample_env 1000" and ?e' = "news_sample_env 87399" and ?s = "news_sample []"
  have token: "new_token ?e ?s = ''u0''" by (simp add: new_token_def show_int_def digits_of.simps digit_char_def char_of_def)
  have trimmed: "trim ''u0'' = ''u0''" by (rule trim_visible) (simp add: visible_def)
  have healthy: "healthy (ne_env ?e)" by simp
  obtain t where t: "start_subscription ?e ''a@b.c'' ''direct'' ?s = Ok () t" "nl_rows t = [pending_row ''a@b.c'' ''direct'' ''u0'' 1000]"
    using start_subscription_healthy [OF healthy, of "''a@b.c''" "''direct''" ?s] by (auto simp: token upsert_rows_def)
  obtain u where u: "newsletter_confirm ?e' ''u0'' t = Ok (newsletter_response 200 True ''Subscription confirmed.'') u"
    by (simp add: newsletter_confirm_def newsletter_confirm_by_token_def bnd_def rows_call_healthy trimmed ret_def t(2)
        confirmable_def pending_row_def wrap_i64_def)
  note facts = confirm_exact [OF t(1), of ?e' _ u, unfolded token, OF u trimmed _ _ refl]
  have "\<forall>r\<in>set (nl_rows u). ns_confirmed r" using facts by (auto split: if_splits)
  then show ?thesis using t(1) u by auto
qed

end
