(* ===== verification/Webhook.thy ===== *)
theory Webhook
  imports Newsletter Request_Filters
begin

text \<open>
  The events SendGrid reports (\<^verbatim>\<open>email/webhook.rs\<close>, with the tables of suppressions and analytics in \<^verbatim>\<open>db.rs\<close>): the
  sanitizer of incoming events, and the processing of a batch with its two guards against replays, a counter in Redis
  and a query on the stored events.  The events of a batch are processed in some order; the sources run up to sixteen at a time,
  each of whose statements is atomic.  JSON parsing and the case tables are parameters.
\<close>

section \<open>Sanitizing\<close>

definition MAX_WEBHOOK_PAYLOAD_BYTES :: nat where "MAX_WEBHOOK_PAYLOAD_BYTES = 64 * 1024"
definition MAX_TEXT_FIELD_LEN :: nat where "MAX_TEXT_FIELD_LEN = 1024"
definition MAX_ID_FIELD_LEN :: nat where "MAX_ID_FIELD_LEN = 254"

record RawSendGridEvent =
  raw_email :: "string option"
  raw_event :: "string option"
  raw_timestamp :: "json option"
  raw_message_id :: "string option"
  raw_reason :: "string option"
  raw_status :: "string option"
  raw_response :: "string option"
  raw_bounce_classification :: "string option"
  raw_url :: "string option"

record SendGridEvent =
  ev_email :: string
  ev_event :: string
  ev_timestamp :: int
  ev_message_id :: "string option"
  ev_reason :: "string option"
  ev_status :: "string option"
  ev_response :: "string option"
  ev_bounce_classification :: "string option"
  ev_url :: "string option"

text \<open>\<^verbatim>\<open>str::find\<close>: the first position of a pattern; and the positions between characters.\<close>

fun find_sub :: "string \<Rightarrow> string \<Rightarrow> nat option" where
  "find_sub p [] = (if p = [] then Some 0 else None)"
| "find_sub p (c # s) = (if starts_with p (c # s) then Some 0 else map_option Suc (find_sub p s))"

definition char_boundary :: "string \<Rightarrow> nat \<Rightarrow> bool" where
  "char_boundary s i \<longleftrightarrow> i = length s \<or> i < length s \<and> \<not> continuation (s ! i)"

text \<open>
  Removing a pattern as often as it is found in the lower-case copy.  The position found there is used in the text itself, which
  panics when it is no position between two characters of the text.
\<close>

function remove_pattern :: "'net text_lib \<Rightarrow> string \<Rightarrow> string \<Rightarrow> string option" where
  "remove_pattern lib pat out = (case find_sub pat (to_lowercase lib out) of
     None \<Rightarrow> Some out
   | Some pos \<Rightarrow>
       if pat = [] \<or> \<not> char_boundary out pos \<or> \<not> char_boundary out (pos + length pat) then None
       else remove_pattern lib pat (take pos out @ drop (pos + length pat) out))"
  by pat_completeness auto
termination
proof (relation "measure (\<lambda>(lib, pat, out). length out)")
  fix lib :: "'net text_lib" and pat out pos
  assume "\<not> (pat = [] \<or> \<not> char_boundary out pos \<or> \<not> char_boundary out (pos + length pat))"
  then have "pos + length pat \<le> length out" "pat \<noteq> []" by (auto simp: char_boundary_def)
  then show "((lib, pat, take pos out @ drop (pos + length pat) out), lib, pat, out) \<in> measure (\<lambda>(lib, pat, out). length out)"
    by (cases pat) auto
qed simp

declare remove_pattern.simps [simp del]

definition dangerous :: "string list" where
  "dangerous = [''javascript:'', ''vbscript:'', ''data:text/html'', ''onerror='', ''onload='', ''onclick='', ''eval('', ''expression('']"

definition strip_html_and_truncate :: "'net text_lib \<Rightarrow> string \<Rightarrow> nat \<Rightarrow> string option" where
  "strip_html_and_truncate lib input max_len = map_option (take_chars max_len)
     (foldl (\<lambda>out pat. Option.bind out (remove_pattern lib pat)) (Some (strip_tags_from False input)) dangerous)"

definition sanitize_opt :: "'net text_lib \<Rightarrow> string option \<Rightarrow> string option option" where
  "sanitize_opt lib v = (case v of None \<Rightarrow> Some None
   | Some s \<Rightarrow> map_option (\<lambda>t. if t = [] then None else Some t) (strip_html_and_truncate lib (trim s) MAX_TEXT_FIELD_LEN))"

definition sanitize_id :: "string option \<Rightarrow> string option" where
  "sanitize_id v = Option.bind v (\<lambda>s. let t = take_chars MAX_ID_FIELD_LEN (trim s) in if t = [] then None else Some t)"

datatype sanitize_error = Missing_Email | Bad_Email | Missing_Event | Bad_Event | Bad_Timestamp | Too_Large | Not_Json

definition event_time :: "json option \<Rightarrow> sanitize_error + int" where
  "event_time v = (case v of
     Some (JNum n) \<Rightarrow> if in_i64 n then Inr n else Inl Bad_Timestamp
   | Some (JStr s) \<Rightarrow> (case parse_signed 64 s of Some n \<Rightarrow> Inr n | None \<Rightarrow> Inl Bad_Timestamp)
   | _ \<Rightarrow> Inl Bad_Timestamp)"

text \<open>The outer option is a panic.\<close>

definition sanitize_event :: "'net text_lib \<Rightarrow> RawSendGridEvent \<Rightarrow> (sanitize_error + SendGridEvent) option" where
  "sanitize_event lib raw = (case raw_email raw of
     None \<Rightarrow> Some (Inl Missing_Email)
   | Some email0 \<Rightarrow> (let email = trim email0 in
       if length email > MAX_ID_FIELD_LEN \<or> email = [] then Some (Inl Bad_Email)
       else case raw_event raw of
         None \<Rightarrow> Some (Inl Missing_Event)
       | Some event0 \<Rightarrow> (let event = trim event0 in
           if length event > 64 \<or> event = [] then Some (Inl Bad_Event)
           else case event_time (raw_timestamp raw) of
             Inl err \<Rightarrow> Some (Inl err)
           | Inr timestamp \<Rightarrow>
               Option.bind (sanitize_opt lib (raw_reason raw)) (\<lambda>reason.
               Option.bind (sanitize_opt lib (raw_response raw)) (\<lambda>response.
               Some (Inr \<lparr> ev_email = email, ev_event = event, ev_timestamp = timestamp, ev_message_id = sanitize_id (raw_message_id raw),
                 ev_reason = reason, ev_status = sanitize_id (raw_status raw), ev_response = response,
                 ev_bounce_classification = sanitize_id (raw_bounce_classification raw), ev_url = sanitize_id (raw_url raw) \<rparr>))))))"

fun sanitize_all :: "'net text_lib \<Rightarrow> RawSendGridEvent list \<Rightarrow> (sanitize_error + SendGridEvent list) option" where
  "sanitize_all lib [] = Some (Inr [])"
| "sanitize_all lib (raw # raws) = (case sanitize_event lib raw of
     None \<Rightarrow> None
   | Some (Inl err) \<Rightarrow> Some (Inl err)
   | Some (Inr ev) \<Rightarrow> map_option (map_sum id (\<lambda>evs. ev # evs)) (sanitize_all lib raws))"

definition parse_and_sanitize_events ::
  "'net text_lib \<Rightarrow> (string \<Rightarrow> RawSendGridEvent list option) \<Rightarrow> string \<Rightarrow> (sanitize_error + SendGridEvent list) option" where
  "parse_and_sanitize_events lib parse raw_bytes =
     (if length raw_bytes > MAX_WEBHOOK_PAYLOAD_BYTES then Some (Inl Too_Large)
      else case parse raw_bytes of None \<Rightarrow> Some (Inl Not_Json) | Some raws \<Rightarrow> sanitize_all lib raws)"

section \<open>Suppressions and counters: db.rs\<close>

datatype SuppressionType = Bounce | Complaint | Unsubscribe | Manual

fun SuppressionType_as_str :: "SuppressionType \<Rightarrow> string" where
  "SuppressionType_as_str Bounce = ''bounce''"
| "SuppressionType_as_str Complaint = ''complaint''"
| "SuppressionType_as_str Unsubscribe = ''unsubscribe''"
| "SuppressionType_as_str Manual = ''manual''"

record EmailSuppression =
  su_type :: string
  su_reason :: "string option"
  su_bounce_type :: "string option"

text \<open>
  The state: the newsletter and mail subsystems, the reasons of the suppressions, and the counters by template, day and column.
\<close>

record 'r hook =
  hk_news :: "'r news"
  hk_reasons :: "string \<Rightarrow> EmailSuppression option"
  hk_counters :: "string \<Rightarrow> int \<Rightarrow> string \<Rightarrow> int"

type_synonym ('r, 'a) hook_op = "('r hook, DbError, 'a) comp"

abbreviation hk_mail :: "'r hook \<Rightarrow> ('r, json) mail" where
  "hk_mail s \<equiv> nl_mail (hk_news s)"

definition db_failure :: "('r, 'net) news_env \<Rightarrow> nat \<Rightarrow> DbError" where
  "db_failure e n = projl (with_timeout (map_option Inl (ne_db_failure e n) :: (sqlx_error + unit) option))"

definition count_call :: "'r hook \<Rightarrow> 'r hook" where
  "count_call s = s\<lparr>hk_news := (hk_news s)\<lparr>nl_mail := (hk_mail s)\<lparr>m_calls := m_calls (hk_mail s) + 1\<rparr>\<rparr>\<rparr>"

definition with_mail :: "(('r, json) mail \<Rightarrow> ('r, json) mail) \<Rightarrow> 'r hook \<Rightarrow> 'r hook" where
  "with_mail f s = s\<lparr>hk_news := (hk_news s)\<lparr>nl_mail := f (hk_mail s)\<rparr>\<rparr>"

definition hook_call :: "('r, 'net) news_env \<Rightarrow> ('r hook \<Rightarrow> 'a \<times> 'r hook) \<Rightarrow> ('r, 'a) hook_op" where
  "hook_call e f s = (let n = m_calls (hk_mail s); s1 = count_call s; (x, t) = f s1 in
     case e_fate (ne_env e) n of Done \<Rightarrow> Ok x t | Lost \<Rightarrow> Err (db_failure e n) s1 | Unacked \<Rightarrow> Err (db_failure e n) t)"

definition email_add_suppression ::
  "('r, 'net) news_env \<Rightarrow> string \<Rightarrow> string \<Rightarrow> string option \<Rightarrow> string option \<Rightarrow> ('r, unit) hook_op" where
  "email_add_suppression e email suppression_type reason bounce_type = hook_call e (\<lambda>s. ((),
     with_mail (\<lambda>m. m\<lparr>m_suppressed := (m_suppressed m)(email := True)\<rparr>)
       (s\<lparr>hk_reasons := (hk_reasons s)(email := Some \<lparr> su_type = suppression_type, su_reason = reason, su_bounce_type = bounce_type \<rparr>)\<rparr>)))"

definition email_remove_suppression :: "('r, 'net) news_env \<Rightarrow> string \<Rightarrow> ('r, bool) hook_op" where
  "email_remove_suppression e email = hook_call e (\<lambda>s. (m_suppressed (hk_mail s) email,
     with_mail (\<lambda>m. m\<lparr>m_suppressed := (m_suppressed m)(email := False)\<rparr>) (s\<lparr>hk_reasons := (hk_reasons s)(email := None)\<rparr>)))"

definition counter_column :: "string \<Rightarrow> string option" where
  "counter_column counter_type = (if counter_type \<in> set [''sent'', ''delivered'', ''opened'', ''clicked'', ''bounced'', ''complained'', ''unsubscribed'']
     then Some (counter_type @ ''_count'') else None)"

definition email_increment_analytics_counter :: "('r, 'net) news_env \<Rightarrow> string \<Rightarrow> string option \<Rightarrow> ('r, unit) hook_op" where
  "email_increment_analytics_counter e counter_type template_name = (case counter_column counter_type of
     None \<Rightarrow> ret ()
   | Some column \<Rightarrow> hook_call e (\<lambda>s. let template = unwrap_or template_name ''unknown''; today = ne_now e div 86400 in
       ((), s\<lparr>hk_counters := (hk_counters s)(template := (hk_counters s template)(today :=
          (hk_counters s template today)(column := hk_counters s template today column + 1)))\<rparr>)))"

definition same_event :: "string option \<Rightarrow> string \<Rightarrow> string \<Rightarrow> EmailEvent \<Rightarrow> bool" where
  "same_event message_id event_type email v \<longleftrightarrow> v_message_id v = message_id \<and> v_event_type v = event_type \<and> v_recipient_email v = email"

definition email_event_exists :: "('r, 'net) news_env \<Rightarrow> string option \<Rightarrow> string \<Rightarrow> string \<Rightarrow> ('r, bool) hook_op" where
  "email_event_exists e message_id event_type email = hook_call e (\<lambda>s.
     (list_ex (same_event message_id event_type email) (m_events (hk_mail s)), s))"

definition store_event :: "('r, 'net) news_env \<Rightarrow> string option \<Rightarrow> string \<Rightarrow> string \<Rightarrow> ('r, unit) hook_op" where
  "store_event e message_id event_type email = hook_call e (\<lambda>s. ((), with_mail (\<lambda>m. m\<lparr>m_events := m_events m @
     [\<lparr>v_email_job_id = None, v_message_id = message_id, v_event_type = event_type, v_recipient_email = email\<rparr>]\<rparr>) s))"

section \<open>Processing\<close>

definition first_of :: "'a option \<Rightarrow> 'a option \<Rightarrow> 'a option" where
  "first_of a b = (case a of None \<Rightarrow> b | Some x \<Rightarrow> Some x)"

text \<open>The log lines at the end redact the address again; it has been redacted before, so that they cannot panic.\<close>

definition handle_bounce :: "('r, 'net) news_env \<Rightarrow> SendGridEvent \<Rightarrow> ('r, unit) hook_op" where
  "handle_bounce e ev =
     thn (email_add_suppression e (ev_email ev) (SuppressionType_as_str Bounce)
       (Some (unwrap_or (first_of (ev_reason ev) (ev_response ev)) ''No reason provided''))
       (Some (unwrap_or (first_of (ev_bounce_classification ev) (ev_status ev)) ''unknown'')))
     (email_increment_analytics_counter e ''bounced'' None)"

definition handle_complaint :: "('r, 'net) news_env \<Rightarrow> SendGridEvent \<Rightarrow> ('r, unit) hook_op" where
  "handle_complaint e ev =
     thn (email_add_suppression e (ev_email ev) (SuppressionType_as_str Complaint) (Some (unwrap_or (ev_reason ev) ''Spam complaint'')) None)
     (email_increment_analytics_counter e ''complained'' None)"

text \<open>The outcome of the statement on the table of subscribers is dropped.\<close>

definition try_unsubscribe :: "('r, 'net) news_env \<Rightarrow> string \<Rightarrow> ('r, unit) hook_op" where
  "try_unsubscribe e email s = (case newsletter_unsubscribe_row e email (hk_news s) of
     Ok _ t \<Rightarrow> Ok () (s\<lparr>hk_news := t\<rparr>) | Err _ t \<Rightarrow> Ok () (s\<lparr>hk_news := t\<rparr>) | Trap \<Rightarrow> Trap)"

definition handle_unsubscribe :: "('r, 'net) news_env \<Rightarrow> SendGridEvent \<Rightarrow> ('r, unit) hook_op" where
  "handle_unsubscribe e ev =
     thn (email_add_suppression e (ev_email ev) (SuppressionType_as_str Unsubscribe) (Some ''User unsubscribed via email link'') None)
     (thn (try_unsubscribe e (ev_email ev))
     (email_increment_analytics_counter e ''unsubscribed'' None))"

definition nonce_key :: "SendGridEvent \<Rightarrow> string" where
  "nonce_key ev = ''webhook_nonce:'' @ unwrap_or (ev_message_id ev) [] @ '':'' @ ev_event ev @ '':'' @ ev_email ev"

text \<open>The counter of the nonce; without an answer from Redis the event counts as new.\<close>

definition seen_count :: "('r, 'net) news_env \<Rightarrow> nat \<Rightarrow> SendGridEvent \<Rightarrow> ('r, int) hook_op" where
  "seen_count e window ev s = (let m = hk_mail s;
       (c, r) = remote (e_fate (ne_env e) (m_calls m)) (incr_with_ttl_script (e_redis (ne_env e)) (nonce_key ev) window) (m_store m)
     in Ok (unwrap_or c 1) (with_mail (\<lambda>m. m\<lparr>m_store := r, m_calls := m_calls m + 1\<rparr>) s))"

definition dispatch :: "('r, 'net) news_env \<Rightarrow> SendGridEvent \<Rightarrow> ('r, unit) hook_op" where
  "dispatch e ev = (let event_type = ev_event ev in
     if event_type = ''delivered'' then email_increment_analytics_counter e ''delivered'' None
     else if event_type = ''open'' then email_increment_analytics_counter e ''opened'' None
     else if event_type = ''click'' then email_increment_analytics_counter e ''clicked'' None
     else if event_type = ''bounce'' \<or> event_type = ''dropped'' then handle_bounce e ev
     else if event_type = ''spamreport'' then handle_complaint e ev
     else if event_type = ''unsubscribe'' then handle_unsubscribe e ev
     else ret ())"

definition record_event :: "('r, 'net) news_env \<Rightarrow> SendGridEvent \<Rightarrow> ('r, unit) hook_op" where
  "record_event e ev = thn (store_event e (ev_message_id ev) (ev_event ev) (ev_email ev)) (dispatch e ev)"

text \<open>The second guard: a known event, or an error of the query, ends the processing without an error.\<close>

definition unless_known :: "('r, 'net) news_env \<Rightarrow> SendGridEvent \<Rightarrow> ('r, unit) hook_op" where
  "unless_known e ev s = (case email_event_exists e (ev_message_id ev) (ev_event ev) (ev_email ev) s of
     Ok known t \<Rightarrow> if known then Ok () t else record_event e ev t
   | Err _ t \<Rightarrow> Ok () t
   | Trap \<Rightarrow> Trap)"

definition process_event :: "('r, 'net) news_env \<Rightarrow> nat \<Rightarrow> SendGridEvent \<Rightarrow> ('r, unit) hook_op" where
  "process_event e window ev = bnd (some_or_trap (redact_email (ev_email ev))) (\<lambda>_.
     bnd (seen_count e window ev) (\<lambda>seen. if seen > 1 then ret () else unless_known e ev))"

record WebhookResponse =
  wr_processed :: nat
  wr_errors :: "string list"

text \<open>Every event is processed, whatever happened to those before it; a panic ends the request.\<close>

fun process_all :: "('r, 'net) news_env \<Rightarrow> nat \<Rightarrow> SendGridEvent list \<Rightarrow> WebhookResponse \<Rightarrow> 'r hook \<Rightarrow> (WebhookResponse \<times> 'r hook) option" where
  "process_all e window [] acc s = Some (acc, s)"
| "process_all e window (ev # evs) acc s = (case process_event e window ev s of
     Ok _ t \<Rightarrow> process_all e window evs (acc\<lparr>wr_processed := wr_processed acc + 1\<rparr>) t
   | Err err t \<Rightarrow> process_all e window evs (acc\<lparr>wr_errors := wr_errors acc @ [''Event '' @ ev_event ev @ '': '' @ DbError_display err]\<rparr>) t
   | Trap \<Rightarrow> None)"

definition handle_sendgrid_webhook ::
  "('r, 'net) news_env \<Rightarrow> nat \<Rightarrow> SendGridEvent list \<Rightarrow> 'r hook \<Rightarrow> (WebhookResponse \<times> 'r hook) option" where
  "handle_sendgrid_webhook e window events = process_all e window events \<lparr> wr_processed = 0, wr_errors = [] \<rparr>"

definition response_json :: "WebhookResponse \<Rightarrow> json" where
  "response_json r = JObj [(''processed'', JNum (int (wr_processed r))),
     (''errors'', (if wr_errors r = [] then JNull else JArr (map JStr (wr_errors r))))]"

definition sendgrid_webhook_handler ::
  "('r, 'net) news_env \<Rightarrow> nat \<Rightarrow> SendGridEvent list \<Rightarrow> 'r hook \<Rightarrow> (http_response \<times> 'r hook) option" where
  "sendgrid_webhook_handler e window events s =
     map_option (map_prod (\<lambda>r. json_response 200 (response_json r)) id) (handle_sendgrid_webhook e window events s)"

section \<open>The sanitizer\<close>

lemma find_sub_Some: "find_sub p s = Some i \<Longrightarrow> \<exists>a b. s = a @ p @ b \<and> length a = i"
proof (induction s arbitrary: i)
  case (Cons c s)
  show ?case
  proof (cases "starts_with p (c # s)")
    case True
    then show ?thesis using Cons.prems by (auto simp: starts_with_iff)
  next
    case False
    then obtain j where "find_sub p s = Some j" "i = Suc j" using Cons.prems by auto
    with Cons.IH [OF this(1)] obtain a b where "c # s = (c # a) @ p @ b" "length (c # a) = i" by auto
    then show ?thesis by blast
  qed
qed (simp split: if_splits)

lemma find_sub_None: "find_sub p s = None \<Longrightarrow> \<not> str_contains p s"
  by (induction s) (auto split: if_splits)

lemma ascii_boundary: "is_ascii s \<Longrightarrow> i \<le> length s \<Longrightarrow> char_boundary s i"
  using nth_mem [of i s] by (fastforce simp: char_boundary_def is_ascii_def list_all_iff continuation_def Let_def)

lemma remove_pattern_ascii:
  assumes "case_laws lib" "is_ascii out" "pat \<noteq> []"
  shows "\<exists>r. remove_pattern lib pat out = Some r \<and> is_ascii r \<and> set r \<subseteq> set out \<and> \<not> str_contains pat (map ascii_lower r)"
  using assms
proof (induction lib pat out rule: remove_pattern.induct)
  case (1 lib pat out)
  have low: "to_lowercase lib out = map ascii_lower out" using 1(2,3) by (simp add: case_laws_def)
  show ?case
  proof (cases "find_sub pat (to_lowercase lib out)")
    case None
    then show ?thesis using 1(3) find_sub_None [of pat "map ascii_lower out"] low by (simp add: remove_pattern.simps)
  next
    case (Some pos)
    then obtain a b where "map ascii_lower out = a @ pat @ b" "length a = pos" using find_sub_Some low by metis
    then have len: "pos + length pat \<le> length out" by (metis add.assoc le_add1 length_append length_map)
    then have ok: "\<not> (pat = [] \<or> \<not> char_boundary out pos \<or> \<not> char_boundary out (pos + length pat))"
      using 1(3,4) by (simp add: ascii_boundary)
    let ?rest = "take pos out @ drop (pos + length pat) out"
    have rest: "is_ascii ?rest" "set ?rest \<subseteq> set out"
      using 1(3) set_take_subset [of pos out] set_drop_subset [of "pos + length pat" out]
      by (auto simp: is_ascii_def list_all_iff)
    obtain r where "remove_pattern lib pat ?rest = Some r" "is_ascii r" "set r \<subseteq> set ?rest" "\<not> str_contains pat (map ascii_lower r)"
      using "1.IH" [OF Some ok 1(2) rest(1) 1(4)] by blast
    then show ?thesis using Some ok rest(2) by (intro exI [of _ r]) (subst remove_pattern.simps, auto)
  qed
qed

lemma remove_patterns_ascii:
  assumes "case_laws lib" "is_ascii out" "[] \<notin> set pats"
  shows "\<exists>r. foldl (\<lambda>out pat. Option.bind out (remove_pattern lib pat)) (Some out) pats = Some r \<and> is_ascii r \<and> set r \<subseteq> set out \<and>
    (pats \<noteq> [] \<longrightarrow> \<not> str_contains (last pats) (map ascii_lower r))"
  using assms(2,3)
proof (induction pats rule: rev_induct)
  case (snoc pat pats)
  then obtain r where r: "foldl (\<lambda>out pat. Option.bind out (remove_pattern lib pat)) (Some out) pats = Some r" "is_ascii r" "set r \<subseteq> set out"
    by auto
  from remove_pattern_ascii [OF assms(1) r(2), of pat] snoc.prems(2) r show ?case by force
qed simp

text \<open>
  For ASCII texts the sanitizer never panics, keeps within the limit, and leaves no angle brackets and no call of \<^verbatim>\<open>expression\<close>, the last
  pattern it removes, in any case of letters.
\<close>

theorem sanitizer_sound_on_ascii:
  assumes "case_laws lib" "is_ascii input"
  shows "\<exists>out. strip_html_and_truncate lib input max_len = Some out \<and> length out \<le> max_len \<and>
    CHR ''<'' \<notin> set out \<and> CHR ''>'' \<notin> set out \<and> \<not> str_contains ''expression('' (map ascii_lower out)"
proof -
  have start: "is_ascii (strip_tags_from False input)" "set (strip_tags_from False input) \<subseteq> set input - {CHR ''<'', CHR ''>''}"
    using assms(2) strip_tags_plain [of False input] by (auto simp: is_ascii_def list_all_iff)
  obtain r where r: "foldl (\<lambda>out pat. Option.bind out (remove_pattern lib pat)) (Some (strip_tags_from False input)) dangerous = Some r"
      "is_ascii r" "set r \<subseteq> set (strip_tags_from False input)" "\<not> str_contains ''expression('' (map ascii_lower r)"
    using remove_patterns_ascii [OF assms(1) start(1), of dangerous] by (auto simp: dangerous_def)
  have "\<not> str_contains ''expression('' (map ascii_lower (take max_len r))"
  proof
    assume "str_contains ''expression('' (map ascii_lower (take max_len r))"
    then obtain a b where "map ascii_lower (take max_len r) = a @ ''expression('' @ b" unfolding str_contains_iff by blast
    then have "map ascii_lower r = a @ ''expression('' @ (b @ map ascii_lower (drop max_len r))"
      by (metis append.assoc append_take_drop_id map_append)
    with r(4) show False unfolding str_contains_iff by blast
  qed
  moreover have "set (take max_len r) \<subseteq> set input - {CHR ''<'', CHR ''>''}" using r(3) start(2) set_take_subset [of max_len r] by blast
  ultimately show ?thesis using r(1,2) by (auto simp: strip_html_and_truncate_def take_chars_ascii)
qed

theorem sanitizer_sound_on_ascii_witness:
  "\<exists>out. strip_html_and_truncate (plain_lib :: unit text_lib) ''<b>Expression(1)</b>'' 5 = Some out \<and> length out \<le> 5 \<and> CHR ''<'' \<notin> set out"
  using sanitizer_sound_on_ascii [of "plain_lib :: unit text_lib" "''<b>Expression(1)</b>''" 5]
  by (auto simp: case_laws_def plain_lib_def is_ascii_def)

text \<open>
  An earlier pattern can come back when a later one is removed from its middle, so that a script address passes the sanitizer.
\<close>

theorem sanitizer_reassembles:
  "strip_html_and_truncate (plain_lib :: unit text_lib) ''javaeval(script:f()'' MAX_TEXT_FIELD_LEN = Some ''javascript:f()''"
  by code_simp

section \<open>The two guards\<close>

text \<open>Everything an event can change but the counters of calls and of nonces.\<close>

definition books :: "'r hook \<Rightarrow> (NewsletterSubscriber list \<times> EmailEvent list \<times> (string \<Rightarrow> bool)) \<times> (string \<Rightarrow> EmailSuppression option) \<times> (string \<Rightarrow> int \<Rightarrow> string \<Rightarrow> int)" where
  "books s = ((nl_rows (hk_news s), m_events (hk_mail s), m_suppressed (hk_mail s)), hk_reasons s, hk_counters s)"

lemma count_call_sel [simp]:
  "hk_mail (count_call s) = (hk_mail s)\<lparr>m_calls := m_calls (hk_mail s) + 1\<rparr>" "nl_rows (hk_news (count_call s)) = nl_rows (hk_news s)"
  "hk_reasons (count_call s) = hk_reasons s" "hk_counters (count_call s) = hk_counters s" "books (count_call s) = books s"
  by (simp_all add: count_call_def books_def)

lemma with_mail_sel [simp]:
  "hk_mail (with_mail f s) = f (hk_mail s)" "nl_rows (hk_news (with_mail f s)) = nl_rows (hk_news s)"
  "hk_reasons (with_mail f s) = hk_reasons s" "hk_counters (with_mail f s) = hk_counters s"
  by (simp_all add: with_mail_def)

lemma exists_cases:
  obtains (answer) t where "email_event_exists e mid ty em s = Ok (list_ex (same_event mid ty em) (m_events (hk_mail s))) t" "books t = books s"
      "m_store (hk_mail t) = m_store (hk_mail s)"
  | (failed) err t where "email_event_exists e mid ty em s = Err err t" "books t = books s" "m_store (hk_mail t) = m_store (hk_mail s)"
  by (cases "e_fate (ne_env e) (m_calls (hk_mail s))") (auto simp: email_event_exists_def hook_call_def Let_def books_def)

lemma seen_count_run:
  "\<exists>c t. seen_count e w ev s = Ok c t \<and> books t = books s \<and> m_calls (hk_mail t) = m_calls (hk_mail s) + 1"
  by (simp add: seen_count_def Let_def books_def split: prod.split)

text \<open>Only the recording itself adds to the stored events, and no statement on the tables touches the server of the nonces.\<close>

definition kept :: "'r hook \<Rightarrow> EmailEvent list \<times> 'r" where
  "kept s = (m_events (hk_mail s), m_store (hk_mail s))"

lemma kept_call [simp]: "kept (count_call s) = kept s"
  by (simp add: kept_def)

lemma leaves_hook_call:
  fixes f :: "'r hook \<Rightarrow> 'a \<times> 'r hook"
  assumes "\<And>u. I u \<Longrightarrow> I (count_call u)" "\<And>u. I u \<Longrightarrow> I (snd (f u))"
  shows "leaves I (hook_call e f)"
  unfolding leaves_def
proof (intro allI impI)
  fix u :: "'r hook" assume "I u"
  then have "I (count_call u)" "I (snd (f (count_call u)))" using assms by blast+
  then show "case hook_call e f u of Ok _ t \<Rightarrow> I t | Err _ t \<Rightarrow> I t | Trap \<Rightarrow> True"
    by (cases "f (count_call u)") (simp add: hook_call_def Let_def split: fate.split)
qed

lemma leaves_dispatch:
  fixes I :: "'r hook \<Rightarrow> bool"
  assumes inv: "\<And>u v. I u \<Longrightarrow> kept v = kept u \<Longrightarrow> I v"
  shows "leaves I (dispatch e ev)"
proof -
  have call: "leaves I (hook_call e f)" if "\<And>u. kept (snd (f u)) = kept u" for f :: "'r hook \<Rightarrow> unit \<times> 'r hook"
    using that inv by (intro leaves_hook_call) (blast intro: kept_call)+
  have "leaves I (email_increment_analytics_counter e c tpl)" for c tpl
    by (cases "counter_column c") (auto simp: email_increment_analytics_counter_def Let_def kept_def intro: leaves_pure call)
  moreover have "leaves I (email_add_suppression e a b c d)" for a b c d
    unfolding email_add_suppression_def by (rule call) (simp add: kept_def)
  moreover have "leaves I (try_unsubscribe e em)" for em
    unfolding leaves_def
  proof (intro allI impI)
    fix u assume "I u"
    then have "I v" if "kept v = kept u" for v using inv that by blast
    then show "case try_unsubscribe e em u of Ok _ t \<Rightarrow> I t | Err _ t \<Rightarrow> I t | Trap \<Rightarrow> True"
      by (simp add: try_unsubscribe_def newsletter_unsubscribe_row_def rows_call_def Let_def kept_def split: fate.split)
  qed
  ultimately show ?thesis
    unfolding dispatch_def Let_def handle_bounce_def handle_complaint_def handle_unsubscribe_def
    by (intro leaves_if leaves_thn leaves_pure) blast+
qed

lemma stored_event:
  fixes e :: "('r, 'net) news_env"
  assumes "record_event e ev s = Ok x t"
  shows "list_ex (same_event (ev_message_id ev) (ev_event ev) (ev_email ev)) (m_events (hk_mail t))"
proof -
  let ?P = "\<lambda>s. list_ex (same_event (ev_message_id ev) (ev_event ev) (ev_email ev)) (m_events (hk_mail s))"
  obtain s1 where 1: "store_event e (ev_message_id ev) (ev_event ev) (ev_email ev) s = Ok () s1" and 2: "dispatch e ev s1 = Ok x t"
    using assms by (auto simp: record_event_def thn_Ok)
  have stored: "?P s1" using 1 by (auto simp: store_event_def hook_call_def Let_def same_event_def split: fate.splits)
  have "leaves ?P (dispatch e ev)" by (rule leaves_dispatch) (simp add: kept_def)
  from leavesD(1) [OF this stored 2] show ?thesis .
qed

lemma nonces_untouched: "leaves (\<lambda>s. m_store (hk_mail s) = r) (unless_known e ev)"
proof -
  have store: "leaves (\<lambda>s. m_store (hk_mail s) = r) (store_event e a b c)" for a b c
    unfolding store_event_def by (rule leaves_hook_call) simp_all
  have "leaves (\<lambda>s. m_store (hk_mail s) = r) (record_event e ev)"
    unfolding record_event_def by (rule leaves_thn [OF store leaves_dispatch]) (simp add: kept_def)
  then have rec: "case record_event e ev t of Ok _ u \<Rightarrow> m_store (hk_mail u) = r | Err _ u \<Rightarrow> m_store (hk_mail u) = r | Trap \<Rightarrow> True"
    if "m_store (hk_mail t) = r" for t using that by (simp add: leaves_def)
  show ?thesis
    unfolding leaves_def
  proof (intro allI impI)
    fix s assume s: "m_store (hk_mail s) = r"
    show "case unless_known e ev s of Ok _ t \<Rightarrow> m_store (hk_mail t) = r | Err _ t \<Rightarrow> m_store (hk_mail t) = r | Trap \<Rightarrow> True"
      by (rule exists_cases [of e "ev_message_id ev" "ev_event ev" "ev_email ev" s]) (use s rec in \<open>auto simp: unless_known_def\<close>)
  qed
qed

text \<open>
  An event that has been recorded is never recorded again: however often it is delivered, in whichever state the nonce is, and whichever
  calls fail, nothing but the count of its nonce changes.
\<close>

theorem recorded_event_ignored:
  assumes "record_event e ev s = Ok () s1" "redact_email (ev_email ev) \<noteq> None"
    "m_events (hk_mail t) = m_events (hk_mail s1)"
  shows "\<exists>u. process_event e' window ev t = Ok () u \<and> books u = books t"
proof -
  obtain shown where shown: "redact_email (ev_email ev) = Some shown" using assms(2) by blast
  obtain c t1 where seen: "seen_count e' window ev t = Ok c t1" "books t1 = books t" using seen_count_run by blast
  have run: "process_event e' window ev t = (if c > 1 then Ok () t1 else unless_known e' ev t1)"
    by (simp add: process_event_def bnd_def some_or_trap_def shown seen(1) ret_def)
  have known: "list_ex (same_event (ev_message_id ev) (ev_event ev) (ev_email ev)) (m_events (hk_mail t1))"
    using stored_event [OF assms(1)] assms(3) seen(2) by (simp add: books_def)
  show ?thesis
    by (rule exists_cases [of e' "ev_message_id ev" "ev_event ev" "ev_email ev" t1]) (use run known seen(2) in \<open>auto simp: unless_known_def\<close>)
qed

lemma process_run:
  assumes "redact_email (ev_email ev) = Some shown"
  shows "process_event e window ev s = (case seen_count e window ev s of
    Ok c t \<Rightarrow> if c > 1 then Ok () t else unless_known e ev t | Err x t \<Rightarrow> Err x t | Trap \<Rightarrow> Trap)"
  by (simp add: process_event_def bnd_def some_or_trap_def assms ret_def split: res.split)

text \<open>
  The nonce is used up by the first attempt, also by one that fails: if the first count has reached the server, the event is
  delivered again and the server answers, the second delivery is taken for a replay, so that the event is lost.
\<close>

theorem failed_event_lost:
  assumes R: "redis_laws (e_redis (ne_env e))" and n: "count_of (strings (r_view (e_redis (ne_env e)) (m_store (hk_mail s))) (nonce_key ev)) = int n"
    and reached: "e_fate (ne_env e) (m_calls (hk_mail s)) \<noteq> Lost" and failed: "process_event e window ev s = Err err t"
    and answers: "e_fate (ne_env e) (m_calls (hk_mail t)) = Done"
  shows "\<exists>u. process_event e window ev t = Ok () u \<and> books u = books t"
proof -
  let ?R = "e_redis (ne_env e)"
  obtain shown where shown: "redact_email (ev_email ev) = Some shown"
    using failed by (cases "redact_email (ev_email ev)") (auto simp: process_event_def bnd_def some_or_trap_def)
  obtain c1 r1 where script: "incr_with_ttl_script ?R (nonce_key ev) window (m_store (hk_mail s)) = (c1, r1)" by (metis surj_pair)
  obtain c s1 where seen: "seen_count e window ev s = Ok c s1" "m_store (hk_mail s1) = r1"
    using script reached by (simp add: seen_count_def Let_def remote_eq)
  have attempt: "unless_known e ev s1 = Err err t" using failed unfolding process_run [OF shown] seen(1) by (simp split: if_splits)
  have store: "m_store (hk_mail t) = r1" by (rule leavesD(2) [OF nonces_untouched seen(2) attempt])
  obtain c2 r2 where again: "incr_with_ttl_script ?R (nonce_key ev) window r1 = (c2, r2)" by (metis surj_pair)
  have "count_of (strings (r_view ?R r1) (nonce_key ev)) = int (Suc n)" using incr_with_ttl_run(2) [OF R n script] by simp
  from incr_with_ttl_run(1) [OF R this again] have "c2 > 1" by simp
  moreover obtain u where "seen_count e window ev t = Ok c2 u" "books u = books t"
    using again answers store by (simp add: seen_count_def Let_def remote_eq books_def)
  ultimately show ?thesis by (simp add: process_run [OF shown])
qed

section \<open>A batch\<close>

lemma hook_call_no_trap [simp]: "hook_call e f s \<noteq> Trap"
  by (cases "f (count_call s)") (simp add: hook_call_def Let_def split: fate.split)

lemma thn_trap: "thn m k s = Trap \<longleftrightarrow> m s = Trap \<or> (\<exists>t. m s = Ok () t \<and> k t = Trap)"
  by (cases "m s") (simp_all add: thn_def bnd_def)

lemma record_event_no_trap: "record_event e ev s \<noteq> Trap"
proof -
  have c: "email_increment_analytics_counter e a b s \<noteq> Trap" for a b s
    by (simp add: email_increment_analytics_counter_def ret_def split: option.split)
  have u: "try_unsubscribe e em s \<noteq> Trap" for em s
    by (simp add: try_unsubscribe_def newsletter_unsubscribe_row_def rows_call_def Let_def split: fate.split)
  have a: "email_add_suppression e w x y z s \<noteq> Trap" for w x y z s by (simp add: email_add_suppression_def)
  have st: "store_event e w x y s \<noteq> Trap" for w x y s by (simp add: store_event_def)
  have "dispatch e ev s \<noteq> Trap" for s
    unfolding dispatch_def Let_def handle_bounce_def handle_complaint_def handle_unsubscribe_def
    by (simp add: thn_trap c a u ret_def)
  then show ?thesis by (simp add: record_event_def thn_trap st)
qed

lemma process_event_trap: "process_event e window ev s = Trap \<longleftrightarrow> redact_email (ev_email ev) = None"
proof (cases "redact_email (ev_email ev)")
  case (Some shown)
  obtain c t where seen: "seen_count e window ev s = Ok c t" using seen_count_run by blast
  have "unless_known e ev t \<noteq> Trap"
    by (rule exists_cases [of e "ev_message_id ev" "ev_event ev" "ev_email ev" t]) (auto simp: unless_known_def record_event_no_trap)
  then show ?thesis by (simp add: process_run [OF Some] seen Some)
qed (simp add: process_event_def bnd_def some_or_trap_def)

lemma process_all_None: "process_all e window evs acc s = None \<longleftrightarrow> list_ex (\<lambda>ev. redact_email (ev_email ev) = None) evs"
proof (induction evs arbitrary: acc s)
  case (Cons ev evs)
  then show ?case using process_event_trap [of e window ev s] by (auto split: res.split)
qed simp

lemma process_all_counts:
  "process_all e window evs acc s = Some (r, t) \<Longrightarrow>
   wr_processed r + length (wr_errors r) = wr_processed acc + length (wr_errors acc) + length evs"
proof (induction evs arbitrary: acc s)
  case (Cons ev evs)
  then show ?case by (auto split: res.splits dest!: Cons.IH)
qed simp

text \<open>
  A batch is answered with 200 and accounts for each of its events, as processed or as failed, whatever fails; it has no answer
  exactly when the address of one of its events cannot be redacted, which panics, however many events were processed before.
\<close>

theorem batch_accounting:
  "sendgrid_webhook_handler e window evs s = None \<longleftrightarrow> list_ex (\<lambda>ev. redact_email (ev_email ev) = None) evs"
  "case sendgrid_webhook_handler e window evs s of
     None \<Rightarrow> True
   | Some (response, t) \<Rightarrow> \<exists>r. handle_sendgrid_webhook e window evs s = Some (r, t) \<and> response = json_response 200 (response_json r) \<and>
       wr_processed r + length (wr_errors r) = length evs"
proof -
  show "sendgrid_webhook_handler e window evs s = None \<longleftrightarrow> list_ex (\<lambda>ev. redact_email (ev_email ev) = None) evs"
    by (simp add: sendgrid_webhook_handler_def handle_sendgrid_webhook_def process_all_None)
  show "case sendgrid_webhook_handler e window evs s of
     None \<Rightarrow> True
   | Some (response, t) \<Rightarrow> \<exists>r. handle_sendgrid_webhook e window evs s = Some (r, t) \<and> response = json_response 200 (response_json r) \<and>
       wr_processed r + length (wr_errors r) = length evs"
    using process_all_counts [of e window evs "\<lparr> wr_processed = 0, wr_errors = [] \<rparr>" s]
    by (auto simp: sendgrid_webhook_handler_def handle_sendgrid_webhook_def split: option.split)
qed

section \<open>What an event does\<close>

definition counted_as :: "(string \<times> string) list" where
  "counted_as = [(''delivered'', ''delivered_count''), (''open'', ''opened_count''), (''click'', ''clicked_count''),
     (''bounce'', ''bounced_count''), (''dropped'', ''bounced_count''), (''spamreport'', ''complained_count''),
     (''unsubscribe'', ''unsubscribed_count'')]"

definition suppressing :: "string list" where
  "suppressing = [''bounce'', ''dropped'', ''spamreport'', ''unsubscribe'']"

definition bump :: "int \<Rightarrow> string \<Rightarrow> (string \<Rightarrow> int \<Rightarrow> string \<Rightarrow> int) \<Rightarrow> string \<Rightarrow> int \<Rightarrow> string \<Rightarrow> int" where
  "bump day column c = c(''unknown'' := (c ''unknown'')(day := (c ''unknown'' day)(column := c ''unknown'' day column + 1)))"

definition unsubscribed_rows :: "int \<Rightarrow> string \<Rightarrow> NewsletterSubscriber list \<Rightarrow> NewsletterSubscriber list" where
  "unsubscribed_rows now email = map (\<lambda>r. if live_with email r then r\<lparr>ns_unsubscribed_at := Some now, ns_confirmed := False\<rparr> else r)"

lemma hook_call_healthy: "healthy (ne_env e) \<Longrightarrow> hook_call e f s = Ok (fst (f (count_call s))) (snd (f (count_call s)))"
  by (simp add: hook_call_def healthy_def Let_def split: prod.split)

lemma dispatch_healthy:
  assumes "healthy (ne_env e)"
  shows "\<exists>t. dispatch e ev s = Ok () t \<and> m_events (hk_mail t) = m_events (hk_mail s) \<and>
    m_suppressed (hk_mail t) = (if ev_event ev \<in> set suppressing then (m_suppressed (hk_mail s))(ev_email ev := True) else m_suppressed (hk_mail s)) \<and>
    hk_counters t = (case map_of counted_as (ev_event ev) of None \<Rightarrow> hk_counters s | Some c \<Rightarrow> bump (ne_now e div 86400) c (hk_counters s)) \<and>
    nl_rows (hk_news t) = (if ev_event ev = ''unsubscribe'' then unsubscribed_rows (ne_now e) (ev_email ev) (nl_rows (hk_news s)) else nl_rows (hk_news s))"
proof -
  have count: "email_increment_analytics_counter e c None u = Ok () ((count_call u)\<lparr>hk_counters := bump (ne_now e div 86400) (c @ ''_count'') (hk_counters u)\<rparr>)"
    if "counter_column c = Some (c @ ''_count'')" for c u
    using assms that by (simp add: email_increment_analytics_counter_def hook_call_healthy bump_def unwrap_or_def Let_def)
  have column: "c \<in> set [''delivered'', ''opened'', ''clicked'', ''bounced'', ''complained'', ''unsubscribed''] \<Longrightarrow> counter_column c = Some (c @ ''_count'')"
    for c by (auto simp: counter_column_def)
  note counts = count [OF column]
  have unsub: "try_unsubscribe e em u = Ok () (u\<lparr>hk_news := (hk_news u)\<lparr>nl_mail := (hk_mail u)\<lparr>m_calls := m_calls (hk_mail u) + 1\<rparr>,
      nl_rows := unsubscribed_rows (ne_now e) em (nl_rows (hk_news u))\<rparr>\<rparr>)" for em u
    using assms by (simp add: try_unsubscribe_def newsletter_unsubscribe_row_def rows_call_def healthy_def unsubscribed_rows_def Let_def)
  have supp: "\<exists>t. email_add_suppression e em a b c u = Ok () t \<and> m_events (hk_mail t) = m_events (hk_mail u) \<and>
      m_suppressed (hk_mail t) = (m_suppressed (hk_mail u))(em := True) \<and> hk_counters t = hk_counters u \<and> nl_rows (hk_news t) = nl_rows (hk_news u)"
    for em a b c u using assms by (simp add: email_add_suppression_def hook_call_healthy)
  consider "ev_event ev \<in> {''delivered'', ''open'', ''click''}" | "ev_event ev \<in> {''bounce'', ''dropped''}" | "ev_event ev = ''spamreport''"
    | "ev_event ev = ''unsubscribe''" | "ev_event ev \<notin> set (map fst counted_as)" by (auto simp: counted_as_def)
  then show ?thesis
  proof cases
    case 1
    then show ?thesis by (auto simp: dispatch_def counts counted_as_def suppressing_def)
  next
    case 2
    obtain t where "email_add_suppression e (ev_email ev) ''bounce'' (Some (unwrap_or (first_of (ev_reason ev) (ev_response ev)) ''No reason provided''))
        (Some (unwrap_or (first_of (ev_bounce_classification ev) (ev_status ev)) ''unknown'')) s = Ok () t"
      "m_events (hk_mail t) = m_events (hk_mail s)" "m_suppressed (hk_mail t) = (m_suppressed (hk_mail s))(ev_email ev := True)"
      "hk_counters t = hk_counters s" "nl_rows (hk_news t) = nl_rows (hk_news s)" using supp by blast
    with 2 show ?thesis by (auto simp: dispatch_def handle_bounce_def thn_def bnd_def counts counted_as_def suppressing_def)
  next
    case 3
    obtain t where "email_add_suppression e (ev_email ev) ''complaint'' (Some (unwrap_or (ev_reason ev) ''Spam complaint'')) None s = Ok () t"
      "m_events (hk_mail t) = m_events (hk_mail s)" "m_suppressed (hk_mail t) = (m_suppressed (hk_mail s))(ev_email ev := True)"
      "hk_counters t = hk_counters s" "nl_rows (hk_news t) = nl_rows (hk_news s)" using supp by blast
    with 3 show ?thesis by (simp add: dispatch_def handle_complaint_def thn_def bnd_def counts counted_as_def suppressing_def)
  next
    case 4
    obtain t where "email_add_suppression e (ev_email ev) ''unsubscribe'' (Some ''User unsubscribed via email link'') None s = Ok () t"
      "m_events (hk_mail t) = m_events (hk_mail s)" "m_suppressed (hk_mail t) = (m_suppressed (hk_mail s))(ev_email ev := True)"
      "hk_counters t = hk_counters s" "nl_rows (hk_news t) = nl_rows (hk_news s)" using supp by blast
    with 4 show ?thesis by (simp add: dispatch_def handle_unsubscribe_def thn_def bnd_def counts unsub counted_as_def suppressing_def)
  next
    case 5
    then show ?thesis by (simp add: dispatch_def ret_def counted_as_def suppressing_def)
  qed
qed

text \<open>
  C16. A new event, on a working system, is stored once, suppresses its address exactly for bounces, complaints and
  unsubscriptions, adds one to its counter of the day and, for an unsubscription, ends the subscription of the address.
\<close>

theorem event_effect:
  assumes "healthy (ne_env e)" "redis_laws (e_redis (ne_env e))"
    "strings (r_view (e_redis (ne_env e)) (m_store (hk_mail s))) (nonce_key ev) = None" "redact_email (ev_email ev) \<noteq> None"
    "\<not> list_ex (same_event (ev_message_id ev) (ev_event ev) (ev_email ev)) (m_events (hk_mail s))"
  shows "\<exists>t. process_event e window ev s = Ok () t \<and>
    m_events (hk_mail t) = m_events (hk_mail s) @ [\<lparr>v_email_job_id = None, v_message_id = ev_message_id ev, v_event_type = ev_event ev, v_recipient_email = ev_email ev\<rparr>] \<and>
    m_suppressed (hk_mail t) = (if ev_event ev \<in> set suppressing then (m_suppressed (hk_mail s))(ev_email ev := True) else m_suppressed (hk_mail s)) \<and>
    hk_counters t = (case map_of counted_as (ev_event ev) of None \<Rightarrow> hk_counters s | Some c \<Rightarrow> bump (ne_now e div 86400) c (hk_counters s)) \<and>
    nl_rows (hk_news t) = (if ev_event ev = ''unsubscribe'' then unsubscribed_rows (ne_now e) (ev_email ev) (nl_rows (hk_news s)) else nl_rows (hk_news s))"
proof -
  let ?R = "e_redis (ne_env e)" and ?key = "(ev_message_id ev, ev_event ev, ev_email ev)"
  obtain shown where shown: "redact_email (ev_email ev) = Some shown" using assms(4) by blast
  obtain c r where script: "incr_with_ttl_script ?R (nonce_key ev) window (m_store (hk_mail s)) = (c, r)" by (metis surj_pair)
  have "c = 1" using incr_with_ttl_run(1) [OF assms(2) _ script, of 0] assms(3) by (simp add: count_of_def)
  then obtain s1 where seen: "seen_count e window ev s = Ok 1 s1" "books s1 = books s"
    using script assms(1) by (simp add: seen_count_def remote_eq healthy_def Let_def books_def unwrap_or_def)
  obtain s2 where exists: "email_event_exists e (ev_message_id ev) (ev_event ev) (ev_email ev) s1 = Ok False s2" "books s2 = books s"
    using assms(1,5) seen(2) by (simp add: email_event_exists_def hook_call_healthy) (simp add: books_def)
  obtain s3 where stored: "store_event e (ev_message_id ev) (ev_event ev) (ev_email ev) s2 = Ok () s3"
      "m_events (hk_mail s3) = m_events (hk_mail s) @ [\<lparr>v_email_job_id = None, v_message_id = ev_message_id ev, v_event_type = ev_event ev, v_recipient_email = ev_email ev\<rparr>]"
      "m_suppressed (hk_mail s3) = m_suppressed (hk_mail s)" "hk_counters s3 = hk_counters s" "nl_rows (hk_news s3) = nl_rows (hk_news s)"
    using assms(1) exists(2) by (simp add: store_event_def hook_call_healthy) (simp add: books_def)
  have "process_event e window ev s = dispatch e ev s3"
    by (simp add: process_run [OF shown] seen(1) unless_known_def exists(1) record_event_def thn_def bnd_def stored(1))
  then show ?thesis using dispatch_healthy [OF assms(1), of ev s3] by (simp only: stored(2-5))
qed

section \<open>Examples\<close>

definition sample_hook :: "table hook" where
  "sample_hook = \<lparr> hk_news = news_sample [confirmed_row], hk_reasons = (\<lambda>_. None), hk_counters = (\<lambda>_ _ _. 0) \<rparr>"

definition sample_event :: "string \<Rightarrow> SendGridEvent" where
  "sample_event ty = \<lparr> ev_email = ''a@b.c'', ev_event = ty, ev_timestamp = 100, ev_message_id = Some ''m1'', ev_reason = None, ev_status = None,
     ev_response = None, ev_bounce_classification = None, ev_url = None \<rparr>"

text \<open>The same server, except that the third call is lost.\<close>

definition shaky_env :: "(table, unit) news_env" where
  "shaky_env = (news_sample_env 100)\<lparr>ne_env := (news_mail_env 100)\<lparr>e_fate := (\<lambda>n. if n = 2 then Lost else Done)\<rparr>\<rparr>"

lemma sample_hook_sel [simp]:
  "m_store (hk_mail sample_hook) = empty_table" "m_events (hk_mail sample_hook) = []" "m_calls (hk_mail sample_hook) = 0"
  "m_suppressed (hk_mail sample_hook) = (\<lambda>_. False)" "nl_rows (hk_news sample_hook) = [confirmed_row]"
  "e_redis (ne_env shaky_env) = table_redis" "e_fate (ne_env shaky_env) n = (if n = 2 then Lost else Done)"
  "ev_email (sample_event ty) = ''a@b.c''" "ev_event (sample_event ty) = ty"
  by (simp_all add: sample_hook_def news_sample_def shaky_env_def news_mail_env_def sample_event_def)

lemma sample_redacts: "redact_email ''a@b.c'' \<noteq> None"
  by code_simp

lemma fresh_nonce: "strings (r_view table_redis empty_table) k = None"
  by simp

theorem event_effect_witness:
  "\<exists>t. process_event (news_sample_env 100) 60 (sample_event ''bounce'') sample_hook = Ok () t \<and> m_suppressed (hk_mail t) ''a@b.c'' \<and>
    nl_rows (hk_news t) = [confirmed_row]"
  using event_effect [of "news_sample_env 100" sample_hook "sample_event ''bounce''" 60] sample_redacts table_redis_laws
  by (auto simp: suppressing_def)

theorem failed_event_lost_witness:
  "\<exists>err t u. process_event shaky_env 60 (sample_event ''bounce'') sample_hook = Err err t \<and>
    process_event shaky_env 60 (sample_event ''bounce'') t = Ok () u \<and> books u = books t"
proof -
  obtain shown where shown: "redact_email (ev_email (sample_event ''bounce'')) = Some shown" using sample_redacts by auto
  obtain c r where script: "incr_with_ttl_script table_redis (nonce_key (sample_event ''bounce'')) 60 empty_table = (c, r)" by (metis surj_pair)
  have "c = 1" using incr_with_ttl_run(1) [OF table_redis_laws _ script, of 0] by (simp add: count_of_def)
  then obtain s1 where seen: "seen_count shaky_env 60 (sample_event ''bounce'') sample_hook = Ok 1 s1" "m_calls (hk_mail s1) = 1" "m_events (hk_mail s1) = []"
    using script by (simp add: seen_count_def remote_eq Let_def unwrap_or_def)
  obtain s2 where exists: "email_event_exists shaky_env mid ty em s1 = Ok False s2" "m_calls (hk_mail s2) = 2" for mid ty em
    using seen(2,3) by (simp add: email_event_exists_def hook_call_def Let_def)
  obtain err t where lost: "store_event shaky_env mid ty em s2 = Err err t" "m_calls (hk_mail t) = 3" for mid ty em
    using exists(2) by (simp add: store_event_def hook_call_def Let_def)
  have failed: "process_event shaky_env 60 (sample_event ''bounce'') sample_hook = Err err t"
    by (simp add: process_run [OF shown] seen(1) unless_known_def exists(1) record_event_def thn_def bnd_def lost(1))
  from failed_event_lost [OF _ _ _ failed, of 0] lost(2) table_redis_laws failed show ?thesis by (auto simp: count_of_def)
qed

theorem recorded_event_ignored_witness:
  "\<exists>s1. record_event (news_sample_env 100) (sample_event ''bounce'') sample_hook = Ok () s1 \<and>
    (\<exists>u. process_event shaky_env 60 (sample_event ''bounce'') s1 = Ok () u \<and> books u = books s1)"
proof -
  obtain s0 where 0: "store_event (news_sample_env 100) (ev_message_id (sample_event ''bounce'')) ''bounce'' ''a@b.c'' sample_hook = Ok () s0"
    by (simp add: store_event_def hook_call_healthy)
  obtain s1 where "dispatch (news_sample_env 100) (sample_event ''bounce'') s0 = Ok () s1"
    using dispatch_healthy [of "news_sample_env 100"] by (metis (no_types) news_sample_sel)
  then have "record_event (news_sample_env 100) (sample_event ''bounce'') sample_hook = Ok () s1"
    using 0 by (simp add: record_event_def thn_def bnd_def)
  from recorded_event_ignored [OF this _ refl] this sample_redacts show ?thesis by auto
qed

end
