(* ===== verification/Types.thy ===== *)
theory Types
  imports Prelude
begin

text \<open>
  The data of the contract: \<^verbatim>\<open>types.rs\<close> and \<^verbatim>\<open>errors.rs\<close>. A Rust struct is a record whose fields
  carry a short prefix (several structs share field names, and the operations use the bare names
  for their parameters); an enum is a datatype with the source's variants. The storage-key enums
  of all modules are here too, since every persistent key has a time to live.
\<close>

section \<open>Error codes (errors.rs)\<close>

text \<open>
  The last five constructors are codes that the modules return but that \<^verbatim>\<open>errors.rs\<close> does not
  declare; they have no discriminant.
\<close>

datatype (plugins only: size code) ErrorCode =
    AlreadyInitialized | NotAuthorized | MarketNotFound | MarketClosed | MarketStillActive
    | InvalidOutcome | InvalidBetAmount | InsufficientBalance | OracleFailure
    | CircuitBreakerOpen | DisputeWindowClosed | VotingNotStarted | VotingEnded | AlreadyVoted
    | FeeTooHigh | MarketNotActive | DeadlinePassed | CannotChangeOutcome | MarketNotDisputed
    | MarketNotPendingResolution | AdminNotSet | ContractPaused | GuardianNotSet
    | TooManyOutcomes | TooManyWinners | PayoutModeNotSupported | InsufficientDeposit
    | TimelockActive | UpgradeNotInitiated | InsufficientVotes | AlreadyVotedOnUpgrade
    | InvalidWasmHash | UpgradeFailed | ParentMarketNotResolved | ParentMarketInvalidOutcome
    | ResolutionNotReady | DisputeWindowStillOpen | NoMajorityReached | StalePrice
    | ConfidenceTooLow | InsufficientVotingWeight | MarketNotCancelled | BetNotFound
    | UpgradeAlreadyPending | UpgradeHashInCooldown | InvalidAmount | GovernanceTokenNotSet
    | MarketNotResolved | InvalidDeadline | PendingTransferNotFound | NotPendingOwner
    | TokenFrozen | MigrationValidationError | AssetClawedBack | ArithmeticOverflow
    | AlreadyClaimed | NoWinnings | InvalidReferrer | ResolutionDeadlinePassed | Overflow
    | InvalidTimeRange | GuardianCannotVoteOnOwnRemoval | BelowMinimumGuardianCount
    | InsufficientReputation | TransferFailed | InvalidTimestamp | NoVotesCast | NoMajority

definition error_codes :: "(u32 \<times> ErrorCode) list" where
  "error_codes = [
     (100, AlreadyInitialized), (101, NotAuthorized), (102, MarketNotFound), (103, MarketClosed),
     (104, MarketStillActive), (105, InvalidOutcome), (106, InvalidBetAmount),
     (107, InsufficientBalance), (108, OracleFailure), (109, CircuitBreakerOpen),
     (110, DisputeWindowClosed), (111, VotingNotStarted), (112, VotingEnded),
     (113, AlreadyVoted), (114, FeeTooHigh), (115, MarketNotActive), (116, DeadlinePassed),
     (117, CannotChangeOutcome), (118, MarketNotDisputed), (119, MarketNotPendingResolution),
     (120, AdminNotSet), (121, ContractPaused), (122, GuardianNotSet), (123, TooManyOutcomes),
     (124, TooManyWinners), (125, PayoutModeNotSupported), (126, InsufficientDeposit),
     (127, TimelockActive), (128, UpgradeNotInitiated), (129, InsufficientVotes),
     (130, AlreadyVotedOnUpgrade), (131, InvalidWasmHash), (132, UpgradeFailed),
     (133, ParentMarketNotResolved), (134, ParentMarketInvalidOutcome),
     (135, ResolutionNotReady), (136, DisputeWindowStillOpen), (137, NoMajorityReached),
     (138, StalePrice), (139, ConfidenceTooLow), (140, InsufficientVotingWeight),
     (141, MarketNotCancelled), (142, BetNotFound), (143, UpgradeAlreadyPending),
     (144, UpgradeHashInCooldown), (145, InvalidAmount), (146, GovernanceTokenNotSet),
     (147, MarketNotResolved), (148, InvalidDeadline), (149, PendingTransferNotFound),
     (150, NotPendingOwner), (151, TokenFrozen), (152, MigrationValidationError),
     (153, AssetClawedBack), (154, ArithmeticOverflow), (155, AlreadyClaimed), (156, NoWinnings),
     (157, InvalidReferrer), (158, ResolutionDeadlinePassed), (159, Overflow),
     (160, InvalidTimeRange), (161, GuardianCannotVoteOnOwnRemoval),
     (162, BelowMinimumGuardianCount)]"

definition from_u32 :: "u32 \<Rightarrow> ErrorCode option" where
  "from_u32 n = map_of error_codes n"

definition discriminant :: "ErrorCode \<Rightarrow> u32 option" where
  "discriminant c = map_of (map (\<lambda>(n, k). (k, n)) error_codes) c"

section \<open>Enumerations and structs (types.rs)\<close>

datatype Address = Addr nat

type_synonym Hash = "u8 list"   \<comment> \<open>\<^verbatim>\<open>BytesN<32>\<close>\<close>

datatype MarketStatus = Active | PendingResolution | Disputed | Resolved | Cancelled

datatype PayoutMode = Push | Pull

datatype MarketTier = Basic | Pro | Institutional

datatype CreatorReputation = Rep_None | Rep_Basic | Rep_Pro | Rep_Institutional

datatype CircuitBreakerState = Closed | Open | HalfOpen | Paused

record OracleConfig =
  oc_oracle_address :: Address
  oc_feed_id :: string
  oc_min_responses :: "u32 option"
  oc_max_staleness_seconds :: u64
  oc_max_confidence_bps :: u64
  oc_strike_price :: "i64 option"

record Market =
  m_id :: u64
  m_creator :: Address
  m_description :: string
  m_options :: "string list"
  m_status :: MarketStatus
  m_deadline :: u64
  m_resolution_deadline :: u64
  m_winning_outcome :: "u32 option"
  m_oracle_config :: OracleConfig
  m_total_staked :: i128
  m_payout_mode :: PayoutMode
  m_tier :: MarketTier
  m_creation_deposit :: i128
  m_parent_id :: u64
  m_parent_outcome_idx :: u32
  m_resolved_at :: "u64 option"
  m_token_address :: Address
  m_outcome_stakes :: "(u32, i128) omap"
  m_pending_resolution_timestamp :: "u64 option"
  m_dispute_snapshot_ledger :: "u32 option"
  m_dispute_timestamp :: "u64 option"
  m_winner_counts :: "(u32, u32) omap"
  m_total_claimed :: i128

record Bet =
  b_market_id :: u64
  b_bettor :: Address
  b_outcome :: u32
  b_amount :: i128
  b_fee_paid :: i128

record Vote =
  v_market_id :: u64
  v_voter :: Address
  v_outcome :: u32
  v_weight :: i128

record LockedTokens =
  lt_voter :: Address
  lt_market_id :: u64
  lt_amount :: i128
  lt_unlock_time :: u64

record Guardian =
  g_address :: Address
  g_voting_power :: u32

record PendingUpgrade =
  pu_wasm_hash :: Hash
  pu_initiated_at :: u64
  pu_votes_for :: "Address list"
  pu_votes_against :: "Address list"

record UpgradeVoteStats =
  uv_votes_for :: u32
  uv_votes_against :: u32

record PendingGuardianRemoval =
  pr_target_guardian :: Address
  pr_initiated_at :: u64
  pr_votes_for :: "Address list"
  pr_votes_against :: "Address list"

section \<open>Constants (types.rs)\<close>

definition MAX_PUSH_PAYOUT_WINNERS :: u32 where "MAX_PUSH_PAYOUT_WINNERS = 50"
definition MAX_OUTCOMES_PER_MARKET :: u32 where "MAX_OUTCOMES_PER_MARKET = 100"
definition CANCEL_OUTCOME_INDEX :: u32 where "CANCEL_OUTCOME_INDEX = - 1"  \<comment> \<open>\<^verbatim>\<open>u32::MAX\<close>\<close>

definition TIMELOCK_DURATION :: u64 where "TIMELOCK_DURATION = 48 * 60 * 60"
definition TIMELOCK_MIN_SECONDS :: u64 where "TIMELOCK_MIN_SECONDS = 24 * 60 * 60"
definition TIMELOCK_MAX_SECONDS :: u64 where "TIMELOCK_MAX_SECONDS = 7 * 24 * 3600"
definition MAJORITY_THRESHOLD_PERCENT :: u32 where "MAJORITY_THRESHOLD_PERCENT = 51"
definition UPGRADE_COOLDOWN_DURATION :: u64 where "UPGRADE_COOLDOWN_DURATION = 7 * 24 * 3600"
definition GUARDIAN_REMOVAL_VOTE_WINDOW :: u64 where
  "GUARDIAN_REMOVAL_VOTE_WINDOW = 7 * 24 * 3600"

definition TTL_LOW_THRESHOLD :: u32 where "TTL_LOW_THRESHOLD = 17280"
definition TTL_HIGH_THRESHOLD :: u32 where "TTL_HIGH_THRESHOLD = 518400"
definition PRUNE_GRACE_PERIOD :: u64 where "PRUNE_GRACE_PERIOD = 2592000"
definition BET_TTL_LOW_THRESHOLD :: u32 where "BET_TTL_LOW_THRESHOLD = 34560"
definition BET_TTL_HIGH_THRESHOLD :: u32 where "BET_TTL_HIGH_THRESHOLD = 1555200"
definition GOV_TTL_LOW_THRESHOLD :: u32 where "GOV_TTL_LOW_THRESHOLD = TTL_LOW_THRESHOLD"
definition GOV_TTL_HIGH_THRESHOLD :: u32 where "GOV_TTL_HIGH_THRESHOLD = TTL_HIGH_THRESHOLD"

section \<open>Storage keys\<close>

datatype ConfigKey = K_Admin | K_MarketAdmin | K_FeeAdmin | K_GuardianAccount | K_BaseFee
  | K_CircuitBreakerState | K_CreationDeposit | K_CreationFee | K_ProtocolTreasury
  | K_GuardianSet | K_PendingUpgrade | K_PendingUpgradePassedAt | K_UpgradeVotes
  | K_TimelockDuration | K_PendingGuardianRemoval | K_PendingGuardianRemovalPassedAt
  | K_UpgradeRejectedAt Hash | K_GovernanceToken | K_MaxPushPayoutWinners
  | K_DefaultDisputeWindow | K_MinDisputeWindow | K_MaxDisputeWindow
  | K_CircuitBreakerThreshold | K_PendingAdmin | K_PendingEmergencyPause

datatype markets_DataKey = K_Market u64 | K_MarketCount | K_MarketDisputeWindow u64
  | K_CreatorReputation Address | K_StatusIndex u64 MarketStatus

datatype bets_DataKey = K_Bet u64 Address u32 | K_Claimed u64 Address
  | K_BetReferrer u64 Address u32

datatype fees_DataKey = K_TotalFeesCollected | K_FeeRevenue Address
  | K_ReferrerBalance Address Address

datatype voting_DataKey = K_Vote u64 Address | K_VoteTally u64 u32 | K_LockedTokens u64 Address
  | K_LockedBalance u64 Address | K_DisputeVoters u64

datatype OracleData = K_Result u64 u32 | K_LastUpdate u64 u64 | K_OracleResponses u64

datatype archive_DataKey = K_ArchivedMarketCount | K_ArchivedMarket u64

text \<open>The migration module uses formatted strings, one per version number.\<close>

datatype migration_key = K_MigrationBackup u32 | K_MigrationLog u32

text \<open>A key of the persistent storage.\<close>

datatype pkey = PConfig ConfigKey | PMarkets markets_DataKey | PBets bets_DataKey
  | PFees fees_DataKey | PVoting voting_DataKey | POracles OracleData
  | PArchive archive_DataKey | PMigration migration_key

section \<open>Reputation order\<close>

text \<open>
  \<^verbatim>\<open>markets.rs\<close> compares a creator's reputation with a market tier ("must meet or exceed"); the
  order is the order of the variants.
\<close>

fun rep_rank :: "CreatorReputation \<Rightarrow> nat" where
  "rep_rank Rep_None = 0"
| "rep_rank Rep_Basic = 1"
| "rep_rank Rep_Pro = 2"
| "rep_rank Rep_Institutional = 3"

lemma rep_rank_inject [simp]: "rep_rank a = rep_rank b \<longleftrightarrow> a = b"
  by (cases a; cases b) simp_all

instantiation CreatorReputation :: linorder
begin

definition less_eq_CreatorReputation :: "CreatorReputation \<Rightarrow> CreatorReputation \<Rightarrow> bool" where
  "less_eq_CreatorReputation a b \<longleftrightarrow> rep_rank a \<le> rep_rank b"

definition less_CreatorReputation :: "CreatorReputation \<Rightarrow> CreatorReputation \<Rightarrow> bool" where
  "less_CreatorReputation a b \<longleftrightarrow> rep_rank a < rep_rank b"

instance
  by standard (auto simp: less_eq_CreatorReputation_def less_CreatorReputation_def)

end

section \<open>Error codes round trip\<close>

lemma discriminant_declared:
  "discriminant c = None \<longleftrightarrow>
     c \<in> {InsufficientReputation, TransferFailed, InvalidTimestamp, NoVotesCast, NoMajority}"
  by (cases c) (simp_all add: discriminant_def error_codes_def)

text \<open>
  Every error code that errors.rs declares is recovered from its numeric discriminant.
\<close>

theorem error_code_roundtrip: "discriminant c = Some n \<Longrightarrow> from_u32 n = Some c"
  by (cases c) (auto simp: discriminant_def from_u32_def error_codes_def)

theorem error_code_roundtrip_witness:
  "discriminant ContractPaused = Some 121 \<and> from_u32 121 = Some ContractPaused"
proof -
  have "discriminant ContractPaused = Some 121"
    by (simp add: discriminant_def error_codes_def)
  with error_code_roundtrip show ?thesis by blast
qed

end
