(* ===== verification/Ledger.thy ===== *)
theory Ledger
  imports Types
begin

text \<open>
  The environment a contract function runs in (\<^verbatim>\<open>soroban_sdk::Env\<close>): the contract's storage, one
  record per storage-key enum of the source, the events published so far and the state of the other
  contracts on the ledger; and the read-only context of a call: the ledger time and sequence number,
  the addresses that authorised the call, and the behaviour of the contracts and of the functions
  that are called but not part of this repository.
\<close>

section \<open>Published events\<close>

datatype val = VSym string | VU32 u32 | VU64 u64 | VI64 i64 | VI128 i128 | VBool bool
  | VAddr Address | VStr string | VHash Hash

record event =
  ev_topics :: "val list"
  ev_data :: "val list"

section \<open>Storage\<close>

text \<open>Instance storage.\<close>

record instance_store =
  i_CircuitBreakerState :: "CircuitBreakerState option"
  i_CircuitBreakerThreshold :: "i128 option"
  i_GovernanceToken :: "Address option"
  i_MarketCount :: "u64 option"
  i_OpenedAt :: "u64 option"
  i_HalfOpenOps :: "u32 option"
  i_ErrorCount :: "u32 option"
  i_LastObservation :: "u64 option"

text \<open>Persistent storage, by key enum.\<close>

record config_store =
  c_Admin :: "Address option"
  c_FeeAdmin :: "Address option"
  c_GuardianAccount :: "Address option"
  c_BaseFee :: "i128 option"
  c_CircuitBreakerState :: "CircuitBreakerState option"
  c_CreationDeposit :: "i128 option"
  c_CreationFee :: "i128 option"
  c_ProtocolTreasury :: "Address option"
  c_GuardianSet :: "Guardian list option"
  c_PendingUpgrade :: "PendingUpgrade option"
  c_PendingUpgradePassedAt :: "u64 option"
  c_TimelockDuration :: "u64 option"
  c_PendingGuardianRemoval :: "PendingGuardianRemoval option"
  c_PendingGuardianRemovalPassedAt :: "u64 option"
  c_UpgradeRejectedAt :: "Hash \<rightharpoonup> u64"
  c_MaxPushPayoutWinners :: "u32 option"
  c_DefaultDisputeWindow :: "u64 option"
  c_MinDisputeWindow :: "u64 option"
  c_MaxDisputeWindow :: "u64 option"
  c_PendingAdmin :: "Address option"
  c_PendingEmergencyPause :: "Address list option"

record market_store =
  s_Market :: "u64 \<rightharpoonup> Market"
  s_MarketDisputeWindow :: "u64 \<rightharpoonup> u64"
  s_CreatorReputation :: "Address \<rightharpoonup> CreatorReputation"
  s_StatusIndex :: "u64 \<times> MarketStatus \<rightharpoonup> bool"

record bet_store =
  s_Bet :: "u64 \<times> Address \<times> u32 \<rightharpoonup> Bet"
  s_Claimed :: "u64 \<times> Address \<rightharpoonup> bool"
  s_BetReferrer :: "u64 \<times> Address \<times> u32 \<rightharpoonup> Address"

record fee_store =
  s_TotalFeesCollected :: "i128 option"
  s_FeeRevenue :: "Address \<rightharpoonup> i128"
  s_ReferrerBalance :: "Address \<times> Address \<rightharpoonup> i128"

record vote_store =
  s_Vote :: "u64 \<times> Address \<rightharpoonup> Vote"
  s_VoteTally :: "u64 \<times> u32 \<rightharpoonup> i128"
  s_LockedTokens :: "u64 \<times> Address \<rightharpoonup> LockedTokens"
  s_LockedBalance :: "u64 \<times> Address \<rightharpoonup> i128"
  s_DisputeVoters :: "u64 \<rightharpoonup> Address list"

record oracle_store =
  s_Result :: "u64 \<times> u32 \<rightharpoonup> u32"
  s_LastUpdate :: "u64 \<times> u64 \<rightharpoonup> u64"
  s_OracleResponses :: "u64 \<rightharpoonup> (u32, u32) omap"

record archive_store =
  s_ArchivedMarketCount :: "u64 option"
  s_ArchivedMarket :: "u64 \<rightharpoonup> u64"

text \<open>The two structs of \<^verbatim>\<open>migration.rs\<close> that are kept in storage.\<close>

record MigrationLogEntry =
  ml_from_version :: u32
  ml_to_version :: u32
  ml_timestamp :: u64

record MigrationBackup =
  mb_admin :: "Address option"
  mb_guardian_set :: "Guardian list option"

record migration_store =
  s_backup :: "u32 \<rightharpoonup> MigrationBackup"
  s_log :: "u32 \<rightharpoonup> MigrationLogEntry"

text \<open>
  The whole ledger state a call sees. \<open>live_until\<close> is the ledger sequence number up to which a
  persistent entry is guaranteed to stay live; \<open>world\<close> is the state of all other contracts.
\<close>

record 'w st =
  inst :: instance_store
  conf :: config_store
  mkts :: market_store
  bets :: bet_store
  fees :: fee_store
  vts :: vote_store
  orcs :: oracle_store
  arch :: archive_store
  migs :: migration_store
  live_until :: "pkey \<Rightarrow> nat"
  wasm :: "Hash option"
  log :: "event list"
  world :: 'w

section \<open>The context of a call\<close>

record 'w ctx =
  \<comment> \<open>the ledger and the invocation\<close>
  timestamp :: u64
  sequence :: u32
  authorized :: "Address set"
  current_contract_address :: Address
  min_persistent_ttl :: nat
  \<comment> \<open>token contracts: \<^verbatim>\<open>soroban_sdk::token\<close>\<close>
  ext_transfer :: "Address \<Rightarrow> Address \<Rightarrow> Address \<Rightarrow> i128 \<Rightarrow> 'w \<Rightarrow> 'w option"
  ext_balance :: "Address \<Rightarrow> Address \<Rightarrow> 'w \<Rightarrow> i128 option"
  ext_frozen :: "Address \<Rightarrow> Address \<Rightarrow> 'w \<Rightarrow> bool option"
  ext_authorized :: "Address \<Rightarrow> Address \<Rightarrow> 'w \<Rightarrow> bool option"
  ext_balance_at :: "Address \<Rightarrow> Address \<Rightarrow> u32 \<Rightarrow> 'w \<Rightarrow> i128 option"
  ext_decimals :: "Address \<Rightarrow> 'w \<Rightarrow> u32 option"
  \<comment> \<open>the Pyth price feed contract\<close>
  ext_get_price :: "Address \<Rightarrow> Hash \<Rightarrow> 'w \<Rightarrow> (i64 \<times> u64 \<times> i32 \<times> i64) option"
  \<comment> \<open>functions the sources call and do not define\<close>
  ext_storage_count :: "'w st \<Rightarrow> u32"
  ext_get_market_votes :: "'w st \<Rightarrow> u64 \<Rightarrow> Vote list"
  ext_get_outcome_bet_count :: "Market \<Rightarrow> u32 \<Rightarrow> u32"
  ext_set_outcome_bet_count :: "Market \<Rightarrow> u32 \<Rightarrow> u32 \<Rightarrow> Market"
  ext_emit_upgrade_rejected :: "Hash \<Rightarrow> event"
  ext_emit_upgrade_executed :: "Address \<Rightarrow> Hash \<Rightarrow> event"

type_synonym ('w, 'a) contract = "('w st, ErrorCode, 'a) comp"

section \<open>Host functions\<close>

definition require_auth :: "'w ctx \<Rightarrow> Address \<Rightarrow> ('w, unit) contract" where
  "require_auth e a s = (if a \<in> authorized e then Ok () s else Trap)"

definition publish :: "val list \<Rightarrow> val list \<Rightarrow> ('w, unit) contract" where
  "publish topics payload = modify (\<lambda>s. s\<lparr>log := log s @ [\<lparr>ev_topics = topics, ev_data = payload\<rparr>]\<rparr>)"

primrec has_config :: "ConfigKey \<Rightarrow> config_store \<Rightarrow> bool" where
  "has_config K_Admin c = (c_Admin c \<noteq> None)"
| "has_config K_MarketAdmin c = False"
| "has_config K_FeeAdmin c = (c_FeeAdmin c \<noteq> None)"
| "has_config K_GuardianAccount c = (c_GuardianAccount c \<noteq> None)"
| "has_config K_BaseFee c = (c_BaseFee c \<noteq> None)"
| "has_config K_CircuitBreakerState c = (c_CircuitBreakerState c \<noteq> None)"
| "has_config K_CreationDeposit c = (c_CreationDeposit c \<noteq> None)"
| "has_config K_CreationFee c = (c_CreationFee c \<noteq> None)"
| "has_config K_ProtocolTreasury c = (c_ProtocolTreasury c \<noteq> None)"
| "has_config K_GuardianSet c = (c_GuardianSet c \<noteq> None)"
| "has_config K_PendingUpgrade c = (c_PendingUpgrade c \<noteq> None)"
| "has_config K_PendingUpgradePassedAt c = (c_PendingUpgradePassedAt c \<noteq> None)"
| "has_config K_UpgradeVotes c = False"
| "has_config K_TimelockDuration c = (c_TimelockDuration c \<noteq> None)"
| "has_config K_PendingGuardianRemoval c = (c_PendingGuardianRemoval c \<noteq> None)"
| "has_config K_PendingGuardianRemovalPassedAt c = (c_PendingGuardianRemovalPassedAt c \<noteq> None)"
| "has_config (K_UpgradeRejectedAt h) c = (c_UpgradeRejectedAt c h \<noteq> None)"
| "has_config K_GovernanceToken c = False"
| "has_config K_MaxPushPayoutWinners c = (c_MaxPushPayoutWinners c \<noteq> None)"
| "has_config K_DefaultDisputeWindow c = (c_DefaultDisputeWindow c \<noteq> None)"
| "has_config K_MinDisputeWindow c = (c_MinDisputeWindow c \<noteq> None)"
| "has_config K_MaxDisputeWindow c = (c_MaxDisputeWindow c \<noteq> None)"
| "has_config K_CircuitBreakerThreshold c = False"
| "has_config K_PendingAdmin c = (c_PendingAdmin c \<noteq> None)"
| "has_config K_PendingEmergencyPause c = (c_PendingEmergencyPause c \<noteq> None)"

primrec has_markets :: "markets_DataKey \<Rightarrow> market_store \<Rightarrow> bool" where
  "has_markets (K_Market i) m = (s_Market m i \<noteq> None)"
| "has_markets K_MarketCount m = False"
| "has_markets (K_MarketDisputeWindow i) m = (s_MarketDisputeWindow m i \<noteq> None)"
| "has_markets (K_CreatorReputation a) m = (s_CreatorReputation m a \<noteq> None)"
| "has_markets (K_StatusIndex i st) m = (s_StatusIndex m (i, st) \<noteq> None)"

primrec has_bets :: "bets_DataKey \<Rightarrow> bet_store \<Rightarrow> bool" where
  "has_bets (K_Bet i a out) b = (s_Bet b (i, a, out) \<noteq> None)"
| "has_bets (K_Claimed i a) b = (s_Claimed b (i, a) \<noteq> None)"
| "has_bets (K_BetReferrer i a out) b = (s_BetReferrer b (i, a, out) \<noteq> None)"

primrec has_fees :: "fees_DataKey \<Rightarrow> fee_store \<Rightarrow> bool" where
  "has_fees K_TotalFeesCollected f = (s_TotalFeesCollected f \<noteq> None)"
| "has_fees (K_FeeRevenue t) f = (s_FeeRevenue f t \<noteq> None)"
| "has_fees (K_ReferrerBalance a t) f = (s_ReferrerBalance f (a, t) \<noteq> None)"

primrec has_voting :: "voting_DataKey \<Rightarrow> vote_store \<Rightarrow> bool" where
  "has_voting (K_Vote i a) v = (s_Vote v (i, a) \<noteq> None)"
| "has_voting (K_VoteTally i out) v = (s_VoteTally v (i, out) \<noteq> None)"
| "has_voting (K_LockedTokens i a) v = (s_LockedTokens v (i, a) \<noteq> None)"
| "has_voting (K_LockedBalance i a) v = (s_LockedBalance v (i, a) \<noteq> None)"
| "has_voting (K_DisputeVoters i) v = (s_DisputeVoters v i \<noteq> None)"

primrec has_oracles :: "OracleData \<Rightarrow> oracle_store \<Rightarrow> bool" where
  "has_oracles (K_Result i k) q = (s_Result q (i, k) \<noteq> None)"
| "has_oracles (K_LastUpdate i k) q = (s_LastUpdate q (i, k) \<noteq> None)"
| "has_oracles (K_OracleResponses i) q = (s_OracleResponses q i \<noteq> None)"

primrec has_archive :: "archive_DataKey \<Rightarrow> archive_store \<Rightarrow> bool" where
  "has_archive K_ArchivedMarketCount a = (s_ArchivedMarketCount a \<noteq> None)"
| "has_archive (K_ArchivedMarket i) a = (s_ArchivedMarket a i \<noteq> None)"

primrec has_migration :: "migration_key \<Rightarrow> migration_store \<Rightarrow> bool" where
  "has_migration (K_MigrationBackup v) g = (s_backup g v \<noteq> None)"
| "has_migration (K_MigrationLog v) g = (s_log g v \<noteq> None)"

primrec has_key :: "pkey \<Rightarrow> 'w st \<Rightarrow> bool" where
  "has_key (PConfig k) s = has_config k (conf s)"
| "has_key (PMarkets k) s = has_markets k (mkts s)"
| "has_key (PBets k) s = has_bets k (bets s)"
| "has_key (PFees k) s = has_fees k (fees s)"
| "has_key (PVoting k) s = has_voting k (vts s)"
| "has_key (POracles k) s = has_oracles k (orcs s)"
| "has_key (PArchive k) s = has_archive k (arch s)"
| "has_key (PMigration k) s = has_migration k (migs s)"

text \<open>
  \<open>p_set\<close> writes a persistent entry through the given store update; a new entry starts with the
  network's minimum time to live. \<open>p_remove\<close> deletes one, with its time to live. \<open>extend_ttl\<close>
  raises the remaining time to \<open>high\<close> ledgers when it is below \<open>low\<close>, and traps when the entry
  does not exist.
\<close>

definition p_set :: "'w ctx \<Rightarrow> pkey \<Rightarrow> ('w st \<Rightarrow> 'w st) \<Rightarrow> ('w, unit) contract" where
  "p_set e k f = modify (\<lambda>s. f (if has_key k s then s
     else s\<lparr>live_until := (live_until s)(k := unat (sequence e) + min_persistent_ttl e)\<rparr>))"

definition p_remove :: "pkey \<Rightarrow> ('w st \<Rightarrow> 'w st) \<Rightarrow> ('w, unit) contract" where
  "p_remove k f = modify (\<lambda>s. f (s\<lparr>live_until := (live_until s)(k := 0)\<rparr>))"

definition extend_ttl :: "'w ctx \<Rightarrow> pkey \<Rightarrow> u32 \<Rightarrow> u32 \<Rightarrow> ('w, unit) contract" where
  "extend_ttl e k low high s =
     (if \<not> has_key k s then Trap
      else if live_until s k < unat (sequence e) + unat low
      then Ok () (s\<lparr>live_until := (live_until s)(k := unat (sequence e) + unat high)\<rparr>)
      else Ok () s)"

text \<open>A token transfer that traps on failure (\<^verbatim>\<open>token::Client::transfer\<close>), and a balance query.\<close>

definition token_transfer ::
  "'w ctx \<Rightarrow> Address \<Rightarrow> Address \<Rightarrow> Address \<Rightarrow> i128 \<Rightarrow> ('w, unit) contract" where
  "token_transfer e token from to amount s =
     (case ext_transfer e token from to amount (world s) of
        None \<Rightarrow> Trap | Some w \<Rightarrow> Ok () (s\<lparr>world := w\<rparr>))"

definition token_balance :: "'w ctx \<Rightarrow> Address \<Rightarrow> Address \<Rightarrow> ('w, i128) contract" where
  "token_balance e token a = bnd (reads world) (\<lambda>w. some_or_trap (ext_balance e token a w))"

subsection \<open>Store updates\<close>

definition upd_inst :: "(instance_store \<Rightarrow> instance_store) \<Rightarrow> 'w st \<Rightarrow> 'w st" where
  "upd_inst f s = s\<lparr>inst := f (inst s)\<rparr>"

definition upd_conf :: "(config_store \<Rightarrow> config_store) \<Rightarrow> 'w st \<Rightarrow> 'w st" where
  "upd_conf f s = s\<lparr>conf := f (conf s)\<rparr>"

definition upd_mkts :: "(market_store \<Rightarrow> market_store) \<Rightarrow> 'w st \<Rightarrow> 'w st" where
  "upd_mkts f s = s\<lparr>mkts := f (mkts s)\<rparr>"

definition upd_bets :: "(bet_store \<Rightarrow> bet_store) \<Rightarrow> 'w st \<Rightarrow> 'w st" where
  "upd_bets f s = s\<lparr>bets := f (bets s)\<rparr>"

definition upd_fees :: "(fee_store \<Rightarrow> fee_store) \<Rightarrow> 'w st \<Rightarrow> 'w st" where
  "upd_fees f s = s\<lparr>fees := f (fees s)\<rparr>"

definition upd_vts :: "(vote_store \<Rightarrow> vote_store) \<Rightarrow> 'w st \<Rightarrow> 'w st" where
  "upd_vts f s = s\<lparr>vts := f (vts s)\<rparr>"

definition upd_orcs :: "(oracle_store \<Rightarrow> oracle_store) \<Rightarrow> 'w st \<Rightarrow> 'w st" where
  "upd_orcs f s = s\<lparr>orcs := f (orcs s)\<rparr>"

definition upd_arch :: "(archive_store \<Rightarrow> archive_store) \<Rightarrow> 'w st \<Rightarrow> 'w st" where
  "upd_arch f s = s\<lparr>arch := f (arch s)\<rparr>"

definition upd_migs :: "(migration_store \<Rightarrow> migration_store) \<Rightarrow> 'w st \<Rightarrow> 'w st" where
  "upd_migs f s = s\<lparr>migs := f (migs s)\<rparr>"

lemmas upd_defs = upd_inst_def upd_conf_def upd_mkts_def upd_bets_def upd_fees_def upd_vts_def
  upd_orcs_def upd_arch_def upd_migs_def

declare upd_defs [simp]

section \<open>Runs and views of the host functions\<close>

lemma require_auth_Ok [run_simps]:
  "require_auth e a s = Ok r t \<longleftrightarrow> a \<in> authorized e \<and> t = s"
  by (auto simp: require_auth_def)

lemma token_transfer_Ok [run_simps]:
  "token_transfer e token from to amount s = Ok r t \<longleftrightarrow>
     (\<exists>w. ext_transfer e token from to amount (world s) = Some w \<and> t = s\<lparr>world := w\<rparr>)"
  by (auto simp: token_transfer_def split: option.splits)

lemma token_balance_Ok [run_simps]:
  "token_balance e token a s = Ok r t \<longleftrightarrow> ext_balance e token a (world s) = Some r \<and> t = s"
  by (auto simp: token_balance_def run_simps)

lemmas [run_eval] = require_auth_def publish_def p_set_def p_remove_def extend_ttl_def
  token_transfer_def token_balance_def invoke_def

lemma keeps_require_auth [view_rules]: "keeps v (require_auth e a)"
  by (simp add: keeps_def require_auth_Ok)

lemma keeps_publish [view_rules]: "(\<And>s x. v (s\<lparr>log := x\<rparr>) = v s) \<Longrightarrow> keeps v (publish a b)"
  by (simp add: publish_def keeps_modify)

lemma keeps_extend_ttl [view_rules]:
  "(\<And>s x. v (s\<lparr>live_until := x\<rparr>) = v s) \<Longrightarrow> keeps v (extend_ttl e k low high)"
  by (auto simp: keeps_def extend_ttl_def split: if_splits)

lemma keeps_p_set [view_rules]:
  "(\<And>s x. v (s\<lparr>live_until := x\<rparr>) = v s) \<Longrightarrow> (\<And>s. v (f s) = v s) \<Longrightarrow> keeps v (p_set e k f)"
  by (simp add: p_set_def keeps_modify)

lemma keeps_p_remove [view_rules]:
  "(\<And>s x. v (s\<lparr>live_until := x\<rparr>) = v s) \<Longrightarrow> (\<And>s. v (f s) = v s) \<Longrightarrow> keeps v (p_remove k f)"
  by (simp add: p_remove_def keeps_modify)

lemma keeps_token_transfer [view_rules]:
  "(\<And>s x. v (s\<lparr>world := x\<rparr>) = v s) \<Longrightarrow> keeps v (token_transfer e token from to amount)"
  by (auto simp: keeps_def token_transfer_Ok)

lemma keeps_token_balance [view_rules]: "keeps v (token_balance e token a)"
  by (auto simp: keeps_def token_balance_Ok)

text \<open>
  A successful write shows in the store it goes to; what happens to the times to live is named, so
  that it stays folded where it does not matter.
\<close>

definition set_ttl :: "'w ctx \<Rightarrow> pkey \<Rightarrow> 'w st \<Rightarrow> pkey \<Rightarrow> nat" where
  "set_ttl e k s = (if has_key k s then live_until s
     else (live_until s)(k := unat (sequence e) + min_persistent_ttl e))"

definition ext_ttl :: "'w ctx \<Rightarrow> pkey \<Rightarrow> u32 \<Rightarrow> u32 \<Rightarrow> 'w st \<Rightarrow> pkey \<Rightarrow> nat" where
  "ext_ttl e k low high s = (if live_until s k < unat (sequence e) + unat low
     then (live_until s)(k := unat (sequence e) + unat high) else live_until s)"

lemma live_until_same [simp]: "s\<lparr>live_until := live_until s\<rparr> = s"
  by simp

lemma p_set_Ok [run_simps]:
  "p_set e k f s = Ok r t \<longleftrightarrow> t = f (s\<lparr>live_until := set_ttl e k s\<rparr>)"
  by (simp add: p_set_def modify_Ok set_ttl_def)

lemma p_remove_Ok [run_simps]:
  "p_remove k f s = Ok r t \<longleftrightarrow> t = f (s\<lparr>live_until := (live_until s)(k := 0)\<rparr>)"
  by (simp add: p_remove_def modify_Ok)

lemma extend_ttl_Ok [run_simps]:
  "extend_ttl e k low high s = Ok r t \<longleftrightarrow>
     has_key k s \<and> t = s\<lparr>live_until := ext_ttl e k low high s\<rparr>"
  by (auto simp: extend_ttl_def ext_ttl_def)

lemma publish_Ok [run_simps]:
  "publish a b s = Ok r t \<longleftrightarrow> t = s\<lparr>log := log s @ [\<lparr>ev_topics = a, ev_data = b\<rparr>]\<rparr>"
  by (simp add: publish_def modify_Ok)

text \<open>After an extension the entry stays live for at least the low threshold.\<close>

lemma extend_ttl_live:
  "extend_ttl e k low high s = Ok r t \<Longrightarrow> low \<le> high \<Longrightarrow>
     unat (sequence e) + unat low \<le> live_until t k"
  by (auto simp: extend_ttl_def word_le_nat_alt split: if_splits)

end
