(* ===== verification/Events.thy ===== *)
theory Events
  imports Ledger
begin

text \<open>
  The event emitters of \<^verbatim>\<open>events.rs\<close>: each publishes one event with a fixed topic layout and the
  schema version as first data field.
\<close>

definition EVENT_VERSION :: u32 where "EVENT_VERSION = 1"

definition emit_market_created ::
  "u64 \<Rightarrow> Address \<Rightarrow> string \<Rightarrow> u32 \<Rightarrow> u64 \<Rightarrow> ('w, unit) contract" where
  "emit_market_created market_id creator description num_outcomes deadline = publish
     [VSym ''mkt_creat'', VU64 market_id, VAddr creator]
     [VU32 EVENT_VERSION, VStr description, VU32 num_outcomes, VU64 deadline]"

definition emit_bet_placed ::
  "u64 \<Rightarrow> Address \<Rightarrow> u32 \<Rightarrow> i128 \<Rightarrow> ('w, unit) contract" where
  "emit_bet_placed market_id bettor outcome amount = publish
     [VSym ''bet_place'', VU64 market_id, VAddr bettor]
     [VU32 EVENT_VERSION, VU32 outcome, VI128 amount]"

definition emit_dispute_filed ::
  "u64 \<Rightarrow> Address \<Rightarrow> u64 \<Rightarrow> ('w, unit) contract" where
  "emit_dispute_filed market_id disciplinarian new_deadline = publish
     [VSym ''disp_file'', VU64 market_id, VAddr disciplinarian]
     [VU32 EVENT_VERSION, VU64 new_deadline]"

definition emit_resolution_finalized ::
  "u64 \<Rightarrow> Address \<Rightarrow> u32 \<Rightarrow> i128 \<Rightarrow> ('w, unit) contract" where
  "emit_resolution_finalized market_id resolver winning_outcome total_payout = publish
     [VSym ''resolv_fx'', VU64 market_id, VAddr resolver]
     [VU32 EVENT_VERSION, VU32 winning_outcome, VI128 total_payout]"

definition emit_rewards_claimed ::
  "u64 \<Rightarrow> Address \<Rightarrow> i128 \<Rightarrow> Address \<Rightarrow> bool \<Rightarrow> ('w, unit) contract" where
  "emit_rewards_claimed market_id claimer amount token_address is_refund = publish
     [VSym ''reward_fx'', VU64 market_id, VAddr claimer]
     [VU32 EVENT_VERSION, VI128 amount, VAddr token_address, VBool is_refund]"

definition emit_vote_cast ::
  "u64 \<Rightarrow> Address \<Rightarrow> u32 \<Rightarrow> i128 \<Rightarrow> ('w, unit) contract" where
  "emit_vote_cast market_id voter outcome weight = publish
     [VSym ''vote_cast'', VU64 market_id, VAddr voter]
     [VU32 EVENT_VERSION, VU32 outcome, VI128 weight]"

definition emit_circuit_breaker_triggered ::
  "Address \<Rightarrow> string \<Rightarrow> ('w, unit) contract" where
  "emit_circuit_breaker_triggered contract_address state = publish
     [VSym ''cb_state'', VU64 0, VAddr contract_address]
     [VU32 EVENT_VERSION, VStr state]"

definition emit_oracle_result_set ::
  "u64 \<Rightarrow> u32 \<Rightarrow> Address \<Rightarrow> u32 \<Rightarrow> ('w, unit) contract" where
  "emit_oracle_result_set market_id oracle_id oracle_source outcome = publish
     [VSym ''oracle_ok'', VU64 market_id, VAddr oracle_source]
     [VU32 EVENT_VERSION, VU32 oracle_id, VU32 outcome]"

definition emit_oracle_resolved ::
  "u64 \<Rightarrow> Address \<Rightarrow> u32 \<Rightarrow> ('w, unit) contract" where
  "emit_oracle_resolved market_id oracle_address outcome = publish
     [VSym ''orcl_res'', VU64 market_id, VAddr oracle_address]
     [VU32 EVENT_VERSION, VU32 outcome]"

definition emit_market_finalized ::
  "u64 \<Rightarrow> Address \<Rightarrow> u32 \<Rightarrow> ('w, unit) contract" where
  "emit_market_finalized market_id resolver winning_outcome = publish
     [VSym ''mkt_final'', VU64 market_id, VAddr resolver]
     [VU32 EVENT_VERSION, VU32 winning_outcome]"

definition emit_dispute_resolved ::
  "u64 \<Rightarrow> Address \<Rightarrow> u32 \<Rightarrow> ('w, unit) contract" where
  "emit_dispute_resolved market_id resolver winning_outcome = publish
     [VSym ''disp_res'', VU64 market_id, VAddr resolver]
     [VU32 EVENT_VERSION, VU32 winning_outcome]"

definition emit_market_state_changed ::
  "u64 \<Rightarrow> string \<Rightarrow> string \<Rightarrow> u64 \<Rightarrow> ('w, unit) contract" where
  "emit_market_state_changed market_id old_status new_status ts = publish
     [VSym ''mkt_state'', VU64 market_id]
     [VU32 EVENT_VERSION, VStr old_status, VStr new_status, VU64 ts]"

definition emit_market_cancelled ::
  "u64 \<Rightarrow> Address \<Rightarrow> ('w, unit) contract" where
  "emit_market_cancelled market_id admin = publish
     [VSym ''mkt_cncl'', VU64 market_id, VAddr admin]
     [VU32 EVENT_VERSION]"

definition emit_market_cancelled_vote ::
  "u64 \<Rightarrow> Address \<Rightarrow> ('w, unit) contract" where
  "emit_market_cancelled_vote market_id resolver = publish
     [VSym ''mk_cn_vt'', VU64 market_id, VAddr resolver]
     [VU32 EVENT_VERSION]"

definition emit_referral_reward ::
  "u64 \<Rightarrow> Address \<Rightarrow> i128 \<Rightarrow> ('w, unit) contract" where
  "emit_referral_reward market_id referrer amount = publish
     [VSym ''ref_rwrd'', VU64 market_id, VAddr referrer]
     [VU32 EVENT_VERSION, VI128 amount]"

definition emit_referral_claimed ::
  "u64 \<Rightarrow> Address \<Rightarrow> i128 \<Rightarrow> ('w, unit) contract" where
  "emit_referral_claimed market_id claimer amount = publish
     [VSym ''ref_claim'', VU64 market_id, VAddr claimer]
     [VU32 EVENT_VERSION, VI128 amount]"

definition emit_referral_distribution ::
  "u64 \<Rightarrow> Address \<Rightarrow> ('w, unit) contract" where
  "emit_referral_distribution market_id token = publish
     [VSym ''ref_dist'', VU64 market_id, VAddr token]
     [VU32 EVENT_VERSION]"

definition emit_circuit_breaker_auto ::
  "Address \<Rightarrow> u32 \<Rightarrow> ('w, unit) contract" where
  "emit_circuit_breaker_auto contract_address error_count = publish
     [VSym ''cb_auto'', VU64 0, VAddr contract_address]
     [VU32 EVENT_VERSION, VU32 error_count]"

definition emit_fee_collected ::
  "u64 \<Rightarrow> Address \<Rightarrow> Address \<Rightarrow> i128 \<Rightarrow> ('w, unit) contract" where
  "emit_fee_collected market_id token recipient amount = publish
     [VSym ''fee_colct'', VU64 market_id, VAddr token, VAddr recipient]
     [VU32 EVENT_VERSION, VI128 amount]"

definition emit_admin_fallback_resolution ::
  "u64 \<Rightarrow> Address \<Rightarrow> u32 \<Rightarrow> ('w, unit) contract" where
  "emit_admin_fallback_resolution market_id admin winning_outcome = publish
     [VSym ''adm_fbk'', VU64 market_id, VAddr admin]
     [VU32 EVENT_VERSION, VU32 winning_outcome]"

definition emit_creator_reputation_set ::
  "Address \<Rightarrow> u32 \<Rightarrow> u32 \<Rightarrow> ('w, unit) contract" where
  "emit_creator_reputation_set creator old_score new_score = publish
     [VSym ''rep_set'', VAddr creator]
     [VU32 EVENT_VERSION, VU32 old_score, VU32 new_score]"

definition emit_creation_deposit_set ::
  "i128 \<Rightarrow> i128 \<Rightarrow> ('w, unit) contract" where
  "emit_creation_deposit_set old_amount new_amount = publish
     [VSym ''dep_set'']
     [VU32 EVENT_VERSION, VI128 old_amount, VI128 new_amount]"

definition emit_circuit_breaker_threshold_set ::
  "i128 \<Rightarrow> i128 \<Rightarrow> ('w, unit) contract" where
  "emit_circuit_breaker_threshold_set old_threshold new_threshold = publish
     [VSym ''cb_thr_set'']
     [VU32 EVENT_VERSION, VI128 old_threshold, VI128 new_threshold]"

definition emit_monitoring_state_reset ::
  "Address \<Rightarrow> u32 \<Rightarrow> u64 \<Rightarrow> ('w, unit) contract" where
  "emit_monitoring_state_reset resetter previous_error_count previous_last_observation = publish
     [VSym ''mon_reset'', VAddr resetter]
     [VU32 EVENT_VERSION, VU32 previous_error_count, VU64 previous_last_observation]"

definition emit_market_pruned ::
  "u64 \<Rightarrow> u64 \<Rightarrow> ('w, unit) contract" where
  "emit_market_pruned market_id pruned_at = publish
     [VSym ''mkt_prune'', VU64 market_id]
     [VU32 EVENT_VERSION, VU64 pruned_at]"

definition emit_upgrade_initiated ::
  "Address \<Rightarrow> Hash \<Rightarrow> ('w, unit) contract" where
  "emit_upgrade_initiated initiator wasm_hash = publish
     [VSym ''upg_init'', VAddr initiator]
     [VU32 EVENT_VERSION, VHash wasm_hash]"

definition emit_upgrade_voted ::
  "Address \<Rightarrow> bool \<Rightarrow> ('w, unit) contract" where
  "emit_upgrade_voted voter vote_for = publish
     [VSym ''upg_vote'', VAddr voter]
     [VU32 EVENT_VERSION, VBool vote_for]"

lemmas emit_defs = emit_market_created_def emit_bet_placed_def emit_dispute_filed_def
  emit_resolution_finalized_def emit_rewards_claimed_def emit_vote_cast_def
  emit_circuit_breaker_triggered_def emit_oracle_result_set_def emit_oracle_resolved_def
  emit_market_finalized_def emit_dispute_resolved_def emit_market_state_changed_def
  emit_market_cancelled_def emit_market_cancelled_vote_def emit_referral_reward_def
  emit_referral_claimed_def emit_referral_distribution_def emit_circuit_breaker_auto_def
  emit_fee_collected_def emit_admin_fallback_resolution_def emit_creator_reputation_set_def
  emit_creation_deposit_set_def emit_circuit_breaker_threshold_set_def
  emit_monitoring_state_reset_def emit_market_pruned_def emit_upgrade_initiated_def
  emit_upgrade_voted_def

declare emit_defs [run_eval]

text \<open>An emitter writes nothing but the event log.\<close>

lemma keeps_emit [view_rules]:
  assumes "\<And>s x. v (s\<lparr>log := x\<rparr>) = v s"
  shows
    "keeps v (emit_market_created a0 b0 c0 d0 e0)"
    "keeps v (emit_bet_placed a1 b1 c1 d1)"
    "keeps v (emit_dispute_filed a2 b2 c2)"
    "keeps v (emit_resolution_finalized a3 b3 c3 d3)"
    "keeps v (emit_rewards_claimed a4 b4 c4 d4 e4)"
    "keeps v (emit_vote_cast a5 b5 c5 d5)"
    "keeps v (emit_circuit_breaker_triggered a6 b6)"
    "keeps v (emit_oracle_result_set a7 b7 c7 d7)"
    "keeps v (emit_oracle_resolved a8 b8 c8)"
    "keeps v (emit_market_finalized a9 b9 c9)"
    "keeps v (emit_dispute_resolved a10 b10 c10)"
    "keeps v (emit_market_state_changed a11 b11 c11 d11)"
    "keeps v (emit_market_cancelled a12 b12)"
    "keeps v (emit_market_cancelled_vote a13 b13)"
    "keeps v (emit_referral_reward a14 b14 c14)"
    "keeps v (emit_referral_claimed a15 b15 c15)"
    "keeps v (emit_referral_distribution a16 b16)"
    "keeps v (emit_circuit_breaker_auto a17 b17)"
    "keeps v (emit_fee_collected a18 b18 c18 d18)"
    "keeps v (emit_admin_fallback_resolution a19 b19 c19)"
    "keeps v (emit_creator_reputation_set a20 b20 c20)"
    "keeps v (emit_creation_deposit_set a21 b21)"
    "keeps v (emit_circuit_breaker_threshold_set a22 b22)"
    "keeps v (emit_monitoring_state_reset a23 b23 c23)"
    "keeps v (emit_market_pruned a24 b24)"
    "keeps v (emit_upgrade_initiated a25 b25)"
    "keeps v (emit_upgrade_voted a26 b26)"
  using assms by (simp_all add: emit_defs keeps_publish)

end
