(* ===== verification/Admin.thy ===== *)
theory Admin
  imports Events
begin

text \<open>
  \<^verbatim>\<open>admin.rs\<close>: the administrator, the two-step transfer of that role, the guardian account and the
  governance token. The last section shows that a completed transfer needs both sides.
\<close>

section \<open>Operations\<close>

definition admin_bump_gov_ttl :: "'w ctx \<Rightarrow> ConfigKey \<Rightarrow> ('w, unit) contract" where
  "admin_bump_gov_ttl e key =
     extend_ttl e (PConfig key) GOV_TTL_LOW_THRESHOLD GOV_TTL_HIGH_THRESHOLD"

definition set_admin :: "'w ctx \<Rightarrow> Address \<Rightarrow> ('w, unit) contract" where
  "set_admin e admin =
     thn (p_set e (PConfig K_Admin) (upd_conf (\<lambda>c. c\<lparr>c_Admin := Some admin\<rparr>)))
     (admin_bump_gov_ttl e K_Admin)"

definition get_admin :: "'w st \<Rightarrow> Address option" where
  "get_admin s = c_Admin (conf s)"

definition require_admin :: "'w ctx \<Rightarrow> ('w, unit) contract" where
  "require_admin e =
     bnd (reads get_admin) (\<lambda>a.
     bnd (ok_or a NotAuthorized) (\<lambda>admin.
     require_auth e admin))"

definition get_guardian :: "'w st \<Rightarrow> Address option" where
  "get_guardian s = c_GuardianAccount (conf s)"

definition ensure_not_guardian :: "Address \<Rightarrow> ('w, unit) contract" where
  "ensure_not_guardian candidate =
     bnd (reads get_guardian) (\<lambda>g. err_if (g = Some candidate) NotAuthorized)"

definition propose_admin :: "'w ctx \<Rightarrow> Address \<Rightarrow> ('w, unit) contract" where
  "propose_admin e new_admin =
     thn (require_admin e)
     (thn (ensure_not_guardian new_admin)
     (thn (p_set e (PConfig K_PendingAdmin) (upd_conf (\<lambda>c. c\<lparr>c_PendingAdmin := Some new_admin\<rparr>)))
     (admin_bump_gov_ttl e K_PendingAdmin)))"

definition accept_admin :: "'w ctx \<Rightarrow> Address \<Rightarrow> ('w, unit) contract" where
  "accept_admin e caller =
     thn (require_auth e caller)
     (bnd (reads (\<lambda>s. c_PendingAdmin (conf s))) (\<lambda>p.
     bnd (ok_or p PendingTransferNotFound) (\<lambda>pending.
     thn (err_if (pending \<noteq> caller) NotPendingOwner)
     (thn (ensure_not_guardian pending)
     (thn (set_admin e pending)
     (p_remove (PConfig K_PendingAdmin) (upd_conf (\<lambda>c. c\<lparr>c_PendingAdmin := None\<rparr>))))))))"

definition cancel_admin_transfer :: "'w ctx \<Rightarrow> ('w, unit) contract" where
  "cancel_admin_transfer e =
     thn (require_admin e)
     (bnd (reads (has_key (PConfig K_PendingAdmin))) (\<lambda>present.
     thn (err_if (\<not> present) PendingTransferNotFound)
     (p_remove (PConfig K_PendingAdmin) (upd_conf (\<lambda>c. c\<lparr>c_PendingAdmin := None\<rparr>)))))"

definition set_guardian :: "'w ctx \<Rightarrow> Address \<Rightarrow> ('w, unit) contract" where
  "set_guardian e guardian =
     thn (require_admin e)
     (thn (p_set e (PConfig K_GuardianAccount)
             (upd_conf (\<lambda>c. c\<lparr>c_GuardianAccount := Some guardian\<rparr>)))
     (admin_bump_gov_ttl e K_GuardianAccount))"

definition require_guardian :: "'w ctx \<Rightarrow> ('w, unit) contract" where
  "require_guardian e =
     bnd (reads get_guardian) (\<lambda>g.
     bnd (ok_or g NotAuthorized) (\<lambda>guardian.
     require_auth e guardian))"

definition set_governance_token :: "'w ctx \<Rightarrow> Address \<Rightarrow> ('w, unit) contract" where
  "set_governance_token e token =
     thn (require_admin e)
     (modify (upd_inst (\<lambda>i. i\<lparr>i_GovernanceToken := Some token\<rparr>)))"

section \<open>Runs and views\<close>

lemma require_admin_Ok [run_simps]:
  "require_admin e s = Ok r t \<longleftrightarrow>
     (\<exists>a. c_Admin (conf s) = Some a \<and> a \<in> authorized e) \<and> t = s"
  by (auto simp: require_admin_def get_admin_def run_simps)

lemma ensure_not_guardian_Ok [run_simps]:
  "ensure_not_guardian a s = Ok r t \<longleftrightarrow> c_GuardianAccount (conf s) \<noteq> Some a \<and> t = s"
  by (auto simp: ensure_not_guardian_def get_guardian_def run_simps)

lemma admin_bump_gov_ttl_Ok [run_simps]:
  "admin_bump_gov_ttl e k s = Ok r t \<longleftrightarrow> has_config k (conf s) \<and>
     t = s\<lparr>live_until := ext_ttl e (PConfig k) GOV_TTL_LOW_THRESHOLD GOV_TTL_HIGH_THRESHOLD s\<rparr>"
  by (simp add: admin_bump_gov_ttl_def run_simps)

lemma keeps_require_admin [view_rules]: "keeps v (require_admin e)"
  by (simp add: keeps_def require_admin_Ok)

lemma keeps_ensure_not_guardian [view_rules]: "keeps v (ensure_not_guardian a)"
  by (simp add: keeps_def ensure_not_guardian_Ok)

lemmas admin_defs = set_admin_def propose_admin_def accept_admin_def cancel_admin_transfer_def
  set_guardian_def set_governance_token_def

lemmas [run_eval] = admin_bump_gov_ttl_def require_admin_def get_admin_def get_guardian_def
  ensure_not_guardian_def require_guardian_def

lemma set_admin_run:
  "set_admin e a s = Ok r t \<Longrightarrow> conf t = (conf s)\<lparr>c_Admin := Some a\<rparr>"
  by (auto simp: set_admin_def run_simps)

text \<open>The admin operations touch the configuration only (and instance storage for the token).\<close>

lemma keeps_admin_ops [view_rules]:
  assumes "\<And>s x. v (s\<lparr>live_until := x\<rparr>) = v s" and "\<And>s c. v (s\<lparr>conf := c\<rparr>) = v s"
  shows "keeps v (set_admin e a)" "keeps v (propose_admin e a)" "keeps v (accept_admin e a)"
    "keeps v (cancel_admin_transfer e)" "keeps v (set_guardian e a)"
  unfolding admin_defs admin_bump_gov_ttl_def by (intro view_rules; simp add: assms)+

section \<open>Transfer of the role\<close>

lemma accept_admin_run:
  assumes "accept_admin e caller s = Ok () t"
  shows "caller \<in> authorized e" "c_PendingAdmin (conf s) = Some caller"
    "c_GuardianAccount (conf s) \<noteq> Some caller"
    "conf t = (conf s)\<lparr>c_Admin := Some caller, c_PendingAdmin := None\<rparr>"
  using assms by (auto simp: accept_admin_def run_simps dest!: set_admin_run)

lemma propose_admin_run:
  assumes "propose_admin e new s = Ok () t"
  shows "\<exists>a. get_admin s = Some a \<and> a \<in> authorized e"
    "conf t = (conf s)\<lparr>c_PendingAdmin := Some new\<rparr>"
    "c_GuardianAccount (conf s) \<noteq> Some new"
  using assms by (auto simp: propose_admin_def get_admin_def run_simps)

end
