(* ===== verification/Sample_Ledger.thy ===== *)
theory Sample_Ledger
  imports Admin
begin

text \<open>
  A small concrete ledger on which the properties are instantiated: token contracts as one table of
  balances that refuses overdrafts, no freezing, no snapshot queries, a price feed with one fixed
  price; an empty contract and an initialised one.
\<close>

type_synonym balances = "Address \<times> Address \<Rightarrow> int"

definition table_transfer ::
  "Address \<Rightarrow> Address \<Rightarrow> Address \<Rightarrow> i128 \<Rightarrow> balances \<Rightarrow> balances option" where
  "table_transfer token from to amount w =
     (if 0 \<le> amount \<and> amount \<le> w (token, from)
      then Some (let w' = w((token, from) := w (token, from) - amount)
                 in w'((token, to) := w' (token, to) + amount))
      else None)"

definition sample_ctx :: "u64 \<Rightarrow> Address set \<Rightarrow> balances ctx" where
  "sample_ctx now auths = \<lparr>
     timestamp = now, sequence = 1000, authorized = auths, current_contract_address = Addr 0,
     min_persistent_ttl = 4096,
     ext_transfer = table_transfer,
     ext_balance = (\<lambda>token a w. Some (w (token, a))),
     ext_frozen = (\<lambda>_ _ _. None),
     ext_authorized = (\<lambda>_ _ _. None),
     ext_balance_at = (\<lambda>_ _ _ _. None),
     ext_decimals = (\<lambda>_ _. None),
     ext_get_price = (\<lambda>_ _ _. Some (100, 1, -2, 1000)),
     ext_storage_count = (\<lambda>_. 0),
     ext_get_market_votes = (\<lambda>s i. List.map_filter (\<lambda>a. s_Vote (vts s) (i, a))
        (case s_DisputeVoters (vts s) i of None \<Rightarrow> [] | Some as \<Rightarrow> as)),
     ext_get_outcome_bet_count = (\<lambda>m k. case omap_get (m_winner_counts m) k of None \<Rightarrow> 0 | Some n \<Rightarrow> n),
     ext_set_outcome_bet_count = (\<lambda>m k n. m\<lparr>m_winner_counts := omap_set (m_winner_counts m) k n\<rparr>),
     ext_emit_upgrade_rejected = (\<lambda>h. \<lparr>ev_topics = [VSym ''upg_rej''], ev_data = [VHash h]\<rparr>),
     ext_emit_upgrade_executed = (\<lambda>a h. \<lparr>ev_topics = [VSym ''upg_exec'', VAddr a], ev_data = [VHash h]\<rparr>)
   \<rparr>"

definition empty_conf :: config_store where
  "empty_conf = \<lparr>c_Admin = None, c_FeeAdmin = None, c_GuardianAccount = None, c_BaseFee = None,
     c_CircuitBreakerState = None, c_CreationDeposit = None, c_CreationFee = None,
     c_ProtocolTreasury = None, c_GuardianSet = None, c_PendingUpgrade = None,
     c_PendingUpgradePassedAt = None, c_TimelockDuration = None, c_PendingGuardianRemoval = None,
     c_PendingGuardianRemovalPassedAt = None, c_UpgradeRejectedAt = Map.empty,
     c_MaxPushPayoutWinners = None, c_DefaultDisputeWindow = None, c_MinDisputeWindow = None,
     c_MaxDisputeWindow = None, c_PendingAdmin = None, c_PendingEmergencyPause = None\<rparr>"

definition empty_inst :: instance_store where
  "empty_inst = \<lparr>i_CircuitBreakerState = None, i_CircuitBreakerThreshold = None,
     i_GovernanceToken = None, i_MarketCount = None, i_OpenedAt = None, i_HalfOpenOps = None,
     i_ErrorCount = None, i_LastObservation = None\<rparr>"

definition empty_st :: "'w \<Rightarrow> 'w st" where
  "empty_st w = \<lparr>inst = empty_inst, conf = empty_conf,
     mkts = \<lparr>s_Market = Map.empty, s_MarketDisputeWindow = Map.empty,
       s_CreatorReputation = Map.empty, s_StatusIndex = Map.empty\<rparr>,
     bets = \<lparr>s_Bet = Map.empty, s_Claimed = Map.empty, s_BetReferrer = Map.empty\<rparr>,
     fees = \<lparr>s_TotalFeesCollected = None, s_FeeRevenue = Map.empty, s_ReferrerBalance = Map.empty\<rparr>,
     vts = \<lparr>s_Vote = Map.empty, s_VoteTally = Map.empty, s_LockedTokens = Map.empty,
       s_LockedBalance = Map.empty, s_DisputeVoters = Map.empty\<rparr>,
     orcs = \<lparr>s_Result = Map.empty, s_LastUpdate = Map.empty, s_OracleResponses = Map.empty\<rparr>,
     arch = \<lparr>s_ArchivedMarketCount = None, s_ArchivedMarket = Map.empty\<rparr>,
     migs = \<lparr>s_backup = Map.empty, s_log = Map.empty\<rparr>,
     live_until = (\<lambda>_. 0), wasm = None, log = [], world = w\<rparr>"

text \<open>The contract with admin \<open>Addr 1\<close>, and every account holding 1000 of every token.\<close>

definition sample_st :: "balances st" where
  "sample_st = upd_conf (\<lambda>c. c\<lparr>c_Admin := Some (Addr 1)\<rparr>) (empty_st (\<lambda>_. 1000))"

definition sample_oracle :: OracleConfig where
  "sample_oracle = \<lparr>oc_oracle_address = Addr 9, oc_feed_id = ''feed'', oc_min_responses = None,
     oc_max_staleness_seconds = 60, oc_max_confidence_bps = 100, oc_strike_price = Some 50\<rparr>"

definition sample_market :: Market where
  "sample_market = \<lparr>m_id = 1, m_creator = Addr 2, m_description = ''rain'',
     m_options = [''yes'', ''no''], m_status = Active, m_deadline = 1000,
     m_resolution_deadline = 100000, m_winning_outcome = None, m_oracle_config = sample_oracle,
     m_total_staked = 0, m_payout_mode = Pull, m_tier = Basic, m_creation_deposit = 0,
     m_parent_id = 0, m_parent_outcome_idx = 0, m_resolved_at = None, m_token_address = Addr 5,
     m_outcome_stakes = [], m_pending_resolution_timestamp = None,
     m_dispute_snapshot_ledger = None, m_dispute_timestamp = None, m_winner_counts = [],
     m_total_claimed = 0\<rparr>"

definition with_market :: "Market \<Rightarrow> 'w st \<Rightarrow> 'w st" where
  "with_market m = upd_mkts (\<lambda>k. k\<lparr>s_Market := (s_Market k)(m_id m \<mapsto> m),
     s_StatusIndex := (s_StatusIndex k)((m_id m, m_status m) \<mapsto> True)\<rparr>) \<circ>
     upd_inst (\<lambda>i. i\<lparr>i_MarketCount := Some (m_id m)\<rparr>)"

lemma sample_ctx_sel [simp]:
  "timestamp (sample_ctx n A) = n" "sequence (sample_ctx n A) = 1000"
  "authorized (sample_ctx n A) = A" "current_contract_address (sample_ctx n A) = Addr 0"
  "min_persistent_ttl (sample_ctx n A) = 4096"
  "ext_transfer (sample_ctx n A) = table_transfer"
  "ext_balance (sample_ctx n A) = (\<lambda>token a w. Some (w (token, a)))"
  "ext_frozen (sample_ctx n A) = (\<lambda>_ _ _. None)"
  "ext_authorized (sample_ctx n A) = (\<lambda>_ _ _. None)"
  "ext_balance_at (sample_ctx n A) = (\<lambda>_ _ _ _. None)"
  "ext_decimals (sample_ctx n A) = (\<lambda>_ _. None)"
  "ext_get_price (sample_ctx n A) = (\<lambda>_ _ _. Some (100, 1, -2, 1000))"
  "ext_emit_upgrade_rejected (sample_ctx n A) =
     (\<lambda>h. \<lparr>ev_topics = [VSym ''upg_rej''], ev_data = [VHash h]\<rparr>)"
  "ext_emit_upgrade_executed (sample_ctx n A) =
     (\<lambda>a h. \<lparr>ev_topics = [VSym ''upg_exec'', VAddr a], ev_data = [VHash h]\<rparr>)"
  by (simp_all add: sample_ctx_def)

lemmas sample_defs = sample_st_def empty_st_def empty_conf_def empty_inst_def with_market_def
  sample_market_def sample_oracle_def table_transfer_def

end
