(* ===== verification/Circuit_Breaker.thy ===== *)
theory Circuit_Breaker
  imports Admin Sample_Ledger
begin

text \<open>
  \<^verbatim>\<open>circuit_breaker.rs\<close> and \<^verbatim>\<open>monitoring.rs\<close>: the four-state breaker that gates the operations of the
  contract, its recovery after a cool-down, the probe budget of the half-open state, the error
  counter that opens the breaker, and the storage metrics. The guarded operations use the breaker
  through the interface \<open>op_gate\<close>.
\<close>

section \<open>Operations (circuit\_breaker.rs)\<close>

definition COOLDOWN_SECONDS :: u64 where "COOLDOWN_SECONDS = 6 * 3600"
definition HALF_OPEN_MAX_OPS :: u32 where "HALF_OPEN_MAX_OPS = 5"
definition DEFAULT_CIRCUIT_BREAKER_THRESHOLD :: i128 where
  "DEFAULT_CIRCUIT_BREAKER_THRESHOLD = 1000000000"

definition state_str :: "CircuitBreakerState \<Rightarrow> string" where
  "state_str state = (case state of Closed \<Rightarrow> ''closed'' | Open \<Rightarrow> ''open''
     | HalfOpen \<Rightarrow> ''half_open'' | Paused \<Rightarrow> ''paused'')"

definition set_state_internal :: "'w ctx \<Rightarrow> CircuitBreakerState \<Rightarrow> ('w, unit) contract" where
  "set_state_internal e state =
     thn (case state of
            Open \<Rightarrow> modify (upd_inst (\<lambda>i. i\<lparr>i_OpenedAt := Some (timestamp e)\<rparr>))
          | HalfOpen \<Rightarrow> modify (upd_inst (\<lambda>i. i\<lparr>i_HalfOpenOps := Some 0\<rparr>))
          | _ \<Rightarrow> ret ())
     (thn (modify (upd_inst (\<lambda>i. i\<lparr>i_CircuitBreakerState := Some state\<rparr>)))
     (emit_circuit_breaker_triggered (current_contract_address e) (state_str state)))"

definition set_state :: "'w ctx \<Rightarrow> CircuitBreakerState \<Rightarrow> ('w, unit) contract" where
  "set_state e state = thn (require_admin e) (set_state_internal e state)"

definition force_pause :: "'w ctx \<Rightarrow> ('w, unit) contract" where
  "force_pause e = set_state_internal e Paused"

definition get_state :: "'w st \<Rightarrow> CircuitBreakerState" where
  "get_state s = (case i_CircuitBreakerState (inst s) of None \<Rightarrow> Closed | Some state \<Rightarrow> state)"

definition maybe_recover :: "'w ctx \<Rightarrow> ('w, unit) contract" where
  "maybe_recover e =
     bnd (reads get_state) (\<lambda>state.
     if state \<noteq> Open then ret ()
     else
       bnd (reads (\<lambda>s. case i_OpenedAt (inst s) of None \<Rightarrow> 0 | Some at \<Rightarrow> at)) (\<lambda>opened_at.
       bnd (add_word opened_at COOLDOWN_SECONDS) (\<lambda>ready_at.
       doif (ready_at \<le> timestamp e) (discard (set_state_internal e HalfOpen)))))"

definition require_closed :: "'w ctx \<Rightarrow> ('w, unit) contract" where
  "require_closed e =
     thn (maybe_recover e)
     (bnd (reads get_state) (\<lambda>state.
      case state of
        Open \<Rightarrow> fail ContractPaused
      | Paused \<Rightarrow> fail ContractPaused
      | HalfOpen \<Rightarrow>
          bnd (reads (\<lambda>s. case i_HalfOpenOps (inst s) of None \<Rightarrow> 0 | Some n \<Rightarrow> n)) (\<lambda>ops.
          if HALF_OPEN_MAX_OPS \<le> ops
          then thn (discard (set_state_internal e Open)) (fail ContractPaused)
          else bnd (add_word ops 1) (\<lambda>ops'.
               modify (upd_inst (\<lambda>i. i\<lparr>i_HalfOpenOps := Some ops'\<rparr>))))
      | Closed \<Rightarrow> ret ()))"

definition guardian_or_admin :: "'w ctx \<Rightarrow> ('w, unit) contract" where
  "guardian_or_admin e =
     bnd (reads get_guardian) (\<lambda>g.
     case g of Some guardian \<Rightarrow> require_auth e guardian | None \<Rightarrow> require_admin e)"

definition pause :: "'w ctx \<Rightarrow> ('w, unit) contract" where
  "pause e = thn (guardian_or_admin e) (set_state_internal e Paused)"

definition unpause :: "'w ctx \<Rightarrow> ('w, unit) contract" where
  "unpause e = thn (guardian_or_admin e) (set_state_internal e Closed)"

definition require_not_paused_for_high_risk :: "('w, unit) contract" where
  "require_not_paused_for_high_risk =
     bnd (reads get_state) (\<lambda>state. err_if (state = Paused) ContractPaused)"

definition get_threshold :: "'w st \<Rightarrow> i128" where
  "get_threshold s = (case i_CircuitBreakerThreshold (inst s) of
     None \<Rightarrow> DEFAULT_CIRCUIT_BREAKER_THRESHOLD | Some x \<Rightarrow> x)"

definition set_threshold :: "'w ctx \<Rightarrow> i128 \<Rightarrow> ('w, unit) contract" where
  "set_threshold e threshold =
     thn (require_admin e)
     (thn (err_if (threshold \<le> 0) InvalidAmount)
     (bnd (reads get_threshold) (\<lambda>old_threshold.
     thn (modify (upd_inst (\<lambda>i. i\<lparr>i_CircuitBreakerThreshold := Some threshold\<rparr>)))
     (emit_circuit_breaker_threshold_set old_threshold threshold))))"

section \<open>Operations (monitoring.rs)\<close>

definition STORAGE_ALERT_THRESHOLD :: u32 where "STORAGE_ALERT_THRESHOLD = 50000"

definition track_error :: "'w ctx \<Rightarrow> ('w, unit) contract" where
  "track_error e =
     bnd (reads (\<lambda>s. case i_ErrorCount (inst s) of None \<Rightarrow> 0 | Some n \<Rightarrow> n)) (\<lambda>n.
     bnd (add_word n 1) (\<lambda>count.
     thn (modify (upd_inst (\<lambda>i. i\<lparr>i_ErrorCount := Some count,
                                i_LastObservation := Some (timestamp e)\<rparr>)))
     (doif (10 < count)
        (thn (modify (upd_inst (\<lambda>i. i\<lparr>i_CircuitBreakerState := Some Open\<rparr>)))
             (publish [VSym ''cb_auto''] [VU32 count])))))"

definition reset_monitoring :: "'w ctx \<Rightarrow> ('w, unit) contract" where
  "reset_monitoring e =
     bnd (reads (\<lambda>s. case i_ErrorCount (inst s) of None \<Rightarrow> 0 | Some n \<Rightarrow> n)) (\<lambda>previous_error_count.
     bnd (reads (\<lambda>s. case i_LastObservation (inst s) of None \<Rightarrow> 0 | Some n \<Rightarrow> n)) (\<lambda>previous_last_observation.
     thn (modify (upd_inst (\<lambda>i. i\<lparr>i_ErrorCount := Some 0, i_LastObservation := Some 0\<rparr>)))
     (bnd (reads get_admin) (\<lambda>a.
     emit_monitoring_state_reset
       (case a of None \<Rightarrow> current_contract_address e | Some admin \<Rightarrow> admin)
       previous_error_count previous_last_observation))))"

definition track_storage_count :: "'w ctx \<Rightarrow> ('w, u32) contract" where
  "track_storage_count e =
     bnd (reads (ext_storage_count e)) (\<lambda>count.
     thn (doif (STORAGE_ALERT_THRESHOLD \<le> count)
            (publish [VSym ''storage''] [VU32 count, VU32 STORAGE_ALERT_THRESHOLD]))
     (ret count))"

definition emit_storage_metrics :: "'w ctx \<Rightarrow> ('w, unit) contract" where
  "emit_storage_metrics e =
     bnd (track_storage_count e) (\<lambda>count. publish [VSym ''storage''] [VU32 count])"

section \<open>Runs and views\<close>

lemma set_state_internal_run:
  "set_state_internal e state s = Ok r t \<Longrightarrow> get_state t = state \<and>
     i_OpenedAt (inst t) = (if state = Open then Some (timestamp e) else i_OpenedAt (inst s)) \<and>
     i_HalfOpenOps (inst t) = (if state = HalfOpen then Some 0 else i_HalfOpenOps (inst s)) \<and>
     i_MarketCount (inst t) = i_MarketCount (inst s) \<and>
     i_ErrorCount (inst t) = i_ErrorCount (inst s)"
  by (cases state) (auto simp: set_state_internal_def emit_defs run_simps get_state_def)

lemma set_state_internal_total:
  "\<exists>t. set_state_internal e state s = Ok () t"
  by (cases state) (auto simp: set_state_internal_def run_eval)

lemma discard_set_state: "discard (set_state_internal e state) = set_state_internal e state"
proof (rule ext)
  fix s
  obtain t where "set_state_internal e state s = Ok () t"
    using set_state_internal_total by blast
  then show "discard (set_state_internal e state) s = set_state_internal e state s"
    by (simp add: discard_def)
qed

lemma require_not_paused_Ok [run_simps]:
  "require_not_paused_for_high_risk s = Ok r t \<longleftrightarrow> get_state s \<noteq> Paused \<and> t = s"
  by (auto simp: require_not_paused_for_high_risk_def run_simps)

lemma keeps_require_not_paused [view_rules]: "keeps v require_not_paused_for_high_risk"
  by (simp add: keeps_def require_not_paused_Ok)

lemma keeps_guardian_or_admin [view_rules]: "keeps v (guardian_or_admin e)"
  unfolding guardian_or_admin_def by (intro view_rules)

lemma keeps_set_state_internal [view_rules]:
  assumes "\<And>s x. v (s\<lparr>log := x\<rparr>) = v s" and "\<And>s x. v (s\<lparr>inst := x\<rparr>) = v s"
  shows "keeps v (set_state_internal e state)"
  unfolding set_state_internal_def
  by (cases state) (auto intro!: view_rules simp: assms)

lemma keeps_breaker_ops [view_rules]:
  assumes "\<And>s x. v (s\<lparr>log := x\<rparr>) = v s" and "\<And>s x. v (s\<lparr>inst := x\<rparr>) = v s"
  shows "keeps v (set_state e state)" "keeps v (force_pause e)" "keeps v (maybe_recover e)"
    "keeps v (pause e)" "keeps v (unpause e)" "keeps v (set_threshold e th)"
    "keeps v (track_error e)" "keeps v (reset_monitoring e)" "keeps v (track_storage_count e)"
  unfolding set_state_def force_pause_def maybe_recover_def pause_def unpause_def
    set_threshold_def track_error_def reset_monitoring_def track_storage_count_def
    discard_set_state
  by ((intro view_rules; simp add: assms)+)

lemma keeps_require_closed [view_rules]:
  assumes "\<And>s x. v (s\<lparr>log := x\<rparr>) = v s" and "\<And>s x. v (s\<lparr>inst := x\<rparr>) = v s"
  shows "keeps v (require_closed e)"
proof -
  have "keeps v (case state of
        Open \<Rightarrow> fail ContractPaused
      | Paused \<Rightarrow> fail ContractPaused
      | HalfOpen \<Rightarrow>
          bnd (reads (\<lambda>s. case i_HalfOpenOps (inst s) of None \<Rightarrow> 0 | Some n \<Rightarrow> n)) (\<lambda>ops.
          if HALF_OPEN_MAX_OPS \<le> ops
          then thn (discard (set_state_internal e Open)) (fail ContractPaused)
          else bnd (add_word ops 1) (\<lambda>ops'.
               modify (upd_inst (\<lambda>i. i\<lparr>i_HalfOpenOps := Some ops'\<rparr>))))
      | Closed \<Rightarrow> ret ())" for state
    unfolding discard_set_state
    by (cases state) (auto intro!: view_rules simp: assms)
  then show ?thesis unfolding require_closed_def
    by (intro keeps_thn keeps_bnd keeps_breaker_ops keeps_pure) (simp_all add: assms)
qed

section \<open>The interface of a gate\<close>

text \<open>
  A gate either admits a call or refuses it with one error; what a guarded operation may rely on is
  proved once.
\<close>

locale op_gate =
  fixes gate :: "('s, 'e, unit) comp" and admits :: "'s \<Rightarrow> bool" and refusal :: 'e
  assumes refused: "\<not> admits s \<Longrightarrow> gate s = Trap \<or> (\<exists>t. gate s = Err refusal t)"
    and admitted: "admits s \<Longrightarrow> \<exists>t. gate s = Ok () t"
begin

lemma gate_Ok_iff: "(\<exists>t. gate s = Ok () t) \<longleftrightarrow> admits s"
  using refused [of s] admitted [of s] by (cases "admits s") auto

lemma guarded_admits: "thn gate m s = Ok r t \<Longrightarrow> admits s"
  using gate_Ok_iff by (auto simp: thn_Ok)

lemma guarded_refused: "\<not> admits s \<Longrightarrow> final s (invoke (thn gate m) s) = s"
  using refused [of s] by (auto simp: final_invoke thn_def bnd_def)

end

text \<open>When the breaker lets an ordinary operation through.\<close>

definition opened_at :: "'w st \<Rightarrow> u64" where
  "opened_at s = (case i_OpenedAt (inst s) of None \<Rightarrow> 0 | Some at \<Rightarrow> at)"

definition half_open_ops :: "'w st \<Rightarrow> u32" where
  "half_open_ops s = (case i_HalfOpenOps (inst s) of None \<Rightarrow> 0 | Some n \<Rightarrow> n)"

definition breaker_admits :: "'w ctx \<Rightarrow> 'w st \<Rightarrow> bool" where
  "breaker_admits e s = (case get_state s of
      Closed \<Rightarrow> True
    | Paused \<Rightarrow> False
    | HalfOpen \<Rightarrow> half_open_ops s < HALF_OPEN_MAX_OPS
    | Open \<Rightarrow> unat (opened_at s) + unat COOLDOWN_SECONDS \<le> unat (timestamp e))"

lemma maybe_recover_not_open: "get_state s \<noteq> Open \<Longrightarrow> maybe_recover e s = Ok () s"
  by (simp add: maybe_recover_def run_eval)

lemma cooldown_reached:
  "unat (opened_at s) + unat COOLDOWN_SECONDS < 2 ^ 64 \<Longrightarrow>
     opened_at s + COOLDOWN_SECONDS \<le> timestamp e \<longleftrightarrow>
     unat (opened_at s) + unat COOLDOWN_SECONDS \<le> unat (timestamp e)"
  by (simp add: word_le_nat_alt unat_add_no_overflow)

lemma maybe_recover_open:
  assumes "get_state s = Open"
  shows "maybe_recover e s =
    (if unat (opened_at s) + unat COOLDOWN_SECONDS < 2 ^ 64
     then if unat (opened_at s) + unat COOLDOWN_SECONDS \<le> unat (timestamp e)
          then set_state_internal e HalfOpen s else Ok () s
     else Trap)"
  using assms cooldown_reached [of s e]
  by (auto simp: maybe_recover_def discard_set_state opened_at_def [symmetric] bnd_def reads_def
      add_word_def doif_def ret_def)

lemma require_closed_settled:
  assumes "get_state s = HalfOpen"
  shows "require_closed e s =
    (if HALF_OPEN_MAX_OPS \<le> half_open_ops s
     then thn (set_state_internal e Open) (fail ContractPaused) s
     else Ok () (upd_inst (\<lambda>i. i\<lparr>i_HalfOpenOps := Some (half_open_ops s + 1)\<rparr>) s))"
proof -
  have "half_open_ops s < HALF_OPEN_MAX_OPS \<Longrightarrow> unat (half_open_ops s) + 1 < 2 ^ 32"
    by (simp add: HALF_OPEN_MAX_OPS_def word_less_nat_alt)
  then show ?thesis using assms maybe_recover_not_open [of s e]
    by (auto simp: require_closed_def discard_set_state half_open_ops_def [symmetric] thn_def
        bnd_def reads_def add_word_def modify_def not_le)
qed

lemma fail_after_set_state:
  "\<exists>t. thn (set_state_internal e st) (fail c) s = Err c t"
  using set_state_internal_total [of e st s] by (auto simp: thn_def bnd_def fail_def)

lemma require_closed_open:
  assumes "get_state s = Open"
  shows "require_closed e s =
    (if unat (opened_at s) + unat COOLDOWN_SECONDS < 2 ^ 64
     then if unat (opened_at s) + unat COOLDOWN_SECONDS \<le> unat (timestamp e)
          then bnd (set_state_internal e HalfOpen) (\<lambda>_. require_closed e) s
          else Err ContractPaused s
     else Trap)"
proof -
  obtain t where t: "set_state_internal e HalfOpen s = Ok () t"
    using set_state_internal_total by blast
  then have "get_state t = HalfOpen" using set_state_internal_run by blast
  then have "maybe_recover e t = Ok () t" by (simp add: maybe_recover_not_open)
  then show ?thesis using assms t
    by (auto simp: require_closed_def [of e] maybe_recover_open thn_def bnd_def [of "maybe_recover e"]
        bnd_def [of "set_state_internal e HalfOpen"] bnd_def [of "reads get_state"] reads_def fail_def)
qed

interpretation breaker: op_gate "require_closed e" "breaker_admits e" ContractPaused for e
proof unfold_locales
  fix s :: "'a st"
  obtain t where t: "set_state_internal e HalfOpen s = Ok () t"
    using set_state_internal_total by blast
  have th: "get_state t = HalfOpen" "half_open_ops t = 0"
    using set_state_internal_run [OF t] by (auto simp: half_open_ops_def)
  have rt: "\<exists>u. require_closed e t = Ok () u"
    using th by (simp add: require_closed_settled HALF_OPEN_MAX_OPS_def)
  {
    assume "breaker_admits e s"
    then show "\<exists>u. require_closed e s = Ok () u"
    proof (cases "get_state s")
      case Open
      with \<open>breaker_admits e s\<close> have "unat (opened_at s) + unat COOLDOWN_SECONDS \<le> unat (timestamp e)"
        by (simp add: breaker_admits_def)
      moreover from this unat_u64_bound [of "timestamp e"]
      have "unat (opened_at s) + unat COOLDOWN_SECONDS < 2 ^ 64" by simp
      ultimately show ?thesis using Open t rt
        by (simp add: require_closed_open bnd_def)
    next
      case HalfOpen
      then show ?thesis using \<open>breaker_admits e s\<close>
        by (auto simp: breaker_admits_def require_closed_settled dest: leD)
    qed (simp_all add: breaker_admits_def require_closed_def maybe_recover_not_open thn_def bnd_def
        reads_def ret_def)
  next
    assume "\<not> breaker_admits e s"
    then show "require_closed e s = Trap \<or> (\<exists>u. require_closed e s = Err ContractPaused u)"
      using fail_after_set_state [of e Open ContractPaused s]
      by (cases "get_state s") (auto simp: breaker_admits_def require_closed_open
          require_closed_settled not_less,
          auto simp: require_closed_def maybe_recover_not_open run_eval)
  }
qed

interpretation pause_gate: op_gate require_not_paused_for_high_risk "\<lambda>s. get_state s \<noteq> Paused"
    ContractPaused
  by unfold_locales (auto simp: require_not_paused_for_high_risk_def run_eval)

section \<open>Properties of the breaker\<close>



text \<open>
  Once the probe budget of the half-open state is used up, no later ordinary operation gets
  through, however much time passes, and no such call changes the contract: the transition back to
  open that the code makes is undone by the host together with the failing call, so the breaker
  stays half-open and never cools down again on its own.
\<close>

theorem half_open_exhausted_stuck:
  assumes "get_state s = HalfOpen" and "HALF_OPEN_MAX_OPS \<le> half_open_ops s"
  shows "invoke (thn (require_closed e) m) s = Err ContractPaused s"
proof -
  obtain t where "require_closed e s = Err ContractPaused t"
    using assms fail_after_set_state [of e Open ContractPaused s]
    by (auto simp: require_closed_settled)
  then show ?thesis by (simp add: invoke_def thn_def bnd_def)
qed

theorem half_open_exhausted_stuck_witness:
  "let s = upd_inst (\<lambda>i. i\<lparr>i_CircuitBreakerState := Some HalfOpen, i_HalfOpenOps := Some 5\<rparr>) sample_st
   in HALF_OPEN_MAX_OPS \<le> half_open_ops s
      \<and> invoke (thn (require_closed (sample_ctx 999999 {})) (ret True)) s = Err ContractPaused s"
proof -
  let ?s = "upd_inst (\<lambda>i. i\<lparr>i_CircuitBreakerState := Some HalfOpen, i_HalfOpenOps := Some 5\<rparr>) sample_st"
  have 1: "get_state ?s = HalfOpen" by (simp add: get_state_def)
  have 2: "HALF_OPEN_MAX_OPS \<le> half_open_ops ?s"
    by (simp add: half_open_ops_def HALF_OPEN_MAX_OPS_def)
  show ?thesis using 2 half_open_exhausted_stuck [OF 1 2] by (simp add: Let_def)
qed

text \<open>
  The automatic trip: the eleventh tracked error opens the breaker, but it does not record
  when. On a contract whose breaker was never opened by hand the recorded time is 0, so the very
  next operation finds the cool-down over and is let through.
\<close>

theorem auto_trip_without_cooldown:
  assumes "i_ErrorCount (inst s) = Some 10" and "i_OpenedAt (inst s) = None"
    and "COOLDOWN_SECONDS \<le> timestamp e" and "track_error e s = Ok () t"
  shows "get_state t = Open \<and> breaker_admits e t"
proof -
  have "get_state t = Open" "i_OpenedAt (inst t) = None"
    using assms(1,2,4) by (auto simp: track_error_def run_simps get_state_def)
  then show ?thesis using assms(3)
    by (simp add: breaker_admits_def opened_at_def word_le_nat_alt)
qed

theorem auto_trip_without_cooldown_witness:
  "\<exists>t. track_error (sample_ctx 30000 {})
         (upd_inst (\<lambda>i. i\<lparr>i_ErrorCount := Some 10\<rparr>) sample_st) = Ok () t
       \<and> get_state t = Open \<and> breaker_admits (sample_ctx 30000 {}) t"
proof -
  let ?s = "upd_inst (\<lambda>i. i\<lparr>i_ErrorCount := Some 10\<rparr>) sample_st"
  have 1: "i_ErrorCount (inst ?s) = Some 10" by simp
  have 2: "i_OpenedAt (inst ?s) = None" by (simp add: sample_defs)
  have 3: "COOLDOWN_SECONDS \<le> timestamp (sample_ctx 30000 {})" by (simp add: COOLDOWN_SECONDS_def)
  obtain t where 4: "track_error (sample_ctx 30000 {}) ?s = Ok () t"
    by (simp add: track_error_def run_eval)
  show ?thesis using 4 auto_trip_without_cooldown [OF 1 2 3 4] by blast
qed

end
