(* ===== verification/Fees.thy ===== *)
theory Fees
  imports Circuit_Breaker
begin

text \<open>
  \<^verbatim>\<open>fees.rs\<close>: the tiered protocol fee, the fee revenue per token, the referral rewards per referrer
  and token, and their withdrawal. The lemmas give the exact fee and its bounds, the accounting of
  every operation, and that a credit is paid out once.
\<close>

section \<open>Operations\<close>

definition BPS_DENOMINATOR :: i128 where "BPS_DENOMINATOR = 10000"
definition TIER_DENOMINATOR_BPS :: i128 where "TIER_DENOMINATOR_BPS = 10000"

definition bump_config_ttl :: "'w ctx \<Rightarrow> ConfigKey \<Rightarrow> ('w, unit) contract" where
  "bump_config_ttl e key = extend_ttl e (PConfig key) TTL_LOW_THRESHOLD TTL_HIGH_THRESHOLD"

definition get_base_fee :: "'w st \<Rightarrow> i128" where
  "get_base_fee s = (case c_BaseFee (conf s) of None \<Rightarrow> 0 | Some x \<Rightarrow> x)"

definition set_base_fee :: "'w ctx \<Rightarrow> i128 \<Rightarrow> ('w, unit) contract" where
  "set_base_fee e amount =
     thn (require_admin e)
     (thn (p_set e (PConfig K_BaseFee) (upd_conf (\<lambda>c. c\<lparr>c_BaseFee := Some amount\<rparr>)))
     (bump_config_ttl e K_BaseFee))"

definition set_fee_admin :: "'w ctx \<Rightarrow> Address \<Rightarrow> ('w, unit) contract" where
  "set_fee_admin e fee_admin =
     thn (require_admin e)
     (thn (p_set e (PConfig K_FeeAdmin) (upd_conf (\<lambda>c. c\<lparr>c_FeeAdmin := Some fee_admin\<rparr>)))
     (bump_config_ttl e K_FeeAdmin))"

definition get_fee_admin :: "'w st \<Rightarrow> Address option" where
  "get_fee_admin s = c_FeeAdmin (conf s)"

definition require_fee_withdraw_auth :: "'w ctx \<Rightarrow> ('w, unit) contract" where
  "require_fee_withdraw_auth e =
     bnd (reads get_fee_admin) (\<lambda>f.
     case f of Some fee_admin \<Rightarrow> require_auth e fee_admin | None \<Rightarrow> require_admin e)"

definition calculate_fee :: "i128 \<Rightarrow> ('w, i128) contract" where
  "calculate_fee amount =
     bnd (reads get_base_fee) (\<lambda>base_fee.
     bnd (ok_or (checked_mul_i128 amount base_fee) Overflow) (\<lambda>numerator.
     ok_or (checked_div_i128 numerator BPS_DENOMINATOR) Overflow))"

fun tier_multiplier_bps :: "MarketTier \<Rightarrow> i128" where
  "tier_multiplier_bps Basic = TIER_DENOMINATOR_BPS"
| "tier_multiplier_bps Pro = 7500"
| "tier_multiplier_bps Institutional = 5000"

definition calculate_tiered_fee_with_base :: "i128 \<Rightarrow> i128 \<Rightarrow> MarketTier \<Rightarrow> ('w, i128) contract" where
  "calculate_tiered_fee_with_base amount base_fee_bps tier =
     bnd (ok_or (Option.bind (checked_mul_i128 amount base_fee_bps)
                  (\<lambda>n. checked_mul_i128 n (tier_multiplier_bps tier))) Overflow) (\<lambda>numerator.
     ok_or (checked_div_i128 numerator (BPS_DENOMINATOR * TIER_DENOMINATOR_BPS)) Overflow)"

definition calculate_tiered_fee :: "i128 \<Rightarrow> MarketTier \<Rightarrow> ('w, i128) contract" where
  "calculate_tiered_fee amount tier =
     bnd (reads get_base_fee) (\<lambda>base_fee. calculate_tiered_fee_with_base amount base_fee tier)"

definition get_revenue :: "'w st \<Rightarrow> Address \<Rightarrow> i128" where
  "get_revenue s token = (case s_FeeRevenue (fees s) token of None \<Rightarrow> 0 | Some x \<Rightarrow> x)"

definition total_fees :: "'w st \<Rightarrow> i128" where
  "total_fees s = (case s_TotalFeesCollected (fees s) of None \<Rightarrow> 0 | Some x \<Rightarrow> x)"

definition set_revenue :: "'w ctx \<Rightarrow> Address \<Rightarrow> i128 \<Rightarrow> ('w, unit) contract" where
  "set_revenue e token x = p_set e (PFees (K_FeeRevenue token))
     (upd_fees (\<lambda>f. f\<lparr>s_FeeRevenue := (s_FeeRevenue f)(token \<mapsto> x)\<rparr>))"

definition set_total_fees :: "'w ctx \<Rightarrow> i128 \<Rightarrow> ('w, unit) contract" where
  "set_total_fees e x = p_set e (PFees K_TotalFeesCollected)
     (upd_fees (\<lambda>f. f\<lparr>s_TotalFeesCollected := Some x\<rparr>))"

definition collect_fee :: "'w ctx \<Rightarrow> Address \<Rightarrow> i128 \<Rightarrow> ('w, unit) contract" where
  "collect_fee e token amount =
     bnd (reads (\<lambda>s. get_revenue s token)) (\<lambda>total.
     bnd (ok_or (checked_add_i128 total amount) ArithmeticOverflow) (\<lambda>new_total.
     thn (set_revenue e token new_total)
     (bnd (reads total_fees) (\<lambda>overall.
     bnd (ok_or (checked_add_i128 overall amount) ArithmeticOverflow) (\<lambda>new_overall.
     thn (set_total_fees e new_overall)
     (emit_fee_collected 0 token (current_contract_address e) amount))))))"

definition withdraw_protocol_fees :: "'w ctx \<Rightarrow> Address \<Rightarrow> Address \<Rightarrow> ('w, i128) contract" where
  "withdraw_protocol_fees e token recipient =
     thn (require_fee_withdraw_auth e)
     (bnd (reads (\<lambda>s. get_revenue s token)) (\<lambda>balance.
     thn (err_if (balance = 0) InsufficientBalance)
     (thn (set_revenue e token 0)
     (thn (token_transfer e token (current_contract_address e) recipient balance)
     (thn (publish [VSym ''fees_withdrawn'', VAddr recipient] [VAddr token, VI128 balance])
     (ret balance))))))"

definition referrer_balance :: "'w st \<Rightarrow> Address \<Rightarrow> Address \<Rightarrow> i128" where
  "referrer_balance s referrer token =
     (case s_ReferrerBalance (fees s) (referrer, token) of None \<Rightarrow> 0 | Some x \<Rightarrow> x)"

definition set_referrer_balance ::
  "'w ctx \<Rightarrow> Address \<Rightarrow> Address \<Rightarrow> i128 \<Rightarrow> ('w, unit) contract" where
  "set_referrer_balance e referrer token x = p_set e (PFees (K_ReferrerBalance referrer token))
     (upd_fees (\<lambda>f. f\<lparr>s_ReferrerBalance := (s_ReferrerBalance f)((referrer, token) \<mapsto> x)\<rparr>))"

definition referral_share :: "i128 \<Rightarrow> i128 option" where
  "referral_share fee_amount =
     Option.bind (checked_mul_i128 fee_amount 10) (\<lambda>n. checked_div_i128 n 100)"

definition add_referral_reward ::
  "'w ctx \<Rightarrow> Address \<Rightarrow> Address \<Rightarrow> i128 \<Rightarrow> ('w, unit) contract" where
  "add_referral_reward e referrer token fee_amount =
     bnd (ok_or (referral_share fee_amount) Overflow) (\<lambda>reward.
     bnd (reads (\<lambda>s. referrer_balance s referrer token)) (\<lambda>balance.
     bnd (ok_or (checked_add_i128 balance reward) Overflow) (\<lambda>new_balance.
     thn (set_referrer_balance e referrer token new_balance)
     (emit_referral_reward 0 referrer reward))))"

definition reverse_referral_reward ::
  "'w ctx \<Rightarrow> Address \<Rightarrow> Address \<Rightarrow> i128 \<Rightarrow> ('w, unit) contract" where
  "reverse_referral_reward e referrer token fee_amount =
     (case referral_share fee_amount of
        None \<Rightarrow> ret ()
      | Some reward \<Rightarrow>
          if reward = 0 then ret ()
          else bnd (reads (\<lambda>s. referrer_balance s referrer token)) (\<lambda>balance.
               set_referrer_balance e referrer token (saturating_sub_i128 balance reward)))"

definition reverse_fee :: "'w ctx \<Rightarrow> Address \<Rightarrow> i128 \<Rightarrow> ('w, unit) contract" where
  "reverse_fee e token amount =
     (if amount = 0 then ret ()
      else bnd (reads (\<lambda>s. get_revenue s token)) (\<lambda>total.
           thn (set_revenue e token (saturating_sub_i128 total amount))
           (bnd (reads total_fees) (\<lambda>overall.
           set_total_fees e (saturating_sub_i128 overall amount)))))"

definition claim_referral_rewards :: "'w ctx \<Rightarrow> Address \<Rightarrow> Address \<Rightarrow> ('w, i128) contract" where
  "claim_referral_rewards e address token =
     thn (require_auth e address)
     (bnd (reads (\<lambda>s. referrer_balance s address token)) (\<lambda>balance.
     thn (err_if (balance = 0) InsufficientBalance)
     (thn (set_referrer_balance e address token 0)
     (thn (token_transfer e token (current_contract_address e) address balance)
     (thn (emit_referral_claimed 0 address balance)
     (ret balance))))))"

definition distribute_referral_fees :: "u64 \<Rightarrow> Address \<Rightarrow> ('w, unit) contract" where
  "distribute_referral_fees market_id token = emit_referral_distribution market_id token"

section \<open>Runs and views\<close>

lemma bump_config_ttl_Ok [run_simps]:
  "bump_config_ttl e k s = Ok r t \<longleftrightarrow> has_config k (conf s) \<and>
     t = s\<lparr>live_until := ext_ttl e (PConfig k) TTL_LOW_THRESHOLD TTL_HIGH_THRESHOLD s\<rparr>"
  by (simp add: bump_config_ttl_def run_simps)

lemmas fee_write_defs = set_revenue_def set_total_fees_def set_referrer_balance_def
lemmas fee_read_defs = get_revenue_def total_fees_def referrer_balance_def

lemma keeps_fee_writes [view_rules]:
  assumes "\<And>s x. v (s\<lparr>live_until := x\<rparr>) = v s" and "\<And>s x. v (s\<lparr>fees := x\<rparr>) = v s"
  shows "keeps v (set_revenue e a i)" "keeps v (set_total_fees e i)"
    "keeps v (set_referrer_balance e a b i)" "keeps v (reverse_fee e a i)"
    "keeps v (reverse_referral_reward e a b i)"
  unfolding fee_write_defs reverse_fee_def reverse_referral_reward_def
  by ((intro view_rules; simp add: assms)+)

lemma keeps_fee_credit [view_rules]:
  assumes "\<And>s x. v (s\<lparr>live_until := x\<rparr>) = v s" and "\<And>s x. v (s\<lparr>fees := x\<rparr>) = v s"
    and "\<And>s x. v (s\<lparr>log := x\<rparr>) = v s"
  shows "keeps v (collect_fee e a i)" "keeps v (add_referral_reward e a b i)"
  unfolding collect_fee_def add_referral_reward_def
  by ((intro view_rules; simp add: assms)+)

lemma keeps_require_fee_withdraw_auth [view_rules]: "keeps v (require_fee_withdraw_auth e)"
  unfolding require_fee_withdraw_auth_def by (intro view_rules)

lemma keeps_fee_payout [view_rules]:
  assumes "\<And>s x. v (s\<lparr>live_until := x\<rparr>) = v s" and "\<And>s x. v (s\<lparr>fees := x\<rparr>) = v s"
    and "\<And>s x. v (s\<lparr>log := x\<rparr>) = v s" and "\<And>s x. v (s\<lparr>world := x\<rparr>) = v s"
  shows "keeps v (withdraw_protocol_fees e a b)" "keeps v (claim_referral_rewards e a b)"
  unfolding withdraw_protocol_fees_def claim_referral_rewards_def
  by ((intro view_rules; simp add: assms)+)

lemma keeps_fee_config [view_rules]:
  assumes "\<And>s x. v (s\<lparr>live_until := x\<rparr>) = v s" and "\<And>s x. v (s\<lparr>conf := x\<rparr>) = v s"
  shows "keeps v (set_base_fee e i)" "keeps v (set_fee_admin e a)"
  unfolding set_base_fee_def set_fee_admin_def bump_config_ttl_def
  by ((intro view_rules; simp add: assms)+)

lemma keeps_calculate_fee [view_rules]:
  "keeps v (calculate_fee i)" "keeps v (calculate_tiered_fee_with_base i j tr)"
  "keeps v (calculate_tiered_fee i tr)"
  unfolding calculate_fee_def calculate_tiered_fee_with_base_def calculate_tiered_fee_def
  by (intro view_rules)+

section \<open>The fee\<close>

definition tiered_numerator :: "i128 \<Rightarrow> i128 \<Rightarrow> MarketTier \<Rightarrow> int" where
  "tiered_numerator amount base_fee_bps tier = amount * base_fee_bps * tier_multiplier_bps tier"

lemma tier_multiplier_bounds: "0 < tier_multiplier_bps tier \<and> tier_multiplier_bps tier \<le> 10000"
  by (cases tier) (simp_all add: TIER_DENOMINATOR_BPS_def)

lemma calculate_tiered_fee_with_base_eq:
  "calculate_tiered_fee_with_base amount base tier s =
     (if in_i128 (amount * base) \<and> in_i128 (tiered_numerator amount base tier)
      then Ok (tiered_numerator amount base tier sdiv 100000000) s else Err Overflow s)"
  using in_i128_div [of "tiered_numerator amount base tier" 100000000]
  by (auto simp: calculate_tiered_fee_with_base_def tiered_numerator_def checked_mul_i128_def
      checked_div_i128_def BPS_DENOMINATOR_def TIER_DENOMINATOR_BPS_def run_eval)

lemma calculate_tiered_fee_Ok [run_simps]:
  "calculate_tiered_fee amount tier s = Ok fee t \<longleftrightarrow>
     in_i128 (amount * get_base_fee s) \<and> in_i128 (tiered_numerator amount (get_base_fee s) tier) \<and>
     fee = tiered_numerator amount (get_base_fee s) tier sdiv 100000000 \<and> t = s"
  by (auto simp: calculate_tiered_fee_def run_simps calculate_tiered_fee_with_base_eq)

lemma tiered_fee_range:
  assumes "0 \<le> amount" "0 \<le> base" "base \<le> 10000"
  shows "0 \<le> tiered_numerator amount base tier sdiv 100000000"
    "tiered_numerator amount base tier sdiv 100000000 \<le> amount"
proof -
  have n: "0 \<le> tiered_numerator amount base tier"
    using assms tier_multiplier_bounds [of tier] by (simp add: tiered_numerator_def)
  have "amount * base * tier_multiplier_bps tier \<le> amount * 10000 * 10000"
    using assms tier_multiplier_bounds [of tier]
    by (intro mult_mono) (auto intro: mult_left_mono)
  then have "tiered_numerator amount base tier div 100000000 \<le> (amount * 100000000) div 100000000"
    by (intro zdiv_mono1) (simp_all add: tiered_numerator_def)
  then show "tiered_numerator amount base tier sdiv 100000000 \<le> amount"
    using n by (simp add: sdiv_nonneg)
  show "0 \<le> tiered_numerator amount base tier sdiv 100000000"
    using n by (simp add: sdiv_nonneg pos_imp_zdiv_nonneg_iff)
qed

text \<open>
  C21. The protocol fee. On a non-negative amount and a base fee between 0 and 100 percent the fee is
  the floor of \<open>amount * base * multiplier / 10^8\<close>, computed without intermediate truncation; it lies
  between 0 and the amount, a discounted tier never pays more than the basic one, and the basic fee
  is \<open>floor (amount * base / 10000)\<close>. The only error is an overflow of the numerator.
\<close>

theorem tiered_fee_exact:
  assumes "0 \<le> amount" "0 \<le> get_base_fee s" "get_base_fee s \<le> 10000"
  shows "calculate_tiered_fee amount tier s =
      (let n = amount * get_base_fee s * tier_multiplier_bps tier in
       if n < 2 ^ 127 then Ok (n div 10 ^ 8) s else Err Overflow s) \<and>
    (\<forall>fee t. calculate_tiered_fee amount tier s = Ok fee t \<longrightarrow> 0 \<le> fee \<and> fee \<le> amount) \<and>
    (\<forall>fee t fee' t'. calculate_tiered_fee amount tier s = Ok fee t \<longrightarrow>
       calculate_tiered_fee amount Basic s = Ok fee' t' \<longrightarrow>
       fee \<le> fee' \<and> fee' = (amount * get_base_fee s) div 10000)"
proof -
  let ?b = "get_base_fee s"
  have ab: "0 \<le> amount * ?b" using assms by simp
  have le: "amount * ?b \<le> tiered_numerator amount ?b tier"
    if "1 \<le> tier_multiplier_bps tier" using that ab mult_left_mono [of 1 "tier_multiplier_bps tier" "amount * ?b"]
    by (simp add: tiered_numerator_def)
  have n: "0 \<le> tiered_numerator amount ?b tr" for tr
    using ab tier_multiplier_bounds [of tr] by (simp add: tiered_numerator_def)
  have fits: "in_i128 (amount * ?b) \<and> in_i128 (tiered_numerator amount ?b tier) \<longleftrightarrow>
      tiered_numerator amount ?b tier < 2 ^ 127"
    using le n [of tier] ab tier_multiplier_bounds [of tier] by (auto simp: in_i128_def)
  have 1: "calculate_tiered_fee amount tier s =
      (let n = amount * ?b * tier_multiplier_bps tier in
       if n < 2 ^ 127 then Ok (n div 10 ^ 8) s else Err Overflow s)"
    using fits sdiv_nonneg [OF n, of 100000000]
    by (simp add: calculate_tiered_fee_def bnd_def reads_def calculate_tiered_fee_with_base_eq
        Let_def tiered_numerator_def)
  have "tiered_numerator amount ?b tier div 100000000 \<le> tiered_numerator amount ?b Basic div 100000000"
    using ab tier_multiplier_bounds [of tier]
    by (intro zdiv_mono1) (auto simp: tiered_numerator_def TIER_DENOMINATOR_BPS_def intro: mult_left_mono)
  moreover have "tiered_numerator amount ?b Basic div 100000000 = (amount * ?b) div 10000"
    by (simp add: tiered_numerator_def TIER_DENOMINATOR_BPS_def)
  ultimately have 2: "fee \<le> fee' \<and> fee' = (amount * ?b) div 10000"
    if "calculate_tiered_fee amount tier s = Ok fee t" "calculate_tiered_fee amount Basic s = Ok fee' t'"
    for fee t fee' t'
    using that n by (auto simp: calculate_tiered_fee_Ok sdiv_nonneg)
  have 3: "0 \<le> fee \<and> fee \<le> amount" if "calculate_tiered_fee amount tier s = Ok fee t" for fee t
    using that tiered_fee_range [OF assms] by (simp add: calculate_tiered_fee_Ok)
  from 1 2 3 show ?thesis by blast
qed

theorem tiered_fee_exact_witness:
  "let s = upd_conf (\<lambda>c. c\<lparr>c_BaseFee := Some 100\<rparr>) sample_st
   in get_base_fee s = 100 \<and> calculate_tiered_fee 10000 Pro s = Ok 75 s"
proof -
  let ?s = "upd_conf (\<lambda>c. c\<lparr>c_BaseFee := Some 100\<rparr>) sample_st"
  have b: "get_base_fee ?s = 100" by (simp add: get_base_fee_def)
  then have h: "0 \<le> get_base_fee ?s" "get_base_fee ?s \<le> 10000" by (simp_all only: b)
  have "calculate_tiered_fee 10000 Pro ?s =
      (let n = 10000 * get_base_fee ?s * tier_multiplier_bps Pro in
       if n < 2 ^ 127 then Ok (n div 10 ^ 8) ?s else Err Overflow ?s)"
    by (rule conjunct1 [OF tiered_fee_exact [OF _ h]]) simp
  also have "\<dots> = Ok 75 ?s" unfolding b by (simp add: Let_def)
  finally show ?thesis using b unfolding Let_def by blast
qed

section \<open>Accounting\<close>

lemma collect_fee_run:
  assumes "collect_fee e token amount s = Ok () t"
  shows "get_revenue t tk = get_revenue s tk + (if tk = token then amount else 0)"
    "total_fees t = total_fees s + amount"
    "s_ReferrerBalance (fees t) = s_ReferrerBalance (fees s)"
    "in_i128 (get_revenue s token + amount)" "in_i128 (total_fees s + amount)"
  using assms
  by (auto simp: collect_fee_def fee_write_defs fee_read_defs emit_defs run_simps)

lemma add_referral_reward_run:
  assumes "add_referral_reward e referrer token fee s = Ok () t"
  shows "referral_share fee = Some (fee * 10 sdiv 100)"
    "referrer_balance t a tk = referrer_balance s a tk
       + (if (a, tk) = (referrer, token) then fee * 10 sdiv 100 else 0)"
    "s_FeeRevenue (fees t) = s_FeeRevenue (fees s)" "total_fees t = total_fees s"
  using assms
  by (auto simp: add_referral_reward_def referral_share_def fee_write_defs fee_read_defs emit_defs
      run_simps bind_eq_Some_conv)

lemma saturate_in_range [simp]: "in_i128 x \<Longrightarrow> saturate_i128 x = x"
  by (simp add: in_i128_def saturate_i128_def)

lemma withdraw_protocol_fees_run:
  assumes "withdraw_protocol_fees e token recipient s = Ok paid t"
  shows "paid = get_revenue s token" "paid \<noteq> 0"
    "get_revenue t tk = (if tk = token then 0 else get_revenue s tk)"
    "ext_transfer e token (current_contract_address e) recipient paid (world s) = Some (world t)"
    "s_ReferrerBalance (fees t) = s_ReferrerBalance (fees s)" "conf t = conf s"
  using assms
  by (auto simp: withdraw_protocol_fees_def fee_write_defs fee_read_defs run_simps
      require_fee_withdraw_auth_def split: option.splits)

lemma claim_referral_rewards_run:
  assumes "claim_referral_rewards e address token s = Ok paid t"
  shows "address \<in> authorized e" "paid = referrer_balance s address token" "paid \<noteq> 0"
    "referrer_balance t a tk = (if (a, tk) = (address, token) then 0 else referrer_balance s a tk)"
    "ext_transfer e token (current_contract_address e) address paid (world s) = Some (world t)"
    "s_FeeRevenue (fees t) = s_FeeRevenue (fees s)"
  using assms
  by (auto simp: claim_referral_rewards_def fee_write_defs fee_read_defs emit_defs run_simps)

text \<open>
  Reversal undoes collection: collecting a fee and then reversing it (the refund path of a
  cancelled market) restores the revenue of every token and the overall total, as long as the
  revenue was in range to begin with.
\<close>

theorem reverse_fee_undoes_collect:
  assumes "collect_fee e token amount s = Ok () t" and "reverse_fee e' token amount t = Ok () u"
    and "in_i128 (get_revenue s token)" and "in_i128 (total_fees s)"
  shows "(\<forall>tk. get_revenue u tk = get_revenue s tk) \<and> total_fees u = total_fees s"
proof (cases "amount = 0")
  case True
  then show ?thesis using assms(1,2) collect_fee_run [OF assms(1)]
    by (auto simp: reverse_fee_def run_simps)
next
  case False
  have u: "get_revenue u tk = (if tk = token then saturating_sub_i128 (get_revenue t tk) amount
      else get_revenue t tk)" "total_fees u = saturating_sub_i128 (total_fees t) amount" for tk
    using assms(2) False by (auto simp: reverse_fee_def fee_write_defs fee_read_defs run_simps)
  show ?thesis
    using u collect_fee_run [OF assms(1)] assms(3,4) by (auto simp: saturating_sub_i128_def)
qed

theorem reverse_fee_undoes_collect_witness:
  "\<exists>t u. collect_fee (sample_ctx 0 {}) (Addr 5) 7 sample_st = Ok () t
     \<and> reverse_fee (sample_ctx 0 {}) (Addr 5) 7 t = Ok () u
     \<and> get_revenue t (Addr 5) = 7 \<and> get_revenue u (Addr 5) = get_revenue sample_st (Addr 5)"
proof -
  have z: "get_revenue sample_st (Addr 5) = 0" "total_fees sample_st = 0"
    by (simp_all add: fee_read_defs sample_defs)
  obtain t where 1: "collect_fee (sample_ctx 0 {}) (Addr 5) 7 sample_st = Ok () t"
    using z by (simp add: collect_fee_def fee_write_defs run_eval checked_add_i128_def in_i128_def
        fee_read_defs sample_defs)
  obtain u where 2: "reverse_fee (sample_ctx 0 {}) (Addr 5) 7 t = Ok () u"
    by (simp add: reverse_fee_def fee_write_defs run_eval)
  have "get_revenue u (Addr 5) = get_revenue sample_st (Addr 5)"
    using reverse_fee_undoes_collect [OF 1 2] z by (simp add: in_i128_def)
  moreover have "get_revenue t (Addr 5) = 7" using collect_fee_run(1) [OF 1] z by simp
  ultimately show ?thesis using 1 2 by blast
qed

text \<open>
  Protocol fees are paid out once: a withdrawal pays exactly the recorded revenue of the token
  to the recipient, leaves the revenue of every other token alone, and a second withdrawal of the
  same token right after it, by any caller that is allowed to, fails with InsufficientBalance.
\<close>

theorem withdraw_protocol_fees_once:
  assumes "withdraw_protocol_fees e token recipient s = Ok paid t"
  shows "paid = get_revenue s token \<and> get_revenue t token = 0 \<and>
    (\<forall>tk. tk \<noteq> token \<longrightarrow> get_revenue t tk = get_revenue s tk) \<and>
    ext_transfer e token (current_contract_address e) recipient paid (world s) = Some (world t) \<and>
    withdraw_protocol_fees e token recipient' t = Err InsufficientBalance t"
proof -
  note run = withdraw_protocol_fees_run [OF assms]
  have "require_fee_withdraw_auth e s = Ok () s"
    using assms by (auto simp: withdraw_protocol_fees_def require_fee_withdraw_auth_def run_simps
        split: option.splits)
  then have "require_fee_withdraw_auth e t = Ok () t"
    using run(6) by (auto simp: require_fee_withdraw_auth_def get_fee_admin_def run_simps
        bnd_Ok split: option.splits)
  moreover have "get_revenue t token = 0" using run(3) by simp
  ultimately have "withdraw_protocol_fees e token recipient' t = Err InsufficientBalance t"
    by (simp add: withdraw_protocol_fees_def thn_def bnd_def reads_def err_if_def)
  with run show ?thesis by simp
qed

theorem withdraw_protocol_fees_once_witness:
  "\<exists>t. withdraw_protocol_fees (sample_ctx 0 {Addr 1}) (Addr 5) (Addr 7)
         (upd_fees (\<lambda>f. f\<lparr>s_FeeRevenue := [Addr 5 \<mapsto> 40]\<rparr>) sample_st) = Ok 40 t
     \<and> withdraw_protocol_fees (sample_ctx 0 {Addr 1}) (Addr 5) (Addr 8) t = Err InsufficientBalance t"
proof -
  let ?s = "upd_fees (\<lambda>f. f\<lparr>s_FeeRevenue := [Addr 5 \<mapsto> 40]\<rparr>) sample_st"
  obtain t where 1: "withdraw_protocol_fees (sample_ctx 0 {Addr 1}) (Addr 5) (Addr 7) ?s = Ok 40 t"
    by (simp add: withdraw_protocol_fees_def require_fee_withdraw_auth_def get_fee_admin_def
        fee_write_defs fee_read_defs run_eval sample_defs)
  show ?thesis using 1 withdraw_protocol_fees_once [OF 1, of "Addr 8"] by blast
qed

text \<open>
  Referral rewards: a claim needs the referrer's own authorisation, pays exactly the balance
  recorded for that referrer and token, leaves every other balance alone, and cannot be repeated.
\<close>

theorem claim_referral_rewards_once:
  assumes "claim_referral_rewards e address token s = Ok paid t"
  shows "address \<in> authorized e \<and> paid = referrer_balance s address token \<and>
    (\<forall>a tk. (a, tk) \<noteq> (address, token) \<longrightarrow> referrer_balance t a tk = referrer_balance s a tk) \<and>
    ext_transfer e token (current_contract_address e) address paid (world s) = Some (world t) \<and>
    claim_referral_rewards e address token t = Err InsufficientBalance t"
proof -
  note run = claim_referral_rewards_run [OF assms]
  have "referrer_balance t address token = 0" using run(4) by simp
  then have "claim_referral_rewards e address token t = Err InsufficientBalance t"
    using run(1) by (simp add: claim_referral_rewards_def thn_def bnd_def reads_def err_if_def
        require_auth_def)
  with run show ?thesis by simp
qed

theorem claim_referral_rewards_once_witness:
  "\<exists>t. claim_referral_rewards (sample_ctx 0 {Addr 3}) (Addr 3) (Addr 5)
         (upd_fees (\<lambda>f. f\<lparr>s_ReferrerBalance := [(Addr 3, Addr 5) \<mapsto> 9]\<rparr>) sample_st) = Ok 9 t
     \<and> claim_referral_rewards (sample_ctx 0 {Addr 3}) (Addr 3) (Addr 5) t = Err InsufficientBalance t"
proof -
  let ?s = "upd_fees (\<lambda>f. f\<lparr>s_ReferrerBalance := [(Addr 3, Addr 5) \<mapsto> 9]\<rparr>) sample_st"
  obtain t where 1: "claim_referral_rewards (sample_ctx 0 {Addr 3}) (Addr 3) (Addr 5) ?s = Ok 9 t"
    by (simp add: claim_referral_rewards_def fee_write_defs fee_read_defs run_eval sample_defs)
  show ?thesis using 1 claim_referral_rewards_once [OF 1] by blast
qed

end
