(* ===== verification/Market_Store.thy ===== *)
theory Market_Store
  imports Fees
begin

text \<open>
  The market records of \<^verbatim>\<open>markets.rs\<close> as the other modules use them: lookup, update with the status
  index kept in step, per-outcome stakes and bettor counts; and \<^verbatim>\<open>sac.rs\<close>, the guarded token transfers.
  The interface \<open>record_store\<close> is what the resolution, dispute, cancellation, voting and betting
  modules need to know about the records.
\<close>

section \<open>Market records (markets.rs)\<close>

definition has_status_index :: "'w st \<Rightarrow> u64 \<Rightarrow> MarketStatus \<Rightarrow> bool" where
  "has_status_index s market_id status = has_key (PMarkets (K_StatusIndex market_id status)) s"

definition remove_status :: "u64 \<Rightarrow> MarketStatus \<Rightarrow> ('w, unit) contract" where
  "remove_status market_id status = p_remove (PMarkets (K_StatusIndex market_id status))
     (upd_mkts (\<lambda>k. k\<lparr>s_StatusIndex := (s_StatusIndex k)((market_id, status) := None)\<rparr>))"

definition set_status :: "'w ctx \<Rightarrow> u64 \<Rightarrow> MarketStatus \<Rightarrow> ('w, unit) contract" where
  "set_status e market_id status = p_set e (PMarkets (K_StatusIndex market_id status))
     (upd_mkts (\<lambda>k. k\<lparr>s_StatusIndex := (s_StatusIndex k)((market_id, status) \<mapsto> True)\<rparr>))"

definition update_status_index ::
  "'w ctx \<Rightarrow> u64 \<Rightarrow> MarketStatus \<Rightarrow> MarketStatus \<Rightarrow> ('w, unit) contract" where
  "update_status_index e market_id old_status new_status =
     thn (doif (old_status \<noteq> new_status) (remove_status market_id old_status))
     (set_status e market_id new_status)"

definition get_market :: "'w st \<Rightarrow> u64 \<Rightarrow> Market option" where
  "get_market s market_id = s_Market (mkts s) market_id"

definition set_market :: "'w ctx \<Rightarrow> u64 \<Rightarrow> Market \<Rightarrow> ('w, unit) contract" where
  "set_market e market_id market = p_set e (PMarkets (K_Market market_id))
     (upd_mkts (\<lambda>k. k\<lparr>s_Market := (s_Market k)(market_id \<mapsto> market)\<rparr>))"

definition update_market :: "'w ctx \<Rightarrow> Market \<Rightarrow> ('w, unit) contract" where
  "update_market e market =
     bnd (reads (\<lambda>s. get_market s (m_id market))) (\<lambda>old.
     thn (case old of
            Some om \<Rightarrow> update_status_index e (m_id market) (m_status om) (m_status market)
          | None \<Rightarrow> ret ())
     (set_market e (m_id market) market))"

definition get_outcome_stake :: "Market \<Rightarrow> u32 \<Rightarrow> i128" where
  "get_outcome_stake market outcome =
     (case omap_get (m_outcome_stakes market) outcome of None \<Rightarrow> 0 | Some x \<Rightarrow> x)"

definition set_outcome_stake :: "Market \<Rightarrow> u32 \<Rightarrow> i128 \<Rightarrow> Market" where
  "set_outcome_stake market outcome amount =
     market\<lparr>m_outcome_stakes := omap_set (m_outcome_stakes market) outcome amount\<rparr>"

definition increment_outcome_bet_count :: "Market \<Rightarrow> u32 \<Rightarrow> ('w, Market) contract" where
  "increment_outcome_bet_count market outcome =
     (let current_count = (case omap_get (m_winner_counts market) outcome of None \<Rightarrow> 0 | Some n \<Rightarrow> n) in
      bnd (add_word current_count 1) (\<lambda>n.
      ret (market\<lparr>m_winner_counts := omap_set (m_winner_counts market) outcome n\<rparr>)))"

definition bump_market_ttl :: "'w ctx \<Rightarrow> u64 \<Rightarrow> ('w, unit) contract" where
  "bump_market_ttl e market_id =
     extend_ttl e (PMarkets (K_Market market_id)) TTL_LOW_THRESHOLD TTL_HIGH_THRESHOLD"

section \<open>Token transfers (sac.rs)\<close>

definition safe_transfer ::
  "'w ctx \<Rightarrow> Address \<Rightarrow> Address \<Rightarrow> Address \<Rightarrow> i128 \<Rightarrow> ('w, unit) contract" where
  "safe_transfer e token_address from to amount =
     bnd (reads (\<lambda>s. ext_transfer e token_address from to amount (world s))) (\<lambda>r.
     case r of
       Some w \<Rightarrow> modify (\<lambda>s. s\<lparr>world := w\<rparr>)
     | None \<Rightarrow>
         thn (publish [VSym ''xfer_fail'', VAddr from, VAddr to] [VAddr token_address, VI128 amount])
         (thn (track_error e) (fail TransferFailed)))"

definition check_token_not_frozen :: "'w ctx \<Rightarrow> Address \<Rightarrow> Address \<Rightarrow> ('w, unit) contract" where
  "check_token_not_frozen e token_address user =
     bnd (reads (\<lambda>s. ext_frozen e token_address user (world s))) (\<lambda>r.
     case r of
       Some is_frozen \<Rightarrow>
         if is_frozen
         then thn (publish [VSym ''token_frz'', VAddr token_address, VAddr user] []) (fail TokenFrozen)
         else ret ()
     | None \<Rightarrow> ret ())"

definition verify_contract_not_frozen :: "'w ctx \<Rightarrow> Address \<Rightarrow> ('w, unit) contract" where
  "verify_contract_not_frozen e token_address =
     bnd (reads (\<lambda>s. ext_authorized e token_address (current_contract_address e) (world s))) (\<lambda>r.
     case r of
       Some is_authorized \<Rightarrow>
         if is_authorized then ret ()
         else thn (publish [VSym ''ctr_frz'', VAddr token_address] []) (fail TokenFrozen)
     | None \<Rightarrow> ret ())"

definition detect_clawback :: "'w ctx \<Rightarrow> Address \<Rightarrow> i128 \<Rightarrow> ('w, unit) contract" where
  "detect_clawback e token_address expected_balance =
     bnd (token_balance e token_address (current_contract_address e)) (\<lambda>actual_balance.
     err_if (actual_balance < expected_balance) AssetClawedBack)"

section \<open>Runs and views\<close>

lemma safe_transfer_Ok [run_simps]:
  "safe_transfer e token from to amount s = Ok r t \<longleftrightarrow>
     (\<exists>w. ext_transfer e token from to amount (world s) = Some w \<and> t = s\<lparr>world := w\<rparr>)"
  by (auto simp: safe_transfer_def run_simps split: option.splits)

lemma check_token_not_frozen_Ok [run_simps]:
  "check_token_not_frozen e token user s = Ok r t \<longleftrightarrow>
     ext_frozen e token user (world s) \<noteq> Some True \<and> t = s"
  by (auto simp: check_token_not_frozen_def run_simps split: option.splits if_splits)

lemma keeps_safe_transfer [view_rules]:
  "(\<And>s x. v (s\<lparr>world := x\<rparr>) = v s) \<Longrightarrow> keeps v (safe_transfer e token from to amount)"
  by (auto simp: keeps_def safe_transfer_Ok)

lemma keeps_check_token_not_frozen [view_rules]: "keeps v (check_token_not_frozen e token user)"
  by (auto simp: keeps_def check_token_not_frozen_Ok)

lemma bump_market_ttl_Ok [run_simps]:
  "bump_market_ttl e i s = Ok r t \<longleftrightarrow> s_Market (mkts s) i \<noteq> None \<and>
     t = s\<lparr>live_until := ext_ttl e (PMarkets (K_Market i)) TTL_LOW_THRESHOLD TTL_HIGH_THRESHOLD s\<rparr>"
  by (simp add: bump_market_ttl_def run_simps)

lemma increment_outcome_bet_count_Ok [run_simps]:
  "increment_outcome_bet_count m k s = Ok r t \<longleftrightarrow>
     (let n = (case omap_get (m_winner_counts m) k of None \<Rightarrow> 0 | Some n \<Rightarrow> n) in
      unat n + 1 < 2 ^ 32 \<and> t = s \<and>
      r = m\<lparr>m_winner_counts := omap_set (m_winner_counts m) k (n + 1)\<rparr>)"
  by (auto simp: increment_outcome_bet_count_def Let_def run_simps)

lemmas market_write_defs = remove_status_def set_status_def update_status_index_def set_market_def

lemma keeps_market_writes [view_rules]:
  assumes "\<And>s x. v (s\<lparr>live_until := x\<rparr>) = v s" and "\<And>s x. v (s\<lparr>mkts := x\<rparr>) = v s"
  shows "keeps v (remove_status i sa)" "keeps v (set_status e i sa)"
    "keeps v (update_status_index e i sa sb)" "keeps v (set_market e i m)"
    "keeps v (update_market e m)"
  unfolding market_write_defs update_market_def
  by ((intro view_rules; simp add: assms)+)

text \<open>What an update does to the market store: one record and the index entries of its market.\<close>

definition put_market :: "Market \<Rightarrow> market_store \<Rightarrow> market_store" where
  "put_market m k = k\<lparr>s_Market := (s_Market k)(m_id m \<mapsto> m),
     s_StatusIndex := (case s_Market k (m_id m) of
        None \<Rightarrow> s_StatusIndex k
      | Some om \<Rightarrow> ((s_StatusIndex k)((m_id m, m_status om) := None))((m_id m, m_status m) \<mapsto> True))\<rparr>"

lemma update_market_run: "update_market e m s = Ok r t \<Longrightarrow> mkts t = put_market m (mkts s)"
  by (cases "s_Market (mkts s) (m_id m)")
     (auto simp: update_market_def get_market_def market_write_defs run_simps put_market_def)

lemma update_market_total: "\<exists>t. update_market e m s = Ok () t"
  by (cases "s_Market (mkts s) (m_id m)")
     (auto simp: update_market_def get_market_def market_write_defs run_eval)

lemma put_market_sel [simp]:
  "s_Market (put_market m k) = (s_Market k)(m_id m \<mapsto> m)"
  "s_MarketDisputeWindow (put_market m k) = s_MarketDisputeWindow k"
  "s_CreatorReputation (put_market m k) = s_CreatorReputation k"
  by (simp_all add: put_market_def)

section \<open>The interface of a record store\<close>

text \<open>
  A store of records that carry their own key: what a read returns after a write, and that a write
  never fails. The lemmas proved from it are the ones the modules rely on when they load a record,
  change some fields and write it back.
\<close>

locale record_store =
  fixes load :: "'s \<Rightarrow> 'k \<Rightarrow> 'v option"
    and save :: "'v \<Rightarrow> ('s, 'e, unit) comp"
    and key :: "'v \<Rightarrow> 'k"
  assumes load_save: "save v s = Ok () t \<Longrightarrow> load t k = (if k = key v then Some v else load s k)"
    and save_total: "\<exists>t. save v s = Ok () t"
begin

lemma saved: "save v s = Ok () t \<Longrightarrow> load t (key v) = Some v"
  by (simp add: load_save)

lemma other_kept: "save v s = Ok () t \<Longrightarrow> k \<noteq> key v \<Longrightarrow> load t k = load s k"
  by (simp add: load_save)

lemma last_write_wins:
  "save v s = Ok () t \<Longrightarrow> save w t = Ok () u \<Longrightarrow> key w = key v \<Longrightarrow>
     load u k = (if k = key v then Some w else load s k)"
  by (simp add: load_save)

text \<open>Loading, changing and saving one record keeps a property of all records.\<close>

lemma rewrite_all:
  assumes "load s k = Some v" and "key v' = key v" and "save v' s = Ok () t"
    and "\<And>k v. load s k = Some v \<Longrightarrow> key v = k \<and> P v" and "P v'"
    and "load t i = Some w"
  shows "key w = i \<and> P w"
  using assms by (auto simp: load_save split: if_splits)

end

interpretation mstore: record_store get_market "update_market e" m_id for e
  by unfold_locales (auto simp: get_market_def update_market_total dest!: update_market_run)

end
