(* ===== verification/Oracles.thy ===== *)
theory Oracles
  imports Market_Store
begin

text \<open>
  \<^verbatim>\<open>oracles.rs\<close>: decoding of feed identifiers, fetching and validating a Pyth price, the stored oracle
  results with their staleness check, and the consensus over several oracle responses. The price
  feed contract itself (\<^verbatim>\<open>pyth_client.rs\<close>) is the parameter \<open>ext_get_price\<close> of the context.
\<close>

unbundle bit_operations_syntax

section \<open>Operations\<close>

definition MAX_STALENESS :: u64 where "MAX_STALENESS = 60"
definition MAX_STALENESS_SECONDS :: u64 where "MAX_STALENESS_SECONDS = MAX_STALENESS"

record PythPrice =
  pp_price :: i64
  pp_conf :: u64
  pp_expo :: i32
  pp_publish_time :: i64

definition hex_char :: "u8 \<Rightarrow> ('w, u8) contract" where
  "hex_char c =
     (if 48 \<le> c \<and> c \<le> 57 then ret (c - 48)
      else if 97 \<le> c \<and> c \<le> 102 then ret (c - 97 + 10)
      else if 65 \<le> c \<and> c \<le> 70 then ret (c - 65 + 10)
      else fail OracleFailure)"

primrec decode_loop :: "u8 list \<Rightarrow> nat list \<Rightarrow> ('w, Hash) contract" where
  "decode_loop bytes [] = ret []"
| "decode_loop bytes (i # is) =
     bnd (ok_or (nth_opt bytes (i * 2)) OracleFailure) (\<lambda>a.
     bnd (hex_char a) (\<lambda>hi.
     bnd (ok_or (nth_opt bytes (i * 2 + 1)) OracleFailure) (\<lambda>b.
     bnd (hex_char b) (\<lambda>lo.
     bnd (decode_loop bytes is) (\<lambda>rest.
     ret ((push_bit 4 hi OR lo) # rest))))))"

definition decode_feed_id :: "string \<Rightarrow> ('w, Hash) contract" where
  "decode_feed_id feed_id =
     thn (err_if (length feed_id \<noteq> 64) OracleFailure)
     (decode_loop (map of_char feed_id) [0..<32])"

definition fetch_pyth_price :: "'w ctx \<Rightarrow> OracleConfig \<Rightarrow> ('w, PythPrice) contract" where
  "fetch_pyth_price e config =
     bnd (decode_feed_id (oc_feed_id config)) (\<lambda>feed_id.
     bnd (reads (\<lambda>s. ext_get_price e (oc_oracle_address config) feed_id (world s))) (\<lambda>r.
     bnd (some_or_trap r) (\<lambda>(price, cf, expo, publish_time).
     ret \<lparr>pp_price = price, pp_conf = cf, pp_expo = expo, pp_publish_time = publish_time\<rparr>)))"

definition cast_external_timestamp :: "i64 \<Rightarrow> ('w, u64) contract" where
  "cast_external_timestamp ts = (if ts < 0 then fail InvalidTimestamp else ret (word_of_int ts))"

definition is_stale :: "u64 \<Rightarrow> u64 \<Rightarrow> u64 \<Rightarrow> bool" where
  "is_stale current_time result_time max_staleness_seconds =
     (max_staleness_seconds < saturating_sub_u64 current_time result_time)"

definition effective_max_staleness :: "OracleConfig \<Rightarrow> u64" where
  "effective_max_staleness config =
     (if oc_max_staleness_seconds config < MAX_STALENESS_SECONDS
      then oc_max_staleness_seconds config else MAX_STALENESS_SECONDS)"

definition abs_price_to_u64 :: "i64 \<Rightarrow> u64" where
  "abs_price_to_u64 price =
     (if price = - (2 ^ 63) then word_of_int (2 ^ 63 - 1)
      else if price < 0 then word_of_int (- price)
      else word_of_int price)"

definition validate_price :: "'w ctx \<Rightarrow> PythPrice \<Rightarrow> OracleConfig \<Rightarrow> ('w, unit) contract" where
  "validate_price e price config =
     bnd (cast_external_timestamp (pp_publish_time price)) (\<lambda>publish_time.
     thn (err_if (is_stale (timestamp e) publish_time (effective_max_staleness config)) StalePrice)
     (let price_abs = abs_price_to_u64 (pp_price price);
          max_conf = saturating_mul_u64 price_abs (oc_max_confidence_bps config) div 10000
      in err_if (max_conf < pp_conf price) ConfidenceTooLow))"

definition num_oracles :: "OracleConfig \<Rightarrow> u32" where
  "num_oracles config = (case oc_min_responses config of None \<Rightarrow> 1 | Some n \<Rightarrow> n)"

primrec staleness_loop ::
  "'w ctx \<Rightarrow> u64 \<Rightarrow> u64 \<Rightarrow> nat list \<Rightarrow> bool \<Rightarrow> ('w, bool) contract" where
  "staleness_loop e market_id max_staleness [] any_found = ret any_found"
| "staleness_loop e market_id max_staleness (idx # is) any_found =
     bnd (reads (\<lambda>s. s_LastUpdate (orcs s) (market_id, of_nat idx))) (\<lambda>last_update.
     case last_update of
       Some update_time \<Rightarrow>
         if max_staleness < saturating_sub_u64 (timestamp e) update_time
         then thn (track_error e) (fail StalePrice)
         else staleness_loop e market_id max_staleness is True
     | None \<Rightarrow> staleness_loop e market_id max_staleness is any_found)"

definition validate_oracle_staleness :: "'w ctx \<Rightarrow> u64 \<Rightarrow> OracleConfig \<Rightarrow> ('w, unit) contract" where
  "validate_oracle_staleness e market_id config =
     bnd (staleness_loop e market_id (effective_max_staleness config)
            [0..<unat (num_oracles config)] False) (\<lambda>any_found.
     if any_found then ret () else thn (track_error e) (fail OracleFailure))"

definition determine_outcome :: "PythPrice \<Rightarrow> OracleConfig \<Rightarrow> u32" where
  "determine_outcome price config =
     (let threshold = (case oc_strike_price config of None \<Rightarrow> 0 | Some p \<Rightarrow> p) in
      if threshold \<le> pp_price price then 0 else 1)"

definition set_result :: "'w ctx \<Rightarrow> u64 \<Rightarrow> u32 \<Rightarrow> u32 \<Rightarrow> ('w, unit) contract" where
  "set_result e market_id oracle_id outcome = p_set e (POracles (K_Result market_id oracle_id))
     (upd_orcs (\<lambda>k. k\<lparr>s_Result := (s_Result k)((market_id, oracle_id) \<mapsto> outcome)\<rparr>))"

definition set_last_update :: "'w ctx \<Rightarrow> u64 \<Rightarrow> u32 \<Rightarrow> u64 \<Rightarrow> ('w, unit) contract" where
  "set_last_update e market_id oracle_id at = p_set e (POracles (K_LastUpdate market_id (ucast oracle_id)))
     (upd_orcs (\<lambda>k. k\<lparr>s_LastUpdate := (s_LastUpdate k)((market_id, ucast oracle_id) \<mapsto> at)\<rparr>))"

definition resolve_with_pyth :: "'w ctx \<Rightarrow> u64 \<Rightarrow> u32 \<Rightarrow> OracleConfig \<Rightarrow> ('w, u32) contract" where
  "resolve_with_pyth e market_id oracle_id config =
     bnd (fetch_pyth_price e config) (\<lambda>price.
     thn (validate_price e price config)
     (let outcome = determine_outcome price config in
      bnd (cast_external_timestamp (pp_publish_time price)) (\<lambda>publish_time.
      thn (set_result e market_id oracle_id outcome)
      (thn (set_last_update e market_id oracle_id publish_time)
      (thn (publish [VSym ''oracle_ok'', VU64 market_id, VAddr (oc_oracle_address config)]
                    [VU32 outcome, VI64 (pp_price price), VU64 (pp_conf price)])
      (ret outcome))))))"

definition get_oracle_result :: "'w st \<Rightarrow> u64 \<Rightarrow> u32 \<Rightarrow> u32 option" where
  "get_oracle_result s market_id oracle_id = s_Result (orcs s) (market_id, oracle_id)"

definition get_last_update :: "'w st \<Rightarrow> u64 \<Rightarrow> u32 \<Rightarrow> u64 option" where
  "get_last_update s market_id oracle_id = s_LastUpdate (orcs s) (market_id, ucast oracle_id)"

definition set_oracle_result :: "'w ctx \<Rightarrow> u64 \<Rightarrow> u32 \<Rightarrow> u32 \<Rightarrow> ('w, unit) contract" where
  "set_oracle_result e market_id oracle_id outcome =
     thn (set_result e market_id oracle_id outcome)
     (thn (set_last_update e market_id oracle_id (timestamp e))
     (bnd (reads (\<lambda>s. get_market s market_id)) (\<lambda>m.
      let oracle_addr = (case m of None \<Rightarrow> current_contract_address e
                                 | Some market \<Rightarrow> oc_oracle_address (m_oracle_config market))
      in emit_oracle_result_set market_id oracle_id oracle_addr outcome)))"

definition verify_oracle_health :: "OracleConfig \<Rightarrow> ('w, bool) contract" where
  "verify_oracle_health config = reads (is_ok (decode_feed_id (oc_feed_id config)))"

definition validate_oracle_config :: "OracleConfig \<Rightarrow> ('w, unit) contract" where
  "validate_oracle_config config =
     bnd (verify_oracle_health config) (\<lambda>healthy. err_if (\<not> healthy) OracleFailure)"

definition record_oracle_response :: "'w ctx \<Rightarrow> u64 \<Rightarrow> u32 \<Rightarrow> u32 \<Rightarrow> ('w, unit) contract" where
  "record_oracle_response e market_id oracle_index outcome =
     bnd (reads (\<lambda>s. case s_OracleResponses (orcs s) market_id of None \<Rightarrow> [] | Some m \<Rightarrow> m)) (\<lambda>responses.
     p_set e (POracles (K_OracleResponses market_id))
       (upd_orcs (\<lambda>k. k\<lparr>s_OracleResponses :=
          (s_OracleResponses k)(market_id \<mapsto> omap_set responses oracle_index outcome)\<rparr>)))"

primrec count_votes :: "(u32 \<times> u32) list \<Rightarrow> (u32, u32) omap \<Rightarrow> ('w, (u32, u32) omap) contract" where
  "count_votes [] outcome_votes = ret outcome_votes"
| "count_votes (p # ps) outcome_votes =
     (let outcome = snd p;
          votes = (case omap_get outcome_votes outcome of None \<Rightarrow> 0 | Some n \<Rightarrow> n)
      in bnd (add_word votes 1) (\<lambda>votes'. count_votes ps (omap_set outcome_votes outcome votes')))"

definition validate_consensus :: "u64 \<Rightarrow> OracleConfig \<Rightarrow> ('w, u32) contract" where
  "validate_consensus market_id config =
     (let min_responses = (case oc_min_responses config of None \<Rightarrow> 1 | Some n \<Rightarrow> n) in
      bnd (reads (\<lambda>s. s_OracleResponses (orcs s) market_id)) (\<lambda>r.
      bnd (ok_or r OracleFailure) (\<lambda>responses.
      thn (err_if (length responses < unat min_responses) OracleFailure)
      (bnd (count_votes responses []) (\<lambda>outcome_votes.
      ok_or (fst (argmax_loop Some outcome_votes None 0)) OracleFailure)))))"

section \<open>Runs and views\<close>

lemma keeps_hex_char [view_rules]: "keeps v (hex_char c)"
  unfolding hex_char_def by (intro view_rules)

lemma keeps_decode [view_rules]: "keeps v (decode_loop bs is)" "keeps v (decode_feed_id f)"
proof -
  show l: "keeps v (decode_loop bs is)" for bs "is" by (induction "is") (auto intro!: view_rules)
  show "keeps v (decode_feed_id f)" unfolding decode_feed_id_def by (intro view_rules l)
qed

lemma keeps_staleness [view_rules]:
  assumes "\<And>s x. v (s\<lparr>log := x\<rparr>) = v s" and "\<And>s x. v (s\<lparr>inst := x\<rparr>) = v s"
  shows "keeps v (staleness_loop e i m js b)" "keeps v (validate_oracle_staleness e i c)"
proof -
  show l: "keeps v (staleness_loop e i m js b)" for js m b
    by (induction js arbitrary: b) (auto intro!: view_rules simp: assms)
  show "keeps v (validate_oracle_staleness e i c)"
    unfolding validate_oracle_staleness_def by (intro view_rules l; simp add: assms)
qed

lemma keeps_set_oracle_result [view_rules]:
  assumes "\<And>s x. v (s\<lparr>log := x\<rparr>) = v s" and "\<And>s x. v (s\<lparr>orcs := x\<rparr>) = v s"
    and "\<And>s x. v (s\<lparr>live_until := x\<rparr>) = v s"
  shows "keeps v (set_oracle_result e i k out)"
  unfolding set_oracle_result_def set_result_def set_last_update_def
  by (intro view_rules; simp add: assms)+

lemma staleness_loop_Ok:
  "staleness_loop e i m js b s = Ok r t \<longleftrightarrow> t = s \<and>
     (\<forall>j \<in> set js. \<forall>u. s_LastUpdate (orcs s) (i, of_nat j) = Some u \<longrightarrow> \<not> is_stale (timestamp e) u m) \<and>
     r = (b \<or> (\<exists>j \<in> set js. s_LastUpdate (orcs s) (i, of_nat j) \<noteq> None))"
proof (induction js arbitrary: b)
  case (Cons j js)
  show ?case
  proof (cases "s_LastUpdate (orcs s) (i, of_nat j)")
    case None
    then show ?thesis using Cons by (auto simp: run_simps)
  next
    case (Some u)
    then show ?thesis using Cons [of True] by (auto simp: run_simps is_stale_def)
  qed
qed (auto simp: run_simps)

lemma validate_oracle_staleness_Ok [run_simps]:
  "validate_oracle_staleness e i c s = Ok r t \<longleftrightarrow> t = s \<and>
     (\<forall>j < unat (num_oracles c). \<forall>u. s_LastUpdate (orcs s) (i, of_nat j) = Some u \<longrightarrow>
        \<not> is_stale (timestamp e) u (effective_max_staleness c)) \<and>
     (\<exists>j < unat (num_oracles c). s_LastUpdate (orcs s) (i, of_nat j) \<noteq> None)"
  by (auto simp: validate_oracle_staleness_def staleness_loop_Ok run_simps)

section \<open>Feed identifiers\<close>

text \<open>The textual form of a feed identifier: two lower-case hexadecimal digits per byte.\<close>

definition hex_digit :: "u8 \<Rightarrow> u8" where
  "hex_digit n = (if n < 10 then 48 + n else 97 + (n - 10))"

definition byte_char :: "u8 \<Rightarrow> char" where
  "byte_char b = char_of (unat b)"

definition encode_feed_id :: "Hash \<Rightarrow> string" where
  "encode_feed_id h = concat (map (\<lambda>b. [byte_char (hex_digit (drop_bit 4 b)), byte_char (hex_digit (b AND 15))]) h)"

lemma of_byte_char [simp]: "of_char (byte_char b) = (b :: u8)"
proof -
  have "unat b < 2 ^ LENGTH(8)" by (rule unsigned_less)
  then have "of_char (byte_char b) = unat b" by (simp add: byte_char_def)
  then have "of_nat (of_char (byte_char b)) = (of_nat (unat b) :: u8)" by simp
  then show ?thesis unfolding of_nat_of_char by simp
qed

lemma unat_low_digit: "n < (10 :: u8) \<Longrightarrow> unat (48 + n) = 48 + unat n"
  by (subst unat_add_no_overflow) (simp_all add: word_less_nat_alt)

lemma unat_high_digit: "n < (16 :: u8) \<Longrightarrow> \<not> n < 10 \<Longrightarrow> unat (97 + (n - 10)) = 87 + unat n"
  by (subst unat_add_no_overflow) (simp_all add: word_less_nat_alt unat_sub word_le_nat_alt not_less)

lemma hex_char_digit: "n < 16 \<Longrightarrow> hex_char (hex_digit n) s = Ok n s"
proof (cases "n < 10")
  case True
  with unat_low_digit have "48 \<le> 48 + n" "48 + n \<le> 57"
    by (simp_all add: word_le_nat_alt word_less_nat_alt)
  with True show ?thesis by (simp add: hex_char_def hex_digit_def ret_def)
next
  case False
  assume "n < 16"
  with False unat_high_digit have u: "unat (97 + (n - 10)) = 87 + unat n" "10 \<le> unat n" "unat n < 16"
    by (simp_all add: word_le_nat_alt word_less_nat_alt)
  have "\<not> 97 + (n - 10) \<le> 57" "97 \<le> 97 + (n - 10)" "97 + (n - 10) \<le> 102"
    unfolding word_le_nat_alt u(1) using u(2,3) by simp_all
  then have "hex_char (97 + (n - 10)) s = Ok n s"
    unfolding hex_char_def by (simp only: simp_thms if_False if_True ret_def) simp
  with False show ?thesis by (simp only: hex_digit_def if_False)
qed

lemma byte_split: "push_bit 4 (drop_bit 4 b) OR (b AND 15) = (b :: u8)"
proof -
  have "(15 :: u8) = mask 4" by (simp add: mask_eq_exp_minus_1)
  then have "b AND 15 = take_bit 4 b" by (simp add: take_bit_eq_mask)
  then show ?thesis by (auto simp: bit_eq_iff bit_simps)
qed

lemma drop_bit_4_less: "drop_bit 4 (b :: u8) < 16"
proof -
  have "unat b < 2 ^ LENGTH(8)" by (rule unsigned_less)
  then show ?thesis by (simp add: word_less_nat_alt drop_bit_eq_div unat_div)
qed

lemma and_15_less: "(b :: u8) AND 15 < 16"
proof -
  have "b AND 15 \<le> 15" by (rule word_and_le1)
  then show ?thesis by (simp add: word_le_nat_alt word_less_nat_alt)
qed

lemma nth_encode:
  "i < length h \<Longrightarrow> nth_opt (map of_char (encode_feed_id h)) (i * 2) = Some (hex_digit (drop_bit 4 (h ! i)))
     \<and> nth_opt (map of_char (encode_feed_id h)) (i * 2 + 1) = Some (hex_digit (h ! i AND 15))"
proof (induction h arbitrary: i)
  case (Cons b h)
  show ?case
  proof (cases i)
    case 0
    then show ?thesis by (simp add: encode_feed_id_def nth_opt_def)
  next
    case (Suc j)
    then show ?thesis using Cons.IH [of j] Cons.prems
      by (auto simp: encode_feed_id_def nth_opt_def split: if_splits)
  qed
qed simp

lemma length_encode [simp]: "length (encode_feed_id h) = 2 * length h"
  by (induction h) (simp_all add: encode_feed_id_def)

lemma decode_loop_encode:
  "\<forall>i \<in> set is. i < length h \<Longrightarrow>
     decode_loop (map of_char (encode_feed_id h)) is s = Ok (map ((!) h) is) s"
proof (induction "is")
  case (Cons i "is")
  then have "i < length h" by simp
  note nth_encode [OF this]
  then show ?case using Cons
    by (simp add: bnd_def ok_or_def hex_char_digit drop_bit_4_less and_15_less byte_split ret_def)
qed (simp add: ret_def)

lemma hex_char_Err: "hex_char c s \<noteq> Trap"
  by (simp add: hex_char_def run_eval)

lemma decode_loop_no_trap: "decode_loop bs is s \<noteq> Trap"
  by (induction "is" arbitrary: s) (auto simp: run_eval hex_char_Err split: option.splits res.splits)

text \<open>
  A feed identifier survives its textual form: decoding the 64-digit hexadecimal text of a
  32-byte identifier returns the identifier, and a text of any other length is refused, so the
  health check accepts the one and rejects the other.
\<close>

theorem feed_id_roundtrip:
  "(length h = 32 \<longrightarrow> decode_feed_id (encode_feed_id h) s = Ok h s
      \<and> verify_oracle_health (c\<lparr>oc_feed_id := encode_feed_id h\<rparr>) s = Ok True s) \<and>
   (length f \<noteq> 64 \<longrightarrow> decode_feed_id f s = Err OracleFailure s
      \<and> validate_oracle_config (c\<lparr>oc_feed_id := f\<rparr>) s = Err OracleFailure s)"
proof -
  have *: "decode_feed_id (encode_feed_id h) s = Ok h s" if "length h = 32"
  proof -
    have "map ((!) h) [0..<32] = h" using that map_nth [of h] by simp
    then show ?thesis using that decode_loop_encode [of "[0..<32]" h s]
      by (simp add: decode_feed_id_def thn_def bnd_def err_if_def)
  qed
  have **: "decode_feed_id f s = Err OracleFailure s" if "length f \<noteq> 64"
    using that by (simp add: decode_feed_id_def run_eval)
  show ?thesis using * **
    by (simp add: verify_oracle_health_def validate_oracle_config_def run_eval is_ok_def)
qed

theorem feed_id_roundtrip_witness:
  "decode_feed_id (encode_feed_id (replicate 32 171)) sample_st = Ok (replicate 32 171) sample_st
   \<and> take 4 (encode_feed_id (replicate 32 171)) = ''abab''"
proof -
  have "take 4 (encode_feed_id (replicate 32 171)) = ''abab''"
    by (simp add: encode_feed_id_def byte_char_def hex_digit_def numeral_eq_Suc, code_simp)
  then show ?thesis using feed_id_roundtrip [of "replicate 32 171" sample_st] by simp
qed

section \<open>Price validation\<close>

lemma unat_abs_price: "in_i64 p \<Longrightarrow> unat (abs_price_to_u64 p) = nat (min \<bar>p\<bar> (2 ^ 63 - 1))"
proof -
  assume "in_i64 p"
  have w: "unat (word_of_int x :: u64) = nat x" if "0 \<le> x" "x < 2 ^ 64" for x
    using that by (simp add: unsigned_of_int take_bit_eq_mod)
  consider "p = - (2 ^ 63)" | "p \<noteq> - (2 ^ 63)" "p < 0" | "0 \<le> p" by linarith
  then show ?thesis
  proof cases
    case 2
    then have "abs_price_to_u64 p = word_of_int (- p)" by (simp add: abs_price_to_u64_def)
    with 2 w [of "- p"] \<open>in_i64 p\<close> show ?thesis by (simp only: in_i64_def) simp
  qed (use \<open>in_i64 p\<close> w [of p] in \<open>auto simp: abs_price_to_u64_def in_i64_def min_def\<close>)
qed

lemma unat_saturating_mul_u64: "unat (saturating_mul_u64 a b) = min (unat a * unat b) (2 ^ 64 - 1)"
proof (cases "unat a * unat b < 2 ^ 64")
  case True
  then show ?thesis by (simp add: saturating_mul_u64_def unat_word_ariths)
next
  case False
  have "unat (- 1 :: u64) = 2 ^ 64 - 1" by (simp add: unsigned_minus_1_eq_mask mask_eq_exp_minus_1)
  with False show ?thesis by (simp add: saturating_mul_u64_def)
qed

lemma is_stale_nat: "is_stale now at m \<longleftrightarrow> unat m < unat now - unat at"
  by (simp add: is_stale_def word_less_nat_alt)

text \<open>
  A price passes validation exactly when its publication time is not negative, it is no older
  than the configured staleness limit (capped at 60 seconds), and its confidence interval is at most
  the configured share of the absolute price, the product saturating at the 64-bit maximum. The
  checks are made in that order, each with its own error.
\<close>

theorem validate_price_decision:
  assumes "in_i64 (pp_price p)" and "in_i64 (pp_publish_time p)"
  shows "validate_price e p c s =
    (if pp_publish_time p < 0 then Err InvalidTimestamp s
     else if min (unat (oc_max_staleness_seconds c)) 60 < unat (timestamp e) - nat (pp_publish_time p)
     then Err StalePrice s
     else if min (nat (min \<bar>pp_price p\<bar> (2 ^ 63 - 1)) * unat (oc_max_confidence_bps c)) (2 ^ 64 - 1) div 10000
             < unat (pp_conf p)
     then Err ConfidenceTooLow s else Ok () s)"
proof -
  have t: "unat (word_of_int (pp_publish_time p) :: u64) = nat (pp_publish_time p)"
    if "\<not> pp_publish_time p < 0"
    using that assms(2) by (simp add: in_i64_def unsigned_of_int take_bit_eq_mod)
  have m: "unat (effective_max_staleness c) = min (unat (oc_max_staleness_seconds c)) 60"
    by (simp add: effective_max_staleness_def MAX_STALENESS_SECONDS_def MAX_STALENESS_def
        word_less_nat_alt)
  show ?thesis
    using t by (auto simp: validate_price_def cast_external_timestamp_def is_stale_nat m Let_def
        word_less_nat_alt unat_div unat_saturating_mul_u64 unat_abs_price [OF assms(1)] run_eval)
qed

theorem validate_price_decision_witness:
  "validate_price (sample_ctx 1030 {}) \<lparr>pp_price = -500, pp_conf = 5, pp_expo = -2, pp_publish_time = 1000\<rparr>
     sample_oracle sample_st = Ok () sample_st"
  using validate_price_decision [of "\<lparr>pp_price = -500, pp_conf = 5, pp_expo = -2, pp_publish_time = 1000\<rparr>"
      "sample_ctx 1030 {}" sample_oracle sample_st]
  by (simp add: in_i64_def sample_oracle_def)

section \<open>Consensus\<close>

definition votes_for :: "(u32 \<times> u32) list \<Rightarrow> u32 \<Rightarrow> nat" where
  "votes_for responses out = length (filter (\<lambda>p. snd p = out) responses)"

definition counted :: "(u32, u32) omap \<Rightarrow> u32 \<Rightarrow> nat" where
  "counted m out = (case omap_get m out of None \<Rightarrow> 0 | Some n \<Rightarrow> unat n)"

lemma counted_set: "counted (omap_set m k n) out = (if out = k then unat n else counted m out)"
  by (simp add: counted_def om.get_set_at)

lemma votes_for_Cons:
  "votes_for (p # ps) out = (if snd p = out then 1 else 0) + votes_for ps out"
  by (simp add: votes_for_def)

lemma count_votes_run:
  assumes "omap_wf acc" and "\<And>out. counted acc out + length ps < 2 ^ 32"
    and "\<And>k n. (k, n) \<in> set acc \<Longrightarrow> 0 < n"
  shows "\<exists>m. count_votes ps acc s = Ok m s \<and> omap_wf m \<and> (\<forall>k n. (k, n) \<in> set m \<longrightarrow> 0 < n) \<and>
    (\<forall>out. counted m out = counted acc out + votes_for ps out)"
  using assms
proof (induction ps arbitrary: acc)
  case Nil
  then show ?case by (simp add: ret_def votes_for_def)
next
  case (Cons p ps)
  define n where "n = (case omap_get acc (snd p) of None \<Rightarrow> 0 | Some n \<Rightarrow> n)"
  have n: "unat n = counted acc (snd p)" by (simp add: n_def counted_def split: option.split)
  have lt: "unat n + 1 < 2 ^ LENGTH(32)" using Cons.prems(2) [of "snd p"] n by simp
  let ?acc = "omap_set acc (snd p) (n + 1)"
  have un: "unat (n + 1) = unat n + 1" using unat_add_no_overflow [of n 1] lt by simp
  then have pos: "0 < n + 1" by (simp add: word_less_nat_alt)
  have wf: "omap_wf ?acc" by (rule om.wf_set_at) (rule Cons.prems(1))
  have cacc: "counted ?acc out = counted acc out + (if out = snd p then 1 else 0)" for out
    by (simp add: counted_set un n)
  have posacc: "0 < v" if "(k, v) \<in> set ?acc" for k v
    using that pos Cons.prems(3) om.entries_get [OF wf] om.entries_get [OF Cons.prems(1)]
    by (simp add: om.get_set_at split: if_splits)
  have bnd: "counted ?acc out + length ps < 2 ^ 32" for out
    using Cons.prems(2) [of out] by (cases "out = snd p") (simp_all add: cacc)
  have "\<exists>m. count_votes ps ?acc s = Ok m s \<and> omap_wf m \<and> (\<forall>k n. (k, n) \<in> set m \<longrightarrow> 0 < n) \<and>
      (\<forall>out. counted m out = counted ?acc out + votes_for ps out)"
    by (rule Cons.IH [OF wf bnd]) (rule posacc)
  then obtain m where
    "count_votes ps ?acc s = Ok m s" "omap_wf m" "\<forall>k n. (k, n) \<in> set m \<longrightarrow> 0 < n"
    "\<forall>out. counted m out = counted ?acc out + votes_for ps out" by blast
  then show ?case using lt cacc
    by (auto simp: n_def [symmetric] Let_def bnd_def add_word_def votes_for_Cons)
qed

text \<open>
  The oracle consensus picks a plurality: with enough responses recorded the result is an
  outcome with the most responses, the smallest such outcome when several tie, and without enough
  responses (or without any) the call fails with OracleFailure. It always returns.
\<close>

theorem consensus_plurality:
  assumes "s_OracleResponses (orcs s) i = Some rs" and "length rs < 2 ^ 32"
  shows "if length rs < unat (num_oracles c) \<or> rs = []
    then validate_consensus i c s = Err OracleFailure s
    else \<exists>out. validate_consensus i c s = Ok out s \<and> 0 < votes_for rs out \<and>
      (\<forall>other. votes_for rs other \<le> votes_for rs out) \<and>
      (\<forall>other < out. votes_for rs other < votes_for rs out)"
proof -
  obtain m where m: "count_votes rs [] s = Ok m s" "omap_wf m" "\<forall>k n. (k, n) \<in> set m \<longrightarrow> 0 < n"
    "\<And>out. counted m out = votes_for rs out"
    using count_votes_run [of "[]" rs s] assms(2)
    by (auto simp: om.wf_empty counted_def om.get_empty)
  have entry: "(k, n) \<in> set m \<Longrightarrow> unat n = votes_for rs k" for k n
    using om.entries_get [OF m(2), of k n] m(4) [of k] by (simp add: counted_def)
  have present: "0 < votes_for rs k \<Longrightarrow> \<exists>n. (k, n) \<in> set m" for k
    using om.entries_get [OF m(2), of k] m(4) [of k] by (auto simp: counted_def split: option.splits)
  obtain b top where am: "argmax_loop Some m None 0 = (b, top)" by (cases "argmax_loop Some m None 0")
  have run: "validate_consensus i c s = (if length rs < unat (num_oracles c)
      then Err OracleFailure s else ok_or b OracleFailure s)"
    using assms(1) m(1) am by (simp add: validate_consensus_def num_oracles_def Let_def run_eval)
  show ?thesis
  proof (cases "rs = []")
    case True
    then have "m = []" using m(1) by (simp add: ret_def)
    with am have "b = None" by simp
    with run True show ?thesis by (simp add: ok_or_def)
  next
    case False
    then have "0 < votes_for rs (snd (hd rs))" by (cases rs) (simp_all add: votes_for_Cons)
    then obtain n where "(snd (hd rs), n) \<in> set m" using present by blast
    with m(3) argmax_loop_top [OF am] have "0 < top" by force
    then obtain ys k zs where sp: "m = ys @ (k, top) # zs" "b = Some k" "\<forall>(k', v) \<in> set ys. v < top"
      using argmax_loop_first [OF am] by blast
    have kt: "unat top = votes_for rs k" using entry [of k top] sp(1) by simp
    have all: "votes_for rs other \<le> votes_for rs k" for other
    proof (cases "votes_for rs other = 0")
      case False
      then obtain n where "(other, n) \<in> set m" using present by blast
      with argmax_loop_top [OF am] entry kt show ?thesis by (force simp: word_le_nat_alt)
    qed simp
    have less: "votes_for rs other < votes_for rs k" if "other < k" for other
    proof (cases "votes_for rs other = 0")
      case True
      have "0 < unat top" using \<open>0 < top\<close> by (simp add: word_less_nat_alt)
      then show ?thesis using True kt by simp
    next
      case False
      then obtain n where n: "(other, n) \<in> set m" using present by blast
      have "sorted (map fst m)" using m(2) by (simp add: omap_wf_def)
      then have "(other, n) \<in> set ys" using n that sp(1) by (auto simp: sorted_append)
      then show ?thesis using sp(3) entry n kt by (force simp: word_less_nat_alt)
    qed
    show ?thesis using False run sp(2) all less kt \<open>0 < top\<close>
      by (auto simp: ok_or_def word_less_nat_alt)
  qed
qed

theorem consensus_plurality_witness:
  "let s = upd_orcs (\<lambda>k. k\<lparr>s_OracleResponses := [1 \<mapsto> [(0, 4), (3, 2), (7, 2)]]\<rparr>) sample_st
   in \<exists>out. validate_consensus 1 sample_oracle s = Ok out s
        \<and> (\<forall>other. votes_for [(0, 4), (3, 2), (7, 2)] other \<le> votes_for [(0, 4), (3, 2), (7, 2)] out)"
proof -
  let ?s = "upd_orcs (\<lambda>k. k\<lparr>s_OracleResponses := [1 \<mapsto> [(0, 4), (3, 2), (7, 2)]]\<rparr>) sample_st"
  have "s_OracleResponses (orcs ?s) 1 = Some [(0, 4), (3, 2), (7, 2)]" by simp
  from consensus_plurality [OF this, of sample_oracle] show ?thesis
    by (auto simp: num_oracles_def sample_oracle_def Let_def)
qed

end
