(* ===== verification/Voting.thy ===== *)
theory Voting
  imports Oracles
begin

text \<open>
  \<^verbatim>\<open>voting.rs\<close>: votes on a disputed market weighted by governance tokens, the revision of a vote,
  the tokens locked by the fallback path, their release and the clean-up of the voting state. The
  invariant \<open>tally_inv\<close> ties the stored tallies to the stored votes.
\<close>

section \<open>Operations\<close>

definition get_tally :: "'w st \<Rightarrow> u64 \<Rightarrow> u32 \<Rightarrow> i128" where
  "get_tally s market_id outcome =
     (case s_VoteTally (vts s) (market_id, outcome) of None \<Rightarrow> 0 | Some x \<Rightarrow> x)"

definition set_tally :: "'w ctx \<Rightarrow> u64 \<Rightarrow> u32 \<Rightarrow> i128 \<Rightarrow> ('w, unit) contract" where
  "set_tally e market_id outcome x = p_set e (PVoting (K_VoteTally market_id outcome))
     (upd_vts (\<lambda>k. k\<lparr>s_VoteTally := (s_VoteTally k)((market_id, outcome) \<mapsto> x)\<rparr>))"

definition set_vote :: "'w ctx \<Rightarrow> u64 \<Rightarrow> Address \<Rightarrow> Vote \<Rightarrow> ('w, unit) contract" where
  "set_vote e market_id voter v = p_set e (PVoting (K_Vote market_id voter))
     (upd_vts (\<lambda>k. k\<lparr>s_Vote := (s_Vote k)((market_id, voter) \<mapsto> v)\<rparr>))"

definition locked_balance :: "'w st \<Rightarrow> u64 \<Rightarrow> Address \<Rightarrow> i128" where
  "locked_balance s market_id voter =
     (case s_LockedBalance (vts s) (market_id, voter) of None \<Rightarrow> 0 | Some x \<Rightarrow> x)"

definition set_locked_balance :: "'w ctx \<Rightarrow> u64 \<Rightarrow> Address \<Rightarrow> i128 \<Rightarrow> ('w, unit) contract" where
  "set_locked_balance e market_id voter x = p_set e (PVoting (K_LockedBalance market_id voter))
     (upd_vts (\<lambda>k. k\<lparr>s_LockedBalance := (s_LockedBalance k)((market_id, voter) \<mapsto> x)\<rparr>))"

definition set_locked_tokens :: "'w ctx \<Rightarrow> u64 \<Rightarrow> Address \<Rightarrow> LockedTokens \<Rightarrow> ('w, unit) contract" where
  "set_locked_tokens e market_id voter l = p_set e (PVoting (K_LockedTokens market_id voter))
     (upd_vts (\<lambda>k. k\<lparr>s_LockedTokens := (s_LockedTokens k)((market_id, voter) \<mapsto> l)\<rparr>))"

definition dispute_voters :: "'w st \<Rightarrow> u64 \<Rightarrow> Address list" where
  "dispute_voters s market_id =
     (case s_DisputeVoters (vts s) market_id of None \<Rightarrow> [] | Some voters \<Rightarrow> voters)"

text \<open>Revision: the weight of the caller's previous vote leaves the tally it was counted in.\<close>

definition retract_vote :: "'w ctx \<Rightarrow> u64 \<Rightarrow> Vote option \<Rightarrow> ('w, unit) contract" where
  "retract_vote e market_id old_vote =
     (case old_vote of
        None \<Rightarrow> ret ()
      | Some old_vote_data \<Rightarrow>
          bnd (reads (\<lambda>s. get_tally s market_id (v_outcome old_vote_data))) (\<lambda>old_tally.
          bnd (sub_i128 old_tally (v_weight old_vote_data)) (\<lambda>x.
          set_tally e market_id (v_outcome old_vote_data) x)))"

text \<open>The fallback path: lock the caller's tokens.\<close>

definition lock_vote_tokens ::
  "'w ctx \<Rightarrow> Address \<Rightarrow> Market \<Rightarrow> u64 \<Rightarrow> Address \<Rightarrow> i128 \<Rightarrow> ('w, i128) contract" where
  "lock_vote_tokens e gov_token market market_id voter weight =
     bnd (token_balance e gov_token voter) (\<lambda>current_balance.
     thn (err_if (current_balance < weight) InsufficientVotingWeight)
     (thn (require_auth e (current_contract_address e))
     (thn (token_transfer e gov_token voter (current_contract_address e) weight)
     (bnd (reads (\<lambda>s. locked_balance s market_id voter)) (\<lambda>existing.
     bnd (add_i128 existing weight) (\<lambda>x.
     thn (set_locked_balance e market_id voter x)
     (thn (set_locked_tokens e market_id voter
             \<lparr>lt_voter = voter, lt_market_id = market_id, lt_amount = weight,
              lt_unlock_time = m_resolution_deadline market\<rparr>)
     (ret weight))))))))"

definition try_get_balance_at :: "'w ctx \<Rightarrow> Address \<Rightarrow> Address \<Rightarrow> u32 \<Rightarrow> 'w st \<Rightarrow> i128 option" where
  "try_get_balance_at e token account ledger s = ext_balance_at e token account ledger (world s)"

definition get_token_decimals :: "'w ctx \<Rightarrow> Address \<Rightarrow> 'w st \<Rightarrow> u32" where
  "get_token_decimals e token s = (case ext_decimals e token (world s) of Some d \<Rightarrow> d | None \<Rightarrow> 7)"

definition pow10_i128 :: "u32 \<Rightarrow> ('w, i128) contract" where
  "pow10_i128 n s = (if n \<le> 38 then Ok (10 ^ unat n) s else Trap)"

definition normalize_weight :: "i128 \<Rightarrow> u32 \<Rightarrow> ('w, i128) contract" where
  "normalize_weight actual_weight token_decimals =
     (if token_decimals < 18
      then bnd (pow10_i128 (18 - token_decimals)) (\<lambda>scale. ret (saturating_mul_i128 actual_weight scale))
      else if 18 < token_decimals
      then bnd (pow10_i128 (token_decimals - 18)) (\<lambda>scale. ret (actual_weight sdiv scale))
      else ret actual_weight)"

definition register_voter :: "'w ctx \<Rightarrow> u64 \<Rightarrow> Address \<Rightarrow> ('w, unit) contract" where
  "register_voter e market_id voter =
     bnd (reads (\<lambda>s. dispute_voters s market_id)) (\<lambda>voters.
     p_set e (PVoting (K_DisputeVoters market_id))
       (upd_vts (\<lambda>k. k\<lparr>s_DisputeVoters := (s_DisputeVoters k)(market_id \<mapsto> voters @ [voter])\<rparr>)))"

definition cast_vote :: "'w ctx \<Rightarrow> Address \<Rightarrow> u64 \<Rightarrow> u32 \<Rightarrow> i128 \<Rightarrow> ('w, unit) contract" where
  "cast_vote e voter market_id outcome weight =
     thn (require_auth e voter)
     (bnd (reads (\<lambda>s. get_market s market_id)) (\<lambda>found.
     bnd (ok_or found MarketNotFound) (\<lambda>market.
     thn (err_if (m_status market \<noteq> Disputed) MarketNotDisputed)
     (thn (err_if (outcome \<noteq> CANCEL_OUTCOME_INDEX \<and> length (m_options market) \<le> unat outcome)
             InvalidOutcome)
     (bnd (reads (\<lambda>s. s_Vote (vts s) (market_id, voter))) (\<lambda>old_vote.
     thn (retract_vote e market_id old_vote)
     (bnd (ok_or (m_dispute_snapshot_ledger market) MarketNotDisputed) (\<lambda>snapshot_ledger.
     bnd (reads (\<lambda>s. i_GovernanceToken (inst s))) (\<lambda>token.
     bnd (ok_or token GovernanceTokenNotSet) (\<lambda>gov_token.
     bnd (reads (try_get_balance_at e gov_token voter snapshot_ledger)) (\<lambda>snapshot.
     bnd (case snapshot of
            Some balance \<Rightarrow> ret balance
          | None \<Rightarrow> lock_vote_tokens e gov_token market market_id voter weight) (\<lambda>actual_weight.
     thn (err_if (actual_weight = 0) InsufficientVotingWeight)
     (bnd (reads (get_token_decimals e gov_token)) (\<lambda>token_decimals.
     bnd (normalize_weight actual_weight token_decimals) (\<lambda>normalized_weight.
     thn (err_if (normalized_weight = 0) InsufficientVotingWeight)
     (thn (set_vote e market_id voter \<lparr>v_market_id = market_id, v_voter = voter,
             v_outcome = outcome, v_weight = normalized_weight\<rparr>)
     (thn (doif (old_vote = None) (register_voter e market_id voter))
     (bnd (reads (\<lambda>s. get_tally s market_id outcome)) (\<lambda>current_tally.
     bnd (add_i128 current_tally normalized_weight) (\<lambda>x.
     thn (set_tally e market_id outcome x)
     (emit_vote_cast market_id voter outcome normalized_weight)))))))))))))))))))))"

definition unlock_tokens :: "'w ctx \<Rightarrow> Address \<Rightarrow> u64 \<Rightarrow> ('w, unit) contract" where
  "unlock_tokens e voter market_id =
     thn (require_auth e voter)
     (bnd (reads (\<lambda>s. get_market s market_id)) (\<lambda>found.
     bnd (ok_or found MarketNotFound) (\<lambda>market.
     thn (err_if (m_status market \<noteq> Resolved \<and> m_status market \<noteq> Cancelled) MarketNotResolved)
     (bnd (reads (\<lambda>s. s_LockedTokens (vts s) (market_id, voter))) (\<lambda>l.
     bnd (ok_or l BetNotFound) (\<lambda>locked.
     thn (err_if (timestamp e < lt_unlock_time locked) TimelockActive)
     (bnd (reads (\<lambda>s. locked_balance s market_id voter)) (\<lambda>amount.
     thn (err_if (amount \<le> 0) BetNotFound)
     (bnd (reads (\<lambda>s. i_GovernanceToken (inst s))) (\<lambda>token.
     bnd (ok_or token GovernanceTokenNotSet) (\<lambda>gov_token.
     thn (require_auth e (current_contract_address e))
     (thn (token_transfer e gov_token (current_contract_address e) voter amount)
     (thn (p_remove (PVoting (K_LockedTokens market_id voter))
             (upd_vts (\<lambda>k. k\<lparr>s_LockedTokens := (s_LockedTokens k)((market_id, voter) := None)\<rparr>)))
     (p_remove (PVoting (K_LockedBalance market_id voter))
             (upd_vts (\<lambda>k. k\<lparr>s_LockedBalance := (s_LockedBalance k)((market_id, voter) := None)\<rparr>))))))))))))))))"

definition remove_vote_state :: "u64 \<Rightarrow> Address \<Rightarrow> ('w, unit) contract" where
  "remove_vote_state market_id v =
     thn (p_remove (PVoting (K_Vote market_id v))
            (upd_vts (\<lambda>k. k\<lparr>s_Vote := (s_Vote k)((market_id, v) := None)\<rparr>)))
     (thn (p_remove (PVoting (K_LockedTokens market_id v))
            (upd_vts (\<lambda>k. k\<lparr>s_LockedTokens := (s_LockedTokens k)((market_id, v) := None)\<rparr>)))
     (p_remove (PVoting (K_LockedBalance market_id v))
            (upd_vts (\<lambda>k. k\<lparr>s_LockedBalance := (s_LockedBalance k)((market_id, v) := None)\<rparr>))))"

definition remove_tally :: "u64 \<Rightarrow> nat \<Rightarrow> ('w, unit) contract" where
  "remove_tally market_id n = p_remove (PVoting (K_VoteTally market_id (of_nat n)))
     (upd_vts (\<lambda>k. k\<lparr>s_VoteTally := (s_VoteTally k)((market_id, of_nat n) := None)\<rparr>))"

definition prune_market_voting_state :: "u64 \<Rightarrow> u32 \<Rightarrow> ('w, unit) contract" where
  "prune_market_voting_state market_id num_outcomes =
     bnd (reads (\<lambda>s. s_DisputeVoters (vts s) market_id)) (\<lambda>r.
     thn (case r of Some voters \<Rightarrow> for_each voters (remove_vote_state market_id) | None \<Rightarrow> ret ())
     (thn (p_remove (PVoting (K_DisputeVoters market_id))
             (upd_vts (\<lambda>k. k\<lparr>s_DisputeVoters := (s_DisputeVoters k)(market_id := None)\<rparr>)))
     (for_each [0..<unat num_outcomes] (remove_tally market_id))))"

section \<open>Runs and views\<close>

lemmas vote_write_defs = set_tally_def set_vote_def set_locked_balance_def set_locked_tokens_def
  register_voter_def
lemmas vote_read_defs = get_tally_def locked_balance_def dispute_voters_def

lemma keeps_vote_writes [view_rules]:
  assumes "\<And>s x. v (s\<lparr>live_until := x\<rparr>) = v s" and "\<And>s x. v (s\<lparr>vts := x\<rparr>) = v s"
  shows "keeps v (set_tally e i out x)" "keeps v (set_vote e i a b)"
    "keeps v (set_locked_balance e i a x)" "keeps v (set_locked_tokens e i a l)"
    "keeps v (register_voter e i a)" "keeps v (retract_vote e i ov)"
    "keeps v (remove_vote_state i a)" "keeps v (remove_tally i n)"
    "keeps v (prune_market_voting_state i k)"
  unfolding vote_write_defs retract_vote_def remove_vote_state_def remove_tally_def
    prune_market_voting_state_def
  by ((intro view_rules; simp add: assms)+)

lemma pow10_i128_Ok [run_simps]: "pow10_i128 n s = Ok r t \<longleftrightarrow> n \<le> 38 \<and> r = 10 ^ unat n \<and> t = s"
  by (auto simp: pow10_i128_def)

lemma keeps_normalize_weight [view_rules]: "keeps v (normalize_weight w d)"
  by (auto simp: keeps_def normalize_weight_def run_simps split: if_splits)

lemma keeps_lock_vote_tokens [view_rules]:
  assumes "\<And>s x. v (s\<lparr>live_until := x\<rparr>) = v s" and "\<And>s x. v (s\<lparr>vts := x\<rparr>) = v s"
    and "\<And>s x. v (s\<lparr>world := x\<rparr>) = v s"
  shows "keeps v (lock_vote_tokens e g m i a w)"
  unfolding lock_vote_tokens_def by ((intro view_rules; simp add: assms)+)

lemma keeps_cast_vote [view_rules]:
  assumes "\<And>s x. v (s\<lparr>live_until := x\<rparr>) = v s" and "\<And>s x. v (s\<lparr>vts := x\<rparr>) = v s"
    and "\<And>s x. v (s\<lparr>world := x\<rparr>) = v s" and "\<And>s x. v (s\<lparr>log := x\<rparr>) = v s"
  shows "keeps v (cast_vote e a i out w)"
  unfolding cast_vote_def by ((intro view_rules; simp add: assms)+)

lemma keeps_unlock_tokens [view_rules]:
  assumes "\<And>s x. v (s\<lparr>live_until := x\<rparr>) = v s" and "\<And>s x. v (s\<lparr>vts := x\<rparr>) = v s"
    and "\<And>s x. v (s\<lparr>world := x\<rparr>) = v s"
  shows "keeps v (unlock_tokens e a i)"
  unfolding unlock_tokens_def by ((intro view_rules; simp add: assms)+)

section \<open>Votes and tallies\<close>

definition old_weight :: "'w st \<Rightarrow> u64 \<Rightarrow> Address \<Rightarrow> u32 \<Rightarrow> i128" where
  "old_weight s i a out = (case s_Vote (vts s) (i, a) of
     None \<Rightarrow> 0 | Some v \<Rightarrow> if v_outcome v = out then v_weight v else 0)"

definition ballots :: "'w st \<Rightarrow> (u64 \<times> Address \<rightharpoonup> Vote) \<times> (u64 \<times> u32 \<rightharpoonup> i128) \<times> (u64 \<rightharpoonup> Address list)" where
  "ballots s = (s_Vote (vts s), s_VoteTally (vts s), s_DisputeVoters (vts s))"

lemma lock_keeps_ballots: "keeps ballots (lock_vote_tokens e g m i a w)"
  unfolding lock_vote_tokens_def set_locked_balance_def set_locked_tokens_def
  by ((intro view_rules; simp add: ballots_def)+)

lemma retract_vote_run:
  assumes "retract_vote e i (s_Vote (vts s) (i, a)) s = Ok r t"
  shows "get_tally t j out = get_tally s j out - (if j = i then old_weight s i a out else 0)"
    "s_Vote (vts t) = s_Vote (vts s)" "s_DisputeVoters (vts t) = s_DisputeVoters (vts s)"
  using assms
  by (auto simp: retract_vote_def set_tally_def get_tally_def old_weight_def run_simps
      split: option.splits if_splits)

lemma register_voter_run:
  assumes "doif (ov = None) (register_voter e i a) s = Ok r t"
  shows "dispute_voters t j = (if j = i \<and> ov = None then dispute_voters s j @ [a] else dispute_voters s j)"
    "s_Vote (vts t) = s_Vote (vts s)" "get_tally t j out = get_tally s j out"
  using assms by (auto simp: register_voter_def vote_read_defs run_simps)

lemma set_vote_run:
  assumes "set_vote e i a v s = Ok r t"
  shows "s_Vote (vts t) = (s_Vote (vts s))((i, a) \<mapsto> v)"
    "dispute_voters t j = dispute_voters s j" "get_tally t j out = get_tally s j out"
  using assms by (auto simp: set_vote_def vote_read_defs run_simps)

lemma set_tally_run:
  assumes "set_tally e i k x s = Ok r t"
  shows "get_tally t j out = (if (j, out) = (i, k) then x else get_tally s j out)"
    "s_Vote (vts t) = s_Vote (vts s)" "dispute_voters t j = dispute_voters s j"
  using assms by (auto simp: set_tally_def vote_read_defs run_simps)

lemma cast_vote_run:
  assumes "cast_vote e voter i outcome weight s = Ok r t"
  shows "\<exists>market w. get_market s i = Some market \<and> m_status market = Disputed \<and>
    m_dispute_snapshot_ledger market \<noteq> None \<and> voter \<in> authorized e \<and>
    (outcome = CANCEL_OUTCOME_INDEX \<or> unat outcome < length (m_options market)) \<and> w \<noteq> 0 \<and>
    s_Vote (vts t) = (s_Vote (vts s))((i, voter) \<mapsto>
      \<lparr>v_market_id = i, v_voter = voter, v_outcome = outcome, v_weight = w\<rparr>) \<and>
    (\<forall>j. dispute_voters t j = (if j = i \<and> s_Vote (vts s) (i, voter) = None
       then dispute_voters s j @ [voter] else dispute_voters s j)) \<and>
    (\<forall>j out. get_tally t j out = get_tally s j out
       - (if j = i then old_weight s i voter out else 0) + (if (j, out) = (i, outcome) then w else 0))"
proof -
  from assms obtain market u1 u2 u3 u4 u5 w where
    m: "get_market s i = Some market" "m_status market = Disputed" "voter \<in> authorized e"
      "outcome = CANCEL_OUTCOME_INDEX \<or> unat outcome < length (m_options market)"
      "m_dispute_snapshot_ledger market \<noteq> None" "w \<noteq> 0" and
    u1: "retract_vote e i (s_Vote (vts s) (i, voter)) s = Ok () u1" and
    u2: "ballots u2 = ballots u1" and
    u3: "set_vote e i voter \<lparr>v_market_id = i, v_voter = voter, v_outcome = outcome, v_weight = w\<rparr> u2 = Ok () u3" and
    u4: "doif (s_Vote (vts s) (i, voter) = None) (register_voter e i voter) u3 = Ok () u4" and
    u5: "set_tally e i outcome (get_tally u4 i outcome + w) u4 = Ok () u5" and
    t: "vts t = vts u5"
    unfolding cast_vote_def
    by (fastforce simp: run_simps emit_defs not_le split: option.splits
        dest: keepsD [OF lock_keeps_ballots] keepsD [OF keeps_normalize_weight [of ballots]])
  have b: "s_Vote (vts u2) = s_Vote (vts u1)" "dispute_voters u2 j = dispute_voters u1 j"
    "get_tally u2 j out = get_tally u1 j out" for j out
    using u2 by (simp_all add: ballots_def vote_read_defs)
  have tt: "get_tally t j out = get_tally u5 j out" "dispute_voters t j = dispute_voters u5 j" for j out
    using t by (simp_all add: vote_read_defs)
  have dv: "dispute_voters u1 j = dispute_voters s j" for j
    using retract_vote_run(3) [OF u1] by (simp add: dispute_voters_def)
  have tally: "get_tally t j out = get_tally s j out - (if j = i then old_weight s i voter out else 0)
      + (if (j, out) = (i, outcome) then w else 0)" for j out
    using set_tally_run(1) [OF u5, of j out] register_voter_run(3) [OF u4] set_vote_run(3) [OF u3]
      retract_vote_run(1) [OF u1] by (auto simp: tt b)
  have voters: "dispute_voters t j = (if j = i \<and> s_Vote (vts s) (i, voter) = None
      then dispute_voters s j @ [voter] else dispute_voters s j)" for j
    using set_tally_run(3) [OF u5, of j] register_voter_run(1) [OF u4, of j] set_vote_run(2) [OF u3, of j]
    by (auto simp: tt b dv)
  have votes: "s_Vote (vts t) = (s_Vote (vts s))((i, voter) \<mapsto>
      \<lparr>v_market_id = i, v_voter = voter, v_outcome = outcome, v_weight = w\<rparr>)"
    using set_tally_run(2) [OF u5] register_voter_run(2) [OF u4] set_vote_run(1) [OF u3]
      retract_vote_run(2) [OF u1] by (simp add: t b)
  from m tally voters votes show ?thesis by blast
qed

text \<open>
  The voting invariant of a market: every registered voter is registered once and has a vote, every
  vote has its voter registered, and each tally is the sum of the weights of the votes for it.
\<close>

definition counted_tally :: "'w st \<Rightarrow> u64 \<Rightarrow> u32 \<Rightarrow> i128" where
  "counted_tally s i out = (\<Sum>a \<leftarrow> dispute_voters s i. old_weight s i a out)"

definition tally_inv :: "'w st \<Rightarrow> u64 \<Rightarrow> bool" where
  "tally_inv s i \<longleftrightarrow> distinct (dispute_voters s i) \<and>
     (\<forall>a. a \<in> set (dispute_voters s i) \<longleftrightarrow> s_Vote (vts s) (i, a) \<noteq> None) \<and>
     (\<forall>out. get_tally s i out = counted_tally s i out)"

lemma sum_list_replace:
  assumes "distinct xs" and "x \<in> set xs" and "\<And>y. y \<in> set xs \<Longrightarrow> y \<noteq> x \<Longrightarrow> g y = f y"
  shows "(\<Sum>y \<leftarrow> xs. g y) = (\<Sum>y \<leftarrow> xs. f y) - f x + (g x :: int)"
proof -
  have eq: "sum g (set xs - {x}) = sum f (set xs - {x})"
    using assms(3) by (intro sum.cong) auto
  have fin: "finite (set xs)" by simp
  have "sum g (set xs) = g x + sum g (set xs - {x})" "sum f (set xs) = f x + sum f (set xs - {x})"
    using sum.remove [OF fin assms(2)] by blast+
  with eq assms(1) show ?thesis by (simp add: sum_list_distinct_conv_sum_set)
qed

lemma cast_vote_tally_inv:
  assumes "tally_inv s j" and "cast_vote e voter i outcome weight s = Ok r t"
  shows "tally_inv t j"
proof -
  from cast_vote_run [OF assms(2)] obtain w where
    votes: "s_Vote (vts t) = (s_Vote (vts s))((i, voter) \<mapsto>
      \<lparr>v_market_id = i, v_voter = voter, v_outcome = outcome, v_weight = w\<rparr>)" and
    voters: "\<And>j. dispute_voters t j = (if j = i \<and> s_Vote (vts s) (i, voter) = None
       then dispute_voters s j @ [voter] else dispute_voters s j)" and
    tally: "\<And>j out. get_tally t j out = get_tally s j out
       - (if j = i then old_weight s i voter out else 0) + (if (j, out) = (i, outcome) then w else 0)"
    by blast
  have ow: "old_weight t k a out = (if (k, a) = (i, voter)
      then if outcome = out then w else 0 else old_weight s k a out)" for k a out
    by (simp add: old_weight_def votes)
  show ?thesis
  proof (cases "j = i")
    case False
    then show ?thesis using assms(1) votes voters tally
      by (simp add: tally_inv_def counted_tally_def ow)
  next
    case True
    have inv: "distinct (dispute_voters s i)"
      "\<And>a. a \<in> set (dispute_voters s i) \<longleftrightarrow> s_Vote (vts s) (i, a) \<noteq> None"
      "\<And>out. get_tally s i out = counted_tally s i out"
      using assms(1) True by (auto simp: tally_inv_def)
    have "counted_tally t i out = counted_tally s i out - old_weight s i voter out
        + (if out = outcome then w else 0)" for out
    proof (cases "s_Vote (vts s) (i, voter) = None")
      case True
      then have nm: "voter \<notin> set (dispute_voters s i)" and z: "old_weight s i voter out = 0"
        using inv(2) by (auto simp: old_weight_def)
      then have "map (\<lambda>a. old_weight t i a out) (dispute_voters s i)
          = map (\<lambda>a. old_weight s i a out) (dispute_voters s i)"
        by (intro map_cong) (auto simp: ow)
      moreover have "counted_tally t i out
          = sum_list (map (\<lambda>a. old_weight t i a out) (dispute_voters s i)) + old_weight t i voter out"
        using True by (simp add: counted_tally_def voters)
      ultimately have "counted_tally t i out = counted_tally s i out + old_weight t i voter out"
        by (simp only: counted_tally_def)
      then show ?thesis using z by (simp add: ow)
    next
      case False
      then have "voter \<in> set (dispute_voters s i)" using inv(2) by blast
      then have "(\<Sum>a \<leftarrow> dispute_voters s i. old_weight t i a out)
          = (\<Sum>a \<leftarrow> dispute_voters s i. old_weight s i a out) - old_weight s i voter out + old_weight t i voter out"
        using inv(1) by (intro sum_list_replace) (auto simp: ow)
      moreover have "dispute_voters t i = dispute_voters s i" using False by (simp only: voters) auto
      ultimately have "counted_tally t i out
          = counted_tally s i out - old_weight s i voter out + old_weight t i voter out"
        by (simp only: counted_tally_def)
      then show ?thesis by (simp add: ow)
    qed
    with inv True show ?thesis by (auto simp: tally_inv_def voters votes tally)
  qed
qed

text \<open>
  Tallies count votes: casting or revising a vote keeps, for every market, that each tally is
  the sum of the weights of the stored votes for that outcome, that no voter is registered twice,
  and that the registered voters are exactly those with a vote. A vote is only recorded for a valid
  outcome (or the cancel outcome) of a disputed market, with the voter's authorisation.
\<close>

theorem cast_vote_keeps_tallies:
  assumes "cast_vote e voter i outcome weight s = Ok () t" and "\<forall>j. tally_inv s j"
  shows "(\<forall>j. tally_inv t j) \<and> voter \<in> authorized e \<and> voter \<in> set (dispute_voters t i) \<and>
    (\<exists>m. get_market s i = Some m \<and> m_status m = Disputed \<and>
      (outcome = CANCEL_OUTCOME_INDEX \<or> unat outcome < length (m_options m)))"
proof -
  have inv: "\<forall>j. tally_inv t j" using assms cast_vote_tally_inv by blast
  have "s_Vote (vts t) (i, voter) \<noteq> None" using cast_vote_run [OF assms(1)] by auto
  with inv have "voter \<in> set (dispute_voters t i)" by (simp add: tally_inv_def)
  then show ?thesis using inv cast_vote_run [OF assms(1)] by blast
qed

definition disputed_sample :: "balances st" where
  "disputed_sample = upd_inst (\<lambda>i. i\<lparr>i_GovernanceToken := Some (Addr 6)\<rparr>)
     (with_market (sample_market\<lparr>m_status := Disputed, m_dispute_snapshot_ledger := Some 900\<rparr>) sample_st)"

theorem cast_vote_keeps_tallies_witness:
  "\<exists>t. cast_vote (sample_ctx 2000 {Addr 0, Addr 3}) (Addr 3) 1 0 10 disputed_sample = Ok () t
     \<and> tally_inv t 1 \<and> Addr 3 \<in> set (dispute_voters t 1)"
proof -
  have inv: "\<forall>j. tally_inv disputed_sample j"
    by (simp add: tally_inv_def counted_tally_def vote_read_defs disputed_sample_def sample_defs)
  obtain t where t: "cast_vote (sample_ctx 2000 {Addr 0, Addr 3}) (Addr 3) 1 0 10 disputed_sample = Ok () t"
    by (simp add: cast_vote_def retract_vote_def lock_vote_tokens_def normalize_weight_def
        pow10_i128_def try_get_balance_at_def get_token_decimals_def vote_write_defs vote_read_defs
        get_market_def saturating_mul_i128_def saturate_i128_def in_i128_def disputed_sample_def
        sample_defs run_eval)
  show ?thesis using t cast_vote_keeps_tallies [OF t inv] by blast
qed

lemma unlock_tokens_run:
  assumes "unlock_tokens e voter i s = Ok r t"
  shows "\<exists>m l g. get_market s i = Some m \<and> m_status m \<in> {Resolved, Cancelled} \<and>
    s_LockedTokens (vts s) (i, voter) = Some l \<and> lt_unlock_time l \<le> timestamp e \<and>
    voter \<in> authorized e \<and> 0 < locked_balance s i voter \<and> i_GovernanceToken (inst s) = Some g \<and>
    ext_transfer e g (current_contract_address e) voter (locked_balance s i voter) (world s) = Some (world t) \<and>
    vts t = (vts s)\<lparr>s_LockedTokens := (s_LockedTokens (vts s))((i, voter) := None),
      s_LockedBalance := (s_LockedBalance (vts s))((i, voter) := None)\<rparr> \<and>
    mkts t = mkts s"
  using assms by (auto simp: unlock_tokens_def run_simps not_less not_le)

text \<open>
  Locked tokens come back once: a release happens only after the market is resolved or
  cancelled and past the unlock time, pays exactly the balance locked by that voter for that market,
  leaves all other locks, votes and tallies alone, and a second release by the same voter fails.
\<close>

theorem unlock_tokens_once:
  assumes "unlock_tokens e voter i s = Ok () t"
  shows "(\<exists>m. get_market s i = Some m \<and> m_status m \<in> {Resolved, Cancelled}) \<and>
    (\<exists>g. i_GovernanceToken (inst s) = Some g \<and> ext_transfer e g (current_contract_address e) voter
       (locked_balance s i voter) (world s) = Some (world t)) \<and> 0 < locked_balance s i voter \<and>
    (\<forall>j a. (j, a) \<noteq> (i, voter) \<longrightarrow> locked_balance t j a = locked_balance s j a) \<and>
    ballots t = ballots s \<and>
    (\<exists>u. unlock_tokens e voter i t = Err BetNotFound u)"
proof -
  from unlock_tokens_run [OF assms] obtain m l g where
    m: "get_market s i = Some m" "m_status m \<in> {Resolved, Cancelled}" and a: "voter \<in> authorized e" and
    g: "i_GovernanceToken (inst s) = Some g" "ext_transfer e g (current_contract_address e) voter
      (locked_balance s i voter) (world s) = Some (world t)" "0 < locked_balance s i voter" and
    t: "vts t = (vts s)\<lparr>s_LockedTokens := (s_LockedTokens (vts s))((i, voter) := None),
      s_LockedBalance := (s_LockedBalance (vts s))((i, voter) := None)\<rparr>" "mkts t = mkts s"
    by blast
  have "unlock_tokens e voter i t = Err BetNotFound t"
    using m a t by (auto simp: unlock_tokens_def get_market_def run_eval)
  moreover have "\<forall>j a. (j, a) \<noteq> (i, voter) \<longrightarrow> locked_balance t j a = locked_balance s j a"
    "ballots t = ballots s"
    using t(1) by (auto simp: locked_balance_def ballots_def)
  ultimately show ?thesis using m g by blast
qed

theorem unlock_tokens_once_witness:
  "let s = upd_vts (\<lambda>k. k\<lparr>s_LockedTokens := [(1, Addr 3) \<mapsto> \<lparr>lt_voter = Addr 3, lt_market_id = 1,
               lt_amount = 10, lt_unlock_time = 500\<rparr>], s_LockedBalance := [(1, Addr 3) \<mapsto> 10]\<rparr>)
             (upd_inst (\<lambda>i. i\<lparr>i_GovernanceToken := Some (Addr 6)\<rparr>)
               (with_market (sample_market\<lparr>m_status := Cancelled\<rparr>) sample_st))
   in \<exists>t u. unlock_tokens (sample_ctx 2000 {Addr 0, Addr 3}) (Addr 3) 1 s = Ok () t
        \<and> unlock_tokens (sample_ctx 2000 {Addr 0, Addr 3}) (Addr 3) 1 t = Err BetNotFound u"
proof -
  let ?s = "upd_vts (\<lambda>k. k\<lparr>s_LockedTokens := [(1, Addr 3) \<mapsto> \<lparr>lt_voter = Addr 3, lt_market_id = 1,
               lt_amount = 10, lt_unlock_time = 500\<rparr>], s_LockedBalance := [(1, Addr 3) \<mapsto> 10]\<rparr>)
             (upd_inst (\<lambda>i. i\<lparr>i_GovernanceToken := Some (Addr 6)\<rparr>)
               (with_market (sample_market\<lparr>m_status := Cancelled\<rparr>) sample_st))"
  obtain t where t: "unlock_tokens (sample_ctx 2000 {Addr 0, Addr 3}) (Addr 3) 1 ?s = Ok () t"
    by (simp add: unlock_tokens_def locked_balance_def get_market_def sample_defs run_eval)
  show ?thesis using t unlock_tokens_once [OF t] unfolding Let_def by blast
qed

lemma remove_vote_state_run:
  assumes "remove_vote_state i a s = Ok r t"
  shows "s_VoteTally (vts t) = s_VoteTally (vts s)"
  using assms by (auto simp: remove_vote_state_def run_simps)

lemma for_each_remove_vote_state:
  "for_each as (remove_vote_state i) s = Ok r t \<Longrightarrow> s_VoteTally (vts t) = s_VoteTally (vts s)"
  by (induction as arbitrary: s) (auto simp: run_simps dest!: remove_vote_state_run)

lemma for_each_remove_tally:
  "for_each ns (remove_tally i) s = Ok r t \<Longrightarrow>
     s_VoteTally (vts t) (j, k) = (if j = i \<and> k \<in> of_nat ` set ns then None else s_VoteTally (vts s) (j, k))
     \<and> s_DisputeVoters (vts t) = s_DisputeVoters (vts s)"
proof (induction ns arbitrary: s)
  case (Cons n ns)
  then obtain u where u: "remove_tally i n s = Ok () u" "for_each ns (remove_tally i) u = Ok r t"
    by (auto simp: run_simps)
  from u(1) have "s_VoteTally (vts u) = (s_VoteTally (vts s))((i, of_nat n) := None)"
    "s_DisputeVoters (vts u) = s_DisputeVoters (vts s)"
    by (auto simp: remove_tally_def run_simps)
  with Cons.IH [OF u(2)] show ?case by auto
qed (simp add: run_simps)

text \<open>
  Clean-up is incomplete for the cancel outcome: pruning the voting state of a market forgets
  the registry and the tallies of its numbered outcomes, but a tally of the cancel outcome, which
  is not one of them, stays in storage.
\<close>

theorem prune_voting_state_effect:
  assumes "prune_market_voting_state i n s = Ok () t"
  shows "s_DisputeVoters (vts t) i = None \<and> (\<forall>k < n. s_VoteTally (vts t) (i, k) = None) \<and>
    get_tally t i CANCEL_OUTCOME_INDEX = get_tally s i CANCEL_OUTCOME_INDEX"
proof -
  obtain u where u': "(case s_DisputeVoters (vts s) i of
      Some voters \<Rightarrow> for_each voters (remove_vote_state i) | None \<Rightarrow> ret ()) s = Ok () u"
    and v': "thn (p_remove (PVoting (K_DisputeVoters i))
        (upd_vts (\<lambda>k. k\<lparr>s_DisputeVoters := (s_DisputeVoters k)(i := None)\<rparr>)))
        (for_each [0..<unat n] (remove_tally i)) u = Ok () t"
    using assms unfolding prune_market_voting_state_def bnd_Ok thn_Ok reads_Ok by blast
  from u' have u: "s_VoteTally (vts u) = s_VoteTally (vts s)"
    by (auto simp: run_simps split: option.splits dest!: for_each_remove_vote_state)
  from v' obtain v where
    v: "vts v = (vts u)\<lparr>s_DisputeVoters := (s_DisputeVoters (vts u))(i := None)\<rparr>" and
    t: "for_each [0..<unat n] (remove_tally i) v = Ok () t"
    unfolding thn_Ok p_remove_Ok by force
  have idx: "k \<in> of_nat ` set [0..<unat n] \<longleftrightarrow> k < n" for k :: u32
  proof
    assume "k < n"
    then have "unat k < unat n" by (simp add: word_less_nat_alt)
    then have "of_nat (unat k) \<in> (of_nat ` set [0..<unat n] :: u32 set)" by (intro imageI) simp
    then show "k \<in> of_nat ` set [0..<unat n]" by simp
  next
    assume "k \<in> of_nat ` set [0..<unat n]"
    then obtain m where "k = of_nat m" "m < unat n" by auto
    then show "k < n" using unat_u32_bound [of n] by (simp add: word_less_nat_alt unat_of_nat)
  qed
  have "\<not> CANCEL_OUTCOME_INDEX < n"
    by (simp add: CANCEL_OUTCOME_INDEX_def not_less word_order.extremum)
  then show ?thesis
    using for_each_remove_tally [OF t] idx u v
    by (auto simp: get_tally_def)
qed

theorem prune_voting_state_effect_witness:
  "\<exists>t. prune_market_voting_state 1 2
         (upd_vts (\<lambda>k. k\<lparr>s_VoteTally := [(1, CANCEL_OUTCOME_INDEX) \<mapsto> 50]\<rparr>) sample_st) = Ok () t
       \<and> get_tally t 1 CANCEL_OUTCOME_INDEX = 50"
proof -
  let ?s = "upd_vts (\<lambda>k. k\<lparr>s_VoteTally := [(1, CANCEL_OUTCOME_INDEX) \<mapsto> 50]\<rparr>) sample_st"
  have e: "[0..<2] = [0, 1]" by (simp add: upt_rec)
  obtain t where t: "prune_market_voting_state 1 2 ?s = Ok () t"
    by (simp add: prune_market_voting_state_def remove_tally_def sample_defs run_eval e)
  have c: "get_tally ?s 1 CANCEL_OUTCOME_INDEX = 50" by (simp add: get_tally_def)
  show ?thesis using t prune_voting_state_effect [OF t] c by fastforce
qed

end
