(* ===== verification/Event_Archive.thy ===== *)
theory Event_Archive
  imports Voting
begin

text \<open>
  \<^verbatim>\<open>event_archive.rs\<close>: the tombstones of pruned markets and their paginated listing; and the first
  part of \<^verbatim>\<open>resolution.rs\<close>, the configuration of the dispute window.
\<close>

section \<open>The archive (event_archive.rs)\<close>

definition MAX_PAGE_LIMIT :: u32 where "MAX_PAGE_LIMIT = 100"  \<comment> \<open>\<^verbatim>\<open>queries.rs\<close>\<close>

definition ARCHIVE_TTL_THRESHOLD :: u32 where "ARCHIVE_TTL_THRESHOLD = 100"
definition ARCHIVE_TTL_EXTEND :: u32 where "ARCHIVE_TTL_EXTEND = 1000"

definition get_archived_count :: "'w st \<Rightarrow> u64" where
  "get_archived_count s = (case s_ArchivedMarketCount (arch s) of None \<Rightarrow> 0 | Some n \<Rightarrow> n)"

definition archive_market :: "'w ctx \<Rightarrow> u64 \<Rightarrow> ('w, unit) contract" where
  "archive_market e market_id =
     bnd (reads get_archived_count) (\<lambda>n.
     bnd (add_word n 1) (\<lambda>count.
     thn (p_set e (PArchive (K_ArchivedMarket count))
            (upd_arch (\<lambda>k. k\<lparr>s_ArchivedMarket := (s_ArchivedMarket k)(count \<mapsto> market_id)\<rparr>)))
     (thn (extend_ttl e (PArchive (K_ArchivedMarket count)) ARCHIVE_TTL_THRESHOLD ARCHIVE_TTL_EXTEND)
     (thn (p_set e (PArchive K_ArchivedMarketCount)
            (upd_arch (\<lambda>k. k\<lparr>s_ArchivedMarketCount := Some count\<rparr>)))
     (extend_ttl e (PArchive K_ArchivedMarketCount) ARCHIVE_TTL_THRESHOLD ARCHIVE_TTL_EXTEND)))))"

text \<open>The loop of the listing: present entries are collected and kept alive.\<close>

fun archived_loop :: "'w ctx \<Rightarrow> u64 list \<Rightarrow> ('w, u64 list) contract" where
  "archived_loop e [] = ret []"
| "archived_loop e (i # is) =
     bnd (reads (\<lambda>s. s_ArchivedMarket (arch s) i)) (\<lambda>r.
     case r of
       None \<Rightarrow> archived_loop e is
     | Some market_id \<Rightarrow>
         thn (extend_ttl e (PArchive (K_ArchivedMarket i)) ARCHIVE_TTL_THRESHOLD ARCHIVE_TTL_EXTEND)
         (bnd (archived_loop e is) (\<lambda>rest. ret (market_id # rest))))"

definition get_archived_market_ids :: "'w ctx \<Rightarrow> u32 \<Rightarrow> u32 \<Rightarrow> ('w, u64 list) contract" where
  "get_archived_market_ids e offset limit =
     bnd (reads get_archived_count) (\<lambda>count.
     let limit = min limit MAX_PAGE_LIMIT;
         start = min (ucast offset) count in
     bnd (add_word start (ucast limit)) (\<lambda>stop.
     let stop = min stop count in
     bnd (add_word start 1) (\<lambda>first.
     archived_loop e (range_incl first stop))))"

section \<open>The dispute window (resolution.rs)\<close>

definition DEFAULT_DISPUTE_WINDOW_SECONDS :: u64 where "DEFAULT_DISPUTE_WINDOW_SECONDS = 259200"
definition MIN_DISPUTE_WINDOW_SECONDS :: u64 where "MIN_DISPUTE_WINDOW_SECONDS = 3600"
definition MAX_DISPUTE_WINDOW_SECONDS :: u64 where "MAX_DISPUTE_WINDOW_SECONDS = 30 * 24 * 60 * 60"
definition VOTING_PERIOD_SECONDS :: u64 where "VOTING_PERIOD_SECONDS = 259200"
definition MAJORITY_THRESHOLD_BPS :: i128 where "MAJORITY_THRESHOLD_BPS = 6000"

definition get_default_dispute_window :: "'w st \<Rightarrow> u64" where
  "get_default_dispute_window s =
     (case c_DefaultDisputeWindow (conf s) of None \<Rightarrow> DEFAULT_DISPUTE_WINDOW_SECONDS | Some x \<Rightarrow> x)"

definition get_dispute_window_bounds :: "'w st \<Rightarrow> u64 \<times> u64" where
  "get_dispute_window_bounds s =
     ((case c_MinDisputeWindow (conf s) of None \<Rightarrow> MIN_DISPUTE_WINDOW_SECONDS | Some x \<Rightarrow> x),
      (case c_MaxDisputeWindow (conf s) of None \<Rightarrow> MAX_DISPUTE_WINDOW_SECONDS | Some x \<Rightarrow> x))"

definition validate_dispute_window :: "u64 \<Rightarrow> ('w, unit) contract" where
  "validate_dispute_window seconds =
     bnd (reads get_dispute_window_bounds) (\<lambda>(mn, mx).
     err_if (seconds < mn \<or> mx < seconds) InvalidAmount)"

definition set_dispute_window :: "'w ctx \<Rightarrow> u64 \<Rightarrow> ('w, unit) contract" where
  "set_dispute_window e seconds =
     thn (require_admin e)
     (thn (validate_dispute_window seconds)
     (p_set e (PConfig K_DefaultDisputeWindow) (upd_conf (\<lambda>c. c\<lparr>c_DefaultDisputeWindow := Some seconds\<rparr>))))"

definition set_dispute_window_bounds :: "'w ctx \<Rightarrow> u64 \<Rightarrow> u64 \<Rightarrow> ('w, unit) contract" where
  "set_dispute_window_bounds e min_seconds max_seconds =
     thn (require_admin e)
     (thn (err_if (min_seconds = 0 \<or> max_seconds < min_seconds) InvalidAmount)
     (bnd (reads get_default_dispute_window) (\<lambda>default_window.
     thn (err_if (default_window < min_seconds \<or> max_seconds < default_window) InvalidAmount)
     (thn (p_set e (PConfig K_MinDisputeWindow) (upd_conf (\<lambda>c. c\<lparr>c_MinDisputeWindow := Some min_seconds\<rparr>)))
     (p_set e (PConfig K_MaxDisputeWindow) (upd_conf (\<lambda>c. c\<lparr>c_MaxDisputeWindow := Some max_seconds\<rparr>)))))))"

definition resolve_market_dispute_window :: "u64 option \<Rightarrow> ('w, u64) contract" where
  "resolve_market_dispute_window dispute_window_seconds =
     bnd (reads get_default_dispute_window) (\<lambda>default_window.
     let window = (case dispute_window_seconds of Some x \<Rightarrow> x | None \<Rightarrow> default_window) in
     thn (validate_dispute_window window)
     (ret window))"

section \<open>Runs and views\<close>

lemma keeps_archive [view_rules]:
  assumes "\<And>s x. v (s\<lparr>live_until := x\<rparr>) = v s"
  shows "(\<And>s x. v (s\<lparr>arch := x\<rparr>) = v s) \<Longrightarrow> keeps v (archive_market e i)"
    and "keeps v (archived_loop e is)" and "keeps v (get_archived_market_ids e offset limit)"
proof -
  show loop: "keeps v (archived_loop e is)" for "is"
    by (induction "is") ((simp, intro view_rules; simp add: assms)+)
  show "keeps v (archive_market e i)" if "\<And>s x. v (s\<lparr>arch := x\<rparr>) = v s"
    unfolding archive_market_def by ((intro view_rules; simp add: assms that)+)
  show "keeps v (get_archived_market_ids e offset limit)"
    unfolding get_archived_market_ids_def by ((intro view_rules loop)+)
qed

lemma archive_market_run:
  assumes "archive_market e i s = Ok r t"
  shows "get_archived_count t = get_archived_count s + 1 \<and>
    unat (get_archived_count t) = Suc (unat (get_archived_count s)) \<and>
    s_ArchivedMarket (arch t) = (s_ArchivedMarket (arch s))(get_archived_count t \<mapsto> i)"
proof -
  have "get_archived_count t = get_archived_count s + 1 \<and> unat (get_archived_count s) + 1 < 2 ^ 64 \<and>
    s_ArchivedMarket (arch t) = (s_ArchivedMarket (arch s))(get_archived_count t \<mapsto> i)"
    using assms by (auto simp: archive_market_def run_simps get_archived_count_def)
  then show ?thesis using unat_add_no_overflow [of "get_archived_count s" 1] by simp
qed

lemma validate_dispute_window_Ok [run_simps]:
  "validate_dispute_window x s = Ok r t \<longleftrightarrow>
     fst (get_dispute_window_bounds s) \<le> x \<and> x \<le> snd (get_dispute_window_bounds s) \<and> t = s"
  by (auto simp: validate_dispute_window_def run_simps not_less split: prod.splits)

lemma resolve_market_dispute_window_Ok [run_simps]:
  "resolve_market_dispute_window d s = Ok r t \<longleftrightarrow>
     r = (case d of Some x \<Rightarrow> x | None \<Rightarrow> get_default_dispute_window s) \<and>
     fst (get_dispute_window_bounds s) \<le> r \<and> r \<le> snd (get_dispute_window_bounds s) \<and> t = s"
  by (auto simp: resolve_market_dispute_window_def run_simps Let_def split: option.splits)

lemma keeps_dispute_window [view_rules]:
  assumes "\<And>s x. v (s\<lparr>live_until := x\<rparr>) = v s" and "\<And>s x. v (s\<lparr>conf := x\<rparr>) = v s"
  shows "keeps v (set_dispute_window e x)" "keeps v (set_dispute_window_bounds e x y)"
  unfolding set_dispute_window_def set_dispute_window_bounds_def
  by ((intro view_rules keepsI; simp add: assms run_simps)+)

lemma keeps_resolve_market_dispute_window [view_rules]: "keeps v (resolve_market_dispute_window d)"
  by (auto simp: keeps_def run_simps)

text \<open>The default window lies between the bounds, whichever of the two setters runs.\<close>

definition window_inv :: "'w st \<Rightarrow> bool" where
  "window_inv s \<longleftrightarrow> 0 < fst (get_dispute_window_bounds s) \<and>
     fst (get_dispute_window_bounds s) \<le> get_default_dispute_window s \<and>
     get_default_dispute_window s \<le> snd (get_dispute_window_bounds s)"

lemmas window_defs = window_inv_def get_dispute_window_bounds_def get_default_dispute_window_def

lemma set_dispute_window_inv: "window_inv s \<Longrightarrow> set_dispute_window e x s = Ok r t \<Longrightarrow> window_inv t"
  by (auto simp: set_dispute_window_def window_defs run_simps split: option.splits)

lemma set_dispute_window_bounds_inv:
  "set_dispute_window_bounds e x y s = Ok r t \<Longrightarrow> window_inv t"
  by (auto simp: set_dispute_window_bounds_def window_defs run_simps not_less word_neq_0_conv
      split: option.splits)

text \<open>
  A usable dispute window: the default window always lies between the configured bounds (and
  is not zero), both setters keep it there whatever the admin passes, and therefore a market that
  names no window of its own always gets one; a window it names is taken exactly when it lies
  between the bounds.
\<close>

theorem dispute_window_usable:
  assumes "window_inv s"
  shows "(set_dispute_window e x s = Ok () t \<longrightarrow> window_inv t \<and> get_default_dispute_window t = x) \<and>
    (set_dispute_window_bounds e x y s = Ok () t \<longrightarrow> window_inv t \<and> get_dispute_window_bounds t = (x, y)) \<and>
    resolve_market_dispute_window None s = Ok (get_default_dispute_window s) s \<and>
    ((\<exists>u. resolve_market_dispute_window (Some x) s = Ok x u) \<longleftrightarrow>
       fst (get_dispute_window_bounds s) \<le> x \<and> x \<le> snd (get_dispute_window_bounds s))"
proof (intro conjI)
  show "set_dispute_window e x s = Ok () t \<longrightarrow> window_inv t \<and> get_default_dispute_window t = x"
    using set_dispute_window_inv [OF assms, of e x]
    by (auto simp: set_dispute_window_def run_simps get_default_dispute_window_def)
  show "set_dispute_window_bounds e x y s = Ok () t \<longrightarrow> window_inv t \<and> get_dispute_window_bounds t = (x, y)"
    using set_dispute_window_bounds_inv [of e x y s]
    by (auto simp: set_dispute_window_bounds_def run_simps get_dispute_window_bounds_def)
  show "resolve_market_dispute_window None s = Ok (get_default_dispute_window s) s"
    using assms by (simp add: run_simps window_inv_def)
qed (auto simp: run_simps)

theorem dispute_window_usable_witness:
  "window_inv sample_st \<and>
   resolve_market_dispute_window None sample_st = Ok DEFAULT_DISPUTE_WINDOW_SECONDS sample_st"
proof -
  have inv: "window_inv sample_st"
    by (simp add: window_defs sample_defs DEFAULT_DISPUTE_WINDOW_SECONDS_def
        MIN_DISPUTE_WINDOW_SECONDS_def MAX_DISPUTE_WINDOW_SECONDS_def)
  have "get_default_dispute_window sample_st = DEFAULT_DISPUTE_WINDOW_SECONDS"
    by (simp add: get_default_dispute_window_def sample_defs)
  then show ?thesis using inv dispute_window_usable [OF inv] by metis
qed

section \<open>The archive as a paged listing\<close>

text \<open>The archive is a list: archiving appends, and every index up to the count is present.\<close>

definition archive_ids :: "'w st \<Rightarrow> u64 list" where
  "archive_ids s = range_incl 1 (get_archived_count s)"

definition archive_listing :: "'w st \<Rightarrow> u64 list" where
  "archive_listing s = List.map_filter (s_ArchivedMarket (arch s)) (archive_ids s)"

lemma range_incl_Suc:
  assumes "unat (n + 1) = Suc (unat n)"
  shows "range_incl 1 (n + 1 :: u64) = range_incl 1 n @ [n + 1]"
proof -
  have "of_nat (Suc (unat n)) = n + 1" by (simp add: add.commute)
  then show ?thesis using assms by (simp add: range_incl_def)
qed

lemma archive_market_appends:
  assumes "archive_market e i s = Ok r t"
  shows "archive_listing t = archive_listing s @ [i]"
proof -
  let ?n = "get_archived_count s"
  have t: "get_archived_count t = ?n + 1" "unat (?n + 1) = Suc (unat ?n)"
    "s_ArchivedMarket (arch t) = (s_ArchivedMarket (arch s))(?n + 1 \<mapsto> i)"
    using archive_market_run [OF assms] by auto
  have "k \<noteq> ?n + 1" if "k \<in> set (range_incl 1 ?n)" for k
    using that t(2) by (auto simp: set_range_incl word_le_nat_alt)
  then have "List.map_filter (s_ArchivedMarket (arch t)) (range_incl 1 ?n)
      = List.map_filter (s_ArchivedMarket (arch s)) (range_incl 1 ?n)"
    by (auto simp: List.map_filter_def t(3) intro!: map_cong filter_cong)
  then show ?thesis
    by (simp add: archive_listing_def archive_ids_def t range_incl_Suc map_filter_append
        List.map_filter_simps)
qed

lemma archived_loop_eq:
  "\<exists>t. archived_loop e is s = Ok (List.map_filter (s_ArchivedMarket (arch s)) is) t \<and> arch t = arch s"
proof (induction "is" arbitrary: s)
  case (Cons i "is")
  show ?case
  proof (cases "s_ArchivedMarket (arch s) i")
    case None
    then show ?thesis using Cons [of s] by (simp add: run_eval map_filter_Cons)
  next
    case (Some x)
    let ?u = "s\<lparr>live_until := ext_ttl e (PArchive (K_ArchivedMarket i)) ARCHIVE_TTL_THRESHOLD ARCHIVE_TTL_EXTEND s\<rparr>"
    have "extend_ttl e (PArchive (K_ArchivedMarket i)) ARCHIVE_TTL_THRESHOLD ARCHIVE_TTL_EXTEND s = Ok () ?u"
      using Some by (simp add: extend_ttl_Ok)
    with Some Cons [of ?u] show ?thesis
      by (auto simp: bnd_def thn_def reads_def ret_def map_filter_Cons)
  qed
qed (simp add: run_eval List.map_filter_simps)

lemma unat_ucast_u64: "unat (ucast (x :: u32) :: u64) = unat x"
  using unat_u32_bound [of x] by (simp add: unsigned_ucast_eq take_bit_nat_eq_self)

lemma range_window:
  assumes "start = min (ucast offset) (count :: u64)"
  shows "range_incl (start + 1) (min (start + ucast limit) count)
       = take (unat (limit :: u32)) (drop (unat (offset :: u32)) (range_incl 1 count)) \<and>
    unat start + unat (ucast limit :: u64) < 2 ^ 64 \<and> unat start + 1 < 2 ^ 64"
proof -
  have st: "unat start = min (unat offset) (unat count)"
    using assms unat_ucast_u64 [of offset] by (simp add: min_def word_le_nat_alt)
  have b: "unat start + unat limit < 2 ^ 64" "unat start + 1 < 2 ^ 64"
    using st unat_u32_bound [of offset] unat_u32_bound [of limit] by auto
  have l: "unat (ucast limit :: u64) = unat limit" by (rule unat_ucast_u64)
  have s1: "unat (start + 1) = Suc (unat start)" "unat (start + ucast limit) = unat start + unat limit"
    using b unat_add_no_overflow [of start 1] unat_add_no_overflow [of start "ucast limit"] l by auto
  have "unat (min (start + ucast limit) count) = min (unat start + unat limit) (unat count)"
    using s1 by (simp add: min_def word_le_nat_alt)
  then have "range_incl (start + 1) (min (start + ucast limit) count)
      = map of_nat [Suc (min (unat offset) (unat count)) ..<
          Suc (min (min (unat offset) (unat count) + unat limit) (unat count))]"
    by (simp add: range_incl_def s1 st del: upt_Suc)
  also have "\<dots> = take (unat limit) (drop (unat offset) (range_incl 1 count))"
    by (simp only: upt_window range_incl_def drop_map take_map) simp
  finally show ?thesis using b l by simp
qed

lemma get_archived_market_ids_eq:
  "\<exists>t. get_archived_market_ids e offset limit s = Ok (List.map_filter (s_ArchivedMarket (arch s))
      (take (unat (min limit MAX_PAGE_LIMIT)) (drop (unat offset) (archive_ids s)))) t \<and> arch t = arch s"
proof -
  note w = range_window [of _ offset "get_archived_count s" "min limit MAX_PAGE_LIMIT", OF refl]
  show ?thesis
    using w archived_loop_eq [of e "take (unat (min limit MAX_PAGE_LIMIT))
        (drop (unat offset) (range_incl 1 (get_archived_count s)))" s]
    by (simp add: get_archived_market_ids_def bnd_def reads_def add_word_def Let_def archive_ids_def)
qed

definition archive_page :: "'w ctx \<Rightarrow> 'w st \<Rightarrow> u32 \<Rightarrow> u32 \<Rightarrow> u64 list" where
  "archive_page e s offset limit =
     (case get_archived_market_ids e offset limit s of Ok r _ \<Rightarrow> r | Err _ _ \<Rightarrow> [] | Trap \<Rightarrow> [])"

interpretation archive_pages:
  paged_listing "archive_page e s" "archive_ids s" "s_ArchivedMarket (arch s)" "unat MAX_PAGE_LIMIT" for e s
proof
  fix offset limit :: u32
  have "unat (min limit MAX_PAGE_LIMIT) = min (unat limit) (unat MAX_PAGE_LIMIT)"
    by (simp add: min_def word_le_nat_alt)
  then show "archive_page e s offset limit = List.map_filter (s_ArchivedMarket (arch s))
      (take (min (unat limit) (unat MAX_PAGE_LIMIT)) (drop (unat offset) (archive_ids s)))"
    using get_archived_market_ids_eq [of e offset limit s] by (auto simp: archive_page_def)
qed

text \<open>
  The archive is an append-only list that pages read completely: archiving a market appends
  its id and keeps all earlier ids in place; reading never fails, no page is longer than asked for
  or than the cap, and walking the pages from the start returns the whole archive in order, once.
\<close>

theorem archive_pages_complete:
  assumes "limit \<le> MAX_PAGE_LIMIT" and "n * unat limit < 2 ^ 32"
    and "length (archive_ids s) \<le> n * unat limit"
  shows "walk (archive_page e s) 0 limit n = archive_listing s \<and>
    (\<forall>offset l. length (archive_page e s offset l) \<le> min (unat l) 100) \<and>
    (\<forall>i t. archive_market e i s = Ok () t \<longrightarrow> archive_listing t = archive_listing s @ [i])"
proof -
  have "walk (archive_page e s) 0 limit n = archive_listing s"
    unfolding archive_listing_def using assms
    by (intro archive_pages.walk_complete) (simp_all add: word_le_nat_alt)
  moreover have "length (archive_page e s offset l) \<le> min (unat l) 100" for offset l
    using archive_pages.page_length [of e s offset l] by (simp add: MAX_PAGE_LIMIT_def)
  ultimately show ?thesis using archive_market_appends by blast
qed

theorem archive_pages_complete_witness:
  "\<exists>t. archive_market (sample_ctx 0 {}) 7 sample_st = Ok () t \<and>
     walk (archive_page (sample_ctx 0 {}) sample_st) 0 10 1 = [] \<and> archive_listing t = [7]"
proof -
  have c: "get_archived_count sample_st = 0" by (simp add: get_archived_count_def sample_defs)
  have empty: "archive_ids sample_st = []" by (simp add: archive_ids_def c range_incl_def)
  obtain t where t: "archive_market (sample_ctx 0 {}) 7 sample_st = Ok () t"
    by (simp add: archive_market_def get_archived_count_def sample_defs run_eval
        ARCHIVE_TTL_THRESHOLD_def ARCHIVE_TTL_EXTEND_def)
  have "walk (archive_page (sample_ctx 0 {}) sample_st) 0 10 1 = archive_listing sample_st \<and>
      (\<forall>i t. archive_market (sample_ctx 0 {}) i sample_st = Ok () t \<longrightarrow>
        archive_listing t = archive_listing sample_st @ [i])"
    using archive_pages_complete [of 10 1 sample_st "sample_ctx 0 {}"]
    by (simp add: empty MAX_PAGE_LIMIT_def)
  moreover have "archive_listing sample_st = []" by (simp add: archive_listing_def empty List.map_filter_simps)
  ultimately show ?thesis using t by auto
qed

end
