(* ===== verification/Lifecycle.thy ===== *)
theory Lifecycle
  imports Event_Archive
begin

text \<open>
  The abstract life cycle of one market, the specification the modules \<^verbatim>\<open>bets.rs\<close>, \<^verbatim>\<open>resolution.rs\<close>,
  \<^verbatim>\<open>disputes.rs\<close>, \<^verbatim>\<open>cancellation.rs\<close> and \<^verbatim>\<open>markets.rs\<close> are shown to implement: a step relation on market
  records (at a given ledger time), the edges of the status graph it allows, and what it keeps.
\<close>

section \<open>Steps of one market\<close>

definition adjusted_counts :: "Market \<Rightarrow> u32 \<Rightarrow> bool \<Rightarrow> (u32, u32) omap" where
  "adjusted_counts m out new = (if new then omap_set (m_winner_counts m) out
     ((case omap_get (m_winner_counts m) out of None \<Rightarrow> 0 | Some n \<Rightarrow> n) + 1) else m_winner_counts m)"

inductive market_change :: "u64 \<Rightarrow> Market \<Rightarrow> Market \<Rightarrow> bool" for now where
  mc_bet: "m_status m = Active \<Longrightarrow> now < m_deadline m \<Longrightarrow> now < m_resolution_deadline m \<Longrightarrow>
    unat out < length (m_options m) \<Longrightarrow>
    market_change now m (m\<lparr>m_total_staked := m_total_staked m + x,
      m_outcome_stakes := omap_set (m_outcome_stakes m) out (get_outcome_stake m out + x),
      m_winner_counts := adjusted_counts m out new\<rparr>)"
| mc_oracle: "m_status m = Active \<Longrightarrow> m_resolution_deadline m \<le> now \<Longrightarrow>
    market_change now m (m\<lparr>m_status := PendingResolution, m_winning_outcome := Some out,
      m_pending_resolution_timestamp := Some now\<rparr>)"
| mc_dispute: "m_status m = PendingResolution \<Longrightarrow> m_pending_resolution_timestamp m = Some p \<Longrightarrow>
    unat p + unat w < 2 ^ 64 \<Longrightarrow> now < p + w \<Longrightarrow>
    unat (m_resolution_deadline m) + unat w < 2 ^ 64 \<Longrightarrow>
    market_change now m (m\<lparr>m_status := Disputed, m_dispute_timestamp := Some now,
      m_resolution_deadline := m_resolution_deadline m + w\<rparr>)"
| mc_finalize: "m_status m = PendingResolution \<Longrightarrow> m_pending_resolution_timestamp m = Some p \<Longrightarrow>
    unat p + unat w < 2 ^ 64 \<Longrightarrow> p + w \<le> now \<Longrightarrow> m_winning_outcome m = Some out \<Longrightarrow>
    market_change now m (m\<lparr>m_status := Resolved, m_resolved_at := Some now\<rparr>)"
| mc_voted: "m_status m = Disputed \<Longrightarrow> m_dispute_timestamp m = Some d \<Longrightarrow>
    unat d + unat VOTING_PERIOD_SECONDS < 2 ^ 64 \<Longrightarrow> d + VOTING_PERIOD_SECONDS \<le> now \<Longrightarrow>
    market_change now m (m\<lparr>m_status := Resolved, m_winning_outcome := Some out, m_resolved_at := Some now\<rparr>)"
| mc_admin: "m_status m \<notin> {Resolved, Cancelled} \<Longrightarrow> unat out < length (m_options m) \<Longrightarrow>
    market_change now m (m\<lparr>m_status := Resolved, m_winning_outcome := Some out, m_resolved_at := Some now\<rparr>)"
| mc_cancel: "m_status m \<notin> {Resolved, Cancelled} \<Longrightarrow> market_change now m (m\<lparr>m_status := Cancelled\<rparr>)"
| mc_deposit: "m_status m = Resolved \<Longrightarrow> 0 < m_creation_deposit m \<Longrightarrow>
    market_change now m (m\<lparr>m_creation_deposit := 0\<rparr>)"

inductive_cases market_changeE: "market_change now m m'"

section \<open>The status graph\<close>

fun status_edge :: "MarketStatus \<Rightarrow> MarketStatus \<Rightarrow> bool" where
  "status_edge Active q = (q \<in> {PendingResolution, Resolved, Cancelled})"
| "status_edge PendingResolution q = (q \<in> {Disputed, Resolved, Cancelled})"
| "status_edge Disputed q = (q \<in> {Resolved, Cancelled})"
| "status_edge Resolved q = False"
| "status_edge Cancelled q = False"

lemma market_change_edge:
  "market_change now m m' \<Longrightarrow> m_status m' = m_status m \<or> status_edge (m_status m) (m_status m')"
  by (erule market_changeE) (auto elim: status_edge.elims, (cases "m_status m"; simp)+)

text \<open>A rank that every change of status raises: a market changes status at most three times.\<close>

fun status_rank :: "MarketStatus \<Rightarrow> nat" where
  "status_rank Active = 0"
| "status_rank PendingResolution = 1"
| "status_rank Disputed = 2"
| "status_rank Resolved = 3"
| "status_rank Cancelled = 3"

lemma status_edge_rank: "status_edge p q \<Longrightarrow> status_rank p < status_rank q"
  by (cases p; cases q) simp_all

section \<open>What a step keeps\<close>

text \<open>The terms a market was created with.\<close>

definition market_terms where
  "market_terms m = (m_id m, m_creator m, m_description m, m_options m, m_deadline m,
     m_oracle_config m, m_payout_mode m, m_tier m, m_parent_id m, m_parent_outcome_idx m,
     m_token_address m)"

lemma market_change_terms: "market_change now m m' \<Longrightarrow> market_terms m' = market_terms m"
  by (erule market_changeE) (simp_all add: market_terms_def)

lemma market_change_id: "market_change now m m' \<Longrightarrow> m_id m' = m_id m"
  by (erule market_changeE) simp_all

text \<open>No step records the ledger at which voting weights would be read.\<close>

lemma market_change_snapshot:
  "market_change now m m' \<Longrightarrow> m_dispute_snapshot_ledger m' = m_dispute_snapshot_ledger m"
  by (erule market_changeE) simp_all

text \<open>A finished market keeps everything but its deposit, and that only goes back to zero.\<close>

lemma market_change_terminal:
  "market_change now m m' \<Longrightarrow> m_status m \<in> {Resolved, Cancelled} \<Longrightarrow>
     m_status m = Resolved \<and> m' = m\<lparr>m_creation_deposit := 0\<rparr>"
  by (erule market_changeE) auto

section \<open>Stake conservation\<close>

text \<open>
  The books of a market: the pool is the sum of the outcome stakes, and stakes exist only for
  outcomes of the market. The creation deposit is separate from the pool.
\<close>

definition stake_sum :: "Market \<Rightarrow> i128" where
  "stake_sum m = (\<Sum>i<length (m_options m). get_outcome_stake m (of_nat i))"

definition books_ok :: "Market \<Rightarrow> bool" where
  "books_ok m \<longleftrightarrow> m_total_staked m = stake_sum m \<and> length (m_options m) < 2 ^ 32 \<and>
     omap_wf (m_outcome_stakes m) \<and> (\<forall>(k, x) \<in> set (m_outcome_stakes m). unat k < length (m_options m))"

lemma inj_on_of_nat_u32: "n < 2 ^ 32 \<Longrightarrow> inj_on (of_nat :: nat \<Rightarrow> u32) {..<n}"
  by (rule inj_on_inverseI [of _ unat]) (simp add: unat_of_nat)

lemma set_omap_set: "set (omap_set m k v) \<subseteq> insert (k, v) (set m)"
  by (induction m k v rule: omap_set.induct) auto

lemma bet_stake_sum:
  assumes "length (m_options m) < 2 ^ 32" and "unat out < length (m_options m)"
  shows "stake_sum (m\<lparr>m_total_staked := y,
      m_outcome_stakes := omap_set (m_outcome_stakes m) out (get_outcome_stake m out + x),
      m_winner_counts := c\<rparr>)
    = stake_sum m + x"
proof -
  let ?w = "\<lambda>r. case r of None \<Rightarrow> 0 | Some (z :: int) \<Rightarrow> z"
  have "of_nat (unat out) = out" by simp
  with om.get_default_sum [OF inj_on_of_nat_u32 [OF assms(1)] assms(2), of ?w "m_outcome_stakes m"
      "get_outcome_stake m out + x"]
  show ?thesis by (simp add: stake_sum_def get_outcome_stake_def)
qed

lemma market_change_books: "market_change now m m' \<Longrightarrow> books_ok m \<Longrightarrow> books_ok m'"
proof (erule market_changeE)
  fix out x new
  assume m': "m' = m\<lparr>m_total_staked := m_total_staked m + x,
      m_outcome_stakes := omap_set (m_outcome_stakes m) out (get_outcome_stake m out + x),
      m_winner_counts := adjusted_counts m out new\<rparr>"
    and out: "unat out < length (m_options m)" and b: "books_ok m"
  have "set (omap_set (m_outcome_stakes m) out (get_outcome_stake m out + x))
      \<subseteq> insert (out, get_outcome_stake m out + x) (set (m_outcome_stakes m))" by (rule set_omap_set)
  moreover have "omap_wf (omap_set (m_outcome_stakes m) out (get_outcome_stake m out + x))"
    using b by (simp add: books_ok_def omap_wf_set)
  moreover have "stake_sum m' = stake_sum m + x"
    unfolding m' using b out by (intro bet_stake_sum) (simp_all add: books_ok_def)
  ultimately show "books_ok m'" using b out by (auto simp: books_ok_def m')
qed (auto simp: books_ok_def stake_sum_def get_outcome_stake_def)

section \<open>Sequences of steps\<close>

text \<open>
  The life of a market: any number of steps at non-decreasing ledger times.
\<close>

inductive market_run :: "u64 \<Rightarrow> Market \<Rightarrow> u64 \<Rightarrow> Market \<Rightarrow> bool" where
  run_start: "market_run now m now m"
| run_wait: "market_run start m now m' \<Longrightarrow> now \<le> later \<Longrightarrow> market_run start m later m'"
| run_step: "market_run start m now m' \<Longrightarrow> now \<le> later \<Longrightarrow> market_change later m' m'' \<Longrightarrow>
    market_run start m later m''"

lemma market_run_terms: "market_run a m b m' \<Longrightarrow> market_terms m' = market_terms m"
  by (induction rule: market_run.induct) (auto dest: market_change_terms)

lemma market_run_books: "market_run a m b m' \<Longrightarrow> books_ok m \<Longrightarrow> books_ok m'"
  by (induction rule: market_run.induct) (auto dest: market_change_books)

lemma market_run_rank: "market_run a m b m' \<Longrightarrow>
    m_status m' = m_status m \<or> status_rank (m_status m) < status_rank (m_status m')"
proof (induction rule: market_run.induct)
  case (run_step a m now m' b m'')
  then show ?case using market_change_edge [OF run_step.hyps(3)] status_edge_rank by fastforce
qed simp_all

lemma market_run_finished:
  "market_run a m b m' \<Longrightarrow> m_status m \<in> {Resolved, Cancelled} \<Longrightarrow>
     m' = m \<or> m' = m\<lparr>m_creation_deposit := 0\<rparr>"
proof (induction rule: market_run.induct)
  case (run_step a m now m' b m'')
  then have "m_status m' \<in> {Resolved, Cancelled}" by auto
  with market_change_terminal [OF run_step.hyps(3)] run_step show ?case by auto
qed simp_all

end
