(* ===== verification/Markets.thy ===== *)
theory Markets
  imports Lifecycle
begin

text \<open>
  \<^verbatim>\<open>markets.rs\<close>: creation of markets with deposit, creation fee, tier access and conditional parents,
  the configuration of these, the release of the deposit, pruning; and the index clean-up of
  \<^verbatim>\<open>monitoring.rs\<close>. The record operations are in \<open>Market_Store\<close>.
\<close>

section \<open>Configuration\<close>

definition get_creator_reputation :: "'w st \<Rightarrow> Address \<Rightarrow> CreatorReputation" where
  "get_creator_reputation s creator =
     (case s_CreatorReputation (mkts s) creator of None \<Rightarrow> Rep_None | Some r \<Rightarrow> r)"

definition set_creator_reputation ::
  "'w ctx \<Rightarrow> Address \<Rightarrow> CreatorReputation \<Rightarrow> ('w, unit) contract" where
  "set_creator_reputation e creator reputation =
     thn (require_admin e)
     (p_set e (PMarkets (K_CreatorReputation creator))
        (upd_mkts (\<lambda>k. k\<lparr>s_CreatorReputation := (s_CreatorReputation k)(creator \<mapsto> reputation)\<rparr>)))"

definition get_creation_deposit :: "'w st \<Rightarrow> i128" where
  "get_creation_deposit s = (case c_CreationDeposit (conf s) of None \<Rightarrow> 0 | Some x \<Rightarrow> x)"

definition set_creation_deposit :: "'w ctx \<Rightarrow> i128 \<Rightarrow> ('w, unit) contract" where
  "set_creation_deposit e amount =
     thn (require_admin e)
     (p_set e (PConfig K_CreationDeposit) (upd_conf (\<lambda>c. c\<lparr>c_CreationDeposit := Some amount\<rparr>)))"

definition get_creation_fee :: "'w st \<Rightarrow> i128" where
  "get_creation_fee s = (case c_CreationFee (conf s) of None \<Rightarrow> 0 | Some x \<Rightarrow> x)"

definition set_creation_fee :: "'w ctx \<Rightarrow> i128 \<Rightarrow> ('w, unit) contract" where
  "set_creation_fee e amount =
     thn (require_admin e)
     (p_set e (PConfig K_CreationFee) (upd_conf (\<lambda>c. c\<lparr>c_CreationFee := Some amount\<rparr>)))"

definition get_protocol_treasury :: "'w ctx \<Rightarrow> 'w st \<Rightarrow> Address" where
  "get_protocol_treasury e s =
     (case c_ProtocolTreasury (conf s) of None \<Rightarrow> current_contract_address e | Some a \<Rightarrow> a)"

definition set_protocol_treasury :: "'w ctx \<Rightarrow> Address \<Rightarrow> ('w, unit) contract" where
  "set_protocol_treasury e treasury =
     thn (require_admin e)
     (p_set e (PConfig K_ProtocolTreasury) (upd_conf (\<lambda>c. c\<lparr>c_ProtocolTreasury := Some treasury\<rparr>)))"

section \<open>Creation\<close>

definition MIN_DEADLINE_GAP :: u64 where "MIN_DEADLINE_GAP = 86400"

definition validate_parent_market :: "u64 \<Rightarrow> u32 \<Rightarrow> ('w, unit) contract" where
  "validate_parent_market parent_id parent_outcome_idx =
     bnd (reads (\<lambda>s. get_market s parent_id)) (\<lambda>found.
     bnd (ok_or found MarketNotFound) (\<lambda>parent_market.
     thn (err_if (m_status parent_market \<noteq> Resolved) ParentMarketNotResolved)
     (bnd (ok_or (m_winning_outcome parent_market) ParentMarketNotResolved) (\<lambda>parent_winning_outcome.
     thn (err_if (parent_winning_outcome \<noteq> parent_outcome_idx) ParentMarketInvalidOutcome)
     (err_if (length (m_options parent_market) \<le> unat parent_outcome_idx) InvalidOutcome)))))"

definition tier_allowed :: "MarketTier \<Rightarrow> CreatorReputation \<Rightarrow> bool" where
  "tier_allowed tier reputation =
     (case tier of
        Basic \<Rightarrow> True
      | Pro \<Rightarrow> reputation \<in> {Rep_Pro, Rep_Institutional}
      | Institutional \<Rightarrow> reputation = Rep_Institutional)"

definition deposit_required :: "CreatorReputation \<Rightarrow> bool" where
  "deposit_required reputation \<longleftrightarrow> reputation \<notin> {Rep_Pro, Rep_Institutional}"

text \<open>The time and size checks at the head of the function.\<close>

definition validate_new_market ::
  "'w ctx \<Rightarrow> string list \<Rightarrow> u64 \<Rightarrow> u64 \<Rightarrow> u64 \<Rightarrow> u32 \<Rightarrow> ('w, unit) contract" where
  "validate_new_market e options deadline resolution_deadline parent_id parent_outcome_idx =
     thn (err_if (deadline \<le> timestamp e) InvalidTimeRange)
     (thn (err_if (resolution_deadline \<le> deadline) InvalidTimeRange)
     (bnd (sub_word resolution_deadline deadline) (\<lambda>gap.
     thn (err_if (gap < MIN_DEADLINE_GAP) InvalidTimeRange)
     (thn (err_if (unat MAX_OUTCOMES_PER_MARKET < length options) TooManyOutcomes)
     (doif (0 < parent_id)
        (thn (validate_parent_market parent_id parent_outcome_idx)
        (bnd (reads (\<lambda>s. get_market s parent_id)) (\<lambda>found.
        bnd (ok_or found MarketNotFound) (\<lambda>parent_market.
        err_if (m_resolution_deadline parent_market < deadline) DeadlinePassed)))))))))"

text \<open>The creation fee goes to the treasury, the deposit to the contract.\<close>

definition charge_creator ::
  "'w ctx \<Rightarrow> Address \<Rightarrow> Address \<Rightarrow> bool \<Rightarrow> i128 \<Rightarrow> i128 \<Rightarrow> ('w, unit) contract" where
  "charge_creator e creator native_token needs_deposit creation_deposit creation_fee =
     bnd (token_balance e native_token creator) (\<lambda>balance.
     bnd (add_i128 (if needs_deposit then creation_deposit else 0) creation_fee) (\<lambda>total_required.
     thn (err_if (0 < total_required \<and> balance < total_required) InsufficientDeposit)
     (thn (doif (0 < creation_fee)
        (bnd (reads (get_protocol_treasury e)) (\<lambda>treasury.
        thn (token_transfer e native_token creator treasury creation_fee)
        (emit_fee_collected 0 native_token treasury creation_fee))))
     (doif (needs_deposit \<and> 0 < creation_deposit)
        (token_transfer e native_token creator (current_contract_address e) creation_deposit)))))"

definition new_market where
  "new_market count creator description options deadline resolution_deadline oracle_config tier
       creation_deposit parent_id parent_outcome_idx native_token =
     \<lparr>m_id = count, m_creator = creator, m_description = description, m_options = options,
      m_status = Active, m_deadline = deadline, m_resolution_deadline = resolution_deadline,
      m_winning_outcome = None, m_oracle_config = oracle_config, m_total_staked = 0,
      m_payout_mode = Pull, m_tier = tier, m_creation_deposit = creation_deposit,
      m_parent_id = parent_id, m_parent_outcome_idx = parent_outcome_idx, m_resolved_at = None,
      m_token_address = native_token, m_outcome_stakes = [], m_pending_resolution_timestamp = None,
      m_dispute_snapshot_ledger = None, m_dispute_timestamp = None, m_winner_counts = [],
      m_total_claimed = 0\<rparr>"

definition get_market_count :: "'w st \<Rightarrow> u64" where
  "get_market_count s = (case i_MarketCount (inst s) of None \<Rightarrow> 0 | Some n \<Rightarrow> n)"

definition set_market_dispute_window :: "'w ctx \<Rightarrow> u64 \<Rightarrow> u64 \<Rightarrow> ('w, unit) contract" where
  "set_market_dispute_window e market_id x = p_set e (PMarkets (K_MarketDisputeWindow market_id))
     (upd_mkts (\<lambda>k. k\<lparr>s_MarketDisputeWindow := (s_MarketDisputeWindow k)(market_id \<mapsto> x)\<rparr>))"

definition create_market_with_dispute_window ::
  "'w ctx \<Rightarrow> Address \<Rightarrow> string \<Rightarrow> string list \<Rightarrow> u64 \<Rightarrow> u64 \<Rightarrow> OracleConfig \<Rightarrow> MarketTier \<Rightarrow> Address
     \<Rightarrow> u64 \<Rightarrow> u32 \<Rightarrow> u64 option \<Rightarrow> ('w, u64) contract" where
  "create_market_with_dispute_window e creator description options deadline resolution_deadline
       oracle_config tier native_token parent_id parent_outcome_idx dispute_window_seconds =
     thn (require_auth e creator)
     (thn require_not_paused_for_high_risk
     (thn (validate_new_market e options deadline resolution_deadline parent_id parent_outcome_idx)
     (bnd (reads (\<lambda>s. get_creator_reputation s creator)) (\<lambda>reputation.
     thn (err_if (\<not> tier_allowed tier reputation) InsufficientReputation)
     (bnd (reads get_creation_deposit) (\<lambda>creation_deposit.
     bnd (reads get_creation_fee) (\<lambda>creation_fee.
     thn (charge_creator e creator native_token (deposit_required reputation) creation_deposit creation_fee)
     (bnd (reads get_market_count) (\<lambda>n.
     bnd (add_word n 1) (\<lambda>count.
     bnd (resolve_market_dispute_window dispute_window_seconds) (\<lambda>dispute_window.
     let market = new_market count creator description options deadline resolution_deadline
           oracle_config tier (if deposit_required reputation then creation_deposit else 0)
           parent_id parent_outcome_idx native_token in
     thn (set_market e count market)
     (thn (set_market_dispute_window e count dispute_window)
     (thn (extend_ttl e (PMarkets (K_Market count)) TTL_LOW_THRESHOLD TTL_HIGH_THRESHOLD)
     (thn (extend_ttl e (PMarkets (K_MarketDisputeWindow count)) TTL_LOW_THRESHOLD TTL_HIGH_THRESHOLD)
     (thn (set_status e count Active)
     (thn (modify (upd_inst (\<lambda>i. i\<lparr>i_MarketCount := Some count\<rparr>)))
     (thn (emit_market_created count creator (m_description market) (of_nat (length options)) deadline)
     (ret count))))))))))))))))))"

definition create_market ::
  "'w ctx \<Rightarrow> Address \<Rightarrow> string \<Rightarrow> string list \<Rightarrow> u64 \<Rightarrow> u64 \<Rightarrow> OracleConfig \<Rightarrow> MarketTier \<Rightarrow> Address
     \<Rightarrow> u64 \<Rightarrow> u32 \<Rightarrow> ('w, u64) contract" where
  "create_market e creator description options deadline resolution_deadline oracle_config tier
       native_token parent_id parent_outcome_idx =
     create_market_with_dispute_window e creator description options deadline resolution_deadline
       oracle_config tier native_token parent_id parent_outcome_idx None"

section \<open>Other operations\<close>

definition get_market_dispute_window :: "'w st \<Rightarrow> u64 \<Rightarrow> u64" where
  "get_market_dispute_window s market_id =
     (case s_MarketDisputeWindow (mkts s) market_id of
        Some w \<Rightarrow> w | None \<Rightarrow> get_default_dispute_window s)"

definition set_payout_mode :: "'w ctx \<Rightarrow> u64 \<Rightarrow> PayoutMode \<Rightarrow> ('w, unit) contract" where
  "set_payout_mode e market_id mode =
     bnd (reads (\<lambda>s. get_market s market_id)) (\<lambda>found.
     bnd (ok_or found MarketNotFound) (\<lambda>market.
     thn (err_if (m_status market = Resolved) MarketNotActive)
     (update_market e (market\<lparr>m_payout_mode := mode\<rparr>))))"

text \<open>
  The key this function builds has two fields where the key type of \<^verbatim>\<open>bets.rs\<close> has three, so whether
  such an entry exists is an argument here.
\<close>

definition count_bets_for_outcome ::
  "(u64 \<Rightarrow> Address \<Rightarrow> bool) \<Rightarrow> 'w ctx \<Rightarrow> u64 \<Rightarrow> u32 \<Rightarrow> u32" where
  "count_bets_for_outcome has_pair_key e market_id outcome =
     (if has_pair_key market_id (current_contract_address e) then 1 else 0)"

definition release_creation_deposit :: "'w ctx \<Rightarrow> u64 \<Rightarrow> Address \<Rightarrow> ('w, unit) contract" where
  "release_creation_deposit e market_id native_token =
     bnd (reads (\<lambda>s. get_market s market_id)) (\<lambda>found.
     bnd (ok_or found MarketNotFound) (\<lambda>market.
     thn (require_auth e (m_creator market))
     (thn (err_if (m_status market \<noteq> Resolved) MarketNotActive)
     (let deposit = m_creation_deposit market in
      doif (0 < deposit)
        (thn (update_market e (market\<lparr>m_creation_deposit := 0\<rparr>))
        (token_transfer e native_token (current_contract_address e) (m_creator market) deposit))))))"

definition MAX_QUERY_LIMIT :: u32 where "MAX_QUERY_LIMIT = 50"

definition clamp_limit :: "u32 \<Rightarrow> u32" where
  "clamp_limit limit = min (max limit 1) MAX_QUERY_LIMIT"

definition remove_market :: "u64 \<Rightarrow> ('w, unit) contract" where
  "remove_market market_id = p_remove (PMarkets (K_Market market_id))
     (upd_mkts (\<lambda>k. k\<lparr>s_Market := (s_Market k)(market_id := None)\<rparr>))"

definition remove_market_dispute_window :: "u64 \<Rightarrow> ('w, unit) contract" where
  "remove_market_dispute_window market_id = p_remove (PMarkets (K_MarketDisputeWindow market_id))
     (upd_mkts (\<lambda>k. k\<lparr>s_MarketDisputeWindow := (s_MarketDisputeWindow k)(market_id := None)\<rparr>))"

definition prune_market :: "'w ctx \<Rightarrow> u64 \<Rightarrow> ('w, unit) contract" where
  "prune_market e market_id =
     bnd (reads (\<lambda>s. get_market s market_id)) (\<lambda>found.
     bnd (ok_or found MarketNotFound) (\<lambda>market.
     thn (err_if (m_status market \<noteq> Resolved) MarketNotActive)
     (bnd (ok_or (m_resolved_at market) MarketNotActive) (\<lambda>resolved_at.
     bnd (add_word resolved_at PRUNE_GRACE_PERIOD) (\<lambda>prunable_at.
     thn (err_if (timestamp e < prunable_at) MarketNotActive)
     (thn (archive_market e market_id)
     (thn (prune_market_voting_state market_id (of_nat (length (m_options market))))
     (thn (remove_status market_id Resolved)
     (thn (remove_market market_id)
     (thn (remove_market_dispute_window market_id)
     (emit_market_pruned market_id (timestamp e))))))))))))"

text \<open>\<^verbatim>\<open>monitoring.rs\<close>.\<close>

definition cleanup_expired_market_index :: "'w ctx \<Rightarrow> u64 \<Rightarrow> ('w, unit) contract" where
  "cleanup_expired_market_index e market_id =
     bnd (reads (\<lambda>s. get_market s market_id)) (\<lambda>found.
     case found of
       None \<Rightarrow> ret ()
     | Some market \<Rightarrow>
         doif (m_status market = Resolved)
           (case m_resolved_at market of
              None \<Rightarrow> ret ()
            | Some resolved_at \<Rightarrow>
                bnd (add_word resolved_at PRUNE_GRACE_PERIOD) (\<lambda>prunable_at.
                doif (prunable_at \<le> timestamp e) (remove_status market_id Resolved))))"

section \<open>Runs and views\<close>

text \<open>Everything a computation that only moves tokens and publishes events leaves alone.\<close>

definition stores where
  "stores s = (inst s, conf s, mkts s, bets s, fees s, vts s, orcs s, arch s, migs s)"

lemma validate_parent_market_Ok [run_simps]:
  "validate_parent_market i out s = Ok r t \<longleftrightarrow>
     (\<exists>p. get_market s i = Some p \<and> m_status p = Resolved \<and> m_winning_outcome p = Some out \<and>
        unat out < length (m_options p)) \<and> t = s"
  by (auto simp: validate_parent_market_def run_simps not_le)

lemma validate_new_market_Ok [run_simps]:
  "validate_new_market e options d rd i out s = Ok r t \<longleftrightarrow>
     timestamp e < d \<and> unat d + 86400 \<le> unat rd \<and> length options \<le> 100 \<and>
     (0 < i \<longrightarrow> (\<exists>p. get_market s i = Some p \<and> m_status p = Resolved \<and>
        m_winning_outcome p = Some out \<and> unat out < length (m_options p) \<and> d \<le> m_resolution_deadline p)) \<and>
     t = s"
proof -
  have gap: "\<not> rd \<le> d \<and> d \<le> rd \<and> \<not> rd - d < MIN_DEADLINE_GAP \<longleftrightarrow> unat d + 86400 \<le> unat rd"
    by (auto simp: word_le_nat_alt word_less_nat_alt MIN_DEADLINE_GAP_def unat_sub)
  have "validate_new_market e options d rd i out s = Ok r t \<longleftrightarrow>
     timestamp e < d \<and> (\<not> rd \<le> d \<and> d \<le> rd \<and> \<not> rd - d < MIN_DEADLINE_GAP) \<and> length options \<le> 100 \<and>
     (0 < i \<longrightarrow> (\<exists>p. get_market s i = Some p \<and> m_status p = Resolved \<and>
        m_winning_outcome p = Some out \<and> unat out < length (m_options p) \<and> d \<le> m_resolution_deadline p)) \<and> t = s"
    by (auto simp: validate_new_market_def run_simps MAX_OUTCOMES_PER_MARKET_def not_le not_less
        word_gt_0)
  then show ?thesis unfolding gap .
qed

lemma keeps_charge_creator [view_rules]:
  assumes "\<And>s x. v (s\<lparr>world := x\<rparr>) = v s" and "\<And>s x. v (s\<lparr>log := x\<rparr>) = v s"
  shows "keeps v (charge_creator e a token b x y)"
  unfolding charge_creator_def by ((intro view_rules keeps_emit; simp add: assms)+)

lemma charge_creator_run:
  assumes "charge_creator e a token b x y s = Ok r t"
  shows "stores t = stores s \<and> (\<exists>balance. ext_balance e token a (world s) = Some balance \<and>
     (0 < (if b then x else 0) + y \<longrightarrow> (if b then x else 0) + y \<le> balance)) \<and>
     (b \<and> 0 < x \<longrightarrow> (\<exists>w. ext_transfer e token a (current_contract_address e) x w = Some (world t))) \<and>
     (0 < y \<longrightarrow> (\<exists>w. ext_transfer e token a (get_protocol_treasury e s) y (world s) = Some w))"
proof -
  have "stores t = stores s"
    by (rule keepsD [OF keeps_charge_creator assms]) (simp_all add: stores_def)
  then show ?thesis using assms
    by (auto simp: charge_creator_def run_simps emit_defs)
qed

lemma create_market_tail:
  assumes "(let market = new_market count creator description options deadline resolution_deadline
         oracle_config tier dep parent_id parent_outcome_idx native_token in
     thn (set_market e count market)
     (thn (set_market_dispute_window e count window)
     (thn (extend_ttl e (PMarkets (K_Market count)) TTL_LOW_THRESHOLD TTL_HIGH_THRESHOLD)
     (thn (extend_ttl e (PMarkets (K_MarketDisputeWindow count)) TTL_LOW_THRESHOLD TTL_HIGH_THRESHOLD)
     (thn (set_status e count Active)
     (thn (modify (upd_inst (\<lambda>i. i\<lparr>i_MarketCount := Some count\<rparr>)))
     (thn (emit_market_created count creator (m_description market) (of_nat (length options)) deadline)
     (ret count)))))))) s = Ok r t"
  shows "r = count \<and> inst t = (inst s)\<lparr>i_MarketCount := Some count\<rparr> \<and> conf t = conf s \<and> bets t = bets s \<and>
    fees t = fees s \<and> vts t = vts s \<and> orcs t = orcs s \<and> arch t = arch s \<and> migs t = migs s \<and>
    mkts t = (mkts s)\<lparr>s_Market := (s_Market (mkts s))(count \<mapsto> new_market count creator description
        options deadline resolution_deadline oracle_config tier dep parent_id parent_outcome_idx native_token),
      s_MarketDisputeWindow := (s_MarketDisputeWindow (mkts s))(count \<mapsto> window),
      s_StatusIndex := (s_StatusIndex (mkts s))((count, Active) \<mapsto> True)\<rparr>"
  using assms
  by (auto simp: Let_def set_market_def set_market_dispute_window_def set_status_def emit_defs run_simps)

lemma create_market_run:
  assumes "create_market_with_dispute_window e creator description options deadline resolution_deadline
       oracle_config tier native_token parent_id parent_outcome_idx dispute_window_seconds s = Ok n t"
  shows "\<exists>window. creator \<in> authorized e \<and> get_state s \<noteq> Paused \<and>
    timestamp e < deadline \<and> unat deadline + 86400 \<le> unat resolution_deadline \<and> length options \<le> 100 \<and>
    (0 < parent_id \<longrightarrow> (\<exists>p. get_market s parent_id = Some p \<and> m_status p = Resolved \<and>
        m_winning_outcome p = Some parent_outcome_idx \<and> deadline \<le> m_resolution_deadline p)) \<and>
    tier_allowed tier (get_creator_reputation s creator) \<and>
    unat n = Suc (unat (get_market_count s)) \<and> inst t = (inst s)\<lparr>i_MarketCount := Some n\<rparr> \<and>
    fst (get_dispute_window_bounds s) \<le> window \<and> window \<le> snd (get_dispute_window_bounds s) \<and>
    mkts t = (mkts s)\<lparr>s_Market := (s_Market (mkts s))(n \<mapsto> new_market n creator description
        options deadline resolution_deadline oracle_config tier
        (if deposit_required (get_creator_reputation s creator) then get_creation_deposit s else 0)
        parent_id parent_outcome_idx native_token),
      s_MarketDisputeWindow := (s_MarketDisputeWindow (mkts s))(n \<mapsto> window),
      s_StatusIndex := (s_StatusIndex (mkts s))((n, Active) \<mapsto> True)\<rparr> \<and>
    conf t = conf s \<and> bets t = bets s \<and> fees t = fees s \<and> vts t = vts s \<and> orcs t = orcs s \<and>
    arch t = arch s \<and> migs t = migs s"
proof -
  let ?rep = "get_creator_reputation s creator"
  obtain u window where
    auth: "creator \<in> authorized e" "get_state s \<noteq> Paused" and
    v: "validate_new_market e options deadline resolution_deadline parent_id parent_outcome_idx s = Ok () s" and
    tier: "tier_allowed tier ?rep" and
    u: "charge_creator e creator native_token (deposit_required ?rep) (get_creation_deposit s)
          (get_creation_fee s) s = Ok () u" and
    cnt: "unat (get_market_count u) + 1 < 2 ^ 64" and
    win: "resolve_market_dispute_window dispute_window_seconds u = Ok window u" and
    tail: "(let market = new_market (get_market_count u + 1) creator description options deadline
         resolution_deadline oracle_config tier (if deposit_required ?rep then get_creation_deposit s else 0)
         parent_id parent_outcome_idx native_token in
     thn (set_market e (get_market_count u + 1) market)
     (thn (set_market_dispute_window e (get_market_count u + 1) window)
     (thn (extend_ttl e (PMarkets (K_Market (get_market_count u + 1))) TTL_LOW_THRESHOLD TTL_HIGH_THRESHOLD)
     (thn (extend_ttl e (PMarkets (K_MarketDisputeWindow (get_market_count u + 1))) TTL_LOW_THRESHOLD TTL_HIGH_THRESHOLD)
     (thn (set_status e (get_market_count u + 1) Active)
     (thn (modify (upd_inst (\<lambda>i. i\<lparr>i_MarketCount := Some (get_market_count u + 1)\<rparr>)))
     (thn (emit_market_created (get_market_count u + 1) creator (m_description market) (of_nat (length options)) deadline)
     (ret (get_market_count u + 1))))))))) u = Ok n t"
    using assms unfolding create_market_with_dispute_window_def thn_Ok bnd_Ok reads_Ok require_auth_Ok
      err_if_Ok require_not_paused_Ok add_word_Ok
    by (auto simp: validate_new_market_Ok resolve_market_dispute_window_Ok)
  have same: "stores u = stores s" using charge_creator_run [OF u] by blast
  have c: "get_market_count u = get_market_count s" "get_dispute_window_bounds u = get_dispute_window_bounds s"
    using same by (auto simp: stores_def get_market_count_def get_dispute_window_bounds_def)
  note t = create_market_tail [OF tail]
  have n: "n = get_market_count s + 1" using t c by simp
  have "unat n = Suc (unat (get_market_count s))"
    using cnt unat_add_no_overflow [of "get_market_count s" 1] by (simp add: n c)
  then show ?thesis using auth v tier win t same n
    by (intro exI [of _ window]) (auto simp: validate_new_market_Ok resolve_market_dispute_window_Ok c stores_def)
qed

lemma prune_market_run:
  assumes "prune_market e i s = Ok r t"
  shows "\<exists>m ra. get_market s i = Some m \<and> m_status m = Resolved \<and> m_resolved_at m = Some ra \<and>
    unat ra + unat PRUNE_GRACE_PERIOD \<le> unat (timestamp e) \<and>
    mkts t = (mkts s)\<lparr>s_Market := (s_Market (mkts s))(i := None),
      s_StatusIndex := (s_StatusIndex (mkts s))((i, Resolved) := None),
      s_MarketDisputeWindow := (s_MarketDisputeWindow (mkts s))(i := None)\<rparr> \<and>
    inst t = inst s \<and> conf t = conf s \<and> bets t = bets s \<and> fees t = fees s \<and> orcs t = orcs s \<and>
    world t = world s \<and> archive_listing t = archive_listing s @ [i]"
proof -
  obtain m ra u v where
    m: "get_market s i = Some m" "m_status m = Resolved" "m_resolved_at m = Some ra"
      "unat ra + unat PRUNE_GRACE_PERIOD < 2 ^ 64" "ra + PRUNE_GRACE_PERIOD \<le> timestamp e" and
    u: "archive_market e i s = Ok () u" and
    v: "prune_market_voting_state i (of_nat (length (m_options m))) u = Ok () v" and
    t: "thn (remove_status i Resolved) (thn (remove_market i) (thn (remove_market_dispute_window i)
        (emit_market_pruned i (timestamp e)))) v = Ok r t"
    using assms unfolding prune_market_def thn_Ok bnd_Ok reads_Ok ok_or_Ok err_if_Ok add_word_Ok
    by (auto simp: not_less)
  let ?v = "\<lambda>s. (inst s, conf s, mkts s, bets s, fees s, orcs s, world s)"
  have "?v u = ?v s" by (rule keepsD [OF keeps_archive(1) u]) simp_all
  moreover have "?v v = ?v u" by (rule keepsD [OF keeps_vote_writes(9) v]) simp_all
  moreover have "arch v = arch u" by (rule keepsD [OF keeps_vote_writes(9) v]) simp_all
  ultimately show ?thesis
    using m t archive_market_appends [OF u] unat_add_no_overflow [of ra PRUNE_GRACE_PERIOD]
    by (intro exI [of _ m] exI [of _ ra])
       (auto simp: remove_status_def remove_market_def remove_market_dispute_window_def emit_defs
          run_simps archive_listing_def archive_ids_def get_archived_count_def word_le_nat_alt)
qed

lemma release_creation_deposit_run:
  assumes "release_creation_deposit e i token s = Ok r t"
  shows "\<exists>m. get_market s i = Some m \<and> m_status m = Resolved \<and> m_creator m \<in> authorized e \<and>
    inst t = inst s \<and> conf t = conf s \<and> bets t = bets s \<and> fees t = fees s \<and> vts t = vts s \<and>
    orcs t = orcs s \<and> arch t = arch s \<and>
    (if 0 < m_creation_deposit m
     then mkts t = put_market (m\<lparr>m_creation_deposit := 0\<rparr>) (mkts s) \<and>
       ext_transfer e token (current_contract_address e) (m_creator m) (m_creation_deposit m) (world s)
         = Some (world t)
     else t = s)"
proof -
  obtain m where m: "get_market s i = Some m" "m_status m = Resolved" "m_creator m \<in> authorized e"
    and c: "doif (0 < m_creation_deposit m) (thn (update_market e (m\<lparr>m_creation_deposit := 0\<rparr>))
        (token_transfer e token (current_contract_address e) (m_creator m) (m_creation_deposit m))) s = Ok r t"
    using assms by (auto simp: release_creation_deposit_def Let_def run_simps)
  show ?thesis
  proof (cases "0 < m_creation_deposit m")
    case False
    then show ?thesis using m c by (auto simp: run_simps)
  next
    case True
    with c obtain u where u: "update_market e (m\<lparr>m_creation_deposit := 0\<rparr>) s = Ok () u" and
      t: "token_transfer e token (current_contract_address e) (m_creator m) (m_creation_deposit m) u = Ok r t"
      by (auto simp: run_simps)
    let ?v = "\<lambda>s. (inst s, conf s, bets s, fees s, vts s, orcs s, arch s, world s)"
    have "?v u = ?v s" by (rule keepsD [OF keeps_market_writes(5) u]) simp_all
    with True m t update_market_run [OF u] show ?thesis
      by (intro exI [of _ m]) (auto simp: token_transfer_Ok)
  qed
qed

text \<open>Going on after an update: nothing but the market store (and times to live) has changed.\<close>

lemma update_market_then:
  obtains u where "update_market e m s = Ok () u"
    and "mkts u = put_market m (mkts s)"
    and "inst u = inst s" and "conf u = conf s" and "bets u = bets s" and "fees u = fees s"
    and "vts u = vts s" and "orcs u = orcs s" and "arch u = arch s" and "migs u = migs s"
    and "wasm u = wasm s" and "log u = log s" and "world u = world s"
proof -
  obtain u where u: "update_market e m s = Ok () u" using update_market_total by blast
  let ?v = "\<lambda>s. (inst s, conf s, bets s, fees s, vts s, orcs s, arch s, migs s, wasm s, log s, world s)"
  have "?v u = ?v s" by (rule keepsD [OF keeps_market_writes(5) u]) simp_all
  then show ?thesis using u update_market_run [OF u] by (intro that [of u]) auto
qed

lemma release_creation_deposit_succeeds:
  assumes "get_market s i = Some m" and "m_status m = Resolved" and "m_creator m \<in> authorized e"
    and "0 < m_creation_deposit m"
    and "ext_transfer e token (current_contract_address e) (m_creator m) (m_creation_deposit m) (world s) = Some w"
  shows "\<exists>t. release_creation_deposit e i token s = Ok () t"
proof -
  obtain u where "update_market e (m\<lparr>m_creation_deposit := 0\<rparr>) s = Ok () u" "world u = world s"
    by (rule update_market_then)
  then show ?thesis using assms by (simp add: release_creation_deposit_def run_eval)
qed

lemma keeps_market_config [view_rules]:
  assumes "\<And>s x. v (s\<lparr>live_until := x\<rparr>) = v s" and "\<And>s x. v (s\<lparr>conf := x\<rparr>) = v s"
  shows "keeps v (set_creation_deposit e x)" "keeps v (set_creation_fee e x)"
    "keeps v (set_protocol_treasury e a)"
  unfolding set_creation_deposit_def set_creation_fee_def set_protocol_treasury_def
  by ((intro view_rules; simp add: assms)+)

lemma keeps_set_creator_reputation [view_rules]:
  assumes "\<And>s x. v (s\<lparr>live_until := x\<rparr>) = v s" and "\<And>s f. v (s\<lparr>mkts := (mkts s)\<lparr>s_CreatorReputation := f\<rparr>\<rparr>) = v s"
  shows "keeps v (set_creator_reputation e a rep)"
  unfolding set_creator_reputation_def by ((intro view_rules; simp add: assms)+)

section \<open>Properties\<close>

text \<open>Tier access is the order of the reputations: every tier has a least one it admits.\<close>

definition tier_floor :: "MarketTier \<Rightarrow> CreatorReputation" where
  "tier_floor tier = (case tier of Basic \<Rightarrow> Rep_None | Pro \<Rightarrow> Rep_Pro | Institutional \<Rightarrow> Rep_Institutional)"

lemma tier_allowed_floor: "tier_allowed tier reputation \<longleftrightarrow> tier_floor tier \<le> reputation"
  by (cases tier; cases reputation)
     (simp_all add: tier_allowed_def tier_floor_def less_eq_CreatorReputation_def)

lemma deposit_required_floor: "deposit_required reputation \<longleftrightarrow> reputation < Rep_Pro"
  by (cases reputation) (simp_all add: deposit_required_def less_CreatorReputation_def)

text \<open>
  Creating a market: a successful creation is authorised by the creator, not paused, has its
  deadline in the future and at least a day before the resolution deadline, at most 100 outcomes, a
  creator whose reputation reaches the tier's, a dispute window within the configured bounds and, for
  a conditional market, a parent resolved to the required outcome. It stores exactly one new market
  under the next number, active and without stakes, and leaves every other market as it was.
\<close>

theorem create_market_effect:
  assumes "create_market_with_dispute_window e creator description options deadline resolution_deadline
       oracle_config tier native_token parent_id parent_outcome_idx dispute_window_seconds s = Ok n t"
  shows "creator \<in> authorized e \<and> get_state s \<noteq> Paused \<and> timestamp e < deadline \<and>
    unat deadline + 86400 \<le> unat resolution_deadline \<and> length options \<le> 100 \<and>
    tier_floor tier \<le> get_creator_reputation s creator \<and>
    (0 < parent_id \<longrightarrow> (\<exists>p. get_market s parent_id = Some p \<and> m_status p = Resolved \<and>
        m_winning_outcome p = Some parent_outcome_idx \<and> deadline \<le> m_resolution_deadline p)) \<and>
    fst (get_dispute_window_bounds s) \<le> get_market_dispute_window t n \<and>
    get_market_dispute_window t n \<le> snd (get_dispute_window_bounds s) \<and>
    unat n = Suc (unat (get_market_count s)) \<and> get_market_count t = n \<and>
    (\<exists>m. get_market t n = Some m \<and> m_id m = n \<and> m_status m = Active \<and> m_total_staked m = 0 \<and>
       m_outcome_stakes m = [] \<and> m_creator m = creator \<and> m_options m = options \<and>
       m_creation_deposit m = (if get_creator_reputation s creator < Rep_Pro then get_creation_deposit s else 0)) \<and>
    has_status_index t n Active \<and> (\<forall>i. i \<noteq> n \<longrightarrow> get_market t i = get_market s i)"
proof -
  from create_market_run [OF assms] obtain window where
    run: "creator \<in> authorized e" "get_state s \<noteq> Paused" "timestamp e < deadline"
      "unat deadline + 86400 \<le> unat resolution_deadline" "length options \<le> 100"
      "tier_allowed tier (get_creator_reputation s creator)"
      "0 < parent_id \<longrightarrow> (\<exists>p. get_market s parent_id = Some p \<and> m_status p = Resolved \<and>
        m_winning_outcome p = Some parent_outcome_idx \<and> deadline \<le> m_resolution_deadline p)" and
    n: "unat n = Suc (unat (get_market_count s))" "inst t = (inst s)\<lparr>i_MarketCount := Some n\<rparr>" and
    w: "fst (get_dispute_window_bounds s) \<le> window" "window \<le> snd (get_dispute_window_bounds s)" and
    t: "mkts t = (mkts s)\<lparr>s_Market := (s_Market (mkts s))(n \<mapsto> new_market n creator description
        options deadline resolution_deadline oracle_config tier
        (if deposit_required (get_creator_reputation s creator) then get_creation_deposit s else 0)
        parent_id parent_outcome_idx native_token),
      s_MarketDisputeWindow := (s_MarketDisputeWindow (mkts s))(n \<mapsto> window),
      s_StatusIndex := (s_StatusIndex (mkts s))((n, Active) \<mapsto> True)\<rparr>"
    by blast
  have "get_market_dispute_window t n = window" "get_market_count t = n" "has_status_index t n Active"
    using n t by (simp_all add: get_market_dispute_window_def get_market_count_def has_status_index_def)
  moreover have "\<forall>i. i \<noteq> n \<longrightarrow> get_market t i = get_market s i" by (simp add: t get_market_def)
  ultimately show ?thesis using run n w
    by (simp add: tier_allowed_floor t get_market_def new_market_def deposit_required_floor)
qed

theorem create_market_effect_witness:
  "\<exists>t. create_market_with_dispute_window (sample_ctx 10 {Addr 2}) (Addr 2) ''rain'' [''yes'', ''no'']
        1000 100000 sample_oracle Basic (Addr 5) 0 0 None sample_st = Ok 1 t \<and>
     get_market_count t = 1 \<and> (\<exists>m. get_market t 1 = Some m \<and> m_status m = Active)"
proof -
  obtain t where t: "create_market_with_dispute_window (sample_ctx 10 {Addr 2}) (Addr 2) ''rain''
      [''yes'', ''no''] 1000 100000 sample_oracle Basic (Addr 5) 0 0 None sample_st = Ok 1 t"
    by (simp add: create_market_with_dispute_window_def validate_new_market_def charge_creator_def
        require_not_paused_for_high_risk_def get_state_def get_creator_reputation_def tier_allowed_def
        get_creation_deposit_def get_creation_fee_def get_market_count_def
        resolve_market_dispute_window_def validate_dispute_window_def get_dispute_window_bounds_def
        get_default_dispute_window_def DEFAULT_DISPUTE_WINDOW_SECONDS_def MIN_DISPUTE_WINDOW_SECONDS_def
        MAX_DISPUTE_WINDOW_SECONDS_def set_market_def set_market_dispute_window_def set_status_def
        MIN_DEADLINE_GAP_def MAX_OUTCOMES_PER_MARKET_def in_i128_def Let_def TTL_LOW_THRESHOLD_def
        TTL_HIGH_THRESHOLD_def emit_defs sample_defs run_eval)
  from create_market_effect [OF t] show ?thesis using t by blast
qed

text \<open>
  The creation deposit is paid back once: only to the market's creator, with the creator's
  authorisation, after resolution, exactly the recorded amount; the record then shows none left, so
  repeating the call, in any later context the creator authorises, pays nothing. The token it is paid
  in is whatever token the caller names.
\<close>

theorem release_creation_deposit_once:
  assumes "release_creation_deposit e i token s = Ok () t" and "get_market s i = Some m"
    and "m_id m = i" and "0 < m_creation_deposit m"
  shows "m_status m = Resolved \<and> m_creator m \<in> authorized e \<and>
    ext_transfer e token (current_contract_address e) (m_creator m) (m_creation_deposit m) (world s)
      = Some (world t) \<and>
    get_market t i = Some (m\<lparr>m_creation_deposit := 0\<rparr>) \<and>
    (\<forall>j. j \<noteq> i \<longrightarrow> get_market t j = get_market s j) \<and>
    (\<forall>e' token'. m_creator m \<in> authorized e' \<longrightarrow> release_creation_deposit e' i token' t = Ok () t)"
proof -
  have run: "m_status m = Resolved" "m_creator m \<in> authorized e"
    "mkts t = put_market (m\<lparr>m_creation_deposit := 0\<rparr>) (mkts s)"
    "ext_transfer e token (current_contract_address e) (m_creator m) (m_creation_deposit m) (world s)
      = Some (world t)"
    using release_creation_deposit_run [OF assms(1)] assms(2,4) by auto
  have t: "get_market t j = (if j = i then Some (m\<lparr>m_creation_deposit := 0\<rparr>) else get_market s j)" for j
    using run(3) assms(3) by (simp add: get_market_def)
  have "release_creation_deposit e' i token' t = Ok () t" if "m_creator m \<in> authorized e'" for e' token'
    using that run(1) by (simp add: release_creation_deposit_def t Let_def run_eval)
  then show ?thesis using run t by simp
qed

theorem release_creation_deposit_once_witness:
  "let s = with_market (sample_market\<lparr>m_status := Resolved, m_creation_deposit := 100\<rparr>) sample_st
   in \<exists>t. release_creation_deposit (sample_ctx 10 {Addr 2}) 1 (Addr 77) s = Ok () t \<and>
        world t (Addr 77, Addr 2) = 1100 \<and>
        release_creation_deposit (sample_ctx 20 {Addr 2}) 1 (Addr 77) t = Ok () t"
proof -
  let ?s = "with_market (sample_market\<lparr>m_status := Resolved, m_creation_deposit := 100\<rparr>) sample_st"
  have m: "get_market ?s 1 = Some (sample_market\<lparr>m_status := Resolved, m_creation_deposit := 100\<rparr>)"
    by (simp add: get_market_def sample_defs)
  obtain t where t: "release_creation_deposit (sample_ctx 10 {Addr 2}) 1 (Addr 77) ?s = Ok () t"
    using release_creation_deposit_succeeds [OF m, of "sample_ctx 10 {Addr 2}" "Addr 77"]
    by (auto simp: sample_defs)
  note once = release_creation_deposit_once [OF t m]
  have "table_transfer (Addr 77) (Addr 0) (Addr 2) 100 (world ?s) = Some (world t)"
    using once by (simp add: sample_market_def)
  then have "world t = (world ?s)((Addr 77, Addr 0) := 900, (Addr 77, Addr 2) := 1100)"
    by (simp add: sample_defs)
  then have "world t (Addr 77, Addr 2) = 1100" by simp
  moreover have "release_creation_deposit (sample_ctx 20 {Addr 2}) 1 (Addr 77) t = Ok () t"
    using once by (simp add: sample_market_def)
  ultimately show ?thesis using t unfolding Let_def by blast
qed

text \<open>
  Pruning: anyone can remove a market 30 days after its resolution and only then; the market's
  id is appended to the archive, its record, window and index entry disappear, all other markets and
  all bets stay. The check is on time alone: a deposit that was not reclaimed by then stays with the
  contract and can no longer be released, and a second pruning fails.
\<close>

theorem prune_market_effect:
  assumes "prune_market e i s = Ok () t"
  shows "(\<exists>m ra. get_market s i = Some m \<and> m_status m = Resolved \<and> m_resolved_at m = Some ra \<and>
       unat ra + 2592000 \<le> unat (timestamp e)) \<and>
    get_market t i = None \<and> \<not> has_status_index t i Resolved \<and>
    (\<forall>j. j \<noteq> i \<longrightarrow> get_market t j = get_market s j) \<and> bets t = bets s \<and> world t = world s \<and>
    archive_listing t = archive_listing s @ [i] \<and>
    (\<forall>e'. prune_market e' i t = Err MarketNotFound t) \<and>
    (\<forall>e' token. release_creation_deposit e' i token t = Err MarketNotFound t)"
proof -
  obtain m ra where run: "get_market s i = Some m" "m_status m = Resolved" "m_resolved_at m = Some ra"
    "unat ra + unat PRUNE_GRACE_PERIOD \<le> unat (timestamp e)" and
    t: "mkts t = (mkts s)\<lparr>s_Market := (s_Market (mkts s))(i := None),
      s_StatusIndex := (s_StatusIndex (mkts s))((i, Resolved) := None),
      s_MarketDisputeWindow := (s_MarketDisputeWindow (mkts s))(i := None)\<rparr>"
    "bets t = bets s" "world t = world s" "archive_listing t = archive_listing s @ [i]"
    using prune_market_run [OF assms] by blast
  have gone: "get_market t i = None" by (simp add: t get_market_def)
  then have "prune_market e' i t = Err MarketNotFound t"
    "release_creation_deposit e' i token t = Err MarketNotFound t" for e' token
    by (simp_all add: prune_market_def release_creation_deposit_def run_eval)
  then show ?thesis using run t gone
    by (auto simp: PRUNE_GRACE_PERIOD_def get_market_def has_status_index_def)
qed

theorem prune_market_effect_witness:
  "let s = with_market (sample_market\<lparr>m_status := Resolved, m_resolved_at := Some 1000,
        m_creation_deposit := 100, m_total_staked := 70\<rparr>) sample_st
   in \<exists>t. prune_market (sample_ctx 2593000 {}) 1 s = Ok () t \<and> get_market t 1 = None \<and>
        archive_listing t = archive_listing s @ [1]"
proof -
  let ?s = "with_market (sample_market\<lparr>m_status := Resolved, m_resolved_at := Some 1000,
        m_creation_deposit := 100, m_total_staked := 70\<rparr>) sample_st"
  have two: "[0..<2] = [0, 1]" by (simp add: upt_rec)
  obtain t where t: "prune_market (sample_ctx 2593000 {}) 1 ?s = Ok () t"
    by (simp add: prune_market_def get_market_def archive_market_def get_archived_count_def
        prune_market_voting_state_def remove_tally_def remove_status_def remove_market_def
        remove_market_dispute_window_def PRUNE_GRACE_PERIOD_def ARCHIVE_TTL_THRESHOLD_def
        ARCHIVE_TTL_EXTEND_def emit_defs sample_defs run_eval two)
  from prune_market_effect [OF t] show ?thesis using t unfolding Let_def by blast
qed

end
