(* ===== verification/Resolution.thy ===== *)
theory Resolution
  imports Markets
begin

text \<open>
  \<^verbatim>\<open>resolution.rs\<close>, \<^verbatim>\<open>disputes.rs\<close> and \<^verbatim>\<open>cancellation.rs\<close>: the operations that move a market through its
  life cycle, the count of the dispute votes and the two thresholds.
\<close>

section \<open>Counting votes (resolution.rs)\<close>

fun add_tally :: "(u32 \<times> i128) list \<Rightarrow> u32 \<Rightarrow> i128 \<Rightarrow> (u32 \<times> i128) list option" where
  "add_tally [] out w = Some [(out, w)]"
| "add_tally ((k, x) # ts) out w =
     (if k = out
      then (case checked_add_i128 x w of None \<Rightarrow> None | Some y \<Rightarrow> Some ((k, y) # ts))
      else (case add_tally ts out w of None \<Rightarrow> None | Some ts' \<Rightarrow> Some ((k, x) # ts')))"

fun aggregate_votes ::
  "Vote list \<Rightarrow> i128 \<Rightarrow> (u32 \<times> i128) list \<Rightarrow> ('w, i128 \<times> (u32 \<times> i128) list) contract" where
  "aggregate_votes [] total_votes tallies = ret (total_votes, tallies)"
| "aggregate_votes (vote # votes) total_votes tallies =
     bnd (ok_or (checked_add_i128 total_votes (v_weight vote)) ArithmeticOverflow) (\<lambda>total'.
     bnd (ok_or (add_tally tallies (v_outcome vote) (v_weight vote)) ArithmeticOverflow) (\<lambda>tallies'.
     aggregate_votes votes total' tallies'))"

definition calculate_voting_outcome :: "'w ctx \<Rightarrow> Market \<Rightarrow> ('w, u32) contract" where
  "calculate_voting_outcome e market =
     bnd (reads (\<lambda>s. ext_get_market_votes e s (m_id market))) (\<lambda>votes.
     bnd (aggregate_votes votes 0 []) (\<lambda>(total_votes, tallies).
     thn (err_if (total_votes = 0) NoVotesCast)
     (let (winning_outcome, max_votes) = argmax_loop (\<lambda>k. k) tallies 0 0 in
      bnd (ok_or (checked_mul_i128 max_votes 10000) ArithmeticOverflow) (\<lambda>scaled.
      bnd (ok_or (checked_div_i128 scaled total_votes) ArithmeticOverflow) (\<lambda>majority_pct.
      thn (err_if (majority_pct < MAJORITY_THRESHOLD_BPS) NoMajority)
      (ret winning_outcome))))))"

section \<open>Resolution (resolution.rs)\<close>

definition attempt_oracle_resolution :: "'w ctx \<Rightarrow> u64 \<Rightarrow> ('w, unit) contract" where
  "attempt_oracle_resolution e market_id =
     bnd (reads (\<lambda>s. get_market s market_id)) (\<lambda>found.
     bnd (ok_or found MarketNotFound) (\<lambda>market.
     thn (err_if (m_status market \<noteq> Active) MarketNotActive)
     (thn (err_if (timestamp e < m_resolution_deadline market) ResolutionNotReady)
     (thn (validate_oracle_staleness e market_id (m_oracle_config market))
     (bnd (reads (\<lambda>s. get_oracle_result s market_id 0)) (\<lambda>r.
     case r of
       None \<Rightarrow> fail OracleFailure
     | Some oracle_outcome \<Rightarrow>
         thn (update_market e (market\<lparr>m_status := PendingResolution,
                m_winning_outcome := Some oracle_outcome,
                m_pending_resolution_timestamp := Some (timestamp e)\<rparr>))
         (thn (emit_market_state_changed market_id ''Active'' ''PendingResolution'' (timestamp e))
         (emit_oracle_resolved market_id (current_contract_address e) oracle_outcome))))))))"

text \<open>The two branches of \<^verbatim>\<open>finalize_resolution\<close> that do something.\<close>

definition finalize_pending :: "'w ctx \<Rightarrow> u64 \<Rightarrow> Market \<Rightarrow> ('w, unit) contract" where
  "finalize_pending e market_id market =
     bnd (ok_or (m_pending_resolution_timestamp market) ResolutionNotReady) (\<lambda>pending_ts.
     bnd (reads (\<lambda>s. get_market_dispute_window s market_id)) (\<lambda>dispute_window.
     bnd (add_word pending_ts dispute_window) (\<lambda>window_end.
     thn (err_if (timestamp e < window_end) DisputeWindowStillOpen)
     (bnd (ok_or (m_winning_outcome market) ResolutionNotReady) (\<lambda>winning_outcome.
     thn (update_market e (market\<lparr>m_status := Resolved, m_resolved_at := Some (timestamp e)\<rparr>))
     (thn (emit_market_state_changed market_id ''PendingResolution'' ''Resolved'' (timestamp e))
     (emit_market_finalized market_id (current_contract_address e) winning_outcome)))))))"

definition finalize_disputed :: "'w ctx \<Rightarrow> u64 \<Rightarrow> Market \<Rightarrow> ('w, unit) contract" where
  "finalize_disputed e market_id market =
     bnd (ok_or (m_dispute_timestamp market) MarketNotDisputed) (\<lambda>dispute_ts.
     bnd (add_word dispute_ts VOTING_PERIOD_SECONDS) (\<lambda>voting_end.
     thn (err_if (timestamp e < voting_end) TimelockActive)
     (bnd (calculate_voting_outcome e market) (\<lambda>winning_outcome.
     thn (update_market e (market\<lparr>m_status := Resolved, m_winning_outcome := Some winning_outcome,
            m_resolved_at := Some (timestamp e)\<rparr>))
     (thn (emit_market_state_changed market_id ''Disputed'' ''Resolved'' (timestamp e))
     (emit_dispute_resolved market_id (current_contract_address e) winning_outcome))))))"

definition finalize_resolution :: "'w ctx \<Rightarrow> u64 \<Rightarrow> ('w, unit) contract" where
  "finalize_resolution e market_id =
     bnd (reads (\<lambda>s. get_market s market_id)) (\<lambda>found.
     bnd (ok_or found MarketNotFound) (\<lambda>market.
     case m_status market of
       PendingResolution \<Rightarrow> finalize_pending e market_id market
     | Disputed \<Rightarrow> finalize_disputed e market_id market
     | Resolved \<Rightarrow> fail CannotChangeOutcome
     | Active \<Rightarrow> fail ResolutionNotReady
     | Cancelled \<Rightarrow> fail ResolutionNotReady))"

definition resolution_get_resolution_metrics ::
  "(u64 \<Rightarrow> Address \<Rightarrow> bool) \<Rightarrow> 'w ctx \<Rightarrow> u64 \<Rightarrow> ('w, u32 \<times> u64) contract" where
  "resolution_get_resolution_metrics has_pair_key e market_id =
     bnd (reads (\<lambda>s. get_market s market_id)) (\<lambda>found.
     bnd (ok_or found MarketNotFound) (\<lambda>market.
     bnd (ok_or (m_winning_outcome market) ResolutionNotReady) (\<lambda>winning_outcome.
     let winner_count = count_bets_for_outcome has_pair_key e market_id winning_outcome in
     bnd (mul_word (ucast winner_count :: u64) 50000) (\<lambda>x.
     bnd (add_word 100000 x) (\<lambda>gas_estimate.
     ret (winner_count, gas_estimate))))))"

section \<open>Disputes (disputes.rs)\<close>

record ResolutionMetrics =
  rm_winner_count :: u32
  rm_total_winning_stake :: i128
  rm_gas_estimate :: u64

definition file_dispute :: "'w ctx \<Rightarrow> Address \<Rightarrow> u64 \<Rightarrow> ('w, unit) contract" where
  "file_dispute e disciplinarian market_id =
     thn (require_auth e disciplinarian)
     (bnd (reads (\<lambda>s. get_market s market_id)) (\<lambda>found.
     bnd (ok_or found MarketNotFound) (\<lambda>market.
     thn (err_if (m_status market \<noteq> PendingResolution) MarketNotPendingResolution)
     (bnd (ok_or (m_pending_resolution_timestamp market) ResolutionNotReady) (\<lambda>pending_ts.
     bnd (reads (\<lambda>s. get_market_dispute_window s market_id)) (\<lambda>dispute_window.
     bnd (add_word pending_ts dispute_window) (\<lambda>window_end.
     thn (err_if (window_end \<le> timestamp e) DisputeWindowClosed)
     (bnd (add_word (m_resolution_deadline market) dispute_window) (\<lambda>new_deadline.
     thn (update_market e (market\<lparr>m_status := Disputed, m_dispute_timestamp := Some (timestamp e),
            m_resolution_deadline := new_deadline\<rparr>))
     (emit_dispute_filed market_id disciplinarian new_deadline))))))))))"

definition resolve_market :: "'w ctx \<Rightarrow> u64 \<Rightarrow> u32 \<Rightarrow> ('w, unit) contract" where
  "resolve_market e market_id winning_outcome =
     bnd (reads (\<lambda>s. get_market s market_id)) (\<lambda>found.
     bnd (ok_or found MarketNotFound) (\<lambda>market.
     thn (err_if (m_status market = Resolved \<or> m_status market = Cancelled) CannotChangeOutcome)
     (thn (err_if (length (m_options market) \<le> unat winning_outcome) InvalidOutcome)
     (let winning_stake = get_outcome_stake market winning_outcome;
          total_payout = (if 0 < winning_stake then m_total_staked market else 0) in
     thn (update_market e (market\<lparr>m_status := Resolved, m_winning_outcome := Some winning_outcome,
            m_resolved_at := Some (timestamp e)\<rparr>))
     (bnd (reads (\<lambda>s. case get_admin s of Some a \<Rightarrow> a | None \<Rightarrow> current_contract_address e)) (\<lambda>admin.
     emit_resolution_finalized market_id admin winning_outcome total_payout))))))"

definition set_max_push_payout_winners :: "'w ctx \<Rightarrow> u32 \<Rightarrow> ('w, unit) contract" where
  "set_max_push_payout_winners e threshold =
     thn (require_admin e)
     (thn (p_set e (PConfig K_MaxPushPayoutWinners)
             (upd_conf (\<lambda>c. c\<lparr>c_MaxPushPayoutWinners := Some threshold\<rparr>)))
     (extend_ttl e (PConfig K_MaxPushPayoutWinners) GOV_TTL_LOW_THRESHOLD GOV_TTL_HIGH_THRESHOLD))"

definition get_max_push_payout_winners :: "'w st \<Rightarrow> u32" where
  "get_max_push_payout_winners s =
     (case c_MaxPushPayoutWinners (conf s) of None \<Rightarrow> MAX_PUSH_PAYOUT_WINNERS | Some n \<Rightarrow> n)"

definition get_resolution_metrics ::
  "(u64 \<Rightarrow> Address \<Rightarrow> bool) \<Rightarrow> 'w ctx \<Rightarrow> u64 \<Rightarrow> u32 \<Rightarrow> ('w, ResolutionMetrics) contract" where
  "get_resolution_metrics has_pair_key e market_id outcome =
     (let winner_count = count_bets_for_outcome has_pair_key e market_id outcome in
     bnd (reads (\<lambda>s. case get_market s market_id of
            Some m \<Rightarrow> get_outcome_stake m outcome | None \<Rightarrow> 0)) (\<lambda>total_stake.
     bnd (mul_word (ucast winner_count :: u64) 50000) (\<lambda>x.
     bnd (add_word 100000 x) (\<lambda>gas_estimate.
     ret \<lparr>rm_winner_count = winner_count, rm_total_winning_stake = total_stake,
          rm_gas_estimate = gas_estimate\<rparr>))))"

section \<open>Cancellation (cancellation.rs)\<close>

definition FAILED_MARKET_THRESHOLD_BPS :: i128 where "FAILED_MARKET_THRESHOLD_BPS = 7500"

definition cancel_market_admin :: "'w ctx \<Rightarrow> u64 \<Rightarrow> ('w, unit) contract" where
  "cancel_market_admin e market_id =
     thn (require_admin e)
     (bnd (reads (\<lambda>s. get_market s market_id)) (\<lambda>found.
     bnd (ok_or found MarketNotFound) (\<lambda>market.
     thn (err_if (m_status market = Resolved \<or> m_status market = Cancelled) CannotChangeOutcome)
     (thn (update_market e (market\<lparr>m_status := Cancelled\<rparr>))
     (bnd (reads get_admin) (\<lambda>a.
     bnd (some_or_trap a) (\<lambda>admin_address.
     emit_market_cancelled market_id admin_address)))))))"

fun sum_tallies :: "u64 \<Rightarrow> nat list \<Rightarrow> i128 \<Rightarrow> ('w, i128) contract" where
  "sum_tallies market_id [] total_votes = ret total_votes"
| "sum_tallies market_id (n # ns) total_votes =
     bnd (reads (\<lambda>s. get_tally s market_id (of_nat n))) (\<lambda>tally.
     bnd (add_i128 total_votes tally) (\<lambda>total'.
     sum_tallies market_id ns total'))"

definition cancel_market_vote :: "'w ctx \<Rightarrow> u64 \<Rightarrow> ('w, unit) contract" where
  "cancel_market_vote e market_id =
     bnd (reads (\<lambda>s. get_market s market_id)) (\<lambda>found.
     bnd (ok_or found MarketNotFound) (\<lambda>market.
     thn (err_if (m_status market \<noteq> Disputed) MarketNotDisputed)
     (bnd (reads (\<lambda>s. get_tally s market_id CANCEL_OUTCOME_INDEX)) (\<lambda>cancel_votes.
     bnd (sum_tallies market_id [0..<length (m_options market)] cancel_votes) (\<lambda>total_votes.
     thn (err_if (total_votes = 0) InsufficientVotingWeight)
     (bnd (ok_or (case checked_mul_i128 cancel_votes 10000 of
                    None \<Rightarrow> None | Some n \<Rightarrow> checked_div_i128 n total_votes)
             InsufficientVotingWeight) (\<lambda>cancel_pct.
     thn (err_if (cancel_pct < FAILED_MARKET_THRESHOLD_BPS) InsufficientVotingWeight)
     (thn (update_market e (market\<lparr>m_status := Cancelled\<rparr>))
     (emit_market_cancelled_vote market_id (current_contract_address e))))))))))"

section \<open>Runs: each operation is one step of the life cycle\<close>

text \<open>
  \<open>rewrote i s t m m'\<close>: the run found record \<open>m\<close> under \<open>i\<close>, wrote \<open>m'\<close> back and changed no
  other storage.
\<close>

definition rest_of where
  "rest_of s = (inst s, conf s, bets s, fees s, vts s, orcs s, arch s, migs s, wasm s, world s)"

definition rewrote :: "u64 \<Rightarrow> 'w st \<Rightarrow> 'w st \<Rightarrow> Market \<Rightarrow> Market \<Rightarrow> bool" where
  "rewrote i s t m m' \<longleftrightarrow> get_market s i = Some m \<and> mkts t = put_market m' (mkts s) \<and>
     rest_of t = rest_of s"

lemma update_then_keeps:
  assumes "thn (update_market e m') c s = Ok r t" and "get_market s i = Some m"
    and "keeps mkts c" and "keeps rest_of c"
  shows "rewrote i s t m m'"
proof -
  obtain u where u: "update_market e m' s = Ok () u" "mkts u = put_market m' (mkts s)" "rest_of u = rest_of s"
    by (rule update_market_then [of e m' s]) (simp add: rest_of_def)
  with assms(1) have "c u = Ok r t" by (auto simp: thn_Ok)
  with u assms show ?thesis by (auto simp: rewrote_def dest: keepsD)
qed

lemma keeps_validate_oracle_staleness: "keeps v (validate_oracle_staleness e i c)"
  by (rule keepsI) (simp add: validate_oracle_staleness_Ok)

lemma attempt_oracle_resolution_run:
  assumes "attempt_oracle_resolution e i s = Ok r t"
  obtains m out where "rewrote i s t m (m\<lparr>m_status := PendingResolution, m_winning_outcome := Some out,
      m_pending_resolution_timestamp := Some (timestamp e)\<rparr>)"
    and "m_status m = Active" and "m_resolution_deadline m \<le> timestamp e"
    and "get_oracle_result s i 0 = Some out"
    and "validate_oracle_staleness e i (m_oracle_config m) s = Ok () s"
proof -
  from assms obtain m u out where m: "get_market s i = Some m" "m_status m = Active"
    "m_resolution_deadline m \<le> timestamp e" and
    u: "validate_oracle_staleness e i (m_oracle_config m) s = Ok () u" and
    o: "get_oracle_result u i 0 = Some out" and
    c: "thn (update_market e (m\<lparr>m_status := PendingResolution, m_winning_outcome := Some out,
          m_pending_resolution_timestamp := Some (timestamp e)\<rparr>))
         (thn (emit_market_state_changed i ''Active'' ''PendingResolution'' (timestamp e))
         (emit_oracle_resolved i (current_contract_address e) out)) u = Ok r t"
    unfolding attempt_oracle_resolution_def bnd_Ok thn_Ok [of "err_if a b" for a b]
      thn_Ok [of "validate_oracle_staleness a b d" for a b d] reads_Ok ok_or_Ok err_if_Ok
    by (auto simp: fail_Ok not_less split: option.splits)
  have us: "u = s" using keepsD [OF keeps_validate_oracle_staleness u, of "\<lambda>s. s"] by simp
  have "rewrote i s t m (m\<lparr>m_status := PendingResolution, m_winning_outcome := Some out,
      m_pending_resolution_timestamp := Some (timestamp e)\<rparr>)"
    by (rule update_then_keeps [OF c [unfolded us] m(1)])
       ((intro view_rules keeps_emit; simp add: rest_of_def)+)
  with m o u us that show ?thesis by blast
qed

lemma file_dispute_run:
  assumes "file_dispute e a i s = Ok r t"
  obtains m p where "rewrote i s t m (m\<lparr>m_status := Disputed, m_dispute_timestamp := Some (timestamp e),
      m_resolution_deadline := m_resolution_deadline m + get_market_dispute_window s i\<rparr>)"
    and "a \<in> authorized e" and "m_status m = PendingResolution"
    and "m_pending_resolution_timestamp m = Some p"
    and "unat p + unat (get_market_dispute_window s i) < 2 ^ 64"
    and "timestamp e < p + get_market_dispute_window s i"
    and "unat (m_resolution_deadline m) + unat (get_market_dispute_window s i) < 2 ^ 64"
proof -
  from assms obtain m p where m: "get_market s i = Some m" "a \<in> authorized e" "m_status m = PendingResolution"
    "m_pending_resolution_timestamp m = Some p" "unat p + unat (get_market_dispute_window s i) < 2 ^ 64"
    "timestamp e < p + get_market_dispute_window s i"
    "unat (m_resolution_deadline m) + unat (get_market_dispute_window s i) < 2 ^ 64" and
    c: "thn (update_market e (m\<lparr>m_status := Disputed, m_dispute_timestamp := Some (timestamp e),
          m_resolution_deadline := m_resolution_deadline m + get_market_dispute_window s i\<rparr>))
        (emit_dispute_filed i a (m_resolution_deadline m + get_market_dispute_window s i)) s = Ok r t"
    unfolding file_dispute_def bnd_Ok thn_Ok [of "err_if a b" for a b] thn_Ok [of "require_auth a b" for a b]
      reads_Ok ok_or_Ok err_if_Ok require_auth_Ok add_word_Ok
    by (auto simp: not_le)
  have "rewrote i s t m (m\<lparr>m_status := Disputed, m_dispute_timestamp := Some (timestamp e),
      m_resolution_deadline := m_resolution_deadline m + get_market_dispute_window s i\<rparr>)"
    by (rule update_then_keeps [OF c m(1)]) ((intro view_rules keeps_emit; simp add: rest_of_def)+)
  with m that show ?thesis by blast
qed

lemma finalize_pending_run:
  assumes "finalize_pending e i m s = Ok r t" and "get_market s i = Some m"
  obtains p out where "rewrote i s t m (m\<lparr>m_status := Resolved, m_resolved_at := Some (timestamp e)\<rparr>)"
    and "m_pending_resolution_timestamp m = Some p" and "m_winning_outcome m = Some out"
    and "unat p + unat (get_market_dispute_window s i) < 2 ^ 64"
    and "p + get_market_dispute_window s i \<le> timestamp e"
proof -
  from assms(1) obtain p out where m: "m_pending_resolution_timestamp m = Some p" "m_winning_outcome m = Some out"
    "unat p + unat (get_market_dispute_window s i) < 2 ^ 64" "p + get_market_dispute_window s i \<le> timestamp e" and
    c: "thn (update_market e (m\<lparr>m_status := Resolved, m_resolved_at := Some (timestamp e)\<rparr>))
     (thn (emit_market_state_changed i ''PendingResolution'' ''Resolved'' (timestamp e))
     (emit_market_finalized i (current_contract_address e) out)) s = Ok r t"
    unfolding finalize_pending_def bnd_Ok thn_Ok [of "err_if a b" for a b] reads_Ok ok_or_Ok err_if_Ok add_word_Ok
    by (auto simp: not_less)
  have "rewrote i s t m (m\<lparr>m_status := Resolved, m_resolved_at := Some (timestamp e)\<rparr>)"
    by (rule update_then_keeps [OF c assms(2)]) ((intro view_rules keeps_emit; simp add: rest_of_def)+)
  with m that show ?thesis by blast
qed

lemma aggregate_votes_pure: "aggregate_votes votes x ts s = Ok r t \<Longrightarrow> t = s"
  by (induction votes x ts arbitrary: s rule: aggregate_votes.induct) (auto simp: run_simps)

lemma calculate_voting_outcome_pure: "calculate_voting_outcome e m s = Ok r t \<Longrightarrow> t = s"
  by (auto simp: calculate_voting_outcome_def Let_def case_prod_beta run_simps dest!: aggregate_votes_pure)

lemma finalize_disputed_run:
  assumes "finalize_disputed e i m s = Ok r t" and "get_market s i = Some m"
  obtains d out where "rewrote i s t m (m\<lparr>m_status := Resolved, m_winning_outcome := Some out,
      m_resolved_at := Some (timestamp e)\<rparr>)"
    and "m_dispute_timestamp m = Some d" and "unat d + unat VOTING_PERIOD_SECONDS < 2 ^ 64"
    and "d + VOTING_PERIOD_SECONDS \<le> timestamp e" and "calculate_voting_outcome e m s = Ok out s"
proof -
  from assms(1) obtain d out u where m: "m_dispute_timestamp m = Some d"
    "unat d + unat VOTING_PERIOD_SECONDS < 2 ^ 64" "d + VOTING_PERIOD_SECONDS \<le> timestamp e" and
    u: "calculate_voting_outcome e m s = Ok out u" and
    c: "thn (update_market e (m\<lparr>m_status := Resolved, m_winning_outcome := Some out,
          m_resolved_at := Some (timestamp e)\<rparr>))
     (thn (emit_market_state_changed i ''Disputed'' ''Resolved'' (timestamp e))
     (emit_dispute_resolved i (current_contract_address e) out)) u = Ok r t"
    unfolding finalize_disputed_def bnd_Ok thn_Ok [of "err_if a b" for a b] reads_Ok ok_or_Ok err_if_Ok add_word_Ok
    by (auto simp: not_less)
  have us: "u = s" using calculate_voting_outcome_pure [OF u] .
  have "rewrote i s t m (m\<lparr>m_status := Resolved, m_winning_outcome := Some out,
      m_resolved_at := Some (timestamp e)\<rparr>)"
    by (rule update_then_keeps [OF c [unfolded us] assms(2)])
       ((intro view_rules keeps_emit; simp add: rest_of_def)+)
  with m u us that show ?thesis by blast
qed

lemma resolve_market_run:
  assumes "resolve_market e i out s = Ok r t"
  obtains m where "rewrote i s t m (m\<lparr>m_status := Resolved, m_winning_outcome := Some out,
      m_resolved_at := Some (timestamp e)\<rparr>)"
    and "m_status m \<notin> {Resolved, Cancelled}" and "unat out < length (m_options m)"
proof -
  from assms obtain m where m: "get_market s i = Some m" "m_status m \<notin> {Resolved, Cancelled}"
    "unat out < length (m_options m)" and
    c: "thn (update_market e (m\<lparr>m_status := Resolved, m_winning_outcome := Some out,
            m_resolved_at := Some (timestamp e)\<rparr>))
     (bnd (reads (\<lambda>s. case get_admin s of Some a \<Rightarrow> a | None \<Rightarrow> current_contract_address e)) (\<lambda>admin.
     emit_resolution_finalized i admin out (if 0 < get_outcome_stake m out then m_total_staked m else 0))) s = Ok r t"
    unfolding resolve_market_def bnd_Ok [of "reads f" for f] bnd_Ok [of "ok_or f g" for f g]
      thn_Ok [of "err_if a b" for a b] reads_Ok ok_or_Ok err_if_Ok Let_def
    by (auto simp: not_le)
  have "rewrote i s t m (m\<lparr>m_status := Resolved, m_winning_outcome := Some out,
      m_resolved_at := Some (timestamp e)\<rparr>)"
    by (rule update_then_keeps [OF c m(1)]) ((intro view_rules keeps_emit; simp add: rest_of_def)+)
  with m that show ?thesis by blast
qed

lemma cancel_market_admin_run:
  assumes "cancel_market_admin e i s = Ok r t"
  obtains m where "rewrote i s t m (m\<lparr>m_status := Cancelled\<rparr>)"
    and "m_status m \<notin> {Resolved, Cancelled}" and "\<exists>a. get_admin s = Some a \<and> a \<in> authorized e"
proof -
  from assms obtain m where m: "get_market s i = Some m" "m_status m \<notin> {Resolved, Cancelled}"
    "\<exists>a. get_admin s = Some a \<and> a \<in> authorized e" and
    c: "thn (update_market e (m\<lparr>m_status := Cancelled\<rparr>))
     (bnd (reads get_admin) (\<lambda>a. bnd (some_or_trap a) (\<lambda>admin_address.
     emit_market_cancelled i admin_address))) s = Ok r t"
    unfolding cancel_market_admin_def bnd_Ok [of "reads f" for f] bnd_Ok [of "ok_or f g" for f g]
      thn_Ok [of "err_if a b" for a b] thn_Ok [of "require_admin a" for a] reads_Ok ok_or_Ok err_if_Ok
    by (auto simp: require_admin_Ok get_admin_def)
  have "rewrote i s t m (m\<lparr>m_status := Cancelled\<rparr>)"
    by (rule update_then_keeps [OF c m(1)]) ((intro view_rules keeps_emit; simp add: rest_of_def)+)
  with m that show ?thesis by blast
qed

lemma sum_tallies_Ok:
  "sum_tallies i ns x s = Ok y t \<Longrightarrow> y = x + (\<Sum>n \<leftarrow> ns. get_tally s i (of_nat n)) \<and> t = s"
  by (induction ns arbitrary: x) (auto simp: run_simps, metis add.assoc)

lemma cancel_market_vote_run:
  assumes "cancel_market_vote e i s = Ok r t"
  obtains m pct where "rewrote i s t m (m\<lparr>m_status := Cancelled\<rparr>)" and "m_status m = Disputed"
    and "in_i128 (get_tally s i CANCEL_OUTCOME_INDEX * 10000)"
    and "checked_div_i128 (get_tally s i CANCEL_OUTCOME_INDEX * 10000) (get_tally s i CANCEL_OUTCOME_INDEX
          + (\<Sum>n \<leftarrow> [0..<length (m_options m)]. get_tally s i (of_nat n))) = Some pct" and "7500 \<le> pct"
proof -
  from assms obtain m pct y u where m: "get_market s i = Some m" "m_status m = Disputed" and
    tot: "sum_tallies i [0..<length (m_options m)] (get_tally s i CANCEL_OUTCOME_INDEX) s = Ok y u" and
    pct: "in_i128 (get_tally s i CANCEL_OUTCOME_INDEX * 10000)"
      "checked_div_i128 (get_tally s i CANCEL_OUTCOME_INDEX * 10000) y = Some pct" "7500 \<le> pct" and
    c: "thn (update_market e (m\<lparr>m_status := Cancelled\<rparr>))
     (emit_market_cancelled_vote i (current_contract_address e)) u = Ok r t"
    unfolding cancel_market_vote_def bnd_Ok thn_Ok [of "err_if a b" for a b] reads_Ok ok_or_Ok err_if_Ok
    by (auto simp: not_less FAILED_MARKET_THRESHOLD_BPS_def split: option.splits)
  note y = sum_tallies_Ok [OF tot]
  then have us: "u = s" by blast
  have "rewrote i s t m (m\<lparr>m_status := Cancelled\<rparr>)"
    by (rule update_then_keeps [OF c [unfolded us] m(1)]) ((intro view_rules keeps_emit; simp add: rest_of_def)+)
  with m pct y that show ?thesis by blast
qed

text \<open>Each of them is a step of the life cycle.\<close>

definition life_step :: "'w ctx \<Rightarrow> u64 \<Rightarrow> 'w st \<Rightarrow> 'w st \<Rightarrow> bool" where
  "life_step e i s t \<longleftrightarrow> (\<exists>m m'. rewrote i s t m m' \<and> market_change (timestamp e) m m')"

lemma attempt_oracle_resolution_step: "attempt_oracle_resolution e i s = Ok r t \<Longrightarrow> life_step e i s t"
  unfolding life_step_def by (elim attempt_oracle_resolution_run) (blast intro: mc_oracle)

lemma file_dispute_step: "file_dispute e a i s = Ok r t \<Longrightarrow> life_step e i s t"
  unfolding life_step_def by (elim file_dispute_run) (blast intro: mc_dispute)

lemma finalize_resolution_step: "finalize_resolution e i s = Ok r t \<Longrightarrow> life_step e i s t"
proof -
  assume "finalize_resolution e i s = Ok r t"
  then obtain m where m: "get_market s i = Some m" and
    c: "(case m_status m of PendingResolution \<Rightarrow> finalize_pending e i m
     | Disputed \<Rightarrow> finalize_disputed e i m | Resolved \<Rightarrow> fail CannotChangeOutcome
     | Active \<Rightarrow> fail ResolutionNotReady | Cancelled \<Rightarrow> fail ResolutionNotReady) s = Ok r t"
    by (auto simp: finalize_resolution_def run_simps)
  from c have "m_status m = PendingResolution \<and> finalize_pending e i m s = Ok r t \<or>
        m_status m = Disputed \<and> finalize_disputed e i m s = Ok r t"
    by (cases "m_status m") (simp_all add: fail_Ok)
  then show ?thesis unfolding life_step_def
    by (elim disjE conjE finalize_pending_run [OF _ m] finalize_disputed_run [OF _ m])
       (blast intro: mc_finalize mc_voted)+
qed

lemma resolve_market_step: "resolve_market e i out s = Ok r t \<Longrightarrow> life_step e i s t"
  unfolding life_step_def by (elim resolve_market_run) (blast intro: mc_admin)

lemma cancel_market_admin_step: "cancel_market_admin e i s = Ok r t \<Longrightarrow> life_step e i s t"
  unfolding life_step_def by (elim cancel_market_admin_run) (blast intro: mc_cancel)

lemma cancel_market_vote_step: "cancel_market_vote e i s = Ok r t \<Longrightarrow> life_step e i s t"
  unfolding life_step_def
  by (elim cancel_market_vote_run) (intro exI conjI, assumption, rule mc_cancel, simp)

section \<open>The vote count computes the weighted majority\<close>

definition weight_for :: "Vote list \<Rightarrow> u32 \<Rightarrow> i128" where
  "weight_for votes out = (\<Sum>v \<leftarrow> votes. if v_outcome v = out then v_weight v else 0)"

definition total_weight :: "Vote list \<Rightarrow> i128" where
  "total_weight votes = (\<Sum>v \<leftarrow> votes. v_weight v)"

definition tally_of :: "(u32 \<times> i128) list \<Rightarrow> u32 \<Rightarrow> i128" where
  "tally_of ts out = (case map_of ts out of None \<Rightarrow> 0 | Some x \<Rightarrow> x)"

lemma weight_for_nonneg: "\<forall>v \<in> set votes. 0 \<le> v_weight v \<Longrightarrow> 0 \<le> weight_for votes out"
  by (induction votes) (auto simp: weight_for_def)

lemma weight_for_pair:
  assumes "\<forall>v \<in> set votes. 0 \<le> v_weight v" and "a \<noteq> b"
  shows "weight_for votes a + weight_for votes b \<le> total_weight votes"
  using assms(1)
proof (induction votes)
  case (Cons v votes)
  then show ?case using assms(2) by (auto simp: weight_for_def total_weight_def)
qed (simp add: weight_for_def total_weight_def)

lemma total_weight_nonneg: "\<forall>v \<in> set votes. 0 \<le> v_weight v \<Longrightarrow> 0 \<le> total_weight votes"
  by (induction votes) (auto simp: total_weight_def)

lemma add_tally_Some:
  assumes "\<forall>(k, x) \<in> set ts. 0 \<le> x" and "0 \<le> w" and "sum_list (map snd ts) + w < 2 ^ 127"
  shows "\<exists>ts'. add_tally ts out w = Some ts' \<and> (\<forall>(k, x) \<in> set ts'. 0 \<le> x) \<and>
    sum_list (map snd ts') = sum_list (map snd ts) + w \<and>
    fst ` set ts' = insert out (fst ` set ts) \<and> (distinct (map fst ts) \<longrightarrow> distinct (map fst ts')) \<and>
    (\<forall>k. tally_of ts' k = tally_of ts k + (if k = out then w else 0))"
  using assms
proof (induction ts out w rule: add_tally.induct)
  case (2 k x ts out w)
  have nn: "0 \<le> sum_list (map snd ts)" using "2.prems"(1) by (intro sum_list_nonneg) auto
  show ?case
  proof (cases "k = out")
    case True
    have "in_i128 (x + w)" using 2 nn by (auto simp: in_i128_def)
    then have "add_tally ((k, x) # ts) out w = Some ((k, x + w) # ts)"
      using True by (simp add: checked_add_i128_def)
    then show ?thesis using True 2 by (auto simp: tally_of_def)
  next
    case False
    have "sum_list (map snd ts) + w < 2 ^ 127" using "2.prems" by auto
    with False 2 obtain ts' where "add_tally ts out w = Some ts'" "\<forall>(k, x) \<in> set ts'. 0 \<le> x"
      "sum_list (map snd ts') = sum_list (map snd ts) + w"
      "fst ` set ts' = insert out (fst ` set ts)" "distinct (map fst ts) \<longrightarrow> distinct (map fst ts')"
      "\<forall>k. tally_of ts' k = tally_of ts k + (if k = out then w else 0)" by auto
    with False "2.prems" show ?thesis by (auto simp: tally_of_def)
  qed
qed (simp add: tally_of_def)

lemma aggregate_votes_Ok:
  assumes "\<forall>v \<in> set votes. 0 \<le> v_weight v" and "\<forall>(k, x) \<in> set ts. 0 \<le> x"
    and "distinct (map fst ts)" and "x = sum_list (map snd ts)" and "x + total_weight votes < 2 ^ 127"
  shows "\<exists>ts'. aggregate_votes votes x ts s = Ok (x + total_weight votes, ts') s \<and>
    distinct (map fst ts') \<and> (\<forall>(k, y) \<in> set ts'. 0 \<le> y) \<and>
    sum_list (map snd ts') = x + total_weight votes \<and>
    (\<forall>k. tally_of ts' k = tally_of ts k + weight_for votes k)"
  using assms
proof (induction votes x ts rule: aggregate_votes.induct)
  case (1 x ts)
  then show ?case by (simp add: ret_def total_weight_def weight_for_def)
next
  case (2 v votes x ts)
  let ?w = "v_weight v"
  have w: "0 \<le> ?w" "0 \<le> total_weight votes" "0 \<le> x"
    using "2.prems" total_weight_nonneg [of votes] by (force intro!: sum_list_nonneg)+
  have lt: "x + ?w + total_weight votes < 2 ^ 127"
    using "2.prems"(5) by (simp add: total_weight_def add.assoc)
  obtain ts' where ts': "add_tally ts (v_outcome v) ?w = Some ts'" "\<forall>(k, x) \<in> set ts'. 0 \<le> x"
    "sum_list (map snd ts') = x + ?w" "distinct (map fst ts')"
    "\<forall>k. tally_of ts' k = tally_of ts k + (if k = v_outcome v then ?w else 0)"
    using add_tally_Some [OF "2.prems"(2) w(1), of "v_outcome v"] "2.prems" w lt by auto
  have "in_i128 (x + ?w)" using w lt by (simp add: in_i128_def)
  then have step: "aggregate_votes (v # votes) x ts s = aggregate_votes votes (x + ?w) ts' s"
    by (simp add: bnd_def ok_or_def checked_add_i128_def ts'(1))
  have "\<exists>us. aggregate_votes votes (x + ?w) ts' s = Ok (x + ?w + total_weight votes, us) s \<and>
    distinct (map fst us) \<and> (\<forall>(k, y) \<in> set us. 0 \<le> y) \<and>
    sum_list (map snd us) = x + ?w + total_weight votes \<and>
    (\<forall>k. tally_of us k = tally_of ts' k + weight_for votes k)"
    using "2.prems"(1) ts' lt by (intro "2.IH") auto
  with ts'(5) show ?case unfolding step
    by (simp add: total_weight_def weight_for_def add.assoc eq_commute [of "v_outcome v"])
qed

lemma tally_of_mem: "distinct (map fst ts) \<Longrightarrow> (k, x) \<in> set ts \<Longrightarrow> tally_of ts k = x"
  by (simp add: tally_of_def)

lemma argmax_is_tally:
  assumes "distinct (map fst ts)" and "\<forall>(k, y) \<in> set ts. 0 \<le> y" and "0 < sum_list (map snd ts)"
    and "argmax_loop (\<lambda>k. k) ts 0 0 = (b, mx)"
  shows "tally_of ts b = mx \<and> (\<forall>k. tally_of ts k \<le> mx)"
proof -
  have top: "(k, y) \<in> set ts \<Longrightarrow> y \<le> mx" for k y using argmax_loop_top [OF assms(4)] by auto
  have nz: "0 \<le> mx" using argmax_loop_top [OF assms(4)] by simp
  have "mx \<noteq> 0"
  proof
    assume "mx = 0"
    with top assms(2) have "\<forall>x \<in> set (map snd ts). x = 0" by fastforce
    then have "map snd ts = replicate (length ts) 0" by (intro replicate_eqI) auto
    then have "sum_list (map snd ts) = 0" by (simp add: sum_list_replicate)
    with assms(3) show False by simp
  qed
  with argmax_loop_cases [OF assms(4)] have "(b, mx) \<in> set ts" by auto
  then have "tally_of ts b = mx" using assms(1) by (rule tally_of_mem [rotated])
  moreover have "tally_of ts k \<le> mx" for k
    using top nz by (auto simp: tally_of_def dest: map_of_SomeD split: option.split)
  ultimately show ?thesis by blast
qed

lemma zdiv_less_iff: "0 < t \<Longrightarrow> a div t < n \<longleftrightarrow> a < n * (t :: int)"
proof
  assume t: "0 < t" and "a div t < n"
  then have "(a div t + 1) * t \<le> n * t" by (intro mult_right_mono) auto
  moreover have "a < (a div t + 1) * t"
    unfolding distrib_right mult_1
    using div_mult_mod_eq [of a t] pos_mod_bound [OF t, of a] by linarith
  ultimately show "a < n * t" by linarith
next
  assume t: "0 < t" and a: "a < n * t"
  show "a div t < n"
  proof (rule ccontr)
    assume "\<not> a div t < n"
    then have "n * t \<le> a div t * t" using t by (intro mult_right_mono) auto
    also have "\<dots> \<le> a" using t div_mult_mod_eq [of a t] pos_mod_sign [of t a] by linarith
    finally show False using a by simp
  qed
qed

lemma majority_threshold:
  assumes "0 \<le> w" and "0 < t"
  shows "(w * 10000) sdiv t < MAJORITY_THRESHOLD_BPS \<longleftrightarrow> 5 * w < 3 * (t :: int)"
proof -
  have "(w * 10000) sdiv t = (w * 10000) div t" using assms by (intro sdiv_nonneg) auto
  moreover have "(w * 10000) div t < 6000 \<longleftrightarrow> w * 10000 < 6000 * t"
    using zdiv_less_iff [OF assms(2)] by simp
  ultimately show ?thesis by (auto simp: MAJORITY_THRESHOLD_BPS_def)
qed

text \<open>
  C6. The dispute vote is decided by a 60% majority of weight: with non-negative weights whose
  sum is in range, the count returns an outcome exactly when that outcome carries at least 60% of all
  the weight, which at most one can; otherwise it reports that no votes were cast or that there is
  no majority. The order of the votes does not matter.
\<close>

theorem voting_outcome_decision:
  assumes "ext_get_market_votes e s (m_id m) = votes" and "\<forall>v \<in> set votes. 0 \<le> v_weight v"
    and "in_i128 (total_weight votes * 10000)"
  shows "(calculate_voting_outcome e m s = Ok out s \<longleftrightarrow>
      0 < total_weight votes \<and> 3 * total_weight votes \<le> 5 * weight_for votes out) \<and>
    (total_weight votes = 0 \<longrightarrow> calculate_voting_outcome e m s = Err NoVotesCast s) \<and>
    (0 < total_weight votes \<and> (\<forall>k. 5 * weight_for votes k < 3 * total_weight votes) \<longrightarrow>
      calculate_voting_outcome e m s = Err NoMajority s)"
proof -
  let ?T = "total_weight votes"
  have nn: "0 \<le> ?T" using total_weight_nonneg [OF assms(2)] .
  then have "?T < 2 ^ 127" using assms(3) by (auto simp: in_i128_def)
  then obtain ts where ts: "aggregate_votes votes 0 [] s = Ok (?T, ts) s" "distinct (map fst ts)"
    "\<forall>(k, y) \<in> set ts. 0 \<le> y" "sum_list (map snd ts) = ?T" "\<And>k. tally_of ts k = weight_for votes k"
    using aggregate_votes_Ok [OF assms(2), of "[]" 0 s] by (auto simp: tally_of_def)
  obtain b mx where arg: "argmax_loop (\<lambda>k. k) ts 0 0 = (b, mx)" by fastforce
  show ?thesis
  proof (cases "?T = 0")
    case True
    then show ?thesis using ts by (simp add: calculate_voting_outcome_def assms(1) run_eval)
  next
    case False
    then have pos: "0 < ?T" using nn by simp
    have mx: "weight_for votes b = mx" "\<And>k. weight_for votes k \<le> mx"
      using argmax_is_tally [OF ts(2,3) _ arg] pos ts(4,5) by auto
    have mxT: "0 \<le> mx" "mx \<le> ?T"
      using weight_for_nonneg [OF assms(2), of b] weight_for_pair [OF assms(2), of b "b + 1"]
        weight_for_nonneg [OF assms(2), of "b + 1"] mx(1) by auto
    then have rng: "in_i128 (mx * 10000)" using assms(3) by (auto simp: in_i128_def)
    note rng = rng in_i128_div [OF rng pos]
    have calc: "calculate_voting_outcome e m s = (if 5 * mx < 3 * ?T then Err NoMajority s else Ok b s)"
      using ts(1) pos rng majority_threshold [OF mxT(1) pos]
      by (simp add: calculate_voting_outcome_def assms(1) arg checked_mul_i128_def checked_div_i128_def run_eval)
    have "out = b" if "3 * ?T \<le> 5 * weight_for votes out"
      using that weight_for_pair [OF assms(2), of out b] mx(1) mx(2) [of out] pos by fastforce
    then show ?thesis using calc mx pos by (auto simp: not_less)
  qed
qed

definition sample_votes :: "Vote list" where
  "sample_votes = [\<lparr>v_market_id = 1, v_voter = Addr 3, v_outcome = 1, v_weight = 70\<rparr>,
     \<lparr>v_market_id = 1, v_voter = Addr 4, v_outcome = 0, v_weight = 30\<rparr>]"

definition voting_ctx :: "u64 \<Rightarrow> Address set \<Rightarrow> Vote list \<Rightarrow> balances ctx" where
  "voting_ctx now auths votes = (sample_ctx now auths)\<lparr>ext_get_market_votes := (\<lambda>_ _. votes)\<rparr>"

lemma voting_ctx_sel [simp]:
  "timestamp (voting_ctx n A votes) = n" "authorized (voting_ctx n A votes) = A"
  "current_contract_address (voting_ctx n A votes) = Addr 0"
  "sequence (voting_ctx n A votes) = 1000" "min_persistent_ttl (voting_ctx n A votes) = 4096"
  "ext_get_market_votes (voting_ctx n A votes) = (\<lambda>_ _. votes)"
  by (simp_all add: voting_ctx_def)

theorem voting_outcome_decision_witness:
  "calculate_voting_outcome (voting_ctx 0 {} sample_votes) sample_market sample_st = Ok 1 sample_st"
proof -
  have "total_weight sample_votes = 100" "weight_for sample_votes 1 = 70"
    by (simp_all add: total_weight_def weight_for_def sample_votes_def)
  then show ?thesis
    using voting_outcome_decision [of "voting_ctx 0 {} sample_votes" sample_st sample_market sample_votes 1]
    by (simp add: in_i128_def sample_votes_def)
qed

section \<open>Who can act when\<close>

lemma finish_with_events:
  "\<exists>t. emit_market_state_changed i a b c s = Ok () t" "\<exists>t. emit_oracle_resolved i d f s = Ok () t"
  "\<exists>t. emit_market_finalized i d f s = Ok () t" "\<exists>t. emit_dispute_resolved i d f s = Ok () t"
  "\<exists>t. emit_dispute_filed i d c s = Ok () t" "\<exists>t. emit_market_cancelled i d s = Ok () t"
  "\<exists>t. emit_market_cancelled_vote i d s = Ok () t" "\<exists>t. emit_resolution_finalized i d f x s = Ok () t"
  by (simp_all add: run_eval)

lemma update_then_total:
  assumes "\<And>u. \<exists>t. c u = Ok () t"
  shows "\<exists>t. thn (update_market e m) c s = Ok () t"
  using assms update_market_total [of e m s] by (auto simp: thn_def bnd_def)

lemma file_dispute_when:
  assumes "get_market s i = Some m" and "m_status m = PendingResolution"
    and "m_pending_resolution_timestamp m = Some p" and "a \<in> authorized e"
    and "unat p + unat (get_market_dispute_window s i) < 2 ^ 64"
    and "unat (m_resolution_deadline m) + unat (get_market_dispute_window s i) < 2 ^ 64"
  shows "(\<exists>t. file_dispute e a i s = Ok () t) \<longleftrightarrow> timestamp e < p + get_market_dispute_window s i"
proof
  assume "timestamp e < p + get_market_dispute_window s i"
  then have "file_dispute e a i s = thn (update_market e (m\<lparr>m_status := Disputed,
        m_dispute_timestamp := Some (timestamp e),
        m_resolution_deadline := m_resolution_deadline m + get_market_dispute_window s i\<rparr>))
     (emit_dispute_filed i a (m_resolution_deadline m + get_market_dispute_window s i)) s"
    using assms by (simp add: file_dispute_def thn_def bnd_def reads_def ok_or_def err_if_def
        require_auth_def add_word_def not_le [symmetric])
  then show "\<exists>t. file_dispute e a i s = Ok () t" using update_then_total [OF finish_with_events(5)] by simp
next
  assume "\<exists>t. file_dispute e a i s = Ok () t"
  then show "timestamp e < p + get_market_dispute_window s i"
    using assms by (auto elim!: file_dispute_run simp: rewrote_def)
qed

lemma finalize_pending_when:
  assumes "get_market s i = Some m" and "m_status m = PendingResolution"
    and "m_pending_resolution_timestamp m = Some p" and "m_winning_outcome m = Some out"
    and "unat p + unat (get_market_dispute_window s i) < 2 ^ 64"
  shows "(\<exists>t. finalize_resolution e i s = Ok () t) \<longleftrightarrow> p + get_market_dispute_window s i \<le> timestamp e"
proof
  assume "p + get_market_dispute_window s i \<le> timestamp e"
  then have "finalize_resolution e i s = thn (update_market e (m\<lparr>m_status := Resolved,
        m_resolved_at := Some (timestamp e)\<rparr>))
     (thn (emit_market_state_changed i ''PendingResolution'' ''Resolved'' (timestamp e))
     (emit_market_finalized i (current_contract_address e) out)) s"
    using assms by (simp add: finalize_resolution_def finalize_pending_def thn_def bnd_def reads_def
        ok_or_def err_if_def add_word_def not_le [symmetric])
  moreover have "\<exists>t. thn (emit_market_state_changed i ''PendingResolution'' ''Resolved'' (timestamp e))
     (emit_market_finalized i (current_contract_address e) out) u = Ok () t" for u
    by (simp add: run_eval)
  ultimately show "\<exists>t. finalize_resolution e i s = Ok () t" using update_then_total by metis
next
  assume "\<exists>t. finalize_resolution e i s = Ok () t"
  then obtain t where "finalize_pending e i m s = Ok () t"
    using assms(1,2) by (auto simp: finalize_resolution_def run_simps)
  then show "p + get_market_dispute_window s i \<le> timestamp e"
    using assms by (auto elim!: finalize_pending_run)
qed

text \<open>
  C5. Dispute or finalise, never both: for a market pending resolution, at every moment exactly one
  of the two succeeds, the dispute while the market's dispute window is open and the finalisation
  from its end on; neither can be blocked by anyone once its time has come (the times being such
  that the two deadlines do not overflow).
\<close>

theorem dispute_xor_finalize:
  assumes "get_market s i = Some m" and "m_status m = PendingResolution"
    and "m_pending_resolution_timestamp m = Some p" and "m_winning_outcome m = Some out"
    and "a \<in> authorized e" and "unat p + unat (get_market_dispute_window s i) < 2 ^ 64"
    and "unat (m_resolution_deadline m) + unat (get_market_dispute_window s i) < 2 ^ 64"
  shows "((\<exists>t. file_dispute e a i s = Ok () t) \<longleftrightarrow> timestamp e < p + get_market_dispute_window s i) \<and>
    ((\<exists>t. finalize_resolution e i s = Ok () t) \<longleftrightarrow> \<not> (\<exists>t. file_dispute e a i s = Ok () t))"
  using file_dispute_when [OF assms(1-3,5-7)] finalize_pending_when [OF assms(1-4,6)] by (simp add: not_less)

definition pending_sample :: "balances st" where
  "pending_sample = with_market (sample_market\<lparr>m_status := PendingResolution,
     m_winning_outcome := Some 0, m_pending_resolution_timestamp := Some 100000\<rparr>) sample_st"

theorem dispute_xor_finalize_witness:
  "(\<exists>t. file_dispute (sample_ctx 359199 {Addr 7}) (Addr 7) 1 pending_sample = Ok () t) \<and>
   (\<exists>t. finalize_resolution (sample_ctx 359200 {Addr 7}) 1 pending_sample = Ok () t)"
proof -
  have m: "get_market pending_sample 1 = Some (sample_market\<lparr>m_status := PendingResolution,
     m_winning_outcome := Some 0, m_pending_resolution_timestamp := Some 100000\<rparr>)"
    by (simp add: pending_sample_def get_market_def sample_defs)
  have w: "get_market_dispute_window pending_sample 1 = 259200"
    by (simp add: pending_sample_def get_market_dispute_window_def get_default_dispute_window_def
        DEFAULT_DISPUTE_WINDOW_SECONDS_def sample_defs)
  have "((\<exists>t. file_dispute (sample_ctx n {Addr 7}) (Addr 7) 1 pending_sample = Ok () t) \<longleftrightarrow> n < 359200) \<and>
    ((\<exists>t. finalize_resolution (sample_ctx n {Addr 7}) 1 pending_sample = Ok () t) \<longleftrightarrow>
      \<not> (\<exists>t. file_dispute (sample_ctx n {Addr 7}) (Addr 7) 1 pending_sample = Ok () t))" for n
    using dispute_xor_finalize [OF m, of 100000 0 "Addr 7" "sample_ctx n {Addr 7}"]
    by (simp add: w sample_market_def) blast
  from this [of 359199] this [of 359200] show ?thesis by simp
qed

text \<open>
  A vote can resolve a market to the cancel index: voters may vote for the cancel outcome, which
  is no outcome of the market; when it gets at least 60% of the weight, finalising the dispute after
  the voting period resolves the market with that index as its winner (cancellation by vote would
  need 75%).
\<close>

theorem dispute_may_resolve_to_cancel_index:
  assumes "get_market s i = Some m" and "m_id m = i" and "m_status m = Disputed"
    and "m_dispute_timestamp m = Some d" and "unat d + 259200 \<le> unat (timestamp e)"
    and "ext_get_market_votes e s i = votes" and "\<forall>v \<in> set votes. 0 \<le> v_weight v"
    and "in_i128 (total_weight votes * 10000)" and "0 < total_weight votes"
    and "3 * total_weight votes \<le> 5 * weight_for votes CANCEL_OUTCOME_INDEX"
    and "length (m_options m) \<le> 100"
  shows "\<exists>t m'. finalize_resolution e i s = Ok () t \<and> get_market t i = Some m' \<and>
    m_status m' = Resolved \<and> m_winning_outcome m' = Some CANCEL_OUTCOME_INDEX \<and>
    \<not> unat CANCEL_OUTCOME_INDEX < length (m_options m')"
proof -
  let ?m = "m\<lparr>m_status := Resolved, m_winning_outcome := Some CANCEL_OUTCOME_INDEX,
      m_resolved_at := Some (timestamp e)\<rparr>"
  have V: "unat VOTING_PERIOD_SECONDS = 259200" by (simp add: VOTING_PERIOD_SECONDS_def)
  have calc: "calculate_voting_outcome e m s = Ok CANCEL_OUTCOME_INDEX s"
    using voting_outcome_decision [of e s m votes CANCEL_OUTCOME_INDEX] assms by blast
  have ov: "unat d + unat VOTING_PERIOD_SECONDS < 2 ^ 64"
    using assms(5) unat_u64_bound [of "timestamp e"] by (simp only: V)
  then have "\<not> timestamp e < d + VOTING_PERIOD_SECONDS"
    using assms(5) unat_add_no_overflow [of d VOTING_PERIOD_SECONDS] by (simp add: word_less_nat_alt V)
  then have run: "finalize_resolution e i s = thn (update_market e ?m)
     (thn (emit_market_state_changed i ''Disputed'' ''Resolved'' (timestamp e))
     (emit_dispute_resolved i (current_contract_address e) CANCEL_OUTCOME_INDEX)) s"
    using assms(1,3,4) ov calc by (simp add: finalize_resolution_def finalize_disputed_def thn_def bnd_def
        reads_def ok_or_def err_if_def add_word_def)
  moreover have "\<exists>t. thn (emit_market_state_changed i ''Disputed'' ''Resolved'' (timestamp e))
     (emit_dispute_resolved i (current_contract_address e) CANCEL_OUTCOME_INDEX) u = Ok () t" for u
    by (simp add: run_eval)
  ultimately obtain t where t: "finalize_resolution e i s = Ok () t" using update_then_total by metis
  have "rewrote i s t m ?m"
    by (rule update_then_keeps [OF t [unfolded run] assms(1)])
       ((intro view_rules keeps_emit; simp add: rest_of_def)+)
  then have "get_market t i = Some ?m" using assms(2) by (simp add: rewrote_def get_market_def)
  moreover have "unat CANCEL_OUTCOME_INDEX = 4294967295" by (simp add: CANCEL_OUTCOME_INDEX_def unsigned_minus_1_eq_mask mask_eq_exp_minus_1)
  ultimately show ?thesis using t assms(11) by (intro exI [of _ t] exI [of _ ?m]) auto
qed

theorem dispute_may_resolve_to_cancel_index_witness:
  "let votes = [\<lparr>v_market_id = 1, v_voter = Addr 3, v_outcome = CANCEL_OUTCOME_INDEX, v_weight = 70\<rparr>,
       \<lparr>v_market_id = 1, v_voter = Addr 4, v_outcome = 0, v_weight = 30\<rparr>];
     s = with_market (sample_market\<lparr>m_status := Disputed, m_dispute_timestamp := Some 1000\<rparr>) sample_st
   in \<exists>t m. finalize_resolution (voting_ctx 300000 {} votes) 1 s = Ok () t \<and> get_market t 1 = Some m \<and>
        m_winning_outcome m = Some CANCEL_OUTCOME_INDEX"
proof -
  let ?votes = "[\<lparr>v_market_id = 1, v_voter = Addr 3, v_outcome = CANCEL_OUTCOME_INDEX, v_weight = 70\<rparr>,
       \<lparr>v_market_id = 1, v_voter = Addr 4, v_outcome = 0, v_weight = 30\<rparr>]"
  let ?m = "sample_market\<lparr>m_status := Disputed, m_dispute_timestamp := Some 1000\<rparr>"
  have m: "get_market (with_market ?m sample_st) 1 = Some ?m" by (simp add: get_market_def sample_defs)
  have w: "total_weight ?votes = 100" "weight_for ?votes CANCEL_OUTCOME_INDEX = 70"
    by (simp_all add: total_weight_def weight_for_def CANCEL_OUTCOME_INDEX_def)
  show ?thesis unfolding Let_def
    using dispute_may_resolve_to_cancel_index [OF m, of 1000 "voting_ctx 300000 {} ?votes" ?votes] w
    by (auto simp: in_i128_def sample_market_def)
qed

section \<open>Cancellation by vote\<close>

definition all_tallies :: "'w st \<Rightarrow> u64 \<Rightarrow> Market \<Rightarrow> i128" where
  "all_tallies s i m = get_tally s i CANCEL_OUTCOME_INDEX
     + (\<Sum>n \<leftarrow> [0..<length (m_options m)]. get_tally s i (of_nat n))"

lemma sum_tallies_total:
  assumes "\<forall>k. 0 \<le> get_tally s i k" and "0 \<le> x" and "x + (\<Sum>n \<leftarrow> ns. get_tally s i (of_nat n)) < 2 ^ 127"
  shows "sum_tallies i ns x s = Ok (x + (\<Sum>n \<leftarrow> ns. get_tally s i (of_nat n))) s"
  using assms(2,3)
proof (induction ns arbitrary: x)
  case (Cons n ns)
  have "0 \<le> (\<Sum>n \<leftarrow> ns. get_tally s i (of_nat n))" using assms(1) by (intro sum_list_nonneg) auto
  moreover have "0 \<le> get_tally s i (of_nat n)" using assms(1) by blast
  ultimately have "in_i128 (x + get_tally s i (of_nat n))" using Cons.prems by (simp add: in_i128_def)
  then show ?case
    using Cons.IH [of "x + get_tally s i (of_nat n)"] Cons.prems assms(1)
    by (simp add: bnd_def reads_def add_i128_def add.assoc)
qed (simp add: ret_def)

text \<open>
  Cancellation by vote needs 75%: with non-negative tallies whose sum is in range, a disputed
  market is cancelled exactly when the cancel outcome carries at least three quarters of the tallied
  weight (and some weight was cast); otherwise the call reports insufficient weight and changes
  nothing.
\<close>

theorem cancel_vote_threshold:
  assumes "get_market s i = Some m" and "m_status m = Disputed" and "\<forall>k. 0 \<le> get_tally s i k"
    and "in_i128 (all_tallies s i m * 10000)"
  shows "if 0 < all_tallies s i m \<and> 3 * all_tallies s i m \<le> 4 * get_tally s i CANCEL_OUTCOME_INDEX
    then \<exists>t. cancel_market_vote e i s = Ok () t \<and> rewrote i s t m (m\<lparr>m_status := Cancelled\<rparr>)
    else cancel_market_vote e i s = Err InsufficientVotingWeight s"
proof -
  let ?c = "get_tally s i CANCEL_OUTCOME_INDEX" and ?T = "all_tallies s i m"
  let ?sum = "\<Sum>n \<leftarrow> [0..<length (m_options m)]. get_tally s i (of_nat n)"
  have nn: "0 \<le> ?sum" using assms(3) by (intro sum_list_nonneg) auto
  then have c: "0 \<le> ?c" "?c \<le> ?T" "0 \<le> ?T" using assms(3) by (simp_all add: all_tallies_def)
  have "?T < 2 ^ 127" using assms(4) c by (auto simp: in_i128_def)
  then have tot: "sum_tallies i [0..<length (m_options m)] ?c s = Ok ?T s"
    using sum_tallies_total [OF assms(3) c(1)] by (simp add: all_tallies_def)
  have rng: "in_i128 (?c * 10000)" using assms(4) c by (auto simp: in_i128_def)
  show ?thesis
  proof (cases "?T = 0")
    case True
    then show ?thesis using tot assms(1,2) by (simp add: cancel_market_vote_def run_eval)
  next
    case False
    then have pos: "0 < ?T" using c by simp
    have div: "in_i128 ((?c * 10000) sdiv ?T)" by (rule in_i128_div [OF rng pos])
    have thr: "(?c * 10000) sdiv ?T < 7500 \<longleftrightarrow> 4 * ?c < 3 * ?T"
      using sdiv_nonneg [of "?c * 10000" ?T] zdiv_less_iff [OF pos, of "?c * 10000" 7500] c pos by auto
    have run: "cancel_market_vote e i s = (if 4 * ?c < 3 * ?T then Err InsufficientVotingWeight s
        else thn (update_market e (m\<lparr>m_status := Cancelled\<rparr>))
          (emit_market_cancelled_vote i (current_contract_address e)) s)"
      using assms(1,2) tot pos rng div thr
      by (simp add: cancel_market_vote_def thn_def bnd_def reads_def ok_or_def err_if_def
          checked_mul_i128_def checked_div_i128_def FAILED_MARKET_THRESHOLD_BPS_def)
    show ?thesis
    proof (cases "4 * ?c < 3 * ?T")
      case True
      with run show ?thesis by simp
    next
      case False
      then have "\<exists>t. cancel_market_vote e i s = Ok () t"
        unfolding run if_not_P [OF False] by (intro update_then_total finish_with_events)
      then obtain t where t: "cancel_market_vote e i s = Ok () t" by blast
      then have "rewrote i s t m (m\<lparr>m_status := Cancelled\<rparr>)"
        using assms(1) by (elim cancel_market_vote_run) (simp add: rewrote_def)
      with t False pos show ?thesis by auto
    qed
  qed
qed

theorem cancel_vote_threshold_witness:
  "let s = upd_vts (\<lambda>k. k\<lparr>s_VoteTally := [(1, CANCEL_OUTCOME_INDEX) \<mapsto> 75, (1, 0) \<mapsto> 25]\<rparr>) disputed_sample
   in \<exists>t. cancel_market_vote (sample_ctx 2000 {}) 1 s = Ok () t"
proof -
  let ?s = "upd_vts (\<lambda>k. k\<lparr>s_VoteTally := [(1, CANCEL_OUTCOME_INDEX) \<mapsto> 75, (1, 0) \<mapsto> 25]\<rparr>) disputed_sample"
  let ?m = "sample_market\<lparr>m_status := Disputed, m_dispute_snapshot_ledger := Some 900\<rparr>"
  have m: "get_market ?s 1 = Some ?m" by (simp add: get_market_def disputed_sample_def sample_defs)
  have two: "[0..<2] = [0, 1]" by (simp add: upt_rec)
  have T: "all_tallies ?s 1 ?m = 100" "get_tally ?s 1 CANCEL_OUTCOME_INDEX = 75"
    by (simp_all add: all_tallies_def get_tally_def sample_market_def CANCEL_OUTCOME_INDEX_def two)
  have "\<forall>k. 0 \<le> get_tally ?s 1 k" by (auto simp: get_tally_def)
  then show ?thesis unfolding Let_def
    using cancel_vote_threshold [OF m, of "sample_ctx 2000 {}"] T by (auto simp: in_i128_def)
qed

section \<open>Resolution by the oracle\<close>

text \<open>
  Oracle resolution: from the resolution deadline on, an active market with a fresh oracle
  report moves to pending resolution with exactly the reported outcome, whoever calls. The reported
  index is taken as it is: it need not be an outcome of the market.
\<close>

theorem oracle_resolution_decision:
  assumes "get_market s i = Some m" and "m_id m = i"
  shows "((\<exists>t. attempt_oracle_resolution e i s = Ok () t) \<longleftrightarrow>
      m_status m = Active \<and> m_resolution_deadline m \<le> timestamp e \<and>
      validate_oracle_staleness e i (m_oracle_config m) s = Ok () s \<and> get_oracle_result s i 0 \<noteq> None) \<and>
    (\<forall>t. attempt_oracle_resolution e i s = Ok () t \<longrightarrow>
      get_market t i = Some (m\<lparr>m_status := PendingResolution, m_winning_outcome := get_oracle_result s i 0,
        m_pending_resolution_timestamp := Some (timestamp e)\<rparr>))"
    (is "(?lhs \<longleftrightarrow> ?rhs) \<and> ?effect")
proof (rule conjI [OF iffI])
  show ?effect
    using assms by (auto elim!: attempt_oracle_resolution_run simp: rewrote_def get_market_def)
next
  assume ?lhs
  then show ?rhs using assms(1) by (auto elim!: attempt_oracle_resolution_run simp: rewrote_def)
next
  assume r: ?rhs
  then obtain out where out: "get_oracle_result s i 0 = Some out" by blast
  have "attempt_oracle_resolution e i s = thn (update_market e (m\<lparr>m_status := PendingResolution,
          m_winning_outcome := Some out, m_pending_resolution_timestamp := Some (timestamp e)\<rparr>))
         (thn (emit_market_state_changed i ''Active'' ''PendingResolution'' (timestamp e))
         (emit_oracle_resolved i (current_contract_address e) out)) s"
    using r out assms(1) by (simp add: attempt_oracle_resolution_def thn_def bnd_def reads_def ok_or_def
        err_if_def leD)
  moreover have "\<exists>t. thn (emit_market_state_changed i ''Active'' ''PendingResolution'' (timestamp e))
         (emit_oracle_resolved i (current_contract_address e) out) u = Ok () t" for u
    by (simp add: run_eval)
  ultimately show ?lhs using update_then_total by metis
qed

theorem oracle_resolution_decision_witness:
  "let s = upd_orcs (\<lambda>k. k\<lparr>s_Result := [(1, 0) \<mapsto> 9], s_LastUpdate := [(1, 0) \<mapsto> 100000]\<rparr>)
      (with_market sample_market sample_st)
   in \<exists>t m. attempt_oracle_resolution (sample_ctx 100000 {}) 1 s = Ok () t \<and> get_market t 1 = Some m \<and>
      m_winning_outcome m = Some 9 \<and> length (m_options m) = 2"
proof -
  let ?s = "upd_orcs (\<lambda>k. k\<lparr>s_Result := [(1, 0) \<mapsto> 9], s_LastUpdate := [(1, 0) \<mapsto> 100000]\<rparr>)
      (with_market sample_market sample_st)"
  have m: "get_market ?s 1 = Some sample_market" by (simp add: get_market_def sample_defs)
  have o: "get_oracle_result ?s 1 0 = Some 9" by (simp add: get_oracle_result_def)
  have v: "validate_oracle_staleness (sample_ctx 100000 {}) 1 (m_oracle_config sample_market) ?s = Ok () ?s"
    by (simp add: validate_oracle_staleness_def num_oracles_def effective_max_staleness_def is_stale_def
        saturating_sub_u64_def MAX_STALENESS_SECONDS_def MAX_STALENESS_def sample_defs run_eval)
  from oracle_resolution_decision [OF m, of "sample_ctx 100000 {}"] o v obtain t where
    "attempt_oracle_resolution (sample_ctx 100000 {}) 1 ?s = Ok () t"
    "get_market t 1 = Some (sample_market\<lparr>m_status := PendingResolution, m_winning_outcome := Some 9,
        m_pending_resolution_timestamp := Some 100000\<rparr>)"
    by (auto simp: sample_market_def)
  then show ?thesis unfolding Let_def by (auto simp: sample_market_def)
qed

end
