(* ===== verification/Bets.thy ===== *)
theory Bets
  imports Resolution
begin

text \<open>
  \<^verbatim>\<open>bets.rs\<close>: placing a bet (guards, transfer, fee, stake bookkeeping, referral), the bet records and
  the shared transfer path of claims and refunds. The two functions that would call that path,
  \<^verbatim>\<open>claim_winnings\<close> and \<^verbatim>\<open>withdraw_refund\<close>, are called by \<^verbatim>\<open>lib.rs\<close> but not defined in the sources.
\<close>

section \<open>Operations\<close>

definition bump_bet_ttl :: "'w ctx \<Rightarrow> bets_DataKey \<Rightarrow> ('w, unit) contract" where
  "bump_bet_ttl e key = extend_ttl e (PBets key) BET_TTL_LOW_THRESHOLD BET_TTL_HIGH_THRESHOLD"

definition get_bet :: "'w st \<Rightarrow> u64 \<Rightarrow> Address \<Rightarrow> u32 \<Rightarrow> Bet option" where
  "get_bet s market_id bettor outcome = s_Bet (bets s) (market_id, bettor, outcome)"

definition get_bet_referrer :: "'w st \<Rightarrow> u64 \<Rightarrow> Address \<Rightarrow> u32 \<Rightarrow> Address option" where
  "get_bet_referrer s market_id bettor outcome = s_BetReferrer (bets s) (market_id, bettor, outcome)"

definition set_bet :: "'w ctx \<Rightarrow> u64 \<Rightarrow> Address \<Rightarrow> u32 \<Rightarrow> Bet \<Rightarrow> ('w, unit) contract" where
  "set_bet e market_id bettor outcome bet = p_set e (PBets (K_Bet market_id bettor outcome))
     (upd_bets (\<lambda>k. k\<lparr>s_Bet := (s_Bet k)((market_id, bettor, outcome) \<mapsto> bet)\<rparr>))"

definition set_bet_referrer :: "'w ctx \<Rightarrow> u64 \<Rightarrow> Address \<Rightarrow> u32 \<Rightarrow> Address \<Rightarrow> ('w, unit) contract" where
  "set_bet_referrer e market_id bettor outcome r = p_set e (PBets (K_BetReferrer market_id bettor outcome))
     (upd_bets (\<lambda>k. k\<lparr>s_BetReferrer := (s_BetReferrer k)((market_id, bettor, outcome) \<mapsto> r)\<rparr>))"

definition remove_bet_referrer :: "u64 \<Rightarrow> Address \<Rightarrow> u32 \<Rightarrow> ('w, unit) contract" where
  "remove_bet_referrer market_id bettor outcome = p_remove (PBets (K_BetReferrer market_id bettor outcome))
     (upd_bets (\<lambda>k. k\<lparr>s_BetReferrer := (s_BetReferrer k)((market_id, bettor, outcome) := None)\<rparr>))"

text \<open>The guards of \<^verbatim>\<open>place_bet\<close>, up to the frozen-token check.\<close>

definition check_bet ::
  "'w ctx \<Rightarrow> Address \<Rightarrow> u64 \<Rightarrow> u32 \<Rightarrow> i128 \<Rightarrow> Address \<Rightarrow> Address option \<Rightarrow> ('w, Market) contract" where
  "check_bet e bettor market_id outcome amount token_address referrer =
     thn (require_auth e bettor)
     (thn require_not_paused_for_high_risk
     (thn (err_if (amount \<le> 0) InvalidAmount)
     (thn (err_if (referrer = Some bettor) InvalidReferrer)
     (bnd (reads (\<lambda>s. get_market s market_id)) (\<lambda>found.
     bnd (ok_or found MarketNotFound) (\<lambda>market.
     thn (err_if (m_status market \<noteq> Active) MarketClosed)
     (thn (doif (0 < m_parent_id market)
             (validate_parent_market (m_parent_id market) (m_parent_outcome_idx market)))
     (thn (err_if (m_deadline market \<le> timestamp e) MarketClosed)
     (thn (err_if (m_resolution_deadline market \<le> timestamp e) ResolutionDeadlinePassed)
     (thn (err_if (length (m_options market) \<le> unat outcome) InvalidOutcome)
     (thn (err_if (token_address \<noteq> m_token_address market) InvalidBetAmount)
     (thn (check_token_not_frozen e token_address bettor)
     (ret market)))))))))))))"

text \<open>The bet record and the market after the net amount is credited.\<close>

definition credit_bet ::
  "u64 \<Rightarrow> Address \<Rightarrow> u32 \<Rightarrow> Market \<Rightarrow> i128 \<Rightarrow> i128 \<Rightarrow> ('w, Bet \<times> Market) contract" where
  "credit_bet market_id bettor outcome market fee net_amount =
     bnd (reads (\<lambda>s. get_bet s market_id bettor outcome)) (\<lambda>stored.
     let existing_bet = (case stored of Some b \<Rightarrow> b
           | None \<Rightarrow> \<lparr>b_market_id = market_id, b_bettor = bettor, b_outcome = outcome, b_amount = 0, b_fee_paid = 0\<rparr>) in
     bnd (ok_or (checked_add_i128 (b_amount existing_bet) net_amount) ArithmeticOverflow) (\<lambda>bet_amount.
     bnd (ok_or (checked_add_i128 (b_fee_paid existing_bet) fee) ArithmeticOverflow) (\<lambda>fee_paid.
     bnd (ok_or (checked_add_i128 (m_total_staked market) net_amount) ArithmeticOverflow) (\<lambda>total_staked.
     bnd (ok_or (checked_add_i128 (get_outcome_stake market outcome) net_amount) ArithmeticOverflow) (\<lambda>outcome_stake.
     let bet = existing_bet\<lparr>b_amount := bet_amount, b_fee_paid := fee_paid, b_outcome := outcome\<rparr>;
         market' = set_outcome_stake (market\<lparr>m_total_staked := total_staked\<rparr>) outcome outcome_stake in
     bnd (if bet_amount = net_amount then increment_outcome_bet_count market' outcome else ret market') (\<lambda>market''.
     ret (bet, market'')))))))"

definition track_referral ::
  "'w ctx \<Rightarrow> u64 \<Rightarrow> Address \<Rightarrow> u32 \<Rightarrow> Address \<Rightarrow> i128 \<Rightarrow> Address option \<Rightarrow> ('w, unit) contract" where
  "track_referral e market_id bettor outcome token_address fee referrer =
     (case referrer of
        None \<Rightarrow> ret ()
      | Some r \<Rightarrow>
          thn (doif (0 < fee) (add_referral_reward e r token_address fee))
          (thn (set_bet_referrer e market_id bettor outcome r)
          (bump_bet_ttl e (K_BetReferrer market_id bettor outcome))))"

definition place_bet ::
  "'w ctx \<Rightarrow> Address \<Rightarrow> u64 \<Rightarrow> u32 \<Rightarrow> i128 \<Rightarrow> Address \<Rightarrow> Address option \<Rightarrow> ('w, unit) contract" where
  "place_bet e bettor market_id outcome amount token_address referrer =
     bnd (check_bet e bettor market_id outcome amount token_address referrer) (\<lambda>market.
     thn (safe_transfer e token_address bettor (current_contract_address e) amount)
     (bnd (calculate_tiered_fee amount (m_tier market)) (\<lambda>fee.
     bnd (sub_i128 amount fee) (\<lambda>net_amount.
     thn (doif (0 < fee) (collect_fee e token_address fee))
     (bnd (credit_bet market_id bettor outcome market fee net_amount) (\<lambda>(bet, market').
     thn (set_bet e market_id bettor outcome bet)
     (thn (bump_bet_ttl e (K_Bet market_id bettor outcome))
     (thn (update_market e market')
     (thn (bump_market_ttl e market_id)
     (thn (track_referral e market_id bettor outcome token_address fee referrer)
     (emit_bet_placed market_id bettor outcome amount)))))))))))"

text \<open>
  The shared transfer path. The two functions on outcome counts it calls in \<^verbatim>\<open>markets\<close> are not
  defined there, so they are parameters of the context. The claim sentinel is a \<^verbatim>\<open>Claimed\<close> key; the
  storage of this model cannot hold the flag under a key of another shape.
\<close>

definition set_claim_key :: "'w ctx \<Rightarrow> bets_DataKey \<Rightarrow> ('w, unit) contract" where
  "set_claim_key e key = (case key of
     K_Claimed i a \<Rightarrow> p_set e (PBets key) (upd_bets (\<lambda>k. k\<lparr>s_Claimed := (s_Claimed k)((i, a) \<mapsto> True)\<rparr>))
   | K_Bet i a out \<Rightarrow> trap
   | K_BetReferrer i a out \<Rightarrow> trap)"

definition remove_bet_key :: "bets_DataKey \<Rightarrow> ('w, unit) contract" where
  "remove_bet_key key = p_remove (PBets key) (upd_bets (\<lambda>k. case key of
     K_Bet i a out \<Rightarrow> k\<lparr>s_Bet := (s_Bet k)((i, a, out) := None)\<rparr>
   | K_Claimed i a \<Rightarrow> k\<lparr>s_Claimed := (s_Claimed k)((i, a) := None)\<rparr>
   | K_BetReferrer i a out \<Rightarrow> k\<lparr>s_BetReferrer := (s_BetReferrer k)((i, a, out) := None)\<rparr>))"

definition internal_claim_amount ::
  "'w ctx \<Rightarrow> u64 \<Rightarrow> Address \<Rightarrow> Address \<Rightarrow> i128 \<Rightarrow> bets_DataKey \<Rightarrow> bets_DataKey option \<Rightarrow> bool
     \<Rightarrow> ('w, i128) contract" where
  "internal_claim_amount e market_id bettor token_address amount bet_key claimed_key is_refund =
     thn (safe_transfer e token_address (current_contract_address e) bettor amount)
     (thn (case claimed_key of
             None \<Rightarrow> ret ()
           | Some key \<Rightarrow> thn (set_claim_key e key) (bump_bet_ttl e key))
     (thn (remove_bet_key bet_key)
     (bnd (reads (\<lambda>s. get_market s market_id)) (\<lambda>found.
     thn (case (is_refund, found, bet_key) of
            (True, Some market, K_Bet _ _ outcome) \<Rightarrow>
              (let current = ext_get_outcome_bet_count e market outcome in
               doif (0 < current)
                 (thn (update_market e (ext_set_outcome_bet_count e market outcome (current - 1)))
                 (bump_market_ttl e market_id)))
          | _ \<Rightarrow> ret ())
     (ret amount)))))"

section \<open>Runs\<close>

lemma check_bet_Ok [run_simps]:
  "check_bet e bettor i out amount token referrer s = Ok m t \<longleftrightarrow>
     bettor \<in> authorized e \<and> get_state s \<noteq> Paused \<and> 0 < amount \<and> referrer \<noteq> Some bettor \<and>
     get_market s i = Some m \<and> m_status m = Active \<and>
     (0 < m_parent_id m \<longrightarrow> (\<exists>p. get_market s (m_parent_id m) = Some p \<and> m_status p = Resolved \<and>
        m_winning_outcome p = Some (m_parent_outcome_idx m) \<and>
        unat (m_parent_outcome_idx m) < length (m_options p))) \<and>
     timestamp e < m_deadline m \<and> timestamp e < m_resolution_deadline m \<and>
     unat out < length (m_options m) \<and> token = m_token_address m \<and>
     ext_frozen e token bettor (world s) \<noteq> Some True \<and> t = s"
  by (auto simp: check_bet_def run_simps not_le word_gt_0)

definition old_bet :: "'w st \<Rightarrow> u64 \<Rightarrow> Address \<Rightarrow> u32 \<Rightarrow> Bet" where
  "old_bet s i a out = (case get_bet s i a out of Some b \<Rightarrow> b
     | None \<Rightarrow> \<lparr>b_market_id = i, b_bettor = a, b_outcome = out, b_amount = 0, b_fee_paid = 0\<rparr>)"

text \<open>A market after a bet: pool and stake grow by the net amount, the bettor count on a first bet.\<close>

definition bet_market :: "Market \<Rightarrow> u32 \<Rightarrow> i128 \<Rightarrow> bool \<Rightarrow> Market" where
  "bet_market m out x new = m\<lparr>m_total_staked := m_total_staked m + x,
     m_outcome_stakes := omap_set (m_outcome_stakes m) out (get_outcome_stake m out + x),
     m_winner_counts := adjusted_counts m out new\<rparr>"

lemma credit_bet_Ok:
  assumes "credit_bet i a out m fee x s = Ok r t"
  shows "t = s \<and> r = ((old_bet s i a out)\<lparr>b_amount := b_amount (old_bet s i a out) + x,
      b_fee_paid := b_fee_paid (old_bet s i a out) + fee, b_outcome := out\<rparr>,
      bet_market m out x (b_amount (old_bet s i a out) = 0)) \<and>
    in_i128 (b_amount (old_bet s i a out) + x) \<and> in_i128 (m_total_staked m + x)"
proof -
  have o: "(case s_Bet (bets s) (i, a, out) of Some b \<Rightarrow> b
     | None \<Rightarrow> \<lparr>b_market_id = i, b_bettor = a, b_outcome = out, b_amount = 0, b_fee_paid = 0\<rparr>) = old_bet s i a out"
    by (simp add: old_bet_def get_bet_def)
  show ?thesis using assms
    by (auto simp: credit_bet_def Let_def run_simps bet_market_def adjusted_counts_def
        set_outcome_stake_def get_outcome_stake_def get_bet_def o split: if_splits)
qed

definition fee_of :: "'w st \<Rightarrow> Market \<Rightarrow> i128 \<Rightarrow> i128" where
  "fee_of s m amount = tiered_numerator amount (get_base_fee s) (m_tier m) sdiv 100000000"

lemma keeps_track_referral [view_rules]:
  assumes "\<And>s x. v (s\<lparr>live_until := x\<rparr>) = v s" and "\<And>s x. v (s\<lparr>fees := x\<rparr>) = v s"
    and "\<And>s x. v (s\<lparr>log := x\<rparr>) = v s" and "\<And>s x. v (s\<lparr>bets := x\<rparr>) = v s"
  shows "keeps v (track_referral e i a out token fee referrer)"
  unfolding track_referral_def set_bet_referrer_def bump_bet_ttl_def
  by ((intro view_rules; simp add: assms)+)

lemma track_referral_run:
  assumes "track_referral e i a out token fee referrer s = Ok r t"
  shows "s_Bet (bets t) = s_Bet (bets s)"
    "s_BetReferrer (bets t) = (case referrer of None \<Rightarrow> s_BetReferrer (bets s)
       | Some q \<Rightarrow> (s_BetReferrer (bets s))((i, a, out) \<mapsto> q))"
    "get_revenue t tk = get_revenue s tk" "total_fees t = total_fees s"
    "referrer_balance t q tk = referrer_balance s q tk
       + (if referrer = Some q \<and> tk = token \<and> 0 < fee then fee * 10 sdiv 100 else 0)"
proof -
  have "s_Bet (bets t) = s_Bet (bets s) \<and>
    s_BetReferrer (bets t) = (case referrer of None \<Rightarrow> s_BetReferrer (bets s)
       | Some q \<Rightarrow> (s_BetReferrer (bets s))((i, a, out) \<mapsto> q)) \<and>
    get_revenue t tk = get_revenue s tk \<and> total_fees t = total_fees s \<and>
    referrer_balance t q tk = referrer_balance s q tk
       + (if referrer = Some q \<and> tk = token \<and> 0 < fee then fee * 10 sdiv 100 else 0)"
  proof (cases referrer)
    case None
    then show ?thesis using assms by (simp add: track_referral_def run_simps)
  next
    case (Some q')
    with assms obtain u where
      u: "doif (0 < fee) (add_referral_reward e q' token fee) s = Ok () u" and
      t: "thn (set_bet_referrer e i a out q') (bump_bet_ttl e (K_BetReferrer i a out)) u = Ok () t"
      by (auto simp: track_referral_def thn_Ok)
    have b: "bets u = bets s"
      by (rule keepsD [where v = bets, OF keeps_doif [OF keeps_fee_credit(2)] u]) simp_all
    have "fees t = fees u" "s_Bet (bets t) = s_Bet (bets u)"
      "s_BetReferrer (bets t) = (s_BetReferrer (bets u))((i, a, out) \<mapsto> q')"
      using t by (auto simp: set_bet_referrer_def bump_bet_ttl_def run_simps)
    moreover have "get_revenue u tk = get_revenue s tk \<and> total_fees u = total_fees s \<and>
      referrer_balance u q tk = referrer_balance s q tk + (if q' = q \<and> tk = token \<and> 0 < fee then fee * 10 sdiv 100 else 0)"
    proof (cases "0 < fee")
      case True
      then show ?thesis using u add_referral_reward_run [of e q' token fee s u]
        by (auto simp: run_simps get_revenue_def)
    qed (use u in \<open>auto simp: run_simps\<close>)
    ultimately show ?thesis using b Some by (simp add: fee_read_defs)
  qed
  then show "s_Bet (bets t) = s_Bet (bets s)"
    "s_BetReferrer (bets t) = (case referrer of None \<Rightarrow> s_BetReferrer (bets s)
       | Some q \<Rightarrow> (s_BetReferrer (bets s))((i, a, out) \<mapsto> q))"
    "get_revenue t tk = get_revenue s tk" "total_fees t = total_fees s"
    "referrer_balance t q tk = referrer_balance s q tk
       + (if referrer = Some q \<and> tk = token \<and> 0 < fee then fee * 10 sdiv 100 else 0)"
    by blast+
qed

lemma place_bet_run:
  assumes "place_bet e a i out amount token referrer s = Ok r t"
  obtains m where "check_bet e a i out amount token referrer s = Ok m s"
    and "ext_transfer e token a (current_contract_address e) amount (world s) = Some (world t)"
    and "mkts t = put_market (bet_market m out (amount - fee_of s m amount)
           (b_amount (old_bet s i a out) = 0)) (mkts s)"
    and "s_Bet (bets t) = (s_Bet (bets s))((i, a, out) \<mapsto> (old_bet s i a out)
           \<lparr>b_amount := b_amount (old_bet s i a out) + (amount - fee_of s m amount),
            b_fee_paid := b_fee_paid (old_bet s i a out) + fee_of s m amount, b_outcome := out\<rparr>)"
    and "s_Claimed (bets t) = s_Claimed (bets s)"
    and "\<And>tk. get_revenue t tk = get_revenue s tk + (if tk = token \<and> 0 < fee_of s m amount then fee_of s m amount else 0)"
    and "total_fees t = total_fees s + (if 0 < fee_of s m amount then fee_of s m amount else 0)"
    and "\<And>q tk. referrer_balance t q tk = referrer_balance s q tk
       + (if referrer = Some q \<and> tk = token \<and> 0 < fee_of s m amount then fee_of s m amount * 10 sdiv 100 else 0)"
    and "inst t = inst s" and "conf t = conf s" and "vts t = vts s" and "orcs t = orcs s" and "arch t = arch s"
proof -
  from assms obtain m w u where
    m: "check_bet e a i out amount token referrer s = Ok m s" and
    w: "ext_transfer e token a (current_contract_address e) amount (world s) = Some w" and
    u: "doif (0 < fee_of s m amount) (collect_fee e token (fee_of s m amount)) (s\<lparr>world := w\<rparr>) = Ok () u" and
    c: "bnd (credit_bet i a out m (fee_of s m amount) (amount - fee_of s m amount)) (\<lambda>(bet, market').
       thn (set_bet e i a out bet)
       (thn (bump_bet_ttl e (K_Bet i a out))
       (thn (update_market e market')
       (thn (bump_market_ttl e i)
       (thn (track_referral e i a out token (fee_of s m amount) referrer)
       (emit_bet_placed i a out amount)))))) u = Ok r t"
    unfolding place_bet_def bnd_Ok [of "check_bet a b c d e f g" for a b c d e f g]
      thn_Ok [of "safe_transfer a b c d e" for a b c d e] bnd_Ok [of "calculate_tiered_fee a b" for a b]
      bnd_Ok [of "sub_i128 a b" for a b] thn_Ok [of "doif a b" for a b]
    by (auto simp: check_bet_Ok safe_transfer_Ok calculate_tiered_fee_Ok sub_i128_Ok fee_of_def get_base_fee_def)
  let ?f = "fee_of s m amount" and ?b = "old_bet s i a out"
  let ?v = "\<lambda>s. (inst s, conf s, mkts s, bets s, vts s, orcs s, arch s, world s)"
  have vu: "?v u = ?v (s\<lparr>world := w\<rparr>)"
    by (rule keepsD [where v = ?v, OF keeps_doif [OF keeps_fee_credit(1)] u]) simp_all
  then have ob: "old_bet u i a out = ?b" by (simp add: old_bet_def get_bet_def)
  from c obtain bm u' where cb: "credit_bet i a out m ?f (amount - ?f) u = Ok bm u'" and
    c': "(\<lambda>(bet, market'). thn (set_bet e i a out bet)
       (thn (bump_bet_ttl e (K_Bet i a out)) (thn (update_market e market') (thn (bump_market_ttl e i)
       (thn (track_referral e i a out token ?f referrer) (emit_bet_placed i a out amount)))))) bm u' = Ok r t"
    by (auto simp: bnd_Ok)
  let ?bet = "?b\<lparr>b_amount := b_amount ?b + (amount - ?f), b_fee_paid := b_fee_paid ?b + ?f, b_outcome := out\<rparr>"
  let ?m = "bet_market m out (amount - ?f) (b_amount ?b = 0)"
  have u': "u' = u" "bm = (?bet, ?m)" using credit_bet_Ok [OF cb] by (simp_all add: ob)
  from c' obtain u1 u2 u3 u4 u5 where
    u1: "set_bet e i a out ?bet u = Ok () u1" and u2: "bump_bet_ttl e (K_Bet i a out) u1 = Ok () u2" and
    u3: "update_market e ?m u2 = Ok () u3" and u4: "bump_market_ttl e i u3 = Ok () u4" and
    u5: "track_referral e i a out token ?f referrer u4 = Ok () u5" and u6: "emit_bet_placed i a out amount u5 = Ok r t"
    by (auto simp: u' thn_Ok)
  let ?w = "\<lambda>s. (inst s, conf s, vts s, orcs s, arch s, world s)"
  let ?x = "\<lambda>s. (?w s, fees s)"
  have fin: "(?x t, mkts t, bets t) = (?x u5, mkts u5, bets u5)" using u6 by (auto simp: emit_defs run_simps)
  have v5: "(?w u5, mkts u5) = (?w u4, mkts u4)"
    by (rule keepsD [where v = "\<lambda>s. (?w s, mkts s)", OF keeps_track_referral u5]) simp_all
  have v4: "(?x u4, bets u4, mkts u4) = (?x u3, bets u3, mkts u3)" using u4 by (auto simp: run_simps)
  have v3: "(?x u3, bets u3) = (?x u2, bets u2)"
    by (rule keepsD [where v = "\<lambda>s. (?x s, bets s)", OF keeps_market_writes(5) u3]) simp_all
  have v2: "(?x u2, mkts u2) = (?x u, mkts u)"
    and b2: "bets u2 = (bets u)\<lparr>s_Bet := (s_Bet (bets u))((i, a, out) \<mapsto> ?bet)\<rparr>"
    using u1 u2 by (auto simp: set_bet_def bump_bet_ttl_def run_simps)
  have cl: "s_Claimed (bets u5) = s_Claimed (bets u4)"
    using u5 by (cases referrer) (auto simp: track_referral_def set_bet_referrer_def bump_bet_ttl_def run_simps
        dest!: keepsD [where v = bets, OF keeps_fee_credit(2), rotated 3])
  have fu: "get_revenue u tk = get_revenue s tk + (if tk = token \<and> 0 < ?f then ?f else 0)"
    "total_fees u = total_fees s + (if 0 < ?f then ?f else 0)"
    "s_ReferrerBalance (fees u) = s_ReferrerBalance (fees s)" for tk
    using u collect_fee_run [of e token ?f "s\<lparr>world := w\<rparr>" u] by (auto simp: run_simps fee_read_defs)
  note tr = track_referral_run [OF u5]
  show ?thesis
  proof (rule that [OF m])
    show "mkts t = put_market ?m (mkts s)"
      using fin v5 v4 update_market_run [OF u3] v2 vu by simp
    show "s_Bet (bets t) = (s_Bet (bets s))((i, a, out) \<mapsto> ?bet)"
      using fin tr(1) v4 v3 b2 vu by simp
    show "s_Claimed (bets t) = s_Claimed (bets s)" using fin cl v4 v3 b2 vu by simp
    show "get_revenue t tk = get_revenue s tk + (if tk = token \<and> 0 < ?f then ?f else 0)" for tk
      using fin tr(3) [of tk] v4 v3 v2 fu(1) [of tk] by (simp add: get_revenue_def)
    show "total_fees t = total_fees s + (if 0 < ?f then ?f else 0)"
      using fin tr(4) v4 v3 v2 fu(2) by (simp add: total_fees_def)
    show "referrer_balance t q tk = referrer_balance s q tk
       + (if referrer = Some q \<and> tk = token \<and> 0 < ?f then ?f * 10 sdiv 100 else 0)" for q tk
      using fin tr(5) [of q tk] v4 v3 v2 fu(3) by (simp add: referrer_balance_def)
  qed (use fin v5 v4 v3 v2 vu w in simp_all)
qed

section \<open>Properties\<close>

lemma get_outcome_stake_bet_market [simp]:
  "get_outcome_stake (bet_market m out x new) k = get_outcome_stake m k + (if k = out then x else 0)"
  by (simp add: get_outcome_stake_def bet_market_def om.get_set_at split: option.split)

lemma bet_market_sel [simp]:
  "m_id (bet_market m out x new) = m_id m" "m_status (bet_market m out x new) = m_status m"
  "m_total_staked (bet_market m out x new) = m_total_staked m + x"
  "m_options (bet_market m out x new) = m_options m"
  by (simp_all add: bet_market_def)

lemma place_bet_change:
  assumes "check_bet e a i out amount token referrer s = Ok m s"
  shows "market_change (timestamp e) m (bet_market m out x new)"
  using assms unfolding bet_market_def check_bet_Ok by (blast intro: mc_bet)


definition fee_sample :: "balances st" where
  "fee_sample = upd_conf (\<lambda>c. c\<lparr>c_BaseFee := Some 100\<rparr>) (with_market sample_market sample_st)"

lemma place_bet_sample:
  "\<exists>t. place_bet (sample_ctx 500 {Addr 3}) (Addr 3) 1 0 1000 (Addr 5) (Some (Addr 4)) fee_sample = Ok () t"
  by (simp add: place_bet_def check_bet_def require_not_paused_for_high_risk_def get_state_def
      check_token_not_frozen_def safe_transfer_def calculate_tiered_fee_def
      calculate_tiered_fee_with_base_def checked_mul_i128_def checked_div_i128_def checked_add_i128_def
      in_i128_def BPS_DENOMINATOR_def TIER_DENOMINATOR_BPS_def get_base_fee_def collect_fee_def
      fee_write_defs fee_read_defs credit_bet_def get_bet_def get_outcome_stake_def set_outcome_stake_def
      increment_outcome_bet_count_def omap_get_def set_bet_def bump_bet_ttl_def bump_market_ttl_def
      update_market_def market_write_defs get_market_def track_referral_def add_referral_reward_def
      referral_share_def set_bet_referrer_def BET_TTL_LOW_THRESHOLD_def BET_TTL_HIGH_THRESHOLD_def
      TTL_LOW_THRESHOLD_def TTL_HIGH_THRESHOLD_def signed_divide_int_def
      fee_sample_def sample_defs run_eval)


text \<open>
  What the contract owes in a token on account of one market and one referrer: the pool, the protocol
  revenue and the referrer's balance.
\<close>

definition owed :: "'w st \<Rightarrow> u64 \<Rightarrow> Address \<Rightarrow> Address \<Rightarrow> i128" where
  "owed s i r token = (case get_market s i of None \<Rightarrow> 0 | Some m \<Rightarrow> m_total_staked m)
     + get_revenue s token + referrer_balance s r token"

text \<open>
  Referral rewards are not funded: the reward of a referred bet is credited on top of the full
  fee, so whenever the fee is at least 10 units the contract's obligations grow by more than the
  amount it received, namely by a tenth of the fee.
\<close>

theorem referral_reward_unfunded:
  assumes "place_bet e a i out amount token (Some r) s = Ok () t" and "get_market s i = Some m"
    and "m_id m = i" and "10 \<le> fee_of s m amount"
  shows "ext_transfer e token a (current_contract_address e) amount (world s) = Some (world t) \<and>
    owed t i r token - owed s i r token = amount + fee_of s m amount div 10 \<and>
    amount < owed t i r token - owed s i r token"
proof -
  obtain m0 where run: "check_bet e a i out amount token (Some r) s = Ok m0 s"
    "ext_transfer e token a (current_contract_address e) amount (world s) = Some (world t)"
    "mkts t = put_market (bet_market m0 out (amount - fee_of s m0 amount)
           (b_amount (old_bet s i a out) = 0)) (mkts s)"
    "\<And>tk. get_revenue t tk = get_revenue s tk + (if tk = token \<and> 0 < fee_of s m0 amount then fee_of s m0 amount else 0)"
    "\<And>q tk. referrer_balance t q tk = referrer_balance s q tk
       + (if Some r = Some q \<and> tk = token \<and> 0 < fee_of s m0 amount then fee_of s m0 amount * 10 sdiv 100 else 0)"
    using assms(1) by (rule place_bet_run) blast
  have m0: "m0 = m" using run(1) assms(2) by (simp add: check_bet_Ok)
  have div: "fee_of s m amount * 10 sdiv 100 = fee_of s m amount div 10"
    using assms(4) sdiv_nonneg [of "fee_of s m amount * 10" 100] div_mult_mult1 [of 10 "fee_of s m amount" 10]
    by (simp add: mult.commute)
  have "0 < fee_of s m amount div 10" using assms(4) by (simp add: pos_imp_zdiv_pos_iff)
  moreover have "owed t i r token - owed s i r token = amount + fee_of s m amount div 10"
    using assms(2-4) run(3,4,5) div by (simp add: owed_def get_market_def m0)
  ultimately show ?thesis using run(2) by simp
qed

theorem referral_reward_unfunded_witness:
  "\<exists>t. place_bet (sample_ctx 500 {Addr 3}) (Addr 3) 1 0 1000 (Addr 5) (Some (Addr 4)) fee_sample = Ok () t \<and>
     owed t 1 (Addr 4) (Addr 5) - owed fee_sample 1 (Addr 4) (Addr 5) = 1001"
proof -
  obtain t where t: "place_bet (sample_ctx 500 {Addr 3}) (Addr 3) 1 0 1000 (Addr 5) (Some (Addr 4)) fee_sample = Ok () t"
    using place_bet_sample by blast
  have m: "get_market fee_sample 1 = Some sample_market" by (simp add: get_market_def fee_sample_def sample_defs)
  have f: "fee_of fee_sample sample_market 1000 = 10"
    by (simp add: fee_of_def tiered_numerator_def get_base_fee_def fee_sample_def sample_defs
        signed_divide_int_def TIER_DENOMINATOR_BPS_def)
  have "owed t 1 (Addr 4) (Addr 5) - owed fee_sample 1 (Addr 4) (Addr 5) = 1001"
    using referral_reward_unfunded [OF t m] f by (simp add: sample_market_def)
  then show ?thesis using t by blast
qed

text \<open>
  A refund or claim pays once: the shared transfer path pays exactly the amount it is given to
  the bettor, deletes the bet record it is for, so that no later call finds it, records the claim when
  a claim key is given, and touches no other bet.
\<close>

theorem claim_path_effect:
  assumes "internal_claim_amount e i a token amount (K_Bet i a out) (Some (K_Claimed i a)) False s = Ok paid t"
  shows "paid = amount \<and>
    ext_transfer e token (current_contract_address e) a amount (world s) = Some (world t) \<and>
    get_bet t i a out = None \<and> s_Claimed (bets t) (i, a) = Some True \<and>
    (\<forall>j b k. (j, b, k) \<noteq> (i, a, out) \<longrightarrow> get_bet t j b k = get_bet s j b k) \<and>
    mkts t = mkts s \<and> unat (sequence e) + 34560 \<le> live_until t (PBets (K_Claimed i a))"
proof -
  have B: "unat BET_TTL_LOW_THRESHOLD = 34560" "unat BET_TTL_HIGH_THRESHOLD = 1555200"
    by (simp_all add: BET_TTL_LOW_THRESHOLD_def BET_TTL_HIGH_THRESHOLD_def)
  show ?thesis using assms
    by (auto simp: internal_claim_amount_def set_claim_key_def remove_bet_key_def bump_bet_ttl_def get_bet_def
        run_simps ext_ttl_def B split: option.splits)
qed

theorem claim_path_effect_witness:
  "let s = upd_bets (\<lambda>k. k\<lparr>s_Bet := [(1, Addr 3, 0) \<mapsto> \<lparr>b_market_id = 1, b_bettor = Addr 3, b_outcome = 0,
             b_amount = 50, b_fee_paid = 0\<rparr>]\<rparr>) sample_st
   in \<exists>t. internal_claim_amount (sample_ctx 9 {}) 1 (Addr 3) (Addr 5) 80 (K_Bet 1 (Addr 3) 0)
            (Some (K_Claimed 1 (Addr 3))) False s = Ok 80 t \<and> get_bet t 1 (Addr 3) 0 = None"
proof -
  let ?s = "upd_bets (\<lambda>k. k\<lparr>s_Bet := [(1, Addr 3, 0) \<mapsto> \<lparr>b_market_id = 1, b_bettor = Addr 3, b_outcome = 0,
             b_amount = 50, b_fee_paid = 0\<rparr>]\<rparr>) sample_st"
  obtain t where t: "internal_claim_amount (sample_ctx 9 {}) 1 (Addr 3) (Addr 5) 80 (K_Bet 1 (Addr 3) 0)
            (Some (K_Claimed 1 (Addr 3))) False ?s = Ok 80 t"
    by (simp add: internal_claim_amount_def safe_transfer_def set_claim_key_def remove_bet_key_def
        bump_bet_ttl_def get_market_def BET_TTL_LOW_THRESHOLD_def BET_TTL_HIGH_THRESHOLD_def sample_defs run_eval)
  from claim_path_effect [OF t] show ?thesis using t unfolding Let_def by blast
qed

end
