(* ===== verification/Governance.thy ===== *)
theory Governance
  imports Bets
begin

text \<open>
  \<^verbatim>\<open>governance.rs\<close>: the guardian set, the proposals to remove a guardian and to upgrade the contract with
  their votes, majorities and timelocks, and the emergency pause. The interface \<open>ballot\<close> states what
  both kinds of proposal need from their vote lists.
\<close>

section \<open>Guardians\<close>

definition bump_gov_ttl :: "'w ctx \<Rightarrow> ConfigKey \<Rightarrow> ('w, unit) contract" where
  "bump_gov_ttl e key = extend_ttl e (PConfig key) TTL_LOW_THRESHOLD TTL_HIGH_THRESHOLD"

definition get_guardians :: "'w st \<Rightarrow> Guardian list" where
  "get_guardians s = (case c_GuardianSet (conf s) of None \<Rightarrow> [] | Some gs \<Rightarrow> gs)"

definition is_guardian :: "Guardian list \<Rightarrow> Address \<Rightarrow> bool" where
  "is_guardian guardians a = list_ex (\<lambda>g. g_address g = a) guardians"

definition set_guardians :: "'w ctx \<Rightarrow> Guardian list \<Rightarrow> ('w, unit) contract" where
  "set_guardians e gs = thn (p_set e (PConfig K_GuardianSet) (upd_conf (\<lambda>c. c\<lparr>c_GuardianSet := Some gs\<rparr>)))
     (bump_gov_ttl e K_GuardianSet)"

definition initialize_guardians :: "'w ctx \<Rightarrow> Guardian list \<Rightarrow> ('w, unit) contract" where
  "initialize_guardians e guardians =
     bnd (reads (has_key (PConfig K_GuardianSet))) (\<lambda>present.
     thn (err_if present AlreadyInitialized)
     (thn (err_if (guardians = []) NotAuthorized)
     (bnd (reads get_admin) (\<lambda>admin.
     thn (err_if (case admin of Some a \<Rightarrow> is_guardian guardians a | None \<Rightarrow> False) NotAuthorized)
     (set_guardians e guardians)))))"

definition add_guardian :: "'w ctx \<Rightarrow> Guardian \<Rightarrow> ('w, unit) contract" where
  "add_guardian e guardian =
     thn (require_admin e)
     (bnd (reads get_admin) (\<lambda>admin.
     thn (err_if (admin = Some (g_address guardian)) NotAuthorized)
     (bnd (reads get_guardians) (\<lambda>guardians.
     thn (err_if (is_guardian guardians (g_address guardian)) NotAuthorized)
     (set_guardians e (guardians @ [guardian]))))))"

section \<open>Removal of a guardian\<close>

definition get_guardian_removal_passed_at :: "'w st \<Rightarrow> u64 option" where
  "get_guardian_removal_passed_at s = c_PendingGuardianRemovalPassedAt (conf s)"

definition set_guardian_removal_passed_at :: "'w ctx \<Rightarrow> ('w, unit) contract" where
  "set_guardian_removal_passed_at e =
     thn (p_set e (PConfig K_PendingGuardianRemovalPassedAt)
            (upd_conf (\<lambda>c. c\<lparr>c_PendingGuardianRemovalPassedAt := Some (timestamp e)\<rparr>)))
     (bump_gov_ttl e K_PendingGuardianRemovalPassedAt)"

definition clear_guardian_removal_passed_at :: "('w, unit) contract" where
  "clear_guardian_removal_passed_at = p_remove (PConfig K_PendingGuardianRemovalPassedAt)
     (upd_conf (\<lambda>c. c\<lparr>c_PendingGuardianRemovalPassedAt := None\<rparr>))"

definition set_pending_removal :: "'w ctx \<Rightarrow> PendingGuardianRemoval \<Rightarrow> ('w, unit) contract" where
  "set_pending_removal e p = p_set e (PConfig K_PendingGuardianRemoval)
     (upd_conf (\<lambda>c. c\<lparr>c_PendingGuardianRemoval := Some p\<rparr>))"

definition clear_pending_removal :: "('w, unit) contract" where
  "clear_pending_removal =
     thn (p_remove (PConfig K_PendingGuardianRemoval) (upd_conf (\<lambda>c. c\<lparr>c_PendingGuardianRemoval := None\<rparr>)))
     clear_guardian_removal_passed_at"

definition remove_guardian :: "'w ctx \<Rightarrow> Address \<Rightarrow> ('w, unit) contract" where
  "remove_guardian e address =
     thn (require_admin e)
     (bnd (reads get_guardians) (\<lambda>guardians.
     thn (err_if (\<not> is_guardian guardians address) GuardianNotSet)
     (thn (set_pending_removal e \<lparr>pr_target_guardian = address, pr_initiated_at = timestamp e,
             pr_votes_for = [], pr_votes_against = []\<rparr>)
     (thn clear_guardian_removal_passed_at
     (bump_gov_ttl e K_PendingGuardianRemoval)))))"

definition record_removal_vote :: "Address \<Rightarrow> bool \<Rightarrow> PendingGuardianRemoval \<Rightarrow> PendingGuardianRemoval" where
  "record_removal_vote voter approve p =
     (if approve then p\<lparr>pr_votes_for := pr_votes_for p @ [voter]\<rparr>
      else p\<lparr>pr_votes_against := pr_votes_against p @ [voter]\<rparr>)"

definition removal_votes_needed :: "Guardian list \<Rightarrow> ('w, u32) contract" where
  "removal_votes_needed guardians =
     bnd (sub_word (of_nat (length guardians)) 1) (\<lambda>other_guardians_count.
     bnd (mul_word other_guardians_count MAJORITY_THRESHOLD_PERCENT) (\<lambda>x.
     add_word (x div 100) 1))"

definition vote_on_guardian_removal :: "'w ctx \<Rightarrow> Address \<Rightarrow> bool \<Rightarrow> ('w, unit) contract" where
  "vote_on_guardian_removal e voter approve =
     thn (require_auth e voter)
     (bnd (reads get_guardians) (\<lambda>guardians.
     thn (err_if (\<not> is_guardian guardians voter) NotAuthorized)
     (bnd (reads (\<lambda>s. c_PendingGuardianRemoval (conf s))) (\<lambda>p.
     bnd (ok_or p GuardianNotSet) (\<lambda>pending_removal.
     if GUARDIAN_REMOVAL_VOTE_WINDOW < saturating_sub_u64 (timestamp e) (pr_initiated_at pending_removal)
     then thn clear_pending_removal (fail GuardianNotSet)
     else
       thn (err_if (voter \<in> set (pr_votes_for pending_removal)) AlreadyVotedOnUpgrade)
       (thn (err_if (voter \<in> set (pr_votes_against pending_removal)) AlreadyVotedOnUpgrade)
       (let pending' = record_removal_vote voter approve pending_removal in
       bnd (removal_votes_needed guardians) (\<lambda>votes_needed.
       bnd (reads get_guardian_removal_passed_at) (\<lambda>passed_at.
       thn (doif (votes_needed \<le> of_nat (length (pr_votes_for pending')) \<and> passed_at = None)
              (set_guardian_removal_passed_at e))
       (if votes_needed \<le> of_nat (length (pr_votes_against pending'))
        then clear_pending_removal
        else thn (set_pending_removal e pending') (bump_gov_ttl e K_PendingGuardianRemoval)))))))))))"

definition get_timelock_duration :: "'w st \<Rightarrow> u64" where
  "get_timelock_duration s = (case c_TimelockDuration (conf s) of None \<Rightarrow> TIMELOCK_DURATION | Some d \<Rightarrow> d)"

definition set_timelock_duration :: "'w ctx \<Rightarrow> u64 \<Rightarrow> ('w, unit) contract" where
  "set_timelock_duration e seconds =
     thn (require_admin e)
     (thn (err_if (seconds < TIMELOCK_MIN_SECONDS \<or> TIMELOCK_MAX_SECONDS < seconds) InvalidAmount)
     (thn (p_set e (PConfig K_TimelockDuration) (upd_conf (\<lambda>c. c\<lparr>c_TimelockDuration := Some seconds\<rparr>)))
     (bump_gov_ttl e K_TimelockDuration)))"

definition execute_guardian_removal :: "'w ctx \<Rightarrow> ('w, unit) contract" where
  "execute_guardian_removal e =
     thn (require_admin e)
     (bnd (reads (\<lambda>s. c_PendingGuardianRemoval (conf s))) (\<lambda>p.
     bnd (ok_or p GuardianNotSet) (\<lambda>pending_removal.
     bnd (reads get_guardian_removal_passed_at) (\<lambda>q.
     bnd (ok_or q InsufficientVotes) (\<lambda>passed_at.
     bnd (reads get_timelock_duration) (\<lambda>timelock.
     thn (err_if (saturating_sub_u64 (timestamp e) passed_at < timelock) TimelockActive)
     (bnd (reads get_guardians) (\<lambda>guardians.
     thn (err_if (\<not> is_guardian guardians (pr_target_guardian pending_removal)) GuardianNotSet)
     (thn (set_guardians e (filter (\<lambda>g. g_address g \<noteq> pr_target_guardian pending_removal) guardians))
     clear_pending_removal)))))))))"

section \<open>Upgrades\<close>

definition get_pending_upgrade :: "'w st \<Rightarrow> PendingUpgrade option" where
  "get_pending_upgrade s = c_PendingUpgrade (conf s)"

definition get_upgrade_rejected_at :: "'w st \<Rightarrow> Hash \<Rightarrow> u64 option" where
  "get_upgrade_rejected_at s wasm_hash = c_UpgradeRejectedAt (conf s) wasm_hash"

definition set_upgrade_rejected_at :: "'w ctx \<Rightarrow> Hash \<Rightarrow> ('w, unit) contract" where
  "set_upgrade_rejected_at e wasm_hash = p_set e (PConfig (K_UpgradeRejectedAt wasm_hash))
     (upd_conf (\<lambda>c. c\<lparr>c_UpgradeRejectedAt := (c_UpgradeRejectedAt c)(wasm_hash \<mapsto> timestamp e)\<rparr>))"

definition clear_upgrade_rejected_at :: "Hash \<Rightarrow> ('w, unit) contract" where
  "clear_upgrade_rejected_at wasm_hash = p_remove (PConfig (K_UpgradeRejectedAt wasm_hash))
     (upd_conf (\<lambda>c. c\<lparr>c_UpgradeRejectedAt := (c_UpgradeRejectedAt c)(wasm_hash := None)\<rparr>))"

definition get_upgrade_passed_at :: "'w st \<Rightarrow> u64 option" where
  "get_upgrade_passed_at s = c_PendingUpgradePassedAt (conf s)"

definition set_upgrade_passed_at :: "'w ctx \<Rightarrow> ('w, unit) contract" where
  "set_upgrade_passed_at e =
     thn (p_set e (PConfig K_PendingUpgradePassedAt)
            (upd_conf (\<lambda>c. c\<lparr>c_PendingUpgradePassedAt := Some (timestamp e)\<rparr>)))
     (bump_gov_ttl e K_PendingUpgradePassedAt)"

definition clear_upgrade_passed_at :: "('w, unit) contract" where
  "clear_upgrade_passed_at = p_remove (PConfig K_PendingUpgradePassedAt)
     (upd_conf (\<lambda>c. c\<lparr>c_PendingUpgradePassedAt := None\<rparr>))"

definition set_pending_upgrade :: "'w ctx \<Rightarrow> PendingUpgrade \<Rightarrow> ('w, unit) contract" where
  "set_pending_upgrade e p = p_set e (PConfig K_PendingUpgrade)
     (upd_conf (\<lambda>c. c\<lparr>c_PendingUpgrade := Some p\<rparr>))"

definition clear_pending_upgrade :: "('w, unit) contract" where
  "clear_pending_upgrade =
     thn (p_remove (PConfig K_PendingUpgrade) (upd_conf (\<lambda>c. c\<lparr>c_PendingUpgrade := None\<rparr>)))
     clear_upgrade_passed_at"

definition require_no_upgrade_collision :: "'w ctx \<Rightarrow> Hash \<Rightarrow> ('w, unit) contract" where
  "require_no_upgrade_collision e wasm_hash =
     bnd (reads get_pending_upgrade) (\<lambda>p.
     thn (err_if (case p of Some u \<Rightarrow> pu_wasm_hash u = wasm_hash | None \<Rightarrow> False) UpgradeAlreadyPending)
     (bnd (reads (\<lambda>s. get_upgrade_rejected_at s wasm_hash)) (\<lambda>r.
     err_if (case r of
         Some rejected_at \<Rightarrow> saturating_sub_u64 (timestamp e) rejected_at \<le> UPGRADE_COOLDOWN_DURATION
       | None \<Rightarrow> False) UpgradeHashInCooldown)))"

definition initiate_upgrade :: "'w ctx \<Rightarrow> Hash \<Rightarrow> ('w, unit) contract" where
  "initiate_upgrade e wasm_hash =
     thn (require_admin e)
     (thn (require_no_upgrade_collision e wasm_hash)
     (bnd (reads (has_key (PConfig K_PendingUpgrade))) (\<lambda>present.
     thn (err_if present NotAuthorized)
     (thn (set_pending_upgrade e \<lparr>pu_wasm_hash = wasm_hash, pu_initiated_at = timestamp e,
             pu_votes_for = [], pu_votes_against = []\<rparr>)
     (thn clear_upgrade_passed_at
     (thn (bump_gov_ttl e K_PendingUpgrade)
     (bnd (reads (\<lambda>s. case get_admin s of Some a \<Rightarrow> a | None \<Rightarrow> current_contract_address e)) (\<lambda>admin.
     emit_upgrade_initiated admin wasm_hash))))))))"

subsection \<open>The majority\<close>

fun sum_power :: "Guardian list \<Rightarrow> u32 \<Rightarrow> ('w, u32) contract" where
  "sum_power [] x = ret x"
| "sum_power (g # gs) x = bnd (add_word x (g_voting_power g)) (sum_power gs)"

text \<open>The inner loop stops at the first guardian with the voter's address.\<close>

definition power_of :: "Guardian list \<Rightarrow> Address \<Rightarrow> u32 option" where
  "power_of guardians voter =
     (case find (\<lambda>g. g_address g = voter) guardians of Some g \<Rightarrow> Some (g_voting_power g) | None \<Rightarrow> None)"

fun sum_power_for :: "Guardian list \<Rightarrow> Address list \<Rightarrow> u32 \<Rightarrow> ('w, u32) contract" where
  "sum_power_for guardians [] x = ret x"
| "sum_power_for guardians (voter # voters) x =
     (case power_of guardians voter of
        None \<Rightarrow> sum_power_for guardians voters x
      | Some p \<Rightarrow> bnd (add_word x p) (sum_power_for guardians voters))"

definition is_majority_met :: "PendingUpgrade \<Rightarrow> ('w, bool) contract" where
  "is_majority_met pending_upgrade =
     bnd (reads get_guardians) (\<lambda>guardians.
     if guardians = [] then ret False
     else bnd (sum_power guardians 0) (\<lambda>total_power.
       if total_power = 0 then ret False
       else bnd (sum_power_for guardians (pu_votes_for pending_upgrade) 0) (\<lambda>power_for.
         bnd (mul_word power_for 100) (\<lambda>x.
         ret (MAJORITY_THRESHOLD_PERCENT \<le> x div total_power)))))"

definition record_upgrade_vote :: "Address \<Rightarrow> bool \<Rightarrow> PendingUpgrade \<Rightarrow> PendingUpgrade" where
  "record_upgrade_vote voter vote_for p =
     (if vote_for then p\<lparr>pu_votes_for := pu_votes_for p @ [voter]\<rparr>
      else p\<lparr>pu_votes_against := pu_votes_against p @ [voter]\<rparr>)"

definition vote_for_upgrade :: "'w ctx \<Rightarrow> Address \<Rightarrow> bool \<Rightarrow> ('w, bool) contract" where
  "vote_for_upgrade e voter vote_for =
     thn (require_auth e voter)
     (bnd (reads get_guardians) (\<lambda>guardians.
     thn (err_if (\<not> is_guardian guardians voter) NotAuthorized)
     (bnd (reads get_pending_upgrade) (\<lambda>p.
     bnd (ok_or p UpgradeNotInitiated) (\<lambda>pending_upgrade.
     thn (err_if (voter \<in> set (pu_votes_for pending_upgrade)) AlreadyVotedOnUpgrade)
     (thn (err_if (voter \<in> set (pu_votes_against pending_upgrade)) AlreadyVotedOnUpgrade)
     (let pending' = record_upgrade_vote voter vote_for pending_upgrade in
     bnd (is_majority_met pending') (\<lambda>majority.
     bnd (reads get_upgrade_passed_at) (\<lambda>passed_at.
     thn (doif (majority \<and> passed_at = None) (set_upgrade_passed_at e))
     (thn (set_pending_upgrade e pending')
     (thn (bump_gov_ttl e K_PendingUpgrade)
     (thn (emit_upgrade_voted voter vote_for)
     (ret True)))))))))))))"

definition is_timelock_satisfied :: "'w ctx \<Rightarrow> ('w, bool) contract" where
  "is_timelock_satisfied e =
     bnd (reads get_pending_upgrade) (\<lambda>p.
     bnd (ok_or p UpgradeNotInitiated) (\<lambda>pending_upgrade.
     bnd (reads get_upgrade_passed_at) (\<lambda>q.
     let timelock_started_at = (case q of Some x \<Rightarrow> x | None \<Rightarrow> pu_initiated_at pending_upgrade) in
     bnd (reads get_timelock_duration) (\<lambda>timelock.
     ret (timelock \<le> saturating_sub_u64 (timestamp e) timelock_started_at)))))"

definition execute_upgrade :: "'w ctx \<Rightarrow> ('w, Hash) contract" where
  "execute_upgrade e =
     bnd (is_timelock_satisfied e) (\<lambda>satisfied.
     thn (err_if (\<not> satisfied) TimelockActive)
     (bnd (reads get_pending_upgrade) (\<lambda>p.
     bnd (ok_or p UpgradeNotInitiated) (\<lambda>pending_upgrade.
     bnd (is_majority_met pending_upgrade) (\<lambda>majority.
     let wasm_hash = pu_wasm_hash pending_upgrade in
     if \<not> majority
     then thn (set_upgrade_rejected_at e wasm_hash)
         (thn clear_pending_upgrade
         (thn (modify (\<lambda>s. s\<lparr>log := log s @ [ext_emit_upgrade_rejected e wasm_hash]\<rparr>))
         (fail InsufficientVotes)))
     else
       thn clear_pending_upgrade
       (thn (clear_upgrade_rejected_at wasm_hash)
       (bnd (reads (\<lambda>s. case get_admin s of Some a \<Rightarrow> a | None \<Rightarrow> current_contract_address e)) (\<lambda>executor.
       thn (modify (\<lambda>s. s\<lparr>log := log s @ [ext_emit_upgrade_executed e executor wasm_hash]\<rparr>))
       (thn (modify (\<lambda>s. s\<lparr>wasm := Some wasm_hash\<rparr>))
       (ret wasm_hash))))))))))"

definition get_upgrade_votes :: "('w, UpgradeVoteStats) contract" where
  "get_upgrade_votes =
     bnd (reads get_pending_upgrade) (\<lambda>p.
     bnd (ok_or p UpgradeNotInitiated) (\<lambda>pending_upgrade.
     ret \<lparr>uv_votes_for = of_nat (length (pu_votes_for pending_upgrade)),
          uv_votes_against = of_nat (length (pu_votes_against pending_upgrade))\<rparr>))"

section \<open>Emergency pause\<close>

fun emergency_tally :: "Guardian list \<Rightarrow> Address list \<Rightarrow> u32 \<Rightarrow> u32 \<Rightarrow> ('w, u32 \<times> u32) contract" where
  "emergency_tally [] votes total_power power_for = ret (total_power, power_for)"
| "emergency_tally (g # gs) votes total_power power_for =
     bnd (add_word total_power (g_voting_power g)) (\<lambda>total'.
     if g_address g \<in> set votes
     then bnd (add_word power_for (g_voting_power g)) (\<lambda>for'. emergency_tally gs votes total' for')
     else emergency_tally gs votes total' power_for)"

definition emergency_pause :: "'w ctx \<Rightarrow> Address \<Rightarrow> ('w, unit) contract" where
  "emergency_pause e voter =
     thn (require_auth e voter)
     (bnd (reads get_guardians) (\<lambda>guardians.
     thn (err_if (guardians = []) NotAuthorized)
     (thn (err_if (\<not> is_guardian guardians voter) NotAuthorized)
     (bnd (reads (\<lambda>s. case c_PendingEmergencyPause (conf s) of None \<Rightarrow> [] | Some v \<Rightarrow> v)) (\<lambda>votes.
     thn (err_if (voter \<in> set votes) AlreadyVotedOnUpgrade)
     (bnd (emergency_tally guardians (votes @ [voter]) 0 0) (\<lambda>(total_power, power_for).
     if 0 < total_power \<and> (ucast total_power :: u64) * 2 \<le> (ucast power_for :: u64) * 3
     then thn (p_remove (PConfig K_PendingEmergencyPause)
                 (upd_conf (\<lambda>c. c\<lparr>c_PendingEmergencyPause := None\<rparr>)))
          (force_pause e)
     else thn (p_set e (PConfig K_PendingEmergencyPause)
                 (upd_conf (\<lambda>c. c\<lparr>c_PendingEmergencyPause := Some (votes @ [voter])\<rparr>)))
          (bump_gov_ttl e K_PendingEmergencyPause))))))))"

section \<open>The interface of a ballot\<close>

text \<open>
  A proposal with two vote lists: recording a vote appends the voter to one list and leaves the other.
  From it: nobody is ever counted twice, and every recorded voter was entitled when recorded.
\<close>

definition valid_ballot :: "Address list \<Rightarrow> Address list \<Rightarrow> bool" where
  "valid_ballot fors againsts \<longleftrightarrow> distinct (fors @ againsts)"

locale ballot =
  fixes fors :: "'p \<Rightarrow> Address list"
    and againsts :: "'p \<Rightarrow> Address list"
    and record_vote :: "Address \<Rightarrow> bool \<Rightarrow> 'p \<Rightarrow> 'p"
  assumes fors_record: "fors (record_vote a b p) = fors p @ (if b then [a] else [])"
    and againsts_record: "againsts (record_vote a b p) = againsts p @ (if b then [] else [a])"
begin

lemma record_valid:
  "valid_ballot (fors p) (againsts p) \<Longrightarrow> a \<notin> set (fors p) \<Longrightarrow> a \<notin> set (againsts p) \<Longrightarrow>
     valid_ballot (fors (record_vote a b p)) (againsts (record_vote a b p))"
  by (auto simp: valid_ballot_def fors_record againsts_record)

lemma record_voters:
  "set (fors (record_vote a b p)) \<union> set (againsts (record_vote a b p))
     = insert a (set (fors p) \<union> set (againsts p))"
  by (auto simp: fors_record againsts_record)

lemma record_count:
  "length (fors (record_vote a b p)) + length (againsts (record_vote a b p))
     = Suc (length (fors p) + length (againsts p))"
  by (simp add: fors_record againsts_record)

end

interpretation upgrade_ballot: ballot pu_votes_for pu_votes_against record_upgrade_vote
  by unfold_locales (simp_all add: record_upgrade_vote_def)

interpretation removal_ballot: ballot pr_votes_for pr_votes_against record_removal_vote
  by unfold_locales (simp_all add: record_removal_vote_def)

section \<open>Power\<close>

definition total_power :: "Guardian list \<Rightarrow> nat" where
  "total_power gs = (\<Sum>g \<leftarrow> gs. unat (g_voting_power g))"

definition supporting_power :: "Guardian list \<Rightarrow> Address list \<Rightarrow> nat" where
  "supporting_power gs vs = (\<Sum>v \<leftarrow> vs. case power_of gs v of None \<Rightarrow> 0 | Some p \<Rightarrow> unat p)"

lemma sum_power_eq:
  "sum_power gs x s = (if unat x + total_power gs < 2 ^ 32 then Ok (x + of_nat (total_power gs)) s else Trap)"
proof (induction gs arbitrary: x)
  case Nil
  then show ?case using unat_u32_bound [of x] by (simp add: total_power_def ret_def)
next
  case (Cons g gs)
  show ?case
  proof (cases "unat x + unat (g_voting_power g) < 2 ^ 32")
    case True
    then have "unat (x + g_voting_power g) = unat x + unat (g_voting_power g)"
      by (intro unat_add_no_overflow) simp
    with True Cons show ?thesis by (simp add: bnd_def add_word_def total_power_def add.assoc)
  next
    case False
    then show ?thesis by (simp add: bnd_def add_word_def total_power_def)
  qed
qed

lemma sum_power_for_eq:
  "sum_power_for gs vs x s = (if unat x + supporting_power gs vs < 2 ^ 32
     then Ok (x + of_nat (supporting_power gs vs)) s else Trap)"
proof (induction vs arbitrary: x)
  case Nil
  then show ?case using unat_u32_bound [of x] by (simp add: supporting_power_def ret_def)
next
  case (Cons v vs)
  show ?case
  proof (cases "power_of gs v")
    case None
    then show ?thesis using Cons by (simp add: supporting_power_def)
  next
    case (Some p)
    show ?thesis
    proof (cases "unat x + unat p < 2 ^ 32")
      case True
      then have "unat (x + p) = unat x + unat p" by (intro unat_add_no_overflow) simp
      with True Some Cons show ?thesis by (simp add: bnd_def add_word_def supporting_power_def add.assoc)
    next
      case False
      then show ?thesis using Some by (simp add: bnd_def add_word_def supporting_power_def)
    qed
  qed
qed

lemma unat_of_nat_u32: "n < 2 ^ 32 \<Longrightarrow> unat (of_nat n :: u32) = n"
  by (simp add: unat_of_nat)

lemma percent_le:
  "0 < t \<Longrightarrow> t < 2 ^ 32 \<Longrightarrow> p * 100 < 2 ^ 32 \<Longrightarrow>
     (51 :: u32) \<le> (of_nat p * 100) div of_nat t \<longleftrightarrow> 51 * t \<le> 100 * p"
proof -
  assume t: "0 < t" "t < 2 ^ 32" and p: "p * 100 < 2 ^ 32"
  have "(of_nat p * 100 :: u32) = of_nat (p * 100)" by simp
  then have "unat ((of_nat p * 100 :: u32) div of_nat t) = (p * 100) div t"
    using t p by (simp add: unat_div unat_of_nat_u32 del: of_nat_mult)
  then have "(51 :: u32) \<le> (of_nat p * 100) div of_nat t \<longleftrightarrow> 51 \<le> (p * 100) div t"
    by (simp add: word_le_nat_alt)
  also have "\<dots> \<longleftrightarrow> 51 * t \<le> p * 100" using t by (simp add: less_eq_div_iff_mult_less_eq)
  finally show ?thesis by (simp add: mult.commute)
qed

lemma of_nat_u32_eq_0: "n < 2 ^ 32 \<Longrightarrow> (of_nat n :: u32) = 0 \<longleftrightarrow> n = 0"
  using unat_of_nat_u32 [of n] by auto

lemma hundredfold_overflow:
  "\<not> n < 2 ^ 32 \<or> \<not> unat (of_nat n :: u32) * 100 < 2 ^ 32 \<longleftrightarrow> 2 ^ 32 \<le> n * 100"
  using unat_of_nat_u32 [of n] by (cases "n < 2 ^ 32") auto

lemma is_majority_met_run:
  assumes "get_guardians s = gs" and "total_power gs = t" and "supporting_power gs (pu_votes_for p) = y"
  shows "is_majority_met p s = (if gs = [] then Ok False s
      else if \<not> t < 2 ^ 32 then Trap else if (of_nat t :: u32) = 0 then Ok False s
      else if \<not> y < 2 ^ 32 then Trap else if \<not> unat (of_nat y :: u32) * 100 < 2 ^ 32 then Trap
      else Ok (51 \<le> (of_nat y * 100 :: u32) div of_nat t) s)"
  using assms by (simp add: is_majority_met_def bnd_def reads_def ret_def sum_power_eq sum_power_for_eq
        mul_word_def MAJORITY_THRESHOLD_PERCENT_def)

text \<open>The decision of the majority check, with its two ways to overflow.\<close>

lemma is_majority_met_eq:
  assumes "get_guardians s = gs" and "total_power gs = t" and "supporting_power gs (pu_votes_for p) = y"
  shows "is_majority_met p s = (if gs = [] then Ok False s else if 2 ^ 32 \<le> t then Trap
      else if t = 0 then Ok False s else if 2 ^ 32 \<le> y * 100 then Trap else Ok (51 * t \<le> 100 * y) s)"
proof -
  consider "gs = []" | "gs \<noteq> []" "2 ^ 32 \<le> t" | "gs \<noteq> []" "t = 0" |
    "gs \<noteq> []" "t < 2 ^ 32" "0 < t" "2 ^ 32 \<le> y * 100" |
    "gs \<noteq> []" "t < 2 ^ 32" "0 < t" "y * 100 < 2 ^ 32" by linarith
  then show ?thesis
  proof cases
    case 4
    then show ?thesis unfolding is_majority_met_run [OF assms] using of_nat_u32_eq_0 [of t] hundredfold_overflow [of y]
      by (simp only: if_False if_True not_less) auto
  next
    case 5
    then have "\<not> (\<not> y < 2 ^ 32 \<or> \<not> unat (of_nat y :: u32) * 100 < 2 ^ 32)" "(of_nat t :: u32) \<noteq> 0"
      by (simp_all only: hundredfold_overflow of_nat_u32_eq_0)
    then show ?thesis unfolding is_majority_met_run [OF assms] using 5 percent_le [of t y] by (simp only: if_False if_True simp_thms) auto
  qed (simp_all add: is_majority_met_run [OF assms] not_less)
qed

lemma total_power_Nil [simp]: "total_power [] = 0"
  by (simp add: total_power_def)

lemma is_majority_met_Ok:
  "is_majority_met p s = Ok b t \<Longrightarrow> t = s \<and>
     (b \<longleftrightarrow> 0 < total_power (get_guardians s) \<and>
       51 * total_power (get_guardians s) \<le> 100 * supporting_power (get_guardians s) (pu_votes_for p))"
  by (auto simp: is_majority_met_eq [OF refl refl refl] split: if_splits)

section \<open>Runs\<close>

lemma bump_gov_ttl_Ok [run_simps]:
  "bump_gov_ttl e k s = Ok r t \<longleftrightarrow> has_config k (conf s) \<and>
     t = s\<lparr>live_until := ext_ttl e (PConfig k) TTL_LOW_THRESHOLD TTL_HIGH_THRESHOLD s\<rparr>"
  by (simp add: bump_gov_ttl_def run_simps)

lemma is_guardian_set: "is_guardian gs a \<longleftrightarrow> a \<in> g_address ` set gs"
  by (simp add: is_guardian_def list_ex_eq_set)

lemmas gov_write_defs = set_guardians_def set_guardian_removal_passed_at_def
  clear_guardian_removal_passed_at_def set_pending_removal_def clear_pending_removal_def
  set_upgrade_rejected_at_def clear_upgrade_rejected_at_def set_upgrade_passed_at_def
  clear_upgrade_passed_at_def set_pending_upgrade_def clear_pending_upgrade_def

lemmas gov_read_defs = get_guardian_removal_passed_at_def get_timelock_duration_def
  get_pending_upgrade_def get_upgrade_rejected_at_def get_upgrade_passed_at_def

lemma elapsed_nat: "d \<le> saturating_sub_u64 now at \<longleftrightarrow> unat d \<le> unat now - unat at"
  by (simp add: word_le_nat_alt)

text \<open>The moment the timelock of the pending upgrade counts from.\<close>

definition timelock_start :: "'w st \<Rightarrow> PendingUpgrade \<Rightarrow> u64" where
  "timelock_start s p = (case get_upgrade_passed_at s of Some x \<Rightarrow> x | None \<Rightarrow> pu_initiated_at p)"

lemma is_timelock_satisfied_eq:
  "get_pending_upgrade s = Some p \<Longrightarrow> is_timelock_satisfied e s =
     Ok (unat (get_timelock_duration s) \<le> unat (timestamp e) - unat (timelock_start s p)) s"
  by (simp add: is_timelock_satisfied_def timelock_start_def bnd_def reads_def ok_or_def ret_def Let_def elapsed_nat)

lemma execute_upgrade_run:
  assumes "execute_upgrade e s = Ok h t"
  obtains p where "get_pending_upgrade s = Some p" and "h = pu_wasm_hash p"
    and "unat (get_timelock_duration s) \<le> unat (timestamp e) - unat (timelock_start s p)"
    and "is_majority_met p s = Ok True s"
    and "wasm t = Some h" and "conf t = (conf s)\<lparr>c_PendingUpgrade := None, c_PendingUpgradePassedAt := None,
           c_UpgradeRejectedAt := (c_UpgradeRejectedAt (conf s))(h := None)\<rparr>"
    and "inst t = inst s" and "mkts t = mkts s" and "bets t = bets s" and "fees t = fees s"
    and "vts t = vts s" and "orcs t = orcs s" and "arch t = arch s" and "world t = world s"
proof -
  from assms obtain p where p: "get_pending_upgrade s = Some p"
    by (auto simp: execute_upgrade_def is_timelock_satisfied_def run_simps)
  from assms have tl: "unat (get_timelock_duration s) \<le> unat (timestamp e) - unat (timelock_start s p)"
    by (auto simp: execute_upgrade_def bnd_Ok is_timelock_satisfied_eq [OF p] thn_Ok err_if_Ok)
  from assms obtain b u where b: "is_majority_met p s = Ok b u"
    by (auto simp: execute_upgrade_def bnd_Ok is_timelock_satisfied_eq [OF p] thn_Ok err_if_Ok reads_Ok ok_or_Ok p)
  have us: "u = s" using is_majority_met_Ok [OF b] by blast
  have bT: b
  proof (rule ccontr)
    assume "\<not> b"
    with assms p tl b show False
      by (auto simp: execute_upgrade_def bnd_Ok is_timelock_satisfied_eq [OF p] thn_Ok err_if_Ok reads_Ok ok_or_Ok
          Let_def fail_Ok)
  qed
  show ?thesis
    by (rule that [OF p]) (use assms p tl b bT us in \<open>auto simp: execute_upgrade_def run_simps
        is_timelock_satisfied_eq [OF p] Let_def gov_write_defs\<close>)
qed

text \<open>
  C33. An upgrade is installed only after a majority and a delay: when the upgrade is executed, it is
  the pending one, guardians holding at least 51% of the total (non-zero) voting power are among its
  supporters, and the configured timelock has elapsed since the majority was reached, or since the
  proposal when no vote ever completed a majority. It then is the contract's code, and the proposal
  is gone.
\<close>

theorem upgrade_needs_majority_and_delay:
  assumes "execute_upgrade e s = Ok h t"
  shows "\<exists>p. get_pending_upgrade s = Some p \<and> h = pu_wasm_hash p \<and>
    0 < total_power (get_guardians s) \<and>
    51 * total_power (get_guardians s) \<le> 100 * supporting_power (get_guardians s) (pu_votes_for p) \<and>
    unat (get_timelock_duration s) \<le> unat (timestamp e) - unat (timelock_start s p) \<and>
    wasm t = Some h \<and> get_pending_upgrade t = None \<and> get_upgrade_passed_at t = None \<and>
    get_upgrade_rejected_at t h = None"
proof -
  obtain p where p: "get_pending_upgrade s = Some p" "h = pu_wasm_hash p"
    "unat (get_timelock_duration s) \<le> unat (timestamp e) - unat (timelock_start s p)"
    "is_majority_met p s = Ok True s" "wasm t = Some h"
    "conf t = (conf s)\<lparr>c_PendingUpgrade := None, c_PendingUpgradePassedAt := None,
           c_UpgradeRejectedAt := (c_UpgradeRejectedAt (conf s))(h := None)\<rparr>"
    using assms by (rule execute_upgrade_run)
  with is_majority_met_Ok [OF p(4)] show ?thesis by (auto simp: gov_read_defs)
qed

definition upgrade_sample :: "Address list \<Rightarrow> balances st" where
  "upgrade_sample voters = upd_conf (\<lambda>c. c\<lparr>c_GuardianSet := Some [\<lparr>g_address = Addr 11, g_voting_power = 1\<rparr>,
       \<lparr>g_address = Addr 12, g_voting_power = 1\<rparr>],
     c_PendingUpgrade := Some \<lparr>pu_wasm_hash = [7], pu_initiated_at = 1000, pu_votes_for = voters,
       pu_votes_against = []\<rparr>\<rparr>) sample_st"

lemma upgrade_sample_sel [simp]:
  "get_pending_upgrade (upgrade_sample voters) = Some \<lparr>pu_wasm_hash = [7], pu_initiated_at = 1000,
     pu_votes_for = voters, pu_votes_against = []\<rparr>"
  "get_guardians (upgrade_sample voters) = [\<lparr>g_address = Addr 11, g_voting_power = 1\<rparr>,
     \<lparr>g_address = Addr 12, g_voting_power = 1\<rparr>]"
  "get_timelock_duration (upgrade_sample voters) = 172800" "get_upgrade_passed_at (upgrade_sample voters) = None"
  by (simp_all add: upgrade_sample_def gov_read_defs get_guardians_def sample_defs TIMELOCK_DURATION_def)

theorem upgrade_needs_majority_and_delay_witness:
  "\<exists>t. execute_upgrade (sample_ctx 200000 {}) (upgrade_sample [Addr 11, Addr 12]) = Ok [7] t \<and> wasm t = Some [7]"
proof -
  let ?s = "upgrade_sample [Addr 11, Addr 12]"
  have m: "is_majority_met \<lparr>pu_wasm_hash = [7], pu_initiated_at = 1000, pu_votes_for = [Addr 11, Addr 12],
     pu_votes_against = []\<rparr> ?s = Ok True ?s"
    by (simp add: is_majority_met_eq [OF refl refl refl] total_power_def supporting_power_def power_of_def)
  obtain t where t: "execute_upgrade (sample_ctx 200000 {}) ?s = Ok [7] t"
    using m by (simp add: execute_upgrade_def bnd_def [of "is_timelock_satisfied e" for e]
        is_timelock_satisfied_eq timelock_start_def Let_def gov_write_defs run_eval)
  from upgrade_needs_majority_and_delay [OF t] show ?thesis using t by blast
qed

text \<open>
  A rejected upgrade never goes away: when the timelock is over without a majority, executing
  the upgrade is meant to record the rejection, start a cool-down and clear the proposal, but it does
  so on the way to returning an error, and the host rolls back every write of a failed call. The
  proposal stays, and as long as it is pending no upgrade can be proposed, whatever its hash.
\<close>

theorem rejected_upgrade_stays_pending:
  assumes "get_pending_upgrade s = Some p" and "is_majority_met p s = Ok False s"
    and "unat (get_timelock_duration s) \<le> unat (timestamp e) - unat (timelock_start s p)"
  shows "(\<exists>u. execute_upgrade e s = Err InsufficientVotes u \<and> get_pending_upgrade u = None \<and>
      get_upgrade_rejected_at u (pu_wasm_hash p) = Some (timestamp e)) \<and>
    invoke (execute_upgrade e) s = Err InsufficientVotes s \<and>
    (\<forall>e' h u. invoke (initiate_upgrade e' h) s \<noteq> Ok () u)"
proof -
  have "\<exists>u. execute_upgrade e s = Err InsufficientVotes u \<and> get_pending_upgrade u = None \<and>
      get_upgrade_rejected_at u (pu_wasm_hash p) = Some (timestamp e)"
    using assms by (auto simp: execute_upgrade_def bnd_def [of "is_timelock_satisfied e" for e]
        is_timelock_satisfied_eq Let_def gov_write_defs gov_read_defs run_eval)
  moreover have "invoke (initiate_upgrade e' h) s \<noteq> Ok () u" for e' h u
    using assms(1) by (auto simp: initiate_upgrade_def require_no_upgrade_collision_def gov_read_defs run_simps)
  ultimately show ?thesis by (auto simp: invoke_def)
qed

theorem rejected_upgrade_stays_pending_witness:
  "invoke (execute_upgrade (sample_ctx 200000 {})) (upgrade_sample [Addr 11])
     = Err InsufficientVotes (upgrade_sample [Addr 11])"
proof -
  let ?s = "upgrade_sample [Addr 11]"
  let ?p = "\<lparr>pu_wasm_hash = [7], pu_initiated_at = 1000, pu_votes_for = [Addr 11], pu_votes_against = []\<rparr>"
  have p: "get_pending_upgrade ?s = Some ?p" by simp
  have m: "is_majority_met ?p ?s = Ok False ?s"
    by (simp add: is_majority_met_eq [OF refl refl refl] total_power_def supporting_power_def power_of_def)
  show ?thesis
    using rejected_upgrade_stays_pending [OF p m, of "sample_ctx 200000 {}"] by (simp add: timelock_start_def)
qed

lemma vote_for_upgrade_run:
  assumes "vote_for_upgrade e voter b s = Ok r t"
  obtains p maj where "r" and "voter \<in> authorized e" and "voter \<in> g_address ` set (get_guardians s)"
    and "get_pending_upgrade s = Some p" and "voter \<notin> set (pu_votes_for p)" and "voter \<notin> set (pu_votes_against p)"
    and "is_majority_met (record_upgrade_vote voter b p) s = Ok maj s"
    and "conf t = (conf s)\<lparr>c_PendingUpgrade := Some (record_upgrade_vote voter b p),
       c_PendingUpgradePassedAt := (if maj \<and> get_upgrade_passed_at s = None then Some (timestamp e)
         else get_upgrade_passed_at s)\<rparr>"
    and "inst t = inst s" and "mkts t = mkts s" and "bets t = bets s" and "fees t = fees s"
    and "vts t = vts s" and "orcs t = orcs s" and "arch t = arch s" and "world t = world s" and "wasm t = wasm s"
proof -
  from assms obtain p maj u where
    p: "voter \<in> authorized e" "voter \<in> g_address ` set (get_guardians s)" "get_pending_upgrade s = Some p"
      "voter \<notin> set (pu_votes_for p)" "voter \<notin> set (pu_votes_against p)" and
    maj: "is_majority_met (record_upgrade_vote voter b p) s = Ok maj u" and
    c: "bnd (reads get_upgrade_passed_at) (\<lambda>passed_at.
     thn (doif (maj \<and> passed_at = None) (set_upgrade_passed_at e))
     (thn (set_pending_upgrade e (record_upgrade_vote voter b p))
     (thn (bump_gov_ttl e K_PendingUpgrade) (thn (emit_upgrade_voted voter b) (ret True))))) u = Ok r t"
    unfolding vote_for_upgrade_def Let_def bnd_Ok [of "reads get_guardians"] bnd_Ok [of "reads get_pending_upgrade"]
      bnd_Ok [of "ok_or a b" for a b] bnd_Ok [of "is_majority_met a" for a] thn_Ok [of "err_if a b" for a b]
      thn_Ok [of "require_auth a b" for a b] reads_Ok [of get_guardians] reads_Ok [of get_pending_upgrade]
      ok_or_Ok err_if_Ok require_auth_Ok
    by (auto simp: is_guardian_set)
  have us: "u = s" using is_majority_met_Ok [OF maj] by blast
  show ?thesis
    by (rule that [of p maj]) (use p maj us c in \<open>auto simp: run_simps gov_write_defs gov_read_defs emit_defs\<close>)
qed

text \<open>
  One guardian, one vote: a vote on the upgrade is recorded only for an authorised guardian that
  has not voted yet, in exactly one of the two lists; nobody is ever listed twice. The moment the
  majority is first reached is recorded once and later votes do not move it.
\<close>

theorem upgrade_votes_distinct:
  assumes "vote_for_upgrade e voter b s = Ok r t"
    and "\<forall>p. get_pending_upgrade s = Some p \<longrightarrow> valid_ballot (pu_votes_for p) (pu_votes_against p)"
  shows "voter \<in> authorized e \<and> voter \<in> g_address ` set (get_guardians s) \<and>
    (\<exists>p q. get_pending_upgrade s = Some p \<and> get_pending_upgrade t = Some q \<and>
      voter \<notin> set (pu_votes_for p) \<union> set (pu_votes_against p) \<and>
      valid_ballot (pu_votes_for q) (pu_votes_against q) \<and>
      pu_votes_for q = pu_votes_for p @ (if b then [voter] else []) \<and>
      pu_votes_against q = pu_votes_against p @ (if b then [] else [voter])) \<and>
    (\<forall>x. get_upgrade_passed_at s = Some x \<longrightarrow> get_upgrade_passed_at t = Some x) \<and>
    (\<forall>e' b'. voter \<in> authorized e' \<longrightarrow> vote_for_upgrade e' voter b' t = Err AlreadyVotedOnUpgrade t)"
proof -
  obtain p maj where p: "voter \<in> authorized e" "voter \<in> g_address ` set (get_guardians s)"
    "get_pending_upgrade s = Some p" "voter \<notin> set (pu_votes_for p)" "voter \<notin> set (pu_votes_against p)" and
    c: "conf t = (conf s)\<lparr>c_PendingUpgrade := Some (record_upgrade_vote voter b p),
       c_PendingUpgradePassedAt := (if maj \<and> get_upgrade_passed_at s = None then Some (timestamp e)
         else get_upgrade_passed_at s)\<rparr>"
    using assms(1) by (rule vote_for_upgrade_run)
  let ?q = "record_upgrade_vote voter b p"
  have q: "get_pending_upgrade t = Some ?q" "get_guardians t = get_guardians s"
    using c by (simp_all add: get_pending_upgrade_def get_guardians_def)
  have valid: "valid_ballot (pu_votes_for ?q) (pu_votes_against ?q)"
    using assms(2) p by (intro upgrade_ballot.record_valid) auto
  have "vote_for_upgrade e' voter b' t = Err AlreadyVotedOnUpgrade t" if "voter \<in> authorized e'" for e' b'
    using that p(2) q upgrade_ballot.record_voters [of voter b p]
    by (auto simp: vote_for_upgrade_def is_guardian_set thn_def bnd_def reads_def ok_or_def err_if_def require_auth_def)
  moreover have "\<forall>x. get_upgrade_passed_at s = Some x \<longrightarrow> get_upgrade_passed_at t = Some x"
    using c by (simp add: get_upgrade_passed_at_def)
  ultimately show ?thesis using p q valid upgrade_ballot.fors_record [of voter b p] upgrade_ballot.againsts_record [of voter b p]
    by auto
qed

theorem upgrade_votes_distinct_witness:
  "\<exists>t q. vote_for_upgrade (sample_ctx 5000 {Addr 12}) (Addr 12) True (upgrade_sample [Addr 11]) = Ok True t \<and>
     get_pending_upgrade t = Some q \<and> pu_votes_for q = [Addr 11, Addr 12]"
proof -
  let ?s = "upgrade_sample [Addr 11]"
  obtain t where t: "vote_for_upgrade (sample_ctx 5000 {Addr 12}) (Addr 12) True ?s = Ok True t"
    by (simp add: vote_for_upgrade_def is_guardian_def record_upgrade_vote_def Let_def gov_write_defs
        gov_read_defs get_guardians_def is_majority_met_def power_of_def MAJORITY_THRESHOLD_PERCENT_def
        bump_gov_ttl_def TTL_LOW_THRESHOLD_def TTL_HIGH_THRESHOLD_def upgrade_sample_def sample_defs run_eval)
  have "\<forall>p. get_pending_upgrade ?s = Some p \<longrightarrow> valid_ballot (pu_votes_for p) (pu_votes_against p)"
    by (simp add: valid_ballot_def)
  from upgrade_votes_distinct [OF t this] show ?thesis using t by auto
qed

text \<open>
  Large voting powers block upgrades: the majority is computed in 32-bit arithmetic that
  multiplies the supporters' power by 100, so once an approving vote would bring it to
  \<open>2^32 / 100\<close> (about 43 million) or more, the vote traps instead of being recorded.
\<close>

theorem upgrade_vote_overflows:
  assumes "get_pending_upgrade s = Some p" and "voter \<in> g_address ` set (get_guardians s)"
    and "voter \<notin> set (pu_votes_for p) \<union> set (pu_votes_against p)"
    and "2 ^ 32 \<le> 100 * supporting_power (get_guardians s) (pu_votes_for p @ [voter])"
    and "0 < total_power (get_guardians s)"
  shows "voter \<in> authorized e \<longrightarrow> vote_for_upgrade e voter True s = Trap"
proof
  assume "voter \<in> authorized e"
  let ?q = "record_upgrade_vote voter True p"
  have "pu_votes_for ?q = pu_votes_for p @ [voter]" by (simp add: record_upgrade_vote_def)
  then have "is_majority_met ?q s = Trap"
    using assms(2,4,5) by (auto simp: is_majority_met_eq [OF refl refl refl] mult.commute)
  then show "vote_for_upgrade e voter True s = Trap"
    using assms(1-3) \<open>voter \<in> authorized e\<close> by (auto simp: vote_for_upgrade_def is_guardian_set thn_def bnd_def
        reads_def ok_or_def err_if_def require_auth_def Let_def)
qed

theorem upgrade_vote_overflows_witness:
  "let s = upd_conf (\<lambda>c. c\<lparr>c_GuardianSet := Some [\<lparr>g_address = Addr 11, g_voting_power = 43000000\<rparr>]\<rparr>) (upgrade_sample [])
   in vote_for_upgrade (sample_ctx 5000 {Addr 11}) (Addr 11) True s = Trap"
proof -
  let ?s = "upd_conf (\<lambda>c. c\<lparr>c_GuardianSet := Some [\<lparr>g_address = Addr 11, g_voting_power = 43000000\<rparr>]\<rparr>) (upgrade_sample [])"
  have g: "get_guardians ?s = [\<lparr>g_address = Addr 11, g_voting_power = 43000000\<rparr>]" by (simp add: get_guardians_def)
  have p: "get_pending_upgrade ?s = Some \<lparr>pu_wasm_hash = [7], pu_initiated_at = 1000, pu_votes_for = [],
      pu_votes_against = []\<rparr>" by (simp add: get_pending_upgrade_def upgrade_sample_def)
  show ?thesis unfolding Let_def
    using upgrade_vote_overflows [OF p, of "Addr 11" "sample_ctx 5000 {Addr 11}"]
    unfolding g by (simp add: total_power_def supporting_power_def power_of_def)
qed

section \<open>Emergency pause\<close>

definition power_among :: "Guardian list \<Rightarrow> Address list \<Rightarrow> nat" where
  "power_among gs vs = (\<Sum>g \<leftarrow> gs. if g_address g \<in> set vs then unat (g_voting_power g) else 0)"

lemma power_among_le: "power_among gs vs \<le> total_power gs"
  unfolding power_among_def total_power_def by (intro sum_list_map_le) simp

lemma emergency_tally_eq:
  "unat y \<le> unat x \<Longrightarrow> emergency_tally gs vs x y s = (if unat x + total_power gs < 2 ^ 32
     then Ok (x + of_nat (total_power gs), y + of_nat (power_among gs vs)) s else Trap)"
proof (induction gs arbitrary: x y)
  case Nil
  then show ?case using unat_u32_bound [of x] by (simp add: total_power_def power_among_def ret_def)
next
  case (Cons g gs)
  let ?p = "g_voting_power g"
  show ?case
  proof (cases "unat x + unat ?p < 2 ^ 32")
    case True
    then have u: "unat (x + ?p) = unat x + unat ?p" by (intro unat_add_no_overflow) simp
    have y: "unat y + unat ?p < 2 ^ 32" using True Cons.prems by simp
    then have "unat (y + ?p) = unat y + unat ?p" by (intro unat_add_no_overflow) simp
    with True u y Cons.IH [of y "x + ?p"] Cons.IH [of "y + ?p" "x + ?p"] Cons.prems show ?thesis
      by (simp add: bnd_def add_word_def total_power_def power_among_def add.assoc)
  next
    case False
    then show ?thesis by (simp add: bnd_def add_word_def total_power_def)
  qed
qed

lemma two_thirds:
  assumes "t < 2 ^ 32" and "q \<le> t"
  shows "0 < (of_nat t :: u32) \<and> (ucast (of_nat t :: u32) :: u64) * 2 \<le> (ucast (of_nat q :: u32) :: u64) * 3
    \<longleftrightarrow> 0 < t \<and> 2 * t \<le> 3 * q"
proof -
  have t: "unat (ucast (of_nat t :: u32) :: u64) = t" and q: "unat (ucast (of_nat q :: u32) :: u64) = q"
    using assms by (simp_all add: unat_ucast_u64 unat_of_nat_u32)
  have "unat ((ucast (of_nat t :: u32) :: u64) * 2) = t * 2" "unat ((ucast (of_nat q :: u32) :: u64) * 3) = q * 3"
    using assms t q unat_mult_lem [of "ucast (of_nat t :: u32) :: u64" 2] unat_mult_lem [of "ucast (of_nat q :: u32) :: u64" 3]
    by simp_all
  moreover have "0 < (of_nat t :: u32) \<longleftrightarrow> 0 < t" using assms(1) by (simp add: word_less_nat_alt unat_of_nat_u32)
  ultimately show ?thesis by (auto simp: word_le_nat_alt)
qed

definition pause_votes :: "'w st \<Rightarrow> Address list" where
  "pause_votes s = (case c_PendingEmergencyPause (conf s) of None \<Rightarrow> [] | Some v \<Rightarrow> v)"

text \<open>
  C34. The emergency pause needs two thirds of the voting power: a call by an authorised guardian
  that has not voted yet pauses the contract exactly when the guardians that have called, this one
  included, hold at least two thirds of a non-zero total power, and clears the votes; before that it
  only records the vote. Anyone else, and a guardian voting twice, is refused.
\<close>

theorem emergency_pause_decision:
  assumes "total_power (get_guardians s) < 2 ^ 32" and "voter \<in> authorized e"
  shows "if voter \<notin> g_address ` set (get_guardians s) then emergency_pause e voter s = Err NotAuthorized s
    else if voter \<in> set (pause_votes s) then emergency_pause e voter s = Err AlreadyVotedOnUpgrade s
    else \<exists>t. emergency_pause e voter s = Ok () t \<and>
      (if 0 < total_power (get_guardians s) \<and>
          2 * total_power (get_guardians s) \<le> 3 * power_among (get_guardians s) (pause_votes s @ [voter])
       then get_state t = Paused \<and> pause_votes t = []
       else get_state t = get_state s \<and> pause_votes t = pause_votes s @ [voter])"
proof -
  let ?gs = "get_guardians s"
  let ?t = "total_power ?gs" and ?q = "power_among ?gs (pause_votes s @ [voter])"
  have tally: "emergency_tally ?gs (pause_votes s @ [voter]) 0 0 s = Ok (of_nat ?t, of_nat ?q) s"
    using assms(1) by (subst emergency_tally_eq) simp_all
  note third = two_thirds [OF assms(1) power_among_le, of "pause_votes s @ [voter]"]
  consider "voter \<notin> g_address ` set ?gs" | "voter \<in> g_address ` set ?gs" "voter \<in> set (pause_votes s)" |
    "voter \<in> g_address ` set ?gs" "voter \<notin> set (pause_votes s)" by blast
  then show ?thesis
  proof cases
    case 3
    then have ne: "?gs \<noteq> []" by auto
    have run: "emergency_pause e voter s = (if 0 < ?t \<and> 2 * ?t \<le> 3 * ?q
        then thn (p_remove (PConfig K_PendingEmergencyPause)
                 (upd_conf (\<lambda>c. c\<lparr>c_PendingEmergencyPause := None\<rparr>))) (force_pause e) s
        else thn (p_set e (PConfig K_PendingEmergencyPause)
                 (upd_conf (\<lambda>c. c\<lparr>c_PendingEmergencyPause := Some (pause_votes s @ [voter])\<rparr>)))
          (bump_gov_ttl e K_PendingEmergencyPause) s)"
      using 3 ne assms(2) tally third by (simp add: emergency_pause_def is_guardian_set
          thn_def bnd_def reads_def err_if_def require_auth_def flip: pause_votes_def)
    show ?thesis using 3 unfolding run
      by (auto simp: force_pause_def set_state_internal_def get_state_def bump_gov_ttl_def pause_votes_def run_eval)
  qed (use assms(2) in \<open>auto simp: emergency_pause_def is_guardian_set pause_votes_def run_eval\<close>)
qed

theorem emergency_pause_decision_witness:
  "\<exists>t. emergency_pause (sample_ctx 5 {Addr 11}) (Addr 11) (upgrade_sample []) = Ok () t \<and>
     pause_votes t = [Addr 11] \<and> get_state t = Closed"
proof -
  let ?s = "upgrade_sample []"
  have v: "pause_votes ?s = []" "get_state ?s = Closed"
    by (simp_all add: pause_votes_def get_state_def upgrade_sample_def sample_defs)
  show ?thesis
    using emergency_pause_decision [of ?s "Addr 11" "sample_ctx 5 {Addr 11}"]
    by (simp add: v total_power_def power_among_def) blast
qed

section \<open>Removal of a guardian\<close>

lemma execute_guardian_removal_run:
  assumes "execute_guardian_removal e s = Ok r t"
  obtains p x a where "get_admin s = Some a" and "a \<in> authorized e"
    and "c_PendingGuardianRemoval (conf s) = Some p" and "get_guardian_removal_passed_at s = Some x"
    and "unat (get_timelock_duration s) \<le> unat (timestamp e) - unat x"
    and "pr_target_guardian p \<in> g_address ` set (get_guardians s)"
    and "conf t = (conf s)\<lparr>c_GuardianSet := Some (filter (\<lambda>g. g_address g \<noteq> pr_target_guardian p) (get_guardians s)),
       c_PendingGuardianRemoval := None, c_PendingGuardianRemovalPassedAt := None\<rparr>"
    and "inst t = inst s" and "mkts t = mkts s" and "bets t = bets s" and "fees t = fees s"
    and "vts t = vts s" and "orcs t = orcs s" and "arch t = arch s" and "world t = world s"
  using assms
  by (auto simp: execute_guardian_removal_def run_simps gov_write_defs is_guardian_set not_less
      elapsed_nat get_admin_def)

lemma removal_votes_needed_Ok:
  assumes "removal_votes_needed gs s = Ok n t" and "length gs < 2 ^ 32"
  shows "unat n = (length gs - 1) * 51 div 100 + 1 \<and> 0 < length gs \<and> t = s"
proof -
  let ?l = "of_nat (length gs) :: u32"
  have l: "unat ?l = length gs" using assms(2) by (simp add: unat_of_nat_u32)
  from assms(1) have le: "1 \<le> ?l" and mul: "unat (?l - 1) * 51 < 2 ^ 32"
    and add: "unat ((?l - 1) * 51 div 100) + 1 < 2 ^ 32" and n: "n = (?l - 1) * 51 div 100 + 1" and t: "t = s"
    by (auto simp: removal_votes_needed_def run_simps MAJORITY_THRESHOLD_PERCENT_def)
  have pos: "0 < length gs" using le l by (auto simp: word_le_nat_alt)
  have "unat (?l - 1) = length gs - 1" using le l by (simp add: unat_sub)
  then have "unat ((?l - 1) * 51) = (length gs - 1) * 51" using mul unat_mult_lem [of "?l - 1" 51] by simp
  then have "unat ((?l - 1) * 51 div 100) = (length gs - 1) * 51 div 100" by (simp add: unat_div)
  then have "unat n = (length gs - 1) * 51 div 100 + 1"
    using add n unat_add_no_overflow [of "(?l - 1) * 51 div 100" 1] by simp
  with pos t show ?thesis by simp
qed

lemma vote_on_guardian_removal_run:
  assumes "vote_on_guardian_removal e voter b s = Ok r t" and "length (get_guardians s) < 2 ^ 32"
  obtains p n where "voter \<in> authorized e" and "voter \<in> g_address ` set (get_guardians s)"
    and "c_PendingGuardianRemoval (conf s) = Some p"
    and "voter \<notin> set (pr_votes_for p)" and "voter \<notin> set (pr_votes_against p)"
    and "unat (timestamp e) - unat (pr_initiated_at p) \<le> unat GUARDIAN_REMOVAL_VOTE_WINDOW"
    and "unat (n :: u32) = (length (get_guardians s) - 1) * 51 div 100 + 1"
    and "conf t = (if n \<le> of_nat (length (pr_votes_against (record_removal_vote voter b p)))
       then (conf s)\<lparr>c_PendingGuardianRemoval := None, c_PendingGuardianRemovalPassedAt := None\<rparr>
       else (conf s)\<lparr>c_PendingGuardianRemoval := Some (record_removal_vote voter b p),
         c_PendingGuardianRemovalPassedAt :=
           (if n \<le> of_nat (length (pr_votes_for (record_removal_vote voter b p))) \<and>
               get_guardian_removal_passed_at s = None
            then Some (timestamp e) else get_guardian_removal_passed_at s)\<rparr>)"
    and "inst t = inst s" and "mkts t = mkts s" and "bets t = bets s" and "fees t = fees s"
    and "vts t = vts s" and "orcs t = orcs s" and "arch t = arch s" and "world t = world s"
proof -
  let ?rec = "\<lambda>p. record_removal_vote voter b p"
  let ?tail = "\<lambda>p (n :: u32). bnd (reads get_guardian_removal_passed_at) (\<lambda>passed_at.
       thn (doif (n \<le> of_nat (length (pr_votes_for (?rec p))) \<and> passed_at = None)
              (set_guardian_removal_passed_at e))
       (if n \<le> of_nat (length (pr_votes_against (?rec p)))
        then clear_pending_removal
        else thn (set_pending_removal e (?rec p)) (bump_gov_ttl e K_PendingGuardianRemoval)))"
  from assms(1) obtain p where
    p1: "voter \<in> authorized e" "voter \<in> g_address ` set (get_guardians s)"
      "c_PendingGuardianRemoval (conf s) = Some p" and
    d: "(if GUARDIAN_REMOVAL_VOTE_WINDOW < saturating_sub_u64 (timestamp e) (pr_initiated_at p)
     then thn clear_pending_removal (fail GuardianNotSet)
     else thn (err_if (voter \<in> set (pr_votes_for p)) AlreadyVotedOnUpgrade)
       (thn (err_if (voter \<in> set (pr_votes_against p)) AlreadyVotedOnUpgrade)
       (bnd (removal_votes_needed (get_guardians s)) (?tail p)))) s = Ok r t"
    unfolding vote_on_guardian_removal_def Let_def bnd_Ok [of "reads get_guardians"]
      bnd_Ok [of "reads (\<lambda>s. c_PendingGuardianRemoval (conf s))"] bnd_Ok [of "ok_or a b" for a b]
      thn_Ok [of "require_auth a b" for a b] thn_Ok [of "err_if (\<not> a) b" for a b] reads_Ok [of get_guardians]
      reads_Ok [of "\<lambda>s. c_PendingGuardianRemoval (conf s)"] ok_or_Ok err_if_Ok require_auth_Ok
    by (auto simp: is_guardian_set)
  have p2: "\<not> GUARDIAN_REMOVAL_VOTE_WINDOW < saturating_sub_u64 (timestamp e) (pr_initiated_at p)"
    using d by (auto simp: thn_Ok fail_Ok)
  from d [unfolded if_not_P [OF p2]] obtain n u where
    p3: "voter \<notin> set (pr_votes_for p)" "voter \<notin> set (pr_votes_against p)" and
    n: "removal_votes_needed (get_guardians s) s = Ok n u" and c: "?tail p n u = Ok r t"
    unfolding thn_Ok [of "err_if a b" for a b] err_if_Ok bnd_Ok [of "removal_votes_needed a" for a] by blast
  note p = p1 p3 p2
  note needed = removal_votes_needed_Ok [OF n assms(2)]
  have w: "unat (timestamp e) - unat (pr_initiated_at p) \<le> unat GUARDIAN_REMOVAL_VOTE_WINDOW"
    using p(6) by (simp add: word_less_nat_alt)
  show ?thesis
    by (rule that [of p n]) (use p w needed c in \<open>auto simp: run_simps gov_write_defs gov_read_defs split: if_splits\<close>)
qed

text \<open>
  A guardian is removed only by decision of the others: executing a removal needs the admin, a
  proposal whose votes in favour had reached the threshold, and the timelock elapsed since then; it
  removes exactly the target and closes the proposal. A vote is taken from an authorised guardian
  once, within a week of the proposal, and the threshold of \<open>(n - 1) * 51 / 100 + 1\<close> votes on either
  side starts the timelock or closes the proposal. (The target may vote as well.)
\<close>

theorem guardian_removal_protocol:
  assumes "length (get_guardians s) < 2 ^ 32"
  shows "(execute_guardian_removal e s = Ok () t \<longrightarrow>
      (\<exists>p x. c_PendingGuardianRemoval (conf s) = Some p \<and> get_guardian_removal_passed_at s = Some x \<and>
        unat (get_timelock_duration s) \<le> unat (timestamp e) - unat x \<and>
        get_guardians t = filter (\<lambda>g. g_address g \<noteq> pr_target_guardian p) (get_guardians s) \<and>
        length (get_guardians t) < length (get_guardians s) \<and>
        c_PendingGuardianRemoval (conf t) = None \<and> get_guardian_removal_passed_at t = None)) \<and>
    (vote_on_guardian_removal e voter b s = Ok () t \<longrightarrow>
      voter \<in> authorized e \<and> voter \<in> g_address ` set (get_guardians s) \<and> get_guardians t = get_guardians s \<and>
      (\<exists>p. c_PendingGuardianRemoval (conf s) = Some p \<and> voter \<notin> set (pr_votes_for p) \<union> set (pr_votes_against p) \<and>
        unat (timestamp e) - unat (pr_initiated_at p) \<le> 604800 \<and>
        (\<forall>q x. c_PendingGuardianRemoval (conf t) = Some q \<longrightarrow> q = record_removal_vote voter b p \<and>
           (get_guardian_removal_passed_at s = None \<and> get_guardian_removal_passed_at t = Some x \<longrightarrow>
             x = timestamp e \<and> (length (get_guardians s) - 1) * 51 div 100 < length (pr_votes_for q)))))"
    (is "?exec \<and> ?vote")
proof
  show ?exec
  proof
    assume "execute_guardian_removal e s = Ok () t"
    then obtain p x where p: "c_PendingGuardianRemoval (conf s) = Some p" "get_guardian_removal_passed_at s = Some x"
      "unat (get_timelock_duration s) \<le> unat (timestamp e) - unat x"
      "pr_target_guardian p \<in> g_address ` set (get_guardians s)" and
      c: "conf t = (conf s)\<lparr>c_GuardianSet := Some (filter (\<lambda>g. g_address g \<noteq> pr_target_guardian p) (get_guardians s)),
       c_PendingGuardianRemoval := None, c_PendingGuardianRemovalPassedAt := None\<rparr>"
      by (rule execute_guardian_removal_run)
    have "length (filter (\<lambda>g. g_address g \<noteq> pr_target_guardian p) (get_guardians s)) < length (get_guardians s)"
      using p(4) by (auto intro!: length_filter_less)
    with p c show "\<exists>p x. c_PendingGuardianRemoval (conf s) = Some p \<and> get_guardian_removal_passed_at s = Some x \<and>
        unat (get_timelock_duration s) \<le> unat (timestamp e) - unat x \<and>
        get_guardians t = filter (\<lambda>g. g_address g \<noteq> pr_target_guardian p) (get_guardians s) \<and>
        length (get_guardians t) < length (get_guardians s) \<and>
        c_PendingGuardianRemoval (conf t) = None \<and> get_guardian_removal_passed_at t = None"
      by (auto simp: get_guardians_def gov_read_defs)
  qed
next
  show ?vote
  proof
    assume "vote_on_guardian_removal e voter b s = Ok () t"
    then obtain p n where p: "voter \<in> authorized e" "voter \<in> g_address ` set (get_guardians s)"
      "c_PendingGuardianRemoval (conf s) = Some p" "voter \<notin> set (pr_votes_for p)" "voter \<notin> set (pr_votes_against p)"
      "unat (timestamp e) - unat (pr_initiated_at p) \<le> unat GUARDIAN_REMOVAL_VOTE_WINDOW" and
      n: "unat (n :: u32) = (length (get_guardians s) - 1) * 51 div 100 + 1" and
      c: "conf t = (if n \<le> of_nat (length (pr_votes_against (record_removal_vote voter b p)))
       then (conf s)\<lparr>c_PendingGuardianRemoval := None, c_PendingGuardianRemovalPassedAt := None\<rparr>
       else (conf s)\<lparr>c_PendingGuardianRemoval := Some (record_removal_vote voter b p),
         c_PendingGuardianRemovalPassedAt :=
           (if n \<le> of_nat (length (pr_votes_for (record_removal_vote voter b p))) \<and>
               get_guardian_removal_passed_at s = None
            then Some (timestamp e) else get_guardian_removal_passed_at s)\<rparr>)"
      using assms by (rule vote_on_guardian_removal_run)
    have le: "(length (get_guardians s) - 1) * 51 div 100 < m" if "n \<le> of_nat m" for m
    proof -
      have "unat (of_nat m :: u32) \<le> m" by (simp add: unat_of_nat mod_less_eq_dividend)
      moreover have "unat n \<le> unat (of_nat m :: u32)" using that by (simp only: word_le_nat_alt)
      ultimately show ?thesis using n by linarith
    qed
    have gs: "get_guardians t = get_guardians s" using c by (simp add: get_guardians_def)
    show "voter \<in> authorized e \<and> voter \<in> g_address ` set (get_guardians s) \<and> get_guardians t = get_guardians s \<and>
      (\<exists>p. c_PendingGuardianRemoval (conf s) = Some p \<and> voter \<notin> set (pr_votes_for p) \<union> set (pr_votes_against p) \<and>
        unat (timestamp e) - unat (pr_initiated_at p) \<le> 604800 \<and>
        (\<forall>q x. c_PendingGuardianRemoval (conf t) = Some q \<longrightarrow> q = record_removal_vote voter b p \<and>
           (get_guardian_removal_passed_at s = None \<and> get_guardian_removal_passed_at t = Some x \<longrightarrow>
             x = timestamp e \<and> (length (get_guardians s) - 1) * 51 div 100 < length (pr_votes_for q))))"
      using p c le gs by (auto simp: gov_read_defs GUARDIAN_REMOVAL_VOTE_WINDOW_def split: if_splits)
  qed
qed

theorem guardian_removal_protocol_witness:
  "let s = upd_conf (\<lambda>c. c\<lparr>c_PendingGuardianRemoval := Some \<lparr>pr_target_guardian = Addr 12, pr_initiated_at = 10,
         pr_votes_for = [Addr 11], pr_votes_against = []\<rparr>, c_PendingGuardianRemovalPassedAt := Some 20\<rparr>)
       (upgrade_sample [])
   in \<exists>t. execute_guardian_removal (sample_ctx 200000 {Addr 1}) s = Ok () t \<and>
        get_guardians t = [\<lparr>g_address = Addr 11, g_voting_power = 1\<rparr>]"
proof -
  let ?s = "upd_conf (\<lambda>c. c\<lparr>c_PendingGuardianRemoval := Some \<lparr>pr_target_guardian = Addr 12, pr_initiated_at = 10,
         pr_votes_for = [Addr 11], pr_votes_against = []\<rparr>, c_PendingGuardianRemovalPassedAt := Some 20\<rparr>)
       (upgrade_sample [])"
  have g: "get_guardians ?s = [\<lparr>g_address = Addr 11, g_voting_power = 1\<rparr>, \<lparr>g_address = Addr 12, g_voting_power = 1\<rparr>]"
    by (simp add: get_guardians_def upgrade_sample_def)
  obtain t where t: "execute_guardian_removal (sample_ctx 200000 {Addr 1}) ?s = Ok () t"
    by (simp add: execute_guardian_removal_def gov_read_defs gov_write_defs get_guardians_def is_guardian_def
        saturating_sub_u64_def TIMELOCK_DURATION_def bump_gov_ttl_def TTL_LOW_THRESHOLD_def TTL_HIGH_THRESHOLD_def
        upgrade_sample_def sample_defs run_eval)
  have p: "c_PendingGuardianRemoval (conf ?s) = Some \<lparr>pr_target_guardian = Addr 12, pr_initiated_at = 10,
         pr_votes_for = [Addr 11], pr_votes_against = []\<rparr>" by simp
  have "length (get_guardians ?s) < 2 ^ 32" unfolding g by simp
  from guardian_removal_protocol [OF this, of "sample_ctx 200000 {Addr 1}" t] t p
  have "get_guardians t = filter (\<lambda>g. g_address g \<noteq> Addr 12) (get_guardians ?s)" by auto
  then show ?thesis using t unfolding Let_def g by auto
qed

section \<open>The governance invariant\<close>

text \<open>
  Votes are never duplicated, the timelock stays within its bounds, and (because rejections are rolled
  back) no rejection is ever on record.
\<close>

definition gov_conf_ok :: "config_store \<Rightarrow> bool" where
  "gov_conf_ok c \<longleftrightarrow>
     (case c_PendingUpgrade c of None \<Rightarrow> True | Some p \<Rightarrow> valid_ballot (pu_votes_for p) (pu_votes_against p)) \<and>
     (case c_PendingGuardianRemoval c of None \<Rightarrow> True | Some p \<Rightarrow> valid_ballot (pr_votes_for p) (pr_votes_against p)) \<and>
     (case c_PendingEmergencyPause c of None \<Rightarrow> True | Some v \<Rightarrow> distinct v) \<and>
     (case c_TimelockDuration c of None \<Rightarrow> True | Some d \<Rightarrow> TIMELOCK_MIN_SECONDS \<le> d \<and> d \<le> TIMELOCK_MAX_SECONDS) \<and>
     c_UpgradeRejectedAt c = Map.empty"

definition gov_inv :: "'w st \<Rightarrow> bool" where
  "gov_inv s \<longleftrightarrow> gov_conf_ok (conf s)"

definition gov_fields where
  "gov_fields c = (c_PendingUpgrade c, c_PendingGuardianRemoval c, c_PendingEmergencyPause c,
     c_TimelockDuration c, c_UpgradeRejectedAt c)"

lemma gov_inv_fields: "gov_fields (conf t) = gov_fields (conf s) \<Longrightarrow> gov_inv s \<Longrightarrow> gov_inv t"
  by (simp add: gov_inv_def gov_conf_ok_def gov_fields_def)

lemma set_guardians_fields: "set_guardians e gs s = Ok r t \<Longrightarrow> gov_fields (conf t) = gov_fields (conf s)"
  by (auto simp: set_guardians_def run_simps gov_fields_def)

lemma initialize_guardians_inv: "gov_inv s \<Longrightarrow> initialize_guardians e gs s = Ok r t \<Longrightarrow> gov_inv t"
  by (rule gov_inv_fields [of t s])
     (auto simp: initialize_guardians_def set_guardians_def run_simps gov_fields_def)

lemma add_guardian_inv: "gov_inv s \<Longrightarrow> add_guardian e g s = Ok r t \<Longrightarrow> gov_inv t"
  by (rule gov_inv_fields [of t s]) (auto simp: add_guardian_def set_guardians_def run_simps gov_fields_def)

lemma remove_guardian_inv: "gov_inv s \<Longrightarrow> remove_guardian e a s = Ok r t \<Longrightarrow> gov_inv t"
  by (auto simp: remove_guardian_def gov_write_defs run_simps gov_inv_def gov_conf_ok_def valid_ballot_def)

lemma vote_on_guardian_removal_inv:
  assumes "gov_inv s" and "vote_on_guardian_removal e voter b s = Ok r t"
  shows "gov_inv t"
proof -
  from assms(2) obtain p where p: "c_PendingGuardianRemoval (conf s) = Some p"
    "voter \<notin> set (pr_votes_for p)" "voter \<notin> set (pr_votes_against p)" and
    c: "gov_fields (conf t) = gov_fields ((conf s)\<lparr>c_PendingGuardianRemoval := None\<rparr>) \<or>
        gov_fields (conf t) = gov_fields ((conf s)\<lparr>c_PendingGuardianRemoval := Some (record_removal_vote voter b p)\<rparr>)"
    by (auto simp: vote_on_guardian_removal_def removal_votes_needed_def Let_def run_simps gov_write_defs gov_fields_def
        split: if_splits)
  have "valid_ballot (pr_votes_for (record_removal_vote voter b p)) (pr_votes_against (record_removal_vote voter b p))"
    using assms(1) p by (intro removal_ballot.record_valid) (auto simp: gov_inv_def gov_conf_ok_def)
  then show ?thesis using assms(1) c by (auto simp: gov_inv_def gov_conf_ok_def gov_fields_def)
qed

lemma execute_guardian_removal_inv: "gov_inv s \<Longrightarrow> execute_guardian_removal e s = Ok r t \<Longrightarrow> gov_inv t"
  by (erule execute_guardian_removal_run) (simp add: gov_inv_def gov_conf_ok_def)

lemma initiate_upgrade_inv: "gov_inv s \<Longrightarrow> initiate_upgrade e h s = Ok r t \<Longrightarrow> gov_inv t"
  by (auto simp: initiate_upgrade_def require_no_upgrade_collision_def gov_write_defs run_simps emit_defs
      gov_inv_def gov_conf_ok_def valid_ballot_def)

lemma vote_for_upgrade_inv:
  assumes "gov_inv s" and "vote_for_upgrade e voter b s = Ok r t"
  shows "gov_inv t"
proof -
  obtain p where p: "get_pending_upgrade s = Some p" "voter \<notin> set (pu_votes_for p)" "voter \<notin> set (pu_votes_against p)" and
    c: "gov_fields (conf t) = gov_fields ((conf s)\<lparr>c_PendingUpgrade := Some (record_upgrade_vote voter b p)\<rparr>)"
    using assms(2) by (rule vote_for_upgrade_run) (simp add: gov_fields_def)
  have "valid_ballot (pu_votes_for (record_upgrade_vote voter b p)) (pu_votes_against (record_upgrade_vote voter b p))"
    using assms(1) p by (intro upgrade_ballot.record_valid) (auto simp: gov_inv_def gov_conf_ok_def get_pending_upgrade_def)
  then show ?thesis using assms(1) c by (auto simp: gov_inv_def gov_conf_ok_def gov_fields_def)
qed

lemma execute_upgrade_inv: "gov_inv s \<Longrightarrow> execute_upgrade e s = Ok r t \<Longrightarrow> gov_inv t"
  by (erule execute_upgrade_run) (simp add: gov_inv_def gov_conf_ok_def)

lemma set_timelock_duration_inv: "gov_inv s \<Longrightarrow> set_timelock_duration e x s = Ok r t \<Longrightarrow> gov_inv t"
  by (auto simp: set_timelock_duration_def run_simps gov_inv_def gov_conf_ok_def not_less)

lemma emergency_tally_pure: "emergency_tally gs vs x y s = Ok r t \<Longrightarrow> t = s"
  by (induction gs vs x y arbitrary: s rule: emergency_tally.induct) (auto simp: run_simps split: if_splits)

lemma emergency_pause_inv:
  assumes "gov_inv s" and "emergency_pause e voter s = Ok r t"
  shows "gov_inv t"
proof -
  let ?v = "case c_PendingEmergencyPause (conf s) of None \<Rightarrow> [] | Some v \<Rightarrow> v"
  from assms(2) have "voter \<notin> set ?v" and
    c: "gov_fields (conf t) = gov_fields ((conf s)\<lparr>c_PendingEmergencyPause := None\<rparr>) \<or>
        gov_fields (conf t) = gov_fields ((conf s)\<lparr>c_PendingEmergencyPause := Some (?v @ [voter])\<rparr>)"
    by (auto simp: emergency_pause_def run_simps gov_fields_def force_pause_def set_state_internal_def emit_defs
        split: prod.splits if_splits dest!: emergency_tally_pure)
  moreover have "distinct ?v" using assms(1) by (auto simp: gov_inv_def gov_conf_ok_def split: option.splits)
  ultimately show ?thesis using assms(1) by (auto simp: gov_inv_def gov_conf_ok_def gov_fields_def)
qed

end
