(* ===== verification/Queries.thy ===== *)
theory Queries
  imports Governance
begin

text \<open>
  \<^verbatim>\<open>queries.rs\<close>: the paginated listings of markets, of markets by status (through the status index) and
  of guardians; and the invariant of the market store on which the index lookup relies.
\<close>

section \<open>Operations\<close>

definition get_markets :: "u32 \<Rightarrow> u32 \<Rightarrow> ('w, Market list) contract" where
  "get_markets offset limit =
     (let limit = min limit MAX_PAGE_LIMIT in
     bnd (reads get_market_count) (\<lambda>count.
     let start = min (ucast offset) count in
     bnd (add_word start (ucast limit)) (\<lambda>x.
     let stop = min x count in
     bnd (add_word start 1) (\<lambda>first.
     reads (\<lambda>s. List.map_filter (get_market s) (range_incl first stop))))))"

text \<open>
  The loop of the listing by status, over the ids that are left: index entries before the offset are
  skipped, then market records are collected until the limit is reached.
\<close>

fun status_scan :: "'w st \<Rightarrow> MarketStatus \<Rightarrow> u32 \<Rightarrow> u32 \<Rightarrow> u64 list \<Rightarrow> u32 \<Rightarrow> u32 \<Rightarrow> Market list" where
  "status_scan s status offset limit [] skipped_count found_count = []"
| "status_scan s status offset limit (i # is) skipped_count found_count =
     (if has_status_index s i status
      then if skipped_count < offset
           then status_scan s status offset limit is (skipped_count + 1) found_count
           else (case get_market s i of
                   None \<Rightarrow> status_scan s status offset limit is skipped_count found_count
                 | Some market \<Rightarrow>
                     if limit \<le> found_count + 1 then [market]
                     else market # status_scan s status offset limit is skipped_count (found_count + 1))
      else status_scan s status offset limit is skipped_count found_count)"

definition get_markets_by_status :: "'w st \<Rightarrow> MarketStatus \<Rightarrow> u32 \<Rightarrow> u32 \<Rightarrow> Market list" where
  "get_markets_by_status s status offset limit =
     status_scan s status offset (min limit MAX_PAGE_LIMIT) (rev (range_incl 1 (get_market_count s))) 0 0"

definition get_guardians_paginated :: "u32 \<Rightarrow> u32 \<Rightarrow> ('w, Guardian list) contract" where
  "get_guardians_paginated offset limit =
     (let limit = min limit MAX_PAGE_LIMIT in
     bnd (reads get_guardians) (\<lambda>all_guardians.
     let len = of_nat (length all_guardians); start = min offset len in
     bnd (add_word start limit) (\<lambda>x.
     let stop = min x len in
     ret (List.map_filter (nth_opt all_guardians) [unat start ..< unat stop]))))"

section \<open>Markets by number\<close>

definition market_ids :: "'w st \<Rightarrow> u64 list" where
  "market_ids s = range_incl 1 (get_market_count s)"

definition market_page :: "'w st \<Rightarrow> u32 \<Rightarrow> u32 \<Rightarrow> Market list" where
  "market_page s offset limit =
     (case get_markets offset limit s of Ok r _ \<Rightarrow> r | Err _ _ \<Rightarrow> [] | Trap \<Rightarrow> [])"

lemma unat_min: "unat (min a b) = min (unat a) (unat b)"
  by (simp add: min_def word_le_nat_alt)

lemma get_markets_eq:
  "get_markets offset limit s = Ok (List.map_filter (get_market s)
     (take (min (unat limit) 100) (drop (unat offset) (market_ids s)))) s"
proof -
  note w = range_window [of _ offset "get_market_count s" "min limit MAX_PAGE_LIMIT", OF refl]
  have "unat (min limit MAX_PAGE_LIMIT) = min (unat limit) 100" by (simp add: unat_min MAX_PAGE_LIMIT_def)
  with w show ?thesis
    by (simp add: get_markets_def bnd_def reads_def add_word_def Let_def market_ids_def)
qed

interpretation market_pages: paged_listing "market_page s" "market_ids s" "get_market s" 100 for s
  by unfold_locales (simp add: market_page_def get_markets_eq)

section \<open>Guardians\<close>

lemma map_filter_window:
  "b \<le> length xs \<Longrightarrow> List.map_filter (nth_opt xs) [a ..< b] = take (b - a) (drop a xs)"
proof (induction b)
  case (Suc b)
  then have b: "b < length xs" by simp
  show ?case
  proof (cases "a \<le> b")
    case True
    then have "take (Suc b - a) (drop a xs) = take (b - a) (drop a xs) @ [xs ! b]"
      using b by (simp add: Suc_diff_le take_Suc_conv_app_nth)
    then show ?thesis using True Suc b by (simp add: map_filter_append List.map_filter_simps nth_opt_def)
  qed (simp add: List.map_filter_simps)
qed (simp add: List.map_filter_simps)

lemma get_guardians_paginated_eq:
  assumes "length (get_guardians s) + 100 < 2 ^ 32"
  shows "get_guardians_paginated offset limit s
    = Ok (take (min (unat limit) 100) (drop (unat offset) (get_guardians s))) s"
proof -
  let ?gs = "get_guardians s" and ?lim = "min limit MAX_PAGE_LIMIT"
  let ?len = "of_nat (length ?gs) :: u32"
  let ?start = "min offset ?len"
  have lim: "unat ?lim = min (unat limit) 100" by (simp add: unat_min MAX_PAGE_LIMIT_def)
  have len: "unat ?len = length ?gs" using assms by (simp add: unat_of_nat_u32)
  have start: "unat ?start = min (unat offset) (length ?gs)" by (simp add: unat_min len)
  have no: "unat ?start + unat ?lim < 2 ^ 32" using assms start lim by simp
  then have "unat (?start + ?lim) = unat ?start + unat ?lim" by (intro unat_add_no_overflow) simp
  then have "unat (?start + ?lim) = min (unat offset) (length ?gs) + min (unat limit) 100"
    by (simp only: start lim)
  then have stop: "unat (min (?start + ?lim) ?len) = min (min (unat offset) (length ?gs) + min (unat limit) 100) (length ?gs)"
    by (simp only: unat_min [of "?start + ?lim"] len)
  have "List.map_filter (nth_opt ?gs) [unat ?start ..< unat (min (?start + ?lim) ?len)]
      = take (min (unat limit) 100) (drop (unat offset) ?gs)"
    unfolding stop start by (subst map_filter_window) (auto simp: min_def)
  then show ?thesis using no
    by (simp add: get_guardians_paginated_def bnd_def reads_def ret_def add_word_def Let_def)
qed

section \<open>Markets by status\<close>

text \<open>
  The invariant of the market store: records carry their number, numbers run from 1 to the market
  count, and the index has an entry for a number and a status exactly when that market has that status.
\<close>

definition store_ok :: "'w st \<Rightarrow> bool" where
  "store_ok s \<longleftrightarrow>
     (\<forall>i m. get_market s i = Some m \<longrightarrow> m_id m = i \<and> 1 \<le> i \<and> i \<le> get_market_count s) \<and>
     (\<forall>i st. has_status_index s i st \<longleftrightarrow> (\<exists>m. get_market s i = Some m \<and> m_status m = st))"

text \<open>The specification: all markets of that status, newest first.\<close>

definition markets_with_status :: "'w st \<Rightarrow> MarketStatus \<Rightarrow> Market list" where
  "markets_with_status s status =
     filter (\<lambda>m. m_status m = status) (List.map_filter (get_market s) (rev (market_ids s)))"

lemma status_scan_eq:
  assumes "store_ok s" and "skipped \<le> offset" and "found < lim \<or> (found = 0 \<and> lim = 0)" and "lim \<le> 100"
  shows "status_scan s st offset lim is skipped found = take (max 1 (unat lim) - unat found)
     (drop (unat offset - unat skipped)
       (filter (\<lambda>m. m_status m = st) (List.map_filter (get_market s) is)))"
  using assms(2,3)
proof (induction "is" arbitrary: skipped found)
  case (Cons i "is")
  have idx: "has_status_index s i st \<longleftrightarrow> (\<exists>m. get_market s i = Some m \<and> m_status m = st)"
    using assms(1) by (simp add: store_ok_def)
  show ?case
  proof (cases "has_status_index s i st")
    case False
    then show ?thesis using Cons idx
      by (cases "get_market s i") (auto simp: List.map_filter_simps)
  next
    case True
    then obtain m where m: "get_market s i = Some m" "m_status m = st" using idx by blast
    have eq: "filter (\<lambda>m. m_status m = st) (List.map_filter (get_market s) (i # is))
        = m # filter (\<lambda>m. m_status m = st) (List.map_filter (get_market s) is)"
      using m by (simp add: List.map_filter_simps)
    show ?thesis
    proof (cases "skipped < offset")
      case True
      then have lt: "unat skipped < unat offset" by (simp add: word_less_nat_alt)
      then have u: "unat (skipped + 1) = Suc (unat skipped)"
        using unat_u32_bound [of offset] unat_add_no_overflow [of skipped 1] by simp
      then have "skipped + 1 \<le> offset" using lt by (simp add: word_le_nat_alt)
      moreover have "unat offset - unat skipped = Suc (unat offset - unat (skipped + 1))" using u lt by simp
      ultimately show ?thesis using Cons.IH [of "skipped + 1" found] Cons.prems(2) True \<open>has_status_index s i st\<close>
        unfolding eq by simp
    next
      case False
      then have sk: "skipped = offset" using Cons.prems(1) by simp
      have "unat found < 100" using Cons.prems(2) assms(4) by (auto simp: word_less_nat_alt word_le_nat_alt)
      then have u: "unat (found + 1) = Suc (unat found)" using unat_add_no_overflow [of found 1] by simp
      show ?thesis
      proof (cases "lim \<le> found + 1")
        case True
        then have "max 1 (unat lim) - unat found = 1"
          using Cons.prems(2) u by (auto simp: word_le_nat_alt word_less_nat_alt)
        then show ?thesis using True m sk \<open>has_status_index s i st\<close> unfolding eq by simp
      next
        case False
        then have "found + 1 < lim" by simp
        moreover from this have "max 1 (unat lim) - unat found = Suc (max 1 (unat lim) - unat (found + 1))"
          using u by (auto simp: word_less_nat_alt)
        ultimately show ?thesis
          using Cons.IH [of skipped "found + 1"] False m sk \<open>has_status_index s i st\<close> unfolding eq by simp
      qed
    qed
  qed
qed (simp add: List.map_filter_simps)

text \<open>
  C22. The status index is a faithful shortcut: when the store invariant holds (it does in every
  reachable state), listing by status through the index returns exactly the requested window of the
  list of all markets with that status, newest first, as a scan of all records would; for a limit of
  zero it returns one market instead of none.
\<close>

theorem status_listing_exact:
  assumes "store_ok s"
  shows "get_markets_by_status s status offset limit =
    take (max 1 (min (unat limit) 100)) (drop (unat offset) (markets_with_status s status))"
proof -
  let ?lim = "min limit MAX_PAGE_LIMIT"
  have lim: "unat ?lim = min (unat limit) 100" by (simp add: unat_min MAX_PAGE_LIMIT_def)
  have "(0 :: u32) < ?lim \<or> ((0 :: u32) = 0 \<and> ?lim = 0)" by (metis word_gt_0)
  moreover have "?lim \<le> 100" by (simp add: MAX_PAGE_LIMIT_def)
  ultimately show ?thesis
    using status_scan_eq [OF assms, of 0 offset 0 ?lim status "rev (market_ids s)"] lim
    by (simp add: get_markets_by_status_def markets_with_status_def market_ids_def)
qed

lemma one_market_sel:
  "get_market (with_market sample_market sample_st) i = (if i = 1 then Some sample_market else None)"
  "has_status_index (with_market sample_market sample_st) i st \<longleftrightarrow> i = 1 \<and> st = Active"
  "get_market_count (with_market sample_market sample_st) = 1"
  by (auto simp: get_market_def has_status_index_def get_market_count_def sample_defs)

lemma store_ok_sample: "store_ok (with_market sample_market sample_st)"
proof -
  have "m_id sample_market = 1" "m_status sample_market = Active" by (simp_all add: sample_market_def)
  then show ?thesis by (auto simp: store_ok_def one_market_sel split: if_splits)
qed

lemma one_market_ids: "market_ids (with_market sample_market sample_st) = [1]"
  by (simp add: market_ids_def one_market_sel range_incl_def)

theorem status_listing_exact_witness:
  "store_ok (with_market sample_market sample_st) \<and>
   get_markets_by_status (with_market sample_market sample_st) Active 0 0 = [sample_market]"
proof -
  let ?s = "with_market sample_market sample_st"
  have "m_status sample_market = Active" by (simp add: sample_market_def)
  then have "markets_with_status ?s Active = [sample_market]"
    by (simp add: markets_with_status_def one_market_ids one_market_sel List.map_filter_simps)
  then show ?thesis using store_ok_sample status_listing_exact [OF store_ok_sample, of Active 0 0] by simp
qed

text \<open>
  Pages of markets: the listing never fails, changes nothing and returns the records of the
  numbers in the requested window, at most 100 of them; walking the pages from the start visits every
  market that still exists exactly once, in order of creation. Guardian pages are windows of the
  guardian list in the same way.
\<close>

theorem market_pages_complete:
  assumes "unat limit \<le> 100" and "n * unat limit < 2 ^ 32" and "unat (get_market_count s) \<le> n * unat limit"
  shows "walk (market_page s) 0 limit n = List.map_filter (get_market s) (market_ids s) \<and>
    (\<forall>offset l. \<exists>page. get_markets offset l s = Ok page s \<and> length page \<le> min (unat l) 100) \<and>
    (length (get_guardians s) + 100 < 2 ^ 32 \<longrightarrow> (\<forall>offset l. get_guardians_paginated offset l s =
       Ok (take (min (unat l) 100) (drop (unat offset) (get_guardians s))) s))"
proof -
  have "length (market_ids s) = unat (get_market_count s)" by (simp add: market_ids_def range_incl_def del: upt_Suc)
  then have "walk (market_page s) 0 limit n = List.map_filter (get_market s) (market_ids s)"
    using assms by (intro market_pages.walk_complete) auto
  moreover have "\<exists>page. get_markets offset l s = Ok page s \<and> length page \<le> min (unat l) 100" for offset l
    using market_pages.page_length [of s offset l] by (simp add: market_page_def get_markets_eq)
  ultimately show ?thesis using get_guardians_paginated_eq [of s] by blast
qed

theorem market_pages_complete_witness:
  "walk (market_page (with_market sample_market sample_st)) 0 10 1 = [sample_market]"
proof -
  let ?s = "with_market sample_market sample_st"
  have "List.map_filter (get_market ?s) (market_ids ?s) = [sample_market]"
    by (simp add: one_market_ids one_market_sel List.map_filter_simps)
  then show ?thesis using market_pages_complete [of 10 1 ?s] by (simp add: one_market_sel)
qed

end
