(* ===== verification/Migration.thy ===== *)
theory Migration
  imports Queries
begin

text \<open>
  \<^verbatim>\<open>migration.rs\<close>: storage migrations with a snapshot of the admin and the guardian set, their validation
  and log, the reversal, and the two checks of stake conservation. The migration itself is an argument.
\<close>

section \<open>Operations\<close>

definition set_backup :: "'w ctx \<Rightarrow> u32 \<Rightarrow> MigrationBackup \<Rightarrow> ('w, unit) contract" where
  "set_backup e version b = p_set e (PMigration (K_MigrationBackup version))
     (upd_migs (\<lambda>k. k\<lparr>s_backup := (s_backup k)(version \<mapsto> b)\<rparr>))"

definition remove_backup :: "u32 \<Rightarrow> ('w, unit) contract" where
  "remove_backup version = p_remove (PMigration (K_MigrationBackup version))
     (upd_migs (\<lambda>k. k\<lparr>s_backup := (s_backup k)(version := None)\<rparr>))"

definition backup_storage_state :: "'w ctx \<Rightarrow> u32 \<Rightarrow> ('w, unit) contract" where
  "backup_storage_state e version =
     bnd (reads (\<lambda>s. \<lparr>mb_admin = c_Admin (conf s), mb_guardian_set = c_GuardianSet (conf s)\<rparr>)) (\<lambda>backup.
     set_backup e version backup)"

definition restore_storage_state :: "'w ctx \<Rightarrow> u32 \<Rightarrow> ('w, unit) contract" where
  "restore_storage_state e version =
     bnd (reads (\<lambda>s. s_backup (migs s) version)) (\<lambda>b.
     bnd (ok_or b NotAuthorized) (\<lambda>backup.
     thn (case mb_admin backup of
            Some admin \<Rightarrow> p_set e (PConfig K_Admin) (upd_conf (\<lambda>c. c\<lparr>c_Admin := Some admin\<rparr>))
          | None \<Rightarrow> p_remove (PConfig K_Admin) (upd_conf (\<lambda>c. c\<lparr>c_Admin := None\<rparr>)))
     (thn (case mb_guardian_set backup of
            Some guardians \<Rightarrow> p_set e (PConfig K_GuardianSet) (upd_conf (\<lambda>c. c\<lparr>c_GuardianSet := Some guardians\<rparr>))
          | None \<Rightarrow> p_remove (PConfig K_GuardianSet) (upd_conf (\<lambda>c. c\<lparr>c_GuardianSet := None\<rparr>)))
     (remove_backup version))))"

definition record_migration :: "'w ctx \<Rightarrow> u32 \<Rightarrow> u32 \<Rightarrow> ('w, unit) contract" where
  "record_migration e from_version to_version = p_set e (PMigration (K_MigrationLog to_version))
     (upd_migs (\<lambda>k. k\<lparr>s_log := (s_log k)(to_version \<mapsto> \<lparr>ml_from_version = from_version,
        ml_to_version = to_version, ml_timestamp = timestamp e\<rparr>)\<rparr>))"

definition get_migration_log :: "'w st \<Rightarrow> u32 \<Rightarrow> MigrationLogEntry option" where
  "get_migration_log s to_version = s_log (migs s) to_version"

definition verify_migration_integrity :: "'w st \<Rightarrow> bool" where
  "verify_migration_integrity s =
     list_all (\<lambda>key. has_key (PConfig key) s) [K_Admin, K_GuardianSet]"

text \<open>The migration's own result is matched on, so its error does not end the call.\<close>

definition execute_migration ::
  "'w ctx \<Rightarrow> u32 \<Rightarrow> u32 \<Rightarrow> ('w, unit) contract \<Rightarrow> ('w, unit) contract" where
  "execute_migration e from_version to_version migration_fn =
     thn (err_if (to_version \<le> from_version) NotAuthorized)
     (thn (backup_storage_state e from_version)
     (\<lambda>s. case migration_fn s of
        Ok _ t \<Rightarrow>
          bnd (reads verify_migration_integrity) (\<lambda>valid.
          if \<not> valid
          then thn (restore_storage_state e from_version) (fail MigrationValidationError)
          else thn (record_migration e from_version to_version) (remove_backup from_version)) t
      | Err err t \<Rightarrow> thn (restore_storage_state e from_version) (fail err) t
      | Trap \<Rightarrow> Trap))"

fun stake_loop :: "(u32, i128) omap \<Rightarrow> nat list \<Rightarrow> i128 \<Rightarrow> ('w, i128) contract" where
  "stake_loop stakes [] acc = ret acc"
| "stake_loop stakes (outcome_idx # is) acc =
     (case omap_get stakes (of_nat outcome_idx) of
        None \<Rightarrow> stake_loop stakes is acc
      | Some stake \<Rightarrow>
          bnd (ok_or (checked_add_i128 acc stake) ArithmeticOverflow) (\<lambda>acc'. stake_loop stakes is acc'))"

definition validate_stake_invariant :: "u64 \<Rightarrow> ('w, bool) contract" where
  "validate_stake_invariant market_id =
     bnd (reads (\<lambda>s. get_market s market_id)) (\<lambda>found.
     bnd (ok_or found MarketNotFound) (\<lambda>market.
     bnd (stake_loop (m_outcome_stakes market) [0..<length (m_outcome_stakes market)] 0) (\<lambda>sum_outcome_stakes.
     ret (m_total_staked market = sum_outcome_stakes))))"

fun validate_loop :: "u64 list \<Rightarrow> ('w, bool) contract" where
  "validate_loop [] = ret True"
| "validate_loop (i # is) =
     bnd (reads (\<lambda>s. get_market s i)) (\<lambda>found.
     bnd (if found \<noteq> None then validate_stake_invariant i else ret True) (\<lambda>fine.
     if \<not> fine then ret False
     else bnd (add_word i 1) (\<lambda>_. validate_loop is)))"

definition validate_all_markets_stake_invariant :: "u64 \<Rightarrow> ('w, bool) contract" where
  "validate_all_markets_stake_invariant market_count = validate_loop (range_incl 1 market_count)"

definition remove_log :: "u32 \<Rightarrow> ('w, unit) contract" where
  "remove_log version = p_remove (PMigration (K_MigrationLog version))
     (upd_migs (\<lambda>k. k\<lparr>s_log := (s_log k)(version := None)\<rparr>))"

definition reverse_migration :: "'w ctx \<Rightarrow> u32 \<Rightarrow> u32 \<Rightarrow> ('w, unit) contract" where
  "reverse_migration e from_version to_version =
     thn (err_if (to_version \<le> from_version) NotAuthorized)
     (thn (restore_storage_state e from_version)
     (remove_log to_version))"

section \<open>Rollback\<close>

lemma restore_storage_state_run:
  assumes "s_backup (migs s) v = Some b"
  shows "\<exists>t. restore_storage_state e v s = Ok () t \<and>
    conf t = (conf s)\<lparr>c_Admin := mb_admin b, c_GuardianSet := mb_guardian_set b\<rparr> \<and>
    migs t = (migs s)\<lparr>s_backup := (s_backup (migs s))(v := None)\<rparr> \<and> mkts t = mkts s"
  using assms
  by (cases "mb_admin b"; cases "mb_guardian_set b")
     (simp_all add: restore_storage_state_def remove_backup_def run_eval)

lemma backup_storage_state_run:
  "\<exists>t. backup_storage_state e v s = Ok () t \<and> conf t = conf s \<and> mkts t = mkts s \<and>
    migs t = (migs s)\<lparr>s_backup := (s_backup (migs s))(v \<mapsto> \<lparr>mb_admin = c_Admin (conf s), mb_guardian_set = c_GuardianSet (conf s)\<rparr>)\<rparr>"
  by (simp add: backup_storage_state_def set_backup_def run_eval)

lemma execute_migration_start:
  assumes "from_version < to_version"
  obtains u where "conf u = conf s"
    and "s_backup (migs u) from_version = Some \<lparr>mb_admin = c_Admin (conf s), mb_guardian_set = c_GuardianSet (conf s)\<rparr>"
    and "s_log (migs u) = s_log (migs s)"
    and "execute_migration e from_version to_version migration_fn s =
     (case migration_fn u of
        Ok _ t \<Rightarrow>
          bnd (reads verify_migration_integrity) (\<lambda>valid.
          if \<not> valid
          then thn (restore_storage_state e from_version) (fail MigrationValidationError)
          else thn (record_migration e from_version to_version) (remove_backup from_version)) t
      | Err err t \<Rightarrow> thn (restore_storage_state e from_version) (fail err) t
      | Trap \<Rightarrow> Trap)"
proof -
  obtain u where u: "backup_storage_state e from_version s = Ok () u" "conf u = conf s"
    "migs u = (migs s)\<lparr>s_backup := (s_backup (migs s))(from_version \<mapsto> \<lparr>mb_admin = c_Admin (conf s), mb_guardian_set = c_GuardianSet (conf s)\<rparr>)\<rparr>"
    using backup_storage_state_run by blast
  have "\<not> to_version \<le> from_version" using assms by simp
  then show ?thesis
    by (intro that [of u]) (use u in \<open>simp_all add: execute_migration_def thn_def bnd_def err_if_def\<close>)
qed

text \<open>
  A failed migration restores what it promises to: when the migration function reports an error,
  or leaves no admin or guardian set behind, the admin and the guardian set end up as they were before
  the call, whatever the function did to them, the snapshot is gone and nothing is logged, provided
  the function does not write the migration entries themselves.
\<close>

theorem failed_migration_restores:
  assumes "execute_migration e from_version to_version migration_fn s = Err c t"
    and "from_version < to_version"
    and "\<And>u. migs (final u (migration_fn u)) = migs u"
  shows "c_Admin (conf t) = c_Admin (conf s) \<and> c_GuardianSet (conf t) = c_GuardianSet (conf s) \<and>
    s_backup (migs t) from_version = None \<and> s_log (migs t) = s_log (migs s)"
proof -
  let ?b = "\<lparr>mb_admin = c_Admin (conf s), mb_guardian_set = c_GuardianSet (conf s)\<rparr>"
  obtain u where u: "s_backup (migs u) from_version = Some ?b" "s_log (migs u) = s_log (migs s)" and
    run: "execute_migration e from_version to_version migration_fn s =
     (case migration_fn u of
        Ok _ t \<Rightarrow>
          bnd (reads verify_migration_integrity) (\<lambda>valid.
          if \<not> valid
          then thn (restore_storage_state e from_version) (fail MigrationValidationError)
          else thn (record_migration e from_version to_version) (remove_backup from_version)) t
      | Err err t \<Rightarrow> thn (restore_storage_state e from_version) (fail err) t
      | Trap \<Rightarrow> Trap)"
    by (rule execute_migration_start [OF assms(2)])
  have restored: "c_Admin (conf t) = c_Admin (conf s) \<and> c_GuardianSet (conf t) = c_GuardianSet (conf s) \<and>
    s_backup (migs t) from_version = None \<and> s_log (migs t) = s_log (migs s)"
    if "migs v = migs u" and "thn (restore_storage_state e from_version) (fail c') v = Err c t" for v c'
    using restore_storage_state_run [of v from_version ?b e] that u by (auto simp: thn_def bnd_def fail_def)
  show ?thesis
  proof (cases "migration_fn u")
    case (Ok x v)
    have "migs v = migs u" using assms(3) [of u] Ok by (simp add: final_def)
    moreover have "\<not> verify_migration_integrity v"
    proof
      assume "verify_migration_integrity v"
      then show False using assms(1) run Ok by (simp add: record_migration_def remove_backup_def run_eval)
    qed
    ultimately show ?thesis using restored assms(1) run Ok by (simp add: bnd_def reads_def)
  next
    case (Err c' v)
    have "migs v = migs u" using assms(3) [of u] Err by (simp add: final_def)
    then show ?thesis using restored assms(1) run Err by simp
  next
    case Trap
    then show ?thesis using assms(1) run by simp
  qed
qed

theorem failed_migration_restores_witness:
  "let f = thn (modify (upd_conf (\<lambda>c. c\<lparr>c_Admin := Some (Addr 99)\<rparr>))) (fail InvalidAmount)
   in \<exists>t. execute_migration (sample_ctx 5 {}) 1 2 f sample_st = Err InvalidAmount t \<and>
        c_Admin (conf t) = Some (Addr 1)"
proof -
  let ?f = "thn (modify (upd_conf (\<lambda>c. c\<lparr>c_Admin := Some (Addr 99)\<rparr>))) (fail InvalidAmount) :: (balances, unit) contract"
  obtain t where t: "execute_migration (sample_ctx 5 {}) 1 2 ?f sample_st = Err InvalidAmount t"
    by (simp add: execute_migration_def backup_storage_state_def set_backup_def restore_storage_state_def
        remove_backup_def sample_defs run_eval word_le_nat_alt)
  have f: "migs (final u (?f u)) = migs u" for u by (simp add: final_def run_eval)
  have a: "c_Admin (conf sample_st) = Some (Addr 1)" by (simp add: sample_st_def)
  show ?thesis unfolding Let_def using t failed_migration_restores [OF t _ f] a by (auto simp: word_less_nat_alt)
qed

text \<open>
  A successful migration cannot be reversed: on success the snapshot is deleted, and the reversal,
  which needs it, then fails for that version in every context.
\<close>

theorem reverse_after_success_fails:
  assumes "execute_migration e from_version to_version migration_fn s = Ok () t"
  shows "get_migration_log t to_version = Some \<lparr>ml_from_version = from_version,
      ml_to_version = to_version, ml_timestamp = timestamp e\<rparr> \<and>
    verify_migration_integrity t \<and>
    (\<forall>e' v. reverse_migration e' from_version v t = Err NotAuthorized t)"
proof -
  have lt: "from_version < to_version"
    using assms by (auto simp: execute_migration_def run_simps)
  obtain u where run: "execute_migration e from_version to_version migration_fn s =
     (case migration_fn u of
        Ok _ t \<Rightarrow>
          bnd (reads verify_migration_integrity) (\<lambda>valid.
          if \<not> valid
          then thn (restore_storage_state e from_version) (fail MigrationValidationError)
          else thn (record_migration e from_version to_version) (remove_backup from_version)) t
      | Err err t \<Rightarrow> thn (restore_storage_state e from_version) (fail err) t
      | Trap \<Rightarrow> Trap)"
    by (rule execute_migration_start [OF lt])
  from assms run obtain v where v: "verify_migration_integrity v" and
    t: "thn (record_migration e from_version to_version) (remove_backup from_version) v = Ok () t"
    by (auto simp: thn_Ok fail_Ok bnd_Ok reads_Ok split: res.splits if_splits)
  have t': "conf t = conf v" "s_backup (migs t) from_version = None"
    "s_log (migs t) to_version = Some \<lparr>ml_from_version = from_version, ml_to_version = to_version,
      ml_timestamp = timestamp e\<rparr>"
    using t by (auto simp: record_migration_def remove_backup_def run_simps)
  then have "reverse_migration e' from_version w t = Err NotAuthorized t" for e' w
    by (simp add: reverse_migration_def restore_storage_state_def run_eval)
  then show ?thesis using v t' by (simp add: verify_migration_integrity_def get_migration_log_def)
qed

theorem reverse_after_success_fails_witness:
  "let s = upd_conf (\<lambda>c. c\<lparr>c_GuardianSet := Some []\<rparr>) sample_st
   in \<exists>t. execute_migration (sample_ctx 5 {}) 1 2 (ret ()) s = Ok () t \<and>
        reverse_migration (sample_ctx 6 {}) 1 2 t = Err NotAuthorized t"
proof -
  let ?s = "upd_conf (\<lambda>c. c\<lparr>c_GuardianSet := Some []\<rparr>) sample_st"
  obtain t where t: "execute_migration (sample_ctx 5 {}) 1 2 (ret ()) ?s = Ok () t"
    by (simp add: execute_migration_def backup_storage_state_def set_backup_def verify_migration_integrity_def
        record_migration_def remove_backup_def sample_defs run_eval word_le_nat_alt)
  from reverse_after_success_fails [OF t] show ?thesis using t unfolding Let_def by blast
qed

section \<open>The stake check\<close>

text \<open>
  The stake check raises false alarms: a market whose only stake is on an outcome other than the
  first passes the real conservation law but is reported as violating it, since the check looks up as
  many keys from zero on as there are entries, not the keys that exist.
\<close>

theorem stake_check_false_alarm:
  assumes "get_market s i = Some m" and "m_outcome_stakes m = [(k, x)]" and "m_total_staked m = x"
    and "x \<noteq> 0" and "k \<noteq> 0" and "unat k < length (m_options m)" and "length (m_options m) < 2 ^ 32"
  shows "books_ok m \<and> validate_stake_invariant i s = Ok False s"
proof -
  have stake: "get_outcome_stake m (of_nat j) = (if j = unat k then x else 0)" if "j < length (m_options m)" for j
  proof -
    have "unat (of_nat j :: u32) = j" using that assms(7) by (intro unat_of_nat_u32) linarith
    then have "of_nat j = k \<longleftrightarrow> j = unat k" by auto
    then show ?thesis by (simp add: get_outcome_stake_def assms(2) omap_get_def)
  qed
  have "stake_sum m = (\<Sum>j<length (m_options m). if j = unat k then x else 0)"
    unfolding stake_sum_def by (intro sum.cong refl stake) simp
  also have "\<dots> = x" using assms(6) by simp
  finally have "books_ok m" using assms by (simp add: books_ok_def omap_wf_def)
  moreover have "validate_stake_invariant i s = Ok False s"
    using assms by (simp add: validate_stake_invariant_def omap_get_def run_eval)
  ultimately show ?thesis by blast
qed

theorem stake_check_false_alarm_witness:
  "let m = sample_market\<lparr>m_outcome_stakes := [(1, 50)], m_total_staked := 50\<rparr>
   in books_ok m \<and> validate_stake_invariant 1 (with_market m sample_st) = Ok False (with_market m sample_st)"
proof -
  let ?m = "sample_market\<lparr>m_outcome_stakes := [(1, 50)], m_total_staked := 50\<rparr>"
  have "get_market (with_market ?m sample_st) 1 = Some ?m" by (simp add: get_market_def sample_defs)
  from stake_check_false_alarm [OF this, of 1 50] show ?thesis
    unfolding Let_def by (simp add: sample_market_def)
qed

end
