(* ===== verification/Contract.thy ===== *)
theory Contract
  imports Migration
begin

text \<open>
  \<^verbatim>\<open>lib.rs\<close>: the entry points of the contract, each run by the host (which discards the writes of a call
  that fails), the states a deployed contract can reach through them, and the invariants of these
  states. Two entry points are missing: \<^verbatim>\<open>claim_winnings\<close> and \<^verbatim>\<open>withdraw_refund\<close> delegate to functions
  that are not in the sources.
\<close>

section \<open>Entry points\<close>

definition PredictIQ_initialize :: "'w ctx \<Rightarrow> Address \<Rightarrow> i128 \<Rightarrow> ('w, unit) contract" where
  "PredictIQ_initialize e admin base_fee =
     bnd (reads (has_key (PConfig K_Admin))) (\<lambda>present.
     thn (err_if present AlreadyInitialized)
     (thn (set_admin e admin)
     (thn (p_set e (PConfig K_BaseFee) (upd_conf (\<lambda>c. c\<lparr>c_BaseFee := Some base_fee\<rparr>)))
     (p_set e (PConfig K_CircuitBreakerState) (upd_conf (\<lambda>c. c\<lparr>c_CircuitBreakerState := Some Closed\<rparr>))))))"

definition PredictIQ_cast_vote :: "'w ctx \<Rightarrow> Address \<Rightarrow> u64 \<Rightarrow> u32 \<Rightarrow> i128 \<Rightarrow> ('w, unit) contract" where
  "PredictIQ_cast_vote e voter market_id outcome weight =
     thn (require_closed e) (cast_vote e voter market_id outcome weight)"

definition PredictIQ_file_dispute :: "'w ctx \<Rightarrow> Address \<Rightarrow> u64 \<Rightarrow> ('w, unit) contract" where
  "PredictIQ_file_dispute e disciplinarian market_id =
     thn (require_closed e) (file_dispute e disciplinarian market_id)"

definition PredictIQ_set_oracle_result :: "'w ctx \<Rightarrow> u64 \<Rightarrow> u32 \<Rightarrow> u32 \<Rightarrow> ('w, unit) contract" where
  "PredictIQ_set_oracle_result e market_id oracle_id outcome =
     thn (require_admin e) (set_oracle_result e market_id oracle_id outcome)"

definition PredictIQ_validate_oracle_staleness :: "'w ctx \<Rightarrow> u64 \<Rightarrow> ('w, unit) contract" where
  "PredictIQ_validate_oracle_staleness e market_id =
     bnd (reads (\<lambda>s. get_market s market_id)) (\<lambda>found.
     bnd (ok_or found MarketNotFound) (\<lambda>market.
     validate_oracle_staleness e market_id (m_oracle_config market)))"

definition PredictIQ_resolve_market :: "'w ctx \<Rightarrow> u64 \<Rightarrow> u32 \<Rightarrow> ('w, unit) contract" where
  "PredictIQ_resolve_market e market_id winning_outcome =
     thn (require_admin e) (resolve_market e market_id winning_outcome)"

definition PredictIQ_reset_monitoring :: "'w ctx \<Rightarrow> ('w, unit) contract" where
  "PredictIQ_reset_monitoring e = thn (require_admin e) (reset_monitoring e)"

definition PredictIQ_initialize_guardians :: "'w ctx \<Rightarrow> Guardian list \<Rightarrow> ('w, unit) contract" where
  "PredictIQ_initialize_guardians e guardians =
     thn (require_admin e) (initialize_guardians e guardians)"

text \<open>A call of one of the entry points that can change the state.\<close>

datatype (plugins only: size code) call =
    Initialize Address i128
  | Propose_admin Address | Accept_admin Address | Cancel_admin_transfer
  | Create_market Address string "string list" u64 u64 OracleConfig MarketTier Address u64 u32
  | Create_market_with_dispute_window Address string "string list" u64 u64 OracleConfig MarketTier
      Address u64 u32 "u64 option"
  | Place_bet Address u64 u32 i128 Address "Address option"
  | Cast_vote Address u64 u32 i128
  | File_dispute Address u64
  | Set_dispute_window u64 | Set_dispute_window_bounds u64 u64
  | Set_circuit_breaker CircuitBreakerState | Set_circuit_breaker_threshold i128
  | Set_base_fee i128 | Set_fee_admin Address
  | Withdraw_protocol_fees Address Address | Claim_referral_rewards Address Address
  | Set_oracle_result u64 u32 u32 | Validate_oracle_staleness u64
  | Resolve_market u64 u32 | Set_governance_token Address
  | Attempt_oracle_resolution u64 | Finalize_resolution u64
  | Reset_monitoring | Set_guardian Address | Pause | Unpause
  | Set_creator_reputation Address CreatorReputation
  | Set_creation_deposit i128 | Release_creation_deposit u64 Address
  | Set_creation_fee i128 | Set_protocol_treasury Address
  | Initialize_guardians "Guardian list" | Add_guardian Guardian | Remove_guardian Address
  | Vote_on_guardian_removal Address bool | Execute_guardian_removal
  | Initiate_upgrade Hash | Vote_for_upgrade Address bool | Execute_upgrade
  | Set_timelock_duration u64 | Emergency_pause Address
  | Prune_market u64 | Cancel_market_admin u64 | Cancel_market_vote u64

definition quiet :: "('w, 'a) contract \<Rightarrow> ('w, unit) contract" where
  "quiet m = bnd m (\<lambda>_. ret ())"

fun entry :: "'w ctx \<Rightarrow> call \<Rightarrow> ('w, unit) contract" where
  "entry e (Initialize admin base_fee) = PredictIQ_initialize e admin base_fee"
| "entry e (Propose_admin new_admin) = propose_admin e new_admin"
| "entry e (Accept_admin caller) = accept_admin e caller"
| "entry e Cancel_admin_transfer = cancel_admin_transfer e"
| "entry e (Create_market creator description options deadline resolution_deadline oracle_config tier
     native_token parent_id parent_outcome_idx) =
     quiet (create_market e creator description options deadline resolution_deadline oracle_config tier
       native_token parent_id parent_outcome_idx)"
| "entry e (Create_market_with_dispute_window creator description options deadline resolution_deadline
     oracle_config tier native_token parent_id parent_outcome_idx dispute_window_seconds) =
     quiet (create_market_with_dispute_window e creator description options deadline resolution_deadline
       oracle_config tier native_token parent_id parent_outcome_idx dispute_window_seconds)"
| "entry e (Place_bet bettor market_id outcome amount token_address referrer) =
     place_bet e bettor market_id outcome amount token_address referrer"
| "entry e (Cast_vote voter market_id outcome weight) = PredictIQ_cast_vote e voter market_id outcome weight"
| "entry e (File_dispute disciplinarian market_id) = PredictIQ_file_dispute e disciplinarian market_id"
| "entry e (Set_dispute_window seconds) = set_dispute_window e seconds"
| "entry e (Set_dispute_window_bounds min_seconds max_seconds) = set_dispute_window_bounds e min_seconds max_seconds"
| "entry e (Set_circuit_breaker state) = set_state e state"
| "entry e (Set_circuit_breaker_threshold threshold) = set_threshold e threshold"
| "entry e (Set_base_fee amount) = set_base_fee e amount"
| "entry e (Set_fee_admin fee_admin) = set_fee_admin e fee_admin"
| "entry e (Withdraw_protocol_fees token recipient) = quiet (withdraw_protocol_fees e token recipient)"
| "entry e (Claim_referral_rewards address token) = quiet (claim_referral_rewards e address token)"
| "entry e (Set_oracle_result market_id oracle_id outcome) = PredictIQ_set_oracle_result e market_id oracle_id outcome"
| "entry e (Validate_oracle_staleness market_id) = PredictIQ_validate_oracle_staleness e market_id"
| "entry e (Resolve_market market_id winning_outcome) = PredictIQ_resolve_market e market_id winning_outcome"
| "entry e (Set_governance_token token) = set_governance_token e token"
| "entry e (Attempt_oracle_resolution market_id) = attempt_oracle_resolution e market_id"
| "entry e (Finalize_resolution market_id) = finalize_resolution e market_id"
| "entry e Reset_monitoring = PredictIQ_reset_monitoring e"
| "entry e (Set_guardian guardian) = set_guardian e guardian"
| "entry e Pause = pause e"
| "entry e Unpause = unpause e"
| "entry e (Set_creator_reputation creator reputation) = set_creator_reputation e creator reputation"
| "entry e (Set_creation_deposit amount) = set_creation_deposit e amount"
| "entry e (Release_creation_deposit market_id native_token) = release_creation_deposit e market_id native_token"
| "entry e (Set_creation_fee amount) = set_creation_fee e amount"
| "entry e (Set_protocol_treasury treasury) = set_protocol_treasury e treasury"
| "entry e (Initialize_guardians guardians) = PredictIQ_initialize_guardians e guardians"
| "entry e (Add_guardian guardian) = add_guardian e guardian"
| "entry e (Remove_guardian address) = remove_guardian e address"
| "entry e (Vote_on_guardian_removal voter approve) = vote_on_guardian_removal e voter approve"
| "entry e Execute_guardian_removal = execute_guardian_removal e"
| "entry e (Initiate_upgrade wasm_hash) = initiate_upgrade e wasm_hash"
| "entry e (Vote_for_upgrade voter vote_for) = quiet (vote_for_upgrade e voter vote_for)"
| "entry e Execute_upgrade = quiet (execute_upgrade e)"
| "entry e (Set_timelock_duration seconds) = set_timelock_duration e seconds"
| "entry e (Emergency_pause voter) = emergency_pause e voter"
| "entry e (Prune_market market_id) = prune_market e market_id"
| "entry e (Cancel_market_admin market_id) = cancel_market_admin e market_id"
| "entry e (Cancel_market_vote market_id) = cancel_market_vote e market_id"

lemma quiet_Ok [run_simps]: "quiet m s = Ok r t \<longleftrightarrow> (\<exists>x. m s = Ok x t)"
  by (auto simp: quiet_def run_simps)

section \<open>Reachable states\<close>

text \<open>
  The states of a deployed contract: empty at deployment; then calls at non-decreasing ledger times,
  each leaving the state the host keeps (a failed call leaves no trace), as long as the code has not
  been replaced by an upgrade; in between, the other contracts on the ledger may do anything.
\<close>

inductive reachable :: "u64 \<Rightarrow> 'w st \<Rightarrow> bool" where
  deployed: "reachable now (empty_st w)"
| called: "reachable now s \<Longrightarrow> now \<le> timestamp e \<Longrightarrow> wasm s = None \<Longrightarrow>
    reachable (timestamp e) (final s (invoke (entry e c) s))"
| outside: "reachable now s \<Longrightarrow> reachable now (s\<lparr>world := w\<rparr>)"

section \<open>What a call does to the markets\<close>

definition market_view where
  "market_view s = (s_Market (mkts s), s_StatusIndex (mkts s), i_MarketCount (inst s))"

definition fresh_market :: "Market \<Rightarrow> bool" where
  "fresh_market m \<longleftrightarrow> m_status m = Active \<and> m_total_staked m = 0 \<and> m_outcome_stakes m = [] \<and>
     m_winner_counts m = [] \<and> m_winning_outcome m = None \<and> m_resolved_at m = None \<and>
     m_pending_resolution_timestamp m = None \<and> m_dispute_timestamp m = None \<and>
     m_dispute_snapshot_ledger m = None \<and> length (m_options m) \<le> 100"

text \<open>The four things a call can do to the market store.\<close>

inductive market_effect :: "u64 \<Rightarrow> 'w st \<Rightarrow> 'w st \<Rightarrow> bool" for now s t where
  me_same: "market_view t = market_view s \<Longrightarrow> market_effect now s t"
| me_changed: "get_market s i = Some m \<Longrightarrow> market_change now m m' \<Longrightarrow>
    market_view t = market_view (s\<lparr>mkts := put_market m' (mkts s)\<rparr>) \<Longrightarrow> market_effect now s t"
| me_created: "unat n = Suc (unat (get_market_count s)) \<Longrightarrow> m_id m = n \<Longrightarrow> fresh_market m \<Longrightarrow>
    market_view t = ((s_Market (mkts s))(n \<mapsto> m), (s_StatusIndex (mkts s))((n, Active) \<mapsto> True), Some n) \<Longrightarrow>
    market_effect now s t"
| me_pruned: "get_market s i = Some m \<Longrightarrow> m_status m = Resolved \<Longrightarrow>
    market_view t = ((s_Market (mkts s))(i := None), (s_StatusIndex (mkts s))((i, Resolved) := None),
      i_MarketCount (inst s)) \<Longrightarrow> market_effect now s t"

inductive_cases market_effectE: "market_effect now s t"

lemma market_effect_life: "life_step e i s t \<Longrightarrow> market_effect (timestamp e) s t"
  unfolding life_step_def rewrote_def rest_of_def by (fastforce intro: me_changed simp: market_view_def)

end
