(* ===== verification/Reachability.thy ===== *)
theory Reachability
  imports Contract
begin

text \<open>
  What every call of an entry point leaves alone, and the invariants of the states a deployed
  contract reaches: the markets and their index, the governance configuration, the dispute windows
  and the roles.
\<close>

section \<open>What calls leave alone\<close>

lemma keeps_quiet [view_rules]: "keeps v m \<Longrightarrow> keeps v (quiet m)"
  unfolding quiet_def by (intro view_rules)

lemmas keeps_market_viewI = keepsI [where v = market_view]

lemma keeps_market_view:
  "keeps mkts m \<Longrightarrow> keeps (\<lambda>s. i_MarketCount (inst s)) m \<Longrightarrow> keeps market_view m"
  by (simp add: keeps_def market_view_def)

text \<open>The market counter shares instance storage with the breaker, which never writes it.\<close>

lemma keeps_count_internal: "keeps (\<lambda>s. i_MarketCount (inst s)) (set_state_internal e state)"
  by (rule keepsI) (blast dest: set_state_internal_run)

lemma keeps_count_breaker:
  "keeps (\<lambda>s. i_MarketCount (inst s)) (set_state e state)" "keeps (\<lambda>s. i_MarketCount (inst s)) (force_pause e)"
  "keeps (\<lambda>s. i_MarketCount (inst s)) (pause e)" "keeps (\<lambda>s. i_MarketCount (inst s)) (unpause e)"
  "keeps (\<lambda>s. i_MarketCount (inst s)) (maybe_recover e)"
  unfolding set_state_def force_pause_def pause_def unpause_def maybe_recover_def discard_set_state
  by (intro keeps_count_internal keeps_bnd keeps_thn keeps_doif keeps_if keeps_pure keeps_require_admin
      keeps_guardian_or_admin)+

lemma keeps_count_instance:
  "keeps (\<lambda>s. i_MarketCount (inst s)) (set_threshold e th)"
  "keeps (\<lambda>s. i_MarketCount (inst s)) (reset_monitoring e)"
  "keeps (\<lambda>s. i_MarketCount (inst s)) (set_governance_token e a)"
  unfolding set_threshold_def reset_monitoring_def set_governance_token_def
  by ((intro view_rules; simp)+)

lemma keeps_count_require_closed: "keeps (\<lambda>s. i_MarketCount (inst s)) (require_closed e)"
  unfolding require_closed_def discard_set_state
  by (auto split: CircuitBreakerState.split
      intro!: keeps_bnd keeps_thn keeps_if keeps_pure keeps_modify keeps_count_internal keeps_count_breaker)

lemma keeps_sum_power [view_rules]: "keeps v (sum_power gs x)"
  by (induction gs x rule: sum_power.induct) (auto intro!: view_rules)

lemma keeps_sum_power_for [view_rules]: "keeps v (sum_power_for gs vs x)"
  by (induction gs vs x rule: sum_power_for.induct) (auto intro!: view_rules split: option.split)

lemma keeps_emergency_tally [view_rules]: "keeps v (emergency_tally gs vs x y)"
  by (rule keepsI) (auto dest: emergency_tally_pure)

lemma keeps_case_prod [view_rules]: "(\<And>x y. keeps v (f x y)) \<Longrightarrow> keeps v (case p of (x, y) \<Rightarrow> f x y)"
  by (cases p) simp

lemma keeps_majority [view_rules]: "keeps v (is_majority_met p)" "keeps v (is_timelock_satisfied e)"
  unfolding is_majority_met_def is_timelock_satisfied_def by (intro view_rules)+

lemmas gov_op_defs = initialize_guardians_def add_guardian_def remove_guardian_def
  vote_on_guardian_removal_def execute_guardian_removal_def set_timelock_duration_def
  removal_votes_needed_def gov_write_defs bump_gov_ttl_def

lemmas upgrade_op_defs = require_no_upgrade_collision_def initiate_upgrade_def vote_for_upgrade_def
  execute_upgrade_def gov_write_defs bump_gov_ttl_def

lemma keeps_guardian_ops [view_rules]:
  assumes "\<And>s x. v (s\<lparr>live_until := x\<rparr>) = v s" and "\<And>s c. v (s\<lparr>conf := c\<rparr>) = v s"
  shows "keeps v (initialize_guardians e gs)" "keeps v (add_guardian e gd)" "keeps v (remove_guardian e a)"
    "keeps v (vote_on_guardian_removal e a b)" "keeps v (execute_guardian_removal e)"
    "keeps v (set_timelock_duration e d)"
  unfolding gov_op_defs by ((intro view_rules; simp add: assms)+)

lemma keeps_upgrade_ops [view_rules]:
  assumes "\<And>s x. v (s\<lparr>live_until := x\<rparr>) = v s" and "\<And>s c. v (s\<lparr>conf := c\<rparr>) = v s"
    and "\<And>s x. v (s\<lparr>log := x\<rparr>) = v s" and "\<And>s x. v (s\<lparr>wasm := x\<rparr>) = v s"
  shows "keeps v (initiate_upgrade e h)" "keeps v (vote_for_upgrade e a b)" "keeps v (execute_upgrade e)"
  unfolding upgrade_op_defs by ((intro view_rules; simp add: assms)+)

lemma keeps_emergency_pause:
  assumes "\<And>s x. v (s\<lparr>live_until := x\<rparr>) = v s" and "\<And>s c. v (s\<lparr>conf := c\<rparr>) = v s"
    and "keeps v (force_pause e)"
  shows "keeps v (emergency_pause e a)"
  unfolding emergency_pause_def bump_gov_ttl_def
  by (intro keeps_bnd keeps_thn keeps_if keeps_case_prod keeps_pure keeps_require_auth keeps_p_set
      keeps_p_remove keeps_extend_ttl keeps_emergency_tally assms; simp add: assms)

text \<open>The calls that do not touch the markets.\<close>

definition idle_call :: "call \<Rightarrow> bool" where
  "idle_call c = (case c of
      Create_market _ _ _ _ _ _ _ _ _ _ \<Rightarrow> False
    | Create_market_with_dispute_window _ _ _ _ _ _ _ _ _ _ _ \<Rightarrow> False
    | Place_bet _ _ _ _ _ _ \<Rightarrow> False | File_dispute _ _ \<Rightarrow> False | Resolve_market _ _ \<Rightarrow> False
    | Attempt_oracle_resolution _ \<Rightarrow> False | Finalize_resolution _ \<Rightarrow> False
    | Release_creation_deposit _ _ \<Rightarrow> False | Prune_market _ \<Rightarrow> False
    | Cancel_market_admin _ \<Rightarrow> False | Cancel_market_vote _ \<Rightarrow> False
    | _ \<Rightarrow> True)"

lemmas predictiq_defs = PredictIQ_initialize_def PredictIQ_cast_vote_def PredictIQ_set_oracle_result_def
  PredictIQ_validate_oracle_staleness_def PredictIQ_reset_monitoring_def PredictIQ_initialize_guardians_def

lemma keeps_governance_token [view_rules]:
  "(\<And>s x. v (s\<lparr>inst := x\<rparr>) = v s) \<Longrightarrow> keeps v (set_governance_token e a)"
  unfolding set_governance_token_def by (intro view_rules; simp)

lemma keeps_market_view_inst:
  "keeps market_view (set_governance_token e a)"
  "keeps market_view (set_state e state)" "keeps market_view (pause e)" "keeps market_view (unpause e)"
  "keeps market_view (set_threshold e th)" "keeps market_view (reset_monitoring e)"
  "keeps market_view (require_closed e)" "keeps market_view (emergency_pause e a)"
  by (rule keeps_market_view, (intro view_rules keeps_emergency_pause; simp),
      intro keeps_count_breaker keeps_count_instance keeps_count_require_closed keeps_emergency_pause; simp)+

lemma idle_keeps_markets: "idle_call c \<Longrightarrow> keeps market_view (entry e c)"
  by (cases c; simp add: idle_call_def)
     ((unfold predictiq_defs)?,
      (intro keeps_market_view_inst keeps_validate_oracle_staleness view_rules; simp add: market_view_def)+)

section \<open>Every call acts on the markets as specified\<close>

lemma market_view_cong:
  "market_view u = market_view s \<Longrightarrow> get_market u = get_market s \<and> get_market_count u = get_market_count s \<and>
     market_view (u\<lparr>mkts := put_market m (mkts u)\<rparr>) = market_view (s\<lparr>mkts := put_market m (mkts s)\<rparr>)"
  by (auto simp: market_view_def get_market_def get_market_count_def put_market_def split: option.split)

lemma market_effect_cong:
  assumes "market_view u = market_view s" and "market_effect now u t"
  shows "market_effect now s t"
  using assms(2)
proof cases
  case me_same
  with assms(1) show ?thesis by (simp add: market_effect.me_same)
next
  case (me_changed i m m')
  with market_view_cong [OF assms(1)] show ?thesis by (metis market_effect.me_changed)
next
  case (me_created n m)
  with market_view_cong [OF assms(1)] assms(1) show ?thesis
    by (intro market_effect.me_created [of n s m]) (simp_all add: market_view_def)
next
  case (me_pruned i m)
  with market_view_cong [OF assms(1)] assms(1) show ?thesis
    by (intro market_effect.me_pruned [of s i m]) (simp_all add: market_view_def)
qed

lemma create_market_effect_view:
  assumes "create_market_with_dispute_window e creator description options deadline resolution_deadline
       oracle_config tier native_token parent_id parent_outcome_idx dispute_window_seconds s = Ok n t"
  shows "market_effect now s t"
proof -
  let ?m = "new_market n creator description options deadline resolution_deadline oracle_config tier
        (if deposit_required (get_creator_reputation s creator) then get_creation_deposit s else 0)
        parent_id parent_outcome_idx native_token"
  have c: "unat n = Suc (unat (get_market_count s))" "length options \<le> 100"
    "market_view t = ((s_Market (mkts s))(n \<mapsto> ?m), (s_StatusIndex (mkts s))((n, Active) \<mapsto> True), Some n)"
    using create_market_run [OF assms] by (auto simp: market_view_def)
  have "fresh_market ?m" "m_id ?m = n" using c(2) by (simp_all add: fresh_market_def new_market_def)
  with c show ?thesis by (blast intro: me_created)
qed

lemma place_bet_effect_view:
  assumes "place_bet e a i out amount token referrer s = Ok r t"
  shows "market_effect (timestamp e) s t"
proof -
  obtain m x new where m: "check_bet e a i out amount token referrer s = Ok m s"
    and t: "mkts t = put_market (bet_market m out x new) (mkts s)" "inst t = inst s"
    by (rule place_bet_run [OF assms])
  have "get_market s i = Some m" using m by (simp add: check_bet_Ok)
  moreover have "market_change (timestamp e) m (bet_market m out x new)" by (rule place_bet_change [OF m])
  ultimately show ?thesis by (rule me_changed) (simp add: t market_view_def)
qed

lemma release_creation_deposit_view:
  assumes "release_creation_deposit e i token s = Ok r t"
  shows "market_effect (timestamp e) s t"
proof -
  obtain m where m: "get_market s i = Some m" "m_status m = Resolved" "inst t = inst s" and
    t: "if 0 < m_creation_deposit m then mkts t = put_market (m\<lparr>m_creation_deposit := 0\<rparr>) (mkts s) else t = s"
    using release_creation_deposit_run [OF assms] by (auto split: if_splits)
  show ?thesis
  proof (cases "0 < m_creation_deposit m")
    case True
    show ?thesis by (rule me_changed [OF m(1) mc_deposit [OF m(2) True]]) (use True t m in \<open>simp add: market_view_def\<close>)
  qed (use t in \<open>simp add: me_same\<close>)
qed

lemma prune_market_view: "prune_market e i s = Ok r t \<Longrightarrow> market_effect now s t"
  by (drule prune_market_run) (auto simp: market_view_def intro: me_pruned)

lemma file_dispute_view:
  assumes "PredictIQ_file_dispute e a i s = Ok r t"
  shows "market_effect (timestamp e) s t"
proof -
  obtain u where u: "require_closed e s = Ok () u" "file_dispute e a i u = Ok r t"
    using assms by (auto simp: PredictIQ_file_dispute_def run_simps)
  show ?thesis
    using market_effect_cong [OF keepsD [OF keeps_market_view_inst(7) u(1)]
        market_effect_life [OF file_dispute_step [OF u(2)]]] .
qed

lemma entry_market_effect: "entry e c s = Ok r t \<Longrightarrow> market_effect (timestamp e) s t"
proof (cases "idle_call c")
  case True
  then show "entry e c s = Ok r t \<Longrightarrow> market_effect (timestamp e) s t"
    by (metis me_same keepsD idle_keeps_markets)
next
  case False
  then show "entry e c s = Ok r t \<Longrightarrow> market_effect (timestamp e) s t"
    by (cases c)
       (auto simp: idle_call_def run_simps create_market_def PredictIQ_resolve_market_def
        intro: create_market_effect_view place_bet_effect_view release_creation_deposit_view
          prune_market_view file_dispute_view market_effect_life attempt_oracle_resolution_step
          finalize_resolution_step resolve_market_step cancel_market_admin_step cancel_market_vote_step)
qed

section \<open>Invariants of the reachable states\<close>

text \<open>A property of states that successful calls keep and that does not look at other contracts is
  kept by everything that can happen to the contract.\<close>

lemma reachable_invariant [consumes 1, case_names deployed called outside later]:
  assumes "reachable now s" and "\<And>now w. I now (empty_st w)"
    and "\<And>now s e c t. I now s \<Longrightarrow> now \<le> timestamp e \<Longrightarrow> entry e c s = Ok () t \<Longrightarrow> I (timestamp e) t"
    and "\<And>now s w. I now s \<Longrightarrow> I now (s\<lparr>world := w\<rparr>)"
    and "\<And>now later s. I now s \<Longrightarrow> now \<le> later \<Longrightarrow> I later s"
  shows "I now s"
  using assms(1)
proof induction
  case (called now s e c)
  then show ?case
    by (cases "entry e c s") (auto simp: final_invoke intro: assms(3,5))
qed (auto intro: assms)

text \<open>The market part: the index agrees with the records, and every market has a life that started
  fresh and has run up to now.\<close>

definition has_life :: "u64 \<Rightarrow> Market \<Rightarrow> bool" where
  "has_life now m \<longleftrightarrow> (\<exists>start m0. fresh_market m0 \<and> market_run start m0 now m)"

definition markets_inv :: "u64 \<Rightarrow> 'w st \<Rightarrow> bool" where
  "markets_inv now s \<longleftrightarrow> store_ok s \<and> (\<forall>i m. get_market s i = Some m \<longrightarrow> has_life now m)"

lemma has_life_fresh: "fresh_market m \<Longrightarrow> has_life now m"
  unfolding has_life_def using run_start by blast

lemma has_life_wait: "has_life now m \<Longrightarrow> now \<le> later \<Longrightarrow> has_life later m"
  unfolding has_life_def by (blast intro: run_wait)

lemma has_life_step: "has_life now m \<Longrightarrow> now \<le> later \<Longrightarrow> market_change later m m' \<Longrightarrow> has_life later m'"
  unfolding has_life_def by (blast intro: run_step)

lemma market_view_get: "market_view t = (r, x, n) \<Longrightarrow> get_market t = r \<and>
    (\<forall>i st. has_status_index t i st \<longleftrightarrow> x (i, st) \<noteq> None) \<and> get_market_count t = (case n of None \<Rightarrow> 0 | Some k \<Rightarrow> k)"
  by (auto simp: market_view_def get_market_def has_status_index_def get_market_count_def)

lemma market_effect_inv:
  assumes "market_effect later s t" and "markets_inv now s" and "now \<le> later"
  shows "markets_inv later t"
  using assms(1)
proof cases
  case me_same
  have "get_market t = get_market s" "get_market_count t = get_market_count s"
    "has_status_index t = has_status_index s"
    using me_same by (auto simp: market_view_def get_market_def get_market_count_def has_status_index_def fun_eq_iff)
  then show ?thesis using assms(2) has_life_wait [OF _ assms(3)] unfolding markets_inv_def store_ok_def by auto
next
  case (me_changed i m m')
  have "m_id m = i" "has_life now m" using me_changed(1) assms(2) by (auto simp: markets_inv_def store_ok_def)
  then have m': "m_id m' = i" "has_life later m'"
    using market_change_id [OF me_changed(2)] has_life_step [OF _ assms(3) me_changed(2)] by simp_all
  have t: "get_market t = (get_market s)(i \<mapsto> m')" "get_market_count t = get_market_count s"
    "\<And>j st. has_status_index t j st \<longleftrightarrow>
      (if j = i then st = m_status m' \<or> st \<noteq> m_status m \<and> has_status_index s i st else has_status_index s j st)"
    using me_changed(1,3) m'(1)
    by (auto simp: market_view_def get_market_def get_market_count_def has_status_index_def put_market_def fun_eq_iff)
  show ?thesis
    using assms(2) m' me_changed(1) has_life_wait [OF _ assms(3)] unfolding markets_inv_def store_ok_def t by auto
next
  case (me_created n m)
  have t: "get_market t = (get_market s)(n \<mapsto> m)" "get_market_count t = n"
    "\<And>j st. has_status_index t j st \<longleftrightarrow> has_status_index s j st \<or> j = n \<and> st = Active"
    using me_created(4)
    by (auto simp: market_view_def get_market_def get_market_count_def has_status_index_def fun_eq_iff)
  have less: "i \<le> n \<and> i \<noteq> n" if "get_market s i = Some k" for i k
    using that assms(2) me_created(1)
    by (force simp: markets_inv_def store_ok_def word_le_nat_alt dest!: spec [of _ i])
  have "1 \<le> n" using me_created(1) by (simp add: word_le_nat_alt)
  then show ?thesis
    using assms(2) me_created(2,3) less has_life_wait [OF _ assms(3)] has_life_fresh [OF me_created(3)]
    unfolding markets_inv_def store_ok_def t by (auto simp: fresh_market_def)
next
  case (me_pruned i m)
  have t: "get_market t = (get_market s)(i := None)" "get_market_count t = get_market_count s"
    "\<And>j st. has_status_index t j st \<longleftrightarrow> has_status_index s j st \<and> (j, st) \<noteq> (i, Resolved)"
    using me_pruned(3)
    by (auto simp: market_view_def get_market_def get_market_count_def has_status_index_def fun_eq_iff)
  show ?thesis
    using assms(2) me_pruned(1,2) has_life_wait [OF _ assms(3)] unfolding markets_inv_def store_ok_def t by auto
qed

lemma fresh_books: "fresh_market m \<Longrightarrow> books_ok m"
  by (simp add: fresh_market_def books_ok_def stake_sum_def get_outcome_stake_def omap_get_def omap_wf_def)

lemma market_run_snapshot:
  "market_run a m b m' \<Longrightarrow> m_dispute_snapshot_ledger m' = m_dispute_snapshot_ledger m"
  by (induction rule: market_run.induct) (auto dest: market_change_snapshot)

lemma life_books: "has_life now m \<Longrightarrow> books_ok m"
  unfolding has_life_def using fresh_books market_run_books by blast

lemma life_snapshot: "has_life now m \<Longrightarrow> m_dispute_snapshot_ledger m = None"
  unfolding has_life_def using market_run_snapshot by (fastforce simp: fresh_market_def)

section \<open>The configuration\<close>

text \<open>The calls that write the configuration, and those of them that belong to governance.\<close>

definition gov_call :: "call \<Rightarrow> bool" where
  "gov_call c = (case c of
      Initialize_guardians _ \<Rightarrow> True | Add_guardian _ \<Rightarrow> True | Remove_guardian _ \<Rightarrow> True
    | Vote_on_guardian_removal _ _ \<Rightarrow> True | Execute_guardian_removal \<Rightarrow> True
    | Initiate_upgrade _ \<Rightarrow> True | Vote_for_upgrade _ _ \<Rightarrow> True | Execute_upgrade \<Rightarrow> True
    | Set_timelock_duration _ \<Rightarrow> True | Emergency_pause _ \<Rightarrow> True | _ \<Rightarrow> False)"

definition setup_call :: "call \<Rightarrow> bool" where
  "setup_call c = (case c of
      Initialize _ _ \<Rightarrow> True | Propose_admin _ \<Rightarrow> True | Accept_admin _ \<Rightarrow> True
    | Cancel_admin_transfer \<Rightarrow> True | Set_dispute_window _ \<Rightarrow> True | Set_dispute_window_bounds _ _ \<Rightarrow> True
    | Set_base_fee _ \<Rightarrow> True | Set_fee_admin _ \<Rightarrow> True | Set_guardian _ \<Rightarrow> True
    | Set_creation_deposit _ \<Rightarrow> True | Set_creation_fee _ \<Rightarrow> True | Set_protocol_treasury _ \<Rightarrow> True
    | _ \<Rightarrow> False)"

lemma life_step_conf: "life_step e i s t \<Longrightarrow> conf t = conf s"
  by (auto simp: life_step_def rewrote_def rest_of_def)

lemma busy_conf: "\<not> idle_call c \<Longrightarrow> entry e c s = Ok r t \<Longrightarrow> conf t = conf s"
proof (cases c)
  case (Place_bet a i out x tk rf)
  then show "entry e c s = Ok r t \<Longrightarrow> conf t = conf s" by (auto elim: place_bet_run)
next
  case (File_dispute a i)
  moreover have "keeps conf (require_closed e)" by (intro view_rules; simp)
  ultimately show "entry e c s = Ok r t \<Longrightarrow> conf t = conf s"
    by (auto simp: PredictIQ_file_dispute_def run_simps dest!: keepsD file_dispute_step life_step_conf)
qed (auto simp: idle_call_def run_simps create_market_def PredictIQ_resolve_market_def
    dest!: create_market_run prune_market_run release_creation_deposit_run
    dest: life_step_conf attempt_oracle_resolution_step finalize_resolution_step resolve_market_step
      cancel_market_admin_step cancel_market_vote_step)

lemma idle_conf: "idle_call c \<Longrightarrow> \<not> gov_call c \<Longrightarrow> \<not> setup_call c \<Longrightarrow> keeps conf (entry e c)"
  by (cases c; simp add: idle_call_def gov_call_def setup_call_def)
     ((unfold predictiq_defs)?, (intro keeps_validate_oracle_staleness view_rules; simp)+)

lemma other_conf: "\<not> gov_call c \<Longrightarrow> \<not> setup_call c \<Longrightarrow> entry e c s = Ok r t \<Longrightarrow> conf t = conf s"
  by (cases "idle_call c") (blast dest: busy_conf keepsD [OF idle_conf])+

lemmas setup_defs = PredictIQ_initialize_def admin_defs set_dispute_window_def set_dispute_window_bounds_def
  set_base_fee_def set_fee_admin_def bump_config_ttl_def set_creation_deposit_def set_creation_fee_def
  set_protocol_treasury_def

lemma setup_gov_fields:
  "setup_call c \<Longrightarrow> entry e c s = Ok r t \<Longrightarrow> gov_fields (conf t) = gov_fields (conf s)"
  by (cases c; simp add: setup_call_def) (auto simp: setup_defs run_simps gov_fields_def)

lemma entry_gov_inv:
  assumes "gov_inv s" and "entry e c s = Ok r t"
  shows "gov_inv t"
proof (cases "gov_call c")
  case True
  then show ?thesis
    using assms
    by (cases c; simp add: gov_call_def PredictIQ_initialize_guardians_def run_simps)
       (blast intro: initialize_guardians_inv add_guardian_inv remove_guardian_inv
         vote_on_guardian_removal_inv execute_guardian_removal_inv initiate_upgrade_inv
         vote_for_upgrade_inv execute_upgrade_inv set_timelock_duration_inv emergency_pause_inv)+
next
  case False
  then show ?thesis
    using assms other_conf setup_gov_fields gov_inv_fields by metis
qed

definition window_fields :: "config_store \<Rightarrow> u64 option \<times> u64 option \<times> u64 option" where
  "window_fields c = (c_DefaultDisputeWindow c, c_MinDisputeWindow c, c_MaxDisputeWindow c)"

lemma window_inv_fields: "window_fields (conf t) = window_fields (conf s) \<Longrightarrow> window_inv s \<Longrightarrow> window_inv t"
  by (simp add: window_defs window_fields_def)

lemma gov_call_window: "gov_call c \<Longrightarrow> keeps (\<lambda>s. window_fields (conf s)) (entry e c)"
  by (cases c; simp add: gov_call_def PredictIQ_initialize_guardians_def;
      unfold gov_op_defs upgrade_op_defs emergency_pause_def)
     ((intro view_rules; simp add: window_fields_def)+)

lemma entry_window_inv:
  assumes "window_inv s" and "entry e c s = Ok r t"
  shows "window_inv t"
proof -
  have "window_inv t \<or> window_fields (conf t) = window_fields (conf s)" if "setup_call c"
    using that assms
    by (cases c; simp add: setup_call_def)
       (auto simp: PredictIQ_initialize_def admin_defs set_base_fee_def set_fee_admin_def bump_config_ttl_def
          set_creation_deposit_def set_creation_fee_def set_protocol_treasury_def run_simps window_fields_def
        intro: set_dispute_window_inv set_dispute_window_bounds_inv)
  moreover have "window_fields (conf t) = window_fields (conf s)" if "gov_call c"
    using keepsD [OF gov_call_window [OF that] assms(2)] .
  moreover have "conf t = conf s" if "\<not> gov_call c" "\<not> setup_call c"
    using other_conf that assms(2) by blast
  ultimately show ?thesis using assms(1) window_inv_fields by metis
qed

subsection \<open>The admin role\<close>

lemma gov_call_roles: "gov_call c \<Longrightarrow> keeps (\<lambda>s. (c_Admin (conf s), c_PendingAdmin (conf s))) (entry e c)"
  by (cases c; simp add: gov_call_def PredictIQ_initialize_guardians_def;
      unfold gov_op_defs upgrade_op_defs emergency_pause_def)
     ((intro view_rules; simp)+)

text \<open>The three ways the pair of admin and proposed admin can change.\<close>

inductive role_change :: "Address set \<Rightarrow> Address option \<times> Address option \<Rightarrow> Address option \<times> Address option \<Rightarrow> bool"
  for auths where
  rc_same: "role_change auths p p"
| rc_initialize: "role_change auths (None, q) (Some a, q)"
| rc_propose: "a \<in> auths \<Longrightarrow> role_change auths (Some a, q) (Some a, Some b)"
| rc_cancel: "a \<in> auths \<Longrightarrow> role_change auths (Some a, q) (Some a, None)"
| rc_accept: "b \<in> auths \<Longrightarrow> role_change auths (p, Some b) (Some b, None)"

lemma entry_role_change:
  assumes "entry e c s = Ok r t"
  shows "role_change (authorized e) (c_Admin (conf s), c_PendingAdmin (conf s))
    (c_Admin (conf t), c_PendingAdmin (conf t))"
proof -
  have ?thesis if "setup_call c"
    using that assms
    by (cases c; simp add: setup_call_def)
       (auto simp: setup_defs run_simps get_admin_def
        intro: rc_same rc_initialize rc_propose rc_cancel rc_accept)
  moreover have ?thesis if "gov_call c"
    using keepsD [OF gov_call_roles [OF that] assms] by (simp add: rc_same)
  moreover have ?thesis if "\<not> gov_call c" "\<not> setup_call c"
    using other_conf [OF that assms] by (simp add: rc_same)
  ultimately show ?thesis by blast
qed

section \<open>Votes\<close>

definition no_votes :: "'w st \<Rightarrow> bool" where
  "no_votes s \<longleftrightarrow> s_VoteTally (vts s) = Map.empty \<and> s_DisputeVoters (vts s) = Map.empty"

lemma prune_votes:
  assumes "no_votes s" and "prune_market_voting_state i n s = Ok r t"
  shows "no_votes t"
proof -
  let ?u = "s\<lparr>live_until := (live_until s)(PVoting (K_DisputeVoters i) := 0),
      vts := (vts s)\<lparr>s_DisputeVoters := Map.empty\<rparr>\<rparr>"
  have "for_each [0..<unat n] (remove_tally i) ?u = Ok r t"
    using assms unfolding prune_market_voting_state_def by (simp add: run_simps no_votes_def)
  from for_each_remove_tally [OF this] assms(1) show ?thesis by (auto simp: no_votes_def fun_eq_iff)
qed

lemma prune_market_votes:
  assumes "no_votes s" and "prune_market e i s = Ok r t"
  shows "no_votes t"
proof -
  obtain m :: Market and u v where u: "archive_market e i s = Ok () u" and
    v: "prune_market_voting_state i (of_nat (length (m_options m))) u = Ok () v" and
    t: "thn (remove_status i Resolved) (thn (remove_market i) (thn (remove_market_dispute_window i)
         (emit_market_pruned i (timestamp e)))) v = Ok r t"
    using assms(2) unfolding prune_market_def bnd_Ok thn_Ok [of "err_if a b" for a b]
      thn_Ok [of "archive_market a b" for a b] thn_Ok [of "prune_market_voting_state a b" for a b]
      reads_Ok ok_or_Ok err_if_Ok add_word_Ok by blast
  have "keeps vts (archive_market e i)" by (intro view_rules; simp)
  from keepsD [OF this u] assms(1) have "no_votes u" by (simp add: no_votes_def)
  from prune_votes [OF this v] have "no_votes v" .
  moreover have k: "keeps vts (thn (remove_status i Resolved) (thn (remove_market i) (thn (remove_market_dispute_window i)
         (emit_market_pruned i (timestamp e)))))"
    unfolding remove_market_def remove_market_dispute_window_def by (intro view_rules; simp)
  ultimately show ?thesis using keepsD [OF k t] by (auto simp: no_votes_def)
qed

lemma life_step_vts: "life_step e i s t \<Longrightarrow> vts t = vts s"
  by (auto simp: life_step_def rewrote_def rest_of_def)

text \<open>No market of a reachable state accepts votes: filing a dispute does not record the ledger
  that \<^verbatim>\<open>cast_vote\<close> needs.\<close>

lemma cast_vote_fails:
  assumes "markets_inv now s"
  shows "PredictIQ_cast_vote e a i out w s \<noteq> Ok r t"
proof
  assume "PredictIQ_cast_vote e a i out w s = Ok r t"
  then obtain u where u: "require_closed e s = Ok () u" "cast_vote e a i out w u = Ok r t"
    by (auto simp: PredictIQ_cast_vote_def run_simps)
  have "get_market u = get_market s"
    using market_view_cong [OF keepsD [OF keeps_market_view_inst(7) u(1)]] by blast
  with cast_vote_run [OF u(2)] obtain m :: Market where "get_market s i = Some m" "m_dispute_snapshot_ledger m \<noteq> None"
    by auto
  with assms show False unfolding markets_inv_def by (metis life_snapshot)
qed

lemma idle_vts: "idle_call c \<Longrightarrow> (\<forall>a i out w. c \<noteq> Cast_vote a i out w) \<Longrightarrow> keeps vts (entry e c)"
  by (cases c; simp add: idle_call_def)
     ((unfold predictiq_defs)?,
      (intro keeps_validate_oracle_staleness keeps_emergency_pause view_rules; simp)+)

lemma entry_no_votes:
  assumes "markets_inv now s" and "no_votes s" and "entry e c s = Ok r t"
  shows "no_votes t"
proof (cases "idle_call c")
  case True
  have "\<forall>a i out w. c \<noteq> Cast_vote a i out w" using cast_vote_fails [OF assms(1)] assms(3) by auto
  from keepsD [OF idle_vts [OF True this] assms(3)] assms(2) show ?thesis by (simp add: no_votes_def)
next
  case False
  have "no_votes t \<or> vts t = vts s"
  proof (cases c)
    case (Place_bet a i out x tk rf)
    then show ?thesis using assms(3) by (auto elim: place_bet_run)
  next
    case (File_dispute a i)
    moreover have "keeps vts (require_closed e)" by (intro view_rules; simp)
    ultimately show ?thesis using assms(3)
      by (auto simp: PredictIQ_file_dispute_def run_simps dest!: keepsD file_dispute_step life_step_vts)
  qed (use False assms(2,3) in \<open>auto simp: idle_call_def run_simps create_market_def PredictIQ_resolve_market_def
    dest!: create_market_run release_creation_deposit_run
    dest: prune_market_votes life_step_vts attempt_oracle_resolution_step finalize_resolution_step resolve_market_step
      cancel_market_admin_step cancel_market_vote_step\<close>)
  then show ?thesis using assms(2) by (auto simp: no_votes_def)
qed

lemma cancel_vote_fails:
  assumes "no_votes s"
  shows "cancel_market_vote e i s \<noteq> Ok r t"
proof
  assume "cancel_market_vote e i s = Ok r t"
  then obtain pct :: int and m :: Market where "checked_div_i128 (get_tally s i CANCEL_OUTCOME_INDEX * 10000)
      (get_tally s i CANCEL_OUTCOME_INDEX + (\<Sum>n \<leftarrow> [0..<length (m_options m)]. get_tally s i (of_nat n))) = Some pct"
    by (rule cancel_market_vote_run)
  moreover have "get_tally s i k = 0" for k using assms by (simp add: no_votes_def get_tally_def)
  ultimately show False by (simp add: checked_div_i128_def)
qed

section \<open>The invariant of a deployed contract\<close>

definition contract_inv :: "u64 \<Rightarrow> 'w st \<Rightarrow> bool" where
  "contract_inv now s \<longleftrightarrow> markets_inv now s \<and> gov_inv s \<and> window_inv s \<and> no_votes s"

lemma entry_contract_inv:
  "contract_inv now s \<Longrightarrow> now \<le> timestamp e \<Longrightarrow> entry e c s = Ok r t \<Longrightarrow> contract_inv (timestamp e) t"
  unfolding contract_inv_def
  by (blast intro: market_effect_inv entry_market_effect entry_gov_inv entry_window_inv entry_no_votes)

lemma reachable_contract_inv: "reachable now s \<Longrightarrow> contract_inv now s"
proof (induction rule: reachable_invariant)
  case (deployed now w)
  show ?case
    by (simp add: contract_inv_def markets_inv_def store_ok_def get_market_def has_status_index_def
        gov_inv_def gov_conf_ok_def no_votes_def window_defs MIN_DISPUTE_WINDOW_SECONDS_def
        DEFAULT_DISPUTE_WINDOW_SECONDS_def MAX_DISPUTE_WINDOW_SECONDS_def empty_st_def empty_conf_def)
next
  case (called now s e c t)
  then show ?case by (rule entry_contract_inv)
next
  case (outside now s w)
  then show ?case
    by (simp add: contract_inv_def markets_inv_def store_ok_def get_market_def has_status_index_def
        get_market_count_def gov_inv_def no_votes_def window_defs)
next
  case (later now later s)
  then show ?case unfolding contract_inv_def markets_inv_def by (blast intro: has_life_wait)
qed

lemma reachable_market:
  assumes "reachable now s" and "get_market s i = Some m"
  shows "m_id m = i" "has_life now m" "books_ok m"
proof -
  show "m_id m = i" "has_life now m"
    using reachable_contract_inv [OF assms(1)] assms(2) by (auto simp: contract_inv_def markets_inv_def store_ok_def)
  then show "books_ok m" by (blast intro: life_books)
qed

text \<open>One call, seen from one market.\<close>

lemma market_effect_step:
  assumes "market_effect now s t" and "store_ok s" and "get_market s i = Some m"
  shows "get_market t i = Some m \<or> (\<exists>m'. get_market t i = Some m' \<and> market_change now m m') \<or>
    get_market t i = None \<and> m_status m = Resolved"
  using assms(1)
proof cases
  case (me_changed j k k')
  have "m_id k' = j" using me_changed(1) assms(2) market_change_id [OF me_changed(2)] by (simp add: store_ok_def)
  then show ?thesis using me_changed assms(3) by (auto simp: market_view_def get_market_def put_market_def)
next
  case (me_created n k)
  have "i \<le> get_market_count s" using assms(2,3) by (simp add: store_ok_def)
  then have "i \<noteq> n" using me_created(1) by (auto simp: word_le_nat_alt)
  then show ?thesis using me_created(4) assms(3) by (simp add: market_view_def get_market_def)
qed (use assms(3) in \<open>auto simp: market_view_def get_market_def\<close>)

lemma market_effect_new:
  assumes "market_effect now s t" and "store_ok s" and "get_market s i = None" and "get_market t i = Some m"
  shows "fresh_market m \<and> m_id m = i \<and> unat i = Suc (unat (get_market_count s))"
  using assms(1)
proof cases
  case (me_changed j k k')
  have "m_id k' = j" using me_changed(1) assms(2) market_change_id [OF me_changed(2)] by (simp add: store_ok_def)
  then show ?thesis using me_changed assms(3,4) by (auto simp: market_view_def get_market_def put_market_def split: if_splits)
qed (use assms(3,4) in \<open>auto simp: market_view_def get_market_def split: if_splits\<close>)

lemma reachable_store: "reachable now s \<Longrightarrow> store_ok s"
  by (drule reachable_contract_inv) (simp add: contract_inv_def markets_inv_def)

section \<open>Authority\<close>

text \<open>The calls reserved to the admin.\<close>

definition admin_call :: "call \<Rightarrow> bool" where
  "admin_call c = (case c of
      Propose_admin _ \<Rightarrow> True | Cancel_admin_transfer \<Rightarrow> True
    | Set_dispute_window _ \<Rightarrow> True | Set_dispute_window_bounds _ _ \<Rightarrow> True
    | Set_circuit_breaker _ \<Rightarrow> True | Set_circuit_breaker_threshold _ \<Rightarrow> True
    | Set_base_fee _ \<Rightarrow> True | Set_fee_admin _ \<Rightarrow> True | Set_oracle_result _ _ _ \<Rightarrow> True
    | Resolve_market _ _ \<Rightarrow> True | Set_governance_token _ \<Rightarrow> True | Reset_monitoring \<Rightarrow> True
    | Set_guardian _ \<Rightarrow> True | Set_creator_reputation _ _ \<Rightarrow> True | Set_creation_deposit _ \<Rightarrow> True
    | Set_creation_fee _ \<Rightarrow> True | Set_protocol_treasury _ \<Rightarrow> True | Initialize_guardians _ \<Rightarrow> True
    | Add_guardian _ \<Rightarrow> True | Remove_guardian _ \<Rightarrow> True | Execute_guardian_removal \<Rightarrow> True
    | Initiate_upgrade _ \<Rightarrow> True | Set_timelock_duration _ \<Rightarrow> True | Cancel_market_admin _ \<Rightarrow> True
    | _ \<Rightarrow> False)"

lemma thn_require_admin:
  "thn (require_admin e) m s = Ok r t \<Longrightarrow> \<exists>a. get_admin s = Some a \<and> a \<in> authorized e"
  by (auto simp: run_simps get_admin_def)

lemma admin_call_authorized:
  "admin_call c \<Longrightarrow> entry e c s = Ok r t \<Longrightarrow> \<exists>a. get_admin s = Some a \<and> a \<in> authorized e"
  by (cases c; simp add: admin_call_def)
     (unfold predictiq_defs PredictIQ_resolve_market_def setup_defs set_state_def set_threshold_def
       set_creator_reputation_def add_guardian_def remove_guardian_def execute_guardian_removal_def
       initiate_upgrade_def set_timelock_duration_def cancel_market_admin_def, (erule thn_require_admin)+)

section \<open>A concrete run\<close>

text \<open>A freshly deployed contract on which a market is created and a bet is placed.\<close>

definition new_ledger :: "balances st" where
  "new_ledger = final (empty_st (\<lambda>_. 1000)) (invoke (entry (sample_ctx 5 {}) (Initialize (Addr 1) 0))
     (empty_st (\<lambda>_. 1000)))"

definition market_ledger :: "balances st" where
  "market_ledger = final new_ledger (invoke (entry (sample_ctx 10 {Addr 2})
     (Create_market (Addr 2) ''rain'' [''yes'', ''no''] 1000 100000 sample_oracle Basic (Addr 5) 0 0))
     new_ledger)"

definition bet_ledger :: "balances st" where
  "bet_ledger = final market_ledger (invoke (entry (sample_ctx 500 {Addr 3})
     (Place_bet (Addr 3) 1 0 100 (Addr 5) None)) market_ledger)"

definition resolved_ledger :: "balances st" where
  "resolved_ledger = final market_ledger (invoke (entry (sample_ctx 600 {Addr 1}) (Resolve_market 1 0)) market_ledger)"

lemmas create_eval = PredictIQ_initialize_def set_admin_def create_market_def
  create_market_with_dispute_window_def validate_new_market_def charge_creator_def
  require_not_paused_for_high_risk_def get_state_def get_creator_reputation_def tier_allowed_def
  get_creation_deposit_def get_creation_fee_def get_market_count_def resolve_market_dispute_window_def
  validate_dispute_window_def get_dispute_window_bounds_def get_default_dispute_window_def
  DEFAULT_DISPUTE_WINDOW_SECONDS_def MIN_DISPUTE_WINDOW_SECONDS_def MAX_DISPUTE_WINDOW_SECONDS_def
  set_market_def set_market_dispute_window_def set_status_def MIN_DEADLINE_GAP_def
  MAX_OUTCOMES_PER_MARKET_def in_i128_def Let_def TTL_LOW_THRESHOLD_def TTL_HIGH_THRESHOLD_def
  GOV_TTL_LOW_THRESHOLD_def GOV_TTL_HIGH_THRESHOLD_def new_market_def quiet_def final_def emit_defs sample_defs run_eval

lemmas bet_eval = place_bet_def check_bet_def check_token_not_frozen_def safe_transfer_def
  calculate_tiered_fee_def calculate_tiered_fee_with_base_def checked_mul_i128_def checked_div_i128_def
  checked_add_i128_def BPS_DENOMINATOR_def TIER_DENOMINATOR_BPS_def get_base_fee_def collect_fee_def
  fee_write_defs fee_read_defs credit_bet_def get_bet_def get_outcome_stake_def set_outcome_stake_def
  increment_outcome_bet_count_def omap_get_def set_bet_def bump_bet_ttl_def bump_market_ttl_def
  update_market_def market_write_defs get_market_def track_referral_def add_referral_reward_def
  BET_TTL_LOW_THRESHOLD_def BET_TTL_HIGH_THRESHOLD_def signed_divide_int_def

lemma ledger_wasm: "wasm new_ledger = None" "wasm market_ledger = None"
  by (simp_all add: market_ledger_def new_ledger_def create_eval)

lemma market_ledger_market: "get_market market_ledger 1 = Some sample_market"
  by (simp add: market_ledger_def new_ledger_def get_market_def create_eval)

lemma bet_ledger_market: "get_market bet_ledger 1 = Some (sample_market\<lparr>m_total_staked := 100,
    m_outcome_stakes := [(0, 100)], m_winner_counts := [(0, 1)]\<rparr>)"
  by (simp add: bet_ledger_def market_ledger_def new_ledger_def bet_eval create_eval)

lemma resolved_ledger_market: "get_market resolved_ledger 1 = Some (sample_market\<lparr>m_status := Resolved,
    m_winning_outcome := Some 0, m_resolved_at := Some 600\<rparr>)"
  by (simp add: resolved_ledger_def market_ledger_def new_ledger_def PredictIQ_resolve_market_def resolve_market_def
      update_market_def market_write_defs get_market_def get_outcome_stake_def omap_get_def create_eval)

lemma reachable_ledgers:
  "reachable 5 new_ledger" "reachable 10 market_ledger" "reachable 500 bet_ledger" "reachable 600 resolved_ledger"
proof -
  have "wasm (empty_st (\<lambda>_. 1000) :: balances st) = None" by (simp add: empty_st_def)
  from called [OF deployed [of 0] _ this, of "sample_ctx 5 {}" "Initialize (Addr 1) 0"]
  show n: "reachable 5 new_ledger" by (simp add: new_ledger_def del: entry.simps)
  from called [OF n _ ledger_wasm(1), of "sample_ctx 10 {Addr 2}"
      "Create_market (Addr 2) ''rain'' [''yes'', ''no''] 1000 100000 sample_oracle Basic (Addr 5) 0 0"]
  show m: "reachable 10 market_ledger" by (simp add: market_ledger_def del: entry.simps)
  from called [OF m _ ledger_wasm(2), of "sample_ctx 500 {Addr 3}" "Place_bet (Addr 3) 1 0 100 (Addr 5) None"]
  show "reachable 500 bet_ledger" by (simp add: bet_ledger_def del: entry.simps)
  from called [OF m _ ledger_wasm(2), of "sample_ctx 600 {Addr 1}" "Resolve_market 1 0"]
  show "reachable 600 resolved_ledger" by (simp add: resolved_ledger_def del: entry.simps)
qed

end
