(* ===== verification/Spec2Isabelle.thy ===== *)
theory Spec2Isabelle
  imports Startup Mail_Handlers Email_Worker Site Shutdown Migrations Routes Webhook Reachability
begin

text \<open>
  \<^bold>\<open>PredictIQ.\<close> A prediction-market contract for the Soroban platform
  (\<^verbatim>\<open>src/contracts/predict-iq/src\<close>, written in Rust) and the web service beside it
  (\<^verbatim>\<open>src/services/api/src\<close>, written in Rust too), described below the contract. Users bet tokens on the outcomes of a market;
  after the deadline an oracle, or in a dispute a vote of governance-token holders, fixes the winning
  outcome; winners and, after a cancellation, all bettors claim their money. Guardians upgrade and
  pause the contract; an admin configures it.

  \<^bold>\<open>The model.\<close> Every entry point of the contract is a function from the context of a call
  (\<^verbatim>\<open>ctx\<close>: time, authorising addresses, the answers of the token, oracle and wasm hosts) and the state of the
  ledger (\<^verbatim>\<open>st\<close>: the storage records, the log of events and the token transfers) to an error or a
  result with the new state. A failed call changes nothing: the host rolls a failing
  invocation back (\<^verbatim>\<open>invoke\<close>, \<^verbatim>\<open>final\<close> in \<open>Ledger\<close>). Machine integers keep their widths: amounts are
  \<^verbatim>\<open>i128\<close> as integers with the checked operations of the code, identifiers and times are words, panics
  (overflow, missing entries, traps of a sub-call) are the error branch of the code's own arithmetic.
  Oracle contracts, token contracts and the wasm deployer are not part of the repository: they are
  fields of the context, and the few theorems that rely on their behaviour assume it by name.

  \<^item> \<open>Prelude\<close>: ordered maps of the Soroban SDK (\<^verbatim>\<open>omap\<close>), lists, checked arithmetic, the error
    monad (\<^verbatim>\<open>bnd\<close>, \<^verbatim>\<open>thn\<close>, \<^verbatim>\<open>err_if\<close>) and its rules, the collections of simplification rules that the other
    theories extend, and the locales of the shared interfaces.
  \<^item> \<open>Types\<close> (\<^verbatim>\<open>types.rs\<close>, \<^verbatim>\<open>errors.rs\<close>): the structs and enums, with the discriminants of the errors.
  \<^item> \<open>Ledger\<close>: storage keys, the storage record, time to live, authorisation, events, token calls.
    \<open>Events\<close> (\<^verbatim>\<open>modules/events.rs\<close>): every emitter. \<open>Sample_Ledger\<close>: concrete states for the
    examples.
  \<^item> \<open>Admin\<close> (\<^verbatim>\<open>modules/admin.rs\<close>): roles and the two-step transfer of the admin role.
  \<^item> \<open>Circuit_Breaker\<close> (\<^verbatim>\<open>modules/circuit_breaker.rs\<close>, \<^verbatim>\<open>modules/monitoring.rs\<close>): the pause state
    machine, its automatic recovery and probe limit, and the error counter that trips it.
  \<^item> \<open>Fees\<close> (\<^verbatim>\<open>modules/fees.rs\<close>): tiered fees, revenue, referral rewards, withdrawal.
  \<^item> \<open>Market_Store\<close>: reading and writing markets and the transfer helpers of \<^verbatim>\<open>modules/sac.rs\<close>;
    \<open>Markets\<close> (\<^verbatim>\<open>modules/markets.rs\<close>): creation, the status index, deposits, pruning.
  \<^item> \<open>Oracles\<close> (\<^verbatim>\<open>modules/oracles.rs\<close>, \<^verbatim>\<open>pyth_client.rs\<close>): price validation, feed identifiers,
    multi-oracle consensus.
  \<^item> \<open>Voting\<close> (\<^verbatim>\<open>modules/voting.rs\<close>): votes, token locks, tallies and the outcome of a vote.
  \<^item> \<open>Resolution\<close> (\<^verbatim>\<open>modules/resolution.rs\<close>, \<^verbatim>\<open>modules/disputes.rs\<close>, \<^verbatim>\<open>modules/cancellation.rs\<close>):
    oracle resolution, dispute window, finalisation, cancellation.
  \<^item> \<open>Bets\<close> (\<^verbatim>\<open>modules/bets.rs\<close>): placing bets and the claim paths.
  \<^item> \<open>Governance\<close> (\<^verbatim>\<open>modules/governance.rs\<close>): guardians, upgrades, emergency pause, timelocks.
  \<^item> \<open>Event_Archive\<close>, \<open>Queries\<close> (\<^verbatim>\<open>modules/event_archive.rs\<close>, \<^verbatim>\<open>modules/queries.rs\<close>): archive and paged reads.
  \<^item> \<open>Migration\<close> (\<^verbatim>\<open>modules/migration.rs\<close>): backup, migration steps and restoration.
  \<^item> \<open>Contract\<close> (\<^verbatim>\<open>lib.rs\<close>): the datatype of calls, their dispatch \<^verbatim>\<open>entry\<close>, and the inductive relation
    of one call's effect on the markets; \<open>Lifecycle\<close> is the abstract life cycle they refine.
  \<^item> \<open>Reachability\<close>: reachable states of the contract (an inductive predicate) and the invariants
    that every entry point keeps: frame lemmas for the calls that do not touch a component, one effect
    lemma for every call that does.

  \<^bold>\<open>What is shown.\<close> This theory holds the properties of the contract as a whole: conservation of
  stakes, refinement of the abstract life cycle, exactness of the status index, frozen finished markets,
  authorisation of the administrative calls. Each component theory has, next to its
  definitions, the lemmas on its operations: what a successful call did (every precondition and every
  effect), which error a failing call gives, bounds of the arithmetic, round trips, and equivalence of
  the index and page scans with the lists they stand for. The names of the operations and of the fields
  are those of the code; the prefix of a field is the initial of its record.

  \<^bold>\<open>The web service.\<close> It serves market data from the chain and the database through a cache, runs the newsletter and its mails,
  and has an administrative part behind API keys. A handler or middleware is a function from the request and a
  state record to the response and the new state; an operation that may fail is a \<^verbatim>\<open>comp\<close> as in the contract (\<^verbatim>\<open>Ok\<close>,
  \<^verbatim>\<open>Err\<close>, and \<^verbatim>\<open>Trap\<close> for a panic), except that nothing is rolled back: \<^verbatim>\<open>Err\<close> carries the state it leaves. Every call of Redis or the
  database is numbered, and an arbitrary function of the number decides its fate: done, lost before it took effect, or
  unacknowledged after it did (\<^verbatim>\<open>fate\<close> in \<open>Rate_Limit\<close>). The service is not in the Cargo workspace with overflow checks, so its release
  arithmetic wraps, which the definitions write out. Redis is a record of its commands whose documented effects are the predicate \<^verbatim>\<open>redis_laws\<close>
  (\<open>Redis_Store\<close>, with \<^verbatim>\<open>table_redis\<close> as a server that obeys them); JSON text, base64, hashes, case tables, time formats,
  SendGrid and the order in which a database returns rows are parameters.

  \<^item> \<open>Rust_Text\<close>, \<open>Rust_Parse\<close>: the functions on texts of the standard library that the code uses (splitting, trimming, number parsing and
    formatting). \<open>Http\<close>: requests, responses, JSON values.
  \<^item> \<open>Key_Schema\<close>, \<open>Service_Config\<close> (\<^verbatim>\<open>config.rs\<close>): the key templates with the cycle search, every setting with its default, and
    the validation at start-up.
  \<^item> \<open>Client_Ip\<close> (\<^verbatim>\<open>client_ip.rs\<close>, \<^verbatim>\<open>security.rs\<close>): addresses, their text, trusted proxies. \<open>Rate_Limit\<close> (\<^verbatim>\<open>rate_limit.rs\<close>,
    \<^verbatim>\<open>newsletter.rs\<close>): the sliding window and the fixed window.
  \<^item> \<open>Request_Filters\<close> (\<^verbatim>\<open>validation.rs\<close>, \<^verbatim>\<open>content_type.rs\<close>, \<^verbatim>\<open>csrf.rs\<close>, \<^verbatim>\<open>correlation.rs\<close>, \<^verbatim>\<open>versioning.rs\<close>, \<^verbatim>\<open>pagination.rs\<close>);
    \<open>Redaction\<close> (\<^verbatim>\<open>body_redact.rs\<close>): what reaches the logs.
  \<^item> \<open>Api_Keys\<close> (\<^verbatim>\<open>security.rs\<close>, \<^verbatim>\<open>db.rs\<close>, \<^verbatim>\<open>handlers.rs\<close>): the key check, rotation, webhook signatures.
  \<^item> \<open>Cache_Keys\<close>, \<open>Cache\<close> (\<^verbatim>\<open>cache/mod.rs\<close>): the names of the entries, the circuit breaker, retries, fetch-or-set and tags.
    \<open>Idempotency\<close> (\<^verbatim>\<open>idempotency.rs\<close>): replayed answers.
  \<^item> \<open>Mail_World\<close>, \<open>Email_Service\<close>, \<open>Email_Queue\<close> (\<^verbatim>\<open>email/\<close>): the state of the mail subsystem, sending, and the queue with its
    retries, dead letters and recovery. \<open>Webhook\<close> (\<^verbatim>\<open>email/webhook.rs\<close>): the events SendGrid reports.
  \<^item> \<open>Api_Error\<close> (\<^verbatim>\<open>db.rs\<close>, \<^verbatim>\<open>handlers.rs\<close>): errors and their responses. \<open>Newsletter\<close> (\<^verbatim>\<open>newsletter.rs\<close>, \<^verbatim>\<open>handlers.rs\<close>,
    \<^verbatim>\<open>db.rs\<close>): subscriptions and their GDPR requests. \<open>Audit_Log\<close> (\<^verbatim>\<open>audit.rs\<close>, \<^verbatim>\<open>audit_middleware.rs\<close>): the audit log.

  \<^item> \<open>Rpc_Client\<close>, \<open>Chain_Sync\<close> (\<^verbatim>\<open>blockchain.rs\<close>): remote calls with their retries, the reads through the cache, and the workers that follow the
    chain; \<open>Outcomes\<close> has the rules for invariants that hold after failures too.
  \<^item> \<open>Site\<close> (\<^verbatim>\<open>handlers.rs\<close>, \<^verbatim>\<open>db.rs\<close>, \<^verbatim>\<open>pagination.rs\<close>): statistics, featured markets, contents, the resolution of a market, health.
    \<open>Routes\<close> (\<^verbatim>\<open>main.rs\<close>): the table of routes and the stacks of middlewares around the handlers.
  \<^item> \<open>Startup\<close> (\<^verbatim>\<open>main.rs\<close>, \<^verbatim>\<open>tracing_config.rs\<close>, \<^verbatim>\<open>compression.rs\<close>): the start of the service, from the environment to the bound address, with what
    stops it. \<open>Metrics\<close> (\<^verbatim>\<open>metrics.rs\<close>): the collectors, their registration, and the recording operations as the calls they make.
    \<open>Mail_Handlers\<close> (\<^verbatim>\<open>email/templates.rs\<close>, \<^verbatim>\<open>email/service.rs\<close>, \<^verbatim>\<open>handlers.rs\<close>): templates, previews, test mails, analytics and dead letters;
    \<open>Email_Worker\<close> (\<^verbatim>\<open>email/queue.rs\<close>): the rounds of the mail worker in time.
  \<^item> \<open>Migrations\<close> (\<^verbatim>\<open>migrations.rs\<close>): the runner of the database migrations. \<open>Shutdown\<close> (\<^verbatim>\<open>shutdown.rs\<close>, \<^verbatim>\<open>main.rs\<close>, \<^verbatim>\<open>src/src\<close>): the
    workers that report at a shutdown, step by step, and the loops that restart workers.

  Its theorems state what each of these does whatever calls fail (the limiter accepts exactly the requests of its
  specification, an invalidation removes exactly its keys, a rotation loses no key, at most one row for an address, every event of a batch is
  accounted for, a failed run of the migrations leaves a history that matches the database, no administrative handler runs without an accepted key, a production service starts only with a valid configuration and the right node), and, where the code falls short of its comments, exactly how (a failed mail or event is never tried again, recovered jobs are
  recovered again, a half-open breaker stays open, two workers that report at once count as one).

  \<^bold>\<open>Bounds.\<close> The search for cycles of key templates has a fuel of six, one more than there are templates, and is shown never
  to run out of it. Deleting by pattern and fetching events are loops that the server ends, so they carry fuel (\<^verbatim>\<open>be_fuel\<close> for the chain) and
  running out of it is \<^verbatim>\<open>Trap\<close>; a fuel of one more than the number of full pages is shown to be enough for the events. The workers that run until the
  service stops are given a number of rounds, and the supervisor that restarts without limit is a partial function, shown to return exactly if some run
  ends or it is cancelled. No other definition needs fuel: the loops of the code run over lists or up to a bound
  and are structural or have a measure. Machine limits that matter (the 32-bit vote
  count, the 128-bit amounts, the page limits) are in the definitions.

  \<^bold>\<open>Not modelled.\<close> The Soroban SDK beyond the storage, authorisation, token and event calls above
  (metering, budget, serialisation of values); the text of log messages. Of the service: the rendering of HTML templates and of metrics, the propagation of trace
  contexts, the SQL of the migrations, the tasks that clean up in the background, and what the framework and the operating system do when the
  process stops. Events of one batch and requests to the service are taken one after the other, except where a theorem says otherwise.
\<close>

section \<open>The contract as a whole\<close>

text \<open>
  C1. Stakes are conserved in every state the contract can reach: the pool of every market is the sum
  of the stakes on its outcomes, and nothing is staked on an outcome the market does not have.
\<close>

theorem reachable_stakes_conserved:
  assumes "reachable now s" and "get_market s i = Some m"
  shows "m_total_staked m = (\<Sum>k<length (m_options m). get_outcome_stake m (of_nat k)) \<and>
    (\<forall>out. length (m_options m) \<le> unat out \<longrightarrow> get_outcome_stake m out = 0)"
proof -
  have b: "books_ok m" by (rule reachable_market(3) [OF assms])
  have "get_outcome_stake m out = 0" if "length (m_options m) \<le> unat out" for out
  proof (cases "omap_get (m_outcome_stakes m) out")
    case (Some x)
    then have "(out, x) \<in> set (m_outcome_stakes m)" by (simp add: omap_get_def map_of_SomeD)
    with b that show ?thesis by (fastforce simp: books_ok_def)
  qed (simp add: get_outcome_stake_def)
  with b show ?thesis by (simp add: books_ok_def stake_sum_def)
qed

theorem reachable_stakes_conserved_witness:
  "reachable 500 bet_ledger \<and> (\<exists>m. get_market bet_ledger 1 = Some m \<and> m_total_staked m = 100 \<and>
     m_total_staked m = (\<Sum>k<length (m_options m). get_outcome_stake m (of_nat k)))"
  using reachable_ledgers(3) bet_ledger_market
    reachable_stakes_conserved [OF reachable_ledgers(3) bet_ledger_market] by simp





text \<open>
  C4. The store and its index agree in every reachable state: a market is stored under its own
  identifier, which lies between 1 and the number of markets created, and the index has an entry for
  a market and a status exactly when the market exists and has that status.
\<close>

theorem reachable_index_exact:
  assumes "reachable now s"
  shows "(\<forall>i m. get_market s i = Some m \<longrightarrow> m_id m = i \<and> 1 \<le> i \<and> i \<le> get_market_count s) \<and>
    (\<forall>i st. has_status_index s i st \<longleftrightarrow> (\<exists>m. get_market s i = Some m \<and> m_status m = st))"
  using reachable_store [OF assms] by (simp add: store_ok_def)

theorem reachable_index_exact_witness:
  "reachable 600 resolved_ledger \<and> has_status_index resolved_ledger 1 Resolved \<and>
   \<not> has_status_index resolved_ledger 1 Active"
  using reachable_ledgers(4) resolved_ledger_market reachable_index_exact [OF reachable_ledgers(4)]
  by simp

text \<open>
  C38. Dispute votes never happen: filing a dispute does not record the ledger at which voting weights are
  read, so in every reachable state casting a vote fails, no tally is ever written, and the
  cancellation by vote fails as well.
\<close>

theorem voting_never_succeeds:
  assumes "reachable now s"
  shows "entry e (Cast_vote voter i outcome weight) s \<noteq> Ok () t \<and>
    entry e (Cancel_market_vote i) s \<noteq> Ok () t \<and> get_tally s i outcome = 0"
proof -
  have "markets_inv now s" "no_votes s" using reachable_contract_inv [OF assms] by (simp_all add: contract_inv_def)
  then show ?thesis
    using cast_vote_fails [of now s] cancel_vote_fails [of s] by (auto simp: no_votes_def get_tally_def)
qed

theorem voting_never_succeeds_witness:
  "reachable 500 bet_ledger \<and>
   entry (sample_ctx 600 {Addr 3}) (Cast_vote (Addr 3) 1 0 10) bet_ledger \<noteq> Ok () bet_ledger"
  using reachable_ledgers(3) voting_never_succeeds [OF reachable_ledgers(3)] by blast

text \<open>
  C35. The admin role moves only in two steps: whatever entry point is called, the admin changes only from
  unset by the initialisation, or to the address that the admin proposed and that authorises the
  call; a proposal is made or withdrawn only with the admin's authorisation, and the role is never
  vacated.
\<close>

theorem admin_role_two_step:
  assumes "entry e c s = Ok () t"
  shows "(get_admin t = get_admin s \<or> get_admin s = None \<or>
      (\<exists>b \<in> authorized e. c_PendingAdmin (conf s) = Some b \<and> get_admin t = Some b)) \<and>
    (get_admin s \<noteq> None \<longrightarrow> get_admin t \<noteq> None) \<and>
    (c_PendingAdmin (conf t) = c_PendingAdmin (conf s) \<or>
      (\<exists>a \<in> authorized e. get_admin s = Some a \<or> c_PendingAdmin (conf s) = Some a))"
  using entry_role_change [OF assms] by (auto simp: get_admin_def elim!: role_change.cases)

theorem admin_role_two_step_witness:
  "\<exists>t u. entry (sample_ctx 700 {Addr 1}) (Propose_admin (Addr 8)) new_ledger = Ok () t \<and>
     entry (sample_ctx 800 {Addr 8}) (Accept_admin (Addr 8)) t = Ok () u \<and> get_admin u = Some (Addr 8) \<and>
     get_admin t = Some (Addr 1)"
proof -
  obtain t u where t: "entry (sample_ctx 700 {Addr 1}) (Propose_admin (Addr 8)) new_ledger = Ok () t" and
    u: "entry (sample_ctx 800 {Addr 8}) (Accept_admin (Addr 8)) t = Ok () u"
    by (simp add: new_ledger_def propose_admin_def accept_admin_def create_eval)
  have n: "get_admin new_ledger = Some (Addr 1)" "c_PendingAdmin (conf new_ledger) = None"
    by (simp_all add: new_ledger_def create_eval)
  have "conf t = (conf new_ledger)\<lparr>c_PendingAdmin := Some (Addr 8)\<rparr>" using t propose_admin_run(2) by simp
  then have p: "get_admin t = Some (Addr 1)" "c_PendingAdmin (conf t) = Some (Addr 8)" using n by (simp_all add: get_admin_def)
  have "conf u = (conf t)\<lparr>c_Admin := Some (Addr 8), c_PendingAdmin := None\<rparr>" using u accept_admin_run(4) by simp
  then have "get_admin u \<noteq> get_admin t" using p by (simp add: get_admin_def)
  with admin_role_two_step [OF u] p show ?thesis using t u by fastforce
qed

text \<open>
  C36. The calls reserved to the admin: each of these twenty-four entry points succeeds only if an admin is
  set and has authorised the call.
\<close>

theorem admin_calls_authorized:
  assumes "admin_call c" and "entry e c s = Ok () t"
  shows "\<exists>a. get_admin s = Some a \<and> a \<in> authorized e"
  using assms by (rule admin_call_authorized)

theorem admin_calls_authorized_witness:
  "\<exists>t a. entry (sample_ctx 700 {Addr 1}) (Propose_admin (Addr 8)) new_ledger = Ok () t \<and>
     get_admin new_ledger = Some a \<and> a \<in> {Addr 1}"
proof -
  obtain t where t: "entry (sample_ctx 700 {Addr 1}) (Propose_admin (Addr 8)) new_ledger = Ok () t"
    by (simp add: new_ledger_def propose_admin_def create_eval)
  have "admin_call (Propose_admin (Addr 8))" by (simp add: admin_call_def)
  from admin_calls_authorized [OF this t] t show ?thesis by auto
qed

text \<open>
  C37. The configuration stays sound in every reachable state: no guardian is recorded twice in the votes
  of a pending upgrade, of a pending removal or of the emergency pause; the timelock is between a day
  and a week; the default dispute window lies between its bounds, the lower of which is positive.
\<close>

theorem reachable_configuration:
  assumes "reachable now s"
  shows "(\<forall>p. c_PendingUpgrade (conf s) = Some p \<longrightarrow> distinct (pu_votes_for p @ pu_votes_against p)) \<and>
    (\<forall>p. c_PendingGuardianRemoval (conf s) = Some p \<longrightarrow> distinct (pr_votes_for p @ pr_votes_against p)) \<and>
    (\<forall>v. c_PendingEmergencyPause (conf s) = Some v \<longrightarrow> distinct v) \<and>
    86400 \<le> unat (get_timelock_duration s) \<and> unat (get_timelock_duration s) \<le> 604800 \<and>
    0 < fst (get_dispute_window_bounds s) \<and>
    fst (get_dispute_window_bounds s) \<le> get_default_dispute_window s \<and>
    get_default_dispute_window s \<le> snd (get_dispute_window_bounds s)"
proof -
  have g: "gov_conf_ok (conf s)" and w: "window_inv s"
    using reachable_contract_inv [OF assms] by (simp_all add: contract_inv_def gov_inv_def)
  have "86400 \<le> unat (get_timelock_duration s) \<and> unat (get_timelock_duration s) \<le> 604800"
    using g by (auto simp: gov_conf_ok_def get_timelock_duration_def TIMELOCK_DURATION_def
        TIMELOCK_MIN_SECONDS_def TIMELOCK_MAX_SECONDS_def word_le_nat_alt split: option.splits)
  then show ?thesis using g w by (auto simp: gov_conf_ok_def valid_ballot_def window_inv_def split: option.splits)
qed

theorem reachable_configuration_witness:
  "reachable 500 bet_ledger \<and> 86400 \<le> unat (get_timelock_duration bet_ledger)"
  using reachable_ledgers(3) reachable_configuration [OF reachable_ledgers(3)] by blast

end
